(* ===== verification/Prelude.thy ===== *)
theory Prelude
  imports Complex_Main "HOL-Library.Word"
begin

text \<open>
  Shared vocabulary of the development: the fixed-width integer types of the code, C++
  containers seen as lists (\<open>find_if\<close>, \<open>erase_at\<close>), \<open>std::clamp\<close>, and the little-endian
  readers that several components of the program declare privately with the same body. The
  lemma collection \<open>le_simps\<close> gathers the byte-level round trips.
\<close>

unbundle bit_operations_syntax

type_synonym u8 = "8 word"
type_synonym u16 = "16 word"
type_synonym u32 = "32 word"
type_synonym u64 = "64 word"
type_synonym bytes = "8 word list"

named_theorems le_simps

text \<open>A C++ double, as a rational.\<close>

type_synonym double = rat

declare upt_rec_numeral [simp del]

section \<open>Sequence containers\<close>

text \<open>\<open>std::find_if\<close>: the index of the first element that satisfies the predicate, \<open>None\<close> for end().\<close>

fun find_if :: "('a \<Rightarrow> bool) \<Rightarrow> 'a list \<Rightarrow> nat option" where
  "find_if p [] = None"
| "find_if p (x # xs) = (if p x then Some 0 else map_option Suc (find_if p xs))"

text \<open>\<open>container.erase(iterator)\<close>.\<close>

definition erase_at :: "nat \<Rightarrow> 'a list \<Rightarrow> 'a list" where
  "erase_at i xs = take i xs @ drop (Suc i) xs"

definition clampI :: "int \<Rightarrow> int \<Rightarrow> int \<Rightarrow> int" where
  "clampI v lo hi = (if v < lo then lo else if hi < v then hi else v)"

lemma find_if_None: "find_if p xs = None \<longleftrightarrow> (\<forall>x\<in>set xs. \<not> p x)"
  by (induction xs) auto

lemma find_if_Some:
  "find_if p xs = Some i \<Longrightarrow> i < length xs \<and> p (xs ! i) \<and> (\<forall>j<i. \<not> p (xs ! j))"
proof (induction xs arbitrary: i)
  case Nil
  then show ?case by simp
next
  case (Cons x xs)
  show ?case
  proof (cases "p x")
    case True
    with Cons.prems show ?thesis by simp
  next
    case False
    with Cons.prems obtain k where k: "find_if p xs = Some k" "i = Suc k" by auto
    from Cons.IH[OF k(1)] False k(2) show ?thesis by (auto simp: less_Suc_eq_0_disj)
  qed
qed

lemma find_if_split:
  assumes "find_if p xs = Some i"
  shows "xs = take i xs @ xs ! i # drop (Suc i) xs" and "p (xs ! i)" and "xs ! i \<in> set xs"
    and "\<forall>x\<in>set (take i xs). \<not> p x"
proof -
  from find_if_Some[OF assms] have i: "i < length xs" "p (xs ! i)" "\<forall>j<i. \<not> p (xs ! j)" by auto
  show "xs = take i xs @ xs ! i # drop (Suc i) xs" using i(1) by (simp add: id_take_nth_drop)
  show "p (xs ! i)" by (rule i(2))
  show "xs ! i \<in> set xs" using i(1) by simp
  show "\<forall>x\<in>set (take i xs). \<not> p x" using i by (auto simp: in_set_conv_nth)
qed

lemma find_if_append:
  "find_if p (xs @ ys) = (case find_if p xs of Some i \<Rightarrow> Some i
     | None \<Rightarrow> map_option (\<lambda>i. i + length xs) (find_if p ys))"
  by (induction xs) (auto split: option.splits simp: option.map_comp comp_def option.map_ident)

lemma erase_at_append [simp]: "erase_at (length xs) (xs @ y # ys) = xs @ ys"
  by (simp add: erase_at_def)

lemma length_erase_at: "i < length xs \<Longrightarrow> length (erase_at i xs) = length xs - 1"
  by (simp add: erase_at_def)

lemma set_erase_at: "set (erase_at i xs) \<subseteq> set xs"
  by (auto simp: erase_at_def dest: in_set_takeD in_set_dropD)

lemma sum_list_erase_at:
  fixes f :: "'a \<Rightarrow> nat"
  assumes "i < length xs"
  shows "sum_list (map f xs) = f (xs ! i) + sum_list (map f (erase_at i xs))"
proof -
  have "sum_list (map f xs) = sum_list (map f (take i xs @ xs ! i # drop (Suc i) xs))"
    using id_take_nth_drop[OF assms] by simp
  then show ?thesis by (simp add: erase_at_def)
qed

lemma clampI_bounds: "lo \<le> hi \<Longrightarrow> lo \<le> clampI v lo hi \<and> clampI v lo hi \<le> hi"
  by (simp add: clampI_def)

section \<open>Words and natural numbers\<close>

lemma unat_u8_less [simp]: "unat (w :: u8) < 256"
proof -
  have "unat w < 2 ^ LENGTH(8)" by (rule unsigned_less)
  then show ?thesis by simp
qed

lemma unat_u16_less [simp]: "unat (w :: u16) < 65536"
proof -
  have "unat w < 2 ^ LENGTH(16)" by (rule unsigned_less)
  then show ?thesis by simp
qed

lemma unat_of_nat_u8 [simp]: "i < 256 \<Longrightarrow> unat (of_nat i :: u8) = i"
  by (simp add: unsigned_of_nat take_bit_eq_mod)

lemma unat_of_nat_u16 [simp]: "i < 65536 \<Longrightarrow> unat (of_nat i :: u16) = i"
  by (simp add: unsigned_of_nat take_bit_eq_mod)

lemma unat_ucast_8_16 [simp]: "unat (ucast (w :: u8) :: u16) = unat w"
  using unat_u8_less[of w] by (simp add: unsigned_ucast_eq take_bit_eq_mod del: unat_u8_less)

lemma ucast_down_8_16 [simp]: "ucast (ucast (w :: u8) :: u16) = w"
  by (rule bit_word_eqI) (auto simp: bit_simps)

section \<open>Little-endian readers\<close>

definition readLeU16 :: "bytes \<Rightarrow> nat \<Rightarrow> u16" where
  "readLeU16 p i = ucast (p ! i) OR push_bit 8 (ucast (p ! (i + 1)))"

definition readLeU32 :: "bytes \<Rightarrow> nat \<Rightarrow> u32" where
  "readLeU32 p i = ucast (p ! i) OR push_bit 8 (ucast (p ! (i + 1)))
     OR push_bit 16 (ucast (p ! (i + 2))) OR push_bit 24 (ucast (p ! (i + 3)))"

definition writeU16LE :: "u16 \<Rightarrow> bytes" where
  "writeU16LE v = [ucast (v AND 0xFF), ucast (drop_bit 8 v AND 0xFF)]"

definition writeU32LE :: "u32 \<Rightarrow> bytes" where
  "writeU32LE v = [ucast (v AND 0xFF), ucast (drop_bit 8 v AND 0xFF),
     ucast (drop_bit 16 v AND 0xFF), ucast (drop_bit 24 v AND 0xFF)]"

definition writeU64LE :: "u64 \<Rightarrow> bytes" where
  "writeU64LE v = writeU32LE (ucast (v AND 0xFFFFFFFF)) @ writeU32LE (ucast (drop_bit 32 v AND 0xFFFFFFFF))"

lemma length_write_le [simp]:
  "length (writeU16LE a) = 2" "length (writeU32LE b) = 4" "length (writeU64LE c) = 8"
  by (simp_all add: writeU16LE_def writeU32LE_def writeU64LE_def)

lemma bit_255 [simp]: "bit (255 :: int) n \<longleftrightarrow> n < 8"
proof -
  have eq: "(255 :: int) = mask 8" by (simp add: mask_eq_exp_minus_1)
  show ?thesis unfolding eq by (auto simp: bit_mask_iff)
qed

lemma bit_4294967295 [simp]: "bit (4294967295 :: int) n \<longleftrightarrow> n < 32"
proof -
  have eq: "(4294967295 :: int) = mask 32" by (simp add: mask_eq_exp_minus_1)
  show ?thesis unfolding eq by (auto simp: bit_mask_iff)
qed

lemma le16_bytes [le_simps]:
  "ucast (ucast (v AND 255) :: u8) OR push_bit 8 (ucast (ucast (drop_bit 8 v AND 255) :: u8)) = (v :: u16)"
  by (rule bit_word_eqI) (auto simp: bit_simps)

lemma le32_bytes [le_simps]:
  "ucast (ucast (v AND 255) :: u8) OR push_bit 8 (ucast (ucast (drop_bit 8 v AND 255) :: u8))
     OR push_bit 16 (ucast (ucast (drop_bit 16 v AND 255) :: u8))
     OR push_bit 24 (ucast (ucast (drop_bit 24 v AND 255) :: u8)) = (v :: u32)"
proof (rule bit_word_eqI)
  fix n assume "n < LENGTH(32)"
  then consider "n < 8" | "8 \<le> n" "n < 16" | "16 \<le> n" "n < 24" | "24 \<le> n" "n < 32" by force
  then show "bit (ucast (ucast (v AND 255) :: u8) OR push_bit 8 (ucast (ucast (drop_bit 8 v AND 255) :: u8))
     OR push_bit 16 (ucast (ucast (drop_bit 16 v AND 255) :: u8))
     OR push_bit 24 (ucast (ucast (drop_bit 24 v AND 255) :: u8)) :: u32) n = bit v n"
    by cases (auto simp: bit_simps)
qed

lemma le64_halves [le_simps]:
  "ucast (ucast (v AND 4294967295) :: u32) OR push_bit 32 (ucast (ucast (drop_bit 32 v AND 4294967295) :: u32)) = (v :: u64)"
  by (rule bit_word_eqI) (auto simp: bit_simps)

lemma readLeU16_write [le_simps]: "readLeU16 (writeU16LE v) 0 = v"
  by (simp add: readLeU16_def writeU16LE_def le16_bytes)

lemma readLeU32_write [le_simps]: "readLeU32 (writeU32LE v) 0 = v"
  by (simp add: readLeU32_def writeU32LE_def le32_bytes)

end
