(* ===== verification/Gf256.thy ===== *)
theory Gf256
  imports Prelude
begin

text \<open>
  \<open>src/src/udp/gf256.cpp\<close>: the lazily built log/exp/multiplication tables of GF(256) and the
  four operations that read them. The tables are built by the code's own loops; the theory
  proves that the table product is multiplication of polynomials over GF(2) modulo
  \<open>x^8 + x^4 + x^3 + x^2 + 1\<close>, that the bytes with XOR and this product are a field, and the
  Cauchy-matrix fact the forward error correction rests on.
\<close>

section \<open>Table construction\<close>

definition kPrimPoly :: u16 where
  "kPrimPoly = 0x11D"

record tables =
  t_log :: bytes
  t_exp :: bytes
  mul_lut :: "bytes list"

text \<open>One iteration of the first loop: \<open>x\<close> is the 16-bit running power of alpha.\<close>

definition exp_log_step :: "nat \<Rightarrow> u16 \<times> bytes \<times> bytes \<Rightarrow> u16 \<times> bytes \<times> bytes" where
  "exp_log_step i s = (case s of (x, ex, lg) \<Rightarrow>
     let ex' = ex[i := ucast x];
         lg' = lg[unat (ucast x :: u8) := of_nat i];
         x1 = push_bit 1 x;
         x2 = (if x1 AND 0x100 \<noteq> 0 then x1 XOR kPrimPoly else x1)
     in (x2, ex', lg'))"

definition exp_log_loop :: "u16 \<times> bytes \<times> bytes" where
  "exp_log_loop = fold exp_log_step [0..<255] (1, replicate 512 0, replicate 256 0)"

definition dup_exp_loop :: "bytes \<Rightarrow> bytes" where
  "dup_exp_loop ex = fold (\<lambda>i ex. ex[i := ex ! (i - 255)]) [255..<512] ex"

definition mul_entry :: "bytes \<Rightarrow> bytes \<Rightarrow> nat \<Rightarrow> nat \<Rightarrow> u8" where
  "mul_entry lg ex coef v =
     (if coef = 0 \<or> v = 0 then 0
      else ex ! unat (ucast (lg ! coef) + ucast (lg ! v) :: u16))"

definition init :: tables where
  "init = (let (x, ex, lg) = exp_log_loop; ex' = dup_exp_loop ex
     in \<lparr>t_log = lg, t_exp = ex',
         mul_lut = map (\<lambda>coef. map (\<lambda>v. mul_entry lg ex' coef v) [0..<256]) [0..<256]\<rparr>)"

section \<open>Operations\<close>

definition mul :: "u8 \<Rightarrow> u8 \<Rightarrow> u8" where
  "mul a b = mul_lut init ! unat a ! unat b"

definition inv :: "u8 \<Rightarrow> u8" where
  "inv a = (if a = 0 then 0
     else t_exp init ! (255 - unat (t_log init ! unat a)))"

definition pow :: "u8 \<Rightarrow> u16 \<Rightarrow> u8" where
  "pow a e = (if e = 0 then 1 else if a = 0 then 0
     else t_exp init ! unat ((ucast (t_log init ! unat a) * ucast e :: u32) mod 255))"

text \<open>
  \<open>dst[i] ^= coef * src[i]\<close> for the first \<open>n\<close> bytes. The pointer arguments are lists; the
  caller owns at least \<open>n\<close> bytes of each, which is what the length of the result relies on.
\<close>

definition mulAdd :: "u8 \<Rightarrow> bytes \<Rightarrow> bytes \<Rightarrow> nat \<Rightarrow> bytes" where
  "mulAdd coef src dst n =
     (if coef = 0 \<or> n = 0 then dst
      else if coef = 1 then map2 (XOR) (take n dst) (take n src) @ drop n dst
      else (let lut = mul_lut init ! unat coef
            in map2 (\<lambda>d s. d XOR lut ! unat s) (take n dst) (take n src) @ drop n dst))"

section \<open>Specification: polynomials over GF(2) modulo the primitive polynomial\<close>

text \<open>Multiplication by x, and the shift-and-add product.\<close>

definition xtime :: "u8 \<Rightarrow> u8" where
  "xtime b = push_bit 1 b XOR (if bit b 7 then 0x1D else 0)"

primrec gsum :: "nat \<Rightarrow> u8 \<Rightarrow> u8 \<Rightarrow> u8" where
  "gsum 0 a b = 0"
| "gsum (Suc n) a b = gsum n a b XOR (if bit b n then (xtime ^^ n) a else 0)"

definition gmul :: "u8 \<Rightarrow> u8 \<Rightarrow> u8" where
  "gmul a b = gsum 8 a b"

lemma xtime_xor: "xtime (a XOR b) = xtime a XOR xtime b"
  by (rule bit_word_eqI) (auto simp: xtime_def bit_simps)

lemma xtime_0 [simp]: "xtime 0 = 0"
  by (simp add: xtime_def)

lemma xtime_funpow_xor: "(xtime ^^ n) (a XOR b) = (xtime ^^ n) a XOR (xtime ^^ n) b"
  by (induction n) (simp_all add: xtime_xor)

lemma xtime_funpow_0 [simp]: "(xtime ^^ n) 0 = 0"
  by (induction n) simp_all

lemma gsum_xor_left: "gsum n (a XOR a') b = gsum n a b XOR gsum n a' b"
  by (induction n) (simp_all add: xtime_funpow_xor ac_simps xor.left_commute)

lemma gsum_xor_right: "gsum n a (b XOR b') = gsum n a b XOR gsum n a b'"
  by (induction n) (auto simp: bit_xor_iff ac_simps xor.left_commute)

lemma gsum_xtime: "gsum n (xtime a) b = xtime (gsum n a b)"
  by (induction n) (simp_all add: xtime_xor funpow_swap1)

lemma gsum_0_left [simp]: "gsum n 0 b = 0"
  by (induction n) simp_all

lemma gsum_0_right [simp]: "gsum n a 0 = 0"
  by (induction n) simp_all

section \<open>The powers of the generator\<close>

definition alpha :: "nat \<Rightarrow> u8" where
  "alpha i = (xtime ^^ i) 1"

lemma xtime_funpow_numeral: "(xtime ^^ numeral k) b = (xtime ^^ pred_numeral k) (xtime b)"
  by (simp add: numeral_eq_Suc funpow_swap1)

lemma alpha_small: "n < 8 \<Longrightarrow> alpha n = push_bit n 1"
proof -
  have "\<forall>n\<in>set [0..<8]. alpha n = push_bit n 1" by code_simp
  then show "n < 8 \<Longrightarrow> alpha n = push_bit n 1" by simp
qed

lemma gsum_1: "n \<le> 8 \<Longrightarrow> gsum n 1 b = take_bit n b"
proof (induction n)
  case (Suc n)
  then have "gsum n 1 b = take_bit n b" "(xtime ^^ n) 1 = push_bit n 1"
    using alpha_small[of n] by (simp_all add: alpha_def)
  then show ?case
    by (auto intro!: bit_word_eqI simp: bit_simps less_Suc_eq)
qed simp

lemma gmul_1_left [simp]: "gmul 1 b = b"
  by (simp add: gmul_def gsum_1 take_bit_word_eq_self)

lemma gmul_alpha: "gmul (alpha i) b = (xtime ^^ i) b"
proof -
  have "gmul ((xtime ^^ i) a) b = (xtime ^^ i) (gmul a b)" for a
    by (induction i) (simp_all add: gmul_def gsum_xtime)
  from this[of 1] show ?thesis by (simp add: alpha_def)
qed

lemma alpha_add: "alpha (i + j) = (xtime ^^ i) (alpha j)"
  by (simp add: alpha_def funpow_add)

lemma inj_xtime: "xtime a = xtime b \<Longrightarrow> a = b"
proof -
  assume "xtime a = xtime b"
  then have z: "xtime (a XOR b) = 0" by (simp add: xtime_xor)
  have "c = 0" if "xtime c = 0" for c
  proof (rule bit_word_eqI)
    fix n assume n: "n < LENGTH(8)"
    have b: "bit (xtime c) k = False" for k using that by simp
    have "bit (xtime c) 0 = bit c 7" unfolding xtime_def by (simp only: bit_xor_iff bit_push_bit_iff) simp
    with b have "\<not> bit c 7" by simp
    then have "bit (push_bit 1 c) (Suc n) = False" using b[of "Suc n"] by (simp add: xtime_def)
    with \<open>\<not> bit c 7\<close> n show "bit c n = bit 0 n"
      by (cases "n = 7") (simp_all only: bit_push_bit_iff, simp_all)
  qed
  with z have "a XOR b = 0" by blast
  then have "(a XOR b) XOR b = b" by simp
  then show "a = b" by (simp add: xor.assoc)
qed

lemma alpha_period: "alpha 255 = 1"
proof -
  have "(xtime ^^ 51) 1 = 10" "(xtime ^^ 51) 10 = 68" "(xtime ^^ 51) 68 = 146" "(xtime ^^ 51) 146 = 221"
    "(xtime ^^ 51) 221 = 1" by (simp_all add: xtime_funpow_numeral xtime_def)
  moreover have "(255 :: nat) = 51 + (51 + (51 + (51 + 51)))" by simp
  ultimately show ?thesis unfolding alpha_def by (simp only: funpow_add o_apply)
qed

lemma alpha_255_add: "alpha (255 + i) = alpha i"
  by (metis add.commute alpha_add alpha_period alpha_def)

lemma alpha_mod: "alpha (i mod 255) = alpha i"
proof -
  have "alpha (255 * k + j) = alpha j" for k j
    by (induction k) (simp_all add: alpha_255_add add.assoc)
  from this[of "i div 255" "i mod 255"] show ?thesis by simp
qed

lemma alpha_one_diff: "alpha (i + d) = alpha i \<Longrightarrow> alpha d = 1"
proof (induction i)
  case (Suc i)
  then have "xtime (alpha (i + d)) = xtime (alpha i)" by (simp add: alpha_def)
  with Suc.IH show ?case by (blast dest: inj_xtime)
qed (simp add: alpha_def)

lemma alpha_one_mult: "alpha d = 1 \<Longrightarrow> alpha (d * k) = 1"
  by (induction k) (simp_all add: alpha_add, simp_all add: alpha_def)

lemma alpha_one_dvd: "alpha d = 1 \<Longrightarrow> d dvd m \<Longrightarrow> alpha m = 1"
  by (auto simp: alpha_one_mult elim!: dvdE)

lemma alpha_order: assumes "0 < d" "d < 255" shows "alpha d \<noteq> 1"
proof
  assume 1: "alpha d = 1"
  obtain x y where "d * x = 255 * y + gcd d 255" using bezout_nat[of d 255] assms by auto
  moreover have "alpha (d * x) = 1" using 1 by (rule alpha_one_mult)
  moreover have "alpha (255 * y) = 1" by (rule alpha_one_mult[OF alpha_period])
  ultimately have g: "alpha (gcd d 255) = 1"
    using alpha_one_diff[of "255 * y" "gcd d 255"] by simp
  have "gcd d 255 < 255" using assms by (metis gcd_le1_nat le_less_trans less_numeral_extra(3))
  moreover have "\<forall>k\<in>set [0..<255]. k dvd 255 \<longrightarrow> k dvd 15 \<or> k dvd 51 \<or> k dvd (85::nat)" by code_simp
  ultimately have "gcd d 255 dvd 15 \<or> gcd d 255 dvd 51 \<or> gcd d 255 dvd 85" by simp
  then have "alpha 15 = 1 \<or> alpha 51 = 1 \<or> alpha 85 = 1"
    using alpha_one_dvd[OF g] by blast
  moreover have "alpha 15 \<noteq> 1" "alpha 51 \<noteq> 1" "alpha 85 \<noteq> 1"
    by (simp_all add: alpha_def xtime_funpow_numeral xtime_def)
  ultimately show False by blast
qed

lemma alpha_inj: assumes "i < 255" "j < 255" "alpha i = alpha j" shows "i = j"
proof -
  have *: "i' = j'" if "alpha i' = alpha j'" "i' \<le> j'" "j' < 255" for i' j'
    using alpha_one_diff[of i' "j' - i'"] alpha_order[of "j' - i'"] that by (cases "i' = j'") auto
  from *[of i j] *[of j i] assms show ?thesis by (cases "i \<le> j") auto
qed

lemma alpha_nonzero: "alpha i \<noteq> 0"
proof
  assume "alpha i = 0"
  then have "alpha (i mod 255) = 0" by (simp add: alpha_mod)
  then have "(xtime ^^ (255 - i mod 255)) (alpha (i mod 255)) = 0" by simp
  then have "alpha 255 = 0" using alpha_add[of "255 - i mod 255" "i mod 255"] 
    by (simp add: less_imp_le)
  then show False by (simp add: alpha_period)
qed

lemma alpha_surj: assumes "a \<noteq> 0" shows "\<exists>i<255. a = alpha i"
proof -
  have inj: "inj_on alpha {..<255}" using alpha_inj by (auto simp: inj_on_def)
  have sub: "alpha ` {..<255} \<subseteq> UNIV - {0}" using alpha_nonzero by auto
  have "card (UNIV - {0 :: u8}) = 255" by (simp add: card_word)
  moreover have "card (alpha ` {..<255}) = 255" using inj by (simp add: card_image)
  ultimately have "alpha ` {..<255} = UNIV - {0}" using sub
    by (intro card_subset_eq) auto
  with assms show ?thesis by blast
qed

lemma step16: 
  fixes b :: u8
  assumes x: "x = ucast b"
  shows "(let x1 = push_bit 1 x in if x1 AND 0x100 \<noteq> 0 then x1 XOR kPrimPoly else x1) = (ucast (xtime b) :: u16)"
proof -
  have B: "bit (push_bit 1 x :: u16) k \<longleftrightarrow> 1 \<le> k \<and> k < 9 \<and> bit b (k - 1)" for k
    unfolding x bit_push_bit_iff by (auto simp: bit_simps dest: bit_imp_le_length)
  have B8: "bit (push_bit 1 b :: u8) k \<longleftrightarrow> 1 \<le> k \<and> k < 8 \<and> bit b (k - 1)" for k
    unfolding bit_push_bit_iff by (auto dest: bit_imp_le_length)
  have "(push_bit 1 x AND 0x100 \<noteq> 0) = bit (push_bit 1 x) 8"
    using and_exp_eq_0_iff_not_bit[of "push_bit 1 x" 8] by simp
  then have c: "(push_bit 1 x AND 0x100 \<noteq> 0) = bit b 7" using B by simp
  have k: "bit (285 :: int) n \<longleftrightarrow> n = 8 \<or> bit (29 :: int) n" for n
  proof -
    have "(285 :: int) = 2 ^ 8 OR 29" by simp
    then have "bit (285 :: int) n \<longleftrightarrow> bit (2 ^ 8 :: int) n \<or> bit (29 :: int) n" by (simp only: bit_or_iff)
    then show ?thesis by (simp only: bit_exp_iff) auto
  qed
  have k29: "\<not> bit (29 :: int) (8 + n)" for n
  proof -
    have "(29 :: int) = take_bit 8 29" by simp
    then show ?thesis by (metis bit_take_bit_iff not_add_less1)
  qed
  show ?thesis
  proof (cases "bit b 7")
    case True
    have "push_bit 1 x XOR kPrimPoly = ucast (xtime b)"
    proof (rule bit_word_eqI)
      fix n assume "n < LENGTH(16)"
      show "bit (push_bit 1 x XOR kPrimPoly) n = bit (ucast (xtime b) :: u16) n"
        using True B[of n] B8[of n] k[of n] k29[of "n - 8"] \<open>n < LENGTH(16)\<close>
        by (cases "n < 8"; cases "n = 8") (auto simp: xtime_def kPrimPoly_def bit_xor_iff bit_unsigned_iff)
    qed
    with c True show ?thesis by (simp add: Let_def)
  next
    case False
    have "push_bit 1 x = (ucast (xtime b) :: u16)"
    proof (rule bit_word_eqI)
      fix n assume "n < LENGTH(16)"
      show "bit (push_bit 1 x) n = bit (ucast (xtime b) :: u16) n"
        using False B[of n] B8[of n] \<open>n < LENGTH(16)\<close>
        by (cases "n < 8"; cases "n = 8") (auto simp: xtime_def bit_unsigned_iff)
    qed
    with c False show ?thesis by (simp add: Let_def)
  qed
qed

section \<open>The tables hold the powers and logarithms\<close>

lemma exp_log_inv:
  "n \<le> 255 \<Longrightarrow> \<exists>ex lg. fold exp_log_step [0..<n] (1, replicate 512 0, replicate 256 0) = (ucast (alpha n), ex, lg)
     \<and> length ex = 512 \<and> length lg = 256
     \<and> (\<forall>i<n. ex ! i = alpha i) \<and> (\<forall>i<n. lg ! unat (alpha i) = of_nat i)"
proof (induction n)
  case 0
  then show ?case by (simp add: alpha_def)
next
  case (Suc n)
  then obtain ex lg where f: "fold exp_log_step [0..<n] (1, replicate 512 0, replicate 256 0) = (ucast (alpha n), ex, lg)"
    and l: "length ex = 512" "length lg = 256"
    and e: "\<forall>i<n. ex ! i = alpha i" and g: "\<forall>i<n. lg ! unat (alpha i) = of_nat i"
    by auto
  have neq: "unat (alpha n) \<noteq> unat (alpha i)" if "i < n" for i
    using alpha_inj[of n i] that Suc.prems by (auto simp: word_unat_eq_iff)
  have "exp_log_step n (ucast (alpha n), ex, lg)
      = (ucast (alpha (Suc n)), ex[n := alpha n], lg[unat (alpha n) := of_nat n])"
    using step16[OF refl, of "alpha n"] by (simp add: exp_log_step_def Let_def alpha_def)
  with f show ?case using l e g Suc.prems
    by (auto simp: less_Suc_eq nth_list_update neq)
qed

lemma dup_exp_inv:
  assumes "length ex = 512" "\<forall>i<255. ex ! i = alpha i" "n \<le> 257"
  shows "length (fold (\<lambda>i ex. ex[i := ex ! (i - 255)]) [255..<255 + n] ex) = 512
    \<and> (\<forall>i<255 + n. fold (\<lambda>i ex. ex[i := ex ! (i - 255)]) [255..<255 + n] ex ! i = alpha i)"
  using assms(3)
proof (induction n)
  case 0
  then show ?case using assms by simp
next
  case (Suc n)
  then have "alpha n = alpha (255 + n)" by (simp add: alpha_255_add)
  moreover have "[255..<255 + Suc n] = [255..<255 + n] @ [255 + n]"
    by (metis add_Suc_right le_add1 upt_Suc_append)
  ultimately show ?case using Suc
    by (auto simp: less_Suc_eq nth_list_update simp del: upt_Suc)
qed

lemma init_tables:
  "length (t_exp init) = 512" "length (t_log init) = 256"
  "i < 512 \<Longrightarrow> t_exp init ! i = alpha i"
  "i < 255 \<Longrightarrow> t_log init ! unat (alpha i) = of_nat i"
proof -
  obtain ex lg where f: "exp_log_loop = (ucast (alpha 255), ex, lg)"
    and l: "length ex = 512" "length lg = 256"
    and e: "\<forall>i<255. ex ! i = alpha i" and g: "\<forall>i<255. lg ! unat (alpha i) = of_nat i"
    using exp_log_inv[of 255] unfolding exp_log_loop_def by auto
  have n: "255 + 257 = (512 :: nat)" by simp
  have d: "length (dup_exp_loop ex) = 512" "\<forall>i<512. dup_exp_loop ex ! i = alpha i"
    using dup_exp_inv[OF l(1) e, of 257] unfolding n dup_exp_loop_def by simp_all
  show "length (t_exp init) = 512" "length (t_log init) = 256"
    "i < 512 \<Longrightarrow> t_exp init ! i = alpha i" "i < 255 \<Longrightarrow> t_log init ! unat (alpha i) = of_nat i"
    using d l g by (simp_all add: init_def f Let_def)
qed

lemma mul_lut_entry:
  "a < 256 \<Longrightarrow> b < 256 \<Longrightarrow> mul_lut init ! a ! b = mul_entry (t_log init) (t_exp init) a b"
  by (simp add: init_def Let_def split: prod.splits)

lemma log_sum: "i < 255 \<Longrightarrow> j < 255 \<Longrightarrow> unat (ucast (of_nat i :: u8) + ucast (of_nat j :: u8) :: u16) = i + j"
  by (simp add: unat_word_ariths)

lemma log_alpha: "i < 255 \<Longrightarrow> unat (t_log init ! unat (alpha i)) = i"
  by (simp add: init_tables)

lemma gmul_alpha_alpha: "gmul (alpha i) (alpha j) = alpha (i + j)"
  by (simp add: gmul_alpha alpha_add)

lemma mul_gmul: "mul a b = gmul a b"
proof (cases "a = 0 \<or> b = 0")
  case True
  then show ?thesis
    by (auto simp: mul_def mul_lut_entry mul_entry_def gmul_def)
next
  case False
  then obtain i j where i: "i < 255" "a = alpha i" and j: "j < 255" "b = alpha j"
    using alpha_surj by meson
  have "mul a b = t_exp init ! (i + j)"
    using i j False log_sum[OF i(1) j(1)]
    by (simp add: mul_def mul_lut_entry mul_entry_def init_tables unat_eq_0)
  with i j show ?thesis by (simp add: init_tables gmul_alpha_alpha)
qed

lemma gmul_comm: "gmul a b = gmul b a"
proof (cases "a = 0 \<or> b = 0")
  case False
  then show ?thesis using alpha_surj[of a] alpha_surj[of b] by (auto simp: gmul_alpha_alpha add.commute)
qed (auto simp: gmul_def)

lemma gmul_assoc: "gmul (gmul a b) c = gmul a (gmul b c)"
proof (cases "a = 0 \<or> b = 0 \<or> c = 0")
  case False
  then show ?thesis using alpha_surj[of a] alpha_surj[of b] alpha_surj[of c]
    by (auto simp: gmul_alpha_alpha add.assoc)
qed (auto simp: gmul_def)

lemma gmul_xor_left: "gmul (a XOR b) c = gmul a c XOR gmul b c"
  by (simp add: gmul_def gsum_xor_left)

lemma inv_alpha: "i < 255 \<Longrightarrow> inv (alpha i) = alpha (255 - i)"
  by (simp add: inv_def alpha_nonzero init_tables log_alpha)

lemma gmul_inv: "a \<noteq> 0 \<Longrightarrow> gmul a (inv a) = 1"
  using alpha_surj[of a] by (auto simp: inv_alpha gmul_alpha_alpha alpha_period)

section \<open>The field of bytes and the Cauchy kernel\<close>

lemma pow_alpha:
  assumes "i < 255"
  shows "pow (alpha i) e = alpha (i * unat e)"
proof (cases "e = 0")
  case True
  then show ?thesis by (simp add: pow_def alpha_def)
next
  case False
  have u: "unat (ucast (of_nat i :: u8) :: u32) = i"
    using assms by (simp add: unsigned_ucast_eq take_bit_eq_mod)
  have e: "unat (ucast e :: u32) = unat e"
    using unat_u16_less[of e] by (simp add: unsigned_ucast_eq take_bit_eq_mod del: unat_u16_less)
  have "i * unat e \<le> 254 * 65535"
    using assms unat_u16_less[of e, THEN Suc_leI] by (intro mult_mono) auto
  then have "unat (ucast (of_nat i :: u8) * ucast e :: u32) = i * unat e"
    using u e by (simp add: unat_word_ariths)
  then have "unat (ucast (of_nat i :: u8) * ucast e mod 255 :: u32) = (i * unat e) mod 255"
    by (simp add: unat_mod_distrib)
  with False assms show ?thesis
    by (simp add: pow_def alpha_nonzero init_tables alpha_mod order_less_trans[of "_ mod 255" 255 512])
qed

datatype gf = GF (gf_val: u8)

instantiation gf :: field
begin

definition zero_gf :: gf where
  "zero_gf = GF 0"

definition one_gf :: gf where
  "one_gf = GF 1"

definition plus_gf :: "gf \<Rightarrow> gf \<Rightarrow> gf" where
  "plus_gf a b = GF (gf_val a XOR gf_val b)"

definition minus_gf :: "gf \<Rightarrow> gf \<Rightarrow> gf" where
  "minus_gf a b = GF (gf_val a XOR gf_val b)"

definition uminus_gf :: "gf \<Rightarrow> gf" where
  "uminus_gf a = a"

definition times_gf :: "gf \<Rightarrow> gf \<Rightarrow> gf" where
  "times_gf a b = GF (mul (gf_val a) (gf_val b))"

definition inverse_gf :: "gf \<Rightarrow> gf" where
  "inverse_gf a = GF (inv (gf_val a))"

definition divide_gf :: "gf \<Rightarrow> gf \<Rightarrow> gf" where
  "divide_gf a b = a * inverse b"

instance
proof
  fix a b c :: gf
  show "a + b + c = a + (b + c)" by (simp add: plus_gf_def xor.assoc)
  show "a + b = b + a" by (simp add: plus_gf_def xor.commute)
  show "0 + a = a" by (simp add: plus_gf_def zero_gf_def)
  show "- a + a = 0" by (simp add: plus_gf_def uminus_gf_def zero_gf_def)
  show "a - b = a + - b" by (simp add: plus_gf_def uminus_gf_def minus_gf_def)
  show "a * b * c = a * (b * c)" by (simp add: times_gf_def mul_gmul gmul_assoc)
  show "a * b = b * a" by (simp add: times_gf_def mul_gmul gmul_comm)
  show "1 * a = a" by (simp add: times_gf_def mul_gmul one_gf_def)
  show "(a + b) * c = a * c + b * c"
    by (simp add: times_gf_def plus_gf_def mul_gmul gmul_xor_left)
  show "(0 :: gf) \<noteq> 1" by (simp add: zero_gf_def one_gf_def)
  show "a \<noteq> 0 \<Longrightarrow> inverse a * a = 1"
    by (cases a) (simp add: inverse_gf_def times_gf_def zero_gf_def one_gf_def mul_gmul
        gmul_comm[of "inv _"] gmul_inv)
  show "inverse (0 :: gf) = 0" by (simp add: inverse_gf_def zero_gf_def inv_def)
  show "a div b = a * inverse b" by (simp add: divide_gf_def)
qed

end

lemma cauchy_kernel:
  fixes x :: "'i \<Rightarrow> 'a :: field"
  assumes "finite J" "inj_on x J" "finite Y" "card J \<le> card Y"
    and "\<And>j y. j \<in> J \<Longrightarrow> y \<in> Y \<Longrightarrow> x j \<noteq> y"
    and "\<And>y. y \<in> Y \<Longrightarrow> (\<Sum>j\<in>J. c j / (x j - y)) = 0"
  shows "\<forall>j\<in>J. c j = 0"
  using assms
proof (induction J arbitrary: c Y rule: finite_induct)
  case empty
  then show ?case by simp
next
  case (insert a J)
  from insert.prems insert.hyps have "Y \<noteq> {}" by auto
  then obtain y0 where y0: "y0 \<in> Y" by blast
  define T where "T y = (\<Sum>j\<in>J. c j * (x a - x j) / (x j - y))" for y
  have ne: "x j \<noteq> y" if "j \<in> insert a J" "y \<in> Y" for j y using insert.prems(4) that by blast
  have const: "T y = - (c a + (\<Sum>j\<in>J. c j))" if y: "y \<in> Y" for y
  proof -
    have "c j * (x a - x j) / (x j - y) = (x a - y) * (c j / (x j - y)) - c j" if "j \<in> J" for j
      using ne[of j y] y that by (simp add: field_simps)
    then have "T y = (x a - y) * (\<Sum>j\<in>J. c j / (x j - y)) - (\<Sum>j\<in>J. c j)"
      by (simp add: T_def sum_subtractf sum_distrib_left)
    moreover have "(\<Sum>j\<in>J. c j / (x j - y)) = - (c a / (x a - y))"
      using insert.prems(5)[OF y] insert.hyps by (simp add: eq_neg_iff_add_eq_0 add.commute)
    moreover have "(x a - y) * (- (c a / (x a - y))) = - c a" using ne[of a y] y by simp
    ultimately show ?thesis by simp
  qed
  define d where "d j = c j * (x a - x j) / (x j - y0)" for j
  have "(\<Sum>j\<in>J. d j / (x j - y)) = 0" if y: "y \<in> Y - {y0}" for y
  proof -
    have "(y - y0) * (d j / (x j - y)) = c j * (x a - x j) / (x j - y) - c j * (x a - x j) / (x j - y0)"
      if "j \<in> J" for j
      using ne[of j y] ne[of j y0] y y0 that by (simp add: d_def field_simps)
    then have "(y - y0) * (\<Sum>j\<in>J. d j / (x j - y)) = T y - T y0"
      by (simp add: sum_distrib_left T_def sum_subtractf)
    with const[of y] const[OF y0] y show ?thesis by simp
  qed
  moreover have "card J \<le> card (Y - {y0})" using insert.prems insert.hyps y0 by simp
  ultimately have d0: "\<forall>j\<in>J. d j = 0"
    using insert.IH[of "Y - {y0}" d] insert.prems ne by auto
  have c0: "c j = 0" if "j \<in> J" for j
  proof -
    have "x a \<noteq> x j" using insert.prems(1) insert.hyps(2) that by (auto simp: inj_on_def)
    with d0 that ne[of j y0] y0 show ?thesis by (auto simp: d_def)
  qed
  then have "(\<Sum>j\<in>J. c j / (x j - y0)) = 0" by simp
  with insert.prems(5)[OF y0] insert.hyps have "c a / (x a - y0) = 0" by simp
  with ne[of a y0] y0 c0 show ?case by auto
qed

lemma gf_char2: "GF a - GF b = GF (a XOR b)" "GF a + GF b = GF (a XOR b)" "GF a * GF b = GF (mul a b)"
  "inverse (GF a) = GF (inv a)" "GF a = 0 \<longleftrightarrow> a = 0"
  by (simp_all add: minus_gf_def plus_gf_def times_gf_def inverse_gf_def zero_gf_def)

lemma length_mulAdd: "n \<le> length dst \<Longrightarrow> n \<le> length src \<Longrightarrow> length (mulAdd c src dst n) = length dst"
  by (simp add: mulAdd_def Let_def min_def)

lemma mul_1 [simp]: "mul 1 b = b"
  by (simp add: mul_gmul)

lemma mul_0 [simp]: "mul 0 b = 0"
  by (simp add: mul_gmul gmul_def)

lemma mul_0_right [simp]: "mul a 0 = 0"
  by (simp add: mul_gmul gmul_def)

lemma mulAdd_nth:
  assumes "n \<le> length dst" "n \<le> length src" "i < length dst"
  shows "mulAdd c src dst n ! i = (if i < n then dst ! i XOR mul c (src ! i) else dst ! i)"
proof -
  have "mul_lut init ! unat c ! unat s = mul c s" for s by (simp add: mul_def)
  with assms show ?thesis
    by (auto simp: mulAdd_def Let_def nth_append min_def)
qed

lemma mul_funpow_alpha: "(mul (alpha i) ^^ n) 1 = alpha (i * n)"
  by (induction n) (simp_all add: mul_gmul gmul_alpha_alpha add.commute, simp add: alpha_def)

lemma mul_funpow_0: "(mul 0 ^^ n) 1 = (if n = 0 then 1 else 0)"
  by (cases n) simp_all

lemma pow_funpow: "pow a e = (mul a ^^ unat e) 1"
proof (cases "a = 0")
  case True
  then show ?thesis by (simp add: pow_def mul_funpow_0 unat_eq_0)
next
  case False
  with alpha_surj[of a] show ?thesis by (auto simp: pow_alpha mul_funpow_alpha)
qed

section \<open>Properties\<close>

text \<open>C16: The table-driven product is multiplication of bytes read as polynomials over GF(2),
  reduced modulo the primitive polynomial 0x11D, for all 65536 pairs.\<close>
theorem gf256_mul_is_polynomial_product: "mul a b = gmul a b"
  by (rule mul_gmul)

text \<open>\<open>inv\<close> is the multiplicative inverse on every nonzero byte (and 0 on 0, as its comment
  says).\<close>
theorem gf256_inv_correct: "inv 0 = 0 \<and> (a = 0 \<or> mul a (inv a) = 1)"
  using gmul_inv[of a] by (auto simp: mul_gmul inv_def [of 0])

text \<open>\<open>pow a e\<close>, one table lookup after a multiplication of logarithms, is the e-fold product of
  \<open>a\<close> with itself for every byte and every 16-bit exponent, with \<open>0^0 = 1\<close>.\<close>
theorem gf256_pow_is_iterated_mul: "pow a e = (mul a ^^ unat e) 1"
  by (rule pow_funpow)

end
