(* ===== verification/Fec.thy ===== *)
theory Fec
  imports Gf256
begin

text \<open>
  \<open>src/src/udp/fec_v2.cpp\<close>: the table of forward-error-correction parameters (scanned out of a
  JSON text), the Cauchy coefficients with their cache, and the parity computation. File
  reading is a parameter \<open>read_file\<close>; \<open>src_root\<close> stands for the directory derived from
  \<open>__FILE__\<close>. A null payload pointer is \<open>None\<close>.
\<close>

section \<open>The parameter table\<close>

record V2FecTable =
  groups_by_n :: bytes
  r_by_n :: bytes
  loaded :: bool
  source_path :: string

definition fec_table_empty :: V2FecTable where
  "fec_table_empty = \<lparr>groups_by_n = replicate 256 0, r_by_n = replicate 256 0, loaded = False, source_path = []\<rparr>"

text \<open>\<open>std::string::find(pattern, pos)\<close>; \<open>None\<close> is \<open>npos\<close>.\<close>

definition str_find :: "string \<Rightarrow> string \<Rightarrow> nat \<Rightarrow> nat option" where
  "str_find pat text pos =
     (if length pat \<le> length text
      then map_option (\<lambda>k. pos + k)
             (find_if (\<lambda>i. take (length pat) (drop i text) = pat) [pos..<length text - length pat + 1])
      else None)"

definition is_digit :: "char \<Rightarrow> bool" where
  "is_digit c \<longleftrightarrow> 48 \<le> (of_char c :: nat) \<and> (of_char c :: nat) \<le> 57"

definition is_blank :: "char \<Rightarrow> bool" where
  "is_blank c \<longleftrightarrow> c = CHR '' '' \<or> c = CHR 0x09 \<or> c = CHR 0x0D \<or> c = CHR 0x0A"

text \<open>The digit loop; \<open>value\<close> is a C++ \<open>long\<close>, cut to 32 bits by the cast that follows it.\<close>

fun digit_value :: "string \<Rightarrow> int \<Rightarrow> int" where
  "digit_value [] v = v"
| "digit_value (c # cs) v = digit_value cs (v * 10 + (of_char c - 48))"

definition parseIntAfterColon :: "string \<Rightarrow> nat \<Rightarrow> (nat \<times> int) option" where
  "parseIntAfterColon text pos =
     (case str_find '':'' text pos of
        None \<Rightarrow> None
      | Some colon \<Rightarrow>
          (let i1 = colon + 1 + length (takeWhile is_blank (drop (colon + 1) text));
               negative = (i1 < length text \<and> text ! i1 = CHR ''-'');
               i2 = (if negative then i1 + 1 else i1);
               digits = takeWhile is_digit (drop i2 text)
           in if digits = [] then None
              else (let v = digit_value digits 0
                    in Some (i2 + length digits, signed_take_bit 31 (if negative then - v else v)))))"

definition clamp_u8 :: "int \<Rightarrow> u8" where
  "clamp_u8 v = of_int (clampI v 0 255)"

text \<open>The body of the scan loop: one (n, groupCount, parityCount) entry, or \<open>None\<close> for \<open>break\<close>.\<close>

definition scan_entry :: "string \<Rightarrow> nat \<Rightarrow> (nat \<times> int \<times> int \<times> int) option" where
  "scan_entry text pos =
     (case str_find ''\"n\"'' text pos of None \<Rightarrow> None | Some n_key \<Rightarrow>
     (case parseIntAfterColon text (n_key + 3) of None \<Rightarrow> None | Some (p1, n) \<Rightarrow>
     (case str_find ''\"groupCount\"'' text p1 of None \<Rightarrow> None | Some group_key \<Rightarrow>
     (case parseIntAfterColon text (group_key + 12) of None \<Rightarrow> None | Some (p2, group_count) \<Rightarrow>
     (case str_find ''\"parityCount\"'' text p2 of None \<Rightarrow> None | Some parity_key \<Rightarrow>
     (case parseIntAfterColon text (parity_key + 13) of None \<Rightarrow> None | Some (p3, parity_count) \<Rightarrow>
        Some (p3, n, group_count, parity_count)))))))"

definition store_entry :: "int \<Rightarrow> int \<Rightarrow> int \<Rightarrow> V2FecTable \<Rightarrow> V2FecTable" where
  "store_entry n group_count parity_count out =
     (if 0 \<le> n \<and> n < 256
      then out\<lparr>groups_by_n := (groups_by_n out)[nat n := (if parity_count > 0 then clamp_u8 group_count else 0)],
               r_by_n := (r_by_n out)[nat n := (if parity_count > 0 then clamp_u8 parity_count else 0)]\<rparr>
      else out)"

lemma str_find_Some:
  assumes "str_find pat text pos = Some i"
  shows "pos \<le> i" and "i + length pat \<le> length text" and "take (length pat) (drop i text) = pat"
proof -
  obtain k where k: "i = pos + k" "length pat \<le> length text"
    "find_if (\<lambda>i. take (length pat) (drop i text) = pat) [pos..<length text - length pat + 1] = Some k"
    using assms by (auto simp: str_find_def split: if_splits)
  from find_if_Some[OF k(3)] k(1,2)
  show "pos \<le> i" "i + length pat \<le> length text" "take (length pat) (drop i text) = pat"
    by (auto simp del: upt_Suc)
qed

lemma parseInt_pos:
  "parseIntAfterColon text pos = Some (p, v) \<Longrightarrow> pos < p \<and> p \<le> length text"
proof -
  assume a: "parseIntAfterColon text pos = Some (p, v)"
  then obtain colon where c: "str_find '':'' text pos = Some colon"
    by (auto simp: parseIntAfterColon_def split: option.splits)
  note b = str_find_Some[OF c]
  define i1 where "i1 = colon + 1 + length (takeWhile is_blank (drop (colon + 1) text))"
  define i2 where "i2 = (if i1 < length text \<and> text ! i1 = CHR ''-'' then i1 + 1 else i1)"
  define ds where "ds = takeWhile is_digit (drop i2 text)"
  have "0 < length ds" "p = i2 + length ds"
    using a c by (auto simp: parseIntAfterColon_def i1_def i2_def ds_def Let_def split: if_splits)
  moreover have "length ds \<le> length text - i2"
    unfolding ds_def by (metis length_drop length_takeWhile_le)
  moreover have "pos < i2" using b(1) by (simp add: i2_def i1_def)
  ultimately show ?thesis by linarith
qed

lemma scan_entry_pos:
  assumes "scan_entry text pos = Some (p, n, g, r)"
  shows "pos < p \<and> p \<le> length text"
  using assms
  by (auto simp: scan_entry_def split: option.splits prod.splits
      dest!: parseInt_pos str_find_Some(1))

text \<open>The \<open>while (true)\<close> loop; \<open>pos\<close> strictly grows, which is its termination argument.\<close>

function scan_table :: "string \<Rightarrow> nat \<Rightarrow> nat \<Rightarrow> V2FecTable \<Rightarrow> nat \<times> V2FecTable" where
  "scan_table text pos parsed out =
     (case scan_entry text pos of
        None \<Rightarrow> (parsed, out)
      | Some (p, n, g, r) \<Rightarrow> scan_table text p (parsed + 1) (store_entry n g r out))"
  by pat_completeness auto
termination
  by (relation "measure (\<lambda>(text, pos, parsed, out). length text - pos)")
    (auto dest!: scan_entry_pos)

declare scan_table.simps [simp del]

definition loadTableFromJsonText :: "string \<Rightarrow> V2FecTable \<Rightarrow> bool \<times> V2FecTable" where
  "loadTableFromJsonText text out =
     (let out0 = out\<lparr>groups_by_n := replicate 256 0, r_by_n := replicate 256 0\<rparr>;
          (parsed, out1) = scan_table text 0 0 out0
      in (0 < parsed, out1))"

definition loadTableFromJsonFile :: "(string \<Rightarrow> string option) \<Rightarrow> string \<Rightarrow> V2FecTable \<Rightarrow> bool \<times> V2FecTable" where
  "loadTableFromJsonFile read_file path out =
     (case read_file path of
        None \<Rightarrow> (False, out)
      | Some text \<Rightarrow>
          if text = [] then (False, out)
          else (case loadTableFromJsonText text out of
                  (ok, out1) \<Rightarrow> if ok then (True, out1\<lparr>source_path := path\<rparr>) else (False, out1)))"

definition table_candidates :: "string \<Rightarrow> string list" where
  "table_candidates src_root = concat (map (\<lambda>filename.
     [''config/'' @ filename,
      ''teleop_robot_bridge/config/'' @ filename,
      ''src/teleop_robot_bridge/config/'' @ filename,
      src_root @ ''/config/'' @ filename])
     [''UDP_VIDEO_FEC_TABLE_V1.json'', ''UDP_VIDEO_FEC_TABLE_V1(1).json''])"

fun try_candidates :: "(string \<Rightarrow> string option) \<Rightarrow> string list \<Rightarrow> V2FecTable \<Rightarrow> bool \<times> V2FecTable" where
  "try_candidates read_file [] out = (False, out\<lparr>loaded := False\<rparr>)"
| "try_candidates read_file (c # cs) out =
     (case loadTableFromJsonFile read_file c out of
        (ok, out1) \<Rightarrow> if ok then (True, out1\<lparr>loaded := True\<rparr>) else try_candidates read_file cs out1)"

definition loadTableOnce :: "(string \<Rightarrow> string option) \<Rightarrow> string \<Rightarrow> V2FecTable \<Rightarrow> bool \<times> V2FecTable" where
  "loadTableOnce read_file src_root out = try_candidates read_file (table_candidates src_root) out"

text \<open>\<open>table()\<close> runs \<open>loadTableOnce\<close> on a static table once; the result is a constant of the run.\<close>

definition fec_table :: "(string \<Rightarrow> string option) \<Rightarrow> string \<Rightarrow> V2FecTable" where
  "fec_table read_file src_root = snd (loadTableOnce read_file src_root fec_table_empty)"

definition getParams :: "V2FecTable \<Rightarrow> u8 \<Rightarrow> u16 \<Rightarrow> bool \<times> u8 \<times> u8" where
  "getParams tbl table_id total_fragments =
     (if table_id = 0 \<or> table_id \<noteq> 1 \<or> 256 \<le> total_fragments then (False, 0, 0)
      else if \<not> loaded tbl then (False, 0, 0)
      else (let groups = groups_by_n tbl ! unat total_fragments;
                r_per_group = r_by_n tbl ! unat total_fragments
            in (0 < groups \<and> 0 < r_per_group, groups, r_per_group)))"

section \<open>Coefficients\<close>

type_synonym coef_cache = "u32 \<rightharpoonup> bytes"

definition compute_coef :: "u8 \<Rightarrow> u8 \<Rightarrow> bytes" where
  "compute_coef k r = concat (map (\<lambda>row. map (\<lambda>column.
     inv (of_nat column XOR (0x80 + of_nat row))) [0..<unat k]) [0..<unat r])"

definition coef_key :: "u8 \<Rightarrow> u8 \<Rightarrow> u32" where
  "coef_key k r = push_bit 8 (ucast k) OR ucast r"

definition getCoef :: "coef_cache \<Rightarrow> u8 \<Rightarrow> u8 \<Rightarrow> bytes \<times> coef_cache" where
  "getCoef cache k r =
     (case cache (coef_key k r) of
        Some v \<Rightarrow> (v, cache)
      | None \<Rightarrow> (let v = compute_coef k r in (v, cache(coef_key k r \<mapsto> v))))"

text \<open>The fragments of one interleaving group: \<open>for (i = group; i < ntotal; i += groups)\<close>.\<close>

function source_indices :: "nat \<Rightarrow> nat \<Rightarrow> nat \<Rightarrow> nat list" where
  "source_indices i groups ntotal =
     (if i < ntotal \<and> 0 < groups then i # source_indices (i + groups) groups ntotal else [])"
  by pat_completeness auto
termination
  by (relation "measure (\<lambda>(i, groups, ntotal). ntotal - i)") auto

declare source_indices.simps [simp del]

definition k_of_group :: "nat \<Rightarrow> nat \<Rightarrow> nat \<Rightarrow> u8" where
  "k_of_group grp groups ntotal = of_nat (length (source_indices grp groups ntotal))"

fun prepare_loop :: "nat list \<Rightarrow> u16 \<Rightarrow> u8 \<Rightarrow> u8 \<Rightarrow> coef_cache \<Rightarrow> (u8 \<times> bytes option) list \<times> coef_cache" where
  "prepare_loop [] ntotal groups r cache = ([], cache)"
| "prepare_loop (grp # gs) ntotal groups r cache =
     (let k = k_of_group grp (unat groups) (unat ntotal);
          (entry, cache1) = (if k > 0 then (case getCoef cache k r of (v, c) \<Rightarrow> ((k, Some v), c)) else ((k, None), cache));
          (rest, cache2) = prepare_loop gs ntotal groups r cache1
      in (entry # rest, cache2))"

definition prepareGroupCoefficients ::
  "u16 \<Rightarrow> u8 \<Rightarrow> u8 \<Rightarrow> coef_cache \<Rightarrow> (u8 \<times> bytes option) list \<times> coef_cache" where
  "prepareGroupCoefficients ntotal groups r cache = prepare_loop [0..<unat groups] ntotal groups r cache"

section \<open>Parity\<close>

fun accumulate_sources :: "bytes \<Rightarrow> bytes \<Rightarrow> nat \<Rightarrow> nat \<Rightarrow> nat list \<Rightarrow> u8 \<Rightarrow> bytes \<Rightarrow> bytes" where
  "accumulate_sources coef_row data nsize symbol_bytes [] local_index payload = payload"
| "accumulate_sources coef_row data nsize symbol_bytes (s # ss) local_index payload =
     (let offset = s * symbol_bytes;
          chunk_size = (if offset < nsize then min symbol_bytes (nsize - offset) else 0);
          payload' = (if 0 < chunk_size
                      then mulAdd (coef_row ! unat local_index) (drop offset data) payload chunk_size
                      else payload)
      in accumulate_sources coef_row data nsize symbol_bytes ss (local_index + 1) payload')"

definition parity_payload ::
  "bytes \<Rightarrow> nat \<Rightarrow> u16 \<Rightarrow> u8 \<Rightarrow> nat \<Rightarrow> (u8 \<times> bytes option) list \<Rightarrow> nat \<Rightarrow> nat \<Rightarrow> bytes \<Rightarrow> bytes" where
  "parity_payload data nsize ntotal groups symbol_bytes prep parity grp old =
     (let zeroed = replicate symbol_bytes 0 @ drop symbol_bytes old;
          (k_group, coef) = prep ! grp
      in case coef of
           None \<Rightarrow> zeroed
         | Some c \<Rightarrow>
             if k_group = 0 then zeroed
             else accumulate_sources (drop (parity * unat k_group) c) data nsize symbol_bytes
                    (source_indices grp (unat groups) (unat ntotal)) 0 zeroed)"

text \<open>\<open>buildParityInto\<close>: the payload buffers are \<open>outs\<close>; a null data pointer is \<open>None\<close>.\<close>

definition buildParityInto ::
  "bytes option \<Rightarrow> nat \<Rightarrow> u16 \<Rightarrow> u8 \<Rightarrow> u8 \<Rightarrow> nat \<Rightarrow> bytes option list \<Rightarrow> coef_cache \<Rightarrow> bytes option list \<times> coef_cache" where
  "buildParityInto data nsize ntotal groups r symbol_bytes outs cache =
     (case data of
        None \<Rightarrow> (outs, cache)
      | Some d \<Rightarrow>
          if nsize = 0 \<or> groups = 0 \<or> r = 0 \<or> symbol_bytes = 0 then (outs, cache)
          else if length outs < unat groups * unat r then (outs, cache)
          else (let (prep, cache') = prepareGroupCoefficients ntotal groups r cache;
                    outs' = fold (\<lambda>parity outs. fold (\<lambda>grp outs.
                        let parity_index = parity * unat groups + grp
                        in outs[parity_index := map_option
                             (parity_payload d nsize ntotal groups symbol_bytes prep parity grp)
                             (outs ! parity_index)])
                      [0..<unat groups] outs) [0..<unat r] outs
                in (outs', cache')))"

definition buildParity ::
  "bytes option \<Rightarrow> nat \<Rightarrow> u16 \<Rightarrow> u8 \<Rightarrow> u8 \<Rightarrow> nat \<Rightarrow> coef_cache \<Rightarrow> bytes list \<times> coef_cache" where
  "buildParity data nsize ntotal groups r symbol_bytes cache =
     (if data = None \<or> nsize = 0 \<or> groups = 0 \<or> r = 0 \<or> symbol_bytes = 0 then ([], cache)
      else (let parity_count = unat groups * unat r;
                (outs, cache') = buildParityInto data nsize ntotal groups r symbol_bytes
                   (map Some (replicate parity_count (replicate symbol_bytes 0))) cache
            in (map the outs, cache')))"

section \<open>What the parity computation yields\<close>

lemma source_indices_eq:
  assumes "0 < g" "i < g"
  shows "source_indices i g n = map (\<lambda>j. i + j * g) [0..<(n - i + g - 1) div g]"
proof -
  have "source_indices i g n = map (\<lambda>j. i + j * g) [0..<(n - i + g - 1) div g]" if "0 < g" for i
    using that
  proof (induction i g n rule: source_indices.induct)
    case (1 i g n)
    show ?case
    proof (cases "i < n")
      case True
      define m where "m = (n - (i + g) + g - 1) div g"
      have e: "(n - i + g - 1) div g = Suc m"
      proof (cases "n < i + g")
        case True
        with \<open>i < n\<close> "1.prems" have eq: "n - i + g - 1 = g + (n - i - 1)" and "n - i - 1 < g" by auto
        have "(n - i + g - 1) div g = (n - i - 1) div g + 1"
          unfolding eq by (rule div_add_self1) (use "1.prems" in simp)
        moreover have "(n - i - 1) div g = 0" using \<open>n - i - 1 < g\<close> by (rule div_less)
        ultimately have "(n - i + g - 1) div g = Suc 0" by simp
        moreover have "m = 0" using True "1.prems" by (simp add: m_def)
        ultimately show ?thesis by simp
      next
        case False
        then have eq: "n - i + g - 1 = (n - (i + g) + g - 1) + g" using "1.prems" by simp
        have "(n - i + g - 1) div g = (n - (i + g) + g - 1) div g + 1"
          unfolding eq by (rule div_add_self2) (use "1.prems" in simp)
        then show ?thesis by (simp add: m_def)
      qed
      have "source_indices i g n = i # map (\<lambda>j. i + g + j * g) [0..<m]"
        using True "1.prems" "1.IH" by (subst source_indices.simps) (simp add: m_def)
      also have "\<dots> = map (\<lambda>j. i + j * g) (0 # map Suc [0..<m])" by (simp add: ac_simps)
      also have "0 # map Suc [0..<m] = [0..<Suc m]" by (simp add: upt_conv_Cons map_Suc_upt del: upt_Suc)
      finally show ?thesis using e by simp
    next
      case False
      then show ?thesis using "1.prems" by (subst source_indices.simps) simp
    qed
  qed
  with assms show ?thesis by blast
qed

lemma compute_coef_nth:
  assumes "row < unat r" "column < unat k"
  shows "compute_coef k r ! (row * unat k + column) = inv (of_nat column XOR (0x80 + of_nat row))"
proof -
  have gen: "concat (map (\<lambda>row. map (f row) [0..<K]) [0..<R]) ! (row * K + column) = f row column"
    if "row < R" "column < K" for f :: "nat \<Rightarrow> nat \<Rightarrow> u8" and R K
    using that
  proof (induction R)
    case (Suc R)
    have len: "length (concat (map (\<lambda>row. map (f row) [0..<K]) [0..<R])) = R * K"
      by (induction R) simp_all
    show ?case
    proof (cases "row < R")
      case True
      then have "row * K + column < R * K"
        using Suc.prems(2) mult_le_mono1[of "Suc row" R K] by simp
      with True Suc show ?thesis by (simp add: nth_append len)
    next
      case False
      with Suc.prems have "row = R" by simp
      with Suc.prems show ?thesis by (simp add: nth_append len)
    qed
  qed simp
  show ?thesis unfolding compute_coef_def by (rule gen[OF assms])
qed

lemma coef_key_inj: "coef_key k r = coef_key k' r' \<longleftrightarrow> k = k' \<and> r = r'"
proof
  assume e: "coef_key k r = coef_key k' r'"
  have B: "bit (coef_key k r) n \<longleftrightarrow> (if n < 8 then bit r n else n < 16 \<and> bit k (n - 8))" for k r n
    by (auto simp: coef_key_def bit_simps dest: bit_imp_le_length)
  have "r = r'"
  proof (rule bit_word_eqI)
    fix n assume "n < LENGTH(8)"
    then show "bit r n = bit r' n" using B[of k r n] B[of k' r' n] e by simp
  qed
  moreover have "k = k'"
  proof (rule bit_word_eqI)
    fix n assume "n < LENGTH(8)"
    then show "bit k n = bit k' n" using B[of k r "n + 8"] B[of k' r' "n + 8"] e by simp
  qed
  ultimately show "k = k' \<and> r = r'" by simp
qed simp

definition cache_ok :: "coef_cache \<Rightarrow> bool" where
  "cache_ok cache \<longleftrightarrow> (\<forall>k r v. cache (coef_key k r) = Some v \<longrightarrow> v = compute_coef k r)"

lemma getCoef_ok: "cache_ok cache \<Longrightarrow> fst (getCoef cache k r) = compute_coef k r \<and> cache_ok (snd (getCoef cache k r))"
  by (auto simp: getCoef_def cache_ok_def coef_key_inj Let_def split: option.splits if_splits)

definition prep_entry :: "u16 \<Rightarrow> u8 \<Rightarrow> u8 \<Rightarrow> nat \<Rightarrow> u8 \<times> bytes option" where
  "prep_entry n g r grp = (let k = k_of_group grp (unat g) (unat n) in
     (k, if k > 0 then Some (compute_coef k r) else None))"

lemma prepare_loop_ok:
  "cache_ok cache \<Longrightarrow> fst (prepare_loop gs n g r cache) = map (prep_entry n g r) gs
     \<and> cache_ok (snd (prepare_loop gs n g r cache))"
proof (induction gs arbitrary: cache)
  case (Cons a gs)
  define k where "k = k_of_group a (unat g) (unat n)"
  show ?case
  proof (cases "0 < k")
    case True
    obtain v c where g: "getCoef cache k r = (v, c)" by fastforce
    with getCoef_ok[OF Cons.prems, of k r] have v: "v = compute_coef k r" "cache_ok c" by auto
    with Cons.IH[OF v(2)] True g show ?thesis
      by (auto simp: prep_entry_def Let_def k_def[symmetric] split: prod.splits)
  next
    case False
    with Cons.IH[OF Cons.prems] show ?thesis
      by (auto simp: prep_entry_def Let_def k_def[symmetric] split: prod.splits)
  qed
qed simp

text \<open>Byte \<open>i\<close> of the zero-padded frame.\<close>

definition pad_byte :: "bytes \<Rightarrow> nat \<Rightarrow> u8" where
  "pad_byte data i = (if i < length data then data ! i else 0)"

lemma accumulate_sources_nth:
  assumes "length payload = symb" "b < symb" "length data = n"
    and "unat li + length ss \<le> 255"
  shows "length (accumulate_sources cr data n symb ss li payload) = symb
    \<and> GF (accumulate_sources cr data n symb ss li payload ! b)
      = GF (payload ! b) + (\<Sum>j<length ss. GF (cr ! (unat li + j)) * GF (pad_byte data (ss ! j * symb + b)))"
  using assms
proof (induction ss arbitrary: li payload)
  case Nil
  then show ?case by simp
next
  case (Cons s ss)
  define chunk where "chunk = (if s * symb < n then min symb (n - s * symb) else 0)"
  define p' where "p' = (if 0 < chunk then mulAdd (cr ! unat li) (drop (s * symb) data) payload chunk else payload)"
  have step: "accumulate_sources cr data n symb (s # ss) li payload
      = accumulate_sources cr data n symb ss (li + 1) p'"
    by (simp add: chunk_def p'_def Let_def)
  have ch: "chunk \<le> length payload" "chunk \<le> length (drop (s * symb) data)"
    using Cons.prems by (auto simp: chunk_def)
  have len: "length p' = symb"
    using Cons.prems ch by (simp add: p'_def length_mulAdd)
  have li: "unat (li + 1) = Suc (unat li)"
    using Cons.prems by (simp add: unat_word_ariths)
  have nth: "GF (p' ! b) = GF (payload ! b) + GF (cr ! unat li) * GF (pad_byte data (s * symb + b))"
  proof (cases "b < chunk")
    case True
    then have "s * symb + b < n" by (auto simp: chunk_def split: if_splits)
    moreover have "p' ! b = payload ! b XOR mul (cr ! unat li) (drop (s * symb) data ! b)"
      using True ch Cons.prems by (simp add: p'_def mulAdd_nth)
    ultimately show ?thesis using Cons.prems by (simp add: gf_char2 pad_byte_def)
  next
    case False
    then have "\<not> s * symb + b < n" using Cons.prems by (auto simp: chunk_def split: if_splits)
    moreover have "p' ! b = payload ! b" using False ch Cons.prems by (auto simp: p'_def mulAdd_nth)
    ultimately show ?thesis using Cons.prems by (simp add: gf_char2 pad_byte_def)
  qed
  have IH: "length (accumulate_sources cr data n symb ss (li + 1) p') = symb"
    "GF (accumulate_sources cr data n symb ss (li + 1) p' ! b)
      = GF (p' ! b) + (\<Sum>j<length ss. GF (cr ! (unat (li + 1) + j)) * GF (pad_byte data (ss ! j * symb + b)))"
    using Cons.IH[of p' "li + 1"] Cons.prems len li by simp_all
  have "(\<Sum>j<Suc (length ss). GF (cr ! (unat li + j)) * GF (pad_byte data ((s # ss) ! j * symb + b)))
    = GF (cr ! unat li) * GF (pad_byte data (s * symb + b))
      + (\<Sum>j<length ss. GF (cr ! (unat (li + 1) + j)) * GF (pad_byte data (ss ! j * symb + b)))"
    by (simp add: sum.lessThan_Suc_shift li del: sum.lessThan_Suc)
  then show ?case unfolding step using IH nth by (simp add: add.assoc del: sum.lessThan_Suc)
qed

lemma fold_update_nth:
  assumes "distinct is" "\<forall>i\<in>set is. i < length outs"
  shows "length (fold (\<lambda>i outs. outs[i := f i (outs ! i)]) is outs) = length outs"
    and "k < length outs \<Longrightarrow> fold (\<lambda>i outs. outs[i := f i (outs ! i)]) is outs ! k
       = (if k \<in> set is then f k (outs ! k) else outs ! k)"
  using assms
  by (induction "is" arbitrary: outs) (auto simp: nth_list_update)

lemma parity_index_less: "p < (r :: nat) \<Longrightarrow> g < n \<Longrightarrow> p * n + g < r * n"
  using mult_le_mono1[of "Suc p" r n] by simp

lemma fold_grid_nth:
  assumes "R * G \<le> length outs"
  shows "length (fold (\<lambda>p outs. fold (\<lambda>g outs. outs[p * G + g := h p g (outs ! (p * G + g))]) [0..<G] outs) [0..<R] outs) = length outs
    \<and> (\<forall>p<R. \<forall>g<G. fold (\<lambda>p outs. fold (\<lambda>g outs. outs[p * G + g := h p g (outs ! (p * G + g))]) [0..<G] outs) [0..<R] outs ! (p * G + g)
       = h p g (outs ! (p * G + g)))
    \<and> (\<forall>k. R * G \<le> k \<longrightarrow> k < length outs \<longrightarrow> fold (\<lambda>p outs. fold (\<lambda>g outs. outs[p * G + g := h p g (outs ! (p * G + g))]) [0..<G] outs) [0..<R] outs ! k = outs ! k)"
  using assms
proof (induction R)
  case 0
  then show ?case by simp
next
  case (Suc R)
  let ?row = "\<lambda>p outs. fold (\<lambda>g outs. outs[p * G + g := h p g (outs ! (p * G + g))]) [0..<G] outs"
  have row: "length (?row p xs) = length xs"
    "k < length xs \<Longrightarrow> ?row p xs ! k = (if p * G \<le> k \<and> k < p * G + G then h p (k - p * G) (xs ! k) else xs ! k)"
    if "p * G + G \<le> length xs" for p k xs
  proof -
    have "?row p xs = fold (\<lambda>i outs. outs[i := h p (i - p * G) (outs ! i)]) (map (\<lambda>g. p * G + g) [0..<G]) xs"
      by (simp add: fold_map comp_def)
    moreover have "set (map (\<lambda>g. p * G + g) [0..<G]) = {p * G..<p * G + G}"
      by (simp add: image_add_atLeastLessThan add.commute)
    moreover have "distinct (map (\<lambda>g. p * G + g) [0..<G])" by (simp add: distinct_map)
    ultimately show "length (?row p xs) = length xs"
      "k < length xs \<Longrightarrow> ?row p xs ! k = (if p * G \<le> k \<and> k < p * G + G then h p (k - p * G) (xs ! k) else xs ! k)"
      using fold_update_nth[where outs = xs and f = "\<lambda>i. h p (i - p * G)", of "map (\<lambda>g. p * G + g) [0..<G]"] that by auto
  qed
  let ?prev = "fold ?row [0..<R] outs"
  have IH: "length ?prev = length outs" "\<And>p g. p < R \<Longrightarrow> g < G \<Longrightarrow> ?prev ! (p * G + g) = h p g (outs ! (p * G + g))"
    "\<And>k. R * G \<le> k \<Longrightarrow> k < length outs \<Longrightarrow> ?prev ! k = outs ! k"
    using Suc by auto
  have b: "R * G + G \<le> length ?prev" using Suc.prems IH(1) by simp
  have e: "fold ?row [0..<Suc R] outs = ?row R ?prev" by simp
  have "?row R ?prev ! (p * G + g) = h p g (outs ! (p * G + g))" if pg: "p < Suc R" "g < G" for p g
  proof (cases "p < R")
    case True
    then have "p * G + g < R * G" using parity_index_less pg by blast
    with row(2)[OF b, of "p * G + g"] IH(1) IH(2)[OF True pg(2)] Suc.prems show ?thesis by simp
  next
    case False
    with pg have "p = R" by simp
    with row(2)[OF b, of "p * G + g"] IH(1) IH(3)[of "p * G + g"] Suc.prems pg show ?thesis by simp
  qed
  moreover have "?row R ?prev ! k = outs ! k" if "Suc R * G \<le> k" "k < length outs" for k
    using row(2)[OF b, of k] IH(1) IH(3)[of k] that by simp
  moreover have "length (?row R ?prev) = length outs" using row(1)[OF b] IH(1) by simp
  ultimately show ?case unfolding e by blast
qed

definition group_count :: "nat \<Rightarrow> nat \<Rightarrow> nat \<Rightarrow> nat" where
  "group_count grp g n = length (source_indices grp g n)"

text \<open>The parity byte the code must produce: a row of the Cauchy matrix times the padded column.\<close>

definition parity_spec :: "bytes \<Rightarrow> nat \<Rightarrow> nat \<Rightarrow> nat \<Rightarrow> nat \<Rightarrow> nat \<Rightarrow> nat \<Rightarrow> gf" where
  "parity_spec data n g symb p grp b =
     (\<Sum>j<group_count grp g n. GF (inv (of_nat j XOR (0x80 + of_nat p))) * GF (pad_byte data ((grp + j * g) * symb + b)))"

lemma group_count_le: "0 < g \<Longrightarrow> grp < g \<Longrightarrow> group_count grp g n \<le> n"
proof -
  assume g: "0 < g" "grp < g"
  then have "group_count grp g n = (n - grp + g - 1) div g"
    by (simp add: group_count_def source_indices_eq)
  also have "\<dots> \<le> n"
  proof (cases "n = 0")
    case True
    with g show ?thesis by simp
  next
    case False
    then have "n - grp + g - 1 \<le> n * g"
    proof -
      obtain m h where "n = Suc m" "g = Suc h" using False g by (cases n; cases g) auto
      then show ?thesis by simp
    qed
    then show ?thesis using g by (metis div_le_mono nonzero_mult_div_cancel_right less_numeral_extra(3))
  qed
  finally show ?thesis .
qed

lemma source_indices_nth: "0 < g \<Longrightarrow> grp < g \<Longrightarrow> j < group_count grp g n \<Longrightarrow> source_indices grp g n ! j = grp + j * g"
  by (simp add: group_count_def source_indices_eq)

lemma parity_payload_nth:
  assumes n: "unat n \<le> 255" and grp: "grp < unat g" and p: "p < unat r" and b: "b < symb"
    and symb: "length old = symb" and d: "length data = size0"
  shows "length (parity_payload data size0 n g symb (map (prep_entry n g r) [0..<unat g]) p grp old) = symb"
    and "GF (parity_payload data size0 n g symb (map (prep_entry n g r) [0..<unat g]) p grp old ! b)
      = parity_spec data (unat n) (unat g) symb p grp b"
proof -
  let ?K = "group_count grp (unat g) (unat n)"
  have K: "?K \<le> 255" using group_count_le[of "unat g" grp "unat n"] grp n by simp
  define k where "k = k_of_group grp (unat g) (unat n)"
  have k: "unat k = ?K" using K by (simp add: k_def k_of_group_def group_count_def)
  have pe: "prep_entry n g r grp = (k, if k > 0 then Some (compute_coef k r) else None)"
    by (simp add: prep_entry_def Let_def k_def)
  show "length (parity_payload data size0 n g symb (map (prep_entry n g r) [0..<unat g]) p grp old) = symb"
    and "GF (parity_payload data size0 n g symb (map (prep_entry n g r) [0..<unat g]) p grp old ! b)
      = parity_spec data (unat n) (unat g) symb p grp b"
  proof -
    consider (zero) "k = 0" | (pos) "0 < k" by (metis word_gt_0)
    then have "length (parity_payload data size0 n g symb (map (prep_entry n g r) [0..<unat g]) p grp old) = symb
      \<and> GF (parity_payload data size0 n g symb (map (prep_entry n g r) [0..<unat g]) p grp old ! b)
      = parity_spec data (unat n) (unat g) symb p grp b"
    proof cases
      case zero
      then have "?K = 0" using k by simp
      with zero pe grp b symb show ?thesis
        by (simp add: parity_payload_def Let_def parity_spec_def zero_gf_def)
    next
      case pos
      let ?zeroed = "replicate symb 0 @ drop symb old"
      let ?cr = "drop (p * unat k) (compute_coef k r)"
      let ?ss = "source_indices grp (unat g) (unat n)"
      have e: "parity_payload data size0 n g symb (map (prep_entry n g r) [0..<unat g]) p grp old
        = accumulate_sources ?cr data size0 symb ?ss 0 ?zeroed"
        using pos pe grp by (auto simp: parity_payload_def Let_def)
      have cr: "?cr ! j = inv (of_nat j XOR (0x80 + of_nat p))" if "j < ?K" for j
      proof -
        have "length (compute_coef k r) = unat r * unat k"
          by (simp add: compute_coef_def length_concat comp_def sum_list_triv)
        moreover have "p * unat k + j < unat r * unat k" using parity_index_less p that k by simp
        moreover have "p * unat k \<le> unat r * unat k" using p by (simp add: mult_le_mono1)
        ultimately show ?thesis using compute_coef_nth[OF p, of j k] that k
          by (simp add: nth_drop[of "p * ?K" "compute_coef k r" j])
      qed
      have acc: "unat (0 :: u8) + length ?ss \<le> 255" using K by (simp add: group_count_def)
      have lz: "length ?zeroed = symb" using symb by simp
      have "(\<Sum>j<length ?ss. GF (?cr ! (unat (0 :: u8) + j)) * GF (pad_byte data (?ss ! j * symb + b)))
        = parity_spec data (unat n) (unat g) symb p grp b"
        unfolding parity_spec_def group_count_def[symmetric]
        using cr source_indices_nth[of "unat g" grp _ "unat n"] grp
        by (intro sum.cong) auto
      moreover have "GF (?zeroed ! b) = 0" using b by (simp add: nth_append zero_gf_def)
      ultimately show ?thesis unfolding e
        using accumulate_sources_nth[OF lz b d acc, of ?cr] by simp
    qed
    then show "length (parity_payload data size0 n g symb (map (prep_entry n g r) [0..<unat g]) p grp old) = symb"
      and "GF (parity_payload data size0 n g symb (map (prep_entry n g r) [0..<unat g]) p grp old ! b)
        = parity_spec data (unat n) (unat g) symb p grp b" by auto
  qed
qed

lemma buildParityInto_ok:
  assumes ok: "cache_ok cache" and n: "unat n \<le> 255" and d: "length data = size0"
    and nz: "size0 \<noteq> 0" "g \<noteq> 0" "r \<noteq> 0" "symb \<noteq> 0"
    and outs: "unat g * unat r \<le> length outs" "\<forall>o1\<in>set outs. \<forall>x. o1 = Some x \<longrightarrow> length x = symb"
  shows "length (fst (buildParityInto (Some data) size0 n g r symb outs cache)) = length outs"
    and "cache_ok (snd (buildParityInto (Some data) size0 n g r symb outs cache))"
    and "\<lbrakk>p < unat r; grp < unat g; b < symb; outs ! (p * unat g + grp) \<noteq> None\<rbrakk> \<Longrightarrow>
      (\<exists>x. fst (buildParityInto (Some data) size0 n g r symb outs cache) ! (p * unat g + grp) = Some x
        \<and> length x = symb \<and> GF (x ! b) = parity_spec data (unat n) (unat g) symb p grp b)"
proof -
  obtain prep c' where pr: "prepareGroupCoefficients n g r cache = (prep, c')" by fastforce
  have prep: "prep = map (prep_entry n g r) [0..<unat g]" "cache_ok c'"
    using prepare_loop_ok[OF ok, of "[0..<unat g]" n g r] pr by (auto simp: prepareGroupCoefficients_def)
  define h where "h p grp = map_option (parity_payload data size0 n g symb prep p grp)" for p grp
  define outs' where "outs' = fold (\<lambda>p outs. fold (\<lambda>grp outs. outs[p * unat g + grp := h p grp (outs ! (p * unat g + grp))])
      [0..<unat g] outs) [0..<unat r] outs"
  have e: "buildParityInto (Some data) size0 n g r symb outs cache = (outs', c')"
    using nz outs(1) by (simp add: buildParityInto_def pr outs'_def h_def Let_def)
  have grid: "length outs' = length outs"
    "\<And>p grp. p < unat r \<Longrightarrow> grp < unat g \<Longrightarrow> outs' ! (p * unat g + grp) = h p grp (outs ! (p * unat g + grp))"
    using fold_grid_nth[of "unat r" "unat g" outs h] outs(1)
    unfolding outs'_def by (auto simp: mult.commute)
  show "length (fst (buildParityInto (Some data) size0 n g r symb outs cache)) = length outs"
    "cache_ok (snd (buildParityInto (Some data) size0 n g r symb outs cache))"
    using e grid(1) prep(2) by simp_all
  show "\<exists>x. fst (buildParityInto (Some data) size0 n g r symb outs cache) ! (p * unat g + grp) = Some x
        \<and> length x = symb \<and> GF (x ! b) = parity_spec data (unat n) (unat g) symb p grp b"
    if "p < unat r" "grp < unat g" "b < symb" "outs ! (p * unat g + grp) \<noteq> None"
  proof -
    note h_assms = that
    have idx: "p * unat g + grp < length outs"
      using parity_index_less[OF h_assms(1,2)] outs(1) by (simp add: mult.commute)
    obtain x0 where x0: "outs ! (p * unat g + grp) = Some x0" using h_assms(4) by blast
    have lx0: "length x0 = symb" using outs(2) nth_mem[OF idx] x0 by auto
    show ?thesis
      using parity_payload_nth[OF n h_assms(2,1,3) lx0 d] grid(2)[OF h_assms(1,2)] x0
      by (simp add: e h_def prep(1))
  qed
qed

lemma gf_add_is_diff: "(a :: gf) + b = a - b"
  by (cases a; cases b) (simp add: gf_char2)

lemma parity_zero_kernel:
  fixes c :: "nat \<Rightarrow> gf"
  assumes E: "E \<subseteq> {..<k}" and k: "k \<le> 128" and P: "finite P" "P \<subseteq> {..<r}" "r \<le> 128" "card E \<le> card P"
    and z: "\<And>p. p \<in> P \<Longrightarrow> (\<Sum>j\<in>E. GF (inv (of_nat j XOR (0x80 + of_nat p))) * c j) = 0"
  shows "\<forall>j\<in>E. c j = 0"
proof -
  define x where "x j = GF (of_nat j :: u8)" for j
  define y where "y p = GF (0x80 + of_nat p :: u8)" for p
  have E1: "\<And>j. j \<in> E \<Longrightarrow> j < 128" using E k by force
  have P1: "\<And>p. p \<in> P \<Longrightarrow> p < 128" using P by force
  have xi: "inj_on x E"
  proof (rule inj_onI)
    fix i j assume "i \<in> E" "j \<in> E" "x i = x j"
    then have "unat (of_nat i :: u8) = unat (of_nat j :: u8)" by (simp add: x_def)
    with E1[OF \<open>i \<in> E\<close>] E1[OF \<open>j \<in> E\<close>] show "i = j" by simp
  qed
  have uy: "unat (0x80 + of_nat p :: u8) = 128 + p" if "p \<in> P" for p
    using P1[OF that] by (simp add: unat_word_ariths)
  have yi: "inj_on y P"
  proof (rule inj_onI)
    fix p q assume pq: "p \<in> P" "q \<in> P" "y p = y q"
    then have "unat (0x80 + of_nat p :: u8) = unat (0x80 + of_nat q :: u8)" by (simp add: y_def)
    with uy pq show "p = q" by simp
  qed
  have ne: "x j \<noteq> y p" if "j \<in> E" "p \<in> P" for j p
  proof
    assume "x j = y p"
    then have "unat (of_nat j :: u8) = unat (0x80 + of_nat p :: u8)" by (simp add: x_def y_def)
    with uy[OF that(2)] E1[OF that(1)] show False by simp
  qed
  have coef: "GF (inv (of_nat j XOR (0x80 + of_nat p))) * c j = c j / (x j - y p)" for j p
    by (simp add: divide_gf_def gf_char2 x_def y_def mult.commute)
  have cy: "card (y ` P) = card P" using yi by (rule card_image)
  show ?thesis
  proof (rule cauchy_kernel[of E x "y ` P" c])
    show "finite E" using E finite_subset by blast
    show "inj_on x E" by (rule xi)
    show "finite (y ` P)" using P by simp
    show "card E \<le> card (y ` P)" using P cy by simp
    show "\<And>j y'. j \<in> E \<Longrightarrow> y' \<in> y ` P \<Longrightarrow> x j \<noteq> y'" using ne by blast
    show "(\<Sum>j\<in>E. c j / (x j - y')) = 0" if "y' \<in> y ` P" for y'
      using z that by (auto simp: coef)
  qed
qed

lemma parity_spec_unique:
  assumes E: "E \<subseteq> {..<group_count grp g n}" "group_count grp g n \<le> 128"
    and P: "finite P" "P \<subseteq> {..<r}" "r \<le> 128" "card E \<le> card P"
    and same: "\<And>j. j < group_count grp g n \<Longrightarrow> j \<notin> E \<Longrightarrow>
        pad_byte data ((grp + j * g) * symb + b) = pad_byte data' ((grp + j * g) * symb + b)"
    and par: "\<And>p. p \<in> P \<Longrightarrow> parity_spec data n g symb p grp b = parity_spec data' n g symb p grp b"
    and j: "j < group_count grp g n"
  shows "pad_byte data ((grp + j * g) * symb + b) = pad_byte data' ((grp + j * g) * symb + b)"
proof (cases "j \<in> E")
  case True
  let ?K = "group_count grp g n"
  define c where "c j = GF (pad_byte data ((grp + j * g) * symb + b)) - GF (pad_byte data' ((grp + j * g) * symb + b))" for j
  have "(\<Sum>j\<in>E. GF (inv (of_nat j XOR (0x80 + of_nat p))) * c j) = 0" if p: "p \<in> P" for p
  proof -
    have "(\<Sum>j<?K. GF (inv (of_nat j XOR (0x80 + of_nat p))) * c j) = 0"
      using par[OF p] by (simp add: parity_spec_def c_def right_diff_distrib sum_subtractf)
    moreover have "(\<Sum>j<?K. GF (inv (of_nat j XOR (0x80 + of_nat p))) * c j)
      = (\<Sum>j\<in>E. GF (inv (of_nat j XOR (0x80 + of_nat p))) * c j)"
      using E same by (intro sum.mono_neutral_right) (auto simp: c_def)
    ultimately show ?thesis by simp
  qed
  from parity_zero_kernel[OF E P this] True have "c j = 0" by blast
  then show ?thesis by (simp add: c_def)
next
  case False
  with same j show ?thesis by blast
qed

section \<open>The encoder interface\<close>

text \<open>\<open>IFecEncoder\<close> of \<open>fec_interface.hpp\<close>: what a client may rely on. \<open>'c\<close> is the encoder's own
  state (the coefficient cache).\<close>

locale fec_encoder =
  fixes get_params :: "u8 \<Rightarrow> u16 \<Rightarrow> bool \<times> u8 \<times> u8"
    and parity_into :: "bytes option \<Rightarrow> nat \<Rightarrow> u16 \<Rightarrow> u8 \<Rightarrow> u8 \<Rightarrow> nat \<Rightarrow> bytes option list \<Rightarrow> 'c \<Rightarrow> bytes option list \<times> 'c"
  assumes params_valid: "get_params t n = (True, g, r) \<Longrightarrow> t \<noteq> 0 \<and> unat n < 256 \<and> 0 < g \<and> 0 < r"
    and into_lengths: "(\<And>x. Some x \<in> set outs \<Longrightarrow> symb \<le> length x) \<Longrightarrow> (\<And>x. d = Some x \<Longrightarrow> length x = sz) \<Longrightarrow>
      map (map_option length) (fst (parity_into d sz n g r symb outs c)) = map (map_option length) outs"
begin

lemma into_count: 
  assumes "\<And>x. Some x \<in> set outs \<Longrightarrow> symb \<le> length x" "\<And>x. d = Some x \<Longrightarrow> length x = sz"
  shows "length (fst (parity_into d sz n g r symb outs c)) = length outs"
  by (rule map_eq_imp_length_eq[OF into_lengths[OF assms]])

lemma parity_budget:
  "get_params t n = (True, g, r) \<Longrightarrow> 0 < unat g * unat r \<and> unat g * unat r \<le> 255 * 255"
  using params_valid[of t n g r] mult_le_mono[of "unat g" 255 "unat r" 255] unat_u8_less[of g] unat_u8_less[of r]
  by (auto simp: word_gt_0 unat_gt_0)

end

lemma getParams_valid:
  "getParams tbl t n = (True, g, r) \<Longrightarrow> loaded tbl \<and> t = 1 \<and> unat n < 256 \<and> 0 < g \<and> 0 < r
    \<and> g = groups_by_n tbl ! unat n \<and> r = r_by_n tbl ! unat n"
  by (auto simp: getParams_def Let_def word_le_nat_alt split: if_splits)

lemma length_accumulate_sources:
  "length d = sz \<Longrightarrow> symb \<le> length payload \<Longrightarrow> length (accumulate_sources cr d sz symb ss li payload) = length payload"
  by (induction ss arbitrary: li payload) (simp_all add: Let_def length_mulAdd)

lemma length_parity_payload:
  "length d = sz \<Longrightarrow> symb \<le> length old \<Longrightarrow> length (parity_payload d sz n g symb prep p grp old) = length old"
  by (auto simp: parity_payload_def Let_def length_accumulate_sources split: prod.splits option.splits)

lemma fold_preserves:
  assumes "\<And>x s. x \<in> set xs \<Longrightarrow> Q s \<Longrightarrow> Q (f x s)" and "Q s"
  shows "Q (fold f xs s)"
  using assms by (induction xs arbitrary: s) auto

lemma buildParityInto_lengths:
  assumes "\<And>x. Some x \<in> set outs \<Longrightarrow> symb \<le> length x" "\<And>x. d = Some x \<Longrightarrow> length x = sz"
  shows "map (map_option length) (fst (buildParityInto d sz n g r symb outs c)) = map (map_option length) outs"
proof -
  let ?L = "map (map_option length)"
  have up: "?L (os[i := map_option f (os ! i)]) = ?L outs"
    if "?L os = ?L outs" "\<And>x. symb \<le> length x \<Longrightarrow> length (f x) = length (x :: bytes)" for os i f
  proof (cases "i < length os")
    case True
    have len: "length os = length outs" using arg_cong[OF that(1), of length] by simp
    have "map_option length (os ! i) = map_option length (outs ! i)"
      using arg_cong[OF that(1), of "\<lambda>l. l ! i"] True len by simp
    then have "map_option length (map_option f (os ! i)) = map_option length (os ! i)"
      using assms(1)[of "the (outs ! i)"] nth_mem[of i outs] True len that(2)
      by (cases "os ! i"; cases "outs ! i") auto
    then have "?L (os[i := map_option f (os ! i)]) = ?L os"
      using True by (simp add: map_update) (metis length_map list_update_id nth_map)
    with that(1) show ?thesis by simp
  qed (use that in \<open>simp add: list_update_beyond\<close>)
  show ?thesis
    unfolding buildParityInto_def Let_def
    by (auto split: option.splits prod.splits intro!: fold_preserves up length_parity_payload assms(2))
qed

interpretation fec: fec_encoder "getParams tbl" buildParityInto for tbl
  by unfold_locales (auto dest: getParams_valid intro: buildParityInto_lengths)


lemma buildParity_eq:
  assumes "size0 \<noteq> 0" "g \<noteq> 0" "r \<noteq> 0" "symb \<noteq> 0"
  shows "buildParity (Some data) size0 n g r symb cache =
    (map the (fst (buildParityInto (Some data) size0 n g r symb (map Some (replicate (unat g * unat r) (replicate symb 0))) cache)),
     snd (buildParityInto (Some data) size0 n g r symb (map Some (replicate (unat g * unat r) (replicate symb 0))) cache))"
  using assms by (simp add: buildParity_def Let_def split: prod.splits)

lemma buildParity_ok:
  assumes "cache_ok cache" "unat n \<le> 255" "length data = size0"
    "size0 \<noteq> 0" "g \<noteq> 0" "r \<noteq> 0" "symb \<noteq> 0"
  shows "length (fst (buildParity (Some data) size0 n g r symb cache)) = unat g * unat r"
    and "cache_ok (snd (buildParity (Some data) size0 n g r symb cache))"
    and "\<lbrakk>p < unat r; grp < unat g; b < symb\<rbrakk> \<Longrightarrow>
      length (fst (buildParity (Some data) size0 n g r symb cache) ! (p * unat g + grp)) = symb \<and>
      GF (fst (buildParity (Some data) size0 n g r symb cache) ! (p * unat g + grp) ! b)
        = parity_spec data (unat n) (unat g) symb p grp b"
proof -
  let ?outs = "map Some (replicate (unat g * unat r) (replicate symb (0 :: u8)))"
  have o: "unat g * unat r \<le> length ?outs" "\<forall>o1\<in>set ?outs. \<forall>x. o1 = Some x \<longrightarrow> length x = symb" by auto
  note ok = buildParityInto_ok[OF assms o]
  show "length (fst (buildParity (Some data) size0 n g r symb cache)) = unat g * unat r"
    "cache_ok (snd (buildParity (Some data) size0 n g r symb cache))"
    using ok(1,2) by (simp_all add: buildParity_eq[OF assms(4-7)])
  assume p: "p < unat r" "grp < unat g" "b < symb"
  have i: "p * unat g + grp < length ?outs"
    using parity_index_less[OF p(1,2)] by (simp add: mult.commute)
  from ok(3)[OF p] i obtain x where
    "fst (buildParityInto (Some data) size0 n g r symb ?outs cache) ! (p * unat g + grp) = Some x"
    "length x = symb" "GF (x ! b) = parity_spec data (unat n) (unat g) symb p grp b"
    by (auto simp del: map_replicate)
  with i ok(1) show "length (fst (buildParity (Some data) size0 n g r symb cache) ! (p * unat g + grp)) = symb \<and>
      GF (fst (buildParity (Some data) size0 n g r symb cache) ! (p * unat g + grp) ! b)
        = parity_spec data (unat n) (unat g) symb p grp b"
    by (simp add: buildParity_eq[OF assms(4-7)] del: map_replicate)
qed

text \<open>Fragment \<open>i\<close> of a frame cut into symbols, the last one short or empty.\<close>

definition frame_fragment :: "bytes \<Rightarrow> nat \<Rightarrow> nat \<Rightarrow> bytes" where
  "frame_fragment data symb i = take symb (drop (i * symb) data)"

lemma fragment_eq_iff:
  assumes "length data = length data'"
  shows "frame_fragment data symb i = frame_fragment data' symb i \<longleftrightarrow>
    (\<forall>b < symb. pad_byte data (i * symb + b) = pad_byte data' (i * symb + b))"
  using assms by (auto simp: frame_fragment_def list_eq_iff_nth_eq pad_byte_def)

section \<open>Properties\<close>

text \<open>C9: Parity payload \<open>p * groups + grp\<close> is row \<open>p\<close> of the Cauchy matrix applied to the fragments
  of interleaving group \<open>grp\<close> (zero padded), byte for byte in GF(256); the number and the sizes of
  the payloads are those requested, and the coefficient cache stays correct.\<close>
theorem buildParity_is_cauchy_code:
  assumes "cache_ok cache" "unat n \<le> 255" "length data = size0"
    "size0 \<noteq> 0" "g \<noteq> 0" "r \<noteq> 0" "symb \<noteq> 0"
  shows "length (fst (buildParity (Some data) size0 n g r symb cache)) = unat g * unat r
    \<and> cache_ok (snd (buildParity (Some data) size0 n g r symb cache))
    \<and> (\<forall>p<unat r. \<forall>grp<unat g. \<forall>b < symb.
      length (fst (buildParity (Some data) size0 n g r symb cache) ! (p * unat g + grp)) = symb \<and>
      GF (fst (buildParity (Some data) size0 n g r symb cache) ! (p * unat g + grp) ! b)
        = parity_spec data (unat n) (unat g) symb p grp b)"
  using buildParity_ok[OF assms] by blast

theorem buildParity_is_cauchy_code_witness:
  "length (fst (buildParity (Some [1, 2, 3]) 3 2 1 1 2 Map.empty)) = 1
    \<and> GF (fst (buildParity (Some [1, 2, 3]) 3 2 1 1 2 Map.empty) ! 0 ! 0) = parity_spec [1, 2, 3] 2 1 2 0 0 0"
  using buildParity_is_cauchy_code[of Map.empty 2 "[1, 2, 3]" 3 1 1 2] by (simp add: cache_ok_def)

text \<open>Erasure recovery. Take a group of at most 128 fragments and at most 128 parity rows. If two
  frames of equal size agree on every fragment of the group outside a set \<open>E\<close> of lost ones, and on
  the parity payloads of a set \<open>P\<close> of at least as many rows, they agree on the whole group: what a
  receiver holds determines the lost fragments.\<close>
theorem fec_determines_lost_fragments:
  assumes "cache_ok cache" "cache_ok cache'" "unat n \<le> 255" "length data = size0" "length data' = size0"
    "size0 \<noteq> 0" "g \<noteq> 0" "r \<noteq> 0" "symb \<noteq> 0" "grp < unat g"
    and "group_count grp (unat g) (unat n) \<le> 128" "unat r \<le> 128"
    and "E \<subseteq> {..<group_count grp (unat g) (unat n)}" "P \<subseteq> {..<unat r}" "card E \<le> card P"
    and "\<forall>j. j < group_count grp (unat g) (unat n) \<longrightarrow> j \<notin> E \<longrightarrow>
      frame_fragment data symb (grp + j * unat g) = frame_fragment data' symb (grp + j * unat g)"
    and "\<forall>p\<in>P. fst (buildParity (Some data) size0 n g r symb cache) ! (p * unat g + grp)
      = fst (buildParity (Some data') size0 n g r symb cache') ! (p * unat g + grp)"
  shows "\<forall>j<group_count grp (unat g) (unat n).
    frame_fragment data symb (grp + j * unat g) = frame_fragment data' symb (grp + j * unat g)"
proof (intro allI impI)
  fix j assume j: "j < group_count grp (unat g) (unat n)"
  have len: "length data = length data'" using assms by simp
  have "pad_byte data ((grp + j * unat g) * symb + b) = pad_byte data' ((grp + j * unat g) * symb + b)"
    if b: "b < symb" for b
  proof (rule parity_spec_unique[OF assms(13,11) _ assms(14,12,15) _ _ j])
    show "finite P" using assms(14) finite_subset by blast
    show "pad_byte data ((grp + i * unat g) * symb + b) = pad_byte data' ((grp + i * unat g) * symb + b)"
      if "i < group_count grp (unat g) (unat n)" "i \<notin> E" for i
      using assms(16) that b by (simp add: fragment_eq_iff[OF len])
    show "parity_spec data (unat n) (unat g) symb p grp b = parity_spec data' (unat n) (unat g) symb p grp b"
      if "p \<in> P" for p
    proof -
      have p: "p < unat r" using that assms(14) by auto
      show ?thesis
        using buildParity_ok(3)[OF assms(1,3,4,6-9) p assms(10) b] assms(17) that
          buildParity_ok(3)[OF assms(2,3,5,6-9) p assms(10) b] by metis
    qed
  qed
  then show "frame_fragment data symb (grp + j * unat g) = frame_fragment data' symb (grp + j * unat g)"
    by (simp add: fragment_eq_iff[OF len])
qed

theorem fec_determines_lost_fragments_witness:
  "fst (buildParity (Some [8, 9]) 2 2 1 1 1 Map.empty) ! 0 \<noteq> fst (buildParity (Some [7, 9]) 2 2 1 1 1 Map.empty) ! 0"
proof
  have s: "source_indices 0 (Suc 0) 2 = [0, 1]"
    by (simp add: source_indices_eq numeral_2_eq_2)
  assume a: "fst (buildParity (Some [8, 9]) 2 2 1 1 1 Map.empty) ! 0 = fst (buildParity (Some [7, 9]) 2 2 1 1 1 Map.empty) ! 0"
  have "\<forall>j<group_count 0 (unat (1::u8)) (unat (2::u16)).
      frame_fragment [8, 9] 1 (0 + j * unat (1::u8)) = frame_fragment [7, 9] 1 (0 + j * unat (1::u8))"
    by (rule fec_determines_lost_fragments[of Map.empty Map.empty 2 "[8, 9]" 2 "[7, 9]" 1 1 1 0 "{0}" "{0}"])
      (use a in \<open>auto simp: cache_ok_def group_count_def s less_Suc_eq frame_fragment_def take_Suc_conv_app_nth\<close>)
  moreover have "0 < group_count 0 (unat (1::u8)) (unat (2::u16))" by (simp add: group_count_def s)
  ultimately have "frame_fragment [8, 9] 1 0 = frame_fragment [7, 9] 1 0" by force
  then show False by (simp add: frame_fragment_def)
qed

text \<open>\<open>getParams\<close> grants parity exactly for table 1 on a loaded table, for frames of fewer than 256
  fragments whose entry has both counts positive; what it grants is that entry. Every other
  configured table id disables FEC.\<close>
theorem getParams_grants:
  "getParams tbl t n = (True, g, r) \<longleftrightarrow>
    t = 1 \<and> loaded tbl \<and> unat n < 256 \<and> 0 < g \<and> 0 < r \<and> g = groups_by_n tbl ! unat n \<and> r = r_by_n tbl ! unat n"
  by (auto simp: getParams_def Let_def word_le_nat_alt)

end
