(* ===== verification/PacketCodec.thy ===== *)
theory PacketCodec
  imports Prelude "HOL-Library.Monad_Syntax"
begin

text \<open>
  \<open>src/src/udp/packet_codec.cpp\<close>, \<open>include/udp/packet_codec.hpp\<close> and
  \<open>include/telemetry/robot_telemetry_types.hpp\<close>: the wire formats the bridge sends. An output
  vector that the code clears and appends to is the list that results. Strings are \<open>string\<close>; a
  float is its 32-bit pattern (the code copies the bits), a signed 16-bit field its two's
  complement word. The clock (\<open>now_sec\<close>) and HMAC-SHA256 (\<open>hmac key data\<close>) are parameters.
\<close>

section \<open>Headers and snapshots\<close>

definition kVideoPacketType :: u8 where "kVideoPacketType = 0x01"
definition kAudioPacketType :: u8 where "kAudioPacketType = 0x04"
definition kRobotTelemetryLowRateType :: u8 where "kRobotTelemetryLowRateType = 0x05"
definition kRobotTelemetryHighRateType :: u8 where "kRobotTelemetryHighRateType = 0x06"

record VideoPacketHeaderV2 =
  v_Type :: u8
  v_PacketSeqNum :: u16
  v_Timestamp :: u64
  v_FrameId :: u32
  v_FragmentIndex :: u16
  v_TotalFragments :: u16
  v_PayloadLength :: u16
  v_FramePayloadLength :: u32
  v_FecTableId :: u8
  v_KeyframeFlag :: u8

record AudioPacketHeaderV2 =
  a_Type :: u8
  a_Seq :: u16
  a_TimestampNtp :: u64

record TelemetryPacketHeaderV1 =
  t_Type :: u8
  t_Seq :: u16
  t_TxTimestampMs :: u64
  t_SessionId :: string
  t_DeviceId :: string

record RobotTelemetrySnapshot =
  rt_version :: u8
  battery_voltage_mv :: u16
  battery_current_ma :: u16
  battery_temperature_deci_c :: u16
  fault_code :: string
  network_quality :: string
  model :: string
  firmware_version :: string

record RobotJointStateSample =
  position_rad :: u32
  velocity_rad_s :: u32
  effort_nm :: u32
  joint_valid :: bool

record RobotJointTelemetrySnapshot =
  rj_version :: u8
  schema_id :: u16
  sample_timestamp_ms :: u64
  joints :: "RobotJointStateSample list"

record PacketCodec =
  codec_max_payload_bytes :: nat
  codec_session_id :: string
  codec_device_id :: string

definition PacketCodec_init :: "nat \<Rightarrow> PacketCodec" where
  "PacketCodec_init n = \<lparr>codec_max_payload_bytes = n, codec_session_id = [], codec_device_id = []\<rparr>"

definition setSessionId :: "PacketCodec \<Rightarrow> string \<Rightarrow> PacketCodec" where
  "setSessionId c s = c\<lparr>codec_session_id := s\<rparr>"

definition setDeviceId :: "PacketCodec \<Rightarrow> string \<Rightarrow> PacketCodec" where
  "setDeviceId c s = c\<lparr>codec_device_id := s\<rparr>"

definition maxPayloadBytes :: "PacketCodec \<Rightarrow> nat" where
  "maxPayloadBytes c = codec_max_payload_bytes c"

section \<open>Writers\<close>

definition string_bytes :: "string \<Rightarrow> bytes" where
  "string_bytes s = map of_char s"

definition truncateU8String :: "string \<Rightarrow> string" where
  "truncateU8String v = (if length v \<le> 255 then v else take 255 v)"

definition writeTelemetryHeader :: "TelemetryPacketHeaderV1 \<Rightarrow> string \<Rightarrow> string \<Rightarrow> bytes" where
  "writeTelemetryHeader h session_id device_id =
     [t_Type h] @ writeU16LE (t_Seq h) @ writeU64LE (t_TxTimestampMs h)
     @ [of_nat (length session_id)] @ [of_nat (length device_id)]
     @ string_bytes session_id @ string_bytes device_id"

definition buildVideoPacket :: "VideoPacketHeaderV2 \<Rightarrow> bytes \<Rightarrow> bytes" where
  "buildVideoPacket h payload =
     [v_Type h] @ writeU16LE (v_PacketSeqNum h) @ writeU64LE (v_Timestamp h) @ writeU32LE (v_FrameId h)
     @ writeU16LE (v_FragmentIndex h) @ writeU16LE (v_TotalFragments h) @ writeU16LE (v_PayloadLength h)
     @ writeU32LE (v_FramePayloadLength h) @ [v_FecTableId h] @ [v_KeyframeFlag h] @ payload"

definition buildAudioPacket :: "AudioPacketHeaderV2 \<Rightarrow> bytes \<Rightarrow> bytes" where
  "buildAudioPacket h payload = [a_Type h] @ writeU16LE (a_Seq h) @ writeU64LE (a_TimestampNtp h) @ payload"

definition buildRobotTelemetryPacket ::
  "PacketCodec \<Rightarrow> TelemetryPacketHeaderV1 \<Rightarrow> RobotTelemetrySnapshot \<Rightarrow> bytes" where
  "buildRobotTelemetryPacket c h s =
     (let session_id = truncateU8String (if t_SessionId h = [] then codec_session_id c else t_SessionId h);
          device_id = truncateU8String (if t_DeviceId h = [] then codec_device_id c else t_DeviceId h);
          fault = truncateU8String (fault_code s);
          quality = truncateU8String (network_quality s);
          mdl = truncateU8String (model s);
          firmware = truncateU8String (firmware_version s)
      in writeTelemetryHeader h session_id device_id
         @ [rt_version s] @ writeU16LE (battery_voltage_mv s) @ writeU16LE (battery_current_ma s)
         @ writeU16LE (battery_temperature_deci_c s)
         @ [of_nat (length fault)] @ [of_nat (length quality)] @ [of_nat (length mdl)] @ [of_nat (length firmware)]
         @ string_bytes fault @ string_bytes quality @ string_bytes mdl @ string_bytes firmware)"

definition valid_mask :: "RobotJointStateSample list \<Rightarrow> u32" where
  "valid_mask js = fold (\<lambda>i m. if joint_valid (js ! i) then m OR push_bit i 1 else m)
     [0..<min (min (length js) 255) 32] 0"

definition write_joint :: "RobotJointStateSample \<Rightarrow> bytes" where
  "write_joint j = writeU32LE (position_rad j) @ writeU32LE (velocity_rad_s j) @ writeU32LE (effort_nm j)"

definition buildRobotJointTelemetryPacket ::
  "PacketCodec \<Rightarrow> TelemetryPacketHeaderV1 \<Rightarrow> RobotJointTelemetrySnapshot \<Rightarrow> bytes" where
  "buildRobotJointTelemetryPacket c h s =
     (let session_id = truncateU8String (if t_SessionId h = [] then codec_session_id c else t_SessionId h);
          device_id = truncateU8String (if t_DeviceId h = [] then codec_device_id c else t_DeviceId h);
          joint_count = min (length (joints s)) 255
      in writeTelemetryHeader h session_id device_id
         @ [rj_version s] @ writeU16LE (schema_id s) @ writeU64LE (sample_timestamp_ms s)
         @ [of_nat joint_count] @ writeU32LE (valid_mask (joints s))
         @ concat (map write_joint (take joint_count (joints s))))"

section \<open>Control messages\<close>

fun nat_digits :: "nat \<Rightarrow> string" where
  "nat_digits n = (if n < 10 then [char_of (48 + n)] else nat_digits (n div 10) @ [char_of (48 + n mod 10)])"

declare nat_digits.simps [simp del]

definition hex_digit :: "nat \<Rightarrow> char" where
  "hex_digit d = (if d < 10 then char_of (48 + d) else char_of (87 + d))"

definition hex_byte :: "u8 \<Rightarrow> string" where
  "hex_byte b = [hex_digit (unat b div 16), hex_digit (unat b mod 16)]"

definition generateSignature :: "(string \<Rightarrow> string \<Rightarrow> bytes) \<Rightarrow> PacketCodec \<Rightarrow> string \<Rightarrow> string \<Rightarrow> string" where
  "generateSignature hmac c ty timestamp =
     concat (map hex_byte (hmac (codec_session_id c) (ty @ codec_session_id c @ timestamp)))"

definition buildHelloMessage :: "(string \<Rightarrow> string \<Rightarrow> bytes) \<Rightarrow> nat \<Rightarrow> PacketCodec \<Rightarrow> string" where
  "buildHelloMessage hmac now_sec c =
     (if codec_session_id c = [] then []
      else (let timestamp = nat_digits now_sec
            in ''HELLO|'' @ codec_session_id c @ ''|'' @ timestamp @ ''|'' @ generateSignature hmac c ''HELLO'' timestamp))"

definition buildPingMessage :: "(string \<Rightarrow> string \<Rightarrow> bytes) \<Rightarrow> nat \<Rightarrow> PacketCodec \<Rightarrow> string" where
  "buildPingMessage hmac now_sec c =
     (if codec_session_id c = [] then []
      else (let timestamp = nat_digits now_sec
            in ''PING|'' @ codec_session_id c @ ''|'' @ timestamp @ ''|'' @ generateSignature hmac c ''PING'' timestamp))"

section \<open>Readers\<close>

text \<open>\<open>readU64LE\<close> of \<open>src/src/udp/udp_module.cpp\<close>.\<close>

definition readU64LE :: "bytes \<Rightarrow> nat \<Rightarrow> u64" where
  "readU64LE p i = ucast (readLeU16 p i) OR push_bit 16 (ucast (readLeU16 p (i + 2)))
     OR push_bit 32 (ucast (readLeU16 p (i + 4))) OR push_bit 48 (ucast (readLeU16 p (i + 6)))"

lemma readLeU16_append:
  "readLeU16 (xs @ ys) (length xs + i) = readLeU16 ys i"
  by (simp add: readLeU16_def nth_append)

lemma readLeU32_append:
  "readLeU32 (xs @ ys) (length xs + i) = readLeU32 ys i"
  by (simp add: readLeU32_def nth_append)

lemma readU64LE_append:
  "readU64LE (xs @ ys) (length xs + i) = readU64LE ys i"
  by (simp add: readU64LE_def readLeU16_append add.assoc del: add_2_eq_Suc add_2_eq_Suc')

lemma read16_cons [le_simps]: "readLeU16 (writeU16LE v @ ys) 0 = v"
  by (simp add: readLeU16_def writeU16LE_def le16_bytes)

lemma read32_cons [le_simps]: "readLeU32 (writeU32LE v @ ys) 0 = v"
  by (simp add: readLeU32_def writeU32LE_def le32_bytes)

lemma read16_low: "readLeU16 (writeU32LE w @ ys) 0 = ucast w"
proof (rule bit_word_eqI)
  fix n assume "n < LENGTH(16)"
  then consider "n < 8" | "8 \<le> n" "n < 16" by force
  then show "bit (readLeU16 (writeU32LE w @ ys) 0) n = bit (ucast w :: u16) n"
    by cases (auto simp: readLeU16_def writeU32LE_def bit_simps)
qed

lemma read16_high: "readLeU16 (writeU32LE w @ ys) 2 = ucast (drop_bit 16 w)"
proof (rule bit_word_eqI)
  fix n assume "n < LENGTH(16)"
  then consider "n < 8" | "8 \<le> n" "n < 16" by force
  then show "bit (readLeU16 (writeU32LE w @ ys) 2) n = bit (ucast (drop_bit 16 w) :: u16) n"
    by cases (auto simp: readLeU16_def writeU32LE_def bit_simps)
qed

lemma word64_quarters:
  "ucast (ucast v :: u16) OR push_bit 16 (ucast (ucast (drop_bit 16 v) :: u16))
     OR push_bit 32 (ucast (ucast (drop_bit 32 v) :: u16)) OR push_bit 48 (ucast (ucast (drop_bit 48 v) :: u16))
   = (v :: u64)"
proof (rule bit_word_eqI)
  fix n assume "n < LENGTH(64)"
  then consider "n < 16" | "16 \<le> n" "n < 32" | "32 \<le> n" "n < 48" | "48 \<le> n" "n < 64" by force
  then show "bit (ucast (ucast v :: u16) OR push_bit 16 (ucast (ucast (drop_bit 16 v) :: u16))
     OR push_bit 32 (ucast (ucast (drop_bit 32 v) :: u16)) OR push_bit 48 (ucast (ucast (drop_bit 48 v) :: u16)) :: u64) n
    = bit v n"
    by cases (auto simp: bit_simps)
qed

lemma read64_cons [le_simps]: "readU64LE (writeU64LE v @ ys) 0 = v"
proof -
  define lo :: u32 where "lo = ucast (v AND 0xFFFFFFFF)"
  define hi :: u32 where "hi = ucast (drop_bit 32 v AND 0xFFFFFFFF)"
  have w: "writeU64LE v @ ys = writeU32LE lo @ writeU32LE hi @ ys"
    by (simp add: writeU64LE_def lo_def hi_def)
  have r: "readLeU16 (writeU64LE v @ ys) 0 = ucast lo" "readLeU16 (writeU64LE v @ ys) 2 = ucast (drop_bit 16 lo)"
    "readLeU16 (writeU64LE v @ ys) 4 = ucast hi" "readLeU16 (writeU64LE v @ ys) 6 = ucast (drop_bit 16 hi)"
    using readLeU16_append[of "writeU32LE lo" "writeU32LE hi @ ys" 0]
      readLeU16_append[of "writeU32LE lo" "writeU32LE hi @ ys" 2]
    by (simp_all only: w read16_low read16_high) (simp_all add: read16_low read16_high)
  have p: "(ucast lo :: u16) = ucast v" "(ucast (drop_bit 16 lo) :: u16) = ucast (drop_bit 16 v)"
    "(ucast hi :: u16) = ucast (drop_bit 32 v)" "(ucast (drop_bit 16 hi) :: u16) = ucast (drop_bit 48 v)"
    by (auto intro!: bit_word_eqI simp: lo_def hi_def bit_simps)
  show ?thesis by (simp add: readU64LE_def r p word64_quarters del: add_2_eq_Suc add_2_eq_Suc')
qed


section \<open>Specification: parsing the formats back\<close>

definition take_u8 :: "bytes \<Rightarrow> (u8 \<times> bytes) option" where
  "take_u8 bs = (case bs of [] \<Rightarrow> None | b # r \<Rightarrow> Some (b, r))"

definition take_u16 :: "bytes \<Rightarrow> (u16 \<times> bytes) option" where
  "take_u16 bs = (if length bs < 2 then None else Some (readLeU16 bs 0, drop 2 bs))"

definition take_u32 :: "bytes \<Rightarrow> (u32 \<times> bytes) option" where
  "take_u32 bs = (if length bs < 4 then None else Some (readLeU32 bs 0, drop 4 bs))"

definition take_u64 :: "bytes \<Rightarrow> (u64 \<times> bytes) option" where
  "take_u64 bs = (if length bs < 8 then None else Some (readU64LE bs 0, drop 8 bs))"

definition take_string :: "nat \<Rightarrow> bytes \<Rightarrow> (string \<times> bytes) option" where
  "take_string n bs = (if length bs < n then None else Some (map (\<lambda>b. char_of (unat b)) (take n bs), drop n bs))"

lemma char_of_byte [simp]: "char_of (unat (of_char c :: u8)) = c"
proof -
  have "(of_char c :: u8) = of_nat (of_char c)" by (simp only: of_nat_of_char)
  moreover have "(of_char c :: nat) < 256" by (rule nat_of_char_less_256)
  ultimately have "unat (of_char c :: u8) = of_char c" by (metis unat_of_nat_u8)
  then show ?thesis by simp
qed

lemma take_write [simp]:
  "take_u8 (b # ys) = Some (b, ys)"
  "take_u16 (writeU16LE v16 @ ys) = Some (v16, ys)"
  "take_u32 (writeU32LE v32 @ ys) = Some (v32, ys)"
  "take_u64 (writeU64LE v64 @ ys) = Some (v64, ys)"
  "take_string (length s) (string_bytes s @ ys) = Some (s, ys)"
  by (simp_all add: take_u8_def take_u16_def take_u32_def take_u64_def take_string_def le_simps
      string_bytes_def comp_def)

definition parse_video :: "bytes \<Rightarrow> (VideoPacketHeaderV2 \<times> bytes) option" where
  "parse_video bs = do {
     (ty, bs) \<leftarrow> take_u8 bs; (sq, bs) \<leftarrow> take_u16 bs; (ts, bs) \<leftarrow> take_u64 bs; (fid, bs) \<leftarrow> take_u32 bs;
     (fi, bs) \<leftarrow> take_u16 bs; (tf, bs) \<leftarrow> take_u16 bs; (pl, bs) \<leftarrow> take_u16 bs; (fl, bs) \<leftarrow> take_u32 bs;
     (tbl, bs) \<leftarrow> take_u8 bs; (key, bs) \<leftarrow> take_u8 bs;
     Some (\<lparr>v_Type = ty, v_PacketSeqNum = sq, v_Timestamp = ts, v_FrameId = fid, v_FragmentIndex = fi,
       v_TotalFragments = tf, v_PayloadLength = pl, v_FramePayloadLength = fl, v_FecTableId = tbl,
       v_KeyframeFlag = key\<rparr>, bs) }"

definition parse_telemetry_header :: "bytes \<Rightarrow> (TelemetryPacketHeaderV1 \<times> bytes) option" where
  "parse_telemetry_header bs = do {
     (ty, bs) \<leftarrow> take_u8 bs; (sq, bs) \<leftarrow> take_u16 bs; (ts, bs) \<leftarrow> take_u64 bs;
     (ns, bs) \<leftarrow> take_u8 bs; (nd, bs) \<leftarrow> take_u8 bs;
     (sid, bs) \<leftarrow> take_string (unat ns) bs; (did, bs) \<leftarrow> take_string (unat nd) bs;
     Some (\<lparr>t_Type = ty, t_Seq = sq, t_TxTimestampMs = ts, t_SessionId = sid, t_DeviceId = did\<rparr>, bs) }"

definition parse_telemetry :: "bytes \<Rightarrow> (TelemetryPacketHeaderV1 \<times> RobotTelemetrySnapshot \<times> bytes) option" where
  "parse_telemetry bs = do {
     (h, bs) \<leftarrow> parse_telemetry_header bs;
     (v, bs) \<leftarrow> take_u8 bs; (mv, bs) \<leftarrow> take_u16 bs; (ma, bs) \<leftarrow> take_u16 bs; (dc, bs) \<leftarrow> take_u16 bs;
     (n1, bs) \<leftarrow> take_u8 bs; (n2, bs) \<leftarrow> take_u8 bs; (n3, bs) \<leftarrow> take_u8 bs; (n4, bs) \<leftarrow> take_u8 bs;
     (s1, bs) \<leftarrow> take_string (unat n1) bs; (s2, bs) \<leftarrow> take_string (unat n2) bs;
     (s3, bs) \<leftarrow> take_string (unat n3) bs; (s4, bs) \<leftarrow> take_string (unat n4) bs;
     Some (h, \<lparr>rt_version = v, battery_voltage_mv = mv, battery_current_ma = ma,
       battery_temperature_deci_c = dc, fault_code = s1, network_quality = s2, model = s3,
       firmware_version = s4\<rparr>, bs) }"

fun parse_joints :: "nat \<Rightarrow> u32 \<Rightarrow> nat \<Rightarrow> bytes \<Rightarrow> (RobotJointStateSample list \<times> bytes) option" where
  "parse_joints 0 m i bs = Some ([], bs)"
| "parse_joints (Suc n) m i bs = do {
     (p, bs) \<leftarrow> take_u32 bs; (v, bs) \<leftarrow> take_u32 bs; (e, bs) \<leftarrow> take_u32 bs;
     (js, bs) \<leftarrow> parse_joints n m (Suc i) bs;
     Some (\<lparr>position_rad = p, velocity_rad_s = v, effort_nm = e, joint_valid = bit m i\<rparr> # js, bs) }"

definition parse_joint_telemetry :: "bytes \<Rightarrow> (TelemetryPacketHeaderV1 \<times> RobotJointTelemetrySnapshot \<times> bytes) option" where
  "parse_joint_telemetry bs = do {
     (h, bs) \<leftarrow> parse_telemetry_header bs;
     (v, bs) \<leftarrow> take_u8 bs; (sch, bs) \<leftarrow> take_u16 bs; (ts, bs) \<leftarrow> take_u64 bs;
     (n, bs) \<leftarrow> take_u8 bs; (m, bs) \<leftarrow> take_u32 bs; (js, bs) \<leftarrow> parse_joints (unat n) m 0 bs;
     Some (h, \<lparr>rj_version = v, schema_id = sch, sample_timestamp_ms = ts, joints = js\<rparr>, bs) }"

text \<open>What a receiver can see of the inputs: strings cut to 255 bytes, the codec's identity filled in,
  at most 255 joints, validity only for the first 32.\<close>

definition wire_header :: "PacketCodec \<Rightarrow> TelemetryPacketHeaderV1 \<Rightarrow> TelemetryPacketHeaderV1" where
  "wire_header c h = h\<lparr>
     t_SessionId := take 255 (if t_SessionId h = [] then codec_session_id c else t_SessionId h),
     t_DeviceId := take 255 (if t_DeviceId h = [] then codec_device_id c else t_DeviceId h)\<rparr>"

definition wire_snapshot :: "RobotTelemetrySnapshot \<Rightarrow> RobotTelemetrySnapshot" where
  "wire_snapshot s = s\<lparr>fault_code := take 255 (fault_code s), network_quality := take 255 (network_quality s),
     model := take 255 (model s), firmware_version := take 255 (firmware_version s)\<rparr>"

definition wire_joints :: "RobotJointStateSample list \<Rightarrow> RobotJointStateSample list" where
  "wire_joints js = map (\<lambda>i. (js ! i)\<lparr>joint_valid := joint_valid (js ! i) \<and> i < 32\<rparr>) [0..<min (length js) 255]"

section \<open>Lemmas\<close>

lemma truncate_take [simp]: "truncateU8String s = take 255 s"
  by (simp add: truncateU8String_def)

lemma take_string_255 [simp]:
  "take_string (unat (of_nat (length (take 255 s)) :: u8)) (string_bytes (take 255 s) @ ys) = Some (take 255 s, ys)"
proof -
  have "unat (of_nat (length (take 255 s)) :: u8) = length (take 255 s)"
    by (rule unat_of_nat_u8) simp
  then show ?thesis by (simp only: take_write)
qed

lemma take_string_255_end [simp]:
  "take_string (unat (of_nat (length (take 255 s)) :: u8)) (string_bytes (take 255 s)) = Some (take 255 s, [])"
  using take_string_255[of s "[]"] by (simp only: append_Nil2)

lemma telemetry_header_parse:
  "parse_telemetry_header (writeTelemetryHeader h (take 255 s) (take 255 d) @ ys)
    = Some (h\<lparr>t_SessionId := take 255 s, t_DeviceId := take 255 d\<rparr>, ys)"
  by (simp add: parse_telemetry_header_def writeTelemetryHeader_def del: length_take)

lemma bit_valid_mask:
  "bit (valid_mask js) i \<longleftrightarrow> i < length js \<and> i < 32 \<and> joint_valid (js ! i)"
proof -
  have gen: "bit (fold (\<lambda>i m. if P i then m OR push_bit i 1 else m) [0..<n] (0 :: u32)) i \<longleftrightarrow> i < n \<and> P i"
    if "n \<le> 32" for n P
    using that by (induction n) (auto simp: bit_simps less_Suc_eq)
  show ?thesis
    unfolding valid_mask_def by (subst gen) auto
qed

lemma parse_joints_write:
  "parse_joints (length js) m i (concat (map write_joint js) @ ys)
    = Some (map2 (\<lambda>k j. j\<lparr>joint_valid := bit m k\<rparr>) [i..<i + length js] js, ys)"
proof (induction js arbitrary: i)
  case (Cons j js)
  have "[i..<i + length (j # js)] = i # [Suc i..<Suc i + length js]"
    by (simp add: upt_conv_Cons del: upt_Suc)
  with Cons show ?case by (simp add: write_joint_def del: upt_Suc)
qed simp

lemma wire_joints_masked:
  "map2 (\<lambda>k j. j\<lparr>joint_valid := bit (valid_mask js) k\<rparr>) [0..<min (length js) 255] (take (min (length js) 255) js)
    = wire_joints js"
  by (intro nth_equalityI) (auto simp: wire_joints_def bit_valid_mask conj_commute)

section \<open>Properties\<close>

text \<open>Round trip of the video format: the 27-byte header and the payload are read back
  exactly.\<close>
theorem video_packet_roundtrip:
  "parse_video (buildVideoPacket h payload) = Some (h, payload) \<and> length (buildVideoPacket h payload) = 27 + length payload"
  by (simp add: parse_video_def buildVideoPacket_def)

text \<open>Round trip of the low-rate telemetry format: what is read back is the header with the codec's
  session and device filled in and the snapshot, each string cut to its first 255 bytes, and the
  packet has no further byte. In particular every length byte agrees with the bytes that follow.\<close>
theorem telemetry_packet_roundtrip:
  "parse_telemetry (buildRobotTelemetryPacket c h s) = Some (wire_header c h, wire_snapshot s, [])"
  unfolding buildRobotTelemetryPacket_def Let_def truncate_take
  by (cases s) (simp add: parse_telemetry_def telemetry_header_parse wire_header_def wire_snapshot_def del: length_take)

text \<open>Round trip of the high-rate joint telemetry: the first 255 joints are read back bit for bit,
  validity being carried for the first 32 only; the mask has no other bit set.\<close>
theorem joint_telemetry_roundtrip:
  "parse_joint_telemetry (buildRobotJointTelemetryPacket c h s)
     = Some (wire_header c h, s\<lparr>joints := wire_joints (joints s)\<rparr>, [])"
proof -
  define n where "n = min (length (joints s)) 255"
  have n: "unat (of_nat n :: u8) = n" by (simp add: n_def)
  have l: "length (take n (joints s)) = n" by (simp add: n_def)
  have j: "parse_joints n (valid_mask (joints s)) 0 (concat (map write_joint (take n (joints s))))
      = Some (wire_joints (joints s), [])"
    using parse_joints_write[of "take n (joints s)" "valid_mask (joints s)" 0 "[]"] wire_joints_masked[of "joints s"]
    unfolding l by (simp add: n_def)
  show ?thesis
    unfolding buildRobotJointTelemetryPacket_def Let_def truncate_take n_def[symmetric]
    by (cases s) (use n j in \<open>simp add: parse_joint_telemetry_def telemetry_header_parse wire_header_def del: length_take\<close>)
qed

end
