(* ===== verification/SendQueue.thy ===== *)
theory SendQueue
  imports Prelude "HOL-Library.Multiset"
begin

text \<open>
  \<open>src/src/udp/send_queue.cpp\<close> and \<open>include/udp/send_queue.hpp\<close>: the prioritised, bounded queue
  between the producers and the send thread. The deque is a list, byte and packet counts
  (\<open>size_t\<close>) are \<open>nat\<close>, the drop statistics are 64-bit words. Every operation runs under the
  mutex and is one function of the queue state. A wait on the condition variable is modelled by
  the state at its end: \<open>pop\<close> on an empty queue is the time-out. Log lines and the \<open>reason\<close>
  strings that only they use are left out.
\<close>

section \<open>State\<close>

datatype Kind = Datagram | GroupEnd

datatype Stream = Video | Audio | Other

record QueueItem =
  kind :: Kind
  stream :: Stream
  group_id :: u32
  packet_seq :: u16
  stream_key :: u32
  priority :: u8
  pacing_accounted :: bool
  is_keyframe :: bool
  is_fec_parity :: bool
  enqueue_steady_us :: u64
  frame_capture_steady_us :: u64
  item_bytes :: bytes
  wire_bytes :: nat

definition kHighestPriority :: u8 where "kHighestPriority = 0"
definition kLowestPriority :: u8 where "kLowestPriority = 4"
definition kNumPriorityLevels :: nat where "kNumPriorityLevels = 5"
definition kMaxQueuedVideoGroups :: nat where "kMaxQueuedVideoGroups = 4"
definition kNoProtectedVideoGroup :: u32 where "kNoProtectedVideoGroup = 0xFFFFFFFF"

definition QueueItem_default :: QueueItem where
  "QueueItem_default = \<lparr>kind = Datagram, stream = Other, group_id = 0, packet_seq = 0, stream_key = 0,
     priority = kLowestPriority, pacing_accounted = True, is_keyframe = False, is_fec_parity = False,
     enqueue_steady_us = 0, frame_capture_steady_us = 0, item_bytes = [], wire_bytes = 0\<rparr>"

record Queue =
  queue :: "QueueItem list"
  protected_video_group_id :: u32
  queue_bytes :: nat
  max_packets :: nat
  max_bytes :: nat
  running :: bool
  dropped_video_groups :: u64
  dropped_video_packets :: u64
  dropped_video_bytes :: u64

definition Queue_init :: Queue where
  "Queue_init = \<lparr>queue = [], protected_video_group_id = kNoProtectedVideoGroup, queue_bytes = 0,
     max_packets = 0, max_bytes = 0, running = True, dropped_video_groups = 0,
     dropped_video_packets = 0, dropped_video_bytes = 0\<rparr>"

record Snapshot =
  s_packets :: nat
  s_bytes :: nat
  s_dropped_video_groups :: u64
  s_dropped_video_packets :: u64
  s_dropped_video_bytes :: u64

record Status =
  st_packets :: nat
  st_bytes :: nat
  oldest_enqueue_steady_us :: u64
  priority_packets :: "nat list"
  priority_bytes :: "nat list"

record ItemMeta =
  m_kind :: Kind
  m_stream :: Stream
  m_group_id :: u32
  m_stream_key :: u32
  m_priority :: u8
  m_pacing_accounted :: bool
  m_wire_bytes :: nat
  m_enqueue_steady_us :: u64

record VideoGroupInfo =
  g_group_id :: u32
  g_is_keyframe :: bool

section \<open>Operations\<close>

definition normalizePriority :: "u8 \<Rightarrow> u8" where
  "normalizePriority p = of_nat (min (unat p) (kNumPriorityLevels - 1))"

definition setLimits :: "nat \<Rightarrow> nat \<Rightarrow> Queue \<Rightarrow> Queue" where
  "setLimits packets n q = q\<lparr>max_packets := packets, max_bytes := n\<rparr>"

definition clear :: "Queue \<Rightarrow> Queue" where
  "clear q = q\<lparr>queue := [], queue_bytes := 0, protected_video_group_id := kNoProtectedVideoGroup\<rparr>"

definition stop :: "Queue \<Rightarrow> Queue" where
  "stop q = q\<lparr>running := False, queue := [], queue_bytes := 0, protected_video_group_id := kNoProtectedVideoGroup\<rparr>"

definition setProtectedVideoGroup :: "u32 \<Rightarrow> Queue \<Rightarrow> Queue" where
  "setProtectedVideoGroup gid q = q\<lparr>protected_video_group_id := gid\<rparr>"

definition clearProtectedVideoGroup :: "u32 \<Rightarrow> Queue \<Rightarrow> Queue" where
  "clearProtectedVideoGroup gid q =
     (if protected_video_group_id q = gid then q\<lparr>protected_video_group_id := kNoProtectedVideoGroup\<rparr> else q)"

definition isProtectedVideoGroup :: "Queue \<Rightarrow> u32 \<Rightarrow> Stream \<Rightarrow> bool" where
  "isProtectedVideoGroup q gid st \<longleftrightarrow> st = Video \<and> protected_video_group_id q \<noteq> kNoProtectedVideoGroup
     \<and> protected_video_group_id q = gid"

text \<open>The erasing iterator loop shared by the two drop operations: it returns what stays, the
  remaining byte count, and the number and bytes of the erased items.\<close>

fun erase_loop :: "(QueueItem \<Rightarrow> bool) \<Rightarrow> QueueItem list \<Rightarrow> nat \<Rightarrow> nat \<Rightarrow> nat \<Rightarrow> QueueItem list \<times> nat \<times> nat \<times> nat" where
  "erase_loop P [] qb items dropped = ([], qb, items, dropped)"
| "erase_loop P (it # rest) qb items dropped =
     (if P it
      then (if kind it = Datagram
            then erase_loop P rest (if wire_bytes it \<le> qb then qb - wire_bytes it else 0) (items + 1) (dropped + wire_bytes it)
            else erase_loop P rest qb (items + 1) dropped)
      else (case erase_loop P rest qb items dropped of (kept, r) \<Rightarrow> (it # kept, r)))"

definition dropParityForGroupLocked :: "u32 \<Rightarrow> Stream \<Rightarrow> Queue \<Rightarrow> bool \<times> Queue" where
  "dropParityForGroupLocked gid st q =
     (if isProtectedVideoGroup q gid st then (False, q)
      else (case erase_loop (\<lambda>it. group_id it = gid \<and> stream it = st \<and> kind it = Datagram \<and> is_fec_parity it)
                   (queue q) (queue_bytes q) 0 0 of
              (kept, qb, dropped_items, dropped_bytes) \<Rightarrow>
                (dropped_items \<noteq> 0, q\<lparr>queue := kept, queue_bytes := qb\<rparr>)))"

definition dropGroupLocked :: "u32 \<Rightarrow> Stream \<Rightarrow> Queue \<Rightarrow> Queue" where
  "dropGroupLocked gid st q =
     (if isProtectedVideoGroup q gid st then q
      else (case erase_loop (\<lambda>it. group_id it = gid \<and> stream it = st) (queue q) (queue_bytes q) 0 0 of
              (kept, qb, dropped_items, dropped_bytes) \<Rightarrow>
                (let q1 = q\<lparr>queue := kept, queue_bytes := qb\<rparr>
                 in if dropped_items = 0 then q1
                    else if st = Video
                    then q1\<lparr>dropped_video_groups := dropped_video_groups q1 + 1,
                            dropped_video_packets := dropped_video_packets q1 + of_nat dropped_items,
                            dropped_video_bytes := dropped_video_bytes q1 + of_nat dropped_bytes\<rparr>
                    else q1)))"

definition dropGroup :: "u32 \<Rightarrow> Stream \<Rightarrow> Queue \<Rightarrow> Queue" where
  "dropGroup gid st q = dropGroupLocked gid st q"

definition dropParityForGroup :: "u32 \<Rightarrow> Stream \<Rightarrow> Queue \<Rightarrow> bool \<times> Queue" where
  "dropParityForGroup gid st q = dropParityForGroupLocked gid st q"

text \<open>\<open>std::find_if\<close> with a fallback predicate, as the victim searches use it.\<close>

definition first_match :: "('a \<Rightarrow> bool) list \<Rightarrow> 'a list \<Rightarrow> 'a option" where
  "first_match Ps xs = fold (\<lambda>P v. if v = None then find P xs else v) Ps None"

definition dropOldestVideoParityLocked :: "Queue \<Rightarrow> bool \<times> Queue" where
  "dropOldestVideoParityLocked q =
     (case first_match
        [\<lambda>it. stream it = Video \<and> is_fec_parity it \<and> \<not> is_keyframe it \<and> \<not> isProtectedVideoGroup q (group_id it) (stream it),
         \<lambda>it. stream it = Video \<and> is_fec_parity it \<and> \<not> isProtectedVideoGroup q (group_id it) (stream it)]
        (queue q) of
        None \<Rightarrow> (False, q)
      | Some victim \<Rightarrow> dropParityForGroupLocked (group_id victim) (stream victim) q)"

definition dropOldestGroupLocked :: "Queue \<Rightarrow> bool \<times> Queue" where
  "dropOldestGroupLocked q =
     (if queue q = [] then (False, q)
      else (case first_match
        [\<lambda>it. stream it = Video \<and> \<not> is_keyframe it \<and> \<not> isProtectedVideoGroup q (group_id it) (stream it),
         \<lambda>it. stream it = Video \<and> \<not> isProtectedVideoGroup q (group_id it) (stream it),
         \<lambda>it. \<not> isProtectedVideoGroup q (group_id it) (stream it)]
        (queue q) of
        None \<Rightarrow> (False, q)
      | Some victim \<Rightarrow> (True, dropGroupLocked (group_id victim) (stream victim) q)))"

definition over_limits :: "Queue \<Rightarrow> bool" where
  "over_limits q \<longleftrightarrow> queue q \<noteq> [] \<and>
     (0 < max_packets q \<and> max_packets q < length (queue q) \<or> 0 < max_bytes q \<and> max_bytes q < queue_bytes q)"

definition enforce_body :: "Queue \<Rightarrow> bool \<times> Queue" where
  "enforce_body q = (case dropOldestVideoParityLocked q of
      (ok, q1) \<Rightarrow> if ok then (True, q1) else dropOldestGroupLocked q1)"

definition collect_step :: "QueueItem \<Rightarrow> VideoGroupInfo list \<Rightarrow> VideoGroupInfo list" where
  "collect_step it groups =
     (if stream it \<noteq> Video then groups
      else (case find_if (\<lambda>g. g_group_id g = group_id it) groups of
              None \<Rightarrow> groups @ [\<lparr>g_group_id = group_id it, g_is_keyframe = is_keyframe it\<rparr>]
            | Some i \<Rightarrow> groups[i := (groups ! i)\<lparr>g_is_keyframe := g_is_keyframe (groups ! i) \<or> is_keyframe it\<rparr>]))"

definition collectVideoGroups :: "Queue \<Rightarrow> VideoGroupInfo list" where
  "collectVideoGroups q = fold collect_step (queue q) []"

definition trim_victim :: "Queue \<Rightarrow> u32 \<Rightarrow> VideoGroupInfo option" where
  "trim_victim q newest = first_match
     [\<lambda>g. g_group_id g \<noteq> newest \<and> \<not> g_is_keyframe g \<and> \<not> isProtectedVideoGroup q (g_group_id g) Video,
      \<lambda>g. g_group_id g \<noteq> newest \<and> \<not> isProtectedVideoGroup q (g_group_id g) Video]
     (collectVideoGroups q)"

subsection \<open>The loops and why they end\<close>

definition dgram_bytes :: "QueueItem list \<Rightarrow> nat" where
  "dgram_bytes xs = sum_list (map wire_bytes (List.filter (\<lambda>it. kind it = Datagram) xs))"

lemma dgram_bytes_simps [simp]:
  "dgram_bytes [] = 0"
  "dgram_bytes (x # xs) = (if kind x = Datagram then wire_bytes x else 0) + dgram_bytes xs"
  "dgram_bytes (xs @ ys) = dgram_bytes xs + dgram_bytes ys"
  by (simp_all add: dgram_bytes_def)

lemma erase_loop_eq:
  "erase_loop P xs qb items dropped =
     (List.filter (\<lambda>x. \<not> P x) xs, qb - dgram_bytes (List.filter P xs),
      items + length (List.filter P xs), dropped + dgram_bytes (List.filter P xs))"
  by (induction xs arbitrary: qb items dropped) auto

lemma first_match_simps [simp]:
  "first_match [] xs = None"
  "first_match [P] xs = find P xs"
  "first_match [P, Q] xs = (case find P xs of None \<Rightarrow> find Q xs | v \<Rightarrow> v)"
  "first_match [P, Q, R] xs = (case find P xs of None \<Rightarrow> (case find Q xs of None \<Rightarrow> find R xs | v \<Rightarrow> v) | v \<Rightarrow> v)"
  by (auto simp: first_match_def split: option.splits)

lemma find_SomeD: "find P xs = Some x \<Longrightarrow> x \<in> set xs \<and> P x"
  by (auto simp: find_Some_iff)

lemma find_NoneD: "find P xs = None \<Longrightarrow> x \<in> set xs \<Longrightarrow> \<not> P x"
  by (auto simp: find_None_iff)

lemma dropGroup_queue:
  "queue (dropGroupLocked gid st q) = (if isProtectedVideoGroup q gid st then queue q
     else List.filter (\<lambda>it. \<not> (group_id it = gid \<and> stream it = st)) (queue q))"
  by (simp add: dropGroupLocked_def erase_loop_eq Let_def)

lemma dropParity_queue:
  "queue (snd (dropParityForGroupLocked gid st q)) = (if isProtectedVideoGroup q gid st then queue q
     else List.filter (\<lambda>it. \<not> (group_id it = gid \<and> stream it = st \<and> kind it = Datagram \<and> is_fec_parity it)) (queue q))"
  by (simp add: dropParityForGroupLocked_def erase_loop_eq)

lemma filter_drops_one: "x \<in> set xs \<Longrightarrow> P x \<Longrightarrow> length (List.filter (\<lambda>x. \<not> P x) xs) < length xs"
  by (rule length_filter_less) auto

lemma dropOldestVideoParity_shrinks:
  "dropOldestVideoParityLocked q = (True, q') \<Longrightarrow> length (queue q') < length (queue q)"
proof -
  have *: "length (queue q') < length (queue q)" if "dropParityForGroupLocked g s q = (True, q')" for g s
    using that
    by (auto simp: dropParityForGroupLocked_def erase_loop_eq filter_empty_conv split: if_splits
        intro!: length_filter_less)
  assume "dropOldestVideoParityLocked q = (True, q')"
  then show ?thesis by (auto simp: dropOldestVideoParityLocked_def split: option.splits dest: *)
qed

lemma dropOldestGroup_shrinks:
  "dropOldestGroupLocked q = (True, q') \<Longrightarrow> length (queue q') < length (queue q)"
proof -
  have *: "length (queue (dropGroupLocked (group_id v) (stream v) q)) < length (queue q)"
    if "v \<in> set (queue q)" "\<not> isProtectedVideoGroup q (group_id v) (stream v)" for v
    using that by (auto simp: dropGroup_queue intro!: length_filter_less)
  assume "dropOldestGroupLocked q = (True, q')"
  then show ?thesis
    by (auto simp: dropOldestGroupLocked_def split: if_splits option.splits dest!: find_SomeD intro!: *)
qed

lemma enforce_body_shrinks: "enforce_body q = (True, q') \<Longrightarrow> length (queue q') < length (queue q)"
proof -
  have *: "length (queue q1) \<le> length (queue q)" if "dropOldestVideoParityLocked q = (b, q1)" for b q1
    using that dropParity_queue
    by (auto simp: dropOldestVideoParityLocked_def split: option.splits)
      (metis (no_types, lifting) length_filter_le order_refl snd_conv)+
  assume "enforce_body q = (True, q')"
  then show ?thesis
    using * dropOldestVideoParity_shrinks dropOldestGroup_shrinks
    by (auto simp: enforce_body_def split: prod.splits if_splits) (meson less_le_trans)
qed

function enforceLimitsLocked :: "Queue \<Rightarrow> Queue" where
  "enforceLimitsLocked q =
     (if over_limits q
      then (case enforce_body q of (ok, q1) \<Rightarrow> if ok then enforceLimitsLocked q1 else q1)
      else q)"
  by pat_completeness auto
termination
  by (relation "measure (\<lambda>q. length (queue q))") (auto dest: enforce_body_shrinks[OF sym])

declare enforceLimitsLocked.simps [simp del]


definition video_groups :: "QueueItem list \<Rightarrow> u32 set" where
  "video_groups xs = {group_id it |it. it \<in> set xs \<and> stream it = Video}"

lemma collect_fold:
  "distinct (map g_group_id gs) \<Longrightarrow>
   distinct (map g_group_id (fold collect_step xs gs)) \<and>
   g_group_id ` set (fold collect_step xs gs) = g_group_id ` set gs \<union> video_groups xs"
proof (induction xs arbitrary: gs)
  case (Cons x xs)
  have "distinct (map g_group_id (collect_step x gs)) \<and>
    g_group_id ` set (collect_step x gs) = g_group_id ` set gs \<union> (if stream x = Video then {group_id x} else {})"
  proof (cases "stream x = Video \<and> find_if (\<lambda>g. g_group_id g = group_id x) gs \<noteq> None")
    case True
    then obtain i where i: "find_if (\<lambda>g. g_group_id g = group_id x) gs = Some i" by auto
    note b = find_if_Some[OF i]
    have m: "map g_group_id (collect_step x gs) = map g_group_id gs"
      using True i b by (simp add: collect_step_def map_update list_update_same_conv)
    then have "g_group_id ` set (collect_step x gs) = g_group_id ` set gs"
      by (metis list.set_map)
    moreover have "group_id x \<in> g_group_id ` set gs" using b by (metis imageI nth_mem)
    ultimately show ?thesis using m Cons.prems True by auto
  next
    case False
    then consider "stream x \<noteq> Video" | "stream x = Video" "find_if (\<lambda>g. g_group_id g = group_id x) gs = None" by blast
    then show ?thesis
    proof cases
      case 2
      then have "collect_step x gs = gs @ [\<lparr>g_group_id = group_id x, g_is_keyframe = is_keyframe x\<rparr>]"
        by (simp add: collect_step_def)
      moreover from 2 have "group_id x \<notin> g_group_id ` set gs" by (auto simp: find_if_None)
      ultimately show ?thesis using 2 Cons.prems by auto
    qed (use Cons.prems in \<open>simp add: collect_step_def\<close>)
  qed
  with Cons.IH[of "collect_step x gs"] show ?case
    by (auto simp: video_groups_def)
qed (simp add: video_groups_def)

lemma collectVideoGroups_ok:
  "distinct (map g_group_id (collectVideoGroups q))"
  "g_group_id ` set (collectVideoGroups q) = video_groups (queue q)"
  using collect_fold[of "[]" "queue q"] by (auto simp: collectVideoGroups_def)

lemma finite_video_groups [simp]: "finite (video_groups xs)"
proof -
  have "video_groups xs \<subseteq> group_id ` set xs" by (auto simp: video_groups_def)
  then show ?thesis using finite_subset by blast
qed

lemma length_collect: "length (collectVideoGroups q) = card (video_groups (queue q))"
  using collectVideoGroups_ok[of q] distinct_card[of "map g_group_id (collectVideoGroups q)"] by simp

lemma trim_victim_SomeD:
  "trim_victim q n = Some g \<Longrightarrow> g_group_id g \<in> video_groups (queue q) \<and> g_group_id g \<noteq> n
     \<and> \<not> isProtectedVideoGroup q (g_group_id g) Video"
  using collectVideoGroups_ok(2)[of q]
  by (auto simp: trim_victim_def split: option.splits dest!: find_SomeD)

lemma dropGroup_shrinks:
  "g \<in> video_groups (queue q) \<Longrightarrow> \<not> isProtectedVideoGroup q g Video \<Longrightarrow>
   length (queue (dropGroupLocked g Video q)) < length (queue q)"
  by (auto simp: dropGroup_queue video_groups_def intro!: length_filter_less)

function trim_loop :: "u32 \<Rightarrow> Queue \<Rightarrow> Queue" where
  "trim_loop newest q =
     (if kMaxQueuedVideoGroups < length (collectVideoGroups q)
      then (case trim_victim q newest of
              None \<Rightarrow> q
            | Some victim \<Rightarrow> trim_loop newest (dropGroupLocked (g_group_id victim) Video q))
      else q)"
  by pat_completeness auto
termination
  by (relation "measure (\<lambda>(newest, q). length (queue q))") (auto dest: trim_victim_SomeD intro: dropGroup_shrinks)

declare trim_loop.simps [simp del]

definition trimVideoBacklogLocked :: "u32 \<Rightarrow> Queue \<Rightarrow> Queue" where
  "trimVideoBacklogLocked newest q =
     (let groups = collectVideoGroups q
      in if length groups \<le> kMaxQueuedVideoGroups then q
         else (let newest_is_keyframe =
                     (case find (\<lambda>g. g_group_id g = newest) groups of None \<Rightarrow> False | Some g \<Rightarrow> g_is_keyframe g)
               in if newest_is_keyframe
                  then fold (\<lambda>g q. if g_group_id g = newest \<or> isProtectedVideoGroup q (g_group_id g) Video
                                   then q else dropGroupLocked (g_group_id g) Video q) groups q
                  else trim_loop newest q))"

section \<open>Public operations on items\<close>

definition append_item :: "QueueItem \<Rightarrow> Queue \<Rightarrow> Queue" where
  "append_item item q =
     q\<lparr>queue := queue q @ [item\<lparr>priority := normalizePriority (priority item)\<rparr>],
       queue_bytes := (if kind item = Datagram then queue_bytes q + wire_bytes item else queue_bytes q)\<rparr>"

definition push :: "QueueItem \<Rightarrow> Queue \<Rightarrow> Queue" where
  "push item q =
     (if \<not> running q then q
      else (let q1 = append_item item q;
                q2 = (if stream item = Video \<and> kind item = GroupEnd
                      then trimVideoBacklogLocked (group_id item) q1 else q1)
            in enforceLimitsLocked q2))"

definition newest_group_end :: "QueueItem list \<Rightarrow> u32 option" where
  "newest_group_end items = fold (\<lambda>it r. if stream it = Video \<and> kind it = GroupEnd then Some (group_id it) else r) items None"

definition pushBatch :: "QueueItem list \<Rightarrow> Queue \<Rightarrow> Queue" where
  "pushBatch items q =
     (if items = [] then q
      else if \<not> running q then q
      else (let q1 = fold append_item items q;
                q2 = (case newest_group_end items of None \<Rightarrow> q1 | Some g \<Rightarrow> trimVideoBacklogLocked g q1)
            in enforceLimitsLocked q2))"

definition requeueFront :: "QueueItem \<Rightarrow> Queue \<Rightarrow> Queue" where
  "requeueFront item q =
     (if \<not> running q then q
      else q\<lparr>queue := item\<lparr>priority := normalizePriority (priority item)\<rparr> # queue q,
             queue_bytes := (if kind item = Datagram then queue_bytes q + wire_bytes item else queue_bytes q)\<rparr>)"

definition pop :: "Queue \<Rightarrow> (QueueItem \<times> Queue) option" where
  "pop q =
     (if \<not> running q then None
      else (case queue q of
              [] \<Rightarrow> None
            | out # rest \<Rightarrow>
                Some (out, q\<lparr>queue_bytes := (if kind out = Datagram
                                then (if wire_bytes out \<le> queue_bytes q then queue_bytes q - wire_bytes out else 0)
                                else queue_bytes q),
                             queue := rest\<rparr>)))"

fun select_level :: "nat list \<Rightarrow> QueueItem list \<Rightarrow> nat option" where
  "select_level [] xs = None"
| "select_level (p # ps) xs =
     (case find_if (\<lambda>it. unat (normalizePriority (priority it)) = p) xs of Some i \<Rightarrow> Some i | None \<Rightarrow> select_level ps xs)"

definition selectPrioritizedLocked :: "Queue \<Rightarrow> nat option" where
  "selectPrioritizedLocked q = (if queue q = [] then None else select_level [0..<kNumPriorityLevels] (queue q))"

definition removeItemLocked :: "nat \<Rightarrow> Queue \<Rightarrow> QueueItem \<times> Queue" where
  "removeItemLocked i q =
     (let out = queue q ! i
      in (out, q\<lparr>queue_bytes := (if kind out = Datagram
                    then (if wire_bytes out \<le> queue_bytes q then queue_bytes q - wire_bytes out else 0)
                    else queue_bytes q),
                 queue := erase_at i (queue q)\<rparr>))"

definition popPrioritized :: "Queue \<Rightarrow> (QueueItem \<times> Queue) option" where
  "popPrioritized q =
     (if \<not> running q \<or> queue q = [] then None
      else (case selectPrioritizedLocked q of None \<Rightarrow> None | Some i \<Rightarrow> Some (removeItemLocked i q)))"

definition peekPrioritized :: "Queue \<Rightarrow> ItemMeta option" where
  "peekPrioritized q =
     (if \<not> running q \<or> queue q = [] then None
      else (case selectPrioritizedLocked q of None \<Rightarrow> None
            | Some i \<Rightarrow> (let item = queue q ! i in
                Some \<lparr>m_kind = kind item, m_stream = stream item, m_group_id = group_id item,
                  m_stream_key = stream_key item, m_priority = normalizePriority (priority item),
                  m_pacing_accounted = pacing_accounted item, m_wire_bytes = wire_bytes item,
                  m_enqueue_steady_us = enqueue_steady_us item\<rparr>)))"

definition waitForDataFor :: "Queue \<Rightarrow> bool" where
  "waitForDataFor q = running q"

definition status_step :: "QueueItem \<Rightarrow> Status \<Rightarrow> Status" where
  "status_step it s =
     (let s1 = (if 0 < enqueue_steady_us it \<and> (oldest_enqueue_steady_us s = 0 \<or> enqueue_steady_us it < oldest_enqueue_steady_us s)
                then s\<lparr>oldest_enqueue_steady_us := enqueue_steady_us it\<rparr> else s);
          p = unat (normalizePriority (priority it));
          s2 = s1\<lparr>priority_packets := (priority_packets s1)[p := priority_packets s1 ! p + 1]\<rparr>
      in if kind it = Datagram
         then s2\<lparr>priority_bytes := (priority_bytes s2)[p := priority_bytes s2 ! p + wire_bytes it]\<rparr> else s2)"

definition status :: "Queue \<Rightarrow> Status" where
  "status q = fold status_step (queue q)
     \<lparr>st_packets = length (queue q), st_bytes = queue_bytes q, oldest_enqueue_steady_us = 0,
      priority_packets = replicate kNumPriorityLevels 0, priority_bytes = replicate kNumPriorityLevels 0\<rparr>"

definition snapshot :: "Queue \<Rightarrow> Snapshot \<times> Queue" where
  "snapshot q =
     (\<lparr>s_packets = length (queue q), s_bytes = queue_bytes q, s_dropped_video_groups = dropped_video_groups q,
       s_dropped_video_packets = dropped_video_packets q, s_dropped_video_bytes = dropped_video_bytes q\<rparr>,
      q\<lparr>dropped_video_groups := 0, dropped_video_packets := 0, dropped_video_bytes := 0\<rparr>)"


section \<open>Shedding: what the drop operations have in common\<close>

definition is_protected :: "Queue \<Rightarrow> QueueItem \<Rightarrow> bool" where
  "is_protected q it = isProtectedVideoGroup q (group_id it) (stream it)"

definition queue_ok :: "Queue \<Rightarrow> bool" where
  "queue_ok q \<longleftrightarrow> queue_bytes q = dgram_bytes (queue q) \<and> (\<forall>it\<in>set (queue q). unat (priority it) < kNumPriorityLevels)"

definition same_config :: "Queue \<Rightarrow> Queue \<Rightarrow> bool" where
  "same_config q q' \<longleftrightarrow> max_packets q' = max_packets q \<and> max_bytes q' = max_bytes q
     \<and> running q' = running q \<and> protected_video_group_id q' = protected_video_group_id q"

text \<open>\<open>sheds q q'\<close>: \<open>q'\<close> is \<open>q\<close> less some items, no protected one among them, in the same order.\<close>

definition sheds :: "Queue \<Rightarrow> Queue \<Rightarrow> bool" where
  "sheds q q' \<longleftrightarrow> same_config q q' \<and> (queue_ok q \<longrightarrow> queue_ok q')
     \<and> (\<exists>P. queue q' = List.filter P (queue q) \<and> (\<forall>it\<in>set (queue q). is_protected q it \<longrightarrow> P it))"

lemma sheds_refl [intro, simp]: "sheds q q"
  by (auto simp: sheds_def same_config_def intro!: exI[of _ "\<lambda>_. True"])

lemma is_protected_cong: "same_config q q' \<Longrightarrow> is_protected q' = is_protected q"
  by (simp add: same_config_def is_protected_def isProtectedVideoGroup_def fun_eq_iff)

lemma sheds_trans [trans]:
  assumes "sheds q q1" "sheds q1 q2"
  shows "sheds q q2"
proof -
  obtain P Q where p: "queue q1 = List.filter P (queue q)" "\<forall>it\<in>set (queue q). is_protected q it \<longrightarrow> P it"
    and q: "queue q2 = List.filter Q (queue q1)" "\<forall>it\<in>set (queue q1). is_protected q1 it \<longrightarrow> Q it"
    using assms by (auto simp: sheds_def)
  have "is_protected q1 = is_protected q" using assms is_protected_cong by (simp add: sheds_def)
  then have "queue q2 = List.filter (\<lambda>x. P x \<and> Q x) (queue q) \<and> (\<forall>it\<in>set (queue q). is_protected q it \<longrightarrow> P it \<and> Q it)"
    using p q by (auto intro: filter_cong)
  moreover have "same_config q q2" "queue_ok q \<longrightarrow> queue_ok q2"
    using assms by (simp_all add: sheds_def same_config_def)
  ultimately show ?thesis unfolding sheds_def by blast
qed

lemma dgram_bytes_filter: "dgram_bytes xs = dgram_bytes (List.filter P xs) + dgram_bytes (List.filter (\<lambda>x. \<not> P x) xs)"
  by (induction xs) auto

lemma dropGroup_sheds [intro]: "sheds q (dropGroupLocked gid st q)"
proof (cases "isProtectedVideoGroup q gid st")
  case False
  let ?P = "\<lambda>it. group_id it = gid \<and> stream it = st"
  have "same_config q (dropGroupLocked gid st q)"
    by (simp add: dropGroupLocked_def erase_loop_eq same_config_def Let_def)
  moreover have "queue_ok (dropGroupLocked gid st q)" if "queue_ok q"
    using that dgram_bytes_filter[of "queue q" ?P] False
    by (simp add: queue_ok_def dropGroupLocked_def erase_loop_eq Let_def)
  ultimately show ?thesis
    using False by (auto simp: sheds_def dropGroup_queue is_protected_def intro!: exI[of _ "\<lambda>x. \<not> ?P x"])
qed (simp add: dropGroupLocked_def)

lemma dropParity_sheds [intro]: "sheds q (snd (dropParityForGroupLocked gid st q))"
proof (cases "isProtectedVideoGroup q gid st")
  case False
  let ?P = "\<lambda>it. group_id it = gid \<and> stream it = st \<and> kind it = Datagram \<and> is_fec_parity it"
  have "same_config q (snd (dropParityForGroupLocked gid st q))"
    by (simp add: dropParityForGroupLocked_def erase_loop_eq same_config_def)
  moreover have "queue_ok (snd (dropParityForGroupLocked gid st q))" if "queue_ok q"
    using that dgram_bytes_filter[of "queue q" ?P] False
    by (simp add: queue_ok_def dropParityForGroupLocked_def erase_loop_eq)
  ultimately show ?thesis
    using False by (auto simp: sheds_def dropParity_queue is_protected_def intro!: exI[of _ "\<lambda>x. \<not> ?P x"])
qed (simp add: dropParityForGroupLocked_def)

lemma dropOldestVideoParity_sheds: "sheds q (snd (dropOldestVideoParityLocked q))"
  by (auto simp: dropOldestVideoParityLocked_def split: option.splits)

lemma dropOldestGroup_sheds: "sheds q (snd (dropOldestGroupLocked q))"
  by (auto simp: dropOldestGroupLocked_def split: option.splits)

lemma enforce_body_sheds: "sheds q (snd (enforce_body q))"
  using dropOldestVideoParity_sheds[of q] dropOldestGroup_sheds sheds_trans
  by (auto simp: enforce_body_def split: prod.splits)

lemma enforceLimits_sheds: "sheds q (enforceLimitsLocked q)"
proof (induction q rule: enforceLimitsLocked.induct)
  case (1 q)
  show ?case
    using "1.IH" enforce_body_sheds[of q] sheds_trans
    by (subst enforceLimitsLocked.simps) (auto split: prod.splits)
qed

lemma trim_loop_sheds: "sheds q (trim_loop n q)"
proof (induction n q rule: trim_loop.induct)
  case (1 n q)
  show ?case
    using "1.IH" by (subst trim_loop.simps) (auto split: option.splits intro: sheds_trans[OF dropGroup_sheds])
qed

lemma trim_sheds: "sheds q (trimVideoBacklogLocked n q)"
proof -
  have "sheds q (fold (\<lambda>g q. if g_group_id g = n \<or> isProtectedVideoGroup q (g_group_id g) Video
     then q else dropGroupLocked (g_group_id g) Video q) gs q)" for gs :: "VideoGroupInfo list"
  proof (induction gs arbitrary: q)
    case (Cons g gs)
    then show ?case by (auto intro: sheds_trans[OF dropGroup_sheds])
  qed simp
  then show ?thesis using trim_loop_sheds by (simp add: trimVideoBacklogLocked_def Let_def)
qed

lemmas shed_ops = dropGroup_sheds dropParity_sheds enforceLimits_sheds trim_sheds

lemma sheds_ok: "sheds q q' \<Longrightarrow> queue_ok q \<Longrightarrow> queue_ok q'"
  by (simp add: sheds_def)

lemma sheds_protected:
  assumes "sheds q q'"
  shows "List.filter (is_protected q) (queue q') = List.filter (is_protected q) (queue q)"
proof -
  obtain P where "queue q' = List.filter P (queue q)" "\<forall>it\<in>set (queue q). is_protected q it \<longrightarrow> P it"
    using assms by (auto simp: sheds_def)
  then show ?thesis by (auto intro: filter_cong)
qed

lemma sheds_mset: "sheds q q' \<Longrightarrow> mset (queue q') \<subseteq># mset (queue q)"
  by (auto simp: sheds_def multiset_filter_subset mset_filter)

lemma sheds_set: "sheds q q' \<Longrightarrow> set (queue q') \<subseteq> set (queue q)"
  by (auto simp: sheds_def)

lemma sheds_video_groups: "sheds q q' \<Longrightarrow> video_groups (queue q') \<subseteq> video_groups (queue q)"
  using sheds_set by (fastforce simp: video_groups_def)

lemma sheds_groups: "sheds q q' \<Longrightarrow> card (video_groups (queue q')) \<le> card (video_groups (queue q))"
  by (intro card_mono) (auto simp: video_groups_def dest!: sheds_set)

section \<open>Invariants of the operations\<close>

lemma normalizePriority_less [simp]: "unat (normalizePriority p) < kNumPriorityLevels"
  by (simp add: normalizePriority_def kNumPriorityLevels_def)

lemma normalizePriority_id: "unat p < kNumPriorityLevels \<Longrightarrow> normalizePriority p = p"
  by (simp add: normalizePriority_def kNumPriorityLevels_def min_def split: if_splits)

definition norm_item :: "QueueItem \<Rightarrow> QueueItem" where
  "norm_item it = it\<lparr>priority := normalizePriority (priority it)\<rparr>"

lemma norm_item_simps [simp]:
  "kind (norm_item it) = kind it" "stream (norm_item it) = stream it" "group_id (norm_item it) = group_id it"
  "wire_bytes (norm_item it) = wire_bytes it" "is_keyframe (norm_item it) = is_keyframe it"
  "priority (norm_item it) = normalizePriority (priority it)"
  by (simp_all add: norm_item_def)

lemma norm_item_id: "unat (priority it) < kNumPriorityLevels \<Longrightarrow> norm_item it = it"
  by (simp add: norm_item_def normalizePriority_id)

lemma append_item_simps [simp]:
  "queue (append_item it q) = queue q @ [norm_item it]" "running (append_item it q) = running q"
  "protected_video_group_id (append_item it q) = protected_video_group_id q"
  by (simp_all add: append_item_def norm_item_def)

lemma append_item_ok [intro]: "queue_ok q \<Longrightarrow> queue_ok (append_item it q)"
  by (auto simp: queue_ok_def append_item_def)

lemma append_items [simp]:
  "queue (fold append_item its q) = queue q @ map norm_item its"
  "protected_video_group_id (fold append_item its q) = protected_video_group_id q"
  by (induction its arbitrary: q) simp_all

lemma append_items_ok: "queue_ok q \<Longrightarrow> queue_ok (fold append_item its q)"
  by (induction its arbitrary: q) auto

lemma push_sheds: "running q \<Longrightarrow> sheds (append_item it q) (push it q)"
  using sheds_trans[OF trim_sheds enforceLimits_sheds] enforceLimits_sheds by (simp add: push_def Let_def)

lemma pushBatch_sheds: "running q \<Longrightarrow> sheds (fold append_item its q) (pushBatch its q)"
  using sheds_trans[OF trim_sheds enforceLimits_sheds] enforceLimits_sheds
  by (auto simp: pushBatch_def Let_def split: option.splits)

lemma push_ok: "queue_ok q \<Longrightarrow> queue_ok (push it q)"
  using sheds_ok[OF push_sheds] by (cases "running q") (auto simp: push_def)

lemma pushBatch_ok: "queue_ok q \<Longrightarrow> queue_ok (pushBatch its q)"
  using sheds_ok[OF pushBatch_sheds] append_items_ok by (cases "running q") (auto simp: pushBatch_def)

lemma requeueFront_ok: "queue_ok q \<Longrightarrow> queue_ok (requeueFront it q)"
  by (auto simp: requeueFront_def queue_ok_def)

lemma pop_ok: "queue_ok q \<Longrightarrow> pop q = Some (it, q') \<Longrightarrow> queue_ok q'"
  by (auto simp: pop_def queue_ok_def split: if_splits list.splits)

lemma removeItem_eq:
  "queue_ok q \<Longrightarrow> i < length (queue q) \<Longrightarrow>
   removeItemLocked i q = (queue q ! i, q\<lparr>queue_bytes := dgram_bytes (erase_at i (queue q)), queue := erase_at i (queue q)\<rparr>)"
proof -
  assume a: "queue_ok q" "i < length (queue q)"
  have "dgram_bytes (queue q) = dgram_bytes (take i (queue q) @ queue q ! i # drop (Suc i) (queue q))"
    using id_take_nth_drop[OF a(2)] by simp
  with a show ?thesis by (simp add: removeItemLocked_def Let_def queue_ok_def erase_at_def)
qed

lemma removeItem_ok: "queue_ok q \<Longrightarrow> i < length (queue q) \<Longrightarrow> queue_ok (snd (removeItemLocked i q))"
  using set_erase_at[of i "queue q"] by (auto simp: removeItem_eq queue_ok_def)


subsection \<open>Selection by priority\<close>

abbreviation level :: "QueueItem \<Rightarrow> nat" where
  "level it \<equiv> unat (normalizePriority (priority it))"

lemma select_level_SomeD:
  "sorted_wrt (<) ps \<Longrightarrow> select_level ps xs = Some i \<Longrightarrow>
   i < length xs \<and> (\<forall>j<length xs. level (xs ! j) \<in> set ps \<longrightarrow> level (xs ! i) \<le> level (xs ! j))
    \<and> (\<forall>j<i. level (xs ! j) \<in> set ps \<longrightarrow> level (xs ! i) < level (xs ! j))"
proof (induction ps)
  case (Cons p ps)
  show ?case
  proof (cases "find_if (\<lambda>it. level it = p) xs")
    case None
    with Cons have "select_level ps xs = Some i" "sorted_wrt (<) ps" by auto
    moreover from None have "\<forall>j<length xs. level (xs ! j) \<noteq> p" by (auto simp: find_if_None)
    ultimately show ?thesis using Cons.IH by auto
  next
    case (Some k)
    with Cons.prems have "k = i" by simp
    with find_if_Some[OF Some] Cons.prems(1) show ?thesis by (auto dest: order_less_trans)
  qed
qed simp

lemma select_level_None: "select_level ps xs = None \<longleftrightarrow> (\<forall>x\<in>set xs. level x \<notin> set ps)"
proof (induction ps)
  case (Cons p ps)
  show ?case
  proof (cases "find_if (\<lambda>it. level it = p) xs")
    case None
    then have "\<forall>x\<in>set xs. level x \<noteq> p" by (simp add: find_if_None)
    with None Cons.IH show ?thesis by auto
  next
    case (Some i)
    from find_if_split(2,3)[OF Some] have "\<exists>x\<in>set xs. level x = p" by blast
    with Some show ?thesis by auto
  qed
qed simp

lemma selectPrioritized_Some:
  "selectPrioritizedLocked q = Some i \<Longrightarrow> i < length (queue q)
    \<and> (\<forall>j<length (queue q). level (queue q ! i) \<le> level (queue q ! j))
    \<and> (\<forall>j<i. level (queue q ! i) < level (queue q ! j))"
  using select_level_SomeD[of "[0..<kNumPriorityLevels]" "queue q" i]
  by (auto simp: selectPrioritizedLocked_def split: if_splits)

lemma selectPrioritized_None: "selectPrioritizedLocked q = None \<longleftrightarrow> queue q = []"
  by (cases "queue q") (auto simp: selectPrioritizedLocked_def select_level_None)

lemma popPrioritized_Some:
  assumes "popPrioritized q = Some (it, q')"
  shows "\<exists>pre post. queue q = pre @ it # post \<and> queue q' = pre @ post
     \<and> (\<forall>x\<in>set pre. level it < level x) \<and> (\<forall>x\<in>set post. level it \<le> level x)"
    and "same_config q q'" "running q"
    and "queue_bytes q' = (if kind it = Datagram then queue_bytes q - wire_bytes it else queue_bytes q)"
proof -
  obtain i where i: "selectPrioritizedLocked q = Some i" "removeItemLocked i q = (it, q')" "running q"
    using assms by (auto simp: popPrioritized_def split: if_splits option.splits)
  note s = selectPrioritized_Some[OF i(1)]
  have it: "it = queue q ! i" and q': "queue q' = take i (queue q) @ drop (Suc i) (queue q)"
    using i(2) by (auto simp: removeItemLocked_def Let_def erase_at_def)
  have "queue q = take i (queue q) @ it # drop (Suc i) (queue q)"
    using s it by (simp add: id_take_nth_drop)
  moreover have "\<forall>x\<in>set (take i (queue q)). level it < level x"
    using s it by (auto simp: in_set_conv_nth)
  moreover have "\<forall>x\<in>set (drop (Suc i) (queue q)). level it \<le> level x"
    using s it by (auto dest!: in_set_dropD simp: in_set_conv_nth)
  ultimately show "\<exists>pre post. queue q = pre @ it # post \<and> queue q' = pre @ post
     \<and> (\<forall>x\<in>set pre. level it < level x) \<and> (\<forall>x\<in>set post. level it \<le> level x)"
    using q' by blast
  show "same_config q q'" "running q"
    "queue_bytes q' = (if kind it = Datagram then queue_bytes q - wire_bytes it else queue_bytes q)"
    using i(2,3) by (auto simp: removeItemLocked_def Let_def same_config_def split: if_splits)
qed

lemma popPrioritized_ok: "queue_ok q \<Longrightarrow> popPrioritized q = Some (it, q') \<Longrightarrow> queue_ok q'"
  using popPrioritized_Some(1,4)[of q it q'] by (auto simp: queue_ok_def)

lemma popPrioritized_progress: "running q \<Longrightarrow> queue q \<noteq> [] \<Longrightarrow> popPrioritized q \<noteq> None"
  using selectPrioritized_None[of q] by (auto simp: popPrioritized_def split: option.splits)

lemma popPrioritized_mset: "popPrioritized q = Some (it, q') \<Longrightarrow> mset (queue q) = add_mset it (mset (queue q'))"
  using popPrioritized_Some(1)[of q it q'] by auto

lemma popPrioritized_head:
  assumes "queue q = it # rest" "running q" "\<forall>x\<in>set rest. level it \<le> level x"
  shows "popPrioritized q = Some (removeItemLocked 0 q)"
proof -
  obtain i where i: "selectPrioritizedLocked q = Some i" using selectPrioritized_None[of q] assms(1) by fastforce
  have "i = 0"
  proof (rule ccontr)
    assume "i \<noteq> 0"
    with selectPrioritized_Some[OF i] assms(1) have "level (rest ! (i - 1)) < level it" "i - 1 < length rest"
      by (auto simp: nth_Cons')
    with assms(3) show False by (meson leD nth_mem)
  qed
  with i assms show ?thesis by (simp add: popPrioritized_def)
qed

section \<open>The contract of the queue\<close>

text \<open>What the producers and the send thread rely on, whatever the shedding policy.\<close>

datatype 'i queue_call = Enqueue 'i | Dequeue | Requeue 'i

primrec run_calls :: "('i \<Rightarrow> 'q \<Rightarrow> 'q) \<Rightarrow> ('q \<Rightarrow> ('i \<times> 'q) option) \<Rightarrow> ('i \<Rightarrow> 'q \<Rightarrow> 'q) \<Rightarrow> 'i queue_call list \<Rightarrow> 'q \<Rightarrow> 'i list \<times> 'q" where
  "run_calls enq deq req [] q = ([], q)"
| "run_calls enq deq req (c # cs) q =
     (case c of
        Enqueue i \<Rightarrow> run_calls enq deq req cs (enq i q)
      | Requeue i \<Rightarrow> run_calls enq deq req cs (req i q)
      | Dequeue \<Rightarrow> (case deq q of
            None \<Rightarrow> run_calls enq deq req cs q
          | Some (i, q1) \<Rightarrow> (case run_calls enq deq req cs q1 of (out, q2) \<Rightarrow> (i # out, q2))))"

primrec given :: "('i \<Rightarrow> 'i) \<Rightarrow> 'i queue_call list \<Rightarrow> 'i multiset" where
  "given nrm [] = {#}"
| "given nrm (c # cs) = (case c of Enqueue i \<Rightarrow> {#nrm i#} | Requeue i \<Rightarrow> {#nrm i#} | Dequeue \<Rightarrow> {#}) + given nrm cs"

locale send_queue =
  fixes enq :: "'i \<Rightarrow> 'q \<Rightarrow> 'q" and deq :: "'q \<Rightarrow> ('i \<times> 'q) option" and req :: "'i \<Rightarrow> 'q \<Rightarrow> 'q"
    and content :: "'q \<Rightarrow> 'i list" and ok :: "'q \<Rightarrow> bool" and nrm :: "'i \<Rightarrow> 'i"
  assumes enq_ok: "ok q \<Longrightarrow> ok (enq i q)"
    and enq_content: "mset (content (enq i q)) \<subseteq># add_mset (nrm i) (mset (content q))"
    and req_ok: "ok q \<Longrightarrow> ok (req i q)"
    and req_content: "mset (content (req i q)) \<subseteq># add_mset (nrm i) (mset (content q))"
    and deq_ok: "ok q \<Longrightarrow> deq q = Some (i, q') \<Longrightarrow> ok q'"
    and deq_content: "deq q = Some (i, q') \<Longrightarrow> mset (content q) = add_mset i (mset (content q'))"
begin

lemma calls_ok: "ok q \<Longrightarrow> ok (snd (run_calls enq deq req cs q))"
proof (induction cs arbitrary: q)
  case (Cons c cs)
  show ?case
  proof (cases c)
    case Dequeue
    show ?thesis
    proof (cases "deq q")
      case (Some p)
      obtain i q1 where p: "p = (i, q1)" by (cases p)
      have "ok q1" using deq_ok Cons.prems Some p by blast
      with Cons.IH[of q1] Dequeue Some p show ?thesis by (simp add: case_prod_beta)
    qed (use Dequeue Cons in simp)
  qed (use Cons in \<open>simp_all add: enq_ok req_ok\<close>)
qed simp

lemma calls_conserve:
  "mset (fst (run_calls enq deq req cs q)) + mset (content (snd (run_calls enq deq req cs q)))
     \<subseteq># mset (content q) + given nrm cs"
proof (induction cs arbitrary: q)
  case (Cons c cs)
  have mono: "A \<subseteq># B + G \<Longrightarrow> B \<subseteq># add_mset x C \<Longrightarrow> A \<subseteq># add_mset x (C + G)" for A B C G :: "'i multiset" and x
    by (metis add_mset_add_single subset_mset.order_trans subset_mset.add_right_mono union_mset_add_mset_left)
  show ?case
  proof (cases c)
    case (Enqueue i)
    with mono[OF Cons.IH[of "enq i q"] enq_content] show ?thesis by simp
  next
    case (Requeue i)
    with mono[OF Cons.IH[of "req i q"] req_content] show ?thesis by simp
  next
    case Dequeue
    show ?thesis
    proof (cases "deq q")
      case None
      with Dequeue Cons.IH[of q] show ?thesis by simp
    next
      case (Some p)
      obtain i q1 where p: "p = (i, q1)" by (cases p)
      with Dequeue Some Cons.IH[of q1] deq_content[of q i q1] show ?thesis
        by (simp add: case_prod_beta)
    qed
  qed
qed simp

end

interpretation sq: send_queue push popPrioritized requeueFront queue queue_ok norm_item
proof unfold_locales
  fix q :: Queue and i :: QueueItem
  show "mset (queue (push i q)) \<subseteq># add_mset (norm_item i) (mset (queue q))"
    using sheds_mset[OF push_sheds, of q i] by (cases "running q") (auto simp: push_def)
  show "mset (queue (requeueFront i q)) \<subseteq># add_mset (norm_item i) (mset (queue q))"
    by (simp add: requeueFront_def norm_item_def)
qed (auto intro: push_ok requeueFront_ok popPrioritized_ok popPrioritized_mset)


section \<open>Reachable states\<close>

datatype call =
    CPush QueueItem | CPushBatch "QueueItem list" | CRequeueFront QueueItem | CPop | CPopPrioritized
  | CDropGroup u32 Stream | CDropParityForGroup u32 Stream | CSetProtected u32 | CClearProtected u32
  | CSetLimits nat nat | CClear | CStop | CSnapshot

fun do_call :: "call \<Rightarrow> Queue \<Rightarrow> Queue" where
  "do_call (CPush it) q = push it q"
| "do_call (CPushBatch its) q = pushBatch its q"
| "do_call (CRequeueFront it) q = requeueFront it q"
| "do_call CPop q = (case pop q of None \<Rightarrow> q | Some (_, q') \<Rightarrow> q')"
| "do_call CPopPrioritized q = (case popPrioritized q of None \<Rightarrow> q | Some (_, q') \<Rightarrow> q')"
| "do_call (CDropGroup g st) q = dropGroup g st q"
| "do_call (CDropParityForGroup g st) q = snd (dropParityForGroup g st q)"
| "do_call (CSetProtected g) q = setProtectedVideoGroup g q"
| "do_call (CClearProtected g) q = clearProtectedVideoGroup g q"
| "do_call (CSetLimits p b) q = setLimits p b q"
| "do_call CClear q = clear q"
| "do_call CStop q = stop q"
| "do_call CSnapshot q = snd (snapshot q)"

inductive reachable :: "Queue \<Rightarrow> bool" where
  reach_init: "reachable Queue_init"
| reach_step: "reachable q \<Longrightarrow> reachable (do_call c q)"

inductive_cases reachable_cases: "reachable q"

lemma setter_ok:
  "queue_ok q \<Longrightarrow> queue_ok (setProtectedVideoGroup g q)"
  "queue_ok q \<Longrightarrow> queue_ok (clearProtectedVideoGroup g q)"
  "queue_ok q \<Longrightarrow> queue_ok (setLimits p b q)"
  "queue_ok q \<Longrightarrow> queue_ok (snd (snapshot q))"
  "queue_ok (clear q)" "queue_ok (stop q)"
  by (simp_all add: queue_ok_def setProtectedVideoGroup_def clearProtectedVideoGroup_def setLimits_def
      snapshot_def clear_def stop_def)

lemma do_call_ok: "queue_ok q \<Longrightarrow> queue_ok (do_call c q)"
  by (cases c)
    (auto intro: push_ok pushBatch_ok requeueFront_ok pop_ok popPrioritized_ok setter_ok
      sheds_ok[OF dropGroup_sheds] sheds_ok[OF dropParity_sheds]
      simp: dropGroup_def dropParityForGroup_def split: option.splits)

lemma reachable_ok: "reachable q \<Longrightarrow> queue_ok q"
  by (induction rule: reachable.induct) (simp_all add: do_call_ok, simp add: queue_ok_def Queue_init_def)

section \<open>What the bounds guarantee\<close>

lemma enforce_body_False:
  assumes "enforce_body q = (False, q')"
  shows "\<forall>it\<in>set (queue q'). is_protected q' it"
proof -
  obtain q1 where d: "dropOldestGroupLocked q1 = (False, q')"
    using assms by (auto simp: enforce_body_def split: prod.splits if_splits)
  then show ?thesis
    by (auto simp: dropOldestGroupLocked_def is_protected_def split: if_splits option.splits dest: find_NoneD)
qed

lemma enforceLimits_result:
  "\<not> over_limits (enforceLimitsLocked q) \<or> (\<forall>it\<in>set (queue (enforceLimitsLocked q)). is_protected q it)"
proof (induction q rule: enforceLimitsLocked.induct)
  case (1 q)
  obtain ok q1 where b: "enforce_body q = (ok, q1)" by fastforce
  have c: "is_protected q1 = is_protected q"
    using enforce_body_sheds[of q] b is_protected_cong[of q q1] by (simp add: sheds_def)
  show ?case
  proof (cases "over_limits q \<and> ok")
    case True
    with "1.IH"[OF _ b[symmetric]] b c show ?thesis by (subst (1 2) enforceLimitsLocked.simps) simp
  next
    case False
    with b c enforce_body_False[of q q1] show ?thesis by (subst (1 2) enforceLimitsLocked.simps) auto
  qed
qed

lemma protected_groups:
  "{g. isProtectedVideoGroup q g Video} \<subseteq> {protected_video_group_id q}"
  by (auto simp: isProtectedVideoGroup_def)

lemma trim_loop_groups: "card (video_groups (queue (trim_loop n q))) \<le> kMaxQueuedVideoGroups"
proof (induction n q rule: trim_loop.induct)
  case (1 n q)
  show ?case
  proof (cases "kMaxQueuedVideoGroups < length (collectVideoGroups q)")
    case True
    have "trim_victim q n \<noteq> None"
    proof
      assume "trim_victim q n = None"
      then have "\<forall>g\<in>set (collectVideoGroups q). g_group_id g = n \<or> isProtectedVideoGroup q (g_group_id g) Video"
        by (auto simp: trim_victim_def split: option.splits dest: find_NoneD)
      then have "video_groups (queue q) \<subseteq> {n, protected_video_group_id q}"
        unfolding collectVideoGroups_ok(2)[symmetric] by (auto simp: isProtectedVideoGroup_def)
      then have "card (video_groups (queue q)) \<le> card {n, protected_video_group_id q}" by (intro card_mono) auto
      also have "\<dots> \<le> 2" by (simp add: card_insert_if)
      finally show False using True by (simp add: length_collect kMaxQueuedVideoGroups_def)
    qed
    then obtain v where v: "trim_victim q n = Some v" by blast
    from "1.IH"[OF True v] show ?thesis by (subst trim_loop.simps) (simp add: True v)
  next
    case False
    then show ?thesis by (subst trim_loop.simps) (simp add: length_collect)
  qed
qed

lemma keyframe_fold_groups:
  "video_groups (queue (fold (\<lambda>g q. if g_group_id g = n \<or> isProtectedVideoGroup q (g_group_id g) Video
      then q else dropGroupLocked (g_group_id g) Video q) (gs :: VideoGroupInfo list) q))
    \<inter> g_group_id ` set gs \<subseteq> {n, protected_video_group_id q}"
  (is "video_groups (queue (fold ?f gs q)) \<inter> _ \<subseteq> _")
proof (induction gs arbitrary: q)
  case (Cons g gs)
  have f: "sheds q (?f g q)" by auto
  have p: "protected_video_group_id (?f g q) = protected_video_group_id q" using f by (simp add: sheds_def same_config_def)
  have sub: "video_groups (queue (fold ?f gs (?f g q))) \<subseteq> video_groups (queue (?f g q))"
  proof -
    have "sheds (?f g q) (fold ?f gs (?f g q))"
      by (rule fold_invariant[where Q = "\<lambda>_. True" and P = "sheds (?f g q)"]) (auto intro: sheds_trans)
    then show ?thesis by (rule sheds_video_groups)
  qed
  have g: "g_group_id g \<in> video_groups (queue (?f g q)) \<Longrightarrow> g_group_id g \<in> {n, protected_video_group_id q}"
    using protected_groups[of q] by (auto simp: dropGroup_queue video_groups_def split: if_splits)
  from Cons.IH[of "?f g q"] sub g show ?case unfolding p by auto
qed simp

lemma trim_groups: "card (video_groups (queue (trimVideoBacklogLocked n q))) \<le> kMaxQueuedVideoGroups"
proof (cases "length (collectVideoGroups q) \<le> kMaxQueuedVideoGroups")
  case True
  then show ?thesis by (simp add: trimVideoBacklogLocked_def Let_def length_collect)
next
  case False
  let ?f = "\<lambda>(g :: VideoGroupInfo) q. if g_group_id g = n \<or> isProtectedVideoGroup q (g_group_id g) Video
      then q else dropGroupLocked (g_group_id g) Video q"
  have "sheds q (fold ?f (collectVideoGroups q) q)"
    by (rule fold_invariant[where Q = "\<lambda>_. True" and P = "sheds q"]) (auto intro: sheds_trans)
  then have "video_groups (queue (fold ?f (collectVideoGroups q) q)) \<subseteq> g_group_id ` set (collectVideoGroups q)"
    unfolding collectVideoGroups_ok(2) by (rule sheds_video_groups)
  then have "video_groups (queue (fold ?f (collectVideoGroups q) q)) \<subseteq> {n, protected_video_group_id q}"
    using keyframe_fold_groups[of n "collectVideoGroups q" q] by blast
  then have "card (video_groups (queue (fold ?f (collectVideoGroups q) q))) \<le> card {n, protected_video_group_id q}"
    by (intro card_mono) auto
  then have "card (video_groups (queue (fold ?f (collectVideoGroups q) q))) \<le> kMaxQueuedVideoGroups"
    by (simp add: kMaxQueuedVideoGroups_def card_insert_if split: if_splits)
  then show ?thesis using False trim_loop_groups by (simp add: trimVideoBacklogLocked_def Let_def)
qed

lemma trim_keeps_other:
  assumes "stream x \<noteq> Video" "x \<in> set (queue q)"
  shows "x \<in> set (queue (trimVideoBacklogLocked n q))"
proof -
  have l: "x \<in> set (queue (trim_loop n q))" if "x \<in> set (queue q)" for q
    using that
  proof (induction n q rule: trim_loop.induct)
    case (1 n q)
    then show ?case using assms(1) by (subst trim_loop.simps) (auto simp: dropGroup_queue split: option.splits)
  qed
  have "x \<in> set (queue (fold (\<lambda>g q. if g_group_id g = n \<or> isProtectedVideoGroup q (g_group_id g) Video
      then q else dropGroupLocked (g_group_id g) Video q) (gs :: VideoGroupInfo list) q))" for gs
    using assms by (induction gs arbitrary: q) (auto simp: dropGroup_queue)
  then show ?thesis using l assms(2) by (simp add: trimVideoBacklogLocked_def Let_def)
qed

text \<open>Non-video items go only when nothing else may.\<close>

definition no_video_left :: "Queue \<Rightarrow> bool" where
  "no_video_left q \<longleftrightarrow> (\<forall>v\<in>set (queue q). stream v = Video \<longrightarrow> is_protected q v)"

lemma no_video_left_sheds: "sheds q q' \<Longrightarrow> no_video_left q \<Longrightarrow> no_video_left q'"
  using sheds_set[of q q'] is_protected_cong[of q q'] by (auto simp: no_video_left_def sheds_def)

lemma dropOldestVideoParity_video: "stream it \<noteq> Video \<Longrightarrow> it \<in> set (queue q) \<Longrightarrow>
    it \<in> set (queue (snd (dropOldestVideoParityLocked q)))"
  by (auto simp: dropOldestVideoParityLocked_def dropParity_queue split: option.splits dest!: find_SomeD)

lemma enforce_body_video_first:
  assumes "it \<in> set (queue q)" "stream it \<noteq> Video" "enforce_body q = (ok, q')" "it \<notin> set (queue q')"
  shows "no_video_left q'"
proof -
  obtain ok1 q1 where p: "dropOldestVideoParityLocked q = (ok1, q1)" by fastforce
  have it1: "it \<in> set (queue q1)"
    using dropOldestVideoParity_video[OF assms(2,1)] p by simp
  then have d: "dropOldestGroupLocked q1 = (ok, q')"
    using assms(3,4) p by (auto simp: enforce_body_def split: if_splits)
  have "no_video_left q1"
    using d it1 assms(2,4)
    by (auto simp: dropOldestGroupLocked_def no_video_left_def is_protected_def dropGroup_queue
        split: if_splits option.splits dest!: find_SomeD dest: find_NoneD)
  then show ?thesis using no_video_left_sheds dropOldestGroup_sheds[of q1] d by simp
qed

lemma enforceLimits_video_first:
  "it \<in> set (queue q) \<Longrightarrow> stream it \<noteq> Video \<Longrightarrow> it \<notin> set (queue (enforceLimitsLocked q)) \<Longrightarrow>
   no_video_left (enforceLimitsLocked q)"
proof (induction q rule: enforceLimitsLocked.induct)
  case (1 q)
  obtain ok q1 where b: "enforce_body q = (ok, q1)" by fastforce
  have o: "over_limits q"
    using "1.prems" by (rule_tac ccontr) (simp add: enforceLimitsLocked.simps[of q])
  have e: "enforceLimitsLocked q = (if ok then enforceLimitsLocked q1 else q1)"
    by (subst enforceLimitsLocked.simps) (simp add: o b)
  show ?case
  proof (cases "it \<in> set (queue q1)")
    case True
    with "1.prems"(3) e have ok by (cases ok) simp_all
    with True "1.IH"[OF o b[symmetric]] "1.prems" e show ?thesis by simp
  next
    case False
    from enforce_body_video_first[OF "1.prems"(1,2) b False] have "no_video_left q1" .
    then show ?thesis using e no_video_left_sheds[OF enforceLimits_sheds] by auto
  qed
qed


section \<open>Properties\<close>

definition sample_item :: "u8 \<Rightarrow> QueueItem" where
  "sample_item p = QueueItem_default\<lparr>stream := Audio, group_id := 7, priority := p, wire_bytes := 100\<rparr>"

definition sample_group_end :: QueueItem where
  "sample_group_end = QueueItem_default\<lparr>kind := GroupEnd, stream := Video, group_id := 9\<rparr>"

definition sample_queue :: Queue where
  "sample_queue = Queue_init\<lparr>queue := [sample_item 4, sample_item 1], queue_bytes := 200\<rparr>"

lemma sample_queue_ok: "queue_ok sample_queue" "running sample_queue"
  by (simp_all add: queue_ok_def sample_queue_def sample_item_def QueueItem_default_def kNumPriorityLevels_def Queue_init_def)

lemma sample_levels: "level (sample_item 4) = 4" "level (sample_item 1) = 1"
  by (simp_all add: sample_item_def normalizePriority_def kNumPriorityLevels_def)

lemma sample_pop: "popPrioritized sample_queue = Some (sample_item 1, sample_queue\<lparr>queue := [sample_item 4], queue_bytes := 100\<rparr>)"
proof -
  obtain it q' where p: "popPrioritized sample_queue = Some (it, q')"
    using popPrioritized_progress[of sample_queue] sample_queue_ok by (auto simp: sample_queue_def)
  have b: "wire_bytes (sample_item 1) = 100" "kind (sample_item 1) = Datagram"
    by (simp_all add: sample_item_def QueueItem_default_def)
  have s: "selectPrioritizedLocked sample_queue = Some 1"
    using selectPrioritized_Some[of sample_queue] selectPrioritized_None[of sample_queue]
    by (cases "selectPrioritizedLocked sample_queue")
      (force simp: sample_queue_def less_Suc_eq sample_levels)+
  then show ?thesis
    using sample_queue_ok b
    by (simp add: popPrioritized_def removeItemLocked_def Let_def erase_at_def)
      (simp add: sample_queue_def)
qed

text \<open>C6: In every state the public operations can reach, in any order and with any arguments,
  \<open>queue_bytes_\<close> is exactly the wire bytes of the queued datagrams and every queued priority is one
  of the five levels. The saturating subtractions of the code never saturate.\<close>
theorem queue_accounting_exact:
  assumes "reachable q"
  shows "queue_bytes q = dgram_bytes (queue q) \<and> (\<forall>it\<in>set (queue q). unat (priority it) < kNumPriorityLevels)"
  using reachable_ok[OF assms] by (simp add: queue_ok_def)

theorem queue_accounting_exact_witness:
  "queue_bytes (push sample_group_end Queue_init) = dgram_bytes (queue (push sample_group_end Queue_init))"
  using queue_accounting_exact[of "push sample_group_end Queue_init"] reach_step[OF reach_init, of "CPush sample_group_end"]
  by simp

text \<open>Bounded queue: after a \<open>push\<close> on a running queue the configured packet and byte limits
  hold (0 meaning no limit), or nothing but the protected video group is left.\<close>
theorem push_within_limits:
  assumes "running q"
  shows "((max_packets q = 0 \<or> length (queue (push it q)) \<le> max_packets q)
      \<and> (max_bytes q = 0 \<or> queue_bytes (push it q) \<le> max_bytes q))
    \<or> (\<forall>x\<in>set (queue (push it q)). is_protected q x)"
proof -
  define q2 where "q2 = (if stream it = Video \<and> kind it = GroupEnd
    then trimVideoBacklogLocked (group_id it) (append_item it q) else append_item it q)"
  have "same_config (append_item it q) q2" using trim_sheds[of "append_item it q"] by (auto simp: q2_def sheds_def same_config_def)
  then have "is_protected q2 = is_protected q"
    by (simp add: same_config_def is_protected_def isProtectedVideoGroup_def fun_eq_iff)
  with enforceLimits_result[of q2] assms
  have "\<not> over_limits (push it q) \<or> (\<forall>x\<in>set (queue (push it q)). is_protected q x)"
    by (simp add: push_def Let_def q2_def)
  moreover have "max_packets (push it q) = max_packets q" "max_bytes (push it q) = max_bytes q"
    using push_sheds[OF assms, of it] by (auto simp: sheds_def same_config_def append_item_def)
  ultimately show ?thesis by (auto simp: over_limits_def not_less)
qed

theorem push_within_limits_witness:
  "length (queue (push (sample_item 2) (setLimits 1 50 Queue_init))) \<le> 1
    \<and> queue_bytes (push (sample_item 2) (setLimits 1 50 Queue_init)) \<le> 50"
proof -
  have "queue_ok (push (sample_item 2) (setLimits 1 50 Queue_init))"
    by (intro push_ok) (simp add: queue_ok_def setLimits_def Queue_init_def)
  moreover have "List.filter (\<lambda>x. is_protected (setLimits 1 50 Queue_init) x) (queue (push (sample_item 2) (setLimits 1 50 Queue_init))) = []"
    by (simp add: setLimits_def Queue_init_def is_protected_def isProtectedVideoGroup_def)
  ultimately show ?thesis
    using push_within_limits[of "setLimits 1 50 Queue_init" "sample_item 2"]
    by (cases "queue (push (sample_item 2) (setLimits 1 50 Queue_init)) = []")
      (auto simp: filter_empty_conv queue_ok_def, auto simp: setLimits_def Queue_init_def)
qed

text \<open>After the end marker of a video group is pushed, at most four video groups are queued,
  whatever was queued before.\<close>
theorem video_backlog_bounded:
  assumes "running q" "stream it = Video" "kind it = GroupEnd"
  shows "card (video_groups (queue (push it q))) \<le> 4"
  using trim_groups[of "group_id it" "append_item it q"] assms
    sheds_groups[OF enforceLimits_sheds, of "trimVideoBacklogLocked (group_id it) (append_item it q)"]
  by (simp add: push_def Let_def kMaxQueuedVideoGroups_def)

theorem video_backlog_bounded_witness: "card (video_groups (queue (push sample_group_end sample_queue))) \<le> 4"
  using video_backlog_bounded[of sample_queue sample_group_end] sample_queue_ok by (simp add: sample_group_end_def)

text \<open>C17: The group being sent is never damaged: whatever \<open>push\<close>, \<open>pushBatch\<close> (the way the video frames
  come) or \<open>dropGroup\<close> sheds, by the video backlog or by the limits on packets and bytes, the items of
  the protected video group stay, all of them and in order, with the new ones behind.\<close>
theorem push_keeps_protected_group:
  assumes "running q"
  shows "List.filter (is_protected q) (queue (push it q)) = List.filter (is_protected q) (queue q @ [norm_item it])
    \<and> List.filter (is_protected q) (queue (pushBatch its q)) = List.filter (is_protected q) (queue q @ map norm_item its)
    \<and> List.filter (is_protected q) (queue (dropGroup gid st q)) = List.filter (is_protected q) (queue q)"
proof -
  have "is_protected (append_item it q) = is_protected q" "is_protected (fold append_item its q) = is_protected q"
    by (simp_all add: is_protected_def isProtectedVideoGroup_def fun_eq_iff)
  with sheds_protected[OF push_sheds[OF assms, of it]] sheds_protected[OF pushBatch_sheds[OF assms, of its]]
    sheds_protected[OF dropGroup_sheds, of q gid st]
  show ?thesis by (simp add: dropGroup_def)
qed

lemma pushBatch_over_limits:
  assumes "running q" "its \<noteq> []"
  shows "\<not> over_limits (pushBatch its q) \<or> (\<forall>x\<in>set (queue (pushBatch its q)). is_protected q x)"
proof -
  define q2 where "q2 = (case newest_group_end its of None \<Rightarrow> fold append_item its q
    | Some g \<Rightarrow> trimVideoBacklogLocked g (fold append_item its q))"
  have "same_config (fold append_item its q) q2"
    using trim_sheds by (auto simp: q2_def sheds_def same_config_def split: option.splits)
  then have "is_protected q2 = is_protected q"
    by (simp add: same_config_def is_protected_def isProtectedVideoGroup_def fun_eq_iff)
  with enforceLimits_result[of q2] assms show ?thesis by (simp add: pushBatch_def Let_def q2_def)
qed

text \<open>A queue of at most one packet keeps the two items of the group being sent and sheds the audio packet
  that came between them.\<close>
theorem push_keeps_protected_group_witness:
  "queue (pushBatch [sample_group_end, sample_item 1, sample_group_end] (setLimits 1 0 (setProtectedVideoGroup 9 Queue_init)))
    = [norm_item sample_group_end, norm_item sample_group_end]"
proof -
  let ?q = "setLimits 1 0 (setProtectedVideoGroup 9 Queue_init)"
  let ?b = "[sample_group_end, sample_item 1, sample_group_end]"
  have r: "running ?q" by (simp add: setLimits_def setProtectedVideoGroup_def Queue_init_def)
  have f: "List.filter (is_protected ?q) (queue (pushBatch ?b ?q)) = [norm_item sample_group_end, norm_item sample_group_end]"
    using push_keeps_protected_group[OF r, of sample_group_end ?b 9 Video]
    by (simp add: setLimits_def setProtectedVideoGroup_def Queue_init_def sample_group_end_def sample_item_def
        is_protected_def isProtectedVideoGroup_def kNoProtectedVideoGroup_def)
  then have "1 < length (queue (pushBatch ?b ?q))"
    using length_filter_le[of "is_protected ?q" "queue (pushBatch ?b ?q)"] by simp
  moreover have "max_packets (pushBatch ?b ?q) = 1"
    using pushBatch_sheds[OF r, of ?b]
    by (simp add: sheds_def same_config_def append_item_def) (simp add: setLimits_def)
  ultimately have "\<forall>x\<in>set (queue (pushBatch ?b ?q)). is_protected ?q x"
    using pushBatch_over_limits[OF r, of ?b] by (auto simp: over_limits_def)
  then have "queue (pushBatch ?b ?q) = List.filter (is_protected ?q) (queue (pushBatch ?b ?q))" by simp
  with f show ?thesis by metis
qed

text \<open>C18: \<open>popPrioritized\<close> fails only on a stopped or empty queue. Otherwise it takes the earliest item
  among those of the most urgent level present and leaves the others in order; \<open>peekPrioritized\<close>
  announces that very item.\<close>
theorem popPrioritized_takes_first_most_urgent:
  "case popPrioritized q of
     None \<Rightarrow> \<not> running q \<or> queue q = []
   | Some (it, q') \<Rightarrow> running q
       \<and> (\<exists>pre post. queue q = pre @ it # post \<and> queue q' = pre @ post
            \<and> (\<forall>x\<in>set pre. level it < level x) \<and> (\<forall>x\<in>set post. level it \<le> level x))
       \<and> (\<exists>m. peekPrioritized q = Some m \<and> m_kind m = kind it \<and> m_group_id m = group_id it \<and> m_wire_bytes m = wire_bytes it)"
proof (cases "popPrioritized q")
  case None
  then show ?thesis using popPrioritized_progress[of q] by auto
next
  case (Some p)
  obtain it q' where p: "p = (it, q')" by (cases p)
  have "\<exists>m. peekPrioritized q = Some m \<and> m_kind m = kind it \<and> m_group_id m = group_id it \<and> m_wire_bytes m = wire_bytes it"
    using Some p by (auto simp: popPrioritized_def peekPrioritized_def removeItemLocked_def Let_def split: if_splits option.splits)
  with popPrioritized_Some(1,3)[of q it q'] Some p show ?thesis by simp
qed

theorem popPrioritized_takes_first_most_urgent_witness:
  "\<exists>pre post. queue sample_queue = pre @ sample_item 1 # post \<and> list_all (\<lambda>x. level (sample_item 1) < level x) pre"
  using popPrioritized_takes_first_most_urgent[of sample_queue] unfolding sample_pop by (auto simp: list_all_iff)

text \<open>Putting back the item just taken restores its turn: on a reachable queue the next
  \<open>popPrioritized\<close> after \<open>requeueFront\<close> returns the same item and the same rest, so a datagram the
  socket refused loses neither its place nor its bytes.\<close>
theorem requeueFront_undoes_pop:
  assumes "queue_ok q" "popPrioritized q = Some (it, q')"
  shows "popPrioritized (requeueFront it q') = Some (it, q')"
proof -
  obtain pre post where s: "queue q = pre @ it # post" "queue q' = pre @ post"
    "\<forall>x\<in>set pre. level it < level x" "\<forall>x\<in>set post. level it \<le> level x"
    using popPrioritized_Some(1)[OF assms(2)] by blast
  have r: "running q'" using popPrioritized_Some(2,3)[OF assms(2)] by (simp add: same_config_def)
  have n: "norm_item it = it" using assms(1) s(1) by (intro norm_item_id) (simp add: queue_ok_def)
  have e: "requeueFront it q' = q'\<lparr>queue := it # queue q',
      queue_bytes := (if kind it = Datagram then queue_bytes q' + wire_bytes it else queue_bytes q')\<rparr>"
    using r n by (simp add: requeueFront_def norm_item_def)
  have "popPrioritized (requeueFront it q') = Some (removeItemLocked 0 (requeueFront it q'))"
    by (rule popPrioritized_head[of _ it "queue q'"]) (use s r e in auto)
  then show ?thesis by (simp add: e removeItemLocked_def Let_def erase_at_def)
qed

theorem requeueFront_undoes_pop_witness:
  "popPrioritized (requeueFront (sample_item 1) (sample_queue\<lparr>queue := [sample_item 4], queue_bytes := 100\<rparr>))
    = Some (sample_item 1, sample_queue\<lparr>queue := [sample_item 4], queue_bytes := 100\<rparr>)"
  by (rule requeueFront_undoes_pop[OF sample_queue_ok(1) sample_pop])

text \<open>Video is shed before anything else: if a \<open>push\<close> makes the queue drop an audio or telemetry
  item, then no video item is left, the protected group excepted.\<close>
theorem push_sheds_video_first:
  assumes "x \<in> set (queue q)" "stream x \<noteq> Video" "x \<notin> set (queue (push it q))"
  shows "\<forall>v\<in>set (queue (push it q)). stream v = Video \<longrightarrow> is_protected q v"
proof -
  have r: "running q" using assms(1,3) by (rule_tac ccontr) (simp add: push_def)
  define q2 where "q2 = (if stream it = Video \<and> kind it = GroupEnd
    then trimVideoBacklogLocked (group_id it) (append_item it q) else append_item it q)"
  have p: "push it q = enforceLimitsLocked q2" using r by (simp add: push_def Let_def q2_def)
  have keep: "x \<in> set (queue (trimVideoBacklogLocked g (append_item it q)))" for g
    using trim_keeps_other[OF assms(2), of "append_item it q"] assms(1) by simp
  then have "x \<in> set (queue q2)" using assms(1) by (simp add: q2_def)
  from enforceLimits_video_first[OF this assms(2)] assms(3) p have "no_video_left (push it q)" by simp
  moreover have "is_protected (push it q) = is_protected q"
    using push_sheds[OF r, of it] is_protected_cong[of "append_item it q" "push it q"]
    by (simp add: sheds_def) (simp add: is_protected_def isProtectedVideoGroup_def fun_eq_iff)
  ultimately show ?thesis by (simp add: no_video_left_def)
qed


definition audio_only :: Queue where
  "audio_only = Queue_init\<lparr>queue := [sample_item 4], queue_bytes := 100, max_packets := 1\<rparr>"

theorem push_sheds_video_first_witness:
  "sample_item 4 \<notin> set (queue (push (sample_item 2) audio_only))
   \<and> List.filter (\<lambda>v. stream v = Video) (queue (push (sample_item 2) audio_only)) = []"
proof
  show *: "sample_item 4 \<notin> set (queue (push (sample_item 2) audio_only))" by code_simp
  have "sample_item 4 \<in> set (queue audio_only)" "stream (sample_item 4) \<noteq> Video"
    by (simp_all add: audio_only_def sample_item_def)
  from push_sheds_video_first[OF this *]
  show "List.filter (\<lambda>v. stream v = Video) (queue (push (sample_item 2) audio_only)) = []"
    by (auto simp: filter_empty_conv is_protected_def isProtectedVideoGroup_def audio_only_def Queue_init_def)
qed

text \<open>Conservation over any sequence of enqueue, dequeue and requeue calls: what comes out,
  together with what stays, was in the queue at the start or was put in; nothing is duplicated or
  invented, whatever the shedding.\<close>
theorem queue_conserves_items:
  "mset (fst (run_calls push popPrioritized requeueFront cs q))
     + mset (queue (snd (run_calls push popPrioritized requeueFront cs q)))
   \<subseteq># mset (queue q) + given norm_item cs"
  by (rule sq.calls_conserve)

end
