(* ===== verification/Pacer.thy ===== *)
theory Pacer
  imports Prelude
begin

text \<open>
  \<open>src/src/udp/pacer.cpp\<close>: the leaky-bucket pacer. A double is a rational, and \<open>fl\<close> is the rounding
  the hardware applies to the result of every operation and of every conversion from an integer: it is
  a parameter of each function, and a property says which rounding it is about. Infinities and NaN do
  not arise from the values the configuration allows. A time point is its nanoseconds since the
  epoch, a duration in microseconds an \<open>int\<close>.
\<close>

declare of_nat_unat [simp del]

record PacerConfig =
  p_enabled :: bool
  p_pacing_bps :: u64
  send_burst_interval_ms :: u32
  max_burst_bytes :: nat
  max_debt_ms :: u32
  queue_time_limit_ms :: u32
  max_drain_multiplier :: double

record PacerStats =
  ps_adjusted_pacing_bps :: u64
  ps_debt_us :: u64
  ps_expected_queue_us :: u64

record WebRtcLikePacer =
  p_config :: PacerConfig
  media_debt_bytes :: double
  adjusted_pacing_bps :: u64
  last_process_tp :: int
  last_send_tp :: int

definition kMaxLowLatencyBurstWindowMs :: double where "kMaxLowLatencyBurstWindowMs = 1"
definition kBlockedSendCooldownMs :: double where "kBlockedSendCooldownMs = 1"

definition PacerConfig_default :: PacerConfig where
  "PacerConfig_default = \<lparr>p_enabled = True, p_pacing_bps = 0, send_burst_interval_ms = 5, max_burst_bytes = 63000,
     max_debt_ms = 500, queue_time_limit_ms = 150, max_drain_multiplier = 2\<rparr>"

definition Pacer_init :: "int \<Rightarrow> WebRtcLikePacer" where
  "Pacer_init now = \<lparr>p_config = PacerConfig_default, media_debt_bytes = 0, adjusted_pacing_bps = 0,
     last_process_tp = now, last_send_tp = now\<rparr>"

abbreviation nat_dbl :: "(double \<Rightarrow> double) \<Rightarrow> nat \<Rightarrow> double" where
  "nat_dbl fl n \<equiv> fl (of_nat n)"

definition clampD :: "double \<Rightarrow> double \<Rightarrow> double \<Rightarrow> double" where
  "clampD v lo hi = (if v < lo then lo else if hi < v then hi else v)"

section \<open>Rates and budgets\<close>

definition adjustedRateBps :: "(double \<Rightarrow> double) \<Rightarrow> WebRtcLikePacer \<Rightarrow> nat \<Rightarrow> u64" where
  "adjustedRateBps fl p queue_bytes =
     (let c = p_config p; bps = nat_dbl fl (unat (p_pacing_bps c))
      in if \<not> p_enabled c \<or> p_pacing_bps c = 0 then p_pacing_bps c
         else (let a1 = (if 0 < queue_time_limit_ms c \<and> 0 < queue_bytes
                  then max bps (fl (fl (fl (nat_dbl fl queue_bytes * 8) * 1000) / nat_dbl fl (unat (queue_time_limit_ms c))))
                  else bps);
                   max_bps = fl (bps * max_drain_multiplier c);
                   a2 = clampD a1 bps max_bps
               in if nat_dbl fl (2 ^ 64 - 1) < a2 then - 1 else of_int (floor a2)))"

definition rateBytesPerSec :: "(double \<Rightarrow> double) \<Rightarrow> WebRtcLikePacer \<Rightarrow> nat \<Rightarrow> double" where
  "rateBytesPerSec fl p queue_bytes =
     (let bps = (if 0 < adjusted_pacing_bps p then adjusted_pacing_bps p else adjustedRateBps fl p queue_bytes)
      in fl (nat_dbl fl (unat bps) / 8))"

definition allowedBurstBytes :: "(double \<Rightarrow> double) \<Rightarrow> WebRtcLikePacer \<Rightarrow> nat \<Rightarrow> double" where
  "allowedBurstBytes fl p queue_bytes =
     (let c = p_config p; bytes_per_sec = rateBytesPerSec fl p queue_bytes;
          w0 = nat_dbl fl (unat (send_burst_interval_ms c));
          burst_window_ms = (if p_enabled c \<and> 0 < p_pacing_bps c then min w0 kMaxLowLatencyBurstWindowMs else w0);
          interval_bytes = fl (fl (bytes_per_sec * burst_window_ms) / 1000)
      in if max_burst_bytes c = 0 then interval_bytes else min interval_bytes (nat_dbl fl (max_burst_bytes c)))"

definition maxDebtBytes :: "(double \<Rightarrow> double) \<Rightarrow> WebRtcLikePacer \<Rightarrow> nat \<Rightarrow> double" where
  "maxDebtBytes fl p queue_bytes =
     fl (fl (rateBytesPerSec fl p queue_bytes * nat_dbl fl (unat (max_debt_ms (p_config p)))) / 1000)"

definition updateBudget :: "(double \<Rightarrow> double) \<Rightarrow> int \<Rightarrow> nat \<Rightarrow> WebRtcLikePacer \<Rightarrow> WebRtcLikePacer" where
  "updateBudget fl now queue_bytes p =
     (if now < last_process_tp p then p\<lparr>last_process_tp := now\<rparr>
      else (let p1 = p\<lparr>adjusted_pacing_bps := adjustedRateBps fl p queue_bytes\<rparr>;
                elapsed = (now - last_process_tp p) div 1000;
                p2 = p1\<lparr>last_process_tp := now\<rparr>
            in if elapsed \<le> 0 then p2
               else (let bytes_per_sec = rateBytesPerSec fl p2 queue_bytes
                     in if bytes_per_sec \<le> 0 then p2\<lparr>media_debt_bytes := 0\<rparr>
                        else (let elapsed_us = min (fl (of_int elapsed)) 2000000;
                                  debt = fl (media_debt_bytes p2 - fl (fl (bytes_per_sec * elapsed_us) / 1000000))
                              in p2\<lparr>media_debt_bytes := clampD debt 0 (maxDebtBytes fl p2 queue_bytes)\<rparr>))))"

section \<open>Operations\<close>

definition pacer_reset :: "int \<Rightarrow> WebRtcLikePacer \<Rightarrow> WebRtcLikePacer" where
  "pacer_reset now p = p\<lparr>media_debt_bytes := 0, adjusted_pacing_bps := p_pacing_bps (p_config p),
     last_process_tp := now, last_send_tp := now\<rparr>"

definition setConfig :: "(double \<Rightarrow> double) \<Rightarrow> PacerConfig \<Rightarrow> WebRtcLikePacer \<Rightarrow> WebRtcLikePacer" where
  "setConfig fl c p =
     (let c1 = (if max_drain_multiplier c < 1 then c\<lparr>max_drain_multiplier := 1\<rparr> else c); p1 = p\<lparr>p_config := c1\<rparr>
      in p1\<lparr>adjusted_pacing_bps := adjustedRateBps fl p1 0\<rparr>)"

definition timeUntilNextSend ::
  "(double \<Rightarrow> double) \<Rightarrow> nat \<Rightarrow> bool \<Rightarrow> int \<Rightarrow> WebRtcLikePacer \<Rightarrow> int \<times> WebRtcLikePacer" where
  "timeUntilNextSend fl queue_bytes next_packet_accounted now p =
     (let p1 = updateBudget fl now queue_bytes p
      in if \<not> p_enabled (p_config p) \<or> p_pacing_bps (p_config p) = 0 \<or> \<not> next_packet_accounted then (0, p1)
         else (let allowed_debt = allowedBurstBytes fl p1 queue_bytes
               in if media_debt_bytes p1 \<le> allowed_debt then (0, p1)
                  else (let bytes_per_sec = rateBytesPerSec fl p1 queue_bytes
                        in if bytes_per_sec \<le> 0 then (0, p1)
                           else (let wait_us = fl (fl (fl (media_debt_bytes p1 - allowed_debt) * 1000000) / bytes_per_sec)
                                 in (ceiling (max 0 wait_us), p1)))))"

definition onPacketSent :: "(double \<Rightarrow> double) \<Rightarrow> nat \<Rightarrow> bool \<Rightarrow> nat \<Rightarrow> int \<Rightarrow> WebRtcLikePacer \<Rightarrow> WebRtcLikePacer" where
  "onPacketSent fl n accounted queue_bytes now p =
     (let p1 = updateBudget fl now queue_bytes p;
          p2 = (if p_enabled (p_config p1) \<and> 0 < p_pacing_bps (p_config p1) \<and> accounted
                then p1\<lparr>media_debt_bytes := min (fl (media_debt_bytes p1 + nat_dbl fl n)) (maxDebtBytes fl p1 queue_bytes)\<rparr>
                else p1)
      in p2\<lparr>last_send_tp := now\<rparr>)"

definition onBlocked :: "(double \<Rightarrow> double) \<Rightarrow> nat \<Rightarrow> nat \<Rightarrow> int \<Rightarrow> WebRtcLikePacer \<Rightarrow> WebRtcLikePacer" where
  "onBlocked fl n queue_bytes now p =
     (let p1 = updateBudget fl now queue_bytes p
      in if \<not> p_enabled (p_config p1) \<or> p_pacing_bps (p_config p1) = 0 then p1\<lparr>last_send_tp := now\<rparr>
         else (let bytes_per_sec = rateBytesPerSec fl p1 queue_bytes;
                   cooldown_bytes = (if 0 < bytes_per_sec then fl (fl (bytes_per_sec * kBlockedSendCooldownMs) / 1000)
                                     else nat_dbl fl n);
                   min_debt = fl (allowedBurstBytes fl p1 queue_bytes + max (nat_dbl fl n) cooldown_bytes)
               in p1\<lparr>media_debt_bytes := clampD (max (media_debt_bytes p1) min_debt) 0 (maxDebtBytes fl p1 queue_bytes),
                     last_send_tp := now\<rparr>))"

definition pacer_stats :: "(double \<Rightarrow> double) \<Rightarrow> nat \<Rightarrow> int \<Rightarrow> WebRtcLikePacer \<Rightarrow> PacerStats \<times> WebRtcLikePacer" where
  "pacer_stats fl queue_bytes now p =
     (let p1 = updateBudget fl now queue_bytes p; bytes_per_sec = rateBytesPerSec fl p1 queue_bytes
      in (if 0 < bytes_per_sec
          then \<lparr>ps_adjusted_pacing_bps = adjusted_pacing_bps p1,
                ps_debt_us = of_int (ceiling (fl (fl (max 0 (media_debt_bytes p1) * 1000000) / bytes_per_sec))),
                ps_expected_queue_us = of_int (ceiling (fl (fl (nat_dbl fl queue_bytes * 1000000) / bytes_per_sec)))\<rparr>
          else \<lparr>ps_adjusted_pacing_bps = adjusted_pacing_bps p1, ps_debt_us = 0, ps_expected_queue_us = 0\<rparr>, p1))"

section \<open>The debt stays within its bounds under any rounding\<close>

text \<open>What is assumed of the hardware's rounding: it is monotone and keeps zero.\<close>

definition rounding :: "(double \<Rightarrow> double) \<Rightarrow> bool" where
  "rounding fl \<longleftrightarrow> mono fl \<and> fl 0 = 0"

lemma fl_nonneg: "rounding fl \<Longrightarrow> 0 \<le> x \<Longrightarrow> 0 \<le> fl x"
  by (metis monoD rounding_def)

lemma rounding_id: "rounding id" "rounding (\<lambda>x. x)"
  by (simp_all add: rounding_def mono_def)

lemma rate_nonneg: "rounding fl \<Longrightarrow> 0 \<le> rateBytesPerSec fl p q"
  by (simp add: rateBytesPerSec_def Let_def fl_nonneg)

lemma maxDebt_nonneg: "rounding fl \<Longrightarrow> 0 \<le> maxDebtBytes fl p q"
  by (simp add: maxDebtBytes_def fl_nonneg rate_nonneg)

lemma clampD_bounds: "lo \<le> hi \<Longrightarrow> lo \<le> clampD v lo hi \<and> clampD v lo hi \<le> hi"
  by (simp add: clampD_def)

lemma clamp_debt_nonneg: "rounding fl \<Longrightarrow> 0 \<le> clampD v 0 (maxDebtBytes fl p q)"
  by (simp add: clampD_bounds maxDebt_nonneg)

definition debt_ok :: "WebRtcLikePacer \<Rightarrow> bool" where
  "debt_ok p \<longleftrightarrow> 0 \<le> media_debt_bytes p"

lemma updateBudget_ok: "rounding fl \<Longrightarrow> debt_ok p \<Longrightarrow> debt_ok (updateBudget fl now q p)"
  by (simp add: updateBudget_def debt_ok_def Let_def clamp_debt_nonneg)

lemma updateBudget_config [simp]: "p_config (updateBudget fl now q p) = p_config p"
  by (simp add: updateBudget_def Let_def)

lemma onPacketSent_ok: "rounding fl \<Longrightarrow> debt_ok p \<Longrightarrow> debt_ok (onPacketSent fl n a q now p)"
  using updateBudget_ok[of fl p now q] maxDebt_nonneg[of fl]
  by (auto simp: onPacketSent_def debt_ok_def Let_def fl_nonneg)

lemma onBlocked_ok: "rounding fl \<Longrightarrow> debt_ok p \<Longrightarrow> debt_ok (onBlocked fl n q now p)"
  using updateBudget_ok[of fl p now q]
  by (simp add: onBlocked_def debt_ok_def Let_def clamp_debt_nonneg)

section \<open>Exact arithmetic\<close>

text \<open>The rate and the wait, when no rounding intervenes.\<close>

definition pacing_on :: "WebRtcLikePacer \<Rightarrow> bool" where
  "pacing_on p \<longleftrightarrow> p_enabled (p_config p) \<and> 0 < p_pacing_bps (p_config p) \<and> 1 \<le> max_drain_multiplier (p_config p)
     \<and> of_nat (unat (p_pacing_bps (p_config p))) * max_drain_multiplier (p_config p) < 2 ^ 64"

lemma u64_floor:
  assumes "0 \<le> (a :: double)" "a < 2 ^ 64"
  shows "unat (of_int (floor a) :: u64) = nat (floor a)"
proof -
  have "floor a < 2 ^ 64" using assms(2) by (simp add: floor_less_iff)
  moreover have "0 \<le> floor a" using assms(1) by simp
  ultimately have "uint (of_int (floor a) :: u64) = floor a"
    by (simp add: take_bit_int_eq_self flip: take_bit_eq_mod) (simp add: uint_word_of_int)
  then show ?thesis by (simp add: unat_eq_nat_uint)
qed

lemma adjustedRate_exact:
  assumes "pacing_on p"
  shows "unat (p_pacing_bps (p_config p)) \<le> unat (adjustedRateBps (\<lambda>x. x) p q)"
    and "of_nat (unat (adjustedRateBps (\<lambda>x. x) p q)) \<le> (of_nat (unat (p_pacing_bps (p_config p))) * max_drain_multiplier (p_config p) :: double)"
proof -
  let ?c = "p_config p"
  have on: "p_enabled ?c" "p_pacing_bps ?c \<noteq> 0" using assms by (auto simp: pacing_on_def)
  define bps :: double where "bps = of_nat (unat (p_pacing_bps ?c))"
  define mx where "mx = bps * max_drain_multiplier ?c"
  define a1 where "a1 = (if 0 < queue_time_limit_ms ?c \<and> 0 < q
    then max bps (of_nat q * 8 * 1000 / of_nat (unat (queue_time_limit_ms ?c))) else bps)"
  define a2 where "a2 = clampD a1 bps mx"
  have mx: "bps \<le> mx" "mx < 2 ^ 64"
    using assms mult_left_mono[of 1 "max_drain_multiplier ?c" bps]
    by (auto simp: pacing_on_def mx_def bps_def)
  then have a2: "bps \<le> a2" "a2 \<le> mx" unfolding a2_def using clampD_bounds by blast+
  have e: "adjustedRateBps (\<lambda>x. x) p q = (if of_nat (2 ^ 64 - 1) < a2 then - 1 else of_int (floor a2))"
    using on by (simp add: adjustedRateBps_def Let_def a2_def a1_def mx_def bps_def)
  have nn: "0 \<le> a2" using a2(1) by (simp add: bps_def order_trans[of 0 "of_nat _"])
  have f: "floor a2 \<le> 2 ^ 64 - 1" using a2(2) mx(2) by (simp add: floor_le_iff order_le_less_trans)
  have u: "unat (adjustedRateBps (\<lambda>x. x) p q) = nat (floor a2)"
  proof (cases "of_nat (2 ^ 64 - 1) < a2")
    case True
    then have "2 ^ 64 - 1 \<le> floor a2" by (simp add: le_floor_iff)
    with f have "floor a2 = 2 ^ 64 - 1" by linarith
    with True show ?thesis by (simp add: e unsigned_minus_1_eq_mask mask_eq_exp_minus_1)
  next
    case False
    then show ?thesis using e u64_floor[OF nn] a2(2) mx(2) by simp
  qed
  show "unat (p_pacing_bps ?c) \<le> unat (adjustedRateBps (\<lambda>x. x) p q)"
    using a2(1) nn by (simp add: u bps_def le_nat_iff le_floor_iff)
  have "of_nat (nat (floor a2)) \<le> a2" using nn by simp
  then show "of_nat (unat (adjustedRateBps (\<lambda>x. x) p q)) \<le> (of_nat (unat (p_pacing_bps ?c)) * max_drain_multiplier ?c :: double)"
    using a2(2) by (simp add: u mx_def bps_def)
qed


lemma adjustedRate_cong: "p_config p = p_config p' \<Longrightarrow> adjustedRateBps fl p q = adjustedRateBps fl p' q"
  by (simp add: adjustedRateBps_def)

text \<open>After an update with the clock not running backwards, the rate in force is the adjusted one.\<close>

definition rate_of :: "(double \<Rightarrow> double) \<Rightarrow> u64 \<Rightarrow> double" where
  "rate_of fl bps = fl (nat_dbl fl (unat bps) / 8)"

lemma rate_eq:
  "p_config p' = p_config p \<Longrightarrow> adjusted_pacing_bps p' = adjustedRateBps fl p q \<Longrightarrow>
   rateBytesPerSec fl p' q = rate_of fl (adjustedRateBps fl p q)"
  using adjustedRate_cong[of p' p fl q] by (simp add: rateBytesPerSec_def rate_of_def Let_def)

lemma rate_after_update:
  "last_process_tp p \<le> now \<Longrightarrow> rateBytesPerSec fl (updateBudget fl now q p) q = rate_of fl (adjustedRateBps fl p q)"
  by (rule rate_eq) (simp_all add: updateBudget_def Let_def)

lemma rate_of_mono: "mono fl \<Longrightarrow> b \<le> b' \<Longrightarrow> rate_of fl b \<le> rate_of fl b'"
  unfolding rate_of_def by (intro monoD[of fl] divide_right_mono) (simp_all add: word_le_nat_alt)

lemma burst_cong:
  "p_config p = p_config p' \<Longrightarrow> rateBytesPerSec fl p q = rateBytesPerSec fl p' q \<Longrightarrow>
   allowedBurstBytes fl p q = allowedBurstBytes fl p' q"
  by (simp add: allowedBurstBytes_def)

lemma burst_nonneg: "rounding fl \<Longrightarrow> 0 \<le> allowedBurstBytes fl p q"
proof -
  assume r: "rounding fl"
  have "0 \<le> (if p_enabled (p_config p) \<and> 0 < p_pacing_bps (p_config p)
      then min (nat_dbl fl (unat (send_burst_interval_ms (p_config p)))) kMaxLowLatencyBurstWindowMs
      else nat_dbl fl (unat (send_burst_interval_ms (p_config p))))" (is "0 \<le> ?w")
    using r by (simp add: kMaxLowLatencyBurstWindowMs_def fl_nonneg)
  then have "0 \<le> fl (fl (rateBytesPerSec fl p q * ?w) / 1000)"
    by (intro fl_nonneg[OF r] divide_nonneg_pos mult_nonneg_nonneg rate_nonneg[OF r]) simp_all
  then show "0 \<le> allowedBurstBytes fl p q"
    using fl_nonneg[OF r, of "of_nat (max_burst_bytes (p_config p))"] by (simp add: allowedBurstBytes_def Let_def)
qed

lemma burst_mono:
  assumes "rounding fl" "p_config p' = p_config p" "rateBytesPerSec fl p q \<le> rateBytesPerSec fl p' q'"
  shows "allowedBurstBytes fl p q \<le> allowedBurstBytes fl p' q'"
proof -
  have m: "mono fl" using assms(1) by (simp add: rounding_def)
  have "fl (fl (rateBytesPerSec fl p q * v) / 1000) \<le> fl (fl (rateBytesPerSec fl p' q' * v) / 1000)" if "0 \<le> v" for v
    by (intro monoD[OF m] divide_right_mono mult_right_mono assms(3) that) simp
  moreover have "0 \<le> nat_dbl fl n" "0 \<le> kMaxLowLatencyBurstWindowMs" for n
    by (simp_all add: fl_nonneg[OF assms(1)] kMaxLowLatencyBurstWindowMs_def)
  ultimately show ?thesis
    by (simp add: allowedBurstBytes_def Let_def assms(2) min_le_iff_disj)
qed

lemma updateBudget_debt:
  assumes "last_process_tp p + 1000 \<le> now" "0 < rate_of fl (adjustedRateBps fl p q)"
  shows "media_debt_bytes (updateBudget fl now q p) =
    (let R = rate_of fl (adjustedRateBps fl p q)
     in clampD (fl (media_debt_bytes p - fl (fl (R * min (fl (of_int ((now - last_process_tp p) div 1000))) 2000000) / 1000000)))
          0 (fl (fl (R * nat_dbl fl (unat (max_debt_ms (p_config p)))) / 1000)))"
proof -
  have t: "\<not> now < last_process_tp p" "0 < (now - last_process_tp p) div 1000" using assms(1) by (auto simp: pos_imp_zdiv_pos_iff)
  have "rateBytesPerSec fl (p\<lparr>adjusted_pacing_bps := adjustedRateBps fl p q, last_process_tp := now\<rparr>) q
      = rate_of fl (adjustedRateBps fl p q)"
    by (rule rate_eq) simp_all
  with t assms(2) show ?thesis by (simp add: updateBudget_def Let_def maxDebtBytes_def)
qed

lemma clampD_le: "0 \<le> hi \<Longrightarrow> v \<le> b \<Longrightarrow> 0 \<le> b \<Longrightarrow> clampD v 0 hi \<le> b"
  by (auto simp: clampD_def)

section \<open>What rounding costs\<close>

text \<open>The rounding of doubles as far as the wait needs it: monotone, a rounded number stays, the error is at most
  one part in 2^53 or, among the subnormal numbers, 2^-1074. The numbers of the pacer do not overflow.\<close>

definition relative_error :: double where "relative_error = 1 / 2 ^ 53"
definition absolute_error :: double where "absolute_error = 1 / 2 ^ 1074"

definition double_rounding :: "(double \<Rightarrow> double) \<Rightarrow> bool" where
  "double_rounding fl \<longleftrightarrow> rounding fl \<and> (\<forall>x. fl (fl x) = fl x)
     \<and> (\<forall>x. \<bar>fl x - x\<bar> \<le> \<bar>x\<bar> * relative_error + absolute_error)"

lemma error_bounds:
  "0 \<le> relative_error" "relative_error < 1" "0 \<le> absolute_error" "absolute_error \<le> 1 / 2 ^ 60"
  by (simp_all add: relative_error_def absolute_error_def field_simps)

lemma double_rounding_id: "double_rounding (\<lambda>x. x)"
  by (simp add: double_rounding_def rounding_id error_bounds)

text \<open>Rounding down to multiples of 2^-1074 is one, too.\<close>

lemma double_rounding_down: "double_rounding (\<lambda>x. of_int (floor (x / absolute_error)) * absolute_error)"
proof -
  have h: "0 < absolute_error" by (simp add: absolute_error_def)
  have "mono (\<lambda>x. of_int (floor (x / absolute_error)) * absolute_error)"
    using h by (intro monoI mult_right_mono) (simp_all add: floor_mono divide_right_mono)
  moreover have "\<bar>of_int (floor (x / absolute_error)) * absolute_error - x\<bar> \<le> absolute_error" for x
  proof -
    have "of_int (floor (x / absolute_error)) \<le> x / absolute_error" "x / absolute_error < of_int (floor (x / absolute_error)) + 1"
      by linarith+
    then have "of_int (floor (x / absolute_error)) * absolute_error \<le> x"
      "x < (of_int (floor (x / absolute_error)) + 1) * absolute_error"
      using h by (simp_all only: pos_le_divide_eq pos_divide_less_eq)
    then show ?thesis unfolding abs_le_iff by (simp add: algebra_simps)
  qed
  then have "\<bar>of_int (floor (x / absolute_error)) * absolute_error - x\<bar> \<le> \<bar>x\<bar> * relative_error + absolute_error" for x
    using error_bounds(1) by (meson abs_ge_zero add_increasing mult_nonneg_nonneg)
  ultimately show ?thesis using h by (simp add: double_rounding_def rounding_def)
qed

lemma double_roundingD:
  assumes "double_rounding fl"
  shows "rounding fl" "mono fl" "fl (fl x) = fl x"
  using assms by (simp_all add: double_rounding_def rounding_def)

lemma fl_error:
  assumes "double_rounding fl" "0 \<le> x"
  shows "x * (1 - relative_error) - absolute_error \<le> fl x" "fl x \<le> x * (1 + relative_error) + absolute_error"
proof -
  have "\<bar>fl x - x\<bar> \<le> x * relative_error + absolute_error"
    using assms by (metis abs_of_nonneg double_rounding_def)
  then show "x * (1 - relative_error) - absolute_error \<le> fl x" "fl x \<le> x * (1 + relative_error) + absolute_error"
    unfolding abs_le_iff by (simp_all add: algebra_simps)
qed

text \<open>The same in units of a rate \<open>R\<close>, which is not below 1/32 byte per second.\<close>

lemma error_in_rate: "1 / 32 \<le> R \<Longrightarrow> absolute_error \<le> R * (32 * absolute_error)"
  using mult_right_mono[of "1 / 32" R "32 * absolute_error"] error_bounds by simp

lemma fl_scaled_lower:
  assumes "double_rounding fl" "1 / 32 \<le> R" "0 \<le> x" "R * v \<le> x"
  shows "R * (v * (1 - relative_error) - 32 * absolute_error) \<le> fl x"
proof -
  have "R * v * (1 - relative_error) \<le> x * (1 - relative_error)"
    using assms(4) error_bounds by (intro mult_right_mono) simp_all
  then show ?thesis using fl_error(1)[OF assms(1,3)] error_in_rate[OF assms(2)]
    by (simp only: right_diff_distrib mult.assoc)
qed

lemma fl_scaled_upper:
  assumes "double_rounding fl" "1 / 32 \<le> R" "0 \<le> x" "x \<le> R * v"
  shows "fl x \<le> R * (v * (1 + relative_error) + 32 * absolute_error)"
proof -
  have "x * (1 + relative_error) \<le> R * v * (1 + relative_error)"
    using assms(4) error_bounds by (intro mult_right_mono) simp_all
  then show ?thesis using fl_error(2)[OF assms(1,3)] error_in_rate[OF assms(2)]
    by (simp only: distrib_left mult.assoc)
qed

lemma fl_at_least:
  assumes "double_rounding fl" "2 * v \<le> x" "1 / 64 \<le> v"
  shows "v \<le> fl x"
proof -
  have "2 * v * (1 - relative_error) \<le> x * (1 - relative_error)"
    using assms(2) error_bounds by (intro mult_right_mono) simp_all
  moreover have "v * (3 / 2) \<le> v * (2 * (1 - relative_error))"
    using assms(3) by (intro mult_left_mono) (simp_all add: relative_error_def)
  moreover have "absolute_error \<le> v / 2"
    using assms(3) error_bounds(4) by simp
  moreover have "x * (1 - relative_error) - absolute_error \<le> fl x"
    by (rule fl_error(1)[OF assms(1)]) (use assms in simp)
  ultimately show ?thesis by (simp add: field_simps)
qed

lemma rate_of_bounds:
  assumes "double_rounding fl" "0 < rate_of fl b"
  shows "1 / 32 \<le> rate_of fl b"
proof -
  note d = double_roundingD[OF assms(1)]
  have "b \<noteq> 0" using assms(2) d(1) by (auto simp: rate_of_def rounding_def)
  then have "(1 :: double) \<le> of_nat (unat b)" using unat_gt_0[of b] by (simp add: Suc_le_eq del: unat_gt_0)
  then have "1 / 2 \<le> nat_dbl fl (unat b)" by (intro fl_at_least[OF assms(1)]) simp_all
  then show ?thesis unfolding rate_of_def by (intro fl_at_least[OF assms(1)]) simp_all
qed

text \<open>A debt of \<open>u\<close> microseconds at rate \<open>R\<close> is asked for in full but for three roundings, \<open>n\<close> microseconds pay
  it off but for three more, and so one microsecond more than the wait is enough.\<close>

lemma wait_lower:
  assumes "double_rounding fl" "1 / 32 \<le> R" "0 \<le> u"
  shows "u * (1 - relative_error) ^ 3 - 1 / 1000 \<le> fl (fl (fl (R * (u / 1000000)) * 1000000) / R)"
proof -
  let ?e = relative_error and ?h = absolute_error
  note r = double_roundingD(1)[OF assms(1)]
  have R: "0 < R" using assms(2) by simp
  define a where "a = fl (R * (u / 1000000))"
  have a0: "0 \<le> a" unfolding a_def using R assms(3) by (intro fl_nonneg[OF r]) simp
  have "R * (u / 1000000 * (1 - ?e) - 32 * ?h) \<le> a"
    unfolding a_def using R assms(3) by (intro fl_scaled_lower[OF assms(1,2)]) simp_all
  then have "R * (u * (1 - ?e) - 32000000 * ?h) \<le> a * 1000000" by (simp add: algebra_simps)
  then have "R * ((u * (1 - ?e) - 32000000 * ?h) * (1 - ?e) - 32 * ?h) \<le> fl (a * 1000000)"
    using a0 by (intro fl_scaled_lower[OF assms(1,2)]) simp_all
  then have b: "(u * (1 - ?e) - 32000000 * ?h) * (1 - ?e) - 32 * ?h \<le> fl (a * 1000000) / R"
    using R by (simp add: pos_le_divide_eq mult.commute)
  have "0 \<le> fl (a * 1000000) / R" using R a0 by (intro divide_nonneg_pos fl_nonneg[OF r]) simp_all
  from fl_error(1)[OF assms(1) this] mult_right_mono[OF b, of "1 - ?e"] error_bounds(2)
  have "((u * (1 - ?e) - 32000000 * ?h) * (1 - ?e) - 32 * ?h) * (1 - ?e) - ?h \<le> fl (fl (a * 1000000) / R)" by simp
  moreover have "((u * (1 - ?e) - 32000000 * ?h) * (1 - ?e) - 32 * ?h) * (1 - ?e) - ?h
      = u * (1 - ?e) ^ 3 - ?h * (32000000 * (1 - ?e) ^ 2 + 32 * (1 - ?e) + 1)"
    by (simp add: algebra_simps power2_eq_square power3_eq_cube)
  moreover have "?h * (32000000 * (1 - ?e) ^ 2 + 32 * (1 - ?e) + 1) \<le> 1 / 2 ^ 60 * 32000033"
    using error_bounds(3,4) by (intro mult_mono) (simp_all add: relative_error_def power_divide)
  moreover have "1 / 2 ^ 60 * 32000033 \<le> (1 / 1000 :: double)" by simp
  ultimately show ?thesis unfolding a_def by linarith
qed

lemma spent_lower:
  assumes "double_rounding fl" "1 / 32 \<le> R" "0 \<le> E" "n * (1 - relative_error) - absolute_error \<le> E"
  shows "R * ((n * (1 - relative_error) ^ 3 - 1 / 1000) / 1000000) \<le> fl (fl (R * E) / 1000000)"
proof -
  let ?e = relative_error and ?h = absolute_error
  note r = double_roundingD(1)[OF assms(1)]
  have R: "0 < R" using assms(2) by simp
  have c: "R * (E * (1 - ?e) - 32 * ?h) \<le> fl (R * E)"
    using R assms(3) by (intro fl_scaled_lower[OF assms(1,2)]) simp_all
  have "0 \<le> fl (R * E) / 1000000" using R assms(3) by (intro divide_nonneg_pos fl_nonneg[OF r]) simp_all
  then have "R * ((E * (1 - ?e) - 32 * ?h) / 1000000 * (1 - ?e) - 32 * ?h) \<le> fl (fl (R * E) / 1000000)"
    using c by (intro fl_scaled_lower[OF assms(1,2)]) (simp_all add: divide_right_mono)
  moreover have "(n * (1 - ?e) ^ 3 - 1 / 1000) / 1000000 \<le> (E * (1 - ?e) - 32 * ?h) / 1000000 * (1 - ?e) - 32 * ?h"
  proof -
    have "(n * (1 - ?e) - ?h) * (1 - ?e) ^ 2 \<le> E * (1 - ?e) ^ 2"
      using assms(4) by (rule mult_right_mono) simp
    moreover have "(n * (1 - ?e) - ?h) * (1 - ?e) ^ 2 = n * (1 - ?e) ^ 3 - ?h * (1 - ?e) ^ 2"
      by (simp add: algebra_simps power2_eq_square power3_eq_cube)
    moreover have "?h * ((1 - ?e) ^ 2 + 32 * (1 - ?e) + 32000000) \<le> 1 / 2 ^ 60 * 32000033"
      using error_bounds(3,4) by (intro mult_mono) (simp_all add: relative_error_def power_divide)
    moreover have "1 / 2 ^ 60 * 32000033 \<le> (1 / 1000 :: double)" by simp
    ultimately have "n * (1 - ?e) ^ 3 - 1 / 1000 \<le> E * (1 - ?e) ^ 2 - ?h * (32 * (1 - ?e) + 32000000)"
      by (simp only: distrib_left)
    then have "(n * (1 - ?e) ^ 3 - 1 / 1000) / 1000000 \<le> (E * (1 - ?e) ^ 2 - ?h * (32 * (1 - ?e) + 32000000)) / 1000000"
      by (rule divide_right_mono) simp
    also have "\<dots> = (E * (1 - ?e) - 32 * ?h) / 1000000 * (1 - ?e) - 32 * ?h"
      by (simp add: field_simps power2_eq_square)
    finally show ?thesis .
  qed
  ultimately show ?thesis using R mult_left_mono[of _ _ R] by (meson less_imp_le order_trans)
qed

lemma one_more_suffices:
  assumes "u * (1 - relative_error) ^ 3 - 1 / 1000 \<le> w" "0 \<le> w" "w \<le> 2000000"
  shows "u \<le> (w + 1) * (1 - relative_error) ^ 3 - 1 / 1000"
proof -
  define p where "p = (1 - relative_error) ^ 3"
  have p: "0 < p" "p \<le> 1" "1 - 1 / 2 ^ 50 \<le> p * p" by (simp_all add: p_def relative_error_def power_divide)
  have "(w + 1) * (1 - 1 / 2 ^ 50) \<le> (w + 1) * (p * p)" using assms(2) p(3) by (intro mult_left_mono) simp_all
  moreover have "w + 1 - 1 / 100 \<le> (w + 1) * (1 - 1 / 2 ^ 50)" using assms(3) by (simp add: field_simps)
  moreover have "u * p \<le> w + 1 / 1000" using assms(1) by (simp add: p_def)
  ultimately have "u * p \<le> (w + 1) * (p * p) - p * (1 / 1000)" using p(2) by linarith
  then have "u * p \<le> ((w + 1) * p - 1 / 1000) * p" by (simp add: algebra_simps)
  then show ?thesis using p(1) by (simp only: mult_le_cancel_right_pos p_def)
qed

lemma wait_upper:
  assumes "double_rounding fl" "1 / 32 \<le> R" "0 \<le> m" "m \<le> 2 ^ 32"
    and "0 \<le> x" "x \<le> fl (fl (R * fl m) / 1000)"
  shows "fl (fl (fl x * 1000000) / R) \<le> 1000 * m + 1"
proof -
  let ?e = relative_error and ?h = absolute_error
  note r = double_roundingD[OF assms(1)]
  have R: "0 < R" using assms(2) by simp
  define M where "M = fl (fl (R * fl m) / 1000)"
  define m1 where "m1 = m * (1 + ?e) + ?h"
  define m3 where "m3 = (m1 * (1 + ?e) + 32 * ?h) / 1000 * (1 + ?e) + 32 * ?h"
  define m4 where "m4 = m3 * 1000000 * (1 + ?e) + 32 * ?h"
  have nn: "0 \<le> fl m" "0 \<le> R * fl m" "0 \<le> fl (R * fl m) / 1000" "0 \<le> M"
    using R assms(3) by (simp_all add: M_def fl_nonneg[OF r(1)])
  have "fl m \<le> m1" using fl_error(2)[OF assms(1,3)] by (simp add: m1_def)
  then have "R * fl m \<le> R * m1" using R by simp
  then have "fl (R * fl m) \<le> R * (m1 * (1 + ?e) + 32 * ?h)" by (rule fl_scaled_upper[OF assms(1,2) nn(2)])
  then have "fl (R * fl m) / 1000 \<le> R * ((m1 * (1 + ?e) + 32 * ?h) / 1000)" by simp
  then have M: "M \<le> R * m3" unfolding m3_def M_def by (rule fl_scaled_upper[OF assms(1,2) nn(3)])
  have x0: "0 \<le> fl x" using assms(5) by (rule fl_nonneg[OF r(1)])
  have "fl x \<le> fl M" using assms(6) by (intro monoD[OF r(2)]) (simp add: M_def)
  also have "fl M = M" by (simp add: M_def r(3))
  finally have "fl x * 1000000 \<le> R * (m3 * 1000000)" using M by simp
  then have "fl (fl x * 1000000) \<le> R * m4" unfolding m4_def using x0 by (intro fl_scaled_upper[OF assms(1,2)]) simp_all
  then have q: "fl (fl x * 1000000) / R \<le> m4" using R by (simp add: pos_divide_le_eq mult.commute)
  have q0: "0 \<le> fl (fl x * 1000000) / R" using R x0 by (intro divide_nonneg_pos fl_nonneg[OF r(1)]) simp_all
  have "fl (fl (fl x * 1000000) / R) \<le> fl (fl x * 1000000) / R * (1 + ?e) + ?h" by (rule fl_error(2)[OF assms(1) q0])
  also have "\<dots> \<le> m4 * (1 + ?e) + ?h" using q error_bounds(1) by (intro add_right_mono mult_right_mono) simp_all
  also have "\<dots> \<le> 1000 * m + 1"
    using assms(3,4) error_bounds(3,4) by (simp add: m4_def m3_def m1_def relative_error_def field_simps)
  finally show ?thesis .
qed

section \<open>Properties\<close>

text \<open>Under any monotone rounding that keeps zero, no sequence of pacer calls makes the debt negative
  or lets a sent packet push it over the configured maximum.\<close>
theorem pacer_debt_bounds:
  assumes "rounding fl" "0 \<le> media_debt_bytes p"
  shows "0 \<le> media_debt_bytes (updateBudget fl now q p) \<and> 0 \<le> media_debt_bytes (onBlocked fl n q now p)
    \<and> 0 \<le> media_debt_bytes (onPacketSent fl n acc q now p)
    \<and> (acc \<and> p_enabled (p_config p) \<and> 0 < p_pacing_bps (p_config p) \<longrightarrow>
        media_debt_bytes (onPacketSent fl n acc q now p) \<le> maxDebtBytes fl (updateBudget fl now q p) q)"
  using updateBudget_ok[OF assms(1), of p now q] onPacketSent_ok[OF assms(1), of p n acc q now]
    onBlocked_ok[OF assms(1), of p n q now] assms(2)
  by (simp add: debt_ok_def) (simp add: onPacketSent_def Let_def)

theorem pacer_debt_bounds_witness: "0 \<le> media_debt_bytes (onBlocked (\<lambda>x. x) 1200 0 5 (Pacer_init 0))"
  using pacer_debt_bounds[OF rounding_id(2), of "Pacer_init 0"] by (simp add: Pacer_init_def)

text \<open>The adjusted rate lies between the configured rate and that rate times the drain multiplier
  (exact arithmetic, product below 2^64), however long the queue.\<close>
theorem pacer_rate_bounds:
  assumes "pacing_on p"
  shows "p_pacing_bps (p_config p) \<le> adjustedRateBps (\<lambda>x. x) p q
    \<and> of_nat (unat (adjustedRateBps (\<lambda>x. x) p q)) \<le> of_nat (unat (p_pacing_bps (p_config p))) * max_drain_multiplier (p_config p)"
  using adjustedRate_exact[OF assms, of q] by (simp add: word_le_nat_alt)

definition sample_pacer :: "double \<Rightarrow> WebRtcLikePacer" where
  "sample_pacer debt = Pacer_init 0\<lparr>p_config := PacerConfig_default\<lparr>p_pacing_bps := 8000000\<rparr>, media_debt_bytes := debt\<rparr>"

lemma sample_pacer_on: "pacing_on (sample_pacer d)"
  by (simp add: pacing_on_def sample_pacer_def Pacer_init_def PacerConfig_default_def)

theorem pacer_rate_bounds_witness: "8000000 \<le> adjustedRateBps (\<lambda>x. x) (sample_pacer 0) 300000"
  using pacer_rate_bounds[OF sample_pacer_on[of 0], of 300000] by (simp add: sample_pacer_def PacerConfig_default_def)



text \<open>C19: The wait is neither too short nor too long, with every operation rounded as doubles are. If the
  pacer asks to wait \<open>w\<close> microseconds, less than its two-second accounting window, then one microsecond after
  they have passed the packet may go, however the queue has changed meanwhile, if only the rate adjusted to
  it is not lower; and with at least one microsecond since the last update, \<open>w\<close> is at most the configured
  maximal debt and one microsecond.\<close>
theorem pacer_wait_suffices:
  assumes "double_rounding fl" "last_process_tp p \<le> now" "timeUntilNextSend fl q acc now p = (w, p1)"
    and "0 < w" "now + 1000 * (w + 1) \<le> later" "adjustedRateBps fl p q \<le> adjustedRateBps fl p q'"
  shows "(w < 2000000 \<longrightarrow> fst (timeUntilNextSend fl q' acc later p1) = 0)
    \<and> (last_process_tp p + 1000 \<le> now \<longrightarrow> w \<le> 1000 * int (unat (max_debt_ms (p_config p))) + 1)"
proof -
  note d = double_roundingD[OF assms(1)]
  define R where "R = rate_of fl (adjustedRateBps fl p q)"
  define B where "B = allowedBurstBytes fl p1 q"
  define x where "x = media_debt_bytes p1 - B"
  have p1: "p1 = updateBudget fl now q p" using assms(3) by (auto simp: timeUntilNextSend_def Let_def split: if_splits)
  have rate: "rateBytesPerSec fl p1 q = R" unfolding p1 R_def by (rule rate_after_update[OF assms(2)])
  have w: "0 < x" "0 < R" "w = ceiling (max 0 (fl (fl (fl x * 1000000) / R)))"
    using assms(3,4) p1 rate by (auto simp: timeUntilNextSend_def Let_def x_def B_def split: if_splits)
  have R: "1 / 32 \<le> R" using rate_of_bounds[OF assms(1)] w(2) by (simp add: R_def)
  have B: "0 \<le> B" unfolding B_def by (rule burst_nonneg[OF d(1)])
  have wle: "w = ceiling (fl (fl (fl x * 1000000) / R))" using w(3) assms(4) by (simp add: max_def split: if_splits)
  have c1: "p_config p1 = p_config p" "last_process_tp p1 = now" using assms(2) by (auto simp: p1 updateBudget_def Let_def)
  have "fst (timeUntilNextSend fl q' acc later p1) = 0" if w2: "w < 2000000"
  proof -
    define u where "u = x * 1000000 / R"
    have u: "R * (u / 1000000) = x" "0 \<le> u" using w(1,2) by (simp_all add: u_def)
    have "u * (1 - relative_error) ^ 3 - 1 / 1000 \<le> of_int w"
      using wait_lower[OF assms(1) R u(2)] le_of_int_ceiling order_trans unfolding u(1) wle by blast
    then have u2: "u \<le> (of_int w + 1) * (1 - relative_error) ^ 3 - 1 / 1000"
      using w2 assms(4) by (intro one_more_suffices) simp_all
    have l: "last_process_tp p1 + 1000 \<le> later" "last_process_tp p1 \<le> later" using assms(4,5) c1(2) by auto
    define E where "E = min (fl (of_int ((later - last_process_tp p1) div 1000))) 2000000"
    have "1000 * (w + 1) div 1000 \<le> (later - last_process_tp p1) div 1000"
      using assms(5) c1(2) by (intro zdiv_mono1) simp_all
    then have "w + 1 \<le> (later - last_process_tp p1) div 1000" by simp
    then have "of_int (w + 1) \<le> (of_int ((later - last_process_tp p1) div 1000) :: double)" by (simp only: of_int_le_iff)
    then have f: "fl (of_int (w + 1)) \<le> fl (of_int ((later - last_process_tp p1) div 1000))" by (rule monoD[OF d(2)])
    have "(of_int w + 1) * (1 - relative_error) - absolute_error \<le> fl (of_int (w + 1))"
      using fl_error(1)[OF assms(1), of "of_int (w + 1)"] assms(4) by simp
    moreover have "(of_int w + 1) * (1 - relative_error) - absolute_error \<le> 2000000"
      using mult_mono[of "of_int w + 1" 2000000 "1 - relative_error" 1] w2 error_bounds by simp
    moreover have "0 \<le> fl (of_int (w + 1))" using assms(4) by (intro fl_nonneg[OF d(1)]) simp
    ultimately have E: "(of_int w + 1) * (1 - relative_error) - absolute_error \<le> E" "0 \<le> E"
      using f by (simp_all add: E_def)
    define R' where "R' = rate_of fl (adjustedRateBps fl p q')"
    have "R \<le> R'" unfolding R_def R'_def by (rule rate_of_mono[OF d(2) assms(6)])
    have a: "adjustedRateBps fl p1 q' = adjustedRateBps fl p q'" by (rule adjustedRate_cong[OF c1(1)])
    let ?p2 = "updateBudget fl later q' p1"
    have rate2: "rateBytesPerSec fl ?p2 q' = R'" using rate_after_update[OF l(2), of fl q'] by (simp add: a R'_def)
    have B2: "B \<le> allowedBurstBytes fl ?p2 q'"
      unfolding B_def using \<open>R \<le> R'\<close> by (intro burst_mono[OF d(1)]) (simp_all add: rate rate2)
    have "x \<le> R * (((of_int w + 1) * (1 - relative_error) ^ 3 - 1 / 1000) / 1000000)"
      unfolding u(1)[symmetric] using u2 w(2) by (intro mult_left_mono divide_right_mono) simp_all
    also have "\<dots> \<le> fl (fl (R * E) / 1000000)" by (rule spent_lower[OF assms(1) R E(2,1)])
    also have "\<dots> \<le> fl (fl (R' * E) / 1000000)"
      using \<open>R \<le> R'\<close> E(2) by (intro monoD[OF d(2)] divide_right_mono mult_right_mono) simp_all
    finally have "media_debt_bytes p1 - fl (fl (R' * E) / 1000000) \<le> B" by (simp add: x_def)
    then have "fl (media_debt_bytes p1 - fl (fl (R' * E) / 1000000)) \<le> fl B" by (rule monoD[OF d(2)])
    also have "fl B = B" by (auto simp: B_def allowedBurstBytes_def Let_def d(3) min_def)
    finally have "clampD (fl (media_debt_bytes p1 - fl (fl (R' * E) / 1000000))) 0 (maxDebtBytes fl ?p2 q') \<le> B"
      by (intro clampD_le maxDebt_nonneg[OF d(1)] B)
    moreover have "media_debt_bytes ?p2 = clampD (fl (media_debt_bytes p1 - fl (fl (R' * E) / 1000000))) 0 (maxDebtBytes fl ?p2 q')"
      using updateBudget_debt[OF l(1), of fl q'] w(2) \<open>R \<le> R'\<close>
      by (simp add: a Let_def maxDebtBytes_def rate2 flip: R'_def E_def)
    ultimately have "media_debt_bytes ?p2 \<le> allowedBurstBytes fl ?p2 q'" using B2 by linarith
    then show ?thesis by (simp add: timeUntilNextSend_def Let_def)
  qed
  moreover have "w \<le> 1000 * int (unat (max_debt_ms (p_config p))) + 1" if l: "last_process_tp p + 1000 \<le> now"
  proof -
    let ?m = "unat (max_debt_ms (p_config p))"
    have "?m \<le> 2 ^ 32" using unsigned_less[of "max_debt_ms (p_config p)", where 'a = nat] by (simp add: less_imp_le)
    then have m: "(of_nat ?m :: double) \<le> 2 ^ 32" by (metis of_nat_le_iff of_nat_numeral of_nat_power)
    have "media_debt_bytes p1 \<le> fl (fl (R * fl (of_nat ?m)) / 1000)"
      using updateBudget_debt[OF l, of fl q] w(2)
        clampD_bounds[of 0 "fl (fl (R * nat_dbl fl ?m) / 1000)"]
      by (simp add: p1 R_def Let_def fl_nonneg[OF d(1)])
    then have "fl (fl (fl x * 1000000) / R) \<le> 1000 * of_nat ?m + 1"
      using w(1) B m by (intro wait_upper[OF assms(1) R]) (simp_all add: x_def)
    also have "\<dots> = of_int (1000 * int ?m + 1)" by simp
    finally show ?thesis unfolding wle by (simp only: ceiling_le_iff)
  qed
  ultimately show ?thesis by blast
qed

theorem pacer_wait_suffices_witness:
  "fst (timeUntilNextSend (\<lambda>x. x) 0 True 2000000 (sample_pacer 4000)) = 1000
   \<and> fst (timeUntilNextSend (\<lambda>x. x) 70000 True 3001000 (snd (timeUntilNextSend (\<lambda>x. x) 0 True 2000000 (sample_pacer 4000)))) = 0"
proof
  show *: "fst (timeUntilNextSend (\<lambda>x. x) 0 True 2000000 (sample_pacer 4000)) = 1000"
    by (simp add: timeUntilNextSend_def updateBudget_def adjustedRateBps_def rateBytesPerSec_def allowedBurstBytes_def
        maxDebtBytes_def clampD_def Let_def sample_pacer_def Pacer_init_def PacerConfig_default_def kMaxLowLatencyBurstWindowMs_def)
  have "adjustedRateBps (\<lambda>x. x) (sample_pacer 4000) 0 \<le> adjustedRateBps (\<lambda>x. x) (sample_pacer 4000) 70000"
    by (simp add: adjustedRateBps_def Let_def clampD_def sample_pacer_def Pacer_init_def PacerConfig_default_def)
  then show "fst (timeUntilNextSend (\<lambda>x. x) 70000 True 3001000 (snd (timeUntilNextSend (\<lambda>x. x) 0 True 2000000 (sample_pacer 4000)))) = 0"
    using pacer_wait_suffices[OF double_rounding_id, of "sample_pacer 4000" 2000000 0 True 1000 _ 3001000 70000] *
    by (cases "timeUntilNextSend (\<lambda>x. x) 0 True 2000000 (sample_pacer 4000)") (simp add: sample_pacer_def Pacer_init_def)
qed

end
