(* ===== verification/ControlPlane.thy ===== *)
theory ControlPlane
  imports Prelude
begin

text \<open>
  \<open>src/src/udp/control_plane.cpp\<close>: the HELLO / ACK / PING handshake. One iteration of the thread's
  loop is one function; its clock readings (\<open>now\<close> at the top, \<open>now_us\<close> at the time-out check, \<open>now2\<close>
  on the roll-back, all nanoseconds but \<open>now_us\<close>) and the two messages the callbacks would build are its
  inputs, what it sends, reports or sleeps its outputs. Operations of other threads come between
  iterations. \<open>fl\<close> is the rounding of doubles; a cast to an integer truncates.
\<close>

section \<open>State and operations\<close>

record ControlConfig =
  cc_enabled :: bool
  hello_interval_sec :: double
  ping_interval_sec :: double
  peer_lost_timeout_sec :: double

record ControlPlane =
  cp_config :: ControlConfig
  cp_functions_set :: bool
  cp_peer_lost_callback :: bool
  cp_running :: bool
  handshake_ready :: bool
  last_ack_steady_us :: int
  next_hello :: int
  next_ping :: int

datatype cp_output = Send string | PeerLost | SleepMs nat

record cp_input =
  ci_now :: int
  ci_now_us :: int
  ci_now2 :: int
  ci_hello :: string
  ci_ping :: string

definition truncD :: "double \<Rightarrow> int" where
  "truncD x = (if 0 \<le> x then floor x else ceiling x)"

definition ControlPlane_init :: "ControlConfig \<Rightarrow> ControlPlane" where
  "ControlPlane_init c = \<lparr>cp_config = c, cp_functions_set = False, cp_peer_lost_callback = False, cp_running = False,
     handshake_ready = False, last_ack_steady_us = 0, next_hello = 0, next_ping = 0\<rparr>"

definition setPeerLostCallback :: "bool \<Rightarrow> ControlPlane \<Rightarrow> ControlPlane" where
  "setPeerLostCallback b s = s\<lparr>cp_peer_lost_callback := b\<rparr>"

text \<open>\<open>start\<close> also runs the thread up to its loop: the two deadlines are the clock at that time.\<close>

definition cp_start :: "int \<Rightarrow> ControlPlane \<Rightarrow> ControlPlane" where
  "cp_start now s =
     (if cp_running s then s
      else s\<lparr>cp_running := True, cp_functions_set := True, handshake_ready := False, last_ack_steady_us := 0,
             next_hello := now, next_ping := now\<rparr>)"

definition cp_stop :: "ControlPlane \<Rightarrow> ControlPlane" where
  "cp_stop s = (if \<not> cp_running s then s else s\<lparr>cp_running := False\<rparr>)"

definition onAckReceived :: "int \<Rightarrow> ControlPlane \<Rightarrow> ControlPlane" where
  "onAckReceived now_us s = s\<lparr>last_ack_steady_us := now_us, handshake_ready := True\<rparr>"

definition onPeerActivity :: "int \<Rightarrow> ControlPlane \<Rightarrow> ControlPlane" where
  "onPeerActivity now_us s = (if handshake_ready s then s\<lparr>last_ack_steady_us := now_us\<rparr> else s)"

definition handshakeReady :: "ControlPlane \<Rightarrow> bool" where
  "handshakeReady s = handshake_ready s"

definition resetHandshake :: "ControlPlane \<Rightarrow> ControlPlane" where
  "resetHandshake s = s\<lparr>handshake_ready := False, last_ack_steady_us := 0\<rparr>"

definition peer_lost_timeout_us :: "(double \<Rightarrow> double) \<Rightarrow> ControlConfig \<Rightarrow> int" where
  "peer_lost_timeout_us fl c = truncD (fl (peer_lost_timeout_sec c * 1000000))"

definition interval_ns :: "(double \<Rightarrow> double) \<Rightarrow> double \<Rightarrow> int" where
  "interval_ns fl sec = truncD (fl (sec * 1000)) * 1000000"

definition cp_iteration :: "(double \<Rightarrow> double) \<Rightarrow> cp_input \<Rightarrow> ControlPlane \<Rightarrow> cp_output list \<times> ControlPlane" where
  "cp_iteration fl i s =
     (if \<not> cc_enabled (cp_config s) then ([SleepMs 100], s)
      else if \<not> handshake_ready s
      then (if next_hello s \<le> ci_now i \<and> cp_functions_set s
            then ((if ci_hello i \<noteq> [] then [Send (ci_hello i)] else []) @ [SleepMs 20],
                  s\<lparr>next_hello := ci_now i + interval_ns fl (hello_interval_sec (cp_config s))\<rparr>)
            else ([SleepMs 20], s))
      else (let timeout = peer_lost_timeout_us fl (cp_config s); last_ack = last_ack_steady_us s
            in if 0 < timeout \<and> 0 < last_ack \<and> timeout < ci_now_us i - last_ack
               then ((if cp_peer_lost_callback s then [PeerLost] else []),
                     s\<lparr>handshake_ready := False, last_ack_steady_us := 0, next_hello := ci_now2 i\<rparr>)
               else if next_ping s \<le> ci_now i \<and> cp_functions_set s
               then ((if ci_ping i \<noteq> [] then [Send (ci_ping i)] else []) @ [SleepMs 20],
                     s\<lparr>next_ping := ci_now i + interval_ns fl (ping_interval_sec (cp_config s))\<rparr>)
               else ([SleepMs 20], s)))"

section \<open>Runs\<close>

inductive cp_step :: "(double \<Rightarrow> double) \<Rightarrow> ControlPlane \<Rightarrow> cp_output list \<Rightarrow> ControlPlane \<Rightarrow> bool"
  for fl where
  step_loop: "cp_running s \<Longrightarrow> cp_iteration fl i s = (out, s') \<Longrightarrow> cp_step fl s out s'"
| step_start: "cp_step fl s [] (cp_start now s)"
| step_stop: "cp_step fl s [] (cp_stop s)"
| step_ack: "0 < now_us \<Longrightarrow> cp_step fl s [] (onAckReceived now_us s)"
| step_activity: "0 < now_us \<Longrightarrow> cp_step fl s [] (onPeerActivity now_us s)"
| step_reset: "cp_step fl s [] (resetHandshake s)"
| step_callback: "cp_step fl s [] (setPeerLostCallback b s)"

inductive_cases cp_step_cases: "cp_step fl s out s'"

inductive cp_reachable :: "(double \<Rightarrow> double) \<Rightarrow> ControlConfig \<Rightarrow> ControlPlane \<Rightarrow> bool" for fl c where
  cp_init: "cp_reachable fl c (ControlPlane_init c)"
| cp_next: "cp_reachable fl c s \<Longrightarrow> cp_step fl s out s' \<Longrightarrow> cp_reachable fl c s'"

lemmas cp_ops = cp_start_def cp_stop_def onAckReceived_def onPeerActivity_def resetHandshake_def setPeerLostCallback_def

definition cp_ok :: "ControlConfig \<Rightarrow> ControlPlane \<Rightarrow> bool" where
  "cp_ok c s \<longleftrightarrow> cp_config s = c \<and> (handshake_ready s \<longrightarrow> 0 < last_ack_steady_us s) \<and> (cp_running s \<longrightarrow> cp_functions_set s)"

lemma cp_iteration_ok: "cp_ok c s \<Longrightarrow> cp_iteration fl i s = (out, s') \<Longrightarrow> cp_ok c s'"
  by (auto simp: cp_iteration_def cp_ok_def Let_def split: if_splits)

lemma cp_step_ok: "cp_step fl s out s' \<Longrightarrow> cp_ok c s \<Longrightarrow> cp_ok c s'"
  by (erule cp_step_cases) (auto intro: cp_iteration_ok, auto simp: cp_ok_def cp_ops)

lemma cp_reachable_ok: "cp_reachable fl c s \<Longrightarrow> cp_ok c s"
  by (induction rule: cp_reachable.induct) (auto intro: cp_step_ok, simp add: cp_ok_def ControlPlane_init_def)

section \<open>Properties\<close>

text \<open>What an iteration sends is decided by the handshake state: a HELLO only while no ACK stands
  and not before its deadline, a PING only while one does and not before its own; in either case the
  deadline then moves one interval past the time of sending, and the handshake state is unchanged.\<close>
theorem cp_sends_by_phase:
  assumes "cp_iteration fl i s = (out, s')" "Send m \<in> set out"
  shows "cc_enabled (cp_config s) \<and> handshake_ready s' = handshake_ready s \<and>
    (if handshake_ready s
     then m = ci_ping i \<and> next_ping s \<le> ci_now i \<and> next_ping s' = ci_now i + interval_ns fl (ping_interval_sec (cp_config s))
     else m = ci_hello i \<and> next_hello s \<le> ci_now i \<and> next_hello s' = ci_now i + interval_ns fl (hello_interval_sec (cp_config s)))"
  using assms by (auto simp: cp_iteration_def Let_def split: if_splits)

definition sample_config :: ControlConfig where
  "sample_config = \<lparr>cc_enabled = True, hello_interval_sec = 1, ping_interval_sec = 5, peer_lost_timeout_sec = 2\<rparr>"

definition sample_input :: cp_input where
  "sample_input = \<lparr>ci_now = 7000000, ci_now_us = 9000000, ci_now2 = 7000001, ci_hello = ''HELLO'', ci_ping = ''PING''\<rparr>"

theorem cp_sends_by_phase_witness:
  "next_hello (snd (cp_iteration (\<lambda>x. x) sample_input (cp_start 5 (ControlPlane_init sample_config))))
    = 7000000 + interval_ns (\<lambda>x. x) 1"
proof -
  let ?s = "cp_start 5 (ControlPlane_init sample_config)"
  have "Send ''HELLO'' \<in> set (fst (cp_iteration (\<lambda>x. x) sample_input ?s))"
    by (simp add: cp_iteration_def cp_start_def ControlPlane_init_def sample_config_def sample_input_def)
  from cp_sends_by_phase[OF prod.collapse[symmetric] this] show ?thesis
    by (simp add: cp_start_def ControlPlane_init_def sample_config_def sample_input_def)
qed

text \<open>A silent peer is noticed and the handshake restarts. In every reachable running state that
  counts the peer as present, if the configured time-out is positive and has passed since the last sign
  of the peer, the next iteration rolls back to the hello phase and reports the loss once (when a
  callback is set), and the iteration after it, if no ACK came, sends a HELLO at once. Clock readings
  are positive.\<close>
theorem cp_peer_loss_detected:
  assumes "cp_reachable fl c s" "cp_running s" "cc_enabled c" "handshake_ready s"
    and "0 < peer_lost_timeout_us fl c" "peer_lost_timeout_us fl c < ci_now_us i - last_ack_steady_us s"
    and "ci_now2 i \<le> ci_now j" "ci_hello j \<noteq> []"
  shows "\<exists>s1 s2. cp_iteration fl i s = ((if cp_peer_lost_callback s then [PeerLost] else []), s1)
    \<and> \<not> handshakeReady s1 \<and> cp_iteration fl j s1 = ([Send (ci_hello j), SleepMs 20], s2) \<and> \<not> handshakeReady s2"
  using cp_reachable_ok[OF assms(1)] assms(2-8)
  by (simp add: cp_iteration_def cp_ok_def Let_def handshakeReady_def)

definition sample_ready :: ControlPlane where
  "sample_ready = onAckReceived 1000 (cp_start 5 (ControlPlane_init sample_config))"

theorem cp_peer_loss_detected_witness:
  "fst (cp_iteration (\<lambda>x. x) (sample_input\<lparr>ci_now := 8000000\<rparr>) (snd (cp_iteration (\<lambda>x. x) sample_input sample_ready)))
    = [Send ''HELLO'', SleepMs 20]"
proof -
  have "cp_reachable (\<lambda>x. x) sample_config sample_ready"
    unfolding sample_ready_def by (rule cp_next[OF cp_next[OF cp_init step_start] step_ack]) simp
  from cp_peer_loss_detected[OF this, of sample_input "sample_input\<lparr>ci_now := 8000000\<rparr>"] show ?thesis
    by (auto simp: sample_ready_def sample_config_def sample_input_def onAckReceived_def cp_start_def
        ControlPlane_init_def peer_lost_timeout_us_def truncD_def)
qed

end
