(* ===== verification/UdpManager.thy ===== *)
theory UdpManager
  imports Fec PacketCodec SendQueue Pacer ControlPlane
begin

text \<open>
  \<open>src/src/udp/udp_manager.cpp\<close>: the object that owns the socket, the codec, the send queue, the
  pacer, the control plane and the FEC encoder, and the three threads that use them. A public method
  is one function of the state; each thread is a function for one pass of its loop, given what the
  outside supplies during it (clock readings, what the socket answered, the queue calls other threads
  made meanwhile). The encoder is reached through its interface, so its two operations are the
  arguments \<open>get_params\<close> and \<open>parity_into\<close>, and \<open>'c\<close> is its state. Statistics that feed only log lines
  are left out.
\<close>

section \<open>Configuration and state\<close>

record UdpConfig =
  remote_ip :: string
  remote_port :: int
  device_id :: string
  bind_ip :: string
  bind_port :: int
  enable_receive :: bool
  control_enabled :: bool
  control_hello_interval_sec :: double
  control_ping_interval_sec :: double
  control_peer_lost_timeout_sec :: double
  max_payload_bytes :: nat
  send_nonblocking :: bool
  recv_timeout_ms :: int
  pacing_enabled :: bool
  pacing_bps :: u64
  pacing_send_burst_interval_ms :: u32
  pacing_max_burst_bytes :: nat
  pacing_max_debt_ms :: u32
  pacing_queue_time_limit_ms :: u32
  pacing_max_drain_multiplier :: double
  pacing_account_audio :: bool
  pacing_max_packets_per_batch :: u32
  queue_max_bytes :: nat
  queue_max_packets :: nat
  fec_table_id :: u8
  fec_input_queue_max_frames :: nat
  send_buffer_bytes :: int

definition UdpConfig_default :: UdpConfig where
  "UdpConfig_default = \<lparr>remote_ip = [], remote_port = 0, device_id = [], bind_ip = ''0.0.0.0'', bind_port = 0,
     enable_receive = True, control_enabled = True, control_hello_interval_sec = 1,
     control_ping_interval_sec = 5, control_peer_lost_timeout_sec = 0, max_payload_bytes = 1200,
     send_nonblocking = True, recv_timeout_ms = 100, pacing_enabled = True, pacing_bps = 0,
     pacing_send_burst_interval_ms = 5, pacing_max_burst_bytes = 63000, pacing_max_debt_ms = 500,
     pacing_queue_time_limit_ms = 150, pacing_max_drain_multiplier = 2, pacing_account_audio = False,
     pacing_max_packets_per_batch = 64, queue_max_bytes = 300000, queue_max_packets = 0, fec_table_id = 1,
     fec_input_queue_max_frames = 2, send_buffer_bytes = 0\<rparr>"

record InputFrame =
  f_data :: bytes
  f_capture_timestamp_us :: u64
  f_ntp_timestamp :: u64
  f_enqueue_steady_us :: u64
  f_keyframe :: bool

record Counters =
  video_input_frames :: u64
  video_input_bytes :: u64
  video_input_drops :: u64
  cap_to_fec_us_total :: u64
  cap_to_fec_samples :: u64
  fec_internal_wait_us_total :: u64
  fec_internal_wait_samples :: u64
  fec_compute_us_total :: u64
  fec_compute_samples :: u64
  fec_output_packets :: u64
  sent_video_frames :: u64
  sent_video_packets :: u64
  sent_video_bytes :: u64
  send_block_events :: u64
  send_drop_packets :: u64
  queue_delay_us_total :: u64
  queue_delay_samples :: u64
  tail_queue_delay_us_total :: u64
  tail_queue_delay_samples :: u64
  pacing_us_total :: u64
  send_syscall_us_total :: u64
  end_to_end_us_total :: u64
  end_to_end_samples :: u64
  pacer_debt_us :: u64
  pacer_expected_queue_us :: u64
  pacer_adjusted_bps :: u64

definition Counters_zero :: Counters where
  "Counters_zero = \<lparr>video_input_frames = 0, video_input_bytes = 0, video_input_drops = 0, cap_to_fec_us_total = 0,
     cap_to_fec_samples = 0, fec_internal_wait_us_total = 0, fec_internal_wait_samples = 0, fec_compute_us_total = 0,
     fec_compute_samples = 0, fec_output_packets = 0, sent_video_frames = 0, sent_video_packets = 0,
     sent_video_bytes = 0, send_block_events = 0, send_drop_packets = 0, queue_delay_us_total = 0,
     queue_delay_samples = 0, tail_queue_delay_us_total = 0, tail_queue_delay_samples = 0, pacing_us_total = 0,
     send_syscall_us_total = 0, end_to_end_us_total = 0, end_to_end_samples = 0, pacer_debt_us = 0,
     pacer_expected_queue_us = 0, pacer_adjusted_bps = 0\<rparr>"

record 'c UdpManager =
  m_config :: UdpConfig
  m_running :: bool
  m_handshake_flag :: bool
  m_codec :: PacketCodec
  m_queue :: Queue
  m_pacer :: WebRtcLikePacer
  m_control :: ControlPlane
  m_fec :: 'c
  m_input :: "InputFrame list"
  frame_id :: u32
  packet_seq_num :: u16
  audio_group_id :: u32
  audio_seq_num :: u16
  telemetry_group_id :: u32
  telemetry_seq_num :: u16
  m_counters :: Counters
  m_session_id :: string
  m_has_callback :: bool

definition kAudioStreamKey :: u32 where "kAudioStreamKey = 1"
definition kVideoStreamKey :: u32 where "kVideoStreamKey = 2"
definition kTelemetryStreamKey :: u32 where "kTelemetryStreamKey = 3"
definition kAudioPriority :: u8 where "kAudioPriority = 0"
definition kVideoPriority :: u8 where "kVideoPriority = 2"
definition kTelemetryPriority :: u8 where "kTelemetryPriority = 3"

definition makeWebRtcLikePacerConfig :: "UdpConfig \<Rightarrow> PacerConfig" where
  "makeWebRtcLikePacerConfig c = \<lparr>p_enabled = pacing_enabled c, p_pacing_bps = pacing_bps c,
     send_burst_interval_ms = pacing_send_burst_interval_ms c, max_burst_bytes = pacing_max_burst_bytes c,
     max_debt_ms = pacing_max_debt_ms c, queue_time_limit_ms = pacing_queue_time_limit_ms c,
     max_drain_multiplier = pacing_max_drain_multiplier c\<rparr>"

text \<open>The two 80-bit operations are rounded by \<open>fl\<close>; the cast to an unsigned integer truncates.\<close>

definition defaultSendBufferBytes :: "(double \<Rightarrow> double) \<Rightarrow> UdpConfig \<Rightarrow> int" where
  "defaultSendBufferBytes fl c =
     (if pacing_enabled c \<and> 0 < pacing_bps c
      then clampI (floor (fl (fl (of_nat (unat (pacing_bps c)) * 50) / fl (8 * 1000)))) (256 * 1024) (1024 * 1024)
      else 512 * 1024)"

definition UdpManager_init :: "UdpConfig \<Rightarrow> 'c \<Rightarrow> int \<Rightarrow> 'c UdpManager" where
  "UdpManager_init c fec now =
     \<lparr>m_config = c, m_running = False, m_handshake_flag = False,
      m_codec = setDeviceId (PacketCodec_init (max_payload_bytes c)) (device_id c), m_queue = Queue_init,
      m_pacer = Pacer_init now,
      m_control = ControlPlane_init \<lparr>cc_enabled = control_enabled c, hello_interval_sec = control_hello_interval_sec c,
        ping_interval_sec = control_ping_interval_sec c, peer_lost_timeout_sec = control_peer_lost_timeout_sec c\<rparr>,
      m_fec = fec, m_input = [], frame_id = 0, packet_seq_num = 0, audio_group_id = 0, audio_seq_num = 0,
      telemetry_group_id = 0, telemetry_seq_num = 0, m_counters = Counters_zero, m_session_id = [], m_has_callback = False\<rparr>"

section \<open>Lifecycle and settings\<close>

text \<open>\<open>opened\<close>: what \<open>UdpSocket::open\<close> answered.\<close>

definition mgr_start :: "(double \<Rightarrow> double) \<Rightarrow> bool \<Rightarrow> int \<Rightarrow> 'c UdpManager \<Rightarrow> bool \<times> 'c UdpManager" where
  "mgr_start fl opened now m =
     (if m_running m then (True, m)
      else if \<not> opened then (False, m)
      else (True, m\<lparr>m_running := True,
        m_queue := setLimits (queue_max_packets (m_config m)) (queue_max_bytes (m_config m)) (m_queue m),
        m_pacer := pacer_reset now (setConfig fl (makeWebRtcLikePacerConfig (m_config m)) (m_pacer m)),
        m_control := cp_start now (m_control m)\<rparr>))"

definition mgr_stop :: "'c UdpManager \<Rightarrow> 'c UdpManager" where
  "mgr_stop m =
     (if \<not> m_running m then m
      else m\<lparr>m_running := False, m_control := cp_stop (m_control m), m_queue := SendQueue.stop (m_queue m), m_input := []\<rparr>)"

definition mgr_setSessionId :: "string \<Rightarrow> 'c UdpManager \<Rightarrow> 'c UdpManager" where
  "mgr_setSessionId s m = m\<lparr>m_session_id := s, m_codec := setSessionId (m_codec m) s\<rparr>"

definition resetSession :: "int \<Rightarrow> 'c UdpManager \<Rightarrow> 'c UdpManager" where
  "resetSession now m =
     (if \<not> m_running m then m
      else m\<lparr>m_input := [], m_queue := SendQueue.clear (m_queue m), m_pacer := pacer_reset now (m_pacer m),
             m_control := resetHandshake (m_control m), packet_seq_num := 0, frame_id := 0, audio_group_id := 0,
             audio_seq_num := 0, telemetry_group_id := 0, telemetry_seq_num := 0\<rparr>)"

definition setDatagramCallback :: "bool \<Rightarrow> 'c UdpManager \<Rightarrow> 'c UdpManager" where
  "setDatagramCallback b m = m\<lparr>m_has_callback := b\<rparr>"

definition setPacingEnabled :: "(double \<Rightarrow> double) \<Rightarrow> bool \<Rightarrow> 'c UdpManager \<Rightarrow> 'c UdpManager" where
  "setPacingEnabled fl b m = (let c = (m_config m)\<lparr>pacing_enabled := b\<rparr>
     in m\<lparr>m_config := c, m_pacer := setConfig fl (makeWebRtcLikePacerConfig c) (m_pacer m)\<rparr>)"

definition setPacingRateBps :: "(double \<Rightarrow> double) \<Rightarrow> u64 \<Rightarrow> 'c UdpManager \<Rightarrow> 'c UdpManager" where
  "setPacingRateBps fl bps m = (let c = (m_config m)\<lparr>pacing_bps := bps\<rparr>
     in m\<lparr>m_config := c, m_pacer := setConfig fl (makeWebRtcLikePacerConfig c) (m_pacer m)\<rparr>)"

definition setQueueLimits :: "nat \<Rightarrow> nat \<Rightarrow> 'c UdpManager \<Rightarrow> 'c UdpManager" where
  "setQueueLimits packets n m = m\<lparr>m_config := (m_config m)\<lparr>queue_max_packets := packets, queue_max_bytes := n\<rparr>,
     m_queue := setLimits packets n (m_queue m)\<rparr>"

definition setFecTableId :: "u8 \<Rightarrow> 'c UdpManager \<Rightarrow> 'c UdpManager" where
  "setFecTableId t m = m\<lparr>m_config := (m_config m)\<lparr>fec_table_id := t\<rparr>\<rparr>"

definition isHandshakeReady :: "'c UdpManager \<Rightarrow> bool" where
  "isHandshakeReady m = (if \<not> control_enabled (m_config m) then True else handshakeReady (m_control m))"

text \<open>NTP time: \<open>us\<close> is the system clock in microseconds since 1970.\<close>

definition currentNtpTimestamp :: "(double \<Rightarrow> double) \<Rightarrow> nat \<Rightarrow> u64" where
  "currentNtpTimestamp fl us =
     (let seconds = us div 1000000; microseconds = us mod 1000000;
          ntp_seconds = of_nat (seconds + 2208988800) :: u32;
          ntp_fraction = of_int (floor (fl (fl (fl (of_nat microseconds) * 4294967296) / 1000000))) :: u32
      in push_bit 32 (ucast ntp_seconds) OR ucast ntp_fraction)"

section \<open>Producers\<close>

definition may_send :: "'c UdpManager \<Rightarrow> bool" where
  "may_send m \<longleftrightarrow> m_running m \<and> \<not> (control_enabled (m_config m) \<and> \<not> handshakeReady (m_control m))"

definition count :: "(Counters \<Rightarrow> Counters) \<Rightarrow> 'c UdpManager \<Rightarrow> 'c UdpManager" where
  "count f m = m\<lparr>m_counters := f (m_counters m)\<rparr>"

definition sendAudioPacket :: "u64 \<Rightarrow> bytes option \<Rightarrow> u64 \<Rightarrow> 'c UdpManager \<Rightarrow> 'c UdpManager" where
  "sendAudioPacket now_us data timestamp_ntp m =
     (if \<not> may_send m then m
      else (case data of
        None \<Rightarrow> m
      | Some d \<Rightarrow>
          if d = [] then m
          else if max_payload_bytes (m_config m) \<le> 11 \<or> max_payload_bytes (m_config m) - 11 < length d then m
          else (let header = \<lparr>a_Type = kAudioPacketType, a_Seq = audio_seq_num m, a_TimestampNtp = timestamp_ntp\<rparr>;
                    packet = buildAudioPacket header d;
                    item = QueueItem_default\<lparr>kind := Datagram, stream := Audio, group_id := audio_group_id m,
                      packet_seq := a_Seq header, stream_key := kAudioStreamKey, priority := kAudioPriority,
                      pacing_accounted := pacing_account_audio (m_config m), enqueue_steady_us := now_us,
                      item_bytes := packet, wire_bytes := length packet\<rparr>
                in m\<lparr>audio_seq_num := audio_seq_num m + 1, audio_group_id := audio_group_id m + 1,
                     m_queue := push item (m_queue m)\<rparr>)))"

text \<open>The two telemetry senders differ in the type byte and the packet they build.\<close>

definition send_telemetry :: "u8 \<Rightarrow> (PacketCodec \<Rightarrow> TelemetryPacketHeaderV1 \<Rightarrow> bytes) \<Rightarrow> u64 \<Rightarrow> u64 \<Rightarrow> 'c UdpManager \<Rightarrow> 'c UdpManager" where
  "send_telemetry ty build now_ms now_us m =
     (if \<not> may_send m then m
      else (let header = \<lparr>t_Type = ty, t_Seq = telemetry_seq_num m, t_TxTimestampMs = now_ms,
                  t_SessionId = m_session_id m, t_DeviceId = device_id (m_config m)\<rparr>;
                packet = build (m_codec m) header;
                item = QueueItem_default\<lparr>kind := Datagram, stream := Other, group_id := telemetry_group_id m,
                  packet_seq := t_Seq header, stream_key := kTelemetryStreamKey, priority := kTelemetryPriority,
                  pacing_accounted := True, enqueue_steady_us := now_us, item_bytes := packet\<rparr>;
                m1 = m\<lparr>telemetry_seq_num := telemetry_seq_num m + 1, telemetry_group_id := telemetry_group_id m + 1\<rparr>
            in if 0 < max_payload_bytes (m_config m) \<and> max_payload_bytes (m_config m) < length packet then m1
               else m1\<lparr>m_queue := push (item\<lparr>wire_bytes := length packet\<rparr>) (m_queue m)\<rparr>))"

definition sendRobotTelemetry :: "u64 \<Rightarrow> u64 \<Rightarrow> RobotTelemetrySnapshot \<Rightarrow> 'c UdpManager \<Rightarrow> 'c UdpManager" where
  "sendRobotTelemetry now_ms now_us s m =
     send_telemetry kRobotTelemetryLowRateType (\<lambda>c h. buildRobotTelemetryPacket c h s) now_ms now_us m"

definition sendRobotJointTelemetry :: "u64 \<Rightarrow> u64 \<Rightarrow> RobotJointTelemetrySnapshot \<Rightarrow> 'c UdpManager \<Rightarrow> 'c UdpManager" where
  "sendRobotJointTelemetry now_ms now_us s m =
     send_telemetry kRobotTelemetryHighRateType (\<lambda>c h. buildRobotJointTelemetryPacket c h s) now_ms now_us m"

text \<open>The eviction loop of the input queue: the oldest non-keyframe, or else the oldest frame.\<close>

definition evict_victim :: "InputFrame list \<Rightarrow> nat" where
  "evict_victim q = (case find_if (\<lambda>f. \<not> f_keyframe f) q of Some i \<Rightarrow> i | None \<Rightarrow> 0)"

function evict_loop :: "nat \<Rightarrow> InputFrame list \<Rightarrow> nat \<Rightarrow> InputFrame list \<times> nat" where
  "evict_loop limit q dropped =
     (if limit \<le> length q \<and> q \<noteq> [] then evict_loop limit (erase_at (evict_victim q) q) (dropped + 1) else (q, dropped))"
  by pat_completeness auto

lemma evict_victim_less: "q \<noteq> [] \<Longrightarrow> evict_victim q < length q"
  by (auto simp: evict_victim_def split: option.splits dest: find_if_Some)

termination evict_loop
  by (relation "measure (\<lambda>(limit, q, d). length q)") (auto simp: length_erase_at evict_victim_less)

declare evict_loop.simps [simp del]

definition sendH264Frame :: "u64 \<Rightarrow> u64 \<Rightarrow> bytes option \<Rightarrow> u64 \<Rightarrow> bool \<Rightarrow> 'c UdpManager \<Rightarrow> 'c UdpManager" where
  "sendH264Frame ntp now_us data capture_timestamp_us keyframe m =
     (if \<not> may_send m then m
      else (case data of
        None \<Rightarrow> m
      | Some d \<Rightarrow>
          if d = [] then m
          else (let frame = \<lparr>f_data = d, f_capture_timestamp_us = capture_timestamp_us, f_ntp_timestamp = ntp,
                      f_enqueue_steady_us = now_us, f_keyframe = keyframe\<rparr>;
                    (q, dropped) = evict_loop (max 1 (fec_input_queue_max_frames (m_config m))) (m_input m) 0;
                    m1 = m\<lparr>m_input := q @ [frame]\<rparr>
                in count (\<lambda>c. c\<lparr>video_input_frames := video_input_frames c + 1,
                               video_input_bytes := video_input_bytes c + of_nat (length d),
                               video_input_drops := video_input_drops c + of_nat dropped\<rparr>) m1)))"

section \<open>The FEC thread\<close>

definition source_item :: "'c UdpManager \<Rightarrow> InputFrame \<Rightarrow> u16 \<Rightarrow> bool \<Rightarrow> u64 \<Rightarrow> nat \<Rightarrow> QueueItem" where
  "source_item m frame total_fragments fec_enabled now_us index =
     (let max_payload = maxPayloadBytes (m_codec m);
          offset = index * max_payload;
          chunk_size = min max_payload (length (f_data frame) - offset);
          header = \<lparr>v_Type = kVideoPacketType, v_PacketSeqNum = packet_seq_num m + of_nat index,
            v_Timestamp = f_ntp_timestamp frame, v_FrameId = frame_id m, v_FragmentIndex = of_nat index,
            v_TotalFragments = total_fragments, v_PayloadLength = of_nat chunk_size,
            v_FramePayloadLength = of_nat (length (f_data frame)),
            v_FecTableId = (if fec_enabled then fec_table_id (m_config m) else 0),
            v_KeyframeFlag = (if f_keyframe frame then 1 else 0)\<rparr>;
          packet = buildVideoPacket header (take chunk_size (drop offset (f_data frame)))
      in QueueItem_default\<lparr>kind := Datagram, stream := Video, group_id := frame_id m, packet_seq := v_PacketSeqNum header,
           stream_key := kVideoStreamKey, priority := kVideoPriority, pacing_accounted := True,
           is_keyframe := f_keyframe frame, is_fec_parity := False, enqueue_steady_us := now_us,
           frame_capture_steady_us := f_capture_timestamp_us frame, item_bytes := packet, wire_bytes := length packet\<rparr>)"

text \<open>The shell of parity packet \<open>k\<close>, counted row by row, with the payload the encoder wrote into it.\<close>

definition parity_item :: "'c UdpManager \<Rightarrow> InputFrame \<Rightarrow> u16 \<Rightarrow> u8 \<Rightarrow> u64 \<Rightarrow> nat \<Rightarrow> bytes \<Rightarrow> QueueItem" where
  "parity_item m frame total_fragments groups now_us k payload =
     (let symbol_bytes = maxPayloadBytes (m_codec m);
          parity = k div unat groups; grp = k mod unat groups;
          fragment_index = (ucast total_fragments + of_nat grp + of_nat parity * ucast groups :: u32);
          header = \<lparr>v_Type = kVideoPacketType,
            v_PacketSeqNum = packet_seq_num m + total_fragments + of_nat k,
            v_Timestamp = f_ntp_timestamp frame, v_FrameId = frame_id m,
            v_FragmentIndex = ucast (fragment_index AND 0xFFFF), v_TotalFragments = total_fragments,
            v_PayloadLength = of_nat symbol_bytes, v_FramePayloadLength = of_nat (length (f_data frame)),
            v_FecTableId = fec_table_id (m_config m), v_KeyframeFlag = (if f_keyframe frame then 1 else 0)\<rparr>;
          packet = buildVideoPacket header [] @ payload
      in QueueItem_default\<lparr>kind := Datagram, stream := Video, group_id := frame_id m, packet_seq := v_PacketSeqNum header,
           stream_key := kVideoStreamKey, priority := kVideoPriority, pacing_accounted := True,
           is_keyframe := f_keyframe frame, is_fec_parity := True, enqueue_steady_us := now_us,
           frame_capture_steady_us := f_capture_timestamp_us frame, item_bytes := packet, wire_bytes := length packet\<rparr>)"

definition end_item :: "'c UdpManager \<Rightarrow> InputFrame \<Rightarrow> u64 \<Rightarrow> QueueItem" where
  "end_item m frame now_us = QueueItem_default\<lparr>kind := GroupEnd, stream := Video, group_id := frame_id m,
     stream_key := kVideoStreamKey, priority := kVideoPriority, pacing_accounted := False,
     enqueue_steady_us := now_us, frame_capture_steady_us := f_capture_timestamp_us frame\<rparr>"

definition total_fragments_of :: "nat \<Rightarrow> nat \<Rightarrow> u16" where
  "total_fragments_of nsize max_payload = of_nat ((nsize + max_payload - 1) div max_payload)"

type_synonym 'c parity_fn =
  "bytes option \<Rightarrow> nat \<Rightarrow> u16 \<Rightarrow> u8 \<Rightarrow> u8 \<Rightarrow> nat \<Rightarrow> bytes option list \<Rightarrow> 'c \<Rightarrow> bytes option list \<times> 'c"

definition frame_batch ::
  "(u8 \<Rightarrow> u16 \<Rightarrow> bool \<times> u8 \<times> u8) \<Rightarrow> 'c parity_fn \<Rightarrow> u64 \<Rightarrow> InputFrame \<Rightarrow> 'c UdpManager \<Rightarrow> QueueItem list \<times> 'c" where
  "frame_batch get_params parity_into now_us frame m =
     (let data = f_data frame; max_payload = maxPayloadBytes (m_codec m);
          total_fragments = total_fragments_of (length data) max_payload;
          (fec_enabled, groups, r_per_group) = get_params (fec_table_id (m_config m)) total_fragments;
          sources = map (source_item m frame total_fragments fec_enabled now_us) [0..<unat total_fragments];
          parity_count = unat groups * unat r_per_group;
          (payloads, fec1) = (if fec_enabled
             then parity_into (Some data) (length data) total_fragments groups r_per_group max_payload
                    (replicate parity_count (Some (replicate max_payload 0))) (m_fec m)
             else ([], m_fec m));
          parities = map (\<lambda>k. parity_item m frame total_fragments groups now_us k (the (payloads ! k))) [0..<length payloads]
      in (sources @ parities @ [end_item m frame now_us], fec1))"

definition processFrame ::
  "(u8 \<Rightarrow> u16 \<Rightarrow> bool \<times> u8 \<times> u8) \<Rightarrow> 'c parity_fn \<Rightarrow> u64 \<Rightarrow> InputFrame \<Rightarrow> 'c UdpManager \<Rightarrow> 'c UdpManager" where
  "processFrame get_params parity_into now_us frame m =
     (if maxPayloadBytes (m_codec m) = 0 then m
      else (let total_fragments = total_fragments_of (length (f_data frame)) (maxPayloadBytes (m_codec m));
                (fec_enabled, groups, r_per_group) = get_params (fec_table_id (m_config m)) total_fragments;
                (batch, fec1) = frame_batch get_params parity_into now_us frame m;
                packets = (if fec_enabled then ucast total_fragments + ucast groups * ucast r_per_group
                           else ucast total_fragments :: u32);
                m1 = m\<lparr>frame_id := frame_id m + 1,
                       packet_seq_num := packet_seq_num m + of_nat (length batch - 1),
                       m_fec := fec1, m_queue := pushBatch batch (m_queue m)\<rparr>
            in count (\<lambda>c. c\<lparr>fec_output_packets := fec_output_packets c + ucast packets\<rparr>) m1))"

text \<open>One pass of \<open>fecThreadMain\<close>: \<open>now_us\<close> when the frame was taken, \<open>compute_us\<close> what the encoding took.\<close>

definition fec_wait_stats :: "u64 \<Rightarrow> InputFrame \<Rightarrow> Counters \<Rightarrow> Counters" where
  "fec_wait_stats now_us f c =
     (if 0 < f_capture_timestamp_us f
      then (let d = sint (now_us - f_capture_timestamp_us f);
                c1 = (if 0 \<le> d then c\<lparr>cap_to_fec_us_total := cap_to_fec_us_total c + of_int d,
                        cap_to_fec_samples := cap_to_fec_samples c + 1\<rparr> else c);
                w = sint (now_us - f_enqueue_steady_us f)
            in if 0 < f_enqueue_steady_us f \<and> 0 \<le> w
               then c1\<lparr>fec_internal_wait_us_total := fec_internal_wait_us_total c1 + of_int w,
                       fec_internal_wait_samples := fec_internal_wait_samples c1 + 1\<rparr>
               else c1)
      else c)"

definition fec_iteration ::
  "(u8 \<Rightarrow> u16 \<Rightarrow> bool \<times> u8 \<times> u8) \<Rightarrow> 'c parity_fn \<Rightarrow> u64 \<Rightarrow> u64 \<Rightarrow> u64 \<Rightarrow> 'c UdpManager \<Rightarrow> 'c UdpManager" where
  "fec_iteration get_params parity_into now_us enqueue_us compute_us m =
     (if \<not> m_running m then m
      else (case m_input m of
              [] \<Rightarrow> m
            | frame # rest \<Rightarrow>
                (let m1 = count (fec_wait_stats now_us frame) (m\<lparr>m_input := rest\<rparr>);
                     m2 = processFrame get_params parity_into enqueue_us frame m1
                 in count (\<lambda>c. c\<lparr>fec_compute_us_total := fec_compute_us_total c + compute_us,
                                fec_compute_samples := fec_compute_samples c + 1\<rparr>) m2)))"

section \<open>The receive thread\<close>

text \<open>One pass: what \<open>receive\<close> returned (\<open>None\<close> for a negative or zero length) and the clock; the result
  names the datagram handed to the callback.\<close>

definition recv_iteration :: "int \<Rightarrow> bytes option \<Rightarrow> 'c UdpManager \<Rightarrow> bytes option \<times> 'c UdpManager" where
  "recv_iteration now_us received m =
     (if \<not> m_running m \<or> \<not> enable_receive (m_config m) then (None, m)
      else (case received of
        None \<Rightarrow> (None, m)
      | Some d \<Rightarrow>
          if d = [] then (None, m)
          else if 3 \<le> length d \<and> d ! 0 = of_char CHR ''A'' \<and> d ! 1 = of_char CHR ''C'' \<and> d ! 2 = of_char CHR ''K''
          then (None, m\<lparr>m_control := onAckReceived now_us (m_control m), m_handshake_flag := True\<rparr>)
          else (if m_has_callback m then Some d else None, m\<lparr>m_control := onPeerActivity now_us (m_control m)\<rparr>)))"

section \<open>The send thread\<close>

datatype SendAttemptResult = kSent | kWouldBlock | kDropped

record FrameStats =
  fs_frame_id :: u32
  fs_packets :: u64
  fs_capture_steady_us :: u64
  fs_last_send_done_us :: u64
  fs_last_queue_delay_us :: u64
  fs_has_last_queue_delay :: bool

definition FrameStats_zero :: FrameStats where
  "FrameStats_zero = \<lparr>fs_frame_id = 0, fs_packets = 0, fs_capture_steady_us = 0, fs_last_send_done_us = 0,
     fs_last_queue_delay_us = 0, fs_has_last_queue_delay = False\<rparr>"

text \<open>What the outside supplies to one pass of the inner loop.\<close>

record attempt =
  at_calls :: "call list"
  at_dequeue_us :: u64
  at_sent :: int
  at_would_block :: bool
  at_send_done_us :: u64
  at_syscall_us :: u64
  at_now :: int
  at_next_now :: int

definition flush_frame :: "FrameStats \<times> 'c UdpManager \<Rightarrow> FrameStats \<times> 'c UdpManager" where
  "flush_frame s = (case s of (current, m) \<Rightarrow>
     if fs_packets current = 0 then (FrameStats_zero, m)
     else (let m1 = m\<lparr>m_queue := clearProtectedVideoGroup (fs_frame_id current) (m_queue m)\<rparr>;
               m2 = count (\<lambda>c. c\<lparr>sent_video_frames := sent_video_frames c + 1\<rparr>) m1;
               m3 = (if 0 < fs_capture_steady_us current \<and> fs_capture_steady_us current \<le> fs_last_send_done_us current
                     then count (\<lambda>c. c\<lparr>end_to_end_us_total := end_to_end_us_total c
                                   + (fs_last_send_done_us current - fs_capture_steady_us current),
                                 end_to_end_samples := end_to_end_samples c + 1\<rparr>) m2 else m2);
               m4 = (if fs_has_last_queue_delay current
                     then count (\<lambda>c. c\<lparr>tail_queue_delay_us_total := tail_queue_delay_us_total c + fs_last_queue_delay_us current,
                                 tail_queue_delay_samples := tail_queue_delay_samples c + 1\<rparr>) m3 else m3)
           in (FrameStats_zero, m4)))"

definition send_datagram ::
  "attempt \<Rightarrow> QueueItem \<Rightarrow> u64 \<Rightarrow> FrameStats \<times> 'c UdpManager \<Rightarrow> SendAttemptResult \<times> FrameStats \<times> 'c UdpManager" where
  "send_datagram a item pacing_us s = (case s of (current, m) \<Rightarrow>
     let (cur1, m1) = (if stream item = Video \<and> fs_packets current = 0
           then (current\<lparr>fs_frame_id := group_id item, fs_capture_steady_us := frame_capture_steady_us item\<rparr>,
                 m\<lparr>m_queue := setProtectedVideoGroup (group_id item) (m_queue m)\<rparr>)
           else (current, m));
         has_queue_delay = (stream item = Video \<and> 0 < enqueue_steady_us item \<and> enqueue_steady_us item \<le> at_dequeue_us a);
         queue_delay = (if has_queue_delay then at_dequeue_us a - enqueue_steady_us item else 0);
         m2 = (if has_queue_delay
               then count (\<lambda>c. c\<lparr>queue_delay_us_total := queue_delay_us_total c + queue_delay,
                             queue_delay_samples := queue_delay_samples c + 1\<rparr>) m1 else m1)
     in if at_sent a < 0
        then (if at_would_block a
              then (kWouldBlock, cur1, count (\<lambda>c. c\<lparr>send_block_events := send_block_events c + 1\<rparr>) m2)
              else (kDropped, cur1, count (\<lambda>c. c\<lparr>send_drop_packets := send_drop_packets c + 1\<rparr>) m2))
        else if at_sent a \<noteq> int (length (item_bytes item))
        then (kDropped, cur1, count (\<lambda>c. c\<lparr>send_drop_packets := send_drop_packets c + 1\<rparr>) m2)
        else if stream item = Video
        then (let cur2 = cur1\<lparr>fs_packets := fs_packets cur1 + 1, fs_last_send_done_us := at_send_done_us a\<rparr>;
                  cur3 = (if has_queue_delay then cur2\<lparr>fs_last_queue_delay_us := queue_delay, fs_has_last_queue_delay := True\<rparr> else cur2)
              in (kSent, cur3,
                  count (\<lambda>c. c\<lparr>sent_video_packets := sent_video_packets c + 1,
                          sent_video_bytes := sent_video_bytes c + of_nat (length (item_bytes item)),
                          pacing_us_total := pacing_us_total c + pacing_us,
                          send_syscall_us_total := send_syscall_us_total c + at_syscall_us a\<rparr>) m2))
        else (kSent, cur1, m2))"

definition handle_queue_item ::
  "attempt \<Rightarrow> QueueItem \<Rightarrow> u64 \<Rightarrow> FrameStats \<times> 'c UdpManager \<Rightarrow> SendAttemptResult \<times> FrameStats \<times> 'c UdpManager" where
  "handle_queue_item a item pacing_us s =
     (case kind item of
        GroupEnd \<Rightarrow> (kDropped, if stream item = Video then flush_frame s else s)
      | Datagram \<Rightarrow> send_datagram a item pacing_us s)"

definition update_pacer_stats :: "(double \<Rightarrow> double) \<Rightarrow> int \<Rightarrow> nat \<Rightarrow> 'c UdpManager \<Rightarrow> 'c UdpManager" where
  "update_pacer_stats fl now qb m =
     (case pacer_stats fl qb now (m_pacer m) of (st, p) \<Rightarrow>
        count (\<lambda>c. c\<lparr>pacer_debt_us := ps_debt_us st, pacer_expected_queue_us := ps_expected_queue_us st,
                    pacer_adjusted_bps := ps_adjusted_pacing_bps st\<rparr>) (m\<lparr>m_pacer := p\<rparr>))"

definition ask_pacer :: "(double \<Rightarrow> double) \<Rightarrow> int \<Rightarrow> ItemMeta \<Rightarrow> 'c UdpManager \<Rightarrow> int \<times> 'c UdpManager" where
  "ask_pacer fl now meta m =
     (let qb = st_bytes (status (m_queue m));
          accounted = (m_pacing_accounted meta \<and> pacing_enabled (m_config m));
          (wait, p) = timeUntilNextSend fl qb accounted now (m_pacer m)
      in (wait, update_pacer_stats fl now qb (m\<lparr>m_pacer := p\<rparr>)))"

definition other_threads :: "call list \<Rightarrow> 'c UdpManager \<Rightarrow> 'c UdpManager" where
  "other_threads calls m = m\<lparr>m_queue := fold do_call calls (m_queue m)\<rparr>"

text \<open>The inner loop, \<open>n\<close> the packets it may still take; the first component lists the items that left
  the queue for good, with what became of them.\<close>

fun send_batch ::
  "(double \<Rightarrow> double) \<Rightarrow> nat \<Rightarrow> attempt list \<Rightarrow> u64 \<Rightarrow> FrameStats \<times> 'c UdpManager \<Rightarrow>
   (QueueItem \<times> SendAttemptResult) list \<times> u64 \<times> FrameStats \<times> 'c UdpManager" where
  "send_batch fl 0 as pending s = ([], pending, s)"
| "send_batch fl (Suc n) [] pending s = ([], pending, s)"
| "send_batch fl (Suc n) (a # as) pending (current, m0) =
     (if \<not> m_running m0 then ([], pending, current, m0)
      else (let m = other_threads (at_calls a) m0 in
        case popPrioritized (m_queue m) of
          None \<Rightarrow> ([], pending, current, m)
        | Some (item, q) \<Rightarrow>
          (let pacing_us = (if stream item = Video then pending else 0);
               (result, current1, m1) = handle_queue_item a item pacing_us (current, m\<lparr>m_queue := q\<rparr>);
               blocked = (result = kWouldBlock \<and> kind item = Datagram);
               m2 = (if blocked
                     then (let mq = m1\<lparr>m_queue := requeueFront item (m_queue m1)\<rparr>; qb = st_bytes (status (m_queue mq))
                           in update_pacer_stats fl (at_now a) qb
                                (mq\<lparr>m_pacer := onBlocked fl (wire_bytes item) qb (at_now a) (m_pacer mq)\<rparr>))
                     else m1);
               pending1 = (if stream item = Video then 0 else pending);
               m3 = (if result = kSent
                     then (let qb = st_bytes (status (m_queue m2))
                           in update_pacer_stats fl (at_now a) qb
                                (m2\<lparr>m_pacer := onPacketSent fl (wire_bytes item)
                                   (pacing_accounted item \<and> pacing_enabled (m_config m2)) qb (at_now a) (m_pacer m2)\<rparr>))
                     else m2);
               left = (if blocked then [] else [(item, result)])
           in case peekPrioritized (m_queue m3) of
                None \<Rightarrow> (left, pending1, current1, m3)
              | Some meta \<Rightarrow>
                  if blocked then (left, pending1, current1, m3)
                  else (case ask_pacer fl (at_next_now a) meta m3 of (wait, m4) \<Rightarrow>
                     if 0 < wait then (left, pending1, current1, m4)
                     else (case send_batch fl n as pending1 (current1, m4) of (rest, r) \<Rightarrow> (left @ rest, r))))))"

text \<open>One pass of the outer loop. \<open>waited_us\<close> is how long the pacing wait lasted, if there was one.\<close>

definition send_iteration ::
  "(double \<Rightarrow> double) \<Rightarrow> int \<Rightarrow> u64 \<Rightarrow> attempt list \<Rightarrow> u64 \<Rightarrow> FrameStats \<times> 'c UdpManager \<Rightarrow>
   (QueueItem \<times> SendAttemptResult) list \<times> u64 \<times> FrameStats \<times> 'c UdpManager" where
  "send_iteration fl now waited_us attempts pending s = (case s of (current, m) \<Rightarrow>
     if \<not> m_running m then ([], pending, s)
     else (case peekPrioritized (m_queue m) of
        None \<Rightarrow> ([], pending, s)
      | Some meta \<Rightarrow>
          (case ask_pacer fl now meta m of (wait, m1) \<Rightarrow>
             if 0 < wait then ([], min (pending + waited_us) 1000000, current, m1)
             else send_batch fl (unat (max 1 (pacing_max_packets_per_batch (m_config m1)))) attempts pending (current, m1))))"

text \<open>\<open>sendThreadMain\<close> before its loop.\<close>

definition send_thread_start :: "int \<Rightarrow> 'c UdpManager \<Rightarrow> FrameStats \<times> 'c UdpManager" where
  "send_thread_start now m = (FrameStats_zero, m\<lparr>m_pacer := pacer_reset now (m_pacer m)\<rparr>)"

section \<open>Statistics\<close>

record VideoStatsSnapshot =
  vs_counters :: Counters
  vs_queue_drops :: u64
  vs_queue_packets :: nat
  vs_queue_bytes :: nat

definition consumeVideoStats :: "'c UdpManager \<Rightarrow> VideoStatsSnapshot \<times> 'c UdpManager" where
  "consumeVideoStats m =
     (case SendQueue.snapshot (m_queue m) of (qs, q) \<Rightarrow>
        (\<lparr>vs_counters = m_counters m, vs_queue_drops = s_dropped_video_groups qs, vs_queue_packets = s_packets qs,
          vs_queue_bytes = s_bytes qs\<rparr>,
         m\<lparr>m_queue := q, m_counters := Counters_zero\<lparr>pacer_debt_us := pacer_debt_us (m_counters m),
             pacer_expected_queue_us := pacer_expected_queue_us (m_counters m),
             pacer_adjusted_bps := pacer_adjusted_bps (m_counters m)\<rparr>\<rparr>))"


section \<open>Fragmentation\<close>

lemma zip_maps: "zip (map f xs) (map g xs) = map (\<lambda>x. (f x, g x)) xs"
  by (induction xs) simp_all

lemma concat_chunks: "concat (map (\<lambda>i. take k (drop (i * k) d)) [0..<n]) = take (n * k) d"
proof (induction n)
  case (Suc n)
  have "Suc n * k = n * k + k" by simp
  with Suc show ?case by (simp only: upt_Suc_append map_append concat_append take_add) simp
qed simp

definition fragment_count :: "nat \<Rightarrow> nat \<Rightarrow> nat" where
  "fragment_count nsize k = (nsize + k - 1) div k"

lemma fragment_count_bounds:
  assumes "0 < k"
  shows "nsize \<le> fragment_count nsize k * k" and "nsize \<le> 65535 * k \<Longrightarrow> fragment_count nsize k \<le> 65535"
    and "i < fragment_count nsize k \<Longrightarrow> i * k < nsize"
proof -
  have d: "nsize + k - 1 = fragment_count nsize k * k + (nsize + k - 1) mod k"
    by (simp add: fragment_count_def)
  have m: "(nsize + k - 1) mod k < k" using assms by simp
  show "nsize \<le> fragment_count nsize k * k" using d m assms by linarith
  show "fragment_count nsize k \<le> 65535" if "nsize \<le> 65535 * k"
  proof -
    have "nsize + k - 1 < 65536 * k" using that assms by simp
    then have "fragment_count nsize k < 65536" using assms by (simp add: fragment_count_def div_less_iff_less_mult)
    then show ?thesis by simp
  qed
  show "i * k < nsize" if "i < fragment_count nsize k"
  proof -
    have "Suc i * k \<le> nsize + k - 1"
      using that assms by (simp add: fragment_count_def less_eq_div_iff_mult_less_eq Suc_le_eq flip: Suc_le_eq)
    then show ?thesis using assms by simp
  qed
qed

lemma total_fragments_unat:
  "0 < k \<Longrightarrow> nsize \<le> 65535 * k \<Longrightarrow> unat (total_fragments_of nsize k) = fragment_count nsize k"
  using fragment_count_bounds(2)[of k nsize]
  unfolding total_fragments_of_def fragment_count_def[symmetric] by simp

lemma source_item_parse:
  "parse_video (item_bytes (source_item m frame n fec now i)) =
    Some (\<lparr>v_Type = kVideoPacketType, v_PacketSeqNum = packet_seq_num m + of_nat i,
            v_Timestamp = f_ntp_timestamp frame, v_FrameId = frame_id m, v_FragmentIndex = of_nat i,
            v_TotalFragments = n, v_PayloadLength = of_nat (min (maxPayloadBytes (m_codec m)) (length (f_data frame) - i * maxPayloadBytes (m_codec m))),
            v_FramePayloadLength = of_nat (length (f_data frame)),
            v_FecTableId = (if fec then fec_table_id (m_config m) else 0),
            v_KeyframeFlag = (if f_keyframe frame then 1 else 0)\<rparr>,
      take (maxPayloadBytes (m_codec m)) (drop (i * maxPayloadBytes (m_codec m)) (f_data frame)))"
proof -
  have c: "take (min mp (length d - j * mp)) (drop (j * mp) d) = take mp (drop (j * mp) d)" for mp j and d :: bytes
    by (simp add: min_def)
  have pv: "parse_video (buildVideoPacket h p) = Some (h, p)" for h p
    by (simp add: parse_video_def buildVideoPacket_def)
  show ?thesis by (simp add: source_item_def Let_def pv c)
qed

lemma parity_item_bytes:
  "length (item_bytes (parity_item m frame n g now k payload)) = 27 + length payload"
  "drop 27 (item_bytes (parity_item m frame n g now k payload)) = payload"
proof -
  have l: "length (buildVideoPacket h p) = 27 + length p" for h p by (simp add: buildVideoPacket_def)
  show "length (item_bytes (parity_item m frame n g now k payload)) = 27 + length payload"
    "drop 27 (item_bytes (parity_item m frame n g now k payload)) = payload"
    by (simp_all add: parity_item_def Let_def l)
qed

lemma frame_batch_eq:
  assumes "get_params (fec_table_id (m_config m)) n = (fec, g, r)"
    and "n = total_fragments_of (length (f_data frame)) (maxPayloadBytes (m_codec m))"
    and "(pl, c1) = (if fec then parity_into (Some (f_data frame)) (length (f_data frame)) n g r (maxPayloadBytes (m_codec m))
        (replicate (unat g * unat r) (Some (replicate (maxPayloadBytes (m_codec m)) 0))) (m_fec m) else ([], m_fec m))"
  shows "frame_batch get_params parity_into now frame m =
    (map (source_item m frame n fec now) [0..<unat n]
      @ map (\<lambda>k. parity_item m frame n g now k (the (pl ! k))) [0..<length pl] @ [end_item m frame now], c1)"
  unfolding frame_batch_def Let_def assms(2)[symmetric] assms(1) prod.case
  using assms(3)[symmetric] by (simp only: prod.case)

text \<open>What a client of any encoder that keeps its contract may rely on.\<close>

context fec_encoder
begin

lemma batch_shape:
  assumes "get_params (fec_table_id (m_config m)) n = (True, g, r)"
    and "n = total_fragments_of (length (f_data frame)) (maxPayloadBytes (m_codec m))"
  shows "\<exists>pl. length pl = unat g * unat r \<and> (\<forall>x\<in>set pl. \<exists>y. x = Some y \<and> length y = maxPayloadBytes (m_codec m))
    \<and> pl = fst (parity_into (Some (f_data frame)) (length (f_data frame)) n g r (maxPayloadBytes (m_codec m))
        (replicate (unat g * unat r) (Some (replicate (maxPayloadBytes (m_codec m)) 0))) (m_fec m))
    \<and> fst (frame_batch get_params parity_into now frame m) =
      map (source_item m frame n True now) [0..<unat n]
      @ map (\<lambda>k. parity_item m frame n g now k (the (pl ! k))) [0..<length pl] @ [end_item m frame now]"
proof -
  let ?mp = "maxPayloadBytes (m_codec m)"
  let ?outs = "replicate (unat g * unat r) (Some (replicate ?mp (0 :: u8)))"
  define X where "X = parity_into (Some (f_data frame)) (length (f_data frame)) n g r ?mp ?outs (m_fec m)"
  have len: "map (map_option length) (fst X) = map (map_option length) ?outs"
    unfolding X_def by (rule into_lengths) auto
  have "map_option length x = Some ?mp" if "x \<in> set (fst X)" for x
  proof -
    have "map_option length x \<in> set (map (map_option length) (fst X))" using that by simp
    then show ?thesis unfolding len by (auto simp: set_replicate_conv_if split: if_splits)
  qed
  then have all: "\<forall>x\<in>set (fst X). \<exists>y. x = Some y \<and> length y = ?mp" by auto
  have l: "length (fst X) = unat g * unat r" using map_eq_imp_length_eq[OF len] by simp
  have "frame_batch get_params parity_into now frame m =
    (map (source_item m frame n True now) [0..<unat n]
      @ map (\<lambda>k. parity_item m frame n g now k (the (fst X ! k))) [0..<length (fst X)] @ [end_item m frame now], snd X)"
    by (rule frame_batch_eq[of get_params m n True g r frame "fst X" "snd X" parity_into now, OF assms])
      (simp add: X_def)
  with l all show ?thesis by (intro exI[of _ "fst X"]) (simp add: X_def)
qed

end

section \<open>The send loop\<close>

text \<open>Two states with the same queue content and the same settings.\<close>

definition same_items :: "'c UdpManager \<Rightarrow> 'c UdpManager \<Rightarrow> bool" where
  "same_items m m' \<longleftrightarrow> queue (m_queue m') = queue (m_queue m) \<and> queue_bytes (m_queue m') = queue_bytes (m_queue m)
     \<and> running (m_queue m') = running (m_queue m) \<and> m_running m' = m_running m"


lemma same_items_count [simp]: "same_items m (count f m') = same_items m m'"
  by (simp add: same_items_def count_def)


lemma same_items_pacer [simp]: "same_items m (m'\<lparr>m_pacer := p\<rparr>) = same_items m m'"
  by (simp add: same_items_def)

lemma same_items_refl [simp]: "same_items m m"
  by (simp add: same_items_def)

lemma update_pacer_stats_items [simp]: "same_items m (update_pacer_stats fl now qb m') = same_items m m'"
  by (simp add: update_pacer_stats_def split: prod.splits)


lemma protect_items [simp]:
  "same_items m (m'\<lparr>m_queue := setProtectedVideoGroup g (m_queue m')\<rparr>) = same_items m m'"
  "same_items m (m'\<lparr>m_queue := clearProtectedVideoGroup g (m_queue m')\<rparr>) = same_items m m'"
  by (auto simp: same_items_def setProtectedVideoGroup_def clearProtectedVideoGroup_def)







section \<open>Input queue\<close>

lemma evict_loop_eq: "evict_loop limit q d = (if limit \<le> length q \<and> q \<noteq> [] then evict_loop limit (erase_at (evict_victim q) q) (d + 1) else (q, d))"
  by (rule evict_loop.simps)

definition keyframes :: "InputFrame list \<Rightarrow> InputFrame list" where
  "keyframes q = List.filter f_keyframe q"

lemma erase_victim_keyframes:
  assumes "q \<noteq> []"
  shows "keyframes (erase_at (evict_victim q) q) = keyframes q \<or> keyframes q = q"
proof (cases "find_if (\<lambda>f. \<not> f_keyframe f) q")
  case None
  then show ?thesis by (simp add: find_if_None keyframes_def filter_id_conv)
next
  case (Some i)
  note s = find_if_split(1,2)[OF Some]
  have "keyframes q = keyframes (take i q @ q ! i # drop (Suc i) q)" using s(1) by simp
  then show ?thesis using s(2) Some by (simp add: keyframes_def erase_at_def evict_victim_def)
qed

lemma evict_loop_ok:
  "0 < limit \<Longrightarrow> evict_loop limit q d = (q', d') \<Longrightarrow>
   length q' < limit \<and> d' + length q' = d + length q \<and> set q' \<subseteq> set q
    \<and> (keyframes q' = keyframes q \<or> keyframes q' = q')"
proof (induction limit q d rule: evict_loop.induct)
  case (1 limit q d)
  show ?case
  proof (cases "limit \<le> length q \<and> q \<noteq> []")
    case True
    let ?q1 = "erase_at (evict_victim q) q"
    have e: "evict_loop limit ?q1 (d + 1) = (q', d')" using "1.prems"(2) True by (simp add: evict_loop_eq[of limit q])
    note ih = "1.IH"[OF True "1.prems"(1) e]
    have l: "length ?q1 = length q - 1" using evict_victim_less True by (simp add: length_erase_at)
    have "keyframes q' = keyframes q \<or> keyframes q' = q'"
    proof (cases "keyframes ?q1 = keyframes q")
      case True
      then show ?thesis using ih by simp
    next
      case False
      then have "keyframes q = q" using erase_victim_keyframes True by blast
      then have "\<forall>f\<in>set q. f_keyframe f" by (simp add: keyframes_def filter_id_conv)
      then have "\<forall>f\<in>set q'. f_keyframe f" using ih set_erase_at[of "evict_victim q" q] by blast
      then show ?thesis by (simp add: keyframes_def filter_id_conv)
    qed
    then show ?thesis using ih l True set_erase_at[of "evict_victim q" q] by auto
  next
    case False
    with "1.prems" show ?thesis by (auto simp: evict_loop_eq[of limit q])
  qed
qed

section \<open>Properties\<close>

definition sample_manager :: "nat \<Rightarrow> coef_cache UdpManager" where
  "sample_manager payload = (UdpManager_init (UdpConfig_default\<lparr>control_enabled := False, max_payload_bytes := payload\<rparr>) Map.empty 0)\<lparr>m_running := True\<rparr>"

definition sample_frame :: "bytes \<Rightarrow> InputFrame" where
  "sample_frame d = \<lparr>f_data = d, f_capture_timestamp_us = 0, f_ntp_timestamp = 0, f_enqueue_steady_us = 1, f_keyframe = True\<rparr>"

definition no_table :: V2FecTable where
  "no_table = fec_table (\<lambda>_. None) []"

lemma no_table_params: "getParams no_table t n = (False, 0, 0)"
proof -
  have *: "try_candidates (\<lambda>_. None) cs out = (False, out\<lparr>loaded := False\<rparr>)" for cs out
    by (induction cs arbitrary: out) (simp_all add: loadTableFromJsonFile_def)
  show ?thesis by (simp add: no_table_def fec_table_def loadTableOnce_def * getParams_def)
qed

lemma sample_manager_simps [simp]:
  "maxPayloadBytes (m_codec (sample_manager k)) = k" "m_running (sample_manager k)" "m_queue (sample_manager k) = Queue_init"
  "m_input (sample_manager k) = []" "m_config (sample_manager k) = UdpConfig_default\<lparr>control_enabled := False, max_payload_bytes := k\<rparr>"
  by (simp_all add: sample_manager_def UdpManager_init_def PacketCodec_init_def setDeviceId_def maxPayloadBytes_def)

text \<open>C3: Fragmentation loses nothing: of a frame of at most 65535 payloads, the source datagrams parsed
  back give, in order, header \<open>i\<close> of \<open>n\<close> with the frame's id, size and key flag, and payloads that
  concatenate to the frame; each datagram is 27 bytes longer than its payload, so a full one is 27
  bytes over the configured \<open>max_payload_bytes\<close>.\<close>
theorem frame_fragments_reassemble:
  assumes "0 < maxPayloadBytes (m_codec m)" "length (f_data frame) \<le> 65535 * maxPayloadBytes (m_codec m)"
    and "n = unat (total_fragments_of (length (f_data frame)) (maxPayloadBytes (m_codec m)))"
    and "batch = fst (frame_batch get_params parity_into now frame m)"
  shows "\<exists>hs ps. map (\<lambda>it. parse_video (item_bytes it)) (take n batch) = map Some (zip hs ps)
    \<and> length hs = n \<and> length ps = n \<and> concat ps = f_data frame
    \<and> (\<forall>i<n. unat (v_FragmentIndex (hs ! i)) = i \<and> unat (v_TotalFragments (hs ! i)) = n
         \<and> v_FrameId (hs ! i) = frame_id m \<and> v_FramePayloadLength (hs ! i) = of_nat (length (f_data frame))
         \<and> v_KeyframeFlag (hs ! i) = (if f_keyframe frame then 1 else 0)
         \<and> length (item_bytes (batch ! i)) = 27 + length (ps ! i))"
proof -
  let ?mp = "maxPayloadBytes (m_codec m)" and ?d = "f_data frame"
  define t where "t = total_fragments_of (length ?d) ?mp"
  obtain fec g r where gp: "get_params (fec_table_id (m_config m)) t = (fec, g, r)" by (metis prod_cases3)
  obtain pl c1 where pl: "(pl, c1) = (if fec then parity_into (Some ?d) (length ?d) t g r ?mp
        (replicate (unat g * unat r) (Some (replicate ?mp 0))) (m_fec m) else ([], m_fec m))"
    by (metis surj_pair)
  have b: "take n batch = map (source_item m frame t fec now) [0..<n]"
    unfolding assms(4) frame_batch_eq[of get_params m t fec g r frame pl c1 parity_into now, OF gp t_def pl]
    using assms(3) by (simp add: t_def)
  have nc: "n = fragment_count (length ?d) ?mp" using total_fragments_unat[OF assms(1,2)] assms(3) by simp
  have lt: "n \<le> 65535" using fragment_count_bounds(2)[OF assms(1,2)] nc by simp
  define H where "H i = fst (the (parse_video (item_bytes (source_item m frame t fec now i))))" for i
  let ?P = "\<lambda>i. take ?mp (drop (i * ?mp) ?d)"
  have p: "parse_video (item_bytes (source_item m frame t fec now i)) = Some (H i, ?P i)" for i
    by (simp add: source_item_parse H_def)
  have at: "batch ! i = source_item m frame t fec now i" if "i < n" for i
  proof -
    have "batch ! i = take n batch ! i" using that by simp
    then show ?thesis unfolding b using that by simp
  qed
  have len: "length (item_bytes (source_item m frame t fec now i)) = 27 + length (?P i)" for i
    by (simp add: source_item_def Let_def buildVideoPacket_def min_def)
  show ?thesis
  proof (intro exI conjI)
    show "map (\<lambda>it. parse_video (item_bytes it)) (take n batch) = map Some (zip (map H [0..<n]) (map ?P [0..<n]))"
      unfolding b zip_maps map_map comp_def p ..
    show "concat (map ?P [0..<n]) = ?d"
      using fragment_count_bounds(1)[OF assms(1), of "length ?d"] by (simp add: concat_chunks nc)
    show "\<forall>i<n. unat (v_FragmentIndex (map H [0..<n] ! i)) = i \<and> unat (v_TotalFragments (map H [0..<n] ! i)) = n
         \<and> v_FrameId (map H [0..<n] ! i) = frame_id m \<and> v_FramePayloadLength (map H [0..<n] ! i) = of_nat (length (f_data frame))
         \<and> v_KeyframeFlag (map H [0..<n] ! i) = (if f_keyframe frame then 1 else 0)
         \<and> length (item_bytes (batch ! i)) = 27 + length (map ?P [0..<n] ! i)"
    proof (intro allI impI)
      fix i assume i: "i < n"
      have s: "map H [0..<n] ! i = H i" "map ?P [0..<n] ! i = ?P i" using i by simp_all
      show "unat (v_FragmentIndex (map H [0..<n] ! i)) = i \<and> unat (v_TotalFragments (map H [0..<n] ! i)) = n
         \<and> v_FrameId (map H [0..<n] ! i) = frame_id m \<and> v_FramePayloadLength (map H [0..<n] ! i) = of_nat (length (f_data frame))
         \<and> v_KeyframeFlag (map H [0..<n] ! i) = (if f_keyframe frame then 1 else 0)
         \<and> length (item_bytes (batch ! i)) = 27 + length (map ?P [0..<n] ! i)"
        unfolding s at[OF i] len using i lt assms(3) by (simp add: source_item_parse t_def H_def)
    qed
  qed simp_all
qed

theorem frame_fragments_reassemble_witness:
  "\<exists>ps. concat ps = [1, 2, 3 :: u8] \<and> length ps = 2"
  using frame_fragments_reassemble[of "sample_manager 2" "sample_frame [1, 2, 3]" 2
      "fst (frame_batch (getParams no_table) buildParityInto 0 (sample_frame [1, 2, 3]) (sample_manager 2))" "getParams no_table" buildParityInto 0]
  by (auto simp: sample_frame_def total_fragments_of_def)

lemma parity_on_wire:
  assumes "getParams tbl (fec_table_id (m_config m)) n = (True, g, r)" "cache_ok (m_fec m)"
    and "n = total_fragments_of (length (f_data frame)) (maxPayloadBytes (m_codec m))"
    and "0 < maxPayloadBytes (m_codec m)" "f_data frame \<noteq> []"
    and "batch = fst (frame_batch (getParams tbl) buildParityInto now frame m)"
    and "p < unat r" "grp < unat g" "b < maxPayloadBytes (m_codec m)"
  shows "length batch = unat n + unat g * unat r + 1 \<and> kind (last batch) = GroupEnd
    \<and> length (item_bytes (batch ! (unat n + p * unat g + grp))) = 27 + maxPayloadBytes (m_codec m)
    \<and> is_fec_parity (batch ! (unat n + p * unat g + grp))
    \<and> GF (item_bytes (batch ! (unat n + p * unat g + grp)) ! (27 + b))
      = parity_spec (f_data frame) (unat n) (unat g) (maxPayloadBytes (m_codec m)) p grp b"
proof -
  let ?mp = "maxPayloadBytes (m_codec m)" and ?d = "f_data frame"
  let ?outs = "replicate (unat g * unat r) (Some (replicate ?mp (0 :: u8)))"
  have gp: "unat n \<le> 255" "g \<noteq> 0" "r \<noteq> 0" using getParams_valid[OF assms(1)] by auto
  obtain pl where pl: "length pl = unat g * unat r" "\<forall>x\<in>set pl. \<exists>y. x = Some y \<and> length y = ?mp"
    "pl = fst (buildParityInto (Some ?d) (length ?d) n g r ?mp ?outs (m_fec m))"
    "batch = map (source_item m frame n True now) [0..<unat n]
      @ map (\<lambda>k. parity_item m frame n g now k (the (pl ! k))) [0..<length pl] @ [end_item m frame now]"
    using fec.batch_shape[OF assms(1,3), of now] assms(6) by blast
  have i: "p * unat g + grp < length pl" using parity_index_less[OF assms(7,8)] pl(1) by (simp add: mult.commute)
  obtain y where y: "pl ! (p * unat g + grp) = Some y" "length y = ?mp" using pl(2) i by (meson nth_mem)
  have at: "batch ! (unat n + p * unat g + grp) = parity_item m frame n g now (p * unat g + grp) y"
    using i y by (simp add: pl(4) nth_append)
  have "GF (y ! b) = parity_spec ?d (unat n) (unat g) ?mp p grp b"
    using buildParityInto_ok(3)[OF assms(2) gp(1) refl _ gp(2,3), of ?d ?mp ?outs p grp b] assms(4,5,7-9) y pl(1,3) i by auto
  moreover have "item_bytes (parity_item m frame n g now (p * unat g + grp) y) ! (27 + b) = y ! b"
    using parity_item_bytes[of m frame n g now "p * unat g + grp" y] assms(9) y(2) by (metis nth_drop le_add1)
  moreover have "is_fec_parity (parity_item m frame n g now (p * unat g + grp) y)"
    by (simp add: parity_item_def Let_def)
  moreover have "length batch = unat n + unat g * unat r + 1" "kind (last batch) = GroupEnd"
    by (simp_all add: pl(1,4) end_item_def)
  ultimately show ?thesis using parity_item_bytes(1)[of m frame n g now "p * unat g + grp" y] y(2) by (simp add: at)
qed

text \<open>The batch of a frame granted FEC is its source datagrams, then \<open>groups * r\<close> parity datagrams of
  27 + max_payload bytes, then one end marker; parity datagram \<open>p * groups + grp\<close> carries, from byte 27
  on, row \<open>p\<close> of the Cauchy code over group \<open>grp\<close>, so with the erasure property of the code any
  sufficient set of the received datagrams determines the frame.\<close>
theorem frame_parity_on_the_wire:
  assumes "getParams tbl (fec_table_id (m_config m)) n = (True, g, r)" "cache_ok (m_fec m)"
    and "n = total_fragments_of (length (f_data frame)) (maxPayloadBytes (m_codec m))"
    and "0 < maxPayloadBytes (m_codec m)" "f_data frame \<noteq> []"
    and "batch = fst (frame_batch (getParams tbl) buildParityInto now frame m)"
    and "p < unat r" "grp < unat g" "b < maxPayloadBytes (m_codec m)"
  shows "length batch = unat n + unat g * unat r + 1 \<and> kind (last batch) = GroupEnd
    \<and> length (item_bytes (batch ! (unat n + p * unat g + grp))) = 27 + maxPayloadBytes (m_codec m)
    \<and> is_fec_parity (batch ! (unat n + p * unat g + grp))
    \<and> GF (item_bytes (batch ! (unat n + p * unat g + grp)) ! (27 + b))
      = parity_spec (f_data frame) (unat n) (unat g) (maxPayloadBytes (m_codec m)) p grp b"
  by (rule parity_on_wire [OF assms])

definition one_row_table :: V2FecTable where
  "one_row_table = fec_table_empty\<lparr>groups_by_n := (replicate 256 0)[2 := 1], r_by_n := (replicate 256 0)[2 := 1], loaded := True\<rparr>"

theorem frame_parity_on_the_wire_witness:
  "length (fst (frame_batch (getParams one_row_table) buildParityInto 0 (sample_frame [1, 2, 3]) (sample_manager 2))) = 4"
proof -
  have "getParams one_row_table (fec_table_id (m_config (sample_manager 2))) 2 = (True, 1, 1)"
    by (simp add: getParams_def one_row_table_def Let_def UdpConfig_default_def fec_table_empty_def)
  from frame_parity_on_the_wire[OF this, of "sample_frame [1, 2, 3]" _ 0 0 0 0]
  have "length (fst (frame_batch (getParams one_row_table) buildParityInto 0 (sample_frame [1, 2, 3]) (sample_manager 2)))
    = unat (2 :: u16) + unat (1 :: u8) * unat (1 :: u8) + 1"
    by (simp add: total_fragments_of_def sample_frame_def cache_ok_def) (simp add: sample_manager_def UdpManager_init_def)
  then show ?thesis by simp
qed

text \<open>A frame of exactly 65536 payloads is lost whole: the 16-bit fragment count wraps to 0 and the
  batch is the end marker alone (no parity being granted for a count of 0).\<close>
theorem oversize_frame_vanishes:
  assumes "0 < maxPayloadBytes (m_codec m)" "length (f_data frame) = 65536 * maxPayloadBytes (m_codec m)"
    and "get_params (fec_table_id (m_config m)) 0 = (False, g, r)"
  shows "fst (frame_batch get_params parity_into now frame m) = [end_item m frame now]"
proof -
  have "fragment_count (65536 * k) k = 65536" if "0 < k" for k
  proof -
    have "((k - 1) + 65536 * k) div k = 65536 + (k - 1) div k" using that by (intro div_mult_self1) simp
    moreover have "(k - 1) div k = 0" using that by simp
    moreover have "65536 * k + k - 1 = (k - 1) + 65536 * k" using that by simp
    ultimately show ?thesis unfolding fragment_count_def by (simp only: add_0_right)
  qed
  then have "total_fragments_of (length (f_data frame)) (maxPayloadBytes (m_codec m)) = 0"
    using assms(1,2) unfolding total_fragments_of_def fragment_count_def[symmetric] by simp
  then show ?thesis using assms(3) by (simp add: frame_batch_def Let_def)
qed

theorem oversize_frame_vanishes_witness:
  "fst (frame_batch (getParams no_table) buildParityInto 0 (sample_frame (replicate 65536 7)) (sample_manager 1))
    = [end_item (sample_manager 1) (sample_frame (replicate 65536 7)) 0]"
  by (rule oversize_frame_vanishes[where g = 0 and r = 0]) (simp_all add: sample_frame_def no_table_params)

text \<open>The input queue never exceeds its configured depth (at least 1), the new frame is always in it,
  and a keyframe is discarded only when nothing but keyframes was left to discard.\<close>
theorem input_queue_bounded:
  assumes "may_send m" "d \<noteq> []" "m' = sendH264Frame ntp now (Some d) cap key m"
  shows "length (m_input m') \<le> max 1 (fec_input_queue_max_frames (m_config m))
    \<and> f_data (last (m_input m')) = d \<and> m_input m' \<noteq> []
    \<and> (keyframes (butlast (m_input m')) = keyframes (m_input m) \<or> keyframes (butlast (m_input m')) = butlast (m_input m'))"
proof -
  obtain q dr where e: "evict_loop (max 1 (fec_input_queue_max_frames (m_config m))) (m_input m) 0 = (q, dr)" by fastforce
  have "0 < max 1 (fec_input_queue_max_frames (m_config m))" by simp
  from evict_loop_ok[OF this e] show ?thesis
    using assms e by (auto simp: sendH264Frame_def count_def Let_def)
qed

theorem input_queue_bounded_witness:
  "length (m_input (sendH264Frame 0 1 (Some [1]) 0 True (sample_manager 2))) \<le> 2"
  using input_queue_bounded[of "sample_manager 2" "[1]" _ 0 1 0 True]
  by (simp add: may_send_def UdpConfig_default_def)




text \<open>Audio respects the gate and the budget: before the handshake, with control enabled, nothing is
  queued; afterwards whatever the call adds is one datagram of at most \<open>max_payload_bytes\<close>.\<close>
theorem audio_gated_and_bounded:
  assumes "m' = sendAudioPacket now data ts m" "it \<in> set (queue (m_queue m'))" "it \<notin> set (queue (m_queue m))"
  shows "isHandshakeReady m \<and> m_running m \<and> stream it = Audio \<and> wire_bytes it = length (item_bytes it)
    \<and> length (item_bytes it) \<le> max_payload_bytes (m_config m) \<and> take 1 (item_bytes it) = [kAudioPacketType]"
proof -
  have new: "it = norm_item x" if "it \<in> set (queue (push x (m_queue m)))" for x
    using that assms(3) push_sheds[of "m_queue m" x] sheds_set[of "append_item x (m_queue m)" "push x (m_queue m)"]
    by (cases "running (m_queue m)") (auto simp: push_def)
  have f: "stream (norm_item x) = stream x" "wire_bytes (norm_item x) = wire_bytes x" "item_bytes (norm_item x) = item_bytes x" for x
    by (simp_all add: norm_item_def)
  have l: "length (buildAudioPacket h d) = 11 + length d" "take (Suc 0) (buildAudioPacket h d) = [a_Type h]" for h d
    by (simp_all add: buildAudioPacket_def)
  show ?thesis
    using assms(1,2,3)
    by (auto simp: sendAudioPacket_def may_send_def isHandshakeReady_def Let_def f l split: if_splits option.splits dest!: new)
qed

theorem audio_gated_and_bounded_witness:
  "length (item_bytes (last (queue (m_queue (sendAudioPacket 5 (Some [1, 2]) 9 (sample_manager 100)))))) \<le> 100"
proof -
  let ?m = "sendAudioPacket 5 (Some [1, 2]) 9 (sample_manager 100)"
  have q: "queue (m_queue ?m) \<noteq> []"
    by (simp add: sendAudioPacket_def may_send_def UdpConfig_default_def Let_def push_def enforceLimitsLocked.simps
        over_limits_def append_item_def Queue_init_def QueueItem_default_def)
  from audio_gated_and_bounded[OF refl last_in_set[OF q]] show ?thesis by (simp add: Queue_init_def)
qed

end
