(* ===== verification/PoseReceiver.thy ===== *)
theory PoseReceiver
  imports Prelude "HOL-Library.Monad_Syntax"
begin

text \<open>
  \<open>src/src/udp/pose_udp_receiver.cpp\<close>: the parser of the headset's pose datagrams. Every access to
  the datagram goes through a checked read, so \<open>None\<close> is the undefined behaviour of reading past its
  end; what is published or warned about is the list of outputs. A double of a message is a real,
  \<open>None\<close> when it is not finite; \<open>f32\<close> decodes the 32 bits of a float, \<open>fl32\<close> rounds a float product, and
  the quaternion arithmetic, done in doubles by the code, is over the reals. Throttling of the
  warnings is a function of its own.
\<close>

section \<open>Constants and messages\<close>

definition kPoseControllerType :: u8 where "kPoseControllerType = 0x02"
definition kBody24RawType :: u8 where "kBody24RawType = 0x09"
definition kProtocolVersion :: u8 where "kProtocolVersion = 1"
definition kPoseControllerHeaderBytes :: nat where "kPoseControllerHeaderBytes = 13"
definition kPoseEntryBytes :: nat where "kPoseEntryBytes = 28"
definition kControllerButtonsEntryBytes :: nat where "kControllerButtonsEntryBytes = 23"
definition kEulerEntryBytes :: nat where "kEulerEntryBytes = 12"
definition kAimEntryBytes :: nat where "kAimEntryBytes = 38"
definition kPoseFlagIncludeEuler :: u8 where "kPoseFlagIncludeEuler = 0x01"
definition kPoseFlagIncludeAim :: u8 where "kPoseFlagIncludeAim = 0x02"
definition kPoseFlagIncludeButtons :: u8 where "kPoseFlagIncludeButtons = 0x04"
definition kBody24RawTotalBytes :: nat where "kBody24RawTotalBytes = 1236"
definition kBody24ProfileFullMotionQuantized :: u8 where "kBody24ProfileFullMotionQuantized = 1"
definition kBody24SpacePicoLocalPose :: u8 where "kBody24SpacePicoLocalPose = 0"
definition kBody24BlockCount :: u8 where "kBody24BlockCount = 3"
definition kBodyStateBlockType :: u8 where "kBodyStateBlockType = 1"
definition kJoint24RawPoseQBlockType :: u8 where "kJoint24RawPoseQBlockType = 2"
definition kJoint24FullMotionQBlockType :: u8 where "kJoint24FullMotionQBlockType = 3"
definition kPositionScaleCodeMillimeter :: u8 where "kPositionScaleCodeMillimeter = 1"
definition kBodyStateBlockBytes :: nat where "kBodyStateBlockBytes = 40"
definition kJoint24RawPoseQBlockBytes :: nat where "kJoint24RawPoseQBlockBytes = 540"
definition kJoint24FullMotionQBlockBytes :: nat where "kJoint24FullMotionQBlockBytes = 640"
definition kJointCount :: nat where "kJointCount = 24"
definition kJointMaskAll :: u32 where "kJointMaskAll = push_bit kJointCount 1 - 1"
definition kQuatNormEpsilon :: real where "kQuatNormEpsilon = 1 / 100000000"

lemmas pose_constants = kPoseControllerType_def kBody24RawType_def kProtocolVersion_def
  kPoseControllerHeaderBytes_def kPoseEntryBytes_def kControllerButtonsEntryBytes_def kEulerEntryBytes_def
  kAimEntryBytes_def kPoseFlagIncludeEuler_def kPoseFlagIncludeAim_def kPoseFlagIncludeButtons_def
  kBody24RawTotalBytes_def kBodyStateBlockBytes_def kJoint24RawPoseQBlockBytes_def
  kJoint24FullMotionQBlockBytes_def kJointCount_def kBody24ProfileFullMotionQuantized_def
  kBody24SpacePicoLocalPose_def kBody24BlockCount_def kBodyStateBlockType_def kJoint24RawPoseQBlockType_def
  kJoint24FullMotionQBlockType_def kPositionScaleCodeMillimeter_def

type_synonym dval = "real option"

record Pose =
  pos_x :: dval
  pos_y :: dval
  pos_z :: dval
  ori_x :: dval
  ori_y :: dval
  ori_z :: dval
  ori_w :: dval

record Vec3 =
  vx :: real
  vy :: real
  vz :: real

record Quat =
  qx :: real
  qy :: real
  qz :: real
  qw :: real

record PoseConfig =
  pc_bind_ip :: string
  pc_bind_port :: int
  allowed_remote_ip :: string
  pc_recv_timeout_ms :: int
  qos_depth :: int
  frame_id_waist :: string
  frame_id_joint24 :: string
  frame_id_hmd :: string
  frame_id_left_controller :: string
  frame_id_right_controller :: string
  frame_id_left_foot :: string
  frame_id_right_foot :: string
  frame_id_left_aim :: string
  frame_id_right_aim :: string
  publish_euler :: bool
  publish_buttons :: bool
  publish_aim :: bool

definition PoseConfig_default :: PoseConfig where
  "PoseConfig_default =
     \<lparr>pc_bind_ip = ''0.0.0.0'', pc_bind_port = 7780, allowed_remote_ip = [], pc_recv_timeout_ms = 100, qos_depth = 10,
      frame_id_waist = ''vr_waist'', frame_id_joint24 = ''vr_tracking'', frame_id_hmd = ''vr_hmd'',
      frame_id_left_controller = ''vr_left_controller'', frame_id_right_controller = ''vr_right_controller'',
      frame_id_left_foot = ''vr_left_foot'', frame_id_right_foot = ''vr_right_foot'',
      frame_id_left_aim = ''vr_left_aim'', frame_id_right_aim = ''vr_right_aim'',
      publish_euler = True, publish_buttons = True, publish_aim = True\<rparr>"

datatype topic = THmd | TLeftController | TRightController

datatype pose_output =
    PoseMsg topic string u64 Pose
  | JoyMsg bool u64 "u32 list" "int list"
  | Joint24 string u64 "Pose list"
  | Joint24Mask u32
  | Waist24 string u64 "Pose list"
  | Waist24Mask u32
  | Warn string

section \<open>Checked reads\<close>

definition rd :: "bytes \<Rightarrow> nat \<Rightarrow> u8 option" where
  "rd d i = (if i < length d then Some (d ! i) else None)"

definition rd16 :: "bytes \<Rightarrow> nat \<Rightarrow> u16 option" where
  "rd16 d i = do { a \<leftarrow> rd d i; b \<leftarrow> rd d (i + 1); Some (ucast a OR push_bit 8 (ucast b)) }"

definition rd32 :: "bytes \<Rightarrow> nat \<Rightarrow> u32 option" where
  "rd32 d i = do { a \<leftarrow> rd d i; b \<leftarrow> rd d (i + 1); c \<leftarrow> rd d (i + 2); e \<leftarrow> rd d (i + 3);
     Some (ucast a OR push_bit 8 (ucast b) OR push_bit 16 (ucast c) OR push_bit 24 (ucast e)) }"

primrec rd64_loop :: "bytes \<Rightarrow> nat \<Rightarrow> nat \<Rightarrow> u64 option" where
  "rd64_loop d p 0 = Some 0"
| "rd64_loop d p (Suc i) = do { v \<leftarrow> rd64_loop d p i; b \<leftarrow> rd d (p + i); Some (v OR push_bit (8 * i) (ucast b)) }"

definition rd64 :: "bytes \<Rightarrow> nat \<Rightarrow> u64 option" where
  "rd64 d p = rd64_loop d p 8"

lemma rd_Some [simp]: "i < length d \<Longrightarrow> rd d i = Some (d ! i)"
  by (simp add: rd_def)

lemma rd16_Some: "i + 1 < length d \<Longrightarrow> rd16 d i = Some (readLeU16 d i)"
  by (simp add: rd16_def readLeU16_def)

lemma rd32_Some: "i + 3 < length d \<Longrightarrow> rd32 d i = Some (readLeU32 d i)"
  by (simp add: rd32_def readLeU32_def)

lemma rd64_loop_ok: "p + n \<le> length d \<Longrightarrow> \<exists>v. rd64_loop d p n = Some v"
  by (induction n) auto

lemma rd64_ok: "p + 8 \<le> length d \<Longrightarrow> \<exists>v. rd64 d p = Some v"
  by (simp add: rd64_def rd64_loop_ok)

section \<open>Quaternions\<close>

definition normSq :: "Quat \<Rightarrow> real" where
  "normSq q = qx q * qx q + qy q * qy q + qz q * qz q + qw q * qw q"

definition normalizeQuat :: "Quat \<Rightarrow> bool \<times> Quat" where
  "normalizeQuat q =
     (if normSq q < kQuatNormEpsilon then (False, q)
      else (let inv_norm = 1 / sqrt (normSq q)
            in (True, \<lparr>qx = qx q * inv_norm, qy = qy q * inv_norm, qz = qz q * inv_norm, qw = qw q * inv_norm\<rparr>)))"

definition conjugateQuat :: "Quat \<Rightarrow> Quat" where
  "conjugateQuat q = \<lparr>qx = - qx q, qy = - qy q, qz = - qz q, qw = qw q\<rparr>"

definition multiplyQuat :: "Quat \<Rightarrow> Quat \<Rightarrow> Quat" where
  "multiplyQuat a b =
     \<lparr>qx = qw a * qx b + qx a * qw b + qy a * qz b - qz a * qy b,
      qy = qw a * qy b - qx a * qz b + qy a * qw b + qz a * qx b,
      qz = qw a * qz b + qx a * qy b - qy a * qx b + qz a * qw b,
      qw = qw a * qw b - qx a * qx b - qy a * qy b - qz a * qz b\<rparr>"

definition rotateVector :: "Quat \<Rightarrow> Vec3 \<Rightarrow> Vec3" where
  "rotateVector q v =
     (let r = multiplyQuat (multiplyQuat q \<lparr>qx = vx v, qy = vy v, qz = vz v, qw = 0\<rparr>) (conjugateQuat q)
      in \<lparr>vx = qx r, vy = qy r, vz = qz r\<rparr>)"

definition poseToTransform :: "Pose \<Rightarrow> (Vec3 \<times> Quat) option" where
  "poseToTransform p =
     (case (pos_x p, pos_y p, pos_z p, ori_x p, ori_y p, ori_z p, ori_w p) of
        (Some x, Some y, Some z, Some a, Some b, Some c, Some w) \<Rightarrow>
          (case normalizeQuat \<lparr>qx = a, qy = b, qz = c, qw = w\<rparr> of
             (ok, q) \<Rightarrow> if ok then Some (\<lparr>vx = x, vy = y, vz = z\<rparr>, q) else None)
      | _ \<Rightarrow> None)"

definition makeRelativePose :: "Vec3 \<Rightarrow> Quat \<Rightarrow> Vec3 \<Rightarrow> Quat \<Rightarrow> Pose" where
  "makeRelativePose joint_position joint_orientation origin_position origin_inverse =
     (let p = rotateVector origin_inverse
            \<lparr>vx = vx joint_position - vx origin_position, vy = vy joint_position - vy origin_position,
             vz = vz joint_position - vz origin_position\<rparr>;
          q = snd (normalizeQuat (multiplyQuat origin_inverse joint_orientation))
      in \<lparr>pos_x = Some (vx p), pos_y = Some (vy p), pos_z = Some (vz p),
          ori_x = Some (qx q), ori_y = Some (qy q), ori_z = Some (qz q), ori_w = Some (qw q)\<rparr>)"

definition makePose :: "dval \<Rightarrow> dval \<Rightarrow> dval \<Rightarrow> dval \<Rightarrow> dval \<Rightarrow> dval \<Rightarrow> dval \<Rightarrow> Pose" where
  "makePose px py pz ox oy oz ow =
     \<lparr>pos_x = px, pos_y = py, pos_z = pz, ori_x = ox, ori_y = oy, ori_z = oz, ori_w = ow\<rparr>"

definition makeIdentityPose :: Pose where
  "makeIdentityPose = makePose (Some 0) (Some 0) (Some 0) (Some 0) (Some 0) (Some 0) (Some 1)"

text \<open>\<open>makePoseMsg\<close> and \<open>makeJoyMsg\<close>: the axes stay the 32 bits of their floats.\<close>

definition makePoseMsg :: "topic \<Rightarrow> string \<Rightarrow> u64 \<Rightarrow> dval \<Rightarrow> dval \<Rightarrow> dval \<Rightarrow> dval \<Rightarrow> dval \<Rightarrow> dval \<Rightarrow> dval \<Rightarrow> pose_output" where
  "makePoseMsg topic frame_id stamp px py pz ox oy oz ow = PoseMsg topic frame_id stamp
     \<lparr>pos_x = px, pos_y = py, pos_z = pz, ori_x = ox, ori_y = oy, ori_z = oz, ori_w = ow\<rparr>"

definition makeJoyMsg :: "bool \<Rightarrow> u64 \<Rightarrow> u32 \<Rightarrow> u8 \<Rightarrow> u32 \<Rightarrow> u8 \<Rightarrow> u8 \<Rightarrow> u8 \<Rightarrow> u8 \<Rightarrow> u32 \<Rightarrow> u32 \<Rightarrow> u8 \<Rightarrow> u8 \<Rightarrow> pose_output" where
  "makeJoyMsg right stamp trigger_value trigger_button grip_value grip_button primary_button secondary_button
     menu_button thumbstick_x thumbstick_y thumbstick_click thumbstick_touch =
     JoyMsg right stamp [trigger_value, grip_value, thumbstick_x, thumbstick_y]
       [uint trigger_button, uint grip_button, uint primary_button, uint secondary_button, uint menu_button,
        uint thumbstick_click, uint thumbstick_touch]"

definition dequantizePosition :: "(real \<Rightarrow> real) \<Rightarrow> u8 \<Rightarrow> u16 \<Rightarrow> dval" where
  "dequantizePosition fl32 scale_code v =
     (if scale_code = kPositionScaleCodeMillimeter then Some (fl32 (real_of_int (sint v) * fl32 (1 / 1000))) else None)"

section \<open>Publishing\<close>

definition waist_pose :: "u32 \<Rightarrow> Pose list \<Rightarrow> Vec3 \<Rightarrow> Quat \<Rightarrow> nat \<Rightarrow> Pose \<times> u32" where
  "waist_pose raw_mask raw_poses pelvis_position pelvis_inverse i =
     (let joint_bit = push_bit i 1
      in if raw_mask AND joint_bit \<noteq> 0
         then (case poseToTransform (raw_poses ! i) of
                 Some (p, q) \<Rightarrow> (makeRelativePose p q pelvis_position pelvis_inverse, joint_bit)
               | None \<Rightarrow> (makeIdentityPose, 0))
         else (makeIdentityPose, 0))"

definition publishJoint24 :: "PoseConfig \<Rightarrow> u64 \<Rightarrow> Pose list \<Rightarrow> u32 \<Rightarrow> pose_output list" where
  "publishJoint24 cfg stamp raw_poses valid_mask =
     (let raw_mask = valid_mask AND kJointMaskAll;
          pelvis = (if raw_mask AND 1 \<noteq> 0 then poseToTransform (raw_poses ! 0) else None);
          (waist_poses, waist_mask) =
            (case pelvis of
               Some (p, q) \<Rightarrow>
                 (let r = map (waist_pose raw_mask raw_poses p (conjugateQuat q)) [0..<kJointCount]
                  in (map fst r, fold (\<lambda>b m. m OR b) (map snd r) 0))
             | None \<Rightarrow> (replicate kJointCount makeIdentityPose, 0))
      in [Joint24 (frame_id_joint24 cfg) stamp raw_poses, Joint24Mask raw_mask,
          Waist24 (frame_id_waist cfg) stamp waist_poses, Waist24Mask waist_mask])"

definition readPoseMsg :: "(u32 \<Rightarrow> dval) \<Rightarrow> bytes \<Rightarrow> u64 \<Rightarrow> topic \<Rightarrow> nat \<Rightarrow> string \<Rightarrow> pose_output option" where
  "readPoseMsg f32 d stamp topic off frame_id = do {
     a \<leftarrow> rd32 d (off + 0); b \<leftarrow> rd32 d (off + 4); c \<leftarrow> rd32 d (off + 8); e \<leftarrow> rd32 d (off + 12);
     f \<leftarrow> rd32 d (off + 16); g \<leftarrow> rd32 d (off + 20); h \<leftarrow> rd32 d (off + 24);
     Some (makePoseMsg topic frame_id stamp (f32 a) (f32 b) (f32 c) (f32 e) (f32 f) (f32 g) (f32 h)) }"

definition publishControllerButtons :: "bytes \<Rightarrow> u64 \<Rightarrow> nat \<Rightarrow> bool \<Rightarrow> pose_output option" where
  "publishControllerButtons d stamp off right = do {
     trigger \<leftarrow> rd32 d (off + 0); b0 \<leftarrow> rd d (off + 4); grip \<leftarrow> rd32 d (off + 5); b1 \<leftarrow> rd d (off + 9);
     b2 \<leftarrow> rd d (off + 10); b3 \<leftarrow> rd d (off + 11); b4 \<leftarrow> rd d (off + 12); sx \<leftarrow> rd32 d (off + 13);
     sy \<leftarrow> rd32 d (off + 17); b5 \<leftarrow> rd d (off + 21); b6 \<leftarrow> rd d (off + 22);
     Some (makeJoyMsg right stamp trigger b0 grip b1 b2 b3 b4 sx sy b5 b6) }"

section \<open>The two formats\<close>

definition expected_bytes :: "u8 \<Rightarrow> nat" where
  "expected_bytes flags = kPoseControllerHeaderBytes + 3 * kPoseEntryBytes
     + (if flags AND kPoseFlagIncludeEuler \<noteq> 0 then 3 * kEulerEntryBytes else 0)
     + (if flags AND kPoseFlagIncludeButtons \<noteq> 0 then 2 * kControllerButtonsEntryBytes else 0)
     + (if flags AND kPoseFlagIncludeAim \<noteq> 0 then 2 * kAimEntryBytes else 0)"

definition parse_pose_controller :: "PoseConfig \<Rightarrow> (u32 \<Rightarrow> dval) \<Rightarrow> bytes \<Rightarrow> pose_output list option" where
  "parse_pose_controller cfg f32 d =
     (if length d < kPoseControllerHeaderBytes then Some []
      else do {
        ts_ms \<leftarrow> rd64 d 1; version \<leftarrow> rd d 9; flags \<leftarrow> rd d 10;
        if version \<noteq> kProtocolVersion then Some [Warn ''unsupported 0x02 version'']
        else if length d < expected_bytes flags then Some [Warn ''short 0x02 pose/controller datagram'']
        else do {
          let stamp = ts_ms * 1000000;
          let off = kPoseControllerHeaderBytes;
          hmd \<leftarrow> readPoseMsg f32 d stamp THmd (off + 0 * kPoseEntryBytes) (frame_id_hmd cfg);
          left \<leftarrow> readPoseMsg f32 d stamp TLeftController (off + 1 * kPoseEntryBytes) (frame_id_left_controller cfg);
          right \<leftarrow> readPoseMsg f32 d stamp TRightController (off + 2 * kPoseEntryBytes) (frame_id_right_controller cfg);
          let poses = [hmd, left, right];
          let off1 = off + 3 * kPoseEntryBytes;
          let off2 = (if flags AND kPoseFlagIncludeEuler \<noteq> 0 then off1 + 3 * kEulerEntryBytes else off1);
          if flags AND kPoseFlagIncludeButtons \<noteq> 0 \<and> publish_buttons cfg
          then do {
            j0 \<leftarrow> publishControllerButtons d stamp (off2 + 0 * kControllerButtonsEntryBytes) False;
            j1 \<leftarrow> publishControllerButtons d stamp (off2 + 1 * kControllerButtonsEntryBytes) True;
            Some (poses @ [j0, j1]) }
          else Some poses }})"

definition readBlockHeader :: "bytes \<Rightarrow> nat \<Rightarrow> nat \<Rightarrow> u8 \<Rightarrow> nat \<Rightarrow> bool option" where
  "readBlockHeader d total_len off expected_type expected_len =
     (if total_len < off + 4 then Some False
      else do {
        block_type \<leftarrow> rd d off; block_bytes \<leftarrow> rd16 d (off + 2);
        Some (\<not> (block_type \<noteq> expected_type \<or> unat block_bytes \<noteq> expected_len \<or> total_len < off + unat block_bytes)) })"

definition read_joint :: "(u32 \<Rightarrow> dval) \<Rightarrow> (real \<Rightarrow> real) \<Rightarrow> bytes \<Rightarrow> u8 \<Rightarrow> nat \<Rightarrow> Pose option" where
  "read_joint f32 fl32 d scale off = do {
     x \<leftarrow> rd16 d off; y \<leftarrow> rd16 d (off + 2); z \<leftarrow> rd16 d (off + 4);
     a \<leftarrow> rd32 d (off + 6); b \<leftarrow> rd32 d (off + 10); c \<leftarrow> rd32 d (off + 14); w \<leftarrow> rd32 d (off + 18);
     Some (makePose (dequantizePosition fl32 scale x) (dequantizePosition fl32 scale y)
       (dequantizePosition fl32 scale z) (f32 a) (f32 b) (f32 c) (f32 w)) }"

primrec read_joints :: "(nat \<Rightarrow> Pose option) \<Rightarrow> nat \<Rightarrow> Pose list option" where
  "read_joints r 0 = Some []"
| "read_joints r (Suc n) = do { ps \<leftarrow> read_joints r n; p \<leftarrow> r n; Some (ps @ [p]) }"

definition parse_body24 :: "PoseConfig \<Rightarrow> (u32 \<Rightarrow> dval) \<Rightarrow> (real \<Rightarrow> real) \<Rightarrow> bytes \<Rightarrow> pose_output list option" where
  "parse_body24 cfg f32 fl32 d =
     (if length d < kBody24RawTotalBytes then Some [Warn ''short 0x09 body24 datagram'']
      else do {
        version \<leftarrow> rd d 1; total_bytes \<leftarrow> rd16 d 2; ts_ms \<leftarrow> rd64 d 4; profile \<leftarrow> rd d 12;
        body_space \<leftarrow> rd d 13; block_count \<leftarrow> rd d 14;
        if version \<noteq> kProtocolVersion \<or> unat total_bytes \<noteq> kBody24RawTotalBytes \<or> profile \<noteq> kBody24ProfileFullMotionQuantized
           \<or> body_space \<noteq> kBody24SpacePicoLocalPose \<or> block_count \<noteq> kBody24BlockCount
        then Some [Warn ''invalid 0x09 body24 header'']
        else do {
          let stamp = ts_ms * 1000000;
          let total_len = unat total_bytes;
          ok1 \<leftarrow> readBlockHeader d total_len 16 kBodyStateBlockType kBodyStateBlockBytes;
          if \<not> ok1 then Some [Warn ''invalid 0x09 body state block'']
          else do {
            let body_state = 16 + 4;
            state_result \<leftarrow> rd32 d body_state; data_result \<leftarrow> rd32 d (body_state + 4);
            is_tracking \<leftarrow> rd d (body_state + 8); m1 \<leftarrow> rd32 d (body_state + 12);
            body_timestamp \<leftarrow> rd64 d (body_state + 28);
            let off2 = 16 + kBodyStateBlockBytes;
            ok2 \<leftarrow> readBlockHeader d total_len off2 kJoint24RawPoseQBlockType kJoint24RawPoseQBlockBytes;
            if \<not> ok2 then Some [Warn ''invalid 0x09 joint pose block'']
            else do {
              let payload = off2 + 4;
              joint_count \<leftarrow> rd d payload; scale \<leftarrow> rd d (payload + 2); m2 \<leftarrow> rd32 d (payload + 4);
              if unat joint_count \<noteq> kJointCount \<or> scale \<noteq> kPositionScaleCodeMillimeter then Some [Warn ''invalid 0x09 joint pose payload'']
              else do {
                raw_poses \<leftarrow> read_joints (\<lambda>i. read_joint f32 fl32 d scale (payload + 8 + i * 22)) kJointCount;
                ok3 \<leftarrow> readBlockHeader d total_len (16 + kBodyStateBlockBytes + kJoint24RawPoseQBlockBytes)
                  kJoint24FullMotionQBlockType kJoint24FullMotionQBlockBytes;
                if \<not> ok3 then Some [Warn ''invalid 0x09 joint motion block'']
                else Some (publishJoint24 cfg stamp raw_poses
                  (if state_result = 0 \<and> data_result = 0 \<and> is_tracking \<noteq> 0
                   then (m1 AND kJointMaskAll) AND (m2 AND kJointMaskAll) else 0)) }}}}})"

definition parseAndPublish :: "PoseConfig \<Rightarrow> (u32 \<Rightarrow> dval) \<Rightarrow> (real \<Rightarrow> real) \<Rightarrow> bytes \<Rightarrow> pose_output list option" where
  "parseAndPublish cfg f32 fl32 d =
     (if length d < 1 then Some []
      else do {
        ty \<leftarrow> rd d 0;
        if ty = kPoseControllerType then parse_pose_controller cfg f32 d
        else if ty \<noteq> kBody24RawType then Some []
        else parse_body24 cfg f32 fl32 d })"

section \<open>The receiver object\<close>

text \<open>\<open>ipMatchesAllowed\<close>; \<open>src_ip\<close> is what \<open>inet_ntop\<close> printed.\<close>

definition ipMatchesAllowed :: "string option \<Rightarrow> string \<Rightarrow> bool" where
  "ipMatchesAllowed src_ip allowed_ip =
     (if allowed_ip = [] then True else (case src_ip of None \<Rightarrow> False | Some s \<Rightarrow> allowed_ip = s))"

record PoseUdpReceiver =
  pr_cfg :: PoseConfig
  pr_running :: bool
  pr_thread :: bool
  pr_sockfd :: int
  last_warn :: int

definition PoseUdpReceiver_init :: "PoseConfig \<Rightarrow> PoseUdpReceiver" where
  "PoseUdpReceiver_init cfg =
     \<lparr>pr_cfg = cfg, pr_running = False, pr_thread = False, pr_sockfd = -1, last_warn = 0\<rparr>"

text \<open>\<open>start\<close>: the answers of \<open>socket\<close>, \<open>inet_pton\<close> and \<open>bind\<close> are arguments.\<close>

definition pose_start :: "int \<Rightarrow> int \<Rightarrow> int \<Rightarrow> PoseUdpReceiver \<Rightarrow> bool \<times> PoseUdpReceiver" where
  "pose_start sock pton bound r =
     (if pr_running r then (True, r)
      else (let r1 = r\<lparr>pr_running := True, pr_sockfd := sock\<rparr>
            in if sock < 0 then (False, r1\<lparr>pr_running := False\<rparr>)
               else if pton \<le> 0 then (False, r1\<lparr>pr_sockfd := -1, pr_running := False\<rparr>)
               else if bound < 0 then (False, r1\<lparr>pr_sockfd := -1, pr_running := False\<rparr>)
               else (True, r1\<lparr>pr_thread := True\<rparr>)))"

definition pose_stop :: "PoseUdpReceiver \<Rightarrow> PoseUdpReceiver" where
  "pose_stop r =
     (if \<not> pr_running r then r
      else (let r1 = r\<lparr>pr_running := False\<rparr>;
                r2 = (if 0 \<le> pr_sockfd r1 then r1\<lparr>pr_sockfd := -1\<rparr> else r1)
            in if pr_thread r2 then r2\<lparr>pr_thread := False\<rparr> else r2))"

text \<open>\<open>warnThrottled\<close>: at most one warning per second of the clock (nanoseconds).\<close>

definition warnThrottled :: "int \<Rightarrow> string \<Rightarrow> PoseUdpReceiver \<Rightarrow> pose_output list \<times> PoseUdpReceiver" where
  "warnThrottled now msg r =
     (if 1000000000 < now - last_warn r then ([Warn msg], r\<lparr>last_warn := now\<rparr>) else ([], r))"

text \<open>The outputs of the parser in order, its warnings through \<open>warnThrottled\<close>.\<close>

fun emit :: "int \<Rightarrow> pose_output list \<Rightarrow> PoseUdpReceiver \<Rightarrow> pose_output list \<times> PoseUdpReceiver" where
  "emit now [] r = ([], r)"
| "emit now (Warn msg # os) r = (let (w, r1) = warnThrottled now msg r; (ws, r2) = emit now os r1 in (w @ ws, r2))"
| "emit now (x # os) r = (let (ws, r2) = emit now os r in (x # ws, r2))"

definition handleDatagram ::
  "(u32 \<Rightarrow> dval) \<Rightarrow> (real \<Rightarrow> real) \<Rightarrow> int \<Rightarrow> bytes \<Rightarrow> PoseUdpReceiver \<Rightarrow> (pose_output list \<times> PoseUdpReceiver) option" where
  "handleDatagram f32 fl32 now d r = do { os \<leftarrow> parseAndPublish (pr_cfg r) f32 fl32 d; Some (emit now os r) }"

text \<open>One pass of \<open>recvThreadMain\<close>. A receive that failed carries whether \<open>errno\<close> said to try again;
  the buffer holds 2048 bytes. \<open>running_now\<close> is the flag as read after a failure.\<close>

definition pose_recv_iteration ::
  "(u32 \<Rightarrow> dval) \<Rightarrow> (real \<Rightarrow> real) \<Rightarrow> int \<Rightarrow> bool \<Rightarrow> bool + bytes \<times> string option \<Rightarrow> PoseUdpReceiver
     \<Rightarrow> (pose_output list \<times> PoseUdpReceiver) option" where
  "pose_recv_iteration f32 fl32 now running_now received r =
     (case received of
        Inl again \<Rightarrow>
          if again then Some ([], r)
          else if \<not> running_now then Some ([], r)
          else Some (warnThrottled now ''recvfrom failed'' r)
      | Inr (d, src_ip) \<Rightarrow>
          if \<not> ipMatchesAllowed src_ip (allowed_remote_ip (pr_cfg r)) then Some ([], r)
          else handleDatagram f32 fl32 now (take 2048 d) r)"

lemma pose_start_running: "pose_start sock pton bound r = (ok, r') \<Longrightarrow> pr_running r' = ok"
  by (auto simp: pose_start_def Let_def split: if_splits)

lemma pose_start_failure_closed: "pose_start sock pton bound r = (False, r') \<Longrightarrow> pr_sockfd r' < 0"
  by (auto simp: pose_start_def Let_def split: if_splits)

lemma pose_stop_start: "pr_running r \<Longrightarrow> 0 \<le> pr_sockfd r \<Longrightarrow> pr_thread r \<Longrightarrow>
  pose_stop r = r\<lparr>pr_running := False, pr_sockfd := -1, pr_thread := False\<rparr>"
  by (simp add: pose_stop_def Let_def)


section \<open>No read past the end\<close>

lemma bind_safe: "\<lbrakk>X \<noteq> None; \<And>x. X = Some x \<Longrightarrow> f x \<noteq> None\<rbrakk> \<Longrightarrow> Option.bind X f \<noteq> None"
  by (cases X) auto

lemma if_safe: "\<lbrakk>c \<Longrightarrow> a \<noteq> None; \<not> c \<Longrightarrow> b \<noteq> None\<rbrakk> \<Longrightarrow> (if c then a else b) \<noteq> None"
  by simp

lemma rd_safe: "i < length d \<Longrightarrow> rd d i \<noteq> None"
  by simp

lemma rd16_safe: "i + 1 < length d \<Longrightarrow> rd16 d i \<noteq> None"
  by (simp add: rd16_Some)

lemma rd32_safe: "i + 3 < length d \<Longrightarrow> rd32 d i \<noteq> None"
  by (simp add: rd32_Some)

lemma rd64_safe: "p + 7 < length d \<Longrightarrow> rd64 d p \<noteq> None"
  using rd64_ok [of p d] by auto

lemmas read_safe = bind_safe rd_safe rd16_safe rd32_safe rd64_safe

lemma readPoseMsg_safe: "off + 27 < length d \<Longrightarrow> readPoseMsg f32 d stamp topic off frame \<noteq> None"
  unfolding readPoseMsg_def by (intro read_safe) auto

lemma publishControllerButtons_safe: "off + 22 < length d \<Longrightarrow> publishControllerButtons d stamp off right \<noteq> None"
  unfolding publishControllerButtons_def by (intro read_safe) auto

lemma read_joint_safe: "off + 21 < length d \<Longrightarrow> read_joint f32 fl32 d scale off \<noteq> None"
  unfolding read_joint_def by (intro read_safe) auto

lemma read_joints_safe: "(\<And>i. i < n \<Longrightarrow> r i \<noteq> None) \<Longrightarrow> read_joints r n \<noteq> None"
proof (induction n)
  case (Suc n)
  then have "read_joints r n \<noteq> None" "r n \<noteq> None" by auto
  then show ?case by auto
qed simp

lemma readBlockHeader_safe: "total_len \<le> length d \<Longrightarrow> readBlockHeader d total_len off ty len \<noteq> None"
proof (cases "total_len < off + 4")
  case False
  assume "total_len \<le> length d"
  with False show ?thesis
    unfolding readBlockHeader_def by (simp only: if_False, intro read_safe) auto
qed (simp add: readBlockHeader_def)

lemma parse_pose_controller_safe: "parse_pose_controller cfg f32 d \<noteq> None"
proof (cases "length d < kPoseControllerHeaderBytes")
  case False
  then have len: "13 \<le> length d" by (simp add: pose_constants)
  show ?thesis
    unfolding parse_pose_controller_def Let_def if_not_P [OF False]
  proof (intro bind_safe)
    show "rd64 d 1 \<noteq> None" "rd d 9 \<noteq> None" "rd d 10 \<noteq> None"
      using len rd64_safe [of 1 d] by auto
  next
    fix ts version flags
    let ?off = "if flags AND kPoseFlagIncludeEuler \<noteq> 0
       then kPoseControllerHeaderBytes + 3 * kPoseEntryBytes + 3 * kEulerEntryBytes
       else kPoseControllerHeaderBytes + 3 * kPoseEntryBytes"
    have poses: "readPoseMsg f32 d s tp (kPoseControllerHeaderBytes + k * kPoseEntryBytes) fr \<noteq> None"
      if "\<not> length d < expected_bytes flags" "k < 3" for s tp fr k
      using that by (intro readPoseMsg_safe) (auto simp: expected_bytes_def pose_constants split: if_splits)
    have buttons: "publishControllerButtons d s (?off + k * kControllerButtonsEntryBytes) rt \<noteq> None"
      if "\<not> length d < expected_bytes flags" "k < 2" "flags AND kPoseFlagIncludeButtons \<noteq> 0" for s rt k
      using that by (intro publishControllerButtons_safe) (auto simp: expected_bytes_def pose_constants split: if_splits)
    show "(if version \<noteq> kProtocolVersion then Some [Warn ''unsupported 0x02 version'']
        else if length d < expected_bytes flags then Some [Warn ''short 0x02 pose/controller datagram'']
        else readPoseMsg f32 d (ts * 1000000) THmd (kPoseControllerHeaderBytes + 0 * kPoseEntryBytes) (frame_id_hmd cfg) \<bind>
          (\<lambda>hmd. readPoseMsg f32 d (ts * 1000000) TLeftController (kPoseControllerHeaderBytes + 1 * kPoseEntryBytes)
              (frame_id_left_controller cfg) \<bind>
          (\<lambda>left. readPoseMsg f32 d (ts * 1000000) TRightController (kPoseControllerHeaderBytes + 2 * kPoseEntryBytes)
              (frame_id_right_controller cfg) \<bind>
          (\<lambda>right. if flags AND kPoseFlagIncludeButtons \<noteq> 0 \<and> publish_buttons cfg
             then publishControllerButtons d (ts * 1000000) (?off + 0 * kControllerButtonsEntryBytes) False \<bind>
               (\<lambda>j0. publishControllerButtons d (ts * 1000000) (?off + 1 * kControllerButtonsEntryBytes) True \<bind>
               (\<lambda>j1. Some ([hmd, left, right] @ [j0, j1])))
             else Some [hmd, left, right])))) \<noteq> None"
      by (intro if_safe bind_safe poses buttons) auto
  qed
qed (simp add: parse_pose_controller_def)

section \<open>The layout of a body datagram\<close>

text \<open>What \<open>readLeU64\<close> computes when the bytes are there.\<close>

abbreviation u64_at :: "bytes \<Rightarrow> nat \<Rightarrow> u64" where
  "u64_at d p \<equiv> foldl (\<lambda>v i. v OR push_bit (8 * i) (ucast (d ! (p + i)))) 0 [0..<8]"

lemma rd64_Some: "p + 7 < length d \<Longrightarrow> rd64 d p = Some (u64_at d p)"
proof -
  assume a: "p + 7 < length d"
  have "n \<le> 8 \<Longrightarrow> rd64_loop d p n = Some (foldl (\<lambda>v i. v OR push_bit (8 * i) (ucast (d ! (p + i)))) 0 [0..<n])" for n
    by (induction n) (use a in auto)
  then show ?thesis by (simp add: rd64_def del: upt_rec_numeral)
qed

definition joint_at :: "(u32 \<Rightarrow> dval) \<Rightarrow> (real \<Rightarrow> real) \<Rightarrow> bytes \<Rightarrow> nat \<Rightarrow> Pose" where
  "joint_at f32 fl32 d p =
     (let q = (\<lambda>k. Some (fl32 (real_of_int (sint (readLeU16 d (p + k))) * fl32 (1 / 1000))))
      in makePose (q 0) (q 2) (q 4) (f32 (readLeU32 d (p + 6))) (f32 (readLeU32 d (p + 10)))
           (f32 (readLeU32 d (p + 14))) (f32 (readLeU32 d (p + 18))))"

definition block_at :: "bytes \<Rightarrow> nat \<Rightarrow> u8 \<Rightarrow> u16 \<Rightarrow> bool" where
  "block_at d off ty len = (d ! off = ty \<and> readLeU16 d (off + 2) = len)"

lemma readBlockHeader_eq:
  assumes "off + 4 \<le> total_len" "total_len \<le> length d" "off + unat len \<le> total_len"
  shows "readBlockHeader d total_len off ty (unat len) = Some (block_at d off ty len)"
  using assms by (auto simp: readBlockHeader_def block_at_def rd16_Some word_unat_eq_iff)

lemma read_joint_eq:
  "off + 21 < length d \<Longrightarrow> read_joint f32 fl32 d kPositionScaleCodeMillimeter off = Some (joint_at f32 fl32 d off)"
  by (simp add: read_joint_def joint_at_def rd16_Some rd32_Some dequantizePosition_def)

lemma read_joints_eq: "(\<And>i. i < n \<Longrightarrow> r i = Some (h i)) \<Longrightarrow> read_joints r n = Some (map h [0..<n])"
  by (induction n) auto

definition body24_header_ok :: "bytes \<Rightarrow> bool" where
  "body24_header_ok d \<longleftrightarrow> d ! 1 = 1 \<and> readLeU16 d 2 = 1236 \<and> d ! 12 = 1 \<and> d ! 13 = 0 \<and> d ! 14 = 3"

text \<open>The joints that count as valid: both masks, and only while the headset reports tracking.\<close>

definition body24_mask :: "bytes \<Rightarrow> u32" where
  "body24_mask d =
     (if readLeU32 d 20 = 0 \<and> readLeU32 d 24 = 0 \<and> d ! 28 \<noteq> 0
      then readLeU32 d 32 AND readLeU32 d 64 AND kJointMaskAll else 0)"

lemma parse_body24_eq:
  assumes len: "1236 \<le> length d"
  shows "parse_body24 cfg f32 fl32 d = Some
    (if \<not> body24_header_ok d then [Warn ''invalid 0x09 body24 header'']
     else if \<not> block_at d 16 1 40 then [Warn ''invalid 0x09 body state block'']
     else if \<not> block_at d 56 2 540 then [Warn ''invalid 0x09 joint pose block'']
     else if \<not> (d ! 60 = 24 \<and> d ! 62 = 1) then [Warn ''invalid 0x09 joint pose payload'']
     else if \<not> block_at d 596 3 640 then [Warn ''invalid 0x09 joint motion block'']
     else publishJoint24 cfg (u64_at d 4 * 1000000) (map (\<lambda>i. joint_at f32 fl32 d (68 + i * 22)) [0..<24]) (body24_mask d))"
proof -
  have short: "\<not> length d < kBody24RawTotalBytes" using len by (simp add: pose_constants)
  have reads: "rd d (Suc 0) = Some (d ! 1)" "rd16 d 2 = Some (readLeU16 d 2)" "rd64 d 4 = Some (u64_at d 4)"
    "rd d 12 = Some (d ! 12)" "rd d 13 = Some (d ! 13)" "rd d 14 = Some (d ! 14)"
    using len by (auto simp: rd16_Some rd64_Some simp del: upt_rec_numeral)
  have state: "rd32 d 20 = Some (readLeU32 d 20)" "rd32 d 24 = Some (readLeU32 d 24)" "rd d 28 = Some (d ! 28)"
    "rd32 d 32 = Some (readLeU32 d 32)" "rd64 d 48 = Some (u64_at d 48)"
    using len by (auto simp: rd32_Some rd64_Some simp del: upt_rec_numeral)
  have pay: "rd d 60 = Some (d ! 60)" "rd d 62 = Some (d ! 62)" "rd32 d 64 = Some (readLeU32 d 64)"
    using len by (auto simp: rd32_Some)
  have joints: "read_joints (\<lambda>i. read_joint f32 fl32 d 1 (68 + i * 22)) 24
      = Some (map (\<lambda>i. joint_at f32 fl32 d (68 + i * 22)) [0..<24])"
    using len read_joint_eq [of "68 + i * 22" d f32 fl32 for i]
    by (intro read_joints_eq) (simp add: kPositionScaleCodeMillimeter_def)
  have blocks: "readBlockHeader d 1236 16 1 40 = Some (block_at d 16 1 40)"
    "readBlockHeader d 1236 56 2 540 = Some (block_at d 56 2 540)"
    "readBlockHeader d 1236 596 3 640 = Some (block_at d 596 3 640)"
    using readBlockHeader_eq [of 16 1236 d 40 1] readBlockHeader_eq [of 56 1236 d 540 2]
      readBlockHeader_eq [of 596 1236 d 640 3] len by auto
  have hdr: "(unat (readLeU16 d 2) = 1236) = (readLeU16 d 2 = 1236)"
    "(unat (d ! 60) = 24) = (d ! 60 = 24)"
    by (auto simp: word_unat_eq_iff)
  have masks: "(a AND kJointMaskAll) AND b AND kJointMaskAll = a AND b AND kJointMaskAll" for a b
    by (simp add: ac_simps)
  show ?thesis
    by (cases "body24_header_ok d"; cases "block_at d 16 1 40"; cases "block_at d 56 2 540"; cases "block_at d 596 3 640";
        cases "d ! 60 = 24"; cases "d ! 62 = 1")
      (simp_all add: parse_body24_def short reads state pay joints blocks hdr pose_constants body24_header_ok_def
         body24_mask_def Let_def masks short [unfolded kBody24RawTotalBytes_def] del: upt_rec_numeral)
qed

section \<open>Rotations\<close>

lemma normSq_mult: "normSq (multiplyQuat a b) = normSq a * normSq b"
  by (simp add: normSq_def multiplyQuat_def algebra_simps)

lemma normSq_conj [simp]: "normSq (conjugateQuat q) = normSq q"
  by (simp add: normSq_def conjugateQuat_def)

lemma conj_conj [simp]: "conjugateQuat (conjugateQuat q) = q"
  by (simp add: conjugateQuat_def)

lemma mult_assoc_quat: "multiplyQuat (multiplyQuat a b) c = multiplyQuat a (multiplyQuat b c)"
  by (simp add: multiplyQuat_def algebra_simps)

lemma mult_conj: "multiplyQuat q (conjugateQuat q) = \<lparr>qx = 0, qy = 0, qz = 0, qw = normSq q\<rparr>"
  by (simp add: multiplyQuat_def conjugateQuat_def normSq_def algebra_simps)

lemma mult_one [simp]:
  "multiplyQuat \<lparr>qx = 0, qy = 0, qz = 0, qw = 1\<rparr> q = q"
  "multiplyQuat q \<lparr>qx = 0, qy = 0, qz = 0, qw = 1\<rparr> = q"
  by (simp_all add: multiplyQuat_def)

abbreviation pure :: "Vec3 \<Rightarrow> Quat" where
  "pure v \<equiv> \<lparr>qx = vx v, qy = vy v, qz = vz v, qw = 0\<rparr>"

lemma rotate_pure: "pure (rotateVector q v) = multiplyQuat (multiplyQuat q (pure v)) (conjugateQuat q)"
  by (simp add: rotateVector_def multiplyQuat_def conjugateQuat_def Let_def algebra_simps)

lemma pure_inject: "pure v = pure u \<Longrightarrow> v = u"
  by simp

lemma rotate_back: "normSq q = 1 \<Longrightarrow> rotateVector q (rotateVector (conjugateQuat q) v) = v"
proof (rule pure_inject)
  assume q: "normSq q = 1"
  have "pure (rotateVector q (rotateVector (conjugateQuat q) v))
      = multiplyQuat (multiplyQuat (multiplyQuat q (conjugateQuat q)) (pure v)) (multiplyQuat q (conjugateQuat q))"
    by (simp only: rotate_pure conj_conj mult_assoc_quat)
  then show "pure (rotateVector q (rotateVector (conjugateQuat q) v)) = pure v"
    by (simp add: mult_conj q)
qed

lemma rotate_length:
  "normSq q = 1 \<Longrightarrow> normSq (pure (rotateVector q v)) = normSq (pure v)"
  by (simp only: rotate_pure normSq_mult normSq_conj mult_1 mult_1_right)

lemma normalizeQuat_unit: "normSq q = 1 \<Longrightarrow> normalizeQuat q = (True, q)"
  by (simp add: normalizeQuat_def kQuatNormEpsilon_def)

lemma normalizeQuat_norm:
  assumes "normalizeQuat q = (True, q')"
  shows "normSq q' = 1"
proof -
  have pos: "0 < normSq q"
    using assms by (auto simp: normalizeQuat_def kQuatNormEpsilon_def split: if_splits)
  let ?n = "1 / sqrt (normSq q)"
  have scaled: "normSq \<lparr>qx = qx q * n, qy = qy q * n, qz = qz q * n, qw = qw q * n\<rparr> = normSq q * (n * n)" for n
    by (simp add: normSq_def algebra_simps)
  have "q' = \<lparr>qx = qx q * ?n, qy = qy q * ?n, qz = qz q * ?n, qw = qw q * ?n\<rparr>"
    using assms by (simp add: normalizeQuat_def Let_def split: if_splits)
  then have "normSq q' = normSq q * (?n * ?n)" by (simp only: scaled)
  also have "\<dots> = 1" using pos by simp
  finally show ?thesis .
qed

lemma poseToTransform_unit: "poseToTransform p = Some (v, q) \<Longrightarrow> normSq q = 1"
  by (auto simp: poseToTransform_def split: option.splits prod.splits if_splits intro: normalizeQuat_norm)

lemma poseToTransform_of:
  "normSq q = 1 \<Longrightarrow> poseToTransform \<lparr>pos_x = Some (vx v), pos_y = Some (vy v), pos_z = Some (vz v),
     ori_x = Some (qx q), ori_y = Some (qy q), ori_z = Some (qz q), ori_w = Some (qw q)\<rparr> = Some (v, q)"
  by (cases v; cases q) (simp add: poseToTransform_def normalizeQuat_unit)

text \<open>The pose of a joint in the tracking frame, from its pose in the waist frame.\<close>

definition compose_pose :: "Vec3 \<times> Quat \<Rightarrow> Vec3 \<times> Quat \<Rightarrow> Vec3 \<times> Quat" where
  "compose_pose W J =
     (case (W, J) of ((p0, q0), (p, q)) \<Rightarrow>
        (let r = rotateVector q0 p in \<lparr>vx = vx p0 + vx r, vy = vy p0 + vy r, vz = vz p0 + vz r\<rparr>, multiplyQuat q0 q))"

lemma makeRelativePose_compose:
  assumes "normSq q0 = 1" "normSq q = 1"
  shows "map_option (compose_pose (p0, q0)) (poseToTransform (makeRelativePose p q p0 (conjugateQuat q0))) = Some (p, q)"
proof -
  let ?d = "\<lparr>vx = vx p - vx p0, vy = vy p - vy p0, vz = vz p - vz p0\<rparr>"
  let ?r = "multiplyQuat (conjugateQuat q0) q"
  have r: "normalizeQuat ?r = (True, ?r)"
    using assms by (intro normalizeQuat_unit) (simp add: normSq_mult)
  have unit: "normSq ?r = 1" using assms by (simp add: normSq_mult)
  have "poseToTransform (makeRelativePose p q p0 (conjugateQuat q0)) = Some (rotateVector (conjugateQuat q0) ?d, ?r)"
    using poseToTransform_of [OF unit] r by (simp add: makeRelativePose_def Let_def)
  then show ?thesis
    using assms by (simp add: compose_pose_def rotate_back Let_def mult_assoc_quat [symmetric] mult_conj)
qed

lemma makeRelativePose_self:
  assumes "normSq q = 1"
  shows "makeRelativePose p q p (conjugateQuat q) = makeIdentityPose"
proof -
  have "multiplyQuat (conjugateQuat q) q = \<lparr>qx = 0, qy = 0, qz = 0, qw = 1\<rparr>"
    using mult_conj [of "conjugateQuat q"] assms by simp
  then show ?thesis
    by (simp add: makeRelativePose_def normalizeQuat_unit normSq_def rotateVector_def multiplyQuat_def
        makeIdentityPose_def makePose_def Let_def)
qed

section \<open>The waist message\<close>

lemma bit_kJointMaskAll [simp]: "bit kJointMaskAll i \<longleftrightarrow> i < 24"
proof -
  have "kJointMaskAll = (mask 24 :: u32)" by (simp add: kJointMaskAll_def kJointCount_def mask_eq_exp_minus_1)
  then show ?thesis unfolding \<open>kJointMaskAll = mask 24\<close> bit_mask_iff by auto
qed

lemma bit_fold_or: "bit (fold (\<lambda>b m. m OR b) bs (a :: u32)) n \<longleftrightarrow> bit a n \<or> (\<exists>b\<in>set bs. bit b n)"
  by (induction bs arbitrary: a) (auto simp: bit_or_iff)

lemma and_joint_bit: "(m :: u32) AND 2 ^ i \<noteq> 0 \<longleftrightarrow> bit m i"
  by (simp add: bit_iff_and_push_bit_not_eq_0)

lemma waist_pose_bit:
  "i < 24 \<Longrightarrow> bit (snd (waist_pose m ps p q i)) n \<longleftrightarrow> n = i \<and> bit m i \<and> poseToTransform (ps ! i) \<noteq> None"
  by (auto simp: waist_pose_def Let_def bit_exp_iff and_joint_bit split: option.splits)

lemma waist_pose_fst:
  "fst (waist_pose m ps p q i) =
     (if bit m i then (case poseToTransform (ps ! i) of Some (a, b) \<Rightarrow> makeRelativePose a b p q | None \<Rightarrow> makeIdentityPose)
      else makeIdentityPose)"
  by (auto simp: waist_pose_def Let_def and_joint_bit split: option.splits)

lemma publishJoint24_eq:
  assumes "length ps = 24" "bit m 0" "poseToTransform (ps ! 0) = Some (p0, q0)"
  shows "publishJoint24 cfg t ps m =
    [Joint24 (frame_id_joint24 cfg) t ps, Joint24Mask (m AND kJointMaskAll),
     Waist24 (frame_id_waist cfg) t (map (\<lambda>i. fst (waist_pose (m AND kJointMaskAll) ps p0 (conjugateQuat q0) i)) [0..<24]),
     Waist24Mask (fold (\<lambda>b m. m OR b) (map (\<lambda>i. snd (waist_pose (m AND kJointMaskAll) ps p0 (conjugateQuat q0) i)) [0..<24]) 0)]"
proof -
  have "(m AND kJointMaskAll) AND 1 \<noteq> 0"
    using assms(2) and_joint_bit [of "m AND kJointMaskAll" 0] by (simp add: bit_and_iff)
  then show ?thesis
    using assms by (simp add: publishJoint24_def Let_def comp_def kJointCount_def del: upt_rec_numeral)
qed

lemma parse_defined: "parseAndPublish cfg f32 fl32 d \<noteq> None"
proof -
  have "parse_body24 cfg f32 fl32 d \<noteq> None"
    by (cases "1236 \<le> length d") (simp_all only: parse_body24_eq, simp_all add: parse_body24_def kBody24RawTotalBytes_def)
  then show ?thesis
    unfolding parseAndPublish_def by (intro if_safe bind_safe parse_pose_controller_safe) auto
qed

text \<open>C20: a pose datagram of any content and length is parsed without reading past its end, in both formats.\<close>

theorem pose_parser_reads_in_bounds: "parseAndPublish cfg f32 fl32 d \<noteq> None"
  by (rule parse_defined)

text \<open>a well-formed body datagram is published with its time in nanoseconds, the joints decoded at
  their offsets, and as valid joints exactly those of both masks, and none unless both result codes
  are zero and the headset is tracking. One bad header or block byte, and only a warning comes out.\<close>

theorem body24_published_from_its_fields:
  assumes "1236 \<le> length d" "d ! 0 = 9"
  shows "parseAndPublish cfg f32 fl32 d = Some
    (if body24_header_ok d \<and> block_at d 16 1 40 \<and> block_at d 56 2 540 \<and> d ! 60 = 24 \<and> d ! 62 = 1 \<and> block_at d 596 3 640
     then publishJoint24 cfg (u64_at d 4 * 1000000) (map (\<lambda>i. joint_at f32 fl32 d (68 + i * 22)) [0..<24]) (body24_mask d)
     else [Warn (if \<not> body24_header_ok d then ''invalid 0x09 body24 header''
                 else if \<not> block_at d 16 1 40 then ''invalid 0x09 body state block''
                 else if \<not> block_at d 56 2 540 then ''invalid 0x09 joint pose block''
                 else if \<not> (d ! 60 = 24 \<and> d ! 62 = 1) then ''invalid 0x09 joint pose payload''
                 else ''invalid 0x09 joint motion block'')])"
proof -
  have "\<not> length d < 1" using assms(1) by linarith
  then have "parseAndPublish cfg f32 fl32 d = parse_body24 cfg f32 fl32 d"
    using assms(2) by (simp add: parseAndPublish_def kPoseControllerType_def kBody24RawType_def)
  then show ?thesis by (simp only: parse_body24_eq [OF assms(1)]) (simp del: upt_rec_numeral)
qed

definition sample_body24 :: bytes where
  "sample_body24 = [9, 1, 0xD4, 4, 1, 0, 0, 0, 0, 0, 0, 0, 1, 0, 3, 0]
     @ [1, 0, 40, 0, 0, 0, 0, 0, 0, 0, 0, 0, 1, 0, 0, 0, 255, 255, 255, 255] @ replicate 20 0
     @ [2, 0, 0x1C, 2, 24, 0, 1, 0, 3, 0, 0, 0] @ replicate 528 0 @ [3, 0, 0x80, 2] @ replicate 636 0"

theorem body24_published_from_its_fields_witness:
  "parseAndPublish PoseConfig_default (\<lambda>u. Some 0) (\<lambda>x. x) sample_body24
     = Some (publishJoint24 PoseConfig_default 1000000
         (map (\<lambda>i. joint_at (\<lambda>u. Some 0) (\<lambda>x. x) sample_body24 (68 + i * 22)) [0..<24]) 3)
   \<and> parseAndPublish PoseConfig_default (\<lambda>u. Some 0) (\<lambda>x. x) (sample_body24[60 := 23])
     = Some [Warn ''invalid 0x09 joint pose payload'']"
proof
  let ?d = sample_body24
  have len: "1236 \<le> length ?d" "?d ! 0 = 9" by (simp_all add: sample_body24_def)
  have ok: "body24_header_ok ?d" "block_at ?d 16 1 40" "block_at ?d 56 2 540" "block_at ?d 596 3 640"
    "?d ! 60 = 24" "?d ! 62 = 1"
    by (simp_all add: sample_body24_def body24_header_ok_def block_at_def readLeU16_def nth_append)
  have msk: "body24_mask ?d = 3"
    by (simp add: sample_body24_def body24_mask_def readLeU32_def nth_append kJointMaskAll_def kJointCount_def)
  have upt: "[0..<8] = [0, 1, 2, 3, 4, 5, 6, 7]" by (simp add: upt_rec)
  have ts: "u64_at ?d 4 = 1" unfolding upt by (simp add: sample_body24_def nth_append)
  show "parseAndPublish PoseConfig_default (\<lambda>u. Some 0) (\<lambda>x. x) ?d
     = Some (publishJoint24 PoseConfig_default 1000000
         (map (\<lambda>i. joint_at (\<lambda>u. Some 0) (\<lambda>x. x) ?d (68 + i * 22)) [0..<24]) 3)"
    using body24_published_from_its_fields [OF len, of PoseConfig_default "\<lambda>u. Some 0" "\<lambda>x. x"] ok
    by (simp only: msk ts) simp
  have bad: "body24_header_ok (?d[60 := 23])" "block_at (?d[60 := 23]) 16 1 40" "block_at (?d[60 := 23]) 56 2 540"
    "?d[60 := 23] ! 60 \<noteq> 24" "?d[60 := 23] ! 0 = 9" "1236 \<le> length (?d[60 := 23])"
    using ok len by (simp_all add: body24_header_ok_def block_at_def readLeU16_def)
  show "parseAndPublish PoseConfig_default (\<lambda>u. Some 0) (\<lambda>x. x) (?d[60 := 23])
     = Some [Warn ''invalid 0x09 joint pose payload'']"
    using body24_published_from_its_fields [OF bad(6,5), of PoseConfig_default "\<lambda>u. Some 0" "\<lambda>x. x"] bad
    by simp
qed

text \<open>with a valid pelvis, the waist message has the pelvis at the origin, exactly the joints that
  are valid and have a usable pose, and composing such a joint's waist pose with the pelvis pose
  gives back its pose in the tracking frame; all other joints are the identity.\<close>

theorem waist_frame_is_pelvis_frame:
  assumes "length ps = 24" "bit m 0" "poseToTransform (ps ! 0) = Some W"
  shows "\<exists>ws w. publishJoint24 cfg t ps m =
      [Joint24 (frame_id_joint24 cfg) t ps, Joint24Mask (m AND kJointMaskAll), Waist24 (frame_id_waist cfg) t ws, Waist24Mask w]
    \<and> length ws = 24 \<and> ws ! 0 = makeIdentityPose
    \<and> (\<forall>i. bit w i \<longleftrightarrow> i < 24 \<and> bit m i \<and> poseToTransform (ps ! i) \<noteq> None)
    \<and> (\<forall>i<24. if bit w i then map_option (compose_pose W) (poseToTransform (ws ! i)) = poseToTransform (ps ! i)
               else ws ! i = makeIdentityPose)"
proof -
  obtain p0 q0 where W: "W = (p0, q0)" by force
  have pel: "poseToTransform (ps ! 0) = Some (p0, q0)" and q0: "normSq q0 = 1"
    using assms(3) W poseToTransform_unit by auto
  let ?m = "m AND kJointMaskAll"
  let ?f = "waist_pose ?m ps p0 (conjugateQuat q0)"
  define ws where "ws = map (\<lambda>i. fst (?f i)) [0..<24]"
  define w where "w = fold (\<lambda>b m. m OR b) (map (\<lambda>i. snd (?f i)) [0..<24]) 0"
  have wbit: "bit w i \<longleftrightarrow> i < 24 \<and> bit m i \<and> poseToTransform (ps ! i) \<noteq> None" for i
    by (auto simp: w_def bit_fold_or waist_pose_bit bit_and_iff simp del: upt_rec_numeral)
  have len: "length ws = 24" by (simp add: ws_def)
  have nth: "ws ! i = fst (?f i)" if "i < 24" for i
    using that by (simp add: ws_def del: upt_rec_numeral)
  have joint: "if bit w i then map_option (compose_pose W) (poseToTransform (ws ! i)) = poseToTransform (ps ! i)
      else ws ! i = makeIdentityPose" if "i < 24" for i
    using makeRelativePose_compose [OF q0, of "snd (the (poseToTransform (ps ! i)))" p0 "fst (the (poseToTransform (ps ! i)))"]
      poseToTransform_unit [of "ps ! i"] that
    by (auto simp: wbit nth waist_pose_fst bit_and_iff W split: option.splits)
  have origin: "ws ! 0 = makeIdentityPose"
    using assms(2) pel by (simp add: nth waist_pose_fst bit_and_iff makeRelativePose_self [OF q0])
  show ?thesis
    using publishJoint24_eq [OF assms(1,2) pel, of cfg t] len origin wbit joint
    unfolding ws_def [symmetric] w_def [symmetric] by blast
qed

text \<open>A pelvis turned by half a turn, one joint two metres in front of it, one invalid joint.\<close>

definition sample_poses :: "Pose list" where
  "sample_poses = makePose (Some 1) (Some 0) (Some 0) (Some 0) (Some 0) (Some 1) (Some 0)
     # makePose (Some 3) (Some 0) (Some 0) (Some 0) (Some 0) (Some 0) (Some 1)
     # replicate 22 (makePose None (Some 0) (Some 0) (Some 0) (Some 0) (Some 0) (Some 1))"

theorem waist_frame_is_pelvis_frame_witness:
  "\<exists>ws w. publishJoint24 PoseConfig_default 5 sample_poses 7 =
      [Joint24 ''vr_tracking'' 5 sample_poses, Joint24Mask 7, Waist24 ''vr_waist'' 5 ws, Waist24Mask w]
    \<and> length ws = 24 \<and> ws ! 0 = makeIdentityPose \<and> bit w 0 \<and> bit w 1 \<and> \<not> bit w 2 \<and> ws ! 2 = makeIdentityPose
    \<and> map_option (compose_pose (\<lparr>vx = 1, vy = 0, vz = 0\<rparr>, \<lparr>qx = 0, qy = 0, qz = 1, qw = 0\<rparr>)) (poseToTransform (ws ! 1))
      = Some (\<lparr>vx = 3, vy = 0, vz = 0\<rparr>, \<lparr>qx = 0, qy = 0, qz = 0, qw = 1\<rparr>)"
proof -
  let ?W = "(\<lparr>vx = 1, vy = 0, vz = 0\<rparr>, \<lparr>qx = 0, qy = 0, qz = 1, qw = 0\<rparr>)"
  have p0: "poseToTransform (sample_poses ! 0) = Some ?W"
    by (simp add: sample_poses_def makePose_def poseToTransform_def normalizeQuat_unit normSq_def)
  have p1: "poseToTransform (sample_poses ! 1) = Some (\<lparr>vx = 3, vy = 0, vz = 0\<rparr>, \<lparr>qx = 0, qy = 0, qz = 0, qw = 1\<rparr>)"
    by (simp add: sample_poses_def makePose_def poseToTransform_def normalizeQuat_unit normSq_def)
  have p2: "poseToTransform (sample_poses ! 2) = None"
    by (simp add: sample_poses_def makePose_def poseToTransform_def nth_Cons')
  have len: "length sample_poses = 24" "bit (7 :: u32) 0" "bit (7 :: u32) 1" "(7 :: u32) AND kJointMaskAll = 7"
    by (simp_all add: sample_poses_def kJointMaskAll_def kJointCount_def)
  obtain ws w where *: "publishJoint24 PoseConfig_default 5 sample_poses 7 =
      [Joint24 (frame_id_joint24 PoseConfig_default) 5 sample_poses, Joint24Mask (7 AND kJointMaskAll),
       Waist24 (frame_id_waist PoseConfig_default) 5 ws, Waist24Mask w]" "length ws = 24" "ws ! 0 = makeIdentityPose"
    and w: "\<And>i. bit w i \<longleftrightarrow> i < 24 \<and> bit (7 :: u32) i \<and> poseToTransform (sample_poses ! i) \<noteq> None"
    and j: "\<And>i. i < 24 \<Longrightarrow> if bit w i then map_option (compose_pose ?W) (poseToTransform (ws ! i)) = poseToTransform (sample_poses ! i)
        else ws ! i = makeIdentityPose"
    using waist_frame_is_pelvis_frame [OF len(1,2) p0, of PoseConfig_default 5] by blast
  have b: "bit w 0" "bit w 1" "\<not> bit w 2" using w [of 0] w [of 1] w [of 2] p0 p1 p2 len by auto
  have j12: "map_option (compose_pose ?W) (poseToTransform (ws ! 1)) = poseToTransform (sample_poses ! 1)"
    "ws ! 2 = makeIdentityPose"
    using j [of 1] j [of 2] b by auto
  show ?thesis
    using * b j12 p1 len(4) by (intro exI [of _ ws] exI [of _ w]) (simp add: PoseConfig_default_def)
qed

end
