(* ===== verification/UdpModule.thy ===== *)
theory UdpModule
  imports UdpManager PoseReceiver
begin

text \<open>
  \<open>src/src/udp/udp_module.cpp\<close>: the object the node talks to. It reads the configuration, owns the UDP
  manager and the pose receiver, hands received datagrams to the audio callback or the pose receiver,
  and polls the handshake on a timer. The node's callbacks are outputs; whether they are set is state.
  What the outside answers (did the socket open, is the ROS context valid, could the timer be made or
  reset) are arguments. A timer is \<open>Some True\<close> when it runs and \<open>Some False\<close> when it is cancelled.
\<close>

section \<open>Configuration\<close>

record UdpModuleConfig =
  uc_udp :: UdpConfig
  uc_pose_enabled :: bool
  uc_pose :: PoseConfig
  direct_running_mode :: bool

text \<open>The ROS parameters: the value of a name that is set. \<open>declareOrGet\<close> falls back to the default.\<close>

record params =
  par_bool :: "string \<Rightarrow> bool option"
  par_int :: "string \<Rightarrow> int option"
  par_double :: "string \<Rightarrow> double option"
  par_string :: "string \<Rightarrow> string option"

definition declareOrGet :: "(string \<Rightarrow> 'a option) \<Rightarrow> string \<Rightarrow> 'a \<Rightarrow> 'a" where
  "declareOrGet par name d = (case par name of None \<Rightarrow> d | Some v \<Rightarrow> v)"

definition udp_configFromRosParam :: "params \<Rightarrow> UdpConfig \<Rightarrow> bool \<Rightarrow> UdpConfig" where
  "udp_configFromRosParam p u direct =
     (let b = declareOrGet (par_bool p); i = declareOrGet (par_int p); d = declareOrGet (par_double p);
          s = declareOrGet (par_string p);
          ip = s ''udp.server_udp_ip'' []; port = i ''udp.server_udp_port'' 0;
          control = b ''udp.handshake.enabled'' True;
          table = i ''udp.fec.table_id'' 1
      in u\<lparr>remote_ip := (if ip = [] then s ''udp_ip'' [] else ip),
           remote_port := (if port \<le> 0 then i ''udp_port'' 0 else port),
           device_id := s ''grpc.device_id'' [],
           bind_ip := s ''udp.bind_ip'' ''0.0.0.0'', bind_port := i ''udp.bind_port'' 0,
           enable_receive := b ''udp.enable_receive'' True,
           control_enabled := (if direct \<and> control then False else control),
           control_hello_interval_sec := d ''udp.handshake.interval_sec'' 1,
           control_ping_interval_sec := d ''udp.handshake.ping_interval_sec'' 5,
           control_peer_lost_timeout_sec := d ''udp.handshake.peer_lost_timeout_sec'' 0,
           recv_timeout_ms := i ''udp.recv_timeout_ms'' 100,
           max_payload_bytes := nat (max 1 (i ''udp.max_payload_bytes'' 1200)),
           send_nonblocking := b ''udp.send.nonblocking'' True,
           send_buffer_bytes := i ''udp.send.buffer_bytes'' (i ''udp.send.sndbuf_bytes'' 0),
           pacing_enabled := b ''udp.pacing.enabled'' True,
           pacing_bps := of_int (max 0 (i ''udp.pacing.bps'' 0)),
           pacing_send_burst_interval_ms :=
             of_int (max 0 (i ''udp.pacing.send_burst_interval_ms'' (uint (pacing_send_burst_interval_ms u)))),
           pacing_max_burst_bytes := nat (max 0 (i ''udp.pacing.max_burst_bytes'' (int (pacing_max_burst_bytes u)))),
           pacing_max_debt_ms := of_int (max 1 (i ''udp.pacing.max_debt_ms'' (uint (pacing_max_debt_ms u)))),
           pacing_queue_time_limit_ms :=
             of_int (max 1 (i ''udp.pacing.queue_time_limit_ms'' (uint (pacing_queue_time_limit_ms u)))),
           pacing_max_drain_multiplier := max 1 (d ''udp.pacing.max_drain_multiplier'' (pacing_max_drain_multiplier u)),
           pacing_account_audio := b ''udp.pacing.account_audio'' (pacing_account_audio u),
           pacing_max_packets_per_batch :=
             of_int (max 1 (i ''udp.pacing.max_packets_per_batch'' (uint (pacing_max_packets_per_batch u)))),
           queue_max_bytes := nat (max 0 (i ''udp.pacing.queue_max_bytes'' 300000)),
           queue_max_packets := nat (max 0 (i ''udp.pacing.queue_max_packets'' 0)),
           fec_table_id := (if b ''udp.fec.enabled'' True then of_int (clampI table 0 255) else 0),
           fec_input_queue_max_frames := nat (max 1 (i ''udp.fec.input_queue_max_frames'' 2))\<rparr>)"

definition pose_configFromRosParam :: "params \<Rightarrow> UdpConfig \<Rightarrow> PoseConfig \<Rightarrow> PoseConfig" where
  "pose_configFromRosParam p u q =
     (let b = (\<lambda>n d. declareOrGet (par_bool p) (''udp.'' @ n) (declareOrGet (par_bool p) n d));
          s = (\<lambda>n d. declareOrGet (par_string p) (''udp.'' @ n) (declareOrGet (par_string p) n d))
      in q\<lparr>pc_bind_ip := declareOrGet (par_string p) ''pose_udp.bind_ip'' (bind_ip u),
           pc_bind_port := declareOrGet (par_int p) ''pose_udp.bind_port'' 7780,
           allowed_remote_ip := declareOrGet (par_string p) ''pose_udp.allowed_remote_ip'' [],
           pc_recv_timeout_ms := declareOrGet (par_int p) ''pose_udp.recv_timeout_ms'' (recv_timeout_ms u),
           qos_depth := declareOrGet (par_int p) ''pose_udp.qos.depth'' 10,
           frame_id_waist := s ''pose_udp.frame_id.waist'' ''vr_waist'',
           frame_id_joint24 := s ''pose_udp.frame_id.joint24'' ''vr_tracking'',
           frame_id_hmd := s ''pose_udp.frame_id.hmd'' ''vr_hmd'',
           frame_id_left_controller := s ''pose_udp.frame_id.left_controller'' ''vr_left_controller'',
           frame_id_right_controller := s ''pose_udp.frame_id.right_controller'' ''vr_right_controller'',
           frame_id_left_foot := s ''pose_udp.frame_id.left_foot'' ''vr_left_foot'',
           frame_id_right_foot := s ''pose_udp.frame_id.right_foot'' ''vr_right_foot'',
           frame_id_left_aim := s ''pose_udp.frame_id.left_aim'' ''vr_left_aim'',
           frame_id_right_aim := s ''pose_udp.frame_id.right_aim'' ''vr_right_aim'',
           publish_euler := b ''pose_udp.publish_euler'' True,
           publish_buttons := b ''pose_udp.publish_buttons'' True,
           publish_aim := b ''pose_udp.publish_aim'' True\<rparr>)"

definition configFromRosParam :: "params \<Rightarrow> UdpModuleConfig" where
  "configFromRosParam p =
     (let direct = declareOrGet (par_bool p) ''debug.direct_running_mode'' False;
          u = udp_configFromRosParam p UdpConfig_default direct
      in \<lparr>uc_udp = u,
          uc_pose_enabled = declareOrGet (par_bool p) ''udp.pose_udp.enabled'' (declareOrGet (par_bool p) ''pose_udp.enabled'' False),
          uc_pose = pose_configFromRosParam p u PoseConfig_default, direct_running_mode = direct\<rparr>)"

section \<open>State\<close>

record 'c UdpModule =
  u_config :: UdpModuleConfig
  udp_manager :: "'c UdpManager option"
  pose_receiver :: "PoseUdpReceiver option"
  handshake_timer :: "bool option"
  audio_callback :: bool
  on_ready :: bool
  on_peer_lost :: bool
  ready_fired :: bool
  shutting_down :: bool

datatype module_output =
    Ready
  | Peer_Lost
  | AudioDatagram u16 bytes u64
  | PoseData pose_output

definition UdpModule_init :: "UdpModuleConfig \<Rightarrow> 'c UdpModule" where
  "UdpModule_init c = \<lparr>u_config = c, udp_manager = None, pose_receiver = None, handshake_timer = None,
     audio_callback = False, on_ready = False, on_peer_lost = False, ready_fired = False, shutting_down = False\<rparr>"

definition setAudioDatagramCallback :: "bool \<Rightarrow> 'c UdpModule \<Rightarrow> 'c UdpModule" where
  "setAudioDatagramCallback b u = u\<lparr>audio_callback := b\<rparr>"

definition setHandshakeReadyCallback :: "bool \<Rightarrow> 'c UdpModule \<Rightarrow> 'c UdpModule" where
  "setHandshakeReadyCallback b u = u\<lparr>on_ready := b\<rparr>"

definition setModulePeerLostCallback :: "bool \<Rightarrow> 'c UdpModule \<Rightarrow> 'c UdpModule" where
  "setModulePeerLostCallback b u = u\<lparr>on_peer_lost := b\<rparr>"

definition isRunning :: "'c UdpModule \<Rightarrow> bool" where
  "isRunning u = (udp_manager u \<noteq> None)"

definition module_handshakeReady :: "'c UdpModule \<Rightarrow> bool" where
  "module_handshakeReady u = (case udp_manager u of None \<Rightarrow> False | Some m \<Rightarrow> isHandshakeReady m)"

definition controlEnabled :: "'c UdpModule \<Rightarrow> bool" where
  "controlEnabled u = control_enabled (uc_udp (u_config u))"

section \<open>Lifecycle\<close>

text \<open>The answers of the environment to a call.\<close>

record env =
  env_opened :: bool
  env_context_valid :: bool
  env_timer_ok :: bool
  env_now :: int

text \<open>\<open>if (on_ready_ && !ready_fired_.exchange(true)) on_ready_();\<close>\<close>

definition fire_ready :: "'c UdpModule \<Rightarrow> module_output list \<times> 'c UdpModule" where
  "fire_ready u = (if on_ready u \<and> \<not> ready_fired u then ([Ready], u\<lparr>ready_fired := True\<rparr>) else ([], u))"

text \<open>\<open>fec0\<close> is the state of a new encoder.\<close>

definition module_start ::
  "(double \<Rightarrow> double) \<Rightarrow> env \<Rightarrow> 'c \<Rightarrow> string \<Rightarrow> 'c UdpModule \<Rightarrow> bool \<times> module_output list \<times> 'c UdpModule" where
  "module_start fl e fec0 session_id u =
     (let u = u\<lparr>shutting_down := False\<rparr>; c = uc_udp (u_config u)
      in if udp_manager u \<noteq> None then (True, [], u)
         else if remote_ip c = [] \<or> remote_port c \<le> 0 then (False, [], u)
         else (let m = mgr_setSessionId session_id (UdpManager_init c fec0 (env_now e));
                   u1 = (if uc_pose_enabled (u_config u) then u\<lparr>pose_receiver := Some (PoseUdpReceiver_init (uc_pose (u_config u)))\<rparr> else u);
                   m1 = setDatagramCallback True m;
                   m2 = m1\<lparr>m_control := setPeerLostCallback True (m_control m1)\<rparr>
               in (case mgr_start fl (env_opened e) (env_now e) m2 of (ok, m3) \<Rightarrow>
                     if \<not> ok then (False, [], u1\<lparr>udp_manager := None, pose_receiver := None\<rparr>)
                     else (let u2 = u1\<lparr>udp_manager := Some m3, ready_fired := False\<rparr>
                           in if \<not> control_enabled c
                              then (case fire_ready u2 of (out, u3) \<Rightarrow> (True, out, u3))
                              else if \<not> shutting_down u2 \<and> env_context_valid e \<and> env_timer_ok e
                              then (True, [], u2\<lparr>handshake_timer := Some True\<rparr>)
                              else (True, [], u2)))))"

definition module_stop :: "'c UdpModule \<Rightarrow> 'c UdpModule" where
  "module_stop u = u\<lparr>shutting_down := True, handshake_timer := None, udp_manager := None, pose_receiver := None, ready_fired := False\<rparr>"

definition module_resetSession :: "env \<Rightarrow> 'c UdpModule \<Rightarrow> 'c UdpModule" where
  "module_resetSession e u =
     (case udp_manager u of
        None \<Rightarrow> u
      | Some m \<Rightarrow>
          if shutting_down u then u
          else (let u1 = u\<lparr>udp_manager := Some (UdpManager.resetSession (env_now e) m), ready_fired := False\<rparr>
                in if control_enabled (uc_udp (u_config u1))
                   then (case handshake_timer u1 of
                           None \<Rightarrow>
                             if \<not> env_context_valid e then u1
                             else if env_timer_ok e then u1\<lparr>handshake_timer := Some True\<rparr> else u1
                         | Some _ \<Rightarrow> if env_timer_ok e then u1\<lparr>handshake_timer := Some True\<rparr> else u1)
                   else u1))"

text \<open>The callback the module gives the manager for a lost peer.\<close>

definition peer_lost :: "'c UdpModule \<Rightarrow> module_output list \<times> 'c UdpModule" where
  "peer_lost u = (if on_peer_lost u then [Peer_Lost] else [], u\<lparr>ready_fired := False\<rparr>)"

section \<open>Forwarded calls\<close>

definition with_manager :: "('c UdpManager \<Rightarrow> 'c UdpManager) \<Rightarrow> 'c UdpModule \<Rightarrow> 'c UdpModule" where
  "with_manager f u = (case udp_manager u of None \<Rightarrow> u | Some m \<Rightarrow> u\<lparr>udp_manager := Some (f m)\<rparr>)"

definition module_sendH264Frame :: "u64 \<Rightarrow> u64 \<Rightarrow> bytes option \<Rightarrow> u64 \<Rightarrow> bool \<Rightarrow> 'c UdpModule \<Rightarrow> 'c UdpModule" where
  "module_sendH264Frame ntp now_us d ts key = with_manager (sendH264Frame ntp now_us d ts key)"

definition module_sendAudioPacket :: "u64 \<Rightarrow> bytes option \<Rightarrow> u64 \<Rightarrow> 'c UdpModule \<Rightarrow> 'c UdpModule" where
  "module_sendAudioPacket now_us d ts = with_manager (sendAudioPacket now_us d ts)"

definition module_sendRobotTelemetry :: "u64 \<Rightarrow> u64 \<Rightarrow> RobotTelemetrySnapshot \<Rightarrow> 'c UdpModule \<Rightarrow> 'c UdpModule" where
  "module_sendRobotTelemetry now_ms now_us s = with_manager (sendRobotTelemetry now_ms now_us s)"

definition module_sendRobotJointTelemetry :: "u64 \<Rightarrow> u64 \<Rightarrow> RobotJointTelemetrySnapshot \<Rightarrow> 'c UdpModule \<Rightarrow> 'c UdpModule" where
  "module_sendRobotJointTelemetry now_ms now_us s = with_manager (sendRobotJointTelemetry now_ms now_us s)"

definition VideoStats_empty :: VideoStatsSnapshot where
  "VideoStats_empty = \<lparr>vs_counters = Counters_zero, vs_queue_drops = 0, vs_queue_packets = 0, vs_queue_bytes = 0\<rparr>"

definition module_consumeVideoStats :: "'c UdpModule \<Rightarrow> VideoStatsSnapshot \<times> 'c UdpModule" where
  "module_consumeVideoStats u =
     (case udp_manager u of
        None \<Rightarrow> (VideoStats_empty, u)
      | Some m \<Rightarrow> (case consumeVideoStats m of (s, m1) \<Rightarrow> (s, u\<lparr>udp_manager := Some m1\<rparr>)))"

section \<open>Datagrams and the handshake timer\<close>

definition onDatagram ::
  "(u32 \<Rightarrow> dval) \<Rightarrow> (real \<Rightarrow> real) \<Rightarrow> int \<Rightarrow> bytes \<Rightarrow> 'c UdpModule \<Rightarrow> (module_output list \<times> 'c UdpModule) option" where
  "onDatagram f32 fl32 now d u =
     (if shutting_down u then Some ([], u)
      else if 11 < length d \<and> d ! 0 = kAudioPacketType
      then Some (if audio_callback u then [AudioDatagram (readLeU16 d 1) (drop 11 d) (readU64LE d 3)] else [], u)
      else (case pose_receiver u of
              None \<Rightarrow> Some ([], u)
            | Some r \<Rightarrow> (case handleDatagram f32 fl32 now d r of
                None \<Rightarrow> None
              | Some (out, r1) \<Rightarrow> Some (map PoseData out, u\<lparr>pose_receiver := Some r1\<rparr>))))"

definition cancel_timer :: "'c UdpModule \<Rightarrow> 'c UdpModule" where
  "cancel_timer u = u\<lparr>handshake_timer := map_option (\<lambda>_. False) (handshake_timer u)\<rparr>"

definition handshakeTimerCallback :: "'c UdpModule \<Rightarrow> module_output list \<times> 'c UdpModule" where
  "handshakeTimerCallback u =
     (if shutting_down u then ([], cancel_timer u)
      else (case udp_manager u of
              None \<Rightarrow> ([], cancel_timer u)
            | Some m \<Rightarrow> if isHandshakeReady m then fire_ready (cancel_timer u) else ([], u)))"

section \<open>Runs\<close>

text \<open>A step with its number of session events: starting, stopping, resetting, and losing the peer.
  Everything else the manager does, in a call or in one of its threads, is some function of it.\<close>

inductive module_step :: "(double \<Rightarrow> double) \<Rightarrow> 'c UdpModule \<Rightarrow> module_output list \<Rightarrow> nat \<Rightarrow> 'c UdpModule \<Rightarrow> bool"
  for fl where
  ms_start: "module_start fl e fec0 sid u = (ok, out, u') \<Longrightarrow> module_step fl u out 1 u'"
| ms_stop: "module_step fl u [] 1 (module_stop u)"
| ms_reset: "module_step fl u [] 1 (module_resetSession e u)"
| ms_lost: "peer_lost u = (out, u') \<Longrightarrow> module_step fl u out 1 u'"
| ms_timer: "handshakeTimerCallback u = (out, u') \<Longrightarrow> module_step fl u out 0 u'"
| ms_datagram: "onDatagram f32 fl32 now d u = Some (out, u') \<Longrightarrow> module_step fl u out 0 u'"
| ms_manager: "module_step fl u [] 0 (with_manager f u)"
| ms_audio_callback: "module_step fl u [] 0 (setAudioDatagramCallback b u)"
| ms_ready_callback: "module_step fl u [] 0 (setHandshakeReadyCallback b u)"
| ms_lost_callback: "module_step fl u [] 0 (setModulePeerLostCallback b u)"

inductive module_run :: "(double \<Rightarrow> double) \<Rightarrow> 'c UdpModule \<Rightarrow> module_output list \<Rightarrow> nat \<Rightarrow> 'c UdpModule \<Rightarrow> bool"
  for fl u where
  mr_start: "module_run fl u [] 0 u"
| mr_step: "module_run fl u out n u1 \<Longrightarrow> module_step fl u1 out1 k u2 \<Longrightarrow> module_run fl u (out @ out1) (n + k) u2"

text \<open>The one ready call a running module still has to make.\<close>

definition ready_credit :: "'c UdpModule \<Rightarrow> nat" where
  "ready_credit u = (if udp_manager u = None \<or> ready_fired u then 0 else 1)"

lemma ready_credit_init [simp]: "ready_credit (UdpModule_init c) = 0"
  by (simp add: ready_credit_def UdpModule_init_def)

lemma onDatagram_state:
  assumes "onDatagram f32 fl32 now d u = Some (out, u')"
  shows "udp_manager u' = udp_manager u" "ready_fired u' = ready_fired u" "Ready \<notin> set out"
  using assms by (auto simp: onDatagram_def split: if_splits option.splits)

lemma count_list_absent: "x \<notin> set xs \<Longrightarrow> count_list xs x = 0"
  by (simp add: count_list_0_iff)

lemma module_step_credit:
  assumes "module_step fl u out k u'"
  shows "count_list out Ready + ready_credit u' \<le> ready_credit u + k"
  using assms
proof cases
  case (ms_start e fec0 sid ok)
  then show ?thesis
    by (auto simp: module_start_def fire_ready_def ready_credit_def Let_def split: if_splits prod.splits)
next
  case (ms_datagram f32 fl32 now d)
  then show ?thesis using onDatagram_state [OF ms_datagram(2)] by (simp add: count_list_absent ready_credit_def)
next
  case ms_timer
  then show ?thesis
    by (auto simp: handshakeTimerCallback_def fire_ready_def cancel_timer_def ready_credit_def split: if_splits option.splits)
qed (auto simp: ready_credit_def module_stop_def module_resetSession_def peer_lost_def with_manager_def
      setAudioDatagramCallback_def setHandshakeReadyCallback_def setModulePeerLostCallback_def Let_def split: if_splits option.splits)

lemma module_run_credit: "module_run fl u out n u' \<Longrightarrow> count_list out Ready + ready_credit u' \<le> ready_credit u + n"
proof (induction rule: module_run.induct)
  case (mr_step out n u1 out1 k u2)
  then show ?case using module_step_credit [OF mr_step.hyps(2)] by simp
qed simp

lemma mgr_start_config: "mgr_start fl b now m = (ok, m') \<Longrightarrow> m_config m' = m_config m"
  by (auto simp: mgr_start_def split: if_splits)

lemma module_step_ready:
  assumes "module_step fl u out k u'" "Ready \<in> set out"
  shows "on_ready u \<and> \<not> shutting_down u' \<and> module_handshakeReady u'"
  using assms(1)
proof cases
  case (ms_start e fec0 sid ok)
  then show ?thesis
    using assms(2) by (auto simp: module_start_def fire_ready_def module_handshakeReady_def isHandshakeReady_def Let_def
        mgr_setSessionId_def setDatagramCallback_def UdpManager_init_def dest: mgr_start_config split: if_splits prod.splits)
next
  case (ms_datagram f32 fl32 now d)
  then show ?thesis using onDatagram_state [OF ms_datagram(2)] assms(2) by blast
next
  case ms_timer
  then show ?thesis
    using assms(2) by (auto simp: handshakeTimerCallback_def fire_ready_def cancel_timer_def module_handshakeReady_def
        split: if_splits option.splits)
qed (use assms(2) in \<open>auto simp: peer_lost_def split: if_splits\<close>)

lemma handleDatagram_defined: "\<exists>ps r'. handleDatagram f32 fl32 now d r = Some (ps, r')"
  using parse_defined [of "pr_cfg r" f32 fl32 d] by (auto simp: handleDatagram_def)

section \<open>Properties\<close>

text \<open>C10: From a fresh module, the ready callback runs at most once per session event (start, stop, reset, lost
  peer), however calls, datagrams and timer ticks are interleaved; and it runs only while the module
  is not shutting down and its manager's handshake is complete.\<close>

theorem ready_once_per_session:
  assumes "module_run fl (UdpModule_init c) out n u" "module_step fl u out1 k u'"
  shows "count_list out Ready \<le> n \<and> count_list (out @ out1) Ready \<le> n + k
    \<and> (if Ready \<in> set out1 then on_ready u \<and> \<not> shutting_down u' \<and> module_handshakeReady u' else True)"
  using module_run_credit [OF assms(1)] module_step_credit [OF assms(2)] module_step_ready [OF assms(2)] by auto

definition sample_module_config :: UdpModuleConfig where
  "sample_module_config = \<lparr>uc_udp = UdpConfig_default\<lparr>remote_ip := ''10.0.0.2'', remote_port := 7000\<rparr>,
     uc_pose_enabled = True, uc_pose = PoseConfig_default, direct_running_mode = False\<rparr>"

definition sample_env :: env where
  "sample_env = \<lparr>env_opened = True, env_context_valid = True, env_timer_ok = True, env_now = 1\<rparr>"

text \<open>A session: start, a tick too early, the ACK, a tick that reports readiness, and one more tick.\<close>

definition sample_started :: "unit UdpModule" where
  "sample_started = snd (snd (module_start (\<lambda>x. x) sample_env () ''s1'' (setHandshakeReadyCallback True (UdpModule_init sample_module_config))))"

definition sample_acked :: "unit UdpModule" where
  "sample_acked = with_manager (\<lambda>m. snd (recv_iteration 9 (Some (map of_char ''ACK'')) m)) sample_started"

lemma sample_started_fields:
  "fst (snd (module_start (\<lambda>x. x) sample_env () ''s1'' (setHandshakeReadyCallback True (UdpModule_init sample_module_config)))) = []"
  "handshakeTimerCallback sample_started = ([], sample_started)"
  by (simp_all add: sample_started_def module_start_def setHandshakeReadyCallback_def UdpModule_init_def sample_module_config_def
      sample_env_def UdpConfig_default_def mgr_start_def mgr_setSessionId_def UdpManager_init_def setDatagramCallback_def
      setPeerLostCallback_def ControlPlane_init_def cp_start_def handshakeTimerCallback_def isHandshakeReady_def
      handshakeReady_def Let_def split: prod.splits)

lemma sample_acked_fires:
  "fst (handshakeTimerCallback sample_acked) = [Ready]"
  "fst (handshakeTimerCallback (snd (handshakeTimerCallback sample_acked))) = []"
  by (simp_all add: sample_acked_def with_manager_def recv_iteration_def onAckReceived_def
      sample_started_def module_start_def setHandshakeReadyCallback_def UdpModule_init_def sample_module_config_def
      sample_env_def UdpConfig_default_def mgr_start_def mgr_setSessionId_def UdpManager_init_def setDatagramCallback_def
      setPeerLostCallback_def ControlPlane_init_def cp_start_def handshakeTimerCallback_def isHandshakeReady_def
      handshakeReady_def fire_ready_def cancel_timer_def Let_def split: prod.splits)

lemma sample_run: "module_run (\<lambda>x. x) (UdpModule_init sample_module_config) [Ready] 1 (snd (handshakeTimerCallback sample_acked))"
proof -
  let ?r = "module_run (\<lambda>x. x) (UdpModule_init sample_module_config)"
  have "?r [] 0 (setHandshakeReadyCallback True (UdpModule_init sample_module_config))"
    using mr_step [OF mr_start ms_ready_callback] by fastforce
  moreover have "module_step (\<lambda>x. x) (setHandshakeReadyCallback True (UdpModule_init sample_module_config)) [] 1 sample_started"
    using ms_start [of "\<lambda>x. x" sample_env "()" "''s1''" "setHandshakeReadyCallback True (UdpModule_init sample_module_config)"]
      sample_started_fields(1) by (metis prod.collapse sample_started_def)
  ultimately have "?r [] 1 sample_started" using mr_step by fastforce
  then have "?r [] 1 sample_acked"
    unfolding sample_acked_def using mr_step [OF _ ms_manager] by fastforce
  moreover have "module_step (\<lambda>x. x) sample_acked [Ready] 0 (snd (handshakeTimerCallback sample_acked))"
    using ms_timer sample_acked_fires(1) by (metis prod.collapse)
  ultimately show ?thesis using mr_step by fastforce
qed

theorem ready_once_per_session_witness:
  "count_list [Ready] Ready \<le> 1
    \<and> count_list ([Ready] @ fst (handshakeTimerCallback (snd (handshakeTimerCallback sample_acked)))) Ready \<le> 1
    \<and> fst (handshakeTimerCallback sample_acked) = [Ready]"
  using ready_once_per_session [OF sample_run ms_timer, of "fst (handshakeTimerCallback (snd (handshakeTimerCallback sample_acked)))"
      "snd (handshakeTimerCallback (snd (handshakeTimerCallback sample_acked)))"]
    sample_acked_fires by simp

text \<open>An audio datagram, as the sender builds it, reaches the audio callback with its sequence number, payload
  and time stamp, and changes nothing; and the dispatch of any datagram is defined, either one audio
  datagram or only pose data.\<close>

theorem audio_datagram_roundtrip:
  assumes "\<not> shutting_down u" "audio_callback u" "payload \<noteq> []" "a_Type h = kAudioPacketType"
  shows "onDatagram f32 fl32 now (buildAudioPacket h payload) u = Some ([AudioDatagram (a_Seq h) payload (a_TimestampNtp h)], u)
    \<and> (\<exists>out u'. onDatagram f32 fl32 now d u = Some (out, u')
        \<and> (if 11 < length d \<and> d ! 0 = kAudioPacketType then u' = u \<and> out = [AudioDatagram (readLeU16 d 1) (drop 11 d) (readU64LE d 3)]
           else (\<exists>ps. out = map PoseData ps)))"
proof
  have h: "buildAudioPacket h payload = [a_Type h] @ writeU16LE (a_Seq h) @ writeU64LE (a_TimestampNtp h) @ payload"
    by (simp add: buildAudioPacket_def)
  have seq: "readLeU16 (buildAudioPacket h payload) 1 = a_Seq h"
    using readLeU16_append [of "[a_Type h]" "writeU16LE (a_Seq h) @ writeU64LE (a_TimestampNtp h) @ payload" 0]
    by (simp add: h read16_cons)
  have ts: "readU64LE (buildAudioPacket h payload) 3 = a_TimestampNtp h"
    using readU64LE_append [of "[a_Type h] @ writeU16LE (a_Seq h)" "writeU64LE (a_TimestampNtp h) @ payload" 0]
    by (simp add: h read64_cons)
  show "onDatagram f32 fl32 now (buildAudioPacket h payload) u = Some ([AudioDatagram (a_Seq h) payload (a_TimestampNtp h)], u)"
    using assms seq ts by (simp add: onDatagram_def) (simp add: h)
  show "\<exists>out u'. onDatagram f32 fl32 now d u = Some (out, u')
        \<and> (if 11 < length d \<and> d ! 0 = kAudioPacketType then u' = u \<and> out = [AudioDatagram (readLeU16 d 1) (drop 11 d) (readU64LE d 3)]
           else (\<exists>ps. out = map PoseData ps))"
  proof (cases "11 < length d \<and> d ! 0 = kAudioPacketType")
    case True
    then show ?thesis using assms(1,2) by (simp add: onDatagram_def)
  next
    case False
    show ?thesis
    proof (cases "pose_receiver u")
      case None
      then show ?thesis using assms(1) False by (simp add: onDatagram_def)
    next
      case (Some r)
      obtain ps r' where "handleDatagram f32 fl32 now d r = Some (ps, r')"
        using handleDatagram_defined by blast
      then have "onDatagram f32 fl32 now d u = Some (map PoseData ps, u\<lparr>pose_receiver := Some r'\<rparr>)"
        using assms(1) False Some by (auto simp: onDatagram_def)
      then show ?thesis using False by auto
    qed
  qed
qed

theorem audio_datagram_roundtrip_witness:
  "onDatagram (\<lambda>x. None) (\<lambda>x. x) 0 (buildAudioPacket \<lparr>a_Type = 4, a_Seq = 7, a_TimestampNtp = 9\<rparr> [1, 2])
     (setAudioDatagramCallback True (UdpModule_init sample_module_config :: unit UdpModule))
   = Some ([AudioDatagram 7 [1, 2] 9], setAudioDatagramCallback True (UdpModule_init sample_module_config))"
  using audio_datagram_roundtrip [of "setAudioDatagramCallback True (UdpModule_init sample_module_config :: unit UdpModule)"
      "[1, 2]" "\<lparr>a_Type = 4, a_Seq = 7, a_TimestampNtp = 9\<rparr>" "\<lambda>x. None" "\<lambda>x. x" 0]
  by (simp add: setAudioDatagramCallback_def UdpModule_init_def kAudioPacketType_def)

text \<open>Whatever 32-bit values the parameters have, the configuration meets what the other components rely on:
  a payload of at least one byte, a positive maximal debt and queue time, a drain multiplier of at
  least one, at least one packet per batch and one frame of input, and no handshake in direct mode.\<close>

theorem config_in_range:
  assumes "\<And>n v. par_int p n = Some v \<Longrightarrow> - (2 ^ 31) \<le> v \<and> v < 2 ^ 31"
  shows "let c = configFromRosParam p; u = uc_udp c in
     1 \<le> max_payload_bytes u \<and> 0 < pacing_max_debt_ms u \<and> 0 < pacing_queue_time_limit_ms u
   \<and> 1 \<le> pacing_max_drain_multiplier u \<and> 0 < pacing_max_packets_per_batch u \<and> 1 \<le> fec_input_queue_max_frames u
   \<and> (if direct_running_mode c then \<not> control_enabled u else True)
   \<and> unat (pacing_bps u) < 2 ^ 31 \<and> max_payload_bytes u < 2 ^ 31"
proof -
  have get: "- (2 ^ 31) \<le> declareOrGet (par_int p) n d \<and> declareOrGet (par_int p) n d < 2 ^ 31"
    if "- (2 ^ 31) \<le> d \<and> d < 2 ^ 31" for n d
    using assms [of n] that by (auto simp: declareOrGet_def split: option.splits)
  have pos32: "0 < (word_of_int (max 1 v) :: u32)" if "v < 2 ^ 31" for v
    using that by (simp add: word_less_def uint_word_of_int max_def)
  have small64: "unat (word_of_int (max 0 v) :: u64) < 2 ^ 31" if "v < 2 ^ 31" for v
    using that by (simp add: unat_eq_nat_uint uint_word_of_int max_def nat_less_iff)
  have one: "Suc 0 \<le> nat (max 1 v)" for v by (simp add: Suc_le_eq)
  show ?thesis
    using one pos32 [OF conjunct2 [OF get]] small64 [OF conjunct2 [OF get]] get
    by (simp add: configFromRosParam_def udp_configFromRosParam_def Let_def UdpConfig_default_def nat_less_iff)
qed

theorem config_in_range_witness:
  "let c = configFromRosParam \<lparr>par_bool = (\<lambda>n. if n = ''debug.direct_running_mode'' then Some True else None),
         par_int = (\<lambda>n. Some (- 5)), par_double = (\<lambda>n. None), par_string = (\<lambda>n. None)\<rparr>
   in max_payload_bytes (uc_udp c) = 1 \<and> 0 < pacing_max_debt_ms (uc_udp c) \<and> \<not> control_enabled (uc_udp c)
    \<and> 1 \<le> fec_input_queue_max_frames (uc_udp c)"
  using config_in_range [of "\<lparr>par_bool = (\<lambda>n. if n = ''debug.direct_running_mode'' then Some True else None),
         par_int = (\<lambda>n. Some (- 5)), par_double = (\<lambda>n. None), par_string = (\<lambda>n. None)\<rparr>"]
  by (simp add: configFromRosParam_def udp_configFromRosParam_def declareOrGet_def Let_def)

end
