(* ===== verification/AudioReceiver.thy ===== *)
theory AudioReceiver
  imports Complex_Main Prelude "HOL-Library.Multiset"
begin

text \<open>
  \<open>src/src/audio/audio_receiver.cpp\<close>: the jitter buffer of the audio the bridge receives. The
  \<open>std::map\<close> by 16-bit sequence number is a list sorted by the unsigned key, \<open>begin()\<close> its head.
  A playback callback is a function of payload and time stamp with its boolean answer; the packets
  handed to it are returned. The steady clock reading is the argument \<open>now_ns\<close>; the doubles of the log
  throttle are rationals, the log line itself is left out.
\<close>

section \<open>State\<close>

record AudioRxPacket =
  rx_seq :: u16
  rx_timestamp_ntp :: u64
  rx_payload :: bytes

record RxConfig =
  frame_duration_ms :: u32
  initial_buffer_ms :: u32
  max_buffer_ms :: u32
  max_sequence_gap :: u32
  log_period_sec :: rat

record RxStats =
  received_packets :: u64
  delivered_packets :: u64
  duplicate_packets :: u64
  late_packets :: u64
  lost_packets :: u64
  reset_count :: u64
  buffered_packets :: nat

definition RxStats_init :: RxStats where
  "RxStats_init = \<lparr>received_packets = 0, delivered_packets = 0, duplicate_packets = 0, late_packets = 0,
     lost_packets = 0, reset_count = 0, buffered_packets = 0\<rparr>"

record AudioReceiver =
  rx_config :: RxConfig
  initial_buffer_packets :: u32
  max_buffer_packets :: u32
  playback_callback :: "(bytes \<Rightarrow> u64 \<Rightarrow> bool) option"
  buffer :: "(u16 \<times> AudioRxPacket) list"
  initialized :: bool
  primed :: bool
  expected_seq :: u16
  rx_stats :: RxStats
  last_log_time :: "int option"
  last_log_stats :: RxStats

definition packetCountFromMs :: "u32 \<Rightarrow> u32 \<Rightarrow> u32" where
  "packetCountFromMs ms frame_duration =
     (let frame_ms = max 1 frame_duration in max 1 ((ms + frame_ms - 1) div frame_ms))"

definition seqDelta :: "u16 \<Rightarrow> u16 \<Rightarrow> int" where
  "seqDelta lhs rhs = sint (lhs - rhs)"

definition AudioReceiver_init :: "RxConfig \<Rightarrow> AudioReceiver" where
  "AudioReceiver_init c =
     (let ini = max 1 (packetCountFromMs (initial_buffer_ms c) (frame_duration_ms c))
      in \<lparr>rx_config = c, initial_buffer_packets = ini,
          max_buffer_packets = max (ini + 1) (packetCountFromMs (max_buffer_ms c) (frame_duration_ms c)),
          playback_callback = None, buffer = [], initialized = False, primed = False, expected_seq = 0,
          rx_stats = RxStats_init, last_log_time = None, last_log_stats = RxStats_init\<rparr>)"

text \<open>The parameters the node reads; \<open>get_int\<close> and \<open>get_double\<close> are the ROS parameter look-ups.\<close>

definition rx_configFromRosParam :: "(string \<Rightarrow> int \<Rightarrow> int) \<Rightarrow> (string \<Rightarrow> rat \<Rightarrow> rat) \<Rightarrow> u32 \<Rightarrow> RxConfig" where
  "rx_configFromRosParam get_int get_double frame_ms =
     \<lparr>frame_duration_ms = max 1 frame_ms,
      initial_buffer_ms = of_int (max 1 (get_int ''audio.receiver.initial_buffer_ms'' 60)),
      max_buffer_ms = of_int (max 1 (get_int ''audio.receiver.max_buffer_ms'' 200)),
      max_sequence_gap = of_int (max 1 (get_int ''audio.receiver.max_sequence_gap'' 1000)),
      log_period_sec = max (1 / 10) (get_double ''audio.receiver.log_period_sec'' 1)\<rparr>"

definition setPlaybackCallback :: "(bytes \<Rightarrow> u64 \<Rightarrow> bool) option \<Rightarrow> AudioReceiver \<Rightarrow> AudioReceiver" where
  "setPlaybackCallback cb s = s\<lparr>playback_callback := cb\<rparr>"

section \<open>The ordered map\<close>

fun map_emplace :: "u16 \<Rightarrow> 'v \<Rightarrow> (u16 \<times> 'v) list \<Rightarrow> (u16 \<times> 'v) list" where
  "map_emplace k v [] = [(k, v)]"
| "map_emplace k v ((k1, v1) # m) =
     (if k < k1 then (k, v) # (k1, v1) # m else if k = k1 then (k1, v1) # m else (k1, v1) # map_emplace k v m)"

definition map_erase :: "u16 \<Rightarrow> (u16 \<times> 'v) list \<Rightarrow> (u16 \<times> 'v) list" where
  "map_erase k m = List.filter (\<lambda>(k1, v). k1 \<noteq> k) m"

section \<open>Operations\<close>

definition maybeLogStats :: "int \<Rightarrow> AudioReceiver \<Rightarrow> AudioReceiver" where
  "maybeLogStats now_ns s =
     (case last_log_time s of
        None \<Rightarrow> s\<lparr>last_log_time := Some now_ns, last_log_stats := rx_stats s\<rparr>
      | Some t \<Rightarrow>
          if of_int (now_ns - t) / 1000000000 < log_period_sec (rx_config s) then s
          else s\<lparr>last_log_time := Some now_ns, last_log_stats := rx_stats s\<rparr>)"

lemma map_erase_shrinks: "map_of m k = Some v \<Longrightarrow> length (map_erase k m) < length m"
  by (auto simp: map_erase_def dest!: map_of_SomeD intro!: length_filter_less)

function drainReady :: "AudioReceiver \<Rightarrow> AudioRxPacket list \<times> AudioReceiver" where
  "drainReady s =
     (case map_of (buffer s) (expected_seq s) of
        None \<Rightarrow> ([], s)
      | Some p \<Rightarrow>
          (let s1 = s\<lparr>buffer := map_erase (expected_seq s) (buffer s), expected_seq := expected_seq s + 1,
                     rx_stats := (rx_stats s)\<lparr>delivered_packets := delivered_packets (rx_stats s) + 1\<rparr>\<rparr>;
               (ready, s2) = drainReady s1
           in (p # ready, s2)))"
  by pat_completeness auto
termination
  by (relation "measure (\<lambda>s. length (buffer s))") (auto dest: map_erase_shrinks)

declare drainReady.simps [simp del]

lemma drain_length: "length (buffer (snd (drainReady s))) \<le> length (buffer s)"
proof (induction s rule: drainReady.induct)
  case (1 s)
  show ?case
  proof (cases "map_of (buffer s) (expected_seq s)")
    case None
    then show ?thesis by (simp add: drainReady.simps)
  next
    case (Some p)
    have "length (map_erase (expected_seq s) (buffer s)) < length (buffer s)" using map_erase_shrinks[OF Some] .
    with 1[OF Some refl] show ?thesis by (subst drainReady.simps) (simp add: Some Let_def case_prod_beta)
  qed
qed

lemma drain_shrinks:
  assumes "map_of (buffer s) (expected_seq s) = Some p"
  shows "length (buffer (snd (drainReady s))) < length (buffer s)"
proof -
  let ?s1 = "s\<lparr>buffer := map_erase (expected_seq s) (buffer s), expected_seq := expected_seq s + 1,
    rx_stats := (rx_stats s)\<lparr>delivered_packets := delivered_packets (rx_stats s) + 1\<rparr>\<rparr>"
  have "length (buffer ?s1) < length (buffer s)" using map_erase_shrinks[OF assms] by simp
  with drain_length[of ?s1] show ?thesis by (subst drainReady.simps) (simp add: assms Let_def case_prod_beta)
qed

definition skip_to_begin :: "AudioReceiver \<Rightarrow> AudioReceiver" where
  "skip_to_begin s =
     (let next_key = fst (hd (buffer s)); delta = seqDelta next_key (expected_seq s)
      in if delta \<le> 0 then s\<lparr>expected_seq := next_key\<rparr>
         else s\<lparr>rx_stats := (rx_stats s)\<lparr>lost_packets := lost_packets (rx_stats s) + ucast (of_int delta :: u16)\<rparr>,
                expected_seq := next_key\<rparr>)"

lemma skip_to_begin_simps [simp]:
  "buffer (skip_to_begin s) = buffer s" "expected_seq (skip_to_begin s) = fst (hd (buffer s))"
  "rx_config (skip_to_begin s) = rx_config s" "max_buffer_packets (skip_to_begin s) = max_buffer_packets s"
  by (simp_all add: skip_to_begin_def Let_def)

lemma skip_drain_shrinks:
  assumes "buffer s \<noteq> []"
  shows "length (buffer (snd (drainReady (skip_to_begin s)))) < length (buffer s)"
proof -
  obtain k v rest where b: "buffer s = (k, v) # rest" using assms by (cases "buffer s") auto
  show ?thesis using drain_shrinks[of "skip_to_begin s" v] by (simp add: b)
qed

function maybeSkipLoss :: "AudioReceiver \<Rightarrow> AudioRxPacket list \<times> AudioReceiver" where
  "maybeSkipLoss s =
     (if unat (max_buffer_packets s) \<le> length (buffer s) \<and> buffer s \<noteq> []
      then (let (ready, s1) = drainReady (skip_to_begin s); (later, s2) = maybeSkipLoss s1 in (ready @ later, s2))
      else ([], s))"
  by pat_completeness auto
termination
proof (relation "measure (\<lambda>s. length (buffer s))")
  fix s x ready s1
  assume a: "unat (max_buffer_packets s) \<le> length (buffer s) \<and> buffer s \<noteq> []"
    and "x = drainReady (skip_to_begin s)" "(ready, s1) = x"
  then show "(s1, s) \<in> measure (\<lambda>s. length (buffer s))"
    using skip_drain_shrinks[of s] by (metis a in_measure snd_conv)
qed simp

declare maybeSkipLoss.simps [simp del]

definition stat :: "(RxStats \<Rightarrow> RxStats) \<Rightarrow> AudioReceiver \<Rightarrow> AudioReceiver" where
  "stat f s = s\<lparr>rx_stats := f (rx_stats s)\<rparr>"

text \<open>The critical section of \<open>pushPacket\<close>: \<open>None\<close> for its early returns.\<close>

definition push_locked :: "int \<Rightarrow> u16 \<Rightarrow> bytes \<Rightarrow> u64 \<Rightarrow> AudioReceiver \<Rightarrow> AudioRxPacket list option \<times> AudioReceiver" where
  "push_locked now_ns sq data timestamp_ntp s0 =
     (let s1 = stat (\<lambda>t. t\<lparr>received_packets := received_packets t + 1\<rparr>) s0;
          s2 = (if \<not> initialized s1 then s1\<lparr>initialized := True, primed := False, expected_seq := sq\<rparr> else s1);
          delta = seqDelta sq (expected_seq s2)
      in if delta < 0
         then (None, maybeLogStats now_ns (stat (\<lambda>t. t\<lparr>late_packets := late_packets t + 1\<rparr>) s2))
         else
           (let s3 = (if uint (max_sequence_gap (rx_config s2)) < delta
                      then (stat (\<lambda>t. t\<lparr>reset_count := reset_count t + 1\<rparr>) s2)\<lparr>buffer := [], primed := False, expected_seq := sq\<rparr>
                      else s2)
            in if map_of (buffer s3) sq \<noteq> None
               then (None, maybeLogStats now_ns (stat (\<lambda>t. t\<lparr>duplicate_packets := duplicate_packets t + 1\<rparr>) s3))
               else
                 (let packet = \<lparr>rx_seq = sq, rx_timestamp_ntp = timestamp_ntp, rx_payload = data\<rparr>;
                      s4 = s3\<lparr>buffer := map_emplace sq packet (buffer s3)\<rparr>;
                      s5 = stat (\<lambda>t. t\<lparr>buffered_packets := length (buffer s4)\<rparr>) s4;
                      s6 = (if \<not> primed s5 \<and> unat (initial_buffer_packets s5) \<le> length (buffer s5)
                            then s5\<lparr>primed := True\<rparr> else s5);
                      (ready, s7) = (if primed s6
                        then (let (r1, t1) = drainReady s6; (r2, t2) = maybeSkipLoss t1 in (r1 @ r2, t2))
                        else ([], s6));
                      s8 = stat (\<lambda>t. t\<lparr>buffered_packets := length (buffer s7)\<rparr>) s7
                  in (Some ready, maybeLogStats now_ns s8))))"

text \<open>\<open>pushPacket\<close>: the answer, the packets handed to the callback in order, the new state. A null
  data pointer is \<open>None\<close>.\<close>

definition pushPacket ::
  "int \<Rightarrow> u16 \<Rightarrow> bytes option \<Rightarrow> u64 \<Rightarrow> AudioReceiver \<Rightarrow> bool \<times> AudioRxPacket list \<times> AudioReceiver" where
  "pushPacket now_ns sq data timestamp_ntp s =
     (case data of
        None \<Rightarrow> (False, [], s)
      | Some d \<Rightarrow>
          if d = [] then (False, [], s)
          else (case push_locked now_ns sq d timestamp_ntp s of
                  (None, s1) \<Rightarrow> (False, [], s1)
                | (Some ready, s1) \<Rightarrow>
                    (let answers = map (\<lambda>p. case playback_callback s of None \<Rightarrow> False
                                       | Some cb \<Rightarrow> cb (rx_payload p) (rx_timestamp_ntp p)) ready
                     in (list_all id answers \<and> ready \<noteq> [],
                         (if playback_callback s = None then [] else ready), s1))))"

definition rx_reset :: "AudioReceiver \<Rightarrow> AudioReceiver" where
  "rx_reset s = s\<lparr>buffer := [], initialized := False, primed := False, expected_seq := 0,
     rx_stats := (rx_stats s)\<lparr>reset_count := reset_count (rx_stats s) + 1, buffered_packets := 0\<rparr>\<rparr>"

definition rx_stats_of :: "AudioReceiver \<Rightarrow> RxStats" where
  "rx_stats_of s = (rx_stats s)\<lparr>buffered_packets := length (buffer s)\<rparr>"


section \<open>The buffer invariant\<close>

abbreviation keys :: "AudioReceiver \<Rightarrow> u16 list" where
  "keys s \<equiv> map fst (buffer s)"

definition map_ok :: "(u16 \<times> AudioRxPacket) list \<Rightarrow> bool" where
  "map_ok m \<longleftrightarrow> sorted_wrt (<) (map fst m) \<and> (\<forall>(k, p)\<in>set m. rx_seq p = k)"

lemma set_map_emplace:
  "map_of m k = None \<Longrightarrow> set (map_emplace k v m) = insert (k, v) (set m) \<and> length (map_emplace k v m) = Suc (length m)"
  by (induction k v m rule: map_emplace.induct) auto

lemma map_ok_emplace:
  assumes "map_ok m" "map_of m k = None" "rx_seq v = k"
  shows "map_ok (map_emplace k v m)"
proof -
  have "sorted_wrt (<) (map fst m) \<Longrightarrow> map_of m k = None \<Longrightarrow> sorted_wrt (<) (map fst (map_emplace k v m))"
    by (induction k v m rule: map_emplace.induct) (auto simp: set_map_emplace)
  with assms show ?thesis by (auto simp: map_ok_def set_map_emplace)
qed

lemma sorted_wrt_map_filter: "sorted_wrt R (map f xs) \<Longrightarrow> sorted_wrt R (map f (List.filter P xs))"
  by (induction xs) auto

lemma map_ok_erase: "map_ok m \<Longrightarrow> map_ok (map_erase k m)"
  by (auto simp: map_ok_def map_erase_def sorted_wrt_map_filter)

lemma mset_erase:
  assumes "map_ok m" "map_of m k = Some p"
  shows "mset (map snd m) = add_mset p (mset (map snd (map_erase k m)))"
  using assms
proof (induction m)
  case (Cons a m)
  have ok: "map_ok m" using Cons.prems by (auto simp: map_ok_def)
  show ?case
  proof (cases "fst a = k")
    case True
    have "map_erase k m = m"
      using Cons.prems(1) True by (auto simp: map_erase_def map_ok_def filter_id_conv)
    with True Cons.prems show ?thesis by (cases a) (auto simp: map_erase_def)
  next
    case False
    with Cons.IH[OF ok] Cons.prems(2) show ?thesis by (cases a) (auto simp: map_erase_def)
  qed
qed simp

lemma mset_emplace:
  "map_of m k = None \<Longrightarrow> mset (map snd (map_emplace k v m)) = add_mset v (mset (map snd m))"
  by (induction k v m rule: map_emplace.induct) auto

definition same_setup :: "AudioReceiver \<Rightarrow> AudioReceiver \<Rightarrow> bool" where
  "same_setup s s' \<longleftrightarrow> rx_config s' = rx_config s \<and> initial_buffer_packets s' = initial_buffer_packets s
     \<and> max_buffer_packets s' = max_buffer_packets s \<and> playback_callback s' = playback_callback s
     \<and> initialized s' = initialized s \<and> primed s' = primed s"

text \<open>What one run of the drain does.\<close>

definition drained :: "AudioReceiver \<Rightarrow> AudioRxPacket list \<Rightarrow> AudioReceiver \<Rightarrow> bool" where
  "drained s ready s' \<longleftrightarrow> same_setup s s' \<and> map_ok (buffer s')
     \<and> mset (map snd (buffer s)) = mset ready + mset (map snd (buffer s'))
     \<and> set (buffer s') \<subseteq> set (buffer s)"

lemma drained_refl: "map_ok (buffer s) \<Longrightarrow> drained s [] s"
  by (simp add: drained_def same_setup_def)

lemma drained_trans: "drained s r1 s1 \<Longrightarrow> drained s1 r2 s2 \<Longrightarrow> drained s (r1 @ r2) s2"
  by (auto simp: drained_def same_setup_def)

lemma drainReady_ok:
  "map_ok (buffer s) \<Longrightarrow> drainReady s = (ready, s') \<Longrightarrow>
   drained s ready s' \<and> map_of (buffer s') (expected_seq s') = None"
proof (induction s arbitrary: ready s' rule: drainReady.induct)
  case (1 s)
  show ?case
  proof (cases "map_of (buffer s) (expected_seq s)")
    case None
    with "1.prems" show ?thesis by (simp add: drainReady.simps[of s] drained_refl)
  next
    case (Some p)
    let ?s1 = "s\<lparr>buffer := map_erase (expected_seq s) (buffer s), expected_seq := expected_seq s + 1,
      rx_stats := (rx_stats s)\<lparr>delivered_packets := delivered_packets (rx_stats s) + 1\<rparr>\<rparr>"
    obtain r t where d: "drainReady ?s1 = (r, t)" by fastforce
    have e: "ready = p # r" "s' = t" using "1.prems"(2) d by (simp_all add: drainReady.simps[of s] Some Let_def)
    have ok1: "map_ok (buffer ?s1)" using map_ok_erase "1.prems"(1) by simp
    have "drained s [p] ?s1"
      using mset_erase[OF "1.prems"(1) Some] ok1 by (auto simp: drained_def same_setup_def map_erase_def)
    with "1.IH"[OF Some refl ok1 d] e drained_trans[of s "[p]" ?s1 r t] show ?thesis by simp
  qed
qed

lemma maybeSkipLoss_ok:
  "map_ok (buffer s) \<Longrightarrow> map_of (buffer s) (expected_seq s) = None \<Longrightarrow> maybeSkipLoss s = (ready, s') \<Longrightarrow>
   drained s ready s' \<and> map_of (buffer s') (expected_seq s') = None
     \<and> (buffer s' = [] \<or> length (buffer s') < unat (max_buffer_packets s))"
proof (induction s arbitrary: ready s' rule: maybeSkipLoss.induct)
  case (1 s)
  show ?case
  proof (cases "unat (max_buffer_packets s) \<le> length (buffer s) \<and> buffer s \<noteq> []")
    case True
    obtain r1 s1 where d: "drainReady (skip_to_begin s) = (r1, s1)" by fastforce
    obtain r2 s2 where m: "maybeSkipLoss s1 = (r2, s2)" by fastforce
    have e: "ready = r1 @ r2" "s' = s2"
      using "1.prems"(3) True d m by (simp_all add: maybeSkipLoss.simps[of s])
    have ok: "map_ok (buffer (skip_to_begin s))" using "1.prems"(1) by simp
    note d1 = drainReady_ok[OF ok d]
    have "drained s [] (skip_to_begin s)"
      using "1.prems"(1) by (simp add: drained_def same_setup_def) (simp add: skip_to_begin_def Let_def)
    then have "drained s r1 s1" using drained_trans[of s "[]" "skip_to_begin s" r1 s1] d1 by simp
    moreover from this have "map_ok (buffer s1)" "max_buffer_packets s1 = max_buffer_packets s"
      by (auto simp: drained_def same_setup_def)
    ultimately show ?thesis
      using "1.IH"[OF True d[symmetric] refl _ _ m] d1 e drained_trans by metis
  next
    case False
    with "1.prems" show ?thesis by (auto simp: maybeSkipLoss.simps[of s] drained_refl)
  qed
qed

text \<open>The two loops together.\<close>

definition drain_and_skip :: "AudioReceiver \<Rightarrow> AudioRxPacket list \<times> AudioReceiver" where
  "drain_and_skip s = (let (r1, t1) = drainReady s; (r2, t2) = maybeSkipLoss t1 in (r1 @ r2, t2))"

lemma drain_and_skip_ok:
  assumes "map_ok (buffer s)" "drain_and_skip s = (ready, s')"
  shows "drained s ready s'" and "map_of (buffer s') (expected_seq s') = None"
    and "buffer s' = [] \<or> length (buffer s') < unat (max_buffer_packets s)"
proof -
  obtain r1 t1 r2 t2 where d: "drainReady s = (r1, t1)" "maybeSkipLoss t1 = (r2, t2)"
    and e: "ready = r1 @ r2" "s' = t2"
    using assms(2) by (auto simp: drain_and_skip_def split: prod.splits)
  note a = drainReady_ok[OF assms(1) d(1)]
  from a have t1: "map_ok (buffer t1)" "map_of (buffer t1) (expected_seq t1) = None"
    "max_buffer_packets t1 = max_buffer_packets s"
    by (auto simp: drained_def same_setup_def)
  note b = maybeSkipLoss_ok[OF t1(1,2) d(2)]
  show "drained s ready s'" using a b e drained_trans by blast
  show "map_of (buffer s') (expected_seq s') = None" using b e by simp
  show "buffer s' = [] \<or> length (buffer s') < unat (max_buffer_packets s)" using b e t1(3) by simp
qed

definition rx_ok :: "AudioReceiver \<Rightarrow> bool" where
  "rx_ok s \<longleftrightarrow> map_ok (buffer s) \<and> 0 < unat (initial_buffer_packets s)
     \<and> unat (initial_buffer_packets s) < unat (max_buffer_packets s)
     \<and> length (buffer s) < unat (max_buffer_packets s)
     \<and> (\<not> primed s \<longrightarrow> length (buffer s) < unat (initial_buffer_packets s))
     \<and> (\<not> initialized s \<longrightarrow> buffer s = [] \<and> \<not> primed s)"

lemma stat_simps [simp]:
  "buffer (stat f s) = buffer s" "initialized (stat f s) = initialized s" "primed (stat f s) = primed s"
  "expected_seq (stat f s) = expected_seq s" "rx_config (stat f s) = rx_config s"
  "max_buffer_packets (stat f s) = max_buffer_packets s" "initial_buffer_packets (stat f s) = initial_buffer_packets s"
  "playback_callback (stat f s) = playback_callback s"
  by (simp_all add: stat_def)

lemma log_simps [simp]:
  "buffer (maybeLogStats n s) = buffer s" "initialized (maybeLogStats n s) = initialized s"
  "primed (maybeLogStats n s) = primed s" "expected_seq (maybeLogStats n s) = expected_seq s"
  "max_buffer_packets (maybeLogStats n s) = max_buffer_packets s"
  "initial_buffer_packets (maybeLogStats n s) = initial_buffer_packets s"
  "playback_callback (maybeLogStats n s) = playback_callback s" "rx_stats (maybeLogStats n s) = rx_stats s"
  by (auto simp: maybeLogStats_def split: option.splits)

text \<open>The state in which an accepted packet meets the buffer: first packet and jump resets done.\<close>

definition admit :: "u16 \<Rightarrow> AudioReceiver \<Rightarrow> AudioReceiver" where
  "admit sq s =
     (let s2 = (if \<not> initialized s then s\<lparr>initialized := True, primed := False, expected_seq := sq\<rparr> else s)
      in if uint (max_sequence_gap (rx_config s)) < seqDelta sq (expected_seq s2)
         then s2\<lparr>buffer := [], primed := False, expected_seq := sq\<rparr> else s2)"

lemma admit_simps [simp]:
  "initialized (admit sq s)" "max_buffer_packets (admit sq s) = max_buffer_packets s"
  "initial_buffer_packets (admit sq s) = initial_buffer_packets s"
  by (simp_all add: admit_def Let_def)

text \<open>\<open>pushPacket\<close>'s critical section, one branch at a time: the packet is late, or a duplicate, or it
  is stored, and then the two loops run if the receiver is primed. The state is given up to its
  statistics and log times.\<close>

definition same_buffer :: "AudioReceiver \<Rightarrow> AudioReceiver \<Rightarrow> bool" where
  "same_buffer s s' \<longleftrightarrow> same_setup s s' \<and> buffer s' = buffer s \<and> expected_seq s' = expected_seq s"

lemma same_buffer_simps [simp]:
  "same_buffer s s" "same_buffer s (stat f s') = same_buffer s s'" "same_buffer s (maybeLogStats n s') = same_buffer s s'"
  by (auto simp: same_buffer_def same_setup_def maybeLogStats_def split: option.splits)

definition stored :: "u16 \<Rightarrow> AudioRxPacket \<Rightarrow> AudioReceiver \<Rightarrow> AudioReceiver" where
  "stored sq p a = (let m = map_emplace sq p (buffer a)
     in a\<lparr>buffer := m, primed := primed a \<or> unat (initial_buffer_packets a) \<le> length m\<rparr>)"

lemma push_locked_cases:
  fixes sq d ts
  defines "p \<equiv> \<lparr>rx_seq = sq, rx_timestamp_ntp = ts, rx_payload = d\<rparr>"
  assumes "push_locked now sq d ts s = (res, s')"
  obtains (late) "res = None" "initialized s" "seqDelta sq (expected_seq s) < 0" "same_buffer s s'"
  | (dup) "res = None" "map_of (buffer (admit sq s)) sq \<noteq> None" "same_buffer (admit sq s) s'"
  | (wait) "res = Some []" "map_of (buffer (admit sq s)) sq = None"
      "\<not> primed (stored sq p (admit sq s))" "same_buffer (stored sq p (admit sq s)) s'"
  | (play) t ready t' where "res = Some ready" "map_of (buffer (admit sq s)) sq = None"
      "primed (stored sq p (admit sq s))" "same_buffer (stored sq p (admit sq s)) t"
      "drain_and_skip t = (ready, t')" "same_buffer t' s'"
proof -
  define s1 where "s1 = stat (\<lambda>t. t\<lparr>received_packets := received_packets t + 1\<rparr>) s"
  define s2 where "s2 = (if \<not> initialized s1 then s1\<lparr>initialized := True, primed := False, expected_seq := sq\<rparr> else s1)"
  define delta where "delta = seqDelta sq (expected_seq s2)"
  define s3 where "s3 = (if uint (max_sequence_gap (rx_config s2)) < delta
      then (stat (\<lambda>t. t\<lparr>reset_count := reset_count t + 1\<rparr>) s2)\<lparr>buffer := [], primed := False, expected_seq := sq\<rparr> else s2)"
  define s4 where "s4 = s3\<lparr>buffer := map_emplace sq p (buffer s3)\<rparr>"
  define s5 where "s5 = stat (\<lambda>t. t\<lparr>buffered_packets := length (buffer s4)\<rparr>) s4"
  define s6 where "s6 = (if \<not> primed s5 \<and> unat (initial_buffer_packets s5) \<le> length (buffer s5) then s5\<lparr>primed := True\<rparr> else s5)"
  note defs = s1_def s2_def delta_def s3_def s4_def s5_def s6_def
  have a: "same_buffer (admit sq s) s3"
    by (simp add: same_buffer_def same_setup_def admit_def Let_def defs stat_def)
  have s0: "seqDelta sq sq = 0" by (simp add: seqDelta_def)
  have push: "push_locked now sq d ts s =
      (if delta < 0 then (None, maybeLogStats now (stat (\<lambda>t. t\<lparr>late_packets := late_packets t + 1\<rparr>) s2))
       else if map_of (buffer s3) sq \<noteq> None
       then (None, maybeLogStats now (stat (\<lambda>t. t\<lparr>duplicate_packets := duplicate_packets t + 1\<rparr>) s3))
       else (case (if primed s6 then drain_and_skip s6 else ([], s6)) of
         (ready, s7) \<Rightarrow> (Some ready, maybeLogStats now (stat (\<lambda>t. t\<lparr>buffered_packets := length (buffer s7)\<rparr>) s7))))"
    by (simp only: push_locked_def Let_def s1_def[symmetric] s2_def[symmetric] delta_def[symmetric] s3_def[symmetric]
        p_def[symmetric] s4_def[symmetric] s5_def[symmetric] s6_def[symmetric] drain_and_skip_def)
  have st: "same_buffer (stored sq p (admit sq s)) s6"
    using a by (auto simp: same_buffer_def same_setup_def stored_def Let_def s4_def s5_def s6_def)
  have bf: "buffer s3 = buffer (admit sq s)" using a by (simp add: same_buffer_def)
  have pr: "primed (stored sq p (admit sq s)) = primed s6" using st by (simp add: same_buffer_def same_setup_def)
  consider "delta < 0" | "\<not> delta < 0" "map_of (buffer s3) sq \<noteq> None" | "\<not> delta < 0" "map_of (buffer s3) sq = None" "\<not> primed s6"
    | "\<not> delta < 0" "map_of (buffer s3) sq = None" "primed s6" by blast
  then show thesis
  proof cases
    case 1
    then have "initialized s1" using s0 by (auto simp: delta_def s2_def split: if_splits)
    with 1 have "initialized s" "seqDelta sq (expected_seq s) < 0" "same_buffer s s2"
      by (simp_all add: delta_def s2_def s1_def)
    with 1 late show thesis using assms(2) by (auto simp: push)
  next
    case 2
    with dup a bf show thesis using assms(2) by (auto simp: push)
  next
    case 3
    with wait st bf pr show thesis using assms(2) by (auto simp: push)
  next
    case 4
    obtain ready t' where d: "drain_and_skip s6 = (ready, t')" by fastforce
    from play[of ready s6 t'] 4 st bf pr d show thesis using assms(2) by (auto simp: push)
  qed
qed

lemma rx_ok_admit:
  "rx_ok s \<Longrightarrow> rx_ok (admit sq s)"
  by (auto simp: rx_ok_def admit_def Let_def map_ok_def)

lemma same_buffer_ok: "same_buffer s s' \<Longrightarrow> rx_ok s' = rx_ok s"
  by (simp add: rx_ok_def same_buffer_def same_setup_def)

lemma push_locked_ok:
  assumes "rx_ok s" "push_locked now sq d ts s = (res, s')"
  shows "rx_ok s'"
  using assms(2)
proof (cases rule: push_locked_cases)
  case late
  then show ?thesis using assms(1) same_buffer_ok by blast
next
  case dup
  then show ?thesis using rx_ok_admit[OF assms(1)] same_buffer_ok by blast
next
  case wait
  with rx_ok_admit[OF assms(1), of sq] have "rx_ok (stored sq \<lparr>rx_seq = sq, rx_timestamp_ntp = ts, rx_payload = d\<rparr> (admit sq s))"
    by (auto simp: rx_ok_def stored_def Let_def set_map_emplace intro: map_ok_emplace)
  then show ?thesis using same_buffer_ok wait by blast
next
  case (play t ready t')
  have ok: "rx_ok (admit sq s)" using rx_ok_admit[OF assms(1)] .
  then have "map_ok (buffer t)"
    using play(2,4) by (auto simp: same_buffer_def stored_def Let_def rx_ok_def intro: map_ok_emplace)
  note d = drain_and_skip_ok[OF this play(5)]
  have "same_setup t t'" using d(1) by (simp add: drained_def)
  then have "rx_ok t'"
    using d ok play(3,4) by (auto simp: rx_ok_def drained_def same_setup_def same_buffer_def stored_def Let_def)
  then show ?thesis using same_buffer_ok play by blast
qed

lemma pushPacket_ok: "rx_ok s \<Longrightarrow> rx_ok (snd (snd (pushPacket now sq d ts s)))"
  using push_locked_ok[of s now sq "the d" ts]
  by (auto simp: pushPacket_def Let_def split: option.splits prod.splits)

lemma rx_reset_ok: "rx_ok s \<Longrightarrow> rx_ok (rx_reset s)"
  by (simp add: rx_ok_def rx_reset_def map_ok_def)

lemma setPlaybackCallback_ok: "rx_ok s \<Longrightarrow> rx_ok (setPlaybackCallback cb s)"
  by (simp add: rx_ok_def setPlaybackCallback_def)

lemma init_ok:
  assumes "packetCountFromMs (initial_buffer_ms c) (frame_duration_ms c) < 0xFFFFFFFF"
  shows "rx_ok (AudioReceiver_init c)"
proof -
  define ini where "ini = max 1 (packetCountFromMs (initial_buffer_ms c) (frame_duration_ms c))"
  have "1 \<le> ini" by (simp add: ini_def)
  then have i: "0 < unat ini" by (simp add: word_le_nat_alt)
  have i2: "ini < 0xFFFFFFFF" using assms by (simp add: ini_def max_def)
  then have "unat (ini + 1) = unat ini + 1" using i2 by (simp add: unat_plus_if' word_less_nat_alt)
  moreover have "unat (ini + 1) \<le> unat (max (ini + 1) x)" for x :: u32 by (simp add: max_def word_le_nat_alt)
  ultimately have "unat ini < unat (max (ini + 1) x)" for x :: u32 by (metis Suc_eq_plus1 Suc_le_eq)
  then show ?thesis using i by (simp add: rx_ok_def AudioReceiver_init_def Let_def ini_def[symmetric] map_ok_def)
    (meson le_less_trans zero_le)
qed


section \<open>Order of delivery\<close>

text \<open>No wrap-around in the window: every buffered number is at or past the expected one and below 65535.\<close>

definition no_wrap :: "AudioReceiver \<Rightarrow> bool" where
  "no_wrap s \<longleftrightarrow> (\<forall>k\<in>set (keys s). expected_seq s \<le> k \<and> k < 0xFFFF)"

definition in_order :: "AudioReceiver \<Rightarrow> AudioRxPacket list \<Rightarrow> AudioReceiver \<Rightarrow> bool" where
  "in_order s ready s' \<longleftrightarrow> sorted_wrt (<) (map rx_seq ready) \<and> expected_seq s \<le> expected_seq s' \<and> no_wrap s'
     \<and> (\<forall>p\<in>set ready. expected_seq s \<le> rx_seq p \<and> rx_seq p < expected_seq s')"

lemma in_order_trans: "in_order s r1 s1 \<Longrightarrow> in_order s1 r2 s2 \<Longrightarrow> in_order s (r1 @ r2) s2"
  by (auto simp: in_order_def sorted_wrt_append intro: order.trans order.strict_trans2 dest: order.strict_trans1 order.strict_trans2)

lemma in_order_refl: "no_wrap s \<Longrightarrow> in_order s [] s"
  by (simp add: in_order_def)

lemma next_seq: "(k :: u16) < 0xFFFF \<Longrightarrow> k < k + 1 \<and> (k < j \<longrightarrow> k + 1 \<le> j)"
  by (auto simp: word_less_nat_alt word_le_nat_alt unat_plus_if')

lemma drainReady_order:
  "map_ok (buffer s) \<Longrightarrow> no_wrap s \<Longrightarrow> drainReady s = (ready, s') \<Longrightarrow> in_order s ready s'"
proof (induction s arbitrary: ready s' rule: drainReady.induct)
  case (1 s)
  show ?case
  proof (cases "map_of (buffer s) (expected_seq s)")
    case None
    with "1.prems" show ?thesis by (simp add: drainReady.simps[of s] in_order_refl)
  next
    case (Some p)
    let ?s1 = "s\<lparr>buffer := map_erase (expected_seq s) (buffer s), expected_seq := expected_seq s + 1,
      rx_stats := (rx_stats s)\<lparr>delivered_packets := delivered_packets (rx_stats s) + 1\<rparr>\<rparr>"
    obtain r t where d: "drainReady ?s1 = (r, t)" by fastforce
    have e: "ready = p # r" "s' = t" using "1.prems"(3) d by (simp_all add: drainReady.simps[of s] Some Let_def)
    have mem: "(expected_seq s, p) \<in> set (buffer s)" using Some by (rule map_of_SomeD)
    then have p: "rx_seq p = expected_seq s" and lt: "expected_seq s < 0xFFFF"
      using "1.prems"(1,2) by (auto simp: map_ok_def no_wrap_def)
    have "no_wrap ?s1"
      using "1.prems"(2) next_seq[OF lt] by (auto simp: no_wrap_def map_erase_def order.strict_iff_order)
    with next_seq[OF lt] p have "in_order s [p] ?s1" by (simp add: in_order_def order.strict_implies_order)
    moreover have "in_order ?s1 r t"
      using "1.IH"[OF Some refl _ \<open>no_wrap ?s1\<close> d] map_ok_erase "1.prems"(1) by simp
    ultimately have "in_order s ([p] @ r) t" by (rule in_order_trans)
    then show ?thesis using e by simp
  qed
qed

lemma skip_order: "map_ok (buffer s) \<Longrightarrow> no_wrap s \<Longrightarrow> buffer s \<noteq> [] \<Longrightarrow> in_order s [] (skip_to_begin s)"
  by (cases "buffer s") (auto simp: in_order_def no_wrap_def map_ok_def)

lemma maybeSkipLoss_order:
  "map_ok (buffer s) \<Longrightarrow> no_wrap s \<Longrightarrow> maybeSkipLoss s = (ready, s') \<Longrightarrow> in_order s ready s'"
proof (induction s arbitrary: ready s' rule: maybeSkipLoss.induct)
  case (1 s)
  show ?case
  proof (cases "unat (max_buffer_packets s) \<le> length (buffer s) \<and> buffer s \<noteq> []")
    case True
    obtain r1 s1 where d: "drainReady (skip_to_begin s) = (r1, s1)" by fastforce
    obtain r2 s2 where m: "maybeSkipLoss s1 = (r2, s2)" by fastforce
    have e: "ready = r1 @ r2" "s' = s2" using "1.prems"(3) True d m by (simp_all add: maybeSkipLoss.simps[of s])
    have a: "in_order s [] (skip_to_begin s)" using skip_order "1.prems" True by blast
    then have n: "no_wrap (skip_to_begin s)" by (simp add: in_order_def)
    have ok: "map_ok (buffer (skip_to_begin s))" using "1.prems"(1) by simp
    note b = drainReady_order[OF ok n d]
    have "map_ok (buffer s1)" "no_wrap s1" using drainReady_ok[OF ok d] b by (simp_all add: drained_def in_order_def)
    from "1.IH"[OF True d[symmetric] refl this m] in_order_trans[OF in_order_trans[OF a b]] show ?thesis by (simp add: e)
  next
    case False
    with "1.prems" show ?thesis by (auto simp: maybeSkipLoss.simps[of s] in_order_refl)
  qed
qed

lemma drain_and_skip_order:
  assumes "map_ok (buffer s)" "no_wrap s" "drain_and_skip s = (ready, s')"
  shows "in_order s ready s'"
proof -
  obtain r1 t1 r2 t2 where d: "drainReady s = (r1, t1)" "maybeSkipLoss t1 = (r2, t2)" "ready = r1 @ r2" "s' = t2"
    using assms(3) by (auto simp: drain_and_skip_def split: prod.splits)
  have a: "in_order s r1 t1" using drainReady_order assms d by blast
  have "map_ok (buffer t1)" "no_wrap t1"
    using drainReady_ok[OF assms(1) d(1)] a by (simp_all add: drained_def in_order_def)
  with maybeSkipLoss_order[OF _ _ d(2)] in_order_trans[OF a] d(3,4) show ?thesis by simp
qed

lemma in_order_cong:
  "same_buffer s t \<Longrightarrow> same_buffer t' s' \<Longrightarrow> in_order t ready t' \<Longrightarrow> in_order s ready s'"
  by (simp add: in_order_def same_buffer_def no_wrap_def)

lemma push_locked_order:
  assumes "rx_ok s" "initialized s" "no_wrap s" "expected_seq s \<le> sq" "sq < 0xFFFF"
    and "push_locked now sq d ts s = (res, s')"
  shows "in_order s (case res of None \<Rightarrow> [] | Some r \<Rightarrow> r) s'"
proof -
  let ?p = "\<lparr>rx_seq = sq, rx_timestamp_ntp = ts, rx_payload = d\<rparr>"
  have adm: "in_order s [] (admit sq s)"
    using assms(2-5) by (auto simp: admit_def Let_def in_order_def no_wrap_def)
  have le: "expected_seq (admit sq s) \<le> sq" using assms(2,4) by (simp add: admit_def Let_def)
  have st: "in_order s [] (stored sq ?p (admit sq s))" if "map_of (buffer (admit sq s)) sq = None"
    using adm le assms(5) that by (auto simp: in_order_def no_wrap_def stored_def Let_def set_map_emplace)
  from assms(6) show ?thesis
  proof (cases rule: push_locked_cases)
    case late
    then show ?thesis using in_order_cong[of s s s s' "[]"] in_order_refl[OF assms(3)] by simp
  next
    case dup
    then show ?thesis using in_order_cong[of s s "admit sq s" s' "[]"] adm by simp
  next
    case wait
    then show ?thesis using in_order_cong[of s s "stored sq ?p (admit sq s)" s' "[]"] st by simp
  next
    case (play t ready t')
    have m: "map_ok (buffer t)"
      using play(2,4) rx_ok_admit[OF assms(1), of sq]
      by (auto simp: same_buffer_def stored_def Let_def rx_ok_def intro: map_ok_emplace)
    have st': "in_order s [] t" using in_order_cong[of s s "stored sq ?p (admit sq s)" t "[]"] st play by simp
    then have "no_wrap t" by (simp add: in_order_def)
    from in_order_trans[OF st' drain_and_skip_order[OF m this play(5)]] have "in_order s ready t'" by simp
    then show ?thesis using in_order_cong[of s s t' s' ready] play by simp
  qed
qed


section \<open>Properties\<close>

inductive rx_reachable :: "AudioReceiver \<Rightarrow> bool" where
  rx_init: "packetCountFromMs (initial_buffer_ms c) (frame_duration_ms c) < 0xFFFFFFFF \<Longrightarrow> rx_reachable (AudioReceiver_init c)"
| rx_push: "rx_reachable s \<Longrightarrow> rx_reachable (snd (snd (pushPacket now sq d ts s)))"
| rx_res: "rx_reachable s \<Longrightarrow> rx_reachable (rx_reset s)"
| rx_cb: "rx_reachable s \<Longrightarrow> rx_reachable (setPlaybackCallback cb s)"

lemma rx_reachable_ok: "rx_reachable s \<Longrightarrow> rx_ok s"
  by (induction rule: rx_reachable.induct) (auto intro: init_ok pushPacket_ok rx_reset_ok setPlaybackCallback_ok)

definition small_config :: RxConfig where
  "small_config = \<lparr>frame_duration_ms = 20, initial_buffer_ms = 20, max_buffer_ms = 40, max_sequence_gap = 1000, log_period_sec = 1\<rparr>"

definition small_receiver :: AudioReceiver where
  "small_receiver = setPlaybackCallback (Some (\<lambda>_ _. True)) (AudioReceiver_init small_config)"

lemma small_reachable: "rx_reachable small_receiver"
  unfolding small_receiver_def
  by (intro rx_cb rx_init) (simp add: small_config_def packetCountFromMs_def Let_def)

definition audio_packet :: "u16 \<Rightarrow> AudioRxPacket" where
  "audio_packet sq = \<lparr>rx_seq = sq, rx_timestamp_ntp = 0, rx_payload = [1]\<rparr>"

primrec push_all :: "u16 list \<Rightarrow> AudioReceiver \<Rightarrow> u16 list \<times> AudioReceiver" where
  "push_all [] s = ([], s)"
| "push_all (sq # sqs) s = (case pushPacket 0 sq (Some [1]) 0 s of (ok, played, s1) \<Rightarrow>
     (case push_all sqs s1 of (later, s2) \<Rightarrow> (map rx_seq played @ later, s2)))"

text \<open>In every reachable state the buffer is a strictly sorted map of fewer than \<open>max_buffer_packets_\<close>
  packets, each under its own number, and before priming it holds fewer than the initial target: the
  latency bound of the configuration is never exceeded.\<close>
theorem audio_buffer_bounded:
  assumes "rx_reachable s"
  shows "length (buffer s) < unat (max_buffer_packets s) \<and> map_ok (buffer s)
    \<and> (primed s \<or> length (buffer s) < unat (initial_buffer_packets s))"
  using rx_reachable_ok[OF assms] by (auto simp: rx_ok_def)

theorem audio_buffer_bounded_witness: "length (buffer small_receiver) < unat (max_buffer_packets small_receiver)"
  using audio_buffer_bounded[OF small_reachable] by simp

lemma pushPacket_conserves:
  assumes "rx_ok s" "playback_callback s = Some cb" "d \<noteq> []" "pushPacket now sq (Some d) ts s = (ok, played, s')"
  shows "played = [] \<and> buffer s' = buffer s
    \<or> mset played + mset (map snd (buffer s'))
      = add_mset \<lparr>rx_seq = sq, rx_timestamp_ntp = ts, rx_payload = d\<rparr>
          (mset (map snd (if uint (max_sequence_gap (rx_config s)) < seqDelta sq (expected_seq s) \<and> initialized s
                          then [] else buffer s)))"
proof -
  let ?p = "\<lparr>rx_seq = sq, rx_timestamp_ntp = ts, rx_payload = d\<rparr>"
  obtain res t where l: "push_locked now sq d ts s = (res, t)" by fastforce
  have pl: "played = (case res of None \<Rightarrow> [] | Some r \<Rightarrow> r)" "s' = t"
    using assms(2-4) l by (auto simp: pushPacket_def Let_def split: option.splits)
  have b: "buffer (admit sq s) = (if uint (max_sequence_gap (rx_config s)) < seqDelta sq (expected_seq s) \<and> initialized s
      then [] else buffer s)"
    using assms(1) by (auto simp: admit_def Let_def rx_ok_def seqDelta_def)
  have st: "mset (map snd (buffer (stored sq ?p (admit sq s)))) = add_mset ?p (mset (map snd (buffer (admit sq s))))"
    if "map_of (buffer (admit sq s)) sq = None"
    using mset_emplace[OF that] by (simp add: stored_def Let_def)
  from l show ?thesis
  proof (cases rule: push_locked_cases)
    case late
    then show ?thesis using pl by (simp add: same_buffer_def)
  next
    case dup
    then show ?thesis using pl b by (auto simp: same_buffer_def split: if_splits)
  next
    case wait
    then show ?thesis using pl b st by (simp add: same_buffer_def)
  next
    case (play u ready u')
    have m: "map_ok (buffer u)"
      using play(2,4) rx_ok_admit[OF assms(1), of sq]
      by (auto simp: same_buffer_def stored_def Let_def rx_ok_def intro: map_ok_emplace)
    from drain_and_skip_ok(1)[OF m play(5)] have "mset (map snd (buffer u)) = mset ready + mset (map snd (buffer u'))"
      by (simp add: drained_def)
    then show ?thesis using play pl b st by (simp add: same_buffer_def)
  qed
qed

text \<open>Nothing is lost or duplicated by the buffer: a packet that is neither late nor a duplicate is
  played at once or stored, and together with the packets already buffered (none after a jump of more
  than the configured gap) it is accounted for exactly once.\<close>
theorem audio_packets_conserved:
  assumes "rx_ok s" "playback_callback s = Some cb" "d \<noteq> []" "pushPacket now sq (Some d) ts s = (ok, played, s')"
  shows "played = [] \<and> buffer s' = buffer s
    \<or> mset played + mset (map snd (buffer s'))
      = add_mset \<lparr>rx_seq = sq, rx_timestamp_ntp = ts, rx_payload = d\<rparr>
          (mset (map snd (if uint (max_sequence_gap (rx_config s)) < seqDelta sq (expected_seq s) \<and> initialized s
                          then [] else buffer s)))"
  by (rule pushPacket_conserves [OF assms])

lemma small_ok: "rx_ok small_receiver" "playback_callback small_receiver = Some (\<lambda>_ _. True)"
  "buffer small_receiver = []" "\<not> initialized small_receiver"
  using rx_reachable_ok[OF small_reachable]
  by (simp_all add: small_receiver_def setPlaybackCallback_def AudioReceiver_init_def Let_def)

theorem audio_packets_conserved_witness:
  "case pushPacket 0 5 (Some [1]) 0 small_receiver of (ok, played, s') \<Rightarrow>
     played = [] \<and> buffer s' = [] \<or> mset played + mset (map snd (buffer s')) = {#audio_packet 5#}"
  using audio_packets_conserved[OF small_ok(1,2), of "[1]" 0 5 0] small_ok(3,4)
  by (auto simp: audio_packet_def split: prod.splits)

text \<open>Play-out order. While no number wraps (everything buffered lies between the expected number
  and 65534, and so does the new packet) the packets handed to the callback have strictly increasing
  numbers, all at or past the number expected before and below the one expected after, so over
  successive pushes playback never goes back; the condition carries over to the next push.\<close>
theorem audio_played_in_order:
  assumes "rx_ok s" "initialized s" "no_wrap s" "expected_seq s \<le> sq" "sq < 0xFFFF" "d \<noteq> []"
    and "pushPacket now sq (Some d) ts s = (ok, played, s')"
  shows "sorted_wrt (<) (map rx_seq played) \<and> no_wrap s' \<and> expected_seq s \<le> expected_seq s'
    \<and> (\<forall>p\<in>set played. expected_seq s \<le> rx_seq p \<and> rx_seq p < expected_seq s')"
proof -
  obtain res t where l: "push_locked now sq d ts s = (res, t)" by fastforce
  have "s' = t \<and> (played = [] \<or> played = (case res of None \<Rightarrow> [] | Some r \<Rightarrow> r))"
    using assms(6,7) l by (auto simp: pushPacket_def Let_def split: option.splits if_splits)
  with push_locked_order[OF assms(1-5) l] show ?thesis by (auto simp: in_order_def)
qed

definition running_receiver :: AudioReceiver where
  "running_receiver = snd (push_all [100, 102] small_receiver)"

lemma running_reachable: "rx_ok running_receiver"
  using pushPacket_ok[OF pushPacket_ok[OF small_ok(1)], of 0 102 "Some [1]" 0 0 100 "Some [1]" 0]
  by (simp add: running_receiver_def case_prod_beta)

theorem audio_played_in_order_witness:
  "sorted_wrt (<) (map rx_seq (fst (snd (pushPacket 0 104 (Some [1]) 0 running_receiver))))
   \<and> map rx_seq (fst (snd (pushPacket 0 104 (Some [1]) 0 running_receiver))) = [102]"
proof
  have "initialized running_receiver" "no_wrap running_receiver" "expected_seq running_receiver \<le> 104"
    by (simp_all add: no_wrap_def) code_simp+
  then show "sorted_wrt (<) (map rx_seq (fst (snd (pushPacket 0 104 (Some [1]) 0 running_receiver))))"
    using audio_played_in_order[OF running_reachable, of 104 "[1]" 0 0]
    by (cases "pushPacket 0 104 (Some [1]) 0 running_receiver") auto
  show "map rx_seq (fst (snd (pushPacket 0 104 (Some [1]) 0 running_receiver))) = [102]" by code_simp
qed

text \<open>At the 16-bit wrap-around \<open>buffer_.begin()\<close> is not the oldest packet: with 65533 played and
  65534 missing, the arrival of 65535 and then 0 fills the buffer, and 0 is played although 65535 is
  held and comes before it. 65535 is then behind the expected number and stays in the buffer.\<close>
theorem audio_wrap_skips_held_packet:
  "case push_all [65533, 65535, 0, 1] small_receiver of (played, s) \<Rightarrow>
     played = [65533, 0, 1] \<and> keys s = [65535] \<and> seqDelta 65535 0 < 0 \<and> seqDelta 65535 (expected_seq s) < 0"
  by code_simp

end
