(* ===== verification/AudioManager.thy ===== *)
theory AudioManager
  imports PacketCodec
begin

text \<open>
  \<open>src/src/audio/audio_manager.cpp\<close>, as built with GStreamer: the object that captures and encodes the
  robot's audio and plays the peer's. GStreamer is not under \<open>src/\<close>: what its calls answer are arguments
  (the record \<open>gst\<close>), a pipeline or element is whether the pointer to it is set. \<open>fl\<close> rounds the long
  double operations of the time stamps; a cast to an unsigned integer truncates. A buffer's time stamp is
  \<open>None\<close> when GStreamer has none.
\<close>

section \<open>NTP time\<close>

definition ntp_of_ns :: "(double \<Rightarrow> double) \<Rightarrow> nat \<Rightarrow> u64" where
  "ntp_of_ns fl ns =
     (let seconds = ns div 1000000000; nanoseconds = ns mod 1000000000;
          ntp_seconds = of_nat (seconds + 2208988800) :: u32;
          ntp_fraction = of_int (floor (fl (fl (fl (of_nat nanoseconds) * 4294967296) / 1000000000))) :: u32
      in push_bit 32 (ucast ntp_seconds) OR ucast ntp_fraction)"

definition addNsToNtp :: "(double \<Rightarrow> double) \<Rightarrow> u64 \<Rightarrow> u64 \<Rightarrow> u64" where
  "addNsToNtp fl base_ntp delta_ns =
     (let ntp_seconds = drop_bit 32 base_ntp; ntp_fraction = base_ntp AND 0xFFFFFFFF;
          add_seconds = delta_ns div 1000000000; rem_ns = delta_ns mod 1000000000;
          add_fraction = of_int (floor (fl (fl (fl (of_nat (unat rem_ns)) * 4294967296) / 1000000000)));
          fraction = ntp_fraction + add_fraction; seconds = ntp_seconds + add_seconds
      in if push_bit 32 1 \<le> fraction then push_bit 32 (seconds + 1) OR (fraction - push_bit 32 1)
         else push_bit 32 seconds OR fraction)"

definition ntpDiffToNs :: "(double \<Rightarrow> double) \<Rightarrow> u64 \<Rightarrow> u64 \<Rightarrow> u64" where
  "ntpDiffToNs fl earlier_ntp later_ntp =
     (if later_ntp \<le> earlier_ntp then 0
      else (let seconds_diff = drop_bit 32 later_ntp - drop_bit 32 earlier_ntp;
                fraction_diff = uint (later_ntp AND 0xFFFFFFFF) - uint (earlier_ntp AND 0xFFFFFFFF);
                (sd, fd) = (if fraction_diff < 0 then (seconds_diff - 1, fraction_diff + 2 ^ 32) else (seconds_diff, fraction_diff))
            in sd * 1000000000 + of_int (floor (fl (fl (fl (of_int fd) * 1000000000) / 4294967296)))))"

section \<open>State\<close>

record AudioConfig =
  ac_enabled :: bool
  uplink_enabled :: bool
  downlink_enabled :: bool
  aec_enabled :: bool
  capture_device :: string
  playback_device :: string
  playback_volume :: double
  sample_rate :: u32
  channels :: u32
  ac_frame_duration_ms :: u32
  samples_per_channel :: u32
  bitrate_bps :: u32
  opus_inband_fec_enabled :: bool
  opus_dtx_enabled :: bool

definition AudioConfig_default :: AudioConfig where
  "AudioConfig_default = \<lparr>ac_enabled = False, uplink_enabled = True, downlink_enabled = True, aec_enabled = False,
     capture_device = [], playback_device = [], playback_volume = 1, sample_rate = 48000, channels = 1,
     ac_frame_duration_ms = 20, samples_per_channel = 960, bitrate_bps = 64000, opus_inband_fec_enabled = True,
     opus_dtx_enabled = False\<rparr>"

record AudioWindow =
  stats_last_log :: "int option"
  capture_packets_window :: u64
  capture_bytes_window :: u64
  uplink_packets_window :: u64
  uplink_bytes_window :: u64
  downlink_packets_window :: u64
  downlink_bytes_window :: u64
  playback_push_failures_window :: u64

definition AudioWindow_zero :: AudioWindow where
  "AudioWindow_zero = \<lparr>stats_last_log = None, capture_packets_window = 0, capture_bytes_window = 0,
     uplink_packets_window = 0, uplink_bytes_window = 0, downlink_packets_window = 0, downlink_bytes_window = 0,
     playback_push_failures_window = 0\<rparr>"

record AudioManager =
  am_config :: AudioConfig
  am_initialized :: bool
  am_running :: bool
  capture_active :: bool
  playback_active :: bool
  capture_pipeline :: bool
  playback_pipeline :: bool
  capture_sink :: bool
  playback_src :: bool
  am_callback :: bool
  capture_pts_initialized :: bool
  capture_base_ntp :: u64
  capture_first_pts_ns :: u64
  capture_packet_index :: u64
  playback_pts_initialized :: bool
  playback_base_ntp :: u64
  playback_last_pts_ns :: u64
  am_stats :: AudioWindow

definition AudioManager_init :: AudioManager where
  "AudioManager_init = \<lparr>am_config = AudioConfig_default, am_initialized = False, am_running = False,
     capture_active = False, playback_active = False, capture_pipeline = False, playback_pipeline = False,
     capture_sink = False, playback_src = False, am_callback = False, capture_pts_initialized = False,
     capture_base_ntp = 0, capture_first_pts_ns = 0, capture_packet_index = 0, playback_pts_initialized = False,
     playback_base_ntp = 0, playback_last_pts_ns = 0, am_stats = AudioWindow_zero\<rparr>"

text \<open>What GStreamer answers: initialisation, parsing a description, finding the named element, and whether
  setting a pipeline to playing did not fail.\<close>

record gst =
  gst_init :: bool
  gst_parse :: "string \<Rightarrow> bool"
  gst_sink :: bool
  gst_src :: bool
  gst_play_capture :: bool
  gst_play_playback :: bool

section \<open>Statistics\<close>

definition am_maybeLogStats :: "int \<Rightarrow> AudioWindow \<Rightarrow> AudioWindow" where
  "am_maybeLogStats now_ms w =
     (case stats_last_log w of
        None \<Rightarrow> w\<lparr>stats_last_log := Some now_ms\<rparr>
      | Some last_log \<Rightarrow>
          if now_ms - last_log < 1000 then w
          else if \<not> (0 < capture_packets_window w \<or> 0 < uplink_packets_window w \<or> 0 < downlink_packets_window w
                  \<or> 0 < playback_push_failures_window w)
          then w\<lparr>stats_last_log := Some now_ms\<rparr>
          else AudioWindow_zero\<lparr>stats_last_log := Some now_ms\<rparr>)"

definition noteCapturePacket :: "int \<Rightarrow> nat \<Rightarrow> AudioManager \<Rightarrow> AudioManager" where
  "noteCapturePacket now_ms n a = a\<lparr>am_stats := am_maybeLogStats now_ms
     ((am_stats a)\<lparr>capture_packets_window := capture_packets_window (am_stats a) + 1,
       capture_bytes_window := capture_bytes_window (am_stats a) + of_nat n\<rparr>)\<rparr>"

definition noteUplinkPacket :: "int \<Rightarrow> nat \<Rightarrow> AudioManager \<Rightarrow> AudioManager" where
  "noteUplinkPacket now_ms n a = a\<lparr>am_stats := am_maybeLogStats now_ms
     ((am_stats a)\<lparr>uplink_packets_window := uplink_packets_window (am_stats a) + 1,
       uplink_bytes_window := uplink_bytes_window (am_stats a) + of_nat n\<rparr>)\<rparr>"

definition noteDownlinkPacket :: "int \<Rightarrow> nat \<Rightarrow> bool \<Rightarrow> AudioManager \<Rightarrow> AudioManager" where
  "noteDownlinkPacket now_ms n push_ok a = a\<lparr>am_stats := am_maybeLogStats now_ms
     ((am_stats a)\<lparr>downlink_packets_window := downlink_packets_window (am_stats a) + 1,
       downlink_bytes_window := downlink_bytes_window (am_stats a) + of_nat n,
       playback_push_failures_window := (if push_ok then playback_push_failures_window (am_stats a)
         else playback_push_failures_window (am_stats a) + 1)\<rparr>)\<rparr>"

section \<open>Pipelines\<close>

text \<open>Numbers in a description: \<open>nat_digits\<close>, and \<open>show_double\<close> for the volume.\<close>

definition digits32 :: "u32 \<Rightarrow> string" where
  "digits32 w = nat_digits (unat w)"

definition buildCapturePipelineDescription :: "AudioConfig \<Rightarrow> string" where
  "buildCapturePipelineDescription c =
     ''alsasrc name=audio_capture_src do-timestamp=true''
     @ (if capture_device c \<noteq> [] then '' device='' @ capture_device c else [])
     @ '' ! audioconvert'' @ '' ! audioresample'' @ '' ! audio/x-raw,format=S16LE,rate='' @ digits32 (sample_rate c)
     @ '',channels='' @ digits32 (channels c)
     @ (if aec_enabled c \<and> downlink_enabled c
        then '' ! webrtcdsp name=audio_dsp echo-cancel=true noise-suppression=true gain-control=true''
             @ '' extended-filter=true probe=audio_echo_probe'' else [])
     @ '' ! queue max-size-buffers=4 leaky=downstream''
     @ '' ! opusenc audio-type=voice frame-size='' @ digits32 (ac_frame_duration_ms c)
     @ '' bitrate='' @ digits32 (bitrate_bps c)
     @ '' inband-fec='' @ (if opus_inband_fec_enabled c then ''true'' else ''false'')
     @ '' dtx='' @ (if opus_dtx_enabled c then ''true'' else ''false'')
     @ '' ! appsink name=audio_capture_sink emit-signals=true sync=false max-buffers=4 drop=true''"

definition buildPlaybackPipelineDescription :: "(double \<Rightarrow> string) \<Rightarrow> AudioConfig \<Rightarrow> string" where
  "buildPlaybackPipelineDescription show_double c =
     ''appsrc name=audio_playback_src is-live=true format=time block=false do-timestamp=false''
     @ '' caps=audio/x-opus,channel-mapping-family=(int)0,channels=(int)'' @ digits32 (channels c)
     @ '',rate=(int)'' @ digits32 (sample_rate c)
     @ '' ! queue max-size-buffers=8 leaky=downstream'' @ '' ! opusparse'' @ '' ! opusdec'' @ '' ! audioconvert''
     @ '' ! audioresample'' @ '' ! audio/x-raw,format=S16LE,rate='' @ digits32 (sample_rate c)
     @ '',channels='' @ digits32 (channels c) @ '' ! volume volume='' @ show_double (playback_volume c)
     @ (if aec_enabled c \<and> uplink_enabled c then '' ! webrtcechoprobe name=audio_echo_probe'' else [])
     @ (if playback_device c = [] then '' ! autoaudiosink name=audio_playback_sink sync=true''
        else '' ! alsasink name=audio_playback_sink sync=true device='' @ playback_device c)"

definition stopPipelines :: "AudioManager \<Rightarrow> AudioManager" where
  "stopPipelines a = a\<lparr>am_running := False, capture_active := False, playback_active := False,
     capture_pts_initialized := False, playback_pts_initialized := False, capture_base_ntp := 0,
     playback_base_ntp := 0, capture_first_pts_ns := 0, playback_last_pts_ns := 0, capture_packet_index := 0\<rparr>"

definition am_teardown :: "AudioManager \<Rightarrow> AudioManager" where
  "am_teardown a = (stopPipelines a)\<lparr>capture_sink := False, playback_src := False, capture_pipeline := False,
     playback_pipeline := False, am_initialized := False\<rparr>"

definition createCapturePipeline :: "gst \<Rightarrow> AudioManager \<Rightarrow> bool \<times> AudioManager" where
  "createCapturePipeline g a =
     (let a1 = a\<lparr>capture_pipeline := gst_parse g (buildCapturePipelineDescription (am_config a))\<rparr>
      in if \<not> capture_pipeline a1 then (False, a1)
         else (let a2 = a1\<lparr>capture_sink := gst_sink g\<rparr> in (capture_sink a2, a2)))"

definition createPlaybackPipeline :: "(double \<Rightarrow> string) \<Rightarrow> gst \<Rightarrow> AudioManager \<Rightarrow> bool \<times> AudioManager" where
  "createPlaybackPipeline show_double g a =
     (let a1 = a\<lparr>playback_pipeline := gst_parse g (buildPlaybackPipelineDescription show_double (am_config a))\<rparr>
      in if \<not> playback_pipeline a1 then (False, a1)
         else (let a2 = a1\<lparr>playback_src := gst_src g\<rparr> in (playback_src a2, a2)))"

definition initializePipelines :: "(double \<Rightarrow> string) \<Rightarrow> gst \<Rightarrow> AudioConfig \<Rightarrow> AudioManager \<Rightarrow> bool \<times> AudioManager" where
  "initializePipelines show_double g c a =
     (let a = a\<lparr>am_config := c\<rparr>
      in if \<not> gst_init g then (False, a)
         else (let a1 = (am_teardown a)\<lparr>am_config := c\<rparr>;
                   (ok1, a2) = (if ac_enabled c \<and> uplink_enabled c then createCapturePipeline g a1 else (True, a1))
               in if \<not> ok1 then (False, am_teardown a2)
                  else (let (ok2, a3) = (if ac_enabled c \<and> downlink_enabled c then createPlaybackPipeline show_double g a2 else (True, a2))
                        in if \<not> ok2 then (False, am_teardown a3) else (True, a3\<lparr>am_initialized := True\<rparr>))))"

definition startPipelines :: "gst \<Rightarrow> AudioManager \<Rightarrow> bool \<times> AudioManager" where
  "startPipelines g a =
     (if \<not> ac_enabled (am_config a) then (True, a\<lparr>am_running := False, capture_active := False, playback_active := False\<rparr>)
      else if \<not> am_initialized a then (False, a)
      else (let a1 = a\<lparr>capture_pts_initialized := False, playback_pts_initialized := False, capture_packet_index := 0,
                  playback_last_pts_ns := 0, capture_active := False, playback_active := False\<rparr>;
                (s1, a2) = (if \<not> capture_pipeline a1 then (False, a1)
                  else if \<not> gst_play_capture g then (False, a1\<lparr>capture_sink := False, capture_pipeline := False\<rparr>)
                  else (True, a1\<lparr>capture_active := True\<rparr>));
                (s2, a3) = (if \<not> playback_pipeline a2 then (False, a2)
                  else if \<not> gst_play_playback g then (False, a2\<lparr>playback_src := False, playback_pipeline := False\<rparr>)
                  else (True, a2\<lparr>playback_active := True\<rparr>))
            in if \<not> (s1 \<or> s2) then (False, a3\<lparr>am_running := False\<rparr>) else (True, a3\<lparr>am_running := True\<rparr>)))"

section \<open>Packets\<close>

text \<open>\<open>handleNewSample\<close>: \<open>None\<close> for a sample that could not be pulled or mapped. What comes out is the flow
  result and the packet for the callback.\<close>

datatype flow = FLOW_OK | FLOW_FLUSHING | FLOW_ERROR

definition handleNewSample ::
  "(double \<Rightarrow> double) \<Rightarrow> u64 \<Rightarrow> int \<Rightarrow> (bytes \<times> u64 option) option \<Rightarrow> AudioManager \<Rightarrow> flow \<times> (bytes \<times> u64) option \<times> AudioManager" where
  "handleNewSample fl now_ntp now_ms sample a =
     (if \<not> am_running a \<or> \<not> capture_active a then (FLOW_FLUSHING, None, a)
      else (case sample of
        None \<Rightarrow> (FLOW_ERROR, None, a)
      | Some (d, pts) \<Rightarrow>
          (let frame_duration_ns = ucast (ac_frame_duration_ms (am_config a)) * 1000000;
               a1 = (if \<not> capture_pts_initialized a
                 then a\<lparr>capture_pts_initialized := True, capture_base_ntp := now_ntp,
                        capture_first_pts_ns := (case pts of None \<Rightarrow> 0 | Some p \<Rightarrow> p), capture_packet_index := 0\<rparr>
                 else a);
               relative_ns = (case pts of
                   None \<Rightarrow> capture_packet_index a1 * frame_duration_ns
                 | Some p \<Rightarrow> if capture_first_pts_ns a1 \<le> p then p - capture_first_pts_ns a1 else 0);
               timestamp_ntp = addNsToNtp fl (capture_base_ntp a1) relative_ns;
               a2 = noteCapturePacket now_ms (length d) (a1\<lparr>capture_packet_index := capture_packet_index a1 + 1\<rparr>)
           in if am_callback a2 then (FLOW_OK, Some (d, timestamp_ntp), noteUplinkPacket now_ms (length d) a2)
              else (FLOW_OK, None, a2))))"

text \<open>\<open>pushRemotePacket\<close>: \<open>allocated\<close>, \<open>mapped\<close> and \<open>pushed\<close> are GStreamer's answers; the second component is
  the time stamp of the buffer handed to the pipeline. A null pointer is \<open>None\<close>.\<close>

definition pushRemotePacket ::
  "(double \<Rightarrow> double) \<Rightarrow> bool \<Rightarrow> bool \<Rightarrow> bool \<Rightarrow> int \<Rightarrow> bytes option \<Rightarrow> u64 \<Rightarrow> AudioManager \<Rightarrow> bool \<times> u64 option \<times> AudioManager" where
  "pushRemotePacket fl allocated mapped pushed now_ms data timestamp_ntp a =
     (case data of
        None \<Rightarrow> (False, None, a)
      | Some d \<Rightarrow>
          if \<not> am_running a \<or> \<not> playback_active a \<or> \<not> playback_src a \<or> d = [] then (False, None, a)
          else if \<not> allocated \<or> \<not> mapped then (False, None, a)
          else (let duration_ns = ucast (ac_frame_duration_ms (am_config a)) * 1000000;
                    a1 = (if \<not> playback_pts_initialized a
                      then a\<lparr>playback_pts_initialized := True, playback_base_ntp := timestamp_ntp, playback_last_pts_ns := 0\<rparr>
                      else a);
                    p = ntpDiffToNs fl (playback_base_ntp a1) timestamp_ntp;
                    pts_ns = (if p < playback_last_pts_ns a1 then playback_last_pts_ns a1 + duration_ns else p);
                    a2 = a1\<lparr>playback_last_pts_ns := pts_ns\<rparr>
                in (pushed, Some pts_ns, noteDownlinkPacket now_ms (length d) pushed a2)))"

definition resetPlaybackTimeline :: "AudioManager \<Rightarrow> AudioManager" where
  "resetPlaybackTimeline a = a\<lparr>playback_pts_initialized := False, playback_base_ntp := 0, playback_last_pts_ns := 0\<rparr>"

section \<open>Public methods\<close>

definition am_initialize :: "(double \<Rightarrow> string) \<Rightarrow> gst \<Rightarrow> AudioConfig \<Rightarrow> AudioManager \<Rightarrow> bool \<times> AudioManager" where
  "am_initialize show_double g c a = initializePipelines show_double g c (a\<lparr>am_config := c\<rparr>)"

definition am_start :: "gst \<Rightarrow> AudioManager \<Rightarrow> bool \<times> AudioManager" where
  "am_start g a = startPipelines g a"

definition am_stop :: "AudioManager \<Rightarrow> AudioManager" where
  "am_stop a = stopPipelines a"

definition am_setEncodedPacketCallback :: "bool \<Rightarrow> AudioManager \<Rightarrow> AudioManager" where
  "am_setEncodedPacketCallback b a = a\<lparr>am_callback := b\<rparr>"

section \<open>The time stamps are exact\<close>

text \<open>What a long double of at least 64 bits of mantissa gives: integers below 2^64 are exact, and a quotient
  below 2^32 is off by at most 2^-32.\<close>

definition long_double :: "(double \<Rightarrow> double) \<Rightarrow> bool" where
  "long_double fl \<longleftrightarrow> (\<forall>n::nat. n < 2 ^ 64 \<longrightarrow> fl (of_nat n) = of_nat n)
     \<and> (\<forall>q. 0 \<le> q \<and> q < 2 ^ 32 \<longrightarrow> \<bar>fl q - q\<bar> \<le> 1 / 2 ^ 32)"

lemma long_double_nat: "long_double fl \<Longrightarrow> n < 2 ^ 64 \<Longrightarrow> fl (of_nat n) = of_nat n"
  by (simp add: long_double_def)

lemma long_double_div:
  assumes ld: "long_double fl" and m: "0 < m" "m < 2 ^ 32" and n: "n < 2 ^ 32 * m"
  shows "floor (fl (of_nat n / of_nat m)) = int (n div m)"
proof (cases "n mod m = 0")
  case True
  have "(of_nat n :: rat) / of_nat m = of_nat (n div m)"
    using True m(1) by (simp add: field_simps flip: of_nat_mult) (metis add_0_right mult_div_mod_eq)
  moreover have "n div m < 2 ^ 64" using n m by (simp add: less_mult_imp_div_less mult.commute order_less_trans)
  ultimately show ?thesis using long_double_nat [OF ld, of "n div m"] by simp
next
  case False
  define q :: rat where "q = of_nat n / of_nat m"
  have mr: "(0 :: rat) < of_nat m" "(of_nat m :: rat) < 2 ^ 32"
    using m by simp_all
  have nq: "of_nat n = q * of_nat m" using mr by (simp add: q_def)
  have "(of_nat n :: rat) = of_nat (n div m) * of_nat m + of_nat (n mod m)"
    by (simp only: flip: of_nat_mult of_nat_add) simp
  then have split: "q * of_nat m = of_nat (n div m) * of_nat m + of_nat (n mod m)" using nq by simp
  have lo: "of_nat (n div m) * of_nat m + 1 \<le> q * of_nat m" using split False by simp
  have "Suc (n mod m) \<le> m" using m by (simp add: Suc_le_eq)
  then have "(of_nat (Suc (n mod m)) :: rat) \<le> of_nat m" by (simp only: of_nat_le_iff)
  then have hi: "q * of_nat m + 1 \<le> (of_nat (n div m) + 1) * of_nat m" using split by (simp add: algebra_simps)
  have q0: "0 \<le> q" by (simp add: q_def)
  have "(of_nat n :: rat) < of_nat (2 ^ 32 * m)" using n by (simp only: of_nat_less_iff)
  then have q1: "q < 2 ^ 32" using mr by (simp add: q_def field_simps)
  have err: "\<bar>fl q - q\<bar> \<le> 1 / 2 ^ 32" using ld q0 q1 by (simp add: long_double_def)
  have inv: "1 / 2 ^ 32 < 1 / (of_nat m :: rat)" using mr by (simp add: field_simps)
  have l2: "of_nat (n div m) + 1 / of_nat m \<le> q" using lo mr(1) by (simp add: field_simps)
  have h2: "q + 1 / of_nat m \<le> of_nat (n div m) + 1" using hi mr(1) by (simp add: field_simps)
  have e1: "q - 1 / 2 ^ 32 \<le> fl q" and e2: "fl q \<le> q + 1 / 2 ^ 32" using err by linarith+
  show ?thesis unfolding q_def [symmetric]
  proof (rule floor_unique)
    show "of_int (int (n div m)) \<le> fl q" unfolding of_int_of_nat_eq using l2 inv e1 by linarith
    show "fl q < of_int (int (n div m)) + 1" unfolding of_int_of_nat_eq using h2 inv e2 by linarith
  qed
qed

text \<open>Both conversions, as integers: nanoseconds to 2^-32 seconds, and back.\<close>

lemma fraction_of_ns:
  assumes "long_double fl" "r < 1000000000"
  shows "floor (fl (fl (fl (of_nat r) * 4294967296) / 1000000000)) = int (r * 2 ^ 32 div 1000000000)"
proof -
  have p: "fl (of_nat r) * 4294967296 = of_nat (r * 2 ^ 32)" using assms by (simp add: long_double_nat)
  have "fl (of_nat (r * 2 ^ 32)) = of_nat (r * 2 ^ 32)" using assms by (intro long_double_nat) simp_all
  with long_double_div [OF assms(1), of 1000000000 "r * 2 ^ 32"] assms(2) show ?thesis unfolding p by simp
qed

lemma ns_of_fraction:
  assumes "long_double fl" "f < 2 ^ 32"
  shows "floor (fl (fl (fl (of_nat f) * 1000000000) / 4294967296)) = int (f * 1000000000 div 2 ^ 32)"
proof -
  have p: "fl (of_nat f) * 1000000000 = of_nat (f * 1000000000)" using assms by (simp add: long_double_nat)
  have q: "fl (of_nat (f * 1000000000)) = of_nat (f * 1000000000)"
    using assms by (intro long_double_nat) simp_all
  have r: "of_nat (f * 1000000000) / 4294967296 = (of_nat (f * 5 ^ 9) / of_nat (2 ^ 23) :: rat)" by simp
  have "f * 1000000000 div 2 ^ 32 = (512 * (f * 5 ^ 9)) div (512 * 2 ^ 23)" by simp
  then have d: "f * 1000000000 div 2 ^ 32 = f * 5 ^ 9 div 2 ^ 23" by (simp only: div_mult_mult1)
  show ?thesis unfolding p q r d using assms(2) by (intro long_double_div [OF assms(1)]) simp_all
qed

lemma low32: "(b :: u64) AND 4294967295 = take_bit 32 b"
  by (simp add: take_bit_eq_mask mask_numeral)

lemma low32_lt: "take_bit 32 (b :: u64) < 2 ^ 32"
  by (simp add: word_less_nat_alt unsigned_take_bit_eq) (simp add: take_bit_eq_mod)

lemma push_or_add:
  assumes "(f :: u64) < 2 ^ 32"
  shows "push_bit 32 s OR f = push_bit 32 s + f"
proof -
  have "f = take_bit 32 f" using assms
    by (simp add: word_unat_eq_iff unsigned_take_bit_eq word_less_nat_alt) (simp add: take_bit_eq_mod)
  then have "push_bit 32 s AND f = push_bit 32 s AND take_bit 32 f" by simp
  also have "\<dots> = 0" by (rule bit_word_eqI) (auto simp: bit_simps)
  finally show ?thesis by (simp add: disjunctive_add_eq_or)
qed

lemma halves: "(b :: u64) = push_bit 32 (drop_bit 32 b) + (b AND 4294967295)"
  using bits_ident [of 32 b] by (simp add: take_bit_eq_mask mask_numeral)

lemma addNsToNtp_eq:
  assumes ld: "long_double fl"
  shows "addNsToNtp fl b d = b + (d div 1000000000) * 2 ^ 32
    + of_nat (unat d mod 1000000000 * 2 ^ 32 div 1000000000)"
proof -
  define k where "k = unat d mod 1000000000 * 2 ^ 32 div 1000000000"
  have k: "k < 2 ^ 32" by (simp add: k_def less_mult_imp_div_less)
  have rem: "unat (d mod 1000000000) = unat d mod 1000000000" by (simp add: unat_mod)
  have af: "of_int (floor (fl (fl (fl (of_nat (unat (d mod 1000000000))) * 4294967296) / 1000000000))) = (of_nat k :: u64)"
    unfolding k_def rem by (subst fraction_of_ns [OF ld]) simp_all
  have kw: "(of_nat k :: u64) < 2 ^ 32" using k by (simp add: word_less_nat_alt unsigned_of_nat take_bit_eq_mod)
  define f where "f = (b AND 4294967295) + (of_nat k :: u64)"
  have fs: "f - 2 ^ 32 < 2 ^ 32" if ge: "2 ^ 32 \<le> f"
  proof -
    have "unat (take_bit 32 b) < 2 ^ 32" using low32_lt [of b] by (simp add: word_less_nat_alt)
    moreover have "unat (of_nat k :: u64) < 2 ^ 32" using kw by (simp add: word_less_nat_alt)
    moreover have fu: "unat f \<le> unat (take_bit 32 b) + unat (of_nat k :: u64)"
      unfolding f_def low32 by (simp add: unat_word_ariths del: take_bit_numeral_minus_numeral_word)
    moreover have "unat (f - 2 ^ 32) = unat f - 2 ^ 32" using ge by (simp add: unat_sub)
    ultimately show ?thesis unfolding word_less_nat_alt by simp
  qed
  have eq: "addNsToNtp fl b d = (if 2 ^ 32 \<le> f then push_bit 32 (drop_bit 32 b + d div 1000000000 + 1) OR (f - 2 ^ 32)
      else push_bit 32 (drop_bit 32 b + d div 1000000000) OR f)"
    unfolding addNsToNtp_def Let_def af by (simp add: f_def)
  have "addNsToNtp fl b d = push_bit 32 (drop_bit 32 b + d div 1000000000) + f"
  proof (cases "2 ^ 32 \<le> f")
    case True
    then show ?thesis unfolding eq push_or_add [OF fs [OF True]] by (simp add: push_bit_eq_mult algebra_simps)
  next
    case False
    then show ?thesis unfolding eq using push_or_add [of f] by simp
  qed
  then show ?thesis using halves [of b] by (simp add: f_def k_def push_bit_eq_mult algebra_simps)
qed

text \<open>The difference of two time stamps, in whole nanoseconds.\<close>

lemma unat_halves:
  fixes b :: u64
  shows "unat (drop_bit 32 b) = unat b div 2 ^ 32" and "unat (b AND 4294967295) = unat b mod 2 ^ 32"
proof -
  show "unat (drop_bit 32 b) = unat b div 2 ^ 32"
    unfolding drop_bit_eq_div unat_div by simp
  show "unat (b AND 4294967295) = unat b mod 2 ^ 32"
    unfolding low32 by (simp add: unsigned_take_bit_eq) (simp add: take_bit_eq_mod)
qed

lemma borrow_nat:
  fixes sa sb fa fb m :: nat
  assumes "sa * m + fa < sb * m + fb" and "fb < m" and "fa < m" and "fb < fa"
  shows "sb * m + fb - (sa * m + fa) = (sb - sa - 1) * m + (fb + m - fa)" and "sa < sb"
proof -
  show lt: "sa < sb"
  proof (rule ccontr)
    assume "\<not> sa < sb"
    then have "sb * m \<le> sa * m" by simp
    with assms show False by linarith
  qed
  then obtain k where k: "sb = Suc (sa + k)" using less_iff_Suc_add by blast
  show "sb * m + fb - (sa * m + fa) = (sb - sa - 1) * m + (fb + m - fa)"
    using assms unfolding k by (simp add: algebra_simps)
qed

lemma no_borrow_nat:
  fixes sa sb fa fb m :: nat
  assumes "sa * m + fa < sb * m + fb" and "fb < m" and "fa \<le> fb"
  shows "sb * m + fb - (sa * m + fa) = (sb - sa) * m + (fb - fa)" and "sa \<le> sb"
proof -
  show le: "sa \<le> sb"
  proof (rule ccontr)
    assume "\<not> sa \<le> sb"
    then have "Suc sb * m \<le> sa * m" by (intro mult_le_mono1) simp
    with assms show False by simp
  qed
  then obtain k where k: "sb = sa + k" using le_iff_add by blast
  show "sb * m + fb - (sa * m + fa) = (sb - sa) * m + (fb - fa)"
    using assms unfolding k by (simp add: algebra_simps)
qed

lemma ntpDiffToNs_eq:
  assumes ld: "long_double fl"
  shows "unat (ntpDiffToNs fl a b) = (unat b - unat a) * 1000000000 div 2 ^ 32"
proof (cases "b \<le> a")
  case True
  then show ?thesis by (simp add: ntpDiffToNs_def word_le_nat_alt)
next
  case False
  define sa sb fa fb where "sa = unat a div 2 ^ 32" and "sb = unat b div 2 ^ 32"
    and "fa = unat a mod 2 ^ 32" and "fb = unat b mod 2 ^ 32"
  note defs = sa_def sb_def fa_def fb_def
  have ab: "unat a = sa * 2 ^ 32 + fa" "unat b = sb * 2 ^ 32 + fb" by (simp_all add: defs)
  have bnd: "fa < 2 ^ 32" "fb < 2 ^ 32" "sb < 2 ^ 32"
    using unsigned_less [of b, where ?'a = nat] by (simp_all add: defs less_mult_imp_div_less)
  have lt: "sa * 2 ^ 32 + fa < sb * 2 ^ 32 + fb" using False ab by (simp add: word_le_nat_alt not_le)
  have lo: "uint (w AND 4294967295) = int (unat w mod 2 ^ 32)" for w :: u64
    using unat_halves(2) [of w] by (metis uint_nat)
  have val_eq: "unat (s * 1000000000 + of_nat (f * 1000000000 div 2 ^ 32) :: u64)
      = (unat s * 2 ^ 32 + f) * 1000000000 div 2 ^ 32" if "unat s < 2 ^ 32" "f < 2 ^ 32" for s :: u64 and f
  proof -
    have f: "f * 1000000000 div 2 ^ 32 < 1000000000" using that(2) by (simp add: less_mult_imp_div_less)
    have "unat s * 1000000000 + f * 1000000000 div 2 ^ 32 < 2 ^ 64" using that(1) f by simp
    moreover have "(unat s * 2 ^ 32 + f) * 1000000000 = f * 1000000000 + unat s * 1000000000 * 2 ^ 32"
      by (simp add: algebra_simps)
    ultimately show ?thesis using f by (simp add: unat_word_ariths unsigned_of_nat take_bit_eq_mod)
  qed
  show ?thesis
  proof (cases "fb < fa")
    case True
    note b = borrow_nat [OF lt bnd(2,1) True]
    define s :: u64 where "s = drop_bit 32 b - drop_bit 32 a - 1"
    have "drop_bit 32 a < drop_bit 32 b" using b(2) by (simp add: word_less_nat_alt unat_halves defs del: unsigned_drop_bit_eq)
    then have s: "unat s = sb - sa - 1" unfolding s_def
      by (simp add: unat_halves defs unat_sub word_le_nat_alt word_less_nat_alt del: unsigned_drop_bit_eq)
    have neg: "int fb - int fa < 0" using True by simp
    have sum: "int fb - int fa + 2 ^ 32 = int (fb + 2 ^ 32 - fa)" using bnd True by simp
    have ff: "fb + 2 ^ 32 - fa < 2 ^ 32" using True by simp
    have "ntpDiffToNs fl a b = s * 1000000000 + of_nat ((fb + 2 ^ 32 - fa) * 1000000000 div 2 ^ 32)"
      unfolding ntpDiffToNs_def Let_def lo fa_def [symmetric] fb_def [symmetric] s_def
      using False neg by (simp only: if_False if_True prod.case sum of_int_of_nat_eq ns_of_fraction [OF ld ff])
    then show ?thesis using val_eq [OF _ ff, of s] bnd unfolding ab b(1) s by simp
  next
    case False
    then have fle: "fa \<le> fb" by simp
    note b = no_borrow_nat [OF lt bnd(2) fle]
    define s :: u64 where "s = drop_bit 32 b - drop_bit 32 a"
    have "drop_bit 32 a \<le> drop_bit 32 b" using b(2) by (simp add: word_le_nat_alt unat_halves defs del: unsigned_drop_bit_eq)
    then have s: "unat s = sb - sa" unfolding s_def by (simp add: unat_halves defs unat_sub del: unsigned_drop_bit_eq)
    have neg: "\<not> int fb - int fa < 0" using fle by simp
    have sum: "int fb - int fa = int (fb - fa)" using fle by simp
    have ff: "fb - fa < 2 ^ 32" using bnd by simp
    have "ntpDiffToNs fl a b = s * 1000000000 + of_nat ((fb - fa) * 1000000000 div 2 ^ 32)"
      unfolding ntpDiffToNs_def Let_def lo fa_def [symmetric] fb_def [symmetric] s_def
      using \<open>\<not> b \<le> a\<close> neg
      by (simp only: if_False prod.case) (simp only: sum of_int_of_nat_eq ns_of_fraction [OF ld ff])
    then show ?thesis using val_eq [OF _ ff, of s] bnd unfolding ab b(1) s by simp
  qed
qed

lemma ns_roundtrip_nat:
  fixes r :: nat
  defines "x \<equiv> r * 2 ^ 32 div 1000000000 * 1000000000 div 2 ^ 32"
  shows "x \<le> r" and "r \<le> x + 1"
proof -
  define k where "k = r * 2 ^ 32 div 1000000000"
  have k: "k * 1000000000 \<le> r * 2 ^ 32" "r * 2 ^ 32 < k * 1000000000 + 1000000000"
    using div_mult_mod_eq [of "r * 2 ^ 32" 1000000000] mod_less_divisor [of 1000000000 "r * 2 ^ 32"]
    by (simp_all add: k_def)
  have x: "x = k * 1000000000 div 2 ^ 32" by (simp add: x_def k_def)
  show "x \<le> r" unfolding x using div_le_mono [OF k(1), of "2 ^ 32"] by simp
  have "(r - 1) * 2 ^ 32 \<le> k * 1000000000" using k(2) by (simp add: algebra_simps)
  then have "r - 1 \<le> x" unfolding x using div_le_mono [of "(r - 1) * 2 ^ 32" _ "2 ^ 32"] by simp
  then show "r \<le> x + 1" by simp
qed

lemma unat_of_nat_u64: "n < 2 ^ 64 \<Longrightarrow> unat (of_nat n :: u64) = n"
  by (simp add: unsigned_of_nat take_bit_eq_mod)

lemma unat_1000000000: "unat (1000000000 :: u64) = 1000000000"
  by simp

lemma unat_addNsToNtp:
  assumes ld: "long_double fl" and no: "unat b + (unat d div 1000000000 + 1) * 2 ^ 32 \<le> 2 ^ 64"
  shows "unat (addNsToNtp fl b d)
    = unat b + (unat d div 1000000000 * 2 ^ 32 + unat d mod 1000000000 * 2 ^ 32 div 1000000000)"
proof -
  define k s where "k = unat d mod 1000000000 * 2 ^ 32 div 1000000000" and "s = unat d div 1000000000"
  have k: "k < 2 ^ 32" by (simp add: k_def less_mult_imp_div_less)
  have bound: "unat b + (s * 2 ^ 32 + k) < 2 ^ 64" using no k by (simp add: s_def algebra_simps)
  have "(d div 1000000000 :: u64) = of_nat s"
  proof -
    have "d div 1000000000 = of_nat (unat (d div 1000000000))" by simp
    then show ?thesis unfolding unat_div unat_1000000000 s_def .
  qed
  then have "addNsToNtp fl b d = b + of_nat (s * 2 ^ 32 + k)"
    unfolding addNsToNtp_eq [OF ld] by (simp add: k_def algebra_simps)
  then have "addNsToNtp fl b d = of_nat (unat b + (s * 2 ^ 32 + k))" by simp
  then show ?thesis using bound unfolding k_def [symmetric] s_def [symmetric]
    by (simp only: unat_of_nat_u64)
qed

text \<open>Advancing a time stamp by \<open>d\<close> nanoseconds and taking the difference again loses at most one
  nanosecond, as long as the seconds stay within their 32 bits: the long double arithmetic of both routines
  rounds to the exact integer quotient every time.\<close>

theorem ntp_time_roundtrip:
  assumes "long_double fl" and "unat b + (unat d div 1000000000 + 1) * 2 ^ 32 \<le> 2 ^ 64"
  shows "unat (ntpDiffToNs fl b (addNsToNtp fl b d)) \<in> {unat d - 1, unat d}"
proof -
  define r s where "r = unat d mod 1000000000" and "s = unat d div 1000000000"
  have d: "unat d = s * 1000000000 + r" by (simp add: r_def s_def)
  have e: "unat (ntpDiffToNs fl b (addNsToNtp fl b d)) = (s * 2 ^ 32 + r * 2 ^ 32 div 1000000000) * 1000000000 div 2 ^ 32"
    unfolding ntpDiffToNs_eq [OF assms(1)] unat_addNsToNtp [OF assms] by (simp add: r_def s_def)
  have "(s * 2 ^ 32 + r * 2 ^ 32 div 1000000000) * 1000000000
      = r * 2 ^ 32 div 1000000000 * 1000000000 + s * 1000000000 * 2 ^ 32" by (simp add: algebra_simps)
  then have "unat (ntpDiffToNs fl b (addNsToNtp fl b d)) = r * 2 ^ 32 div 1000000000 * 1000000000 div 2 ^ 32 + s * 1000000000"
    unfolding e by simp
  moreover define x where "x = r * 2 ^ 32 div 1000000000 * 1000000000 div 2 ^ 32"
  ultimately have "unat (ntpDiffToNs fl b (addNsToNtp fl b d)) = x + s * 1000000000" by simp
  moreover have "x = r \<or> Suc x = r" using ns_roundtrip_nat [of r] unfolding x_def [symmetric] by auto
  ultimately show ?thesis unfolding d by auto
qed

lemma long_double_id: "long_double (\<lambda>q. q)"
  by (simp add: long_double_def)

theorem ntp_time_roundtrip_witness:
  "unat (ntpDiffToNs (\<lambda>q. q) (0xE8000000FFFFFFFF) (addNsToNtp (\<lambda>q. q) 0xE8000000FFFFFFFF 1020000001)) \<in> {1020000000, 1020000001}"
  using ntp_time_roundtrip [OF long_double_id, of "0xE8000000FFFFFFFF" 1020000001] by simp

section \<open>The playback time line\<close>

text \<open>A call of \<open>pushRemotePacket\<close> with GStreamer's three answers, the time, the packet and its time stamp;
  a run of such calls, with the time stamps handed to the pipeline.\<close>

type_synonym push = "bool \<times> bool \<times> bool \<times> int \<times> bytes option \<times> u64"

fun push_one :: "(double \<Rightarrow> double) \<Rightarrow> push \<Rightarrow> AudioManager \<Rightarrow> u64 option \<times> AudioManager" where
  "push_one fl (al, mp, pu, now, data, ts) a = snd (pushRemotePacket fl al mp pu now data ts a)"

fun play_all :: "(double \<Rightarrow> double) \<Rightarrow> push list \<Rightarrow> AudioManager \<Rightarrow> u64 list" where
  "play_all fl [] a = []"
| "play_all fl (p # ps) a = (case push_one fl p a of
     (None, b) \<Rightarrow> play_all fl ps b
   | (Some t, b) \<Rightarrow> t # play_all fl ps b)"

definition frame_ns :: "AudioManager \<Rightarrow> nat" where
  "frame_ns a = unat (ac_frame_duration_ms (am_config a)) * 1000000"

lemma note_fields [simp]:
  "am_config (noteDownlinkPacket t n b a) = am_config a"
  "playback_last_pts_ns (noteDownlinkPacket t n b a) = playback_last_pts_ns a"
  "playback_pts_initialized (noteDownlinkPacket t n b a) = playback_pts_initialized a"
  "playback_base_ntp (noteDownlinkPacket t n b a) = playback_base_ntp a"
  "am_running (noteDownlinkPacket t n b a) = am_running a"
  "playback_active (noteDownlinkPacket t n b a) = playback_active a"
  "playback_src (noteDownlinkPacket t n b a) = playback_src a"
  by (simp_all add: noteDownlinkPacket_def)

lemma frame_ns_u64: "unat (ucast (ac_frame_duration_ms (am_config a)) * 1000000 :: u64) = frame_ns a"
proof -
  define w where "w = ac_frame_duration_ms (am_config a)"
  have u: "unat (ucast w :: u64) = unat w" 
    using unsigned_less [of w, where ?'a = nat] by (simp add: unsigned_ucast_eq take_bit_eq_mod)
  have "unat w < 2 ^ LENGTH(32)" by (rule unsigned_less)
  then have "unat w * 1000000 < 2 ^ 64" by simp
  then show ?thesis unfolding frame_ns_def w_def [symmetric] by (simp add: unat_word_ariths u)
qed

lemma diff_bound:
  assumes "long_double fl"
  shows "unat (ntpDiffToNs fl a b) < 2 ^ 62"
proof -
  have "unat b < 2 ^ LENGTH(64)" by (rule unsigned_less)
  then have "(unat b - unat a) * 1000000000 \<le> 2 ^ 64 * 1000000000" by (intro mult_le_mono1) simp
  then have "(unat b - unat a) * 1000000000 div 2 ^ 32 \<le> 2 ^ 64 * 1000000000 div 2 ^ 32" by (rule div_le_mono)
  then show ?thesis unfolding ntpDiffToNs_eq [OF assms] by simp
qed

text \<open>One call: what it hands over, and what it leaves behind.\<close>

lemma push_one_cases:
  assumes ld: "long_double fl"
    and room: "unat (playback_last_pts_ns a) + frame_ns a < 2 ^ 64"
    and init: "\<not> playback_pts_initialized a \<Longrightarrow> playback_last_pts_ns a = 0"
  obtains "push_one fl p a = (None, a)"
  | t b where "push_one fl p a = (Some t, b)" "playback_last_pts_ns b = t" "playback_pts_initialized b"
      "frame_ns b = frame_ns a" "unat (playback_last_pts_ns a) \<le> unat t"
      "unat t \<le> max (2 ^ 62) (unat (playback_last_pts_ns a) + frame_ns a)"
proof -
  obtain al mp pu now data ts where p: "p = (al, mp, pu, now, data, ts)" by (cases p)
  show thesis
  proof (cases "fst (push_one fl p a)")
    case None
    then have "push_one fl p a = (None, a)"
      unfolding p by (auto simp: pushRemotePacket_def Let_def split: option.splits if_splits)
    then show thesis by (rule that(1))
  next
    case (Some t)
    define base where "base = (if playback_pts_initialized a then playback_base_ntp a else ts)"
    define q where "q = ntpDiffToNs fl base ts"
    have q: "unat q < 2 ^ 62" unfolding q_def by (rule diff_bound [OF ld])
    have t: "t = (if q < playback_last_pts_ns a
        then playback_last_pts_ns a + ucast (ac_frame_duration_ms (am_config a)) * 1000000 else q)"
      using Some init unfolding p q_def base_def
      by (cases "playback_pts_initialized a") (auto simp: pushRemotePacket_def Let_def split: option.splits if_splits)
    have sum: "unat (playback_last_pts_ns a + ucast (ac_frame_duration_ms (am_config a)) * 1000000)
        = unat (playback_last_pts_ns a) + frame_ns a"
      using room frame_ns_u64 [of a] by (simp add: unat_word_ariths(1))
    obtain b where b: "push_one fl p a = (Some t, b)" using Some by (cases "push_one fl p a") auto
    have "playback_last_pts_ns b = t" "playback_pts_initialized b" "frame_ns b = frame_ns a"
      using b unfolding p frame_ns_def
      by (auto simp: pushRemotePacket_def Let_def split: option.splits if_splits)
    moreover have "unat (playback_last_pts_ns a) \<le> unat t"
      by (cases "q < playback_last_pts_ns a") (simp_all add: t sum word_less_nat_alt)
    moreover have "unat t \<le> max (2 ^ 62) (unat (playback_last_pts_ns a) + frame_ns a)"
      using q by (cases "q < playback_last_pts_ns a") (simp_all add: t sum)
    ultimately show thesis using b that(2) by blast
  qed
qed

lemma play_all_sorted:
  assumes "long_double fl"
    and "unat (playback_last_pts_ns a) \<le> 2 ^ 62 + k * frame_ns a"
    and "\<not> playback_pts_initialized a \<Longrightarrow> playback_last_pts_ns a = 0"
    and "(k + length ps) * frame_ns a < 2 ^ 63"
  shows "sorted_wrt (\<le>) (playback_last_pts_ns a # play_all fl ps a)"
  using assms
proof (induction ps arbitrary: a k)
  case Nil
  then show ?case by simp
next
  case (Cons p ps)
  have len: "k * frame_ns a + frame_ns a \<le> (k + length (p # ps)) * frame_ns a" by simp
  have "k * frame_ns a + frame_ns a < 2 ^ 63" using len Cons.prems(4) by (rule le_less_trans)
  then have room: "unat (playback_last_pts_ns a) + frame_ns a < 2 ^ 64" using Cons.prems(2) by simp
  show ?case
  proof (rule push_one_cases [OF Cons.prems(1) room Cons.prems(3), where p = p])
    assume 1: "push_one fl p a = (None, a)"
    have "(k + length ps) * frame_ns a < 2 ^ 63" using Cons.prems(4) by simp
    from Cons.IH [OF Cons.prems(1,2,3) this] 1 show ?thesis by simp
  next
    fix t b
    assume 2: "push_one fl p a = (Some t, b)" "playback_last_pts_ns b = t" "playback_pts_initialized b"
      "frame_ns b = frame_ns a" "unat (playback_last_pts_ns a) \<le> unat t"
      "unat t \<le> max (2 ^ 62) (unat (playback_last_pts_ns a) + frame_ns a)"
    have "unat (playback_last_pts_ns b) \<le> 2 ^ 62 + Suc k * frame_ns b"
      using 2 Cons.prems(2) by simp
    moreover have "(Suc k + length ps) * frame_ns b < 2 ^ 63" using 2 Cons.prems(4) by simp
    ultimately have "sorted_wrt (\<le>) (playback_last_pts_ns b # play_all fl ps b)"
      using Cons.IH [OF Cons.prems(1), of b "Suc k"] 2 by simp
    moreover have "playback_last_pts_ns a \<le> t" using 2(5) by (simp add: word_le_nat_alt)
    ultimately show ?thesis using 2(1,2) by (auto intro: order_trans)
  qed
qed

lemma sorted_unat: "sorted_wrt (\<le>) ts \<Longrightarrow> sorted (map unat (ts :: u64 list))"
  by (induction ts) (auto simp: word_le_nat_alt)

text \<open>A packet that GStreamer takes, and the time stamps of a run of such packets in their order: exactly the
  distance from the first one.\<close>

fun taken :: "push \<Rightarrow> bool" where
  "taken (al, mp, pu, now, data, ts) \<longleftrightarrow> al \<and> mp \<and> data \<noteq> None \<and> data \<noteq> Some []"

fun stamp :: "push \<Rightarrow> nat" where
  "stamp (al, mp, pu, now, data, ts) = unat ts"

definition playing :: "AudioManager \<Rightarrow> bool" where
  "playing a \<longleftrightarrow> am_running a \<and> playback_active a \<and> playback_src a"

definition offset_ns :: "nat \<Rightarrow> nat \<Rightarrow> nat" where
  "offset_ns base ts = (ts - base) * 1000000000 div 2 ^ 32"

lemma offset_ns_mono: "ts \<le> ts' \<Longrightarrow> offset_ns base ts \<le> offset_ns base ts'"
  unfolding offset_ns_def by (intro div_le_mono mult_le_mono1 diff_le_mono)

lemma push_one_taken:
  assumes ld: "long_double fl" and "taken p" "playing a"
    and base: "base = (if playback_pts_initialized a then unat (playback_base_ntp a) else stamp p)"
    and ord: "playback_pts_initialized a \<Longrightarrow> unat (playback_last_pts_ns a) \<le> offset_ns base (stamp p)"
  obtains t b where "push_one fl p a = (Some t, b)" "unat t = offset_ns base (stamp p)" "playing b"
    "playback_pts_initialized b" "unat (playback_base_ntp b) = base" "playback_last_pts_ns b = t"
proof -
  obtain al mp pu now data ts where p: "p = (al, mp, pu, now, data, ts)" by (cases p)
  define a1 where "a1 = (if \<not> playback_pts_initialized a
    then a\<lparr>playback_pts_initialized := True, playback_base_ntp := ts, playback_last_pts_ns := 0\<rparr> else a)"
  have b1: "unat (playback_base_ntp a1) = base" "playing a1" "playback_pts_initialized a1"
    "unat (playback_last_pts_ns a1) \<le> offset_ns base (stamp p)"
    using assms(3) base ord unfolding a1_def p playing_def by (auto simp: p)
  define q where "q = ntpDiffToNs fl (playback_base_ntp a1) ts"
  have q: "unat q = offset_ns base (stamp p)"
    unfolding q_def ntpDiffToNs_eq [OF ld] b1(1) offset_ns_def p by simp
  have nlt: "\<not> q < playback_last_pts_ns a1" using b1(4) by (simp add: word_less_nat_alt q)
  obtain d where d: "data = Some d" "d \<noteq> []" "al" "mp" using assms(2) unfolding p by auto
  have "push_one fl p a = (Some q, noteDownlinkPacket now (length d) pu (a1\<lparr>playback_last_pts_ns := q\<rparr>))"
    using assms(3) d nlt unfolding p playing_def
    by (simp add: pushRemotePacket_def Let_def a1_def [symmetric] q_def [symmetric])
  then show thesis by (rule that) (use b1 q in \<open>simp_all add: playing_def\<close>)
qed

lemma play_all_exact:
  assumes "long_double fl" "\<forall>p\<in>set ps. taken p" "sorted (map stamp ps)" "playing a"
    and "playback_pts_initialized a" "\<forall>p\<in>set ps. unat (playback_last_pts_ns a) \<le> offset_ns (unat (playback_base_ntp a)) (stamp p)"
  shows "map unat (play_all fl ps a) = map (\<lambda>p. offset_ns (unat (playback_base_ntp a)) (stamp p)) ps"
  using assms
proof (induction ps arbitrary: a)
  case Nil
  then show ?case by simp
next
  case (Cons p ps)
  define base where "base = unat (playback_base_ntp a)"
  obtain t b where b: "push_one fl p a = (Some t, b)" "unat t = offset_ns base (stamp p)" "playing b"
    "playback_pts_initialized b" "unat (playback_base_ntp b) = base" "playback_last_pts_ns b = t"
    by (rule push_one_taken [of fl p a base]) (use Cons.prems in \<open>simp_all add: base_def\<close>)
  have "\<forall>q\<in>set ps. unat (playback_last_pts_ns b) \<le> offset_ns (unat (playback_base_ntp b)) (stamp q)"
    using Cons.prems(3) by (auto simp: b intro: offset_ns_mono)
  with Cons.IH [of b] Cons.prems b show ?case by (simp add: base_def)
qed

lemma reset_fields [simp]:
  "playback_pts_initialized (resetPlaybackTimeline a) = False" "playback_last_pts_ns (resetPlaybackTimeline a) = 0"
  "playing (resetPlaybackTimeline a) = playing a" "frame_ns (resetPlaybackTimeline a) = frame_ns a"
  by (simp_all add: resetPlaybackTimeline_def playing_def frame_ns_def)

text \<open>After a reset of the playback time line, the time stamps handed to the pipeline never go back,
  whatever time stamps the peer sends (reordered, repeated or restarted), for any run short enough for 63 bits
  of nanoseconds. When the packets are taken and arrive in their order, every one is stamped with its exact
  distance from the first.\<close>

theorem playback_timeline:
  assumes "long_double fl" and "length ps * frame_ns a < 2 ^ 63"
  shows "sorted (map unat (play_all fl ps (resetPlaybackTimeline a)))
    \<and> (playing a \<and> (\<forall>p\<in>set ps. taken p) \<and> sorted (map stamp ps)
        \<longrightarrow> map unat (play_all fl ps (resetPlaybackTimeline a)) = map (\<lambda>p. offset_ns (stamp (hd ps)) (stamp p)) ps)"
proof (intro conjI impI)
  have "sorted_wrt (\<le>) (playback_last_pts_ns (resetPlaybackTimeline a) # play_all fl ps (resetPlaybackTimeline a))"
    by (rule play_all_sorted [of fl _ 0]) (use assms in simp_all)
  then show "sorted (map unat (play_all fl ps (resetPlaybackTimeline a)))" by (simp add: sorted_unat)
next
  assume h: "playing a \<and> (\<forall>p\<in>set ps. taken p) \<and> sorted (map stamp ps)"
  show "map unat (play_all fl ps (resetPlaybackTimeline a)) = map (\<lambda>p. offset_ns (stamp (hd ps)) (stamp p)) ps"
  proof (cases ps)
    case Nil
    then show ?thesis by simp
  next
    case (Cons p qs)
    obtain t b where b: "push_one fl p (resetPlaybackTimeline a) = (Some t, b)" "unat t = offset_ns (stamp p) (stamp p)" "playing b"
      "playback_pts_initialized b" "unat (playback_base_ntp b) = stamp p" "playback_last_pts_ns b = t"
      by (rule push_one_taken [of fl p "resetPlaybackTimeline a" "stamp p"]) (use assms(1) h Cons in simp_all)
    moreover have "offset_ns (stamp p) (stamp p) = 0" by (simp add: offset_ns_def)
    ultimately show ?thesis using play_all_exact [OF assms(1), of qs b] h Cons by simp
  qed
qed

definition push_packet :: "u64 \<Rightarrow> push" where
  "push_packet ts = (True, True, True, 0, Some [1], ts)"

definition am_playing :: AudioManager where
  "am_playing = AudioManager_init\<lparr>am_running := True, playback_active := True, playback_src := True\<rparr>"

theorem playback_timeline_witness:
  "map unat (play_all (\<lambda>q. q) (map push_packet [0x100000000, 0x105000000, 0x10A000000]) (resetPlaybackTimeline am_playing))
    = [0, 19531250, 39062500]
   \<and> sorted (map unat (play_all (\<lambda>q. q) (map push_packet [0x10A000000, 0x100000000, 0x105000000]) (resetPlaybackTimeline am_playing)))"
proof
  show "map unat (play_all (\<lambda>q. q) (map push_packet [0x100000000, 0x105000000, 0x10A000000]) (resetPlaybackTimeline am_playing))
    = [0, 19531250, 39062500]"
    using playback_timeline [OF long_double_id, of "map push_packet [0x100000000, 0x105000000, 0x10A000000]" am_playing]
    by (simp add: push_packet_def am_playing_def playing_def frame_ns_def offset_ns_def AudioManager_init_def AudioConfig_default_def)
  show "sorted (map unat (play_all (\<lambda>q. q) (map push_packet [0x10A000000, 0x100000000, 0x105000000]) (resetPlaybackTimeline am_playing)))"
    by (rule playback_timeline [OF long_double_id, THEN conjunct1])
       (simp add: am_playing_def frame_ns_def AudioManager_init_def AudioConfig_default_def)
qed

end
