(* ===== verification/AudioModule.thy ===== *)
theory AudioModule
  imports UdpModule AudioReceiver AudioManager
begin

text \<open>
  \<open>src/src/audio/audio_module.cpp\<close> and \<open>audio_module.hpp\<close>: the object of the node that owns the audio
  manager (capture, encoding, playback) and the audio receiver (jitter buffer). It starts audio only after
  the configuration has been published, and feeds what the receiver releases to the manager's playback
  pipeline, in order. The playback callback of the receiver is the manager's \<open>pushRemoteOpusPacket\<close>: the
  receiver says which packets are released, \<open>deliver\<close> pushes them one by one. GStreamer's answers are
  arguments.
\<close>

section \<open>Configuration and state\<close>

definition audio_configFromRosParam :: "params \<Rightarrow> AudioConfig" where
  "audio_configFromRosParam p =
     (let b = declareOrGet (par_bool p); i = declareOrGet (par_int p); d = declareOrGet (par_double p);
          s = declareOrGet (par_string p)
      in \<lparr>ac_enabled = b ''audio.enabled'' False, uplink_enabled = b ''audio.uplink_enabled'' True,
          downlink_enabled = b ''audio.downlink_enabled'' True, aec_enabled = b ''audio.aec_enabled'' False,
          capture_device = s ''audio.capture_device'' [], playback_device = s ''audio.playback_device'' [],
          playback_volume = max 0 (d ''audio.playback_volume'' 1),
          sample_rate = of_int (max 1 (i ''audio.sample_rate'' 48000)),
          channels = of_int (max 1 (i ''audio.channels'' 1)),
          ac_frame_duration_ms = of_int (max 1 (i ''audio.frame_duration_ms'' 20)),
          samples_per_channel = of_int (max 1 (i ''audio.samples_per_channel'' 960)),
          bitrate_bps = of_int (max 1 (i ''audio.bitrate_bps'' 64000)),
          opus_inband_fec_enabled = b ''audio.opus_inband_fec_enabled'' True,
          opus_dtx_enabled = b ''audio.opus_dtx_enabled'' False\<rparr>)"

record AudioModule =
  aud_config :: AudioConfig
  receiver_config :: RxConfig
  aud_manager :: "AudioManager option"
  aud_receiver :: "AudioReceiver option"
  encoded_cb :: bool
  aud_started :: bool
  config_published :: bool
  remote_config_ready :: bool
  remote_config_id :: string

definition AudioModule_init :: "params \<Rightarrow> AudioConfig \<Rightarrow> AudioModule" where
  "AudioModule_init p c = \<lparr>aud_config = c,
     receiver_config = rx_configFromRosParam (declareOrGet (par_int p)) (declareOrGet (par_double p)) (ac_frame_duration_ms c),
     aud_manager = None, aud_receiver = None, encoded_cb = False, aud_started = False, config_published = False,
     remote_config_ready = False, remote_config_id = []\<rparr>"

definition aud_isRunning :: "AudioModule \<Rightarrow> bool" where
  "aud_isRunning m = aud_started m"

definition aud_isEnabled :: "AudioModule \<Rightarrow> bool" where
  "aud_isEnabled m = (aud_manager m \<noteq> None)"

definition markConfigPublished :: "AudioModule \<Rightarrow> AudioModule" where
  "markConfigPublished m = m\<lparr>config_published := True\<rparr>"

definition resetConfigPublished :: "AudioModule \<Rightarrow> AudioModule" where
  "resetConfigPublished m = m\<lparr>config_published := False\<rparr>"

section \<open>Lifecycle\<close>

definition aud_initialize :: "(double \<Rightarrow> string) \<Rightarrow> gst \<Rightarrow> AudioModule \<Rightarrow> bool \<times> AudioModule" where
  "aud_initialize show_double g m =
     (if \<not> ac_enabled (aud_config m) then (False, m)
      else (let a0 = (if encoded_cb m then am_setEncodedPacketCallback True AudioManager_init else AudioManager_init);
                (ok, a) = am_initialize show_double g (aud_config m) a0
            in if \<not> ok then (False, m\<lparr>aud_manager := None\<rparr>)
               else (True, m\<lparr>aud_manager := Some a,
                       aud_receiver := Some (setPlaybackCallback (Some (\<lambda>_ _. True)) (AudioReceiver_init (receiver_config m)))\<rparr>)))"

definition aud_start :: "gst \<Rightarrow> AudioModule \<Rightarrow> bool \<times> AudioModule" where
  "aud_start g m =
     (case aud_manager m of
        None \<Rightarrow> (False, m)
      | Some a \<Rightarrow>
          if aud_started m then (True, m)
          else if \<not> config_published m then (False, m)
          else (let (ok, a1) = am_start g a; m1 = m\<lparr>aud_manager := Some a1\<rparr>
                in if \<not> ok then (False, m1)
                   else (True, m1\<lparr>aud_receiver := map_option rx_reset (aud_receiver m1), aud_started := True\<rparr>)))"

definition aud_stop :: "AudioModule \<Rightarrow> AudioModule" where
  "aud_stop m =
     (case aud_manager m of
        None \<Rightarrow> m
      | Some a \<Rightarrow> if aud_started m then m\<lparr>aud_started := False, aud_manager := Some (am_stop a)\<rparr> else m)"

definition aud_setEncodedPacketCallback :: "bool \<Rightarrow> AudioModule \<Rightarrow> AudioModule" where
  "aud_setEncodedPacketCallback b m =
     m\<lparr>encoded_cb := b, aud_manager := map_option (am_setEncodedPacketCallback b) (aud_manager m)\<rparr>"

section \<open>Remote packets\<close>

definition aud_pushRemoteOpusPacket ::
  "(double \<Rightarrow> double) \<Rightarrow> bool \<Rightarrow> bool \<Rightarrow> bool \<Rightarrow> int \<Rightarrow> bytes option \<Rightarrow> u64 \<Rightarrow> AudioModule \<Rightarrow> bool \<times> u64 option \<times> AudioModule" where
  "aud_pushRemoteOpusPacket fl al mp pu now data ts m =
     (case aud_manager m of
        None \<Rightarrow> (False, None, m)
      | Some a \<Rightarrow> (case pushRemotePacket fl al mp pu now data ts a of (ok, t, a1) \<Rightarrow> (ok, t, m\<lparr>aud_manager := Some a1\<rparr>)))"

text \<open>The callback on the released packets, in order: its answers, the time stamps handed to the pipeline,
  the manager. \<open>ans\<close> is what GStreamer answers for a packet.\<close>

primrec deliver ::
  "(double \<Rightarrow> double) \<Rightarrow> (AudioRxPacket \<Rightarrow> bool \<times> bool \<times> bool) \<Rightarrow> int \<Rightarrow> AudioRxPacket list \<Rightarrow> AudioManager
    \<Rightarrow> bool list \<times> u64 list \<times> AudioManager" where
  "deliver fl ans now [] a = ([], [], a)"
| "deliver fl ans now (p # ps) a =
     (case ans p of (al, mp, pu) \<Rightarrow>
      (case pushRemotePacket fl al mp pu now (Some (rx_payload p)) (rx_timestamp_ntp p) a of (ok, t, a1) \<Rightarrow>
       (case deliver fl ans now ps a1 of (oks, ts, a2) \<Rightarrow>
         (ok # oks, (case t of None \<Rightarrow> ts | Some t \<Rightarrow> t # ts), a2))))"

definition receiveRemotePacket ::
  "(double \<Rightarrow> double) \<Rightarrow> (AudioRxPacket \<Rightarrow> bool \<times> bool \<times> bool) \<Rightarrow> int \<Rightarrow> u16 \<Rightarrow> bytes option \<Rightarrow> u64 \<Rightarrow> AudioModule
    \<Rightarrow> bool \<times> u64 list \<times> AudioModule" where
  "receiveRemotePacket fl ans now sq data ts m =
     (case (aud_manager m, aud_receiver m) of
        (Some a, Some r) \<Rightarrow>
          if \<not> aud_started m \<or> \<not> remote_config_ready m then (False, [], m)
          else (case pushPacket now sq data ts r of (ok, ready, r1) \<Rightarrow>
                (case deliver fl ans now ready a of (oks, pts, a1) \<Rightarrow>
                  (ok \<and> list_all id oks, pts, m\<lparr>aud_receiver := Some r1, aud_manager := Some a1\<rparr>)))
      | _ \<Rightarrow> (False, [], m))"

section \<open>The peer's configuration\<close>

definition resetRemoteConfig :: "AudioModule \<Rightarrow> AudioModule" where
  "resetRemoteConfig m = m\<lparr>remote_config_ready := False, remote_config_id := [],
     aud_receiver := map_option rx_reset (aud_receiver m),
     aud_manager := map_option resetPlaybackTimeline (aud_manager m)\<rparr>"

definition applyRemoteConfig :: "AudioConfig \<Rightarrow> string \<Rightarrow> AudioModule \<Rightarrow> bool \<times> AudioModule" where
  "applyRemoteConfig rc config_id m =
     (case (aud_manager m, aud_receiver m) of
        (Some a, Some r) \<Rightarrow>
          if sample_rate rc \<noteq> sample_rate (aud_config m) \<or> channels rc \<noteq> channels (aud_config m)
             \<or> ac_frame_duration_ms rc \<noteq> ac_frame_duration_ms (aud_config m)
             \<or> samples_per_channel rc \<noteq> samples_per_channel (aud_config m)
          then (False, resetRemoteConfig m)
          else (True, m\<lparr>remote_config_id := config_id, remote_config_ready := True,
                  aud_receiver := Some (rx_reset r), aud_manager := Some (resetPlaybackTimeline a)\<rparr>)
      | _ \<Rightarrow> (False, m))"

text \<open>A sample of the capture pipeline reaches the manager the module owns.\<close>

definition aud_sample ::
  "(double \<Rightarrow> double) \<Rightarrow> u64 \<Rightarrow> int \<Rightarrow> (bytes \<times> u64 option) option \<Rightarrow> AudioModule \<Rightarrow> (bytes \<times> u64) option \<times> AudioModule" where
  "aud_sample fl now_ntp now_ms sample m =
     (case aud_manager m of
        None \<Rightarrow> (None, m)
      | Some a \<Rightarrow> (case handleNewSample fl now_ntp now_ms sample a of (_, out, a1) \<Rightarrow> (out, m\<lparr>aud_manager := Some a1\<rparr>)))"

section \<open>The invariant of manager and module\<close>

text \<open>A pipeline exists with its sink or source; a side is active only with its pipeline while the manager runs;
  a running manager has been initialised and has an active side.\<close>

definition am_wf :: "AudioManager \<Rightarrow> bool" where
  "am_wf a \<longleftrightarrow> capture_sink a = capture_pipeline a \<and> playback_src a = playback_pipeline a
     \<and> (capture_active a \<longrightarrow> capture_pipeline a \<and> am_running a) \<and> (playback_active a \<longrightarrow> playback_pipeline a \<and> am_running a)
     \<and> (am_running a \<longrightarrow> am_initialized a \<and> (capture_active a \<or> playback_active a))"

lemma teardown_idle: "\<not> am_running (am_teardown a)" "\<not> capture_active (am_teardown a)" "\<not> playback_active (am_teardown a)"
    "capture_sink (am_teardown a) = capture_pipeline (am_teardown a)" "playback_src (am_teardown a) = playback_pipeline (am_teardown a)"
  by (simp_all add: am_teardown_def stopPipelines_def)

text \<open>Idle with the configuration \<open>c\<close>: what every step of a successful initialisation keeps.\<close>

definition am_idle :: "AudioConfig \<Rightarrow> AudioManager \<Rightarrow> bool" where
  "am_idle c a \<longleftrightarrow> am_config a = c \<and> \<not> am_running a \<and> \<not> capture_active a \<and> \<not> playback_active a
     \<and> capture_sink a = capture_pipeline a \<and> playback_src a = playback_pipeline a"

lemma create_idle:
  "am_idle c a \<Longrightarrow> fst (createCapturePipeline g a) \<Longrightarrow> am_idle c (snd (createCapturePipeline g a))"
  "am_idle c a \<Longrightarrow> fst (createPlaybackPipeline sd g a) \<Longrightarrow> am_idle c (snd (createPlaybackPipeline sd g a))"
  by (simp_all add: am_idle_def createCapturePipeline_def createPlaybackPipeline_def Let_def split: if_splits)

lemma am_initialize_idle:
  assumes "am_initialize sd g c a = (True, b)"
  shows "am_idle c b" and "am_initialized b"
proof -
  define a1 where "a1 = (am_teardown (a\<lparr>am_config := c\<rparr>))\<lparr>am_config := c\<rparr>"
  have i1: "am_idle c a1" by (simp add: am_idle_def a1_def teardown_idle)
  define r1 where "r1 = (if ac_enabled c \<and> uplink_enabled c then createCapturePipeline g a1 else (True, a1))"
  define r2 where "r2 = (if ac_enabled c \<and> downlink_enabled c then createPlaybackPipeline sd g (snd r1) else (True, snd r1))"
  have "am_initialize sd g c a = (if \<not> gst_init g then (False, a\<lparr>am_config := c\<rparr>)
      else if \<not> fst r1 then (False, am_teardown (snd r1)) else if \<not> fst r2 then (False, am_teardown (snd r2))
      else (True, (snd r2)\<lparr>am_initialized := True\<rparr>))"
    unfolding am_initialize_def initializePipelines_def Let_def case_prod_beta r2_def r1_def a1_def by simp
  with assms have eq: "fst r1" "fst r2" "b = (snd r2)\<lparr>am_initialized := True\<rparr>" by (auto split: if_split_asm)
  have i2: "am_idle c (snd r1)" 

    using create_idle(1) [OF i1, of g] i1 eq(1) unfolding r1_def by (auto split: if_split_asm)
  have "am_idle c (snd r2)" 

    using create_idle(2) [OF i2, of sd g] i2 eq(2) unfolding r2_def by (auto split: if_split_asm)
  then show "am_idle c b" "am_initialized b" using eq by (simp_all add: am_idle_def)
qed

lemma am_idle_wf: "am_idle c a \<Longrightarrow> am_wf a"
  by (simp add: am_idle_def am_wf_def)

lemma am_wf_stop: "am_wf a \<Longrightarrow> am_wf (am_stop a)" "\<not> am_running (am_stop a)" "am_config (am_stop a) = am_config a"
    "am_initialized (am_stop a) = am_initialized a"
  by (auto simp: am_wf_def am_stop_def stopPipelines_def)

lemma am_wf_start:
  assumes "am_wf a" "\<not> am_running a" "ac_enabled (am_config a)"
  shows "am_wf (snd (am_start g a))" "am_running (snd (am_start g a)) = fst (am_start g a)"
    "am_config (snd (am_start g a)) = am_config a"
  using assms by (auto simp: am_wf_def am_start_def startPipelines_def Let_def split: if_splits)

lemma am_wf_cong:
  assumes "capture_sink b = capture_sink a" "capture_pipeline b = capture_pipeline a" "playback_src b = playback_src a"
    "playback_pipeline b = playback_pipeline a" "capture_active b = capture_active a" "playback_active b = playback_active a"
    "am_running b = am_running a" "am_initialized b = am_initialized a"
  shows "am_wf b = am_wf a"
  by (simp add: am_wf_def assms)

text \<open>What packets and time line resets leave alone.\<close>

definition same_pipelines :: "AudioManager \<Rightarrow> AudioManager \<Rightarrow> bool" where
  "same_pipelines a b \<longleftrightarrow> am_config b = am_config a \<and> am_running b = am_running a
     \<and> am_initialized b = am_initialized a \<and> am_wf b = am_wf a"

lemma same_pipelines_trans: "same_pipelines a b \<Longrightarrow> same_pipelines b c \<Longrightarrow> same_pipelines a c"
  by (simp add: same_pipelines_def)

lemma note_same: "same_pipelines a (noteDownlinkPacket t n ok a)" "same_pipelines a (noteCapturePacket t n a)"
    "same_pipelines a (noteUplinkPacket t n a)"
  by (simp_all add: same_pipelines_def noteDownlinkPacket_def noteCapturePacket_def noteUplinkPacket_def am_wf_def)

lemma pushRemotePacket_same: "same_pipelines a (snd (snd (pushRemotePacket fl al mp pu now data ts a)))"
  by (auto simp: same_pipelines_def pushRemotePacket_def Let_def noteDownlinkPacket_def am_wf_def split: option.splits)

lemma handleNewSample_same: "same_pipelines a (snd (snd (handleNewSample fl ntp now sample a)))"
  by (auto simp: same_pipelines_def handleNewSample_def Let_def noteCapturePacket_def noteUplinkPacket_def am_wf_def
      split: option.splits)

lemma simple_same: "same_pipelines a (resetPlaybackTimeline a)" "same_pipelines a (am_setEncodedPacketCallback b a)"
  by (simp_all add: same_pipelines_def resetPlaybackTimeline_def am_setEncodedPacketCallback_def am_wf_def)

lemma deliver_same: "same_pipelines a (snd (snd (deliver fl ans now ps a)))"
proof (induction ps arbitrary: a)
  case Nil
  then show ?case by (simp add: same_pipelines_def)
next
  case (Cons p ps)
  obtain al mp pu where ap: "ans p = (al, mp, pu)" by (cases "ans p")
  obtain ok t a1 where q: "pushRemotePacket fl al mp pu now (Some (rx_payload p)) (rx_timestamp_ntp p) a = (ok, t, a1)"
    by (cases "pushRemotePacket fl al mp pu now (Some (rx_payload p)) (rx_timestamp_ntp p) a")
  have "same_pipelines a a1" using pushRemotePacket_same [of a fl al mp pu now] q by (metis snd_conv)
  then show ?case using Cons.IH [of a1] same_pipelines_trans by (auto simp: ap q split: prod.splits)
qed

definition aud_wf :: "AudioModule \<Rightarrow> bool" where
  "aud_wf m \<longleftrightarrow> packetCountFromMs (initial_buffer_ms (receiver_config m)) (frame_duration_ms (receiver_config m)) < 0xFFFFFFFF
     \<and> (\<forall>r. aud_receiver m = Some r \<longrightarrow> rx_ok r \<and> playback_callback r = Some (\<lambda>_ _. True))
     \<and> (case aud_manager m of
          None \<Rightarrow> \<not> aud_started m
        | Some a \<Rightarrow> am_wf a \<and> am_config a = aud_config m \<and> ac_enabled (aud_config m) \<and> am_initialized a
            \<and> aud_receiver m \<noteq> None \<and> am_running a = aud_started m)"

lemma rx_reset_cb [simp]: "playback_callback (rx_reset r) = playback_callback r"
  by (simp add: rx_reset_def)

text \<open>Every operation of the module keeps the invariant.\<close>

lemma aud_wf_manager:
  assumes "aud_wf m" "aud_manager m = Some a" "same_pipelines a b"
    and "\<And>r. q = Some r \<Longrightarrow> rx_ok r \<and> playback_callback r = Some (\<lambda>_ _. True)" "q \<noteq> None"
    and "n = m\<lparr>aud_manager := Some b, aud_receiver := q, remote_config_ready := rdy, remote_config_id := cid\<rparr>"
  shows "aud_wf n"
  using assms by (auto simp: aud_wf_def same_pipelines_def)

lemma aud_wf_manager_only:
  assumes "aud_wf m" "aud_manager m = Some a" "same_pipelines a b"
  shows "aud_wf (m\<lparr>aud_manager := Some b\<rparr>)"
  using assms by (auto simp: aud_wf_def same_pipelines_def)

lemma aud_wf_rx: "aud_wf m \<Longrightarrow> aud_receiver m = Some r \<Longrightarrow> rx_ok r \<and> playback_callback r = Some (\<lambda>_ _. True)"
  by (simp add: aud_wf_def)

lemma aud_wf_initialize:
  assumes "aud_wf m" "\<not> aud_started m"
  shows "aud_wf (snd (aud_initialize sd g m))"
proof (cases "ac_enabled (aud_config m)")
  case False
  then show ?thesis using assms by (simp add: aud_initialize_def)
next
  case True
  define a0 where "a0 = (if encoded_cb m then am_setEncodedPacketCallback True AudioManager_init else AudioManager_init)"
  obtain ok a where i: "am_initialize sd g (aud_config m) a0 = (ok, a)" by fastforce
  show ?thesis
  proof (cases ok)
    case True
    then have "am_idle (aud_config m) a" "am_initialized a" using am_initialize_idle [of sd g "aud_config m" a0 a] i by simp_all
    moreover have "rx_ok (AudioReceiver_init (receiver_config m))" using assms(1) by (intro init_ok) (simp add: aud_wf_def)
    ultimately show ?thesis using assms True \<open>ac_enabled _\<close> i am_idle_wf [of "aud_config m" a]
      by (simp add: aud_initialize_def Let_def a0_def [symmetric] aud_wf_def am_idle_def setPlaybackCallback_ok)
         (simp add: setPlaybackCallback_def)
  next
    case False
    then show ?thesis using assms \<open>ac_enabled _\<close> i
      by (simp add: aud_initialize_def Let_def a0_def [symmetric] aud_wf_def)
  qed
qed

lemma am_start_fields:
  assumes "am_initialized a" "ac_enabled (am_config a)"
  shows "am_initialized (snd (am_start g a))"
  using assms by (auto simp: am_start_def startPipelines_def Let_def)

lemma aud_wf_start:
  assumes "aud_wf m"
  shows "aud_wf (snd (aud_start g m))"
proof (cases "aud_manager m")
  case None
  then show ?thesis using assms by (simp add: aud_start_def)
next
  case (Some a)
  show ?thesis
  proof (cases "aud_started m \<or> \<not> config_published m")
    case True
    then show ?thesis using Some assms by (auto simp: aud_start_def)
  next
    case False
    obtain ok b where s: "am_start g a = (ok, b)" by fastforce
    have pre: "am_wf a" "\<not> am_running a" "ac_enabled (am_config a)" "am_initialized a"
      using assms False Some by (auto simp: aud_wf_def)
    from am_wf_start [OF pre(1,2,3), of g] am_start_fields [OF pre(4,3), of g] s
    have "am_wf b" "am_running b = ok" "am_config b = am_config a" "am_initialized b" by simp_all
    then show ?thesis using assms False Some s by (auto simp: aud_start_def aud_wf_def intro: rx_reset_ok)
  qed
qed

lemma aud_wf_stop: "aud_wf m \<Longrightarrow> aud_wf (aud_stop m)"
  using am_wf_stop by (auto simp: aud_stop_def aud_wf_def split: option.splits)

lemma aud_wf_setcb: "aud_wf m \<Longrightarrow> aud_wf (aud_setEncodedPacketCallback b m)"
  using simple_same(2) by (auto simp: aud_setEncodedPacketCallback_def aud_wf_def same_pipelines_def split: option.splits)

lemma aud_wf_reset: "aud_wf m \<Longrightarrow> aud_wf (resetRemoteConfig m)"
  using simple_same(1) by (auto simp: resetRemoteConfig_def aud_wf_def same_pipelines_def intro: rx_reset_ok split: option.splits)

lemma aud_wf_apply: "aud_wf m \<Longrightarrow> aud_wf (snd (applyRemoteConfig rc cid m))"
  using simple_same(1) aud_wf_reset [of m]
  by (auto simp: applyRemoteConfig_def aud_wf_def same_pipelines_def intro: rx_reset_ok split: option.splits)

lemma setup_cb: "same_setup s s' \<Longrightarrow> playback_callback s' = playback_callback s"
    "same_buffer s s' \<Longrightarrow> playback_callback s' = playback_callback s"
    "playback_callback (stored sq p a) = playback_callback a" "playback_callback (admit sq s) = playback_callback s"
  by (simp_all add: same_setup_def same_buffer_def stored_def admit_def Let_def)

lemma pushPacket_cb:
  assumes "rx_ok r"
  shows "playback_callback (snd (snd (pushPacket now sq d ts r))) = playback_callback r"
proof -
  obtain res t where l: "push_locked now sq (the d) ts r = (res, t)" by fastforce
  have "playback_callback t = playback_callback r"
    using l
  proof (cases rule: push_locked_cases)
    case (play u ready u')
    have "map_ok (buffer u)"
      using play(2,4) rx_ok_admit [OF assms, of sq]
      by (auto simp: same_buffer_def stored_def Let_def rx_ok_def intro: map_ok_emplace)
    from drain_and_skip_ok(1) [OF this play(5)] have "same_setup u u'" by (simp add: drained_def)
    from setup_cb(1) [OF this] show ?thesis using setup_cb(2) [OF play(4)] setup_cb(2) [OF play(6)] by (simp add: setup_cb(3,4))
  qed (use setup_cb(2) [of _ t] in \<open>simp_all add: setup_cb(3,4)\<close>)
  then show ?thesis using l by (auto simp: pushPacket_def Let_def split: option.splits)
qed

lemma pushPacket_released:
  assumes "rx_ok r" "playback_callback r = Some cb" "pushPacket now sq d ts r = (ok, ready, r')"
  shows "length ready + length (buffer r') \<le> Suc (length (buffer r))"
proof (cases "d = None \<or> d = Some []")
  case True
  then show ?thesis using assms(3) by (auto simp: pushPacket_def)
next
  case False
  then obtain b where d: "d = Some b" "b \<noteq> []" by auto
  from pushPacket_conserves [OF assms(1,2) d(2), of now sq ts ok ready r'] assms(3)
  consider "ready = []" "buffer r' = buffer r"
    | m where "mset ready + mset (map snd (buffer r')) = add_mset \<lparr>rx_seq = sq, rx_timestamp_ntp = ts, rx_payload = b\<rparr> (mset (map snd m))"
        "m = [] \<or> m = buffer r" unfolding d(1) by (auto split: if_splits)
  then show ?thesis
  proof cases
    case (2 m)
    from arg_cong [OF 2(1), of size] have "length ready + length (buffer r') = Suc (length m)" by simp
    with 2(2) show ?thesis by auto
  qed simp
qed

lemma aud_wf_receive:
  assumes "aud_wf m"
  shows "aud_wf (snd (snd (receiveRemotePacket fl ans now sq data ts m)))"
proof (cases "aud_manager m = None \<or> aud_receiver m = None \<or> \<not> aud_started m \<or> \<not> remote_config_ready m")
  case True
  then show ?thesis using assms by (auto simp: receiveRemotePacket_def split: option.splits)
next
  case False
  then obtain a r where ar: "aud_manager m = Some a" "aud_receiver m = Some r" by auto
  obtain ok ready r1 where p: "pushPacket now sq data ts r = (ok, ready, r1)" by (metis prod.exhaust)
  obtain oks pts a1 where d: "deliver fl ans now ready a = (oks, pts, a1)" by (metis prod.exhaust)
  have r: "rx_ok r" "playback_callback r = Some (\<lambda>_ _. True)" using aud_wf_rx [OF assms ar(2)] by simp_all
  have r1: "rx_ok r1" "playback_callback r1 = Some (\<lambda>_ _. True)"
    using pushPacket_ok [OF r(1), of now sq data ts] pushPacket_cb [OF r(1), of now sq data ts] r(2) p by simp_all
  have "same_pipelines a a1" using deliver_same [of a fl ans now ready] d by simp
  with aud_wf_manager_only [OF assms ar(1)] r1 False ar p d show ?thesis
    by (auto simp: receiveRemotePacket_def aud_wf_def)
qed

lemma aud_wf_push:
  assumes "aud_wf m"
  shows "aud_wf (snd (snd (aud_pushRemoteOpusPacket fl al mp pu now data ts m)))"
proof (cases "aud_manager m")
  case None
  then show ?thesis using assms by (simp add: aud_pushRemoteOpusPacket_def)
next
  case (Some a)
  from aud_wf_manager_only [OF assms Some pushRemotePacket_same [of a fl al mp pu now data ts]] Some
  show ?thesis by (simp add: aud_pushRemoteOpusPacket_def case_prod_beta)
qed

lemma aud_wf_sample:
  assumes "aud_wf m"
  shows "aud_wf (snd (aud_sample fl ntp now sample m))"
proof (cases "aud_manager m")
  case None
  then show ?thesis using assms by (simp add: aud_sample_def)
next
  case (Some a)
  from aud_wf_manager_only [OF assms Some handleNewSample_same [of a fl ntp now sample]] Some
  show ?thesis by (simp add: aud_sample_def case_prod_beta)
qed

section \<open>Reachable modules\<close>

text \<open>The integers of the parameters fit a C++ \<open>int\<close>. The node initialises the module before it is started.\<close>

definition int_params :: "params \<Rightarrow> bool" where
  "int_params p \<longleftrightarrow> (\<forall>n v. par_int p n = Some v \<longrightarrow> v < 2 ^ 31)"

inductive aud_reachable :: "AudioModule \<Rightarrow> bool" where
  aud_init: "int_params p \<Longrightarrow> aud_reachable (AudioModule_init p (audio_configFromRosParam p))"
| aud_ini: "aud_reachable m \<Longrightarrow> \<not> aud_started m \<Longrightarrow> aud_reachable (snd (aud_initialize sd g m))"
| aud_sta: "aud_reachable m \<Longrightarrow> aud_reachable (snd (aud_start g m))"
| aud_sto: "aud_reachable m \<Longrightarrow> aud_reachable (aud_stop m)"
| aud_mark: "aud_reachable m \<Longrightarrow> aud_reachable (markConfigPublished m)"
| aud_unmark: "aud_reachable m \<Longrightarrow> aud_reachable (resetConfigPublished m)"
| aud_cb: "aud_reachable m \<Longrightarrow> aud_reachable (aud_setEncodedPacketCallback b m)"
| aud_pus: "aud_reachable m \<Longrightarrow> aud_reachable (snd (snd (aud_pushRemoteOpusPacket fl al mp pu now d ts m)))"
| aud_rec: "aud_reachable m \<Longrightarrow> aud_reachable (snd (snd (receiveRemotePacket fl ans now sq d ts m)))"
| aud_sam: "aud_reachable m \<Longrightarrow> aud_reachable (snd (aud_sample fl ntp now sample m))"
| aud_app: "aud_reachable m \<Longrightarrow> aud_reachable (snd (applyRemoteConfig rc cid m))"
| aud_res: "aud_reachable m \<Longrightarrow> aud_reachable (resetRemoteConfig m)"

lemma packet_count_small:
  assumes "ms < 2 ^ 31" "frame < 2 ^ 31"
  shows "packetCountFromMs ms frame < 0xFFFFFFFF"
proof -
  define f where "f = max 1 frame"
  have f: "1 \<le> unat f" "unat f < 2 ^ 31" using assms(2) by (auto simp: f_def max_def word_less_nat_alt word_le_nat_alt)
  have m: "unat ms < 2 ^ 31" using assms(1) by (simp add: word_less_nat_alt)
  have "unat (ms + f - 1) < 2 ^ 32 - 1"
    using m f by (simp add: unat_word_ariths unat_sub_if' )
  then have "unat ((ms + f - 1) div f) < 2 ^ 32 - 1" by (simp add: unat_div le_less_trans [OF div_le_dividend])
  then show ?thesis by (simp add: packetCountFromMs_def Let_def f_def max_def word_less_nat_alt)
qed

lemma int_param_word:
  assumes "int_params p" "d < 2 ^ 31"
  shows "(of_int (max 1 (declareOrGet (par_int p) n d)) :: u32) < 2 ^ 31"
proof -
  have "declareOrGet (par_int p) n d < 2 ^ 31"
    using assms by (auto simp: declareOrGet_def int_params_def split: option.splits)
  moreover define v where "v = max 1 (declareOrGet (par_int p) n d)"
  ultimately have "0 \<le> v" "v < 2 ^ 31" by auto
  then have "uint (of_int v :: u32) = v" by (simp add: uint_word_of_int take_bit_eq_mod)
  with \<open>v < 2 ^ 31\<close> show ?thesis unfolding v_def [symmetric] by (simp add: word_less_alt)
qed

lemma aud_reachable_wf: "aud_reachable m \<Longrightarrow> aud_wf m"
proof (induction rule: aud_reachable.induct)
  case (aud_init p)
  have "packetCountFromMs (of_int (max 1 (declareOrGet (par_int p) ''audio.receiver.initial_buffer_ms'' 60)))
      (max 1 (of_int (max 1 (declareOrGet (par_int p) ''audio.frame_duration_ms'' 20)))) < 0xFFFFFFFF"
    by (rule packet_count_small) (use int_param_word [OF aud_init] in \<open>simp_all add: max_def\<close>)
  then show ?case by (simp add: aud_wf_def AudioModule_init_def rx_configFromRosParam_def audio_configFromRosParam_def Let_def)
next
  case (aud_ini m sd g)
  then show ?case using aud_wf_initialize by blast
next
  case (aud_app m rc cid)
  then show ?case using aud_wf_apply by blast
next
  case (aud_mark m)
  then show ?case by (cases "aud_manager m") (simp_all add: aud_wf_def markConfigPublished_def)
next
  case (aud_unmark m)
  then show ?case by (cases "aud_manager m") (simp_all add: aud_wf_def resetConfigPublished_def)
qed (simp_all add: aud_wf_start aud_wf_stop aud_wf_setcb aud_wf_push aud_wf_receive aud_wf_sample aud_wf_reset)

section \<open>Playout\<close>

text \<open>\<open>deliver\<close> is a run of pushes, so the time line of the manager carries over.\<close>

definition as_push :: "(AudioRxPacket \<Rightarrow> bool \<times> bool \<times> bool) \<Rightarrow> int \<Rightarrow> AudioRxPacket \<Rightarrow> push" where
  "as_push ans now p = (case ans p of (al, mp, pu) \<Rightarrow> (al, mp, pu, now, Some (rx_payload p), rx_timestamp_ntp p))"

fun push_run :: "(double \<Rightarrow> double) \<Rightarrow> push list \<Rightarrow> AudioManager \<Rightarrow> AudioManager" where
  "push_run fl [] a = a"
| "push_run fl (p # ps) a = push_run fl ps (snd (push_one fl p a))"

lemma deliver_push:
  "fst (snd (deliver fl ans now ps a)) = play_all fl (map (as_push ans now) ps) a"
  "snd (snd (deliver fl ans now ps a)) = push_run fl (map (as_push ans now) ps) a"
  by (induction ps arbitrary: a) (simp_all add: as_push_def case_prod_beta split: option.split)

lemma play_all_append: "play_all fl (ps @ qs) a = play_all fl ps a @ play_all fl qs (push_run fl ps a)"
  by (induction ps arbitrary: a) (auto split: prod.splits option.splits)

text \<open>A run of received packets: answers of GStreamer, time, sequence number, payload and time stamp.\<close>

type_synonym arrival = "(AudioRxPacket \<Rightarrow> bool \<times> bool \<times> bool) \<times> int \<times> u16 \<times> bytes option \<times> u64"

fun receive_all :: "(double \<Rightarrow> double) \<Rightarrow> arrival list \<Rightarrow> AudioModule \<Rightarrow> u64 list" where
  "receive_all fl [] m = []"
| "receive_all fl ((ans, now, sq, d, ts) # xs) m =
     (case receiveRemotePacket fl ans now sq d ts m of (_, pts, m1) \<Rightarrow> pts @ receive_all fl xs m1)"

lemma receive_all_plays:
  assumes "aud_wf m" "aud_manager m = Some a" "aud_receiver m = Some r"
  shows "\<exists>ps. receive_all fl xs m = play_all fl ps a \<and> length ps \<le> length xs + length (buffer r)"
  using assms
proof (induction xs arbitrary: m a r)
  case Nil
  then show ?case by (intro exI [of _ "[]"]) simp
next
  case (Cons x xs)
  obtain ans now sq d ts where x: "x = (ans, now, sq, d, ts)" by (cases x)
  have wf: "aud_wf (snd (snd (receiveRemotePacket fl ans now sq d ts m)))" by (rule aud_wf_receive [OF Cons.prems(1)])
  show ?case
  proof (cases "aud_started m \<and> remote_config_ready m")
    case False
    then have "receiveRemotePacket fl ans now sq d ts m = (False, [], m)"
      using Cons.prems by (auto simp: receiveRemotePacket_def)
    with Cons.IH [OF Cons.prems] show ?thesis by (auto simp: x intro: le_SucI)
  next
    case True
    obtain ok ready r1 where p: "pushPacket now sq d ts r = (ok, ready, r1)" by (metis prod.exhaust)
    obtain oks pts a1 where dl: "deliver fl ans now ready a = (oks, pts, a1)" by (metis prod.exhaust)
    define m1 where "m1 = m\<lparr>aud_receiver := Some r1, aud_manager := Some a1\<rparr>"
    have rv: "receiveRemotePacket fl ans now sq d ts m = (ok \<and> list_all id oks, pts, m1)"
      using True Cons.prems p dl by (simp add: receiveRemotePacket_def m1_def)
    then have "aud_wf m1" using wf by simp
    from Cons.IH [OF this, of a1 r1] obtain ps where ps: "receive_all fl xs m1 = play_all fl ps a1"
      "length ps \<le> length xs + length (buffer r1)" by (auto simp: m1_def)
    have len: "length ready + length (buffer r1) \<le> Suc (length (buffer r))"
      using pushPacket_released [of r "\<lambda>_ _. True"] aud_wf_rx [OF Cons.prems(1,3)] p by blast
    have "receive_all fl (x # xs) m = play_all fl (map (as_push ans now) ready @ ps) a"
      using rv ps(1) deliver_push [of fl ans now ready a] dl by (simp add: x play_all_append)
    then show ?thesis using len ps(2) by (intro exI [of _ "map (as_push ans now) ready @ ps"]) simp
  qed
qed

section \<open>Properties\<close>

text \<open>C22: In every reachable audio module the parts fit: a started module owns an initialised, running manager
  with an active pipeline of its own configuration, and a stopped one a manager that does not run; every
  active side has its pipeline and its sink or source; the receiver is within its bounds.\<close>

theorem audio_module_consistent:
  assumes "aud_reachable m"
  shows "aud_wf m"
  by (rule aud_reachable_wf [OF assms])

definition audio_params :: params where
  "audio_params = \<lparr>par_bool = (\<lambda>n. if n = ''audio.enabled'' then Some True else None), par_int = (\<lambda>n. None),
     par_double = (\<lambda>n. None), par_string = (\<lambda>n. None)\<rparr>"

definition gst_up :: gst where
  "gst_up = \<lparr>gst_init = True, gst_parse = (\<lambda>d. True), gst_sink = True, gst_src = True, gst_play_capture = False,
     gst_play_playback = True\<rparr>"

definition audio_started :: AudioModule where
  "audio_started = snd (aud_start gst_up (markConfigPublished
     (snd (aud_initialize (\<lambda>d. []) gst_up (AudioModule_init audio_params (audio_configFromRosParam audio_params))))))"

definition audio_up :: AudioModule where
  "audio_up = snd (applyRemoteConfig (audio_configFromRosParam audio_params) ''1'' audio_started)"

lemma audio_started_reachable: "aud_reachable audio_started"
  unfolding audio_started_def
  by (intro aud_sta aud_mark aud_ini aud_init) (simp_all add: int_params_def audio_params_def AudioModule_init_def)

lemma audio_up_reachable: "aud_reachable audio_up"
  unfolding audio_up_def by (intro aud_app audio_started_reachable)

theorem audio_module_consistent_witness: "aud_wf audio_up \<and> aud_reachable audio_up"
  using audio_module_consistent [OF audio_up_reachable] audio_up_reachable by simp

text \<open>C8: From the moment the peer's configuration is accepted, the time stamps of the packets handed to the
  playback pipeline never go back, whatever arrives in whatever order, with whatever time stamps, and whatever
  GStreamer answers: jitter buffer and time line together.\<close>

theorem audio_playout_never_goes_back:
  assumes "long_double fl" "aud_reachable m" "applyRemoteConfig rc cid m = (True, m1)"
    and "length xs * (unat (ac_frame_duration_ms (aud_config m)) * 1000000) < 2 ^ 63"
  shows "sorted (map unat (receive_all fl xs m1))"
proof -
  have wf: "aud_wf m1" using aud_wf_apply [OF aud_reachable_wf [OF assms(2)], of rc cid] assms(3) by simp
  obtain a r where ar: "aud_manager m = Some a" "aud_receiver m = Some r"
    and m1: "aud_manager m1 = Some (resetPlaybackTimeline a)" "aud_receiver m1 = Some (rx_reset r)"
    using assms(3) by (auto simp: applyRemoteConfig_def split: option.splits if_splits)
  from receive_all_plays [OF wf m1] obtain ps where
    ps: "receive_all fl xs m1 = play_all fl ps (resetPlaybackTimeline a)" "length ps \<le> length xs"
    by (auto simp: rx_reset_def)
  have fr: "frame_ns a = unat (ac_frame_duration_ms (aud_config m)) * 1000000"
    using aud_reachable_wf [OF assms(2)] ar by (simp add: aud_wf_def frame_ns_def)
  have "length ps * frame_ns a \<le> length xs * frame_ns a" using ps(2) by (rule mult_le_mono1)
  also have "\<dots> < 2 ^ 63" using assms(4) unfolding fr .
  finally have len: "length ps * frame_ns a < 2 ^ 63" .
  have "sorted_wrt (\<le>) (playback_last_pts_ns (resetPlaybackTimeline a) # play_all fl ps (resetPlaybackTimeline a))"
    by (rule play_all_sorted [of fl _ 0]) (use assms(1) len in simp_all)
  then show ?thesis unfolding ps(1) by (simp add: sorted_unat)
qed

definition arrival_at :: "u16 \<Rightarrow> u64 \<Rightarrow> arrival" where
  "arrival_at sq ts = (\<lambda>_. (True, True, True), 0, sq, Some [1], ts)"

lemma audio_config_eq: "audio_configFromRosParam audio_params = AudioConfig_default\<lparr>ac_enabled := True\<rparr>"
  by (simp add: audio_configFromRosParam_def AudioConfig_default_def audio_params_def declareOrGet_def Let_def)

lemma audio_started_parts:
  "aud_config audio_started = AudioConfig_default\<lparr>ac_enabled := True\<rparr>"
  "aud_manager audio_started \<noteq> None" "aud_receiver audio_started \<noteq> None"
  by (simp_all add: audio_started_def audio_config_eq gst_up_def aud_start_def markConfigPublished_def aud_initialize_def
      AudioModule_init_def AudioConfig_default_def am_initialize_def initializePipelines_def createCapturePipeline_def
      createPlaybackPipeline_def am_teardown_def stopPipelines_def am_start_def startPipelines_def AudioManager_init_def Let_def)

lemma audio_up_eq: "applyRemoteConfig (audio_configFromRosParam audio_params) ''1'' audio_started = (True, audio_up)"
  using audio_started_parts by (auto simp: audio_up_def applyRemoteConfig_def audio_config_eq prod_eq_iff)

theorem audio_playout_never_goes_back_witness:
  "sorted (map unat (receive_all (\<lambda>q. q) (map (\<lambda>(sq, ts). arrival_at sq ts)
      [(7, 0x100000000), (9, 0x10A000000), (8, 0x105000000), (10, 0x101000000)]) audio_up))"
  by (rule audio_playout_never_goes_back [OF long_double_id audio_started_reachable audio_up_eq])
     (simp add: audio_started_parts AudioConfig_default_def)

end
