(* ===== verification/RobotTelemetry.thy ===== *)
theory RobotTelemetry
  imports PacketCodec
begin

text \<open>
  The robot telemetry of \<open>src/src/main_node.cpp\<close>: how the node turns battery, temperature, device and joint
  messages into the two snapshots that \<^verbatim>\<open>PacketCodec\<close> puts on the wire. A double that is not finite is
  \<open>None\<close>; \<open>fl\<close> is the product of two doubles (\<open>None\<close> on overflow), \<open>f32\<close> the bits of a double
  narrowed to a float, and \<open>unspec\<close> what \<open>llround\<close> answers outside the range of \<open>long long\<close>, which the
  standard leaves open.
\<close>

section \<open>Encoders\<close>

type_synonym fval = "double option"

definition llround :: "(fval \<Rightarrow> int) \<Rightarrow> fval \<Rightarrow> int" where
  "llround unspec x =
     (case x of
        None \<Rightarrow> unspec x
      | Some r \<Rightarrow> (let n = (if 0 \<le> r then floor (r + 1 / 2) else ceiling (r - 1 / 2))
                   in if - (2 ^ 63) \<le> n \<and> n < 2 ^ 63 then n else unspec x))"

definition encodeVoltageMv :: "(double \<Rightarrow> double \<Rightarrow> fval) \<Rightarrow> (fval \<Rightarrow> int) \<Rightarrow> fval \<Rightarrow> u16" where
  "encodeVoltageMv fl unspec voltage_v =
     (case voltage_v of
        None \<Rightarrow> 0xFFFF
      | Some v \<Rightarrow> of_int (clampI (llround unspec (fl v 1000)) 0 65535))"

definition encodeCurrentMa :: "(double \<Rightarrow> double \<Rightarrow> fval) \<Rightarrow> (fval \<Rightarrow> int) \<Rightarrow> fval \<Rightarrow> u16" where
  "encodeCurrentMa fl unspec current_a =
     (case current_a of
        None \<Rightarrow> of_int (- 32768)
      | Some a \<Rightarrow> of_int (clampI (llround unspec (fl a 1000)) (- 32768) 32767))"

definition encodeTemperatureDeciC :: "(double \<Rightarrow> double \<Rightarrow> fval) \<Rightarrow> (fval \<Rightarrow> int) \<Rightarrow> fval \<Rightarrow> u16" where
  "encodeTemperatureDeciC fl unspec temperature_c =
     (case temperature_c of
        None \<Rightarrow> of_int (- 32768)
      | Some t \<Rightarrow> of_int (clampI (llround unspec (fl t 10)) (- 32768) 32767))"

definition agvErrorDomainToString :: "u8 \<Rightarrow> string" where
  "agvErrorDomainToString error_domain =
     (if error_domain = 0 then ''ERROR_NONE''
      else if error_domain = 1 then ''ERROR_UNKNOWN''
      else if error_domain = 2 then ''ERROR_HW''
      else if error_domain = 3 then ''ERROR_SW''
      else if error_domain = 4 then ''ERROR_OVER_TRAVEL''
      else if error_domain = 5 then ''EMERGENCY_STOP_HW''
      else if error_domain = 6 then ''EMERGENCY_STOP_SW''
      else if error_domain = 7 then ''PROTECTIVE_STOP_HW''
      else if error_domain = 8 then ''PROTECTIVE_STOP_SW''
      else if error_domain = 9 then ''SAFETY_STOP''
      else if error_domain = 10 then ''CALIBRATION_REQUIRED''
      else ''UNKNOWN_'' @ nat_digits (unat error_domain))"

text \<open>\<open>now_ms\<close>: the system clock in milliseconds. The seconds are a positive 32-bit number here.\<close>

definition stampToUnixMs :: "u64 \<Rightarrow> int \<Rightarrow> u32 \<Rightarrow> u64" where
  "stampToUnixMs now_ms sec nanosec =
     (if sec \<le> 0 then now_ms else of_int sec * 1000 + ucast (nanosec div 1000000))"

section \<open>Joints\<close>

definition kRobotJointTelemetryJointNames :: "string list" where
  "kRobotJointTelemetryJointNames =
     [''Waist01_Joint'', ''Waist02_Joint'', ''Body0422_Joint'',
      ''openarm_left_joint1'', ''openarm_left_joint2'', ''openarm_left_joint3'', ''openarm_left_joint4'',
      ''openarm_left_joint5'', ''openarm_left_joint6'', ''openarm_left_joint7'',
      ''openarm_right_joint1'', ''openarm_right_joint2'', ''openarm_right_joint3'', ''openarm_right_joint4'',
      ''openarm_right_joint5'', ''openarm_right_joint6'', ''openarm_right_joint7'',
      ''Head02_Joint'', ''Head03_Joint'']"

definition kRobotJointTelemetryJointCount :: nat where "kRobotJointTelemetryJointCount = 19"

definition exactRobotJointIndex :: "string \<Rightarrow> nat option" where
  "exactRobotJointIndex nm = find_if (\<lambda>x. nm = x) kRobotJointTelemetryJointNames"

definition finiteOrZero :: "(double \<Rightarrow> u32) \<Rightarrow> fval \<Rightarrow> u32" where
  "finiteOrZero f32 v = (case v of Some x \<Rightarrow> f32 x | None \<Rightarrow> 0)"

definition RobotJointStateSample_default :: RobotJointStateSample where
  "RobotJointStateSample_default = \<lparr>position_rad = 0, velocity_rad_s = 0, effort_nm = 0, joint_valid = False\<rparr>"

definition setJointSample ::
  "(double \<Rightarrow> u32) \<Rightarrow> nat \<Rightarrow> fval \<Rightarrow> fval \<Rightarrow> fval \<Rightarrow> RobotJointTelemetrySnapshot \<Rightarrow> RobotJointTelemetrySnapshot" where
  "setJointSample f32 joint_index position velocity effort snapshot =
     (if length (joints snapshot) \<le> joint_index then snapshot
      else snapshot\<lparr>joints := (joints snapshot)[joint_index :=
        \<lparr>position_rad = finiteOrZero f32 position, velocity_rad_s = finiteOrZero f32 velocity,
         effort_nm = finiteOrZero f32 effort, joint_valid = position \<noteq> None\<rparr>]\<rparr>)"

record JointStateMsg =
  js_sec :: int
  js_nanosec :: u32
  js_name :: "string list"
  js_position :: "fval list"
  js_velocity :: "fval list"
  js_effort :: "fval list"

text \<open>One pass of the loop over the message's joints.\<close>

definition joint_step :: "(double \<Rightarrow> u32) \<Rightarrow> JointStateMsg \<Rightarrow> nat \<Rightarrow> RobotJointTelemetrySnapshot \<Rightarrow> RobotJointTelemetrySnapshot" where
  "joint_step f32 msg source_index s =
     (case exactRobotJointIndex (js_name msg ! source_index) of
        None \<Rightarrow> s
      | Some joint_index \<Rightarrow>
          (let velocity = (if source_index < length (js_velocity msg) then js_velocity msg ! source_index else Some 0);
               effort = (if source_index < length (js_effort msg) then js_effort msg ! source_index else Some 0)
           in setJointSample f32 joint_index (js_position msg ! source_index) velocity effort s))"

definition onJointState :: "(double \<Rightarrow> u32) \<Rightarrow> u64 \<Rightarrow> JointStateMsg \<Rightarrow> RobotJointTelemetrySnapshot \<Rightarrow> RobotJointTelemetrySnapshot" where
  "onJointState f32 now_ms msg s =
     (let s1 = s\<lparr>sample_timestamp_ms := stampToUnixMs now_ms (js_sec msg) (js_nanosec msg)\<rparr>;
          s2 = s1\<lparr>joints := map (\<lambda>_. RobotJointStateSample_default) (joints s1)\<rparr>;
          sample_count = min (length (js_name msg)) (length (js_position msg))
      in fold (joint_step f32 msg) [0..<sample_count] s2)"

section \<open>Snapshots\<close>

definition kFallbackBatteryVoltageMv :: u16 where "kFallbackBatteryVoltageMv = 48000"
definition kFallbackBatteryCurrentMa :: u16 where "kFallbackBatteryCurrentMa = of_int (- 1200)"
definition kFallbackBatteryTemperatureDeciC :: u16 where "kFallbackBatteryTemperatureDeciC = 260"
definition kFallbackFaultCode :: string where "kFallbackFaultCode = ''ERROR_NONE''"
definition kFallbackNetworkQuality :: string where
  "kFallbackNetworkQuality = ''uplink=good;q=0ms;blk=0;drop=0;tx=0.0/60.0''"
definition kFallbackModel :: string where "kFallbackModel = ''teleop_robot_demo''"
definition kFallbackFirmwareVersion :: string where "kFallbackFirmwareVersion = ''v0.0.0-demo''"

record RobotTelemetryConfig =
  tc_enabled :: bool
  tc_period_sec :: double
  tc_snapshot :: RobotTelemetrySnapshot

record RobotJointTelemetryConfig =
  jc_enabled :: bool
  jc_period_sec :: double
  joint_state_topic :: string
  jc_snapshot :: RobotJointTelemetrySnapshot

text \<open>The parameters come through look-ups with a default, as \<open>declareOrGet\<close> answers them.\<close>

definition loadRobotTelemetryParams ::
  "(string \<Rightarrow> bool \<Rightarrow> bool) \<Rightarrow> (string \<Rightarrow> int \<Rightarrow> int) \<Rightarrow> (string \<Rightarrow> double \<Rightarrow> double) \<Rightarrow> (string \<Rightarrow> string \<Rightarrow> string) \<Rightarrow> u64
     \<Rightarrow> RobotTelemetryConfig \<times> RobotJointTelemetryConfig" where
  "loadRobotTelemetryParams get_bool get_int get_double get_string now_ms =
     (let mdl = get_string ''telemetry.low_rate.model'' kFallbackModel;
          schema = get_int ''telemetry.high_rate.schema_id'' 2
      in (\<lparr>tc_enabled = get_bool ''telemetry.low_rate.enabled'' False,
           tc_period_sec = max (1 / 10) (get_double ''telemetry.low_rate.period_sec'' 1),
           tc_snapshot = \<lparr>rt_version = 1, battery_voltage_mv = kFallbackBatteryVoltageMv,
             battery_current_ma = kFallbackBatteryCurrentMa,
             battery_temperature_deci_c = kFallbackBatteryTemperatureDeciC, fault_code = kFallbackFaultCode,
             network_quality = kFallbackNetworkQuality, model = (if mdl = [] then kFallbackModel else mdl),
             firmware_version = kFallbackFirmwareVersion\<rparr>\<rparr>,
          \<lparr>jc_enabled = get_bool ''telemetry.high_rate.enabled'' True,
           jc_period_sec = max (1 / 200) (get_double ''telemetry.high_rate.period_sec'' (1 / 50)),
           joint_state_topic = get_string ''telemetry.high_rate.joint_state_topic'' ''/joint_states'',
           jc_snapshot = \<lparr>rj_version = 1, schema_id = of_int (clampI schema 0 0xFFFF), sample_timestamp_ms = now_ms,
             joints = replicate kRobotJointTelemetryJointCount RobotJointStateSample_default\<rparr>\<rparr>))"

definition onTelemetryBatteryState ::
  "(double \<Rightarrow> double \<Rightarrow> fval) \<Rightarrow> (fval \<Rightarrow> int) \<Rightarrow> fval \<Rightarrow> fval \<Rightarrow> RobotTelemetrySnapshot \<Rightarrow> RobotTelemetrySnapshot" where
  "onTelemetryBatteryState fl unspec voltage current s =
     s\<lparr>battery_voltage_mv := encodeVoltageMv fl unspec voltage, battery_current_ma := encodeCurrentMa fl unspec current\<rparr>"

definition onTelemetryTemperature ::
  "(double \<Rightarrow> double \<Rightarrow> fval) \<Rightarrow> (fval \<Rightarrow> int) \<Rightarrow> fval \<Rightarrow> RobotTelemetrySnapshot \<Rightarrow> RobotTelemetrySnapshot" where
  "onTelemetryTemperature fl unspec temperature s =
     s\<lparr>battery_temperature_deci_c := encodeTemperatureDeciC fl unspec temperature\<rparr>"

definition onTelemetryDeviceState :: "u8 \<Rightarrow> string \<Rightarrow> RobotTelemetrySnapshot \<Rightarrow> RobotTelemetrySnapshot" where
  "onTelemetryDeviceState error_domain firmware s =
     s\<lparr>fault_code := agvErrorDomainToString error_domain, firmware_version := firmware\<rparr>"

section \<open>Lemmas\<close>

text \<open>What the message says of the joint \<open>nm\<close>: its last entry that has a name and a position.\<close>

definition sample_at :: "(double \<Rightarrow> u32) \<Rightarrow> JointStateMsg \<Rightarrow> nat \<Rightarrow> RobotJointStateSample" where
  "sample_at f32 msg k =
     \<lparr>position_rad = finiteOrZero f32 (js_position msg ! k),
      velocity_rad_s = finiteOrZero f32 (if k < length (js_velocity msg) then js_velocity msg ! k else Some 0),
      effort_nm = finiteOrZero f32 (if k < length (js_effort msg) then js_effort msg ! k else Some 0),
      joint_valid = js_position msg ! k \<noteq> None\<rparr>"

definition last_sample :: "(double \<Rightarrow> u32) \<Rightarrow> JointStateMsg \<Rightarrow> nat \<Rightarrow> string \<Rightarrow> RobotJointStateSample" where
  "last_sample f32 msg n nm =
     (let ks = List.filter (\<lambda>k. js_name msg ! k = nm) [0..<n]
      in if ks = [] then RobotJointStateSample_default else sample_at f32 msg (last ks))"

lemma last_sample_Suc:
  "last_sample f32 msg (Suc n) nm =
     (if js_name msg ! n = nm then sample_at f32 msg n else last_sample f32 msg n nm)"
  by (simp add: last_sample_def Let_def)

lemma joint_names [simp]:
  "length kRobotJointTelemetryJointNames = kRobotJointTelemetryJointCount" "distinct kRobotJointTelemetryJointNames"
  by (simp_all add: kRobotJointTelemetryJointNames_def kRobotJointTelemetryJointCount_def)

lemma exactRobotJointIndex_Some:
  "exactRobotJointIndex nm = Some i \<longleftrightarrow> i < kRobotJointTelemetryJointCount \<and> kRobotJointTelemetryJointNames ! i = nm"
proof
  assume "exactRobotJointIndex nm = Some i"
  then show "i < kRobotJointTelemetryJointCount \<and> kRobotJointTelemetryJointNames ! i = nm"
    using find_if_Some [of "\<lambda>x. nm = x" kRobotJointTelemetryJointNames i] by (auto simp: exactRobotJointIndex_def)
next
  assume i: "i < kRobotJointTelemetryJointCount \<and> kRobotJointTelemetryJointNames ! i = nm"
  then have "exactRobotJointIndex nm \<noteq> None"
    by (auto simp: exactRobotJointIndex_def find_if_None)
  then obtain j where j: "exactRobotJointIndex nm = Some j" by blast
  then have "j < kRobotJointTelemetryJointCount \<and> kRobotJointTelemetryJointNames ! j = nm"
    using find_if_Some [of "\<lambda>x. nm = x" kRobotJointTelemetryJointNames j] by (auto simp: exactRobotJointIndex_def)
  with i have "j = i" using nth_eq_iff_index_eq [OF joint_names(2)] by auto
  with j show "exactRobotJointIndex nm = Some i" by simp
qed

lemma joint_step_other [simp]:
  "rj_version (joint_step f32 msg k s) = rj_version s" "schema_id (joint_step f32 msg k s) = schema_id s"
  "sample_timestamp_ms (joint_step f32 msg k s) = sample_timestamp_ms s"
  "length (joints (joint_step f32 msg k s)) = length (joints s)"
  by (auto simp: joint_step_def setJointSample_def Let_def split: option.splits)

lemma joint_step_nth:
  assumes "length (joints s) = kRobotJointTelemetryJointCount" "i < kRobotJointTelemetryJointCount"
  shows "joints (joint_step f32 msg k s) ! i =
    (if js_name msg ! k = kRobotJointTelemetryJointNames ! i then sample_at f32 msg k else joints s ! i)"
proof (cases "exactRobotJointIndex (js_name msg ! k)")
  case None
  then have "js_name msg ! k \<noteq> kRobotJointTelemetryJointNames ! i"
    using exactRobotJointIndex_Some [of "js_name msg ! k" i] assms(2) by auto
  then show ?thesis using None by (simp add: joint_step_def)
next
  case (Some j)
  then have "j < kRobotJointTelemetryJointCount" "kRobotJointTelemetryJointNames ! j = js_name msg ! k"
    by (simp_all add: exactRobotJointIndex_Some)
  moreover from this have "js_name msg ! k = kRobotJointTelemetryJointNames ! i \<longleftrightarrow> i = j"
    using assms(2) nth_eq_iff_index_eq [OF joint_names(2), of i j] by auto
  ultimately show ?thesis
    using Some assms by (auto simp: joint_step_def setJointSample_def sample_at_def Let_def)
qed

lemma joint_fold:
  assumes "length (joints s) = kRobotJointTelemetryJointCount"
    and "\<And>i. i < kRobotJointTelemetryJointCount \<Longrightarrow> joints s ! i = RobotJointStateSample_default"
  shows "length (joints (fold (joint_step f32 msg) [0..<n] s)) = kRobotJointTelemetryJointCount
    \<and> (\<forall>i<kRobotJointTelemetryJointCount. joints (fold (joint_step f32 msg) [0..<n] s) ! i
        = last_sample f32 msg n (kRobotJointTelemetryJointNames ! i))
    \<and> rj_version (fold (joint_step f32 msg) [0..<n] s) = rj_version s
    \<and> schema_id (fold (joint_step f32 msg) [0..<n] s) = schema_id s
    \<and> sample_timestamp_ms (fold (joint_step f32 msg) [0..<n] s) = sample_timestamp_ms s"
  by (induction n) (use assms in \<open>auto simp: joint_step_nth last_sample_Suc, simp add: last_sample_def\<close>)

lemma onJointState_eq:
  assumes "length (joints s) = kRobotJointTelemetryJointCount"
  shows "onJointState f32 now_ms msg s =
    s\<lparr>sample_timestamp_ms := stampToUnixMs now_ms (js_sec msg) (js_nanosec msg),
      joints := map (last_sample f32 msg (min (length (js_name msg)) (length (js_position msg)))) kRobotJointTelemetryJointNames\<rparr>"
proof -
  let ?n = "min (length (js_name msg)) (length (js_position msg))"
  define s2 where "s2 = s\<lparr>sample_timestamp_ms := stampToUnixMs now_ms (js_sec msg) (js_nanosec msg),
      joints := map (\<lambda>_. RobotJointStateSample_default) (joints s)\<rparr>"
  have e: "onJointState f32 now_ms msg s = fold (joint_step f32 msg) [0..<?n] s2"
    by (simp add: onJointState_def Let_def s2_def)
  have l: "length (joints s2) = kRobotJointTelemetryJointCount"
    using assms by (simp add: s2_def)
  have d: "joints s2 ! i = RobotJointStateSample_default" if "i < kRobotJointTelemetryJointCount" for i
    using assms that by (simp add: s2_def)
  note f = joint_fold [OF l d, of f32 msg ?n]
  have js: "joints (fold (joint_step f32 msg) [0..<?n] s2) = map (last_sample f32 msg ?n) kRobotJointTelemetryJointNames"
    by (rule nth_equalityI) (use f in auto)
  show ?thesis
    unfolding e using f js by (simp add: s2_def RobotJointTelemetrySnapshot.equality)
qed

lemma clampI_id: "lo \<le> v \<Longrightarrow> v \<le> hi \<Longrightarrow> clampI v lo hi = v"
  by (simp add: clampI_def)

lemma llround_near:
  assumes "\<bar>r\<bar> < 2 ^ 62"
  shows "\<bar>of_int (llround unspec (Some r)) - r\<bar> \<le> 1 / 2"
    and "- (2 ^ 63) \<le> llround unspec (Some r)" "llround unspec (Some r) < 2 ^ 63"
proof -
  define n where "n = (if 0 \<le> r then floor (r + 1 / 2) else ceiling (r - 1 / 2))"
  have near: "\<bar>of_int n - r\<bar> \<le> 1 / 2"
  proof (cases "0 \<le> r")
    case True
    then have "of_int n \<le> r + 1 / 2 \<and> r + 1 / 2 < of_int n + 1"
      using floor_correct [of "r + 1 / 2"] by (simp only: n_def if_True of_int_add of_int_1)
    then show ?thesis by linarith
  next
    case False
    then have "of_int n - 1 < r - 1 / 2 \<and> r - 1 / 2 \<le> of_int n"
      using ceiling_correct [of "r - 1 / 2"] by (simp only: n_def if_False)
    then show ?thesis by linarith
  qed
  have "\<bar>r\<bar> < 4611686018427387904" using assms by simp
  then have "(- 9223372036854775808 :: rat) < of_int n" "of_int n < (9223372036854775808 :: rat)"
    using near by linarith+
  then have "(of_int (- 9223372036854775808) :: rat) < of_int n" "of_int n < (of_int 9223372036854775808 :: rat)"
    by simp_all
  then have b: "- (2 ^ 63) \<le> n" "n < 2 ^ 63" unfolding of_int_less_iff by simp_all
  have e: "llround unspec (Some r) = n" unfolding llround_def option.case n_def [symmetric] Let_def using b by simp
  show "\<bar>of_int (llround unspec (Some r)) - r\<bar> \<le> 1 / 2" "- (2 ^ 63) \<le> llround unspec (Some r)" "llround unspec (Some r) < 2 ^ 63"
    unfolding e using near b by auto
qed

section \<open>Properties\<close>

lemma scaled_word:
  assumes "- 32768 \<le> v" "v \<le> 32767"
  shows "sint (of_int v :: u16) = v"
  using assms by (simp add: signed_of_int signed_take_bit_int_eq_self)

text \<open>The battery current on the wire, under exact multiplication: between -32.767 A and 32.767 A it is the
  current in milliamps, to the nearest; a larger current saturates; but a discharge of 32.768 A or
  more is sent as the very value that means unknown.\<close>

theorem battery_current_encoding:
  assumes "\<And>a b. fl a b = Some (a * b)" "\<bar>a\<bar> < 2 ^ 50"
  shows "let mA = a * 1000; enc = encodeCurrentMa fl unspec (Some a)
    in if mA \<le> - 32768 then enc = encodeCurrentMa fl unspec None
       else if 32767 \<le> mA then sint enc = 32767
       else if - 32767 \<le> mA then \<bar>of_int (sint enc) - mA\<bar> \<le> 1 / 2 \<and> enc \<noteq> encodeCurrentMa fl unspec None
       else True"
proof -
  define mA where "mA = a * 1000"
  define n where "n = llround unspec (Some mA)"
  have "\<bar>mA\<bar> < 2 ^ 62" using assms(2) by (simp add: mA_def abs_mult)
  then have near: "\<bar>of_int n - mA\<bar> \<le> 1 / 2" unfolding n_def by (rule llround_near)
  have enc: "encodeCurrentMa fl unspec (Some a) = of_int (clampI n (- 32768) 32767)"
    by (simp add: encodeCurrentMa_def assms(1) mA_def n_def)
  have s: "sint (of_int (clampI n (- 32768) 32767) :: u16) = clampI n (- 32768) 32767"
    using clampI_bounds [of "- 32768" 32767 n] by (intro scaled_word) auto
  have none: "encodeCurrentMa fl unspec None = of_int (- 32768)" by (simp add: encodeCurrentMa_def)
  have low: "n \<le> - 32768" if "mA \<le> - 32768"
  proof -
    have "of_int n < (- 32767 :: rat)" using near that by linarith
    then have "of_int n < (of_int (- 32767) :: rat)" by simp
    then show ?thesis unfolding of_int_less_iff by linarith
  qed
  have high: "32767 \<le> n" if "32767 \<le> mA"
  proof -
    have "(32766 :: rat) < of_int n" using near that by linarith
    then have "(of_int 32766 :: rat) < of_int n" by simp
    then show ?thesis unfolding of_int_less_iff by linarith
  qed
  have mid: "- 32767 \<le> n \<and> n \<le> 32767" if "- 32767 \<le> mA" "mA < 32767"
  proof -
    have "(- 32768 :: rat) < of_int n" "of_int n < (32768 :: rat)" using near that by linarith+
    then have "(of_int (- 32768) :: rat) < of_int n" "of_int n < (of_int 32768 :: rat)" by simp_all
    then show ?thesis unfolding of_int_less_iff by linarith
  qed
  have differs: "(of_int (clampI n (- 32768) 32767) :: u16) \<noteq> of_int (- 32768)" if "- 32767 \<le> n"
  proof
    assume "(of_int (clampI n (- 32768) 32767) :: u16) = of_int (- 32768)"
    then have "clampI n (- 32768) 32767 = - 32768" using s scaled_word [of "- 32768"] by simp
    then show False using that by (simp add: clampI_def split: if_splits)
  qed
  show ?thesis
    unfolding Let_def mA_def [symmetric] enc none s
    using low high mid near differs by (auto simp: clampI_def clampI_id)
qed

theorem battery_current_encoding_witness:
  "encodeCurrentMa (\<lambda>a b. Some (a * b)) (\<lambda>_. 0) (Some (- 40)) = encodeCurrentMa (\<lambda>a b. Some (a * b)) (\<lambda>_. 0) None
    \<and> sint (encodeCurrentMa (\<lambda>a b. Some (a * b)) (\<lambda>_. 0) (Some 40)) = 32767
    \<and> encodeCurrentMa (\<lambda>a b. Some (a * b)) (\<lambda>_. 0) (Some (- 1)) \<noteq> encodeCurrentMa (\<lambda>a b. Some (a * b)) (\<lambda>_. 0) None"
  using battery_current_encoding [of "\<lambda>a b. Some (a * b)" "- 40" "\<lambda>_. 0"]
    battery_current_encoding [of "\<lambda>a b. Some (a * b)" 40 "\<lambda>_. 0"]
    battery_current_encoding [of "\<lambda>a b. Some (a * b)" "- 1" "\<lambda>_. 0"]
  by (simp add: Let_def)

text \<open>C21: From a joint message to the receiver: of the 19 joints of the robot, in the fixed order, the datagram
  carries the last entry of the message with the joint's name, bit for bit, or zeros and not valid
  when the message does not name it; entries of other names, and names without a position, change
  nothing; nothing is left over from an earlier message.\<close>

theorem joint_state_on_the_wire:
  assumes "length (joints s) = kRobotJointTelemetryJointCount"
  shows "parse_joint_telemetry (buildRobotJointTelemetryPacket c h (onJointState f32 now_ms msg s))
    = Some (wire_header c h,
        s\<lparr>sample_timestamp_ms := stampToUnixMs now_ms (js_sec msg) (js_nanosec msg),
          joints := map (last_sample f32 msg (min (length (js_name msg)) (length (js_position msg)))) kRobotJointTelemetryJointNames\<rparr>,
        [])"
proof -
  have wire: "wire_joints js = js" if "length js = kRobotJointTelemetryJointCount" for js
    using that by (intro nth_equalityI) (auto simp: wire_joints_def kRobotJointTelemetryJointCount_def)
  show ?thesis
    unfolding onJointState_eq [OF assms] joint_telemetry_roundtrip by (simp add: wire)
qed

definition sample_joint_msg :: JointStateMsg where
  "sample_joint_msg = \<lparr>js_sec = 5, js_nanosec = 2500000, js_name = [''Head03_Joint'', ''other'', ''Head03_Joint'', ''Head02_Joint''],
     js_position = [Some 1, Some 2, None], js_velocity = [Some 3], js_effort = []\<rparr>"

definition blank_joints :: RobotJointTelemetrySnapshot where
  "blank_joints = \<lparr>rj_version = 1, schema_id = 2, sample_timestamp_ms = 0,
     joints = replicate kRobotJointTelemetryJointCount RobotJointStateSample_default\<rparr>"

theorem joint_state_on_the_wire_witness:
  "case parse_joint_telemetry (buildRobotJointTelemetryPacket (PacketCodec_init 1200)
       \<lparr>t_Type = 6, t_Seq = 1, t_TxTimestampMs = 2, t_SessionId = ''a'', t_DeviceId = ''b''\<rparr>
       (onJointState (\<lambda>x. if x = 1 then 11 else 12) 7 sample_joint_msg blank_joints)) of
     None \<Rightarrow> False
   | Some (h, s, rest) \<Rightarrow> sample_timestamp_ms s = 5002 \<and> rest = []
       \<and> joints s ! 18 = \<lparr>position_rad = 0, velocity_rad_s = 12, effort_nm = 12, joint_valid = False\<rparr>
       \<and> joints s ! 17 = RobotJointStateSample_default"
proof -
  have len: "length (joints blank_joints) = kRobotJointTelemetryJointCount" by (simp add: blank_joints_def)
  have upt: "[0..<3] = [0, 1, 2 :: nat]" by (simp add: upt_rec)
  show ?thesis
    using joint_state_on_the_wire [OF len, of "PacketCodec_init 1200"
        "\<lparr>t_Type = 6, t_Seq = 1, t_TxTimestampMs = 2, t_SessionId = ''a'', t_DeviceId = ''b''\<rparr>"
        "\<lambda>x. if x = 1 then 11 else 12" 7 sample_joint_msg]
    by (simp add: sample_joint_msg_def last_sample_def sample_at_def stampToUnixMs_def kRobotJointTelemetryJointNames_def
        finiteOrZero_def upt nth_Cons')
qed

end
