(* ===== verification/GrpcManager.thy ===== *)
theory GrpcManager
  imports PacketCodec
begin

text \<open>
  \<open>src/src/grpc/grpc_manager.cpp\<close>: the client of the signaling service. The service and the gRPC library are
  not under \<open>src/\<close>: what a call answers is an argument (the record \<open>answer\<close>), what the client sends is an
  output, a \<open>request\<close> with the session id of its metadata. The messages are those of
  \<open>src/proto/signaling.proto\<close>. A call is one step: \<open>RpcScope\<close> enters its context into a set and removes it
  when the call is over, so the set is empty between steps; \<open>late_shutdown\<close> says that the client was shut
  down between the first check and the scope.
\<close>

section \<open>Messages\<close>

text \<open>Of each message the fields this client writes or reads.\<close>

datatype pair_operation = PAIR | UNPAIR
datatype pair_state = REQUEST | PENDING | ACCEPT | REJECT

record runtime_descriptor =
  rt_firmware_version :: "string option"
  rt_software_version :: "string option"
  rt_operating_system :: "string option"
  rt_operating_system_version :: "string option"
  rt_runtime_version :: "string option"
  rt_build_id :: "string option"
  rt_capabilities :: "string list"

record stream_declaration =
  sd_prefix :: u32
  stream_code :: string
  display_name :: string
  description :: string
  stream_class_code :: string
  protocol_code :: string

record StreamConfigItem =
  sci_prefix :: u32
  sci_schema_version :: u32
  sci_payload :: string
  sci_config_id :: string

record UnpairedEndpoint =
  ue_session_id :: string
  ue_device_id :: string
  ue_device_type_code :: string

datatype request =
    Register string runtime_descriptor
  | PairRequest pair_operation string pair_state
  | Subscribe string "u8 list"
  | Unsubscribe string
  | ListUnpaired string
  | PublishStreamManifest "stream_declaration list"
  | GetStreamManifest string
  | PublishStreamConfig u8 u32 string
  | GetStreamConfig string u8
  | GetP2pInfo
  | Ping int
  | EventStream string

type_synonym sent = "(string \<times> request) list"

datatype status_code = OK | NOT_FOUND | UNAUTHENTICATED | PERMISSION_DENIED | OTHER_ERROR nat

record 'r answer =
  late_shutdown :: bool
  rpc_status :: status_code
  rpc_response :: 'r

record RegisterResponse =
  rr_success :: bool
  rr_session_id :: string
  rr_device_type_code :: string

section \<open>State\<close>

record GrpcConfig =
  g_enabled :: bool
  server_grpc_ip :: string
  server_grpc_port :: int
  use_ssl :: bool
  g_device_id :: string
  g_firmware_version :: string
  software_version :: string
  operating_system :: string
  operating_system_version :: string
  runtime_version :: string
  build_id :: string
  capabilities :: "string list"
  rpc_timeout_ms :: int
  register_retry_sec :: double
  heartbeat_sec :: double

text \<open>\<open>event_stream\<close>: the session the running stream thread subscribed for, \<open>None\<close> when no thread runs;
  \<open>stream_running\<close> is the flag its loop tests.\<close>

record GrpcManager =
  gm_config :: GrpcConfig
  gm_stub :: bool
  gm_session_id :: string
  gm_device_type_code :: string
  gm_shutting_down :: bool
  stream_running :: bool
  event_stream :: "string option"
  stream_callback :: bool
  stream_end_callback :: bool

definition deadlineMs :: "GrpcConfig \<Rightarrow> int" where
  "deadlineMs c = max 1 (rpc_timeout_ms c)"

definition int_digits :: "int \<Rightarrow> string" where
  "int_digits i = (if i < 0 then CHR ''-'' # nat_digits (nat (- i)) else nat_digits (nat i))"

definition BuildTarget :: "GrpcConfig \<Rightarrow> string" where
  "BuildTarget c = server_grpc_ip c @ '':'' @ int_digits (server_grpc_port c)"

text \<open>\<open>CreateChannel\<close>: the target, the value \<open>no_proxy\<close> and \<open>NO_PROXY\<close> are set to, whether SSL is used.\<close>

definition CreateChannel :: "string option \<Rightarrow> GrpcConfig \<Rightarrow> string \<times> string \<times> bool" where
  "CreateChannel existing_no_proxy c =
     (let prefix = (case existing_no_proxy of None \<Rightarrow> [] | Some v \<Rightarrow> v @ '','')
      in (BuildTarget c, prefix @ server_grpc_ip c, use_ssl c))"

definition GrpcManager_init :: "GrpcConfig \<Rightarrow> GrpcManager" where
  "GrpcManager_init c = \<lparr>gm_config = c, gm_stub = True, gm_session_id = [], gm_device_type_code = [],
     gm_shutting_down = False, stream_running = False, event_stream = None, stream_callback = False,
     stream_end_callback = False\<rparr>"

section \<open>Calls\<close>

definition not_empty :: "string \<Rightarrow> string option" where
  "not_empty s = (if s = [] then None else Some s)"

definition runtime_of :: "GrpcConfig \<Rightarrow> runtime_descriptor" where
  "runtime_of c = \<lparr>rt_firmware_version = not_empty (g_firmware_version c), rt_software_version = not_empty (software_version c),
     rt_operating_system = not_empty (operating_system c), rt_operating_system_version = not_empty (operating_system_version c),
     rt_runtime_version = not_empty (runtime_version c), rt_build_id = not_empty (build_id c),
     rt_capabilities = filter (\<lambda>s. s \<noteq> []) (capabilities c)\<rparr>"

definition gm_Register :: "RegisterResponse answer \<Rightarrow> GrpcManager \<Rightarrow> bool \<times> sent \<times> GrpcManager" where
  "gm_Register a m =
     (if \<not> gm_stub m \<or> gm_shutting_down m then (False, [], m)
      else if late_shutdown a then (False, [], m)
      else (let out = [([], Register (g_device_id (gm_config m)) (runtime_of (gm_config m)))]
            in if rpc_status a \<noteq> OK then (False, out, m)
               else if \<not> rr_success (rpc_response a) then (False, out, m)
               else (True, out, m\<lparr>gm_session_id := rr_session_id (rpc_response a),
                      gm_device_type_code := rr_device_type_code (rpc_response a)\<rparr>)))"

text \<open>The two checks before every other call, and the metadata it carries: \<open>rpc m a req\<close> is what is sent.\<close>

definition rpc :: "GrpcManager \<Rightarrow> 'r answer \<Rightarrow> request \<Rightarrow> sent" where
  "rpc m a req = (if \<not> gm_stub m \<or> gm_session_id m = [] \<or> gm_shutting_down m then []
     else if late_shutdown a then [] else [(gm_session_id m, req)])"

definition gm_Pair :: "pair_operation \<Rightarrow> string \<Rightarrow> pair_state \<Rightarrow> bool answer \<Rightarrow> GrpcManager \<Rightarrow> bool \<times> sent" where
  "gm_Pair op peer st a m =
     (let out = rpc m a (PairRequest op peer st)
      in if out = [] then (False, []) else if rpc_status a \<noteq> OK then (False, out) else (rpc_response a, out))"

definition RequestPair :: "string \<Rightarrow> bool answer \<Rightarrow> GrpcManager \<Rightarrow> bool \<times> sent" where
  "RequestPair peer = gm_Pair PAIR peer REQUEST"

definition AcceptPair :: "string \<Rightarrow> bool answer \<Rightarrow> GrpcManager \<Rightarrow> bool \<times> sent" where
  "AcceptPair peer = gm_Pair PAIR peer ACCEPT"

definition RejectPair :: "string \<Rightarrow> bool answer \<Rightarrow> GrpcManager \<Rightarrow> bool \<times> sent" where
  "RejectPair peer = gm_Pair PAIR peer REJECT"

definition gm_Unpair :: "string \<Rightarrow> bool answer \<Rightarrow> GrpcManager \<Rightarrow> bool \<times> sent" where
  "gm_Unpair peer = gm_Pair UNPAIR peer REQUEST"

definition gm_Subscribe :: "string \<Rightarrow> u8 list \<Rightarrow> bool answer \<Rightarrow> GrpcManager \<Rightarrow> bool \<times> sent" where
  "gm_Subscribe publisher prefixes a m =
     (let out = rpc m a (Subscribe publisher prefixes)
      in if out = [] then (False, []) else if rpc_status a \<noteq> OK then (False, out) else (rpc_response a, out))"

definition gm_Unsubscribe :: "string \<Rightarrow> bool answer \<Rightarrow> GrpcManager \<Rightarrow> bool \<times> sent" where
  "gm_Unsubscribe publisher a m =
     (let out = rpc m a (Unsubscribe publisher)
      in if out = [] then (False, []) else if rpc_status a \<noteq> OK then (False, out) else (rpc_response a, out))"

definition gm_ListUnpaired ::
  "string \<Rightarrow> (bool \<times> UnpairedEndpoint list) answer \<Rightarrow> GrpcManager \<Rightarrow> UnpairedEndpoint list \<times> sent" where
  "gm_ListUnpaired desired a m =
     (let out = rpc m a (ListUnpaired desired)
      in if out = [] then ([], []) else if rpc_status a \<noteq> OK then ([], out)
         else if \<not> fst (rpc_response a) then ([], out) else (snd (rpc_response a), out))"

definition gm_PublishStreamManifest :: "stream_declaration list \<Rightarrow> bool answer \<Rightarrow> GrpcManager \<Rightarrow> bool \<times> sent" where
  "gm_PublishStreamManifest streams a m =
     (let out = rpc m a (PublishStreamManifest streams)
      in if out = [] then (False, []) else if rpc_status a \<noteq> OK then (False, out) else (rpc_response a, out))"

text \<open>The manifest is the list of the prefixes of its items; \<open>None\<close> for a failed call.\<close>

definition gm_GetStreamManifest :: "string \<Rightarrow> u32 list answer \<Rightarrow> GrpcManager \<Rightarrow> u32 list option \<times> sent" where
  "gm_GetStreamManifest publisher a m =
     (let out = rpc m a (GetStreamManifest publisher)
      in if out = [] then (None, []) else if rpc_status a \<noteq> OK then (None, out) else (Some (rpc_response a), out))"

text \<open>The answer of a publication: success, and whether it has the item.\<close>

definition gm_PublishStreamConfig :: "u8 \<Rightarrow> u32 \<Rightarrow> string \<Rightarrow> (bool \<times> bool) answer \<Rightarrow> GrpcManager \<Rightarrow> bool \<times> sent" where
  "gm_PublishStreamConfig prefix schema_version payload a m =
     (let out = rpc m a (PublishStreamConfig prefix schema_version payload)
      in if out = [] then (False, []) else if rpc_status a \<noteq> OK then (False, out)
         else if \<not> fst (rpc_response a) \<or> \<not> snd (rpc_response a) then (False, out) else (True, out))"

definition gm_GetStreamConfig :: "string \<Rightarrow> u8 \<Rightarrow> StreamConfigItem answer \<Rightarrow> GrpcManager \<Rightarrow> StreamConfigItem option \<times> sent" where
  "gm_GetStreamConfig publisher prefix a m =
     (let out = rpc m a (GetStreamConfig publisher prefix)
      in if out = [] then (None, []) else if rpc_status a \<noteq> OK then (None, out) else (Some (rpc_response a), out))"

definition gm_GetP2pInfo :: "bool answer \<Rightarrow> GrpcManager \<Rightarrow> bool \<times> sent" where
  "gm_GetP2pInfo a m =
     (let out = rpc m a GetP2pInfo
      in if out = [] then (False, []) else if rpc_status a \<noteq> OK then (False, out) else (rpc_response a, out))"

datatype HeartbeatResult = kOk | kSessionInvalid | kTransportError

definition gm_Heartbeat :: "int \<Rightarrow> unit answer \<Rightarrow> GrpcManager \<Rightarrow> HeartbeatResult \<times> sent" where
  "gm_Heartbeat now_ms a m =
     (if \<not> gm_stub m \<or> gm_session_id m = [] \<or> gm_shutting_down m then (kSessionInvalid, [])
      else if late_shutdown a then (kTransportError, [])
      else (case rpc_status a of
              OK \<Rightarrow> (kOk, [(gm_session_id m, Ping now_ms)])
            | NOT_FOUND \<Rightarrow> (kSessionInvalid, [(gm_session_id m, Ping now_ms)])
            | UNAUTHENTICATED \<Rightarrow> (kSessionInvalid, [(gm_session_id m, Ping now_ms)])
            | PERMISSION_DENIED \<Rightarrow> (kSessionInvalid, [(gm_session_id m, Ping now_ms)])
            | OTHER_ERROR c \<Rightarrow> (kTransportError, [(gm_session_id m, Ping now_ms)])))"

section \<open>Event stream and shutdown\<close>

definition StartEventStream :: "GrpcManager \<Rightarrow> sent \<times> GrpcManager" where
  "StartEventStream m =
     (if \<not> gm_stub m \<or> gm_session_id m = [] \<or> gm_shutting_down m then ([], m)
      else if stream_running m then ([], m)
      else ([(gm_session_id m, EventStream (gm_session_id m))],
            m\<lparr>stream_running := True, event_stream := Some (gm_session_id m), stream_callback := True, stream_end_callback := True\<rparr>))"

text \<open>One message read by the thread (whether it reaches the callback), and the end of its loop (whether the
  end callback is called: only when nobody stopped the stream).\<close>

definition stream_read :: "GrpcManager \<Rightarrow> bool" where
  "stream_read m = (event_stream m \<noteq> None \<and> stream_running m \<and> stream_callback m)"

definition stream_finish :: "GrpcManager \<Rightarrow> bool \<times> GrpcManager" where
  "stream_finish m = (stream_running m \<and> stream_end_callback m, m\<lparr>stream_running := False, event_stream := None\<rparr>)"

definition StopEventStream :: "GrpcManager \<Rightarrow> GrpcManager" where
  "StopEventStream m = m\<lparr>stream_running := False, event_stream := None, stream_callback := False, stream_end_callback := False\<rparr>"

definition CancelPendingRpcs :: "GrpcManager \<Rightarrow> GrpcManager" where
  "CancelPendingRpcs m = m\<lparr>gm_shutting_down := True\<rparr>"

section \<open>What every call keeps to\<close>

lemma rpc_sent: "rpc m a req \<noteq> [] \<longleftrightarrow> gm_stub m \<and> gm_session_id m \<noteq> [] \<and> \<not> gm_shutting_down m \<and> \<not> late_shutdown a"
  by (simp add: rpc_def)

lemma rpc_metadata: "set (rpc m a req) \<subseteq> {(gm_session_id m, req)}"
  by (simp add: rpc_def)

lemma gm_Register_fields [simp]:
  "gm_shutting_down (snd (snd (gm_Register a m))) = gm_shutting_down m" "gm_config (snd (snd (gm_Register a m))) = gm_config m"
  "gm_stub (snd (snd (gm_Register a m))) = gm_stub m" "stream_running (snd (snd (gm_Register a m))) = stream_running m"
  by (simp_all add: gm_Register_def Let_def)

end
