(* ===== verification/GrpcModule.thy ===== *)
theory GrpcModule
  imports GrpcManager UdpModule "HOL-Library.Sublist"
begin

text \<open>
  \<open>src/src/grpc/grpc_module.cpp\<close>: registration with retries, the heartbeat and what follows when it fails, the
  event stream, and the publication and reading of stream manifests and stream configurations. The node's
  callbacks are outputs; the answers of the service and of ROS (is the context valid, could the timer be made
  or reset) are arguments. A timer is \<open>Some True\<close> when it runs and \<open>Some False\<close> when it is cancelled. The
  protobuf library's JSON printer and parser and OpenSSL's base64 encoder are arguments.
\<close>

section \<open>Constants and configuration\<close>

definition kMaxTransientHeartbeatFailuresBeforeReregister :: u32 where "kMaxTransientHeartbeatFailuresBeforeReregister = 3"
definition kVideoPrefix :: u8 where "kVideoPrefix = 0x01"
definition kAudioPrefix :: u8 where "kAudioPrefix = 0x04"
definition kLowRateTelemetryPrefix :: u8 where "kLowRateTelemetryPrefix = 0x05"
definition kHighRateTelemetryPrefix :: u8 where "kHighRateTelemetryPrefix = 0x06"
definition kMediaConfigSchemaVersion :: u32 where "kMediaConfigSchemaVersion = 1"

definition periodFromSeconds :: "(double \<Rightarrow> double) \<Rightarrow> double \<Rightarrow> int" where
  "periodFromSeconds fl seconds = truncD (fl (max (1 / 1000) seconds * 1000000000))"

definition heartbeatPeriodFromSeconds :: "(double \<Rightarrow> double) \<Rightarrow> double \<Rightarrow> int" where
  "heartbeatPeriodFromSeconds fl seconds =
     (let bounded_seconds = max (1 / 1000) seconds;
          margin_seconds = min 2 (fl (bounded_seconds * (1 / 5)));
          effective_seconds = max (1 / 1000) (fl (bounded_seconds - margin_seconds))
      in truncD (fl (effective_seconds * 1000000000)))"

definition hex_upper :: "nat \<Rightarrow> char" where
  "hex_upper d = (if d < 10 then char_of (48 + d) else char_of (55 + d))"

definition bytesPreview :: "bytes \<Rightarrow> string" where
  "bytesPreview b = concat (map (\<lambda>x. [hex_upper (unat x div 16), hex_upper (unat x mod 16), CHR '' '']) (take (min (length b) 32) b))
     @ (if min (length b) 32 < length b then ''...'' else [])"

text \<open>\<open>EVP_EncodeBlock\<close> answers the buffer it wrote and how many characters that were.\<close>

definition base64Encode :: "(bytes \<Rightarrow> string \<times> int) \<Rightarrow> bytes \<Rightarrow> string" where
  "base64Encode encode_block b =
     (if b = [] then []
      else (case encode_block b of (encoded, written) \<Rightarrow> if written \<le> 0 then [] else take (nat written) encoded))"

definition grpc_configFromRosParam :: "(string \<Rightarrow> string list option) \<Rightarrow> params \<Rightarrow> GrpcConfig" where
  "grpc_configFromRosParam par_strings p =
     (let b = declareOrGet (par_bool p); i = declareOrGet (par_int p); d = declareOrGet (par_double p);
          s = declareOrGet (par_string p)
      in \<lparr>g_enabled = b ''grpc.enabled'' True, server_grpc_ip = s ''grpc.server_grpc_ip'' [],
          server_grpc_port = i ''grpc.server_grpc_port'' 0, use_ssl = b ''grpc.use_ssl'' False,
          g_device_id = s ''grpc.device_id'' [], g_firmware_version = s ''grpc.runtime.firmware_version'' [],
          software_version = s ''grpc.runtime.software_version'' ''teleop_robot_bridge'',
          operating_system = s ''grpc.runtime.operating_system'' ''Linux'',
          operating_system_version = s ''grpc.runtime.operating_system_version'' [],
          runtime_version = s ''grpc.runtime.runtime_version'' ''ROS 2'', build_id = s ''grpc.runtime.build_id'' [],
          capabilities = declareOrGet par_strings ''grpc.runtime.capabilities'' [''publisher_streams''],
          rpc_timeout_ms = i ''grpc.rpc_timeout_ms'' 5000, register_retry_sec = d ''grpc.register_retry_sec'' 3,
          heartbeat_sec = d ''grpc.heartbeat_sec'' 15\<rparr>)"

record GrpcAudioConfig =
  ga_sample_rate :: u32
  ga_channels :: u32
  ga_frame_duration_ms :: u32
  ga_samples_per_channel :: u32
  ga_bitrate_bps :: u32
  ga_opus_inband_fec_enabled :: bool
  ga_opus_dtx_enabled :: bool

definition audioConfigFromRosParam :: "params \<Rightarrow> GrpcAudioConfig" where
  "audioConfigFromRosParam p =
     (let b = declareOrGet (par_bool p); i = declareOrGet (par_int p)
      in \<lparr>ga_sample_rate = of_int (max 1 (i ''audio.sample_rate'' 48000)), ga_channels = of_int (max 1 (i ''audio.channels'' 1)),
          ga_frame_duration_ms = of_int (max 1 (i ''audio.frame_duration_ms'' 20)),
          ga_samples_per_channel = of_int (max 1 (i ''audio.samples_per_channel'' 960)),
          ga_bitrate_bps = of_int (max 1 (i ''audio.bitrate_bps'' 64000)),
          ga_opus_inband_fec_enabled = b ''audio.opus_inband_fec_enabled'' True,
          ga_opus_dtx_enabled = b ''audio.opus_dtx_enabled'' False\<rparr>)"

section \<open>State and lifecycle\<close>

record GrpcModule =
  gr_config :: GrpcConfig
  gr_manager :: "GrpcManager option"
  gr_registered :: bool
  gr_shutting_down :: bool
  heartbeat_failures :: u32
  register_retry_timer :: "bool option"
  heartbeat_timer :: "bool option"
  on_registered :: bool
  on_event :: bool
  on_heartbeat_fail :: bool
  on_stream_end :: bool

datatype grpc_output =
    Sent string request
  | On_registered
  | On_event
  | On_heartbeat_fail
  | On_stream_end

definition sends :: "sent \<Rightarrow> grpc_output list" where
  "sends = map (\<lambda>(sid, req). Sent sid req)"

definition GrpcModule_init :: "GrpcConfig \<Rightarrow> GrpcModule" where
  "GrpcModule_init c = \<lparr>gr_config = c, gr_manager = Some (GrpcManager_init c), gr_registered = False, gr_shutting_down = False,
     heartbeat_failures = 0, register_retry_timer = None, heartbeat_timer = None, on_registered = False, on_event = False,
     on_heartbeat_fail = False, on_stream_end = False\<rparr>"

definition gr_setCallbacks :: "bool \<Rightarrow> bool \<Rightarrow> bool \<Rightarrow> bool \<Rightarrow> GrpcModule \<Rightarrow> GrpcModule" where
  "gr_setCallbacks r e h s g = g\<lparr>on_registered := r, on_event := e, on_heartbeat_fail := h, on_stream_end := s\<rparr>"

record genv =
  genv_context_valid :: bool
  genv_timer_ok :: bool

definition startRegisterRetryTimer :: "genv \<Rightarrow> GrpcModule \<Rightarrow> GrpcModule" where
  "startRegisterRetryTimer e g =
     (if gr_shutting_down g \<or> \<not> genv_context_valid e then g
      else if genv_timer_ok e then g\<lparr>register_retry_timer := Some True\<rparr> else g)"

definition startHeartbeatTimer :: "genv \<Rightarrow> GrpcModule \<Rightarrow> GrpcModule" where
  "startHeartbeatTimer e g =
     (if gr_shutting_down g \<or> \<not> genv_context_valid e then g
      else if genv_timer_ok e then g\<lparr>heartbeat_timer := Some True\<rparr> else g)"

definition tryRegister :: "genv \<Rightarrow> RegisterResponse answer \<Rightarrow> GrpcModule \<Rightarrow> grpc_output list \<times> GrpcModule" where
  "tryRegister e a g =
     (case gr_manager g of
        None \<Rightarrow> ([], g)
      | Some m \<Rightarrow>
          if gr_shutting_down g \<or> gr_registered g then ([], g)
          else (case gm_Register a m of (ok, out, m1) \<Rightarrow>
                (let g1 = g\<lparr>gr_manager := Some m1\<rparr>
                 in if \<not> ok then (sends out, g1)
                    else (let g2 = g1\<lparr>gr_registered := True, heartbeat_failures := 0,
                                register_retry_timer := map_option (\<lambda>_. False) (register_retry_timer g1)\<rparr>;
                              g3 = startHeartbeatTimer e g2
                          in (sends out @ (if on_registered g3 then [On_registered] else []), g3)))))"

definition gr_start :: "genv \<Rightarrow> RegisterResponse answer \<Rightarrow> GrpcModule \<Rightarrow> grpc_output list \<times> GrpcModule" where
  "gr_start e a g =
     (let g1 = g\<lparr>gr_shutting_down := False\<rparr>
      in if \<not> g_enabled (gr_config g1) then ([], g1\<lparr>gr_registered := False\<rparr>)
         else (case tryRegister e a g1 of (out, g2) \<Rightarrow>
                (out, if \<not> gr_registered g2 then startRegisterRetryTimer e g2 else g2)))"

definition gr_stop :: "GrpcModule \<Rightarrow> GrpcModule" where
  "gr_stop g = g\<lparr>gr_shutting_down := True, on_registered := False, on_event := False, on_heartbeat_fail := False,
     on_stream_end := False, register_retry_timer := None, heartbeat_timer := None,
     gr_manager := map_option (\<lambda>m. StopEventStream (CancelPendingRpcs m)) (gr_manager g),
     gr_registered := False, heartbeat_failures := 0\<rparr>"

definition gr_sessionId :: "GrpcModule \<Rightarrow> string" where
  "gr_sessionId g = (case gr_manager g of None \<Rightarrow> [] | Some m \<Rightarrow> gm_session_id m)"

definition gr_deviceTypeCode :: "GrpcModule \<Rightarrow> string" where
  "gr_deviceTypeCode g = (case gr_manager g of None \<Rightarrow> [] | Some m \<Rightarrow> gm_device_type_code m)"

definition onRegisterRetry :: "genv \<Rightarrow> RegisterResponse answer \<Rightarrow> GrpcModule \<Rightarrow> grpc_output list \<times> GrpcModule" where
  "onRegisterRetry e a g = (if gr_shutting_down g then ([], g) else tryRegister e a g)"

text \<open>The end of \<open>onHeartbeat\<close> when the session is given up.\<close>

definition give_up_session :: "genv \<Rightarrow> GrpcModule \<Rightarrow> grpc_output list \<times> GrpcModule" where
  "give_up_session e g =
     (let g1 = g\<lparr>heartbeat_failures := 0, gr_registered := False, gr_manager := map_option StopEventStream (gr_manager g),
                heartbeat_timer := map_option (\<lambda>_. False) (heartbeat_timer g)\<rparr>
      in (if on_heartbeat_fail g1 then [On_heartbeat_fail] else [], startRegisterRetryTimer e g1))"

definition onHeartbeat :: "genv \<Rightarrow> int \<Rightarrow> unit answer \<Rightarrow> GrpcModule \<Rightarrow> grpc_output list \<times> GrpcModule" where
  "onHeartbeat e now_ms a g =
     (case gr_manager g of
        None \<Rightarrow> ([], g)
      | Some m \<Rightarrow>
          if gr_shutting_down g \<or> \<not> gr_registered g then ([], g)
          else (case gm_Heartbeat now_ms a m of (res, out) \<Rightarrow>
                (case res of
                   kOk \<Rightarrow> (sends out, g\<lparr>heartbeat_failures := 0\<rparr>)
                 | kTransportError \<Rightarrow>
                     (let g1 = g\<lparr>heartbeat_failures := heartbeat_failures g + 1\<rparr>
                      in if heartbeat_failures g1 < kMaxTransientHeartbeatFailuresBeforeReregister then (sends out, g1)
                         else (case give_up_session e g1 of (o2, g2) \<Rightarrow> (sends out @ o2, g2)))
                 | kSessionInvalid \<Rightarrow> (case give_up_session e g of (o2, g2) \<Rightarrow> (sends out @ o2, g2)))))"

section \<open>Event stream\<close>

definition startEventStream :: "GrpcModule \<Rightarrow> grpc_output list \<times> GrpcModule" where
  "startEventStream g =
     (case gr_manager g of
        None \<Rightarrow> ([], g)
      | Some m \<Rightarrow> if gr_shutting_down g then ([], g)
                  else (case StartEventStream m of (out, m1) \<Rightarrow> (sends out, g\<lparr>gr_manager := Some m1\<rparr>)))"

text \<open>A message of the stream, and its end, as the callbacks the module passed see them.\<close>

definition gr_event :: "GrpcModule \<Rightarrow> grpc_output list" where
  "gr_event g = (case gr_manager g of
      None \<Rightarrow> []
    | Some m \<Rightarrow> if stream_read m \<and> \<not> gr_shutting_down g \<and> on_event g then [On_event] else [])"

definition gr_stream_end :: "GrpcModule \<Rightarrow> grpc_output list \<times> GrpcModule" where
  "gr_stream_end g = (case gr_manager g of
      None \<Rightarrow> ([], g)
    | Some m \<Rightarrow> (case stream_finish m of (unexpected, m1) \<Rightarrow>
        (if unexpected \<and> \<not> gr_shutting_down g \<and> on_stream_end g then [On_stream_end] else [], g\<lparr>gr_manager := Some m1\<rparr>)))"

section \<open>Pairing and subscriptions\<close>

definition with_gm :: "(GrpcManager \<Rightarrow> 'a \<times> sent) \<Rightarrow> 'a \<Rightarrow> GrpcModule \<Rightarrow> 'a \<times> sent" where
  "with_gm f d g = (case gr_manager g of None \<Rightarrow> (d, []) | Some m \<Rightarrow> f m)"

definition gr_requestPair :: "string \<Rightarrow> bool answer \<Rightarrow> GrpcModule \<Rightarrow> bool \<times> sent" where
  "gr_requestPair peer a = with_gm (RequestPair peer a) False"

definition gr_acceptPair :: "string \<Rightarrow> bool answer \<Rightarrow> GrpcModule \<Rightarrow> bool \<times> sent" where
  "gr_acceptPair peer a = with_gm (AcceptPair peer a) False"

definition gr_rejectPair :: "string \<Rightarrow> bool answer \<Rightarrow> GrpcModule \<Rightarrow> bool \<times> sent" where
  "gr_rejectPair peer a = with_gm (RejectPair peer a) False"

definition gr_unpair :: "string \<Rightarrow> bool answer \<Rightarrow> GrpcModule \<Rightarrow> bool \<times> sent" where
  "gr_unpair peer a = with_gm (gm_Unpair peer a) False"

definition gr_subscribe :: "string \<Rightarrow> u8 list \<Rightarrow> bool answer \<Rightarrow> GrpcModule \<Rightarrow> bool \<times> sent" where
  "gr_subscribe publisher ps a = with_gm (gm_Subscribe publisher ps a) False"

definition gr_unsubscribe :: "string \<Rightarrow> bool answer \<Rightarrow> GrpcModule \<Rightarrow> bool \<times> sent" where
  "gr_unsubscribe publisher a = with_gm (gm_Unsubscribe publisher a) False"

definition gr_listUnpaired ::
  "string \<Rightarrow> (bool \<times> UnpairedEndpoint list) answer \<Rightarrow> GrpcModule \<Rightarrow> UnpairedEndpoint list \<times> sent" where
  "gr_listUnpaired desired a = with_gm (gm_ListUnpaired desired a) []"

text \<open>\<open>std::unique\<close> on the sorted vector; the result is what the call leaves in \<open>prefixes\<close>.\<close>

fun unique :: "u8 list \<Rightarrow> u8 list" where
  "unique (x # y # zs) = (if x = y then unique (x # zs) else x # unique (y # zs))"
| "unique xs = xs"

definition getStreamPrefixes :: "string \<Rightarrow> u32 list answer \<Rightarrow> GrpcModule \<Rightarrow> (bool \<times> u8 list) \<times> sent" where
  "getStreamPrefixes publisher a g =
     (case with_gm (gm_GetStreamManifest publisher a) None g of
        (None, out) \<Rightarrow> ((False, []), out)
      | (Some items, out) \<Rightarrow> ((True, unique (sort (map ucast (filter (\<lambda>p. p \<le> 0xFF) items)))), out))"

definition robot_streams :: "bool \<Rightarrow> bool \<Rightarrow> bool \<Rightarrow> stream_declaration list" where
  "robot_streams audio_enabled low_rate high_rate =
     [\<lparr>sd_prefix = ucast kVideoPrefix, stream_code = ''video'', display_name = ''Robot Video'',
       description = ''Encoded robot camera video'', stream_class_code = ''video'', protocol_code = ''video''\<rparr>]
     @ (if audio_enabled then [\<lparr>sd_prefix = ucast kAudioPrefix, stream_code = ''audio_opus'', display_name = ''Robot Audio'',
       description = ''Opus robot audio'', stream_class_code = ''audio'', protocol_code = ''audio_opus''\<rparr>] else [])
     @ (if low_rate then [\<lparr>sd_prefix = ucast kLowRateTelemetryPrefix, stream_code = ''robot_telemetry_low_rate'',
       display_name = ''Robot Telemetry'', description = ''Low-rate robot state snapshot'', stream_class_code = ''telemetry'',
       protocol_code = ''robot_telemetry_low_rate''\<rparr>] else [])
     @ (if high_rate then [\<lparr>sd_prefix = ucast kHighRateTelemetryPrefix, stream_code = ''robot_joint_telemetry_high_rate'',
       display_name = ''Robot Joint Telemetry'', description = ''High-rate robot joint state'', stream_class_code = ''telemetry'',
       protocol_code = ''robot_joint_telemetry_high_rate''\<rparr>] else [])"

definition publishRobotStreamManifest :: "bool \<Rightarrow> bool \<Rightarrow> bool \<Rightarrow> bool answer \<Rightarrow> GrpcModule \<Rightarrow> bool \<times> sent" where
  "publishRobotStreamManifest audio_enabled low_rate high_rate a =
     with_gm (gm_PublishStreamManifest (robot_streams audio_enabled low_rate high_rate) a) False"

section \<open>Stream configurations\<close>

text \<open>A protobuf \<open>Struct\<close>: fields with values. Numbers are doubles, \<open>None\<close> one that is not finite.\<close>

datatype jvalue = JString string | JNumber "double option" | JBool bool | JStruct "(string \<times> jvalue) list"

type_synonym document = "(string \<times> jvalue) list"

definition findJsonField :: "document \<Rightarrow> string \<Rightarrow> jvalue option" where
  "findJsonField doc name = map_of doc name"

definition readJsonString :: "document \<Rightarrow> string \<Rightarrow> string option" where
  "readJsonString doc name = (case findJsonField doc name of Some (JString s) \<Rightarrow> Some s | _ \<Rightarrow> None)"

definition readJsonUint32 :: "document \<Rightarrow> string \<Rightarrow> u32 option" where
  "readJsonUint32 doc name =
     (case findJsonField doc name of
        Some (JNumber (Some number)) \<Rightarrow>
          if number \<le> 0 \<or> 4294967295 < number \<or> of_int (floor number) \<noteq> number then None
          else Some (of_int (floor number))
      | _ \<Rightarrow> None)"

definition readJsonBool :: "document \<Rightarrow> string \<Rightarrow> bool option" where
  "readJsonBool doc name = (case findJsonField doc name of Some (JBool b) \<Rightarrow> Some b | _ \<Rightarrow> None)"

datatype Codec = kH264 | kH265

definition video_document ::
  "(bytes \<Rightarrow> string \<times> int) \<Rightarrow> u32 \<Rightarrow> u32 \<Rightarrow> u32 \<Rightarrow> Codec \<Rightarrow> bytes \<Rightarrow> bytes \<Rightarrow> bytes
    \<Rightarrow> (double option \<times> double option \<times> double option) option \<Rightarrow> document" where
  "video_document encode_block width height fps codec sps pps vps fov =
     [(''codec'', JString (if codec = kH265 then ''H265'' else ''H264'')),
      (''width'', JNumber (Some (of_nat (unat width)))), (''height'', JNumber (Some (of_nat (unat height)))),
      (''fps'', JNumber (Some (of_nat (unat fps)))), (''sps'', JString (base64Encode encode_block sps)),
      (''pps'', JString (base64Encode encode_block pps)), (''vps'', JString (base64Encode encode_block vps))]
     @ (case fov of None \<Rightarrow> [] | Some (h, v, d) \<Rightarrow>
         [(''fov'', JStruct [(''hfov'', JNumber h), (''vfov'', JNumber v), (''dfov'', JNumber d)])])"

definition publishVideoConfig ::
  "(document \<Rightarrow> string option) \<Rightarrow> (bytes \<Rightarrow> string \<times> int) \<Rightarrow> u32 \<Rightarrow> u32 \<Rightarrow> u32 \<Rightarrow> Codec \<Rightarrow> bytes \<Rightarrow> bytes \<Rightarrow> bytes
    \<Rightarrow> (double option \<times> double option \<times> double option) option \<Rightarrow> (bool \<times> bool) answer \<Rightarrow> GrpcModule \<Rightarrow> bool \<times> sent" where
  "publishVideoConfig to_json encode_block width height fps codec sps pps vps fov a g =
     (if gr_manager g = None then (False, [])
      else if codec = kH265 \<and> vps = [] then (False, [])
      else (case to_json (video_document encode_block width height fps codec sps pps vps fov) of
              None \<Rightarrow> (False, [])
            | Some payload \<Rightarrow>
                with_gm (gm_PublishStreamConfig kVideoPrefix kMediaConfigSchemaVersion payload a) False g))"

definition audio_document :: "GrpcAudioConfig \<Rightarrow> document" where
  "audio_document c =
     [(''codec'', JString ''OPUS''), (''sample_rate'', JNumber (Some (of_nat (unat (ga_sample_rate c))))),
      (''channels'', JNumber (Some (of_nat (unat (ga_channels c))))),
      (''frame_duration_ms'', JNumber (Some (of_nat (unat (ga_frame_duration_ms c))))),
      (''samples_per_channel'', JNumber (Some (of_nat (unat (ga_samples_per_channel c))))),
      (''bitrate_bps'', JNumber (Some (of_nat (unat (ga_bitrate_bps c))))),
      (''opus_inband_fec_enabled'', JBool (ga_opus_inband_fec_enabled c)), (''opus_dtx_enabled'', JBool (ga_opus_dtx_enabled c))]"

definition publishAudioConfig ::
  "(document \<Rightarrow> string option) \<Rightarrow> GrpcAudioConfig \<Rightarrow> (bool \<times> bool) answer \<Rightarrow> GrpcModule \<Rightarrow> bool \<times> sent" where
  "publishAudioConfig to_json c a g =
     (if gr_manager g = None then (False, [])
      else (case to_json (audio_document c) of
              None \<Rightarrow> (False, [])
            | Some payload \<Rightarrow>
                with_gm (gm_PublishStreamConfig kAudioPrefix kMediaConfigSchemaVersion payload a) False g))"

text \<open>The fields are read one after the other into the caller's configuration, up to the first that is missing.\<close>

definition read_u32 ::
  "document \<Rightarrow> string \<Rightarrow> (u32 \<Rightarrow> GrpcAudioConfig \<Rightarrow> GrpcAudioConfig) \<Rightarrow> bool \<times> GrpcAudioConfig \<Rightarrow> bool \<times> GrpcAudioConfig" where
  "read_u32 doc name upd x = (if \<not> fst x then x
     else (case readJsonUint32 doc name of None \<Rightarrow> (False, snd x) | Some v \<Rightarrow> (True, upd v (snd x))))"

definition read_bool ::
  "document \<Rightarrow> string \<Rightarrow> (bool \<Rightarrow> GrpcAudioConfig \<Rightarrow> GrpcAudioConfig) \<Rightarrow> bool \<times> GrpcAudioConfig \<Rightarrow> bool \<times> GrpcAudioConfig" where
  "read_bool doc name upd x = (if \<not> fst x then x
     else (case readJsonBool doc name of None \<Rightarrow> (False, snd x) | Some v \<Rightarrow> (True, upd v (snd x))))"

definition read_audio_document :: "document \<Rightarrow> GrpcAudioConfig \<Rightarrow> bool \<times> GrpcAudioConfig" where
  "read_audio_document doc c0 =
     (let x0 = (readJsonString doc ''codec'' = Some ''OPUS'', c0);
          x1 = read_u32 doc ''sample_rate'' (\<lambda>v. ga_sample_rate_update (\<lambda>_. v)) x0;
          x2 = read_u32 doc ''channels'' (\<lambda>v. ga_channels_update (\<lambda>_. v)) x1;
          x3 = read_u32 doc ''frame_duration_ms'' (\<lambda>v. ga_frame_duration_ms_update (\<lambda>_. v)) x2;
          x4 = read_u32 doc ''samples_per_channel'' (\<lambda>v. ga_samples_per_channel_update (\<lambda>_. v)) x3;
          x5 = read_u32 doc ''bitrate_bps'' (\<lambda>v. ga_bitrate_bps_update (\<lambda>_. v)) x4;
          x6 = read_bool doc ''opus_inband_fec_enabled'' (\<lambda>v. ga_opus_inband_fec_enabled_update (\<lambda>_. v)) x5
      in read_bool doc ''opus_dtx_enabled'' (\<lambda>v. ga_opus_dtx_enabled_update (\<lambda>_. v)) x6)"

definition fetchAudioConfig ::
  "(string \<Rightarrow> document option) \<Rightarrow> string \<Rightarrow> StreamConfigItem answer \<Rightarrow> GrpcAudioConfig \<Rightarrow> string \<Rightarrow> GrpcModule
    \<Rightarrow> (bool \<times> GrpcAudioConfig \<times> string) \<times> sent" where
  "fetchAudioConfig of_json publisher a c0 config_id0 g =
     (case with_gm (gm_GetStreamConfig publisher kAudioPrefix a) None g of
        (None, out) \<Rightarrow> ((False, c0, config_id0), out)
      | (Some item, out) \<Rightarrow>
          if sci_prefix item \<noteq> ucast kAudioPrefix \<or> sci_schema_version item \<noteq> kMediaConfigSchemaVersion
          then ((False, c0, config_id0), out)
          else (case of_json (sci_payload item) of
                  None \<Rightarrow> ((False, c0, config_id0), out)
                | Some doc \<Rightarrow>
                    (case read_audio_document doc c0 of
                       (False, c1) \<Rightarrow> ((False, c1, config_id0), out)
                     | (True, c1) \<Rightarrow> ((True, c1, sci_config_id item), out))))"

section \<open>The heartbeat\<close>

lemma timers_fields [simp]:
  "gr_manager (startRegisterRetryTimer e g) = gr_manager g" "gr_registered (startRegisterRetryTimer e g) = gr_registered g"
  "gr_shutting_down (startRegisterRetryTimer e g) = gr_shutting_down g" "heartbeat_failures (startRegisterRetryTimer e g) = heartbeat_failures g"
  "heartbeat_timer (startRegisterRetryTimer e g) = heartbeat_timer g" "gr_config (startRegisterRetryTimer e g) = gr_config g"
  "gr_manager (startHeartbeatTimer e g) = gr_manager g" "gr_registered (startHeartbeatTimer e g) = gr_registered g"
  "gr_shutting_down (startHeartbeatTimer e g) = gr_shutting_down g" "heartbeat_failures (startHeartbeatTimer e g) = heartbeat_failures g"
  "register_retry_timer (startHeartbeatTimer e g) = register_retry_timer g" "gr_config (startHeartbeatTimer e g) = gr_config g"
  by (simp_all add: startRegisterRetryTimer_def startHeartbeatTimer_def)

text \<open>A run of heartbeats, and their results.\<close>

fun heartbeats :: "genv \<Rightarrow> (int \<times> unit answer) list \<Rightarrow> GrpcModule \<Rightarrow> GrpcModule" where
  "heartbeats e [] g = g"
| "heartbeats e ((now_ms, a) # hs) g = heartbeats e hs (snd (onHeartbeat e now_ms a g))"

definition heartbeat_results :: "GrpcManager \<Rightarrow> (int \<times> unit answer) list \<Rightarrow> HeartbeatResult list" where
  "heartbeat_results m = map (\<lambda>(now_ms, a). fst (gm_Heartbeat now_ms a m))"

lemma heartbeats_unregistered: "\<not> gr_registered g \<Longrightarrow> heartbeats e hs g = g"
  by (induction hs) (auto simp: onHeartbeat_def split: option.splits)

lemma onHeartbeat_cases:
  assumes "gr_manager g = Some m" "\<not> gr_shutting_down g" "gr_registered g"
  shows "fst (gm_Heartbeat now_ms a m) = kOk \<Longrightarrow> snd (onHeartbeat e now_ms a g) = g\<lparr>heartbeat_failures := 0\<rparr>"
    and "fst (gm_Heartbeat now_ms a m) = kSessionInvalid \<Longrightarrow> \<not> gr_registered (snd (onHeartbeat e now_ms a g))"
    and "fst (gm_Heartbeat now_ms a m) = kTransportError \<Longrightarrow> snd (onHeartbeat e now_ms a g) =
      (if heartbeat_failures g + 1 < 3 then g\<lparr>heartbeat_failures := heartbeat_failures g + 1\<rparr>
       else snd (give_up_session e (g\<lparr>heartbeat_failures := heartbeat_failures g + 1\<rparr>)))"
  using assms by (auto simp: onHeartbeat_def give_up_session_def kMaxTransientHeartbeatFailuresBeforeReregister_def Let_def
      split: prod.splits)

lemma give_up_unregistered: "\<not> gr_registered (snd (give_up_session e g))"
  by (simp add: give_up_session_def Let_def)

abbreviation three_errors :: "HeartbeatResult list" where
  "three_errors \<equiv> [kTransportError, kTransportError, kTransportError]"

lemma replicate_2: "replicate 2 x = [x, x]"
  by (simp add: numeral_2_eq_2)

lemma small_failures:
  assumes "(k :: u32) < 3"
  obtains "k = 0" "replicate (unat k) x = []" | "k = 1" "replicate (unat k) x = [x]" | "k = 2" "replicate (unat k) x = [x, x]"
proof -
  have "unat k < 3" using assms by (simp add: word_less_nat_alt)
  then have "unat k = unat (0 :: u32) \<or> unat k = unat (1 :: u32) \<or> unat k = unat (2 :: u32)" by auto
  then have "k = 0 \<or> k = 1 \<or> k = 2" by (simp only: word_unat_eq_iff [symmetric])
  then show thesis using that by (auto simp: replicate_2)
qed

lemma heartbeats_registered:
  assumes "gr_manager g = Some m" "\<not> gr_shutting_down g" "gr_registered g" "heartbeat_failures g < 3"
  shows "gr_registered (heartbeats e hs g) \<longleftrightarrow> kSessionInvalid \<notin> set (heartbeat_results m hs)
    \<and> \<not> sublist three_errors (replicate (unat (heartbeat_failures g)) kTransportError @ heartbeat_results m hs)"
  using assms
proof (induction hs arbitrary: g)
  case Nil
  show ?case
    by (rule small_failures [OF Nil.prems(4), of kTransportError])
       (use Nil.prems in \<open>simp_all add: heartbeat_results_def sublist_Cons_right\<close>)
next
  case (Cons h hs)
  obtain now_ms a where h: "h = (now_ms, a)" by (cases h)
  define r where "r = fst (gm_Heartbeat now_ms a m)"
  have rs: "heartbeat_results m (h # hs) = r # heartbeat_results m hs" by (simp add: heartbeat_results_def h r_def)
  note step = onHeartbeat_cases [OF Cons.prems(1,2,3), of now_ms a e, folded r_def]
  note k = small_failures [OF Cons.prems(4), of kTransportError]
  show ?case
  proof (cases r)
    case kOk
    have "gr_registered (heartbeats e hs (g\<lparr>heartbeat_failures := 0\<rparr>)) \<longleftrightarrow> kSessionInvalid \<notin> set (heartbeat_results m hs)
      \<and> \<not> sublist three_errors (heartbeat_results m hs)"
      using Cons.IH [of "g\<lparr>heartbeat_failures := 0\<rparr>"] Cons.prems by simp
    then show ?thesis using step(1) [OF kOk] unfolding rs kOk
      by - (rule k, simp_all add: h sublist_Cons_right)
  next
    case kSessionInvalid
    then show ?thesis using step(2) [OF kSessionInvalid] unfolding rs by (simp add: h heartbeats_unregistered)
  next
    case kTransportError
    show ?thesis
    proof (cases "heartbeat_failures g + 1 < 3")
      case True
      have "gr_registered (heartbeats e hs (g\<lparr>heartbeat_failures := heartbeat_failures g + 1\<rparr>)) \<longleftrightarrow>
          kSessionInvalid \<notin> set (heartbeat_results m hs)
          \<and> \<not> sublist three_errors (replicate (unat (heartbeat_failures g + 1)) kTransportError @ heartbeat_results m hs)"
        using Cons.IH [of "g\<lparr>heartbeat_failures := heartbeat_failures g + 1\<rparr>"] Cons.prems True by simp
      then show ?thesis using step(3) [OF kTransportError] True unfolding rs kTransportError
        by - (rule k, simp_all add: h replicate_2)
    next
      case False
      then have "sublist three_errors (replicate (unat (heartbeat_failures g)) kTransportError @ r # heartbeat_results m hs)"
        unfolding kTransportError by - (rule k, simp_all add: sublist_Cons_right)
      then show ?thesis using step(3) [OF kTransportError] False give_up_unregistered unfolding rs
        by (auto simp: h heartbeats_unregistered)
    qed
  qed
qed

section \<open>Steps of the module\<close>

text \<open>Every operation of the module with what it puts out, in an environment \<open>e\<close>.\<close>

inductive gr_step :: "genv \<Rightarrow> GrpcModule \<Rightarrow> grpc_output list \<Rightarrow> GrpcModule \<Rightarrow> bool" for e where
  gs_start: "gr_start e a g = (out, g') \<Longrightarrow> gr_step e g out g'"
| gs_stop: "gr_step e g [] (gr_stop g)"
| gs_retry: "register_retry_timer g = Some True \<Longrightarrow> onRegisterRetry e a g = (out, g') \<Longrightarrow> gr_step e g out g'"
| gs_beat: "heartbeat_timer g = Some True \<Longrightarrow> onHeartbeat e now_ms b g = (out, g') \<Longrightarrow> gr_step e g out g'"
| gs_stream: "startEventStream g = (out, g') \<Longrightarrow> gr_step e g out g'"
| gs_event: "gr_step e g (gr_event g) g"
| gs_end: "gr_stream_end g = (out, g') \<Longrightarrow> gr_step e g out g'"
| gs_callbacks: "gr_step e g [] (gr_setCallbacks r v h s g)"
| gs_request: "gr_requestPair peer p g = (ok, out) \<Longrightarrow> gr_step e g (sends out) g"
| gs_accept: "gr_acceptPair peer p g = (ok, out) \<Longrightarrow> gr_step e g (sends out) g"
| gs_reject: "gr_rejectPair peer p g = (ok, out) \<Longrightarrow> gr_step e g (sends out) g"
| gs_unpair: "gr_unpair peer p g = (ok, out) \<Longrightarrow> gr_step e g (sends out) g"
| gs_subscribe: "gr_subscribe publisher ps p g = (ok, out) \<Longrightarrow> gr_step e g (sends out) g"
| gs_unsubscribe: "gr_unsubscribe publisher p g = (ok, out) \<Longrightarrow> gr_step e g (sends out) g"
| gs_list: "gr_listUnpaired desired l g = (eps, out) \<Longrightarrow> gr_step e g (sends out) g"
| gs_prefixes: "getStreamPrefixes publisher q g = (res, out) \<Longrightarrow> gr_step e g (sends out) g"
| gs_manifest: "publishRobotStreamManifest ba bl bh p g = (ok, out) \<Longrightarrow> gr_step e g (sends out) g"
| gs_video: "publishVideoConfig js enc w hh f codec sps pps vps fov pc g = (ok, out) \<Longrightarrow> gr_step e g (sends out) g"
| gs_audio: "publishAudioConfig js ac pc g = (ok, out) \<Longrightarrow> gr_step e g (sends out) g"
| gs_fetch: "fetchAudioConfig oj publisher sc c0 id0 g = (res2, out) \<Longrightarrow> gr_step e g (sends out) g"

inductive gr_run :: "genv \<Rightarrow> GrpcModule \<Rightarrow> grpc_output list \<Rightarrow> GrpcModule \<Rightarrow> bool" for e g where
  gr_refl: "gr_run e g [] g"
| gr_next: "gr_run e g out g1 \<Longrightarrow> gr_step e g1 out1 g2 \<Longrightarrow> gr_run e g (out @ out1) g2"

text \<open>A module is supervised: it is stopped without timers and callbacks, or registered with its heartbeat running
  and no retry pending, or unregistered with the retry timer running and no heartbeat.\<close>

definition supervised :: "GrpcModule \<Rightarrow> bool" where
  "supervised g \<longleftrightarrow> gr_manager g \<noteq> None \<and> g_enabled (gr_config g) \<and> heartbeat_failures g < 3 \<and>
     (if gr_shutting_down g then \<not> gr_registered g \<and> register_retry_timer g = None \<and> heartbeat_timer g = None
      else if gr_registered g then heartbeat_timer g = Some True \<and> register_retry_timer g \<noteq> Some True
      else register_retry_timer g = Some True \<and> heartbeat_timer g \<noteq> Some True)"

definition answering :: "genv \<Rightarrow> bool" where
  "answering e \<longleftrightarrow> genv_context_valid e \<and> genv_timer_ok e"

lemma tryRegister_registered:
  assumes "gr_manager g = Some m" "\<not> gr_shutting_down g" "\<not> gr_registered g"
  obtains out m1 where "gm_Register a m = (False, out, m1)" "tryRegister e a g = (sends out, g\<lparr>gr_manager := Some m1\<rparr>)"
  | out m1 cb where "gm_Register a m = (True, out, m1)" "tryRegister e a g = (sends out @ cb, startHeartbeatTimer e (g\<lparr>gr_manager := Some m1,
      gr_registered := True, heartbeat_failures := 0, register_retry_timer := map_option (\<lambda>_. False) (register_retry_timer g)\<rparr>))"
proof -
  obtain ok out m1 where r: "gm_Register a m = (ok, out, m1)" by (metis prod.exhaust)
  show thesis
  proof (cases ok)
    case True
    then show thesis using assms r by (intro that(2) [of out m1]) (auto simp: tryRegister_def Let_def)
  next
    case False
    then show thesis using assms r by (intro that(1) [of out m1]) (auto simp: tryRegister_def Let_def)
  qed
qed

lemma supervised_tryRegister:
  assumes "answering e" "gr_manager g \<noteq> None" "g_enabled (gr_config g)" "heartbeat_failures g < 3" "\<not> gr_shutting_down g"
    "\<not> gr_registered g" "heartbeat_timer g \<noteq> Some True"
  shows "let g' = snd (tryRegister e a g) in gr_manager g' \<noteq> None \<and> gr_config g' = gr_config g \<and> heartbeat_failures g' < 3
    \<and> \<not> gr_shutting_down g' \<and> (if gr_registered g' then heartbeat_timer g' = Some True \<and> register_retry_timer g' \<noteq> Some True
        else register_retry_timer g' = register_retry_timer g \<and> heartbeat_timer g' = heartbeat_timer g)"
proof -
  obtain m where m: "gr_manager g = Some m" using assms(2) by auto
  show ?thesis
    by (rule tryRegister_registered [OF m assms(5,6), of a e])
       (use assms in \<open>auto simp: Let_def startHeartbeatTimer_def answering_def\<close>)
qed

lemma supervised_start:
  assumes "answering e" "supervised g"
  shows "supervised (snd (gr_start e a g))"
proof (cases "gr_registered g")
  case True
  then show ?thesis using assms by (auto simp: gr_start_def tryRegister_def supervised_def Let_def split: option.splits if_splits)
next
  case False
  have "heartbeat_timer g \<noteq> Some True" using assms(2) False by (auto simp: supervised_def split: if_splits)
  then show ?thesis using supervised_tryRegister [OF assms(1), of "g\<lparr>gr_shutting_down := False\<rparr>" a] assms False
    by (auto simp: gr_start_def supervised_def Let_def startRegisterRetryTimer_def answering_def case_prod_beta split: if_splits)
qed

lemma supervised_retry:
  assumes "answering e" "supervised g" "register_retry_timer g = Some True"
  shows "supervised (snd (onRegisterRetry e a g))"
proof (cases "gr_shutting_down g \<or> gr_registered g")
  case True
  then show ?thesis using assms by (auto simp: onRegisterRetry_def tryRegister_def supervised_def split: option.splits if_splits)
next
  case False
  then show ?thesis using supervised_tryRegister [OF assms(1), of g a] assms
    by (auto simp: onRegisterRetry_def supervised_def Let_def split: if_splits)
qed

lemma supervised_give_up:
  assumes "answering e" "gr_manager g \<noteq> None" "g_enabled (gr_config g)" "\<not> gr_shutting_down g"
  shows "supervised (snd (give_up_session e g))"
  using assms by (auto simp: give_up_session_def supervised_def Let_def startRegisterRetryTimer_def answering_def)

lemma supervised_heartbeat:
  assumes "answering e" "supervised g"
  shows "supervised (snd (onHeartbeat e now_ms b g))"
proof (cases "gr_shutting_down g \<or> \<not> gr_registered g")
  case True
  then show ?thesis using assms by (auto simp: onHeartbeat_def split: option.splits)
next
  case False
  obtain m where m: "gr_manager g = Some m" using assms by (auto simp: supervised_def)
  have gu: "supervised (snd (give_up_session e (g\<lparr>heartbeat_failures := k\<rparr>)))" for k
    using supervised_give_up [OF assms(1), of "g\<lparr>heartbeat_failures := k\<rparr>"] assms(2) False by (simp add: supervised_def)
  have gu0: "supervised (snd (give_up_session e g))"
    using supervised_give_up [OF assms(1), of g] assms(2) False by (simp add: supervised_def)
  obtain res out where hb: "gm_Heartbeat now_ms b m = (res, out)" by fastforce
  show ?thesis
  proof (cases res)
    case kOk
    then show ?thesis using assms False m hb by (auto simp: onHeartbeat_def supervised_def)
  next
    case kSessionInvalid
    then show ?thesis using gu0 False m hb by (simp add: onHeartbeat_def case_prod_beta)
  next
    case kTransportError
    then show ?thesis using gu [of "heartbeat_failures g + 1"] assms False m hb
      by (auto simp: onHeartbeat_def case_prod_beta Let_def supervised_def kMaxTransientHeartbeatFailuresBeforeReregister_def)
  qed
qed

lemma supervised_cong:
  assumes "gr_manager g' \<noteq> None" "gr_config g' = gr_config g" "heartbeat_failures g' = heartbeat_failures g"
    "gr_shutting_down g' = gr_shutting_down g" "gr_registered g' = gr_registered g"
    "register_retry_timer g' = register_retry_timer g" "heartbeat_timer g' = heartbeat_timer g" "supervised g"
  shows "supervised g'"
  using assms by (simp add: supervised_def)

lemma supervised_step:
  assumes "answering e" "gr_step e g out g'" "supervised g"
  shows "supervised g'"
  using assms(2)
proof cases
  case (gs_start a)
  then show ?thesis using supervised_start [OF assms(1,3), of a] by simp
next
  case gs_stop
  then show ?thesis using assms(3) by (simp add: gr_stop_def supervised_def)
next
  case (gs_retry a)
  then show ?thesis using supervised_retry [OF assms(1,3), of a] by simp
next
  case (gs_beat now_ms b)
  then show ?thesis using supervised_heartbeat [OF assms(1,3), of now_ms b] by simp
next
  case gs_stream
  then show ?thesis using assms(3) by (intro supervised_cong [OF _ _ _ _ _ _ _ assms(3)])
      (auto simp: startEventStream_def supervised_def split: option.splits if_splits prod.splits)
next
  case gs_end
  then show ?thesis using assms(3) by (intro supervised_cong [OF _ _ _ _ _ _ _ assms(3)])
      (auto simp: gr_stream_end_def supervised_def split: option.splits if_splits prod.splits)
next
  case (gs_callbacks r v h s)
  then show ?thesis using assms(3) by (simp add: gr_setCallbacks_def supervised_def)
qed (use assms(3) in simp_all)

lemma supervised_run: "gr_run e g out g' \<Longrightarrow> answering e \<Longrightarrow> supervised g \<Longrightarrow> supervised g'"
  by (induction rule: gr_run.induct) (blast intro: supervised_step)+

lemma supervised_first_start:
  assumes "answering e" "g_enabled c"
  shows "supervised (snd (gr_start e a (GrpcModule_init c)))"
proof -
  have "supervised ((GrpcModule_init c)\<lparr>register_retry_timer := Some True\<rparr>) "
    using assms by (simp add: supervised_def GrpcModule_init_def)
  then show ?thesis using supervised_tryRegister [OF assms(1), of "GrpcModule_init c" a] assms
    by (auto simp: gr_start_def supervised_def Let_def startRegisterRetryTimer_def answering_def case_prod_beta
        GrpcModule_init_def split: if_splits)
qed

text \<open>A module whose manager was shut down.\<close>

definition silenced :: "GrpcModule \<Rightarrow> bool" where
  "silenced g \<longleftrightarrow> \<not> gr_registered g \<and> (\<forall>m. gr_manager g = Some m \<longrightarrow> gm_shutting_down m)"

lemma silenced_rpc: "gm_shutting_down m \<Longrightarrow> rpc m a req = []"
  by (simp add: rpc_def)

lemma silenced_with_gm:
  assumes "silenced g" "\<And>m. gm_shutting_down m \<Longrightarrow> snd (f m) = []"
  shows "snd (with_gm f d g) = []"
  using assms by (auto simp: with_gm_def silenced_def split: option.splits)

lemma silenced_calls:
  assumes "silenced g"
  shows "snd (gr_requestPair peer p g) = []" "snd (gr_acceptPair peer p g) = []" "snd (gr_rejectPair peer p g) = []"
    "snd (gr_unpair peer p g) = []" "snd (gr_subscribe publisher ps p g) = []" "snd (gr_unsubscribe publisher p g) = []"
    "snd (gr_listUnpaired desired l g) = []" "snd (publishRobotStreamManifest ba bl bh p g) = []"
    "snd (with_gm (gm_GetStreamManifest publisher q) None g) = []"
    "snd (with_gm (gm_PublishStreamConfig pfx v payload pc) False g) = []"
    "snd (with_gm (gm_GetStreamConfig publisher pfx sc) None g) = []"
  unfolding gr_requestPair_def gr_acceptPair_def gr_rejectPair_def gr_unpair_def gr_subscribe_def gr_unsubscribe_def
    gr_listUnpaired_def publishRobotStreamManifest_def RequestPair_def AcceptPair_def RejectPair_def gm_Unpair_def
  by (auto intro!: silenced_with_gm [OF assms] simp: gm_Pair_def gm_Subscribe_def gm_Unsubscribe_def gm_ListUnpaired_def
      gm_PublishStreamManifest_def gm_GetStreamManifest_def gm_PublishStreamConfig_def gm_GetStreamConfig_def silenced_rpc)

lemma silenced_configs:
  assumes "silenced g"
  shows "snd (publishVideoConfig js enc w h f codec sps pps vps fov pc g) = []" "snd (publishAudioConfig js ac pc g) = []"
    "snd (fetchAudioConfig oj publisher sc c0 id0 g) = []" "snd (getStreamPrefixes publisher q g) = []"
  using silenced_calls(9) [OF assms, of publisher q] silenced_calls(11) [OF assms, of publisher kAudioPrefix sc]
  by (auto simp: publishVideoConfig_def publishAudioConfig_def fetchAudioConfig_def getStreamPrefixes_def silenced_calls(10) [OF assms]
      split: option.splits prod.splits bool.splits)

lemma silenced_register: "gm_shutting_down m \<Longrightarrow> gm_Register a m = (False, [], m)"
  by (simp add: gm_Register_def)

lemma silenced_tryRegister: "silenced g \<Longrightarrow> tryRegister e a g = ([], g)"
  by (cases "gr_manager g") (auto simp: tryRegister_def silenced_def silenced_register sends_def)

lemma silenced_step:
  assumes "gr_step e g out g'" "silenced g"
  shows "silenced g' \<and> (\<forall>sid req. Sent sid req \<notin> set out) \<and> On_registered \<notin> set out"
  using assms(1)
proof cases
  case (gs_start a)
  have "silenced (g\<lparr>gr_shutting_down := False\<rparr>)" using assms(2) by (simp add: silenced_def)
  then show ?thesis using gs_start silenced_tryRegister [of "g\<lparr>gr_shutting_down := False\<rparr>"]
    by (auto simp: gr_start_def Let_def silenced_def split: if_splits)
next
  case gs_stop
  then show ?thesis using assms(2) by (auto simp: gr_stop_def silenced_def StopEventStream_def CancelPendingRpcs_def)
next
  case (gs_retry a)
  then show ?thesis using assms(2) silenced_tryRegister [OF assms(2)] by (auto simp: onRegisterRetry_def split: if_splits)
next
  case (gs_beat now_ms b)
  then show ?thesis using assms(2) by (auto simp: onHeartbeat_def silenced_def split: option.splits if_splits)
next
  case gs_stream
  then show ?thesis using assms(2)
    by (auto simp: startEventStream_def StartEventStream_def silenced_def sends_def split: option.splits if_splits)
next
  case gs_event
  then show ?thesis using assms(2) by (auto simp: gr_event_def split: option.splits if_splits)
next
  case gs_end
  then show ?thesis using assms(2)
    by (auto simp: gr_stream_end_def stream_finish_def silenced_def split: option.splits if_splits prod.splits)
next
  case (gs_callbacks r v h s)
  then show ?thesis using assms(2) by (simp add: gr_setCallbacks_def silenced_def)
next
  case (gs_prefixes publisher q res out)
  then show ?thesis using assms(2) silenced_configs(4) [OF assms(2), of publisher q] by (simp add: sends_def)
next
  case (gs_video js enc w hh f codec sps pps vps fov pc ok out)
  then show ?thesis using assms(2) silenced_configs(1) [OF assms(2), of js enc w hh f codec sps pps vps fov pc] by (simp add: sends_def)
next
  case (gs_audio js ac pc ok out)
  then show ?thesis using assms(2) silenced_configs(2) [OF assms(2), of js ac pc] by (simp add: sends_def)
next
  case (gs_fetch oj publisher sc c0 id0 res2 out)
  then show ?thesis using assms(2) silenced_configs(3) [OF assms(2), of oj publisher sc c0 id0] by (simp add: sends_def)
next
  case (gs_request peer p ok out)
  then show ?thesis using assms(2) silenced_calls(1) [OF assms(2), of peer p] by (simp add: sends_def)
next
  case (gs_accept peer p ok out)
  then show ?thesis using assms(2) silenced_calls(2) [OF assms(2), of peer p] by (simp add: sends_def)
next
  case (gs_reject peer p ok out)
  then show ?thesis using assms(2) silenced_calls(3) [OF assms(2), of peer p] by (simp add: sends_def)
next
  case (gs_unpair peer p ok out)
  then show ?thesis using assms(2) silenced_calls(4) [OF assms(2), of peer p] by (simp add: sends_def)
next
  case (gs_subscribe publisher ps p ok out)
  then show ?thesis using assms(2) silenced_calls(5) [OF assms(2), of publisher ps p] by (simp add: sends_def)
next
  case (gs_unsubscribe publisher p ok out)
  then show ?thesis using assms(2) silenced_calls(6) [OF assms(2), of publisher p] by (simp add: sends_def)
next
  case (gs_list desired l eps out)
  then show ?thesis using assms(2) silenced_calls(7) [OF assms(2), of desired l] by (simp add: sends_def)
next
  case (gs_manifest ba bl bh p ok out)
  then show ?thesis using assms(2) silenced_calls(8) [OF assms(2), of ba bl bh p] by (simp add: sends_def)
qed

lemma silenced_run:
  "gr_run e g out g' \<Longrightarrow> silenced g \<Longrightarrow> silenced g' \<and> (\<forall>sid req. Sent sid req \<notin> set out) \<and> On_registered \<notin> set out"
proof (induction rule: gr_run.induct)
  case (gr_next out g1 out1 g2)
  then show ?case using silenced_step by fastforce
qed simp

lemma silenced_stop: "silenced (gr_stop g)"
  by (auto simp: silenced_def gr_stop_def StopEventStream_def CancelPendingRpcs_def)

section \<open>Stream prefixes and the audio configuration\<close>

lemma unique_props: "sorted xs \<Longrightarrow> set (unique xs) = set xs \<and> sorted (unique xs) \<and> distinct (unique xs)"
proof (induction xs rule: unique.induct)
  case (1 x y zs)
  show ?case
  proof (cases "x = y")
    case True
    then show ?thesis using 1 by simp
  next
    case False
    then have "x < y" using 1(3) by (simp add: less_le)
    then have "\<forall>z\<in>set (y # zs). x < z" using 1(3) by (auto intro: order.strict_trans2)
    then show ?thesis using 1(2) [OF False] 1(3) False by (auto intro: less_imp_le)
  qed
qed simp_all

lemma readJsonUint32_nat:
  assumes "findJsonField doc name = Some (JNumber (Some (of_nat n)))" "n \<le> 4294967295"
  shows "readJsonUint32 doc name = (if n = 0 then None else Some (of_nat n))"
proof -
  have "(of_nat n :: rat) \<le> of_nat 4294967295" unfolding of_nat_le_iff by (rule assms(2))
  then show ?thesis using assms(1) by (auto simp: readJsonUint32_def)
qed

lemma readJsonUint32_number:
  assumes "findJsonField doc name = Some (JNumber (Some (of_nat (unat (w :: u32)))))"
  shows "readJsonUint32 doc name = (if w = 0 then None else Some w)"
proof -
  have "unat w < 2 ^ LENGTH(32)" by (rule unsigned_less)
  then have "unat w \<le> 4294967295" by simp
  from readJsonUint32_nat [OF assms this] show ?thesis by (simp add: unat_eq_0)
qed

text \<open>What a schema allows to be read back: all numbers positive.\<close>

definition readable :: "GrpcAudioConfig \<Rightarrow> bool" where
  "readable c \<longleftrightarrow> ga_sample_rate c \<noteq> 0 \<and> ga_channels c \<noteq> 0 \<and> ga_frame_duration_ms c \<noteq> 0
     \<and> ga_samples_per_channel c \<noteq> 0 \<and> ga_bitrate_bps c \<noteq> 0"

lemma read_audio_document_eq:
  assumes "map_of doc = map_of (audio_document c)"
  shows "if readable c then read_audio_document doc c0 = (True, c) else \<not> fst (read_audio_document doc c0)"
proof -
  have f: "findJsonField doc = findJsonField (audio_document c)" by (rule ext) (simp add: findJsonField_def assms)
  have n: "findJsonField (audio_document c) ''sample_rate'' = Some (JNumber (Some (of_nat (unat (ga_sample_rate c)))))"
    "findJsonField (audio_document c) ''channels'' = Some (JNumber (Some (of_nat (unat (ga_channels c)))))"
    "findJsonField (audio_document c) ''frame_duration_ms'' = Some (JNumber (Some (of_nat (unat (ga_frame_duration_ms c)))))"
    "findJsonField (audio_document c) ''samples_per_channel'' = Some (JNumber (Some (of_nat (unat (ga_samples_per_channel c)))))"
    "findJsonField (audio_document c) ''bitrate_bps'' = Some (JNumber (Some (of_nat (unat (ga_bitrate_bps c)))))"
    "findJsonField (audio_document c) ''opus_inband_fec_enabled'' = Some (JBool (ga_opus_inband_fec_enabled c))"
    "findJsonField (audio_document c) ''opus_dtx_enabled'' = Some (JBool (ga_opus_dtx_enabled c))"
    "findJsonField (audio_document c) ''codec'' = Some (JString ''OPUS'')"
    by (simp_all add: findJsonField_def audio_document_def)
  note r = n(1-5) [folded f, THEN readJsonUint32_number]
  have b: "readJsonBool doc ''opus_inband_fec_enabled'' = Some (ga_opus_inband_fec_enabled c)"
    "readJsonBool doc ''opus_dtx_enabled'' = Some (ga_opus_dtx_enabled c)" "readJsonString doc ''codec'' = Some ''OPUS''"
    by (simp_all add: readJsonBool_def readJsonString_def f n)
  show ?thesis
    by (cases c, cases c0) (simp add: read_audio_document_def read_u32_def read_bool_def Let_def r b readable_def)
qed

section \<open>Properties\<close>

text \<open>C23: A registered module gives its session up exactly when the service rejects it or three heartbeats in a row
  fail in transport: over any run of heartbeats it stays registered if and only if no result says that the
  session is invalid and no three consecutive results are transport errors.\<close>

theorem heartbeat_gives_up_exactly:
  assumes "gr_manager g = Some m" "\<not> gr_shutting_down g" "gr_registered g" "heartbeat_failures g = 0"
  shows "gr_registered (heartbeats e hs g) \<longleftrightarrow> kSessionInvalid \<notin> set (heartbeat_results m hs)
    \<and> \<not> sublist three_errors (heartbeat_results m hs)"
  using heartbeats_registered [OF assms(1-3), of e hs] assms(4) by simp

definition grpc_config :: GrpcConfig where
  "grpc_config = grpc_configFromRosParam (\<lambda>n. None) \<lparr>par_bool = (\<lambda>n. None), par_int = (\<lambda>n. None), par_double = (\<lambda>n. None),
     par_string = (\<lambda>n. None)\<rparr>"

definition env_up :: genv where
  "env_up = \<lparr>genv_context_valid = True, genv_timer_ok = True\<rparr>"

definition accepted :: "RegisterResponse answer" where
  "accepted = \<lparr>late_shutdown = False, rpc_status = OK, rpc_response = \<lparr>rr_success = True, rr_session_id = ''s1'', rr_device_type_code = ''robot''\<rparr>\<rparr>"

definition ping_answer :: "status_code \<Rightarrow> int \<times> unit answer" where
  "ping_answer c = (0, \<lparr>late_shutdown = False, rpc_status = c, rpc_response = ()\<rparr>)"

definition grpc_up :: GrpcModule where
  "grpc_up = snd (gr_start env_up accepted (GrpcModule_init grpc_config))"

lemma grpc_up_eq: "gr_manager grpc_up = Some ((GrpcManager_init grpc_config)\<lparr>gm_session_id := ''s1'', gm_device_type_code := ''robot''\<rparr>)"
    "\<not> gr_shutting_down grpc_up" "gr_registered grpc_up" "heartbeat_failures grpc_up = 0" "g_enabled grpc_config"
  by (simp_all add: grpc_up_def gr_start_def GrpcModule_init_def tryRegister_def gm_Register_def accepted_def GrpcManager_init_def
      grpc_config_def grpc_configFromRosParam_def declareOrGet_def startHeartbeatTimer_def env_up_def Let_def)

theorem heartbeat_gives_up_exactly_witness:
  "gr_registered (heartbeats env_up (map ping_answer [OTHER_ERROR 14, OTHER_ERROR 14, OK, OTHER_ERROR 14, OTHER_ERROR 14]) grpc_up)
   \<and> \<not> gr_registered (heartbeats env_up (map ping_answer [OTHER_ERROR 14, OTHER_ERROR 14, OTHER_ERROR 14]) grpc_up)
   \<and> \<not> gr_registered (heartbeats env_up (map ping_answer [NOT_FOUND]) grpc_up)"
  unfolding heartbeat_gives_up_exactly [OF grpc_up_eq(1-4)]
  by (simp add: heartbeat_results_def ping_answer_def gm_Heartbeat_def GrpcManager_init_def sublist_Cons_right)

text \<open>A started module is never left without a timer to bring it back: in every state it reaches it is stopped, or
  registered with the heartbeat running and no retry pending, or unregistered with the retry timer running.\<close>

theorem registration_supervised:
  assumes "answering e" "g_enabled c" "gr_run e (snd (gr_start e a (GrpcModule_init c))) out g"
  shows "gr_shutting_down g \<and> \<not> gr_registered g \<and> heartbeat_timer g = None \<and> register_retry_timer g = None
    \<or> \<not> gr_shutting_down g \<and> gr_registered g \<and> heartbeat_timer g = Some True \<and> register_retry_timer g \<noteq> Some True
    \<or> \<not> gr_shutting_down g \<and> \<not> gr_registered g \<and> register_retry_timer g = Some True \<and> heartbeat_timer g \<noteq> Some True"
  using supervised_run [OF assms(3,1) supervised_first_start [OF assms(1,2)]] by (auto simp: supervised_def split: if_splits)

theorem registration_supervised_witness:
  "heartbeat_timer grpc_up = Some True \<and> gr_registered grpc_up"
proof -
  have "answering env_up" by (simp add: answering_def env_up_def)
  from registration_supervised [OF this grpc_up_eq(5) gr_refl, of accepted, folded grpc_up_def] grpc_up_eq(3)
  show ?thesis by auto
qed

text \<open>A stop is final: whatever is called afterwards, a new start included, and whatever the service would
  answer, nothing is sent to it again and the registered callback is never called.\<close>

theorem stop_is_final:
  assumes "gr_run e (gr_stop g) out g'"
  shows "(\<forall>sid req. Sent sid req \<notin> set out) \<and> On_registered \<notin> set out \<and> \<not> gr_registered g'"
  using silenced_run [OF assms silenced_stop] by (auto simp: silenced_def)

theorem stop_is_final_witness: "\<not> gr_registered (snd (gr_start env_up accepted (gr_stop grpc_up)))"
proof -
  obtain out g' where s: "gr_start env_up accepted (gr_stop grpc_up) = (out, g')" by fastforce
  from stop_is_final [OF gr_next [OF gr_refl gs_start [OF s]]] s show ?thesis by simp
qed

text \<open>The audio configuration goes through the service and back: when the reader is given the item as it was
  published, and the JSON library reads what it printed, the fetched configuration is the published one with the
  service's configuration id; but a configuration with a zero is refused, since the reader wants positive numbers.\<close>

theorem audio_config_roundtrip:
  assumes json: "\<And>payload. to_json (audio_document c) = Some payload \<Longrightarrow> \<exists>doc. of_json payload = Some doc \<and> map_of doc = map_of (audio_document c)"
    and pub: "publishAudioConfig to_json c a g = (True, [(sid, PublishStreamConfig pfx v payload)])"
    and fetched: "with_gm (gm_GetStreamConfig publisher kAudioPrefix a2) None g2
      = (Some \<lparr>sci_prefix = ucast pfx, sci_schema_version = v, sci_payload = payload, sci_config_id = cid\<rparr>, out)"
  shows "if readable c then fetchAudioConfig of_json publisher a2 c0 id0 g2 = ((True, c, cid), out)
    else \<not> fst (fst (fetchAudioConfig of_json publisher a2 c0 id0 g2))"
proof -
  have p: "to_json (audio_document c) = Some payload" "pfx = kAudioPrefix" "v = kMediaConfigSchemaVersion"
    using pub by (auto simp: publishAudioConfig_def with_gm_def gm_PublishStreamConfig_def Let_def rpc_def
        split: option.splits if_splits)
  from json [OF p(1)] obtain doc where doc: "of_json payload = Some doc" "map_of doc = map_of (audio_document c)" by blast
  obtain ok c1 where rd: "read_audio_document doc c0 = (ok, c1)" by fastforce
  show ?thesis using read_audio_document_eq [OF doc(2), of c0] unfolding rd
    by (cases "readable c"; cases ok) (simp_all add: fetchAudioConfig_def fetched p(2,3) doc(1) rd)
qed

theorem audio_config_roundtrip_witness:
  "fetchAudioConfig (\<lambda>s. Some (audio_document (GrpcAudioConfig.make 48000 1 20 960 64000 True False))) ''r''
     \<lparr>late_shutdown = False, rpc_status = OK, rpc_response = \<lparr>sci_prefix = 4, sci_schema_version = 1, sci_payload = ''json'', sci_config_id = ''7''\<rparr>\<rparr>
     (GrpcAudioConfig.make 1 1 1 1 1 False False) [] grpc_up
   = ((True, GrpcAudioConfig.make 48000 1 20 960 64000 True False, ''7''), [(''s1'', GetStreamConfig ''r'' 4)])"
proof -
  define c where "c = GrpcAudioConfig.make 48000 1 20 960 64000 True False"
  have "readable c" by (simp add: c_def readable_def GrpcAudioConfig.make_def)
  moreover have "publishAudioConfig (\<lambda>d. Some ''json'') c \<lparr>late_shutdown = False, rpc_status = OK, rpc_response = (True, True)\<rparr> grpc_up
      = (True, [(''s1'', PublishStreamConfig 4 1 ''json'')])"
    by (simp add: publishAudioConfig_def with_gm_def grpc_up_eq gm_PublishStreamConfig_def Let_def rpc_def GrpcManager_init_def
        kAudioPrefix_def kMediaConfigSchemaVersion_def)
  moreover have "with_gm (gm_GetStreamConfig ''r'' kAudioPrefix \<lparr>late_shutdown = False, rpc_status = OK, rpc_response =
        \<lparr>sci_prefix = 4, sci_schema_version = 1, sci_payload = ''json'', sci_config_id = ''7''\<rparr>\<rparr>) None grpc_up
      = (Some \<lparr>sci_prefix = ucast (4 :: u8), sci_schema_version = 1, sci_payload = ''json'', sci_config_id = ''7''\<rparr>, [(''s1'', GetStreamConfig ''r'' 4)])"
    by (simp add: with_gm_def grpc_up_eq gm_GetStreamConfig_def Let_def rpc_def GrpcManager_init_def kAudioPrefix_def)
  ultimately show ?thesis
    using audio_config_roundtrip [of "\<lambda>d. Some ''json''" c "\<lambda>s. Some (audio_document c)"
        "\<lparr>late_shutdown = False, rpc_status = OK, rpc_response = (True, True)\<rparr>" grpc_up "''s1''" 4 1 "''json''"]
    unfolding c_def [symmetric] by fastforce
qed

text \<open>The prefixes a publisher offers come out sorted and without repetition: exactly the one-byte prefixes of its manifest.\<close>

theorem stream_prefixes_sorted_set:
  assumes "getStreamPrefixes publisher a g = ((True, ps), out)"
  shows "sorted ps \<and> distinct ps \<and> set ps = ucast ` {p \<in> set (rpc_response a). p \<le> 0xFF}"
proof -
  have "ps = unique (sort (map ucast (filter (\<lambda>p. p \<le> 0xFF) (rpc_response a))))"
    using assms by (auto simp: getStreamPrefixes_def with_gm_def gm_GetStreamManifest_def Let_def split: option.splits if_splits prod.splits)
  then show ?thesis
    using unique_props [of "sort (map ucast (filter (\<lambda>p. p \<le> 0xFF) (rpc_response a)))"] by auto
qed

theorem stream_prefixes_sorted_set_witness:
  "case getStreamPrefixes ''r'' \<lparr>late_shutdown = False, rpc_status = OK, rpc_response = [6, 1, 0x101, 4, 1]\<rparr> grpc_up of
     ((ok, ps), out) \<Rightarrow> ok \<and> ps = [1, 4, 6] \<and> sorted ps"
proof -
  have "getStreamPrefixes ''r'' \<lparr>late_shutdown = False, rpc_status = OK, rpc_response = [6, 1, 0x101, 4, 1]\<rparr> grpc_up
      = ((True, [1, 4, 6]), [(''s1'', GetStreamManifest ''r'')])"
    by (simp add: getStreamPrefixes_def with_gm_def grpc_up_eq gm_GetStreamManifest_def Let_def rpc_def GrpcManager_init_def word_le_nat_alt)
  with stream_prefixes_sorted_set [OF this] show ?thesis by simp
qed

end
