(* ===== verification/VideoModule.thy ===== *)
theory VideoModule
  imports GrpcModule
begin

text \<open>
  \<open>src/src/video/video_module.cpp\<close>: the object of the node that owns the video pipeline. It reads the profile,
  finds the parameter sets (SPS, PPS and, for H.265, VPS) in the encoded stream, keeps them, and tells the node
  once when they are complete. Of \<open>VideoStreamManager\<close> only the running flag is state here: its \<open>start\<close> sets it
  when it answers true and its \<open>stop\<close> clears it; whether the pipeline could be started, whether a key frame could
  be requested, and what it captures and encodes are arguments. A buffer that is not null is a list of bytes.
\<close>

section \<open>Stream formats\<close>

datatype StreamFormat = AnnexB | Avcc | UnknownFormat

definition has_start_at :: "bytes \<Rightarrow> nat \<Rightarrow> bool" where
  "has_start_at d i \<longleftrightarrow> d ! i = 0 \<and> d ! (i + 1) = 0 \<and> d ! (i + 2) = 1
     \<or> i + 4 < length d \<and> d ! i = 0 \<and> d ! (i + 1) = 0 \<and> d ! (i + 2) = 0 \<and> d ! (i + 3) = 1"

definition hasAnnexBStartCode :: "bytes \<Rightarrow> bool" where
  "hasAnnexBStartCode d = (if length d < 4 then False else list_ex (has_start_at d) [0..<length d - 3])"

definition be32 :: "bytes \<Rightarrow> nat \<Rightarrow> u32" where
  "be32 d i = push_bit 24 (ucast (d ! i)) OR push_bit 16 (ucast (d ! (i + 1)))
     OR push_bit 8 (ucast (d ! (i + 2))) OR ucast (d ! (i + 3))"

function avcc_loop :: "bytes \<Rightarrow> nat \<Rightarrow> nat \<Rightarrow> bool" where
  "avcc_loop d offset nal_count =
     (if offset + 4 \<le> length d \<and> nal_count < 3
      then (let nal_size = unat (be32 d offset); o1 = offset + 4
            in if nal_size = 0 \<or> length d < o1 + nal_size then False
               else avcc_loop d (o1 + nal_size) (Suc nal_count))
      else 0 < nal_count)"
  by pat_completeness auto
termination by (relation "measure (\<lambda>(d, offset, nal_count). 3 - nal_count)") auto

declare avcc_loop.simps [simp del]

definition looksLikeAvcc :: "bytes \<Rightarrow> bool" where
  "looksLikeAvcc d = (if length d < 8 then False else avcc_loop d 0 0)"

definition detectStreamFormat :: "bytes \<Rightarrow> StreamFormat" where
  "detectStreamFormat d = (if hasAnnexBStartCode d then AnnexB else if looksLikeAvcc d then Avcc else UnknownFormat)"

section \<open>NAL units\<close>

text \<open>\<open>forEachNal\<close> passes the units to its callback in order: they are a list here. The length of the start code at an index.\<close>

definition is_start_code :: "bytes \<Rightarrow> nat \<Rightarrow> nat option" where
  "is_start_code d i =
     (if i + 3 \<le> length d \<and> d ! i = 0 \<and> d ! (i + 1) = 0 \<and> d ! (i + 2) = 1 then Some 3
      else if i + 4 \<le> length d \<and> d ! i = 0 \<and> d ! (i + 1) = 0 \<and> d ! (i + 2) = 0 \<and> d ! (i + 3) = 1 then Some 4
      else None)"

function scan_end :: "bytes \<Rightarrow> nat \<Rightarrow> nat" where
  "scan_end d i =
     (if i + 3 < length d then (case is_start_code d i of Some l \<Rightarrow> i | None \<Rightarrow> scan_end d (i + 1)) else length d)"
  by pat_completeness auto
termination by (relation "measure (\<lambda>(d, i). length d - i)") auto

declare scan_end.simps [simp del]

lemma scan_end_ge: "i \<le> length d \<Longrightarrow> i \<le> scan_end d i"
proof (induction d i rule: scan_end.induct)
  case (1 d i)
  then show ?case by (subst scan_end.simps) (auto split: option.splits dest: Suc_leD)
qed

lemma is_start_code_bound: "is_start_code d i = Some l \<Longrightarrow> 0 < l \<and> i + l \<le> length d"
  by (auto simp: is_start_code_def split: if_splits)

function annexb_nals :: "bytes \<Rightarrow> nat \<Rightarrow> bytes list" where
  "annexb_nals d i =
     (if i + 3 < length d
      then (case is_start_code d i of
              None \<Rightarrow> annexb_nals d (i + 1)
            | Some l \<Rightarrow> (let nal_start = i + l; nal_end = scan_end d nal_start
                         in (if nal_start < nal_end then [take (nal_end - nal_start) (drop nal_start d)] else [])
                            @ annexb_nals d nal_end))
      else [])"
  by pat_completeness auto
termination
proof (relation "measure (\<lambda>(d, i). length d - i)")
  fix d i l nal_start nal_end
  assume a: "i + 3 < length d" "is_start_code d i = Some l" "nal_start = i + l" "nal_end = scan_end d nal_start"
  then show "((d, nal_end), (d, i)) \<in> measure (\<lambda>(d, i). length d - i)"
    using is_start_code_bound [of d i l] scan_end_ge [of nal_start d] by auto
qed auto

declare annexb_nals.simps [simp del]

function avcc_nals :: "bytes \<Rightarrow> nat \<Rightarrow> bytes list" where
  "avcc_nals d offset =
     (if offset + 4 \<le> length d
      then (let nal_size = unat (be32 d offset); o1 = offset + 4
            in if nal_size = 0 \<or> length d < o1 + nal_size then []
               else take nal_size (drop o1 d) # avcc_nals d (o1 + nal_size))
      else [])"
  by pat_completeness auto
termination by (relation "measure (\<lambda>(d, offset). length d - offset)") auto

declare avcc_nals.simps [simp del]

definition forEachNal :: "bytes \<Rightarrow> StreamFormat \<Rightarrow> bytes list" where
  "forEachNal d format =
     (if length d < 1 then []
      else (case format of AnnexB \<Rightarrow> annexb_nals d 0 | Avcc \<Rightarrow> avcc_nals d 0 | UnknownFormat \<Rightarrow> []))"

section \<open>Configuration and state\<close>

record VideoConfig =
  v_width :: u32
  v_height :: u32
  v_fps :: u32
  v_codec :: Codec

definition tolower :: "char \<Rightarrow> char" where
  "tolower c = (let n = of_char c :: nat in if 65 \<le> n \<and> n \<le> 90 then char_of (n + 32) else c)"

text \<open>\<open>par_ints\<close> looks up a parameter that is a list of integers.\<close>

definition video_configFromRosParam :: "(string \<Rightarrow> int list option) \<Rightarrow> params \<Rightarrow> VideoConfig" where
  "video_configFromRosParam par_ints p =
     (let profile = declareOrGet par_ints ''video.profile'' [3840, 1520, 30];
          c0 = \<lparr>v_width = 3840, v_height = 1520, v_fps = 30, v_codec = kH264\<rparr>;
          c1 = (if length profile = 3 \<and> 0 < profile ! 0 \<and> 0 < profile ! 1 \<and> 0 < profile ! 2
                then c0\<lparr>v_width := of_int (profile ! 0), v_height := of_int (profile ! 1), v_fps := of_int (profile ! 2)\<rparr>
                else c0);
          sbs_crop_enabled = declareOrGet (par_bool p) ''video.sbs_crop.enabled'' False;
          margin_param = declareOrGet (par_int p) ''video.sbs_crop.margin_px'' 0;
          c2 = (if sbs_crop_enabled \<and> 0 < margin_param
                then (let margin = of_int margin_param; half_width = v_width c1 div 2
                      in if margin * 2 < half_width \<and> margin * 4 < v_width c1
                         then c1\<lparr>v_width := (v_width c1 - margin * 4) AND NOT 1\<rparr> else c1)
                else c1);
          codec = map tolower (declareOrGet (par_string p) ''video.encoder.codec'' ''h264'')
      in c2\<lparr>v_codec := (if codec = ''h265'' \<or> codec = ''hevc'' then kH265
                        else if codec = ''h264'' \<or> codec = ''avc'' then kH264 else kH264)\<rparr>)"

text \<open>The statistics of the stream manager, as far as the node reads them.\<close>

record VideoManagerStats =
  capture_frames :: u64
  decode_frames :: u64
  convert_frames :: u64
  encode_frames :: u64
  decoder_drops :: u64
  converter_pool_drops :: u64
  converter_failures :: u64
  encoder_submit_failures :: u64
  undistort_frames :: u64
  undistort_pool_drops :: u64
  undistort_failures :: u64

record VideoModule =
  vm_config :: VideoConfig
  vm_manager_running :: bool
  encoded_callback :: bool
  sps_pps_callback :: bool
  cached_sps :: bytes
  cached_pps :: bytes
  cached_vps :: bytes
  sps_pps_emitted :: bool

datatype video_output =
    EncodedFrame "bytes option" u64 bool
  | SpsPps bytes bytes bytes

definition VideoModule_init :: "VideoConfig \<Rightarrow> VideoModule" where
  "VideoModule_init c = \<lparr>vm_config = c, vm_manager_running = False, encoded_callback = False, sps_pps_callback = False,
     cached_sps = [], cached_pps = [], cached_vps = [], sps_pps_emitted = False\<rparr>"

definition parameterSetsReady :: "VideoModule \<Rightarrow> bool" where
  "parameterSetsReady v =
     (if v_codec (vm_config v) = kH265 then cached_vps v \<noteq> [] \<and> cached_sps v \<noteq> [] \<and> cached_pps v \<noteq> []
      else cached_sps v \<noteq> [] \<and> cached_pps v \<noteq> [])"

definition emitCachedParameterSetsIfReady :: "VideoModule \<Rightarrow> video_output list \<times> VideoModule" where
  "emitCachedParameterSetsIfReady v =
     (if \<not> parameterSetsReady v \<or> \<not> sps_pps_callback v then ([], v)
      else if sps_pps_emitted v then ([], v)
      else ([SpsPps (cached_sps v) (cached_pps v) (cached_vps v)], v\<lparr>sps_pps_emitted := True\<rparr>))"

text \<open>The callback the module gives the stream manager: the encoder has captured the parameter sets.\<close>

definition parameter_sets_captured :: "bytes \<Rightarrow> bytes \<Rightarrow> bytes \<Rightarrow> VideoModule \<Rightarrow> video_output list \<times> VideoModule" where
  "parameter_sets_captured sps pps vps v =
     emitCachedParameterSetsIfReady (v\<lparr>cached_sps := sps, cached_pps := pps, cached_vps := vps\<rparr>)"

definition vm_start :: "bool \<Rightarrow> VideoModule \<Rightarrow> bool \<times> video_output list \<times> VideoModule" where
  "vm_start manager_started v =
     (if vm_manager_running v then (case emitCachedParameterSetsIfReady v of (out, v1) \<Rightarrow> (True, out, v1))
      else if \<not> manager_started then (False, [], v)
      else (case emitCachedParameterSetsIfReady (v\<lparr>vm_manager_running := True\<rparr>) of (out, v1) \<Rightarrow> (True, out, v1)))"

definition vm_stop :: "VideoModule \<Rightarrow> VideoModule" where
  "vm_stop v = v\<lparr>vm_manager_running := False\<rparr>"

definition vm_isRunning :: "VideoModule \<Rightarrow> bool" where
  "vm_isRunning v = vm_manager_running v"

definition vm_setEncodedFrameCallback :: "bool \<Rightarrow> VideoModule \<Rightarrow> VideoModule" where
  "vm_setEncodedFrameCallback b v = v\<lparr>encoded_callback := b\<rparr>"

definition vm_setSpsPpsCallback :: "bool \<Rightarrow> VideoModule \<Rightarrow> video_output list \<times> VideoModule" where
  "vm_setSpsPpsCallback b v = emitCachedParameterSetsIfReady (v\<lparr>sps_pps_callback := b\<rparr>)"

definition hasSpsPps :: "VideoModule \<Rightarrow> bool" where
  "hasSpsPps v = parameterSetsReady v"

definition getSpsPps :: "VideoModule \<Rightarrow> (bytes \<times> bytes \<times> bytes) option" where
  "getSpsPps v = (if \<not> parameterSetsReady v then None else Some (cached_sps v, cached_pps v, cached_vps v))"

definition clearSpsPps :: "VideoModule \<Rightarrow> VideoModule" where
  "clearSpsPps v = v\<lparr>cached_sps := [], cached_pps := [], cached_vps := [], sps_pps_emitted := False\<rparr>"

section \<open>Encoded frames\<close>

text \<open>The callback on a NAL unit; the flag is \<open>became_ready\<close>.\<close>

definition take_nal :: "bytes \<Rightarrow> bool \<times> VideoModule \<Rightarrow> bool \<times> VideoModule" where
  "take_nal nal x = (case x of (became_ready, v) \<Rightarrow>
     if length nal < 1 then (became_ready, v)
     else if v_codec (vm_config v) = kH265
     then (if length nal < 2 then (became_ready, v)
           else (let nal_unit_type = drop_bit 1 (nal ! 0) AND 0x3F;
                     v1 = (if nal_unit_type = 32 \<and> cached_vps v = [] then v\<lparr>cached_vps := nal\<rparr>
                           else if nal_unit_type = 33 \<and> cached_sps v = [] then v\<lparr>cached_sps := nal\<rparr>
                           else if nal_unit_type = 34 \<and> cached_pps v = [] then v\<lparr>cached_pps := nal\<rparr>
                           else v)
                 in (parameterSetsReady v1, v1)))
     else (let nal_unit_type = nal ! 0 AND 0x1F;
               v1 = (if nal_unit_type = 7 \<and> cached_sps v = [] then v\<lparr>cached_sps := nal\<rparr>
                     else if nal_unit_type = 8 \<and> cached_pps v = [] then v\<lparr>cached_pps := nal\<rparr>
                     else v)
           in (parameterSetsReady v1, v1)))"

definition updateParameterSets :: "bytes option \<Rightarrow> VideoModule \<Rightarrow> video_output list \<times> VideoModule" where
  "updateParameterSets data v =
     (case data of
        None \<Rightarrow> ([], v)
      | Some d \<Rightarrow>
          if d = [] then ([], v)
          else if parameterSetsReady v then ([], v)
          else (let format = detectStreamFormat d
                in if format = UnknownFormat then ([], v)
                   else (case fold take_nal (forEachNal d format) (False, v) of
                           (became_ready, v1) \<Rightarrow> if became_ready then emitCachedParameterSetsIfReady v1 else ([], v1))))"

definition vm_onEncodedFrame :: "bytes option \<Rightarrow> u64 \<Rightarrow> bool \<Rightarrow> VideoModule \<Rightarrow> video_output list \<times> VideoModule" where
  "vm_onEncodedFrame data timestamp_us keyframe v =
     (case updateParameterSets data v of (out, v1) \<Rightarrow>
       (out @ (if encoded_callback v1 then [EncodedFrame data timestamp_us keyframe] else []), v1))"

section \<open>Streams of units\<close>

text \<open>A unit as an encoder writes it: not empty, not ending in a zero byte, and without 00 00 00 or 00 00 01 inside.\<close>

definition clean :: "bytes \<Rightarrow> bool" where
  "clean n \<longleftrightarrow> n \<noteq> [] \<and> n ! (length n - 1) \<noteq> 0
     \<and> (\<forall>i. i + 2 < length n \<longrightarrow> \<not> (n ! i = 0 \<and> n ! (i + 1) = 0 \<and> (n ! (i + 2) = 0 \<or> n ! (i + 2) = 1)))"

definition annexb_stream :: "bytes list \<Rightarrow> bytes" where
  "annexb_stream nals = concat (map (\<lambda>n. [0, 0, 0, 1] @ n) nals)"

definition be32_bytes :: "nat \<Rightarrow> bytes" where
  "be32_bytes k = [of_nat (k div 2 ^ 24), of_nat (k div 2 ^ 16), of_nat (k div 2 ^ 8), of_nat k]"

definition avcc_stream :: "bytes list \<Rightarrow> bytes" where
  "avcc_stream nals = concat (map (\<lambda>n. be32_bytes (length n) @ n) nals)"

lemma clean_no_code:
  assumes "clean n" "k < length n"
  shows "is_start_code (pre @ n @ suf) (length pre + k) = None"
proof -
  let ?d = "pre @ n @ suf" and ?i = "length pre + k"
  have at: "?d ! (length pre + j) = (n @ suf) ! j" for j by (simp add: nth_append)
  have in_n: "(n @ suf) ! j = n ! j" if "j < length n" for j using that by (simp add: nth_append)
  consider "k + 1 = length n" | "k + 2 = length n" | "k + 2 < length n" using assms(2) by linarith
  then have "\<not> (?d ! ?i = 0 \<and> ?d ! (?i + 1) = 0 \<and> (?d ! (?i + 2) = 0 \<or> ?d ! (?i + 2) = 1))"
  proof cases
    case 1
    then have "k = length n - 1" by simp
    then have "?d ! ?i \<noteq> 0" using assms at [of k] in_n [of k] by (simp add: clean_def)
    then show ?thesis by simp
  next
    case 2
    then have "k + 1 = length n - 1" by simp
    then have "n ! (k + 1) \<noteq> 0" using assms(1) unfolding clean_def by metis
    moreover have "?d ! (?i + 1) = n ! (k + 1)" using at [of "k + 1"] in_n [of "k + 1"] 2 by (simp add: add.assoc)
    ultimately have "?d ! (?i + 1) \<noteq> 0" by simp
    then show ?thesis by simp
  next
    case 3
    then have "\<not> (n ! k = 0 \<and> n ! (k + 1) = 0 \<and> (n ! (k + 2) = 0 \<or> n ! (k + 2) = 1))"
      using assms(1) by (simp add: clean_def)
    then show ?thesis using at [of k] at [of "k + 1"] at [of "k + 2"] in_n [of k] in_n [of "k + 1"] in_n [of "k + 2"] 3
      by (simp add: add.assoc)
  qed
  then show ?thesis by (auto simp: is_start_code_def)
qed

lemma stream_start_code:
  assumes "d = pre @ annexb_stream (n # rest)"
  shows "is_start_code d (length pre) = Some 4"
  using assms by (simp add: is_start_code_def annexb_stream_def nth_append)

lemma annexb_stream_length: "nals \<noteq> [] \<Longrightarrow> \<forall>n\<in>set nals. clean n \<Longrightarrow> 5 \<le> length (annexb_stream nals)"
  by (cases nals) (auto simp: annexb_stream_def clean_def Suc_le_eq)

lemma scan_end_unit:
  assumes "clean n" "\<forall>m\<in>set rest. clean m" "k \<le> length n" "d = pre @ n @ annexb_stream rest"
  shows "scan_end d (length pre + k) = length pre + length n"
  using assms(3)
proof (induction "length n - k" arbitrary: k)
  case 0
  then have k: "k = length n" by simp
  show ?case
  proof (cases rest)
    case Nil
    then have "length d = length pre + length n" using assms(4) by (simp add: annexb_stream_def)
    then show ?thesis by (subst scan_end.simps) (simp add: k)
  next
    case (Cons m ms)
    have "5 \<le> length (annexb_stream rest)" using annexb_stream_length [of rest] assms(2) Cons by simp
    then have "length pre + k + 3 < length d" by (simp add: assms(4) k)
    moreover have "is_start_code d (length (pre @ n)) = Some 4"
      by (rule stream_start_code [of d _ m ms]) (simp add: assms(4) Cons)
    ultimately show ?thesis by (subst scan_end.simps) (simp add: k)
  qed
next
  case (Suc r)
  then have k: "k < length n" by simp
  show ?case
  proof (cases "length pre + k + 3 < length d")
    case True
    have "is_start_code d (length pre + k) = None" unfolding assms(4) by (rule clean_no_code [OF assms(1) k])
    then show ?thesis using True Suc.hyps(1) [of "Suc k"] Suc.hyps(2) k by (subst scan_end.simps) simp
  next
    case False
    have "rest = []"
    proof (rule ccontr)
      assume "rest \<noteq> []"
      then have "5 \<le> length (annexb_stream rest)" using annexb_stream_length assms(2) by blast
      with False k show False by (simp add: assms(4))
    qed
    then show ?thesis using False by (subst scan_end.simps) (simp add: assms(4) annexb_stream_def)
  qed
qed

lemma annexb_nals_stream:
  "\<forall>n\<in>set nals. clean n \<Longrightarrow> d = pre @ annexb_stream nals \<Longrightarrow> annexb_nals d (length pre) = nals"
proof (induction nals arbitrary: pre)
  case Nil
  then show ?case by (subst annexb_nals.simps) (simp add: annexb_stream_def)
next
  case (Cons n rest)
  define pre4 where "pre4 = pre @ [0, 0, 0, 1]"
  have l4: "length pre4 = length pre + 4" by (simp add: pre4_def)
  have d: "d = pre4 @ n @ annexb_stream rest" using Cons.prems(2) by (simp add: annexb_stream_def pre4_def)
  have cl: "clean n" "\<forall>m\<in>set rest. clean m" using Cons.prems(1) by simp_all
  have e: "scan_end d (length pre + 4) = length pre + 4 + length n"
    using scan_end_unit [OF cl le0 d] by (simp only: l4 add_0_right)
  have len: "length pre + 3 < length d" "0 < length n" using cl(1) by (auto simp: d l4 clean_def)
  have code: "is_start_code d (length pre) = Some 4" by (rule stream_start_code [OF Cons.prems(2)])
  have "take (length n) (drop (length pre + 4) d) = n" unfolding l4 [symmetric] by (simp add: d)
  moreover have "annexb_nals d (length (pre4 @ n)) = rest"
    by (rule Cons.IH [OF cl(2)]) (simp add: d)
  then have "annexb_nals d (length pre + 4 + length n) = rest" by (simp only: length_append l4)
  ultimately show ?case using len code e by (subst annexb_nals.simps) (simp del: One_nat_def)
qed

lemma be32_be32_bytes: "k < 2 ^ 32 \<Longrightarrow> unat (be32 (pre @ be32_bytes k @ suf) (length pre)) = k"
proof -
  assume k: "k < 2 ^ 32"
  have dv: "be32_bytes k = [of_nat (drop_bit 24 k), of_nat (drop_bit 16 k), of_nat (drop_bit 8 k), of_nat k]"
    by (simp only: be32_bytes_def drop_bit_eq_div)
  have word: "be32 (pre @ be32_bytes k @ suf) (length pre) = of_nat k"
  proof (rule bit_word_eqI)
    fix n assume "n < LENGTH(32)"
    then consider "n < 8" | "8 \<le> n" "n < 16" | "16 \<le> n" "n < 24" | "24 \<le> n" "n < 32" by force
    then show "bit (be32 (pre @ be32_bytes k @ suf) (length pre)) n = bit (of_nat k :: u32) n"
      by cases (auto simp: be32_def dv nth_append bit_simps bit_of_nat_iff)
  qed
  show ?thesis unfolding word using k by (simp add: unsigned_of_nat take_bit_eq_mod)
qed

lemma avcc_nals_stream:
  "\<forall>n\<in>set nals. n \<noteq> [] \<and> length n < 2 ^ 32 \<Longrightarrow> d = pre @ avcc_stream nals \<Longrightarrow> avcc_nals d (length pre) = nals"
proof (induction nals arbitrary: pre)
  case Nil
  then show ?case by (subst avcc_nals.simps) (simp add: avcc_stream_def)
next
  case (Cons n rest)
  define pre4 where "pre4 = pre @ be32_bytes (length n)"
  have l4: "length pre4 = length pre + 4" by (simp add: pre4_def be32_bytes_def)
  have d: "d = pre4 @ n @ avcc_stream rest" using Cons.prems(2) by (simp add: avcc_stream_def pre4_def)
  have n: "n \<noteq> []" "length n < 2 ^ 32" using Cons.prems(1) by simp_all
  have sz: "unat (be32 d (length pre)) = length n"
    unfolding d pre4_def append_assoc by (rule be32_be32_bytes [OF n(2)])
  have "avcc_nals d (length (pre4 @ n)) = rest"
    by (rule Cons.IH) (use Cons.prems(1) d in simp_all)
  then have "avcc_nals d (length pre + 4 + length n) = rest" by (simp only: length_append l4)
  moreover have "take (length n) (drop (length pre + 4) d) = n" unfolding l4 [symmetric] by (simp add: d)
  moreover have "length d = length pre + 4 + length n + length (avcc_stream rest)" by (simp add: d l4)
  ultimately show ?case using n sz by (subst avcc_nals.simps) (simp del: One_nat_def)
qed

section \<open>Parameter sets\<close>

text \<open>What a unit is for the module: 0 an SPS, 1 a PPS, 2 a VPS.\<close>

definition unit_kind :: "Codec \<Rightarrow> bytes \<Rightarrow> nat option" where
  "unit_kind c nal =
     (if nal = [] then None
      else if c = kH265
      then (if length nal < 2 then None
            else if drop_bit 1 (nal ! 0) AND 0x3F = 33 then Some 0
            else if drop_bit 1 (nal ! 0) AND 0x3F = 34 then Some 1
            else if drop_bit 1 (nal ! 0) AND 0x3F = 32 then Some 2 else None)
      else if nal ! 0 AND 0x1F = 7 then Some 0 else if nal ! 0 AND 0x1F = 8 then Some 1 else None)"

text \<open>The first unit of a kind, kept when there is one already.\<close>

definition first_kind :: "Codec \<Rightarrow> nat \<Rightarrow> bytes \<Rightarrow> bytes list \<Rightarrow> bytes" where
  "first_kind c k old nals =
     (if old \<noteq> [] then old
      else case find (\<lambda>n. unit_kind c n = Some k) nals of None \<Rightarrow> [] | Some n \<Rightarrow> n)"

definition with_units :: "bytes list \<Rightarrow> VideoModule \<Rightarrow> VideoModule" where
  "with_units nals v = (let c = v_codec (vm_config v) in
     v\<lparr>cached_sps := first_kind c 0 (cached_sps v) nals, cached_pps := first_kind c 1 (cached_pps v) nals,
       cached_vps := first_kind c 2 (cached_vps v) nals\<rparr>)"

lemma first_kind_simps [simp]:
  "first_kind c k old [] = old"
  "first_kind c k old (n # nals) = first_kind c k (if old = [] \<and> unit_kind c n = Some k then n else old) nals"
  by (auto simp: first_kind_def unit_kind_def)

lemma with_units_Cons: "with_units (n # nals) v = with_units nals (with_units [n] v)"
  by (simp add: with_units_def Let_def)

lemma with_units_Nil [simp]: "with_units [] v = v"
  by (simp add: with_units_def Let_def)

lemma first_kind_grows: "old \<noteq> [] \<Longrightarrow> first_kind c k old nals = old"
  by (simp add: first_kind_def)

lemma ready_mono: "parameterSetsReady v \<Longrightarrow> parameterSetsReady (with_units nals v)"
  by (auto simp: parameterSetsReady_def with_units_def Let_def first_kind_grows split: if_splits)

lemma take_nal_ready:
  assumes "b \<longleftrightarrow> parameterSetsReady v"
  shows "take_nal n (b, v) = (parameterSetsReady (with_units [n] v), with_units [n] v)"
  using assms by (auto simp: take_nal_def with_units_def unit_kind_def Let_def parameterSetsReady_def split: if_splits)

lemma fold_take_nal:
  "b \<longleftrightarrow> parameterSetsReady v \<Longrightarrow> fold take_nal nals (b, v) = (parameterSetsReady (with_units nals v), with_units nals v)"
proof (induction nals arbitrary: b v)
  case (Cons n nals)
  then show ?case using take_nal_ready [OF Cons.prems, of n] by (simp add: with_units_Cons [of n nals])
qed simp

section \<open>Properties\<close>

lemma detect_annexb_stream:
  assumes "clean n" shows "detectStreamFormat (annexb_stream (n # rest)) = AnnexB"
proof -
  have "n \<noteq> []" using assms by (simp add: clean_def)
  then have "has_start_at (annexb_stream (n # rest)) 0" by (simp add: has_start_at_def annexb_stream_def)
  moreover have "0 \<in> set [0..<length (annexb_stream (n # rest)) - 3]" by (simp add: annexb_stream_def)
  ultimately have "list_ex (has_start_at (annexb_stream (n # rest))) [0..<length (annexb_stream (n # rest)) - 3]"
    unfolding list_ex_iff by blast
  then show ?thesis by (simp add: detectStreamFormat_def hasAnnexBStartCode_def) (simp add: annexb_stream_def)
qed

lemma annexb_units: "\<forall>n\<in>set nals. clean n \<Longrightarrow> forEachNal (annexb_stream nals) AnnexB = nals"
proof (cases nals)
  case Nil
  then show ?thesis by (simp add: forEachNal_def annexb_stream_def)
next
  case (Cons n rest)
  assume cl: "\<forall>n\<in>set nals. clean n"
  have "5 \<le> length (annexb_stream nals)" using annexb_stream_length [of nals] cl Cons by simp
  then show ?thesis using annexb_nals_stream [OF cl, of "annexb_stream nals" "[]"] by (auto simp: forEachNal_def)
qed

text \<open>Round trip of both stream formats: the units of an Annex B stream of clean units, and of a length-prefixed
  stream of units below 4 GiB, are found exactly, in order, and an Annex B stream is recognised as one.\<close>

theorem nal_units_roundtrip:
  assumes "\<forall>n\<in>set nals. clean n \<and> length n < 2 ^ 32"
  shows "forEachNal (annexb_stream nals) AnnexB = nals \<and> forEachNal (avcc_stream nals) Avcc = nals
    \<and> (nals = [] \<or> detectStreamFormat (annexb_stream nals) = AnnexB)"
proof (intro conjI)
  show "forEachNal (annexb_stream nals) AnnexB = nals" using assms by (intro annexb_units) simp
  have "\<forall>n\<in>set nals. n \<noteq> [] \<and> length n < 2 ^ 32" using assms by (auto simp: clean_def)
  from avcc_nals_stream [OF this, of "avcc_stream nals" "[]"]
  show "forEachNal (avcc_stream nals) Avcc = nals"
    by (cases nals) (simp_all add: forEachNal_def avcc_stream_def be32_bytes_def)
  show "nals = [] \<or> detectStreamFormat (annexb_stream nals) = AnnexB"
    using assms detect_annexb_stream by (cases nals) auto
qed

lemma all_nat_less_3: "(\<forall>i. i + 2 < 3 \<longrightarrow> P i) \<longleftrightarrow> P (0 :: nat)"
  by auto

lemma clean_three: "clean [a, b, c] \<longleftrightarrow> c \<noteq> 0 \<and> \<not> (a = 0 \<and> b = 0 \<and> c = 1)"
proof -
  have "length [a, b, c] = 3" by simp
  then show ?thesis unfolding clean_def by (simp only: all_nat_less_3) auto
qed

lemma clean_examples: "clean [0x67, 1, 2]" "clean [0x68, 0, 3]"
  by (simp_all add: clean_three)

theorem nal_units_roundtrip_witness:
  "forEachNal [0, 0, 0, 1, 0x67, 1, 2, 0, 0, 0, 1, 0x68, 0, 3] AnnexB = [[0x67, 1, 2], [0x68, 0, 3]]
   \<and> forEachNal [0, 0, 0, 3, 0x67, 1, 2, 0, 0, 0, 3, 0x68, 0, 3] Avcc = [[0x67, 1, 2], [0x68, 0, 3]]"
proof -
  have "\<forall>n\<in>set [[0x67, 1, 2], [0x68, 0, 3 :: u8]]. clean n \<and> length n < 2 ^ 32" using clean_examples by simp
  from nal_units_roundtrip [OF this] show ?thesis by (simp add: annexb_stream_def avcc_stream_def be32_bytes_def)
qed

lemma clean_Cons:
  assumes "clean n" "n ! 0 \<noteq> 0"
  shows "clean (x # n)"
  unfolding clean_def
proof (intro conjI allI impI)
  show "(x # n) ! (length (x # n) - 1) \<noteq> 0" using assms(1) by (simp add: clean_def nth_Cons')
  fix i assume "i + 2 < length (x # n)"
  then show "\<not> ((x # n) ! i = 0 \<and> (x # n) ! (i + 1) = 0 \<and> ((x # n) ! (i + 2) = 0 \<or> (x # n) ! (i + 2) = 1))"
    using assms by (cases i) (auto simp: clean_def)
qed simp

text \<open>The detection trusts start codes first, so a length prefix can pass for one: a length-prefixed stream of one
  unit of 256 to 511 bytes begins with 00 00 01, is taken for Annex B, and comes out as one unit with a byte of its
  length in front of its header.\<close>

theorem avcc_unit_of_256_bytes_misread:
  assumes "clean n" "n ! 0 \<noteq> 0" "256 \<le> length n" "length n < 512"
  shows "forEachNal (avcc_stream [n]) (detectStreamFormat (avcc_stream [n])) = [of_nat (length n) # n]"
proof -
  let ?x = "of_nat (length n) :: u8" and ?d = "avcc_stream [n]"
  have "length n div 2 ^ 8 = 1" "length n div 2 ^ 16 = 0" "length n div 2 ^ 24 = 0" using assms(3,4) by simp_all
  then have d: "?d = [0, 0, 1] @ (?x # n) @ annexb_stream []"
    by (simp add: avcc_stream_def be32_bytes_def annexb_stream_def)
  have "has_start_at ?d 0" by (simp add: has_start_at_def d)
  moreover have "0 \<in> set [0..<length ?d - 3]" using assms(3) by (simp add: d)
  ultimately have "list_ex (has_start_at ?d) [0..<length ?d - 3]" unfolding list_ex_iff by blast
  then have fmt: "detectStreamFormat ?d = AnnexB" using assms(3) by (simp add: detectStreamFormat_def hasAnnexBStartCode_def) (simp add: d)
  have code: "is_start_code ?d 0 = Some 3" by (simp add: is_start_code_def d)
  have "scan_end ?d (length [0, 0, 1 :: u8] + 0) = length [0, 0, 1 :: u8] + length (?x # n)"
    by (rule scan_end_unit [OF clean_Cons [OF assms(1,2)] _ le0 d]) simp
  then have e: "scan_end ?d 3 = length ?d" by (simp add: d numeral_3_eq_3 annexb_stream_def)
  have "annexb_nals ?d (length ?d) = []" by (subst annexb_nals.simps) simp
  then have "annexb_nals ?d 0 = [?x # n]"
    using code e assms(3) by (subst annexb_nals.simps) (simp add: d annexb_stream_def)
  then show ?thesis unfolding fmt by (simp add: forEachNal_def) (simp add: d)
qed

definition long_sps :: bytes where
  "long_sps = 0x67 # replicate 299 0x55"

theorem avcc_unit_of_256_bytes_misread_witness:
  "forEachNal (avcc_stream [long_sps]) (detectStreamFormat (avcc_stream [long_sps])) = [0x2C # long_sps]"
proof -
  have "long_sps ! i \<noteq> 0" if "i < 300" for i using that by (cases i) (simp_all add: long_sps_def)
  then have "clean long_sps" "long_sps ! 0 \<noteq> 0" by (auto simp: clean_def long_sps_def)
  from avcc_unit_of_256_bytes_misread [OF this] show ?thesis by (simp add: long_sps_def)
qed

text \<open>From the encoded stream to the node: after an access unit the module holds the first SPS, PPS and VPS it has
  seen since the sets were cleared, and it tells the node at the moment the sets its codec needs are complete, once.\<close>

theorem parameter_sets_from_stream:
  assumes "\<forall>n\<in>set nals. clean n" "nals \<noteq> []" "\<not> parameterSetsReady v"
  shows "updateParameterSets (Some (annexb_stream nals)) v =
    (let w = with_units nals v
     in if parameterSetsReady w \<and> sps_pps_callback v \<and> \<not> sps_pps_emitted v
        then ([SpsPps (cached_sps w) (cached_pps w) (cached_vps w)], w\<lparr>sps_pps_emitted := True\<rparr>) else ([], w))"
proof -
  obtain n rest where n: "nals = n # rest" using assms(2) by (cases nals) auto
  have "annexb_stream nals \<noteq> []" "detectStreamFormat (annexb_stream nals) = AnnexB"
    using detect_annexb_stream [of n rest] assms(1) n by (auto simp: annexb_stream_def)
  moreover have "fold take_nal nals (False, v) = (parameterSetsReady (with_units nals v), with_units nals v)"
    by (rule fold_take_nal) (use assms(3) in simp)
  moreover have "sps_pps_callback (with_units nals v) = sps_pps_callback v" "sps_pps_emitted (with_units nals v) = sps_pps_emitted v"
    by (simp_all add: with_units_def Let_def)
  ultimately show ?thesis
    using assms(3) annexb_units [OF assms(1)]
    by (simp add: updateParameterSets_def emitCachedParameterSetsIfReady_def Let_def)
qed

definition video_h264 :: VideoModule where
  "video_h264 = (VideoModule_init \<lparr>v_width = 3840, v_height = 1520, v_fps = 30, v_codec = kH264\<rparr>)\<lparr>sps_pps_callback := True\<rparr>"

theorem parameter_sets_from_stream_witness:
  "fst (updateParameterSets (Some (annexb_stream [[0x67, 1, 2], [0x68, 0, 3]])) video_h264) = [SpsPps [0x67, 1, 2] [0x68, 0, 3] []]"
proof -
  have "\<forall>n\<in>set [[0x67, 1, 2], [0x68, 0, 3 :: u8]]. clean n" using clean_examples by simp
  from parameter_sets_from_stream [OF this, of video_h264] show ?thesis
    by (simp add: video_h264_def VideoModule_init_def parameterSetsReady_def with_units_def first_kind_def unit_kind_def Let_def)
qed

end
