(* ===== verification/MainNode.thy ===== *)
theory MainNode
  imports AudioModule RobotTelemetry VideoModule
begin

text \<open>
  \<open>src/src/main_node.cpp\<close>: the node. It owns the four modules (gRPC, audio, UDP, video), and drives them through
  the states connecting, registered, pairing, negotiating and running from their callbacks, from the events of
  the signaling service and from its own timers. A handler is a function of the node; what the modules call
  back while they are called is part of the step. Callbacks that come from other threads (a lost UDP peer, an
  event, the end of the event stream) go into the work queue, as in the code.

  What the service answers, whether timers and the pipelines could be started, the clocks and the libraries are
  the fields of \<open>node_env\<close>. An answer of the service is a function of the number of requests sent before.
\<close>

section \<open>State\<close>

datatype State = kConnecting | kRegistered | kPairing | kNegotiating | kRunning

datatype node_timer =
    NegotiationRetry | PeerSubscriptionRetry | PairingRetry | RegisteredSetupRetry
  | SessionWork | VideoStats | Telemetry | JointTelemetry

datatype PairEvent_Op = PairEvent_REQUEST | PairEvent_ACCEPT | PairEvent_REJECT | PairEvent_UNPAIR

datatype SystemCommand_Action = UNKNOWN | RECONNECT_GRPC | REQUEST_PING | REQUEST_UDP_HELLO

record EndpointInfo =
  ei_session_id :: string
  ei_device_type_code :: string

datatype EventMessage =
    PairEvent PairEvent_Op "EndpointInfo option"
  | SystemCommand SystemCommand_Action
  | NoPayload

text \<open>The closures of the work queue.\<close>

datatype session_work = StreamEndWork | PeerLostWork | SignalingWork EventMessage

text \<open>A timer is \<open>None\<close> before it is created, \<open>Some True\<close> while it runs, \<open>Some False\<close> when it is cancelled. A time
  of 0 is unset. \<open>n_sent\<close> are the requests sent to the service, and \<open>n_keyframes\<close> the times at which a key
  frame was asked for: what the node does to the outside.\<close>

record 'c MainNode =
  n_grpc :: "GrpcModule option"
  n_audio :: "AudioModule option"
  n_udp :: "'c UdpModule option"
  n_video :: "VideoModule option"
  n_timer :: "node_timer \<Rightarrow> bool option"
  last_video_stats_time :: int
  video_start_time :: int
  last_video_keyframe_request_time :: int
  n_state :: State
  n_shutting_down :: bool
  session_teardown_in_progress :: bool
  n_direct :: bool
  session_work_queue :: "session_work list"
  subscribe_vr_pose_flag :: bool
  pair_auto_accept :: bool
  pair_auto_request :: bool
  pair_list_unpaired_on_start :: bool
  desired_peer_session_id :: string
  desired_peer_device_type_code :: string
  paired_peer_session_id :: string
  pair_mode :: string
  publisher_manifest_published :: bool
  peer_streams_subscribed :: bool
  peer_subscribed_prefixes :: "u8 list"
  video_config_sent :: bool
  video_started :: bool
  telemetry_config :: RobotTelemetryConfig
  joint_telemetry_config :: RobotJointTelemetryConfig
  telemetry_active :: bool
  joint_telemetry_active :: bool
  dropped_video_before_running :: u64
  n_sent :: sent
  n_keyframes :: "int list"

record 'c node_env =
  ne_context_valid :: bool
  ne_timer_ok :: "node_timer \<Rightarrow> bool"
  ne_fl :: "double \<Rightarrow> double"
  ne_udp :: env
  ne_fec0 :: 'c
  ne_now :: int
  ne_now_ms :: u64
  ne_now_us :: u64
  ne_ntp :: u64
  ne_video_started :: bool
  ne_gst :: gst
  ne_playback :: "AudioRxPacket \<Rightarrow> bool \<times> bool \<times> bool"
  ne_to_json :: "document \<Rightarrow> string option"
  ne_of_json :: "string \<Rightarrow> document option"
  ne_encode_block :: "bytes \<Rightarrow> string \<times> int"
  ne_genv :: genv
  ne_bool :: "nat \<Rightarrow> bool answer"
  ne_endpoints :: "nat \<Rightarrow> (bool \<times> UnpairedEndpoint list) answer"
  ne_manifest :: "nat \<Rightarrow> u32 list answer"
  ne_config :: "nat \<Rightarrow> (bool \<times> bool) answer"
  ne_item :: "nat \<Rightarrow> StreamConfigItem answer"
  ne_register :: "RegisterResponse answer"
  ne_heartbeat :: "unit answer"

section \<open>Timers and module calls\<close>

definition canScheduleRosWork :: "'c node_env \<Rightarrow> 'c MainNode \<Rightarrow> bool" where
  "canScheduleRosWork e n \<longleftrightarrow> \<not> n_shutting_down n \<and> ne_context_valid e"

definition ensure_timer :: "node_timer \<Rightarrow> 'c node_env \<Rightarrow> 'c MainNode \<Rightarrow> 'c MainNode" where
  "ensure_timer t e n =
     (if \<not> canScheduleRosWork e n then n
      else if ne_timer_ok e t then n\<lparr>n_timer := (n_timer n)(t \<mapsto> True)\<rparr> else n)"

definition stop_timer :: "node_timer \<Rightarrow> 'c MainNode \<Rightarrow> 'c MainNode" where
  "stop_timer t n = n\<lparr>n_timer := (n_timer n)(t := map_option (\<lambda>_. False) (n_timer n t))\<rparr>"

definition ensureNegotiationRetryTimer :: "'c node_env \<Rightarrow> 'c MainNode \<Rightarrow> 'c MainNode" where
  "ensureNegotiationRetryTimer = ensure_timer NegotiationRetry"

definition stopNegotiationRetryTimer :: "'c MainNode \<Rightarrow> 'c MainNode" where
  "stopNegotiationRetryTimer = stop_timer NegotiationRetry"

definition ensurePeerSubscriptionRetryTimer :: "'c node_env \<Rightarrow> 'c MainNode \<Rightarrow> 'c MainNode" where
  "ensurePeerSubscriptionRetryTimer = ensure_timer PeerSubscriptionRetry"

definition stopPeerSubscriptionRetryTimer :: "'c MainNode \<Rightarrow> 'c MainNode" where
  "stopPeerSubscriptionRetryTimer = stop_timer PeerSubscriptionRetry"

definition ensurePairingRetryTimer :: "'c node_env \<Rightarrow> 'c MainNode \<Rightarrow> 'c MainNode" where
  "ensurePairingRetryTimer = ensure_timer PairingRetry"

definition stopPairingRetryTimer :: "'c MainNode \<Rightarrow> 'c MainNode" where
  "stopPairingRetryTimer = stop_timer PairingRetry"

definition ensureRegisteredSetupRetryTimer :: "'c node_env \<Rightarrow> 'c MainNode \<Rightarrow> 'c MainNode" where
  "ensureRegisteredSetupRetryTimer = ensure_timer RegisteredSetupRetry"

definition stopRegisteredSetupRetryTimer :: "'c MainNode \<Rightarrow> 'c MainNode" where
  "stopRegisteredSetupRetryTimer = stop_timer RegisteredSetupRetry"

definition setState :: "State \<Rightarrow> 'c MainNode \<Rightarrow> 'c MainNode" where
  "setState next_state n = n\<lparr>n_state := next_state\<rparr>"

definition stateToString :: "State \<Rightarrow> string" where
  "stateToString s = (case s of kConnecting \<Rightarrow> ''connecting'' | kRegistered \<Rightarrow> ''registered'' | kPairing \<Rightarrow> ''pairing''
     | kNegotiating \<Rightarrow> ''negotiating'' | kRunning \<Rightarrow> ''running'')"

text \<open>\<open>if (audio_module_) ...\<close>, and the same for the other modules.\<close>

definition on_audio :: "(AudioModule \<Rightarrow> AudioModule) \<Rightarrow> 'c MainNode \<Rightarrow> 'c MainNode" where
  "on_audio f n = n\<lparr>n_audio := map_option f (n_audio n)\<rparr>"

definition on_udp :: "('c UdpModule \<Rightarrow> 'c UdpModule) \<Rightarrow> 'c MainNode \<Rightarrow> 'c MainNode" where
  "on_udp f n = n\<lparr>n_udp := map_option f (n_udp n)\<rparr>"

definition on_video :: "(VideoModule \<Rightarrow> VideoModule) \<Rightarrow> 'c MainNode \<Rightarrow> 'c MainNode" where
  "on_video f n = n\<lparr>n_video := map_option f (n_video n)\<rparr>"

text \<open>A call of the gRPC module that answers and sends, but leaves the module as it is.\<close>

definition call_grpc :: "(GrpcModule \<Rightarrow> 'a \<times> sent) \<Rightarrow> 'a \<Rightarrow> 'c MainNode \<Rightarrow> 'a \<times> 'c MainNode" where
  "call_grpc f d n =
     (case n_grpc n of
        None \<Rightarrow> (d, n)
      | Some g \<Rightarrow> (case f g of (r, out) \<Rightarrow> (r, n\<lparr>n_sent := n_sent n @ out\<rparr>)))"

definition requests_of :: "grpc_output list \<Rightarrow> sent" where
  "requests_of out = concat (map (\<lambda>x. case x of Sent sid req \<Rightarrow> [(sid, req)] | _ \<Rightarrow> []) out)"

definition grpc_registered :: "'c MainNode \<Rightarrow> bool" where
  "grpc_registered n = (case n_grpc n of None \<Rightarrow> False | Some g \<Rightarrow> gr_registered g)"

definition audio_enabled :: "'c MainNode \<Rightarrow> bool" where
  "audio_enabled n = (case n_audio n of None \<Rightarrow> False | Some a \<Rightarrow> aud_isEnabled a)"

definition publishes_audio :: "'c MainNode \<Rightarrow> bool" where
  "publishes_audio n = (case n_audio n of None \<Rightarrow> False | Some a \<Rightarrow> aud_isEnabled a \<and> uplink_enabled (aud_config a))"

definition audio_published :: "'c MainNode \<Rightarrow> bool" where
  "audio_published n = (case n_audio n of None \<Rightarrow> False | Some a \<Rightarrow> config_published a)"

definition wantsRemoteAudio :: "'c MainNode \<Rightarrow> bool" where
  "wantsRemoteAudio n = (case n_audio n of None \<Rightarrow> False | Some a \<Rightarrow> aud_isEnabled a \<and> downlink_enabled (aud_config a))"

definition hasParameterSets :: "'c MainNode \<Rightarrow> bool" where
  "hasParameterSets n = (case n_video n of None \<Rightarrow> False | Some v \<Rightarrow> hasSpsPps v)"

definition video_running :: "'c MainNode \<Rightarrow> bool" where
  "video_running n = (case n_video n of None \<Rightarrow> False | Some v \<Rightarrow> vm_isRunning v)"

section \<open>Telemetry\<close>

definition publishRobotTelemetrySnapshot :: "'c node_env \<Rightarrow> 'c MainNode \<Rightarrow> 'c MainNode" where
  "publishRobotTelemetrySnapshot e n =
     (if \<not> telemetry_active n \<or> n_udp n = None then n
      else on_udp (module_sendRobotTelemetry (ne_now_ms e) (ne_now_us e) (tc_snapshot (telemetry_config n))) n)"

definition publishRobotJointTelemetrySnapshot :: "'c node_env \<Rightarrow> 'c MainNode \<Rightarrow> 'c MainNode" where
  "publishRobotJointTelemetrySnapshot e n =
     (if \<not> joint_telemetry_active n \<or> n_udp n = None then n
      else on_udp (module_sendRobotJointTelemetry (ne_now_ms e) (ne_now_us e) (jc_snapshot (joint_telemetry_config n))) n)"

definition isRobotTelemetryOnline :: "'c MainNode \<Rightarrow> bool" where
  "isRobotTelemetryOnline n =
     (if n_shutting_down n \<or> \<not> (tc_enabled (telemetry_config n) \<or> jc_enabled (joint_telemetry_config n)) then False
      else if n_direct n then False
      else if \<not> grpc_registered n then False
      else (case n_udp n of
              None \<Rightarrow> False
            | Some u \<Rightarrow> if \<not> isRunning u then False
                        else if controlEnabled u \<and> \<not> module_handshakeReady u then False else True))"

definition start_low_rate :: "'c node_env \<Rightarrow> 'c MainNode \<Rightarrow> 'c MainNode" where
  "start_low_rate e n =
     (if tc_enabled (telemetry_config n) \<and> \<not> telemetry_active n
      then publishRobotTelemetrySnapshot e
             (if ne_timer_ok e Telemetry then n\<lparr>telemetry_active := True, n_timer := (n_timer n)(Telemetry \<mapsto> True)\<rparr>
              else n\<lparr>telemetry_active := False\<rparr>)
      else n)"

definition start_high_rate :: "'c node_env \<Rightarrow> 'c MainNode \<Rightarrow> 'c MainNode" where
  "start_high_rate e n =
     (if jc_enabled (joint_telemetry_config n) \<and> \<not> joint_telemetry_active n
      then publishRobotJointTelemetrySnapshot e
             (if ne_timer_ok e JointTelemetry then n\<lparr>joint_telemetry_active := True, n_timer := (n_timer n)(JointTelemetry \<mapsto> True)\<rparr>
              else n\<lparr>joint_telemetry_active := False\<rparr>)
      else n)"

definition startRobotTelemetry :: "'c node_env \<Rightarrow> 'c MainNode \<Rightarrow> 'c MainNode" where
  "startRobotTelemetry e n = (if \<not> canScheduleRosWork e n then n else start_high_rate e (start_low_rate e n))"

definition stopRobotTelemetry :: "'c MainNode \<Rightarrow> 'c MainNode" where
  "stopRobotTelemetry n =
     stop_timer JointTelemetry (stop_timer Telemetry (n\<lparr>telemetry_active := False, joint_telemetry_active := False\<rparr>))"

definition updateRobotTelemetryLifecycle :: "'c node_env \<Rightarrow> 'c MainNode \<Rightarrow> 'c MainNode" where
  "updateRobotTelemetryLifecycle e n = (if isRobotTelemetryOnline n then startRobotTelemetry e n else stopRobotTelemetry n)"

definition telemetryTimerCallback :: "'c node_env \<Rightarrow> 'c MainNode \<Rightarrow> 'c MainNode" where
  "telemetryTimerCallback e n =
     (if \<not> telemetry_active n then n
      else if \<not> isRobotTelemetryOnline n then stopRobotTelemetry n
      else publishRobotTelemetrySnapshot e n)"

definition jointTelemetryTimerCallback :: "'c node_env \<Rightarrow> 'c MainNode \<Rightarrow> 'c MainNode" where
  "jointTelemetryTimerCallback e n =
     (if \<not> joint_telemetry_active n then n
      else if \<not> isRobotTelemetryOnline n then stopRobotTelemetry n
      else publishRobotJointTelemetrySnapshot e n)"

section \<open>Publishing and negotiation\<close>

definition publishLocalStreamManifest :: "'c node_env \<Rightarrow> 'c MainNode \<Rightarrow> bool \<times> 'c MainNode" where
  "publishLocalStreamManifest e n =
     (if \<not> grpc_registered n then (False, n)
      else call_grpc (publishRobotStreamManifest (publishes_audio n) (tc_enabled (telemetry_config n))
             (jc_enabled (joint_telemetry_config n)) (ne_bool e (length (n_sent n)))) False n)"

definition node_publishVideoConfig :: "'c node_env \<Rightarrow> 'c MainNode \<Rightarrow> bool \<times> 'c MainNode" where
  "node_publishVideoConfig e n =
     (if n_shutting_down n then (False, n)
      else if n_direct n then (True, n\<lparr>video_config_sent := True\<rparr>)
      else if n_grpc n = None then (False, n)
      else (case n_video n of
              None \<Rightarrow> (False, n)
            | Some v \<Rightarrow>
                if video_config_sent n then (True, n)
                else (case getSpsPps v of
                        None \<Rightarrow> (False, n)
                      | Some (sps, pps, vps) \<Rightarrow>
                          (let c = vm_config v;
                               (ok, n1) = call_grpc (publishVideoConfig (ne_to_json e) (ne_encode_block e) (v_width c) (v_height c)
                                 (v_fps c) (if v_codec c = kH265 then kH265 else kH264) sps pps vps None
                                 (ne_config e (length (n_sent n)))) False n
                           in if \<not> ok then (False, n1) else (True, n1\<lparr>video_config_sent := True\<rparr>)))))"

definition audio_config_of :: "AudioConfig \<Rightarrow> GrpcAudioConfig" where
  "audio_config_of c = \<lparr>ga_sample_rate = sample_rate c, ga_channels = channels c,
     ga_frame_duration_ms = ac_frame_duration_ms c, ga_samples_per_channel = samples_per_channel c,
     ga_bitrate_bps = bitrate_bps c, ga_opus_inband_fec_enabled = opus_inband_fec_enabled c,
     ga_opus_dtx_enabled = opus_dtx_enabled c\<rparr>"

definition node_publishAudioConfig :: "'c node_env \<Rightarrow> 'c MainNode \<Rightarrow> bool \<times> 'c MainNode" where
  "node_publishAudioConfig e n =
     (if n_shutting_down n then (False, n)
      else if n_direct n then (True, on_audio markConfigPublished n)
      else (case n_audio n of
              None \<Rightarrow> (False, n)
            | Some a \<Rightarrow>
                if \<not> aud_isEnabled a \<or> n_grpc n = None then (False, n)
                else if config_published a then (True, n)
                else (let (ok, n1) = call_grpc (publishAudioConfig (ne_to_json e) (audio_config_of (aud_config a))
                            (ne_config e (length (n_sent n)))) False n
                      in if \<not> ok then (False, n1) else (True, on_audio markConfigPublished n1))))"

definition enter_running :: "'c node_env \<Rightarrow> 'c MainNode \<Rightarrow> 'c MainNode" where
  "enter_running e n =
     (let n1 = (if audio_enabled n \<and> \<not> publishes_audio n then on_audio markConfigPublished n else n);
          n2 = setState kRunning (stopNegotiationRetryTimer n1);
          n3 = on_audio (\<lambda>a. snd (aud_start (ne_gst e) a)) n2
      in if subscribe_vr_pose_flag n3 \<or> wantsRemoteAudio n3 then ensurePeerSubscriptionRetryTimer e n3
         else n3\<lparr>peer_streams_subscribed := True\<rparr>)"

definition tryAdvanceNegotiation :: "'c node_env \<Rightarrow> 'c MainNode \<Rightarrow> 'c MainNode" where
  "tryAdvanceNegotiation e n =
     (if n_shutting_down n then n
      else if n_state n \<noteq> kNegotiating then n
      else (case node_publishVideoConfig e n of
              (False, n1) \<Rightarrow> ensureNegotiationRetryTimer e n1
            | (True, n1) \<Rightarrow>
                (case (if publishes_audio n1 \<and> \<not> audio_published n1 then node_publishAudioConfig e n1 else (True, n1)) of
                   (False, n2) \<Rightarrow> ensureNegotiationRetryTimer e n2
                 | (True, n2) \<Rightarrow> enter_running e n2)))"

section \<open>Media\<close>

definition onEncodedVideoFrame :: "'c node_env \<Rightarrow> bytes option \<Rightarrow> u64 \<Rightarrow> bool \<Rightarrow> 'c MainNode \<Rightarrow> 'c MainNode" where
  "onEncodedVideoFrame e data timestamp_us keyframe n =
     (if n_shutting_down n then n
      else if n_state n \<noteq> kRunning then n\<lparr>dropped_video_before_running := dropped_video_before_running n + 1\<rparr>
      else on_udp (module_sendH264Frame (ne_ntp e) (ne_now_us e) data timestamp_us keyframe) n)"

definition onEncodedAudioPacket :: "'c node_env \<Rightarrow> bytes option \<Rightarrow> u64 \<Rightarrow> 'c MainNode \<Rightarrow> 'c MainNode" where
  "onEncodedAudioPacket e data timestamp_ntp n =
     (if n_shutting_down n then n
      else if n_state n \<noteq> kRunning then n
      else if \<not> audio_published n then n
      else on_udp (module_sendAudioPacket (ne_now_us e) data timestamp_ntp) n)"

definition onSpsPpsCaptured :: "'c node_env \<Rightarrow> 'c MainNode \<Rightarrow> 'c MainNode" where
  "onSpsPpsCaptured e n =
     (if n_shutting_down n then n else if n_state n = kNegotiating then tryAdvanceNegotiation e n else n)"

text \<open>What the video module calls back, in order.\<close>

definition run_video :: "'c node_env \<Rightarrow> video_output list \<Rightarrow> 'c MainNode \<Rightarrow> 'c MainNode" where
  "run_video e out n = fold (\<lambda>o1 m. case o1 of
       SpsPps sps pps vps \<Rightarrow> onSpsPpsCaptured e m
     | EncodedFrame data ts key \<Rightarrow> onEncodedVideoFrame e data ts key m) out n"

section \<open>Video\<close>

definition stopVideo :: "'c MainNode \<Rightarrow> 'c MainNode" where
  "stopVideo n = (on_video vm_stop n)\<lparr>video_started := False\<rparr>"

definition resetVideoConfigState :: "'c MainNode \<Rightarrow> 'c MainNode" where
  "resetVideoConfigState n =
     on_video clearSpsPps (n\<lparr>video_config_sent := False, video_started := False, video_start_time := 0,
       last_video_keyframe_request_time := 0\<rparr>)"

definition startVideoAndNegotiate :: "'c node_env \<Rightarrow> 'c MainNode \<Rightarrow> 'c MainNode" where
  "startVideoAndNegotiate e n =
     (if n_shutting_down n then n
      else (case n_video n of
              None \<Rightarrow> n
            | Some v \<Rightarrow>
                if video_started n \<and> vm_isRunning v
                then (let n1 = ensureNegotiationRetryTimer e n
                      in if n_state n1 = kNegotiating \<and> hasParameterSets n1 then tryAdvanceNegotiation e n1 else n1)
                else (case vm_start (ne_video_started e) v of (ok, out, v1) \<Rightarrow>
                       (let n1 = run_video e out (n\<lparr>n_video := Some v1\<rparr>)
                        in if \<not> ok then n1
                           else (let n2 = ensureNegotiationRetryTimer e (n1\<lparr>video_started := True, video_start_time := ne_now e,
                                            last_video_keyframe_request_time := 0\<rparr>)
                                 in if n_state n2 = kNegotiating \<and> hasParameterSets n2 then tryAdvanceNegotiation e n2 else n2)))))"

text \<open>The video module asks its stream manager for a key frame; the answer is only logged.\<close>

definition request_keyframe :: "int \<Rightarrow> 'c MainNode \<Rightarrow> 'c MainNode" where
  "request_keyframe now n = n\<lparr>last_video_keyframe_request_time := now, n_keyframes := n_keyframes n @ [now]\<rparr>"

definition kVideoStartupKeyframeDelay :: int where "kVideoStartupKeyframeDelay = 4000000000"
definition kVideoStartupTimeout :: int where "kVideoStartupTimeout = 8000000000"
definition kVideoKeyframeRequestInterval :: int where "kVideoKeyframeRequestInterval = 1000000000"
definition kVideoBackpressureKeyframeThreshold :: u64 where "kVideoBackpressureKeyframeThreshold = 100"

definition requestVideoKeyframeRecovery :: "int \<Rightarrow> 'c MainNode \<Rightarrow> 'c MainNode" where
  "requestVideoKeyframeRecovery now n =
     (if n_shutting_down n \<or> n_state n \<noteq> kRunning \<or> n_video n = None then n
      else if last_video_keyframe_request_time n \<noteq> 0
              \<and> now - last_video_keyframe_request_time n < kVideoKeyframeRequestInterval then n
      else request_keyframe now n)"

definition should_request_keyframe :: "int \<Rightarrow> 'c MainNode \<Rightarrow> bool" where
  "should_request_keyframe now n \<longleftrightarrow>
     kVideoStartupKeyframeDelay \<le> now - video_start_time n
     \<and> (last_video_keyframe_request_time n = 0 \<or> kVideoKeyframeRequestInterval \<le> now - last_video_keyframe_request_time n)"

definition negotiationRetryTimerCallback :: "'c node_env \<Rightarrow> 'c MainNode \<Rightarrow> 'c MainNode" where
  "negotiationRetryTimerCallback e n =
     (if n_shutting_down n then stopNegotiationRetryTimer n
      else if n_state n \<noteq> kNegotiating then stopNegotiationRetryTimer n
      else if n_video n = None then n
      else if \<not> video_started n \<or> \<not> video_running n then startVideoAndNegotiate e n
      else if hasParameterSets n then tryAdvanceNegotiation e n
      else if video_start_time n \<noteq> 0 \<and> kVideoStartupTimeout \<le> ne_now e - video_start_time n
      then startVideoAndNegotiate e (resetVideoConfigState (stopVideo n))
      else if video_start_time n \<noteq> 0 \<and> should_request_keyframe (ne_now e) n
      then tryAdvanceNegotiation e (request_keyframe (ne_now e) n)
      else tryAdvanceNegotiation e n)"

section \<open>Pairing\<close>

definition tryActivePairing :: "'c node_env \<Rightarrow> 'c MainNode \<Rightarrow> bool \<times> 'c MainNode" where
  "tryActivePairing e n =
     (if n_shutting_down n then (False, n)
      else if \<not> grpc_registered n \<or> n_state n \<noteq> kPairing then (False, n)
      else if \<not> pair_auto_request n then (False, n)
      else (let request = (\<lambda>peer m. call_grpc (gr_requestPair peer (ne_bool e (length (n_sent m)))) False m)
            in if desired_peer_session_id n \<noteq> [] then request (desired_peer_session_id n) n
               else if desired_peer_device_type_code n = [] then (False, n)
               else (case call_grpc (gr_listUnpaired (desired_peer_device_type_code n) (ne_endpoints e (length (n_sent n)))) [] n of
                       ([], n1) \<Rightarrow> (False, n1)
                     | (endpoint # _, n1) \<Rightarrow> request (ue_session_id endpoint) n1)))"

definition enterPairingState :: "'c node_env \<Rightarrow> 'c MainNode \<Rightarrow> 'c MainNode" where
  "enterPairingState e n =
     (case n_grpc n of
        None \<Rightarrow> n
      | Some g \<Rightarrow>
          if n_shutting_down n then n
          else (case startEventStream g of (out, g1) \<Rightarrow>
                 (let n1 = (setState kPairing n)\<lparr>n_grpc := Some g1, n_sent := n_sent n @ requests_of out\<rparr>
                  in if pair_mode n1 = ''active'' then ensurePairingRetryTimer e (snd (tryActivePairing e n1))
                     else stopPairingRetryTimer n1)))"

definition pairingRetryTimerCallback :: "'c node_env \<Rightarrow> 'c MainNode \<Rightarrow> 'c MainNode" where
  "pairingRetryTimerCallback e n =
     (if n_shutting_down n then stopPairingRetryTimer n
      else if n_state n \<noteq> kPairing \<or> pair_mode n \<noteq> ''active'' then stopPairingRetryTimer n
      else snd (tryActivePairing e n))"

section \<open>Work queue\<close>

definition postSessionWork :: "'c node_env \<Rightarrow> session_work \<Rightarrow> 'c MainNode \<Rightarrow> 'c MainNode" where
  "postSessionWork e w n =
     (if \<not> canScheduleRosWork e n then n
      else (let n1 = n\<lparr>session_work_queue := session_work_queue n @ [w]\<rparr>
            in if ne_timer_ok e SessionWork then n1\<lparr>n_timer := (n_timer n1)(SessionWork \<mapsto> True)\<rparr> else n1))"

definition onUdpPeerLost :: "'c node_env \<Rightarrow> 'c MainNode \<Rightarrow> 'c MainNode" where
  "onUdpPeerLost e = postSessionWork e PeerLostWork"

definition onGrpcStreamEnd :: "'c node_env \<Rightarrow> 'c MainNode \<Rightarrow> 'c MainNode" where
  "onGrpcStreamEnd e = postSessionWork e StreamEndWork"

definition onSignalingEvent :: "'c node_env \<Rightarrow> EventMessage \<Rightarrow> 'c MainNode \<Rightarrow> 'c MainNode" where
  "onSignalingEvent e msg = postSessionWork e (SignalingWork msg)"

section \<open>Registration\<close>

definition onUdpHandshakeReady :: "'c node_env \<Rightarrow> 'c MainNode \<Rightarrow> 'c MainNode" where
  "onUdpHandshakeReady e n =
     (if n_direct n \<or> n_shutting_down n then n else enterPairingState e (updateRobotTelemetryLifecycle e n))"

text \<open>What the UDP module calls back, in order. Poses are published by the module itself.\<close>

definition receive_audio :: "'c node_env \<Rightarrow> u16 \<Rightarrow> bytes \<Rightarrow> u64 \<Rightarrow> 'c MainNode \<Rightarrow> 'c MainNode" where
  "receive_audio e sq data ts =
     on_audio (\<lambda>a. snd (snd (receiveRemotePacket (ne_fl e) (ne_playback e) (ne_now e) sq (Some data) ts a)))"

definition run_udp :: "'c node_env \<Rightarrow> module_output list \<Rightarrow> 'c MainNode \<Rightarrow> 'c MainNode" where
  "run_udp e out n = fold (\<lambda>o1 m. case o1 of
       Ready \<Rightarrow> onUdpHandshakeReady e m
     | Peer_Lost \<Rightarrow> onUdpPeerLost e m
     | AudioDatagram sq data ts \<Rightarrow> receive_audio e sq data ts m
     | PoseData p \<Rightarrow> m) out n"

definition start_udp :: "'c node_env \<Rightarrow> string \<Rightarrow> 'c MainNode \<Rightarrow> bool \<times> 'c MainNode" where
  "start_udp e sid n =
     (case n_udp n of
        None \<Rightarrow> (False, n)
      | Some u \<Rightarrow> (case module_start (ne_fl e) (ne_udp e) (ne_fec0 e) sid u of (ok, out, u1) \<Rightarrow>
                    (ok, run_udp e out (n\<lparr>n_udp := Some u1\<rparr>))))"

definition udp_running :: "'c MainNode \<Rightarrow> bool" where
  "udp_running n = (case n_udp n of None \<Rightarrow> False | Some u \<Rightarrow> isRunning u)"

definition completeRegisteredSetup :: "'c node_env \<Rightarrow> 'c MainNode \<Rightarrow> 'c MainNode" where
  "completeRegisteredSetup e n =
     (if n_shutting_down n \<or> \<not> grpc_registered n \<or> n_udp n = None then stopRegisteredSetupRetryTimer n
      else (case (if publisher_manifest_published n then (True, n) else publishLocalStreamManifest e n) of
              (False, n1) \<Rightarrow> ensureRegisteredSetupRetryTimer e n1
            | (True, n1) \<Rightarrow>
                (let n2 = n1\<lparr>publisher_manifest_published := True\<rparr>;
                     sid = (case n_grpc n2 of None \<Rightarrow> [] | Some g \<Rightarrow> gr_sessionId g)
                 in (case (if udp_running n2 then (True, n2) else start_udp e sid n2) of
                       (False, n3) \<Rightarrow> ensureRegisteredSetupRetryTimer e n3
                     | (True, n3) \<Rightarrow> updateRobotTelemetryLifecycle e (stopRegisteredSetupRetryTimer n3)))))"

definition registeredSetupRetryTimerCallback :: "'c node_env \<Rightarrow> 'c MainNode \<Rightarrow> 'c MainNode" where
  "registeredSetupRetryTimerCallback e n =
     (if n_shutting_down n \<or> \<not> grpc_registered n then stopRegisteredSetupRetryTimer n else completeRegisteredSetup e n)"

definition resetPeerSubscriptionState :: "'c MainNode \<Rightarrow> 'c MainNode" where
  "resetPeerSubscriptionState n = n\<lparr>peer_streams_subscribed := False, peer_subscribed_prefixes := []\<rparr>"

definition onGrpcRegistered :: "'c node_env \<Rightarrow> 'c MainNode \<Rightarrow> 'c MainNode" where
  "onGrpcRegistered e n =
     (if n_shutting_down n then n
      else completeRegisteredSetup e (resetPeerSubscriptionState
        ((setState kRegistered (stopRegisteredSetupRetryTimer (stopPairingRetryTimer (stopNegotiationRetryTimer n))))
           \<lparr>publisher_manifest_published := False\<rparr>)))"

section \<open>Teardown\<close>

definition forget_peer :: "'c MainNode \<Rightarrow> 'c MainNode" where
  "forget_peer n = n\<lparr>paired_peer_session_id := [], peer_streams_subscribed := False, peer_subscribed_prefixes := []\<rparr>"

definition teardownActiveSession :: "'c node_env \<Rightarrow> State \<Rightarrow> 'c MainNode \<Rightarrow> 'c MainNode" where
  "teardownActiveSession e target_state n =
     (if n_shutting_down n \<and> target_state \<noteq> kConnecting then n
      else if session_teardown_in_progress n then n
      else (let n1 = setState target_state (n\<lparr>session_teardown_in_progress := True\<rparr>);
                n2 = stopPairingRetryTimer (stopPeerSubscriptionRetryTimer (stopNegotiationRetryTimer (stopRobotTelemetry n1)));
                n3 = on_audio (\<lambda>a. resetRemoteConfig (resetConfigPublished (aud_stop a))) (forget_peer n2);
                n4 = resetVideoConfigState (stopVideo n3);
                n5 = (if target_state = kConnecting then stopRegisteredSetupRetryTimer (n4\<lparr>publisher_manifest_published := False\<rparr>)
                      else n4);
                n6 = (if target_state = kPairing \<or> target_state = kRegistered then on_udp (module_resetSession (ne_udp e)) n5
                      else if target_state = kConnecting then on_udp module_stop n5 else n5);
                n7 = (if target_state = kPairing then enterPairingState e n6 else n6)
            in (updateRobotTelemetryLifecycle e n7)\<lparr>session_teardown_in_progress := False\<rparr>))"

definition onGrpcHeartbeatFail :: "'c node_env \<Rightarrow> 'c MainNode \<Rightarrow> 'c MainNode" where
  "onGrpcHeartbeatFail e n =
     (if n_shutting_down n then n
      else teardownActiveSession e kConnecting (stopRegisteredSetupRetryTimer (stopPeerSubscriptionRetryTimer
             (resetPeerSubscriptionState (n\<lparr>publisher_manifest_published := False\<rparr>)))))"

definition handleUdpPeerLost :: "'c node_env \<Rightarrow> 'c MainNode \<Rightarrow> 'c MainNode" where
  "handleUdpPeerLost e n =
     (if n_shutting_down n then n
      else if n_state n \<noteq> kNegotiating \<and> n_state n \<noteq> kRunning then updateRobotTelemetryLifecycle e n
      else teardownActiveSession e kPairing n)"

definition stream_end_work :: "'c node_env \<Rightarrow> 'c MainNode \<Rightarrow> 'c MainNode" where
  "stream_end_work e n =
     (if n_shutting_down n then n
      else (let n1 = teardownActiveSession e kRegistered n
            in if \<not> n_shutting_down n1 \<and> grpc_registered n1 then enterPairingState e n1 else n1))"

section \<open>Signaling events\<close>

definition peer_matches :: "EndpointInfo \<Rightarrow> 'c MainNode \<Rightarrow> bool" where
  "peer_matches peer n \<longleftrightarrow>
     (desired_peer_session_id n = [] \<or> ei_session_id peer = desired_peer_session_id n)
     \<and> (desired_peer_device_type_code n = [] \<or> prefix (desired_peer_device_type_code n) (ei_device_type_code peer))"

definition pair_with :: "string \<Rightarrow> 'c node_env \<Rightarrow> 'c MainNode \<Rightarrow> 'c MainNode" where
  "pair_with peer e n =
     startVideoAndNegotiate e (setState kNegotiating (stopPairingRetryTimer (on_audio resetRemoteConfig
       (n\<lparr>paired_peer_session_id := peer, peer_streams_subscribed := False, peer_subscribed_prefixes := []\<rparr>))))"

definition forget_if :: "string \<Rightarrow> 'c MainNode \<Rightarrow> 'c MainNode" where
  "forget_if peer n = (if paired_peer_session_id n = peer then forget_peer n else n)"

definition handleSignalingEvent :: "'c node_env \<Rightarrow> EventMessage \<Rightarrow> 'c MainNode \<Rightarrow> 'c MainNode" where
  "handleSignalingEvent e msg n =
     (if n_shutting_down n then n
      else (case msg of
              NoPayload \<Rightarrow> n
            | SystemCommand action \<Rightarrow> if action = REQUEST_UDP_HELLO then on_udp (module_resetSession (ne_udp e)) n else n
            | PairEvent op None \<Rightarrow> n
            | PairEvent op (Some info) \<Rightarrow>
                (let peer = ei_session_id info
                 in (case op of
                       PairEvent_REQUEST \<Rightarrow>
                         (case (if pair_auto_accept n \<and> peer_matches info n
                                then call_grpc (gr_acceptPair peer (ne_bool e (length (n_sent n)))) False n else (False, n)) of
                            (True, n1) \<Rightarrow> pair_with peer e n1
                          | (False, n1) \<Rightarrow> snd (call_grpc (gr_rejectPair peer (ne_bool e (length (n_sent n1)))) False n1))
                     | PairEvent_ACCEPT \<Rightarrow> pair_with peer e n
                     | PairEvent_REJECT \<Rightarrow>
                         (let n1 = setState kPairing (forget_if peer n)
                          in if pair_mode n1 = ''active'' then ensurePairingRetryTimer e n1 else n1)
                     | PairEvent_UNPAIR \<Rightarrow> teardownActiveSession e kPairing (forget_if peer n)))))"

definition run_work :: "'c node_env \<Rightarrow> session_work \<Rightarrow> 'c MainNode \<Rightarrow> 'c MainNode" where
  "run_work e w n =
     (case w of
        StreamEndWork \<Rightarrow> stream_end_work e n
      | PeerLostWork \<Rightarrow> handleUdpPeerLost e n
      | SignalingWork msg \<Rightarrow> handleSignalingEvent e msg n)"

section \<open>The peer's streams\<close>

definition kPoseControllerPrefix :: u8 where "kPoseControllerPrefix = 0x02"
definition kBody24RawPrefix :: u8 where "kBody24RawPrefix = 0x09"

text \<open>The prefixes to subscribe to, given those the peer offers, and whether all that is wanted is there.\<close>

definition wanted_prefixes :: "bool \<Rightarrow> bool \<Rightarrow> u8 list \<Rightarrow> u8 list \<times> bool" where
  "wanted_prefixes pose audio available =
     (let pose_ok = kPoseControllerPrefix \<in> set available \<and> kBody24RawPrefix \<in> set available;
          audio_ok = kAudioPrefix \<in> set available;
          ps = (if pose \<and> pose_ok then [kPoseControllerPrefix, kBody24RawPrefix] else [])
             @ (if audio \<and> audio_ok then [kAudioPrefix] else [])
      in (unique (sort ps), (pose \<longrightarrow> pose_ok) \<and> (audio \<longrightarrow> audio_ok)))"

text \<open>The retry timer of the subscriptions has a callback group of its own: while its calls to the service are under
  way another thread can change the node. \<open>other\<close> is what happens in between, \<open>commit\<close> the last critical section.\<close>

definition commit_subscription :: "string \<Rightarrow> u8 list \<Rightarrow> bool \<Rightarrow> 'c MainNode \<Rightarrow> bool \<times> 'c MainNode" where
  "commit_subscription peer ps all_available n =
     (if paired_peer_session_id n \<noteq> peer then (False, n)
      else (all_available, n\<lparr>peer_subscribed_prefixes := ps, peer_streams_subscribed := all_available\<rparr>))"

definition ensurePeerSubscriptions ::
  "'c node_env \<Rightarrow> ('c MainNode \<Rightarrow> 'c MainNode) \<Rightarrow> 'c MainNode \<Rightarrow> bool \<times> 'c MainNode" where
  "ensurePeerSubscriptions e other n =
     (if n_grpc n = None then (False, n)
      else if peer_streams_subscribed n then (True, n)
      else if paired_peer_session_id n = [] then (False, n)
      else if \<not> subscribe_vr_pose_flag n \<and> \<not> wantsRemoteAudio n
      then (True, n\<lparr>peer_streams_subscribed := True, peer_subscribed_prefixes := []\<rparr>)
      else (let peer = paired_peer_session_id n; subscribed = peer_subscribed_prefixes n;
                ((ok, available), n1) = call_grpc (getStreamPrefixes peer (ne_manifest e (length (n_sent n)))) (False, []) n
            in if \<not> ok then (False, other n1)
               else (let (ps, all_available) = wanted_prefixes (subscribe_vr_pose_flag n1) (wantsRemoteAudio n1) available;
                         (ok, n2) = (if ps \<noteq> subscribed \<and> ps \<noteq> []
                                     then call_grpc (gr_subscribe peer ps (ne_bool e (length (n_sent n1)))) False n1 else (True, n1))
                     in if \<not> ok then (False, other n2) else commit_subscription peer ps all_available (other n2))))"

definition GrpcAudioConfig_default :: GrpcAudioConfig where
  "GrpcAudioConfig_default = \<lparr>ga_sample_rate = 48000, ga_channels = 1, ga_frame_duration_ms = 20, ga_samples_per_channel = 960,
     ga_bitrate_bps = 64000, ga_opus_inband_fec_enabled = True, ga_opus_dtx_enabled = False\<rparr>"

definition validateRemoteAudioConfig :: "'c MainNode \<Rightarrow> GrpcAudioConfig \<Rightarrow> AudioConfig option" where
  "validateRemoteAudioConfig n config =
     (case n_audio n of
        None \<Rightarrow> None
      | Some a \<Rightarrow>
          if \<not> aud_isEnabled a then None
          else (let local = aud_config a
                in if \<not> downlink_enabled local then None
                   else if ga_sample_rate config = 0 \<or> ga_channels config = 0 \<or> ga_frame_duration_ms config = 0
                        \<or> ga_samples_per_channel config = 0 \<or> ga_bitrate_bps config = 0 then None
                   else (let remote = local\<lparr>sample_rate := ga_sample_rate config, channels := ga_channels config,
                               ac_frame_duration_ms := ga_frame_duration_ms config,
                               samples_per_channel := ga_samples_per_channel config, bitrate_bps := ga_bitrate_bps config,
                               opus_inband_fec_enabled := ga_opus_inband_fec_enabled config,
                               opus_dtx_enabled := ga_opus_dtx_enabled config\<rparr>
                         in if sample_rate remote \<noteq> sample_rate local \<or> channels remote \<noteq> channels local
                               \<or> ac_frame_duration_ms remote \<noteq> ac_frame_duration_ms local
                               \<or> samples_per_channel remote \<noteq> samples_per_channel local
                               \<or> bitrate_bps remote \<noteq> bitrate_bps local
                               \<or> opus_inband_fec_enabled remote \<noteq> opus_inband_fec_enabled local
                               \<or> opus_dtx_enabled remote \<noteq> opus_dtx_enabled local
                            then None else Some remote)))"

definition commit_remote_config :: "string \<Rightarrow> AudioConfig \<Rightarrow> string \<Rightarrow> 'c MainNode \<Rightarrow> bool \<times> 'c MainNode" where
  "commit_remote_config peer rc config_id n =
     (if paired_peer_session_id n \<noteq> peer then (False, n)
      else (case n_audio n of
              None \<Rightarrow> (False, n)
            | Some a \<Rightarrow> (case applyRemoteConfig rc config_id a of (ok, a1) \<Rightarrow> (ok, n\<lparr>n_audio := Some a1\<rparr>))))"

definition fetchRemoteAudioConfig ::
  "'c node_env \<Rightarrow> ('c MainNode \<Rightarrow> 'c MainNode) \<Rightarrow> 'c MainNode \<Rightarrow> bool \<times> 'c MainNode" where
  "fetchRemoteAudioConfig e other n =
     (if \<not> wantsRemoteAudio n then (True, n)
      else (case n_audio n of
              None \<Rightarrow> (False, n)
            | Some a \<Rightarrow>
                if n_grpc n = None then (False, n)
                else if paired_peer_session_id n = [] then (False, n)
                else if remote_config_ready a then (True, n)
                else (let peer = paired_peer_session_id n;
                          ((ok, config, config_id), n1) = call_grpc (fetchAudioConfig (ne_of_json e) peer
                            (ne_item e (length (n_sent n))) GrpcAudioConfig_default []) (False, GrpcAudioConfig_default, []) n
                      in if \<not> ok then (False, other n1)
                         else (case validateRemoteAudioConfig n1 config of
                                 None \<Rightarrow> (False, other n1)
                               | Some rc \<Rightarrow> commit_remote_config peer rc config_id (other n1)))))"

definition peerSubscriptionRetryTimerCallback ::
  "'c node_env \<Rightarrow> ('c MainNode \<Rightarrow> 'c MainNode) \<Rightarrow> ('c MainNode \<Rightarrow> 'c MainNode) \<Rightarrow> 'c MainNode \<Rightarrow> 'c MainNode" where
  "peerSubscriptionRetryTimerCallback e other1 other2 n =
     (if n_shutting_down n \<or> n_state n \<noteq> kNegotiating \<and> n_state n \<noteq> kRunning \<or> paired_peer_session_id n = []
      then stopPeerSubscriptionRetryTimer n
      else (let (subscriptions_ready, n1) = ensurePeerSubscriptions e other1 n;
                (remote_audio_ready, n2) = fetchRemoteAudioConfig e other2 n1
            in if subscriptions_ready \<and> remote_audio_ready then stopPeerSubscriptionRetryTimer n2 else n2))"

section \<open>Statistics\<close>

definition has_activity :: "VideoManagerStats \<Rightarrow> VideoStatsSnapshot \<Rightarrow> bool" where
  "has_activity vs us \<longleftrightarrow> 0 < capture_frames vs \<or> 0 < decode_frames vs \<or> 0 < convert_frames vs \<or> 0 < undistort_frames vs
     \<or> 0 < encode_frames vs \<or> 0 < video_input_frames (vs_counters us) \<or> 0 < sent_video_frames (vs_counters us)
     \<or> 0 < vs_queue_packets us \<or> 0 < decoder_drops vs \<or> 0 < converter_pool_drops vs + converter_failures vs
     \<or> 0 < undistort_pool_drops vs + undistort_failures vs \<or> 0 < encoder_submit_failures vs
     \<or> 0 < video_input_drops (vs_counters us) + vs_queue_drops us \<or> 0 < send_block_events (vs_counters us)
     \<or> 0 < send_drop_packets (vs_counters us)"

text \<open>The statistics ask for a key frame when video was lost or the socket was blocked; the rest of them is logged.
  \<open>vs\<close> is what the video module answers. Without a video module there are zeros.\<close>

definition VideoManagerStats_zero :: VideoManagerStats where
  "VideoManagerStats_zero = \<lparr>capture_frames = 0, decode_frames = 0, convert_frames = 0, encode_frames = 0, decoder_drops = 0,
     converter_pool_drops = 0, converter_failures = 0, encoder_submit_failures = 0, undistort_frames = 0,
     undistort_pool_drops = 0, undistort_failures = 0\<rparr>"

definition ask_after_losses :: "int \<Rightarrow> VideoStatsSnapshot \<Rightarrow> 'c MainNode \<Rightarrow> 'c MainNode" where
  "ask_after_losses now us n =
     (if 0 < video_input_drops (vs_counters us) + vs_queue_drops us \<or> 0 < send_drop_packets (vs_counters us)
      then requestVideoKeyframeRecovery now n
      else if kVideoBackpressureKeyframeThreshold \<le> send_block_events (vs_counters us)
      then requestVideoKeyframeRecovery now n else n)"

definition videoStatsTimerCallback :: "'c node_env \<Rightarrow> VideoManagerStats \<Rightarrow> 'c MainNode \<Rightarrow> 'c MainNode" where
  "videoStatsTimerCallback e stats n =
     (if n_shutting_down n then n
      else (let n1 = n\<lparr>last_video_stats_time := ne_now e\<rparr>;
                vs = (if n_video n1 = None then VideoManagerStats_zero else stats);
                (us, n2) = (case n_udp n1 of
                    None \<Rightarrow> (VideoStats_empty, n1)
                  | Some u \<Rightarrow> if isRunning u then (case module_consumeVideoStats u of (s, u1) \<Rightarrow> (s, n1\<lparr>n_udp := Some u1\<rparr>))
                              else (VideoStats_empty, n1))
            in if n_video n1 = None \<and> \<not> udp_running n1 then n2
               else if \<not> has_activity vs us then n2
               else ask_after_losses (ne_now e) us n2))"

section \<open>Callbacks of the gRPC module\<close>

text \<open>Events come with a message; the module only says that there is one.\<close>

definition run_grpc :: "'c node_env \<Rightarrow> grpc_output list \<Rightarrow> 'c MainNode \<Rightarrow> 'c MainNode" where
  "run_grpc e out n = fold (\<lambda>o1 m. case o1 of
       Sent sid req \<Rightarrow> m\<lparr>n_sent := n_sent m @ [(sid, req)]\<rparr>
     | On_registered \<Rightarrow> onGrpcRegistered e m
     | On_event \<Rightarrow> m
     | On_heartbeat_fail \<Rightarrow> onGrpcHeartbeatFail e m
     | On_stream_end \<Rightarrow> onGrpcStreamEnd e m) out n"

definition on_grpc :: "'c node_env \<Rightarrow> (GrpcModule \<Rightarrow> grpc_output list \<times> GrpcModule) \<Rightarrow> 'c MainNode \<Rightarrow> 'c MainNode" where
  "on_grpc e f n =
     (case n_grpc n of
        None \<Rightarrow> n
      | Some g \<Rightarrow> (case f g of (out, g1) \<Rightarrow> run_grpc e out (n\<lparr>n_grpc := Some g1\<rparr>)))"

section \<open>What the operations leave alone\<close>

text \<open>The parts of a node that only the constructor, the destructor and \<open>postSessionWork\<close> change.\<close>

definition fixed :: "'c MainNode \<Rightarrow> bool \<times> bool \<times> bool \<times> session_work list \<times> string \<times> (bool \<times> bool) \<times> string \<times> string \<times> bool" where
  "fixed n = (n_shutting_down n, n_direct n, session_teardown_in_progress n, session_work_queue n, pair_mode n, (pair_auto_accept n, pair_auto_request n),
     desired_peer_session_id n, desired_peer_device_type_code n, subscribe_vr_pose_flag n)"

named_theorems fixed_simps

lemma fixed_fields:
  assumes "fixed m = fixed n"
  shows "n_shutting_down m = n_shutting_down n" "n_direct m = n_direct n" "session_work_queue m = session_work_queue n"
    "pair_mode m = pair_mode n" "pair_auto_accept m = pair_auto_accept n" "pair_auto_request m = pair_auto_request n"
    "desired_peer_session_id m = desired_peer_session_id n" "desired_peer_device_type_code m = desired_peer_device_type_code n"
    "subscribe_vr_pose_flag m = subscribe_vr_pose_flag n" "session_teardown_in_progress m = session_teardown_in_progress n"
  using assms by (simp_all add: fixed_def)

lemma fixed_timers [fixed_simps]:
  "fixed (ensure_timer t e n) = fixed n" "fixed (stop_timer t n) = fixed n" "fixed (setState s n) = fixed n"
  "fixed (ensureNegotiationRetryTimer e n) = fixed n" "fixed (stopNegotiationRetryTimer n) = fixed n"
  "fixed (ensurePeerSubscriptionRetryTimer e n) = fixed n" "fixed (stopPeerSubscriptionRetryTimer n) = fixed n"
  "fixed (ensurePairingRetryTimer e n) = fixed n" "fixed (stopPairingRetryTimer n) = fixed n"
  "fixed (ensureRegisteredSetupRetryTimer e n) = fixed n" "fixed (stopRegisteredSetupRetryTimer n) = fixed n"
  by (simp_all add: fixed_def ensure_timer_def stop_timer_def setState_def ensureNegotiationRetryTimer_def
      stopNegotiationRetryTimer_def ensurePeerSubscriptionRetryTimer_def stopPeerSubscriptionRetryTimer_def
      ensurePairingRetryTimer_def stopPairingRetryTimer_def ensureRegisteredSetupRetryTimer_def stopRegisteredSetupRetryTimer_def)

lemma fixed_updates [fixed_simps]:
  "fixed (n\<lparr>n_grpc := g\<rparr>) = fixed n" "fixed (n\<lparr>n_audio := a\<rparr>) = fixed n" "fixed (n\<lparr>n_udp := u\<rparr>) = fixed n"
  "fixed (n\<lparr>n_video := v\<rparr>) = fixed n" "fixed (n\<lparr>n_timer := t\<rparr>) = fixed n" "fixed (n\<lparr>last_video_stats_time := t1\<rparr>) = fixed n"
  "fixed (n\<lparr>video_start_time := t2\<rparr>) = fixed n" "fixed (n\<lparr>last_video_keyframe_request_time := t3\<rparr>) = fixed n"
  "fixed (n\<lparr>paired_peer_session_id := p\<rparr>) = fixed n"
  "fixed (n\<lparr>publisher_manifest_published := b\<rparr>) = fixed n" "fixed (n\<lparr>peer_streams_subscribed := b\<rparr>) = fixed n"
  "fixed (n\<lparr>peer_subscribed_prefixes := ps\<rparr>) = fixed n" "fixed (n\<lparr>video_config_sent := b\<rparr>) = fixed n"
  "fixed (n\<lparr>video_started := b\<rparr>) = fixed n" "fixed (n\<lparr>telemetry_config := tc\<rparr>) = fixed n"
  "fixed (n\<lparr>joint_telemetry_config := jc\<rparr>) = fixed n" "fixed (n\<lparr>telemetry_active := b\<rparr>) = fixed n"
  "fixed (n\<lparr>joint_telemetry_active := b\<rparr>) = fixed n" "fixed (n\<lparr>dropped_video_before_running := d\<rparr>) = fixed n"
  "fixed (n\<lparr>n_sent := out\<rparr>) = fixed n" "fixed (n\<lparr>n_keyframes := k\<rparr>) = fixed n"
  "fixed (on_audio f1 n) = fixed n" "fixed (on_udp f2 n) = fixed n" "fixed (on_video f3 n) = fixed n"
  by (simp_all add: fixed_def on_audio_def on_udp_def on_video_def)

lemma fixed_call [fixed_simps]: "fixed (snd (call_grpc f d n)) = fixed n"
  by (simp add: call_grpc_def fixed_simps split: option.split prod.split)

lemma fixed_telemetry [fixed_simps]:
  "fixed (publishRobotTelemetrySnapshot e n) = fixed n" "fixed (publishRobotJointTelemetrySnapshot e n) = fixed n"
  "fixed (start_low_rate e n) = fixed n" "fixed (start_high_rate e n) = fixed n" "fixed (startRobotTelemetry e n) = fixed n"
  "fixed (stopRobotTelemetry n) = fixed n" "fixed (updateRobotTelemetryLifecycle e n) = fixed n"
  by (simp_all add: publishRobotTelemetrySnapshot_def publishRobotJointTelemetrySnapshot_def start_low_rate_def
      start_high_rate_def startRobotTelemetry_def stopRobotTelemetry_def updateRobotTelemetryLifecycle_def fixed_simps)

lemma fixed_publish [fixed_simps]:
  "fixed (snd (publishLocalStreamManifest e n)) = fixed n" "fixed (snd (node_publishVideoConfig e n)) = fixed n"
  "fixed (snd (node_publishAudioConfig e n)) = fixed n" "fixed (enter_running e n) = fixed n"
  by (simp_all add: publishLocalStreamManifest_def node_publishVideoConfig_def node_publishAudioConfig_def enter_running_def
      Let_def split_beta fixed_simps split: option.split)

lemma case_bool_pair: "(case x of (False, a) \<Rightarrow> f a | (True, a) \<Rightarrow> g a) = (if fst x then g (snd x) else f (snd x))"
  by (cases x) simp

lemma fixed_advance [fixed_simps]: "fixed (tryAdvanceNegotiation e n) = fixed n"
  by (simp add: tryAdvanceNegotiation_def case_bool_pair fixed_simps)

lemma fixed_media [fixed_simps]:
  "fixed (onEncodedVideoFrame e d ts k n) = fixed n" "fixed (onEncodedAudioPacket e d ts n) = fixed n"
  "fixed (onSpsPpsCaptured e n) = fixed n"
  by (simp_all add: onEncodedVideoFrame_def onEncodedAudioPacket_def onSpsPpsCaptured_def fixed_simps)

lemma fold_keeps: "(\<And>x m. P (f x m) = P m) \<Longrightarrow> P (fold f xs n) = P n"
  by (induction xs arbitrary: n) simp_all

lemma fixed_run_video [fixed_simps]: "fixed (run_video e out n) = fixed n"
  unfolding run_video_def by (rule fold_keeps) (simp add: fixed_simps split: video_output.split)

lemma fixed_video [fixed_simps]:
  "fixed (stopVideo n) = fixed n" "fixed (resetVideoConfigState n) = fixed n" "fixed (startVideoAndNegotiate e n) = fixed n"
  "fixed (requestVideoKeyframeRecovery now n) = fixed n" "fixed (request_keyframe now n) = fixed n"
  "fixed (negotiationRetryTimerCallback e n) = fixed n"
  by (simp_all add: stopVideo_def resetVideoConfigState_def startVideoAndNegotiate_def requestVideoKeyframeRecovery_def
      request_keyframe_def negotiationRetryTimerCallback_def Let_def split_beta fixed_simps split: option.split)

lemma fixed_pairing [fixed_simps]:
  "fixed (snd (tryActivePairing e n)) = fixed n" "fixed (enterPairingState e n) = fixed n"
  "fixed (pairingRetryTimerCallback e n) = fixed n"
  by (simp_all add: tryActivePairing_def enterPairingState_def pairingRetryTimerCallback_def Let_def split_beta fixed_simps
      split: option.split list.split)

lemma module_start_out: "fst (snd (module_start fl e fec0 sid u)) \<in> {[], [Ready]}"
  by (simp add: module_start_def fire_ready_def Let_def split_beta split: option.split)

lemma fixed_setup [fixed_simps]:
  "fixed (onUdpHandshakeReady e n) = fixed n" "fixed (resetPeerSubscriptionState n) = fixed n" "fixed (forget_peer n) = fixed n"
  "fixed (forget_if p n) = fixed n"
  by (simp_all add: onUdpHandshakeReady_def resetPeerSubscriptionState_def forget_peer_def forget_if_def fixed_simps)

lemma start_udp_cases:
  "snd (start_udp e sid n) = n \<or> (\<exists>u1. snd (start_udp e sid n) = n\<lparr>n_udp := Some u1\<rparr>
    \<or> snd (start_udp e sid n) = onUdpHandshakeReady e (n\<lparr>n_udp := Some u1\<rparr>))"
proof (cases "n_udp n")
  case (Some u)
  obtain ok out u1 where s: "module_start (ne_fl e) (ne_udp e) (ne_fec0 e) sid u = (ok, out, u1)" by (metis prod.exhaust)
  then have "out = [] \<or> out = [Ready]" using module_start_out [of "ne_fl e" "ne_udp e" "ne_fec0 e" sid u] by simp
  then show ?thesis using Some s by (auto simp: start_udp_def run_udp_def)
qed (simp add: start_udp_def)

lemma fixed_start_udp [fixed_simps]: "fixed (snd (start_udp e sid n)) = fixed n"
  using start_udp_cases [of e sid n] by (elim disjE exE) (simp_all only: fixed_simps)

lemma fixed_register [fixed_simps]:
  "fixed (completeRegisteredSetup e n) = fixed n" "fixed (registeredSetupRetryTimerCallback e n) = fixed n"
  "fixed (onGrpcRegistered e n) = fixed n"
  by (simp_all add: completeRegisteredSetup_def registeredSetupRetryTimerCallback_def onGrpcRegistered_def case_bool_pair
      Let_def fixed_simps)

lemma fixed_guard:
  assumes "fixed m = fixed (n\<lparr>session_teardown_in_progress := True\<rparr>)" "\<not> session_teardown_in_progress n"
  shows "fixed (m\<lparr>session_teardown_in_progress := False\<rparr>) = fixed n"
  using assms by (simp add: fixed_def)

lemma fixed_teardownActiveSession [fixed_simps]: "fixed (teardownActiveSession e t n) = fixed n"
  by (auto simp: teardownActiveSession_def Let_def fixed_simps intro!: fixed_guard)

lemma fixed_teardown [fixed_simps]:
  "fixed (onGrpcHeartbeatFail e n) = fixed n"
  "fixed (handleUdpPeerLost e n) = fixed n" "fixed (stream_end_work e n) = fixed n"
  by (simp_all add: onGrpcHeartbeatFail_def handleUdpPeerLost_def stream_end_work_def Let_def fixed_simps)

lemma fixed_signaling [fixed_simps]:
  "fixed (pair_with p e n) = fixed n" "fixed (handleSignalingEvent e msg n) = fixed n" "fixed (run_work e w n) = fixed n"
  by (simp_all add: pair_with_def handleSignalingEvent_def run_work_def Let_def case_bool_pair fixed_simps
      split: EventMessage.split option.split PairEvent_Op.split session_work.split)

lemma run_work_queue: "session_work_queue (run_work e w n) = session_work_queue n"
  using fixed_fields(3) [OF fixed_signaling(3) [of e w n]] .

section \<open>Draining the work queue\<close>

function drainSessionWork :: "'c node_env \<Rightarrow> 'c MainNode \<Rightarrow> 'c MainNode" where
  "drainSessionWork e n =
     (if n_shutting_down n then n
      else (case session_work_queue n of
              [] \<Rightarrow> stop_timer SessionWork n
            | w # ws \<Rightarrow> drainSessionWork e (run_work e w (n\<lparr>session_work_queue := ws\<rparr>))))"
  by pat_completeness auto
termination by (relation "measure (\<lambda>(e, n). length (session_work_queue n))") (simp_all add: run_work_queue)

declare drainSessionWork.simps [simp del]

section \<open>Construction and destruction\<close>

definition loadPairingParams :: "params \<Rightarrow> 'c MainNode \<Rightarrow> 'c MainNode" where
  "loadPairingParams p n =
     (let b = declareOrGet (par_bool p); s = declareOrGet (par_string p);
          m = map tolower (s ''pair.mode'' ''passive'')
      in n\<lparr>subscribe_vr_pose_flag := b ''subscribe_vr_pose_flag'' False,
           pair_mode := (if m \<noteq> ''active'' \<and> m \<noteq> ''passive'' then ''passive'' else m),
           desired_peer_session_id := s ''pair.peer_session_id'' [],
           desired_peer_device_type_code := s ''pair.peer_device_type_code'' [],
           pair_auto_accept := b ''pair.auto_accept'' True, pair_auto_request := b ''pair.auto_request'' True,
           pair_list_unpaired_on_start := b ''pair.list_unpaired_on_start'' False\<rparr>)"

definition node_loadRobotTelemetryParams :: "params \<Rightarrow> u64 \<Rightarrow> 'c MainNode \<Rightarrow> 'c MainNode" where
  "node_loadRobotTelemetryParams p now_ms n =
     (case loadRobotTelemetryParams (declareOrGet (par_bool p)) (declareOrGet (par_int p)) (declareOrGet (par_double p))
        (declareOrGet (par_string p)) now_ms of (tc, jc) \<Rightarrow> n\<lparr>telemetry_config := tc, joint_telemetry_config := jc\<rparr>)"

definition RobotTelemetryConfig_none :: RobotTelemetryConfig where
  "RobotTelemetryConfig_none = \<lparr>tc_enabled = False, tc_period_sec = 1, tc_snapshot = \<lparr>rt_version = 1, battery_voltage_mv = 0,
     battery_current_ma = 0, battery_temperature_deci_c = 0, fault_code = [], network_quality = [], model = [],
     firmware_version = []\<rparr>\<rparr>"

definition RobotJointTelemetryConfig_none :: RobotJointTelemetryConfig where
  "RobotJointTelemetryConfig_none = \<lparr>jc_enabled = False, jc_period_sec = 1 / 50, joint_state_topic = ''/joint_states'',
     jc_snapshot = \<lparr>rj_version = 1, schema_id = 2, sample_timestamp_ms = 0, joints = []\<rparr>\<rparr>"

text \<open>The members before the body of the constructor.\<close>

definition MainNode_members :: "'c MainNode" where
  "MainNode_members = \<lparr>n_grpc = None, n_audio = None, n_udp = None, n_video = None, n_timer = (\<lambda>_. None),
     last_video_stats_time = 0, video_start_time = 0, last_video_keyframe_request_time = 0, n_state = kConnecting,
     n_shutting_down = False, session_teardown_in_progress = False, n_direct = False, session_work_queue = [],
     subscribe_vr_pose_flag = False, pair_auto_accept = True, pair_auto_request = True, pair_list_unpaired_on_start = False,
     desired_peer_session_id = [], desired_peer_device_type_code = [], paired_peer_session_id = [], pair_mode = ''passive'',
     publisher_manifest_published = False, peer_streams_subscribed = False, peer_subscribed_prefixes = [],
     video_config_sent = False, video_started = False, telemetry_config = RobotTelemetryConfig_none,
     joint_telemetry_config = RobotJointTelemetryConfig_none, telemetry_active = False, joint_telemetry_active = False,
     dropped_video_before_running = 0, n_sent = [], n_keyframes = []\<rparr>"

definition enterDirectRunningMode :: "'c node_env \<Rightarrow> 'c MainNode \<Rightarrow> 'c MainNode" where
  "enterDirectRunningMode e n =
     (let n1 = on_audio (\<lambda>a. let a1 = markConfigPublished a
                              in if aud_isEnabled a1 then snd (applyRemoteConfig (aud_config a1) ''direct'' a1) else a1)
                 (n\<lparr>video_config_sent := True\<rparr>);
          n2 = startVideoAndNegotiate e (setState kRunning n1)
      in on_audio (\<lambda>a. snd (aud_start (ne_gst e) a)) n2)"

text \<open>The modules as the constructor makes them, with their callbacks. \<open>par_ints\<close> and \<open>par_strings\<close> look up lists;
  \<open>show_double\<close> prints a number.\<close>

definition new_video :: "(string \<Rightarrow> int list option) \<Rightarrow> params \<Rightarrow> VideoModule" where
  "new_video par_ints p =
     snd (vm_setSpsPpsCallback True (vm_setEncodedFrameCallback True (VideoModule_init (video_configFromRosParam par_ints p))))"

definition new_udp :: "params \<Rightarrow> 'c UdpModule" where
  "new_udp p = setModulePeerLostCallback True (setHandshakeReadyCallback True (setAudioDatagramCallback True
     (UdpModule_init (configFromRosParam p))))"

definition new_audio :: "(double \<Rightarrow> string) \<Rightarrow> gst \<Rightarrow> params \<Rightarrow> AudioModule" where
  "new_audio show_double g p =
     snd (aud_initialize show_double g (aud_setEncodedPacketCallback True (AudioModule_init p (audio_configFromRosParam p))))"

definition new_grpc :: "(string \<Rightarrow> string list option) \<Rightarrow> params \<Rightarrow> GrpcModule" where
  "new_grpc par_strings p = gr_setCallbacks True True True True (GrpcModule_init (grpc_configFromRosParam par_strings p))"

definition construct ::
  "(string \<Rightarrow> int list option) \<Rightarrow> (string \<Rightarrow> string list option) \<Rightarrow> (double \<Rightarrow> string) \<Rightarrow> params \<Rightarrow> 'c node_env \<Rightarrow> 'c MainNode" where
  "construct par_ints par_strings show_double p e =
     (let n0 = node_loadRobotTelemetryParams p (ne_now_ms e) (loadPairingParams p
            (MainNode_members\<lparr>n_direct := declareOrGet (par_bool p) ''debug.direct_running_mode'' False\<rparr>));
          n1 = n0\<lparr>n_video := Some (new_video par_ints p), n_udp := Some (new_udp p),
                  n_audio := Some (new_audio show_double (ne_gst e) p)\<rparr>;
          n2 = (if declareOrGet (par_bool p) ''logging.modules.video_stats'' True
                then n1\<lparr>last_video_stats_time := ne_now e, n_timer := (n_timer n1)(VideoStats \<mapsto> True)\<rparr> else n1)
      in if n_direct n2
         then (case start_udp e [] n2 of (ok, n3) \<Rightarrow> if \<not> ok then n3 else enterDirectRunningMode e n3)
         else on_grpc e (gr_start (ne_genv e) (ne_register e)) (n2\<lparr>n_grpc := Some (new_grpc par_strings p)\<rparr>))"

definition destroy :: "'c MainNode \<Rightarrow> 'c MainNode" where
  "destroy n =
     (let n1 = n\<lparr>n_shutting_down := True, n_grpc := map_option (gr_setCallbacks False False False False) (n_grpc n)\<rparr>;
          n2 = on_video (\<lambda>v. snd (vm_setSpsPpsCallback False (vm_setEncodedFrameCallback False v))) n1;
          n3 = on_audio (aud_setEncodedPacketCallback False) n2;
          n4 = on_udp (\<lambda>u. setAudioDatagramCallback False (setModulePeerLostCallback False (setHandshakeReadyCallback False u))) n3;
          n5 = stopRegisteredSetupRetryTimer (stopPairingRetryTimer (stopPeerSubscriptionRetryTimer (stopNegotiationRetryTimer n4)));
          n6 = n5\<lparr>n_timer := (n_timer n5)(SessionWork := None, VideoStats := None), session_work_queue := []\<rparr>;
          n7 = stopRobotTelemetry n6;
          n8 = n7\<lparr>n_timer := (n_timer n7)(Telemetry := None, JointTelemetry := None), n_grpc := None\<rparr>
      in (stopVideo n8)\<lparr>n_audio := None, n_udp := None\<rparr>)"

section \<open>Steps of the node\<close>

text \<open>One step: an operation of a module on one of its own threads or timers, with what it calls back, or a timer of
  the node. The environment may be another one at every step.\<close>

definition update_snapshot :: "(RobotTelemetrySnapshot \<Rightarrow> RobotTelemetrySnapshot) \<Rightarrow> 'c MainNode \<Rightarrow> 'c MainNode" where
  "update_snapshot f n = n\<lparr>telemetry_config := (telemetry_config n)\<lparr>tc_snapshot := f (tc_snapshot (telemetry_config n))\<rparr>\<rparr>"

definition node_onTelemetryBatteryState :: "(double \<Rightarrow> double \<Rightarrow> fval) \<Rightarrow> (fval \<Rightarrow> int) \<Rightarrow> fval \<Rightarrow> fval \<Rightarrow> 'c MainNode \<Rightarrow> 'c MainNode" where
  "node_onTelemetryBatteryState fl2 unspec v c = update_snapshot (onTelemetryBatteryState fl2 unspec v c)"

definition node_onTelemetryTemperature :: "(double \<Rightarrow> double \<Rightarrow> fval) \<Rightarrow> (fval \<Rightarrow> int) \<Rightarrow> fval \<Rightarrow> 'c MainNode \<Rightarrow> 'c MainNode" where
  "node_onTelemetryTemperature fl2 unspec t = update_snapshot (onTelemetryTemperature fl2 unspec t)"

definition node_onTelemetryDeviceState :: "u8 \<Rightarrow> string \<Rightarrow> 'c MainNode \<Rightarrow> 'c MainNode" where
  "node_onTelemetryDeviceState d fw = update_snapshot (onTelemetryDeviceState d fw)"

definition node_onJointState :: "(double \<Rightarrow> u32) \<Rightarrow> u64 \<Rightarrow> JointStateMsg \<Rightarrow> 'c MainNode \<Rightarrow> 'c MainNode" where
  "node_onJointState f32 now_ms msg n = n\<lparr>joint_telemetry_config := (joint_telemetry_config n)
     \<lparr>jc_snapshot := onJointState f32 now_ms msg (jc_snapshot (joint_telemetry_config n))\<rparr>\<rparr>"

definition audio_sample :: "'c node_env \<Rightarrow> int \<Rightarrow> (bytes \<times> u64 option) option \<Rightarrow> 'c MainNode \<Rightarrow> 'c MainNode" where
  "audio_sample e now_ms sample n =
     (case n_audio n of
        None \<Rightarrow> n
      | Some a \<Rightarrow> (case aud_sample (ne_fl e) (ne_ntp e) now_ms sample a of
          (None, a1) \<Rightarrow> n\<lparr>n_audio := Some a1\<rparr>
        | (Some (d, ts), a1) \<Rightarrow> onEncodedAudioPacket e (Some d) ts (n\<lparr>n_audio := Some a1\<rparr>)))"

inductive node_step :: "'c node_env \<Rightarrow> 'c MainNode \<Rightarrow> 'c MainNode \<Rightarrow> bool" for e n where
  ns_register: "node_step e n (on_grpc e (onRegisterRetry (ne_genv e) (ne_register e)) n)"
| ns_heartbeat: "node_step e n (on_grpc e (onHeartbeat (ne_genv e) now_ms (ne_heartbeat e)) n)"
| ns_stream_end: "node_step e n (on_grpc e gr_stream_end n)"
| ns_event: "n_grpc n = Some g \<Longrightarrow> gr_event g = [On_event] \<Longrightarrow> node_step e n (onSignalingEvent e msg n)"
| ns_handshake: "n_udp n = Some u \<Longrightarrow> handshakeTimerCallback u = (out, u') \<Longrightarrow> node_step e n (run_udp e out (n\<lparr>n_udp := Some u'\<rparr>))"
| ns_peer_lost: "n_udp n = Some u \<Longrightarrow> peer_lost u = (out, u') \<Longrightarrow> node_step e n (run_udp e out (n\<lparr>n_udp := Some u'\<rparr>))"
| ns_datagram: "n_udp n = Some u \<Longrightarrow> onDatagram f32 fl32 now d u = Some (out, u') \<Longrightarrow> node_step e n (run_udp e out (n\<lparr>n_udp := Some u'\<rparr>))"
| ns_udp_threads: "node_step e n (on_udp (with_manager f) n)"
| ns_encoded: "n_video n = Some v \<Longrightarrow> vm_onEncodedFrame data ts key v = (vout, v') \<Longrightarrow> node_step e n (run_video e vout (n\<lparr>n_video := Some v'\<rparr>))"
| ns_captured: "n_video n = Some v \<Longrightarrow> parameter_sets_captured sps pps vps v = (vout, v') \<Longrightarrow> node_step e n (run_video e vout (n\<lparr>n_video := Some v'\<rparr>))"
| ns_video_ended: "node_step e n (on_video vm_stop n)"
| ns_audio: "node_step e n (audio_sample e now_ms sample n)"
| ns_negotiation: "n_timer n NegotiationRetry = Some True \<Longrightarrow> node_step e n (negotiationRetryTimerCallback e n)"
| ns_pairing: "n_timer n PairingRetry = Some True \<Longrightarrow> node_step e n (pairingRetryTimerCallback e n)"
| ns_setup: "n_timer n RegisteredSetupRetry = Some True \<Longrightarrow> node_step e n (registeredSetupRetryTimerCallback e n)"
| ns_subscription: "n_timer n PeerSubscriptionRetry = Some True \<Longrightarrow> node_step e n (peerSubscriptionRetryTimerCallback e id id n)"
| ns_work: "n_timer n SessionWork = Some True \<Longrightarrow> node_step e n (drainSessionWork e n)"
| ns_stats: "n_timer n VideoStats = Some True \<Longrightarrow> node_step e n (videoStatsTimerCallback e stats n)"
| ns_telemetry: "n_timer n Telemetry = Some True \<Longrightarrow> node_step e n (telemetryTimerCallback e n)"
| ns_joint_telemetry: "n_timer n JointTelemetry = Some True \<Longrightarrow> node_step e n (jointTelemetryTimerCallback e n)"
| ns_battery: "node_step e n (node_onTelemetryBatteryState fl2 unspec bv bc n)"
| ns_temperature: "node_step e n (node_onTelemetryTemperature fl2 unspec bt n)"
| ns_device: "node_step e n (node_onTelemetryDeviceState derr fw n)"
| ns_joints: "node_step e n (node_onJointState fl3 ms jm n)"

inductive node_run :: "'c MainNode \<Rightarrow> 'c MainNode \<Rightarrow> bool" where
  nr_refl [intro!]: "node_run n n"
| nr_step: "node_run n n1 \<Longrightarrow> node_step e n1 n2 \<Longrightarrow> node_run n n2"
| nr_interleaved: "node_run n n1 \<Longrightarrow> n_timer n1 PeerSubscriptionRetry = Some True
    \<Longrightarrow> (\<And>m. node_run m (other1 m)) \<Longrightarrow> (\<And>m. node_run m (other2 m))
    \<Longrightarrow> node_run n (peerSubscriptionRetryTimerCallback e other1 other2 n1)"

end
