(* ===== verification/NodeSession.thy ===== *)
theory NodeSession
  imports MainNode
begin

text \<open>
  The node against an abstract session: the phase, the peer, what is published, and what was sent to the service.
  Every step of the node is a sequence of steps of the session, so what holds of the session holds of the node.
\<close>

section \<open>The abstract session\<close>

record session =
  phase :: State
  s_peer :: string
  s_video :: bool
  s_audio :: bool
  s_enabled :: bool
  s_uplink :: bool
  s_log :: sent

abbreviation stream_config :: "string \<Rightarrow> u8 \<Rightarrow> string \<Rightarrow> string \<times> request" where
  "stream_config sid p payload \<equiv> (sid, PublishStreamConfig p kMediaConfigSchemaVersion payload)"

inductive session_step :: "bool \<Rightarrow> session \<Rightarrow> session \<Rightarrow> bool" for al where
  ss_send: "session_step al s (s\<lparr>s_log := s_log s @ out\<rparr>)"
| ss_registered: "session_step al s (s\<lparr>phase := kRegistered\<rparr>)"
| ss_pairing: "session_step al s (s\<lparr>phase := kPairing\<rparr>)"
| ss_rejected: "session_step al s (s\<lparr>s_peer := [], phase := kPairing\<rparr>)"
| ss_pair: "al \<Longrightarrow> session_step al s (s\<lparr>phase := kNegotiating, s_peer := p\<rparr>)"
| ss_restart: "phase s = kNegotiating \<Longrightarrow> session_step al s (s\<lparr>s_video := False\<rparr>)"
| ss_video: "phase s = kNegotiating \<Longrightarrow>
    session_step al s (s\<lparr>s_log := s_log s @ [stream_config sid kVideoPrefix payload], s_video := True\<rparr>)"
| ss_audio: "phase s = kNegotiating \<Longrightarrow>
    session_step al s (s\<lparr>s_log := s_log s @ [stream_config sid kAudioPrefix payload], s_audio := True\<rparr>)"
| ss_listen: "phase s = kNegotiating \<Longrightarrow> \<not> s_uplink s \<Longrightarrow> session_step al s (s\<lparr>s_audio := True\<rparr>)"
| ss_run: "phase s = kNegotiating \<Longrightarrow> s_video s \<Longrightarrow> \<not> s_enabled s \<or> s_audio s \<Longrightarrow> session_step al s (s\<lparr>phase := kRunning\<rparr>)"
| ss_teardown: "t \<in> {kConnecting, kRegistered, kPairing} \<Longrightarrow>
    session_step al s (s\<lparr>phase := t, s_peer := [], s_video := False, s_audio := False\<rparr>)"

abbreviation session_steps :: "bool \<Rightarrow> session \<Rightarrow> session \<Rightarrow> bool" where "session_steps al \<equiv> (session_step al)\<^sup>*\<^sup>*"

lemmas ss_trans [trans] = rtranclp_trans [of "session_step al" for al]

section \<open>The session of a node\<close>

definition sess :: "'c MainNode \<Rightarrow> session" where
  "sess n = \<lparr>phase = n_state n, s_peer = paired_peer_session_id n, s_video = video_config_sent n, s_audio = audio_published n,
     s_enabled = audio_enabled n, s_uplink = publishes_audio n, s_log = n_sent n\<rparr>"

lemma sess_sel [simp]:
  "phase (sess n) = n_state n" "s_peer (sess n) = paired_peer_session_id n" "s_video (sess n) = video_config_sent n"
  "s_audio (sess n) = audio_published n" "s_enabled (sess n) = audio_enabled n" "s_uplink (sess n) = publishes_audio n"
  "s_log (sess n) = n_sent n"
  by (simp_all add: sess_def)

named_theorems sess_simps

text \<open>What of the audio module the session sees.\<close>

definition audio_view :: "AudioModule \<Rightarrow> bool \<times> AudioConfig \<times> bool" where
  "audio_view a = (aud_isEnabled a, aud_config a, config_published a)"

lemma sess_on_audio:
  assumes "\<And>a. audio_view (f a) = audio_view a"
  shows "sess (on_audio f n) = sess n"
  using assms by (simp add: sess_def on_audio_def audio_published_def audio_enabled_def publishes_audio_def audio_view_def
      split: option.split)

lemma audio_view_simps [simp]:
  "audio_view (snd (aud_start g a)) = audio_view a" "audio_view (aud_stop a) = audio_view a"
  "audio_view (resetRemoteConfig a) = audio_view a" "audio_view (snd (applyRemoteConfig rc cid a)) = audio_view a"
  "audio_view (snd (snd (receiveRemotePacket fl ans now sq d ts a))) = audio_view a"
  "audio_view (snd (aud_sample fl ntp now sample a)) = audio_view a"
  by (simp_all add: audio_view_def aud_isEnabled_def aud_start_def aud_stop_def resetRemoteConfig_def applyRemoteConfig_def
      receiveRemotePacket_def aud_sample_def Let_def split_beta split: option.split)

lemma sess_updates [sess_simps]:
  "sess (n\<lparr>n_grpc := g\<rparr>) = sess n" "sess (n\<lparr>n_udp := u\<rparr>) = sess n"
  "sess (n\<lparr>n_video := v\<rparr>) = sess n" "sess (n\<lparr>n_timer := t\<rparr>) = sess n" "sess (n\<lparr>last_video_stats_time := t1\<rparr>) = sess n"
  "sess (n\<lparr>video_start_time := t2\<rparr>) = sess n" "sess (n\<lparr>last_video_keyframe_request_time := t3\<rparr>) = sess n"
  "sess (n\<lparr>session_teardown_in_progress := b\<rparr>) = sess n" "sess (n\<lparr>session_work_queue := ws\<rparr>) = sess n"
  "sess (n\<lparr>publisher_manifest_published := b\<rparr>) = sess n" "sess (n\<lparr>peer_streams_subscribed := b\<rparr>) = sess n"
  "sess (n\<lparr>peer_subscribed_prefixes := ps\<rparr>) = sess n"
  "sess (n\<lparr>video_started := b\<rparr>) = sess n" "sess (n\<lparr>telemetry_config := tc\<rparr>) = sess n"
  "sess (n\<lparr>joint_telemetry_config := jc\<rparr>) = sess n" "sess (n\<lparr>telemetry_active := b\<rparr>) = sess n"
  "sess (n\<lparr>joint_telemetry_active := b\<rparr>) = sess n" "sess (n\<lparr>dropped_video_before_running := d\<rparr>) = sess n"
  "sess (n\<lparr>n_keyframes := k\<rparr>) = sess n" "sess (on_udp f2 n) = sess n" "sess (on_video f3 n) = sess n"
  by (simp_all add: sess_def on_udp_def on_video_def audio_published_def audio_enabled_def publishes_audio_def)

lemma sess_changes [sess_simps]:
  "sess (n\<lparr>n_sent := out\<rparr>) = (sess n)\<lparr>s_log := out\<rparr>" "sess (n\<lparr>video_config_sent := b\<rparr>) = (sess n)\<lparr>s_video := b\<rparr>"
  "sess (n\<lparr>paired_peer_session_id := p\<rparr>) = (sess n)\<lparr>s_peer := p\<rparr>" "sess (setState s n) = (sess n)\<lparr>phase := s\<rparr>"
  "sess (n\<lparr>n_state := s\<rparr>) = (sess n)\<lparr>phase := s\<rparr>"
  by (simp_all add: sess_def setState_def audio_published_def audio_enabled_def publishes_audio_def)

lemma sess_timers [sess_simps]:
  "sess (ensure_timer t e n) = sess n" "sess (stop_timer t n) = sess n"
  "sess (ensureNegotiationRetryTimer e n) = sess n" "sess (stopNegotiationRetryTimer n) = sess n"
  "sess (ensurePeerSubscriptionRetryTimer e n) = sess n" "sess (stopPeerSubscriptionRetryTimer n) = sess n"
  "sess (ensurePairingRetryTimer e n) = sess n" "sess (stopPairingRetryTimer n) = sess n"
  "sess (ensureRegisteredSetupRetryTimer e n) = sess n" "sess (stopRegisteredSetupRetryTimer n) = sess n"
  "sess (postSessionWork e w n) = sess n"
  by (simp_all add: ensure_timer_def stop_timer_def ensureNegotiationRetryTimer_def
      stopNegotiationRetryTimer_def ensurePeerSubscriptionRetryTimer_def stopPeerSubscriptionRetryTimer_def
      ensurePairingRetryTimer_def stopPairingRetryTimer_def ensureRegisteredSetupRetryTimer_def stopRegisteredSetupRetryTimer_def
      postSessionWork_def Let_def sess_simps)

lemma sess_telemetry [sess_simps]:
  "sess (publishRobotTelemetrySnapshot e n) = sess n" "sess (publishRobotJointTelemetrySnapshot e n) = sess n"
  "sess (start_low_rate e n) = sess n" "sess (start_high_rate e n) = sess n" "sess (startRobotTelemetry e n) = sess n"
  "sess (stopRobotTelemetry n) = sess n" "sess (updateRobotTelemetryLifecycle e n) = sess n"
  "sess (telemetryTimerCallback e n) = sess n" "sess (jointTelemetryTimerCallback e n) = sess n"
  by (simp_all add: publishRobotTelemetrySnapshot_def publishRobotJointTelemetrySnapshot_def start_low_rate_def
      start_high_rate_def startRobotTelemetry_def stopRobotTelemetry_def updateRobotTelemetryLifecycle_def
      telemetryTimerCallback_def jointTelemetryTimerCallback_def sess_simps)

lemma sess_media [sess_simps]:
  "sess (onEncodedVideoFrame e d ts k n) = sess n" "sess (onEncodedAudioPacket e d ts n) = sess n"
  "sess (receive_audio e sq dd ts n) = sess n" "sess (stopVideo n) = sess n"
  "sess (request_keyframe now n) = sess n" "sess (requestVideoKeyframeRecovery now n) = sess n"
  by (simp_all add: onEncodedVideoFrame_def onEncodedAudioPacket_def receive_audio_def stopVideo_def
      request_keyframe_def requestVideoKeyframeRecovery_def sess_on_audio sess_simps)

lemma sess_peer_streams [sess_simps]:
  "sess (resetPeerSubscriptionState n) = sess n" "sess (snd (commit_subscription p ps b n)) = sess n"
  "sess (forget_peer n) = (sess n)\<lparr>s_peer := []\<rparr>"
  by (simp_all add: resetPeerSubscriptionState_def commit_subscription_def forget_peer_def sess_simps)

section \<open>Sending\<close>

lemma session_send:
  assumes "s' = s\<lparr>s_log := s_log s @ out\<rparr>"
  shows "session_steps al s s'"
  unfolding assms by (rule r_into_rtranclp, rule ss_send)

lemma sess_call: "session_steps al (sess n) (sess (snd (call_grpc f d n)))"
proof (cases "n_grpc n")
  case (Some g)
  then show ?thesis by (intro session_send [where out = "snd (f g)"]) (simp add: call_grpc_def split_beta sess_simps)
qed (simp add: call_grpc_def)

lemma call_grpc_state: "n_state (snd (call_grpc f d n)) = n_state n"
  by (simp add: call_grpc_def split: option.split prod.split)

lemma publish_config_sends:
  assumes "gm_PublishStreamConfig p v payload a m = (True, out)"
  shows "\<exists>sid. out = [(sid, PublishStreamConfig p v payload)]"
  using assms by (auto simp: gm_PublishStreamConfig_def rpc_def Let_def split: if_splits)

lemma publishVideoConfig_sends:
  assumes "publishVideoConfig js enc w h f codec sps pps vps fov a g = (True, out)"
  shows "\<exists>sid payload. out = [stream_config sid kVideoPrefix payload]"
  using assms by (auto simp: publishVideoConfig_def with_gm_def split: if_splits option.splits dest!: publish_config_sends)

lemma publishAudioConfig_sends:
  assumes "publishAudioConfig js c a g = (True, out)"
  shows "\<exists>sid payload. out = [stream_config sid kAudioPrefix payload]"
  using assms by (auto simp: publishAudioConfig_def with_gm_def split: if_splits option.splits dest!: publish_config_sends)

lemma call_config:
  assumes "call_grpc f False n = (ok, n1)" "\<And>g out. f g = (True, out) \<Longrightarrow> \<exists>sid payload. out = [stream_config sid p payload]"
  shows "\<exists>out. n1 = n\<lparr>n_sent := n_sent n @ out\<rparr> \<and> (ok \<longrightarrow> (\<exists>sid payload. out = [stream_config sid p payload]))"
proof (cases "n_grpc n")
  case None
  then have "n1 = n\<lparr>n_sent := n_sent n @ []\<rparr> \<and> \<not> ok" using assms(1) by (simp add: call_grpc_def)
  then show ?thesis by blast
next
  case (Some g)
  then have "n1 = n\<lparr>n_sent := n_sent n @ snd (f g)\<rparr>" "fst (f g) = ok" using assms(1) by (auto simp: call_grpc_def split_beta)
  moreover have "\<exists>sid payload. snd (f g) = [stream_config sid p payload]" if ok
    using assms(2) [of g "snd (f g)"] \<open>fst (f g) = ok\<close> that by (metis prod.collapse)
  ultimately show ?thesis by blast
qed

lemma node_publishVideoConfig_cases:
  assumes "node_publishVideoConfig e n = (ok, n')" "\<not> n_direct n"
  shows "n' = n \<and> (ok \<longrightarrow> video_config_sent n) \<or> (\<exists>out. n' = n\<lparr>n_sent := n_sent n @ out\<rparr> \<and> \<not> ok)
    \<or> (\<exists>sid payload. n' = n\<lparr>n_sent := n_sent n @ [stream_config sid kVideoPrefix payload], video_config_sent := True\<rparr>)"
proof (cases "n_shutting_down n \<or> n_grpc n = None \<or> n_video n = None \<or> video_config_sent n \<or> getSpsPps (the (n_video n)) = None")
  case True
  then have "n' = n \<and> (ok \<longrightarrow> video_config_sent n)"
    using assms by (auto simp: node_publishVideoConfig_def split: if_splits option.splits)
  then show ?thesis by blast
next
  case False
  then obtain v sps pps vps where v: "n_video n = Some v" "getSpsPps v = Some (sps, pps, vps)" by auto
  obtain ok1 n1 where c: "call_grpc (publishVideoConfig (ne_to_json e) (ne_encode_block e) (v_width (vm_config v))
      (v_height (vm_config v)) (v_fps (vm_config v)) (if v_codec (vm_config v) = kH265 then kH265 else kH264) sps pps vps None
      (ne_config e (length (n_sent n)))) False n = (ok1, n1)" by (metis prod.exhaust)
  with False v assms have n': "ok = ok1" "n' = (if ok1 then n1\<lparr>video_config_sent := True\<rparr> else n1)"
    by (auto simp: node_publishVideoConfig_def Let_def simp del: if_split split: if_splits)
  have "\<exists>out. n1 = n\<lparr>n_sent := n_sent n @ out\<rparr> \<and> (ok1 \<longrightarrow> (\<exists>sid payload. out = [stream_config sid kVideoPrefix payload]))"
    by (rule call_config [OF c]) (rule publishVideoConfig_sends)
  then obtain out where
    n1: "n1 = n\<lparr>n_sent := n_sent n @ out\<rparr>" "ok1 \<longrightarrow> (\<exists>sid payload. out = [stream_config sid kVideoPrefix payload])" by blast
  show ?thesis
  proof (cases ok1)
    case True
    then obtain sid payload where "out = [stream_config sid kVideoPrefix payload]" using n1(2) by blast
    then have "n' = n\<lparr>n_sent := n_sent n @ [stream_config sid kVideoPrefix payload], video_config_sent := True\<rparr>" using n' n1(1) True by simp
    then show ?thesis by blast
  next
    case False
    then have "n' = n\<lparr>n_sent := n_sent n @ out\<rparr> \<and> \<not> ok" using n' n1(1) by simp
    then show ?thesis by blast
  qed
qed

lemma node_publishAudioConfig_cases:
  assumes "node_publishAudioConfig e n = (ok, n')" "\<not> n_direct n"
  shows "n' = n \<and> (ok \<longrightarrow> audio_published n) \<or> (\<exists>out. n' = n\<lparr>n_sent := n_sent n @ out\<rparr> \<and> \<not> ok)
    \<or> (\<exists>sid payload. n' = on_audio markConfigPublished (n\<lparr>n_sent := n_sent n @ [stream_config sid kAudioPrefix payload]\<rparr>)
        \<and> n_audio n \<noteq> None)"
proof (cases "n_shutting_down n \<or> n_audio n = None \<or> \<not> aud_isEnabled (the (n_audio n)) \<or> n_grpc n = None \<or> config_published (the (n_audio n))")
  case True
  then have "n' = n \<and> (ok \<longrightarrow> audio_published n)"
    using assms by (auto simp: node_publishAudioConfig_def audio_published_def split: if_splits option.splits)
  then show ?thesis by blast
next
  case False
  then obtain a where a: "n_audio n = Some a" by auto
  obtain ok1 n1 where c: "call_grpc (publishAudioConfig (ne_to_json e) (audio_config_of (aud_config a))
      (ne_config e (length (n_sent n)))) False n = (ok1, n1)" by (metis prod.exhaust)
  with False a assms have n': "ok = ok1" "n' = (if ok1 then on_audio markConfigPublished n1 else n1)"
    by (auto simp: node_publishAudioConfig_def Let_def simp del: if_split split: if_splits)
  have "\<exists>out. n1 = n\<lparr>n_sent := n_sent n @ out\<rparr> \<and> (ok1 \<longrightarrow> (\<exists>sid payload. out = [stream_config sid kAudioPrefix payload]))"
    by (rule call_config [OF c]) (rule publishAudioConfig_sends)
  then obtain out where
    n1: "n1 = n\<lparr>n_sent := n_sent n @ out\<rparr>" "ok1 \<longrightarrow> (\<exists>sid payload. out = [stream_config sid kAudioPrefix payload])" by blast
  show ?thesis
  proof (cases ok1)
    case True
    then obtain sid payload where "out = [stream_config sid kAudioPrefix payload]" using n1(2) by blast
    then have "n' = on_audio markConfigPublished (n\<lparr>n_sent := n_sent n @ [stream_config sid kAudioPrefix payload]\<rparr>)" using n' n1(1) True by simp
    then show ?thesis using a by blast
  next
    case False
    then have "n' = n\<lparr>n_sent := n_sent n @ out\<rparr> \<and> \<not> ok" using n' n1(1) by simp
    then show ?thesis by blast
  qed
qed

section \<open>Operations as sequences of session steps\<close>

lemma sess_mark [sess_simps]: "n_audio n \<noteq> None \<Longrightarrow> sess (on_audio markConfigPublished n) = (sess n)\<lparr>s_audio := True\<rparr>"
  by (auto simp: sess_def on_audio_def audio_published_def audio_enabled_def publishes_audio_def markConfigPublished_def aud_isEnabled_def)

lemma sess_publish_video:
  assumes "node_publishVideoConfig e n = (ok, n')" "n_state n = kNegotiating" "\<not> n_direct n"
  shows "session_steps al (sess n) (sess n') \<and> n_state n' = kNegotiating \<and> (ok \<longrightarrow> video_config_sent n')"
  using node_publishVideoConfig_cases [OF assms(1,3)]
proof (elim disjE exE conjE)
  fix sid payload
  assume n': "n' = n\<lparr>n_sent := n_sent n @ [stream_config sid kVideoPrefix payload], video_config_sent := True\<rparr>"
  have "session_step al (sess n) (sess n')" using ss_video [of "sess n" _ sid payload] assms(2) by (simp add: n' sess_simps)
  then show ?thesis using n' assms(2) by simp
qed (use assms(2) in \<open>simp_all add: session_send sess_simps\<close>)

lemma sess_publish_audio:
  assumes "node_publishAudioConfig e n = (ok, n')" "n_state n = kNegotiating" "\<not> n_direct n"
  shows "session_steps al (sess n) (sess n') \<and> n_state n' = kNegotiating \<and> video_config_sent n' = video_config_sent n
    \<and> (ok \<longrightarrow> audio_published n')"
  using node_publishAudioConfig_cases [OF assms(1,3)]
proof (elim disjE exE conjE)
  fix sid payload
  assume n': "n' = on_audio markConfigPublished (n\<lparr>n_sent := n_sent n @ [stream_config sid kAudioPrefix payload]\<rparr>)" "n_audio n \<noteq> None"
  then have s: "sess n' = (sess n)\<lparr>s_log := n_sent n @ [stream_config sid kAudioPrefix payload], s_audio := True\<rparr>"
    by (simp add: sess_simps)
  then have "session_step al (sess n) (sess n')" using ss_audio [of "sess n" _ sid payload] assms(2) by simp
  moreover have "n_state n' = kNegotiating" "video_config_sent n' = video_config_sent n" "audio_published n'"
    using arg_cong [OF s, of phase] arg_cong [OF s, of s_video] arg_cong [OF s, of s_audio] assms(2) by simp_all
  ultimately show ?thesis by blast
qed (use assms(2) in \<open>simp_all add: session_send sess_simps\<close>)

lemma sess_running:
  assumes "n_state n = kNegotiating" "video_config_sent n" "publishes_audio n \<longrightarrow> audio_published n"
  shows "session_steps al (sess n) (sess (enter_running e n))"
proof -
  define n1 where "n1 = (if audio_enabled n \<and> \<not> publishes_audio n then on_audio markConfigPublished n else n)"
  have a: "n_audio n \<noteq> None" if "audio_enabled n" using that by (cases "n_audio n") (simp_all add: audio_enabled_def)
  have s: "sess n1 = (if audio_enabled n \<and> \<not> publishes_audio n then (sess n)\<lparr>s_audio := True\<rparr> else sess n)"
    using a by (simp add: n1_def sess_simps)
  have "session_steps al (sess n) (sess n1)" using ss_listen [of "sess n"] assms(1) by (simp add: s r_into_rtranclp)
  also have "session_step al (sess n1) ((sess n1)\<lparr>phase := kRunning\<rparr>)"
    by (rule ss_run) (use assms in \<open>auto simp: s\<close>)
  also have "(sess n1)\<lparr>phase := kRunning\<rparr> = sess (enter_running e n)"
    by (simp add: enter_running_def Let_def n1_def [symmetric] sess_on_audio sess_simps)
  finally show ?thesis .
qed

lemma sess_advance:
  assumes "\<not> n_direct n"
  shows "session_steps al (sess n) (sess (tryAdvanceNegotiation e n))"
proof (cases "n_shutting_down n \<or> n_state n \<noteq> kNegotiating")
  case False
  obtain ok1 n1 where p1: "node_publishVideoConfig e n = (ok1, n1)" by (metis prod.exhaust)
  define x where "x = (if publishes_audio n1 \<and> \<not> audio_published n1 then node_publishAudioConfig e n1 else (True, n1))"
  obtain ok2 n2 where p2: "x = (ok2, n2)" by (metis prod.exhaust)
  have n1: "session_steps al (sess n) (sess n1)" "n_state n1 = kNegotiating" "ok1 \<longrightarrow> video_config_sent n1"
    using sess_publish_video [OF p1] False assms by auto
  have d1: "\<not> n_direct n1" using fixed_fields(2) [OF fixed_publish(2) [of e n]] p1 assms by simp
  have n2: "session_steps al (sess n1) (sess n2) \<and> n_state n2 = kNegotiating \<and> video_config_sent n2 = video_config_sent n1
      \<and> (ok2 \<longrightarrow> audio_published n2 \<or> \<not> publishes_audio n2)"
  proof (cases "publishes_audio n1 \<and> \<not> audio_published n1")
    case True
    then show ?thesis using sess_publish_audio [OF _ n1(2) d1, of e ok2 n2] p2 by (simp add: x_def)
  qed (use p2 n1 in \<open>auto simp: x_def\<close>)
  have eq: "tryAdvanceNegotiation e n = (if \<not> ok1 then ensureNegotiationRetryTimer e n1
      else if \<not> ok2 then ensureNegotiationRetryTimer e n2 else enter_running e n2)"
    using False unfolding tryAdvanceNegotiation_def p1 case_bool_pair prod.sel x_def [symmetric] p2
    by (cases ok1; cases ok2) simp_all
  have to_n2: "session_steps al (sess n) (sess n2)" using n1(1) n2 by (metis ss_trans)
  have "session_steps al (sess n) (sess (enter_running e n2))" if "ok1" "ok2"
    using ss_trans [OF to_n2 sess_running [of n2 _ e]] n1 n2 that by blast
  then show ?thesis using n1(1) to_n2 by (cases ok1; cases ok2) (simp_all add: eq sess_simps)
qed (auto simp: tryAdvanceNegotiation_def)

lemma direct_keeps: "\<not> n_direct n \<Longrightarrow> fixed m = fixed n \<Longrightarrow> \<not> n_direct m"
  using fixed_fields(2) by metis

lemma fold_steps:
  assumes "\<And>x m. \<not> n_direct m \<Longrightarrow> session_steps al (sess m) (sess (f x m)) \<and> \<not> n_direct (f x m)" "\<not> n_direct n"
  shows "session_steps al (sess n) (sess (fold f xs n))"
  using assms(2)
proof (induction xs arbitrary: n)
  case (Cons x xs)
  then show ?case using assms(1) [of n x] ss_trans by simp blast
qed simp

lemma sess_run_video:
  fixes n :: "'c MainNode"
  assumes "\<not> n_direct n"
  shows "session_steps al (sess n) (sess (run_video e out n))"
  unfolding run_video_def
proof (rule fold_steps [OF _ assms])
  fix x and m :: "'c MainNode"
  assume m: "\<not> n_direct m"
  then have "\<not> n_direct (tryAdvanceNegotiation e m)" using fixed_fields(2) [OF fixed_advance] by metis
  then show "session_steps al (sess m) (sess (case x of SpsPps sps pps vps \<Rightarrow> onSpsPpsCaptured e m
        | EncodedFrame data ts key \<Rightarrow> onEncodedVideoFrame e data ts key m))
    \<and> \<not> n_direct (case x of SpsPps sps pps vps \<Rightarrow> onSpsPpsCaptured e m
        | EncodedFrame data ts key \<Rightarrow> onEncodedVideoFrame e data ts key m)"
    using m sess_advance [OF m, of _ e] direct_keeps [OF m fixed_media(1) [of e]]
    by (simp add: onSpsPpsCaptured_def sess_simps split: video_output.split)
qed

lemma sess_video_start:
  assumes "\<not> n_direct n"
  shows "session_steps al (sess n) (sess (startVideoAndNegotiate e n))"
proof (cases "n_shutting_down n \<or> n_video n = None")
  case False
  then obtain v where v: "n_video n = Some v" by auto
  have adv: "session_steps al (sess m) (sess (if n_state m = kNegotiating \<and> hasParameterSets m then tryAdvanceNegotiation e m else m))"
    if "\<not> n_direct m" for m using sess_advance [OF that] by simp
  obtain ok out v1 where vs: "vm_start (ne_video_started e) v = (ok, out, v1)" by (metis prod.exhaust)
  define n1 where "n1 = run_video e out (n\<lparr>n_video := Some v1\<rparr>)"
  define n2 where "n2 = ensureNegotiationRetryTimer e (n1\<lparr>video_started := True, video_start_time := ne_now e,
      last_video_keyframe_request_time := 0\<rparr>)"
  have "fixed n1 = fixed n" "fixed n2 = fixed n" by (simp_all add: n1_def n2_def fixed_simps)
  then have d: "\<not> n_direct n1" "\<not> n_direct n2" using direct_keeps assms by metis+
  have "session_steps al (sess (n\<lparr>n_video := Some v1\<rparr>)) (sess n1)"
    unfolding n1_def by (rule sess_run_video) (use assms in simp)
  then have s1: "session_steps al (sess n) (sess n1)" by (simp add: sess_simps)
  moreover have "sess n2 = sess n1" by (simp add: n2_def sess_simps)
  ultimately have s2: "session_steps al (sess n) (sess n2)" by simp
  show ?thesis
  proof (cases "video_started n \<and> vm_isRunning v")
    case True
    have "\<not> n_direct (ensureNegotiationRetryTimer e n)" by (rule direct_keeps [OF assms]) (simp add: fixed_simps)
    from adv [OF this] show ?thesis using False v True by (simp add: startVideoAndNegotiate_def Let_def sess_simps)
  next
    case c: False
    have "startVideoAndNegotiate e n = (if \<not> ok then n1 else if n_state n2 = kNegotiating \<and> hasParameterSets n2
        then tryAdvanceNegotiation e n2 else n2)"
      using False unfolding startVideoAndNegotiate_def v option.case if_not_P [OF c] vs prod.case Let_def n1_def [symmetric]
        n2_def [symmetric] by simp
    then show ?thesis using s1 ss_trans [OF s2 adv [OF d(2)]] by simp
  qed
qed (auto simp: startVideoAndNegotiate_def)

lemma sess_grpc_none [simp]: "n_state (n\<lparr>n_grpc := g\<rparr>) = n_state n"
  by simp

lemma sess_active_pairing: "session_steps al (sess n) (sess (snd (tryActivePairing e n)))"
proof -
  define request where "request = (\<lambda>peer (m :: 'a MainNode). call_grpc (gr_requestPair peer (ne_bool e (length (n_sent m)))) False m)"
  define eps where "eps = call_grpc (gr_listUnpaired (desired_peer_device_type_code n) (ne_endpoints e (length (n_sent n)))) [] n"
  have r: "session_steps al (sess m) (sess (snd (request p m)))" for p and m :: "'a MainNode"
    by (simp add: request_def sess_call)
  have l: "session_steps al (sess n) (sess (snd eps))" unfolding eps_def by (rule sess_call)
  have lr: "session_steps al (sess n) (sess (snd (request p (snd eps))))" for p by (rule ss_trans [OF l r])
  have "snd (tryActivePairing e n) \<in> {n, snd (request (desired_peer_session_id n) n), snd eps,
      snd (request (ue_session_id (hd (fst eps))) (snd eps))}"
    by (cases eps; cases "fst eps") (simp_all add: tryActivePairing_def Let_def request_def [symmetric] eps_def [symmetric])
  moreover have "\<forall>m\<in>{n, snd (request (desired_peer_session_id n) n), snd eps,
      snd (request (ue_session_id (hd (fst eps))) (snd eps))}. session_steps al (sess n) (sess m)"
    using r l lr by simp
  ultimately show ?thesis by blast
qed

lemma requests_of_sends [simp]: "requests_of (sends out) = out"
  by (induction out) (auto simp: requests_of_def sends_def)

lemma sess_enter_pairing: "session_steps al (sess n) (sess (enterPairingState e n))"
proof (cases "n_grpc n = None \<or> n_shutting_down n")
  case False
  then obtain g out g1 where g: "n_grpc n = Some g" "startEventStream g = (out, g1)" by (metis not_None_eq prod.exhaust)
  define n1 where "n1 = (setState kPairing n)\<lparr>n_grpc := Some g1, n_sent := n_sent n @ requests_of out\<rparr>"
  have "session_step al (sess n) ((sess n)\<lparr>phase := kPairing\<rparr>)" by (rule ss_pairing)
  also have "session_steps al ((sess n)\<lparr>phase := kPairing\<rparr>) (sess n1)"
    by (intro session_send [where out = "requests_of out"]) (simp add: n1_def sess_simps)
  finally have "session_steps al (sess n) (sess n1)" .
  also have "session_steps al (sess n1) (sess (enterPairingState e n))"
    using False sess_active_pairing [of al n1 e]
    by (simp add: enterPairingState_def g n1_def [symmetric] Let_def sess_simps)
  finally show ?thesis .
qed (auto simp: enterPairingState_def split: option.split)

lemma sess_handshake_ready: "session_steps al (sess n) (sess (onUdpHandshakeReady e n))"
  using sess_enter_pairing [of al "updateRobotTelemetryLifecycle e n" e] by (simp add: onUdpHandshakeReady_def sess_simps)

lemma sess_run_udp: "session_steps al (sess n) (sess (run_udp e out n))"
  unfolding run_udp_def
proof (induction out arbitrary: n)
  case (Cons x xs)
  have "session_steps al (sess n) (sess (case x of Ready \<Rightarrow> onUdpHandshakeReady e n | Peer_Lost \<Rightarrow> onUdpPeerLost e n
      | AudioDatagram sq data ts \<Rightarrow> receive_audio e sq data ts n | PoseData p \<Rightarrow> n))"
    by (simp add: sess_handshake_ready onUdpPeerLost_def sess_simps split: module_output.split)
  then show ?case using ss_trans [OF _ Cons.IH] by simp
qed simp

lemma sess_start_udp: "session_steps al (sess n) (sess (snd (start_udp e sid n)))"
proof (cases "n_udp n")
  case (Some u)
  obtain ok out u1 where "module_start (ne_fl e) (ne_udp e) (ne_fec0 e) sid u = (ok, out, u1)" by (metis prod.exhaust)
  then show ?thesis using Some sess_run_udp [of al "n\<lparr>n_udp := Some u1\<rparr>" e out] by (simp add: start_udp_def sess_simps)
qed (simp add: start_udp_def)

lemma sess_complete_setup: "session_steps al (sess n) (sess (completeRegisteredSetup e n))"
proof (cases "n_shutting_down n \<or> \<not> grpc_registered n \<or> n_udp n = None")
  case False
  define x where "x = (if publisher_manifest_published n then (True, n) else publishLocalStreamManifest e n)"
  have "session_steps al (sess n) (sess (snd x))" by (simp add: x_def publishLocalStreamManifest_def sess_call)
  then have x: "session_steps al (sess n) (sess ((snd x)\<lparr>publisher_manifest_published := True\<rparr>))" by (simp add: sess_simps)
  define sid where "sid = (case n_grpc ((snd x)\<lparr>publisher_manifest_published := True\<rparr>) of None \<Rightarrow> [] | Some g \<Rightarrow> gr_sessionId g)"
  define y where "y = (if udp_running ((snd x)\<lparr>publisher_manifest_published := True\<rparr>) then (True, (snd x)\<lparr>publisher_manifest_published := True\<rparr>)
      else start_udp e sid ((snd x)\<lparr>publisher_manifest_published := True\<rparr>))"
  have "session_steps al (sess ((snd x)\<lparr>publisher_manifest_published := True\<rparr>)) (sess (snd y))"
    by (simp add: y_def sess_start_udp)
  with x have y: "session_steps al (sess n) (sess (snd y))" by (rule ss_trans)
  have "completeRegisteredSetup e n = (if fst x then if fst y
      then updateRobotTelemetryLifecycle e (stopRegisteredSetupRetryTimer (snd y))
      else ensureRegisteredSetupRetryTimer e (snd y) else ensureRegisteredSetupRetryTimer e (snd x))"
    unfolding completeRegisteredSetup_def if_not_P [OF False] case_bool_pair Let_def x_def [symmetric] sid_def [symmetric]
      y_def [symmetric] ..
  then show ?thesis using x y by (simp add: sess_simps)
qed (auto simp: completeRegisteredSetup_def sess_simps)

lemma sess_registered: "session_steps al (sess n) (sess (onGrpcRegistered e n))"
proof (cases "n_shutting_down n")
  case False
  let ?m = "resetPeerSubscriptionState ((setState kRegistered (stopRegisteredSetupRetryTimer (stopPairingRetryTimer
      (stopNegotiationRetryTimer n))))\<lparr>publisher_manifest_published := False\<rparr>)"
  have "session_step al (sess n) ((sess n)\<lparr>phase := kRegistered\<rparr>)" by (rule ss_registered)
  also have "(sess n)\<lparr>phase := kRegistered\<rparr> = sess ?m" by (simp add: sess_simps)
  also have "session_steps al (sess ?m) (sess (completeRegisteredSetup e ?m))" by (rule sess_complete_setup)
  finally show ?thesis using False by (simp add: onGrpcRegistered_def)
qed (simp add: onGrpcRegistered_def)

lemma sess_reset_audio:
  "sess (on_audio (\<lambda>a. resetRemoteConfig (resetConfigPublished (aud_stop a))) n) = (sess n)\<lparr>s_audio := False\<rparr>"
  by (simp add: sess_def on_audio_def audio_published_def audio_enabled_def publishes_audio_def resetRemoteConfig_def
      resetConfigPublished_def aud_stop_def aud_isEnabled_def split: option.split)

text \<open>A teardown, and a teardown after the peer was forgotten.\<close>

lemma sess_teardown:
  assumes "t \<in> {kConnecting, kRegistered, kPairing}" "\<not> session_teardown_in_progress n"
    "sess m = (sess n)\<lparr>s_peer := p\<rparr>" "fixed m = fixed n"
  shows "session_steps al (sess n) (sess (teardownActiveSession e t m)) \<or> teardownActiveSession e t m = m \<and> n_shutting_down n"
proof (cases "n_shutting_down m \<and> t \<noteq> kConnecting")
  case False
  have m: "\<not> session_teardown_in_progress m" using assms(2,4) by (simp add: fixed_def)
  define n4 where "n4 = resetVideoConfigState (stopVideo (on_audio (\<lambda>a. resetRemoteConfig (resetConfigPublished (aud_stop a)))
      (forget_peer (stopPairingRetryTimer (stopPeerSubscriptionRetryTimer (stopNegotiationRetryTimer (stopRobotTelemetry
        (setState t (m\<lparr>session_teardown_in_progress := True\<rparr>)))))))))"
  have n4: "sess n4 = (sess n)\<lparr>phase := t, s_peer := [], s_video := False, s_audio := False\<rparr>"
    by (simp add: n4_def resetVideoConfigState_def sess_reset_audio sess_simps assms(3))
  have "session_step al (sess n) (sess n4)" unfolding n4 by (rule ss_teardown [OF assms(1)])
  moreover define n6 where "n6 = (if t = kPairing \<or> t = kRegistered
      then on_udp (module_resetSession (ne_udp e)) (if t = kConnecting then stopRegisteredSetupRetryTimer (n4\<lparr>publisher_manifest_published := False\<rparr>) else n4)
      else if t = kConnecting then on_udp module_stop (if t = kConnecting then stopRegisteredSetupRetryTimer (n4\<lparr>publisher_manifest_published := False\<rparr>) else n4)
      else (if t = kConnecting then stopRegisteredSetupRetryTimer (n4\<lparr>publisher_manifest_published := False\<rparr>) else n4))"
  have "sess n6 = sess n4" by (simp add: n6_def sess_simps)
  ultimately have s6: "session_steps al (sess n) (sess n6)" by (simp add: r_into_rtranclp)
  have "session_steps al (sess n) (sess (if t = kPairing then enterPairingState e n6 else n6))"
    using s6 ss_trans [OF s6 sess_enter_pairing] by simp
  moreover have "teardownActiveSession e t m = (updateRobotTelemetryLifecycle e
      (if t = kPairing then enterPairingState e n6 else n6))\<lparr>session_teardown_in_progress := False\<rparr>"
    unfolding teardownActiveSession_def if_not_P [OF False] if_not_P [OF m] Let_def n4_def [symmetric] n6_def [symmetric] ..
  ultimately show ?thesis by (simp add: sess_simps)
qed (use assms(4) in \<open>auto simp: teardownActiveSession_def fixed_def\<close>)

lemma sess_teardown_plain:
  assumes "t \<in> {kConnecting, kRegistered, kPairing}" "\<not> session_teardown_in_progress n"
  shows "session_steps al (sess n) (sess (teardownActiveSession e t n))"
proof -
  have "sess n = (sess n)\<lparr>s_peer := s_peer (sess n)\<rparr>" by simp
  from sess_teardown [OF assms this refl, of al e] show ?thesis by auto
qed

lemma sess_heartbeat_fail:
  assumes "\<not> session_teardown_in_progress n"
  shows "session_steps al (sess n) (sess (onGrpcHeartbeatFail e n))"
proof (cases "n_shutting_down n")
  case False
  let ?m = "stopRegisteredSetupRetryTimer (stopPeerSubscriptionRetryTimer (resetPeerSubscriptionState
      (n\<lparr>publisher_manifest_published := False\<rparr>)))"
  have "fixed ?m = fixed n" by (simp add: fixed_simps)
  then have "\<not> session_teardown_in_progress ?m" using fixed_fields(10) assms by metis
  from sess_teardown_plain [OF _ this, of kConnecting _ e] show ?thesis
    using False by (simp add: onGrpcHeartbeatFail_def sess_simps)
qed (simp add: onGrpcHeartbeatFail_def)

lemma sess_peer_lost:
  assumes "\<not> session_teardown_in_progress n"
  shows "session_steps al (sess n) (sess (handleUdpPeerLost e n))"
  using sess_teardown_plain [OF _ assms, of kPairing _ e] by (simp add: handleUdpPeerLost_def sess_simps)

lemma sess_stream_end:
  assumes "\<not> session_teardown_in_progress n"
  shows "session_steps al (sess n) (sess (stream_end_work e n))"
proof -
  have "session_steps al (sess n) (sess (teardownActiveSession e kRegistered n))" using sess_teardown_plain assms by blast
  then show ?thesis using ss_trans sess_enter_pairing by (simp add: stream_end_work_def Let_def) blast
qed

text \<open>The work that may start a negotiation.\<close>

definition asks_to_pair :: "'c MainNode \<Rightarrow> session_work \<Rightarrow> bool" where
  "asks_to_pair n w \<longleftrightarrow> (\<exists>info. w = SignalingWork (PairEvent PairEvent_ACCEPT (Some info))
     \<or> w = SignalingWork (PairEvent PairEvent_REQUEST (Some info)) \<and> pair_auto_accept n \<and> peer_matches info n)"

lemma asks_fixed: "fixed m = fixed n \<Longrightarrow> asks_to_pair m = asks_to_pair n"
  by (rule ext) (simp add: asks_to_pair_def peer_matches_def fixed_def)

lemma asks_queue [simp]: "asks_to_pair (n\<lparr>session_work_queue := ws\<rparr>) = asks_to_pair n"
  by (rule ext) (simp add: asks_to_pair_def peer_matches_def)

lemma sess_pair_with:
  assumes "\<not> n_direct n" "al"
  shows "session_steps al (sess n) (sess (pair_with p e n))"
proof -
  let ?m = "setState kNegotiating (stopPairingRetryTimer (on_audio resetRemoteConfig
       (n\<lparr>paired_peer_session_id := p, peer_streams_subscribed := False, peer_subscribed_prefixes := []\<rparr>)))"
  have "sess ?m = (sess n)\<lparr>phase := kNegotiating, s_peer := p\<rparr>" by (simp add: sess_on_audio sess_simps)
  then have "session_step al (sess n) (sess ?m)" using ss_pair [OF assms(2), of "sess n" p] by simp
  moreover have "\<not> n_direct ?m" by (rule direct_keeps [OF assms(1)]) (simp add: fixed_simps)
  ultimately show ?thesis unfolding pair_with_def using sess_video_start by (meson converse_rtranclp_into_rtranclp)
qed

lemma sess_signaling:
  assumes "\<not> n_direct n" "\<not> session_teardown_in_progress n" "asks_to_pair n (SignalingWork msg) \<Longrightarrow> al"
  shows "session_steps al (sess n) (sess (handleSignalingEvent e msg n))"
proof (cases "\<exists>op info. msg = PairEvent op (Some info) \<and> \<not> n_shutting_down n")
  case False
  then show ?thesis by (auto simp: handleSignalingEvent_def sess_simps split: EventMessage.split option.split)
next
  case True
  then obtain op info where msg: "msg = PairEvent op (Some info)" "\<not> n_shutting_down n" by blast
  let ?p = "ei_session_id info"
  show ?thesis
  proof (cases op)
    case PairEvent_REQUEST
    define x where "x = (if pair_auto_accept n \<and> peer_matches info n
        then call_grpc (gr_acceptPair ?p (ne_bool e (length (n_sent n)))) False n else (False, n))"
    have x: "session_steps al (sess n) (sess (snd x))" by (simp add: x_def sess_call)
    have "fixed (snd x) = fixed n" by (simp add: x_def fixed_simps)
    then have "\<not> n_direct (snd x)" by (rule direct_keeps [OF assms(1)])
    moreover have al if "fst x" using assms(3) that by (auto simp: asks_to_pair_def x_def msg PairEvent_REQUEST split: if_splits)
    ultimately have "session_steps al (sess n) (sess (pair_with ?p e (snd x)))" if "fst x"
      using that by (blast intro: ss_trans [OF x sess_pair_with])
    moreover have "session_steps al (sess n) (sess (snd (call_grpc (gr_rejectPair ?p (ne_bool e (length (n_sent (snd x))))) False (snd x))))"
      by (rule ss_trans [OF x sess_call])
    moreover have "handleSignalingEvent e msg n = (if fst x then pair_with ?p e (snd x)
        else snd (call_grpc (gr_rejectPair ?p (ne_bool e (length (n_sent (snd x))))) False (snd x)))"
      using msg(2) unfolding msg(1) PairEvent_REQUEST handleSignalingEvent_def EventMessage.case option.case PairEvent_Op.case
        case_bool_pair Let_def x_def [symmetric] by simp
    ultimately show ?thesis by simp
  next
    case PairEvent_ACCEPT
    then have al using assms(3) by (auto simp: asks_to_pair_def msg)
    from sess_pair_with [OF assms(1) this] show ?thesis using msg PairEvent_ACCEPT by (simp add: handleSignalingEvent_def)
  next
    case PairEvent_REJECT
    have "session_step al (sess n) (sess (setState kPairing (forget_if ?p n)))"
      using ss_rejected [of al "sess n"] ss_pairing [of al "sess n"] by (simp add: forget_if_def sess_simps)
    then show ?thesis using msg PairEvent_REJECT by (simp add: handleSignalingEvent_def Let_def sess_simps)
  next
    case PairEvent_UNPAIR
    have s: "sess (forget_if ?p n) = (sess n)\<lparr>s_peer := (if paired_peer_session_id n = ?p then [] else s_peer (sess n))\<rparr>"
      by (simp add: forget_if_def sess_simps)
    have "fixed (forget_if ?p n) = fixed n" by (simp add: fixed_simps)
    from sess_teardown [OF _ assms(2) s this, of kPairing _ e] show ?thesis
      using msg PairEvent_UNPAIR by (simp add: handleSignalingEvent_def)
  qed
qed

lemma sess_run_work:
  assumes "\<not> n_direct n" "\<not> session_teardown_in_progress n" "asks_to_pair n w \<Longrightarrow> al"
  shows "session_steps al (sess n) (sess (run_work e w n))"
  using assms by (simp add: run_work_def sess_stream_end sess_peer_lost sess_signaling split: session_work.split)

lemma sess_drain:
  "\<not> n_direct n \<Longrightarrow> \<not> session_teardown_in_progress n \<Longrightarrow> (\<exists>w\<in>set (session_work_queue n). asks_to_pair n w) \<longrightarrow> al \<Longrightarrow> session_steps al (sess n) (sess (drainSessionWork e n))
    \<and> \<not> n_direct (drainSessionWork e n) \<and> \<not> session_teardown_in_progress (drainSessionWork e n)"
proof (induction e n rule: drainSessionWork.induct)
  case (1 e n)
  show ?case
  proof (cases "n_shutting_down n \<or> session_work_queue n = []")
    case True
    have "fixed (stop_timer SessionWork n) = fixed n" by (rule fixed_timers(2))
    then show ?thesis using 1 True fixed_fields(2,10) [of "stop_timer SessionWork n" n]
      by (auto simp: drainSessionWork.simps [of e n] sess_simps)
  next
    case False
    then obtain w ws where q: "session_work_queue n = w # ws" by (cases "session_work_queue n") auto
    let ?m = "run_work e w (n\<lparr>session_work_queue := ws\<rparr>)"
    have f: "fixed ?m = fixed (n\<lparr>session_work_queue := ws\<rparr>)" by (rule fixed_signaling(3))
    have m: "\<not> n_direct ?m" "\<not> session_teardown_in_progress ?m"
      using fixed_fields(2) [OF f] fixed_fields(10) [OF f] 1(2,3) by simp_all
    have a: "(\<exists>w\<in>set (session_work_queue ?m). asks_to_pair ?m w) \<longrightarrow> al"
      using 1(4) q asks_fixed [OF f] fixed_fields(3) [OF f] by simp
    have "session_steps al (sess (n\<lparr>session_work_queue := ws\<rparr>)) (sess ?m)" using 1(2,3,4) q by (intro sess_run_work) simp_all
    then have "session_steps al (sess n) (sess ?m)" by (simp add: sess_simps)
    then show ?thesis using 1(1) [OF _ q m a] False q ss_trans by (simp add: drainSessionWork.simps [of e n])
  qed
qed

section \<open>The timers\<close>

lemma sess_negotiation_timer:
  assumes "\<not> n_direct n"
  shows "session_steps al (sess n) (sess (negotiationRetryTimerCallback e n))"
proof (cases "n_shutting_down n \<or> n_state n \<noteq> kNegotiating \<or> n_video n = None")
  case True
  then show ?thesis by (auto simp: negotiationRetryTimerCallback_def sess_simps)
next
  case False
  have adv: "session_steps al (sess n) (sess (tryAdvanceNegotiation e n))" by (rule sess_advance [OF assms])
  have "\<not> n_direct (request_keyframe (ne_now e) n)" by (rule direct_keeps [OF assms]) (simp add: fixed_simps)
  from sess_advance [OF this, of _ e] have key: "session_steps al (sess n) (sess (tryAdvanceNegotiation e (request_keyframe (ne_now e) n)))"
    by (simp add: sess_simps)
  let ?r = "resetVideoConfigState (stopVideo n)"
  have "\<not> n_direct ?r" by (rule direct_keeps [OF assms]) (simp add: fixed_simps)
  from sess_video_start [OF this, of _ e] have "session_steps al (sess ?r) (sess (startVideoAndNegotiate e ?r))" .
  moreover have "session_step al (sess n) (sess ?r)"
    using ss_restart [of "sess n"] False by (simp add: resetVideoConfigState_def sess_simps)
  ultimately have "session_steps al (sess n) (sess (startVideoAndNegotiate e ?r))" by (rule converse_rtranclp_into_rtranclp [rotated])
  then show ?thesis using False adv key sess_video_start [OF assms] by (simp add: negotiationRetryTimerCallback_def)
qed

lemma call_out: "\<exists>out. snd (call_grpc f d n) = n\<lparr>n_sent := n_sent n @ out\<rparr>"
proof (cases "n_grpc n")
  case None
  then have "snd (call_grpc f d n) = n\<lparr>n_sent := n_sent n @ []\<rparr>" by (simp add: call_grpc_def)
  then show ?thesis by blast
next
  case (Some g)
  then have "snd (call_grpc f d n) = n\<lparr>n_sent := n_sent n @ snd (f g)\<rparr>" by (simp add: call_grpc_def split_beta)
  then show ?thesis by blast
qed

text \<open>The two handlers with the other threads in between: a request or two, what the others do, and the last section.\<close>

lemma subscriptions_cases:
  "snd (ensurePeerSubscriptions e other n) \<in> {n, n\<lparr>peer_streams_subscribed := True, peer_subscribed_prefixes := []\<rparr>}
    \<or> (\<exists>out ps b. snd (ensurePeerSubscriptions e other n) \<in> {other (n\<lparr>n_sent := n_sent n @ out\<rparr>),
         snd (commit_subscription (paired_peer_session_id n) ps b (other (n\<lparr>n_sent := n_sent n @ out\<rparr>)))})"
proof (cases "n_grpc n = None \<or> peer_streams_subscribed n \<or> paired_peer_session_id n = []
    \<or> \<not> subscribe_vr_pose_flag n \<and> \<not> wantsRemoteAudio n")
  case False
  then have c: "n_grpc n \<noteq> None" "\<not> peer_streams_subscribed n" "paired_peer_session_id n \<noteq> []"
    "\<not> (\<not> subscribe_vr_pose_flag n \<and> \<not> wantsRemoteAudio n)" by simp_all
  define x where "x = call_grpc (getStreamPrefixes (paired_peer_session_id n) (ne_manifest e (length (n_sent n)))) (False, []) n"
  define w where "w = wanted_prefixes (subscribe_vr_pose_flag (snd x)) (wantsRemoteAudio (snd x)) (snd (fst x))"
  define y where "y = (if fst w \<noteq> peer_subscribed_prefixes n \<and> fst w \<noteq> []
      then call_grpc (gr_subscribe (paired_peer_session_id n) (fst w) (ne_bool e (length (n_sent (snd x))))) False (snd x) else (True, snd x))"
  have "\<exists>out. snd x = n\<lparr>n_sent := n_sent n @ out\<rparr>" unfolding x_def by (rule call_out)
  then obtain o1 where x: "snd x = n\<lparr>n_sent := n_sent n @ o1\<rparr>" by blast
  have "\<exists>out. snd y = (snd x)\<lparr>n_sent := n_sent (snd x) @ out\<rparr>"
  proof (cases "fst w \<noteq> peer_subscribed_prefixes n \<and> fst w \<noteq> []")
    case True
    show ?thesis unfolding y_def if_P [OF True] by (rule call_out)
  next
    case False
    have "snd y = (snd x)\<lparr>n_sent := n_sent (snd x) @ []\<rparr>" unfolding y_def if_not_P [OF False] by simp
    then show ?thesis by blast
  qed
  then obtain o2 where "snd y = (snd x)\<lparr>n_sent := n_sent (snd x) @ o2\<rparr>" by blast
  then have y: "snd y = n\<lparr>n_sent := n_sent n @ (o1 @ o2)\<rparr>" by (simp add: x)
  have "snd (ensurePeerSubscriptions e other n) = (if \<not> fst (fst x) then other (snd x) else if \<not> fst y then other (snd y)
      else snd (commit_subscription (paired_peer_session_id n) (fst w) (snd w) (other (snd y))))"
    unfolding ensurePeerSubscriptions_def if_not_P [OF c(1)] if_not_P [OF c(2)] if_not_P [OF c(3)] if_not_P [OF c(4)] Let_def split_beta
      x_def [symmetric] w_def [symmetric] y_def [symmetric] by (simp only: if_distrib [of snd] snd_conv)
  then have "snd (ensurePeerSubscriptions e other n) \<in> {other (snd x)} \<or> snd (ensurePeerSubscriptions e other n)
      \<in> {other (snd y), snd (commit_subscription (paired_peer_session_id n) (fst w) (snd w) (other (snd y)))}" by simp
  then show ?thesis unfolding x y by blast
qed (auto simp: ensurePeerSubscriptions_def)

lemma sess_commit_config [sess_simps]: "sess (snd (commit_remote_config p rc cid n)) = sess n"
proof (cases "n_audio n")
  case (Some a)
  have "sess (n\<lparr>n_audio := Some (snd (applyRemoteConfig rc cid a))\<rparr>) = sess (on_audio (\<lambda>a. snd (applyRemoteConfig rc cid a)) n)"
    by (simp add: on_audio_def Some)
  then show ?thesis by (simp add: commit_remote_config_def Some split_beta sess_on_audio)
qed (simp add: commit_remote_config_def)

lemma fetch_cases:
  "snd (fetchRemoteAudioConfig e other n) = n
    \<or> (\<exists>out rc cid. snd (fetchRemoteAudioConfig e other n) \<in> {other (n\<lparr>n_sent := n_sent n @ out\<rparr>),
         snd (commit_remote_config (paired_peer_session_id n) rc cid (other (n\<lparr>n_sent := n_sent n @ out\<rparr>)))})"
proof (cases "\<not> wantsRemoteAudio n \<or> n_audio n = None \<or> n_grpc n = None \<or> paired_peer_session_id n = []
    \<or> remote_config_ready (the (n_audio n))")
  case True
  then show ?thesis by (auto simp: fetchRemoteAudioConfig_def split: option.splits)
next
  case False
  then obtain a where a: "n_audio n = Some a" by auto
  have c: "\<not> \<not> wantsRemoteAudio n" "n_grpc n \<noteq> None" "paired_peer_session_id n \<noteq> []" "\<not> remote_config_ready a" using False a by simp_all
  define x where "x = call_grpc (fetchAudioConfig (ne_of_json e) (paired_peer_session_id n) (ne_item e (length (n_sent n)))
      GrpcAudioConfig_default []) (False, GrpcAudioConfig_default, []) n"
  have "\<exists>out. snd x = n\<lparr>n_sent := n_sent n @ out\<rparr>" unfolding x_def by (rule call_out)
  then obtain o1 where x: "snd x = n\<lparr>n_sent := n_sent n @ o1\<rparr>" by blast
  have "snd (fetchRemoteAudioConfig e other n) = (if \<not> fst (fst x) then other (snd x)
      else (case validateRemoteAudioConfig (snd x) (fst (snd (fst x))) of None \<Rightarrow> other (snd x)
        | Some rc \<Rightarrow> snd (commit_remote_config (paired_peer_session_id n) rc (snd (snd (fst x))) (other (snd x)))))"
    unfolding fetchRemoteAudioConfig_def if_not_P [OF c(1)] a option.case if_not_P [OF c(2)] if_not_P [OF c(3)] if_not_P [OF c(4)]
      Let_def split_beta x_def [symmetric] by (simp add: if_distrib [of snd] split: option.split)
  then have "\<exists>rc cid. snd (fetchRemoteAudioConfig e other n)
      \<in> {other (snd x), snd (commit_remote_config (paired_peer_session_id n) rc cid (other (snd x)))}"
    by (simp split: if_splits option.splits) blast+
  then show ?thesis unfolding x by blast
qed

lemma sess_subscriptions:
  assumes "\<And>m. fixed m = fixed n \<Longrightarrow> session_steps al (sess m) (sess (other m))"
  shows "session_steps al (sess n) (sess (snd (ensurePeerSubscriptions e other n)))"
  using subscriptions_cases [of e other n]
proof (elim disjE exE)
  fix out ps b
  have "session_steps al (sess n) (sess (n\<lparr>n_sent := n_sent n @ out\<rparr>))" by (rule session_send) (simp add: sess_simps)
  also have "session_steps al \<dots> (sess (other (n\<lparr>n_sent := n_sent n @ out\<rparr>)))" by (rule assms) (simp add: fixed_simps)
  finally have "session_steps al (sess n) (sess (other (n\<lparr>n_sent := n_sent n @ out\<rparr>)))" .
  moreover assume "snd (ensurePeerSubscriptions e other n) \<in> {other (n\<lparr>n_sent := n_sent n @ out\<rparr>),
         snd (commit_subscription (paired_peer_session_id n) ps b (other (n\<lparr>n_sent := n_sent n @ out\<rparr>)))}"
  ultimately show ?thesis by (auto simp: sess_simps)
qed (auto simp: sess_simps)

lemma sess_fetch:
  assumes "\<And>m. fixed m = fixed n \<Longrightarrow> session_steps al (sess m) (sess (other m))"
  shows "session_steps al (sess n) (sess (snd (fetchRemoteAudioConfig e other n)))"
  using fetch_cases [of e other n]
proof (elim disjE exE)
  fix out rc cid
  have "session_steps al (sess n) (sess (n\<lparr>n_sent := n_sent n @ out\<rparr>))" by (rule session_send) (simp add: sess_simps)
  also have "session_steps al \<dots> (sess (other (n\<lparr>n_sent := n_sent n @ out\<rparr>)))" by (rule assms) (simp add: fixed_simps)
  finally have "session_steps al (sess n) (sess (other (n\<lparr>n_sent := n_sent n @ out\<rparr>)))" .
  moreover assume "snd (fetchRemoteAudioConfig e other n) \<in> {other (n\<lparr>n_sent := n_sent n @ out\<rparr>),
         snd (commit_remote_config (paired_peer_session_id n) rc cid (other (n\<lparr>n_sent := n_sent n @ out\<rparr>)))}"
  ultimately show ?thesis by (auto simp: sess_simps)
qed (auto simp: sess_simps)

section \<open>Every step\<close>

text \<open>Between steps no teardown is in progress. The direct mode has no session.\<close>

definition settled :: "'c MainNode \<Rightarrow> bool" where
  "settled n \<longleftrightarrow> \<not> n_direct n \<and> \<not> session_teardown_in_progress n"

definition simulates :: "bool \<Rightarrow> 'c MainNode \<Rightarrow> 'c MainNode \<Rightarrow> bool" where
  "simulates al n n' \<longleftrightarrow> (settled n \<longrightarrow> session_steps al (sess n) (sess n') \<and> settled n')"

lemma simulates_refl [simp]: "simulates al n n"
  by (simp add: simulates_def)

lemma simulates_trans: "simulates al n n1 \<Longrightarrow> simulates al n1 n2 \<Longrightarrow> simulates al n n2"
  using ss_trans by (auto simp: simulates_def)

lemma settled_fixed: "fixed m = fixed n \<Longrightarrow> settled m = settled n"
  by (simp add: settled_def fixed_def)

lemma simulatesI:
  assumes "fixed n' = fixed n" "\<not> n_direct n \<Longrightarrow> \<not> session_teardown_in_progress n \<Longrightarrow> session_steps al (sess n) (sess n')"
  shows "simulates al n n'"
  using assms settled_fixed [OF assms(1)] by (auto simp: simulates_def settled_def)

lemma simulates_stutter:
  assumes "sess m = sess n" "settled m = settled n"
  shows "simulates al n m"
  using assms by (simp add: simulates_def)

lemma simulates_cong:
  assumes "simulates al m n'" "sess m = sess n" "settled m = settled n"
  shows "simulates al n n'"
  using assms by (simp add: simulates_def)

lemma simulates_fold: "(\<And>x m. simulates al m (f x m)) \<Longrightarrow> simulates al n (fold f xs n)"
proof (induction xs arbitrary: n)
  case (Cons x xs)
  then show ?case using simulates_trans by simp blast
qed simp

lemma settled_post [simp]: "settled (postSessionWork e w n) = settled n"
  by (simp add: postSessionWork_def settled_def Let_def)

lemma simulates_post: "simulates al n (postSessionWork e w n)"
  by (rule simulates_stutter) (simp_all add: sess_simps)

lemma simulates_run_udp: "simulates al n (run_udp e out n)"
  unfolding run_udp_def
proof (rule simulates_fold)
  fix x and m :: "'a MainNode"
  have "simulates al m (onUdpHandshakeReady e m)" by (rule simulatesI) (simp_all add: sess_handshake_ready fixed_simps)
  moreover have "simulates al m (onUdpPeerLost e m)" by (simp add: onUdpPeerLost_def simulates_post)
  moreover have "simulates al m (receive_audio e sq data ts m)" for sq data ts
    by (rule simulatesI) (simp_all add: sess_simps, simp add: receive_audio_def fixed_simps)
  ultimately show "simulates al m (case x of Ready \<Rightarrow> onUdpHandshakeReady e m | Peer_Lost \<Rightarrow> onUdpPeerLost e m
      | AudioDatagram sq data ts \<Rightarrow> receive_audio e sq data ts m | PoseData p \<Rightarrow> m)"
    by (simp split: module_output.split)
qed

lemma simulates_run_grpc: "simulates al n (run_grpc e out n)"
  unfolding run_grpc_def
proof (rule simulates_fold)
  fix x and m :: "'a MainNode"
  have "simulates al m (m\<lparr>n_sent := n_sent m @ [(sid, req)]\<rparr>)" for sid req
  proof (rule simulatesI)
    show "session_steps al (sess m) (sess (m\<lparr>n_sent := n_sent m @ [(sid, req)]\<rparr>))"
      by (rule session_send [where out = "[(sid, req)]"]) (simp add: sess_simps)
  qed (simp add: fixed_simps)
  moreover have "simulates al m (onGrpcRegistered e m)" by (rule simulatesI) (simp_all add: sess_registered fixed_simps)
  moreover have "simulates al m (onGrpcHeartbeatFail e m)" by (rule simulatesI) (simp_all add: sess_heartbeat_fail fixed_simps)
  moreover have "simulates al m (onGrpcStreamEnd e m)" by (simp add: onGrpcStreamEnd_def simulates_post)
  ultimately show "simulates al m (case x of Sent sid req \<Rightarrow> m\<lparr>n_sent := n_sent m @ [(sid, req)]\<rparr>
      | On_registered \<Rightarrow> onGrpcRegistered e m | On_event \<Rightarrow> m | On_heartbeat_fail \<Rightarrow> onGrpcHeartbeatFail e m
      | On_stream_end \<Rightarrow> onGrpcStreamEnd e m)"
    by (simp split: grpc_output.split)
qed

lemma simulates_on_grpc: "simulates al n (on_grpc e f n)"
proof (cases "n_grpc n")
  case (Some g)
  have "simulates al (n\<lparr>n_grpc := Some (snd (f g))\<rparr>) (run_grpc e (fst (f g)) (n\<lparr>n_grpc := Some (snd (f g))\<rparr>))"
    by (rule simulates_run_grpc)
  then have "simulates al n (run_grpc e (fst (f g)) (n\<lparr>n_grpc := Some (snd (f g))\<rparr>))"
    by (rule simulates_cong) (simp_all add: sess_simps settled_def)
  then show ?thesis by (simp add: on_grpc_def Some split_beta)
qed (simp add: on_grpc_def)

lemma fixed_audio_sample: "fixed (audio_sample e ms s n) = fixed n"
  by (simp add: audio_sample_def fixed_simps split: option.split prod.split)

lemma sess_audio_sample: "sess (audio_sample e ms s n) = sess n"
proof (cases "n_audio n")
  case (Some a)
  have "sess (n\<lparr>n_audio := Some (snd (aud_sample (ne_fl e) (ne_ntp e) ms s a))\<rparr>)
      = sess (on_audio (\<lambda>a. snd (aud_sample (ne_fl e) (ne_ntp e) ms s a)) n)"
    by (simp add: on_audio_def Some)
  then show ?thesis by (auto simp: audio_sample_def Some sess_on_audio sess_simps split: option.split prod.split)
qed (simp add: audio_sample_def)

lemma fixed_stats: "fixed (videoStatsTimerCallback e stats n) = fixed n"
  by (simp add: videoStatsTimerCallback_def ask_after_losses_def Let_def split_beta fixed_simps split: option.split)

lemma sess_stats: "sess (videoStatsTimerCallback e stats n) = sess n"
  by (simp add: videoStatsTimerCallback_def ask_after_losses_def Let_def split_beta sess_simps split: option.split)

lemma simulates_subscription_timer:
  assumes "\<And>m. simulates al m (other1 m)" "\<And>m. simulates al m (other2 m)"
  shows "simulates al n (peerSubscriptionRetryTimerCallback e other1 other2 n)"
proof -
  have send: "simulates al m (m\<lparr>n_sent := n_sent m @ out\<rparr>)" for m :: "'a MainNode" and out
  proof (rule simulatesI)
    show "session_steps al (sess m) (sess (m\<lparr>n_sent := n_sent m @ out\<rparr>))"
      by (rule session_send [where out = out]) (simp add: sess_simps)
  qed (simp add: fixed_simps)
  have "fixed (snd (commit_subscription p ps b m)) = fixed m" "fixed (snd (commit_remote_config p rc cid m)) = fixed m"
    for m :: "'a MainNode" and p ps b rc cid
    by (simp_all add: commit_subscription_def commit_remote_config_def fixed_simps split: option.split prod.split)
  then have commit: "simulates al m (snd (commit_subscription p ps b m))" "simulates al m (snd (commit_remote_config p rc cid m))"
    for m :: "'a MainNode" and p ps b rc cid
    by (simp_all add: simulatesI sess_simps)
  have one: "simulates al m (snd (ensurePeerSubscriptions e other1 m))" for m
    using subscriptions_cases [of e other1 m]
  proof (elim disjE exE)
    fix out ps b
    have "simulates al m (other1 (m\<lparr>n_sent := n_sent m @ out\<rparr>))" by (rule simulates_trans [OF send assms(1)])
    moreover assume "snd (ensurePeerSubscriptions e other1 m) \<in> {other1 (m\<lparr>n_sent := n_sent m @ out\<rparr>),
         snd (commit_subscription (paired_peer_session_id m) ps b (other1 (m\<lparr>n_sent := n_sent m @ out\<rparr>)))}"
    ultimately show ?thesis using simulates_trans [OF _ commit(1)] by auto
  qed (auto intro!: simulatesI simp: sess_simps fixed_simps)
  have two: "simulates al m (snd (fetchRemoteAudioConfig e other2 m))" for m
    using fetch_cases [of e other2 m]
  proof (elim disjE exE)
    fix out rc cid
    have "simulates al m (other2 (m\<lparr>n_sent := n_sent m @ out\<rparr>))" by (rule simulates_trans [OF send assms(2)])
    moreover assume "snd (fetchRemoteAudioConfig e other2 m) \<in> {other2 (m\<lparr>n_sent := n_sent m @ out\<rparr>),
         snd (commit_remote_config (paired_peer_session_id m) rc cid (other2 (m\<lparr>n_sent := n_sent m @ out\<rparr>)))}"
    ultimately show ?thesis using simulates_trans [OF _ commit(2)] by auto
  qed simp
  have stop: "simulates al m (stopPeerSubscriptionRetryTimer m)" for m :: "'a MainNode"
    by (rule simulatesI) (simp_all add: sess_simps fixed_simps)
  let ?n2 = "snd (fetchRemoteAudioConfig e other2 (snd (ensurePeerSubscriptions e other1 n)))"
  have n2: "simulates al n ?n2" by (rule simulates_trans [OF one two])
  show ?thesis using stop [of n] n2 simulates_trans [OF n2 stop]
    by (simp add: peerSubscriptionRetryTimerCallback_def Let_def split_beta)
qed

lemma simulates_step:
  assumes "node_step e n n'" "(\<exists>w\<in>set (session_work_queue n). asks_to_pair n w) \<longrightarrow> al"
  shows "simulates al n n'"
  using assms(1)
proof cases
  case (ns_event g msg)
  then show ?thesis by (simp add: onSignalingEvent_def simulates_post)
next
  case (ns_handshake u out u')
  have "simulates al n (run_udp e out (n\<lparr>n_udp := Some u'\<rparr>))"
    by (rule simulates_cong [OF simulates_run_udp]) (simp_all add: sess_simps settled_def)
  with ns_handshake show ?thesis by simp
next
  case (ns_peer_lost u out u')
  have "simulates al n (run_udp e out (n\<lparr>n_udp := Some u'\<rparr>))"
    by (rule simulates_cong [OF simulates_run_udp]) (simp_all add: sess_simps settled_def)
  with ns_peer_lost show ?thesis by simp
next
  case (ns_datagram u f32 fl32 now d out u')
  have "simulates al n (run_udp e out (n\<lparr>n_udp := Some u'\<rparr>))"
    by (rule simulates_cong [OF simulates_run_udp]) (simp_all add: sess_simps settled_def)
  with ns_datagram show ?thesis by simp
next
  case (ns_encoded v data ts key vout v')
  have "simulates al n (run_video e vout (n\<lparr>n_video := Some v'\<rparr>))"
    using sess_run_video [of "n\<lparr>n_video := Some v'\<rparr>" _ e vout] by (intro simulatesI) (simp_all add: fixed_simps sess_simps)
  with ns_encoded show ?thesis by simp
next
  case (ns_captured v sps pps vps vout v')
  have "simulates al n (run_video e vout (n\<lparr>n_video := Some v'\<rparr>))"
    using sess_run_video [of "n\<lparr>n_video := Some v'\<rparr>" _ e vout] by (intro simulatesI) (simp_all add: fixed_simps sess_simps)
  with ns_captured show ?thesis by simp
next
  case ns_setup
  have "session_steps al (sess n) (sess (registeredSetupRetryTimerCallback e n))"
    using sess_complete_setup [of al n e] by (simp add: registeredSetupRetryTimerCallback_def sess_simps)
  with ns_setup show ?thesis by (simp add: simulatesI fixed_simps)
next
  case ns_pairing
  have "session_steps al (sess n) (sess (pairingRetryTimerCallback e n))"
    using sess_active_pairing [of al n e] by (simp add: pairingRetryTimerCallback_def sess_simps)
  with ns_pairing show ?thesis by (simp add: simulatesI fixed_simps)
next
  case ns_negotiation
  then show ?thesis by (simp add: simulatesI fixed_simps sess_negotiation_timer)
next
  case ns_work
  then show ?thesis using sess_drain [of n al e] assms(2) by (simp add: simulates_def settled_def)
next
  case ns_subscription
  then show ?thesis using simulates_subscription_timer [of _ id id n e] by simp
next
  case (ns_audio now_ms sample)
  then show ?thesis by (simp add: simulatesI fixed_audio_sample sess_audio_sample)
next
  case (ns_stats stats)
  then show ?thesis by (simp add: simulatesI fixed_stats sess_stats)
qed (auto intro!: simulates_on_grpc simulatesI simp: fixed_simps sess_simps telemetryTimerCallback_def jointTelemetryTimerCallback_def
    node_onTelemetryBatteryState_def node_onTelemetryTemperature_def node_onTelemetryDeviceState_def node_onJointState_def
    update_snapshot_def)

lemma simulates_run: "node_run n n' \<Longrightarrow> simulates True n n'"
proof (induction rule: node_run.induct)
  case (nr_step n n1 e n2)
  then show ?case using simulates_step simulates_trans by blast
next
  case (nr_interleaved n n1 other1 other2 e)
  have "simulates True n1 (peerSubscriptionRetryTimerCallback e other1 other2 n1)"
    by (rule simulates_subscription_timer) (use nr_interleaved.IH in simp_all)
  with nr_interleaved.IH(1) show ?case by (rule simulates_trans)
qed simp

section \<open>What holds of the session\<close>

definition session_wf :: "session \<Rightarrow> bool" where
  "session_wf s \<longleftrightarrow> (phase s = kRunning \<longrightarrow> s_video s \<and> (s_enabled s \<longrightarrow> s_audio s))"

definition sent_config :: "u8 \<Rightarrow> sent \<Rightarrow> bool" where
  "sent_config p out \<longleftrightarrow> (\<exists>sid payload. stream_config sid p payload \<in> set out)"

lemma sent_config_append [simp]: "sent_config p (xs @ ys) \<longleftrightarrow> sent_config p xs \<or> sent_config p ys"
  by (auto simp: sent_config_def)

lemma sent_config_one [simp]: "sent_config p [stream_config sid p payload]"
  by (auto simp: sent_config_def)

text \<open>What is published was sent since the start, and running means published.\<close>

definition since :: "session \<Rightarrow> session \<Rightarrow> bool" where
  "since s s' \<longleftrightarrow> session_wf s' \<and> s_enabled s' = s_enabled s \<and> s_uplink s' = s_uplink s \<and> (\<exists>new. s_log s' = s_log s @ new
     \<and> (s_video s' \<longrightarrow> s_video s \<or> sent_config kVideoPrefix new)
     \<and> (s_audio s' \<and> s_uplink s' \<longrightarrow> s_audio s \<or> sent_config kAudioPrefix new))"

lemma since_refl: "session_wf s \<Longrightarrow> since s s"
  by (auto simp: since_def)

lemma since_step:
  assumes "since s s1" "session_step al s1 s2"
  shows "since s s2"
proof -
  from assms(1) obtain new where new: "s_log s1 = s_log s @ new" "s_video s1 \<longrightarrow> s_video s \<or> sent_config kVideoPrefix new"
    "s_audio s1 \<and> s_uplink s1 \<longrightarrow> s_audio s \<or> sent_config kAudioPrefix new"
    and wf: "session_wf s1" "s_enabled s1 = s_enabled s" "s_uplink s1 = s_uplink s" by (auto simp: since_def)
  from assms(2) have "\<exists>out. s_log s2 = s_log s1 @ out \<and> (s_video s2 \<longrightarrow> s_video s1 \<or> sent_config kVideoPrefix out)
      \<and> (s_audio s2 \<and> s_uplink s2 \<longrightarrow> s_audio s1 \<and> s_uplink s1 \<or> sent_config kAudioPrefix out) \<and> session_wf s2
      \<and> s_enabled s2 = s_enabled s1 \<and> s_uplink s2 = s_uplink s1"
    using wf(1) by cases (auto simp: session_wf_def)
  then obtain out where "s_log s2 = s_log s1 @ out" "s_video s2 \<longrightarrow> s_video s1 \<or> sent_config kVideoPrefix out"
    "s_audio s2 \<and> s_uplink s2 \<longrightarrow> s_audio s1 \<and> s_uplink s1 \<or> sent_config kAudioPrefix out" "session_wf s2"
    "s_enabled s2 = s_enabled s1" "s_uplink s2 = s_uplink s1" by blast
  then show ?thesis using new wf unfolding since_def by (intro conjI exI [of _ "new @ out"]) auto
qed

lemma since_steps: "session_steps al s s' \<Longrightarrow> session_wf s \<Longrightarrow> since s s'"
  by (induction rule: rtranclp_induct) (simp_all add: since_refl since_step)

lemma no_pair_steps:
  "session_steps False s s' \<Longrightarrow> phase s \<notin> {kNegotiating, kRunning} \<Longrightarrow> phase s' \<notin> {kNegotiating, kRunning}"
proof (induction rule: rtranclp_induct)
  case (step s1 s2)
  then have "phase s1 \<notin> {kNegotiating, kRunning}" by simp
  with step.hyps(2) show ?case by cases auto
qed simp

section \<open>Constructed nodes\<close>

lemma settled_on_grpc: "settled n \<Longrightarrow> settled (on_grpc e f n)"
  using simulates_on_grpc [of False n e f] by (simp add: simulates_def)

lemma settled_construct:
  fixes e :: "'c node_env"
  assumes "\<not> declareOrGet (par_bool p) ''debug.direct_running_mode'' False"
  shows "settled (construct par_ints par_strings sd p e)"
proof -
  let ?n1 = "(node_loadRobotTelemetryParams p (ne_now_ms e) (loadPairingParams p
      ((MainNode_members :: 'c MainNode)\<lparr>n_direct := declareOrGet (par_bool p) ''debug.direct_running_mode'' False\<rparr>)))
        \<lparr>n_video := Some (new_video par_ints p), n_udp := Some (new_udp p), n_audio := Some (new_audio sd (ne_gst e) p)\<rparr>"
  let ?n2 = "if declareOrGet (par_bool p) ''logging.modules.video_stats'' True
      then ?n1\<lparr>last_video_stats_time := ne_now e, n_timer := (n_timer ?n1)(VideoStats \<mapsto> True)\<rparr> else ?n1"
  have "n_direct ?n1 = False" "session_teardown_in_progress ?n1 = False"
    using assms by (simp_all add: node_loadRobotTelemetryParams_def loadPairingParams_def MainNode_members_def split_beta Let_def)
  then have s: "\<not> n_direct ?n2" "\<not> session_teardown_in_progress ?n2" by simp_all
  show ?thesis unfolding construct_def Let_def if_not_P [OF s(1)]
    by (rule settled_on_grpc) (use s in \<open>simp add: settled_def\<close>)
qed

section \<open>Properties\<close>

text \<open>C5: The node refines the session: from its construction on, in every run of its modules' threads and its timers,
  with the retry timer of the subscriptions interleaved with anything, each step of the node is a sequence of
  steps of the session. The debug mode that runs the node without a session is excluded.\<close>

theorem node_refines_session:
  assumes "\<not> declareOrGet (par_bool p) ''debug.direct_running_mode'' False"
    "node_run (construct par_ints par_strings sd p e) n" "node_run n n'"
  shows "session_steps True (sess n) (sess n')"
  using simulates_run [OF assms(2)] simulates_run [OF assms(3)] settled_construct [OF assms(1), of par_ints par_strings sd e] by (simp add: simulates_def)

text \<open>C2: Media reaches the UDP module only with its description: take any run from a state in which no stream
  configuration is published (after a teardown, say). If the node hands an encoded frame to the UDP module, or
  an audio packet, then since that state the video configuration was sent to the service, and the audio
  configuration if the node publishes audio.\<close>

theorem media_only_after_publishing:
  assumes "settled n" "n_state n \<noteq> kRunning" "\<not> video_config_sent n" "\<not> audio_published n" "node_run n n'"
    "n_udp (onEncodedVideoFrame e d ts key n') \<noteq> n_udp n' \<or> n_udp (onEncodedAudioPacket e d ts n') \<noteq> n_udp n'"
  shows "n_state n' = kRunning \<and> (\<exists>new. n_sent n' = n_sent n @ new \<and> sent_config kVideoPrefix new
    \<and> (if publishes_audio n' then sent_config kAudioPrefix new else True))"
proof -
  have run: "n_state n' = kRunning" using assms(6) by (auto simp: onEncodedVideoFrame_def onEncodedAudioPacket_def split: if_splits)
  have "session_steps True (sess n) (sess n')" using simulates_run [OF assms(5)] assms(1) by (simp add: simulates_def)
  moreover have "session_wf (sess n)" using assms(2) by (simp add: session_wf_def)
  ultimately have "since (sess n) (sess n')" by (rule since_steps)
  moreover have "audio_enabled n'" if "publishes_audio n'" using that
    by (auto simp: audio_enabled_def publishes_audio_def split: option.splits)
  ultimately show ?thesis using run assms(3,4) by (auto simp: since_def session_wf_def)
qed

text \<open>C4: A session starts only by pairing: if a step takes the node into negotiation, then the work queue held the
  acceptance of a peer, or a request of a peer that the node accepts automatically and whose session id and
  device type match the parameters.\<close>

theorem session_only_by_pairing:
  assumes "settled n" "node_step e n n'" "n_state n \<notin> {kNegotiating, kRunning}" "n_state n' \<in> {kNegotiating, kRunning}"
  shows "\<exists>op info. SignalingWork (PairEvent op (Some info)) \<in> set (session_work_queue n)
    \<and> (op = PairEvent_ACCEPT \<or> op = PairEvent_REQUEST \<and> pair_auto_accept n \<and> peer_matches info n)"
proof (rule ccontr)
  assume no: "\<not> ?thesis"
  then have "\<not> (\<exists>w\<in>set (session_work_queue n). asks_to_pair n w)" by (auto simp: asks_to_pair_def)
  then have "simulates False n n'" by (intro simulates_step [OF assms(2)]) simp
  then have "session_steps False (sess n) (sess n')" using assms(1) by (simp add: simulates_def)
  from no_pair_steps [OF this] show False using assms(3,4) by simp
qed

section \<open>Samples\<close>

definition no_params :: params where
  "no_params = \<lparr>par_bool = (\<lambda>n. None), par_int = (\<lambda>n. None), par_double = (\<lambda>n. None), par_string = (\<lambda>n. None)\<rparr>"

definition node_env0 :: "unit node_env" where
  "node_env0 = \<lparr>ne_context_valid = True, ne_timer_ok = (\<lambda>_. True), ne_fl = (\<lambda>x. x), ne_udp = sample_env, ne_fec0 = (), ne_now = 1,
     ne_now_ms = 0, ne_now_us = 0, ne_ntp = 0, ne_video_started = True, ne_gst = gst_up,
     ne_playback = (\<lambda>_. (True, True, True)), ne_to_json = (\<lambda>_. Some ''{}''), ne_of_json = (\<lambda>_. None),
     ne_encode_block = (\<lambda>_. ([], 0)), ne_genv = env_up,
     ne_bool = (\<lambda>_. \<lparr>late_shutdown = False, rpc_status = OK, rpc_response = True\<rparr>),
     ne_endpoints = (\<lambda>_. \<lparr>late_shutdown = False, rpc_status = OK, rpc_response = (True, [])\<rparr>),
     ne_manifest = (\<lambda>_. \<lparr>late_shutdown = False, rpc_status = OK, rpc_response = []\<rparr>),
     ne_config = (\<lambda>_. \<lparr>late_shutdown = False, rpc_status = OK, rpc_response = (True, True)\<rparr>),
     ne_item = (\<lambda>_. \<lparr>late_shutdown = False, rpc_status = OK, rpc_response = \<lparr>sci_prefix = 4, sci_schema_version = 1, sci_payload = [], sci_config_id = []\<rparr>\<rparr>),
     ne_register = accepted, ne_heartbeat = \<lparr>late_shutdown = False, rpc_status = OK, rpc_response = ()\<rparr>\<rparr>"

text \<open>A registered node with a handshaken UDP module.\<close>

definition node0 :: "unit MainNode" where
  "node0 = MainNode_members\<lparr>n_grpc := Some grpc_up, n_udp := Some sample_acked\<rparr>"

lemma node0_fields [simp]:
  "n_shutting_down node0 = False" "n_direct node0 = False" "session_teardown_in_progress node0 = False" "n_grpc node0 = Some grpc_up"
  "n_udp node0 = Some sample_acked" "n_audio node0 = None" "n_video node0 = None" "n_sent node0 = []" "n_state node0 = kConnecting"
  "video_config_sent node0 = False" "session_work_queue node0 = []" "n_timer node0 = (\<lambda>_. None)"
  "paired_peer_session_id node0 = []" "subscribe_vr_pose_flag node0 = False"
  "peer_streams_subscribed node0 = False"
  by (simp_all add: node0_def MainNode_members_def)

theorem node_refines_session_witness:
  "session_steps True (sess (construct (\<lambda>_. None) (\<lambda>_. None) (\<lambda>_. []) no_params node_env0))
     (sess (node_onTelemetryDeviceState 1 ''v1'' (construct (\<lambda>_. None) (\<lambda>_. None) (\<lambda>_. []) no_params node_env0)))"
  by (rule node_refines_session [of no_params "\<lambda>_. None" "\<lambda>_. None" "\<lambda>_. []" node_env0])
    (simp_all add: no_params_def declareOrGet_def nr_refl nr_step [OF nr_refl ns_device])

text \<open>A node that negotiates, and has the parameter sets of a running video.\<close>

definition video_ready :: VideoModule where
  "video_ready = video_h264\<lparr>vm_manager_running := True, cached_sps := [0x67], cached_pps := [0x68], encoded_callback := True\<rparr>"

definition negotiating :: "unit MainNode" where
  "negotiating = node0\<lparr>n_state := kNegotiating, n_video := Some video_ready, video_started := True,
     n_timer := [NegotiationRetry \<mapsto> True], paired_peer_session_id := ''p''\<rparr>"

lemma negotiated:
  "negotiationRetryTimerCallback node_env0 negotiating
     = stop_timer NegotiationRetry (negotiating\<lparr>n_sent := [(''s1'', PublishStreamConfig kVideoPrefix kMediaConfigSchemaVersion ''{}'')],
         video_config_sent := True, n_state := kRunning, peer_streams_subscribed := True\<rparr>)"
  by (simp add: negotiationRetryTimerCallback_def negotiating_def video_running_def video_ready_def vm_isRunning_def
      hasParameterSets_def hasSpsPps_def parameterSetsReady_def video_h264_def VideoModule_init_def tryAdvanceNegotiation_def node_publishVideoConfig_def
      getSpsPps_def Let_def call_grpc_def publishVideoConfig_def with_gm_def grpc_up_eq gm_PublishStreamConfig_def rpc_def
      GrpcManager_init_def grpc_up_eq(5) node_env0_def publishes_audio_def enter_running_def audio_enabled_def setState_def
      stopNegotiationRetryTimer_def stop_timer_def on_audio_def wantsRemoteAudio_def)

lemma sample_acked_manager:
  "\<exists>m. udp_manager sample_acked = Some m \<and> m_input m = [] \<and> may_send m"
  by (simp add: sample_acked_def with_manager_def recv_iteration_def onAckReceived_def
      sample_started_def module_start_def setHandshakeReadyCallback_def UdpModule_init_def sample_module_config_def
      sample_env_def UdpConfig_default_def mgr_start_def mgr_setSessionId_def UdpManager_init_def setDatagramCallback_def
      setPeerLostCallback_def ControlPlane_init_def cp_start_def handshakeTimerCallback_def isHandshakeReady_def
      handshakeReady_def fire_ready_def cancel_timer_def Let_def may_send_def split: prod.splits)

lemma frame_changes_input:
  "udp_manager u = Some m \<Longrightarrow> may_send m \<Longrightarrow> m_input m = [] \<Longrightarrow> module_sendH264Frame ntp now (Some [1]) ts key u \<noteq> u"
proof
  assume u: "udp_manager u = Some m" and a: "may_send m" "m_input m = []" and eq: "module_sendH264Frame ntp now (Some [1]) ts key u = u"
  have "sendH264Frame ntp now (Some [1]) ts key m = m"
    using u arg_cong [OF eq, of udp_manager] by (simp add: module_sendH264Frame_def with_manager_def)
  moreover have "m_input (sendH264Frame ntp now (Some [1]) ts key m) \<noteq> []"
    using a by (simp add: sendH264Frame_def Let_def split_beta count_def)
  ultimately show False using a(2) by simp
qed

theorem media_only_after_publishing_witness:
  "n_state (negotiationRetryTimerCallback node_env0 negotiating) = kRunning
    \<and> (\<exists>new. n_sent (negotiationRetryTimerCallback node_env0 negotiating) = new \<and> sent_config kVideoPrefix new)"
proof -
  let ?n' = "negotiationRetryTimerCallback node_env0 negotiating"
  obtain m where m: "udp_manager sample_acked = Some m" "m_input m = []" "may_send m"
    using sample_acked_manager by blast
  have neg: "settled negotiating" "n_state negotiating \<noteq> kRunning" "\<not> video_config_sent negotiating" "\<not> audio_published negotiating"
    "n_timer negotiating NegotiationRetry = Some True" "n_sent negotiating = []"
    by (simp_all add: negotiating_def settled_def audio_published_def)
  have run: "node_run negotiating ?n'" by (rule nr_step [OF nr_refl ns_negotiation [OF neg(5)]])
  have udp: "n_udp ?n' = Some sample_acked" "n_state ?n' = kRunning" "\<not> n_shutting_down ?n'"
    unfolding negotiated by (simp_all add: stop_timer_def negotiating_def)
  then have "n_udp (onEncodedVideoFrame node_env0 (Some [1]) 0 True ?n') \<noteq> n_udp ?n'"
    using frame_changes_input [OF m(1,3,2)] by (simp add: onEncodedVideoFrame_def on_udp_def)
  then show ?thesis using media_only_after_publishing [OF neg(1-4) run, of node_env0 "Some [1]" 0 True] neg(6) by auto
qed

definition accept_event :: EventMessage where
  "accept_event = PairEvent PairEvent_ACCEPT (Some \<lparr>ei_session_id = ''p'', ei_device_type_code = ''vr''\<rparr>)"

definition asked :: "unit MainNode" where
  "asked = node0\<lparr>n_state := kPairing, session_work_queue := [SignalingWork accept_event], n_timer := [SessionWork \<mapsto> True]\<rparr>"

lemma accepted_pairs: "n_state (drainSessionWork node_env0 asked) = kNegotiating"
  by (simp add: drainSessionWork.simps asked_def run_work_def handleSignalingEvent_def accept_event_def pair_with_def
      startVideoAndNegotiate_def on_audio_def stopPairingRetryTimer_def stop_timer_def setState_def)

theorem session_only_by_pairing_witness:
  "\<exists>op info. SignalingWork (PairEvent op (Some info)) \<in> set (session_work_queue asked)
    \<and> (op = PairEvent_ACCEPT \<or> op = PairEvent_REQUEST \<and> pair_auto_accept asked \<and> peer_matches info asked)"
proof -
  have "node_step node_env0 asked (drainSessionWork node_env0 asked)" by (rule ns_work) (simp add: asked_def)
  moreover have "settled asked" "n_state asked = kPairing" by (simp_all add: asked_def settled_def)
  ultimately show ?thesis
    using session_only_by_pairing [of asked node_env0 "drainSessionWork node_env0 asked"] accepted_pairs by simp
qed

end
