(* ===== verification/NodeBehaviour.thy ===== *)
theory NodeBehaviour
  imports NodeSession
begin

text \<open>
  What single handlers of the node do: the drain of the work queue, the teardown, the answers that come too late, the
  peer's audio configuration, and two situations a session does not recover from.
\<close>

section \<open>Draining\<close>

text \<open>The states the drain passes through: every piece of work runs on what the one before it left.\<close>

primrec work_states :: "'c node_env \<Rightarrow> session_work list \<Rightarrow> 'c MainNode \<Rightarrow> 'c MainNode list" where
  "work_states e [] n = [n]"
| "work_states e (w # ws) n = n # work_states e ws (run_work e w (n\<lparr>session_work_queue := ws\<rparr>))"

lemma work_states_length [simp]: "length (work_states e ws n) = Suc (length ws)"
  by (induction ws arbitrary: n) simp_all

lemma work_states_nonempty [simp]: "work_states e ws n \<noteq> []"
  by (cases ws) simp_all

lemma work_states_first [simp]: "work_states e ws n ! 0 = n"
  by (cases ws) simp_all

lemma work_states_next:
  "i < length ws \<Longrightarrow> work_states e ws n ! Suc i = run_work e (ws ! i) ((work_states e ws n ! i)\<lparr>session_work_queue := drop (Suc i) ws\<rparr>)"
proof (induction ws arbitrary: n i)
  case (Cons w ws)
  then show ?case by (cases i) simp_all
qed simp

lemma drain_states:
  "\<not> n_shutting_down n \<Longrightarrow> drainSessionWork e n = stop_timer SessionWork (last (work_states e (session_work_queue n) n))"
proof (induction e n rule: drainSessionWork.induct)
  case (1 e n)
  show ?case
  proof (cases "session_work_queue n")
    case Nil
    then show ?thesis using 1(2) by (simp add: drainSessionWork.simps [of e n])
  next
    case (Cons w ws)
    have f: "fixed (run_work e w (n\<lparr>session_work_queue := ws\<rparr>)) = fixed (n\<lparr>session_work_queue := ws\<rparr>)" by (rule fixed_signaling(3))
    show ?thesis
      using 1(1) [OF 1(2) Cons] 1(2) fixed_fields(1) [OF f] fixed_fields(3) [OF f] Cons
      by (simp add: drainSessionWork.simps [of e n])
  qed
qed

lemma drain_queue: "\<not> n_shutting_down n \<Longrightarrow> session_work_queue (drainSessionWork e n) = []"
proof (induction e n rule: drainSessionWork.induct)
  case (1 e n)
  show ?case
  proof (cases "session_work_queue n")
    case Nil
    then show ?thesis using 1(2) fixed_fields(3) [OF fixed_timers(2) [of SessionWork n]]
      by (simp add: drainSessionWork.simps [of e n])
  next
    case (Cons w ws)
    have f: "fixed (run_work e w (n\<lparr>session_work_queue := ws\<rparr>)) = fixed (n\<lparr>session_work_queue := ws\<rparr>)" by (rule fixed_signaling(3))
    show ?thesis
      using 1(1) [OF 1(2) Cons] 1(2) fixed_fields(1) [OF f] Cons by (simp add: drainSessionWork.simps [of e n])
  qed
qed

section \<open>What pairing and telemetry leave alone\<close>

definition media :: "'c MainNode \<Rightarrow> AudioModule option \<times> VideoModule option \<times> bool \<times> bool \<times> string \<times> bool \<times> u8 list
    \<times> bool option \<times> bool option \<times> bool option \<times> bool" where
  "media n = (n_audio n, n_video n, video_started n, video_config_sent n, paired_peer_session_id n, peer_streams_subscribed n,
     peer_subscribed_prefixes n, n_timer n NegotiationRetry, n_timer n PeerSubscriptionRetry, n_timer n RegisteredSetupRetry,
     publisher_manifest_published n)"

lemma media_fields:
  assumes "media m = media n"
  shows "n_audio m = n_audio n" "n_video m = n_video n" "video_started m = video_started n"
    "video_config_sent m = video_config_sent n" "paired_peer_session_id m = paired_peer_session_id n"
    "peer_streams_subscribed m = peer_streams_subscribed n" "peer_subscribed_prefixes m = peer_subscribed_prefixes n"
    "n_timer m NegotiationRetry = n_timer n NegotiationRetry"
    "n_timer m PeerSubscriptionRetry = n_timer n PeerSubscriptionRetry"
    "n_timer m RegisteredSetupRetry = n_timer n RegisteredSetupRetry"
    "publisher_manifest_published m = publisher_manifest_published n"
  using assms by (simp_all add: media_def)

lemma media_simps [simp]:
  "media (on_udp f n) = media n" "media (setState s n) = media n" "media (n\<lparr>n_grpc := g\<rparr>) = media n"
  "media (n\<lparr>n_sent := out\<rparr>) = media n" "media (n\<lparr>session_teardown_in_progress := b\<rparr>) = media n"
  "media (ensurePairingRetryTimer e n) = media n" "media (stopPairingRetryTimer n) = media n" "media (n\<lparr>n_udp := u\<rparr>) = media n"
  by (simp_all add: media_def on_udp_def setState_def ensurePairingRetryTimer_def ensure_timer_def stopPairingRetryTimer_def
      stop_timer_def)

lemma media_call [simp]: "media (snd (call_grpc f d n)) = media n"
  by (simp add: call_grpc_def split: option.split prod.split)

lemma media_telemetry [simp]:
  "media (stopRobotTelemetry n) = media n" "media (updateRobotTelemetryLifecycle e n) = media n"
proof -
  have stop: "media (stopRobotTelemetry m) = media m" for m :: "'a MainNode"
    by (simp add: media_def stopRobotTelemetry_def stop_timer_def)
  have "media (publishRobotTelemetrySnapshot e m) = media m" "media (publishRobotJointTelemetrySnapshot e m) = media m"
    for m :: "'a MainNode"
    by (simp_all add: publishRobotTelemetrySnapshot_def publishRobotJointTelemetrySnapshot_def)
  moreover have "media (m\<lparr>telemetry_active := b\<rparr>) = media m" "media (m\<lparr>joint_telemetry_active := b\<rparr>) = media m"
    "media (m\<lparr>telemetry_active := b, n_timer := (n_timer m)(Telemetry := x)\<rparr>) = media m"
    "media (m\<lparr>joint_telemetry_active := b, n_timer := (n_timer m)(JointTelemetry := x)\<rparr>) = media m" for m :: "'a MainNode" and b x
    by (simp_all add: media_def)
  ultimately have "media (startRobotTelemetry e m) = media m" for m :: "'a MainNode"
    by (simp add: startRobotTelemetry_def start_low_rate_def start_high_rate_def)
  then show "media (stopRobotTelemetry n) = media n" "media (updateRobotTelemetryLifecycle e n) = media n"
    using stop by (simp_all add: updateRobotTelemetryLifecycle_def)
qed

lemma media_pairing [simp]: "media (enterPairingState e n) = media n"
  by (simp add: enterPairingState_def tryActivePairing_def Let_def split_beta split: option.split list.split)

lemma state_simps [simp]:
  "n_state (on_udp f n) = n_state n" "n_state (setState s n) = s"
  "n_state (ensurePairingRetryTimer e n) = n_state n" "n_state (stopPairingRetryTimer n) = n_state n"
  "n_state (snd (call_grpc f1 d n)) = n_state n"
  by (simp_all add: on_udp_def setState_def ensurePairingRetryTimer_def ensure_timer_def stopPairingRetryTimer_def
      stop_timer_def call_grpc_def split: option.split prod.split)

lemma state_telemetry [simp]: "n_state (updateRobotTelemetryLifecycle e n) = n_state n"
  by (simp add: updateRobotTelemetryLifecycle_def stopRobotTelemetry_def stop_timer_def startRobotTelemetry_def
      start_low_rate_def start_high_rate_def publishRobotTelemetrySnapshot_def publishRobotJointTelemetrySnapshot_def)

lemma grpc_telemetry: "n_grpc (updateRobotTelemetryLifecycle e n) = n_grpc n"
  by (simp add: updateRobotTelemetryLifecycle_def stopRobotTelemetry_def stop_timer_def startRobotTelemetry_def
      start_low_rate_def start_high_rate_def publishRobotTelemetrySnapshot_def publishRobotJointTelemetrySnapshot_def on_udp_def)

lemma state_pairing: "n_grpc n \<noteq> None \<Longrightarrow> \<not> n_shutting_down n \<Longrightarrow> n_state (enterPairingState e n) = kPairing"
  by (auto simp: enterPairingState_def tryActivePairing_def Let_def split_beta split: option.split list.split)

lemma state_pairing_none: "n_grpc n = None \<or> n_shutting_down n \<Longrightarrow> enterPairingState e n = n"
  by (auto simp: enterPairingState_def split: option.split)

section \<open>Progress of a negotiation\<close>

lemma timer_ensure:
  "canScheduleRosWork e n \<Longrightarrow> ne_timer_ok e NegotiationRetry \<Longrightarrow> n_timer (ensureNegotiationRetryTimer e n) NegotiationRetry = Some True"
  by (simp add: ensureNegotiationRetryTimer_def ensure_timer_def)

lemma can_fixed: "fixed m = fixed n \<Longrightarrow> canScheduleRosWork e m = canScheduleRosWork e n"
  by (simp add: canScheduleRosWork_def fixed_def)

lemma advance_progress:
  assumes "canScheduleRosWork e n" "ne_timer_ok e NegotiationRetry" "n_timer n NegotiationRetry = Some True"
  shows "n_state (tryAdvanceNegotiation e n) = kRunning \<or> n_timer (tryAdvanceNegotiation e n) NegotiationRetry = Some True"
proof (cases "n_shutting_down n \<or> n_state n \<noteq> kNegotiating")
  case False
  define x where "x = node_publishVideoConfig e n"
  define y where "y = (if publishes_audio (snd x) \<and> \<not> audio_published (snd x) then node_publishAudioConfig e (snd x) else (True, snd x))"
  have fx: "fixed (snd x) = fixed n" unfolding x_def by (rule fixed_publish(2))
  have fy: "fixed (snd y) = fixed n" using fx fixed_publish(3) [of e "snd x"] by (simp add: y_def)
  have "tryAdvanceNegotiation e n = (if fst x then if fst y then enter_running e (snd y) else ensureNegotiationRetryTimer e (snd y)
      else ensureNegotiationRetryTimer e (snd x))"
    using False unfolding tryAdvanceNegotiation_def case_bool_pair x_def [symmetric] y_def [symmetric] by simp
  moreover have "n_state (enter_running e (snd y)) = kRunning"
    by (simp add: enter_running_def Let_def on_audio_def setState_def ensurePeerSubscriptionRetryTimer_def ensure_timer_def)
  ultimately show ?thesis using timer_ensure [of e] can_fixed [OF fx] can_fixed [OF fy] assms(1,2) by simp
qed (use assms(3) in \<open>auto simp: tryAdvanceNegotiation_def\<close>)

section \<open>Properties\<close>

text \<open>C24: Draining the work queue terminates with the queue empty and its timer cancelled, having run each piece of
  work once, in the order of the queue, on the state the one before it left.\<close>

theorem drain_runs_all_work_in_order:
  assumes "\<not> n_shutting_down n"
  shows "\<exists>states. length states = Suc (length (session_work_queue n)) \<and> states ! 0 = n
    \<and> (\<forall>i < length (session_work_queue n). states ! Suc i =
         run_work e (session_work_queue n ! i) ((states ! i)\<lparr>session_work_queue := drop (Suc i) (session_work_queue n)\<rparr>))
    \<and> drainSessionWork e n = stop_timer SessionWork (last states)
    \<and> session_work_queue (drainSessionWork e n) = [] \<and> n_timer (drainSessionWork e n) SessionWork \<noteq> Some True"
proof (intro exI [of _ "work_states e (session_work_queue n) n"] conjI)
  show "n_timer (drainSessionWork e n) SessionWork \<noteq> Some True" by (simp add: drain_states [OF assms] stop_timer_def)
  show "session_work_queue (drainSessionWork e n) = []" by (rule drain_queue [OF assms])
qed (simp_all add: work_states_next drain_states [OF assms])

text \<open>C25: A teardown leaves nothing of the session: the node is in the target state, without a peer; video is stopped,
  its parameter sets are gone and its configuration counts as unpublished; audio is stopped, unpublished and without a
  remote configuration; the timers of negotiation and subscription do not run. After a failed heartbeat the UDP
  module is stopped, too, and the registered setup starts over.\<close>

theorem teardown_releases_session:
  assumes "t \<in> {kConnecting, kRegistered, kPairing}" "\<not> session_teardown_in_progress n" "\<not> n_shutting_down n"
  shows "n_state (teardownActiveSession e t n) = t \<and> \<not> session_teardown_in_progress (teardownActiveSession e t n)
    \<and> paired_peer_session_id (teardownActiveSession e t n) = [] \<and> \<not> video_config_sent (teardownActiveSession e t n)
    \<and> \<not> video_started (teardownActiveSession e t n) \<and> \<not> video_running (teardownActiveSession e t n)
    \<and> \<not> hasParameterSets (teardownActiveSession e t n) \<and> \<not> audio_published (teardownActiveSession e t n)
    \<and> (case n_audio (teardownActiveSession e t n) of None \<Rightarrow> True
        | Some a \<Rightarrow> \<not> (aud_started a \<and> aud_isEnabled a) \<and> \<not> remote_config_ready a)
    \<and> n_timer (teardownActiveSession e t n) NegotiationRetry \<noteq> Some True
    \<and> n_timer (teardownActiveSession e t n) PeerSubscriptionRetry \<noteq> Some True
    \<and> (if t = kConnecting then \<not> udp_running (teardownActiveSession e t n) \<and> \<not> publisher_manifest_published (teardownActiveSession e t n)
         \<and> n_timer (teardownActiveSession e t n) RegisteredSetupRetry \<noteq> Some True else True)"
proof -
  let ?n' = "teardownActiveSession e t n"
  define n4 where "n4 = resetVideoConfigState (stopVideo (on_audio (\<lambda>a. resetRemoteConfig (resetConfigPublished (aud_stop a)))
      (forget_peer (stopPairingRetryTimer (stopPeerSubscriptionRetryTimer (stopNegotiationRetryTimer (stopRobotTelemetry
        (setState t (n\<lparr>session_teardown_in_progress := True\<rparr>)))))))))"
  define n5 where "n5 = (if t = kConnecting then stopRegisteredSetupRetryTimer (n4\<lparr>publisher_manifest_published := False\<rparr>) else n4)"
  define n6 where "n6 = (if t = kPairing \<or> t = kRegistered then on_udp (module_resetSession (ne_udp e)) n5
      else if t = kConnecting then on_udp module_stop n5 else n5)"
  define n7 where "n7 = (if t = kPairing then enterPairingState e n6 else n6)"
  have n': "?n' = (updateRobotTelemetryLifecycle e n7)\<lparr>session_teardown_in_progress := False\<rparr>"
    using assms(2,3) unfolding teardownActiveSession_def Let_def n4_def [symmetric] n5_def [symmetric] n6_def [symmetric] n7_def [symmetric]
    by simp
  have "media n7 = media n6" by (simp add: n7_def)
  then have m: "media ?n' = media n5" by (simp add: n' n6_def)
  have a5: "n_audio n5 = map_option (\<lambda>a. resetRemoteConfig (resetConfigPublished (aud_stop a))) (n_audio n)"
    "n_video n5 = map_option (\<lambda>v. clearSpsPps (vm_stop v)) (n_video n)"
    by (simp_all add: n5_def n4_def resetVideoConfigState_def stopVideo_def on_video_def on_audio_def forget_peer_def
        stopRegisteredSetupRetryTimer_def stopPairingRetryTimer_def stopPeerSubscriptionRetryTimer_def stopNegotiationRetryTimer_def
        stop_timer_def stopRobotTelemetry_def setState_def option.map_comp comp_def)
  have f5: "n_state n5 = t" "paired_peer_session_id n5 = []" "\<not> video_config_sent n5" "\<not> video_started n5"
    "n_timer n5 NegotiationRetry \<noteq> Some True" "n_timer n5 PeerSubscriptionRetry \<noteq> Some True"
    "t = kConnecting \<longrightarrow> n_timer n5 RegisteredSetupRetry \<noteq> Some True \<and> \<not> publisher_manifest_published n5"
    by (simp_all add: n5_def n4_def resetVideoConfigState_def stopVideo_def on_video_def on_audio_def forget_peer_def
        stopRegisteredSetupRetryTimer_def stopPairingRetryTimer_def stopPeerSubscriptionRetryTimer_def stopNegotiationRetryTimer_def
        stop_timer_def stopRobotTelemetry_def setState_def)
  have state: "n_state ?n' = t" using state_pairing [of n6 e] state_pairing_none [of n6 e] f5(1)
    by (cases "n_grpc n6 = None \<or> n_shutting_down n6") (auto simp: n' n7_def n6_def)
  have udp: "\<not> udp_running ?n'" if "t = kConnecting"
  proof -
    have "\<not> udp_running n7" using that by (simp add: n7_def n6_def udp_running_def on_udp_def module_stop_def isRunning_def split: option.split)
    then have "updateRobotTelemetryLifecycle e n7 = stopRobotTelemetry n7"
      by (auto simp: updateRobotTelemetryLifecycle_def isRobotTelemetryOnline_def udp_running_def split: option.splits)
    then show ?thesis using \<open>\<not> udp_running n7\<close> by (simp add: n' udp_running_def stopRobotTelemetry_def stop_timer_def)
  qed
  have audio: "\<not> audio_published ?n'" "case n_audio ?n' of None \<Rightarrow> True | Some a \<Rightarrow> \<not> (aud_started a \<and> aud_isEnabled a) \<and> \<not> remote_config_ready a"
    by (simp_all add: audio_published_def media_fields(1) [OF m] a5 resetRemoteConfig_def resetConfigPublished_def aud_stop_def
        aud_isEnabled_def split: option.split)
  have video: "\<not> video_running ?n'" "\<not> hasParameterSets ?n'"
    by (simp_all add: video_running_def hasParameterSets_def media_fields(2) [OF m] a5 vm_isRunning_def vm_stop_def clearSpsPps_def
        hasSpsPps_def parameterSetsReady_def split: option.split)
  have flag: "\<not> session_teardown_in_progress ?n'" by (simp add: n')
  have offline: "if t = kConnecting then \<not> udp_running ?n' \<and> \<not> publisher_manifest_published ?n'
      \<and> n_timer ?n' RegisteredSetupRetry \<noteq> Some True else True"
    using udp f5(7) media_fields(10,11) [OF m] by (cases "t = kConnecting") simp_all
  show ?thesis
    using state flag audio video offline f5 media_fields(3,4,5,8,9) [OF m] by simp_all
qed

text \<open>C26: Answers that come too late are dropped: if another thread changes the peer while the service is asked for
  the streams or for the audio configuration of the old one, the node is left as the other thread left it.\<close>

theorem stale_answers_are_dropped:
  assumes "\<And>m. paired_peer_session_id (other m) \<noteq> paired_peer_session_id n" "n_grpc n \<noteq> None" "paired_peer_session_id n \<noteq> []"
    "\<not> peer_streams_subscribed n" "wantsRemoteAudio n" "n_audio n = Some a" "\<not> remote_config_ready a"
  shows "(\<exists>out. ensurePeerSubscriptions e other n = (False, other (n\<lparr>n_sent := n_sent n @ out\<rparr>)))
    \<and> (\<exists>out. fetchRemoteAudioConfig e other n = (False, other (n\<lparr>n_sent := n_sent n @ out\<rparr>)))"
proof
  have wants: "\<not> (\<not> subscribe_vr_pose_flag n \<and> \<not> wantsRemoteAudio n)" using assms(5) by simp
  have commit: "commit_subscription (paired_peer_session_id n) ps b (other m) = (False, other m)"
    "commit_remote_config (paired_peer_session_id n) rc cid (other m) = (False, other m)" for ps b rc cid m
    using assms(1) by (simp_all add: commit_subscription_def commit_remote_config_def)
  have "fst (ensurePeerSubscriptions e other n) = False"
    using assms(2-5) by (simp add: ensurePeerSubscriptions_def Let_def split_beta commit)
  moreover have "\<exists>out. snd (ensurePeerSubscriptions e other n) = other (n\<lparr>n_sent := n_sent n @ out\<rparr>)"
  proof -
    define x where "x = call_grpc (getStreamPrefixes (paired_peer_session_id n) (ne_manifest e (length (n_sent n)))) (False, []) n"
    define w where "w = wanted_prefixes (subscribe_vr_pose_flag (snd x)) (wantsRemoteAudio (snd x)) (snd (fst x))"
    define y where "y = (if fst w \<noteq> peer_subscribed_prefixes n \<and> fst w \<noteq> []
        then call_grpc (gr_subscribe (paired_peer_session_id n) (fst w) (ne_bool e (length (n_sent (snd x))))) False (snd x) else (True, snd x))"
    have "\<exists>out. snd x = n\<lparr>n_sent := n_sent n @ out\<rparr>" unfolding x_def by (rule call_out)
    then obtain o1 where x: "snd x = n\<lparr>n_sent := n_sent n @ o1\<rparr>" by blast
    have "\<exists>out. snd y = n\<lparr>n_sent := n_sent n @ out\<rparr>"
      using call_out [of "gr_subscribe (paired_peer_session_id n) (fst w) (ne_bool e (length (n_sent (snd x))))" False "snd x"]
      by (auto simp: y_def x)
    moreover have "snd (ensurePeerSubscriptions e other n) \<in> {other (snd x), other (snd y)}"
      unfolding ensurePeerSubscriptions_def if_not_P [OF assms(2)] if_not_P [OF assms(4)] if_not_P [OF assms(3)] if_not_P [OF wants]
        Let_def split_beta x_def [symmetric] w_def [symmetric] y_def [symmetric] by (simp add: commit)
    ultimately show ?thesis using x by auto
  qed
  ultimately show "\<exists>out. ensurePeerSubscriptions e other n = (False, other (n\<lparr>n_sent := n_sent n @ out\<rparr>))"
    by (metis prod.collapse)
  have "fst (fetchRemoteAudioConfig e other n) = False"
    using assms(2-7) by (simp add: fetchRemoteAudioConfig_def Let_def split_beta commit split: option.split)
  moreover have "\<exists>out. snd (fetchRemoteAudioConfig e other n) = other (n\<lparr>n_sent := n_sent n @ out\<rparr>)"
  proof -
    define x where "x = call_grpc (fetchAudioConfig (ne_of_json e) (paired_peer_session_id n) (ne_item e (length (n_sent n)))
        GrpcAudioConfig_default []) (False, GrpcAudioConfig_default, []) n"
    have "\<exists>out. snd x = n\<lparr>n_sent := n_sent n @ out\<rparr>" unfolding x_def by (rule call_out)
    moreover have "snd (fetchRemoteAudioConfig e other n) = other (snd x)"
      unfolding fetchRemoteAudioConfig_def if_not_P [OF assms(2)] Let_def split_beta x_def [symmetric]
      using assms(3,5,6,7) by (simp add: commit split: option.split)
    ultimately show ?thesis by auto
  qed
  ultimately show "\<exists>out. fetchRemoteAudioConfig e other n = (False, other (n\<lparr>n_sent := n_sent n @ out\<rparr>))"
    by (metis prod.collapse)
qed

text \<open>The peer's audio configuration is accepted exactly when it is the local one: audio is enabled and received, and
  the configuration has the local values, none of them zero. What is accepted is the local configuration, and the audio module
  then applies it: after a successful validation the application cannot fail.\<close>

theorem remote_audio_config_accepted_exactly:
  assumes "n_audio n = Some a" "aud_wf a"
  shows "validateRemoteAudioConfig n c =
      (if wantsRemoteAudio n \<and> readable c \<and> c = audio_config_of (aud_config a) then Some (aud_config a) else None)
    \<and> (case validateRemoteAudioConfig n c of None \<Rightarrow> True
        | Some rc \<Rightarrow> fst (commit_remote_config (paired_peer_session_id n) rc cid n)
            \<and> (\<exists>a'. n_audio (snd (commit_remote_config (paired_peer_session_id n) rc cid n)) = Some a'
                 \<and> remote_config_ready a' \<and> remote_config_id a' = cid))"
proof -
  have v: "validateRemoteAudioConfig n c =
      (if wantsRemoteAudio n \<and> readable c \<and> c = audio_config_of (aud_config a) then Some (aud_config a) else None)"
    by (cases c; cases "aud_config a")
       (auto simp: validateRemoteAudioConfig_def assms(1) wantsRemoteAudio_def readable_def audio_config_of_def Let_def)
  obtain r m where "aud_manager a = Some m" "aud_receiver a = Some r" if "aud_isEnabled a"
    using assms(2) by (cases "aud_manager a"; cases "aud_receiver a") (auto simp: aud_wf_def aud_isEnabled_def)
  then show ?thesis unfolding v
    by (auto simp: commit_remote_config_def assms(1) applyRemoteConfig_def wantsRemoteAudio_def split_beta)
qed

text \<open>C27: A request of the server to send the UDP HELLO again ends a running session by half: the UDP module resets its
  handshake, and when the handshake is complete again, the node waits for a pair request, although the peer is
  still paired, its configurations are published, and video and audio run; from then on the frames are dropped.\<close>

theorem hello_request_abandons_session:
  assumes "n_state n = kRunning" "\<not> n_shutting_down n" "\<not> n_direct n" "n_grpc n \<noteq> None"
    "n1 = handleSignalingEvent e (SystemCommand REQUEST_UDP_HELLO) n" "n_udp (on_udp (with_manager f) n1) = Some u"
    "handshakeTimerCallback u = ([Ready], u')" "n2 = run_udp e1 [Ready] ((on_udp (with_manager f) n1)\<lparr>n_udp := Some u'\<rparr>)"
  shows "n_state n1 = kRunning \<and> media n1 = media n \<and> n_state n2 = kPairing \<and> media n2 = media n
    \<and> onEncodedVideoFrame e2 d ts key n2 = n2\<lparr>dropped_video_before_running := dropped_video_before_running n2 + 1\<rparr>"
proof -
  let ?m = "(on_udp (with_manager f) n1)\<lparr>n_udp := Some u'\<rparr>"
  have n1: "n1 = on_udp (module_resetSession (ne_udp e)) n" using assms(2,5) by (simp add: handleSignalingEvent_def)
  have g: "n_grpc ?m \<noteq> None" using assms(4) by (simp add: n1 on_udp_def)
  have m: "\<not> n_direct ?m" "\<not> n_shutting_down ?m" using assms(2,3) by (simp_all add: n1 on_udp_def)
  have n2: "n2 = enterPairingState e1 (updateRobotTelemetryLifecycle e1 ?m)"
    using m assms(8) by (simp add: run_udp_def onUdpHandshakeReady_def)
  let ?t = "updateRobotTelemetryLifecycle e1 ?m"
  have "fixed ?t = fixed ?m" by (rule fixed_telemetry(7))
  then have t: "\<not> n_shutting_down ?t" using fixed_fields(1) m(2) by metis
  have "n_grpc ?t = n_grpc ?m" by (simp add: grpc_telemetry)
  then have s: "n_state n2 = kPairing" unfolding n2 by (intro state_pairing) (use g t in simp_all)
  have "fixed n2 = fixed ?t" unfolding n2 by (rule fixed_pairing(2))
  then have "\<not> n_shutting_down n2" using fixed_fields(1) t by metis
  with s have "onEncodedVideoFrame e2 d ts key n2 = n2\<lparr>dropped_video_before_running := dropped_video_before_running n2 + 1\<rparr>"
    by (simp add: onEncodedVideoFrame_def)
  moreover have "media n2 = media n" by (simp add: n2 n1)
  ultimately show ?thesis using s assms(1) by (simp add: n1)
qed

text \<open>Whether a negotiation can end depends on the first start of the video pipeline: when it starts (and the
  timers work), the node is running or the retry timer of the negotiation runs; when it fails, the node is left
  negotiating without any timer that would try again.\<close>

theorem failed_video_start_is_not_retried:
  assumes "n_video n = Some v" "\<not> vm_isRunning v" "canScheduleRosWork e n" "ne_timer_ok e NegotiationRetry"
  shows "if ne_video_started e
    then n_state (pair_with p e n) = kRunning \<or> n_timer (pair_with p e n) NegotiationRetry = Some True
    else n_state (pair_with p e n) = kNegotiating \<and> n_timer (pair_with p e n) = n_timer (stopPairingRetryTimer n)"
proof -
  define m where "m = setState kNegotiating (stopPairingRetryTimer (on_audio resetRemoteConfig
       (n\<lparr>paired_peer_session_id := p, peer_streams_subscribed := False, peer_subscribed_prefixes := []\<rparr>)))"
  have fm: "fixed m = fixed n" by (simp add: m_def fixed_simps)
  have m: "n_video m = Some v" "n_state m = kNegotiating" "n_timer m = n_timer (stopPairingRetryTimer n)"
    using assms(1) by (simp_all add: m_def on_audio_def stopPairingRetryTimer_def stop_timer_def setState_def)
  have sd: "\<not> n_shutting_down m" using assms(3) fixed_fields(1) [OF fm] by (simp add: canScheduleRosWork_def)
  obtain ok out v1 where vs: "vm_start (ne_video_started e) v = (ok, out, v1)" by (metis prod.exhaust)
  define n1 where "n1 = run_video e out (m\<lparr>n_video := Some v1\<rparr>)"
  define n2 where "n2 = ensureNegotiationRetryTimer e (n1\<lparr>video_started := True, video_start_time := ne_now e,
      last_video_keyframe_request_time := 0\<rparr>)"
  have p: "pair_with p e n = (if \<not> ok then n1 else if n_state n2 = kNegotiating \<and> hasParameterSets n2
      then tryAdvanceNegotiation e n2 else n2)"
    unfolding pair_with_def m_def [symmetric] startVideoAndNegotiate_def if_not_P [OF sd] m(1) option.case vs prod.case Let_def
      n1_def [symmetric] n2_def [symmetric] using assms(2) by simp
  let ?s = "n1\<lparr>video_started := True, video_start_time := ne_now e, last_video_keyframe_request_time := 0\<rparr>"
  have "fixed ?s = fixed m" by (simp add: n1_def fixed_simps)
  then have fs: "fixed ?s = fixed n" using fm by (rule trans)
  then have fn2: "fixed n2 = fixed n" by (simp add: n2_def fixed_simps)
  have s: "canScheduleRosWork e ?s" unfolding can_fixed [OF fs] by (rule assms(3))
  have t: "n_timer n2 NegotiationRetry = Some True" unfolding n2_def by (rule timer_ensure [OF s assms(4)])
  have t2: "canScheduleRosWork e n2" unfolding can_fixed [OF fn2] by (rule assms(3))
  show ?thesis
  proof (cases "ne_video_started e")
    case True
    then have ok using vs assms(2) by (auto simp: vm_start_def vm_isRunning_def split: prod.splits)
    then show ?thesis using True t advance_progress [OF t2 assms(4) t] by (simp add: p)
  next
    case False
    then have "\<not> ok" "out = []" using vs assms(2) by (auto simp: vm_start_def vm_isRunning_def split: prod.splits)
    then show ?thesis using False m by (simp add: p n1_def run_video_def)
  qed
qed

section \<open>Samples\<close>

theorem drain_runs_all_work_in_order_witness:
  "drainSessionWork node_env0 asked = stop_timer SessionWork (run_work node_env0 (SignalingWork accept_event) (asked\<lparr>session_work_queue := []\<rparr>))
    \<and> session_work_queue (drainSessionWork node_env0 asked) = []"
proof -
  have q: "session_work_queue asked = [SignalingWork accept_event]" "\<not> n_shutting_down asked" by (simp_all add: asked_def)
  have "states = [states ! 0, states ! 1]" if "length states = Suc (Suc 0)" for states :: "unit MainNode list"
    using that by (cases states; cases "tl states") auto
  then show ?thesis using drain_runs_all_work_in_order [OF q(2), of node_env0] q(1)
    by (metis One_nat_def drop_Suc_Cons drop0 last.simps length_Cons lessI list.distinct(1) list.size(3) nth_Cons_0)
qed

text \<open>The node after the negotiation, with audio.\<close>

definition running :: "unit MainNode" where
  "running = negotiating\<lparr>n_state := kRunning, video_config_sent := True, n_audio := Some audio_started, session_work_queue := []\<rparr>"

theorem teardown_releases_session_witness:
  "video_running running \<and> paired_peer_session_id running = ''p'' \<and> n_state (teardownActiveSession node_env0 kConnecting running) = kConnecting
    \<and> \<not> video_running (teardownActiveSession node_env0 kConnecting running)
    \<and> \<not> udp_running (teardownActiveSession node_env0 kConnecting running)
    \<and> paired_peer_session_id (teardownActiveSession node_env0 kConnecting running) = []"
  using teardown_releases_session [of kConnecting running node_env0]
  by (simp add: running_def negotiating_def video_running_def video_ready_def vm_isRunning_def)

lemma audio_started_wants:
  "wantsRemoteAudio running" "\<not> remote_config_ready audio_started" "readable (audio_config_of (aud_config audio_started))"
proof -
  show "wantsRemoteAudio running" using audio_started_parts
    by (simp add: wantsRemoteAudio_def running_def aud_isEnabled_def AudioConfig_default_def)
  show "\<not> remote_config_ready audio_started"
    by (simp add: audio_started_def aud_start_def markConfigPublished_def aud_initialize_def
      AudioModule_init_def Let_def split_beta split: option.split)
  show "readable (audio_config_of (aud_config audio_started))"
    by (simp add: audio_started_parts AudioConfig_default_def audio_config_of_def readable_def)
qed

theorem stale_answers_are_dropped_witness:
  "fst (ensurePeerSubscriptions node_env0 (\<lambda>m. m\<lparr>paired_peer_session_id := ''q''\<rparr>) running) = False
    \<and> paired_peer_session_id (snd (fetchRemoteAudioConfig node_env0 (\<lambda>m. m\<lparr>paired_peer_session_id := ''q''\<rparr>) running)) = ''q''"
  using stale_answers_are_dropped [of "\<lambda>m. m\<lparr>paired_peer_session_id := ''q''\<rparr>" running audio_started node_env0] audio_started_wants(1,2)
  by (auto simp: running_def negotiating_def)

theorem remote_audio_config_accepted_exactly_witness:
  "validateRemoteAudioConfig running (audio_config_of (aud_config audio_started)) = Some (aud_config audio_started)"
proof -
  have "aud_wf audio_started" using audio_started_reachable by (rule aud_reachable_wf)
  moreover have "n_audio running = Some audio_started" by (simp add: running_def)
  ultimately show ?thesis
    using remote_audio_config_accepted_exactly [of running audio_started "audio_config_of (aud_config audio_started)"] audio_started_wants by simp
qed

lemma reset_then_ack:
  "fst (handshakeTimerCallback (with_manager (\<lambda>m. snd (recv_iteration 9 (Some (map of_char ''ACK'')) m))
     (module_resetSession sample_env sample_acked))) = [Ready]"
  by (simp add: sample_acked_def with_manager_def recv_iteration_def onAckReceived_def module_resetSession_def
      sample_started_def module_start_def setHandshakeReadyCallback_def UdpModule_init_def sample_module_config_def
      sample_env_def UdpConfig_default_def mgr_start_def mgr_setSessionId_def UdpManager_init_def setDatagramCallback_def
      setPeerLostCallback_def ControlPlane_init_def cp_start_def handshakeTimerCallback_def isHandshakeReady_def
      UdpManager.resetSession_def 
      handshakeReady_def fire_ready_def cancel_timer_def Let_def split: prod.splits)

text \<open>The server asks for the HELLO, the ACK arrives, and the handshake timer fires.\<close>

definition asked_to_hello :: "unit MainNode" where
  "asked_to_hello = on_udp (with_manager (\<lambda>m. snd (recv_iteration 9 (Some (map of_char ''ACK'')) m)))
     (handleSignalingEvent node_env0 (SystemCommand REQUEST_UDP_HELLO) running)"

definition greeted :: "unit MainNode" where
  "greeted = (let u = with_manager (\<lambda>m. snd (recv_iteration 9 (Some (map of_char ''ACK'')) m)) (module_resetSession sample_env sample_acked)
     in run_udp node_env0 (fst (handshakeTimerCallback u)) (asked_to_hello\<lparr>n_udp := Some (snd (handshakeTimerCallback u))\<rparr>))"

theorem hello_request_abandons_session_witness:
  "n_state running = kRunning \<and> n_state greeted = kPairing \<and> video_running greeted \<and> paired_peer_session_id greeted = ''p''
    \<and> onEncodedVideoFrame node_env0 (Some [1]) 0 True greeted
        = greeted\<lparr>dropped_video_before_running := dropped_video_before_running greeted + 1\<rparr>"
proof -
  let ?u = "with_manager (\<lambda>m. snd (recv_iteration 9 (Some (map of_char ''ACK'')) m)) (module_resetSession sample_env sample_acked)"
  have r: "n_state running = kRunning" "\<not> n_shutting_down running" "\<not> n_direct running" "n_grpc running \<noteq> None"
    "n_udp running = Some sample_acked"
    by (simp_all add: running_def negotiating_def)
  have u: "n_udp asked_to_hello = Some ?u"
    using r by (simp add: asked_to_hello_def handleSignalingEvent_def on_udp_def node_env0_def)
  have h: "handshakeTimerCallback ?u = ([Ready], snd (handshakeTimerCallback ?u))"
    using reset_then_ack by (metis prod.collapse)
  have g: "greeted = run_udp node_env0 [Ready] (asked_to_hello\<lparr>n_udp := Some (snd (handshakeTimerCallback ?u))\<rparr>)"
    by (simp only: greeted_def Let_def reset_then_ack)
  have a: "n_state greeted = kPairing" "media greeted = media running"
    "onEncodedVideoFrame node_env0 (Some [1]) 0 True greeted = greeted\<lparr>dropped_video_before_running := dropped_video_before_running greeted + 1\<rparr>"
    using hello_request_abandons_session [OF r(1-4) refl u [unfolded asked_to_hello_def] h g [unfolded asked_to_hello_def],
      of node_env0 "Some [1]" 0 True] by blast+
  have "video_running running" "paired_peer_session_id running = ''p''"
    by (simp_all add: running_def negotiating_def video_running_def video_ready_def vm_isRunning_def)
  then show ?thesis using a r(1) media_fields(2,5) [OF a(2)] by (simp add: video_running_def)
qed

theorem failed_video_start_is_not_retried_witness:
  "n_state (pair_with ''p'' (node_env0\<lparr>ne_video_started := False\<rparr>) (node0\<lparr>n_video := Some video_h264\<rparr>)) = kNegotiating
    \<and> n_timer (pair_with ''p'' (node_env0\<lparr>ne_video_started := False\<rparr>) (node0\<lparr>n_video := Some video_h264\<rparr>)) NegotiationRetry = None
    \<and> n_timer (pair_with ''p'' node_env0 (node0\<lparr>n_video := Some video_h264\<rparr>)) NegotiationRetry = Some True"
proof -
  have v: "n_video (node0\<lparr>n_video := Some video_h264\<rparr>) = Some video_h264" "\<not> vm_isRunning video_h264"
    by (simp_all add: video_h264_def VideoModule_init_def vm_isRunning_def)
  have c: "canScheduleRosWork (node_env0\<lparr>ne_video_started := b\<rparr>) (node0\<lparr>n_video := Some video_h264\<rparr>)"
    "ne_timer_ok (node_env0\<lparr>ne_video_started := b\<rparr>) NegotiationRetry" for b
    by (simp_all add: canScheduleRosWork_def node_env0_def)
  have e: "node_env0\<lparr>ne_video_started := True\<rparr> = node_env0" by (simp add: node_env0_def)
  have "n_state (pair_with ''p'' node_env0 (node0\<lparr>n_video := Some video_h264\<rparr>)) \<noteq> kRunning"
    by (simp add: pair_with_def startVideoAndNegotiate_def on_audio_def stopPairingRetryTimer_def stop_timer_def setState_def
        vm_start_def video_h264_def VideoModule_init_def node_env0_def run_video_def ensureNegotiationRetryTimer_def ensure_timer_def
        canScheduleRosWork_def hasParameterSets_def hasSpsPps_def parameterSetsReady_def vm_isRunning_def Let_def
        emitCachedParameterSetsIfReady_def)
  then show ?thesis
    using failed_video_start_is_not_retried [OF v c [of False], of "''p''"] failed_video_start_is_not_retried [OF v c [of True], of "''p''"]
    by (simp add: e stopPairingRetryTimer_def stop_timer_def) (simp add: node_env0_def)
qed

end
