(* ===== verification/VideoEncoder.thy ===== *)
theory VideoEncoder
  imports VideoModule "HOL-Library.AList"
begin

text \<open>
  \<open>src/src/video/video_encoder.cpp\<close>: the encoder on top of the NVENC element of the Jetson multimedia API. The
  element is not part of the repository: what its calls answer are arguments (\<open>hw\<close>, the indices it gives back,
  the encoded data), and the calls made to it are outputs. Modelled are the bit reader and the search for NAL
  units, the order of the calls that configure the element, the bookkeeping of its input buffers, the time stamps
  of the encoded units, and the parameter sets. A buffer that is not null is a list of bytes.
\<close>

section \<open>Bits\<close>

text \<open>\<open>BitReader\<close>: the data and the position, in bits.\<close>

record BitReader =
  br_data :: bytes
  bitpos :: nat

definition readBit :: "BitReader \<Rightarrow> (u32 \<times> BitReader) option" where
  "readBit b =
     (if length (br_data b) * 8 \<le> bitpos b then None
      else (let byte_i = bitpos b div 8; bit_i = 7 - bitpos b mod 8
            in Some (drop_bit bit_i (ucast (br_data b ! byte_i)) AND 1, b\<lparr>bitpos := bitpos b + 1\<rparr>)))"

primrec read_bits :: "nat \<Rightarrow> u32 \<Rightarrow> BitReader \<Rightarrow> (u32 \<times> BitReader) option" where
  "read_bits 0 acc b = Some (acc, b)"
| "read_bits (Suc n) acc b =
     (case readBit b of
        None \<Rightarrow> None
      | Some (v, b1) \<Rightarrow> read_bits n (push_bit 1 acc OR v) b1)"

definition readBits :: "nat \<Rightarrow> BitReader \<Rightarrow> (u32 \<times> BitReader) option" where
  "readBits n b = read_bits n 0 b"

function count_zeros :: "nat \<Rightarrow> BitReader \<Rightarrow> (nat \<times> BitReader) option" where
  "count_zeros zeros b =
     (case readBit b of
        None \<Rightarrow> None
      | Some (v, b1) \<Rightarrow> if v = 0 then (if 31 < zeros + 1 then None else count_zeros (zeros + 1) b1) else Some (zeros, b1))"
  by pat_completeness auto
termination by (relation "measure (\<lambda>(zeros, b). 32 - zeros)") auto

declare count_zeros.simps [simp del]

definition readUE :: "BitReader \<Rightarrow> (u32 \<times> BitReader) option" where
  "readUE b =
     (case count_zeros 0 b of
        None \<Rightarrow> None
      | Some (zeros, b1) \<Rightarrow>
          (case (if 0 < zeros then readBits zeros b1 else Some (0, b1)) of
             None \<Rightarrow> None
           | Some (v, b2) \<Rightarrow> Some ((push_bit zeros 1 - 1) + v, b2)))"

text \<open>\<open>rbspPrefix\<close>: the bytes without those that prevent start codes, at most \<open>cap\<close> of them.\<close>

fun rbsp_loop :: "nat \<Rightarrow> nat \<Rightarrow> bytes \<Rightarrow> bytes" where
  "rbsp_loop cap zero_count [] = []"
| "rbsp_loop cap zero_count (b # src) =
     (if cap = 0 then []
      else if 2 \<le> zero_count \<and> b = 3 then rbsp_loop cap 0 src
      else b # rbsp_loop (cap - 1) (if b = 0 then zero_count + 1 else 0) src)"

definition rbspPrefix :: "bytes \<Rightarrow> nat \<Rightarrow> bytes" where
  "rbspPrefix src dst_cap = rbsp_loop dst_cap 0 src"

section \<open>NAL units\<close>

text \<open>\<open>detectH264Format\<close> is the same code as \<open>detectStreamFormat\<close> of the module. \<open>forEachNal\<close> is not: it
  looks for the end of a unit one byte later, and goes on from the first byte of the unit.\<close>

definition detectH264Format :: "bytes \<Rightarrow> StreamFormat" where
  "detectH264Format d = (if hasAnnexBStartCode d then AnnexB else if looksLikeAvcc d then Avcc else UnknownFormat)"

function enc_annexb_nals :: "bytes \<Rightarrow> nat \<Rightarrow> bytes list" where
  "enc_annexb_nals d i =
     (if i + 3 < length d
      then (case is_start_code d i of
              None \<Rightarrow> enc_annexb_nals d (i + 1)
            | Some sc_len \<Rightarrow>
                (let nal_hdr = i + sc_len
                 in if length d \<le> nal_hdr then enc_annexb_nals d nal_hdr
                    else (let nal_end = scan_end d (nal_hdr + 1)
                          in take (nal_end - nal_hdr) (drop nal_hdr d) # enc_annexb_nals d nal_hdr)))
      else [])"
  by pat_completeness auto
termination by (relation "measure (\<lambda>(d, i). length d - i)") (auto dest: is_start_code_bound)

declare enc_annexb_nals.simps [simp del]

definition enc_forEachNal :: "bytes \<Rightarrow> StreamFormat \<Rightarrow> bytes list" where
  "enc_forEachNal d fmt =
     (if length d < 1 then []
      else (case fmt of AnnexB \<Rightarrow> enc_annexb_nals d 0 | Avcc \<Rightarrow> avcc_nals d 0 | UnknownFormat \<Rightarrow> []))"

definition containsH264IdrNal :: "bytes \<Rightarrow> bool" where
  "containsH264IdrNal d =
     list_ex (\<lambda>nal. if length nal < 1 then False else nal ! 0 AND 0x1F = 5) (enc_forEachNal d (detectH264Format d))"

definition containsH265IdrNal :: "bytes \<Rightarrow> bool" where
  "containsH265IdrNal d =
     list_ex (\<lambda>nal. if length nal < 2 then False
                    else (let t = drop_bit 1 (nal ! 0) AND 0x3F in t = 19 \<or> t = 20 \<or> t = 21))
       (enc_forEachNal d (detectH264Format d))"

definition is_i_slice :: "bytes \<Rightarrow> bool" where
  "is_i_slice nal =
     (if length nal < 2 then False
      else (let nal_unit_type = nal ! 0 AND 0x1F
            in if nal_unit_type \<noteq> 1 \<and> nal_unit_type \<noteq> 5 then False
               else (let br = \<lparr>br_data = rbspPrefix (tl nal) 96, bitpos = 0\<rparr>
                     in (case readUE br of
                           None \<Rightarrow> False
                         | Some (first_mb, br1) \<Rightarrow>
                             (case readUE br1 of None \<Rightarrow> False | Some (slice_type, br2) \<Rightarrow> slice_type mod 5 = 2)))))"

definition containsH264ISlice :: "bytes \<Rightarrow> bool" where
  "containsH264ISlice d = list_ex is_i_slice (enc_forEachNal d (detectH264Format d))"

definition hex_digits :: string where "hex_digits = ''0123456789abcdef''"

definition bytesToHex :: "bytes \<Rightarrow> string" where
  "bytesToHex d = concat (map (\<lambda>b. [hex_digits ! unat (drop_bit 4 b AND 0x0F), hex_digits ! unat (b AND 0x0F)]) d)"

section \<open>State\<close>

datatype InputFormat = kNv12 | kYuv420

record EncoderConfig =
  ec_codec :: Codec
  ec_width :: u32
  ec_height :: u32
  ec_framerate :: u32
  ec_bitrate :: u32
  input_format :: InputFormat
  idr_interval :: u32
  idr_interval_gops :: u32
  slice_intra_refresh_interval_slices :: u32
  force_idr_every_n :: u32
  qp_range_i_min :: u32
  qp_range_i_max :: u32
  qp_range_p_min :: u32
  qp_range_p_max :: u32
  max_perf_mode :: bool
  hw_preset_type :: int
  rate_control_mode :: int
  peak_bitrate :: u32
  virtual_buffer_size :: u32
  num_reference_frames :: int
  num_b_frames :: int
  insert_sps_pps_at_idr :: int
  slice_level_encode :: bool
  num_slices :: u32
  poc_type :: int
  insert_aud :: bool
  output_plane_buffers :: u32
  capture_plane_buffers :: u32
  encoder_framerate_override :: u32

text \<open>\<open>enc_open\<close>: there is an element. The map from indices to descriptors is a list of pairs.\<close>

record VideoEncoder =
  enc_config :: EncoderConfig
  input_done_callback :: bool
  enc_sps_pps_callback :: bool
  sps_pps_sent :: bool
  enc_sps :: bytes
  enc_pps :: bytes
  enc_vps :: bytes
  enc_shutting_down :: bool
  enc_open :: bool
  free_output_indices :: "nat list"
  index_to_fd :: "(nat \<times> int) list"
  timestamp_queue :: "u64 list"
  last_capture_ts :: u64
  effective_slices_per_frame :: u32
  remaining_slice_aus :: u32
  input_frame_count :: u64

definition VideoEncoder_init :: "EncoderConfig \<Rightarrow> VideoEncoder" where
  "VideoEncoder_init c = \<lparr>enc_config = c, input_done_callback = False, enc_sps_pps_callback = False, sps_pps_sent = False,
     enc_sps = [], enc_pps = [], enc_vps = [], enc_shutting_down = False, enc_open = False, free_output_indices = [],
     index_to_fd = [], timestamp_queue = [], last_capture_ts = 0, effective_slices_per_frame = 1, remaining_slice_aus = 0,
     input_frame_count = 0\<rparr>"

definition enc_shutdown :: "VideoEncoder \<Rightarrow> VideoEncoder" where
  "enc_shutdown e =
     (let e1 = e\<lparr>enc_shutting_down := True\<rparr>
      in if \<not> enc_open e1 then e1
         else e1\<lparr>input_done_callback := False, enc_sps_pps_callback := False, index_to_fd := [], free_output_indices := [],
                timestamp_queue := [], last_capture_ts := 0, remaining_slice_aus := 0, enc_open := False\<rparr>)"

section \<open>Initialisation\<close>

text \<open>The calls that configure the element, in order, each with a flag: does its failure end the initialisation?\<close>

datatype control =
    SetCapturePlaneFormat Codec u32 u32 | SetOutputPlaneFormat InputFormat u32 u32 | SetBitrate u32
  | SetMaxPerfMode | SetHWPresetType int | SetRateControlMode int | SetPeakBitrate u32 | SetVirtualBufferSize u32
  | SetSliceIntrarefresh u32 | SetNumReferenceFrames u32 | SetNumBFrames u32 | SetInsertSpsPpsAtIdr bool
  | SetSliceLevelEncode | SetSliceLength u32 | SetPocType u32 | SetInsertAud | SetProfile Codec | SetLevel Codec
  | SetQpRange u32 u32 u32 u32 | SetFrameRate u32 | SetIDRInterval u32 | SetIFrameInterval u32
  | SetupOutputPlane u32 | SetupCapturePlane u32 | StreamOnOutput | StreamOnCapture | QueueCapture nat

definition optional :: "bool \<Rightarrow> control \<Rightarrow> (control \<times> bool) list" where
  "optional b c = (if b then [(c, False)] else [])"

definition format_controls :: "EncoderConfig \<Rightarrow> (control \<times> bool) list" where
  "format_controls c =
     [(SetCapturePlaneFormat (ec_codec c) (ec_width c) (ec_height c), True),
      (SetOutputPlaneFormat (input_format c) (ec_width c) (ec_height c), True), (SetBitrate (ec_bitrate c), True)]"

definition per_slice_mbs :: "EncoderConfig \<Rightarrow> u32" where
  "per_slice_mbs c =
     (let mbs_w = (ec_width c + 15) div 16; mbs_h = (ec_height c + 15) div 16; total_mbs = mbs_w * mbs_h; n = num_slices c
      in max 1 ((total_mbs + n - 1) div n))"

definition tuning_controls :: "EncoderConfig \<Rightarrow> (control \<times> bool) list" where
  "tuning_controls c =
     optional (max_perf_mode c) SetMaxPerfMode
   @ optional (0 \<le> hw_preset_type c) (SetHWPresetType (hw_preset_type c))
   @ optional (0 \<le> rate_control_mode c) (SetRateControlMode (rate_control_mode c))
   @ optional (0 < peak_bitrate c) (SetPeakBitrate (peak_bitrate c))
   @ optional (0 < virtual_buffer_size c) (SetVirtualBufferSize (virtual_buffer_size c))
   @ optional (0 < slice_intra_refresh_interval_slices c) (SetSliceIntrarefresh (slice_intra_refresh_interval_slices c))
   @ optional (0 \<le> num_reference_frames c) (SetNumReferenceFrames (of_int (num_reference_frames c)))
   @ optional (0 \<le> num_b_frames c) (SetNumBFrames (of_int (num_b_frames c)))
   @ optional (0 \<le> insert_sps_pps_at_idr c) (SetInsertSpsPpsAtIdr (insert_sps_pps_at_idr c \<noteq> 0))
   @ optional (slice_level_encode c) SetSliceLevelEncode
   @ optional (slice_level_encode c \<and> 1 < num_slices c) (SetSliceLength (per_slice_mbs c))"

definition stream_controls :: "EncoderConfig \<Rightarrow> (control \<times> bool) list" where
  "stream_controls c =
     optional (0 \<le> poc_type c \<and> ec_codec c \<noteq> kH265) (SetPocType (of_int (poc_type c)))
   @ optional (insert_aud c) SetInsertAud
   @ [(SetProfile (ec_codec c), True), (SetLevel (ec_codec c), True)]
   @ optional (0 < qp_range_i_min c \<or> 0 < qp_range_i_max c \<or> 0 < qp_range_p_min c \<or> 0 < qp_range_p_max c)
       (SetQpRange (qp_range_i_min c) (qp_range_i_max c) (qp_range_p_min c) (qp_range_p_max c))
   @ [(SetFrameRate (if 0 < encoder_framerate_override c then encoder_framerate_override c else ec_framerate c), True),
      (SetIDRInterval (idr_interval_gops c), True), (SetIFrameInterval (idr_interval c), True)]"

definition plane_controls :: "EncoderConfig \<Rightarrow> nat \<Rightarrow> (control \<times> bool) list" where
  "plane_controls c capture_buffers =
     [(SetupOutputPlane (if 0 < output_plane_buffers c then output_plane_buffers c else 10), True),
      (SetupCapturePlane (if 0 < capture_plane_buffers c then capture_plane_buffers c else 10), True),
      (StreamOnOutput, True), (StreamOnCapture, True)]
   @ map (\<lambda>i. (QueueCapture i, True)) [0..<capture_buffers]"

text \<open>The calls made, up to the first that must not fail and does, and whether all went well.\<close>

fun run_controls :: "(control \<Rightarrow> bool) \<Rightarrow> (control \<times> bool) list \<Rightarrow> control list \<times> bool" where
  "run_controls hw [] = ([], True)"
| "run_controls hw ((c, required) # cs) =
     (if required \<and> \<not> hw c then ([c], False)
      else (case run_controls hw cs of (made, ok) \<Rightarrow> (c # made, ok)))"

text \<open>\<open>created\<close>: the element could be created; \<open>input_buffers\<close> and \<open>capture_buffers\<close> are the numbers of buffers
  its planes have.\<close>

definition enc_initialize ::
  "bool \<Rightarrow> (control \<Rightarrow> bool) \<Rightarrow> nat \<Rightarrow> nat \<Rightarrow> EncoderConfig \<Rightarrow> VideoEncoder \<Rightarrow> bool \<times> control list \<times> VideoEncoder" where
  "enc_initialize created hw input_buffers capture_buffers c e =
     (let e1 = e\<lparr>enc_config := c, enc_shutting_down := False, enc_open := created\<rparr>
      in if \<not> created then (False, [], e1)
         else (let (made, ok) = run_controls hw (format_controls c @ tuning_controls c @ stream_controls c
                     @ plane_controls c capture_buffers);
                   e2 = (if set (map fst (format_controls c)) \<subseteq> {x. hw x}
                         then e1\<lparr>effective_slices_per_frame :=
                                  (if slice_level_encode c \<and> 1 < num_slices c \<and> hw (SetSliceLength (per_slice_mbs c))
                                   then num_slices c else 1)\<rparr> else e1)
               in if \<not> ok then (False, made, e2)
                  else (True, made, e2\<lparr>free_output_indices := [0..<input_buffers]\<rparr>)))"

definition enc_setInputDoneCallback :: "bool \<Rightarrow> VideoEncoder \<Rightarrow> VideoEncoder" where
  "enc_setInputDoneCallback b e = e\<lparr>input_done_callback := b\<rparr>"

text \<open>The parameter sets, when they are handed to the callback.\<close>

definition enc_sets_ready :: "VideoEncoder \<Rightarrow> bool" where
  "enc_sets_ready e \<longleftrightarrow> enc_sps e \<noteq> [] \<and> enc_pps e \<noteq> [] \<and> (ec_codec (enc_config e) \<noteq> kH265 \<or> enc_vps e \<noteq> [])"

definition enc_setSpsPpsCallback :: "bool \<Rightarrow> VideoEncoder \<Rightarrow> (bytes \<times> bytes \<times> bytes) option \<times> VideoEncoder" where
  "enc_setSpsPpsCallback b e =
     (let e1 = e\<lparr>enc_sps_pps_callback := b\<rparr>
      in if enc_sets_ready e1 \<and> enc_sps_pps_callback e1
         then (Some (enc_sps e1, enc_pps e1, enc_vps e1), e1\<lparr>sps_pps_sent := True\<rparr>) else (None, e1))"

section \<open>Input\<close>

text \<open>What the element answers to a submission: is there a buffer with the index, has the descriptor a surface, with
  the planes of the input format, and was the buffer queued.\<close>

record submit_answer =
  sa_buffer :: bool
  sa_surface :: bool
  sa_planes_match :: bool
  sa_queued :: bool

text \<open>The second component: a key frame was forced.\<close>

definition enc_submit :: "submit_answer \<Rightarrow> int \<Rightarrow> u64 \<Rightarrow> VideoEncoder \<Rightarrow> bool \<times> bool \<times> VideoEncoder" where
  "enc_submit a dmabuf_fd timestamp_us e =
     (if enc_shutting_down e \<or> \<not> enc_open e then (False, False, e)
      else (case free_output_indices e of
              [] \<Rightarrow> (False, False, e)
            | index # rest \<Rightarrow>
                (let give_back = (\<lambda>e. e\<lparr>free_output_indices := free_output_indices e @ [index]\<rparr>);
                     e1 = e\<lparr>free_output_indices := rest\<rparr>
                 in if \<not> sa_buffer a \<or> \<not> sa_surface a \<or> \<not> sa_planes_match a then (False, False, give_back e1)
                    else (let in_count = input_frame_count e1 + 1; n = force_idr_every_n (enc_config e1);
                              forced = (0 < n \<and> in_count mod ucast n = 0);
                              e2 = e1\<lparr>input_frame_count := in_count,
                                     index_to_fd := AList.update index dmabuf_fd (index_to_fd e1),
                                     timestamp_queue := timestamp_queue e1 @ [timestamp_us]\<rparr>
                          in if \<not> sa_queued a
                             then (False, forced, give_back (e2\<lparr>index_to_fd := AList.delete index (index_to_fd e2),
                                                               timestamp_queue := butlast (timestamp_queue e2)\<rparr>))
                             else (True, forced, e2)))))"

text \<open>One buffer the element is done with: the descriptor handed to the callback, if any. \<open>drainInputDone\<close> is a
  sequence of them.\<close>

definition input_done :: "nat \<Rightarrow> VideoEncoder \<Rightarrow> int list \<times> VideoEncoder" where
  "input_done index e =
     (let fd = (case map_of (index_to_fd e) index of None \<Rightarrow> - 1 | Some fd \<Rightarrow> fd);
          e1 = e\<lparr>index_to_fd := AList.delete index (index_to_fd e)\<rparr>
      in (if 0 \<le> fd \<and> input_done_callback e1 then [fd] else [],
          e1\<lparr>free_output_indices := free_output_indices e1 @ [index]\<rparr>))"

fun drain_loop :: "nat list \<Rightarrow> VideoEncoder \<Rightarrow> int list \<times> VideoEncoder" where
  "drain_loop [] e = ([], e)"
| "drain_loop (index # indices) e =
     (case input_done index e of (out, e1) \<Rightarrow> (case drain_loop indices e1 of (out1, e2) \<Rightarrow> (out @ out1, e2)))"

definition drainInputDone :: "nat list \<Rightarrow> VideoEncoder \<Rightarrow> int list \<times> VideoEncoder" where
  "drainInputDone done_indices e =
     (if enc_shutting_down e \<or> \<not> enc_open e then ([], e) else drain_loop done_indices e)"

section \<open>Output\<close>

text \<open>The time stamp of an encoded unit.\<close>

definition next_frame :: "u64 \<Rightarrow> VideoEncoder \<Rightarrow> u64 \<times> VideoEncoder" where
  "next_frame ts e =
     (let slices_per_frame = max 1 (effective_slices_per_frame e)
      in (ts, e\<lparr>last_capture_ts := ts, remaining_slice_aus := (if 1 < slices_per_frame then slices_per_frame - 1 else 0)\<rparr>))"

definition unit_timestamp :: "u64 \<Rightarrow> VideoEncoder \<Rightarrow> u64 \<times> VideoEncoder" where
  "unit_timestamp driver_ts e =
     (let slices_per_frame = max 1 (effective_slices_per_frame e);
          expecting_more_slices = (1 < slices_per_frame \<and> 0 < remaining_slice_aus e);
          driver_reports_new_frame = (0 < driver_ts \<and> 0 < last_capture_ts e \<and> driver_ts \<noteq> last_capture_ts e)
      in if driver_reports_new_frame
         then (case timestamp_queue e of [] \<Rightarrow> next_frame driver_ts e | t # ts \<Rightarrow> next_frame t (e\<lparr>timestamp_queue := ts\<rparr>))
         else if expecting_more_slices
         then (last_capture_ts e, e\<lparr>remaining_slice_aus := remaining_slice_aus e - 1\<rparr>)
         else (case timestamp_queue e of
                 t # ts \<Rightarrow> next_frame t (e\<lparr>timestamp_queue := ts\<rparr>)
               | [] \<Rightarrow> if 0 < driver_ts then next_frame driver_ts e
                       else (last_capture_ts e, if 0 < remaining_slice_aus e
                                                then e\<lparr>remaining_slice_aus := remaining_slice_aus e - 1\<rparr> else e)))"

definition take_parameter_set :: "bytes \<Rightarrow> VideoEncoder \<Rightarrow> VideoEncoder" where
  "take_parameter_set nal e =
     (if ec_codec (enc_config e) = kH265
      then (if length nal < 2 then e
            else (let nal_unit_type = drop_bit 1 (nal ! 0) AND 0x3F
                  in if nal_unit_type = 32 \<and> enc_vps e = [] then e\<lparr>enc_vps := nal\<rparr>
                     else if nal_unit_type = 33 \<and> enc_sps e = [] then e\<lparr>enc_sps := nal\<rparr>
                     else if nal_unit_type = 34 \<and> enc_pps e = [] then e\<lparr>enc_pps := nal\<rparr> else e))
      else (if length nal < 1 then e
            else (let nal_unit_type = nal ! 0 AND 0x1F
                  in if nal_unit_type = 7 \<and> enc_sps e = [] then e\<lparr>enc_sps := nal\<rparr>
                     else if nal_unit_type = 8 \<and> enc_pps e = [] then e\<lparr>enc_pps := nal\<rparr> else e)))"

definition parseSpsPps :: "bytes \<Rightarrow> VideoEncoder \<Rightarrow> (bytes \<times> bytes \<times> bytes) option \<times> VideoEncoder" where
  "parseSpsPps d e =
     (if sps_pps_sent e then (None, e)
      else (let e1 = fold take_parameter_set (enc_forEachNal d (detectH264Format d)) e
            in if enc_sets_ready e1
               then (if enc_sps_pps_callback e1 then Some (enc_sps e1, enc_pps e1, enc_vps e1) else None,
                     e1\<lparr>sps_pps_sent := True\<rparr>)
               else (None, e1)))"

record EncodedPacket =
  ep_data :: bytes
  ep_timestamp_us :: u64
  ep_keyframe :: bool
  cap_buf_index :: nat

text \<open>What the element answers: no buffer, a buffer without data, or data with the index and the time stamp of the
  element. The second component are the parameter sets handed to the callback.\<close>

datatype capture_answer = NoBuffer | NullBuffer | Captured nat u64 bytes

definition dequeueOne :: "capture_answer \<Rightarrow> VideoEncoder
    \<Rightarrow> EncodedPacket option \<times> (bytes \<times> bytes \<times> bytes) option \<times> VideoEncoder" where
  "dequeueOne a e =
     (if enc_shutting_down e \<or> \<not> enc_open e then (None, None, e)
      else (case a of
              NoBuffer \<Rightarrow> (None, None, e)
            | NullBuffer \<Rightarrow> (None, None, e)
            | Captured index driver_ts d \<Rightarrow>
                if d = [] then (None, None, e)
                else (let (ts, e1) = unit_timestamp driver_ts e;
                          (sets, e2) = parseSpsPps d e1;
                          keyframe = (if ec_codec (enc_config e2) = kH265 then containsH265IdrNal d else containsH264IdrNal d)
                      in (Some \<lparr>ep_data = d, ep_timestamp_us = ts, ep_keyframe = keyframe, cap_buf_index = index\<rparr>, sets, e2))))"

text \<open>The index of the buffer that is queued again.\<close>

definition releaseCapture :: "EncodedPacket \<Rightarrow> VideoEncoder \<Rightarrow> nat option" where
  "releaseCapture pkt e = (if enc_shutting_down e \<or> \<not> enc_open e then None else Some (cap_buf_index pkt))"

definition enc_forceIDR :: "bool \<Rightarrow> VideoEncoder \<Rightarrow> bool" where
  "enc_forceIDR answer e = (if enc_shutting_down e \<or> \<not> enc_open e then False else answer)"

definition enc_setBitrate :: "bool \<Rightarrow> u32 \<Rightarrow> VideoEncoder \<Rightarrow> bool \<times> VideoEncoder" where
  "enc_setBitrate answer bitrate_bps e =
     (if enc_shutting_down e then (False, e)
      else if \<not> enc_open e \<or> bitrate_bps = 0 then (False, e)
      else if \<not> answer then (False, e)
      else (True, e\<lparr>enc_config := (enc_config e)\<lparr>ec_bitrate := bitrate_bps\<rparr>\<rparr>))"

section \<open>Units of a stream\<close>

lemma enc_skip_unit:
  assumes "clean n" "\<forall>m\<in>set rest. clean m" "k \<le> length n" "d = pre @ n @ annexb_stream rest"
  shows "enc_annexb_nals d (length pre + k) = enc_annexb_nals d (length pre + length n)"
  using assms(3)
proof (induction "length n - k" arbitrary: k)
  case (Suc r)
  then have k: "k < length n" by simp
  show ?case
  proof (cases "length pre + k + 3 < length d")
    case True
    have "is_start_code d (length pre + k) = None" unfolding assms(4) by (rule clean_no_code [OF assms(1) k])
    then have "enc_annexb_nals d (length pre + k) = enc_annexb_nals d (length pre + Suc k)"
      using True by (subst enc_annexb_nals.simps) simp
    then show ?thesis using Suc.hyps(1) [of "Suc k"] Suc.hyps(2) k by simp
  next
    case False
    then have "\<not> length pre + length n + 3 < length d" using k by simp
    then show ?thesis using False by (simp add: enc_annexb_nals.simps [of d])
  qed
qed simp

lemma enc_annexb_nals_stream:
  "\<forall>n\<in>set nals. clean n \<Longrightarrow> d = pre @ annexb_stream nals \<Longrightarrow> enc_annexb_nals d (length pre) = nals"
proof (induction nals arbitrary: pre)
  case Nil
  then show ?case by (subst enc_annexb_nals.simps) (simp add: annexb_stream_def)
next
  case (Cons n rest)
  define pre4 where "pre4 = pre @ [0, 0, 0, 1 :: u8]"
  have l4: "length pre4 = length pre + 4" by (simp add: pre4_def)
  have d: "d = pre4 @ n @ annexb_stream rest" using Cons.prems(2) by (simp add: annexb_stream_def pre4_def)
  have cl: "clean n" "\<forall>m\<in>set rest. clean m" using Cons.prems(1) by simp_all
  have len: "length pre + 3 < length d" "0 < length n" using cl(1) by (auto simp: d l4 clean_def)
  then have e: "scan_end d (5 + length pre) = length pre + 4 + length n"
    using scan_end_unit [OF cl _ d, of 1] by (simp add: l4 Suc_le_eq add.commute)
  have code: "is_start_code d (length pre) = Some 4" by (rule stream_start_code [OF Cons.prems(2)])
  have t: "take (length n) (drop (length pre + 4) d) = n" unfolding l4 [symmetric] by (simp add: d)
  have "enc_annexb_nals d (length (pre4 @ n)) = rest" by (rule Cons.IH [OF cl(2)]) (simp add: d)
  moreover have "enc_annexb_nals d (length pre4 + 0) = enc_annexb_nals d (length pre4 + length n)"
    by (rule enc_skip_unit [OF cl _ d]) simp
  ultimately have "enc_annexb_nals d (length pre + 4) = rest" by (simp only: length_append l4 add_0_right)
  moreover have "length pre + 4 < length d" using len(2) by (simp add: d l4)
  ultimately show ?case using len code e t
    by (subst enc_annexb_nals.simps) (simp add: Let_def del: One_nat_def)
qed

lemma enc_annexb_units: "\<forall>n\<in>set nals. clean n \<Longrightarrow> enc_forEachNal (annexb_stream nals) AnnexB = nals"
proof (cases nals)
  case Nil
  then show ?thesis by (simp add: enc_forEachNal_def annexb_stream_def)
next
  case (Cons n rest)
  assume cl: "\<forall>n\<in>set nals. clean n"
  have "5 \<le> length (annexb_stream nals)" using annexb_stream_length [of nals] cl Cons by simp
  then show ?thesis using enc_annexb_nals_stream [OF cl, of "annexb_stream nals" "[]"] by (auto simp: enc_forEachNal_def)
qed

definition enc_with_units :: "bytes list \<Rightarrow> VideoEncoder \<Rightarrow> VideoEncoder" where
  "enc_with_units nals e = (let c = ec_codec (enc_config e) in
     e\<lparr>enc_sps := first_kind c 0 (enc_sps e) nals, enc_pps := first_kind c 1 (enc_pps e) nals,
       enc_vps := first_kind c 2 (enc_vps e) nals\<rparr>)"

lemma take_parameter_set_units: "take_parameter_set n e = enc_with_units [n] e"
  by (auto simp: take_parameter_set_def enc_with_units_def unit_kind_def Let_def)

lemma fold_take_parameter_set: "fold take_parameter_set nals e = enc_with_units nals e"
proof (induction nals arbitrary: e)
  case Nil
  then show ?case by (simp add: enc_with_units_def Let_def)
next
  case (Cons n nals)
  have "enc_with_units nals (enc_with_units [n] e) = enc_with_units (n # nals) e"
    by (simp add: enc_with_units_def Let_def)
  then show ?case using Cons by (simp add: take_parameter_set_units)
qed

lemma detectH264Format_eq: "detectH264Format = detectStreamFormat"
  by (simp add: fun_eq_iff detectH264Format_def detectStreamFormat_def)

end
