(* ===== verification/SurfacePools.thy ===== *)
theory SurfacePools
  imports Prelude "HOL-Library.Multiset"
begin

text \<open>
  The pools of surfaces of the video pipeline: \<open>src/src/video/video_converter.cpp\<close> (YUV 4:2:2 to NV12) and the pool of
  \<open>src/src/video/video_undistorter.cpp\<close>, whose maps are in \<open>VideoUndistorter\<close>. Surfaces, CUDA and the clock are not
  part of the repository: what the calls answer are arguments. The locale \<open>token_pool\<close> is what a client relies on:
  a pool hands out what is free and takes it back, and nothing is lost.
\<close>

section \<open>What a pool promises\<close>

text \<open>Every token is free or held, once.\<close>

definition conserved :: "'k list \<Rightarrow> 'k multiset \<Rightarrow> 'k list \<Rightarrow> bool" where
  "conserved free held everything \<longleftrightarrow> distinct everything \<and> mset free + held = mset everything"

lemma conserved_free: "conserved free {#} everything \<longleftrightarrow> distinct everything \<and> mset free = mset everything"
  by (simp add: conserved_def)

lemma conserved_not_free: "conserved free held everything \<Longrightarrow> k \<in># held \<Longrightarrow> k \<notin> set free"
proof
  assume c: "conserved free held everything" "k \<in># held" "k \<in> set free"
  have "0 < count (mset free) k" "0 < count held k" using c(2,3) by (simp_all add: count_greater_zero_iff)
  then have "2 \<le> count (mset free + held) k" unfolding count_union by linarith
  moreover have "mset free + held = mset everything" using c(1) by (simp add: conserved_def)
  ultimately have "2 \<le> count (mset everything) k" by metis
  then show False using c(1) by (simp add: conserved_def distinct_count_atmost_1 split: if_splits)
qed

lemma conserved_held_once: "conserved free held everything \<Longrightarrow> count held k \<le> 1"
proof -
  assume c: "conserved free held everything"
  have "count held k \<le> count (mset free + held) k" by simp
  also have "\<dots> \<le> 1" using c by (auto simp: conserved_def distinct_count_atmost_1)
  finally show ?thesis .
qed

lemma conserved_member: "conserved free held everything \<Longrightarrow> k \<in># held \<Longrightarrow> k \<in> set everything"
  by (metis conserved_def set_mset_mset union_iff)

locale token_pool =
  fixes pool_ok :: "'p \<Rightarrow> bool" and free :: "'p \<Rightarrow> 'k list" and everything :: "'p \<Rightarrow> 'k list"
    and acquire :: "'a \<Rightarrow> 'p \<Rightarrow> 'k option \<times> 'p" and release :: "'k \<Rightarrow> 'p \<Rightarrow> 'p"
  assumes distinct: "pool_ok p \<Longrightarrow> distinct (everything p)"
    and acquire: "pool_ok p \<Longrightarrow> acquire a p = (r, p') \<Longrightarrow>
      pool_ok p' \<and> everything p' = everything p
        \<and> (case r of None \<Rightarrow> mset (free p') = mset (free p) | Some k \<Rightarrow> mset (free p) = add_mset k (mset (free p')))"
    and release: "pool_ok p \<Longrightarrow> k \<in> set (everything p) \<Longrightarrow> k \<notin> set (free p) \<Longrightarrow>
      pool_ok (release k p) \<and> everything (release k p) = everything p
        \<and> mset (free (release k p)) = add_mset k (mset (free p))"
begin

text \<open>\<open>owned p held\<close>: the pool is in order and its clients hold \<open>held\<close>.\<close>

definition owned :: "'p \<Rightarrow> 'k multiset \<Rightarrow> bool" where
  "owned p held \<longleftrightarrow> pool_ok p \<and> conserved (free p) held (everything p)"

lemma owned_ok: "owned p held \<Longrightarrow> pool_ok p"
  by (simp add: owned_def)

lemma owned_acquire:
  assumes "owned p held" "acquire a p = (Some k, p')"
  shows "owned p' (add_mset k held) \<and> k \<notin># held \<and> everything p' = everything p"
proof -
  have a: "pool_ok p'" "everything p' = everything p" "mset (free p) = add_mset k (mset (free p'))"
    using acquire [OF _ assms(2)] assms(1) by (auto simp: owned_def)
  then have c: "conserved (free p') (add_mset k held) (everything p')" using assms(1) by (simp add: owned_def conserved_def)
  have "k \<notin># held" using conserved_held_once [OF c, of k] by (simp add: not_in_iff)
  then show ?thesis using a c by (simp add: owned_def)
qed

lemma owned_refused:
  assumes "owned p held" "acquire a p = (None, p')"
  shows "owned p' held \<and> everything p' = everything p"
  using acquire [OF _ assms(2)] assms(1) by (auto simp: owned_def conserved_def)

lemma owned_release:
  assumes "owned p (add_mset k held)"
  shows "owned (release k p) held \<and> everything (release k p) = everything p"
proof -
  have c: "conserved (free p) (add_mset k held) (everything p)" and ok: "pool_ok p" using assms by (simp_all add: owned_def)
  have "k \<notin> set (free p)" "k \<in> set (everything p)" using conserved_not_free [OF c] conserved_member [OF c] by simp_all
  from release [OF ok this(2,1)] show ?thesis using c by (simp add: owned_def conserved_def)
qed

text \<open>What is handed out was free, and what is handed out and not given back is never handed out again.\<close>

lemma owned_disjoint: "owned p held \<Longrightarrow> k \<in># held \<Longrightarrow> k \<notin> set (free p)"
  by (auto simp: owned_def dest: conserved_not_free)

end

section \<open>Pools of surfaces\<close>

text \<open>Both classes keep their surfaces in the same four members; they are a record here. A surface is null or not.\<close>

record OutputPool =
  surfaces :: "bool list"
  dmabuf_fds :: "int list"
  free_indices :: "nat list"
  fd_to_index :: "int \<rightharpoonup> nat"

definition OutputPool_empty :: OutputPool where
  "OutputPool_empty = \<lparr>surfaces = [], dmabuf_fds = [], free_indices = [], fd_to_index = Map.empty\<rparr>"

text \<open>\<open>unordered_map::emplace\<close> leaves an entry that exists.\<close>

definition emplace :: "'k \<Rightarrow> 'v \<Rightarrow> ('k \<rightharpoonup> 'v) \<Rightarrow> ('k \<rightharpoonup> 'v)" where
  "emplace k v m = (if m k = None then m(k \<mapsto> v) else m)"

text \<open>\<open>mk i\<close>: the descriptor of the surface that is created as the \<open>i\<close>-th, if it can be created.\<close>

fun create_surfaces :: "(nat \<Rightarrow> int option) \<Rightarrow> nat list \<Rightarrow> OutputPool \<Rightarrow> bool \<times> OutputPool" where
  "create_surfaces mk [] p = (True, p)"
| "create_surfaces mk (i # is) p =
     (case mk i of
        None \<Rightarrow> (False, p)
      | Some fd \<Rightarrow> create_surfaces mk is
          (p\<lparr>surfaces := (surfaces p)[i := True], dmabuf_fds := (dmabuf_fds p)[i := fd],
             free_indices := free_indices p @ [i], fd_to_index := emplace fd i (fd_to_index p)\<rparr>))"

definition pool_give_back :: "nat \<Rightarrow> OutputPool \<Rightarrow> OutputPool" where
  "pool_give_back i p = p\<lparr>free_indices := free_indices p @ [i]\<rparr>"

definition pool_releaseFd :: "int \<Rightarrow> OutputPool \<Rightarrow> OutputPool" where
  "pool_releaseFd fd p = (case fd_to_index p fd of None \<Rightarrow> p | Some i \<Rightarrow> pool_give_back i p)"

definition free_fds :: "OutputPool \<Rightarrow> int list" where
  "free_fds p = map (\<lambda>i. dmabuf_fds p ! i) (free_indices p)"

definition pool_wf :: "OutputPool \<Rightarrow> bool" where
  "pool_wf p \<longleftrightarrow> length (surfaces p) = length (dmabuf_fds p) \<and> distinct (dmabuf_fds p) \<and> (\<forall>fd\<in>set (dmabuf_fds p). 0 \<le> fd)
     \<and> (\<forall>s\<in>set (surfaces p). s) \<and> distinct (free_indices p) \<and> (\<forall>i\<in>set (free_indices p). i < length (dmabuf_fds p))
     \<and> (\<forall>fd i. fd_to_index p fd = Some i \<longleftrightarrow> i < length (dmabuf_fds p) \<and> dmabuf_fds p ! i = fd)"

lemma pool_wf_empty [simp]: "pool_wf OutputPool_empty"
  by (simp add: pool_wf_def OutputPool_empty_def)

lemma pool_wf_take:
  assumes "pool_wf p" "free_indices p = i # rest"
  shows "pool_wf (p\<lparr>free_indices := rest\<rparr>) \<and> i < length (dmabuf_fds p) \<and> i \<notin> set rest \<and> surfaces p ! i
    \<and> mset (free_fds p) = add_mset (dmabuf_fds p ! i) (mset (free_fds (p\<lparr>free_indices := rest\<rparr>)))"
  using assms by (auto simp: pool_wf_def free_fds_def)

lemma pool_wf_give_back:
  assumes "pool_wf p" "i < length (dmabuf_fds p)" "i \<notin> set (free_indices p)"
  shows "pool_wf (pool_give_back i p) \<and> mset (free_fds (pool_give_back i p)) = add_mset (dmabuf_fds p ! i) (mset (free_fds p))"
  using assms by (auto simp: pool_wf_def free_fds_def pool_give_back_def)

lemma pool_give_back_fds [simp]: "dmabuf_fds (pool_give_back i p) = dmabuf_fds p"
  by (simp add: pool_give_back_def)

lemma pool_releaseFd_fds [simp]: "dmabuf_fds (pool_releaseFd fd p) = dmabuf_fds p"
  by (simp add: pool_releaseFd_def split: option.split)

lemma pool_wf_release:
  assumes "pool_wf p" "fd \<in> set (dmabuf_fds p)" "fd \<notin> set (free_fds p)"
  shows "pool_wf (pool_releaseFd fd p) \<and> mset (free_fds (pool_releaseFd fd p)) = add_mset fd (mset (free_fds p))"
proof -
  obtain i where i: "i < length (dmabuf_fds p)" "dmabuf_fds p ! i = fd" using assms(2) by (auto simp: in_set_conv_nth)
  then have s: "fd_to_index p fd = Some i" using assms(1) by (simp add: pool_wf_def)
  have "i \<notin> set (free_indices p)" using assms(3) i(2) by (auto simp: free_fds_def)
  from pool_wf_give_back [OF assms(1) i(1) this] show ?thesis by (simp add: pool_releaseFd_def s i(2))
qed

text \<open>Taking a surface out and putting it back.\<close>

lemma pool_wf_refused:
  assumes "pool_wf p" "free_indices p = i # rest"
  shows "pool_wf (pool_give_back i (p\<lparr>free_indices := rest\<rparr>))
    \<and> mset (free_fds (pool_give_back i (p\<lparr>free_indices := rest\<rparr>))) = mset (free_fds p)"
  using pool_wf_take [OF assms] pool_wf_give_back [of "p\<lparr>free_indices := rest\<rparr>" i] by simp

text \<open>Descriptors of surfaces that exist are different and not negative.\<close>

definition descriptors_ok :: "(nat \<Rightarrow> int option) \<Rightarrow> bool" where
  "descriptors_ok mk \<longleftrightarrow> (\<forall>i fd. mk i = Some fd \<longrightarrow> 0 \<le> fd) \<and> (\<forall>i j fd. mk i = Some fd \<longrightarrow> mk j = Some fd \<longrightarrow> i = j)"

lemma create_surfaces_wf:
  assumes "descriptors_ok mk" "create_surfaces mk [k..<n] p = (True, p')"
    "length (surfaces p) = n" "length (dmabuf_fds p) = n" "free_indices p = [0..<k]" "k \<le> n"
    "\<forall>i<k. surfaces p ! i" "\<forall>i<k. mk i = Some (dmabuf_fds p ! i)"
    "\<forall>fd i. fd_to_index p fd = Some i \<longleftrightarrow> i < k \<and> dmabuf_fds p ! i = fd"
  shows "pool_wf p' \<and> free_indices p' = [0..<n] \<and> length (dmabuf_fds p') = n"
  using assms(2-)
proof (induction "n - k" arbitrary: k p)
  case 0
  then have k: "k = n" by simp
  have inj: "dmabuf_fds p ! i \<noteq> dmabuf_fds p ! j" if "i < n" "j < n" "i \<noteq> j" for i j
    using assms(1) 0(8) that unfolding k descriptors_ok_def by metis
  have "0 \<le> dmabuf_fds p ! i" if "i < n" for i using assms(1) 0(8) that unfolding k descriptors_ok_def by blast
  then show ?case using 0 inj by (auto simp: k pool_wf_def distinct_conv_nth in_set_conv_nth)
next
  case (Suc m)
  then have k: "k < n" by simp
  define q where "q = p\<lparr>surfaces := (surfaces p)[k := True], dmabuf_fds := (dmabuf_fds p)[k := the (mk k)],
             free_indices := free_indices p @ [k], fd_to_index := emplace (the (mk k)) k (fd_to_index p)\<rparr>"
  obtain fd where fd: "mk k = Some fd" using Suc.prems(1) k by (cases "mk k") (simp_all add: upt_conv_Cons)
  have new: "dmabuf_fds p ! i \<noteq> fd" if "i < k" for i
    using assms(1) Suc.prems(7) fd that unfolding descriptors_ok_def by (metis less_irrefl)
  then have absent: "fd_to_index p fd = None" using Suc.prems(8) by (metis not_Some_eq)
  show ?case
  proof (rule Suc.hyps(1) [of "Suc k" q])
    show "create_surfaces mk [Suc k..<n] q = (True, p')" using Suc.prems(1) k fd by (simp add: q_def upt_conv_Cons)
    show "\<forall>f i. fd_to_index q f = Some i \<longleftrightarrow> i < Suc k \<and> dmabuf_fds q ! i = f"
      using Suc.prems(2,3,8) k new by (auto simp: q_def fd absent emplace_def less_Suc_eq)
  qed (use Suc.hyps(2) Suc.prems k fd in \<open>auto simp: q_def less_Suc_eq\<close>)
qed

section \<open>The converter\<close>

record ConverterConfig =
  cc_width :: u32
  cc_height :: u32
  input_width :: u32
  input_height :: u32
  cc_buffer_pool_size :: u32

text \<open>The counters of times are signed; they are integers here.\<close>

record ConverterStats =
  cs_processed_frames :: u64
  cs_malformed_frames :: u64
  cs_pool_drops :: u64
  cs_failed_frames :: u64
  cs_decode_us_total :: int
  cs_transform_us_total :: int
  cs_map_us_total :: int
  cs_transform_wait_us_total :: int
  cs_transform_call_us_total :: int

definition ConverterStats_zero :: ConverterStats where
  "ConverterStats_zero = \<lparr>cs_processed_frames = 0, cs_malformed_frames = 0, cs_pool_drops = 0, cs_failed_frames = 0,
     cs_decode_us_total = 0, cs_transform_us_total = 0, cs_map_us_total = 0, cs_transform_wait_us_total = 0,
     cs_transform_call_us_total = 0\<rparr>"

record VideoConverter =
  cv_config :: ConverterConfig
  cv_pool :: OutputPool
  cuda_converter :: bool
  cv_stats :: ConverterStats

definition VideoConverter_init :: "ConverterConfig \<Rightarrow> VideoConverter" where
  "VideoConverter_init c = \<lparr>cv_config = c, cv_pool = OutputPool_empty, cuda_converter = False, cv_stats = ConverterStats_zero\<rparr>"

definition destroyBuffers :: "VideoConverter \<Rightarrow> VideoConverter" where
  "destroyBuffers v = v\<lparr>cuda_converter := False, cv_pool := OutputPool_empty\<rparr>"

text \<open>\<open>resize\<close> keeps the surfaces that are there, \<open>assign\<close> forgets the descriptors. \<open>prepare i\<close>: CUDA could prepare the
  \<open>i\<close>-th surface.\<close>

definition converter_initialize ::
  "(nat \<Rightarrow> int option) \<Rightarrow> (nat \<Rightarrow> bool) \<Rightarrow> ConverterConfig \<Rightarrow> VideoConverter \<Rightarrow> bool \<times> VideoConverter" where
  "converter_initialize mk prepare c v =
     (let n = unat (cc_buffer_pool_size c);
          p0 = \<lparr>surfaces = take n (surfaces (cv_pool v)) @ replicate (n - length (surfaces (cv_pool v))) False,
                dmabuf_fds = replicate n (- 1), free_indices = [], fd_to_index = Map.empty\<rparr>;
          (created, p1) = create_surfaces mk [0..<n] p0;
          v1 = v\<lparr>cv_config := c, cv_pool := p1\<rparr>
      in if \<not> created then (False, destroyBuffers v1)
         else (let v2 = v1\<lparr>cuda_converter := True\<rparr>
               in if \<exists>i\<in>set [0..<n]. \<not> surfaces p1 ! i \<or> \<not> prepare i then (False, destroyBuffers v2) else (True, v2)))"

definition converter_releaseFd :: "int \<Rightarrow> VideoConverter \<Rightarrow> VideoConverter" where
  "converter_releaseFd fd v = v\<lparr>cv_pool := pool_releaseFd fd (cv_pool v)\<rparr>"

definition converter_consumeStats :: "VideoConverter \<Rightarrow> ConverterStats \<times> VideoConverter" where
  "converter_consumeStats v = (cv_stats v, v\<lparr>cv_stats := ConverterStats_zero\<rparr>)"

text \<open>What the outside answers to a conversion: is there a surface for the source, did CUDA convert it, and the time
  both took.\<close>

record convert_answer =
  ca_source :: bool
  ca_converted :: bool
  ca_map_us :: int
  ca_call_us :: int

definition count_failure :: "nat \<Rightarrow> VideoConverter \<Rightarrow> VideoConverter" where
  "count_failure out_idx v = v\<lparr>cv_stats := (cv_stats v)\<lparr>cs_failed_frames := cs_failed_frames (cv_stats v) + 1\<rparr>,
     cv_pool := pool_give_back out_idx (cv_pool v)\<rparr>"

definition transformSync :: "convert_answer \<Rightarrow> int \<Rightarrow> u64 \<Rightarrow> VideoConverter \<Rightarrow> int option \<times> VideoConverter" where
  "transformSync a yuv_dmabuf_fd decode_us v =
     (if yuv_dmabuf_fd < 0 \<or> dmabuf_fds (cv_pool v) = [] \<or> \<not> cuda_converter v then (None, v)
      else (let s = cv_stats v;
                s1 = (if 0 < decode_us then s\<lparr>cs_decode_us_total := cs_decode_us_total s + sint decode_us\<rparr> else s)
            in (case free_indices (cv_pool v) of
                  [] \<Rightarrow> (None, v\<lparr>cv_stats := s1\<lparr>cs_pool_drops := cs_pool_drops s1 + 1\<rparr>\<rparr>)
                | out_idx # rest \<Rightarrow>
                    (let s2 = s1\<lparr>cs_map_us_total := cs_map_us_total s1 + ca_map_us a\<rparr>;
                         v2 = v\<lparr>cv_pool := (cv_pool v)\<lparr>free_indices := rest\<rparr>, cv_stats := s2\<rparr>
                     in if \<not> ca_source a then (None, count_failure out_idx v2)
                        else if \<not> surfaces (cv_pool v2) ! out_idx then (None, count_failure out_idx v2)
                        else (let v3 = v2\<lparr>cv_stats := s2\<lparr>cs_transform_call_us_total := cs_transform_call_us_total s2 + ca_call_us a,
                                                          cs_transform_us_total := cs_transform_us_total s2 + ca_call_us a\<rparr>\<rparr>
                              in if \<not> ca_converted a then (None, count_failure out_idx v3)
                                 else (Some (dmabuf_fds (cv_pool v3) ! out_idx),
                                       v3\<lparr>cv_stats := (cv_stats v3)\<lparr>cs_processed_frames := cs_processed_frames (cv_stats v3) + 1\<rparr>\<rparr>))))))"

text \<open>A conversion takes a surface out of the pool or leaves the pool as it was, up to the order.\<close>

definition pool_took :: "OutputPool \<Rightarrow> int option \<Rightarrow> OutputPool \<Rightarrow> bool" where
  "pool_took p r p' \<longleftrightarrow> pool_wf p' \<and> dmabuf_fds p' = dmabuf_fds p \<and>
     (case r of None \<Rightarrow> mset (free_fds p') = mset (free_fds p) | Some fd \<Rightarrow> mset (free_fds p) = add_mset fd (mset (free_fds p')))"

lemma pool_took_none [simp]: "pool_wf p \<Longrightarrow> pool_took p None p"
  by (simp add: pool_took_def)

lemma pool_took_refused:
  "pool_wf p \<Longrightarrow> free_indices p = i # rest \<Longrightarrow> pool_took p None (pool_give_back i (p\<lparr>free_indices := rest\<rparr>))"
  using pool_wf_refused [of p i rest] by (simp add: pool_took_def)

lemma pool_took_some:
  "pool_wf p \<Longrightarrow> free_indices p = i # rest \<Longrightarrow> pool_took p (Some (dmabuf_fds p ! i)) (p\<lparr>free_indices := rest\<rparr>)"
  using pool_wf_take [of p i rest] by (simp add: pool_took_def)

lemma transformSync_took:
  assumes "pool_wf (cv_pool v)" "transformSync a fd us v = (r, v')"
  shows "pool_took (cv_pool v) r (cv_pool v')"
proof (cases "fd < 0 \<or> dmabuf_fds (cv_pool v) = [] \<or> \<not> cuda_converter v \<or> free_indices (cv_pool v) = []")
  case True
  then have "r = None \<and> cv_pool v' = cv_pool v" using assms(2) by (auto simp: transformSync_def Let_def split: if_splits list.splits)
  then show ?thesis using assms(1) by simp
next
  case False
  then obtain i rest where f: "free_indices (cv_pool v) = i # rest" by (auto simp: neq_Nil_conv)
  then have "(r = None \<and> cv_pool v' = pool_give_back i ((cv_pool v)\<lparr>free_indices := rest\<rparr>))
    \<or> (r = Some (dmabuf_fds (cv_pool v) ! i) \<and> cv_pool v' = (cv_pool v)\<lparr>free_indices := rest\<rparr>)"
    using assms(2) False by (auto simp: transformSync_def count_failure_def Let_def split: if_splits)
  then show ?thesis using pool_took_refused [OF assms(1) f] pool_took_some [OF assms(1) f] by auto
qed

interpretation converter: token_pool "\<lambda>v. pool_wf (cv_pool v)" "\<lambda>v. free_fds (cv_pool v)" "\<lambda>v. dmabuf_fds (cv_pool v)"
  "\<lambda>(a, fd, us). transformSync a fd us" converter_releaseFd
proof unfold_locales
  show "distinct (dmabuf_fds (cv_pool p))" if "pool_wf (cv_pool p)" for p using that by (simp add: pool_wf_def)
next
  fix p a r and p' :: VideoConverter
  assume "pool_wf (cv_pool p)" "(case a of (a, fd, us) \<Rightarrow> transformSync a fd us) p = (r, p')"
  then show "pool_wf (cv_pool p') \<and> dmabuf_fds (cv_pool p') = dmabuf_fds (cv_pool p) \<and>
    (case r of None \<Rightarrow> mset (free_fds (cv_pool p')) = mset (free_fds (cv_pool p))
     | Some k \<Rightarrow> mset (free_fds (cv_pool p)) = add_mset k (mset (free_fds (cv_pool p'))))"
    using transformSync_took by (cases a) (auto simp: pool_took_def)
next
  fix p :: VideoConverter and k
  assume "pool_wf (cv_pool p)" "k \<in> set (dmabuf_fds (cv_pool p))" "k \<notin> set (free_fds (cv_pool p))"
  then show "pool_wf (cv_pool (converter_releaseFd k p)) \<and>
    dmabuf_fds (cv_pool (converter_releaseFd k p)) = dmabuf_fds (cv_pool p) \<and>
    mset (free_fds (cv_pool (converter_releaseFd k p))) = add_mset k (mset (free_fds (cv_pool p)))"
    using pool_wf_release by (simp add: converter_releaseFd_def)
qed

lemma converter_initialize_owned:
  assumes "descriptors_ok mk" "converter_initialize mk prepare c v = (True, v')"
  shows "converter.owned v' {#} \<and> length (dmabuf_fds (cv_pool v')) = unat (cc_buffer_pool_size c) \<and> cuda_converter v'"
proof -
  define n where "n = unat (cc_buffer_pool_size c)"
  define p0 where "p0 = \<lparr>surfaces = take n (surfaces (cv_pool v)) @ replicate (n - length (surfaces (cv_pool v))) False,
                dmabuf_fds = replicate n (- 1), free_indices = [], fd_to_index = Map.empty\<rparr>"
  obtain p1 where p1: "create_surfaces mk [0..<n] p0 = (True, p1)" "cv_pool v' = p1" "cuda_converter v'"
    using assms(2) by (auto simp: converter_initialize_def Let_def n_def [symmetric] p0_def [symmetric] split: prod.splits if_splits)
  have wf: "pool_wf p1 \<and> free_indices p1 = [0..<n] \<and> length (dmabuf_fds p1) = n"
    by (rule create_surfaces_wf [OF assms(1) p1(1)]) (simp_all add: p0_def)
  then have "free_fds p1 = dmabuf_fds p1" using map_nth [of "dmabuf_fds p1"] by (simp add: free_fds_def)
  moreover have "distinct (dmabuf_fds p1)" using wf by (simp add: pool_wf_def)
  ultimately show ?thesis using p1 wf by (simp add: converter.owned_def conserved_free n_def)
qed

end
