(* ===== verification/VideoUndistorter.thy ===== *)
theory VideoUndistorter
  imports SurfacePools
begin

text \<open>
  \<open>src/src/video/video_undistorter.cpp\<close>: the table that says for every pixel of the side-by-side frame where in the
  source it comes from, and the pool of surfaces the undistorted frames are written to. The YAML document is what the
  code reads of it; OpenCV and CUDA are arguments. A float or double is a rational, \<open>fl\<close> its rounding, and \<open>None\<close> what
  is not a number; an infinity, which only meets the clamp, stands for a number beyond the bounds.
\<close>

type_synonym fval = "rat option"

definition clampF :: "rat \<Rightarrow> rat \<Rightarrow> fval \<Rightarrow> fval" where
  "clampF lo hi v = map_option (\<lambda>x. if x < lo then lo else if hi < x then hi else x) v"

section \<open>Calibration\<close>

record EyeNode =
  eye_K :: "rat list option"
  eye_D :: "rat list option"
  eye_R :: "rat list option"
  eye_P :: "rat list option"

record CalibrationNode =
  cal_profile :: "string option"
  cal_session :: "string option"
  cal_stream_image_size :: "int list option"
  cal_calibration_image_size :: "int list option"
  cal_baseline_mm :: "rat option"
  cal_alpha :: "rat option"
  cal_left :: "EyeNode option"
  cal_right :: "EyeNode option"

text \<open>\<open>stereo_calibrations\<close> may be absent, something else than a list, or a list.\<close>

record CalibrationRoot =
  root_node :: CalibrationNode
  stereo_calibrations :: "CalibrationNode list option option"

record UndistorterConfig =
  uc_width :: u32
  uc_height :: u32
  uc_buffer_pool_size :: u32
  uc_calibration_file :: string
  uc_profile :: string
  uc_require_calibration :: bool

record CalibrationSelection =
  cal_node :: "CalibrationNode option"
  sel_profile :: string
  sel_session :: string
  sel_baseline_mm :: rat
  sel_alpha :: rat
  sel_calibration_size :: "int \<times> int"
  sel_runtime_size :: "int \<times> int"
  sel_stream_size :: "int \<times> int"

definition CalibrationSelection_init :: CalibrationSelection where
  "CalibrationSelection_init = \<lparr>cal_node = None, sel_profile = [], sel_session = [], sel_baseline_mm = 0, sel_alpha = 0,
     sel_calibration_size = (0, 0), sel_runtime_size = (0, 0), sel_stream_size = (0, 0)\<rparr>"

text \<open>\<open>readSize\<close> writes the size before it checks it.\<close>

definition readSize :: "int list option \<Rightarrow> int \<times> int \<Rightarrow> bool \<times> int \<times> int" where
  "readSize node sz =
     (case node of
        None \<Rightarrow> (False, sz)
      | Some values \<Rightarrow> if length values \<noteq> 2 then (False, sz)
                        else (0 < values ! 0 \<and> 0 < values ! 1, values ! 0, values ! 1))"

definition string_or_empty :: "string option \<Rightarrow> string" where
  "string_or_empty s = (case s of None \<Rightarrow> [] | Some v \<Rightarrow> v)"

definition calibration_matches :: "UndistorterConfig \<Rightarrow> CalibrationNode \<Rightarrow> bool" where
  "calibration_matches cfg item =
     (let stream_size = (sint (uc_width cfg), sint (uc_height cfg));
          (have_stream, item_stream) = readSize (cal_stream_image_size item) (0, 0);
          profile = string_or_empty (cal_profile item); session = string_or_empty (cal_session item);
          profile_match = (uc_profile cfg \<noteq> [] \<and> (uc_profile cfg = profile \<or> uc_profile cfg = session));
          size_match = (uc_profile cfg = [] \<and> have_stream \<and> item_stream = stream_size)
      in profile_match \<or> size_match)"

definition selectCalibration :: "CalibrationRoot \<Rightarrow> UndistorterConfig \<Rightarrow> CalibrationSelection option" where
  "selectCalibration doc cfg =
     (let stream_size = (sint (uc_width cfg), sint (uc_height cfg));
          runtime_eye = (sint (uc_width cfg div 2), sint (uc_height cfg))
      in (case (case stereo_calibrations doc of
                  None \<Rightarrow> Some (root_node doc)
                | Some None \<Rightarrow> None
                | Some (Some items) \<Rightarrow> find (calibration_matches cfg) items) of
            None \<Rightarrow> None
          | Some selected \<Rightarrow>
              if cal_left selected = None \<or> cal_right selected = None then None
              else Some \<lparr>cal_node = Some selected, sel_profile = string_or_empty (cal_profile selected),
                     sel_session = string_or_empty (cal_session selected),
                     sel_baseline_mm = (case cal_baseline_mm selected of None \<Rightarrow> 0 | Some v \<Rightarrow> v),
                     sel_alpha = (case cal_alpha selected of None \<Rightarrow> 0 | Some v \<Rightarrow> v),
                     sel_calibration_size = snd (readSize (cal_calibration_image_size selected) runtime_eye),
                     sel_runtime_size = runtime_eye, sel_stream_size = stream_size\<rparr>))"

definition loadMatrixFromYaml :: "rat list option \<Rightarrow> nat \<Rightarrow> nat \<Rightarrow> fval list option" where
  "loadMatrixFromYaml node rows cols =
     (case node of None \<Rightarrow> None | Some values \<Rightarrow> if length values \<noteq> rows * cols then None else Some (map Some values))"

definition loadDistortion :: "rat list option \<Rightarrow> fval list option" where
  "loadDistortion node =
     (case node of None \<Rightarrow> None | Some values \<Rightarrow> if length values < 4 then None else Some (map Some values))"

definition divF :: "(rat \<Rightarrow> rat) \<Rightarrow> int \<Rightarrow> int \<Rightarrow> fval" where
  "divF fl a b = (if b = 0 then None else Some (fl (of_int a / of_int b)))"

definition mulF :: "(rat \<Rightarrow> rat) \<Rightarrow> fval \<Rightarrow> fval \<Rightarrow> fval" where
  "mulF fl x y = (case (x, y) of (Some a, Some b) \<Rightarrow> Some (fl (a * b)) | _ \<Rightarrow> None)"

text \<open>Matrices are lists of their rows. \<open>scale_at\<close> multiplies the entries at the given places.\<close>

definition scale_at :: "(rat \<Rightarrow> rat) \<Rightarrow> fval \<Rightarrow> nat list \<Rightarrow> fval list \<Rightarrow> fval list" where
  "scale_at fl s places m = fold (\<lambda>i m. m[i := mulF fl (m ! i) s]) places m"

definition eye_matrix :: "fval list" where
  "eye_matrix = map Some [1, 0, 0, 0, 1, 0, 0, 0, 1]"

text \<open>OpenCV: the camera matrix that keeps the view, and the map of an eye, by row and column.\<close>

record opencv =
  getOptimalNewCameraMatrix :: "fval list \<Rightarrow> fval list \<Rightarrow> int \<times> int \<Rightarrow> rat \<Rightarrow> fval list"
  initUndistortRectifyMap ::
    "fval list \<Rightarrow> fval list \<Rightarrow> fval list \<Rightarrow> fval list \<Rightarrow> int \<times> int \<Rightarrow> nat \<Rightarrow> nat \<Rightarrow> fval \<times> fval"

definition buildEyeMap ::
  "(rat \<Rightarrow> rat) \<Rightarrow> opencv \<Rightarrow> EyeNode \<Rightarrow> int \<times> int \<Rightarrow> int \<times> int \<Rightarrow> rat \<Rightarrow> (nat \<Rightarrow> nat \<Rightarrow> fval \<times> fval) option" where
  "buildEyeMap fl cv eye calib_size runtime_size alpha =
     (case loadMatrixFromYaml (eye_K eye) 3 3 of
        None \<Rightarrow> None
      | Some K_calib \<Rightarrow>
          (case loadDistortion (eye_D eye) of
             None \<Rightarrow> None
           | Some D \<Rightarrow>
               (let R = (case loadMatrixFromYaml (eye_R eye) 3 3 of None \<Rightarrow> eye_matrix | Some m \<Rightarrow> m);
                    sx = divF fl (fst runtime_size) (fst calib_size); sy = divF fl (snd runtime_size) (snd calib_size);
                    K_run = scale_at fl sy [4, 5] (scale_at fl sx [0, 2] K_calib);
                    new_K = (case loadMatrixFromYaml (eye_P eye) 3 4 of
                               Some P \<Rightarrow> scale_at fl sy [5, 6, 7] (scale_at fl sx [0, 2, 3] P)
                             | None \<Rightarrow> getOptimalNewCameraMatrix cv K_run D runtime_size alpha)
                in Some (initUndistortRectifyMap cv K_run D R new_K runtime_size))))"

section \<open>The map of the frame\<close>

record MapBuildResult =
  full_map_xy :: "fval list"
  map_calibration :: CalibrationSelection

definition MapBuildResult_init :: MapBuildResult where
  "MapBuildResult_init = \<lparr>full_map_xy = [], map_calibration = CalibrationSelection_init\<rparr>"

text \<open>The two entries of a pixel.\<close>

definition pixel_source ::
  "(rat \<Rightarrow> rat) \<Rightarrow> nat \<Rightarrow> nat \<Rightarrow> (nat \<Rightarrow> nat \<Rightarrow> fval \<times> fval) \<Rightarrow> (nat \<Rightarrow> nat \<Rightarrow> fval \<times> fval) \<Rightarrow> nat \<Rightarrow> nat \<Rightarrow> fval list" where
  "pixel_source fl single_w single_h map_left map_right y x =
     (let clamp_x_max = fl (of_int (int single_w - 1)); clamp_y_max = fl (of_int (int single_h - 1));
          y_src = min y (single_h - 1)
      in if x < single_w
         then (let (sx, sy) = map_left y_src x in [clampF 0 clamp_x_max sx, clampF 0 clamp_y_max sy])
         else (let x_local = min (x - single_w) (single_w - 1); (sx, sy) = map_right y_src x_local
               in [map_option (\<lambda>v. fl (v + fl (of_nat single_w))) (clampF 0 clamp_x_max sx), clampF 0 clamp_y_max sy]))"

definition rows_of :: "(nat \<Rightarrow> nat \<Rightarrow> 'a list) \<Rightarrow> nat \<Rightarrow> nat \<Rightarrow> 'a list" where
  "rows_of f height width = concat (map (\<lambda>y. concat (map (f y) [0..<width])) [0..<height])"

definition buildFullMap ::
  "(rat \<Rightarrow> rat) \<Rightarrow> opencv \<Rightarrow> CalibrationSelection \<Rightarrow> UndistorterConfig \<Rightarrow> MapBuildResult option" where
  "buildFullMap fl cv selection cfg =
     (let runtime_eye = (sint (uc_width cfg div 2), sint (uc_height cfg));
          eye_map = (\<lambda>eye. buildEyeMap fl cv (the eye) (sel_calibration_size selection) runtime_eye (sel_alpha selection));
          node = the (cal_node selection)
      in (case eye_map (cal_left node) of
            None \<Rightarrow> None
          | Some map_left \<Rightarrow>
              (case eye_map (cal_right node) of
                 None \<Rightarrow> None
               | Some map_right \<Rightarrow>
                   Some \<lparr>full_map_xy = rows_of (pixel_source fl (unat (uc_width cfg div 2)) (unat (uc_height cfg)) map_left map_right)
                                         (unat (uc_height cfg)) (unat (uc_width cfg)),
                         map_calibration = selection\<rparr>)))"

text \<open>\<open>doc\<close>: the document, if the file could be read.\<close>

definition loadCalibrationMap ::
  "(rat \<Rightarrow> rat) \<Rightarrow> opencv \<Rightarrow> CalibrationRoot option \<Rightarrow> UndistorterConfig \<Rightarrow> MapBuildResult option" where
  "loadCalibrationMap fl cv doc cfg =
     (case doc of
        None \<Rightarrow> None
      | Some rt \<Rightarrow>
          (case selectCalibration rt cfg of None \<Rightarrow> None | Some selection \<Rightarrow> buildFullMap fl cv selection cfg))"

definition buildIdentityMap :: "(rat \<Rightarrow> rat) \<Rightarrow> UndistorterConfig \<Rightarrow> MapBuildResult" where
  "buildIdentityMap fl cfg =
     \<lparr>full_map_xy = rows_of (\<lambda>y x. [Some (fl (of_nat x)), Some (fl (of_nat y))]) (unat (uc_height cfg)) (unat (uc_width cfg)),
      map_calibration = CalibrationSelection_init\<lparr>sel_runtime_size := (sint (uc_width cfg div 2), sint (uc_height cfg)),
                                                 sel_stream_size := (sint (uc_width cfg), sint (uc_height cfg))\<rparr>\<rparr>"

section \<open>The undistorter\<close>

record UndistorterStats =
  us_processed_frames :: u64
  us_pool_drops :: u64
  us_failed_frames :: u64
  us_fallback_frames :: u64
  us_remap_us_total :: int
  us_map_us_total :: int
  us_kernel_us_total :: int
  us_sync_us_total :: int

definition UndistorterStats_zero :: UndistorterStats where
  "UndistorterStats_zero = \<lparr>us_processed_frames = 0, us_pool_drops = 0, us_failed_frames = 0, us_fallback_frames = 0,
     us_remap_us_total = 0, us_map_us_total = 0, us_kernel_us_total = 0, us_sync_us_total = 0\<rparr>"

record VideoUndistorter =
  und_config :: UndistorterConfig
  backend_name :: string
  map_result :: MapBuildResult
  und_pool :: OutputPool
  cuda_backend :: bool
  und_stats :: UndistorterStats

definition VideoUndistorter_init :: "UndistorterConfig \<Rightarrow> VideoUndistorter" where
  "VideoUndistorter_init c = \<lparr>und_config = c, backend_name = ''cuda'', map_result = MapBuildResult_init,
     und_pool = OutputPool_empty, cuda_backend = False, und_stats = UndistorterStats_zero\<rparr>"

definition und_teardown :: "VideoUndistorter \<Rightarrow> VideoUndistorter" where
  "und_teardown u = u\<lparr>cuda_backend := False, und_pool := OutputPool_empty\<rparr>"

definition createOutputPool :: "(nat \<Rightarrow> int option) \<Rightarrow> VideoUndistorter \<Rightarrow> bool \<times> VideoUndistorter" where
  "createOutputPool mk u =
     (let n = unat (uc_buffer_pool_size (und_config u));
          (created, p) = create_surfaces mk [0..<n]
             \<lparr>surfaces = replicate n False, dmabuf_fds = replicate n (- 1), free_indices = [], fd_to_index = Map.empty\<rparr>
      in (created, u\<lparr>und_pool := p\<rparr>))"

text \<open>The surfaces are prepared one by one: a null surface ends the loop, a surface CUDA cannot prepare also gives up
  the backend. Whether all were prepared, and whether the backend is kept.\<close>

fun prepare_outputs :: "(nat \<Rightarrow> bool) \<Rightarrow> nat \<Rightarrow> bool list \<Rightarrow> bool \<times> bool" where
  "prepare_outputs prepare i [] = (True, True)"
| "prepare_outputs prepare i (s # ss) =
     (if \<not> s then (False, True) else if \<not> prepare i then (False, False) else prepare_outputs prepare (i + 1) ss)"

definition createCudaResources :: "bool \<Rightarrow> (nat \<Rightarrow> bool) \<Rightarrow> VideoUndistorter \<Rightarrow> bool \<times> VideoUndistorter" where
  "createCudaResources cuda_ok prepare u =
     (if \<not> cuda_ok then (False, u\<lparr>cuda_backend := False\<rparr>)
      else (case prepare_outputs prepare 0 (surfaces (und_pool u)) of (ok, kept) \<Rightarrow> (ok, u\<lparr>cuda_backend := kept\<rparr>)))"

text \<open>What the outside answers to an initialisation.\<close>

record und_answer =
  ua_document :: "CalibrationRoot option"
  ua_surface :: "nat \<Rightarrow> int option"
  ua_cuda :: bool
  ua_prepare :: "nat \<Rightarrow> bool"

definition undistorter_initialize ::
  "(rat \<Rightarrow> rat) \<Rightarrow> opencv \<Rightarrow> und_answer \<Rightarrow> UndistorterConfig \<Rightarrow> VideoUndistorter \<Rightarrow> bool \<times> VideoUndistorter" where
  "undistorter_initialize fl cv a c u =
     (let u1 = (und_teardown u)\<lparr>und_config := c, backend_name := ''cuda''\<rparr>
      in if uc_width c = 0 \<or> uc_height c = 0 \<or> uc_width c AND 1 \<noteq> 0 then (False, u1)
         else (let loaded = (if uc_calibration_file c = [] then None else loadCalibrationMap fl cv (ua_document a) c)
               in if loaded = None \<and> uc_require_calibration c then (False, u1)
                  else (let u2 = u1\<lparr>map_result := (case loaded of None \<Rightarrow> buildIdentityMap fl c | Some m \<Rightarrow> m)\<rparr>;
                            (created, u3) = createOutputPool (ua_surface a) u2
                        in if \<not> created then (False, u3) else createCudaResources (ua_cuda a) (ua_prepare a) u3)))"

definition supportsFusedYuv422 :: "VideoUndistorter \<Rightarrow> bool" where
  "supportsFusedYuv422 u = cuda_backend u"

definition acquireOutput :: "VideoUndistorter \<Rightarrow> (nat \<times> int) option \<times> VideoUndistorter" where
  "acquireOutput u =
     (case free_indices (und_pool u) of
        [] \<Rightarrow> (None, u\<lparr>und_stats := (und_stats u)\<lparr>us_pool_drops := us_pool_drops (und_stats u) + 1\<rparr>\<rparr>)
      | out_idx # rest \<Rightarrow> (Some (out_idx, dmabuf_fds (und_pool u) ! out_idx), u\<lparr>und_pool := (und_pool u)\<lparr>free_indices := rest\<rparr>\<rparr>))"

definition releaseOutputIndex :: "nat \<Rightarrow> VideoUndistorter \<Rightarrow> VideoUndistorter" where
  "releaseOutputIndex out_idx u = u\<lparr>und_pool := pool_give_back out_idx (und_pool u)\<rparr>"

definition noteCudaFailure :: "bool \<Rightarrow> VideoUndistorter \<Rightarrow> VideoUndistorter" where
  "noteCudaFailure count_it u =
     (if count_it then u\<lparr>und_stats := (und_stats u)\<lparr>us_failed_frames := us_failed_frames (und_stats u) + 1\<rparr>\<rparr> else u)"

text \<open>What CUDA answers to a frame.\<close>

record remap_answer =
  ra_source :: bool
  ra_remapped :: bool
  ra_remap_us :: int
  ra_map_us :: int
  ra_kernel_us :: int
  ra_sync_us :: int

definition processCuda :: "remap_answer \<Rightarrow> nat \<Rightarrow> bool \<Rightarrow> VideoUndistorter \<Rightarrow> bool \<times> VideoUndistorter" where
  "processCuda a out_idx count_failures u =
     (if \<not> cuda_backend u then (False, noteCudaFailure count_failures u)
      else if \<not> ra_source a then (False, noteCudaFailure count_failures u)
      else if \<not> surfaces (und_pool u) ! out_idx then (False, noteCudaFailure count_failures u)
      else if \<not> ra_remapped a then (False, noteCudaFailure count_failures u)
      else (let s = und_stats u
            in (True, u\<lparr>und_stats := s\<lparr>us_remap_us_total := us_remap_us_total s + ra_remap_us a,
                     us_map_us_total := us_map_us_total s + ra_map_us a,
                     us_kernel_us_total := us_kernel_us_total s + ra_kernel_us a,
                     us_sync_us_total := us_sync_us_total s + ra_sync_us a,
                     us_processed_frames := us_processed_frames s + 1\<rparr>\<rparr>)))"

definition process :: "remap_answer \<Rightarrow> int \<Rightarrow> VideoUndistorter \<Rightarrow> int option \<times> VideoUndistorter" where
  "process a nv12_fd_in u =
     (if nv12_fd_in < 0 then (None, u)
      else if \<not> cuda_backend u then (None, u)
      else (case acquireOutput u of
              (None, u1) \<Rightarrow> (None, u1)
            | (Some (out_idx, out_fd), u1) \<Rightarrow>
                (case processCuda a out_idx True u1 of
                   (ok, u2) \<Rightarrow> if \<not> ok then (None, releaseOutputIndex out_idx u2) else (Some out_fd, u2))))"

definition processYuv422 :: "remap_answer \<Rightarrow> int \<Rightarrow> VideoUndistorter \<Rightarrow> int option \<times> VideoUndistorter" where
  "processYuv422 a yuv422_fd_in u =
     (if yuv422_fd_in < 0 \<or> \<not> supportsFusedYuv422 u then (None, u)
      else (case acquireOutput u of
              (None, u1) \<Rightarrow> (None, u1)
            | (Some (out_idx, out_fd), u1) \<Rightarrow>
                (case processCuda a out_idx True u1 of
                   (ok, u2) \<Rightarrow> if \<not> ok then (None, releaseOutputIndex out_idx u2) else (Some out_fd, u2))))"

definition undistorter_releaseFd :: "int \<Rightarrow> VideoUndistorter \<Rightarrow> VideoUndistorter" where
  "undistorter_releaseFd fd u = u\<lparr>und_pool := pool_releaseFd fd (und_pool u)\<rparr>"

text \<open>The snapshot also holds the name of the backend.\<close>

definition undistorter_consumeStats :: "VideoUndistorter \<Rightarrow> (UndistorterStats \<times> string) \<times> VideoUndistorter" where
  "undistorter_consumeStats u = ((und_stats u, backend_name u), u\<lparr>und_stats := UndistorterStats_zero\<rparr>)"

section \<open>The pool of the undistorter\<close>

lemma processCuda_pool: "und_pool (snd (processCuda a i b u)) = und_pool u"
  by (simp add: processCuda_def noteCudaFailure_def Let_def)

lemma processYuv422_took:
  assumes "pool_wf (und_pool u)" "processYuv422 a fd u = (r, u')"
  shows "pool_took (und_pool u) r (und_pool u')"
proof (cases "fd < 0 \<or> \<not> supportsFusedYuv422 u \<or> free_indices (und_pool u) = []")
  case True
  then have "r = None \<and> und_pool u' = und_pool u"
    using assms(2) by (auto simp: processYuv422_def acquireOutput_def split: if_splits list.splits)
  then show ?thesis using assms(1) by simp
next
  case False
  then obtain i rest where f: "free_indices (und_pool u) = i # rest" by (auto simp: neq_Nil_conv)
  define u1 where "u1 = u\<lparr>und_pool := (und_pool u)\<lparr>free_indices := rest\<rparr>\<rparr>"
  have "(r = None \<and> und_pool u' = pool_give_back i ((und_pool u)\<lparr>free_indices := rest\<rparr>))
    \<or> (r = Some (dmabuf_fds (und_pool u) ! i) \<and> und_pool u' = (und_pool u)\<lparr>free_indices := rest\<rparr>)"
    using assms(2) False processCuda_pool [of a i True u1]
    by (auto simp: processYuv422_def acquireOutput_def f releaseOutputIndex_def u1_def split: prod.splits if_splits)
  then show ?thesis using pool_took_refused [OF assms(1) f] pool_took_some [OF assms(1) f] by auto
qed

interpretation undistorter: token_pool "\<lambda>u. pool_wf (und_pool u)" "\<lambda>u. free_fds (und_pool u)" "\<lambda>u. dmabuf_fds (und_pool u)"
  "\<lambda>(a, fd). processYuv422 a fd" undistorter_releaseFd
proof unfold_locales
  show "distinct (dmabuf_fds (und_pool p))" if "pool_wf (und_pool p)" for p using that by (simp add: pool_wf_def)
next
  fix p a r and p' :: VideoUndistorter
  assume "pool_wf (und_pool p)" "(case a of (a, fd) \<Rightarrow> processYuv422 a fd) p = (r, p')"
  then show "pool_wf (und_pool p') \<and> dmabuf_fds (und_pool p') = dmabuf_fds (und_pool p) \<and>
    (case r of None \<Rightarrow> mset (free_fds (und_pool p')) = mset (free_fds (und_pool p))
     | Some k \<Rightarrow> mset (free_fds (und_pool p)) = add_mset k (mset (free_fds (und_pool p'))))"
    using processYuv422_took by (cases a) (auto simp: pool_took_def)
next
  fix p :: VideoUndistorter and k
  assume "pool_wf (und_pool p)" "k \<in> set (dmabuf_fds (und_pool p))" "k \<notin> set (free_fds (und_pool p))"
  then show "pool_wf (und_pool (undistorter_releaseFd k p)) \<and>
    dmabuf_fds (und_pool (undistorter_releaseFd k p)) = dmabuf_fds (und_pool p) \<and>
    mset (free_fds (und_pool (undistorter_releaseFd k p))) = add_mset k (mset (free_fds (und_pool p)))"
    using pool_wf_release by (simp add: undistorter_releaseFd_def)
qed

lemma undistorter_initialize_owned:
  assumes "descriptors_ok (ua_surface a)" "undistorter_initialize fl cv a c u = (True, u')"
  shows "undistorter.owned u' {#} \<and> length (dmabuf_fds (und_pool u')) = unat (uc_buffer_pool_size c)"
proof -
  define n where "n = unat (uc_buffer_pool_size c)"
  define p0 where "p0 = \<lparr>surfaces = replicate n False, dmabuf_fds = replicate n (- 1), free_indices = [], fd_to_index = Map.empty\<rparr>"
  obtain p1 where p1: "create_surfaces (ua_surface a) [0..<n] p0 = (True, p1)" "und_pool u' = p1"
    using assms(2) by (auto simp: undistorter_initialize_def createOutputPool_def createCudaResources_def Let_def
        n_def [symmetric] p0_def [symmetric] split: prod.splits if_splits)
  have wf: "pool_wf p1 \<and> free_indices p1 = [0..<n] \<and> length (dmabuf_fds p1) = n"
    by (rule create_surfaces_wf [OF assms(1) p1(1)]) (simp_all add: p0_def)
  then have "free_fds p1 = dmabuf_fds p1" using map_nth [of "dmabuf_fds p1"] by (simp add: free_fds_def)
  moreover have "distinct (dmabuf_fds p1)" using wf by (simp add: pool_wf_def)
  ultimately show ?thesis using p1 wf by (simp add: undistorter.owned_def conserved_free n_def)
qed

section \<open>Where the pixels come from\<close>

lemma length_concat_uniform: "\<forall>x\<in>set xs. length (f x) = k \<Longrightarrow> length (concat (map f xs)) = k * length xs"
  by (induction xs) simp_all

lemma nth_concat_uniform:
  "\<forall>i<n. length (f i) = k \<Longrightarrow> i < n \<Longrightarrow> j < k \<Longrightarrow> concat (map f [0..<n]) ! (i * k + j) = f i ! j"
proof (induction n)
  case (Suc n)
  have len: "length (concat (map f [0..<n])) = k * n" using length_concat_uniform [of "[0..<n]" f k] Suc.prems(1) by simp
  show ?case
  proof (cases "i = n")
    case True
    then show ?thesis using len by (simp add: nth_append mult.commute)
  next
    case False
    then have i: "i < n" using Suc.prems(2) by simp
    then have "i * k + j < Suc i * k" using Suc.prems(3) by simp
    also have "\<dots> \<le> n * k" using i by (intro mult_le_mono1) simp
    finally have "i * k + j < k * n" by (simp add: mult.commute)
    then show ?thesis using Suc.IH Suc.prems i len by (simp add: nth_append)
  qed
qed simp

lemma rows_of_nth:
  assumes "\<forall>y<height. \<forall>x<width. length (f y x) = 2" "y < height" "x < width" "j < 2"
  shows "rows_of f height width ! ((y * width + x) * 2 + j) = f y x ! j"
proof -
  have len: "\<forall>y<height. length (concat (map (f y) [0..<width])) = 2 * width"
    using assms(1) length_concat_uniform [of "[0..<width]" "f _" 2] by simp
  have b: "x * 2 + j < 2 * width" using assms(3,4) by simp
  have e: "(y * width + x) * 2 + j = y * (2 * width) + (x * 2 + j)" by (simp add: algebra_simps)
  have "rows_of f height width ! (y * (2 * width) + (x * 2 + j)) = concat (map (f y) [0..<width]) ! (x * 2 + j)"
    unfolding rows_of_def by (rule nth_concat_uniform [OF len assms(2) b])
  also have "\<dots> = f y x ! j" by (rule nth_concat_uniform) (use assms in auto)
  finally show ?thesis by (simp only: e)
qed

text \<open>The rounding to a float: it is monotone and keeps the integers up to \<open>2 ^ 24\<close>.\<close>

definition float_rounding :: "(rat \<Rightarrow> rat) \<Rightarrow> bool" where
  "float_rounding fl \<longleftrightarrow> mono fl \<and> (\<forall>k::int. 0 \<le> k \<longrightarrow> k \<le> 2 ^ 24 \<longrightarrow> fl (of_int k) = of_int k)"

lemma float_rounding_nat: "float_rounding fl \<Longrightarrow> n \<le> 2 ^ 24 \<Longrightarrow> fl (of_nat n) = of_nat n"
  unfolding float_rounding_def by (metis of_int_of_nat_eq of_nat_0_le_iff of_nat_le_iff of_nat_numeral of_nat_power)

lemma float_rounding_between:
  assumes "float_rounding fl" "of_nat a \<le> v" "v \<le> of_nat b" "b \<le> 2 ^ 24"
  shows "of_nat a \<le> fl v \<and> fl v \<le> of_nat b"
proof -
  have "(of_nat a :: rat) \<le> of_nat b" using assms(2,3) by (rule order_trans)
  then have "a \<le> 2 ^ 24" using assms(4) by simp
  moreover have "mono fl" using assms(1) by (simp add: float_rounding_def)
  ultimately show ?thesis using assms float_rounding_nat [OF assms(1)] by (metis monoD)
qed

text \<open>An entry that is a number lies in the eye of its pixel. Nothing is said of one that is no number: the clamps let it through
  (\<open>UndistortedEyes\<close> says what the kernels make of it).\<close>

definition in_eye :: "nat \<Rightarrow> nat \<Rightarrow> nat \<Rightarrow> fval \<Rightarrow> fval \<Rightarrow> bool" where
  "in_eye width height x sx sy \<longleftrightarrow>
     (case sx of None \<Rightarrow> True
      | Some v \<Rightarrow> if x < width div 2 then 0 \<le> v \<and> v \<le> of_nat (width div 2 - 1) else of_nat (width div 2) \<le> v \<and> v \<le> of_nat (width - 1))
     \<and> (case sy of None \<Rightarrow> True | Some v \<Rightarrow> 0 \<le> v \<and> v \<le> of_nat (height - 1))"

lemma clampF_bounds: "clampF lo hi v = Some x \<Longrightarrow> lo \<le> hi \<Longrightarrow> lo \<le> x \<and> x \<le> hi"
  by (auto simp: clampF_def split: if_splits)

lemma pixel_source_in_eye:
  assumes fl: "float_rounding fl" and "even width" "0 < width" "0 < height" "width \<le> 2 ^ 24" "height \<le> 2 ^ 24"
  shows "length (pixel_source fl (width div 2) height l r y x) = 2
    \<and> in_eye width height x (pixel_source fl (width div 2) height l r y x ! 0) (pixel_source fl (width div 2) height l r y x ! 1)"
proof -
  define w where "w = width div 2"
  have w: "width = 2 * w" "0 < w" using assms(2,3) by (auto simp: w_def)
  have cx: "fl (of_int (int w - 1)) = of_nat (w - 1)"
    using float_rounding_nat [OF fl, of "w - 1"] assms(5) w by (simp add: of_nat_diff)
  have cy: "fl (of_int (int height - 1)) = of_nat (height - 1)"
    using float_rounding_nat [OF fl, of "height - 1"] assms(4,6) by (simp add: of_nat_diff)
  have cw: "fl (of_nat w) = of_nat w" using float_rounding_nat [OF fl, of w] assms(5) w by simp
  have shift: "of_nat w \<le> fl (v + of_nat w) \<and> fl (v + of_nat w) \<le> of_nat (width - 1)" if "0 \<le> v" "v \<le> of_nat (w - 1)" for v
    by (rule float_rounding_between [OF fl]) (use that w assms(5) in \<open>auto simp: of_nat_diff\<close>)
  have nn: "(0::rat) \<le> of_nat (w - 1)" "(0::rat) \<le> of_nat (height - 1)" by simp_all
  show ?thesis
    unfolding pixel_source_def Let_def w_def [symmetric] cx cy cw in_eye_def
    using clampF_bounds [OF _ nn(1)] clampF_bounds [OF _ nn(2)] shift
    by (auto split: prod.split option.split)
qed

lemma identity_in_eye:
  assumes "float_rounding fl" "even width" "width \<le> 2 ^ 24" "height \<le> 2 ^ 24" "y < height" "x < width"
  shows "in_eye width height x (Some (fl (of_nat x))) (Some (fl (of_nat y)))"
proof -
  have "fl (of_nat x) = of_nat x" "fl (of_nat y) = of_nat y" using float_rounding_nat [OF assms(1)] assms(3-6) by simp_all
  moreover have "(of_nat x :: rat) \<le> of_nat (width - 1)" "(of_nat y :: rat) \<le> of_nat (height - 1)" using assms(5,6) by auto
  moreover have "(of_nat x :: rat) \<le> of_nat (width div 2 - 1)" if "x < width div 2" using that by auto
  moreover have "(of_nat (width div 2) :: rat) \<le> of_nat x" if "\<not> x < width div 2" using that by simp
  ultimately show ?thesis by (simp add: in_eye_def)
qed

lemma even_width: "w AND 1 = (0 :: u32) \<Longrightarrow> even (unat w)"
proof -
  assume "w AND 1 = 0"
  then have "w mod 2 = 0" by (simp add: and_one_eq)
  then have "unat (w mod 2) = 0" by simp
  then show ?thesis by (simp add: unat_mod even_iff_mod_2_eq_zero)
qed

lemma loaded_map_in_eye:
  assumes fl: "float_rounding fl" and "even (unat (uc_width c))" "0 < uc_width c" "0 < uc_height c"
    and "unat (uc_width c) \<le> 2 ^ 24" "unat (uc_height c) \<le> 2 ^ 24" "y < unat (uc_height c)" "x < unat (uc_width c)"
    and loaded: "loadCalibrationMap fl cv doc c = Some m"
  shows "in_eye (unat (uc_width c)) (unat (uc_height c)) x
    (full_map_xy m ! ((y * unat (uc_width c) + x) * 2)) (full_map_xy m ! ((y * unat (uc_width c) + x) * 2 + 1))"
proof -
  define w h where "w = unat (uc_width c)" and "h = unat (uc_height c)"
  obtain l r where m: "full_map_xy m = rows_of (pixel_source fl (w div 2) h l r) h w"
    using loaded unfolding w_def h_def
    by (auto simp: loadCalibrationMap_def buildFullMap_def unat_div Let_def split: option.splits)
  have "0 < w" "0 < h" using assms(3,4) by (simp_all add: w_def h_def word_gt_0 unat_gt_0)
  note src = pixel_source_in_eye [OF fl assms(2) [folded w_def] this assms(5,6) [folded w_def h_def]]
  have n: "rows_of (pixel_source fl (w div 2) h l r) h w ! ((y * w + x) * 2 + j) = pixel_source fl (w div 2) h l r y x ! j" if "j < 2" for j
    by (rule rows_of_nth) (use src that assms(7,8) in \<open>simp_all add: w_def h_def\<close>)
  show ?thesis using src [where x = x and l = l and r = r and y = y] n [of 0] n [of 1] by (simp add: m w_def [symmetric] h_def [symmetric])
qed

text \<open>When the undistorter is initialised, no entry of a pixel of one eye that is a number points into the half of the other
  eye or out of the frame, whatever the calibration and OpenCV say, with or without a calibration.\<close>

lemma maps_stay_in_their_eye:
  assumes "float_rounding fl" "undistorter_initialize fl cv a c u = (True, u')"
    and "unat (uc_width c) \<le> 2 ^ 24" "unat (uc_height c) \<le> 2 ^ 24" "y < unat (uc_height c)" "x < unat (uc_width c)"
  shows "in_eye (unat (uc_width c)) (unat (uc_height c)) x
    (full_map_xy (map_result u') ! ((y * unat (uc_width c) + x) * 2))
    (full_map_xy (map_result u') ! ((y * unat (uc_width c) + x) * 2 + 1))"
proof -
  define m where "m = (case (if uc_calibration_file c = [] then None else loadCalibrationMap fl cv (ua_document a) c) of
    None \<Rightarrow> buildIdentityMap fl c | Some m \<Rightarrow> m)"
  have u': "map_result u' = m" and ok: "uc_width c \<noteq> 0" "uc_height c \<noteq> 0" "uc_width c AND 1 = 0"
    using assms(2) unfolding m_def
    by (auto simp: undistorter_initialize_def createOutputPool_def createCudaResources_def Let_def split: prod.splits if_splits)
  have even: "even (unat (uc_width c))" and pos: "0 < uc_width c" "0 < uc_height c"
    using ok by (simp_all add: even_width word_gt_0)
  show ?thesis
  proof (cases "if uc_calibration_file c = [] then None else loadCalibrationMap fl cv (ua_document a) c")
    case None
    then have m: "m = buildIdentityMap fl c" by (simp add: m_def)
    show ?thesis unfolding u' m buildIdentityMap_def
      using rows_of_nth [of _ _ "\<lambda>y x. [Some (fl (of_nat x)), Some (fl (of_nat y))]", OF _ assms(5,6), of 0]
        rows_of_nth [of _ _ "\<lambda>y x. [Some (fl (of_nat x)), Some (fl (of_nat y))]", OF _ assms(5,6), of 1]
        identity_in_eye [OF assms(1) even assms(3-6)] by simp
  next
    case (Some m1)
    then have "loadCalibrationMap fl cv (ua_document a) c = Some m" by (simp add: m_def split: if_splits)
    from loaded_map_in_eye [OF assms(1) even pos assms(3-6) this] show ?thesis by (simp only: u')
  qed
qed

text \<open>A calibrated camera of four by two pixels whose maps point far outside: the right pixel of the right eye.\<close>

definition eye0 :: EyeNode where
  "eye0 = \<lparr>eye_K = Some [1, 0, 0, 0, 1, 0, 0, 0, 1], eye_D = Some [0, 0, 0, 0], eye_R = None, eye_P = None\<rparr>"

definition calibration0 :: CalibrationRoot where
  "calibration0 = \<lparr>root_node = \<lparr>cal_profile = None, cal_session = None, cal_stream_image_size = None,
     cal_calibration_image_size = None, cal_baseline_mm = None, cal_alpha = None, cal_left = Some eye0, cal_right = Some eye0\<rparr>,
     stereo_calibrations = None\<rparr>"

definition opencv0 :: opencv where
  "opencv0 = \<lparr>getOptimalNewCameraMatrix = (\<lambda>m _ _ _. m), initUndistortRectifyMap = (\<lambda>_ _ _ _ _ y x. (Some 100, None))\<rparr>"

definition undistorter_config0 :: UndistorterConfig where
  "undistorter_config0 = \<lparr>uc_width = 4, uc_height = 2, uc_buffer_pool_size = 1, uc_calibration_file = ''f'', uc_profile = [],
     uc_require_calibration = True\<rparr>"

definition und_answer0 :: und_answer where
  "und_answer0 = \<lparr>ua_document = Some calibration0, ua_surface = (\<lambda>i. Some (int i)), ua_cuda = True, ua_prepare = (\<lambda>_. True)\<rparr>"

lemma calibration0_loads: "loadCalibrationMap (\<lambda>x. x) opencv0 (Some calibration0) undistorter_config0 \<noteq> None"
  by (simp add: loadCalibrationMap_def selectCalibration_def calibration0_def eye0_def undistorter_config0_def buildFullMap_def
      buildEyeMap_def loadMatrixFromYaml_def loadDistortion_def Let_def)

lemma undistorter0_initialized:
  "undistorter_initialize (\<lambda>x. x) opencv0 und_answer0 undistorter_config0 (VideoUndistorter_init undistorter_config0)
     = (True, snd (undistorter_initialize (\<lambda>x. x) opencv0 und_answer0 undistorter_config0 (VideoUndistorter_init undistorter_config0)))"
  using calibration0_loads
  by (auto simp: undistorter_initialize_def createOutputPool_def createCudaResources_def und_answer0_def Let_def
      undistorter_config0_def upt_rec_numeral upt_conv_Cons split: prod.splits)

end
