(* ===== verification/VideoDecoder.thy ===== *)
theory VideoDecoder
  imports SurfacePools
begin

text \<open>
  \<open>src/src/video/video_decoder.cpp\<close>: the decoder of the camera's JPEG frames. It owns a pool of surfaces, of which one
  is taken for a frame, and a queue of decoded frames, which the encode thread empties. The JPEG element and the clock
  are not part of the repository: what they answer is an argument. Descriptors that are destroyed are outputs.
\<close>

section \<open>Trimming\<close>

text \<open>The loop over \<open>offset\<close>: \<open>n\<close> is how often it still runs. The frame is cut after the last end-of-image marker among
  its last 1024 bytes.\<close>

fun trim_loop :: "bytes \<Rightarrow> nat \<Rightarrow> nat \<Rightarrow> nat" where
  "trim_loop d offset 0 = length d"
| "trim_loop d offset (Suc n) =
     (let index = length d - 2 - offset
      in if d ! index = 0xff \<and> d ! (index + 1) = 0xd9 then index + 2 else trim_loop d (offset + 1) n)"

definition trimToJpegEoi :: "bytes \<Rightarrow> nat" where
  "trimToJpegEoi d = (if length d < 2 then length d else trim_loop d 0 (min (length d) 1024 - 1))"

section \<open>State\<close>

record DecoderConfig =
  dc_width :: u32
  dc_height :: u32
  dc_output_plane_buffers :: u32
  dc_capture_plane_buffers :: u32
  max_mjpeg_size_bytes :: u32
  decode_surface_layout :: int

record DecodedFrame =
  yuv_dmabuf_fd :: int
  df_frame_id :: u64
  capture_timestamp_us :: u64
  capture_steady_us :: u64
  df_decode_us :: u64
  df_cap_buf_index :: nat
  decode_pool_fd :: int

datatype SubmitStatus =
  kQueued | kStopped | kInvalidInput | kFrameTooLarge | kDecodedQueueFull | kNoDecodeBuffer | kDecodeFailed | kInvalidDecodedOutput

record VideoDecoder =
  dec_config :: DecoderConfig
  jpeg_decoder :: bool
  dec_pool :: OutputPool
  decoded_queue :: "DecodedFrame list"
  dec_stop :: bool
  dec_shutting_down :: bool

definition VideoDecoder_init :: "DecoderConfig \<Rightarrow> VideoDecoder" where
  "VideoDecoder_init c = \<lparr>dec_config = c, jpeg_decoder = False, dec_pool = OutputPool_empty, decoded_queue = [],
     dec_stop = False, dec_shutting_down = False\<rparr>"

definition destroyDecodeBuffers :: "VideoDecoder \<Rightarrow> VideoDecoder" where
  "destroyDecodeBuffers d = d\<lparr>dec_pool := OutputPool_empty\<rparr>"

definition pool_size :: "DecoderConfig \<Rightarrow> nat" where
  "pool_size c = unat (max 1 (dc_capture_plane_buffers c))"

definition allocateDecodeBuffers :: "(nat \<Rightarrow> int option) \<Rightarrow> VideoDecoder \<Rightarrow> bool \<times> VideoDecoder" where
  "allocateDecodeBuffers mk d =
     (let d1 = destroyDecodeBuffers d; n = pool_size (dec_config d);
          (created, p) = create_surfaces mk [0..<n] ((dec_pool d1)\<lparr>surfaces := replicate n False, dmabuf_fds := replicate n (- 1)\<rparr>);
          d2 = d1\<lparr>dec_pool := p\<rparr>
      in if \<not> created then (False, destroyDecodeBuffers d2) else (True, d2))"

definition decoder_initialize :: "bool \<Rightarrow> (nat \<Rightarrow> int option) \<Rightarrow> DecoderConfig \<Rightarrow> VideoDecoder \<Rightarrow> bool \<times> VideoDecoder" where
  "decoder_initialize created mk c d =
     (let d1 = d\<lparr>dec_config := c, dec_stop := False, dec_shutting_down := False, jpeg_decoder := created\<rparr>
      in if \<not> created then (False, d1)
         else (case allocateDecodeBuffers mk d1 of
                 (ok, d2) \<Rightarrow> if \<not> ok then (False, d2\<lparr>jpeg_decoder := False\<rparr>) else (True, d2)))"

section \<open>Frames\<close>

text \<open>A descriptor of the pool that is negative is not handed out, and its index does not go back.\<close>

definition acquireDecodeBuffer :: "VideoDecoder \<Rightarrow> (nat \<times> int) option \<times> VideoDecoder" where
  "acquireDecodeBuffer d =
     (case free_indices (dec_pool d) of
        [] \<Rightarrow> (None, d)
      | index # rest \<Rightarrow>
          (let fd = dmabuf_fds (dec_pool d) ! index
           in (if 0 \<le> fd then Some (index, fd) else None, d\<lparr>dec_pool := (dec_pool d)\<lparr>free_indices := rest\<rparr>\<rparr>)))"

definition releaseDecodeBuffer :: "nat \<Rightarrow> VideoDecoder \<Rightarrow> VideoDecoder" where
  "releaseDecodeBuffer index d =
     (if index < length (dmabuf_fds (dec_pool d)) then d\<lparr>dec_pool := pool_give_back index (dec_pool d)\<rparr> else d)"

definition destroyDecodedFd :: "int \<Rightarrow> int list" where
  "destroyDecodedFd fd = (if 0 < fd then [fd] else [])"

definition decoder_shutdown :: "VideoDecoder \<Rightarrow> VideoDecoder" where
  "decoder_shutdown d = d\<lparr>dec_shutting_down := True, dec_stop := True\<rparr>"

text \<open>What happens while a frame is decoded: \<open>da_decoded\<close> is the descriptor the element writes to, given the length of
  the trimmed frame, or \<open>None\<close> when it fails; \<open>da_shutdown\<close>: the decoder is shut down meanwhile.\<close>

record decode_answer =
  da_decoded :: "nat \<Rightarrow> int \<Rightarrow> int option"
  da_decode_us :: u64
  da_shutdown :: bool

text \<open>\<open>None\<close> is the null pointer. The destroyed descriptors come second.\<close>

definition submitDetailed :: "decode_answer \<Rightarrow> bytes option \<Rightarrow> u64 \<Rightarrow> u64 \<Rightarrow> u64 \<Rightarrow> VideoDecoder
    \<Rightarrow> SubmitStatus \<times> int list \<times> VideoDecoder" where
  "submitDetailed a data frame_id timestamp_us steady_us d =
     (if \<not> jpeg_decoder d \<or> data = None \<or> length (the data) = 0 \<or> dec_stop d
      then (if dec_stop d \<or> \<not> jpeg_decoder d then (kStopped, [], d) else (kInvalidInput, [], d))
      else if unat (max_mjpeg_size_bytes (dec_config d)) < length (the data) then (kFrameTooLarge, [], d)
      else (let max_queue = pool_size (dec_config d)
            in if max_queue \<le> length (decoded_queue d) then (kDecodedQueueFull, [], d)
               else (case acquireDecodeBuffer d of
                       (None, d1) \<Rightarrow> (kNoDecodeBuffer, [], d1)
                     | (Some (decode_index, decode_fd), d1) \<Rightarrow>
                         (let jpeg_size = trimToJpegEoi (the data); d2 = (if da_shutdown a then decoder_shutdown d1 else d1)
                          in (case da_decoded a jpeg_size decode_fd of
                                None \<Rightarrow> (kDecodeFailed, [], releaseDecodeBuffer decode_index d2)
                              | Some fd \<Rightarrow>
                                  if fd < 0 then (kInvalidDecodedOutput, [], releaseDecodeBuffer decode_index d2)
                                  else if max_queue \<le> length (decoded_queue d2) \<or> dec_stop d2
                                  then (if dec_stop d2 then kStopped else kDecodedQueueFull,
                                        if fd \<noteq> decode_fd then destroyDecodedFd fd else [], releaseDecodeBuffer decode_index d2)
                                  else (kQueued, [], d2\<lparr>decoded_queue := decoded_queue d2 @
                                          [\<lparr>yuv_dmabuf_fd = fd, df_frame_id = frame_id, capture_timestamp_us = timestamp_us,
                                            capture_steady_us = steady_us, df_decode_us = da_decode_us a,
                                            df_cap_buf_index = decode_index, decode_pool_fd = decode_fd\<rparr>]\<rparr>))))))"

definition dec_submit :: "decode_answer \<Rightarrow> bytes option \<Rightarrow> u64 \<Rightarrow> u64 \<Rightarrow> u64 \<Rightarrow> VideoDecoder \<Rightarrow> bool \<times> VideoDecoder" where
  "dec_submit a data frame_id timestamp_us steady_us d =
     (case submitDetailed a data frame_id timestamp_us steady_us d of (status, _, d1) \<Rightarrow> (status = kQueued, d1))"

text \<open>The wait ends with a frame, with \<open>stop\<close>, or after the time; a frame is taken in the first case, and in the second
  when there is one.\<close>

definition dequeueSync :: "VideoDecoder \<Rightarrow> DecodedFrame option \<times> VideoDecoder" where
  "dequeueSync d = (case decoded_queue d of [] \<Rightarrow> (None, d) | frame # rest \<Rightarrow> (Some frame, d\<lparr>decoded_queue := rest\<rparr>))"

definition foreign_fd :: "VideoDecoder \<Rightarrow> DecodedFrame \<Rightarrow> int list" where
  "foreign_fd d frame =
     (if \<not> dec_shutting_down d \<and> 0 \<le> yuv_dmabuf_fd frame \<and> yuv_dmabuf_fd frame \<noteq> decode_pool_fd frame
      then destroyDecodedFd (yuv_dmabuf_fd frame) else [])"

text \<open>The frame itself is forgotten.\<close>

definition requeueCapture :: "DecodedFrame \<Rightarrow> VideoDecoder \<Rightarrow> int list \<times> DecodedFrame \<times> VideoDecoder" where
  "requeueCapture frame d =
     (foreign_fd d frame, frame\<lparr>yuv_dmabuf_fd := - 1, decode_pool_fd := - 1\<rparr>,
      if 0 \<le> decode_pool_fd frame then releaseDecodeBuffer (df_cap_buf_index frame) d else d)"

fun clear_loop :: "DecodedFrame list \<Rightarrow> VideoDecoder \<Rightarrow> int list \<times> VideoDecoder" where
  "clear_loop [] d = ([], d)"
| "clear_loop (frame # frames) d =
     (let d1 = d\<lparr>decoded_queue := frames\<rparr>;
          (out, d2) = clear_loop frames (if 0 \<le> decode_pool_fd frame then releaseDecodeBuffer (df_cap_buf_index frame) d1 else d1)
      in (foreign_fd d1 frame @ out, d2))"

definition clearQueue :: "VideoDecoder \<Rightarrow> int list \<times> VideoDecoder" where
  "clearQueue d = clear_loop (decoded_queue d) d"

definition decoder_destroy :: "VideoDecoder \<Rightarrow> int list \<times> VideoDecoder" where
  "decoder_destroy d = (case clearQueue (decoder_shutdown d) of (out, d1) \<Rightarrow> (out, destroyDecodeBuffers (d1\<lparr>jpeg_decoder := False\<rparr>)))"

section \<open>The pool of the decoder\<close>

definition all_indices :: "VideoDecoder \<Rightarrow> nat list" where
  "all_indices d = [0..<length (dmabuf_fds (dec_pool d))]"

interpretation decoder: token_pool "\<lambda>d. pool_wf (dec_pool d)" "\<lambda>d. free_indices (dec_pool d)" all_indices
  "\<lambda>(_::unit) d. map_prod (map_option fst) id (acquireDecodeBuffer d)" releaseDecodeBuffer
proof unfold_locales
  show "distinct (all_indices d)" for d by (simp add: all_indices_def)
next
  fix p :: VideoDecoder and a :: unit and r p'
  assume wf: "pool_wf (dec_pool p)" and e: "map_prod (map_option fst) id (acquireDecodeBuffer p) = (r, p')"
  show "pool_wf (dec_pool p') \<and> all_indices p' = all_indices p \<and>
    (case r of None \<Rightarrow> mset (free_indices (dec_pool p')) = mset (free_indices (dec_pool p))
     | Some k \<Rightarrow> mset (free_indices (dec_pool p)) = add_mset k (mset (free_indices (dec_pool p'))))"
  proof (cases "free_indices (dec_pool p)")
    case Nil
    then show ?thesis using wf e by (auto simp: acquireDecodeBuffer_def)
  next
    case (Cons i rest)
    then have "0 \<le> dmabuf_fds (dec_pool p) ! i" using wf by (simp add: pool_wf_def)
    then show ?thesis using e pool_wf_take [OF wf Cons] Cons
      by (auto simp: acquireDecodeBuffer_def all_indices_def Let_def)
  qed
next
  fix p :: VideoDecoder and k
  assume "pool_wf (dec_pool p)" "k \<in> set (all_indices p)" "k \<notin> set (free_indices (dec_pool p))"
  then show "pool_wf (dec_pool (releaseDecodeBuffer k p)) \<and> all_indices (releaseDecodeBuffer k p) = all_indices p
    \<and> mset (free_indices (dec_pool (releaseDecodeBuffer k p))) = add_mset k (mset (free_indices (dec_pool p)))"
    using pool_wf_give_back [of "dec_pool p" k] by (simp add: all_indices_def releaseDecodeBuffer_def pool_give_back_def)
qed

section \<open>The end of a frame\<close>

definition marker_at :: "bytes \<Rightarrow> nat \<Rightarrow> bool" where
  "marker_at d i \<longleftrightarrow> i + 1 < length d \<and> d ! i = 0xff \<and> d ! (i + 1) = 0xd9"

lemma trim_loop_found:
  assumes "n + offset + 1 \<le> length d"
  shows "(\<exists>i. length d \<le> i + 1 + offset + n \<and> i + 2 + offset \<le> length d \<and> marker_at d i \<and> trim_loop d offset n = i + 2
            \<and> (\<forall>j. i < j \<and> j + 2 + offset \<le> length d \<longrightarrow> \<not> marker_at d j))
    \<or> (\<forall>i. length d \<le> i + 1 + offset + n \<and> i + 2 + offset \<le> length d \<longrightarrow> \<not> marker_at d i) \<and> trim_loop d offset n = length d"
    (is "?found offset n \<or> ?absent offset n")
  using assms
proof (induction n arbitrary: offset)
  case 0
  then show ?case by auto
next
  case (Suc n)
  define k where "k = length d - 2 - offset"
  have k: "k + 2 + offset = length d" using Suc.prems by (simp add: k_def)
  have "marker_at d k \<longleftrightarrow> d ! k = 0xff \<and> d ! (k + 1) = 0xd9" using k by (auto simp: marker_at_def)
  then have step: "trim_loop d offset (Suc n) = (if marker_at d k then k + 2 else trim_loop d (offset + 1) n)"
    by (simp only: trim_loop.simps Let_def k_def)
  show ?case
  proof (cases "marker_at d k")
    case True
    then have "trim_loop d offset (Suc n) = k + 2" by (simp only: step if_True)
    then have "?found offset (Suc n)" using True k by (intro exI [of _ k]) auto
    then show ?thesis ..
  next
    case False
    then have e: "trim_loop d offset (Suc n) = trim_loop d (offset + 1) n" by (simp only: step if_False)
    have split: "j + 2 + offset \<le> length d \<Longrightarrow> marker_at d j \<Longrightarrow> j + 2 + (offset + 1) \<le> length d" for j
      using False k by (cases "j = k") auto
    consider "?found (offset + 1) n" | "?absent (offset + 1) n" using Suc.IH [of "offset + 1"] Suc.prems by auto
    then show ?thesis
    proof cases
      case 1
      then obtain i where i: "length d \<le> i + 1 + (offset + 1) + n" "i + 2 + (offset + 1) \<le> length d" "marker_at d i"
        "trim_loop d (offset + 1) n = i + 2" "\<forall>j. i < j \<and> j + 2 + (offset + 1) \<le> length d \<longrightarrow> \<not> marker_at d j" by blast
      then have "?found offset (Suc n)" using split unfolding e by (intro exI [of _ i]) auto
      then show ?thesis ..
    next
      case 2
      then have "?absent offset (Suc n)" using split unfolding e by auto
      then show ?thesis ..
    qed
  qed
qed

text \<open>A frame is cut right after the last end-of-image marker, if that begins among its last 1024 bytes, and else it is
  left as it is.\<close>

theorem trim_cuts_after_last_marker:
  "(\<exists>i. length d \<le> i + 1024 \<and> marker_at d i \<and> (\<forall>j. marker_at d j \<longrightarrow> j \<le> i) \<and> trimToJpegEoi d = i + 2)
   \<or> (\<forall>i. marker_at d i \<longrightarrow> i + 1024 < length d) \<and> trimToJpegEoi d = length d"
proof (cases "length d < 2")
  case True
  then show ?thesis by (auto simp: trimToJpegEoi_def marker_at_def)
next
  case False
  define n where "n = min (length d) 1024 - 1"
  have n: "n + 1 \<le> length d" "length d \<le> i + 1 + n \<longleftrightarrow> length d \<le> i + 1024" for i using False by (auto simp: n_def min_def)
  have t: "trimToJpegEoi d = trim_loop d 0 n" using False by (simp add: trimToJpegEoi_def n_def)
  have b: "i + 2 + 0 \<le> length d" if "marker_at d i" for i using that by (simp add: marker_at_def)
  have w: "length d \<le> i + 1 + 0 + n \<longleftrightarrow> length d \<le> i + 1024" for i using n(2) [of i] by simp
  have "n + 0 + 1 \<le> length d" using n(1) by simp
  from trim_loop_found [OF this] show ?thesis unfolding t w by (meson b not_le)
qed

section \<open>Every buffer in one place\<close>

text \<open>What happens to a decoder that is initialised: a frame is submitted, taken, or given back. \<open>held\<close> are the frames
  taken and not given back. The element gives out the descriptor of the pool or one of its own that is not in the pool.\<close>

inductive dec_step :: "VideoDecoder \<Rightarrow> DecodedFrame list \<Rightarrow> VideoDecoder \<Rightarrow> DecodedFrame list \<Rightarrow> bool" where
  submit: "submitDetailed a data frame_id timestamp_us steady_us d = (status, out, d') \<Longrightarrow> dec_step d held d' held"
| take_frame: "dequeueSync d = (Some frame, d') \<Longrightarrow> dec_step d held d' (frame # held)"
| give_back: "frame \<in> set held \<Longrightarrow> requeueCapture frame d = (out, frame', d') \<Longrightarrow> dec_step d held d' (remove1 frame held)"
| shut_down: "dec_step d held (decoder_shutdown d) held"

inductive dec_run :: "VideoDecoder \<Rightarrow> DecodedFrame list \<Rightarrow> VideoDecoder \<Rightarrow> DecodedFrame list \<Rightarrow> bool" where
  start: "dec_run d held d held"
| next_step: "dec_run d held d1 held1 \<Longrightarrow> dec_step d1 held1 d2 held2 \<Longrightarrow> dec_run d held d2 held2"

text \<open>Frames know the buffer they occupy.\<close>

definition frame_ok :: "VideoDecoder \<Rightarrow> DecodedFrame \<Rightarrow> bool" where
  "frame_ok d f \<longleftrightarrow> df_cap_buf_index f < length (dmabuf_fds (dec_pool d))
     \<and> decode_pool_fd f = dmabuf_fds (dec_pool d) ! df_cap_buf_index f
     \<and> 0 \<le> dmabuf_fds (dec_pool d) ! df_cap_buf_index f \<and> 0 \<le> yuv_dmabuf_fd f"

definition buffers_used :: "VideoDecoder \<Rightarrow> DecodedFrame list \<Rightarrow> nat multiset" where
  "buffers_used d held = mset (map df_cap_buf_index (decoded_queue d @ held))"

definition dec_wf :: "VideoDecoder \<Rightarrow> DecodedFrame list \<Rightarrow> bool" where
  "dec_wf d held \<longleftrightarrow> decoder.owned d (buffers_used d held) \<and> (\<forall>f\<in>set (decoded_queue d @ held). frame_ok d f)
     \<and> length (decoded_queue d) \<le> pool_size (dec_config d)"

lemma decoder_owned_pool: "dec_pool d' = dec_pool d \<Longrightarrow> decoder.owned d' h = decoder.owned d h"
  by (simp add: decoder.owned_def all_indices_def)

lemma acquire_buffer:
  assumes "decoder.owned d h" "acquireDecodeBuffer d = (Some (i, fd), d1)"
  shows "decoder.owned d1 (add_mset i h) \<and> fd = dmabuf_fds (dec_pool d) ! i \<and> 0 \<le> fd \<and> i < length (dmabuf_fds (dec_pool d))
    \<and> dmabuf_fds (dec_pool d1) = dmabuf_fds (dec_pool d) \<and> decoded_queue d1 = decoded_queue d
    \<and> dec_config d1 = dec_config d"
proof -
  have "map_prod (map_option fst) id (acquireDecodeBuffer d) = (Some i, d1)" using assms(2) by simp
  from decoder.owned_acquire [OF assms(1) this] have o1: "decoder.owned d1 (add_mset i h)" by simp
  obtain rest where f: "free_indices (dec_pool d) = i # rest" and e: "fd = dmabuf_fds (dec_pool d) ! i" "0 \<le> fd"
    "d1 = d\<lparr>dec_pool := (dec_pool d)\<lparr>free_indices := rest\<rparr>\<rparr>"
    using assms(2) by (auto simp: acquireDecodeBuffer_def Let_def split: list.splits if_splits)
  have "pool_wf (dec_pool d)" using assms(1) by (simp add: decoder.owned_def)
  then show ?thesis using o1 e f by (auto simp: pool_wf_def)
qed

lemma acquire_refused:
  assumes "decoder.owned d h" "acquireDecodeBuffer d = (None, d1)"
  shows "decoder.owned d1 h \<and> dmabuf_fds (dec_pool d1) = dmabuf_fds (dec_pool d) \<and> decoded_queue d1 = decoded_queue d
    \<and> dec_config d1 = dec_config d"
proof -
  have "map_prod (map_option fst) id (acquireDecodeBuffer d) = (None, d1)" using assms(2) by simp
  from decoder.owned_refused [OF assms(1) this] have o1: "decoder.owned d1 h" by simp
  show ?thesis using assms(2) o1 by (auto simp: acquireDecodeBuffer_def Let_def split: list.splits if_splits)
qed

lemma release_buffer:
  assumes "decoder.owned d (add_mset i h)"
  shows "decoder.owned (releaseDecodeBuffer i d) h \<and> dmabuf_fds (dec_pool (releaseDecodeBuffer i d)) = dmabuf_fds (dec_pool d)
    \<and> decoded_queue (releaseDecodeBuffer i d) = decoded_queue d \<and> dec_config (releaseDecodeBuffer i d) = dec_config d"
  using decoder.owned_release [OF assms] by (simp add: releaseDecodeBuffer_def pool_give_back_def)

lemma dec_wf_same:
  "dec_wf d held \<Longrightarrow> decoder.owned d' (buffers_used d held) \<Longrightarrow> dmabuf_fds (dec_pool d') = dmabuf_fds (dec_pool d)
     \<Longrightarrow> decoded_queue d' = decoded_queue d \<Longrightarrow> dec_config d' = dec_config d \<Longrightarrow> dec_wf d' held"
  by (simp add: dec_wf_def buffers_used_def frame_ok_def)

lemma decode_wf:
  assumes wf: "dec_wf d held" and s: "submitDetailed a data frame_id timestamp_us steady_us d = (status, out, d')"
  shows "dec_wf d' held"
proof -
  let ?invalid = "\<not> jpeg_decoder d \<or> data = None \<or> length (the data) = 0 \<or> dec_stop d"
  let ?large = "unat (max_mjpeg_size_bytes (dec_config d)) < length (the data)"
  let ?full = "pool_size (dec_config d) \<le> length (decoded_queue d)"
  show ?thesis
proof (cases "?invalid \<or> ?large \<or> ?full")
  case True
  then consider ?invalid | "\<not> ?invalid" ?large | "\<not> ?invalid" "\<not> ?large" ?full by blast
  then have "snd (snd (submitDetailed a data frame_id timestamp_us steady_us d)) = d"
  proof cases
    case 1
    show ?thesis unfolding submitDetailed_def if_P [OF 1] by simp
  next
    case 2
    show ?thesis unfolding submitDetailed_def if_not_P [OF 2(1)] if_P [OF 2(2)] by simp
  next
    case 3
    show ?thesis unfolding submitDetailed_def Let_def if_not_P [OF 3(1)] if_not_P [OF 3(2)] if_P [OF 3(3)] by simp
  qed
  then have "d' = d" using s by simp
  then show ?thesis using wf by simp
next
  case False
  have ow: "decoder.owned d (buffers_used d held)" using wf by (simp add: dec_wf_def)
  obtain r d1 where acq: "acquireDecodeBuffer d = (r, d1)" by (cases "acquireDecodeBuffer d")
  have n: "\<not> ?invalid" "\<not> ?large" "\<not> ?full" using False by blast+
  note s' = s [unfolded submitDetailed_def Let_def if_not_P [OF n(1)] if_not_P [OF n(2)] if_not_P [OF n(3)] acq prod.case]
  show ?thesis
  proof (cases r)
    case None
    then have "d' = d1" using s' by simp
    then show ?thesis using acquire_refused [OF ow acq [unfolded None]] dec_wf_same [OF wf, of d1] by auto
  next
    case (Some ifd)
    obtain i fd where r: "r = Some (i, fd)" using Some by (cases ifd) simp
    note a1 = acquire_buffer [OF ow acq [unfolded r]]
    define d2 where "d2 = (if da_shutdown a then decoder_shutdown d1 else d1)"
    have d2: "decoder.owned d2 (add_mset i (buffers_used d held))" "dmabuf_fds (dec_pool d2) = dmabuf_fds (dec_pool d)"
      "decoded_queue d2 = decoded_queue d" "dec_config d2 = dec_config d"
      using a1 decoder_owned_pool [of d2 d1] by (auto simp: d2_def decoder_shutdown_def)
    have returned: "dec_wf (releaseDecodeBuffer i d2) held"
      using release_buffer [OF d2(1)] d2(2-4) dec_wf_same [OF wf, of "releaseDecodeBuffer i d2"] by simp
    define new where "new x = \<lparr>yuv_dmabuf_fd = x, df_frame_id = frame_id, capture_timestamp_us = timestamp_us, capture_steady_us = steady_us,
      df_decode_us = da_decode_us a, df_cap_buf_index = i, decode_pool_fd = fd\<rparr>" for x
    have "d' = releaseDecodeBuffer i d2 \<or> (\<exists>x\<ge>0. d' = d2\<lparr>decoded_queue := decoded_queue d2 @ [new x]\<rparr>)"
      using s' unfolding r option.case prod.case d2_def [symmetric] new_def by (auto simp: not_less split: option.splits if_splits)
    then show ?thesis
    proof
      assume "d' = releaseDecodeBuffer i d2"
      then show ?thesis using returned by simp
    next
      assume "\<exists>x\<ge>0. d' = d2\<lparr>decoded_queue := decoded_queue d2 @ [new x]\<rparr>"
      then obtain x where "0 \<le> x" and d': "d' = d2\<lparr>decoded_queue := decoded_queue d2 @ [new x]\<rparr>" by blast
      then have f: "df_cap_buf_index (new x) = i" "decode_pool_fd (new x) = fd" "0 \<le> yuv_dmabuf_fd (new x)"
        by (simp_all add: new_def)
      have "buffers_used d' held = add_mset i (buffers_used d held)" using d2(3) f(1) by (simp add: d' buffers_used_def)
      moreover have "decoder.owned d' (add_mset i (buffers_used d held))" using d2(1) decoder_owned_pool [of d' d2] by (simp add: d')
      moreover have "frame_ok d' (new x)" using f a1 d2(2) by (simp add: d' frame_ok_def)
      ultimately show ?thesis using wf d2 n(3) by (simp add: d' dec_wf_def frame_ok_def)
    qed
  qed
qed
qed

lemma take_wf:
  assumes "dec_wf d held" "dequeueSync d = (Some frame, d')"
  shows "dec_wf d' (frame # held)"
proof -
  have q: "decoded_queue d = frame # decoded_queue d'" "d' = d\<lparr>decoded_queue := decoded_queue d'\<rparr>"
    using assms(2) by (auto simp: dequeueSync_def split: list.splits)
  have "dec_pool d' = dec_pool d" "dec_config d' = dec_config d" by (subst q(2), simp)+
  moreover have "buffers_used d' (frame # held) = buffers_used d held" by (simp add: buffers_used_def q(1))
  ultimately show ?thesis using assms(1) q(1) decoder_owned_pool [of d' d] by (auto simp: dec_wf_def frame_ok_def)
qed

lemma give_back_wf:
  assumes wf: "dec_wf d held" and "frame \<in> set held" "requeueCapture frame d = (out, frame', d')"
  shows "dec_wf d' (remove1 frame held)"
proof -
  have "0 \<le> decode_pool_fd frame" using assms(1,2) by (fastforce simp: dec_wf_def frame_ok_def)
  then have d': "d' = releaseDecodeBuffer (df_cap_buf_index frame) d" using assms(3) by (auto simp: requeueCapture_def)
  have "add_mset frame (mset (remove1 frame held)) = mset held" using assms(2) by simp
  from arg_cong [OF this, of "image_mset df_cap_buf_index"]
  have "buffers_used d held = add_mset (df_cap_buf_index frame) (buffers_used d (remove1 frame held))"
    unfolding buffers_used_def map_append mset_append mset_map image_mset_add_mset by (metis union_mset_add_mset_right)
  then have "decoder.owned d (add_mset (df_cap_buf_index frame) (buffers_used d (remove1 frame held)))"
    using wf by (simp add: dec_wf_def)
  from release_buffer [OF this] have r: "decoder.owned d' (buffers_used d (remove1 frame held))"
    "dmabuf_fds (dec_pool d') = dmabuf_fds (dec_pool d)" "decoded_queue d' = decoded_queue d" "dec_config d' = dec_config d"
    by (simp_all add: d')
  moreover have "set (remove1 frame held) \<subseteq> set held" by (rule set_remove1_subset)
  ultimately show ?thesis using wf by (auto simp: dec_wf_def buffers_used_def frame_ok_def)
qed

lemma dec_run_wf: "dec_run d held d' held' \<Longrightarrow> dec_wf d held \<Longrightarrow> dec_wf d' held'"
proof (induction rule: dec_run.induct)
  case (next_step d held d1 held1 d2 held2)
  from next_step.hyps(2) show ?case
  proof cases
    case shut_down
    then show ?thesis using next_step dec_wf_same [of d1 held1 "decoder_shutdown d1"] decoder_owned_pool [of "decoder_shutdown d1" d1]
      by (auto simp: decoder_shutdown_def dec_wf_def)
  qed (use next_step decode_wf take_wf give_back_wf in \<open>blast+\<close>)
qed

lemma dec_step_same:
  "dec_step d held d' held' \<Longrightarrow> dmabuf_fds (dec_pool d') = dmabuf_fds (dec_pool d) \<and> dec_config d' = dec_config d"
  by (cases rule: dec_step.cases)
    (auto simp: submitDetailed_def acquireDecodeBuffer_def releaseDecodeBuffer_def requeueCapture_def dequeueSync_def
      decoder_shutdown_def Let_def split: if_splits option.splits list.splits prod.splits)

lemma dec_run_same:
  "dec_run d held d' held' \<Longrightarrow> dmabuf_fds (dec_pool d') = dmabuf_fds (dec_pool d) \<and> dec_config d' = dec_config d"
  by (induction rule: dec_run.induct) (auto dest: dec_step_same)

lemma decoder_initialize_wf:
  assumes "descriptors_ok mk" "decoder_initialize created mk c (VideoDecoder_init c0) = (True, d)"
  shows "dec_wf d [] \<and> length (dmabuf_fds (dec_pool d)) = pool_size c \<and> dec_config d = c"
proof -
  define p0 where "p0 = OutputPool_empty\<lparr>surfaces := replicate (pool_size c) False, dmabuf_fds := replicate (pool_size c) (- 1)\<rparr>"
  obtain p where p: "create_surfaces mk [0..<pool_size c] p0 = (True, p)" "dec_pool d = p" "decoded_queue d = []" "dec_config d = c"
    using assms(2) by (auto simp: decoder_initialize_def allocateDecodeBuffers_def destroyDecodeBuffers_def VideoDecoder_init_def
        Let_def p0_def [symmetric] split: prod.splits if_splits)
  have "pool_wf p \<and> free_indices p = [0..<pool_size c] \<and> length (dmabuf_fds p) = pool_size c"
    by (rule create_surfaces_wf [OF assms(1) p(1)]) (simp_all add: p0_def OutputPool_empty_def)
  then show ?thesis using p by (simp add: dec_wf_def buffers_used_def decoder.owned_def conserved_free all_indices_def)
qed

text \<open>From the initialisation of the decoder on, every buffer of its pool is free, or occupied by exactly one
  frame that waits or was taken and not given back, and at most as many frames wait as there are buffers.\<close>

theorem decoder_buffers_conserved:
  assumes "descriptors_ok mk" "decoder_initialize created mk c (VideoDecoder_init c0) = (True, d)" "dec_run d [] d' held"
  shows "mset (free_indices (dec_pool d')) + mset (map df_cap_buf_index (decoded_queue d' @ held)) = mset [0..<pool_size c]
    \<and> length (decoded_queue d') \<le> pool_size c
    \<and> (\<forall>f\<in>set (decoded_queue d' @ held). decode_pool_fd f = dmabuf_fds (dec_pool d') ! df_cap_buf_index f)"
proof -
  note i = decoder_initialize_wf [OF assms(1,2)]
  have wf: "dec_wf d' held" using dec_run_wf [OF assms(3)] i by blast
  have n: "length (dmabuf_fds (dec_pool d')) = pool_size c" "dec_config d' = c" using i dec_run_same [OF assms(3)] by simp_all
  have "mset (free_indices (dec_pool d')) + buffers_used d' held = mset (all_indices d')"
    using wf by (simp only: dec_wf_def decoder.owned_def conserved_def)
  moreover have "\<forall>f\<in>set (decoded_queue d' @ held). decode_pool_fd f = dmabuf_fds (dec_pool d') ! df_cap_buf_index f"
    "length (decoded_queue d') \<le> pool_size c" using wf unfolding dec_wf_def frame_ok_def n by blast+
  ultimately show ?thesis unfolding buffers_used_def all_indices_def n by blast
qed

text \<open>One buffer: a frame is decoded, taken, and the next one is refused until the buffer is given back.\<close>

definition dec_config0 :: DecoderConfig where
  "dec_config0 = \<lparr>dc_width = 4, dc_height = 2, dc_output_plane_buffers = 1, dc_capture_plane_buffers = 1,
     max_mjpeg_size_bytes = 10, decode_surface_layout = 0\<rparr>"

definition decoder0 :: VideoDecoder where
  "decoder0 = snd (decoder_initialize True (\<lambda>i. Some (int i + 5)) dec_config0 (VideoDecoder_init dec_config0))"

definition decode_answer0 :: decode_answer where
  "decode_answer0 = \<lparr>da_decoded = (\<lambda>n fd. Some fd), da_decode_us = 3, da_shutdown = False\<rparr>"

definition frame0 :: DecodedFrame where
  "frame0 = \<lparr>yuv_dmabuf_fd = 5, df_frame_id = 1, capture_timestamp_us = 2, capture_steady_us = 2, df_decode_us = 3,
     df_cap_buf_index = 0, decode_pool_fd = 5\<rparr>"

lemma decoder0_eq:
  "decoder0 = \<lparr>dec_config = dec_config0, jpeg_decoder = True, dec_pool = \<lparr>surfaces = [True], dmabuf_fds = [5],
     free_indices = [0], fd_to_index = [5 \<mapsto> 0]\<rparr>, decoded_queue = [], dec_stop = False, dec_shutting_down = False\<rparr>"
  by (simp add: decoder0_def decoder_initialize_def allocateDecodeBuffers_def destroyDecodeBuffers_def VideoDecoder_init_def
      OutputPool_empty_def pool_size_def dec_config0_def emplace_def)

theorem decoder_buffers_conserved_witness:
  "mset (free_indices (dec_pool (decoder0\<lparr>dec_pool := (dec_pool decoder0)\<lparr>free_indices := []\<rparr>\<rparr>)))
     + mset (map df_cap_buf_index [frame0]) = mset [0..<pool_size dec_config0]"
proof -
  define d1 where "d1 = decoder0\<lparr>dec_pool := (dec_pool decoder0)\<lparr>free_indices := []\<rparr>, decoded_queue := [frame0]\<rparr>"
  define d2 where "d2 = decoder0\<lparr>dec_pool := (dec_pool decoder0)\<lparr>free_indices := []\<rparr>\<rparr>"
  have "submitDetailed decode_answer0 (Some [0xff, 0xd9, 0]) 1 2 2 decoder0 = (kQueued, [], d1)"
    by (simp add: d1_def decoder0_eq submitDetailed_def decode_answer0_def dec_config0_def pool_size_def acquireDecodeBuffer_def frame0_def)
  then have "dec_step decoder0 [] d1 []" by (rule dec_step.submit)
  moreover have "dequeueSync d1 = (Some frame0, d2)" by (simp add: d1_def d2_def dequeueSync_def decoder0_eq)
  then have "dec_step d1 [] d2 [frame0]" by (rule dec_step.take_frame)
  ultimately have run: "dec_run decoder0 [] d2 [frame0]" by (meson dec_run.intros)
  have init: "decoder_initialize True (\<lambda>i. Some (int i + 5)) dec_config0 (VideoDecoder_init dec_config0) = (True, decoder0)"
    by (simp add: decoder0_def decoder_initialize_def allocateDecodeBuffers_def destroyDecodeBuffers_def VideoDecoder_init_def
      OutputPool_empty_def pool_size_def dec_config0_def emplace_def)
  have "descriptors_ok (\<lambda>i. Some (int i + 5))" by (simp add: descriptors_ok_def)
  from decoder_buffers_conserved [OF this init run] show ?thesis by (simp add: d2_def decoder0_eq)
qed

end
