(* ===== verification/StreamConfig.thy ===== *)
theory StreamConfig
  imports VideoEncoder VideoUndistorter VideoDecoder
begin

text \<open>
  The configuration of the video pipeline: the first half of \<open>VideoStreamManager::Impl::start\<close> in
  \<open>src/src/video/video_stream_manager.cpp\<close>, which reads the ROS parameters into the members that configure the
  camera, the decoder, the converter or undistorter, the encoder, the recorder and the images of the eyes.
\<close>

section \<open>What is configured\<close>

datatype PixelFormat = MJPEG | YUYV | OtherFormat u32
datatype MemoryMode = kMmap | kDmaBuf

record CaptureConfig =
  device_path :: string
  cap_width :: u32
  cap_height :: u32
  cap_framerate :: u32
  pixel_format :: PixelFormat
  buffer_count :: u32
  memory_mode :: MemoryMode

definition CaptureConfig_default :: CaptureConfig where
  "CaptureConfig_default = \<lparr>device_path = ''/dev/video0'', cap_width = 3840, cap_height = 1520, cap_framerate = 30,
     pixel_format = MJPEG, buffer_count = 8, memory_mode = kMmap\<rparr>"

record RecorderConfig =
  rec_enabled :: bool
  rec_output_dir :: string

record EyeConfig =
  eye_image_enabled :: bool
  eye_image_output_width :: int
  eye_image_output_height :: int
  eye_image_max_fps :: int
  eye_image_min_interval_us :: int
  eye_image_left_topic :: string
  eye_image_right_topic :: string

record StreamConfig =
  capturer_config :: CaptureConfig
  decoder_config :: DecoderConfig
  converter_config :: ConverterConfig
  undistorter_config :: UndistorterConfig
  undistort_enabled :: bool
  yuyv_direct_enabled :: bool
  encoder_config :: EncoderConfig
  recorder_config :: RecorderConfig
  frame_width :: u32
  frame_height :: u32
  frame_rate :: u32
  v4l2_warmup_drop_frames :: int
  eye_config :: EyeConfig
  warmup_duration_ms :: int
  restart_on_bad_frames :: bool
  consecutive_bad_frame_threshold :: int
  restart_backoff_ms :: int

definition EncoderConfig_default :: EncoderConfig where
  "EncoderConfig_default = \<lparr>ec_codec = kH264, ec_width = 0, ec_height = 0, ec_framerate = 0, ec_bitrate = 0,
     input_format = kNv12, idr_interval = 30, idr_interval_gops = 30, slice_intra_refresh_interval_slices = 0,
     force_idr_every_n = 0, qp_range_i_min = 10, qp_range_i_max = 40, qp_range_p_min = 10, qp_range_p_max = 40,
     max_perf_mode = False, hw_preset_type = - 1, rate_control_mode = - 1, peak_bitrate = 0, virtual_buffer_size = 0,
     num_reference_frames = - 1, num_b_frames = - 1, insert_sps_pps_at_idr = - 1, slice_level_encode = True, num_slices = 0,
     poc_type = - 1, insert_aud = False, output_plane_buffers = 10, capture_plane_buffers = 10, encoder_framerate_override = 0\<rparr>"

definition StreamConfig_init :: StreamConfig where
  "StreamConfig_init = \<lparr>capturer_config = CaptureConfig_default,
     decoder_config = \<lparr>dc_width = 3840, dc_height = 1520, dc_output_plane_buffers = 6, dc_capture_plane_buffers = 12,
                       max_mjpeg_size_bytes = 4 * 1024 * 1024, decode_surface_layout = 0\<rparr>,
     converter_config = \<lparr>cc_width = 3840, cc_height = 1520, input_width = 0, input_height = 0, cc_buffer_pool_size = 4\<rparr>,
     undistorter_config = \<lparr>uc_width = 5120, uc_height = 1440, uc_buffer_pool_size = 4, uc_calibration_file = [], uc_profile = [],
                           uc_require_calibration = True\<rparr>,
     undistort_enabled = False, yuyv_direct_enabled = False, encoder_config = EncoderConfig_default,
     recorder_config = \<lparr>rec_enabled = False, rec_output_dir = []\<rparr>, frame_width = 0, frame_height = 0, frame_rate = 0,
     v4l2_warmup_drop_frames = 30,
     eye_config = \<lparr>eye_image_enabled = False, eye_image_output_width = 640, eye_image_output_height = 360, eye_image_max_fps = 10,
                   eye_image_min_interval_us = 100000, eye_image_left_topic = [], eye_image_right_topic = []\<rparr>,
     warmup_duration_ms = 1500, restart_on_bad_frames = True, consecutive_bad_frame_threshold = 5, restart_backoff_ms = 500\<rparr>"

section \<open>Reading the parameters\<close>

text \<open>\<open>declareOrGet<int>\<close> narrows the 64-bit parameter to an \<open>int\<close>. The names begin with \<open>video.\<close>.\<close>

definition int_param :: "params \<Rightarrow> string \<Rightarrow> int \<Rightarrow> int" where
  "int_param p name d = sint (word_of_int (declareOrGet (par_int p) (''video.'' @ name) d) :: u32)"

definition bool_param :: "params \<Rightarrow> string \<Rightarrow> bool \<Rightarrow> bool" where
  "bool_param p name d = declareOrGet (par_bool p) (''video.'' @ name) d"

definition string_param :: "params \<Rightarrow> string \<Rightarrow> string \<Rightarrow> string" where
  "string_param p name d = declareOrGet (par_string p) (''video.'' @ name) d"

definition positive_or :: "int \<Rightarrow> u32 \<Rightarrow> u32" where
  "positive_or v d = (if 0 < v then of_int v else d)"

definition read_profile :: "(string \<Rightarrow> int list option) \<Rightarrow> u32 \<times> u32 \<times> u32" where
  "read_profile par_ints =
     (let profile = declareOrGet par_ints ''video.profile'' [3840, 1520, 30]
      in if length profile = 3 \<and> 0 < profile ! 0 \<and> 0 < profile ! 1 \<and> 0 < profile ! 2
         then (of_int (profile ! 0), of_int (profile ! 1), of_int (profile ! 2)) else (3840, 1520, 30))"

definition conv_pool_size :: "params \<Rightarrow> u32" where
  "conv_pool_size p = positive_or (int_param p ''decoder.buffer_pool_size'' 12) 12"

definition read_capture_config :: "params \<Rightarrow> u32 \<times> u32 \<times> u32 \<Rightarrow> CaptureConfig" where
  "read_capture_config p profile =
     (case profile of (width, height, framerate) \<Rightarrow>
       (let c = CaptureConfig_default\<lparr>cap_width := width, cap_height := height, cap_framerate := framerate,
                  device_path := string_param p ''device'' ''/dev/video0'',
                  buffer_count := positive_or (int_param p ''v4l2.buffer_count'' 8) 8\<rparr>;
            fmt = map tolower (string_param p ''pixel_format'' ''mjpeg'')
        in if fmt = ''mjpeg'' \<or> fmt = ''mjpg'' then c\<lparr>pixel_format := MJPEG\<rparr>
           else if fmt = ''yuyv'' \<or> fmt = ''yuy2'' then c\<lparr>pixel_format := YUYV, memory_mode := kDmaBuf\<rparr>
           else c\<lparr>pixel_format := MJPEG\<rparr>))"

definition read_decoder_config :: "params \<Rightarrow> u32 \<Rightarrow> u32 \<Rightarrow> DecoderConfig \<Rightarrow> DecoderConfig" where
  "read_decoder_config p width height c =
     (let default_max = max (4 * 1024 * 1024) (width * height * 2); pool = conv_pool_size p
      in c\<lparr>dc_width := width, dc_height := height,
           dc_output_plane_buffers := positive_or (int_param p ''decoder.output_plane_buffers'' 6) 6,
           dc_capture_plane_buffers := positive_or (int_param p ''decoder.capture_plane_buffers'' (sint pool)) (max pool 4),
           max_mjpeg_size_bytes := positive_or (int_param p ''decoder.max_mjpeg_size_bytes'' (sint default_max)) default_max,
           decode_surface_layout := 0\<rparr>)"

definition read_converter_config :: "params \<Rightarrow> u32 \<Rightarrow> u32 \<Rightarrow> ConverterConfig \<Rightarrow> ConverterConfig" where
  "read_converter_config p width height c =
     c\<lparr>cc_width := width, cc_height := height, input_width := width, input_height := height,
       cc_buffer_pool_size := conv_pool_size p\<rparr>"

text \<open>\<open>pkg\<close>: the share directory of the package, empty when it is not found.\<close>

definition read_undistorter_config :: "params \<Rightarrow> string \<Rightarrow> u32 \<Rightarrow> u32 \<Rightarrow> UndistorterConfig \<Rightarrow> UndistorterConfig" where
  "read_undistorter_config p pkg width height c =
     (let file = string_param p ''undistort.calib_file'' []
      in c\<lparr>uc_width := width, uc_height := height, uc_buffer_pool_size := conv_pool_size p,
           uc_calibration_file := (if file \<noteq> [] \<and> hd file \<noteq> CHR ''/'' \<and> pkg \<noteq> [] then pkg @ ''/'' @ file else file),
           uc_profile := string_param p ''undistort.profile'' [],
           uc_require_calibration := bool_param p ''undistort.require_calibration'' True\<rparr>)"

definition read_codec :: "params \<Rightarrow> Codec" where
  "read_codec p =
     (let s = map tolower (string_param p ''encoder.codec'' ''h264'')
      in if s = ''h265'' \<or> s = ''hevc'' then kH265 else if s = ''h264'' \<or> s = ''avc'' \<or> s = [] then kH264 else kH264)"

text \<open>The distances between key frames.\<close>

definition read_intervals :: "params \<Rightarrow> u32 \<Rightarrow> EncoderConfig \<Rightarrow> EncoderConfig" where
  "read_intervals p framerate c =
     (let c1 = c\<lparr>ec_bitrate := of_int (max 1 (int_param p ''encoder.bitrate'' 40000000)),
                idr_interval := of_int (max 1 (int_param p ''encoder.i_frame_interval'' 30)),
                idr_interval_gops :=
                  of_int (max 1 (int_param p ''encoder.idr_interval_gops'' (int_param p ''encoder.idr_interval'' 1))),
                force_idr_every_n := of_int (max 0 (int_param p ''encoder.force_idr_every_n'' 0)),
                slice_intra_refresh_interval_slices :=
                  (if bool_param p ''encoder.intra_refresh.enabled'' False
                   then of_int (max 1 (int_param p ''encoder.intra_refresh.interval_slices'' 0)) else 0)\<rparr>;
          sec = int_param p ''encoder.low_freq_idr.interval_sec'' 2
      in if bool_param p ''encoder.low_freq_idr.enabled'' False \<and> 0 < sec
         then (let frames = ucast (max 1 (of_int sec * ucast framerate :: u64))
               in c1\<lparr>idr_interval := frames, idr_interval_gops := frames\<rparr>)
         else c1)"

text \<open>\<open>v4l2\<close>: the numbers behind the names of the V4L2 headers.\<close>

definition read_rate_control :: "(string \<Rightarrow> int) \<Rightarrow> params \<Rightarrow> EncoderConfig \<Rightarrow> EncoderConfig" where
  "read_rate_control v4l2 p c =
     (let rc = map tolower (string_param p ''encoder.rate_control'' ''vbr'');
          preset = map tolower (string_param p ''encoder.hw_preset'' ''fast'')
      in c\<lparr>max_perf_mode := bool_param p ''encoder.max_perf_mode'' False,
           rate_control_mode := (if rc = ''cbr'' then v4l2 ''V4L2_MPEG_VIDEO_BITRATE_MODE_CBR'' else v4l2 ''V4L2_MPEG_VIDEO_BITRATE_MODE_VBR''),
           peak_bitrate := of_int (max 1 (int_param p ''encoder.peak_bitrate'' 100000000)),
           virtual_buffer_size := of_int (max 1 (int_param p ''encoder.virtual_buffer_size'' 50000000)),
           hw_preset_type := (if preset = ''ultrafast'' then v4l2 ''V4L2_ENC_HW_PRESET_ULTRAFAST''
                              else if preset = ''medium'' then v4l2 ''V4L2_ENC_HW_PRESET_MEDIUM''
                              else if preset = ''slow'' then v4l2 ''V4L2_ENC_HW_PRESET_SLOW''
                              else v4l2 ''V4L2_ENC_HW_PRESET_FAST''),
           num_reference_frames := max 0 (int_param p ''encoder.num_reference_frames'' 1),
           num_b_frames := max 0 (int_param p ''encoder.num_b_frames'' 0),
           insert_sps_pps_at_idr := (if bool_param p ''encoder.insert_sps_pps_at_idr'' True then 1 else 0)\<rparr>)"

definition read_slices :: "params \<Rightarrow> EncoderConfig \<Rightarrow> EncoderConfig" where
  "read_slices p c =
     (let u0 = (\<lambda>name. of_int (max 0 (int_param p name 0)) :: u32)
      in c\<lparr>slice_level_encode := bool_param p ''encoder.slice_level_encode'' False,
           num_slices := of_int (max 1 (int_param p ''encoder.num_slices'' 1)),
           poc_type := int_param p ''encoder.poc_type'' (- 1),
           insert_aud := bool_param p ''encoder.insert_aud'' False,
           encoder_framerate_override := u0 ''encoder.framerate_override'',
           output_plane_buffers := of_int (max 1 (int_param p ''encoder.output_plane_buffers'' 2)),
           capture_plane_buffers := of_int (max 1 (int_param p ''encoder.capture_plane_buffers'' 2)),
           qp_range_i_min := u0 ''encoder.qp_range.i_min'', qp_range_i_max := u0 ''encoder.qp_range.i_max'',
           qp_range_p_min := u0 ''encoder.qp_range.p_min'', qp_range_p_max := u0 ''encoder.qp_range.p_max''\<rparr>)"

definition read_encoder_config :: "(string \<Rightarrow> int) \<Rightarrow> params \<Rightarrow> u32 \<Rightarrow> u32 \<Rightarrow> u32 \<Rightarrow> EncoderConfig \<Rightarrow> EncoderConfig" where
  "read_encoder_config v4l2 p width height framerate c =
     read_slices p (read_rate_control v4l2 p (read_intervals p framerate
       (c\<lparr>input_format := kNv12, ec_width := width, ec_height := height, ec_framerate := framerate, ec_codec := read_codec p\<rparr>)))"

text \<open>The division of the interval truncates; both numbers are positive.\<close>

definition read_eye_config :: "params \<Rightarrow> EyeConfig \<Rightarrow> EyeConfig" where
  "read_eye_config p c =
     (let enabled = bool_param p ''eye_image.enabled'' False;
          fps = max 0 (int_param p ''eye_image.max_fps'' 10)
      in if \<not> enabled then c\<lparr>eye_image_enabled := False\<rparr>
         else c\<lparr>eye_image_enabled := True,
                eye_image_output_width := int_param p ''eye_image.output_width'' 640,
                eye_image_output_height := int_param p ''eye_image.output_height'' 360,
                eye_image_max_fps := fps,
                eye_image_min_interval_us := (if 0 < fps then 1000000 div max 1 fps else 0),
                eye_image_left_topic := string_param p ''eye_image.left_topic'' ''data/left_eye_image'',
                eye_image_right_topic := string_param p ''eye_image.right_topic'' ''data/right_eye_image''\<rparr>)"

text \<open>What follows the negotiation with the camera: \<open>width\<close> and \<open>height\<close> are the negotiated ones.\<close>

definition read_stream_config ::
  "(string \<Rightarrow> int) \<Rightarrow> params \<Rightarrow> string \<Rightarrow> u32 \<Rightarrow> u32 \<Rightarrow> u32 \<Rightarrow> StreamConfig \<Rightarrow> StreamConfig" where
  "read_stream_config v4l2 p pkg width height framerate k =
     (let undistort = bool_param p ''undistort.enabled'' False
      in k\<lparr>frame_width := width, frame_height := height, frame_rate := framerate,
           decoder_config := read_decoder_config p width height (decoder_config k),
           converter_config := read_converter_config p width height (converter_config k),
           undistort_enabled := undistort,
           undistorter_config := (if undistort then read_undistorter_config p pkg width height (undistorter_config k)
                                  else undistorter_config k),
           encoder_config := read_encoder_config v4l2 p width height framerate (encoder_config k),
           warmup_duration_ms := max 0 (int_param p ''encoder.warmup_ms'' 1500),
           recorder_config := \<lparr>rec_enabled = bool_param p ''recording.enabled'' False,
                               rec_output_dir = string_param p ''recording.output_dir'' []\<rparr>,
           eye_config := read_eye_config p (eye_config k),
           restart_on_bad_frames := bool_param p ''decoder.restart_on_bad_frames'' True,
           consecutive_bad_frame_threshold := max 1 (int_param p ''decoder.consecutive_bad_frame_threshold'' 5),
           restart_backoff_ms := max 0 (int_param p ''decoder.restart_backoff_ms'' 500)\<rparr>)"

end
