(* ===== verification/VideoRecorder.thy ===== *)
theory VideoRecorder
  imports StreamConfig
begin

text \<open>
  \<open>src/src/video/video_recorder.cpp\<close>: the recording of the encoded video. The encoder's thread queues copies of the
  packets, a thread of the recorder writes them to one file. The file system is an argument; the file is the bytes
  written to it.
\<close>

record VideoRecorder =
  rc_config :: RecorderConfig
  rc_running :: bool
  rc_queue :: "(u64 \<times> bytes \<times> bool) list"
  file_open :: bool
  output_file :: bytes

text \<open>\<open>disk\<close>: what the file holds before.\<close>

definition VideoRecorder_init :: "bytes \<Rightarrow> VideoRecorder" where
  "VideoRecorder_init disk = \<lparr>rc_config = \<lparr>rec_enabled = False, rec_output_dir = []\<rparr>, rc_running = False, rc_queue = [],
     file_open = False, output_file = disk\<rparr>"

text \<open>\<open>dir_ok\<close>: the directory could be created; \<open>open_ok\<close>: the file could be opened, which empties it.\<close>

definition rec_initialize :: "bool \<Rightarrow> bool \<Rightarrow> RecorderConfig \<Rightarrow> VideoRecorder \<Rightarrow> bool \<times> VideoRecorder" where
  "rec_initialize dir_ok open_ok c r =
     (let r1 = r\<lparr>rc_config := c\<rparr>
      in if \<not> rec_enabled c then (True, r1)
         else if \<not> dir_ok then (False, r1)
         else if \<not> open_ok then (False, r1)
         else (True, r1\<lparr>file_open := True, output_file := [], rc_running := True\<rparr>))"

definition writeFrame :: "u64 \<Rightarrow> bytes \<Rightarrow> bool \<Rightarrow> VideoRecorder \<Rightarrow> VideoRecorder" where
  "writeFrame index data keyframe r =
     (if \<not> rec_enabled (rc_config r) \<or> \<not> rc_running r then r
      else if data = [] then r
      else r\<lparr>rc_queue := (if 300 < length (rc_queue r) then tl (rc_queue r) else rc_queue r) @ [(index, data, keyframe)]\<rparr>)"

text \<open>One iteration of the thread of the recorder while it runs. \<open>written\<close>: the bytes reached the file.\<close>

definition writer_iteration :: "bool \<Rightarrow> VideoRecorder \<Rightarrow> VideoRecorder" where
  "writer_iteration written r =
     (if \<not> rc_running r then r
      else (case rc_queue r of
              [] \<Rightarrow> r
            | (index, data, keyframe) # rest \<Rightarrow>
                (let r1 = r\<lparr>rc_queue := rest\<rparr>
                 in if \<not> file_open r1 then r1 else if written then r1\<lparr>output_file := output_file r1 @ data\<rparr> else r1)))"

text \<open>The destructor ends the thread, whose loop runs only while \<open>running_\<close> is set.\<close>

definition rec_destroy :: "VideoRecorder \<Rightarrow> VideoRecorder" where
  "rec_destroy r = r\<lparr>rc_running := False, rc_queue := [], file_open := False\<rparr>"

section \<open>What is recorded\<close>

text \<open>The packets the file will hold when the thread has caught up.\<close>

definition recorded :: "VideoRecorder \<Rightarrow> bytes" where
  "recorded r = output_file r @ concat (map (fst \<circ> snd) (rc_queue r))"

lemma writer_keeps_recorded: "file_open r \<Longrightarrow> recorded (writer_iteration True r) = recorded r"
  by (auto simp: recorded_def writer_iteration_def split: list.split)

lemma writeFrame_recorded:
  "rec_enabled (rc_config r) \<Longrightarrow> rc_running r \<Longrightarrow> length (rc_queue r) \<le> 300 \<Longrightarrow> recorded (writeFrame i data key r) = recorded r @ data"
  by (simp add: recorded_def writeFrame_def)

lemma writer_queue_bounded: "length (rc_queue r) \<le> 301 \<Longrightarrow> length (rc_queue (writeFrame i data key r)) \<le> 301"
  by (auto simp: writeFrame_def)

text \<open>The packets still queued when the recorder is destroyed are not written.\<close>

lemma destroyed_recorder: "recorded (rec_destroy r) = output_file r \<and> writer_iteration w (rec_destroy r) = rec_destroy r"
  by (simp add: recorded_def rec_destroy_def writer_iteration_def)

text \<open>A recorder that is initialised on the file of another one begins with an empty file.\<close>

lemma initialized_recorder:
  "rec_initialize True True c (VideoRecorder_init disk) = (True, r) \<Longrightarrow> rec_enabled c \<Longrightarrow> recorded r = []"
  by (auto simp: rec_initialize_def VideoRecorder_init_def recorded_def)

end
