(* ===== verification/VideoStream.thy ===== *)
theory VideoStream
  imports VideoRecorder
begin

text \<open>
  \<open>src/src/video/video_stream_manager.cpp\<close>, class \<open>VideoStreamManager::Impl\<close>: the owner of the camera, the decoder, the
  converter or undistorter, the encoder and the recorder, and the threads that move frames between them. Each thread
  is a program counter, and each iteration of its loop a function; \<open>StreamFacts\<close> interleaves them. The camera, the
  publisher of eye images, the clock and the hardware answer through arguments. The members are grouped into a few
  records. A \<open>shared_ptr\<close> to a frame is the frame with its address: a reference is a copy, and when the last one
  goes the descriptor returns to the pool it came from.
\<close>

section \<open>State\<close>

datatype FrameOwner = ByUndistorter | ByConverter | ByNobody

record SharedNv12Frame =
  sf_address :: nat
  sf_fd :: int
  sf_timestamp_us :: u64
  sf_owner :: FrameOwner

record StreamCounters =
  encode_frame_in_count :: u64
  enc_frame_count :: u64
  recorded_packet_count :: u64
  stats_capture_frames :: u64
  stats_decode_frames :: u64
  stats_encode_frames :: u64
  stats_decoder_drops :: u64
  stats_encoder_submit_failures :: u64
  stats_encode_us_total :: u64
  stats_fused_decode_us_total :: u64
  eye_image_enqueued :: u64
  eye_image_skip_not_ready :: u64
  eye_image_skip_no_sub :: u64
  eye_image_skip_rate_limit :: u64
  eye_image_skip_busy :: u64
  eye_image_drop_queue :: u64
  warmup_dropped :: u64

definition StreamCounters_zero :: StreamCounters where
  "StreamCounters_zero = \<lparr>encode_frame_in_count = 0, enc_frame_count = 0, recorded_packet_count = 0, stats_capture_frames = 0,
     stats_decode_frames = 0, stats_encode_frames = 0, stats_decoder_drops = 0, stats_encoder_submit_failures = 0,
     stats_encode_us_total = 0, stats_fused_decode_us_total = 0, eye_image_enqueued = 0, eye_image_skip_not_ready = 0,
     eye_image_skip_no_sub = 0, eye_image_skip_rate_limit = 0, eye_image_skip_busy = 0, eye_image_drop_queue = 0,
     warmup_dropped = 0\<rparr>"

record EyeState =
  eye_publisher :: bool
  publisher_ready :: bool
  has_subscribers :: bool
  eye_inflight :: bool
  last_enqueue_us :: int
  nv12_queue :: "SharedNv12Frame list"

text \<open>The locals of a loop that takes frames from the camera.\<close>

record WarmupLocals =
  warmup_dropped_frames :: int
  warmup_done :: bool

datatype encode_pc = InitPostprocess | InitEncoder | InitDecoder | SpawnWorkers | DirectStart | DirectLoop WarmupLocals
  | DecodedLoop | EncodeDone

datatype capture_pc = CaptureStart | CaptureLoop WarmupLocals | CaptureDone
datatype eye_pc = EyeInit | EyeHead | EyeWait | EyeProcess SharedNv12Frame | EyeDone
datatype supervisor_pc = SupervisorWait | SupervisorBackoff | SupervisorDone

text \<open>The threads that can be joined.\<close>

record Threads =
  encode_thread :: "encode_pc option"
  capture_thread :: "capture_pc option"
  encoder_dq_thread :: bool
  eye_thread :: "eye_pc option"
  supervisor_thread :: "supervisor_pc option"

definition Threads_none :: Threads where
  "Threads_none = \<lparr>encode_thread = None, capture_thread = None, encoder_dq_thread = False, eye_thread = None, supervisor_thread = None\<rparr>"

record VideoStream =
  vs_config :: StreamConfig
  vs_stats :: StreamCounters
  vs_eye :: EyeState
  vs_threads :: Threads
  capturer :: bool
  decoder :: "VideoDecoder option"
  converter :: "VideoConverter option"
  undistorter :: "VideoUndistorter option"
  encoder :: "VideoEncoder option"
  recorder :: "VideoRecorder option"
  recording :: bytes
  warmup_deadline_us :: int
  warmup_active :: bool
  enc_start_us_by_ts :: "(u64 \<times> int) list"
  pending_frames :: "(int \<times> SharedNv12Frame) list"
  next_address :: nat
  vs_running :: bool
  pipeline_running :: bool
  bad_decode_frames :: int
  restart_requested :: bool
  restart_reason :: string
  encoded_frame_callback :: bool
  vs_sps_pps_callback :: bool
  last_bitrate_bps :: u32
  last_bitrate_update :: u64

text \<open>\<open>time_point::min()\<close> is the smallest signed number of 64 bits.\<close>

definition VideoStream_init :: VideoStream where
  "VideoStream_init = \<lparr>vs_config = StreamConfig_init, vs_stats = StreamCounters_zero,
     vs_eye = \<lparr>eye_publisher = False, publisher_ready = False, has_subscribers = False, eye_inflight = False,
              last_enqueue_us = 0, nv12_queue = []\<rparr>,
     vs_threads = Threads_none, capturer = False, decoder = None, converter = None, undistorter = None, encoder = None,
     recorder = None, recording = [], warmup_deadline_us = 0, warmup_active = False, enc_start_us_by_ts = [],
     pending_frames = [], next_address = 0, vs_running = False, pipeline_running = False, bad_decode_frames = 0,
     restart_requested = False, restart_reason = [], encoded_frame_callback = False, vs_sps_pps_callback = False,
     last_bitrate_bps = 0, last_bitrate_update = push_bit 63 1\<rparr>"

datatype stream_output =
    Delivered bytes u64 bool
  | ParameterSets bytes bytes bytes
  | EyeImages int u64
  | DestroyedFd int

section \<open>Shared frames\<close>

definition eye_references :: "VideoStream \<Rightarrow> SharedNv12Frame list" where
  "eye_references s = (case eye_thread (vs_threads s) of Some (EyeProcess f) \<Rightarrow> [f] | _ \<Rightarrow> [])"

definition references :: "VideoStream \<Rightarrow> SharedNv12Frame list" where
  "references s = map snd (pending_frames s) @ nv12_queue (vs_eye s) @ eye_references s"

text \<open>The deleter of a frame.\<close>

definition release_frame :: "SharedNv12Frame \<Rightarrow> VideoStream \<Rightarrow> VideoStream" where
  "release_frame f s =
     (if 0 \<le> sf_fd f
      then (case sf_owner f of
              ByUndistorter \<Rightarrow> s\<lparr>undistorter := map_option (undistorter_releaseFd (sf_fd f)) (undistorter s)\<rparr>
            | ByConverter \<Rightarrow> s\<lparr>converter := map_option (converter_releaseFd (sf_fd f)) (converter s)\<rparr>
            | ByNobody \<Rightarrow> s)
      else s)"

text \<open>A reference that is no longer in \<open>s\<close> goes; \<open>locals\<close> are those the running function still has.\<close>

definition drop_ref :: "SharedNv12Frame list \<Rightarrow> SharedNv12Frame \<Rightarrow> VideoStream \<Rightarrow> VideoStream" where
  "drop_ref locals f s =
     (if sf_address f \<in> sf_address ` set (references s @ locals) then s else release_frame f s)"

definition makeSharedNv12Frame :: "int \<Rightarrow> u64 \<Rightarrow> VideoStream \<Rightarrow> SharedNv12Frame \<times> VideoStream" where
  "makeSharedNv12Frame fd ts s =
     (\<lparr>sf_address = next_address s, sf_fd = fd, sf_timestamp_us = ts,
       sf_owner = (if undistorter s \<noteq> None then ByUndistorter else if converter s \<noteq> None then ByConverter else ByNobody)\<rparr>,
      s\<lparr>next_address := next_address s + 1\<rparr>)"

text \<open>Emptying the queue of the eye images.\<close>

fun drop_queue :: "SharedNv12Frame list \<Rightarrow> SharedNv12Frame list \<Rightarrow> VideoStream \<Rightarrow> VideoStream" where
  "drop_queue locals [] s = s"
| "drop_queue locals (f # fs) s = drop_queue locals fs (drop_ref locals f (s\<lparr>vs_eye := (vs_eye s)\<lparr>nv12_queue := fs\<rparr>\<rparr>))"

definition clear_nv12_queue :: "SharedNv12Frame list \<Rightarrow> VideoStream \<Rightarrow> VideoStream" where
  "clear_nv12_queue locals s = drop_queue locals (nv12_queue (vs_eye s)) s"

section \<open>Eye images\<close>

definition count_stats :: "(StreamCounters \<Rightarrow> StreamCounters) \<Rightarrow> VideoStream \<Rightarrow> VideoStream" where
  "count_stats f s = s\<lparr>vs_stats := f (vs_stats s)\<rparr>"

definition maybeEnqueueEyeImageFrame :: "int \<Rightarrow> SharedNv12Frame \<Rightarrow> VideoStream \<Rightarrow> VideoStream" where
  "maybeEnqueueEyeImageFrame now_us frame s =
     (let eye = vs_eye s; c = eye_config (vs_config s)
      in if \<not> eye_image_enabled c then s
         else if \<not> publisher_ready eye then count_stats (\<lambda>st. st\<lparr>eye_image_skip_not_ready := eye_image_skip_not_ready st + 1\<rparr>) s
         else if \<not> has_subscribers eye then count_stats (\<lambda>st. st\<lparr>eye_image_skip_no_sub := eye_image_skip_no_sub st + 1\<rparr>) s
         else if 0 < eye_image_min_interval_us c \<and> 0 < last_enqueue_us eye \<and> now_us - last_enqueue_us eye < eye_image_min_interval_us c
         then count_stats (\<lambda>st. st\<lparr>eye_image_skip_rate_limit := eye_image_skip_rate_limit st + 1\<rparr>) s
         else if eye_inflight eye then count_stats (\<lambda>st. st\<lparr>eye_image_skip_busy := eye_image_skip_busy st + 1\<rparr>) s
         else (let s1 = s\<lparr>vs_eye := eye\<lparr>eye_inflight := True\<rparr>\<rparr>; n = of_nat (length (nv12_queue eye));
                   s2 = count_stats (\<lambda>st. st\<lparr>eye_image_drop_queue := eye_image_drop_queue st + n\<rparr>) (clear_nv12_queue [frame] s1);
                   s3 = s2\<lparr>vs_eye := (vs_eye s2)\<lparr>nv12_queue := [frame], last_enqueue_us := now_us\<rparr>\<rparr>
               in count_stats (\<lambda>st. st\<lparr>eye_image_enqueued := eye_image_enqueued st + 1\<rparr>) s3))"

text \<open>\<open>subscribed\<close>: the publisher is enabled and has subscribers.\<close>

definition updateEyeImageSubscriberState :: "bool \<Rightarrow> VideoStream \<Rightarrow> VideoStream" where
  "updateEyeImageSubscriberState subscribed s = s\<lparr>vs_eye := (vs_eye s)\<lparr>has_subscribers := eye_publisher (vs_eye s) \<and> subscribed\<rparr>\<rparr>"

definition set_eye_pc :: "eye_pc \<Rightarrow> VideoStream \<Rightarrow> VideoStream" where
  "set_eye_pc pc s = s\<lparr>vs_threads := (vs_threads s)\<lparr>eye_thread := Some pc\<rparr>\<rparr>"

definition leave_eye_thread :: "VideoStream \<Rightarrow> VideoStream" where
  "leave_eye_thread s = set_eye_pc EyeDone (s\<lparr>vs_eye := (vs_eye s)\<lparr>publisher_ready := False, has_subscribers := False\<rparr>\<rparr>)"

text \<open>A step of the eye image thread: its start (\<open>init_ok\<close>: the publisher could be initialised), the head of its loop, the
  wait that ends with the newest frame, and the work on that frame (\<open>surface\<close>: the descriptor has a surface).\<close>

fun skip_to_latest :: "SharedNv12Frame list \<Rightarrow> VideoStream \<Rightarrow> VideoStream" where
  "skip_to_latest (f # g # fs) s =
     skip_to_latest (g # fs) (count_stats (\<lambda>st. st\<lparr>eye_image_drop_queue := eye_image_drop_queue st + 1\<rparr>)
       (drop_ref [] f (s\<lparr>vs_eye := (vs_eye s)\<lparr>nv12_queue := g # fs\<rparr>\<rparr>)))"
| "skip_to_latest fs s = s"

definition eye_take :: "VideoStream \<Rightarrow> VideoStream" where
  "eye_take s =
     (let s1 = skip_to_latest (nv12_queue (vs_eye s)) s
      in (case nv12_queue (vs_eye s1) of
            [] \<Rightarrow> set_eye_pc EyeHead s1
          | f # fs \<Rightarrow> set_eye_pc (EyeProcess f) (s1\<lparr>vs_eye := (vs_eye s1)\<lparr>nv12_queue := fs\<rparr>\<rparr>)))"

definition eye_process :: "bool \<Rightarrow> bool \<Rightarrow> SharedNv12Frame \<Rightarrow> VideoStream \<Rightarrow> stream_output list \<times> VideoStream" where
  "eye_process subscribed surface f s =
     (let s1 = set_eye_pc EyeHead (s\<lparr>vs_eye := (vs_eye s)\<lparr>eye_inflight := False\<rparr>\<rparr>)
      in (if subscribed \<and> surface then [EyeImages (sf_fd f) (sf_timestamp_us f)] else [], drop_ref [] f s1))"

definition eye_step :: "bool \<Rightarrow> bool \<Rightarrow> bool \<Rightarrow> VideoStream \<Rightarrow> stream_output list \<times> VideoStream" where
  "eye_step init_ok subscribed surface s =
     (case eye_thread (vs_threads s) of
        Some EyeInit \<Rightarrow>
          if \<not> pipeline_running s then ([], set_eye_pc EyeDone s)
          else if \<not> init_ok then ([], set_eye_pc EyeDone (s\<lparr>vs_eye := (vs_eye s)\<lparr>eye_publisher := False\<rparr>\<rparr>))
          else ([], set_eye_pc EyeHead (updateEyeImageSubscriberState subscribed
                  (s\<lparr>vs_eye := (vs_eye s)\<lparr>eye_publisher := True, publisher_ready := True\<rparr>\<rparr>)))
      | Some EyeHead \<Rightarrow>
          if \<not> pipeline_running s then ([], leave_eye_thread s)
          else ([], set_eye_pc EyeWait (updateEyeImageSubscriberState subscribed s))
      | Some EyeWait \<Rightarrow>
          if \<not> pipeline_running s
          then (let s1 = clear_nv12_queue [] s in ([], leave_eye_thread (s1\<lparr>vs_eye := (vs_eye s1)\<lparr>eye_inflight := False\<rparr>\<rparr>)))
          else ([], eye_take s)
      | Some (EyeProcess f) \<Rightarrow> eye_process subscribed surface f s
      | _ \<Rightarrow> ([], s))"

section \<open>The way of a frame\<close>

text \<open>\<open>onEncoderInputDone\<close>: the encoder gives a descriptor back.\<close>

definition onEncoderInputDone :: "int \<Rightarrow> VideoStream \<Rightarrow> VideoStream" where
  "onEncoderInputDone fd s =
     (case map_of (pending_frames s) fd of
        Some f \<Rightarrow> drop_ref [] f (s\<lparr>pending_frames := AList.delete fd (pending_frames s)\<rparr>)
      | None \<Rightarrow>
          if undistorter s \<noteq> None then s\<lparr>undistorter := map_option (undistorter_releaseFd fd) (undistorter s)\<rparr>
          else s\<lparr>converter := map_option (converter_releaseFd fd) (converter s)\<rparr>)"

text \<open>\<open>encoder_->drainInputDone()\<close> with its callback; \<open>done_indices\<close> are the buffers the element is done with.\<close>

definition drain_encoder :: "nat list \<Rightarrow> VideoStream \<Rightarrow> VideoStream" where
  "drain_encoder done_indices s =
     (case encoder s of
        None \<Rightarrow> s
      | Some e \<Rightarrow> (case drainInputDone done_indices e of (fds, e1) \<Rightarrow> fold onEncoderInputDone fds (s\<lparr>encoder := Some e1\<rparr>)))"

text \<open>What the outside answers while a frame is processed.\<close>

record frame_answer =
  fa_done :: "nat list"
  fa_remap :: remap_answer
  fa_convert :: convert_answer
  fa_submit :: submit_answer
  fa_submit_us :: int
  fa_eye_us :: int

definition postprocessYuv422Fd :: "frame_answer \<Rightarrow> int \<Rightarrow> u64 \<Rightarrow> VideoStream \<Rightarrow> int option \<times> VideoStream" where
  "postprocessYuv422Fd a src_fd decode_us s =
     (case undistorter s of
        Some u \<Rightarrow>
          (case processYuv422 (fa_remap a) src_fd u of
             (None, u1) \<Rightarrow> (None, s\<lparr>undistorter := Some u1\<rparr>)
           | (Some fd, u1) \<Rightarrow>
               (Some fd, let s1 = s\<lparr>undistorter := Some u1\<rparr>
                         in if 0 < decode_us
                            then count_stats (\<lambda>st. st\<lparr>stats_fused_decode_us_total := stats_fused_decode_us_total st + decode_us\<rparr>) s1
                            else s1))
      | None \<Rightarrow>
          (case converter s of
             None \<Rightarrow> (None, s)
           | Some v \<Rightarrow> (case transformSync (fa_convert a) src_fd decode_us v of (r, v1) \<Rightarrow> (r, s\<lparr>converter := Some v1\<rparr>))))"

text \<open>Storing a frame under its descriptor drops the frame that was there.\<close>

definition put_pending :: "SharedNv12Frame \<Rightarrow> VideoStream \<Rightarrow> VideoStream" where
  "put_pending f s =
     (let s1 = s\<lparr>pending_frames := AList.update (sf_fd f) f (pending_frames s)\<rparr>
      in (case map_of (pending_frames s) (sf_fd f) of None \<Rightarrow> s1 | Some g \<Rightarrow> drop_ref [f] g s1))"

definition onConverterOutput :: "frame_answer \<Rightarrow> int \<Rightarrow> u64 \<Rightarrow> VideoStream \<Rightarrow> bool \<times> VideoStream" where
  "onConverterOutput a fd ts s =
     (let (frame, s1) = makeSharedNv12Frame fd ts s
      in (case encoder s1 of
            None \<Rightarrow> (False, drop_ref [] frame s1)
          | Some e \<Rightarrow>
              (let s2 = put_pending frame (s1\<lparr>enc_start_us_by_ts := AList.update ts (fa_submit_us a) (enc_start_us_by_ts s1)\<rparr>);
                   (ok, forced, e1) = enc_submit (fa_submit a) fd ts e;
                   s3 = s2\<lparr>encoder := Some e1\<rparr>
               in if \<not> ok
                  then (False, drop_ref [] frame (count_stats (\<lambda>st. st\<lparr>stats_encoder_submit_failures := stats_encoder_submit_failures st + 1\<rparr>)
                                 (s3\<lparr>enc_start_us_by_ts := AList.delete ts (enc_start_us_by_ts s3),
                                    pending_frames := AList.delete fd (pending_frames s3)\<rparr>)))
                  else (True, drop_ref [] frame (maybeEnqueueEyeImageFrame (fa_eye_us a) frame s3)))))"

text \<open>\<open>encodeDecodedLoop\<close>: one iteration. The output are descriptors the decoder destroys.\<close>

definition encodeDecodedLoop :: "frame_answer \<Rightarrow> VideoStream \<Rightarrow> stream_output list \<times> VideoStream" where
  "encodeDecodedLoop a s =
     (let s1 = drain_encoder (fa_done a) s
      in (case decoder s1 of
            None \<Rightarrow> ([], s1)
          | Some d \<Rightarrow>
              if encoder s1 = None \<or> converter s1 = None \<and> undistorter s1 = None then ([], s1)
              else (case dequeueSync d of
                      (None, d1) \<Rightarrow> ([], s1)
                    | (Some dec_frame, d1) \<Rightarrow>
                        (let s2 = count_stats (\<lambda>st. st\<lparr>stats_decode_frames := stats_decode_frames st + 1\<rparr>) (s1\<lparr>decoder := Some d1\<rparr>);
                             (r, s3) = postprocessYuv422Fd a (yuv_dmabuf_fd dec_frame) (df_decode_us dec_frame) s2;
                             (destroyed, _, d2) = requeueCapture dec_frame d1;
                             s4 = s3\<lparr>decoder := Some d2\<rparr>
                         in (map DestroyedFd destroyed,
                             (case r of None \<Rightarrow> s4 | Some fd \<Rightarrow> snd (onConverterOutput a fd (capture_timestamp_us dec_frame) s4)))))))"

section \<open>Camera frames\<close>

definition warmup_start :: "VideoStream \<Rightarrow> WarmupLocals" where
  "warmup_start s = \<lparr>warmup_dropped_frames = 0, warmup_done = (v4l2_warmup_drop_frames (vs_config s) = 0)\<rparr>"

definition warmup_frame :: "VideoStream \<Rightarrow> WarmupLocals \<Rightarrow> WarmupLocals" where
  "warmup_frame s w =
     (let n = warmup_dropped_frames w + 1
      in \<lparr>warmup_dropped_frames = n, warmup_done = (v4l2_warmup_drop_frames (vs_config s) \<le> n \<or> warmup_done w)\<rparr>)"

definition set_encode_pc :: "encode_pc \<Rightarrow> VideoStream \<Rightarrow> VideoStream" where
  "set_encode_pc pc s = s\<lparr>vs_threads := (vs_threads s)\<lparr>encode_thread := Some pc\<rparr>\<rparr>"

definition set_capture_pc :: "capture_pc \<Rightarrow> VideoStream \<Rightarrow> VideoStream" where
  "set_capture_pc pc s = s\<lparr>vs_threads := (vs_threads s)\<lparr>capture_thread := Some pc\<rparr>\<rparr>"

definition requestPipelineRestart :: "string \<Rightarrow> VideoStream \<Rightarrow> VideoStream" where
  "requestPipelineRestart reason s =
     (if \<not> vs_running s \<or> \<not> pipeline_running s then s
      else if restart_requested s then s
      else s\<lparr>restart_requested := True, restart_reason := reason\<rparr>)"

text \<open>One iteration of \<open>encodeYuyvDirectLoop\<close>. \<open>camera\<close>: the descriptor of a frame, and the steady clock in
  microseconds, when a frame could be dequeued.\<close>

definition encodeYuyvDirectLoop :: "frame_answer \<Rightarrow> (int \<times> u64) option \<Rightarrow> WarmupLocals \<Rightarrow> VideoStream \<Rightarrow> VideoStream" where
  "encodeYuyvDirectLoop a camera w s =
     (let s1 = drain_encoder (fa_done a) s
      in (case camera of
            None \<Rightarrow> s1
          | Some (dmabuf_fd, now_us) \<Rightarrow>
              if \<not> warmup_done w then set_encode_pc (DirectLoop (warmup_frame s1 w)) s1
              else (let s2 = count_stats (\<lambda>st. st\<lparr>stats_capture_frames := stats_capture_frames st + 1,
                                                  encode_frame_in_count := encode_frame_in_count st + 1\<rparr>) s1
                    in if dmabuf_fd < 0 then s2
                       else (case postprocessYuv422Fd a dmabuf_fd 0 s2 of
                               (None, s3) \<Rightarrow> s3
                             | (Some fd, s3) \<Rightarrow> snd (onConverterOutput a fd now_us s3)))))"

definition isBadDecodeStatus :: "SubmitStatus \<Rightarrow> bool" where
  "isBadDecodeStatus res \<longleftrightarrow> res = kDecodeFailed \<or> res = kInvalidDecodedOutput"

definition submitStatusToString :: "SubmitStatus \<Rightarrow> string" where
  "submitStatusToString res =
     (case res of
        kQueued \<Rightarrow> ''queued'' | kStopped \<Rightarrow> ''stopped'' | kInvalidInput \<Rightarrow> ''invalid_input''
      | kFrameTooLarge \<Rightarrow> ''frame_too_large'' | kDecodedQueueFull \<Rightarrow> ''decoded_queue_full''
      | kNoDecodeBuffer \<Rightarrow> ''no_decode_buffer'' | kDecodeFailed \<Rightarrow> ''decode_failed''
      | kInvalidDecodedOutput \<Rightarrow> ''invalid_decoded_output'')"

text \<open>One step of \<open>captureThreadMain\<close>: the start of the camera, or one iteration. \<open>camera\<close>: the data of a frame and the
  clock, when one could be dequeued.\<close>

definition capture_frame :: "decode_answer \<Rightarrow> bytes option \<Rightarrow> u64 \<Rightarrow> VideoStream \<Rightarrow> stream_output list \<times> VideoStream" where
  "capture_frame a data now_us s =
     (let s1 = count_stats (\<lambda>st. st\<lparr>stats_capture_frames := stats_capture_frames st + 1,
                                    encode_frame_in_count := encode_frame_in_count st + 1\<rparr>) s;
          frame_id = encode_frame_in_count (vs_stats s1)
      in if data = None \<or> length (the data) = 0 \<or> decoder s1 = None then ([], s1)
         else (case submitDetailed a data frame_id now_us now_us (the (decoder s1)) of
                 (res, destroyed, d1) \<Rightarrow>
                   (map DestroyedFd destroyed,
                    (let s2 = s1\<lparr>decoder := Some d1\<rparr>
                     in if res = kQueued then s2\<lparr>bad_decode_frames := 0\<rparr>
                        else (let s3 = count_stats (\<lambda>st. st\<lparr>stats_decoder_drops := stats_decoder_drops st + 1\<rparr>) s2
                              in if \<not> isBadDecodeStatus res then s3
                                 else (let streak = bad_decode_frames s3 + 1; s4 = s3\<lparr>bad_decode_frames := streak\<rparr>
                                       in if restart_on_bad_frames (vs_config s4) \<and> consecutive_bad_frame_threshold (vs_config s4) \<le> streak
                                          then set_capture_pc CaptureDone (requestPipelineRestart
                                                 (''consecutive_bad_mjpeg_frames status='' @ submitStatusToString res
                                                  @ '' streak='' @ nat_digits (nat streak)) s4)
                                          else s4))))))"

definition captureThreadMain ::
  "bool \<Rightarrow> decode_answer \<Rightarrow> (bytes option \<times> u64) option \<Rightarrow> VideoStream \<Rightarrow> stream_output list \<times> VideoStream" where
  "captureThreadMain start_ok a camera s =
     (case capture_thread (vs_threads s) of
        Some CaptureStart \<Rightarrow>
          if \<not> pipeline_running s then ([], set_capture_pc CaptureDone s)
          else if \<not> capturer s \<or> \<not> start_ok then ([], set_capture_pc CaptureDone s)
          else ([], set_capture_pc (CaptureLoop (warmup_start s)) s)
      | Some (CaptureLoop w) \<Rightarrow>
          if \<not> pipeline_running s then ([], set_capture_pc CaptureDone s)
          else (case camera of
                  None \<Rightarrow> ([], s)
                | Some (data, now_us) \<Rightarrow>
                    if \<not> warmup_done w then ([], set_capture_pc (CaptureLoop (warmup_frame s w)) s)
                    else capture_frame a data now_us s)
      | _ \<Rightarrow> ([], s))"

section \<open>Encoded packets\<close>

definition consume_component_stats :: "VideoStream \<Rightarrow> VideoStream" where
  "consume_component_stats s =
     s\<lparr>converter := map_option (\<lambda>v. snd (converter_consumeStats v)) (converter s),
       undistorter := map_option (\<lambda>u. snd (undistorter_consumeStats u)) (undistorter s)\<rparr>"

definition end_warmup :: "VideoStream \<Rightarrow> VideoStream" where
  "end_warmup s =
     consume_component_stats (count_stats (\<lambda>st. st\<lparr>stats_capture_frames := 0, stats_decode_frames := 0, stats_encode_frames := 0,
        stats_decoder_drops := 0, stats_encoder_submit_failures := 0, stats_encode_us_total := 0, stats_fused_decode_us_total := 0\<rparr>)
        (s\<lparr>warmup_active := False\<rparr>))"

text \<open>\<open>now_us\<close>: the steady clock. The cost of a frame is known when its submission is still noted.\<close>

definition onEncoderPacket :: "int \<Rightarrow> bytes \<Rightarrow> u64 \<Rightarrow> bool \<Rightarrow> VideoStream \<Rightarrow> stream_output list \<times> VideoStream" where
  "onEncoderPacket now_us data ts keyframe s =
     (let s1 = count_stats (\<lambda>st. st\<lparr>enc_frame_count := enc_frame_count st + 1\<rparr>) s;
          submitted = map_of (enc_start_us_by_ts s1) ts;
          cost_us = (case submitted of None \<Rightarrow> - 1 | Some t \<Rightarrow> now_us - t);
          enc_submit_us = (case submitted of None \<Rightarrow> - 1 | Some t \<Rightarrow> t);
          s2 = s1\<lparr>enc_start_us_by_ts := AList.delete ts (enc_start_us_by_ts s1)\<rparr>
      in if warmup_active s2 \<and> (now_us < warmup_deadline_us s2 \<or> 0 \<le> enc_submit_us \<and> enc_submit_us < warmup_deadline_us s2)
         then ([], count_stats (\<lambda>st. st\<lparr>warmup_dropped := warmup_dropped st + 1\<rparr>) s2)
         else (let s3 = (if warmup_active s2 then end_warmup s2 else s2);
                   s4 = (if 0 \<le> cost_us
                         then count_stats (\<lambda>st. st\<lparr>stats_encode_frames := stats_encode_frames st + 1,
                                                  stats_encode_us_total := stats_encode_us_total st + of_int cost_us\<rparr>) s3
                         else s3);
                   s5 = (case recorder s4 of
                           None \<Rightarrow> s4
                         | Some r \<Rightarrow> count_stats (\<lambda>st. st\<lparr>recorded_packet_count := recorded_packet_count st + 1\<rparr>)
                             (s4\<lparr>recorder := Some (writeFrame (recorded_packet_count (vs_stats s4)) data keyframe r)\<rparr>))
               in (if encoded_frame_callback s5 then [Delivered data ts keyframe] else [], s5)))"

text \<open>One iteration of \<open>encoderDqThreadMain\<close>.\<close>

definition encoderDqThreadMain :: "capture_answer \<Rightarrow> int \<Rightarrow> VideoStream \<Rightarrow> stream_output list \<times> VideoStream" where
  "encoderDqThreadMain a now_us s =
     (if \<not> encoder_dq_thread (vs_threads s) \<or> \<not> pipeline_running s then ([], s)
      else (case encoder s of
              None \<Rightarrow> ([], s)
            | Some e \<Rightarrow>
                (case dequeueOne a e of
                   (pkt, sets, e1) \<Rightarrow>
                     (let s1 = s\<lparr>encoder := Some e1\<rparr>;
                          out = (case sets of None \<Rightarrow> [] | Some (sps, pps, vps) \<Rightarrow> [ParameterSets sps pps vps])
                      in (case pkt of
                            None \<Rightarrow> (out, s1)
                          | Some p \<Rightarrow> (case onEncoderPacket now_us (ep_data p) (ep_timestamp_us p) (ep_keyframe p) s1 of
                                       (out1, s2) \<Rightarrow> (out @ out1, s2)))))))"

section \<open>The pipeline\<close>

text \<open>What the outside answers to the initialisation of the components, on the encode thread.\<close>

record init_answer =
  ia_fl :: "rat \<Rightarrow> rat"
  ia_opencv :: opencv
  ia_undistorter :: und_answer
  ia_surface :: "nat \<Rightarrow> int option"
  ia_prepare :: "nat \<Rightarrow> bool"
  ia_encoder_created :: bool
  ia_encoder_hw :: "control \<Rightarrow> bool"
  ia_input_buffers :: nat
  ia_capture_buffers :: nat
  ia_decoder_created :: bool
  ia_decoder_surface :: "nat \<Rightarrow> int option"
  ia_capture_start :: bool

definition initializePostprocess :: "init_answer \<Rightarrow> VideoStream \<Rightarrow> bool \<times> VideoStream" where
  "initializePostprocess a s =
     (let c = vs_config s
      in if undistort_enabled c
         then (case undistorter_initialize (ia_fl a) (ia_opencv a) (ia_undistorter a) (undistorter_config c)
                      (VideoUndistorter_init (undistorter_config StreamConfig_init)) of
                 (ok, u) \<Rightarrow> if \<not> ok then (False, s) else (True, s\<lparr>undistorter := Some u, converter := None\<rparr>))
         else (case converter_initialize (ia_surface a) (ia_prepare a) (converter_config c)
                      (VideoConverter_init (converter_config StreamConfig_init)) of
                 (ok, v) \<Rightarrow> if \<not> ok then (False, s) else (True, s\<lparr>converter := Some v, undistorter := None\<rparr>)))"

text \<open>A new encoder has no parameter sets, so the callback is not called when it is set.\<close>

definition initializeEncoder :: "init_answer \<Rightarrow> VideoStream \<Rightarrow> bool \<times> VideoStream" where
  "initializeEncoder a s =
     (case enc_initialize (ia_encoder_created a) (ia_encoder_hw a) (ia_input_buffers a) (ia_capture_buffers a)
             (encoder_config (vs_config s)) (VideoEncoder_init EncoderConfig_default) of
        (ok, made, e) \<Rightarrow>
          if \<not> ok then (False, s)
          else (let e1 = enc_setInputDoneCallback True e;
                    e2 = (if vs_sps_pps_callback s then snd (enc_setSpsPpsCallback True e1) else e1)
                in (True, s\<lparr>encoder := Some e2\<rparr>)))"

definition initializeDecoder :: "init_answer \<Rightarrow> VideoStream \<Rightarrow> VideoStream" where
  "initializeDecoder a s =
     (if yuyv_direct_enabled (vs_config s) then s
      else (case decoder_initialize (ia_decoder_created a) (ia_decoder_surface a) (decoder_config (vs_config s))
                   (VideoDecoder_init (decoder_config StreamConfig_init)) of
              (ok, d) \<Rightarrow> s\<lparr>decoder := (if ok then Some d else None)\<rparr>))"

text \<open>The workers that need a running pipeline are started only while it runs.\<close>

definition spawn_workers :: "VideoStream \<Rightarrow> VideoStream" where
  "spawn_workers s =
     (if \<not> pipeline_running s then s
      else s\<lparr>vs_threads := (vs_threads s)\<lparr>
               capture_thread := (if yuyv_direct_enabled (vs_config s) then capture_thread (vs_threads s) else Some CaptureStart),
               encoder_dq_thread := True\<rparr>\<rparr>)"

text \<open>The encode thread ends after a failed initialisation and asks for a restart if the pipeline still runs, which
  \<open>requestPipelineRestart\<close> checks too.\<close>

definition init_failed :: "VideoStream \<Rightarrow> VideoStream" where
  "init_failed s =
     set_encode_pc EncodeDone (if pipeline_running s then requestPipelineRestart ''encode_pipeline_init_failed'' s else s)"

text \<open>A step of \<open>encodeThreadMain\<close>: one of the initialisations, each followed by a look at the flag, or one iteration of
  its loop.\<close>

definition next_encode_pc :: "encode_pc \<Rightarrow> VideoStream \<Rightarrow> VideoStream" where
  "next_encode_pc pc s = set_encode_pc (if pipeline_running s then pc else EncodeDone) s"

definition encodeThreadMain ::
  "init_answer \<Rightarrow> frame_answer \<Rightarrow> (int \<times> u64) option \<Rightarrow> VideoStream \<Rightarrow> stream_output list \<times> VideoStream" where
  "encodeThreadMain ia a camera s =
     (case encode_thread (vs_threads s) of
        Some InitPostprocess \<Rightarrow>
          (case initializePostprocess ia s of
             (ok, s1) \<Rightarrow> ([], if \<not> ok then init_failed s1 else next_encode_pc InitEncoder s1))
      | Some InitEncoder \<Rightarrow>
          (case initializeEncoder ia s of (ok, s1) \<Rightarrow> ([], if \<not> ok then init_failed s1 else next_encode_pc InitDecoder s1))
      | Some InitDecoder \<Rightarrow> ([], next_encode_pc SpawnWorkers (initializeDecoder ia s))
      | Some SpawnWorkers \<Rightarrow>
          ([], if (yuyv_direct_enabled (vs_config s) \<or> decoder s \<noteq> None) \<and> (converter s \<noteq> None \<or> undistorter s \<noteq> None)
                  \<and> encoder s \<noteq> None
               then set_encode_pc (if yuyv_direct_enabled (vs_config s) then DirectStart else DecodedLoop) (spawn_workers s)
               else init_failed s)
      | Some DirectStart \<Rightarrow>
          ([], if \<not> capturer s \<or> \<not> ia_capture_start ia
               then set_encode_pc EncodeDone (requestPipelineRestart ''yuyv_direct_capture_start_failed'' s)
               else set_encode_pc (DirectLoop (warmup_start s)) s)
      | Some (DirectLoop w) \<Rightarrow>
          ([], if \<not> pipeline_running s then set_encode_pc EncodeDone s else encodeYuyvDirectLoop a camera w s)
      | Some DecodedLoop \<Rightarrow>
          if \<not> pipeline_running s then ([], set_encode_pc EncodeDone s) else encodeDecodedLoop a s
      | _ \<Rightarrow> ([], s))"

text \<open>What the outside answers to the start of a pipeline.\<close>

record start_answer =
  st_capturer :: bool
  st_now_us :: int
  st_dir :: bool
  st_file :: bool

definition startPipeline :: "start_answer \<Rightarrow> VideoStream \<Rightarrow> bool \<times> VideoStream" where
  "startPipeline a s =
     (if \<not> vs_running s then (False, s)
      else if pipeline_running s then (True, s)
      else if \<not> capturer s \<and> \<not> st_capturer a then (False, s)
      else (let c = vs_config s;
                (rec_ok, r) = rec_initialize (st_dir a) (st_file a) (recorder_config c) (VideoRecorder_init (recording s));
                s1 = s\<lparr>capturer := True,
                       warmup_deadline_us := st_now_us a + warmup_duration_ms c * 1000,
                       warmup_active := 0 < warmup_duration_ms c,
                       vs_stats := (vs_stats s)\<lparr>warmup_dropped := 0, recorded_packet_count := 0\<rparr>,
                       recorder := (if rec_ok then Some r else None), recording := output_file r,
                       bad_decode_frames := 0\<rparr>;
                s2 = clear_nv12_queue [] s1;
                s3 = s2\<lparr>vs_eye := (vs_eye s2)\<lparr>eye_inflight := False, publisher_ready := False, has_subscribers := False\<rparr>,
                       pipeline_running := True\<rparr>
            in (True, s3\<lparr>vs_threads := (vs_threads s3)\<lparr>encode_thread := Some InitPostprocess,
                           eye_thread := (if eye_image_enabled (eye_config c) then Some EyeInit else eye_thread (vs_threads s3))\<rparr>\<rparr>)))"

text \<open>Joining the eye image thread: with the flag cleared it ends, after the frame it works on.\<close>

definition join_eye_thread :: "VideoStream \<Rightarrow> VideoStream" where
  "join_eye_thread s =
     (let s1 = (case eye_thread (vs_threads s) of Some (EyeProcess f) \<Rightarrow> snd (eye_process False False f s) | _ \<Rightarrow> s)
      in s1\<lparr>vs_threads := (vs_threads s1)\<lparr>eye_thread := None\<rparr>\<rparr>)"

fun drop_pending :: "(int \<times> SharedNv12Frame) list \<Rightarrow> VideoStream \<Rightarrow> VideoStream" where
  "drop_pending [] s = s"
| "drop_pending ((fd, f) # rest) s = drop_pending rest (drop_ref [] f (s\<lparr>pending_frames := rest\<rparr>))"

text \<open>\<open>ros_ok\<close>: ROS is not shutting down. Otherwise the frames still at the encoder are not given back. The camera, the
  decoder, the undistorter and the converter are kept alive without an owner; the recorder is destroyed.\<close>

definition stopPipeline :: "bool \<Rightarrow> VideoStream \<Rightarrow> VideoStream" where
  "stopPipeline ros_ok s =
     (let s1 = join_eye_thread (s\<lparr>pipeline_running := False\<rparr>);
          s2 = s1\<lparr>vs_threads := (vs_threads s1)\<lparr>capture_thread := None, encode_thread := None, encoder_dq_thread := False\<rparr>\<rparr>;
          s3 = clear_nv12_queue [] s2;
          s4 = s3\<lparr>vs_eye := (vs_eye s3)\<lparr>eye_inflight := False\<rparr>, encoder := None\<rparr>;
          s5 = (if ros_ok then drop_pending (pending_frames s4) s4 else s4\<lparr>pending_frames := []\<rparr>)
      in s5\<lparr>capturer := False, decoder := None, undistorter := None, converter := None,
            vs_eye := (vs_eye s5)\<lparr>eye_publisher := False, publisher_ready := False, has_subscribers := False\<rparr>,
            recording := (case recorder s5 of None \<Rightarrow> recording s5 | Some r \<Rightarrow> output_file (rec_destroy r)), recorder := None,
            bad_decode_frames := 0, enc_start_us_by_ts := []\<rparr>)"

text \<open>A step of the restart supervisor: the end of its wait, or of its pause after a stop.\<close>

definition set_supervisor_pc :: "supervisor_pc \<Rightarrow> VideoStream \<Rightarrow> VideoStream" where
  "set_supervisor_pc pc s = s\<lparr>vs_threads := (vs_threads s)\<lparr>supervisor_thread := Some pc\<rparr>\<rparr>"

definition restartSupervisorThreadMain :: "bool \<Rightarrow> start_answer \<Rightarrow> VideoStream \<Rightarrow> VideoStream" where
  "restartSupervisorThreadMain ros_ok a s =
     (case supervisor_thread (vs_threads s) of
        Some SupervisorWait \<Rightarrow>
          if \<not> vs_running s then set_supervisor_pc SupervisorDone s
          else if \<not> restart_requested s then s
          else set_supervisor_pc SupervisorBackoff (stopPipeline ros_ok (s\<lparr>restart_requested := False, restart_reason := []\<rparr>))
      | Some SupervisorBackoff \<Rightarrow>
          if \<not> vs_running s then set_supervisor_pc SupervisorDone s
          else (case startPipeline a s of
                  (ok, s1) \<Rightarrow> if ok then set_supervisor_pc SupervisorWait s1 else stopPipeline ros_ok s1)
      | _ \<Rightarrow> s)"

section \<open>Calls of the owner\<close>

text \<open>What the camera negotiated, if it could be initialised.\<close>

record camera_answer =
  neg_width :: u32
  neg_height :: u32
  neg_format :: PixelFormat

record open_answer =
  oa_camera :: "camera_answer option"
  oa_nvjpeg :: bool
  oa_package :: string
  oa_v4l2 :: "string \<Rightarrow> int"
  oa_start :: start_answer

definition vs_start :: "(string \<Rightarrow> int list option) \<Rightarrow> params \<Rightarrow> bool \<Rightarrow> open_answer \<Rightarrow> VideoStream \<Rightarrow> bool \<times> VideoStream" where
  "vs_start par_ints p ros_ok a s =
     (if vs_running s then (True, s)
      else (let profile = read_profile par_ints; framerate = snd (snd profile);
                cap = read_capture_config p profile;
                s1 = s\<lparr>vs_config := (vs_config s)\<lparr>v4l2_warmup_drop_frames := max 0 (int_param p ''v4l2.warmup_drop_frames'' 30),
                                                 capturer_config := cap\<rparr>\<rparr>
            in (case oa_camera a of
                  None \<Rightarrow> (False, s1\<lparr>capturer := False\<rparr>)
                | Some n \<Rightarrow>
                    (let use = (0 < neg_width n \<and> 0 < neg_height n);
                         width = (if use then neg_width n else fst profile); height = (if use then neg_height n else fst (snd profile));
                         direct = (pixel_format cap = YUYV \<and> neg_format n = YUYV \<and> memory_mode cap = kDmaBuf);
                         s2 = s1\<lparr>capturer := True,
                                vs_config := (vs_config s1)\<lparr>capturer_config := cap\<lparr>cap_width := width, cap_height := height\<rparr>,
                                                           yuyv_direct_enabled := direct\<rparr>\<rparr>
                     in if pixel_format cap = YUYV \<and> \<not> direct then (False, s2\<lparr>capturer := False\<rparr>)
                        else (let s3 = s2\<lparr>vs_config := read_stream_config (oa_v4l2 a) p (oa_package a) width height framerate (vs_config s2)\<rparr>
                              in if pixel_format cap = MJPEG \<and> \<not> oa_nvjpeg a then (False, s3)
                                 else (let s4 = s3\<lparr>restart_requested := False, restart_reason := [], vs_running := True\<rparr>;
                                           (ok, s5) = startPipeline (oa_start a) s4
                                       in if \<not> ok then (False, stopPipeline ros_ok (s5\<lparr>vs_running := False\<rparr>))
                                          else (True, set_supervisor_pc SupervisorWait s5)))))))"

definition vs_stop :: "bool \<Rightarrow> VideoStream \<Rightarrow> VideoStream" where
  "vs_stop ros_ok s =
     (if \<not> vs_running s then s
      else (let s1 = s\<lparr>vs_running := False, restart_requested := False, restart_reason := []\<rparr>;
                s2 = s1\<lparr>vs_threads := (vs_threads s1)\<lparr>supervisor_thread := None\<rparr>\<rparr>
            in stopPipeline ros_ok s2))"

definition vs_isRunning :: "VideoStream \<Rightarrow> bool" where
  "vs_isRunning s = vs_running s"

definition vs_setEncodedFrameCallback :: "bool \<Rightarrow> VideoStream \<Rightarrow> VideoStream" where
  "vs_setEncodedFrameCallback b s = s\<lparr>encoded_frame_callback := b\<rparr>"

definition vs_setSpsPpsCallback :: "bool \<Rightarrow> VideoStream \<Rightarrow> stream_output list \<times> VideoStream" where
  "vs_setSpsPpsCallback b s =
     (let s1 = s\<lparr>vs_sps_pps_callback := b\<rparr>
      in (case encoder s1 of
            None \<Rightarrow> ([], s1)
          | Some e \<Rightarrow> (case enc_setSpsPpsCallback b e of
                        (sets, e1) \<Rightarrow> (case sets of None \<Rightarrow> [] | Some (sps, pps, vps) \<Rightarrow> [ParameterSets sps pps vps], s1\<lparr>encoder := Some e1\<rparr>))))"

definition vs_requestKeyframe :: "bool \<Rightarrow> VideoStream \<Rightarrow> bool" where
  "vs_requestKeyframe answer s = (case encoder s of None \<Rightarrow> False | Some e \<Rightarrow> enc_forceIDR answer e)"

text \<open>The steady clock counts nanoseconds in 64 bits; the difference of two of its points wraps.\<close>

definition setTargetBitrate :: "u64 \<Rightarrow> bool \<Rightarrow> u32 \<Rightarrow> VideoStream \<Rightarrow> VideoStream" where
  "setTargetBitrate now answer bitrate_bps s =
     (if bitrate_bps = 0 then s
      else (let elapsed = sint (now - last_bitrate_update s)
            in if last_bitrate_bps s = bitrate_bps \<and> elapsed < 200 * 1000000 then s
               else if elapsed < 100 * 1000000 then s
               else (let s1 = s\<lparr>last_bitrate_update := now, last_bitrate_bps := bitrate_bps\<rparr>
                     in (case encoder s1 of
                           None \<Rightarrow> s1
                         | Some e \<Rightarrow> s1\<lparr>encoder := Some (snd (enc_setBitrate answer bitrate_bps e))\<rparr>))))"

record StreamSnapshot = VideoManagerStats +
  undistort_fallback_frames :: u64
  decode_us_total :: u64
  transform_us_total :: u64
  transform_map_us_total :: u64
  transform_wait_us_total :: u64
  transform_call_us_total :: u64
  undistort_us_total :: u64
  undistort_map_us_total :: u64
  undistort_kernel_us_total :: u64
  undistort_sync_us_total :: u64
  encode_us_total :: u64
  converter_output_format :: string
  undistort_backend :: string

definition vs_consumeStats :: "VideoStream \<Rightarrow> StreamSnapshot \<times> VideoStream" where
  "vs_consumeStats s =
     (let st = vs_stats s; nonneg = (\<lambda>x. of_int (max 0 x) :: u64);
          cs = (case converter s of None \<Rightarrow> ConverterStats_zero | Some v \<Rightarrow> fst (converter_consumeStats v));
          (us, backend) = (case undistorter s of None \<Rightarrow> (UndistorterStats_zero, []) | Some u \<Rightarrow> fst (undistorter_consumeStats u))
      in (\<lparr>capture_frames = stats_capture_frames st, decode_frames = stats_decode_frames st,
           convert_frames = cs_processed_frames cs, encode_frames = stats_encode_frames st,
           decoder_drops = stats_decoder_drops st, converter_pool_drops = cs_pool_drops cs,
           converter_failures = cs_failed_frames cs, encoder_submit_failures = stats_encoder_submit_failures st,
           undistort_frames = us_processed_frames us, undistort_pool_drops = us_pool_drops us,
           undistort_failures = us_failed_frames us, undistort_fallback_frames = us_fallback_frames us,
           decode_us_total = stats_fused_decode_us_total st + nonneg (cs_decode_us_total cs),
           transform_us_total = nonneg (cs_transform_us_total cs), transform_map_us_total = nonneg (cs_map_us_total cs),
           transform_wait_us_total = nonneg (cs_transform_wait_us_total cs),
           transform_call_us_total = nonneg (cs_transform_call_us_total cs),
           undistort_us_total = nonneg (us_remap_us_total us), undistort_map_us_total = nonneg (us_map_us_total us),
           undistort_kernel_us_total = nonneg (us_kernel_us_total us), undistort_sync_us_total = nonneg (us_sync_us_total us),
           encode_us_total = stats_encode_us_total st, converter_output_format = ''nv12'', undistort_backend = backend\<rparr>,
          consume_component_stats (count_stats (\<lambda>st. st\<lparr>stats_capture_frames := 0, stats_decode_frames := 0, stats_encode_frames := 0,
            stats_decoder_drops := 0, stats_encoder_submit_failures := 0, stats_encode_us_total := 0, stats_fused_decode_us_total := 0\<rparr>) s)))"

end
