(* ===== verification/EncoderFacts.thy ===== *)
theory EncoderFacts
  imports VideoEncoder "HOL-Library.Multiset"
begin

text \<open>
  What the encoder guarantees: its input buffers and the descriptors in them are conserved, its units bear the time
  stamps of their frames, and it finds the same parameter sets as the video module.
\<close>

section \<open>Runs\<close>

text \<open>What happens to an open encoder: submissions, input buffers the element is done with (it gives back only what was
  queued), encoded units, a new bitrate. The descriptors accepted and the descriptors handed back.\<close>

inductive enc_step :: "VideoEncoder \<Rightarrow> int list \<Rightarrow> int list \<Rightarrow> VideoEncoder \<Rightarrow> bool" where
  es_submit: "0 \<le> fd \<Longrightarrow> enc_submit a fd ts e = (ok, forced, e') \<Longrightarrow> enc_step e (if ok then [fd] else []) [] e'"
| es_done: "set done_indices \<subseteq> fst ` set (index_to_fd e) \<Longrightarrow> distinct done_indices \<Longrightarrow> drainInputDone done_indices e = (out, e')
    \<Longrightarrow> enc_step e [] out e'"
| es_unit: "dequeueOne a1 e = (p, sets, e') \<Longrightarrow> enc_step e [] [] e'"
| es_callback: "enc_setSpsPpsCallback b e = (sets, e') \<Longrightarrow> enc_step e [] [] e'"
| es_bitrate: "enc_setBitrate answer bps e = (ok, e') \<Longrightarrow> enc_step e [] [] e'"

inductive enc_run :: "VideoEncoder \<Rightarrow> int list \<Rightarrow> int list \<Rightarrow> VideoEncoder \<Rightarrow> bool" for e where
  er_refl: "enc_run e [] [] e"
| er_step: "enc_run e ins outs e1 \<Longrightarrow> enc_step e1 ins1 outs1 e2 \<Longrightarrow> enc_run e (ins @ ins1) (outs @ outs1) e2"

text \<open>Every index is free or queued, once; descriptors are not negative; there is a callback.\<close>

definition enc_wf :: "nat \<Rightarrow> VideoEncoder \<Rightarrow> bool" where
  "enc_wf n e \<longleftrightarrow> enc_open e \<and> \<not> enc_shutting_down e \<and> input_done_callback e
     \<and> mset (free_output_indices e) + mset (map fst (index_to_fd e)) = mset [0..<n] \<and> (\<forall>p\<in>set (index_to_fd e). 0 \<le> snd p)"

definition queued_fds :: "VideoEncoder \<Rightarrow> int multiset" where
  "queued_fds e = mset (map snd (index_to_fd e))"

lemma enc_wf_distinct: "enc_wf n e \<Longrightarrow> distinct (free_output_indices e @ map fst (index_to_fd e))"
proof -
  assume "enc_wf n e"
  then have "mset (free_output_indices e @ map fst (index_to_fd e)) = mset [0..<n]" by (simp add: enc_wf_def)
  then show ?thesis using mset_eq_imp_distinct_iff distinct_upt by blast
qed

lemma update_new: "i \<notin> fst ` set al \<Longrightarrow> mset (AList.update i v al) = add_mset (i, v) (mset al)"
  by (induction al) auto

lemma delete_new: "i \<notin> fst ` set al \<Longrightarrow> AList.delete i (AList.update i v al) = al"
  by (induction al) (auto simp: AList.delete_eq)

lemma delete_absent: "i \<notin> fst ` set al \<Longrightarrow> AList.delete i al = al"
  by (induction al) auto

lemma delete_fst: "fst ` set (AList.delete i al) = fst ` set al - {i}"
  by (induction al) auto

lemma delete_member:
  "distinct (map fst al) \<Longrightarrow> map_of al i = Some v \<Longrightarrow> mset al = add_mset (i, v) (mset (AList.delete i al))"
  by (induction al) (auto simp: delete_absent split: if_splits)

lemma mset_fst: "mset (map fst al) = image_mset fst (mset al)" "mset (map snd al) = image_mset snd (mset al)"
  by simp_all

lemma submit_wf:
  assumes "enc_wf n e" "0 \<le> fd" "enc_submit a fd ts e = (ok, forced, e')"
  shows "enc_wf n e' \<and> queued_fds e' = queued_fds e + mset (if ok then [fd] else [])"
proof (cases "free_output_indices e")
  case Nil
  then have "enc_submit a fd ts e = (False, False, e)" by (simp add: enc_submit_def)
  then show ?thesis using assms by simp
next
  case (Cons i rest)
  then have i: "i \<notin> fst ` set (index_to_fd e)" using enc_wf_distinct [OF assms(1)] by auto
  have p: "\<forall>p\<in>set (AList.update i fd (index_to_fd e)). 0 \<le> snd p"
    using assms(1,2) arg_cong [OF update_new [OF i, of fd], of set_mset] by (auto simp: enc_wf_def)
  have o: "enc_open e" "\<not> enc_shutting_down e" using assms(1) by (simp_all add: enc_wf_def)
  consider (refused) "\<not> sa_buffer a \<or> \<not> sa_surface a \<or> \<not> sa_planes_match a"
    | (failed) "\<not> (\<not> sa_buffer a \<or> \<not> sa_surface a \<or> \<not> sa_planes_match a)" "\<not> sa_queued a"
    | (queued) "\<not> (\<not> sa_buffer a \<or> \<not> sa_surface a \<or> \<not> sa_planes_match a)" "sa_queued a" by blast
  then show ?thesis
  proof cases
    case refused
    then have "ok = False" "e' = e\<lparr>free_output_indices := rest @ [i]\<rparr>"
      using assms(3) Cons o by (simp_all add: enc_submit_def)
    then show ?thesis using assms(1) Cons by (simp add: enc_wf_def queued_fds_def)
  next
    case failed
    then have "ok = False" "free_output_indices e' = rest @ [i]" "index_to_fd e' = index_to_fd e" "enc_open e' = enc_open e"
      "enc_shutting_down e' = enc_shutting_down e" "input_done_callback e' = input_done_callback e"
      using assms(3) Cons o delete_new [OF i, of fd] by (auto simp: enc_submit_def Let_def)
    then show ?thesis using assms(1) Cons by (simp add: enc_wf_def queued_fds_def)
  next
    case queued
    then have "ok = True" "free_output_indices e' = rest" "index_to_fd e' = AList.update i fd (index_to_fd e)"
      "enc_open e' = enc_open e" "enc_shutting_down e' = enc_shutting_down e" "input_done_callback e' = input_done_callback e"
      using assms(3) Cons o by (auto simp: enc_submit_def Let_def)
    then show ?thesis using assms(1) Cons p update_new [OF i, of fd] by (simp add: enc_wf_def queued_fds_def)
  qed
qed

lemma input_done_wf:
  assumes "enc_wf n e" "i \<in> fst ` set (index_to_fd e)" "input_done i e = (out, e')"
  shows "enc_wf n e' \<and> queued_fds e = queued_fds e' + mset out \<and> fst ` set (index_to_fd e') = fst ` set (index_to_fd e) - {i}"
proof -
  have d: "distinct (map fst (index_to_fd e))" using enc_wf_distinct [OF assms(1)] by simp
  obtain fd where fd: "map_of (index_to_fd e) i = Some fd" using assms(2) by (metis weak_map_of_SomeI imageE prod.collapse)
  then have nn: "0 \<le> fd" using assms(1) map_of_SomeD [OF fd] by (auto simp: enc_wf_def)
  have e': "out = [fd]" "e' = e\<lparr>index_to_fd := AList.delete i (index_to_fd e), free_output_indices := free_output_indices e @ [i]\<rparr>"
    using assms(1,3) fd nn by (auto simp: input_done_def enc_wf_def Let_def)
  have m: "mset (index_to_fd e) = add_mset (i, fd) (mset (AList.delete i (index_to_fd e)))" by (rule delete_member [OF d fd])
  have "\<forall>p\<in>set (AList.delete i (index_to_fd e)). 0 \<le> snd p" using assms(1) by (auto simp: enc_wf_def AList.delete_eq)
  moreover have "fst ` set (AList.delete i (index_to_fd e)) = fst ` set (index_to_fd e) - {i}" by (rule delete_fst)
  moreover have "mset (map fst (index_to_fd e)) = add_mset i (mset (map fst (AList.delete i (index_to_fd e))))"
    "mset (map snd (index_to_fd e)) = add_mset fd (mset (map snd (AList.delete i (index_to_fd e))))"
    using arg_cong [OF m, of "image_mset fst"] arg_cong [OF m, of "image_mset snd"] by simp_all
  ultimately show ?thesis using assms(1) by (simp add: e' enc_wf_def queued_fds_def)
qed

lemma drain_loop_wf:
  assumes "enc_wf n e" "set is \<subseteq> fst ` set (index_to_fd e)" "distinct is" "drain_loop is e = (out, e')"
  shows "enc_wf n e' \<and> queued_fds e = queued_fds e' + mset out"
  using assms
proof (induction "is" arbitrary: e out)
  case (Cons i "is")
  obtain o1 e1 where 1: "input_done i e = (o1, e1)" by fastforce
  obtain o2 where 2: "drain_loop is e1 = (o2, e')" "out = o1 @ o2" using Cons.prems(4) 1 by (auto split: prod.splits)
  have w: "enc_wf n e1" "queued_fds e = queued_fds e1 + mset o1" "fst ` set (index_to_fd e1) = fst ` set (index_to_fd e) - {i}"
    using input_done_wf [OF Cons.prems(1) _ 1] Cons.prems(2) by simp_all
  then have "set is \<subseteq> fst ` set (index_to_fd e1)" using Cons.prems(2,3) by auto
  with Cons.IH [OF w(1) this _ 2(1)] Cons.prems(3) w(2) show ?case by (simp add: 2(2))
qed simp

text \<open>The parts of an encoder that the input buffers depend on.\<close>

definition input_view :: "VideoEncoder \<Rightarrow> bool \<times> bool \<times> bool \<times> nat list \<times> (nat \<times> int) list" where
  "input_view e = (enc_open e, enc_shutting_down e, input_done_callback e, free_output_indices e, index_to_fd e)"

lemma enc_wf_view: "input_view e' = input_view e \<Longrightarrow> enc_wf n e' = enc_wf n e \<and> queued_fds e' = queued_fds e"
  by (simp add: input_view_def enc_wf_def queued_fds_def)

lemma view_timestamp: "input_view (snd (unit_timestamp d e)) = input_view e"
  by (simp add: unit_timestamp_def next_frame_def input_view_def Let_def split: list.split)

lemma view_with_units: "input_view (enc_with_units nals e) = input_view e"
  by (simp add: enc_with_units_def input_view_def Let_def)

lemma view_parse: "input_view (snd (parseSpsPps d e)) = input_view e"
  using view_with_units by (simp add: parseSpsPps_def fold_take_parameter_set Let_def) (simp add: input_view_def)

lemma view_dequeue: "input_view (snd (snd (dequeueOne a e))) = input_view e"
  using view_timestamp view_parse by (simp add: dequeueOne_def Let_def split_beta split: capture_answer.split)

lemma enc_step_wf:
  assumes "enc_step e ins outs e'" "enc_wf n e"
  shows "enc_wf n e' \<and> queued_fds e + mset ins = queued_fds e' + mset outs"
  using assms(1)
proof cases
  case (es_submit fd a ts ok forced)
  then show ?thesis using submit_wf [OF assms(2) es_submit(3,4)] by simp
next
  case (es_done done_is)
  then have "drain_loop done_is e = (outs, e')" using assms(2) by (simp add: drainInputDone_def enc_wf_def)
  then show ?thesis using drain_loop_wf [OF assms(2) es_done(2,3)] es_done(1) by simp
next
  case (es_unit a1 p sets)
  then show ?thesis using enc_wf_view [of e' e n] view_dequeue [of a1 e] assms(2) by simp
next
  case (es_callback b sets)
  then have "input_view e' = input_view e" by (auto simp: enc_setSpsPpsCallback_def input_view_def Let_def split: if_splits)
  then show ?thesis using enc_wf_view [of e' e n] assms(2) es_callback by simp
next
  case (es_bitrate answer bps ok)
  then have "input_view e' = input_view e" by (auto simp: enc_setBitrate_def input_view_def split: if_splits)
  then show ?thesis using enc_wf_view [of e' e n] assms(2) es_bitrate by simp
qed

lemma enc_run_wf:
  "enc_run e ins outs e' \<Longrightarrow> enc_wf n e \<Longrightarrow> enc_wf n e' \<and> queued_fds e + mset ins = queued_fds e' + mset outs"
proof (induction rule: enc_run.induct)
  case (er_step ins outs e1 ins1 outs1 e2)
  then have w: "enc_wf n e1" "queued_fds e + mset ins = queued_fds e1 + mset outs" by simp_all
  have s: "enc_wf n e2" "queued_fds e1 + mset ins1 = queued_fds e2 + mset outs1"
    using enc_step_wf [OF er_step.hyps(2) w(1)] by simp_all
  have "queued_fds e + mset (ins @ ins1) = queued_fds e1 + mset outs + mset ins1" by (simp add: add.assoc [symmetric] w(2))
  also have "\<dots> = queued_fds e1 + mset ins1 + mset outs" by (simp only: ac_simps)
  also have "\<dots> = queued_fds e2 + mset (outs @ outs1)" by (simp add: s(2) ac_simps)
  finally show ?case using s(1) by simp
qed simp

lemma initialize_wf:
  assumes "enc_initialize created hw n cap c (VideoEncoder_init c0) = (True, made, e)"
  shows "enc_wf n (enc_setInputDoneCallback True e)" "queued_fds (enc_setInputDoneCallback True e) = {#}"
  using assms by (auto simp: enc_initialize_def enc_wf_def queued_fds_def VideoEncoder_init_def enc_setInputDoneCallback_def
      Let_def split_beta split: if_splits)

section \<open>The whole life\<close>

text \<open>Any of the steps, and the shutdown at any point (more than once, or with calls that come after it). The
  third list: the descriptors the encoder held when it was shut down, which it forgets.\<close>

inductive enc_life :: "VideoEncoder \<Rightarrow> int list \<Rightarrow> int list \<Rightarrow> int list \<Rightarrow> VideoEncoder \<Rightarrow> bool" for e where
  el_refl: "enc_life e [] [] [] e"
| el_step: "enc_life e ins outs lost e1 \<Longrightarrow> enc_step e1 ins1 outs1 e2 \<Longrightarrow> enc_life e (ins @ ins1) (outs @ outs1) lost e2"
| el_shutdown: "enc_life e ins outs lost e1 \<Longrightarrow> enc_life e ins outs (lost @ map snd (index_to_fd e1)) (enc_shutdown e1)"

lemma enc_run_life: "enc_run e ins outs e' \<Longrightarrow> enc_life e ins outs [] e'"
  by (induction rule: enc_run.induct) (auto intro: enc_life.intros)

definition enc_closed :: "VideoEncoder \<Rightarrow> bool" where
  "enc_closed e \<longleftrightarrow> \<not> enc_open e \<and> enc_shutting_down e \<and> index_to_fd e = [] \<and> free_output_indices e = []"

lemma enc_closed_view: "input_view e' = input_view e \<Longrightarrow> enc_closed e' = enc_closed e"
  by (simp add: input_view_def enc_closed_def)

lemma shutdown_closes: "enc_wf n e \<or> enc_closed e \<Longrightarrow> enc_closed (enc_shutdown e)"
  by (auto simp: enc_shutdown_def enc_wf_def enc_closed_def)

lemma closed_step:
  assumes "enc_step e ins outs e'" "enc_closed e"
  shows "enc_closed e' \<and> ins = [] \<and> outs = []"
  using assms(1)
proof cases
  case (es_submit fd a ts ok forced)
  then show ?thesis using assms(2) by (simp add: enc_submit_def enc_closed_def)
next
  case (es_done done_is)
  then show ?thesis using assms(2) by (simp add: drainInputDone_def enc_closed_def)
next
  case (es_unit a1 p sets)
  then show ?thesis using assms(2) by (simp add: dequeueOne_def enc_closed_def)
next
  case (es_callback b sets)
  then have "input_view e' = input_view e" by (auto simp: enc_setSpsPpsCallback_def input_view_def Let_def split: if_splits)
  then show ?thesis using enc_closed_view [of e' e] assms(2) es_callback by simp
next
  case (es_bitrate answer bps ok)
  then have "input_view e' = input_view e" by (auto simp: enc_setBitrate_def input_view_def split: if_splits)
  then show ?thesis using enc_closed_view [of e' e] assms(2) es_bitrate by simp
qed

lemma enc_life_inv:
  assumes "enc_life e ins outs lost e'" "enc_wf n e"
  shows "(enc_wf n e' \<and> lost = [] \<or> enc_closed e')
    \<and> queued_fds e + mset ins = queued_fds e' + mset outs + mset lost"
  using assms(1)
proof (induction rule: enc_life.induct)
  case (el_step ins outs lost e1 ins1 outs1 e2)
  from el_step.IH show ?case
  proof (elim conjE disjE)
    assume w: "enc_wf n e1" "lost = []" and q: "queued_fds e + mset ins = queued_fds e1 + mset outs + mset lost"
    have "queued_fds e1 + mset ins1 = queued_fds e2 + mset outs1" "enc_wf n e2"
      using enc_step_wf [OF el_step.hyps(2) w(1)] by simp_all
    moreover have "queued_fds e + mset (ins @ ins1) = queued_fds e1 + mset ins1 + mset outs"
      by (simp add: add.assoc [symmetric] q w(2))
    ultimately show ?thesis using w(2) by (simp add: ac_simps)
  next
    assume "enc_closed e1" "queued_fds e + mset ins = queued_fds e1 + mset outs + mset lost"
    then show ?thesis using closed_step [OF el_step.hyps(2)] by (simp add: queued_fds_def enc_closed_def)
  qed
next
  case (el_shutdown ins outs lost e1)
  then have c: "enc_closed (enc_shutdown e1)" using shutdown_closes by blast
  then have "queued_fds (enc_shutdown e1) = {#}" by (simp add: enc_closed_def queued_fds_def)
  with c el_shutdown show ?case by (simp add: queued_fds_def ac_simps)
qed (simp add: assms(2))

section \<open>Properties\<close>

text \<open>C28: From its initialisation to any point of its life, the shutdown and what comes after it included, every
  descriptor the encoder accepted has been handed back once, is queued once, or was queued when the encoder was shut
  down, which forgets it without a call. Until the shutdown none is forgotten, and every index of an input buffer is free
  or queued, exactly once, so that no buffer is lost or used twice; afterwards the encoder holds nothing.\<close>

theorem input_buffers_conserved:
  assumes "enc_initialize created hw n cap c (VideoEncoder_init c0) = (True, made, e0)"
    "enc_life (enc_setInputDoneCallback True e0) ins outs lost e"
  shows "mset ins = mset outs + mset (map snd (index_to_fd e)) + mset lost
    \<and> (if enc_open e then lost = [] \<and> mset (free_output_indices e) + mset (map fst (index_to_fd e)) = mset [0..<n]
        else index_to_fd e = [] \<and> free_output_indices e = [])"
  using enc_life_inv [OF assms(2) initialize_wf(1) [OF assms(1)]] initialize_wf(2) [OF assms(1)]
  by (auto simp: enc_wf_def enc_closed_def queued_fds_def ac_simps)

section \<open>Time stamps\<close>

text \<open>Frames are submitted, and the element gives out \<open>slices\<close> units for each, in order, each after its frame was
  accepted, with the time stamp of the frame or with none.\<close>

definition slices :: "VideoEncoder \<Rightarrow> nat" where
  "slices e = unat (max 1 (effective_slices_per_frame e))"

inductive unit_run :: "VideoEncoder \<Rightarrow> u64 list \<Rightarrow> u64 list \<Rightarrow> VideoEncoder \<Rightarrow> bool" for e where
  ur_refl: "unit_run e [] [] e"
| ur_submit: "unit_run e subs out e1 \<Longrightarrow> enc_submit a fd ts e1 = (True, forced, e2) \<Longrightarrow> unit_run e (subs @ [ts]) out e2"
| ur_refused: "unit_run e subs out e1 \<Longrightarrow> enc_submit a fd ts e1 = (False, forced, e2) \<Longrightarrow> unit_run e subs out e2"
| ur_done: "unit_run e subs out e1 \<Longrightarrow> drainInputDone is e1 = (fds, e2) \<Longrightarrow> unit_run e subs out e2"
| ur_unit: "unit_run e subs out e1 \<Longrightarrow> length out div slices e < length subs
    \<Longrightarrow> driver_ts \<in> {0, subs ! (length out div slices e)}
    \<Longrightarrow> dequeueOne (Captured i driver_ts d) e1 = (Some p, sets, e2) \<Longrightarrow> unit_run e subs (out @ [ep_timestamp_us p]) e2"

text \<open>After \<open>k\<close> units: the frames begun are out of the queue, and the rest of the current frame is expected.\<close>

definition stamps_wf :: "nat \<Rightarrow> u64 list \<Rightarrow> nat \<Rightarrow> VideoEncoder \<Rightarrow> bool" where
  "stamps_wf s subs k e \<longleftrightarrow> slices e = s \<and> (k + s - 1) div s \<le> length subs \<and> timestamp_queue e = drop ((k + s - 1) div s) subs
     \<and> last_capture_ts e = (if k = 0 then 0 else subs ! ((k - 1) div s))
     \<and> unat (remaining_slice_aus e) = (s - k mod s) mod s"

lemma slices_pos: "0 < slices e"
  by (simp add: slices_def unat_gt_0 max_def) auto

lemma unat_minus_one: "0 < (x :: u32) \<Longrightarrow> unat (x - 1) = unat x - 1"
  by (simp add: unat_minus_one word_gt_0)

lemma div_shift: "0 < s \<Longrightarrow> 0 < k \<Longrightarrow> (k + s - 1) div s = Suc ((k - 1) div s)" for k s :: nat
  by (cases k) simp_all

lemma next_frame_wf:
  assumes "slices e = s" "k mod s = 0" "k div s < length subs" "timestamp_queue e = drop (Suc (k div s)) subs"
  shows "stamps_wf s subs (Suc k) (snd (next_frame (subs ! (k div s)) e))"
proof -
  have s: "0 < s" using slices_pos [of e] assms(1) by simp
  have "(Suc k + s - 1) div s = Suc (k div s)" using s by simp
  moreover have "(s - Suc k mod s) mod s = s - 1"
  proof (cases "s = 1")
    case False
    then have "Suc k mod s = 1" using s assms(2) by (simp add: mod_Suc)
    then show ?thesis using s by simp
  qed simp
  moreover have "unat (remaining_slice_aus (snd (next_frame (subs ! (k div s)) e))) = s - 1"
    using assms(1) s unat_minus_one [of "max 1 (effective_slices_per_frame e)"]
    by (auto simp: next_frame_def Let_def slices_def word_less_nat_alt unat_gt_0)
  ultimately show ?thesis using assms by (simp add: stamps_wf_def next_frame_def slices_def Let_def)
qed

lemma unit_stamp:
  assumes w: "stamps_wf s subs k e" and k: "k div s < length subs" and d: "d \<in> {0, subs ! (k div s)}"
  shows "fst (unit_timestamp d e) = subs ! (k div s) \<and> stamps_wf s subs (Suc k) (snd (unit_timestamp d e))"
proof (cases "k mod s = 0")
  case True
  have s: "0 < s" using slices_pos [of e] w by (simp add: stamps_wf_def)
  have q: "(k + s - 1) div s = k div s"
  proof -
    obtain m where "k = s * m" using True by auto
    then have "(k + s - 1) div s = (s * m + (s - 1)) div s" using s by simp
    also have "\<dots> = m" using s by (intro div_nat_eqI) simp_all
    finally show ?thesis using \<open>k = s * m\<close> s by simp
  qed
  have tq: "timestamp_queue e = subs ! (k div s) # drop (Suc (k div s)) subs"
    using w k by (simp add: stamps_wf_def q Cons_nth_drop_Suc del: One_nat_def)
  have "unat (remaining_slice_aus e) = 0" using w True by (simp add: stamps_wf_def)
  then have r: "\<not> 0 < remaining_slice_aus e" by (simp add: unat_eq_0)
  let ?e = "e\<lparr>timestamp_queue := drop (Suc (k div s)) subs\<rparr>"
  have u: "unit_timestamp d e = next_frame (subs ! (k div s)) ?e"
    using r by (simp add: unit_timestamp_def tq Let_def)
  have "stamps_wf s subs (Suc k) (snd (next_frame (subs ! (k div s)) ?e))"
    by (rule next_frame_wf) (use w True k in \<open>simp_all add: stamps_wf_def slices_def\<close>)
  then show ?thesis by (simp add: u) (simp add: next_frame_def Let_def)
next
  case False
  have s: "0 < s" using slices_pos [of e] w by (simp add: stamps_wf_def)
  have s1: "1 < s" using False s by (cases "s = 1") auto
  have km: "k mod s < s" using s by simp
  have k0: "k \<noteq> 0" using False by (metis mod_0)
  have kd: "k = s * (k div s) + k mod s" by simp
  have l: "(k - 1) div s = k div s"
  proof -
    have "k - 1 = s * (k div s) + (k mod s - 1)" using kd False by simp
    moreover have "(k mod s - 1) div s = 0" using km by simp
    ultimately show ?thesis using s by (metis add.right_neutral div_mult_self4 less_not_refl)
  qed
  have q: "(k + s - 1) div s = Suc (k div s)" using div_shift [OF s, of k] k0 l by simp
  have last: "last_capture_ts e = subs ! (k div s)" using w k0 l by (simp add: stamps_wf_def)
  have rem: "unat (remaining_slice_aus e) = s - k mod s" using w False km by (simp add: stamps_wf_def)
  then have r: "0 < remaining_slice_aus e" using km by (simp add: word_less_nat_alt)
  have "1 < max 1 (effective_slices_per_frame e)" using w s1 by (simp add: stamps_wf_def slices_def word_less_nat_alt)
  then have u: "unit_timestamp d e = (subs ! (k div s), e\<lparr>remaining_slice_aus := remaining_slice_aus e - 1\<rparr>)"
    using r d last by (auto simp: unit_timestamp_def Let_def)
  have "(s - Suc k mod s) mod s = s - k mod s - 1"
    using False km s1 by (cases "Suc (k mod s) = s") (simp_all add: mod_Suc)
  moreover have "(Suc k + s - 1) div s = Suc (k div s)" using s by simp
  ultimately show ?thesis using w k q r rem last unat_minus_one [OF r] by (simp add: u stamps_wf_def slices_def)
qed

definition stamp_view :: "VideoEncoder \<Rightarrow> u32 \<times> u64 list \<times> u64 \<times> u32" where
  "stamp_view e = (effective_slices_per_frame e, timestamp_queue e, last_capture_ts e, remaining_slice_aus e)"

lemma stamps_wf_view: "stamp_view e' = stamp_view e \<Longrightarrow> stamps_wf s subs k e' = stamps_wf s subs k e"
  by (simp add: stamp_view_def stamps_wf_def slices_def)

lemma stamp_view_drain: "drain_loop is e = (out, e') \<Longrightarrow> stamp_view e' = stamp_view e"
  by (induction "is" arbitrary: e out) (auto simp: input_done_def stamp_view_def Let_def split: prod.splits)

lemma stamp_view_parse: "stamp_view (snd (parseSpsPps d e)) = stamp_view e"
  by (simp add: parseSpsPps_def fold_take_parameter_set enc_with_units_def Let_def stamp_view_def)

lemma submit_stamps:
  assumes "enc_submit a fd ts e = (ok, forced, e')"
  shows "stamp_view e' = (if ok then stamp_view (e\<lparr>timestamp_queue := timestamp_queue e @ [ts]\<rparr>) else stamp_view e)"
  using assms by (auto simp: enc_submit_def stamp_view_def Let_def split: if_splits list.splits)

lemma submit_stamps_wf:
  assumes w: "stamps_wf s subs k e" and submit: "enc_submit a fd ts e = (ok, forced, e')"
  shows "stamps_wf s (if ok then subs @ [ts] else subs) k e'"
proof (cases ok)
  case True
  define c where "c = (k + s - 1) div s"
  have c: "c \<le> length subs" "timestamp_queue e = drop c subs" using w unfolding stamps_wf_def c_def by blast+
  have "(k - 1) div s < length subs" if "k \<noteq> 0"
  proof -
    have s: "0 < s" using slices_pos [of e] w by (simp add: stamps_wf_def)
    have "c = Suc ((k - 1) div s)" unfolding c_def using div_shift [OF s, of k] that by simp
    then show ?thesis using c by linarith
  qed
  then have "last_capture_ts e = (if k = 0 then 0 else (subs @ [ts]) ! ((k - 1) div s))"
    using w unfolding stamps_wf_def by (simp add: nth_append)
  then have "stamps_wf s (subs @ [ts]) k (e\<lparr>timestamp_queue := timestamp_queue e @ [ts]\<rparr>)"
    using w c unfolding stamps_wf_def slices_def c_def [symmetric] by simp
  moreover have "stamp_view e' = stamp_view (e\<lparr>timestamp_queue := timestamp_queue e @ [ts]\<rparr>)" using submit_stamps [OF submit] True by simp
  ultimately have "stamps_wf s (subs @ [ts]) k e'" using stamps_wf_view by blast
  then show ?thesis using True by simp
next
  case False
  then have "stamp_view e' = stamp_view e" using submit_stamps [OF submit] by simp
  then have "stamps_wf s subs k e'" using w stamps_wf_view by blast
  then show ?thesis using False by simp
qed

text \<open>C29: Every encoded unit bears the time stamp of the frame it belongs to, with any number of slices per frame,
  and whether the element reports the time stamp of the frame with a unit or none.\<close>

theorem units_bear_frame_timestamps:
  assumes "timestamp_queue e = []" "last_capture_ts e = 0" "remaining_slice_aus e = 0" "unit_run e subs out e'"
  shows "\<forall>i < length out. i div slices e < length subs \<and> out ! i = subs ! (i div slices e)"
proof -
  let ?s = "slices e"
  have "(?s - 1) div ?s = 0" using slices_pos [of e] by simp
  then have init: "stamps_wf ?s [] 0 e" using assms(1-3) by (simp add: stamps_wf_def)
  have "stamps_wf ?s subs (length out) e' \<and> (\<forall>i < length out. i div ?s < length subs \<and> out ! i = subs ! (i div ?s))"
    using assms(4)
  proof (induction rule: unit_run.induct)
    case (ur_submit subs out e1 a fd ts forced e2)
    then show ?case using submit_stamps_wf [of ?s subs "length out" e1 a fd ts True forced e2] by (auto simp: nth_append)
  next
    case (ur_refused subs out e1 a fd ts forced e2)
    then show ?case using submit_stamps_wf [of ?s subs "length out" e1 a fd ts False forced e2] by simp
  next
    case (ur_done subs out e1 done_is fds e2)
    then have "stamp_view e2 = stamp_view e1" using stamp_view_drain by (auto simp: drainInputDone_def split: if_splits)
    then show ?case using ur_done stamps_wf_view by blast
  next
    case (ur_unit subs out e1 driver_ts i d p sets e2)
    let ?k = "length out"
    have d: "ep_timestamp_us p = fst (unit_timestamp driver_ts e1)" "e2 = snd (parseSpsPps d (snd (unit_timestamp driver_ts e1)))"
      using ur_unit.hyps(4) by (auto simp: dequeueOne_def Let_def split_beta split: if_splits)
    have u: "fst (unit_timestamp driver_ts e1) = subs ! (?k div ?s)" "stamps_wf ?s subs (Suc ?k) (snd (unit_timestamp driver_ts e1))"
      using unit_stamp [of ?s subs ?k e1 driver_ts] ur_unit by simp_all
    then have "stamps_wf ?s subs (Suc ?k) e2" using stamps_wf_view [OF stamp_view_parse] by (simp add: d(2))
    then show ?case using ur_unit u(1) by (auto simp: d(1) nth_append less_Suc_eq)
  qed (use init in simp)
  then show ?thesis by blast
qed

section \<open>Encoder and module\<close>

lemma detect_units:
  assumes "\<forall>n\<in>set nals. clean n" "nals \<noteq> []"
  shows "detectH264Format (annexb_stream nals) = AnnexB"
  using assms by (cases nals) (simp_all add: detectH264Format_eq detect_annexb_stream)

text \<open>The module that holds the parameter sets of an encoder.\<close>

definition same_sets :: "VideoEncoder \<Rightarrow> VideoModule \<Rightarrow> bool" where
  "same_sets e v \<longleftrightarrow> ec_codec (enc_config e) = v_codec (vm_config v) \<and> enc_sps e = cached_sps v \<and> enc_pps e = cached_pps v
     \<and> enc_vps e = cached_vps v \<and> (sps_pps_sent e \<longleftrightarrow> parameterSetsReady v)"

lemma same_sets_ready: "same_sets e v \<Longrightarrow> enc_sets_ready e = parameterSetsReady v"
  by (auto simp: same_sets_def enc_sets_ready_def parameterSetsReady_def)

lemma parse_units:
  assumes "\<forall>n\<in>set nals. clean n" "nals \<noteq> []"
  shows "snd (parseSpsPps (annexb_stream nals) e) =
    (if sps_pps_sent e then e else (enc_with_units nals e)\<lparr>sps_pps_sent := enc_sets_ready (enc_with_units nals e)\<rparr>)"
proof -
  have "(enc_with_units nals e)\<lparr>sps_pps_sent := False\<rparr> = enc_with_units nals e" if "\<not> sps_pps_sent e"
    using that by (simp add: enc_with_units_def Let_def)
  then show ?thesis
    by (simp add: parseSpsPps_def detect_units [OF assms] enc_annexb_units [OF assms(1)] fold_take_parameter_set Let_def)
qed

lemma update_units:
  assumes "\<forall>n\<in>set nals. clean n" "nals \<noteq> []"
  shows "\<exists>b. snd (updateParameterSets (Some (annexb_stream nals)) v) =
    (if parameterSetsReady v then v else (with_units nals v)\<lparr>sps_pps_emitted := b\<rparr>)"
proof (cases "parameterSetsReady v")
  case True
  then show ?thesis by (simp add: updateParameterSets_def)
next
  case False
  have "annexb_stream nals \<noteq> []" using annexb_stream_length [OF assms(2,1)] by auto
  moreover have "detectStreamFormat (annexb_stream nals) = AnnexB" using detect_units [OF assms] by (simp add: detectH264Format_eq)
  moreover have "fold take_nal nals (False, v) = (parameterSetsReady (with_units nals v), with_units nals v)"
    using fold_take_nal [of False v nals] False by simp
  ultimately have "snd (updateParameterSets (Some (annexb_stream nals)) v) =
      (if parameterSetsReady (with_units nals v) then snd (emitCachedParameterSetsIfReady (with_units nals v)) else with_units nals v)"
    using False by (simp add: updateParameterSets_def annexb_units [OF assms(1)])
  moreover have "\<exists>b. snd (emitCachedParameterSetsIfReady u) = u\<lparr>sps_pps_emitted := b\<rparr>" for u
    by (cases u) (auto simp: emitCachedParameterSetsIfReady_def)
  moreover have "u = u\<lparr>sps_pps_emitted := sps_pps_emitted u\<rparr>" for u :: VideoModule by simp
  ultimately show ?thesis using False by metis
qed

text \<open>C13: The encoder and the module find the parameter sets with different loops, but agree: an encoder and a
  module that hold the same parameter sets hold the same ones after any access unit of clean units, and the one
  has reported them exactly when the other is ready. The encoder calls the access unit a key frame exactly when one
  of its units is an IDR picture (or, for H.265, another random access point).\<close>

theorem encoder_and_module_agree:
  assumes "\<forall>n\<in>set nals. clean n" "nals \<noteq> []" "same_sets e v"
  shows "same_sets (snd (parseSpsPps (annexb_stream nals) e)) (snd (updateParameterSets (Some (annexb_stream nals)) v))
    \<and> (containsH264IdrNal (annexb_stream nals) \<longleftrightarrow> (\<exists>n\<in>set nals. n ! 0 AND 0x1F = 5))
    \<and> (containsH265IdrNal (annexb_stream nals) \<longleftrightarrow> (\<exists>n\<in>set nals. 2 \<le> length n \<and> drop_bit 1 (n ! 0) AND 0x3F \<in> {19, 20, 21}))"
proof -
  obtain b where b: "snd (updateParameterSets (Some (annexb_stream nals)) v) =
      (if parameterSetsReady v then v else (with_units nals v)\<lparr>sps_pps_emitted := b\<rparr>)"
    using update_units [OF assms(1,2)] by blast
  have "same_sets (snd (parseSpsPps (annexb_stream nals) e)) (snd (updateParameterSets (Some (annexb_stream nals)) v))"
    using assms(3) unfolding parse_units [OF assms(1,2)] b
    by (auto simp: same_sets_def enc_with_units_def with_units_def enc_sets_ready_def parameterSetsReady_def Let_def)
  moreover have "length n < 1 \<longleftrightarrow> False" if "n \<in> set nals" for n
    using assms(1) that by (auto simp: clean_def)
  ultimately show ?thesis
    by (auto simp: containsH264IdrNal_def containsH265IdrNal_def detect_units [OF assms(1,2)] list_ex_iff
        enc_annexb_units [OF assms(1)] Let_def not_less)
qed

section \<open>Samples\<close>

definition encoder_config0 :: EncoderConfig where
  "encoder_config0 = \<lparr>ec_codec = kH264, ec_width = 3840, ec_height = 1520, ec_framerate = 30, ec_bitrate = 40000000,
     input_format = kNv12, idr_interval = 30, idr_interval_gops = 1, slice_intra_refresh_interval_slices = 0,
     force_idr_every_n = 0, qp_range_i_min = 0, qp_range_i_max = 0, qp_range_p_min = 0, qp_range_p_max = 0,
     max_perf_mode = False, hw_preset_type = 1, rate_control_mode = 0, peak_bitrate = 100000000, virtual_buffer_size = 50000000,
     num_reference_frames = 1, num_b_frames = 0, insert_sps_pps_at_idr = 1, slice_level_encode = True, num_slices = 2,
     poc_type = - 1, insert_aud = False, output_plane_buffers = 2, capture_plane_buffers = 2, encoder_framerate_override = 0\<rparr>"

text \<open>An encoder with two slices per frame; every call of the element succeeds.\<close>

definition encoder0 :: VideoEncoder where
  "encoder0 = snd (snd (enc_initialize True (\<lambda>_. True) 2 2 encoder_config0 (VideoEncoder_init encoder_config0)))"

lemma run_controls_ok: "snd (run_controls (\<lambda>_. True) cs)"
  by (induction cs) (auto split: prod.splits)

lemma encoder0_initialized:
  "\<exists>made. enc_initialize True (\<lambda>_. True) 2 2 encoder_config0 (VideoEncoder_init encoder_config0) = (True, made, encoder0)"
  using run_controls_ok by (simp add: encoder0_def enc_initialize_def Let_def split_beta)

lemma encoder0_fields:
  "enc_open encoder0" "\<not> enc_shutting_down encoder0" "free_output_indices encoder0 = [0, 1]" "index_to_fd encoder0 = []"
  "effective_slices_per_frame encoder0 = 2" "timestamp_queue encoder0 = []" "last_capture_ts encoder0 = 0"
  "remaining_slice_aus encoder0 = 0" "enc_config encoder0 = encoder_config0" "\<not> sps_pps_sent encoder0"
  "enc_sps encoder0 = []" "enc_pps encoder0 = []" "enc_vps encoder0 = []"
  using run_controls_ok
  by (simp_all add: encoder0_def enc_initialize_def Let_def split_beta VideoEncoder_init_def encoder_config0_def upt_conv_Cons)

definition all_well :: submit_answer where
  "all_well = \<lparr>sa_buffer = True, sa_surface = True, sa_planes_match = True, sa_queued = True\<rparr>"

text \<open>Descriptor 7 is accepted, descriptor 9 is refused by the element, and 7 is handed back; then 9 is accepted
  and the encoder shut down, which forgets it.\<close>

theorem input_buffers_conserved_witness:
  "(\<exists>e. enc_life (enc_setInputDoneCallback True encoder0) [7] [7] [] e \<and> mset (free_output_indices e) = {#0, 1#})
   \<and> (\<exists>e lost. enc_life (enc_setInputDoneCallback True encoder0) [7, 9] [7] lost (enc_shutdown e) \<and> mset lost = {#9#})"
proof -
  obtain made where i: "enc_initialize True (\<lambda>_. True) 2 2 encoder_config0 (VideoEncoder_init encoder_config0) = (True, made, encoder0)"
    using encoder0_initialized by blast
  let ?e = "enc_setInputDoneCallback True encoder0"
  define e1 where "e1 = snd (snd (enc_submit all_well 7 100 ?e))"
  define e2 where "e2 = snd (snd (enc_submit (all_well\<lparr>sa_queued := False\<rparr>) 9 200 e1))"
  define e3 where "e3 = snd (drainInputDone [0] e2)"
  have s1: "enc_submit all_well 7 100 ?e = (True, False, e1)"
    by (simp add: e1_def enc_submit_def enc_setInputDoneCallback_def encoder0_fields all_well_def Let_def encoder_config0_def)
  have e1: "index_to_fd e1 = [(0, 7)]" "free_output_indices e1 = [1]" "enc_open e1" "\<not> enc_shutting_down e1" "input_done_callback e1"
    "enc_config e1 = encoder_config0" "timestamp_queue e1 = [100]"
    by (simp_all add: e1_def enc_submit_def enc_setInputDoneCallback_def encoder0_fields all_well_def Let_def)
  have s2: "enc_submit (all_well\<lparr>sa_queued := False\<rparr>) 9 200 e1 = (False, False, e2)"
    by (simp add: e2_def enc_submit_def e1 all_well_def Let_def encoder_config0_def)
  have e2: "index_to_fd e2 = [(0, 7)]" "free_output_indices e2 = [1]" "enc_open e2" "\<not> enc_shutting_down e2" "input_done_callback e2"
    by (simp_all add: e2_def enc_submit_def e1 all_well_def Let_def)
  have s3: "drainInputDone [0] e2 = ([7], e3)"
    by (simp add: e3_def drainInputDone_def e2 input_done_def Let_def)
  have "enc_run ?e [7] [] e1" using er_step [OF er_refl es_submit [OF _ s1]] by simp
  from er_step [OF this es_submit [OF _ s2]] have "enc_run ?e [7] [] e2" by simp
  from er_step [OF this es_done [OF _ _ s3]] have r: "enc_run ?e [7] [7] e3" by (simp add: e2)
  have e3: "index_to_fd e3 = []" "free_output_indices e3 = [1, 0]" "enc_open e3" "\<not> enc_shutting_down e3"
    by (simp_all add: e3_def drainInputDone_def e2 input_done_def Let_def)
  note l3 = enc_run_life [OF r]
  have f: "mset (free_output_indices e3) = {#0, 1#}"
    using input_buffers_conserved [OF i l3] by (simp add: e3 upt_conv_Cons numeral_2_eq_2)
  define e4 where "e4 = snd (snd (enc_submit all_well 9 300 e3))"
  have s4: "enc_submit all_well 9 300 e3 = (True, fst (snd (enc_submit all_well 9 300 e3)), e4)"
    by (simp add: e4_def enc_submit_def e3 all_well_def Let_def)
  have o4: "enc_open e4" by (simp add: e4_def enc_submit_def e3 all_well_def Let_def)
  from el_shutdown [OF el_step [OF l3 es_submit [OF _ s4]]]
  have l4: "enc_life ?e [7, 9] [7] (map snd (index_to_fd e4)) (enc_shutdown e4)" by simp
  have m: "mset (map snd (index_to_fd e4)) = {#9#}"
    using input_buffers_conserved [OF i l4] by (simp add: enc_shutdown_def o4)
  show ?thesis
    using l3 f l4 m by (intro conjI exI [of _ e3] exI [of _ e4] exI [of _ "map snd (index_to_fd e4)"])
qed

text \<open>Two slices of the first frame, the second without a time stamp of the element, and one of the second frame.\<close>

theorem units_bear_frame_timestamps_witness:
  "\<exists>e out. unit_run encoder0 [100, 200] out e \<and> out = [100, 100, 200]"
proof -
  define e1 where "e1 = snd (snd (enc_submit all_well 7 100 encoder0))"
  define e2 where "e2 = snd (snd (enc_submit all_well 8 200 e1))"
  have s: "slices encoder0 = 2" by (simp add: slices_def encoder0_fields)
  have s1: "enc_submit all_well 7 100 encoder0 = (True, False, e1)"
    by (simp add: e1_def enc_submit_def encoder0_fields all_well_def Let_def encoder_config0_def)
  have e1: "free_output_indices e1 = [1]" "enc_open e1" "\<not> enc_shutting_down e1" "enc_config e1 = encoder_config0"
    by (simp_all add: e1_def enc_submit_def encoder0_fields all_well_def Let_def)
  have s2: "enc_submit all_well 8 200 e1 = (True, False, e2)"
    by (simp add: e2_def enc_submit_def e1 all_well_def Let_def encoder_config0_def)
  have e2: "enc_open e2" "\<not> enc_shutting_down e2" by (simp_all add: e2_def enc_submit_def e1 all_well_def Let_def)
  have open_unit: "\<exists>p sets e'. dequeueOne (Captured i t [1]) e = (Some p, sets, e') \<and> enc_open e' \<and> \<not> enc_shutting_down e'"
    if "enc_open e" "\<not> enc_shutting_down e" for e i t
    using that view_dequeue [of "Captured i t [1]" e]
    by (cases "parseSpsPps [1] (snd (unit_timestamp t e))") (auto simp: dequeueOne_def Let_def split_beta input_view_def)
  obtain p3 sets3 e3 where d3: "dequeueOne (Captured 0 100 [1]) e2 = (Some p3, sets3, e3)" "enc_open e3" "\<not> enc_shutting_down e3"
    using open_unit e2 by blast
  obtain p4 sets4 e4 where d4: "dequeueOne (Captured 1 0 [1]) e3 = (Some p4, sets4, e4)" "enc_open e4" "\<not> enc_shutting_down e4"
    using open_unit d3 by blast
  obtain p5 sets5 e5 where d5: "dequeueOne (Captured 0 200 [1]) e4 = (Some p5, sets5, e5)" using open_unit d4 by blast
  have "unit_run encoder0 [100, 200] [] e2" using ur_submit [OF ur_submit [OF ur_refl s1] s2] by simp
  from ur_unit [OF this _ _ d3(1)] have "unit_run encoder0 [100, 200] [ep_timestamp_us p3] e3" by (simp add: s)
  from ur_unit [OF this _ _ d4(1)] have "unit_run encoder0 [100, 200] [ep_timestamp_us p3, ep_timestamp_us p4] e4" by (simp add: s)
  from ur_unit [OF this _ _ d5] have r: "unit_run encoder0 [100, 200] [ep_timestamp_us p3, ep_timestamp_us p4, ep_timestamp_us p5] e5"
    by (simp add: s)
  have t: "\<forall>i<3. [ep_timestamp_us p3, ep_timestamp_us p4, ep_timestamp_us p5] ! i = [100, 200] ! (i div 2)"
    using units_bear_frame_timestamps [OF encoder0_fields(6,7,8) r] by (simp add: s)
  have "[ep_timestamp_us p3, ep_timestamp_us p4, ep_timestamp_us p5] = [100, 100, 200]"
    using t [rule_format, of 0] t [rule_format, of 1] t [rule_format, of 2] by simp
  then show ?thesis using r by metis
qed

theorem encoder_and_module_agree_witness:
  "same_sets (snd (parseSpsPps (annexb_stream [[0x67, 1, 2], [0x68, 0, 3]]) encoder0))
      (snd (updateParameterSets (Some (annexb_stream [[0x67, 1, 2], [0x68, 0, 3]])) video_h264))
    \<and> \<not> containsH264IdrNal (annexb_stream [[0x67, 1, 2], [0x68, 0, 3]])"
proof -
  have "\<forall>n\<in>set [[0x67, 1, 2], [0x68, 0, 3 :: u8]]. clean n" using clean_examples by simp
  moreover have "same_sets encoder0 video_h264"
    by (simp add: same_sets_def encoder0_fields encoder_config0_def video_h264_def VideoModule_init_def parameterSetsReady_def)
  ultimately show ?thesis using encoder_and_module_agree [of "[[0x67, 1, 2], [0x68, 0, 3 :: u8]]" encoder0 video_h264] by simp
qed

end
