(* ===== verification/SharedFrames.thy ===== *)
theory SharedFrames
  imports VideoStream EncoderFacts
begin

text \<open>
  The surfaces that the encoder and the eye images share: what each operation of the video pipeline does to the
  references of its frames and to the pool they come from. The runs of the threads are in \<open>StreamFacts\<close>.
\<close>

section \<open>Who holds a surface\<close>

definition current_owner :: "VideoStream \<Rightarrow> FrameOwner" where
  "current_owner s = (if undistorter s \<noteq> None then ByUndistorter else if converter s \<noteq> None then ByConverter else ByNobody)"

definition pool_fds :: "VideoStream \<Rightarrow> int list" where
  "pool_fds s = (case undistorter s of Some u \<Rightarrow> dmabuf_fds (und_pool u)
     | None \<Rightarrow> (case converter s of Some v \<Rightarrow> dmabuf_fds (cv_pool v) | None \<Rightarrow> []))"

definition free_pool :: "VideoStream \<Rightarrow> int list" where
  "free_pool s = (case undistorter s of Some u \<Rightarrow> free_fds (und_pool u)
     | None \<Rightarrow> (case converter s of Some v \<Rightarrow> free_fds (cv_pool v) | None \<Rightarrow> []))"

definition pool_owned :: "VideoStream \<Rightarrow> int multiset \<Rightarrow> bool" where
  "pool_owned s held \<longleftrightarrow> (case undistorter s of Some u \<Rightarrow> undistorter.owned u held
     | None \<Rightarrow> (case converter s of Some v \<Rightarrow> converter.owned v held | None \<Rightarrow> held = {#}))"

text \<open>The frames in \<open>s\<close> and in \<open>locals\<close> are different objects with different surfaces of the present pool, and the
  surfaces not free are theirs.\<close>

definition frames_ok :: "VideoStream \<Rightarrow> SharedNv12Frame list \<Rightarrow> bool" where
  "frames_ok s locals \<longleftrightarrow>
     inj_on sf_address (set (references s @ locals)) \<and> inj_on sf_fd (set (references s @ locals))
     \<and> (\<forall>f\<in>set (references s @ locals). 0 \<le> sf_fd f \<and> sf_address f < next_address s \<and> sf_owner f = current_owner s)
     \<and> pool_owned s (mset_set (sf_fd ` set (references s @ locals)))"

definition pending_ok :: "VideoStream \<Rightarrow> bool" where
  "pending_ok s \<longleftrightarrow> distinct (map fst (pending_frames s)) \<and> (\<forall>(fd, f)\<in>set (pending_frames s). sf_fd f = fd)
     \<and> (case encoder s of None \<Rightarrow> pending_frames s = []
        | Some e \<Rightarrow> (\<exists>n. enc_wf n e) \<and> mset (map fst (pending_frames s)) = queued_fds e)"

lemma frames_ok_cong:
  "set (references s' @ locals') = set (references s @ locals) \<Longrightarrow> next_address s' = next_address s
   \<Longrightarrow> undistorter s' = undistorter s \<Longrightarrow> converter s' = converter s \<Longrightarrow> frames_ok s' locals' = frames_ok s locals"
  by (simp only: frames_ok_def pool_owned_def current_owner_def)

lemma pending_ok_cong: "pending_frames s' = pending_frames s \<Longrightarrow> encoder s' = encoder s \<Longrightarrow> pending_ok s' = pending_ok s"
  by (simp only: pending_ok_def)

lemma release_frame_same [simp]:
  "references (release_frame f s) = references s" "next_address (release_frame f s) = next_address s"
  "encoder (release_frame f s) = encoder s" "pending_frames (release_frame f s) = pending_frames s"
  "vs_threads (release_frame f s) = vs_threads s" "vs_eye (release_frame f s) = vs_eye s"
  "current_owner (release_frame f s) = current_owner s" "vs_config (release_frame f s) = vs_config s"
  "pipeline_running (release_frame f s) = pipeline_running s" "vs_running (release_frame f s) = vs_running s"
  "last_bitrate_update (release_frame f s) = last_bitrate_update s"
  by (simp_all add: release_frame_def references_def eye_references_def current_owner_def split: FrameOwner.split)

lemma drop_ref_same [simp]:
  "references (drop_ref locals f s) = references s" "next_address (drop_ref locals f s) = next_address s"
  "encoder (drop_ref locals f s) = encoder s" "pending_frames (drop_ref locals f s) = pending_frames s"
  "vs_threads (drop_ref locals f s) = vs_threads s" "vs_eye (drop_ref locals f s) = vs_eye s"
  "current_owner (drop_ref locals f s) = current_owner s" "vs_config (drop_ref locals f s) = vs_config s"
  "pipeline_running (drop_ref locals f s) = pipeline_running s" "vs_running (drop_ref locals f s) = vs_running s"
  "last_bitrate_update (drop_ref locals f s) = last_bitrate_update s"
  by (simp_all add: drop_ref_def)

lemma release_frame_owned:
  assumes "pool_owned s (add_mset (sf_fd f) held)" "0 \<le> sf_fd f" "sf_owner f = current_owner s"
  shows "pool_owned (release_frame f s) held"
proof (cases "undistorter s")
  case (Some u)
  then show ?thesis using assms undistorter.owned_release [of u "sf_fd f" held]
    by (simp add: pool_owned_def release_frame_def current_owner_def)
next
  case None
  then show ?thesis using assms converter.owned_release [of _ "sf_fd f" held]
    by (cases "converter s") (auto simp: pool_owned_def release_frame_def current_owner_def)
qed

lemma drop_ref_ok:
  assumes "frames_ok s (f # locals)"
  shows "frames_ok (drop_ref locals f s) locals"
proof (cases "sf_address f \<in> sf_address ` set (references s @ locals)")
  case True
  then have "f \<in> set (references s @ locals)" using assms unfolding frames_ok_def inj_on_def by auto
  then have "set (references s @ locals) = set (references s @ f # locals)" by auto
  then show ?thesis using assms True frames_ok_cong [of s locals s "f # locals"] by (simp add: drop_ref_def)
next
  case False
  define R where "R = set (references s @ locals)"
  have R: "set (references s @ f # locals) = insert f R" "f \<notin> R" "finite R" using False by (auto simp: R_def)
  have inj: "inj_on sf_fd (insert f R)" "inj_on sf_address (insert f R)" using assms by (simp_all only: frames_ok_def R(1))
  then have "sf_fd f \<notin> sf_fd ` R" using R(2) by auto
  then have "mset_set (sf_fd ` insert f R) = add_mset (sf_fd f) (mset_set (sf_fd ` R))" using R(3) by simp
  then have "pool_owned s (add_mset (sf_fd f) (mset_set (sf_fd ` R)))" using assms by (simp only: frames_ok_def R(1))
  then have "pool_owned (release_frame f s) (mset_set (sf_fd ` R))"
    using release_frame_owned assms unfolding frames_ok_def R(1) by blast
  then have "pool_owned (drop_ref locals f s) (mset_set (sf_fd ` R))" using False by (simp add: drop_ref_def)
  moreover have "\<forall>g\<in>R. 0 \<le> sf_fd g \<and> sf_address g < next_address s \<and> sf_owner g = current_owner s"
    using assms unfolding frames_ok_def R(1) by blast
  moreover have "inj_on sf_fd R" "inj_on sf_address R" using inj by simp_all
  ultimately show ?thesis unfolding frames_ok_def drop_ref_same R_def by blast
qed

lemma current_owner_updates [simp]:
  "current_owner (s\<lparr>vs_eye := x1\<rparr>) = current_owner s" "current_owner (s\<lparr>vs_threads := x2\<rparr>) = current_owner s"
  "current_owner (s\<lparr>pending_frames := x3\<rparr>) = current_owner s" "current_owner (s\<lparr>encoder := x4\<rparr>) = current_owner s"
  "current_owner (s\<lparr>next_address := x5\<rparr>) = current_owner s" "current_owner (s\<lparr>enc_start_us_by_ts := x6\<rparr>) = current_owner s"
  "current_owner (s\<lparr>decoder := x7\<rparr>) = current_owner s" "current_owner (s\<lparr>vs_stats := x8\<rparr>) = current_owner s"
  by (simp_all add: current_owner_def)

lemma drop_queue_ok:
  "frames_ok s locals \<Longrightarrow> nv12_queue (vs_eye s) = fs \<Longrightarrow>
   frames_ok (drop_queue locals fs s) locals \<and> vs_eye (drop_queue locals fs s) = (vs_eye s)\<lparr>nv12_queue := []\<rparr>"
proof (induction fs arbitrary: s)
  case Nil
  then show ?case by simp
next
  case (Cons f fs)
  define s1 where "s1 = s\<lparr>vs_eye := (vs_eye s)\<lparr>nv12_queue := fs\<rparr>\<rparr>"
  have "set (references s1 @ f # locals) = set (references s @ locals)"
    using Cons.prems(2) by (auto simp: s1_def references_def eye_references_def)
  then have "frames_ok s1 (f # locals) = frames_ok s locals" by (rule frames_ok_cong) (simp_all add: s1_def)
  then have ok: "frames_ok (drop_ref locals f s1) locals" using drop_ref_ok Cons.prems(1) by blast
  have "nv12_queue (vs_eye (drop_ref locals f s1)) = fs" by (simp add: s1_def)
  from Cons.IH [OF ok this] show ?case by (simp add: s1_def)
qed

lemma drop_queue_same [simp]:
  "next_address (drop_queue locals fs s) = next_address s" "encoder (drop_queue locals fs s) = encoder s"
  "pending_frames (drop_queue locals fs s) = pending_frames s" "vs_threads (drop_queue locals fs s) = vs_threads s"
  "current_owner (drop_queue locals fs s) = current_owner s" "vs_config (drop_queue locals fs s) = vs_config s"
  "pipeline_running (drop_queue locals fs s) = pipeline_running s" "vs_running (drop_queue locals fs s) = vs_running s"
  "last_bitrate_update (drop_queue locals fs s) = last_bitrate_update s"
  by (induction locals fs s rule: drop_queue.induct) simp_all

lemma clear_queue_same [simp]:
  "next_address (clear_nv12_queue locals s) = next_address s" "encoder (clear_nv12_queue locals s) = encoder s"
  "pending_frames (clear_nv12_queue locals s) = pending_frames s" "vs_threads (clear_nv12_queue locals s) = vs_threads s"
  "current_owner (clear_nv12_queue locals s) = current_owner s" "vs_config (clear_nv12_queue locals s) = vs_config s"
  "pipeline_running (clear_nv12_queue locals s) = pipeline_running s" "vs_running (clear_nv12_queue locals s) = vs_running s"
  "last_bitrate_update (clear_nv12_queue locals s) = last_bitrate_update s"
  by (simp_all add: clear_nv12_queue_def)

lemma clear_queue_ok:
  "frames_ok s locals \<Longrightarrow>
   frames_ok (clear_nv12_queue locals s) locals \<and> vs_eye (clear_nv12_queue locals s) = (vs_eye s)\<lparr>nv12_queue := []\<rparr>"
  using drop_queue_ok [of s locals "nv12_queue (vs_eye s)"] by (simp add: clear_nv12_queue_def)

lemma eye_references_threads: "vs_threads s' = vs_threads s \<Longrightarrow> eye_references s' = eye_references s"
  by (simp add: eye_references_def)

lemma count_stats_same [simp]:
  "references (count_stats f s) = references s" "next_address (count_stats f s) = next_address s"
  "encoder (count_stats f s) = encoder s" "pending_frames (count_stats f s) = pending_frames s"
  "undistorter (count_stats f s) = undistorter s" "converter (count_stats f s) = converter s" "decoder (count_stats f s) = decoder s"
  "vs_threads (count_stats f s) = vs_threads s" "vs_eye (count_stats f s) = vs_eye s" "recorder (count_stats f s) = recorder s"
  "current_owner (count_stats f s) = current_owner s" "vs_config (count_stats f s) = vs_config s"
  "pipeline_running (count_stats f s) = pipeline_running s" "vs_running (count_stats f s) = vs_running s"
  "last_bitrate_update (count_stats f s) = last_bitrate_update s" "bad_decode_frames (count_stats f s) = bad_decode_frames s"
  "restart_requested (count_stats f s) = restart_requested s" "encoded_frame_callback (count_stats f s) = encoded_frame_callback s"
  by (simp_all add: count_stats_def references_def eye_references_def current_owner_def)

lemma frames_ok_count [simp]: "frames_ok (count_stats f s) locals = frames_ok s locals"
  by (rule frames_ok_cong) simp_all

lemma enqueue_ok:
  assumes "frames_ok s [f]"
  shows "frames_ok (maybeEnqueueEyeImageFrame now f s) [f]"
proof -
  define s1 where "s1 = s\<lparr>vs_eye := (vs_eye s)\<lparr>eye_inflight := True\<rparr>\<rparr>"
  have "set (references s1 @ [f]) = set (references s @ [f])" by (simp add: s1_def references_def eye_references_def)
  then have "frames_ok s1 [f] = frames_ok s [f]" by (rule frames_ok_cong) (simp_all add: s1_def)
  then have "frames_ok s1 [f]" using assms by simp
  note c = clear_queue_ok [OF this]
  define s2 where "s2 = count_stats (\<lambda>st. st\<lparr>eye_image_drop_queue := eye_image_drop_queue st + of_nat (length (nv12_queue (vs_eye s)))\<rparr>)
    (clear_nv12_queue [f] s1)"
  define s3 where "s3 = s2\<lparr>vs_eye := (vs_eye s2)\<lparr>nv12_queue := [f], last_enqueue_us := now\<rparr>\<rparr>"
  have "set (references s3 @ [f]) = set (references s2 @ [f])"
    using c by (auto simp: s3_def s2_def references_def eye_references_def)
  then have "frames_ok s3 [f] = frames_ok s2 [f]" by (rule frames_ok_cong) (simp_all add: s3_def)
  then have "frames_ok s3 [f]" using c by (simp add: s2_def)
  then show ?thesis using assms
    unfolding maybeEnqueueEyeImageFrame_def Let_def s1_def [symmetric] s2_def [symmetric] s3_def [symmetric] by simp
qed

lemma enqueue_same [simp]:
  "next_address (maybeEnqueueEyeImageFrame now f s) = next_address s" "encoder (maybeEnqueueEyeImageFrame now f s) = encoder s"
  "pending_frames (maybeEnqueueEyeImageFrame now f s) = pending_frames s"
  "vs_threads (maybeEnqueueEyeImageFrame now f s) = vs_threads s" "vs_config (maybeEnqueueEyeImageFrame now f s) = vs_config s"
  "pipeline_running (maybeEnqueueEyeImageFrame now f s) = pipeline_running s"
  "vs_running (maybeEnqueueEyeImageFrame now f s) = vs_running s"
  "last_bitrate_update (maybeEnqueueEyeImageFrame now f s) = last_bitrate_update s"
  by (simp_all add: maybeEnqueueEyeImageFrame_def Let_def)

section \<open>Frames go through\<close>

text \<open>A surface that was taken out of the pool belongs to nobody else.\<close>

definition taken :: "VideoStream \<Rightarrow> int \<Rightarrow> bool" where
  "taken s fd \<longleftrightarrow> inj_on sf_address (set (references s)) \<and> inj_on sf_fd (set (references s))
     \<and> (\<forall>f\<in>set (references s). 0 \<le> sf_fd f \<and> sf_address f < next_address s \<and> sf_owner f = current_owner s)
     \<and> 0 \<le> fd \<and> fd \<notin> sf_fd ` set (references s) \<and> pool_owned s (add_mset fd (mset_set (sf_fd ` set (references s))))"

lemma taken_cong:
  "references s' = references s \<Longrightarrow> next_address s' = next_address s
   \<Longrightarrow> undistorter s' = undistorter s \<Longrightarrow> converter s' = converter s \<Longrightarrow> taken s' fd = taken s fd"
  by (simp only: taken_def pool_owned_def current_owner_def)

lemma pool_descriptor: "pool_wf p \<Longrightarrow> pool_took p (Some fd) p' \<Longrightarrow> 0 \<le> fd"
proof -
  assume "pool_wf p" "pool_took p (Some fd) p'"
  then have "fd \<in># mset (free_fds p)" "pool_wf p" by (simp_all add: pool_took_def)
  then show ?thesis by (auto simp: pool_wf_def free_fds_def)
qed

text \<open>What a change of the pools alone leaves as it is.\<close>

definition stream_view where
  "stream_view s = (references s, next_address s, encoder s, pending_frames s, vs_threads s, vs_eye s, current_owner s, vs_config s,
     pipeline_running s, vs_running s, last_bitrate_update s)"

lemma view_count [simp]: "stream_view (count_stats f s) = stream_view s"
  by (simp add: stream_view_def)

lemma view_undistorter: "undistorter s \<noteq> None \<Longrightarrow> stream_view (s\<lparr>undistorter := Some u\<rparr>) = stream_view s"
  by (simp add: stream_view_def references_def eye_references_def current_owner_def)

lemma view_converter: "converter s \<noteq> None \<Longrightarrow> stream_view (s\<lparr>converter := Some v\<rparr>) = stream_view s"
  by (simp add: stream_view_def references_def eye_references_def current_owner_def)

lemma postprocess_view: "postprocessYuv422Fd a src us s = (r, s') \<Longrightarrow> stream_view s' = stream_view s"
proof (cases "undistorter s")
  case (Some u)
  assume e: "postprocessYuv422Fd a src us s = (r, s')"
  obtain r1 u1 where p: "processYuv422 (fa_remap a) src u = (r1, u1)" by fastforce
  then show ?thesis using e Some view_undistorter [of s u1] by (cases r1) (auto simp: postprocessYuv422Fd_def Let_def)
next
  case None
  assume e: "postprocessYuv422Fd a src us s = (r, s')"
  show ?thesis
  proof (cases "converter s")
    case (Some v)
    obtain r1 v1 where p: "transformSync (fa_convert a) src us v = (r1, v1)" by fastforce
    then show ?thesis using e None Some view_converter [of s v1] by (auto simp: postprocessYuv422Fd_def)
  qed (use e None in \<open>auto simp: postprocessYuv422Fd_def\<close>)
qed

lemma postprocess_same:
  "postprocessYuv422Fd a src us s = (r, s') \<Longrightarrow>
     references s' = references s \<and> next_address s' = next_address s \<and> encoder s' = encoder s \<and> pending_frames s' = pending_frames s
     \<and> vs_threads s' = vs_threads s \<and> vs_eye s' = vs_eye s \<and> current_owner s' = current_owner s \<and> vs_config s' = vs_config s
     \<and> pipeline_running s' = pipeline_running s \<and> vs_running s' = vs_running s \<and> last_bitrate_update s' = last_bitrate_update s"
  by (drule postprocess_view) (simp add: stream_view_def)

lemma postprocess_ok:
  assumes ok: "frames_ok s []" and e: "postprocessYuv422Fd a src us s = (r, s')"
  shows "case r of None \<Rightarrow> frames_ok s' [] | Some fd \<Rightarrow> taken s' fd"
proof -
  note same = postprocess_same [OF e]
  define H where "H = mset_set (sf_fd ` set (references s))"
  have fin: "finite (sf_fd ` set (references s))" by simp
  have o: "pool_owned s H" using ok by (simp add: frames_ok_def H_def)
  have "case r of None \<Rightarrow> pool_owned s' H | Some fd \<Rightarrow> pool_owned s' (add_mset fd H) \<and> fd \<notin># H \<and> 0 \<le> fd"
  proof (cases "undistorter s")
    case (Some u)
    obtain r1 u1 where p: "processYuv422 (fa_remap a) src u = (r1, u1)" by fastforce
    have s': "r = r1" "undistorter s' = Some u1" using e Some p by (auto simp: postprocessYuv422Fd_def Let_def split: option.splits if_splits)
    have u: "undistorter.owned u H" using o Some by (simp add: pool_owned_def)
    show ?thesis
    proof (cases r1)
      case None
      then show ?thesis using undistorter.owned_refused [OF u, of "(fa_remap a, src)" u1] p s' by (simp add: pool_owned_def)
    next
      case (Some fd)
      have "0 \<le> fd" using processYuv422_took [OF _ p] pool_descriptor undistorter.owned_ok [OF u] Some by blast
      then show ?thesis using undistorter.owned_acquire [OF u, of "(fa_remap a, src)" fd u1] p s' Some by (simp add: pool_owned_def)
    qed
  next
    case None
    show ?thesis
    proof (cases "converter s")
      case None
      then show ?thesis using \<open>undistorter s = None\<close> e o by (auto simp: postprocessYuv422Fd_def)
    next
      case (Some v)
      obtain r1 v1 where p: "transformSync (fa_convert a) src us v = (r1, v1)" by fastforce
      have s': "r = r1" "undistorter s' = None" "converter s' = Some v1"
        using e Some None p by (auto simp: postprocessYuv422Fd_def)
      have v: "converter.owned v H" using o Some None by (simp add: pool_owned_def)
      show ?thesis
      proof (cases r1)
        case None
        then show ?thesis using converter.owned_refused [OF v, of "(fa_convert a, src, us)" v1] p s' by (simp add: pool_owned_def)
      next
        case (Some fd)
        have "0 \<le> fd" using transformSync_took [OF _ p] pool_descriptor converter.owned_ok [OF v] Some by blast
        then show ?thesis using converter.owned_acquire [OF v, of "(fa_convert a, src, us)" fd v1] p s' Some by (simp add: pool_owned_def)
      qed
    qed
  qed
  then show ?thesis using ok same fin by (cases r) (simp_all add: frames_ok_def taken_def H_def)
qed

lemma make_shared_ok:
  assumes "taken s fd" "makeSharedNv12Frame fd ts s = (f, s1)"
  shows "frames_ok s1 [f] \<and> sf_fd f = fd \<and> references s1 = references s \<and> sf_address f \<notin> sf_address ` set (references s)
    \<and> s1 = s\<lparr>next_address := next_address s + 1\<rparr>"
proof -
  have f: "sf_address f = next_address s" "sf_fd f = fd" "sf_owner f = current_owner s" "s1 = s\<lparr>next_address := next_address s + 1\<rparr>"
    using assms(2) by (auto simp: makeSharedNv12Frame_def current_owner_def)
  have same: "undistorter s1 = undistorter s" "converter s1 = converter s" "next_address s1 = next_address s + 1"
    "references s1 = references s" "current_owner s1 = current_owner s"
    by (simp_all add: f(4) references_def eye_references_def current_owner_def)
  have a: "sf_address f \<notin> sf_address ` set (references s)" using assms(1) f(1) by (auto simp: taken_def)
  have n: "fd \<notin> sf_fd ` set (references s)" using assms(1) by (simp add: taken_def)
  then have "mset_set (sf_fd ` insert f (set (references s))) = add_mset fd (mset_set (sf_fd ` set (references s)))"
    by (simp add: f(2))
  moreover have "pool_owned s1 held = pool_owned s held" for held by (simp only: pool_owned_def same)
  ultimately have "pool_owned s1 (mset_set (sf_fd ` insert f (set (references s))))"
    using assms(1) by (simp add: taken_def)
  moreover have "set (references s1 @ [f]) = insert f (set (references s))" by (simp add: same)
  moreover have "inj_on sf_address (insert f (set (references s)))" "inj_on sf_fd (insert f (set (references s)))"
    using assms(1) a n f(2) by (auto simp: taken_def)
  moreover have "\<forall>g\<in>insert f (set (references s)). 0 \<le> sf_fd g \<and> sf_address g < next_address s1 \<and> sf_owner g = current_owner s1"
    using assms(1) by (auto simp: taken_def same f)
  ultimately have "frames_ok s1 [f]" by (simp only: frames_ok_def)
  then show ?thesis using a f same by blast
qed

end
