(* ===== verification/StreamInvariant.thy ===== *)
theory StreamInvariant
  imports SharedFrames
begin

text \<open>
  The invariant of the video pipeline and its preservation by every step of a thread. The calls of the owner and the
  reachable states are in \<open>StreamFacts\<close>, the answers to faults in \<open>StreamFaults\<close>.
\<close>

section \<open>The threads\<close>

text \<open>What the operations on frames leave as it is.\<close>

definition control_view where
  "control_view s = (vs_threads s, pipeline_running s, vs_running s, last_bitrate_update s, encoder s = None)"

lemma control_view_frames [simp]:
  "control_view (drop_ref locals f s) = control_view s" "control_view (count_stats g s) = control_view s"
  "control_view (drop_queue locals fs s) = control_view s" "control_view (clear_nv12_queue locals s) = control_view s"
  "control_view (maybeEnqueueEyeImageFrame now f s) = control_view s"
  "control_view (s\<lparr>pending_frames := x1\<rparr>) = control_view s" "control_view (s\<lparr>vs_eye := x2\<rparr>) = control_view s"
  "control_view (s\<lparr>enc_start_us_by_ts := x3\<rparr>) = control_view s" "control_view (s\<lparr>decoder := x4\<rparr>) = control_view s"
  "control_view (s\<lparr>next_address := x5\<rparr>) = control_view s"
  by (simp_all add: control_view_def)

text \<open>A frame goes into the table of the frames at the encoder.\<close>

lemma pending_references: "set (map snd (pending_frames s)) \<subseteq> set (references s)"
  by (auto simp: references_def)

lemma put_pending_ok:
  assumes "frames_ok s [f]" "pending_ok s" "f \<notin> set (references s)"
  shows "sf_fd f \<notin> fst ` set (pending_frames s)"
    "put_pending f s = s\<lparr>pending_frames := AList.update (sf_fd f) f (pending_frames s)\<rparr>"
    "frames_ok (put_pending f s) [f]"
proof -
  show fresh: "sf_fd f \<notin> fst ` set (pending_frames s)"
  proof
    assume "sf_fd f \<in> fst ` set (pending_frames s)"
    then obtain g where g: "(sf_fd f, g) \<in> set (pending_frames s)" by auto
    then have "sf_fd g = sf_fd f" "g \<in> set (references s)" using assms(2) pending_references [of s] by (force simp: pending_ok_def)+
    moreover have "inj_on sf_fd (set (references s @ [f]))" using assms(1) by (simp add: frames_ok_def)
    ultimately show False using assms(3) by (auto simp: inj_on_def)
  qed
  then have "map_of (pending_frames s) (sf_fd f) = None" by (simp add: map_of_eq_None_iff)
  then show e: "put_pending f s = s\<lparr>pending_frames := AList.update (sf_fd f) f (pending_frames s)\<rparr>" by (simp add: put_pending_def)
  have "set (AList.update (sf_fd f) f (pending_frames s)) = insert (sf_fd f, f) (set (pending_frames s))"
    using arg_cong [OF update_new [OF fresh, of f], of set_mset] by simp
  then have "set (references (put_pending f s) @ [f]) = set (references s @ [f])"
    by (auto simp: e references_def eye_references_def)
  then have "frames_ok (put_pending f s) [f] = frames_ok s [f]" by (rule frames_ok_cong) (simp_all add: e)
  then show "frames_ok (put_pending f s) [f]" using assms(1) by simp
qed

lemma submitted_pending:
  assumes p: "pending_ok s" "encoder s = Some e" and f: "sf_fd f \<notin> fst ` set (pending_frames s)" "0 \<le> sf_fd f"
    and sub: "enc_submit a (sf_fd f) ts e = (ok, forced, e1)"
    and s': "encoder s' = Some e1"
      "pending_frames s' = (if ok then AList.update (sf_fd f) f (pending_frames s) else pending_frames s)"
  shows "pending_ok s'"
proof -
  obtain n where n: "enc_wf n e" "mset (map fst (pending_frames s)) = queued_fds e" using p by (auto simp: pending_ok_def)
  have w: "enc_wf n e1" "queued_fds e1 = queued_fds e + mset (if ok then [sf_fd f] else [])"
    using submit_wf [OF n(1) f(2) sub] by simp_all
  show ?thesis
  proof (cases ok)
    case True
    have m: "mset (pending_frames s') = add_mset (sf_fd f, f) (mset (pending_frames s))"
      using update_new [OF f(1), of f] s'(2) True by simp
    then have "set (pending_frames s') = insert (sf_fd f, f) (set (pending_frames s))" by (metis set_mset_add_mset_insert set_mset_mset)
    moreover have k: "mset (map fst (pending_frames s')) = add_mset (sf_fd f) (mset (map fst (pending_frames s)))"
      using arg_cong [OF m, of "image_mset fst"] by simp
    moreover have "distinct (map fst (pending_frames s'))"
    proof -
      have "distinct (sf_fd f # map fst (pending_frames s))" using p(1) f(1) by (simp add: pending_ok_def)
      then show ?thesis using mset_eq_imp_distinct_iff [of "map fst (pending_frames s')" "sf_fd f # map fst (pending_frames s)"] k by simp
    qed
    ultimately show ?thesis using p(1) n(2) w True s'(1) by (auto simp: pending_ok_def)
  next
    case False
    then show ?thesis using p(1) n(2) w s' by (auto simp: pending_ok_def)
  qed
qed

lemma converter_output_ok:
  assumes "taken s fd" "pending_ok s" "onConverterOutput a fd ts s = (ok, s')"
  shows "frames_ok s' [] \<and> pending_ok s' \<and> control_view s' = control_view s"
proof -
  obtain f s1 where mk: "makeSharedNv12Frame fd ts s = (f, s1)" by fastforce
  note mk_ok = make_shared_ok [OF assms(1) mk]
  have f: "frames_ok s1 [f]" "sf_fd f = fd" using mk_ok by blast+
  have v1: "control_view s1 = control_view s" using mk_ok by simp
  have p1: "pending_ok s1" using assms(2) pending_ok_cong [of s1 s] mk_ok by simp
  have new: "f \<notin> set (references s1)" using mk_ok by auto
  show ?thesis
  proof (cases "encoder s1")
    case None
    then have "s' = drop_ref [] f s1" using assms(3) mk by (simp add: onConverterOutput_def)
    then show ?thesis using drop_ref_ok [of s1 f "[]"] f p1 v1 pending_ok_cong [of s' s1] by simp
  next
    case (Some e)
    define s1a where "s1a = s1\<lparr>enc_start_us_by_ts := AList.update ts (fa_submit_us a) (enc_start_us_by_ts s1)\<rparr>"
    have r1a: "references s1a = references s1" by (simp add: s1a_def references_def eye_references_def)
    have ok1a: "frames_ok s1a [f]" using f frames_ok_cong [of s1a "[f]" s1 "[f]"] r1a by (simp add: s1a_def)
    have p1a: "pending_ok s1a" using p1 pending_ok_cong [of s1a s1] by (simp add: s1a_def)
    note put = put_pending_ok [OF ok1a p1a, unfolded r1a, OF new]
    define s2 where "s2 = put_pending f s1a"
    obtain forced e1 where sub: "enc_submit (fa_submit a) fd ts e = (ok, forced, e1)"
      using assms(3) mk Some by (auto simp: onConverterOutput_def Let_def s1a_def split: prod.splits if_splits)
    define s3 where "s3 = s2\<lparr>encoder := Some e1\<rparr>"
    have ok3: "frames_ok s3 [f]" using put(3) frames_ok_cong [of s3 "[f]" s2 "[f]"]
      by (simp add: s3_def s2_def references_def eye_references_def)
    have "control_view s1a = control_view s" using v1 by (simp add: s1a_def)
    moreover have "encoder s1a \<noteq> None" using Some by (simp add: s1a_def)
    ultimately have v3: "control_view s3 = control_view s" by (simp add: s3_def s2_def put(2) control_view_def)
    have pos: "0 \<le> sf_fd f" using ok1a by (simp add: frames_ok_def)
    have e1a: "encoder s1a = Some e" using Some by (simp add: s1a_def)
    note pend = submitted_pending [OF p1a e1a put(1) pos]
    show ?thesis
    proof (cases ok)
      case True
      then have s': "s' = drop_ref [] f (maybeEnqueueEyeImageFrame (fa_eye_us a) f s3)"
        using assms(3) mk Some sub by (simp add: onConverterOutput_def s1a_def s2_def s3_def)
      have "frames_ok s' []" unfolding s' by (rule drop_ref_ok [OF enqueue_ok [OF ok3]])
      moreover have "pending_ok s'" using f sub True
        by (intro pend [where ok = ok]) (auto simp: s' s3_def s2_def put(2))
      ultimately show ?thesis using v3 by (simp add: s')
    next
      case False
      define s4 where "s4 = count_stats (\<lambda>st. st\<lparr>stats_encoder_submit_failures := stats_encoder_submit_failures st + 1\<rparr>)
        (s3\<lparr>enc_start_us_by_ts := AList.delete ts (enc_start_us_by_ts s3), pending_frames := AList.delete fd (pending_frames s3)\<rparr>)"
      have s': "s' = drop_ref [] f s4"
        using assms(3) mk Some sub False by (simp add: onConverterOutput_def Let_def s1a_def s2_def s3_def s4_def)
      have pf: "pending_frames s4 = pending_frames s1a" using delete_new [OF put(1), of f] f by (simp add: s4_def s3_def s2_def put(2))
      have r4: "references s4 = references s1a" unfolding references_def pf
        by (simp add: eye_references_def s4_def s3_def s2_def put(2) count_stats_def)
      then have "frames_ok s4 [f] = frames_ok s1a [f]" by (intro frames_ok_cong) (simp_all add: s4_def s3_def s2_def put(2))
      then have "frames_ok s' []" unfolding s' using drop_ref_ok ok1a by blast
      moreover have "pending_ok s'" using f sub False pf
        by (intro pend [where ok = ok]) (auto simp: s' s4_def s3_def)
      moreover have "control_view s' = control_view s" using v3 by (simp add: s' s4_def)
      ultimately show ?thesis by blast
    qed
  qed
qed

lemma delete_member_set:
  "distinct (map fst al) \<Longrightarrow> map_of al i = Some v \<Longrightarrow> set al = insert (i, v) (set (AList.delete i al))"
  by (drule (1) delete_member, drule arg_cong [where f = set_mset]) (simp only: set_mset_mset set_mset_add_mset_insert)

text \<open>The encoder gives descriptors back: while the list is worked off, the table holds those and the queued ones.\<close>

definition returning :: "int list \<Rightarrow> VideoStream \<Rightarrow> bool" where
  "returning fds s \<longleftrightarrow> frames_ok s [] \<and> distinct (map fst (pending_frames s)) \<and> (\<forall>(fd, f)\<in>set (pending_frames s). sf_fd f = fd)
     \<and> (case encoder s of None \<Rightarrow> False
        | Some e \<Rightarrow> (\<exists>n. enc_wf n e) \<and> mset (map fst (pending_frames s)) = queued_fds e + mset fds)"

lemma input_done_ok:
  assumes "returning (fd # fds) s"
  shows "returning fds (onEncoderInputDone fd s) \<and> control_view (onEncoderInputDone fd s) = control_view s"
proof -
  obtain e where e: "mset (map fst (pending_frames s)) = queued_fds e + mset (fd # fds)"
    using assms by (auto simp: returning_def split: option.splits)
  have "fd \<in># mset (map fst (pending_frames s))" unfolding e by simp
  then obtain f where f: "map_of (pending_frames s) fd = Some f" by (metis map_of_eq_None_iff not_Some_eq set_map set_mset_mset)
  define s1 where "s1 = s\<lparr>pending_frames := AList.delete fd (pending_frames s)\<rparr>"
  have d: "distinct (map fst (pending_frames s))" using assms by (simp add: returning_def)
  have m: "mset (pending_frames s) = add_mset (fd, f) (mset (AList.delete fd (pending_frames s)))" by (rule delete_member [OF d f])
  have "pending_frames s1 = AList.delete fd (pending_frames s)" by (simp add: s1_def)
  then have st: "set (pending_frames s) = insert (fd, f) (set (pending_frames s1))"
    using delete_member_set [OF d f] by (simp only:)
  have "eye_references s1 = eye_references s" "vs_eye s1 = vs_eye s" by (simp_all add: s1_def eye_references_def)
  then have "set (references s1 @ [f]) = set (references s @ [])" unfolding references_def set_append set_map st by auto
  then have "frames_ok s1 [f] = frames_ok s []" by (rule frames_ok_cong) (simp_all add: s1_def)
  then have "frames_ok (drop_ref [] f s1) []" using drop_ref_ok assms by (simp add: returning_def)
  moreover have e: "onEncoderInputDone fd s = drop_ref [] f s1" by (simp add: onEncoderInputDone_def f s1_def)
  moreover have "mset (map fst (pending_frames s)) = add_mset fd (mset (map fst (pending_frames s1)))"
    using arg_cong [OF m, of "image_mset fst"] by (simp add: s1_def)
  moreover have "distinct (map fst (pending_frames s1))" using d by (simp add: s1_def distinct_delete)
  moreover have "\<forall>(fd, f)\<in>set (pending_frames s1). sf_fd f = fd" using assms st by (auto simp: returning_def)
  ultimately have "returning fds (onEncoderInputDone fd s)"
    using assms by (auto simp: returning_def s1_def split: option.splits)
  then show ?thesis by (simp add: e) (simp add: s1_def)
qed

lemma input_done_fold:
  "returning fds s \<Longrightarrow> returning [] (fold onEncoderInputDone fds s) \<and> control_view (fold onEncoderInputDone fds s) = control_view s"
proof (induction fds arbitrary: s)
  case (Cons fd fds)
  from Cons.IH [of "onEncoderInputDone fd s"] show ?case using input_done_ok [OF Cons.prems] by simp
qed simp

text \<open>The element is done with buffers that were queued.\<close>

definition done_ok :: "nat list \<Rightarrow> VideoStream \<Rightarrow> bool" where
  "done_ok is s \<longleftrightarrow> distinct is \<and> (case encoder s of None \<Rightarrow> True | Some e \<Rightarrow> set is \<subseteq> fst ` set (index_to_fd e))"

lemma drain_encoder_ok:
  assumes "frames_ok s []" "pending_ok s" "done_ok is s"
  shows "frames_ok (drain_encoder is s) [] \<and> pending_ok (drain_encoder is s) \<and> control_view (drain_encoder is s) = control_view s"
proof (cases "encoder s")
  case None
  then show ?thesis using assms by (simp add: drain_encoder_def)
next
  case (Some e)
  obtain n where n: "enc_wf n e" "mset (map fst (pending_frames s)) = queued_fds e" using assms(2) Some by (auto simp: pending_ok_def)
  obtain fds e1 where d: "drainInputDone is e = (fds, e1)" by fastforce
  then have "drain_loop is e = (fds, e1)" using n(1) by (simp add: drainInputDone_def enc_wf_def)
  then have w: "enc_wf n e1" "queued_fds e = queued_fds e1 + mset fds"
    using drain_loop_wf [OF n(1)] assms(3) Some by (auto simp: done_ok_def)
  define s1 where "s1 = s\<lparr>encoder := Some e1\<rparr>"
  have "frames_ok s1 []" using assms(1) frames_ok_cong [of s1 "[]" s "[]"] by (simp add: s1_def references_def eye_references_def)
  then have "returning fds s1" using assms(2) n w by (auto simp: returning_def s1_def pending_ok_def)
  from input_done_fold [OF this] show ?thesis
    using Some d by (auto simp: drain_encoder_def s1_def returning_def pending_ok_def control_view_def split: option.splits)
qed

section \<open>Eye images\<close>

lemma skip_to_latest_ok:
  "frames_ok s [] \<Longrightarrow> nv12_queue (vs_eye s) = fs \<Longrightarrow>
   frames_ok (skip_to_latest fs s) [] \<and> control_view (skip_to_latest fs s) = control_view s
   \<and> pending_frames (skip_to_latest fs s) = pending_frames s \<and> encoder (skip_to_latest fs s) = encoder s"
proof (induction fs s rule: skip_to_latest.induct)
  case (1 f g fs s)
  define s1 where "s1 = s\<lparr>vs_eye := (vs_eye s)\<lparr>nv12_queue := g # fs\<rparr>\<rparr>"
  have "set (references s1 @ [f]) = set (references s @ [])" using 1(3) by (auto simp: references_def eye_references_def s1_def)
  then have "frames_ok s1 [f] = frames_ok s []" by (rule frames_ok_cong) (simp_all add: s1_def)
  then have "frames_ok (drop_ref [] f s1) []" using drop_ref_ok 1(2) by simp
  then have a: "frames_ok (count_stats (\<lambda>st. st\<lparr>eye_image_drop_queue := eye_image_drop_queue st + 1\<rparr>) (drop_ref [] f s1)) []"
    by simp
  from 1(1) [folded s1_def, OF a] show ?case by (simp add: s1_def [symmetric]) (simp add: s1_def)
qed simp_all

definition thread_view where
  "thread_view s = (encode_thread (vs_threads s), supervisor_thread (vs_threads s), pipeline_running s, vs_running s,
     last_bitrate_update s, encoder s = None)"

lemma control_thread_view: "control_view s' = control_view s \<Longrightarrow> thread_view s' = thread_view s"
  by (simp add: control_view_def thread_view_def)

text \<open>Moving the eye image thread, when it holds no frame before or after.\<close>

lemma set_eye_pc_ok:
  assumes "frames_ok s []" "eye_references s = []" "\<forall>f. pc \<noteq> EyeProcess f"
  shows "frames_ok (set_eye_pc pc s) []"
proof -
  have "eye_references (set_eye_pc pc s) = []" using assms(3) by (simp add: set_eye_pc_def eye_references_def split: eye_pc.split)
  then have "references (set_eye_pc pc s) = references s" using assms(2) by (simp add: references_def) (simp add: set_eye_pc_def)
  then show ?thesis using assms(1) frames_ok_cong [of "set_eye_pc pc s" "[]" s "[]"] by (simp add: set_eye_pc_def)
qed

lemma set_eye_pc_same [simp]:
  "pending_frames (set_eye_pc pc s) = pending_frames s" "encoder (set_eye_pc pc s) = encoder s"
  "thread_view (set_eye_pc pc s) = thread_view s" "vs_eye (set_eye_pc pc s) = vs_eye s"
  "next_address (set_eye_pc pc s) = next_address s"
  by (simp_all add: set_eye_pc_def thread_view_def)

lemma skip_to_latest_refs:
  "nv12_queue (vs_eye s) = fs \<Longrightarrow> set (nv12_queue (vs_eye (skip_to_latest fs s))) \<subseteq> set fs"
proof (induction fs s rule: skip_to_latest.induct)
  case (1 f g fs s)
  from 1(1) show ?case by simp blast
qed simp_all

lemma drop_ref_frames:
  assumes "frames_ok s []" "set (references s1) \<union> {f} = set (references s)" "next_address s1 = next_address s"
    "undistorter s1 = undistorter s" "converter s1 = converter s"
  shows "frames_ok (drop_ref [] f s1) []"
proof -
  have "set (references s1 @ [f]) = set (references s @ [])" using assms(2) by simp
  then have "frames_ok s1 [f] = frames_ok s []" using assms by (intro frames_ok_cong)
  then show ?thesis using drop_ref_ok assms(1) by simp
qed

lemma eye_take_ok:
  assumes "frames_ok s []" "eye_references s = []"
  shows "frames_ok (eye_take s) [] \<and> set (references (eye_take s)) \<subseteq> set (references s)
    \<and> pending_frames (eye_take s) = pending_frames s \<and> encoder (eye_take s) = encoder s \<and> thread_view (eye_take s) = thread_view s"
proof -
  define s1 where "s1 = skip_to_latest (nv12_queue (vs_eye s)) s"
  have k: "frames_ok s1 []" "control_view s1 = control_view s" "pending_frames s1 = pending_frames s" "encoder s1 = encoder s"
    using skip_to_latest_ok [OF assms(1) refl] by (simp_all only: s1_def)
  have t: "thread_view s1 = thread_view s" using k(2) by (rule control_thread_view)
  have th: "vs_threads s1 = vs_threads s" using k(2) by (simp add: control_view_def)
  have e1: "eye_references s1 = []" using assms(2) eye_references_threads [OF th] by simp
  have q: "set (nv12_queue (vs_eye s1)) \<subseteq> set (nv12_queue (vs_eye s))" using skip_to_latest_refs [OF refl] by (simp only: s1_def)
  then have r: "set (references s1) \<subseteq> set (references s)" using e1 assms(2) k(3) by (auto simp: references_def)
  show ?thesis
  proof (cases "nv12_queue (vs_eye s1)")
    case Nil
    then have e: "eye_take s = set_eye_pc EyeHead s1" by (simp add: eye_take_def s1_def [symmetric])
    have "references (set_eye_pc EyeHead s1) = references s1" using e1
      by (simp add: references_def) (simp add: set_eye_pc_def eye_references_def)
    then show ?thesis unfolding e using set_eye_pc_ok [OF k(1) e1, of EyeHead] r k t by simp
  next
    case (Cons f fs)
    define s2 where "s2 = set_eye_pc (EyeProcess f) (s1\<lparr>vs_eye := (vs_eye s1)\<lparr>nv12_queue := fs\<rparr>\<rparr>)"
    have e: "eye_take s = s2" using Cons by (simp add: eye_take_def s1_def [symmetric] s2_def)
    have r2: "set (references s2) = set (references s1)" using Cons e1
      by (auto simp: references_def s2_def set_eye_pc_def eye_references_def)
    then have "frames_ok s2 [] = frames_ok s1 []" by (intro frames_ok_cong) (simp_all add: s2_def set_eye_pc_def)
    then show ?thesis unfolding e using k t r r2 by (simp add: s2_def) (simp add: thread_view_def)
  qed
qed

lemma eye_process_ok:
  assumes "frames_ok s []" "eye_thread (vs_threads s) = Some (EyeProcess f)" "eye_process subscribed surface f s = (out, s')"
  shows "frames_ok s' [] \<and> set (references s') \<subseteq> set (references s)
    \<and> pending_frames s' = pending_frames s \<and> encoder s' = encoder s \<and> thread_view s' = thread_view s"
proof -
  define s1 where "s1 = set_eye_pc EyeHead (s\<lparr>vs_eye := (vs_eye s)\<lparr>eye_inflight := False\<rparr>\<rparr>)"
  have s': "s' = drop_ref [] f s1" using assms(3) by (simp add: eye_process_def s1_def)
  have r: "set (references s1) \<union> {f} = set (references s)" using assms(2)
    by (auto simp: references_def eye_references_def s1_def set_eye_pc_def)
  have "frames_ok s' []" unfolding s' by (rule drop_ref_frames [OF assms(1) r]) (simp_all add: s1_def set_eye_pc_def)
  moreover have "thread_view s' = thread_view s" unfolding s' thread_view_def by (simp add: s1_def set_eye_pc_def)
  moreover have "set (references s') \<subseteq> set (references s)" using r by (auto simp: s')
  ultimately show ?thesis by (simp add: s') (simp add: s1_def)
qed

lemma clear_queue_references: "set (references (clear_nv12_queue [] s)) \<subseteq> set (references s) \<and> nv12_queue (vs_eye (clear_nv12_queue [] s)) = []"
  if "frames_ok s []"
  using clear_queue_ok [OF that] eye_references_threads [of "clear_nv12_queue [] s" s] by (auto simp: references_def)

lemma eye_step_ok:
  assumes "frames_ok s []" "eye_step init_ok subscribed surface s = (out, s')"
  shows "frames_ok s' [] \<and> set (references s') \<subseteq> set (references s)
    \<and> pending_frames s' = pending_frames s \<and> encoder s' = encoder s \<and> thread_view s' = thread_view s"
proof (cases "\<exists>f. eye_thread (vs_threads s) = Some (EyeProcess f)")
  case True
  then obtain f where f: "eye_thread (vs_threads s) = Some (EyeProcess f)" by blast
  then have "eye_process subscribed surface f s = (out, s')" using assms(2) by (simp add: eye_step_def)
  from eye_process_ok [OF assms(1) f this] show ?thesis .
next
  case False
  then have e: "eye_references s = []" by (simp add: eye_references_def split: option.splits eye_pc.splits)
  have move: "frames_ok (set_eye_pc pc s1) [] \<and> set (references (set_eye_pc pc s1)) \<subseteq> set (references s)
      \<and> pending_frames (set_eye_pc pc s1) = pending_frames s \<and> encoder (set_eye_pc pc s1) = encoder s
      \<and> thread_view (set_eye_pc pc s1) = thread_view s"
    if f: "frames_ok s1 []" and q: "set (references s1) \<subseteq> set (references s)" and t: "vs_threads s1 = vs_threads s"
      "pending_frames s1 = pending_frames s" "encoder s1 = encoder s" "thread_view s1 = thread_view s" and pc: "\<forall>f. pc \<noteq> EyeProcess f"
    for s1 pc
  proof -
    have e1: "eye_references s1 = []" using e eye_references_threads [OF t(1)] by simp
    moreover have "eye_references (set_eye_pc pc s1) = []" using pc by (simp add: eye_references_def set_eye_pc_def split: eye_pc.split)
    ultimately have "references (set_eye_pc pc s1) = references s1" by (simp add: references_def)
    then show ?thesis using set_eye_pc_ok [OF f e1 pc] q t by simp
  qed
  have go: ?thesis
    if s': "s' = set_eye_pc pc s1" and pc: "\<forall>f. pc \<noteq> EyeProcess f" and f: "frames_ok s1 []" and q: "set (references s1) \<subseteq> set (references s)"
      and t: "vs_threads s1 = vs_threads s" "pending_frames s1 = pending_frames s" "encoder s1 = encoder s" "thread_view s1 = thread_view s"
    for pc s1 unfolding s' by (rule move [OF f q t pc])
  have eye: "frames_ok (s1\<lparr>vs_eye := v\<rparr>) [] = frames_ok s1 []" if "nv12_queue v = nv12_queue (vs_eye s1)" for s1 v
    by (rule frames_ok_cong) (use that in \<open>simp_all add: references_def eye_references_def\<close>)
  have refs: "references (s1\<lparr>vs_eye := v\<rparr>) = references s1" if "nv12_queue v = nv12_queue (vs_eye s1)" for s1 v
    using that by (simp add: references_def eye_references_def)
  have cq: "frames_ok (clear_nv12_queue [] s) []" "set (references (clear_nv12_queue [] s)) \<subseteq> set (references s)"
    using clear_queue_ok clear_queue_references assms(1) by blast+
  have tv: "thread_view (s1\<lparr>vs_eye := v\<rparr>) = thread_view s1" for s1 v by (simp add: thread_view_def)
  have tvc: "thread_view (clear_nv12_queue [] s) = thread_view s" by (simp add: thread_view_def)
  show ?thesis
  proof (cases "eye_thread (vs_threads s)")
    case None
    then show ?thesis using assms by (simp add: eye_step_def)
  next
    case (Some pc)
    show ?thesis
    proof (cases pc)
      case EyeInit
      then consider (a) "s' = set_eye_pc EyeDone s" | (b) "s' = set_eye_pc EyeDone (s\<lparr>vs_eye := (vs_eye s)\<lparr>eye_publisher := False\<rparr>\<rparr>)"
        | (c) "s' = set_eye_pc EyeHead (updateEyeImageSubscriberState subscribed
                  (s\<lparr>vs_eye := (vs_eye s)\<lparr>eye_publisher := True, publisher_ready := True\<rparr>\<rparr>))"
        using assms(2) Some by (auto simp: eye_step_def split: if_splits)
      then show ?thesis
      proof cases
        case a
        show ?thesis by (rule go [OF a]) (simp_all add: assms(1))
      next
        case b
        show ?thesis by (rule go [OF b]) (simp_all add: assms(1) eye refs tv)
      next
        case c
        show ?thesis by (rule go [OF c]) (simp_all add: assms(1) eye refs tv updateEyeImageSubscriberState_def)
      qed
    next
      case EyeHead
      then consider (a) "s' = leave_eye_thread s" | (b) "s' = set_eye_pc EyeWait (updateEyeImageSubscriberState subscribed s)"
        using assms(2) Some by (auto simp: eye_step_def split: if_splits)
      then show ?thesis
      proof cases
        case a
        show ?thesis by (rule go [OF a [unfolded leave_eye_thread_def]]) (simp_all add: assms(1) eye refs tv)
      next
        case b
        show ?thesis by (rule go [OF b]) (simp_all add: assms(1) eye refs tv updateEyeImageSubscriberState_def)
      qed
    next
      case EyeWait
      show ?thesis
      proof (cases "pipeline_running s")
        case True
        then have "s' = eye_take s" using assms(2) Some EyeWait by (simp add: eye_step_def)
        then show ?thesis using eye_take_ok [OF assms(1) e] by simp
      next
        case False
        then have s': "s' = leave_eye_thread ((clear_nv12_queue [] s)\<lparr>vs_eye := (vs_eye (clear_nv12_queue [] s))\<lparr>eye_inflight := False\<rparr>\<rparr>)"
          using assms(2) Some EyeWait by (simp add: eye_step_def Let_def)
        show ?thesis by (rule go [OF s' [unfolded leave_eye_thread_def]]) (simp_all add: cq eye refs tv tvc)
      qed
    next
      case (EyeProcess f)
      then show ?thesis using False Some by simp
    next
      case EyeDone
      then show ?thesis using assms Some by (simp add: eye_step_def)
    qed
  qed
qed

section \<open>The encode thread\<close>

lemma frame_through:
  assumes "frames_ok s []" "pending_ok s" "postprocessYuv422Fd a src us s = (r, s3)" "s4 = s3 \<or> s4 = s3\<lparr>decoder := d\<rparr>"
    "s5 = (case r of None \<Rightarrow> s4 | Some fd \<Rightarrow> snd (onConverterOutput a fd ts s4))"
  shows "frames_ok s5 [] \<and> pending_ok s5 \<and> control_view s5 = control_view s"
proof -
  note same = postprocess_same [OF assms(3)]
  have e: "references s4 = references s3" "next_address s4 = next_address s3" "undistorter s4 = undistorter s3"
    "converter s4 = converter s3" "encoder s4 = encoder s3" "pending_frames s4 = pending_frames s3" "control_view s4 = control_view s3"
    using assms(4) by (auto simp: references_def eye_references_def)
  have p4: "pending_ok s4" using assms(2) pending_ok_cong [of s4 s] same e by simp
  have v4: "control_view s4 = control_view s" using same e(7) by (simp add: control_view_def)
  show ?thesis
  proof (cases r)
    case None
    then have "frames_ok s3 []" using postprocess_ok [OF assms(1,3)] by simp
    then have "frames_ok s4 []" using frames_ok_cong [of s4 "[]" s3 "[]"] e by simp
    then show ?thesis using None assms(5) p4 v4 by simp
  next
    case (Some fd)
    then have "taken s3 fd" using postprocess_ok [OF assms(1,3)] by simp
    then have t: "taken s4 fd" using taken_cong [of s4 s3] e by simp
    obtain ok s' where o: "onConverterOutput a fd ts s4 = (ok, s')" by fastforce
    then show ?thesis using converter_output_ok [OF t p4 o] assms(5) Some v4 by simp
  qed
qed

lemma frames_ok_decoder [simp]: "frames_ok (s\<lparr>decoder := d\<rparr>) locals = frames_ok s locals" "pending_ok (s\<lparr>decoder := d\<rparr>) = pending_ok s"
proof -
  show "frames_ok (s\<lparr>decoder := d\<rparr>) locals = frames_ok s locals" by (rule frames_ok_cong) (simp_all add: references_def eye_references_def)
  show "pending_ok (s\<lparr>decoder := d\<rparr>) = pending_ok s" by (rule pending_ok_cong) simp_all
qed

lemma pending_ok_count [simp]: "pending_ok (count_stats f s) = pending_ok s"
  by (rule pending_ok_cong) simp_all

lemma decoded_loop_ok:
  assumes "frames_ok s []" "pending_ok s" "done_ok (fa_done a) s" "encodeDecodedLoop a s = (out, s')"
  shows "frames_ok s' [] \<and> pending_ok s' \<and> control_view s' = control_view s"
proof -
  define s1 where "s1 = drain_encoder (fa_done a) s"
  have d: "frames_ok s1 []" "pending_ok s1" "control_view s1 = control_view s" using drain_encoder_ok [OF assms(1-3)] by (simp_all add: s1_def)
  show ?thesis
  proof (cases "s' = s1")
    case True
    then show ?thesis using d by simp
  next
    case False
    obtain dec frame d1 where x: "decoder s1 = Some dec" "dequeueSync dec = (Some frame, d1)"
      "\<not> (encoder s1 = None \<or> converter s1 = None \<and> undistorter s1 = None)"
      using assms(4) False by (auto simp: encodeDecodedLoop_def s1_def [symmetric] Let_def split: option.splits prod.splits if_splits)
    define s2 where "s2 = count_stats (\<lambda>st. st\<lparr>stats_decode_frames := stats_decode_frames st + 1\<rparr>) (s1\<lparr>decoder := Some d1\<rparr>)"
    obtain r s3 where p: "postprocessYuv422Fd a (yuv_dmabuf_fd frame) (df_decode_us frame) s2 = (r, s3)" by fastforce
    obtain destroyed g d2 where q: "requeueCapture frame d1 = (destroyed, g, d2)" by (metis prod_cases3)
    have s': "s' = (case r of None \<Rightarrow> s3\<lparr>decoder := Some d2\<rparr>
        | Some fd \<Rightarrow> snd (onConverterOutput a fd (capture_timestamp_us frame) (s3\<lparr>decoder := Some d2\<rparr>)))"
      using assms(4) unfolding encodeDecodedLoop_def s1_def [symmetric] Let_def x(1) option.case if_not_P [OF x(3)] x(2) prod.case
        s2_def [symmetric] p q by simp
    have "frames_ok s2 []" "pending_ok s2" "control_view s2 = control_view s" using d by (simp_all add: s2_def)
    then show ?thesis using frame_through [OF _ _ p _ s', of "Some d2"] by simp
  qed
qed

lemma set_encode_pc_same [simp]:
  "frames_ok (set_encode_pc pc s) locals = frames_ok s locals" "pending_ok (set_encode_pc pc s) = pending_ok s"
  "references (set_encode_pc pc s) = references s" "encoder (set_encode_pc pc s) = encoder s"
  "encode_thread (vs_threads (set_encode_pc pc s)) = Some pc"
  "supervisor_thread (vs_threads (set_encode_pc pc s)) = supervisor_thread (vs_threads s)"
  "vs_running (set_encode_pc pc s) = vs_running s" "pipeline_running (set_encode_pc pc s) = pipeline_running s"
  "last_bitrate_update (set_encode_pc pc s) = last_bitrate_update s"
proof -
  show "frames_ok (set_encode_pc pc s) locals = frames_ok s locals" by (rule frames_ok_cong) (simp_all add: set_encode_pc_def references_def eye_references_def)
  show "pending_ok (set_encode_pc pc s) = pending_ok s" by (rule pending_ok_cong) (simp_all add: set_encode_pc_def)
qed (simp_all add: set_encode_pc_def references_def eye_references_def)

lemma restart_same [simp]:
  "frames_ok (requestPipelineRestart reason s) locals = frames_ok s locals" "pending_ok (requestPipelineRestart reason s) = pending_ok s"
  "references (requestPipelineRestart reason s) = references s" "encoder (requestPipelineRestart reason s) = encoder s"
  "vs_threads (requestPipelineRestart reason s) = vs_threads s" "vs_running (requestPipelineRestart reason s) = vs_running s"
  "pipeline_running (requestPipelineRestart reason s) = pipeline_running s"
  "last_bitrate_update (requestPipelineRestart reason s) = last_bitrate_update s"
proof -
  show "frames_ok (requestPipelineRestart reason s) locals = frames_ok s locals" by (rule frames_ok_cong) (simp_all add: requestPipelineRestart_def references_def eye_references_def)
  show "pending_ok (requestPipelineRestart reason s) = pending_ok s" by (rule pending_ok_cong) (simp_all add: requestPipelineRestart_def)
qed (simp_all add: requestPipelineRestart_def references_def eye_references_def)

lemma direct_loop_ok:
  assumes "frames_ok s []" "pending_ok s" "done_ok (fa_done a) s" "encodeYuyvDirectLoop a camera w s = s'"
    "encode_thread (vs_threads s) = Some (DirectLoop w)"
  shows "frames_ok s' [] \<and> pending_ok s' \<and> last_bitrate_update s' = last_bitrate_update s \<and> vs_running s' = vs_running s
    \<and> supervisor_thread (vs_threads s') = supervisor_thread (vs_threads s) \<and> (\<exists>w'. encode_thread (vs_threads s') = Some (DirectLoop w'))"
proof -
  define s1 where "s1 = drain_encoder (fa_done a) s"
  have d: "frames_ok s1 []" "pending_ok s1" "control_view s1 = control_view s" using drain_encoder_ok [OF assms(1-3)] by (simp_all add: s1_def)
  have fine: ?thesis if "frames_ok s' []" "pending_ok s'" "control_view s' = control_view s"
    using that assms(5) by (simp add: control_view_def)
  show ?thesis
  proof (cases camera)
    case None
    then show ?thesis using d assms(4) by (intro fine) (simp_all add: encodeYuyvDirectLoop_def s1_def [symmetric])
  next
    case (Some c)
    obtain fd now where c: "c = (fd, now)" by fastforce
    show ?thesis
    proof (cases "warmup_done w")
      case False
      then have "s' = set_encode_pc (DirectLoop (warmup_frame s1 w)) s1"
        using assms(4) Some c by (simp add: encodeYuyvDirectLoop_def s1_def [symmetric])
      then show ?thesis using d by (simp add: control_view_def)
    next
      case True
      define s2 where "s2 = count_stats (\<lambda>st. st\<lparr>stats_capture_frames := stats_capture_frames st + 1,
                                                  encode_frame_in_count := encode_frame_in_count st + 1\<rparr>) s1"
      have d2: "frames_ok s2 []" "pending_ok s2" "control_view s2 = control_view s" using d by (simp_all add: s2_def)
      show ?thesis
      proof (cases "fd < 0")
        case True
        then have "s' = s2" using assms(4) Some c \<open>warmup_done w\<close>
          by (simp add: encodeYuyvDirectLoop_def s1_def [symmetric] s2_def [symmetric])
        then show ?thesis using d2 by (intro fine) simp_all
      next
        case False
        obtain r s3 where p: "postprocessYuv422Fd a fd 0 s2 = (r, s3)" by fastforce
        have s': "s' = (case r of None \<Rightarrow> s3 | Some fd1 \<Rightarrow> snd (onConverterOutput a fd1 now s3))"
          using assms(4) Some c \<open>warmup_done w\<close> False
          by (cases r) (simp_all add: encodeYuyvDirectLoop_def s1_def [symmetric] s2_def [symmetric] p)
        show ?thesis using frame_through [OF d2(1,2) p _ s'] d2(3) by (intro fine) simp_all
      qed
    qed
  qed
qed

section \<open>The invariant\<close>

text \<open>Nothing of a pipeline is there.\<close>

definition torn_down :: "VideoStream \<Rightarrow> bool" where
  "torn_down s \<longleftrightarrow> references s = [] \<and> encoder s = None \<and> decoder s = None \<and> undistorter s = None \<and> converter s = None
     \<and> recorder s = None \<and> \<not> pipeline_running s \<and> encode_thread (vs_threads s) = None
     \<and> capture_thread (vs_threads s) = None \<and> \<not> encoder_dq_thread (vs_threads s) \<and> eye_thread (vs_threads s) = None
     \<and> \<not> eye_publisher (vs_eye s) \<and> \<not> publisher_ready (vs_eye s) \<and> \<not> has_subscribers (vs_eye s)"

text \<open>The camera is closed with the pipeline; it stays open only after a start that failed behind its opening, for want of
  the decoder library in the MJPEG mode.\<close>

definition camera_released :: "VideoStream \<Rightarrow> bool" where
  "camera_released s \<longleftrightarrow> (capturer s \<longrightarrow> \<not> vs_running s \<and> pixel_format (capturer_config (vs_config s)) = MJPEG)"

definition initializing :: "VideoStream \<Rightarrow> bool" where
  "initializing s \<longleftrightarrow> encode_thread (vs_threads s) \<in> {Some InitPostprocess, Some InitEncoder}"

definition at_rest :: "VideoStream \<Rightarrow> bool" where
  "at_rest s \<longleftrightarrow> \<not> vs_running s \<or> supervisor_thread (vs_threads s) = Some SupervisorBackoff"

definition stream_inv :: "VideoStream \<Rightarrow> bool" where
  "stream_inv s \<longleftrightarrow> frames_ok s [] \<and> pending_ok s \<and> (initializing s \<longrightarrow> references s = [] \<and> encoder s = None)
     \<and> (at_rest s \<longrightarrow> torn_down s \<and> camera_released s) \<and> last_bitrate_update s = push_bit 63 1"

lemma stream_inv_running:
  assumes "stream_inv s" "\<not> torn_down s" "frames_ok s' []" "pending_ok s'" "vs_running s' = vs_running s"
    "supervisor_thread (vs_threads s') = supervisor_thread (vs_threads s)" "last_bitrate_update s' = last_bitrate_update s"
    "initializing s' \<Longrightarrow> references s' = [] \<and> encoder s' = None"
  shows "stream_inv s'"
  using assms by (auto simp: stream_inv_def at_rest_def)

lemma frames_ok_fresh:
  assumes "references s = []" "pool_owned s {#}"
  shows "frames_ok s []"
  using assms by (simp add: frames_ok_def)

lemma pending_none: "pending_ok s \<Longrightarrow> encoder s = None \<Longrightarrow> pending_frames s = []"
  by (simp add: pending_ok_def)

lemma initializePostprocess_ok:
  assumes "descriptors_ok (ia_surface a)" "descriptors_ok (ua_surface (ia_undistorter a))" "frames_ok s []" "pending_ok s"
    "references s = []" "initializePostprocess a s = (ok, s')"
  shows "frames_ok s' [] \<and> pending_ok s' \<and> references s' = [] \<and> control_view s' = control_view s \<and> encoder s' = encoder s"
proof (cases "undistort_enabled (vs_config s)")
  case True
  obtain r u where u: "undistorter_initialize (ia_fl a) (ia_opencv a) (ia_undistorter a) (undistorter_config (vs_config s))
      (VideoUndistorter_init (undistorter_config StreamConfig_init)) = (r, u)" by fastforce
  show ?thesis
  proof (cases r)
    case True
    then have "undistorter.owned u {#}" using undistorter_initialize_owned [OF assms(2), of _ _ _ _ u] u by (simp only:)
    moreover have s': "s' = s\<lparr>undistorter := Some u, converter := None\<rparr>"
      using assms(6) u True \<open>undistort_enabled (vs_config s)\<close> by (simp add: initializePostprocess_def Let_def)
    moreover have "references s' = []" using assms(5) by (simp add: s' references_def eye_references_def)
    moreover have "pending_ok s'" using assms(4) pending_ok_cong [of s' s] by (simp add: s')
    ultimately show ?thesis using frames_ok_fresh [of s'] by (simp add: pool_owned_def control_view_def)
  next
    case False
    then show ?thesis using assms u \<open>undistort_enabled (vs_config s)\<close> by (simp add: initializePostprocess_def Let_def)
  qed
next
  case False
  obtain r v where v: "converter_initialize (ia_surface a) (ia_prepare a) (converter_config (vs_config s))
      (VideoConverter_init (converter_config StreamConfig_init)) = (r, v)" by fastforce
  show ?thesis
  proof (cases r)
    case True
    then have "converter.owned v {#}" using converter_initialize_owned [OF assms(1), of _ _ _ v] v by (simp only:)
    moreover have s': "s' = s\<lparr>converter := Some v, undistorter := None\<rparr>"
      using assms(6) v True \<open>\<not> undistort_enabled (vs_config s)\<close> by (simp add: initializePostprocess_def Let_def)
    moreover have "references s' = []" using assms(5) by (simp add: s' references_def eye_references_def)
    moreover have "pending_ok s'" using assms(4) pending_ok_cong [of s' s] by (simp add: s')
    ultimately show ?thesis using frames_ok_fresh [of s'] by (simp add: pool_owned_def control_view_def)
  next
    case False
    then show ?thesis using assms v \<open>\<not> undistort_enabled (vs_config s)\<close> by (simp add: initializePostprocess_def Let_def)
  qed
qed

lemma frames_ok_encoder [simp]: "frames_ok (s\<lparr>encoder := e\<rparr>) locals = frames_ok s locals"
  by (rule frames_ok_cong) (simp_all add: references_def eye_references_def)

lemma view_callback: "input_view (snd (enc_setSpsPpsCallback b e)) = input_view e"
  by (simp add: enc_setSpsPpsCallback_def input_view_def Let_def)

lemma view_bitrate: "input_view (snd (enc_setBitrate answer bps e)) = input_view e"
  by (simp add: enc_setBitrate_def input_view_def Let_def)

lemma initializeEncoder_ok:
  assumes "frames_ok s []" "pending_ok s" "encoder s = None" "initializeEncoder a s = (ok, s')"
  shows "frames_ok s' [] \<and> pending_ok s' \<and> (\<exists>e. s' = s\<lparr>encoder := e\<rparr>)"
proof -
  obtain r made e where e: "enc_initialize (ia_encoder_created a) (ia_encoder_hw a) (ia_input_buffers a) (ia_capture_buffers a)
      (encoder_config (vs_config s)) (VideoEncoder_init EncoderConfig_default) = (r, made, e)" by (metis prod_cases3)
  show ?thesis
  proof (cases r)
    case True
    define e1 where "e1 = enc_setInputDoneCallback True e"
    note eT = e [unfolded eq_True [THEN iffD2, OF True]]
    have w: "enc_wf (ia_input_buffers a) e1" "queued_fds e1 = {#}" using initialize_wf [OF eT] unfolding e1_def by blast+
    define e2 where "e2 = (if vs_sps_pps_callback s then snd (enc_setSpsPpsCallback True e1) else e1)"
    have "input_view e2 = input_view e1" using view_callback by (simp add: e2_def)
    then have w2: "enc_wf (ia_input_buffers a) e2" "queued_fds e2 = {#}"
      using enc_wf_view [of e2 e1 "ia_input_buffers a"] w by simp_all
    have s': "s' = s\<lparr>encoder := Some e2\<rparr>" using assms(4) e True by (auto simp: initializeEncoder_def Let_def e2_def e1_def)
    have "pending_ok (s\<lparr>encoder := Some e2\<rparr>)" using pending_none [OF assms(2,3)] w2 by (auto simp: pending_ok_def)
    then show ?thesis unfolding s' using assms(1) frames_ok_encoder by blast
  next
    case False
    then have s': "s' = s" using assms(4) e by (simp add: initializeEncoder_def)
    then have "s' = s\<lparr>encoder := encoder s\<rparr>" by simp
    moreover have "frames_ok s' []" "pending_ok s'" using assms(1,2) s' by simp_all
    ultimately show ?thesis by blast
  qed
qed

lemma init_failed_same [simp]:
  "frames_ok (init_failed s) locals = frames_ok s locals" "pending_ok (init_failed s) = pending_ok s"
  "encode_thread (vs_threads (init_failed s)) = Some EncodeDone"
  "supervisor_thread (vs_threads (init_failed s)) = supervisor_thread (vs_threads s)"
  "vs_running (init_failed s) = vs_running s" "last_bitrate_update (init_failed s) = last_bitrate_update s"
  by (simp_all add: init_failed_def)

lemma next_encode_pc_same [simp]:
  "frames_ok (next_encode_pc pc s) locals = frames_ok s locals" "pending_ok (next_encode_pc pc s) = pending_ok s"
  "references (next_encode_pc pc s) = references s" "encoder (next_encode_pc pc s) = encoder s"
  "encode_thread (vs_threads (next_encode_pc pc s)) = Some (if pipeline_running s then pc else EncodeDone)"
  "supervisor_thread (vs_threads (next_encode_pc pc s)) = supervisor_thread (vs_threads s)"
  "vs_running (next_encode_pc pc s) = vs_running s" "last_bitrate_update (next_encode_pc pc s) = last_bitrate_update s"
  by (simp_all add: next_encode_pc_def)

lemma spawn_workers_same [simp]:
  "frames_ok (spawn_workers s) locals = frames_ok s locals" "pending_ok (spawn_workers s) = pending_ok s"
  "supervisor_thread (vs_threads (spawn_workers s)) = supervisor_thread (vs_threads s)"
  "vs_running (spawn_workers s) = vs_running s" "last_bitrate_update (spawn_workers s) = last_bitrate_update s"
proof -
  show "frames_ok (spawn_workers s) locals = frames_ok s locals"
    by (rule frames_ok_cong) (simp_all add: spawn_workers_def references_def eye_references_def)
  show "pending_ok (spawn_workers s) = pending_ok s" by (rule pending_ok_cong) (simp_all add: spawn_workers_def)
qed (simp_all add: spawn_workers_def)

lemma initializeDecoder_same [simp]:
  "frames_ok (initializeDecoder a s) locals = frames_ok s locals" "pending_ok (initializeDecoder a s) = pending_ok s"
  "vs_threads (initializeDecoder a s) = vs_threads s"
  "vs_running (initializeDecoder a s) = vs_running s" "last_bitrate_update (initializeDecoder a s) = last_bitrate_update s"
  by (simp_all add: initializeDecoder_def split: prod.split)

lemma encode_step_inv:
  assumes inv: "stream_inv s" and "done_ok (fa_done a) s" "descriptors_ok (ia_surface ia)"
    "descriptors_ok (ua_surface (ia_undistorter ia))" and step: "encodeThreadMain ia a camera s = (out, s')"
  shows "stream_inv s'"
proof -
  have ok: "frames_ok s []" "pending_ok s" and fresh: "initializing s \<Longrightarrow> references s = [] \<and> encoder s = None"
    using inv by (simp_all add: stream_inv_def)
  have stay: "stream_inv s" by (rule inv)
  have go: ?thesis
    if "encode_thread (vs_threads s) \<noteq> None" "frames_ok s' []" "pending_ok s'" "vs_running s' = vs_running s"
      "supervisor_thread (vs_threads s') = supervisor_thread (vs_threads s)" "last_bitrate_update s' = last_bitrate_update s"
      "initializing s' \<Longrightarrow> references s' = [] \<and> encoder s' = None"
    using stream_inv_running [OF inv _ that(2-6)] that(1,7) by (simp add: torn_down_def)
  show ?thesis
  proof (cases "encode_thread (vs_threads s)")
    case None
    then show ?thesis using step inv by (simp add: encodeThreadMain_def)
  next
    case (Some pc)
    show ?thesis
    proof (cases pc)
      case InitPostprocess
      then have f: "references s = []" "encoder s = None" using fresh Some by (simp_all add: initializing_def)
      obtain r s1 where i: "initializePostprocess ia s = (r, s1)" by fastforce
      note p = initializePostprocess_ok [OF assms(3,4) ok f(1) i]
      have s': "s' = (if \<not> r then init_failed s1 else next_encode_pc InitEncoder s1)"
        using step Some InitPostprocess i by (simp add: encodeThreadMain_def)
      show ?thesis by (rule go) (use p f Some in \<open>auto simp: s' initializing_def control_view_def\<close>)
    next
      case InitEncoder
      then have f: "references s = []" "encoder s = None" using fresh Some by (simp_all add: initializing_def)
      obtain r s1 where i: "initializeEncoder ia s = (r, s1)" by fastforce
      note p = initializeEncoder_ok [OF ok f(2) i]
      have s': "s' = (if \<not> r then init_failed s1 else next_encode_pc InitDecoder s1)"
        using step Some InitEncoder i by (simp add: encodeThreadMain_def)
      show ?thesis by (rule go) (use p Some in \<open>auto simp: s' initializing_def split: if_splits\<close>)
    next
      case InitDecoder
      then have s': "s' = next_encode_pc SpawnWorkers (initializeDecoder ia s)" using step Some by (simp add: encodeThreadMain_def)
      show ?thesis by (rule go) (use ok Some in \<open>auto simp: s' initializing_def split: if_splits\<close>)
    next
      case SpawnWorkers
      then consider (a) "s' = init_failed s" | (b) pc1 where "s' = set_encode_pc pc1 (spawn_workers s)" "pc1 \<in> {DirectStart, DecodedLoop}"
        using step Some by (auto simp: encodeThreadMain_def split: if_splits)
      then show ?thesis by cases (rule go; use ok Some in \<open>auto simp: initializing_def\<close>)+
    next
      case DirectStart
      then consider (a) "s' = set_encode_pc EncodeDone (requestPipelineRestart ''yuyv_direct_capture_start_failed'' s)"
        | (b) "s' = set_encode_pc (DirectLoop (warmup_start s)) s"
        using step Some by (auto simp: encodeThreadMain_def split: if_splits)
      then show ?thesis by cases (rule go; use ok Some in \<open>auto simp: initializing_def\<close>)+
    next
      case (DirectLoop w)
      show ?thesis
      proof (cases "pipeline_running s")
        case True
        then have "encodeYuyvDirectLoop a camera w s = s'" using step Some DirectLoop by (simp add: encodeThreadMain_def)
        from direct_loop_ok [OF ok assms(2) this] Some DirectLoop show ?thesis by (intro go) (auto simp: initializing_def)
      next
        case False
        then have "s' = set_encode_pc EncodeDone s" using step Some DirectLoop by (simp add: encodeThreadMain_def)
        then show ?thesis using ok Some by (intro go) (auto simp: initializing_def)
      qed
    next
      case DecodedLoop
      show ?thesis
      proof (cases "pipeline_running s")
        case True
        then have "encodeDecodedLoop a s = (out, s')" using step Some DecodedLoop by (simp add: encodeThreadMain_def)
        from decoded_loop_ok [OF ok assms(2) this] Some DecodedLoop show ?thesis
          by (intro go) (auto simp: initializing_def control_view_def)
      next
        case False
        then have "s' = set_encode_pc EncodeDone s" using step Some DecodedLoop by (simp add: encodeThreadMain_def)
        then show ?thesis using ok Some by (intro go) (auto simp: initializing_def)
      qed
    next
      case EncodeDone
      then show ?thesis using step Some inv by (simp add: encodeThreadMain_def)
    qed
  qed
qed

section \<open>The other threads\<close>

text \<open>What the surfaces depend on.\<close>

definition surface_view where
  "surface_view s = (references s, next_address s, map_option und_pool (undistorter s), map_option cv_pool (converter s),
     pending_frames s, map_option input_view (encoder s))"

lemma pool_owned_pools:
  "pool_owned s held = (case map_option und_pool (undistorter s) of
     Some p \<Rightarrow> pool_wf p \<and> conserved (free_fds p) held (dmabuf_fds p)
   | None \<Rightarrow> (case map_option cv_pool (converter s) of
       Some p \<Rightarrow> pool_wf p \<and> conserved (free_fds p) held (dmabuf_fds p) | None \<Rightarrow> held = {#}))"
  by (simp add: pool_owned_def undistorter.owned_def converter.owned_def split: option.split)

lemma frames_ok_view:
  assumes "surface_view s' = surface_view s"
  shows "frames_ok s' [] = frames_ok s [] \<and> pending_ok s' = pending_ok s \<and> references s' = references s
    \<and> (encoder s' = None) = (encoder s = None)"
proof -
  have e: "references s' = references s" "next_address s' = next_address s" "pending_frames s' = pending_frames s"
    "map_option und_pool (undistorter s') = map_option und_pool (undistorter s)"
    "map_option cv_pool (converter s') = map_option cv_pool (converter s)"
    "map_option input_view (encoder s') = map_option input_view (encoder s)"
    using assms by (simp_all add: surface_view_def)
  have o: "pool_owned s' held = pool_owned s held" for held unfolding pool_owned_pools e(4,5) by (rule refl)
  have c: "current_owner s' = current_owner s" 
    using arg_cong [OF e(4), of "\<lambda>x. x = None"] arg_cong [OF e(5), of "\<lambda>x. x = None"] by (simp add: current_owner_def)
  have "frames_ok s' [] = frames_ok s []" by (simp only: frames_ok_def o c e)
  moreover have "pending_ok s' = pending_ok s"
  proof (cases "encoder s")
    case None
    then have "encoder s' = None" using e(6) by simp
    then show ?thesis using None e(3) by (simp add: pending_ok_def)
  next
    case (Some x)
    then obtain y where y: "encoder s' = Some y" "input_view y = input_view x" using e(6) by auto
    then have "enc_wf n y = enc_wf n x" "queued_fds y = queued_fds x" for n using enc_wf_view by blast+
    then show ?thesis unfolding pending_ok_def Some y(1) e(3) option.case by simp
  qed
  moreover have "(encoder s' = None) = (encoder s = None)" using arg_cong [OF e(6), of "\<lambda>x. x = None"] by simp
  ultimately show ?thesis using e(1) by blast
qed

lemma surface_view_count [simp]: "surface_view (count_stats f s) = surface_view s"
  by (simp add: surface_view_def)

lemma surface_view_consume [simp]: "surface_view (consume_component_stats s) = surface_view s"
  by (simp add: surface_view_def consume_component_stats_def references_def eye_references_def option.map_comp comp_def
      converter_consumeStats_def undistorter_consumeStats_def Let_def)

lemma thread_view_count [simp]: "thread_view (count_stats f s) = thread_view s"
  by (simp add: thread_view_def)

lemma stream_inv_view:
  assumes "stream_inv s" "\<not> torn_down s \<or> s' = s" "surface_view s' = surface_view s" "thread_view s' = thread_view s"
  shows "stream_inv s'"
proof (cases "s' = s")
  case False
  have t: "encode_thread (vs_threads s') = encode_thread (vs_threads s)" "supervisor_thread (vs_threads s') = supervisor_thread (vs_threads s)"
    "vs_running s' = vs_running s" "last_bitrate_update s' = last_bitrate_update s"
    using assms(4) by (simp_all add: thread_view_def)
  show ?thesis
    by (rule stream_inv_running [of s]) (use assms False t frames_ok_view [OF assms(3)] in \<open>auto simp: stream_inv_def initializing_def\<close>)
qed (use assms(1) in simp)

lemma onEncoderPacket_view:
  "surface_view (snd (onEncoderPacket now d ts k s)) = surface_view s \<and> control_view (snd (onEncoderPacket now d ts k s)) = control_view s"
proof -
  have e: "surface_view (s1\<lparr>enc_start_us_by_ts := x\<rparr>) = surface_view s1" for s1 x
    by (simp add: surface_view_def references_def eye_references_def)
  have w: "surface_view (s1\<lparr>warmup_active := x\<rparr>) = surface_view s1" "control_view (s1\<lparr>warmup_active := x\<rparr>) = control_view s1" for s1 x
    by (simp_all add: surface_view_def references_def eye_references_def control_view_def)
  have r: "surface_view (s1\<lparr>recorder := x\<rparr>) = surface_view s1" "control_view (s1\<lparr>recorder := x\<rparr>) = control_view s1" for s1 x
    by (simp_all add: surface_view_def references_def eye_references_def control_view_def)
  have c: "control_view (consume_component_stats s1) = control_view s1" for s1
    by (simp add: control_view_def consume_component_stats_def)
  show ?thesis unfolding onEncoderPacket_def Let_def end_warmup_def
    by (simp add: e w r c split: option.split)
qed

lemma dq_step_inv:
  assumes "stream_inv s" "encoderDqThreadMain a now s = (out, s')"
  shows "stream_inv s'"
proof (cases "s' = s")
  case False
  then have c: "\<not> torn_down s" using assms(2) by (auto simp: encoderDqThreadMain_def torn_down_def split: if_splits)
  obtain e where e: "encoder s = Some e" using assms(2) False by (auto simp: encoderDqThreadMain_def split: if_splits option.splits)
  obtain pkt sets e1 where d: "dequeueOne a e = (pkt, sets, e1)" by (metis prod_cases3)
  then have v: "input_view e1 = input_view e" using view_dequeue [of a e] by simp
  define s1 where "s1 = s\<lparr>encoder := Some e1\<rparr>"
  have s1: "surface_view s1 = surface_view s" "control_view s1 = control_view s"
    using e v by (simp_all add: s1_def surface_view_def references_def eye_references_def control_view_def)
  have "s' = s1 \<or> (\<exists>d ts k out1. onEncoderPacket now d ts k s1 = (out1, s'))"
    using assms(2) e d False by (cases pkt) (auto simp: encoderDqThreadMain_def Let_def s1_def split: if_splits prod.splits)
  then have "surface_view s' = surface_view s" "control_view s' = control_view s" using s1 onEncoderPacket_view by (auto, (metis snd_conv)+)
  then show ?thesis using stream_inv_view [OF assms(1)] c control_thread_view by blast
qed (use assms(1) in simp)

lemma capture_same:
  assumes "captureThreadMain start_ok a camera s = (out, s')"
  shows "surface_view s' = surface_view s \<and> thread_view s' = thread_view s"
proof -
  have set_pc: "surface_view (set_capture_pc pc s1) = surface_view s1" "thread_view (set_capture_pc pc s1) = thread_view s1" for pc s1
    by (simp_all add: surface_view_def thread_view_def set_capture_pc_def references_def eye_references_def)
  have dec: "surface_view (s1\<lparr>decoder := x\<rparr>) = surface_view s1" "thread_view (s1\<lparr>decoder := x\<rparr>) = thread_view s1" for s1 x
    by (simp_all add: surface_view_def thread_view_def references_def eye_references_def)
  have bad: "surface_view (s1\<lparr>bad_decode_frames := x\<rparr>) = surface_view s1" "thread_view (s1\<lparr>bad_decode_frames := x\<rparr>) = thread_view s1" for s1 x
    by (simp_all add: surface_view_def thread_view_def references_def eye_references_def)
  have req: "surface_view (requestPipelineRestart r s1) = surface_view s1" "thread_view (requestPipelineRestart r s1) = thread_view s1" for r s1
    by (simp_all add: surface_view_def thread_view_def requestPipelineRestart_def references_def eye_references_def)
  have f: "surface_view (snd (capture_frame a d now s)) = surface_view s \<and> thread_view (snd (capture_frame a d now s)) = thread_view s" for d now
    unfolding capture_frame_def Let_def
    by (simp add: dec bad req set_pc split: prod.split)
  show ?thesis using assms f
    by (auto simp: captureThreadMain_def set_pc split: option.splits capture_pc.splits if_splits) (metis snd_conv)+
qed

lemma capture_step_inv:
  assumes "stream_inv s" "captureThreadMain start_ok a camera s = (out, s')"
  shows "stream_inv s'"
proof -
  have "\<not> torn_down s \<or> s' = s" using assms(2) by (auto simp: captureThreadMain_def torn_down_def)
  with stream_inv_view [OF assms(1)] capture_same [OF assms(2)] show ?thesis by blast
qed

lemma eye_step_inv:
  assumes "stream_inv s" "eye_step init_ok subscribed surface s = (out, s')"
  shows "stream_inv s'"
proof (cases "s' = s")
  case False
  then have c: "\<not> torn_down s" using assms(2) by (auto simp: eye_step_def torn_down_def)
  have ok: "frames_ok s []" "pending_ok s" using assms(1) by (simp_all add: stream_inv_def)
  note e = eye_step_ok [OF ok(1) assms(2)]
  have t: "encode_thread (vs_threads s') = encode_thread (vs_threads s)" "supervisor_thread (vs_threads s') = supervisor_thread (vs_threads s)"
    "vs_running s' = vs_running s" "last_bitrate_update s' = last_bitrate_update s"
    using e by (simp_all add: thread_view_def)
  have p: "pending_ok s'" using pending_ok_cong [of s' s] e ok by simp
  have "references s' = [] \<and> encoder s' = None" if "initializing s'"
  proof -
    have "initializing s" using that t(1) by (simp add: initializing_def)
    then have "references s = []" "encoder s = None" using assms(1) by (simp_all add: stream_inv_def)
    then show ?thesis using e by simp
  qed
  then show ?thesis using stream_inv_running [OF assms(1) c _ p t(3,2,4)] e by blast
qed (use assms(1) in simp)

section \<open>Starting and stopping\<close>

lemma drop_queue_empties: "nv12_queue (vs_eye s) = fs \<Longrightarrow> nv12_queue (vs_eye (drop_queue locals fs s)) = []"
  by (induction locals fs s rule: drop_queue.induct) simp_all

lemma clear_queue_empties [simp]: "nv12_queue (vs_eye (clear_nv12_queue locals s)) = []"
  by (simp add: clear_nv12_queue_def drop_queue_empties)

lemma drop_pending_same [simp]:
  "vs_threads (drop_pending ps s) = vs_threads s" "vs_eye (drop_pending ps s) = vs_eye s" "encoder (drop_pending ps s) = encoder s"
  "pipeline_running (drop_pending ps s) = pipeline_running s" "vs_running (drop_pending ps s) = vs_running s"
  "last_bitrate_update (drop_pending ps s) = last_bitrate_update s"
  by (induction ps s rule: drop_pending.induct) simp_all

lemma drop_pending_empties: "pending_frames s = ps \<Longrightarrow> pending_frames (drop_pending ps s) = []"
  by (induction ps s rule: drop_pending.induct) simp_all

lemma eye_process_same:
  "vs_running (snd (eye_process b c f s)) = vs_running s \<and> last_bitrate_update (snd (eye_process b c f s)) = last_bitrate_update s
   \<and> supervisor_thread (vs_threads (snd (eye_process b c f s))) = supervisor_thread (vs_threads s)
   \<and> pipeline_running (snd (eye_process b c f s)) = pipeline_running s"
  by (simp add: eye_process_def set_eye_pc_def)

lemma join_eye_same:
  "vs_running (join_eye_thread s) = vs_running s \<and> last_bitrate_update (join_eye_thread s) = last_bitrate_update s
   \<and> supervisor_thread (vs_threads (join_eye_thread s)) = supervisor_thread (vs_threads s)
   \<and> pipeline_running (join_eye_thread s) = pipeline_running s \<and> eye_thread (vs_threads (join_eye_thread s)) = None"
  using eye_process_same by (simp add: join_eye_thread_def Let_def split: option.split eye_pc.split)

lemma stopPipeline_torn_down:
  "torn_down (stopPipeline ros_ok s) \<and> \<not> capturer (stopPipeline ros_ok s) \<and> vs_running (stopPipeline ros_ok s) = vs_running s
   \<and> last_bitrate_update (stopPipeline ros_ok s) = last_bitrate_update s
   \<and> supervisor_thread (vs_threads (stopPipeline ros_ok s)) = supervisor_thread (vs_threads s)"
proof -
  define s1 where "s1 = join_eye_thread (s\<lparr>pipeline_running := False\<rparr>)"
  have j: "vs_running s1 = vs_running s" "last_bitrate_update s1 = last_bitrate_update s"
    "supervisor_thread (vs_threads s1) = supervisor_thread (vs_threads s)" "\<not> pipeline_running s1" "eye_thread (vs_threads s1) = None"
    using join_eye_same [of "s\<lparr>pipeline_running := False\<rparr>"] by (simp_all add: s1_def)
  define s2 where "s2 = s1\<lparr>vs_threads := (vs_threads s1)\<lparr>capture_thread := None, encode_thread := None, encoder_dq_thread := False\<rparr>\<rparr>"
  define s3 where "s3 = clear_nv12_queue [] s2"
  define s4 where "s4 = s3\<lparr>vs_eye := (vs_eye s3)\<lparr>eye_inflight := False\<rparr>, encoder := None\<rparr>"
  define s5 where "s5 = (if ros_ok then drop_pending (pending_frames s4) s4 else s4\<lparr>pending_frames := []\<rparr>)"
  have f: "pending_frames s5 = []" "nv12_queue (vs_eye s5) = []" "vs_threads s5 = vs_threads s2" "encoder s5 = None"
    "pipeline_running s5 = pipeline_running s1" "vs_running s5 = vs_running s1" "last_bitrate_update s5 = last_bitrate_update s1"
    by (simp_all add: s5_def s4_def s3_def drop_pending_empties) (simp_all add: s2_def)
  show ?thesis
    unfolding stopPipeline_def Let_def s1_def [symmetric] s2_def [symmetric] s3_def [symmetric] s4_def [symmetric] s5_def [symmetric]
    by (simp add: torn_down_def references_def eye_references_def f j) (simp add: s2_def j)
qed

lemma startPipeline_fresh:
  assumes "torn_down s" "startPipeline a s = (ok, s')"
  shows "references s' = [] \<and> encoder s' = None \<and> undistorter s' = None \<and> converter s' = None \<and> vs_running s' = vs_running s
    \<and> last_bitrate_update s' = last_bitrate_update s \<and> supervisor_thread (vs_threads s') = supervisor_thread (vs_threads s)
    \<and> (ok \<longrightarrow> vs_running s)"
proof -
  have d: "references s = []" "encoder s = None" "undistorter s = None" "converter s = None" "eye_thread (vs_threads s) = None"
    using assms(1) by (simp_all add: torn_down_def)
  then have q: "nv12_queue (vs_eye s) = []" "pending_frames s = []" by (simp_all add: references_def)
  show ?thesis using assms(2) d q
    by (auto simp: startPipeline_def Let_def clear_nv12_queue_def references_def eye_references_def split: if_splits prod.splits)
qed

lemma inv_fresh:
  assumes "references s = []" "encoder s = None" "undistorter s = None" "converter s = None" "at_rest s \<Longrightarrow> torn_down s \<and> camera_released s"
    "last_bitrate_update s = push_bit 63 1"
  shows "stream_inv s"
proof -
  have "frames_ok s []" by (rule frames_ok_fresh [OF assms(1)]) (simp add: pool_owned_def assms(3,4))
  moreover have "pending_ok s" using assms(1,2) by (simp add: pending_ok_def references_def)
  ultimately show ?thesis using assms by (simp add: stream_inv_def)
qed

lemma inv_torn_down: "torn_down s \<Longrightarrow> camera_released s \<Longrightarrow> last_bitrate_update s = push_bit 63 1 \<Longrightarrow> stream_inv s"
  by (rule inv_fresh) (simp_all add: torn_down_def)

lemma torn_down_supervisor [simp]: "torn_down (set_supervisor_pc pc s) = torn_down s"
  "camera_released (set_supervisor_pc pc s) = camera_released s"
  by (simp_all add: torn_down_def camera_released_def set_supervisor_pc_def references_def eye_references_def)

lemma stopPipeline_releases [simp]: "camera_released (stopPipeline ros_ok s)"
  using stopPipeline_torn_down [of ros_ok s] by (simp add: camera_released_def)

lemma set_supervisor_pc_same [simp]:
  "references (set_supervisor_pc pc s) = references s" "encoder (set_supervisor_pc pc s) = encoder s"
  "undistorter (set_supervisor_pc pc s) = undistorter s" "converter (set_supervisor_pc pc s) = converter s"
  "last_bitrate_update (set_supervisor_pc pc s) = last_bitrate_update s" "vs_running (set_supervisor_pc pc s) = vs_running s"
  "supervisor_thread (vs_threads (set_supervisor_pc pc s)) = Some pc"
  by (simp_all add: set_supervisor_pc_def references_def eye_references_def)

lemma supervisor_step_inv:
  assumes inv: "stream_inv s" and e: "restartSupervisorThreadMain ros_ok a s = s'"
  shows "stream_inv s'"
proof -
  have l: "last_bitrate_update s = push_bit 63 1" and rest: "at_rest s \<Longrightarrow> torn_down s \<and> camera_released s" using inv by (simp_all add: stream_inv_def)
  show ?thesis
  proof (cases "supervisor_thread (vs_threads s)")
    case None
    then show ?thesis using e inv by (simp add: restartSupervisorThreadMain_def)
  next
    case (Some pc)
    show ?thesis
    proof (cases pc)
      case SupervisorWait
      then consider (a) "\<not> vs_running s" "s' = set_supervisor_pc SupervisorDone s" | (b) "s' = s"
        | (c) "s' = set_supervisor_pc SupervisorBackoff (stopPipeline ros_ok (s\<lparr>restart_requested := False, restart_reason := []\<rparr>))"
        using e Some by (auto simp: restartSupervisorThreadMain_def split: if_splits)
      then show ?thesis
      proof cases
        case a
        then show ?thesis using rest l by (intro inv_torn_down) (simp_all add: at_rest_def)
      next
        case c
        then show ?thesis using stopPipeline_torn_down [of ros_ok "s\<lparr>restart_requested := False, restart_reason := []\<rparr>"] l
          by (intro inv_torn_down) simp_all
      qed (use inv in simp)
    next
      case SupervisorBackoff
      then have d: "torn_down s" "camera_released s" using rest Some by (simp_all add: at_rest_def)
      obtain ok s1 where st: "startPipeline a s = (ok, s1)" by fastforce
      note f = startPipeline_fresh [OF d(1) st]
      consider (a) "s' = set_supervisor_pc SupervisorDone s" | (b) "ok" "s' = set_supervisor_pc SupervisorWait s1"
        | (c) "s' = stopPipeline ros_ok s1"
        using e Some SupervisorBackoff st by (auto simp: restartSupervisorThreadMain_def split: if_splits)
      then show ?thesis
      proof cases
        case a
        then show ?thesis using d l by (intro inv_torn_down) simp_all
      next
        case b
        then show ?thesis using f l by (intro inv_fresh) (simp_all add: at_rest_def)
      next
        case c
        then show ?thesis using stopPipeline_torn_down [of ros_ok s1] f l by (intro inv_torn_down) simp_all
      qed
    next
      case SupervisorDone
      then show ?thesis using Some e inv by (simp add: restartSupervisorThreadMain_def)
    qed
  qed
qed

end
