(* ===== verification/StreamFacts.thy ===== *)
theory StreamFacts
  imports StreamInvariant
begin

text \<open>
  What the video pipeline guarantees in every state its owner and its threads can reach: the surfaces that the encoder
  and the eye images share are never in two places, and a stream that does not run is torn down.
\<close>

section \<open>Calls of the owner\<close>

lemma vs_start_inv:
  assumes inv: "stream_inv s" and e: "vs_start par_ints p ros_ok a s = (ok, s')"
  shows "stream_inv s'"
proof (cases "vs_running s")
  case True
  then show ?thesis using e inv by (simp add: vs_start_def)
next
  case False
  then have d: "torn_down s" and l: "last_bitrate_update s = push_bit 63 1" using inv by (simp_all add: stream_inv_def at_rest_def)
  define s0 where "s0 x c = (s\<lparr>vs_config := x\<rparr>)\<lparr>capturer := c\<rparr>" for x c
  have failed: "stream_inv (s0 x c)" if "c \<Longrightarrow> pixel_format (capturer_config x) = MJPEG" for x c
  proof (rule inv_torn_down)
    show "torn_down (s0 x c)" using d by (simp add: s0_def torn_down_def references_def eye_references_def)
    show "camera_released (s0 x c)" using that False by (simp add: s0_def camera_released_def)
  qed (simp add: s0_def l)
  have started: "stream_inv s'" if st: "startPipeline (oa_start a) ((s0 x True)\<lparr>restart_requested := False, restart_reason := [], vs_running := True\<rparr>) = (ok1, s5)"
    and s': "s' = (if ok1 then set_supervisor_pc SupervisorWait s5 else stopPipeline ros_ok (s5\<lparr>vs_running := False\<rparr>))" for x ok1 s5
  proof -
    have "torn_down ((s0 x True)\<lparr>restart_requested := False, restart_reason := [], vs_running := True\<rparr>)"
      using d by (simp add: s0_def torn_down_def references_def eye_references_def)
    note f = startPipeline_fresh [OF this st]
    have l5: "last_bitrate_update s5 = push_bit 63 1" using f l by (simp add: s0_def)
    show ?thesis
    proof (cases ok1)
      case True
      have "\<not> at_rest s'" using f True by (simp add: at_rest_def s')
      then show ?thesis using True f l5 by (intro inv_fresh) (simp_all add: s')
    next
      case False
      then show ?thesis using stopPipeline_torn_down [of ros_ok "s5\<lparr>vs_running := False\<rparr>"] l5 by (intro inv_torn_down) (simp_all add: s')
    qed
  qed
  define cap where "cap = read_capture_config p (read_profile par_ints)"
  define s1 where "s1 = s\<lparr>vs_config := (vs_config s)\<lparr>v4l2_warmup_drop_frames := max 0 (int_param p ''v4l2.warmup_drop_frames'' 30),
                                                 capturer_config := cap\<rparr>\<rparr>"
  show ?thesis
  proof (cases "oa_camera a")
    case None
    then have "s' = s0 (vs_config s1) False"
      using e False by (simp add: vs_start_def Let_def s1_def cap_def s0_def)
    then show ?thesis using failed [of False] by simp
  next
    case (Some n)
    define use where "use = (0 < neg_width n \<and> 0 < neg_height n)"
    define width where "width = (if use then neg_width n else fst (read_profile par_ints))"
    define height where "height = (if use then neg_height n else fst (snd (read_profile par_ints)))"
    define direct where "direct = (pixel_format cap = YUYV \<and> neg_format n = YUYV \<and> memory_mode cap = kDmaBuf)"
    define c2 where "c2 = (vs_config s1)\<lparr>capturer_config := cap\<lparr>cap_width := width, cap_height := height\<rparr>, yuyv_direct_enabled := direct\<rparr>"
    define c3 where "c3 = read_stream_config (oa_v4l2 a) p (oa_package a) width height (snd (snd (read_profile par_ints))) c2"
    obtain ok1 s5 where st: "startPipeline (oa_start a) ((s0 c3 True)\<lparr>restart_requested := False, restart_reason := [], vs_running := True\<rparr>) = (ok1, s5)"
      by fastforce
    have x: "s1\<lparr>capturer := True, vs_config := c2\<rparr> = s0 c2 True" by (simp add: s1_def s0_def)
    have y: "(s0 c2 True)\<lparr>vs_config := c3\<rparr> = s0 c3 True" "(s0 c2 True)\<lparr>capturer := False\<rparr> = s0 c2 False" by (simp_all add: s0_def)
    have z: "vs_config (s0 c2 True) = c2" by (simp add: s0_def)
    have c3: "capturer_config c3 = capturer_config c2" "pixel_format (capturer_config c2) = pixel_format cap"
      by (simp_all add: c3_def c2_def read_stream_config_def Let_def)
    consider (a) "s' = s0 c2 False" | (b) "s' = s0 c3 True" "pixel_format cap = MJPEG"
      | (c) "s' = (if ok1 then set_supervisor_pc SupervisorWait s5 else stopPipeline ros_ok (s5\<lparr>vs_running := False\<rparr>))"
      using e unfolding vs_start_def Let_def if_not_P [OF False] cap_def [symmetric] s1_def [symmetric] Some option.case
        use_def [symmetric] width_def [symmetric] height_def [symmetric] direct_def [symmetric] c2_def [symmetric] x z
        c3_def [symmetric] y st prod.case by (auto split: if_splits)
    then show ?thesis
    proof cases
      case a
      then show ?thesis using failed [of False] by simp
    next
      case b
      then show ?thesis using failed [of True c3] c3 by simp
    next
      case c
      show ?thesis by (rule started [OF st c])
    qed
  qed
qed

lemma inv_same_parts:
  assumes "stream_inv s" "surface_view s' = surface_view s" "vs_threads s' = vs_threads s" "vs_running s' = vs_running s"
    "last_bitrate_update s' = last_bitrate_update s" "decoder s' = decoder s" "recorder s' = recorder s"
    "pipeline_running s' \<Longrightarrow> pipeline_running s" "vs_eye s' = vs_eye s" "capturer s' = capturer s" "vs_config s' = vs_config s"
  shows "stream_inv s'"
proof (cases "torn_down s")
  case True
  have v: "map_option und_pool (undistorter s') = map_option und_pool (undistorter s)"
    "map_option cv_pool (converter s') = map_option cv_pool (converter s)" using assms(2) by (simp_all add: surface_view_def)
  have d: "torn_down s'" using True frames_ok_view [OF assms(2)] assms(3,6-9) v by (auto simp: torn_down_def)
  have r: "at_rest s' = at_rest s" "camera_released s' = camera_released s"
    using assms(3,4,10,11) by (simp_all add: at_rest_def camera_released_def)
  show ?thesis
  proof (rule inv_fresh)
    show "torn_down s' \<and> camera_released s'" if "at_rest s'" using that d r assms(1) by (simp add: stream_inv_def)
  qed (use d assms(1,5) in \<open>simp_all add: torn_down_def stream_inv_def\<close>)
next
  case False
  have i: "initializing s' = initializing s" using assms(3) by (simp add: initializing_def)
  note v = frames_ok_view [OF assms(2)]
  show ?thesis
    by (rule stream_inv_running [OF assms(1) False]) (use assms v i in \<open>simp_all add: stream_inv_def\<close>)
qed

lemma vs_stop_inv: "stream_inv s \<Longrightarrow> stream_inv (vs_stop ros_ok s)"
proof -
  assume inv: "stream_inv s"
  show ?thesis
  proof (cases "vs_running s")
    case True
    define s2 where "s2 = (s\<lparr>vs_running := False, restart_requested := False, restart_reason := []\<rparr>)
      \<lparr>vs_threads := (vs_threads s)\<lparr>supervisor_thread := None\<rparr>\<rparr>"
    have "vs_stop ros_ok s = stopPipeline ros_ok s2" using True by (simp add: vs_stop_def s2_def Let_def)
    then show ?thesis using stopPipeline_torn_down [of ros_ok s2] inv
      by (intro inv_torn_down) (simp_all add: stream_inv_def, simp add: s2_def)
  qed (use inv in \<open>simp add: vs_stop_def\<close>)
qed

lemma vs_consumeStats_inv: "stream_inv s \<Longrightarrow> stream_inv (snd (vs_consumeStats s))"
proof -
  assume inv: "stream_inv s"
  obtain f where f: "snd (vs_consumeStats s) = consume_component_stats (count_stats f s)"
    by (auto simp: vs_consumeStats_def Let_def split_beta)
  have v: "surface_view (snd (vs_consumeStats s)) = surface_view s" by (simp add: f)
  show ?thesis by (rule inv_same_parts [OF inv v]) (simp_all add: f consume_component_stats_def count_stats_def)
qed

lemma vs_setSpsPpsCallback_inv: "stream_inv s \<Longrightarrow> stream_inv (snd (vs_setSpsPpsCallback b s))"
proof -
  assume inv: "stream_inv s"
  define s1 where "s1 = s\<lparr>vs_sps_pps_callback := b\<rparr>"
  obtain e where e: "snd (vs_setSpsPpsCallback b s) = s1\<lparr>encoder := e\<rparr>" "map_option input_view e = map_option input_view (encoder s)"
  proof (cases "encoder s")
    case None
    then show ?thesis using that [of None] by (simp add: vs_setSpsPpsCallback_def Let_def s1_def)
  next
    case (Some x)
    obtain sets e1 where c: "enc_setSpsPpsCallback b x = (sets, e1)" by fastforce
    have "input_view e1 = input_view x" using view_callback [of b x] c by simp
    then show ?thesis using that [of "Some e1"] Some c by (simp add: vs_setSpsPpsCallback_def Let_def s1_def)
  qed
  have v: "surface_view (snd (vs_setSpsPpsCallback b s)) = surface_view s"
    by (simp add: e surface_view_def references_def eye_references_def) (simp add: s1_def)
  show ?thesis by (rule inv_same_parts [OF inv v]) (simp_all add: e(1) s1_def)
qed

lemma vs_setEncodedFrameCallback_inv: "stream_inv s \<Longrightarrow> stream_inv (vs_setEncodedFrameCallback b s)"
  by (rule inv_same_parts) (simp_all add: vs_setEncodedFrameCallback_def surface_view_def references_def eye_references_def)

lemma flag_inv: "stream_inv s \<Longrightarrow> stream_inv (s\<lparr>pipeline_running := False\<rparr>)"
  by (rule inv_same_parts) (simp_all add: surface_view_def references_def eye_references_def)

text \<open>The smallest time point is so far away that the difference wraps.\<close>

lemma elapsed_wraps: "unat (now :: u64) < 2 ^ 63 \<Longrightarrow> sint (now - push_bit 63 1) < 0"
proof -
  assume n: "unat now < 2 ^ 63"
  have "int (unat now) < int (2 ^ 63)" using n by (simp only: of_nat_less_iff)
  then have u: "uint now < 2 ^ 63" by simp
  have "uint (now - push_bit 63 1) = (uint now - 9223372036854775808) mod 18446744073709551616" by (simp add: uint_word_ariths)
  also have "\<dots> = (uint now + 9223372036854775808 + (- 1) * 18446744073709551616) mod 18446744073709551616"
    by (rule arg_cong [where f = "\<lambda>x. x mod 18446744073709551616"]) linarith
  also have "\<dots> = (uint now + 9223372036854775808) mod 18446744073709551616" by (rule mod_mult_self1)
  also have "\<dots> = uint now + 2 ^ 63" using u by (simp add: mod_pos_pos_trivial)
  finally have "uint (now - push_bit 63 1) = uint now + 2 ^ 63" .
  moreover have "(uint now + 2 ^ 63) div 2 ^ 63 = 1" using u by simp
  ultimately have "odd (uint (now - push_bit 63 1) div 2 ^ 63)" by (simp only:) simp
  then have "bit (uint (now - push_bit 63 1)) 63" by (simp only: bit_iff_odd not_False_eq_True)
  then show ?thesis by (simp only: sint_uint signed_take_bit_negative_iff) simp
qed

lemma setTargetBitrate_idle:
  assumes "stream_inv s" "unat now < 2 ^ 63"
  shows "setTargetBitrate now answer bps s = s"
  using assms elapsed_wraps [of now] by (simp add: setTargetBitrate_def stream_inv_def Let_def)

section \<open>Reachable states\<close>

text \<open>The calls of the owner and the steps of the threads, in any order. What the outside answers is arbitrary, but
  surfaces that exist have different descriptors, the element is done only with buffers it got, and the steady clock
  is not negative. The flag of the pipeline can be cleared at any time: the threads see it before they are joined.\<close>

inductive vs_reachable :: "VideoStream \<Rightarrow> bool" where
  vr_init: "vs_reachable VideoStream_init"
| vr_start: "vs_reachable s \<Longrightarrow> vs_start par_ints p ros_ok a s = (ok, s') \<Longrightarrow> vs_reachable s'"
| vr_stop: "vs_reachable s \<Longrightarrow> vs_reachable (vs_stop ros_ok s)"
| vr_callback: "vs_reachable s \<Longrightarrow> vs_reachable (vs_setEncodedFrameCallback b s)"
| vr_sps_callback: "vs_reachable s \<Longrightarrow> vs_reachable (snd (vs_setSpsPpsCallback b s))"
| vr_bitrate: "vs_reachable s \<Longrightarrow> unat now < 2 ^ 63 \<Longrightarrow> vs_reachable (setTargetBitrate now answer bps s)"
| vr_stats: "vs_reachable s \<Longrightarrow> vs_reachable (snd (vs_consumeStats s))"
| vr_flag: "vs_reachable s \<Longrightarrow> vs_reachable (s\<lparr>pipeline_running := False\<rparr>)"
| vr_encode: "vs_reachable s \<Longrightarrow> done_ok (fa_done a) s \<Longrightarrow> descriptors_ok (ia_surface ia)
    \<Longrightarrow> descriptors_ok (ua_surface (ia_undistorter ia)) \<Longrightarrow> encodeThreadMain ia a camera s = (out, s') \<Longrightarrow> vs_reachable s'"
| vr_capture: "vs_reachable s \<Longrightarrow> captureThreadMain start_ok d camera_frame s = (out, s') \<Longrightarrow> vs_reachable s'"
| vr_dq: "vs_reachable s \<Longrightarrow> encoderDqThreadMain c now_us s = (out, s') \<Longrightarrow> vs_reachable s'"
| vr_eye: "vs_reachable s \<Longrightarrow> eye_step init_ok subscribed surface s = (out, s') \<Longrightarrow> vs_reachable s'"
| vr_supervisor: "vs_reachable s \<Longrightarrow> restartSupervisorThreadMain ros_ok st s = s' \<Longrightarrow> vs_reachable s'"

lemma init_inv: "stream_inv VideoStream_init"
proof -
  have r: "references VideoStream_init = []" by (simp add: VideoStream_init_def Threads_none_def references_def eye_references_def)
  have "torn_down VideoStream_init" using r by (simp add: torn_down_def) (simp add: VideoStream_init_def Threads_none_def)
  moreover have "camera_released VideoStream_init" by (simp add: VideoStream_init_def camera_released_def)
  ultimately show ?thesis by (rule inv_torn_down) (simp add: VideoStream_init_def)
qed

lemma reachable_inv: "vs_reachable s \<Longrightarrow> stream_inv s"
proof (induction rule: vs_reachable.induct)
  case (vr_bitrate s now answer bps)
  then show ?case using setTargetBitrate_idle by simp
next
  case (vr_encode s a ia camera out s')
  then show ?case using encode_step_inv by blast
qed (blast intro: init_inv vs_start_inv vs_stop_inv vs_setEncodedFrameCallback_inv vs_setSpsPpsCallback_inv vs_consumeStats_inv
       flag_inv capture_step_inv dq_step_inv eye_step_inv supervisor_step_inv)+

section \<open>Properties\<close>

definition eye_frames :: "VideoStream \<Rightarrow> SharedNv12Frame list" where
  "eye_frames s = nv12_queue (vs_eye s) @ eye_references s"

definition at_encoder :: "VideoStream \<Rightarrow> int multiset" where
  "at_encoder s = (case encoder s of None \<Rightarrow> {#} | Some e \<Rightarrow> queued_fds e)"

definition in_use :: "VideoStream \<Rightarrow> int set" where
  "in_use s = set_mset (at_encoder s) \<union> sf_fd ` set (eye_frames s)"

lemma in_use_references: "pending_ok s \<Longrightarrow> in_use s = sf_fd ` set (references s)"
proof -
  assume p: "pending_ok s"
  have "at_encoder s = mset (map fst (pending_frames s))" using p by (cases "encoder s") (auto simp: pending_ok_def at_encoder_def)
  then have "set_mset (at_encoder s) = fst ` set (pending_frames s)" by simp
  also have "\<dots> = sf_fd ` snd ` set (pending_frames s)" using p by (force simp: pending_ok_def)
  finally show ?thesis by (simp add: in_use_def references_def eye_frames_def image_Un)
qed

lemma pool_owned_conserved: "pool_owned s held \<Longrightarrow> conserved (free_pool s) held (pool_fds s)"
  by (auto simp: pool_owned_def free_pool_def pool_fds_def undistorter.owned_def converter.owned_def conserved_def split: option.splits)

text \<open>C11: Whatever the threads, the camera and the devices do, every surface of the present pool is free, or at the encoder
  once, or held for the eye images, and the pool hands out only those that are free: no surface is lost, none is
  free and in use, and none is queued twice.\<close>

theorem surfaces_never_shared:
  assumes "vs_reachable s"
  shows "distinct (pool_fds s) \<and> (\<forall>fd. Multiset.count (at_encoder s) fd \<le> 1) \<and> mset (free_pool s) + mset_set (in_use s) = mset (pool_fds s)"
proof -
  have ok: "frames_ok s []" "pending_ok s" using reachable_inv [OF assms] by (simp_all add: stream_inv_def)
  have "pool_owned s (mset_set (in_use s))" using ok(1) in_use_references [OF ok(2)] by (simp add: frames_ok_def)
  from pool_owned_conserved [OF this] have c: "distinct (pool_fds s)" "mset (free_pool s) + mset_set (in_use s) = mset (pool_fds s)"
    by (simp_all add: conserved_def)
  have "Multiset.count (at_encoder s) fd \<le> 1" for fd
  proof (cases "encoder s")
    case (Some e)
    then have d: "distinct (map fst (pending_frames s))" and q: "at_encoder s = mset (map fst (pending_frames s))"
      using ok(2) by (simp_all add: pending_ok_def at_encoder_def)
    show ?thesis unfolding q using d by (simp only: distinct_count_atmost_1) simp
  qed (simp add: at_encoder_def)
  then show ?thesis using c by blast
qed

text \<open>C30: When the stream does not run, and while it pauses before a restart, nothing of a pipeline is in place: no thread
  but the supervisor, no encoder, decoder, undistorter, converter, recorder or eye image publisher, and no frame. The
  camera is closed too, but for a stream that is not running and whose last start failed behind the opening of the camera,
  which only the MJPEG mode can do. \<open>stop\<close> brings a running stream there from every state, the camera included.\<close>

theorem stopped_stream_is_torn_down:
  assumes "vs_reachable s"
  shows "(\<not> vs_running s \<or> supervisor_thread (vs_threads s) = Some SupervisorBackoff \<longrightarrow>
      torn_down s \<and> (capturer s \<longrightarrow> \<not> vs_running s \<and> pixel_format (capturer_config (vs_config s)) = MJPEG))
    \<and> (vs_running s \<longrightarrow> torn_down (vs_stop ros_ok s) \<and> \<not> capturer (vs_stop ros_ok s) \<and> \<not> vs_running (vs_stop ros_ok s))"
proof
  show "\<not> vs_running s \<or> supervisor_thread (vs_threads s) = Some SupervisorBackoff \<longrightarrow>
      torn_down s \<and> (capturer s \<longrightarrow> \<not> vs_running s \<and> pixel_format (capturer_config (vs_config s)) = MJPEG)"
    using reachable_inv [OF assms] unfolding stream_inv_def at_rest_def camera_released_def by blast
  show "vs_running s \<longrightarrow> torn_down (vs_stop ros_ok s) \<and> \<not> capturer (vs_stop ros_ok s) \<and> \<not> vs_running (vs_stop ros_ok s)"
    by (simp add: vs_stop_def Let_def stopPipeline_torn_down)
qed

text \<open>The target bitrate is never set: the time of the last change begins at the smallest time point, the difference to
  the clock wraps to a negative number, and so every request is taken for one that comes too early.\<close>

theorem target_bitrate_never_set:
  assumes "vs_reachable s" "unat now < 2 ^ 63"
  shows "setTargetBitrate now answer bps s = s"
  using setTargetBitrate_idle reachable_inv assms by blast

section \<open>A run\<close>

text \<open>A camera that delivers YUYV, a pool of two surfaces, eye images without a limit on their rate. Everything succeeds.\<close>

definition params0 :: params where
  "params0 = \<lparr>par_bool = (\<lambda>n. if n = ''video.eye_image.enabled'' then Some True else None),
     par_int = (\<lambda>n. if n = ''video.decoder.buffer_pool_size'' then Some 2 else if n = ''video.v4l2.warmup_drop_frames'' then Some 0
                    else if n = ''video.eye_image.max_fps'' then Some 0 else None),
     par_double = (\<lambda>_. None), par_string = (\<lambda>n. if n = ''video.pixel_format'' then Some ''yuyv'' else None)\<rparr>"

definition start0 :: start_answer where
  "start0 = \<lparr>st_capturer = True, st_now_us = 0, st_dir = True, st_file = True\<rparr>"

definition open0 :: open_answer where
  "open0 = \<lparr>oa_camera = Some \<lparr>neg_width = 4, neg_height = 2, neg_format = YUYV\<rparr>, oa_nvjpeg = True, oa_package = [],
     oa_v4l2 = (\<lambda>_. 0), oa_start = start0\<rparr>"

definition init0 :: init_answer where
  "init0 = \<lparr>ia_fl = (\<lambda>x. x), ia_opencv = opencv0, ia_undistorter = und_answer0, ia_surface = (\<lambda>i. Some (int i)),
     ia_prepare = (\<lambda>_. True), ia_encoder_created = True, ia_encoder_hw = (\<lambda>_. True), ia_input_buffers = 2, ia_capture_buffers = 2,
     ia_decoder_created = True, ia_decoder_surface = (\<lambda>i. Some (int i)), ia_capture_start = True\<rparr>"

definition frame0 :: frame_answer where
  "frame0 = \<lparr>fa_done = [], fa_remap = \<lparr>ra_source = True, ra_remapped = True, ra_remap_us = 1, ra_map_us = 1, ra_kernel_us = 1, ra_sync_us = 1\<rparr>,
     fa_convert = \<lparr>ca_source = True, ca_converted = True, ca_map_us = 1, ca_call_us = 1\<rparr>, fa_submit = all_well, fa_submit_us = 5, fa_eye_us = 6\<rparr>"

definition encode0 :: "VideoStream \<Rightarrow> VideoStream" where
  "encode0 s = snd (encodeThreadMain init0 frame0 (Some (9, 7)) s)"

definition eye0_step :: "VideoStream \<Rightarrow> VideoStream" where
  "eye0_step s = snd (eye_step True True True s)"

definition started0 :: VideoStream where
  "started0 = snd (vs_start (\<lambda>_. None) params0 True open0 VideoStream_init)"

lemma started0_fields:
  "vs_running started0" "pipeline_running started0" "capturer started0" "encoder started0 = None" "converter started0 = None"
  "undistorter started0 = None" "vs_eye started0 = \<lparr>eye_publisher = False, publisher_ready = False, has_subscribers = False, eye_inflight = False,
              last_enqueue_us = 0, nv12_queue = []\<rparr>" "pending_frames started0 = []" "next_address started0 = 0"
  "encode_thread (vs_threads started0) = Some InitPostprocess" "eye_thread (vs_threads started0) = Some EyeInit"
  "yuyv_direct_enabled (vs_config started0)" "\<not> undistort_enabled (vs_config started0)"
  "cc_buffer_pool_size (converter_config (vs_config started0)) = 2" "eye_image_enabled (eye_config (vs_config started0))"
  "eye_image_min_interval_us (eye_config (vs_config started0)) = 0" "v4l2_warmup_drop_frames (vs_config started0) = 0"
  by (simp_all add: started0_def vs_start_def open0_def read_profile_def declareOrGet_def read_capture_config_def params0_def
      string_param_def int_param_def bool_param_def positive_or_def VideoStream_init_def StreamConfig_init_def start0_def
      startPipeline_def rec_initialize_def read_stream_config_def clear_nv12_queue_def Threads_none_def set_supervisor_pc_def
      read_converter_config_def conv_pool_size_def read_eye_config_def Let_def tolower_def CaptureConfig_default_def)

definition converter0 :: VideoConverter where
  "converter0 = \<lparr>cv_config = converter_config (vs_config started0),
     cv_pool = \<lparr>surfaces = [True, True], dmabuf_fds = [0, 1], free_indices = [0, 1], fd_to_index = [0 \<mapsto> 0, 1 \<mapsto> 1]\<rparr>,
     cuda_converter = True, cv_stats = ConverterStats_zero\<rparr>"

lemma converter0_initialized:
  "converter_initialize (ia_surface init0) (ia_prepare init0) (converter_config (vs_config started0))
     (VideoConverter_init (converter_config StreamConfig_init)) = (True, converter0)"
proof -
  have u: "[0..<2] = [0, 1::nat]" by (simp add: upt_rec)
  have r: "replicate 2 False = [False, False]" "replicate 2 (- 1 :: int) = [- 1, - 1]" by (simp_all add: numeral_2_eq_2)
  show ?thesis
    by (simp add: u r converter_initialize_def started0_fields init0_def VideoConverter_init_def OutputPool_empty_def converter0_def
        emplace_def Let_def fun_upd_twist)
qed

definition ready0 :: VideoStream where
  "ready0 = encode0 started0"

lemma ready0_eq: "ready0 = started0\<lparr>converter := Some converter0, undistorter := None,
    vs_threads := (vs_threads started0)\<lparr>encode_thread := Some InitEncoder\<rparr>\<rparr>"
  using converter0_initialized
  by (simp add: ready0_def encode0_def encodeThreadMain_def started0_fields initializePostprocess_def next_encode_pc_def
      set_encode_pc_def Let_def)

definition opened0 :: VideoEncoder where
  "opened0 = enc_setInputDoneCallback True (snd (snd (enc_initialize True (\<lambda>_. True) 2 2 (encoder_config (vs_config started0))
     (VideoEncoder_init EncoderConfig_default))))"

lemma opened0_fields:
  "enc_open opened0" "\<not> enc_shutting_down opened0" "free_output_indices opened0 = [0, 1]" "index_to_fd opened0 = []"
  "timestamp_queue opened0 = []" "input_done_callback opened0"
  using run_controls_ok
  by (simp_all add: opened0_def enc_initialize_def Let_def split_beta VideoEncoder_init_def enc_setInputDoneCallback_def upt_conv_Cons)

definition encoding0 :: VideoStream where
  "encoding0 = encode0 ready0"

lemma encoding0_eq: "\<exists>e. input_view e = input_view opened0 \<and> encoder encoding0 = Some e \<and> encoding0 = ready0\<lparr>encoder := Some e,
    vs_threads := (vs_threads ready0)\<lparr>encode_thread := Some InitDecoder\<rparr>\<rparr>"
  using run_controls_ok view_callback [of True opened0]
  by (auto simp: encoding0_def encode0_def encodeThreadMain_def ready0_eq initializeEncoder_def init0_def next_encode_pc_def
      set_encode_pc_def started0_fields Let_def opened0_def enc_initialize_def split_beta split: prod.splits)

definition looping0 :: VideoStream where
  "looping0 = eye0_step (encode0 (encode0 (encode0 encoding0)))"

lemma looping0_fields:
  "pipeline_running looping0" "converter looping0 = Some converter0" "undistorter looping0 = None" "decoder looping0 = decoder started0"
  "pending_frames looping0 = []" "next_address looping0 = 0" "enc_start_us_by_ts looping0 = enc_start_us_by_ts started0"
  "vs_eye looping0 = \<lparr>eye_publisher = True, publisher_ready = True, has_subscribers = True, eye_inflight = False,
              last_enqueue_us = 0, nv12_queue = []\<rparr>"
  "eye_thread (vs_threads looping0) = Some EyeHead" "vs_config looping0 = vs_config started0"
  "encode_thread (vs_threads looping0) = Some (DirectLoop \<lparr>warmup_dropped_frames = 0, warmup_done = True\<rparr>)"
  "\<exists>e. encoder looping0 = Some e \<and> input_view e = input_view opened0"
proof -
  obtain e where e: "input_view e = input_view opened0" "encoder encoding0 = Some e"
    "encoding0 = ready0\<lparr>encoder := Some e, vs_threads := (vs_threads ready0)\<lparr>encode_thread := Some InitDecoder\<rparr>\<rparr>"
    using encoding0_eq by blast
  define s4 where "s4 = set_encode_pc SpawnWorkers encoding0"
  have s4: "encode0 encoding0 = s4"
    by (simp add: encode0_def encodeThreadMain_def e(3) ready0_eq initializeDecoder_def started0_fields next_encode_pc_def s4_def)
  define s5 where "s5 = set_encode_pc DirectStart (spawn_workers s4)"
  have s5: "encode0 s4 = s5"
    by (simp add: encode0_def encodeThreadMain_def s4_def set_encode_pc_def e(3) ready0_eq started0_fields s5_def)
  define s6 where "s6 = set_encode_pc (DirectLoop \<lparr>warmup_dropped_frames = 0, warmup_done = True\<rparr>) s5"
  have s6: "encode0 s5 = s6"
    by (simp add: encode0_def encodeThreadMain_def s5_def s4_def set_encode_pc_def spawn_workers_def e(3) ready0_eq started0_fields init0_def
        warmup_start_def s6_def)
  have l: "looping0 = set_eye_pc EyeHead (updateEyeImageSubscriberState True
      (s6\<lparr>vs_eye := (vs_eye s6)\<lparr>eye_publisher := True, publisher_ready := True\<rparr>\<rparr>))"
    by (simp add: looping0_def s4 s5 s6 eye0_step_def eye_step_def)
      (simp add: s6_def s5_def s4_def set_encode_pc_def spawn_workers_def e(3) ready0_eq started0_fields)
  show "pipeline_running looping0" "converter looping0 = Some converter0" "undistorter looping0 = None" "decoder looping0 = decoder started0"
    "pending_frames looping0 = []" "next_address looping0 = 0" "enc_start_us_by_ts looping0 = enc_start_us_by_ts started0"
    "vs_eye looping0 = \<lparr>eye_publisher = True, publisher_ready = True, has_subscribers = True, eye_inflight = False,
              last_enqueue_us = 0, nv12_queue = []\<rparr>"
    "eye_thread (vs_threads looping0) = Some EyeHead" "vs_config looping0 = vs_config started0"
    "encode_thread (vs_threads looping0) = Some (DirectLoop \<lparr>warmup_dropped_frames = 0, warmup_done = True\<rparr>)"
    "\<exists>e. encoder looping0 = Some e \<and> input_view e = input_view opened0"
    by (simp_all add: l set_eye_pc_def updateEyeImageSubscriberState_def s6_def s5_def s4_def set_encode_pc_def spawn_workers_def e ready0_eq started0_fields)
qed

definition shared0 :: VideoStream where
  "shared0 = eye0_step (eye0_step (encode0 looping0))"

definition nv12_0 :: SharedNv12Frame where
  "nv12_0 = \<lparr>sf_address = 0, sf_fd = 0, sf_timestamp_us = 7, sf_owner = ByConverter\<rparr>"

lemma frame0_fields:
  "pipeline_running (encode0 looping0)" "undistorter (encode0 looping0) = None"
  "free_pool (encode0 looping0) = [1]" "at_encoder (encode0 looping0) = {#0#}" "nv12_queue (vs_eye (encode0 looping0)) = [nv12_0]"
  "eye_publisher (vs_eye (encode0 looping0))" "eye_thread (vs_threads (encode0 looping0)) = Some EyeHead"
proof -
  obtain e where e: "encoder looping0 = Some e" "input_view e = input_view opened0" using looping0_fields(12) by blast
  then have ef: "enc_open e" "\<not> enc_shutting_down e" "free_output_indices e = [0, 1]" "index_to_fd e = []" "input_done_callback e"
    using opened0_fields by (simp_all add: input_view_def)
  define s1 where "s1 = looping0\<lparr>encoder := Some e\<rparr>"
  have d: "drain_encoder [] looping0 = s1" using e(1) ef by (simp add: drain_encoder_def drainInputDone_def s1_def)
  obtain v where p: "transformSync (fa_convert frame0) 9 0 converter0 = (Some 0, v)" "cv_pool v = (cv_pool converter0)\<lparr>free_indices := [1]\<rparr>"
    by (simp add: transformSync_def frame0_def converter0_def Let_def)
  obtain forced e1 where sub: "enc_submit all_well 0 7 e = (True, forced, e1)" "index_to_fd e1 = [(0, 0)]"
    by (simp add: enc_submit_def ef all_well_def Let_def)
  show "pipeline_running (encode0 looping0)" "undistorter (encode0 looping0) = None"
    "free_pool (encode0 looping0) = [1]" "at_encoder (encode0 looping0) = {#0#}" "nv12_queue (vs_eye (encode0 looping0)) = [nv12_0]"
    "eye_publisher (vs_eye (encode0 looping0))" "eye_thread (vs_threads (encode0 looping0)) = Some EyeHead"
    using d p sub
    by (simp_all add: encode0_def encodeThreadMain_def looping0_fields encodeYuyvDirectLoop_def frame0_def s1_def postprocessYuv422Fd_def
        count_stats_def onConverterOutput_def makeSharedNv12Frame_def put_pending_def maybeEnqueueEyeImageFrame_def started0_fields
        clear_nv12_queue_def drop_ref_def references_def eye_references_def Let_def free_pool_def free_fds_def converter0_def at_encoder_def
        queued_fds_def nv12_0_def)
qed

lemma shared0_fields: "in_use shared0 = {0}" "at_encoder shared0 = {#0#}" "eye_frames shared0 = [nv12_0]" "free_pool shared0 = [1]"
  using frame0_fields
  by (simp_all add: shared0_def eye0_step_def eye_step_def set_eye_pc_def updateEyeImageSubscriberState_def eye_take_def eye_frames_def
      eye_references_def in_use_def at_encoder_def free_pool_def nv12_0_def)

lemma shared0_reachable: "vs_reachable shared0"
proof -
  have d: "descriptors_ok (\<lambda>i. Some (int i))" by (simp add: descriptors_ok_def)
  have enc: "vs_reachable (encode0 s)" if "vs_reachable s" for s
    unfolding encode0_def by (rule vr_encode [OF that _ _ _ prod.collapse [symmetric], of frame0 init0])
      (simp_all add: done_ok_def frame0_def init0_def und_answer0_def d split: option.split)
  have eye: "vs_reachable (eye0_step s)" if "vs_reachable s" for s
    unfolding eye0_step_def by (rule vr_eye [OF that prod.collapse [symmetric]])
  have "vs_reachable started0" unfolding started0_def by (rule vr_start [OF vr_init prod.collapse [symmetric]])
  then show ?thesis unfolding shared0_def looping0_def encoding0_def ready0_def by (intro enc eye)
qed

text \<open>One of the two surfaces is at the encoder and held for the eye images; the other is free.\<close>

theorem surfaces_never_shared_witness:
  "distinct (pool_fds shared0) \<and> mset (free_pool shared0) + mset_set (in_use shared0) = mset (pool_fds shared0)
   \<and> in_use shared0 = {0} \<and> at_encoder shared0 = {#0#} \<and> eye_frames shared0 = [nv12_0] \<and> free_pool shared0 = [1]"
  using surfaces_never_shared [OF shared0_reachable] shared0_fields by blast

text \<open>A stream whose eye images still wait for a frame, stopped.\<close>

theorem stopped_stream_is_torn_down_witness:
  "eye_frames shared0 = [nv12_0] \<and> torn_down (vs_stop True shared0) \<and> \<not> capturer (vs_stop True shared0)
    \<and> eye_frames (vs_stop True shared0) = []"
proof -
  note t = stopped_stream_is_torn_down [OF shared0_reachable, of True]
  have empty: "eye_frames s = []" if "torn_down s" for s
    using that by (simp add: torn_down_def references_def eye_frames_def)
  have "vs_running shared0" using t empty [of shared0] shared0_fields(3) by auto
  with t have "torn_down (vs_stop True shared0)" "\<not> capturer (vs_stop True shared0)" by blast+
  then show ?thesis using empty shared0_fields(3) by simp
qed

theorem target_bitrate_never_set_witness: "setTargetBitrate 1000000000 True 8000000 shared0 = shared0"
  by (rule target_bitrate_never_set [OF shared0_reachable]) simp

end
