(* ===== verification/StreamFaults.thy ===== *)
theory StreamFaults
  imports StreamInvariant
begin

text \<open>
  How the video pipeline answers faults: bad frames, a camera that does not start, restarts, and the end of the warm-up.
\<close>

section \<open>Faults and restarts\<close>

text \<open>What the operations on frames do not touch.\<close>

definition fault_view where
  "fault_view s = (decoder s, restart_requested s, bad_decode_frames s, pipeline_running s, encode_thread (vs_threads s),
     capture_thread (vs_threads s), supervisor_thread (vs_threads s), vs_running s, vs_config s)"

lemma fault_view_frames [simp]:
  "fault_view (release_frame f s) = fault_view s" "fault_view (drop_ref locals f s) = fault_view s"
  "fault_view (count_stats g s) = fault_view s" "fault_view (s\<lparr>vs_eye := x1\<rparr>) = fault_view s"
  "fault_view (s\<lparr>pending_frames := x2\<rparr>) = fault_view s" "fault_view (s\<lparr>encoder := x3\<rparr>) = fault_view s"
  "fault_view (set_eye_pc pc s) = fault_view s" "fault_view (s\<lparr>undistorter := x4\<rparr>) = fault_view s"
  "fault_view (s\<lparr>converter := x5\<rparr>) = fault_view s" "fault_view (s\<lparr>recorder := x6\<rparr>) = fault_view s"
  "fault_view (s\<lparr>enc_start_us_by_ts := x7\<rparr>) = fault_view s" "fault_view (s\<lparr>warmup_active := x8\<rparr>) = fault_view s"
  "fault_view (consume_component_stats s) = fault_view s"
  by (simp_all add: fault_view_def release_frame_def drop_ref_def count_stats_def set_eye_pc_def consume_component_stats_def
      split: FrameOwner.split)

lemma fault_view_queue [simp]: "fault_view (drop_queue locals fs s) = fault_view s" "fault_view (skip_to_latest fs s) = fault_view s"
proof -
  show "fault_view (drop_queue locals fs s) = fault_view s" by (induction locals fs s rule: drop_queue.induct) simp_all
  show "fault_view (skip_to_latest fs s) = fault_view s" by (induction fs s rule: skip_to_latest.induct) simp_all
qed

lemma fault_view_pending [simp]: "fault_view (drop_pending ps s) = fault_view s"
  by (induction ps s rule: drop_pending.induct) simp_all

lemma fault_view_clear [simp]: "fault_view (clear_nv12_queue locals s) = fault_view s"
  by (simp add: clear_nv12_queue_def)

lemma fault_view_drain [simp]: "fault_view (drain_encoder is s) = fault_view s"
proof -
  have one: "fault_view (onEncoderInputDone fd s) = fault_view s" for fd s
    by (simp add: onEncoderInputDone_def split: option.split)
  have "fault_view (fold onEncoderInputDone fds s) = fault_view s" for fds s by (induction fds arbitrary: s) (simp_all add: one)
  then show ?thesis by (simp add: drain_encoder_def split: option.split prod.split)
qed

lemma fault_view_eye: "fault_view (snd (eye_step init_ok subscribed surface s)) = fault_view s"
proof -
  have take: "fault_view (eye_take s) = fault_view s" for s by (simp add: eye_take_def Let_def split: list.split)
  show ?thesis
    by (simp add: eye_step_def eye_process_def leave_eye_thread_def updateEyeImageSubscriberState_def take Let_def
        split: option.split eye_pc.split)
qed

lemma fault_view_packet: "fault_view (snd (onEncoderPacket now d ts k s)) = fault_view s"
  by (simp add: onEncoderPacket_def end_warmup_def Let_def split: option.split)

lemma fault_view_dq: "fault_view (snd (encoderDqThreadMain a now s)) = fault_view s"
proof (cases "encoder s")
  case (Some e)
  obtain pkt sets e1 where d: "dequeueOne a e = (pkt, sets, e1)" by (metis prod_cases3)
  show ?thesis
  proof (cases pkt)
    case None
    then show ?thesis using Some d by (simp add: encoderDqThreadMain_def Let_def)
  next
    case (Some p)
    then show ?thesis using \<open>encoder s = Some e\<close> d fault_view_packet [of now "ep_data p" "ep_timestamp_us p" "ep_keyframe p" "s\<lparr>encoder := Some e1\<rparr>"]
      by (simp add: encoderDqThreadMain_def Let_def split_beta)
  qed
qed (simp add: encoderDqThreadMain_def)

text \<open>The stream decodes the camera's frames, the capture thread has ended, and nobody asks for a restart.\<close>

definition starved :: "VideoStream \<Rightarrow> bool" where
  "starved s \<longleftrightarrow> pipeline_running s \<and> encode_thread (vs_threads s) = Some DecodedLoop \<and> capture_thread (vs_threads s) = Some CaptureDone
     \<and> (\<exists>d. decoder s = Some d \<and> decoded_queue d = []) \<and> supervisor_thread (vs_threads s) = Some SupervisorWait
     \<and> \<not> restart_requested s \<and> vs_running s"

text \<open>Steps of the threads alone.\<close>

inductive vs_threads_run :: "VideoStream \<Rightarrow> VideoStream \<Rightarrow> bool" for s where
  vt_refl: "vs_threads_run s s"
| vt_encode: "vs_threads_run s s1 \<Longrightarrow> encodeThreadMain ia a camera s1 = (out, s2) \<Longrightarrow> vs_threads_run s s2"
| vt_capture: "vs_threads_run s s1 \<Longrightarrow> captureThreadMain start_ok d camera_frame s1 = (out, s2) \<Longrightarrow> vs_threads_run s s2"
| vt_dq: "vs_threads_run s s1 \<Longrightarrow> encoderDqThreadMain c now_us s1 = (out, s2) \<Longrightarrow> vs_threads_run s s2"
| vt_eye: "vs_threads_run s s1 \<Longrightarrow> eye_step init_ok subscribed surface s1 = (out, s2) \<Longrightarrow> vs_threads_run s s2"
| vt_supervisor: "vs_threads_run s s1 \<Longrightarrow> restartSupervisorThreadMain ros_ok st s1 = s2 \<Longrightarrow> vs_threads_run s s2"

lemma starved_view: "fault_view s' = fault_view s \<Longrightarrow> starved s' = starved s"
  by (simp add: fault_view_def starved_def)

lemma starved_encode: "starved s \<Longrightarrow> encodeThreadMain ia a camera s = (out, s') \<Longrightarrow> starved s'"
proof -
  assume s: "starved s" and e: "encodeThreadMain ia a camera s = (out, s')"
  define s1 where "s1 = drain_encoder (fa_done a) s"
  have v: "fault_view s1 = fault_view s" by (simp add: s1_def)
  then obtain d where d: "decoder s1 = Some d" "decoded_queue d = []" using s by (auto simp: starved_def fault_view_def)
  have "encodeDecodedLoop a s = ([], s1)" using d by (simp add: encodeDecodedLoop_def s1_def [symmetric] dequeueSync_def Let_def)
  then have "s' = s1" using s e by (simp add: encodeThreadMain_def starved_def)
  then show ?thesis using s v starved_view by blast
qed

lemma starved_run: "vs_threads_run s s' \<Longrightarrow> starved s \<Longrightarrow> starved s'"
proof (induction rule: vs_threads_run.induct)
  case (vt_encode s1 ia a camera out s2)
  then show ?case using starved_encode by blast
next
  case (vt_capture s1 start_ok d camera_frame out s2)
  then have "s2 = s1" by (auto simp: captureThreadMain_def starved_def)
  then show ?case using vt_capture by simp
next
  case (vt_dq s1 c now_us out s2)
  then show ?case using starved_view [of s2 s1] fault_view_dq [of c now_us s1] by simp
next
  case (vt_eye s1 init_ok subscribed surface out s2)
  then show ?case using starved_view [of s2 s1] fault_view_eye [of init_ok subscribed surface s1] by simp
next
  case (vt_supervisor s1 ros_ok st s2)
  then have "s2 = s1" by (auto simp: restartSupervisorThreadMain_def starved_def)
  then show ?case using vt_supervisor by simp
qed

lemma direct_camera_start_failure_restarts:
  assumes "pipeline_running s" "vs_running s" "encode_thread (vs_threads s) = Some DirectStart" "\<not> ia_capture_start ia"
  shows "restart_requested (snd (encodeThreadMain ia a camera s))"
  using assms by (simp add: encodeThreadMain_def requestPipelineRestart_def set_encode_pc_def)

text \<open>C31: When the camera of a decoded stream does not start, the capture thread ends without asking for a restart, and
  whatever the threads do from then on, the pipeline is never restarted and stays without a camera. The thread that
  takes frames from the camera directly asks for a restart in that case (\<open>direct_camera_start_failure_restarts\<close>).\<close>

theorem failed_camera_start_is_final:
  assumes "pipeline_running s" "encode_thread (vs_threads s) = Some DecodedLoop" "capture_thread (vs_threads s) = Some CaptureStart"
    and "decoder s = Some d" "decoded_queue d = []" "supervisor_thread (vs_threads s) = Some SupervisorWait"
    and "\<not> restart_requested s" "vs_running s"
    and "captureThreadMain False da c s = (out, s1)" "vs_threads_run s1 s'"
  shows "capture_thread (vs_threads s') = Some CaptureDone \<and> \<not> restart_requested s' \<and> supervisor_thread (vs_threads s') = Some SupervisorWait
     \<and> stats_capture_frames (vs_stats s1) = stats_capture_frames (vs_stats s)"
proof -
  have s1: "s1 = set_capture_pc CaptureDone s" using assms by (simp add: captureThreadMain_def)
  have "starved s1" using assms(1-8) by (simp add: s1 set_capture_pc_def starved_def)
  then have "starved s'" by (rule starved_run [OF assms(10)])
  then show ?thesis by (simp add: starved_def s1 set_capture_pc_def)
qed

section \<open>Bad frames\<close>

text \<open>\<open>n\<close> frames in a row that the decoder could not decode.\<close>

inductive bad_frames :: "VideoStream \<Rightarrow> nat \<Rightarrow> VideoStream \<Rightarrow> bool" for s where
  bf_none: "bad_frames s 0 s"
| bf_next: "bad_frames s n s1 \<Longrightarrow> capture_thread (vs_threads s1) = Some (CaptureLoop w) \<Longrightarrow> warmup_done w
    \<Longrightarrow> decoder s1 = Some dec \<Longrightarrow> d \<noteq> []
    \<Longrightarrow> submitDetailed a (Some d) (encode_frame_in_count (vs_stats s1) + 1) now now dec = (res, destroyed, d1) \<Longrightarrow> isBadDecodeStatus res
    \<Longrightarrow> captureThreadMain start_ok a (Some (Some d, now)) s1 = (out, s2) \<Longrightarrow> bad_frames s (Suc n) s2"

definition bad_state :: "nat \<Rightarrow> VideoStream \<Rightarrow> VideoStream \<Rightarrow> bool" where
  "bad_state n s s' \<longleftrightarrow> vs_running s' \<and> pipeline_running s' \<and> vs_config s' = vs_config s \<and> bad_decode_frames s' = int n
     \<and> int n \<le> consecutive_bad_frame_threshold (vs_config s)
     \<and> (if int n = consecutive_bad_frame_threshold (vs_config s) then restart_requested s' \<and> capture_thread (vs_threads s') = Some CaptureDone
        else \<not> restart_requested s' \<and> (\<exists>w. capture_thread (vs_threads s') = Some (CaptureLoop w)))"

lemma bad_frame_step:
  assumes "bad_state n s s1" "restart_on_bad_frames (vs_config s)" "capture_thread (vs_threads s1) = Some (CaptureLoop w)" "warmup_done w"
    "decoder s1 = Some dec" "d \<noteq> []"
    "submitDetailed a (Some d) (encode_frame_in_count (vs_stats s1) + 1) now now dec = (res, destroyed, d1)" "isBadDecodeStatus res"
    "captureThreadMain start_ok a (Some (Some d, now)) s1 = (out, s2)"
  shows "bad_state (Suc n) s s2"
proof -
  let ?T = "consecutive_bad_frame_threshold (vs_config s)"
  have b: "vs_running s1" "pipeline_running s1" "vs_config s1 = vs_config s" "bad_decode_frames s1 = int n" "int n < ?T" "\<not> restart_requested s1"
    using assms(1,3) by (auto simp: bad_state_def split: if_splits)
  define f where "f = (\<lambda>st :: StreamCounters. st\<lparr>stats_capture_frames := stats_capture_frames st + 1,
                                    encode_frame_in_count := encode_frame_in_count st + 1\<rparr>)"
  define g where "g = (\<lambda>st :: StreamCounters. st\<lparr>stats_decoder_drops := stats_decoder_drops st + 1\<rparr>)"
  define s4 where "s4 = (count_stats g ((count_stats f s1)\<lparr>decoder := Some d1\<rparr>))\<lparr>bad_decode_frames := int n + 1\<rparr>"
  have k: "res \<noteq> kQueued" using assms(8) by (auto simp: isBadDecodeStatus_def)
  have s2: "s2 = (if ?T \<le> int n + 1 then set_capture_pc CaptureDone (requestPipelineRestart
                   (''consecutive_bad_mjpeg_frames status='' @ submitStatusToString res @ '' streak='' @ nat_digits (nat (int n + 1))) s4) else s4)"
  proof -
    have n: "encode_frame_in_count (vs_stats (count_stats f s1)) = encode_frame_in_count (vs_stats s1) + 1"
      by (simp add: f_def count_stats_def)
    have "snd (capture_frame a (Some d) now s1) = s2" using assms(3,4,9) b(2) by (simp add: captureThreadMain_def)
    then show ?thesis unfolding capture_frame_def Let_def f_def [symmetric] g_def [symmetric] n
      using assms(2,5-8) b k by (cases "?T \<le> int n + 1") (simp_all add: s4_def)
  qed
  have v: "vs_running s4" "pipeline_running s4" "vs_config s4 = vs_config s" "bad_decode_frames s4 = int n + 1" "\<not> restart_requested s4"
    "capture_thread (vs_threads s4) = Some (CaptureLoop w)"
    using b assms(3) by (simp_all add: s4_def)
  show ?thesis
  proof (cases "?T \<le> int n + 1")
    case True
    then show ?thesis using v b(5) by (simp add: s2 bad_state_def set_capture_pc_def requestPipelineRestart_def)
  next
    case False
    then show ?thesis using v b(5) by (simp add: s2 bad_state_def)
  qed
qed

text \<open>C32: A run of frames that cannot be decoded ends the capture thread and asks for a restart exactly when the configured number
  of bad frames in a row is reached, and no frame later.\<close>

theorem bad_frames_restart:
  assumes "bad_frames s n s'" "vs_running s" "pipeline_running s" "\<not> restart_requested s" "bad_decode_frames s = 0"
    and "capture_thread (vs_threads s) = Some (CaptureLoop w)" "restart_on_bad_frames (vs_config s)"
    and "0 < consecutive_bad_frame_threshold (vs_config s)"
  shows "int n \<le> consecutive_bad_frame_threshold (vs_config s)
    \<and> (restart_requested s' \<longleftrightarrow> int n = consecutive_bad_frame_threshold (vs_config s))
    \<and> (capture_thread (vs_threads s') = Some CaptureDone \<longleftrightarrow> int n = consecutive_bad_frame_threshold (vs_config s))"
proof -
  have "bad_state n s s'" using assms(1)
  proof (induction rule: bad_frames.induct)
    case bf_none
    then show ?case using assms by (simp add: bad_state_def)
  next
    case (bf_next n s1 w dec d a now res destroyed d1 start_ok out s2)
    then show ?case using bad_frame_step [OF bf_next.IH assms(7)] by blast
  qed
  then show ?thesis by (auto simp: bad_state_def split: if_splits)
qed

section \<open>Restarts\<close>

lemma fault_view_process: "fault_view (snd (eye_process b c f s)) = fault_view s"
  by (simp add: eye_process_def)

lemma stopPipeline_requests [simp]:
  "restart_requested (stopPipeline ros_ok s) = restart_requested s"
proof -
  define s1 where "s1 = join_eye_thread (s\<lparr>pipeline_running := False\<rparr>)"
  have "restart_requested (snd (eye_process b c f s2)) = restart_requested s2" for b c f s2
    using fault_view_process [of b c f s2] by (simp add: fault_view_def)
  then have "restart_requested s1 = restart_requested s"
    by (simp add: s1_def join_eye_thread_def Let_def split: option.split eye_pc.split)
  moreover have "restart_requested (clear_nv12_queue l s2) = restart_requested s2"
    "restart_requested (drop_pending ps s2) = restart_requested s2" for l ps s2
    using fault_view_clear [of l s2] fault_view_pending [of ps s2] by (simp_all only: fault_view_def prod.inject)
  ultimately show ?thesis by (simp add: stopPipeline_def Let_def s1_def [symmetric])
qed

text \<open>The supervisor pauses, with everything torn down.\<close>

definition pausing :: "VideoStream \<Rightarrow> bool" where
  "pausing s \<longleftrightarrow> vs_running s \<and> supervisor_thread (vs_threads s) = Some SupervisorBackoff \<and> torn_down s \<and> \<not> capturer s
     \<and> \<not> restart_requested s"

lemma retry_pauses:
  assumes "pausing s" "\<not> st_capturer a"
  shows "pausing (restartSupervisorThreadMain ros_ok a s)"
proof -
  have "startPipeline a s = (False, s)" using assms by (simp add: startPipeline_def pausing_def torn_down_def)
  then have "restartSupervisorThreadMain ros_ok a s = stopPipeline ros_ok s"
    using assms(1) by (simp add: restartSupervisorThreadMain_def pausing_def)
  then show ?thesis using assms(1) stopPipeline_torn_down [of ros_ok s] by (simp add: pausing_def)
qed

lemma retry_fold: "pausing s \<Longrightarrow> \<forall>a\<in>set as. \<not> st_capturer a \<Longrightarrow> pausing (fold (restartSupervisorThreadMain ros_ok) as s)"
  by (induction "as" arbitrary: s) (simp_all add: retry_pauses)

lemma startPipeline_starts:
  assumes "vs_running s" "\<not> pipeline_running s" "st_capturer a" "nv12_queue (vs_eye s) = []" "startPipeline a s = (ok, s')"
  shows "ok \<and> pipeline_running s' \<and> encode_thread (vs_threads s') = Some InitPostprocess \<and> bad_decode_frames s' = 0
    \<and> restart_requested s' = restart_requested s"
proof -
  obtain rec_ok r where r: "rec_initialize (st_dir a) (st_file a) (recorder_config (vs_config s)) (VideoRecorder_init (recording s)) = (rec_ok, r)"
    by fastforce
  have n: "\<not> \<not> vs_running s" "\<not> (\<not> capturer s \<and> \<not> st_capturer a)" using assms(1,3) by simp_all
  show ?thesis
    using assms(5) unfolding startPipeline_def if_not_P [OF n(1)] if_not_P [OF assms(2)] if_not_P [OF n(2)] Let_def r prod.case prod.inject
    by (elim conjE, hypsubst) (simp add: clear_nv12_queue_def assms(4))
qed

text \<open>C12: A requested restart succeeds as soon as the camera can be opened again, however often that fails before: the old
  pipeline is torn down, and a fresh one is initialised, with the count of bad frames and the request cleared and the
  supervisor ready for the next one.\<close>

theorem restart_recovers:
  assumes "vs_running s" "restart_requested s" "supervisor_thread (vs_threads s) = Some SupervisorWait"
    and "\<forall>b\<in>set as. \<not> st_capturer b" "st_capturer a" "s' = fold (restartSupervisorThreadMain ros_ok) (a0 # as @ [a]) s"
  shows "pipeline_running s' \<and> encode_thread (vs_threads s') = Some InitPostprocess \<and> references s' = [] \<and> encoder s' = None
    \<and> bad_decode_frames s' = 0 \<and> \<not> restart_requested s' \<and> supervisor_thread (vs_threads s') = Some SupervisorWait"
proof -
  define s1 where "s1 = restartSupervisorThreadMain ros_ok a0 s"
  have "s1 = set_supervisor_pc SupervisorBackoff (stopPipeline ros_ok (s\<lparr>restart_requested := False, restart_reason := []\<rparr>))"
    using assms(1-3) by (simp add: s1_def restartSupervisorThreadMain_def)
  then have "pausing s1" using stopPipeline_torn_down [of ros_ok "s\<lparr>restart_requested := False, restart_reason := []\<rparr>"] assms(1)
    by (simp add: pausing_def) (simp add: set_supervisor_pc_def)
  define s2 where "s2 = fold (restartSupervisorThreadMain ros_ok) as s1"
  have p: "pausing s2" unfolding s2_def by (rule retry_fold [OF \<open>pausing s1\<close> assms(4)])
  obtain ok s3 where st: "startPipeline a s2 = (ok, s3)" by fastforce
  have q: "references s2 = []" "\<not> pipeline_running s2" "vs_running s2" "torn_down s2" "\<not> restart_requested s2"
    "supervisor_thread (vs_threads s2) = Some SupervisorBackoff"
    using p by (simp_all add: pausing_def torn_down_def)
  have "nv12_queue (vs_eye s2) = []" using q(1) by (simp add: references_def)
  note ok = startPipeline_starts [OF q(3,2) assms(5) this st]
  have step: "restartSupervisorThreadMain ros_ok a s2 = set_supervisor_pc SupervisorWait s3"
    using st ok q(3,6) by (simp add: restartSupervisorThreadMain_def)
  have "s' = restartSupervisorThreadMain ros_ok a s2" unfolding assms(6) s2_def s1_def by simp
  then have s': "s' = set_supervisor_pc SupervisorWait s3" using step by (rule trans)
  have th: "encode_thread (vs_threads s') = encode_thread (vs_threads s3)" "pipeline_running s' = pipeline_running s3"
    "bad_decode_frames s' = bad_decode_frames s3" "restart_requested s' = restart_requested s3"
    unfolding s' by (simp_all add: set_supervisor_pc_def)
  note f = startPipeline_fresh [OF q(4) st]
  have "references s' = references s3" "encoder s' = encoder s3" "supervisor_thread (vs_threads s') = Some SupervisorWait"
    unfolding s' by simp_all
  then show ?thesis using ok f q(5) unfolding th by simp
qed

section \<open>The end of the warm-up\<close>

lemma count_stats_warmup [simp]:
  "warmup_active (count_stats f s) = warmup_active s" "warmup_deadline_us (count_stats f s) = warmup_deadline_us s"
  "enc_start_us_by_ts (count_stats f s) = enc_start_us_by_ts s"
  by (simp_all add: count_stats_def)

lemma packet_output:
  "fst (onEncoderPacket now d ts k s) =
    (if warmup_active s \<and> (now < warmup_deadline_us s
          \<or> (case map_of (enc_start_us_by_ts s) ts of None \<Rightarrow> False | Some t \<Rightarrow> 0 \<le> t \<and> t < warmup_deadline_us s)) then []
     else if encoded_frame_callback s then [Delivered d ts k] else [])"
proof -
  have e: "encoded_frame_callback (end_warmup x) = encoded_frame_callback x" for x
    by (simp add: end_warmup_def consume_component_stats_def)
  show ?thesis by (simp add: onEncoderPacket_def Let_def e split: option.split)
qed

text \<open>A frame that was submitted during the warm-up is torn when the encoder delivers it in several units: the first unit is
  dropped and forgets when the frame was submitted, so that a later unit of the same frame is delivered once the
  deadline has passed.\<close>

theorem warmup_tears_frames:
  assumes "warmup_active s" "encoded_frame_callback s" "map_of (enc_start_us_by_ts s) ts = Some t" "0 \<le> t" "t < warmup_deadline_us s"
    and "warmup_deadline_us s \<le> now2"
    and "onEncoderPacket now1 d1 ts k1 s = (out1, s1)" "onEncoderPacket now2 d2 ts k2 s1 = (out2, s2)"
  shows "out1 = [] \<and> out2 = [Delivered d2 ts k2]"
proof -
  have 1: "out1 = []" "warmup_active s1" "encoded_frame_callback s1" "warmup_deadline_us s1 = warmup_deadline_us s"
    "enc_start_us_by_ts s1 = AList.delete ts (enc_start_us_by_ts s)"
    using assms(1-5,7) by (auto simp: onEncoderPacket_def Let_def)
  have "map_of (enc_start_us_by_ts s1) ts = None" by (simp add: 1(5) delete_conv')
  then have "out2 = [Delivered d2 ts k2]" using packet_output [of now2 d2 ts k2 s1] assms(2,6,8) 1(2-4) by simp
  then show ?thesis using 1(1) by blast
qed

section \<open>Examples\<close>

definition dec_threads0 :: "capture_pc \<Rightarrow> Threads" where
  "dec_threads0 pc = \<lparr>encode_thread = Some DecodedLoop, capture_thread = Some pc, encoder_dq_thread = True, eye_thread = None,
     supervisor_thread = Some SupervisorWait\<rparr>"

text \<open>A decoder with one surface, and a stream that decodes; one bad frame is enough for a restart.\<close>

definition decoder0 :: VideoDecoder where
  "decoder0 = \<lparr>dec_config = decoder_config StreamConfig_init, jpeg_decoder = True,
     dec_pool = \<lparr>surfaces = [True], dmabuf_fds = [5], free_indices = [0], fd_to_index = [5 \<mapsto> 0]\<rparr>, decoded_queue = [],
     dec_stop = False, dec_shutting_down = False\<rparr>"

definition decoding0 :: "capture_pc \<Rightarrow> VideoStream" where
  "decoding0 pc = VideoStream_init\<lparr>vs_config := StreamConfig_init\<lparr>consecutive_bad_frame_threshold := 1\<rparr>, vs_threads := dec_threads0 pc,
     capturer := True, decoder := Some decoder0, vs_running := True, pipeline_running := True\<rparr>"

lemma decoding0_fields:
  "pipeline_running (decoding0 pc)" "vs_running (decoding0 pc)" "encode_thread (vs_threads (decoding0 pc)) = Some DecodedLoop"
  "capture_thread (vs_threads (decoding0 pc)) = Some pc" "decoder (decoding0 pc) = Some decoder0" "decoded_queue decoder0 = []"
  "supervisor_thread (vs_threads (decoding0 pc)) = Some SupervisorWait" "\<not> restart_requested (decoding0 pc)"
  "bad_decode_frames (decoding0 pc) = 0" "restart_on_bad_frames (vs_config (decoding0 pc))"
  "consecutive_bad_frame_threshold (vs_config (decoding0 pc)) = 1"
  by (simp_all add: decoding0_def dec_threads0_def VideoStream_init_def decoder0_def StreamConfig_init_def)

definition failing0 :: decode_answer where
  "failing0 = \<lparr>da_decoded = (\<lambda>_ _. None), da_decode_us = 0, da_shutdown = False\<rparr>"

text \<open>The camera does not start, and the threads take one step each.\<close>

theorem failed_camera_start_is_final_witness:
  "\<exists>s1 s'. captureThreadMain False failing0 None (decoding0 CaptureStart) = ([], s1) \<and> vs_threads_run s1 s'
    \<and> capture_thread (vs_threads s') = Some CaptureDone \<and> \<not> restart_requested s'"
proof -
  define s1 where "s1 = set_capture_pc CaptureDone (decoding0 CaptureStart)"
  have c: "captureThreadMain False failing0 None (decoding0 CaptureStart) = ([], s1)"
    by (simp add: captureThreadMain_def decoding0_fields s1_def)
  have r: "vs_threads_run s1 (restartSupervisorThreadMain True a (snd (eye_step True True True s1)))" for a
    by (rule vt_supervisor [OF vt_eye [OF vt_refl prod.collapse [symmetric]] refl])
  show ?thesis using c r
      failed_camera_start_is_final [OF decoding0_fields(1,3,4,5,6,7,8,2) c r] by blast
qed

theorem bad_frames_restart_witness:
  "\<exists>s'. bad_frames (decoding0 (CaptureLoop \<lparr>warmup_dropped_frames = 0, warmup_done = True\<rparr>)) 1 s' \<and> restart_requested s'
     \<and> capture_thread (vs_threads s') = Some CaptureDone"
proof -
  define w where "w = \<lparr>warmup_dropped_frames = 0, warmup_done = True\<rparr>"
  let ?s = "decoding0 (CaptureLoop w)"
  obtain destroyed d1 where sub:
    "submitDetailed failing0 (Some [1]) (encode_frame_in_count (vs_stats ?s) + 1) 0 0 decoder0 = (kDecodeFailed, destroyed, d1)"
    by (simp add: submitDetailed_def decoder0_def failing0_def acquireDecodeBuffer_def pool_size_def StreamConfig_init_def Let_def)
  obtain out s' where c: "captureThreadMain True failing0 (Some (Some [1], 0)) ?s = (out, s')" by fastforce
  have "bad_frames ?s (Suc 0) s'"
    by (rule bf_next [OF bf_none decoding0_fields(4) _ decoding0_fields(5) _ sub _ c]) (simp_all add: w_def isBadDecodeStatus_def)
  then have b: "bad_frames ?s 1 s'" by simp
  from bad_frames_restart [OF this decoding0_fields(2,1,8,9,4,10)] have "restart_requested s' \<and> capture_thread (vs_threads s') = Some CaptureDone"
    by (simp add: decoding0_fields)
  then show ?thesis using b by (auto simp: w_def)
qed

text \<open>The camera can be opened again at the second attempt.\<close>

definition attempt0 :: "bool \<Rightarrow> start_answer" where
  "attempt0 b = \<lparr>st_capturer = b, st_now_us = 0, st_dir = True, st_file = True\<rparr>"

theorem restart_recovers_witness:
  "pipeline_running (fold (restartSupervisorThreadMain True) [attempt0 False, attempt0 False, attempt0 True]
     (decoding0 CaptureDone\<lparr>restart_requested := True\<rparr>))"
  using restart_recovers [of "decoding0 CaptureDone\<lparr>restart_requested := True\<rparr>" "[attempt0 False]" "attempt0 True" _ True "attempt0 False"]
  by (simp add: decoding0_fields attempt0_def)

theorem warmup_tears_frames_witness:
  "\<exists>s1 s2. onEncoderPacket 50 [1] 7 True (decoding0 CaptureDone\<lparr>warmup_active := True, warmup_deadline_us := 100,
       encoded_frame_callback := True, enc_start_us_by_ts := [(7, 40)]\<rparr>) = ([], s1)
     \<and> onEncoderPacket 120 [2] 7 True s1 = ([Delivered [2] 7 True], s2)"
proof -
  let ?s = "decoding0 CaptureDone\<lparr>warmup_active := True, warmup_deadline_us := 100, encoded_frame_callback := True,
    enc_start_us_by_ts := [(7, 40)]\<rparr>"
  obtain out1 s1 where 1: "onEncoderPacket 50 [1] 7 True ?s = (out1, s1)" by fastforce
  obtain out2 s2 where 2: "onEncoderPacket 120 [2] 7 True s1 = (out2, s2)" by fastforce
  have "out1 = [] \<and> out2 = [Delivered [2] 7 True]" by (rule warmup_tears_frames [OF _ _ _ _ _ _ 1 2, where t = 40]) simp_all
  then show ?thesis using 1 2 by blast
qed

end
