(* ===== verification/Ledgers.thy ===== *)
theory Ledgers
  imports Prelude "HOL-Library.Multiset"
begin

text \<open>
  What an object takes from the system it has to give back. The calls an object makes are a list; \<open>acquired\<close> and
  \<open>released\<close> say which resources a call takes and gives back, and \<open>held\<close> which ones the members of the object name.
  The locale \<open>ledger\<close> states the contract: no operation loses track of a resource, as long as the invariant holds. The camera, the socket and the CUDA
  sessions interpret it.
\<close>

definition total :: "('c \<Rightarrow> 'r multiset) \<Rightarrow> 'c list \<Rightarrow> 'r multiset" where
  "total f calls = sum_list (map f calls)"

lemma total_simps [simp]:
  "total f [] = {#}" "total f (x # xs) = f x + total f xs" "total f (xs @ ys) = total f xs + total f ys"
  by (simp_all add: total_def)

text \<open>What the calls of an operation acquire and release is what the object holds more or less after it.\<close>

definition balanced ::
  "('c \<Rightarrow> 'r multiset) \<Rightarrow> ('c \<Rightarrow> 'r multiset) \<Rightarrow> ('s \<Rightarrow> 'r multiset) \<Rightarrow> 's \<Rightarrow> 'c list \<Rightarrow> 's \<Rightarrow> bool" where
  "balanced acquired released held s calls s' \<longleftrightarrow> held s + total acquired calls = held s' + total released calls"

lemma balanced_refl [simp]: "balanced acquired released held s [] s"
  by (simp add: balanced_def)

lemma balanced_trans:
  assumes "balanced acquired released held s t1 s1" "balanced acquired released held s1 t2 s2"
  shows "balanced acquired released held s (t1 @ t2) s2"
proof -
  have "held s + total acquired (t1 @ t2) = (held s + total acquired t1) + total acquired t2" by (simp add: ac_simps)
  also have "\<dots> = (held s1 + total acquired t2) + total released t1" using assms(1) by (simp add: balanced_def ac_simps)
  also have "\<dots> = held s2 + total released (t1 @ t2)" using assms(2) by (simp add: balanced_def ac_simps)
  finally show ?thesis by (simp add: balanced_def)
qed

lemma balanced_neutral:
  "held s' = held s \<Longrightarrow> total acquired calls = {#} \<Longrightarrow> total released calls = {#} \<Longrightarrow> balanced acquired released held s calls s'"
  by (simp add: balanced_def)

lemma balanced_cong: "held s' = held s'' \<Longrightarrow> balanced acquired released held s calls s' \<Longrightarrow> balanced acquired released held s calls s''"
  by (simp add: balanced_def)

lemma balanced_start: "held s = held s0 \<Longrightarrow> balanced acquired released held s0 calls s' \<Longrightarrow> balanced acquired released held s calls s'"
  by (simp add: balanced_def)

text \<open>Operations one after the other, and all calls so far.\<close>

inductive run_of :: "('s \<Rightarrow> 'c list \<Rightarrow> 's \<Rightarrow> bool) \<Rightarrow> 's \<Rightarrow> 's \<Rightarrow> 'c list \<Rightarrow> bool" for step init where
  run_init: "run_of step init init []"
| run_step: "run_of step init s t \<Longrightarrow> step s calls s' \<Longrightarrow> run_of step init s' (t @ calls)"

locale ledger =
  fixes acquired released :: "'c \<Rightarrow> 'r multiset" and held :: "'s \<Rightarrow> 'r multiset" and inv :: "'s \<Rightarrow> bool"
    and step :: "'s \<Rightarrow> 'c list \<Rightarrow> 's \<Rightarrow> bool" and init :: 's
  assumes nothing_held: "inv init \<and> held init = {#}"
    and step_balanced: "inv s \<Longrightarrow> step s calls s' \<Longrightarrow> inv s' \<and> balanced acquired released held s calls s'"
begin

lemma kept: "run_of step init s t \<Longrightarrow> inv s \<and> balanced acquired released held init t s"
proof (induction rule: run_of.induct)
  case run_init
  then show ?case using nothing_held by simp
next
  case (run_step s t calls s')
  then show ?case using step_balanced [of s calls s'] balanced_trans by metis
qed

lemma inv_holds: "run_of step init s t \<Longrightarrow> inv s"
  by (rule kept [THEN conjunct1])

lemma conserved: "run_of step init s t \<Longrightarrow> total acquired t = total released t + held s"
  using kept [of s t] nothing_held by (simp add: balanced_def)

lemma all_given_back:
  assumes "run_of step init s t" "step s calls s'" "held s' = {#}"
  shows "total acquired (t @ calls) = total released (t @ calls)"
  using conserved [OF run_step [OF assms(1,2)]] assms(3) by simp

text \<open>Nothing is given back that was not taken before.\<close>

lemma released_was_acquired: "run_of step init s t \<Longrightarrow> total released t \<subseteq># total acquired t"
  using conserved by simp

end

end
