(* ===== verification/VideoCapture.thy ===== *)
theory VideoCapture
  imports StreamConfig Ledgers
begin

text \<open>
  \<open>src/src/video/video_v4l2_capturer.cpp\<close>: the V4L2 device, its buffers and their hand-over. What the kernel answers are
  arguments; what the capturer asks of it, in order, is the list of calls every operation returns. A call that fails
  and changes nothing is not listed. \<open>at_driver\<close> reads from the calls which buffers the driver has.
\<close>

section \<open>The device and its buffers\<close>

datatype capture_call =
    OpenedDevice int | ClosedDevice int
  | SetFormat u32 u32 PixelFormat | SetFrameInterval u32
  | RequestedBuffers u32 MemoryMode
  | Mapped nat u64 | Unmapped nat u64
  | CreatedSurface nat | DestroyedSurface nat
  | QueuedBuffer u32 | DequeuedBuffer u32
  | StreamOn | StreamOff

record CamBuffer =
  cb_start :: "nat option"
  cb_length :: u64
  cb_surface :: "nat option"
  cb_dmabuf_fd :: int

definition CamBuffer_init :: CamBuffer where
  "CamBuffer_init = \<lparr>cb_start = None, cb_length = 0, cb_surface = None, cb_dmabuf_fd = - 1\<rparr>"

record Capturer =
  vc_config :: CaptureConfig
  actual_width :: u32
  actual_height :: u32
  actual_pixel_format :: PixelFormat
  cam_fd :: int
  cam_buffers :: "CamBuffer list"
  vc_running :: bool

definition Capturer_init :: Capturer where
  "Capturer_init = \<lparr>vc_config = CaptureConfig_default, actual_width = 0, actual_height = 0, actual_pixel_format = OtherFormat 0,
     cam_fd = - 1, cam_buffers = [], vc_running = False\<rparr>"

text \<open>The parts of \<open>struct v4l2_buffer\<close> the code reads or writes.\<close>

record V4l2Buffer =
  vb_index :: u32
  vb_memory :: MemoryMode
  vb_bytesused :: u32
  vb_tv_sec :: int
  vb_tv_usec :: int
  vb_fd :: int
  vb_length :: u32

record CaptureFrame =
  cf_data :: "nat option"
  cf_size :: u64
  cf_dmabuf_fd :: int
  cf_timestamp_us :: u64
  cf_v4l2_buf :: V4l2Buffer

section \<open>Opening and closing\<close>

text \<open>\<open>fd\<close>: what \<open>open\<close> returns.\<close>

definition openDevice :: "int \<Rightarrow> Capturer \<Rightarrow> bool \<times> capture_call list \<times> Capturer" where
  "openDevice fd c =
     (if 0 \<le> cam_fd c then (True, [], c)
      else if fd < 0 then (False, [], c\<lparr>cam_fd := fd\<rparr>)
      else (True, [OpenedDevice fd], c\<lparr>cam_fd := fd\<rparr>))"

definition V4L2_CAP_VIDEO_CAPTURE :: u32 where "V4L2_CAP_VIDEO_CAPTURE = 0x00000001"
definition V4L2_CAP_STREAMING :: u32 where "V4L2_CAP_STREAMING = 0x04000000"

text \<open>The answers of \<open>VIDIOC_QUERYCAP\<close>, \<open>VIDIOC_S_FMT\<close>, \<open>VIDIOC_G_FMT\<close> and \<open>VIDIOC_S_PARM\<close>.\<close>

record device_answer =
  querycap :: "u32 option"
  s_fmt :: bool
  g_fmt :: "(u32 \<times> u32 \<times> PixelFormat) option"
  s_parm :: bool

definition configureDevice :: "device_answer \<Rightarrow> Capturer \<Rightarrow> bool \<times> capture_call list \<times> Capturer" where
  "configureDevice a c =
     (case querycap a of
        None \<Rightarrow> (False, [], c)
      | Some caps \<Rightarrow>
          if caps AND V4L2_CAP_VIDEO_CAPTURE = 0 \<or> caps AND V4L2_CAP_STREAMING = 0 then (False, [], c)
          else if \<not> s_fmt a then (False, [], c)
          else (let cfg = vc_config c; asked = SetFormat (cap_width cfg) (cap_height cfg) (pixel_format cfg)
                in (case g_fmt a of
                      None \<Rightarrow> (False, [asked], c)
                    | Some (w, h, fmt) \<Rightarrow>
                        (True, asked # (if cap_framerate cfg \<noteq> 0 \<and> s_parm a then [SetFrameInterval (cap_framerate cfg)] else []),
                         c\<lparr>actual_width := w, actual_height := h, actual_pixel_format := fmt\<rparr>))))"

definition release_buffer :: "CamBuffer \<Rightarrow> capture_call list" where
  "release_buffer b =
     (case cb_start b of None \<Rightarrow> [] | Some addr \<Rightarrow> [Unmapped addr (cb_length b)]) @
     (case cb_surface b of None \<Rightarrow> [] | Some surface \<Rightarrow> [DestroyedSurface surface])"

definition closeDevice :: "Capturer \<Rightarrow> capture_call list \<times> Capturer" where
  "closeDevice c =
     ((if 0 \<le> cam_fd c \<and> cam_buffers c \<noteq> [] then [RequestedBuffers 0 (memory_mode (vc_config c))] else []) @
      concat (map release_buffer (cam_buffers c)) @
      (if 0 \<le> cam_fd c then [ClosedDevice (cam_fd c)] else []),
      c\<lparr>cam_buffers := [], cam_fd := (if 0 \<le> cam_fd c then - 1 else cam_fd c)\<rparr>)"

definition capturer_initialize ::
  "int \<Rightarrow> device_answer \<Rightarrow> CaptureConfig \<Rightarrow> Capturer \<Rightarrow> bool \<times> capture_call list \<times> Capturer" where
  "capturer_initialize fd a cfg c =
     (let c0 = c\<lparr>vc_config := cfg, actual_width := 0, actual_height := 0, actual_pixel_format := OtherFormat 0\<rparr>;
          (opened, calls1, c1) = openDevice fd c0
      in if \<not> opened then (False, calls1, c1)
         else (let (configured, calls2, c2) = configureDevice a c1
               in if configured then (True, calls1 @ calls2, c2)
                  else (let (calls3, c3) = closeDevice c2 in (False, calls1 @ calls2 @ calls3, c3))))"

section \<open>Requesting buffers\<close>

text \<open>For one buffer, the answers of \<open>VIDIOC_QUERYBUF\<close>, \<open>mmap\<close>, \<open>NvBufSurfaceCreate\<close> (the surface, its descriptor and
  size) and \<open>VIDIOC_QBUF\<close>.\<close>

record buffer_answer =
  querybuf :: "u32 option"
  mmap_addr :: "nat option"
  surface_create :: "(nat \<times> int \<times> u32) option"
  qbuf :: bool

fun mmap_loop :: "(nat \<Rightarrow> buffer_answer) \<Rightarrow> nat list \<Rightarrow> CamBuffer list \<Rightarrow> bool \<times> capture_call list \<times> CamBuffer list" where
  "mmap_loop a [] bs = (True, [], bs)"
| "mmap_loop a (i # is) bs =
     (case querybuf (a i) of
        None \<Rightarrow> (False, [], bs)
      | Some len \<Rightarrow>
          (case mmap_addr (a i) of
             None \<Rightarrow> (False, [], bs[i := (bs ! i)\<lparr>cb_length := ucast len, cb_start := None\<rparr>])
           | Some addr \<Rightarrow>
               (let bs1 = bs[i := (bs ! i)\<lparr>cb_length := ucast len, cb_start := Some addr\<rparr>]
                in if \<not> qbuf (a i) then (False, [Mapped addr (ucast len)], bs1)
                   else (let (ok, calls, bs2) = mmap_loop a is bs1
                         in (ok, Mapped addr (ucast len) # QueuedBuffer (of_nat i) # calls, bs2)))))"

fun dmabuf_loop :: "(nat \<Rightarrow> buffer_answer) \<Rightarrow> nat list \<Rightarrow> CamBuffer list \<Rightarrow> bool \<times> capture_call list \<times> CamBuffer list" where
  "dmabuf_loop a [] bs = (True, [], bs)"
| "dmabuf_loop a (i # is) bs =
     (case surface_create (a i) of
        None \<Rightarrow> (False, [], bs)
      | Some (surface, fd, data_size) \<Rightarrow>
          (let bs1 = bs[i := (bs ! i)\<lparr>cb_surface := Some surface, cb_dmabuf_fd := fd, cb_length := ucast data_size\<rparr>]
           in if \<not> qbuf (a i) then (False, [CreatedSurface surface], bs1)
              else (let (ok, calls, bs2) = dmabuf_loop a is bs1
                    in (ok, CreatedSurface surface # QueuedBuffer (of_nat i) # calls, bs2))))"

definition resize_buffers :: "nat \<Rightarrow> CamBuffer list \<Rightarrow> CamBuffer list" where
  "resize_buffers n bs = take n bs @ replicate (n - length bs) CamBuffer_init"

text \<open>\<open>rb\<close>: how many buffers \<open>VIDIOC_REQBUFS\<close> grants, unless it fails.\<close>

definition requestMmapBuffers :: "u32 option \<Rightarrow> (nat \<Rightarrow> buffer_answer) \<Rightarrow> u32 \<Rightarrow> Capturer \<Rightarrow> bool \<times> capture_call list \<times> Capturer" where
  "requestMmapBuffers rb a count0 c =
     (let count1 = (if count0 = 0 then 4 else count0)
      in (case rb of
            None \<Rightarrow> (False, [], c)
          | Some granted \<Rightarrow>
              if granted = 0 then (False, [RequestedBuffers count1 kMmap], c)
              else (let (ok, calls, bs) = mmap_loop a [0..<unat granted] (resize_buffers (unat granted) (cam_buffers c))
                    in (ok, RequestedBuffers count1 kMmap # calls, c\<lparr>cam_buffers := bs\<rparr>))))"

definition requestDmaBufBuffers :: "u32 option \<Rightarrow> (nat \<Rightarrow> buffer_answer) \<Rightarrow> u32 \<Rightarrow> Capturer \<Rightarrow> bool \<times> capture_call list \<times> Capturer" where
  "requestDmaBufBuffers rb a count0 c =
     (let count1 = (if count0 = 0 then 4 else count0)
      in if actual_pixel_format c \<noteq> YUYV then (False, [], c)
         else (case rb of
            None \<Rightarrow> (False, [], c)
          | Some granted \<Rightarrow>
              if granted = 0 then (False, [RequestedBuffers count1 kDmaBuf], c)
              else (let (ok, calls, bs) = dmabuf_loop a [0..<unat granted] (resize_buffers (unat granted) (cam_buffers c))
                    in (ok, RequestedBuffers count1 kDmaBuf # calls, c\<lparr>cam_buffers := bs\<rparr>))))"

definition requestBuffers :: "u32 option \<Rightarrow> (nat \<Rightarrow> buffer_answer) \<Rightarrow> Capturer \<Rightarrow> bool \<times> capture_call list \<times> Capturer" where
  "requestBuffers rb a c =
     (if cam_buffers c \<noteq> [] then (True, [], c)
      else (let count1 = (if buffer_count (vc_config c) = 0 then 4 else buffer_count (vc_config c))
            in if memory_mode (vc_config c) = kDmaBuf then requestDmaBufBuffers rb a count1 c
               else requestMmapBuffers rb a count1 c))"

section \<open>Streaming\<close>

definition streamOn :: "bool \<Rightarrow> Capturer \<Rightarrow> bool \<times> capture_call list" where
  "streamOn ok c = (if ok then (True, [StreamOn]) else (False, []))"

definition streamOff :: "Capturer \<Rightarrow> capture_call list" where
  "streamOff c = (if cam_fd c < 0 then [] else [StreamOff])"

definition capturer_start :: "u32 option \<Rightarrow> (nat \<Rightarrow> buffer_answer) \<Rightarrow> bool \<Rightarrow> Capturer \<Rightarrow> bool \<times> capture_call list \<times> Capturer" where
  "capturer_start rb a on_ok c =
     (if vc_running c then (True, [], c)
      else if cam_fd c < 0 then (False, [], c)
      else (let (requested, calls1, c1) = requestBuffers rb a c
            in if \<not> requested then (False, calls1, c1)
               else (let (on, calls2) = streamOn on_ok c1
                     in if \<not> on then (False, calls1 @ calls2, c1)
                        else (True, calls1 @ calls2, c1\<lparr>vc_running := True\<rparr>))))"

definition capturer_interrupt :: "Capturer \<Rightarrow> capture_call list \<times> Capturer" where
  "capturer_interrupt c = (if \<not> vc_running c then ([], c) else (streamOff c, c\<lparr>vc_running := False\<rparr>))"

definition capturer_stop :: "Capturer \<Rightarrow> capture_call list \<times> Capturer" where
  "capturer_stop c =
     (if \<not> vc_running c then closeDevice c
      else (let (calls1, c1) = capturer_interrupt c; (calls2, c2) = closeDevice c1 in (calls1 @ calls2, c2)))"

section \<open>Frames\<close>

text \<open>What \<open>poll\<close> returns and sets; \<open>pa_interrupted\<close>: another thread called \<open>interrupt\<close> while it waited.\<close>

record poll_answer =
  pa_rc :: int
  pa_in :: bool
  pa_pri :: bool
  pa_err :: bool
  pa_interrupted :: bool

definition pollForFrame :: "poll_answer \<Rightarrow> Capturer \<Rightarrow> bool" where
  "pollForFrame p c =
     (if pa_rc p < 0 then False else if pa_rc p = 0 then False else if \<not> vc_running c then False
      else pa_in p \<or> pa_pri p \<or> pa_err p)"

definition filled_frame :: "V4l2Buffer \<Rightarrow> CamBuffer \<Rightarrow> MemoryMode \<Rightarrow> CaptureFrame" where
  "filled_frame vb b mode =
     \<lparr>cf_data = (if mode = kMmap then cb_start b else None),
      cf_size = (if mode = kDmaBuf \<and> vb_bytesused vb = 0 then cb_length b else ucast (vb_bytesused vb)),
      cf_dmabuf_fd = (if mode = kDmaBuf then cb_dmabuf_fd b else - 1),
      cf_timestamp_us = of_int (vb_tv_sec vb) * 1000000 + of_int (vb_tv_usec vb),
      cf_v4l2_buf = vb\<rparr>"

text \<open>\<open>dq\<close>: what \<open>VIDIOC_DQBUF\<close> answers. A call that returns false leaves a frame its callers do not read.\<close>

definition capturer_dequeue :: "poll_answer \<Rightarrow> V4l2Buffer option \<Rightarrow> Capturer \<Rightarrow> CaptureFrame option \<times> capture_call list \<times> Capturer" where
  "capturer_dequeue p dq c =
     (if \<not> vc_running c \<or> cam_fd c < 0 then (None, [], c)
      else (let (calls1, c1) = (if pa_interrupted p then capturer_interrupt c else ([], c))
            in if \<not> pollForFrame p c1 then (None, calls1, c1)
               else (case dq of
                       None \<Rightarrow> (None, calls1, c1)
                     | Some vb \<Rightarrow>
                         (let calls2 = calls1 @ [DequeuedBuffer (vb_index vb)]; mode = memory_mode (vc_config c1)
                          in if length (cam_buffers c1) \<le> unat (vb_index vb) then (None, calls2, c1)
                             else (let buffer = cam_buffers c1 ! unat (vb_index vb)
                                   in if mode = kMmap \<and> cb_start buffer = None \<or> mode = kDmaBuf \<and> cb_dmabuf_fd buffer < 0
                                      then (None, calls2, c1)
                                      else (let f = filled_frame vb buffer mode
                                            in (if (cf_data f \<noteq> None \<or> 0 \<le> cf_dmabuf_fd f) \<and> cf_size f \<noteq> 0 then Some f else None,
                                                calls2, c1)))))))"

definition capturer_requeue :: "bool \<Rightarrow> V4l2Buffer \<Rightarrow> Capturer \<Rightarrow> bool \<times> capture_call list" where
  "capturer_requeue qbuf_ok vb c =
     (if cam_fd c < 0 then (False, [])
      else if memory_mode (vc_config c) = kDmaBuf
              \<and> (length (cam_buffers c) \<le> unat (vb_index vb) \<or> cb_dmabuf_fd (cam_buffers c ! unat (vb_index vb)) < 0)
           then (False, [])
           else if qbuf_ok then (True, [QueuedBuffer (vb_index vb)]) else (False, []))"

section \<open>What is acquired is given back\<close>

datatype resource = Descriptor int | Mapping nat u64 | Surface nat

fun cap_acquired :: "capture_call \<Rightarrow> resource multiset" where
  "cap_acquired (OpenedDevice fd) = {#Descriptor fd#}"
| "cap_acquired (Mapped addr len) = {#Mapping addr len#}"
| "cap_acquired (CreatedSurface s) = {#Surface s#}"
| "cap_acquired _ = {#}"

fun cap_released :: "capture_call \<Rightarrow> resource multiset" where
  "cap_released (ClosedDevice fd) = {#Descriptor fd#}"
| "cap_released (Unmapped addr len) = {#Mapping addr len#}"
| "cap_released (DestroyedSurface s) = {#Surface s#}"
| "cap_released _ = {#}"

definition held_by :: "CamBuffer \<Rightarrow> resource multiset" where
  "held_by b = (case cb_start b of None \<Rightarrow> {#} | Some addr \<Rightarrow> {#Mapping addr (cb_length b)#}) +
     (case cb_surface b of None \<Rightarrow> {#} | Some s \<Rightarrow> {#Surface s#})"

definition cap_held :: "Capturer \<Rightarrow> resource multiset" where
  "cap_held c = (if 0 \<le> cam_fd c then {#Descriptor (cam_fd c)#} else {#}) + sum_list (map held_by (cam_buffers c))"

text \<open>Operations on the capturer, in any order.\<close>

inductive cap_step :: "Capturer \<Rightarrow> capture_call list \<Rightarrow> Capturer \<Rightarrow> bool" where
  cs_initialize: "capturer_initialize fd a cfg c = (ok, calls, c') \<Longrightarrow> cap_step c calls c'"
| cs_start: "capturer_start rb b on_ok c = (ok, calls, c') \<Longrightarrow> cap_step c calls c'"
| cs_interrupt: "capturer_interrupt c = (calls, c') \<Longrightarrow> cap_step c calls c'"
| cs_stop: "capturer_stop c = (calls, c') \<Longrightarrow> cap_step c calls c'"
| cs_dequeue: "capturer_dequeue p dq c = (f, calls, c') \<Longrightarrow> cap_step c calls c'"
| cs_requeue: "capturer_requeue q vb c = (ok, calls) \<Longrightarrow> cap_step c calls c"

abbreviation cap_run :: "Capturer \<Rightarrow> capture_call list \<Rightarrow> bool" where
  "cap_run \<equiv> run_of cap_step Capturer_init"

abbreviation cap_balanced :: "Capturer \<Rightarrow> capture_call list \<Rightarrow> Capturer \<Rightarrow> bool" where
  "cap_balanced \<equiv> balanced cap_acquired cap_released cap_held"

lemma openDevice_balanced: "openDevice fd c = (ok, calls, c') \<Longrightarrow> cap_balanced c calls c'"
  by (auto simp: openDevice_def balanced_def cap_held_def split: if_splits)

lemma configureDevice_balanced: "configureDevice a c = (ok, calls, c') \<Longrightarrow> cap_balanced c calls c'"
  by (rule balanced_neutral) (auto simp: configureDevice_def cap_held_def Let_def split: if_splits option.splits)

lemma release_buffer_ledger: "total cap_released (release_buffer b) = held_by b" "total cap_acquired (release_buffer b) = {#}"
  by (simp_all add: release_buffer_def held_by_def split: option.splits)

lemma release_buffers_ledger:
  "total cap_released (concat (map release_buffer bs)) = sum_list (map held_by bs)" "total cap_acquired (concat (map release_buffer bs)) = {#}"
  by (induction bs) (simp_all add: release_buffer_ledger)

lemma closeDevice_balanced:
  assumes "closeDevice c = (calls, c')"
  shows "cap_balanced c calls c' \<and> cap_held c' = {#}"
  using assms by (auto simp: closeDevice_def balanced_def cap_held_def release_buffers_ledger)

lemma sum_list_update_held:
  assumes "i < length bs" "held_by (bs ! i) = {#}"
  shows "sum_list (map held_by (bs[i := b])) = sum_list (map held_by bs) + held_by b"
proof -
  have bs: "bs = take i bs @ bs ! i # drop (Suc i) bs" using assms(1) by (simp add: id_take_nth_drop)
  have "sum_list (map held_by bs) = sum_list (map held_by (take i bs)) + held_by (bs ! i) + sum_list (map held_by (drop (Suc i) bs))"
    by (subst bs) simp
  then show ?thesis using assms by (simp add: upd_conv_take_nth_drop)
qed

lemma fresh_update:
  assumes "\<forall>j\<in>set (i # is). j < length bs \<and> bs ! j = CamBuffer_init" "distinct (i # is)"
  shows "\<forall>j\<in>set is. j < length (bs[i := b]) \<and> bs[i := b] ! j = CamBuffer_init"
  using assms by (auto simp: nth_list_update)

text \<open>The two loops fill the buffers that are still empty.\<close>

lemma mmap_loop_ledger:
  assumes "mmap_loop a is bs = (ok, calls, bs')" "\<forall>j\<in>set is. j < length bs \<and> bs ! j = CamBuffer_init" "distinct is"
  shows "sum_list (map held_by bs) + total cap_acquired calls = sum_list (map held_by bs') \<and> total cap_released calls = {#}"
  using assms
proof (induction "is" arbitrary: bs ok calls bs')
  case Nil
  then show ?case by simp
next
  case (Cons i "is")
  have i: "i < length bs" "bs ! i = CamBuffer_init" using Cons.prems(2) by simp_all
  then have e: "held_by (bs ! i) = {#}" by (simp add: CamBuffer_init_def held_by_def)
  note upd = sum_list_update_held [OF i(1) e]
  show ?case
  proof (cases "querybuf (a i)")
    case None
    then show ?thesis using Cons.prems(1) by simp
  next
    case q: (Some len)
    show ?thesis
    proof (cases "mmap_addr (a i)")
      case None
      have "sum_list (map held_by (bs[i := (bs ! i)\<lparr>cb_length := ucast len, cb_start := None\<rparr>])) = sum_list (map held_by bs)"
        by (subst upd) (simp add: i held_by_def CamBuffer_init_def)
      then show ?thesis using Cons.prems(1) q None by auto
    next
      case m: (Some addr)
      define bs1 where "bs1 = bs[i := (bs ! i)\<lparr>cb_length := ucast len, cb_start := Some addr\<rparr>]"
      have s1: "sum_list (map held_by bs1) = sum_list (map held_by bs) + {#Mapping addr (ucast len)#}"
        unfolding bs1_def by (subst upd) (simp add: i held_by_def CamBuffer_init_def)
      show ?thesis
      proof (cases "qbuf (a i)")
        case False
        then show ?thesis using Cons.prems(1) q m s1 by (auto simp: bs1_def Let_def)
      next
        case True
        obtain ok2 calls2 bs2 where r: "mmap_loop a is bs1 = (ok2, calls2, bs2)" by (metis prod_cases3)
        have f: "\<forall>j\<in>set is. j < length bs1 \<and> bs1 ! j = CamBuffer_init" unfolding bs1_def by (rule fresh_update [OF Cons.prems(2,3)])
        have "calls = Mapped addr (ucast len) # QueuedBuffer (of_nat i) # calls2" "bs' = bs2"
          using Cons.prems(1) q m True r by (simp_all add: bs1_def Let_def)
        then show ?thesis using Cons.IH [OF r f] Cons.prems(3) s1 by (simp add: ac_simps)
      qed
    qed
  qed
qed

lemma dmabuf_loop_ledger:
  assumes "dmabuf_loop a is bs = (ok, calls, bs')" "\<forall>j\<in>set is. j < length bs \<and> bs ! j = CamBuffer_init" "distinct is"
  shows "sum_list (map held_by bs) + total cap_acquired calls = sum_list (map held_by bs') \<and> total cap_released calls = {#}"
  using assms
proof (induction "is" arbitrary: bs ok calls bs')
  case Nil
  then show ?case by simp
next
  case (Cons i "is")
  have i: "i < length bs" "bs ! i = CamBuffer_init" using Cons.prems(2) by simp_all
  then have e: "held_by (bs ! i) = {#}" by (simp add: CamBuffer_init_def held_by_def)
  show ?case
  proof (cases "surface_create (a i)")
    case None
    then show ?thesis using Cons.prems(1) by simp
  next
    case (Some sfz)
    then obtain surface fd data_size where s: "surface_create (a i) = Some (surface, fd, data_size)" by (cases sfz) auto
    define bs1 where "bs1 = bs[i := (bs ! i)\<lparr>cb_surface := Some surface, cb_dmabuf_fd := fd, cb_length := ucast data_size\<rparr>]"
    have s1: "sum_list (map held_by bs1) = sum_list (map held_by bs) + {#Surface surface#}"
      unfolding bs1_def by (subst sum_list_update_held [OF i(1) e]) (simp add: i held_by_def CamBuffer_init_def)
    show ?thesis
    proof (cases "qbuf (a i)")
      case False
      then show ?thesis using Cons.prems(1) s s1 by (auto simp: bs1_def Let_def)
    next
      case True
      obtain ok2 calls2 bs2 where r: "dmabuf_loop a is bs1 = (ok2, calls2, bs2)" by (metis prod_cases3)
      have f: "\<forall>j\<in>set is. j < length bs1 \<and> bs1 ! j = CamBuffer_init" unfolding bs1_def by (rule fresh_update [OF Cons.prems(2,3)])
      have "calls = CreatedSurface surface # QueuedBuffer (of_nat i) # calls2" "bs' = bs2"
        using Cons.prems(1) s True r by (simp_all add: bs1_def Let_def)
      then show ?thesis using Cons.IH [OF r f] Cons.prems(3) s1 by (simp add: ac_simps)
    qed
  qed
qed

lemma resize_empty:
  "\<forall>j\<in>set [0..<n]. j < length (resize_buffers n []) \<and> resize_buffers n [] ! j = CamBuffer_init"
  "sum_list (map held_by (resize_buffers n [])) = {#}"
  by (simp_all add: resize_buffers_def) (induction n; simp add: held_by_def CamBuffer_init_def)

lemma requestBuffers_balanced:
  assumes "requestBuffers rb a c = (ok, calls, c')"
  shows "cap_balanced c calls c'"
proof (cases "cam_buffers c = []")
  case False
  then show ?thesis using assms by (simp add: requestBuffers_def balanced_def)
next
  case True
  have m: "cap_balanced c (RequestedBuffers n kMmap # calls0) (c\<lparr>cam_buffers := bs\<rparr>)"
    if "mmap_loop a [0..<k] (resize_buffers k (cam_buffers c)) = (ok0, calls0, bs)" for n k ok0 calls0 bs
    using mmap_loop_ledger [OF that [unfolded True] resize_empty(1)] True by (simp add: balanced_def cap_held_def resize_empty(2))
  have d: "cap_balanced c (RequestedBuffers n kDmaBuf # calls0) (c\<lparr>cam_buffers := bs\<rparr>)"
    if "dmabuf_loop a [0..<k] (resize_buffers k (cam_buffers c)) = (ok0, calls0, bs)" for n k ok0 calls0 bs
    using dmabuf_loop_ledger [OF that [unfolded True] resize_empty(1)] True by (simp add: balanced_def cap_held_def resize_empty(2))
  show ?thesis using assms True m d
    by (auto simp: requestBuffers_def requestMmapBuffers_def requestDmaBufBuffers_def Let_def
        intro: balanced_neutral split: if_splits option.splits prod.splits)
qed

lemma capturer_initialize_balanced:
  assumes "capturer_initialize fd a cfg c = (ok, calls, c')"
  shows "cap_balanced c calls c'"
proof -
  define c0 where "c0 = c\<lparr>vc_config := cfg, actual_width := 0, actual_height := 0, actual_pixel_format := OtherFormat 0\<rparr>"
  obtain o1 t1 c1 where 1: "openDevice fd c0 = (o1, t1, c1)" by (metis prod_cases3)
  obtain o2 t2 c2 where 2: "configureDevice a c1 = (o2, t2, c2)" by (metis prod_cases3)
  obtain t3 c3 where 3: "closeDevice c2 = (t3, c3)" by fastforce
  have "cap_held c0 = cap_held c" by (simp add: cap_held_def c0_def)
  then have b1: "cap_balanced c t1 c1" using openDevice_balanced [OF 1] by (simp add: balanced_def)
  note b2 = balanced_trans [OF b1 configureDevice_balanced [OF 2]]
  have b3: "cap_balanced c (t1 @ t2 @ t3) c3" using balanced_trans [OF b2] closeDevice_balanced [OF 3] by simp
  show ?thesis using assms 1 2 3 b1 b2 b3
    by (auto simp: capturer_initialize_def c0_def [symmetric] Let_def split: if_splits)
qed

lemma capturer_start_balanced:
  assumes "capturer_start rb a on_ok c = (ok, calls, c')"
  shows "cap_balanced c calls c'"
proof -
  obtain r t1 c1 where 1: "requestBuffers rb a c = (r, t1, c1)" by (metis prod_cases3)
  have b: "cap_balanced c t1 c1" by (rule requestBuffers_balanced [OF 1])
  have "cap_balanced c (t1 @ [StreamOn]) (c1\<lparr>vc_running := True\<rparr>)" using b by (simp add: balanced_def cap_held_def)
  then show ?thesis using assms 1 b
    by (auto simp: capturer_start_def streamOn_def balanced_def cap_held_def split: if_splits)
qed

lemma capturer_interrupt_balanced: "capturer_interrupt c = (calls, c') \<Longrightarrow> cap_balanced c calls c'"
  by (rule balanced_neutral) (auto simp: capturer_interrupt_def streamOff_def cap_held_def split: if_splits)

lemma capturer_stop_balanced:
  assumes "capturer_stop c = (calls, c')"
  shows "cap_balanced c calls c' \<and> cap_held c' = {#}"
proof -
  obtain t1 c1 where 1: "capturer_interrupt c = (t1, c1)" by fastforce
  obtain t2 c2 where 2: "closeDevice c1 = (t2, c2)" by fastforce
  have "cap_balanced c (t1 @ t2) c2" using balanced_trans [OF capturer_interrupt_balanced [OF 1]] closeDevice_balanced [OF 2] by blast
  then show ?thesis using assms 1 2 closeDevice_balanced [OF 2] closeDevice_balanced [of c calls c']
    by (auto simp: capturer_stop_def split: if_splits)
qed

lemma capturer_dequeue_balanced:
  assumes "capturer_dequeue p dq c = (f, calls, c')"
  shows "cap_balanced c calls c'"
proof -
  obtain t1 c1 where 1: "(if pa_interrupted p then capturer_interrupt c else ([], c)) = (t1, c1)" by fastforce
  have b: "cap_balanced c t1 c1" using 1 capturer_interrupt_balanced by (auto simp: balanced_def split: if_splits)
  have d: "cap_balanced c (t1 @ [DequeuedBuffer i]) c1" for i using b by (simp add: balanced_def)
  have e: "cap_balanced c [] c" by (simp add: balanced_def)
  show ?thesis using assms 1 b d e
    by (auto simp: capturer_dequeue_def Let_def split: if_splits option.splits)
qed

lemma capturer_requeue_balanced: "capturer_requeue q vb c = (ok, calls) \<Longrightarrow> cap_balanced c calls c"
  by (rule balanced_neutral) (auto simp: capturer_requeue_def split: if_splits)

lemma cap_step_balanced: "cap_step c calls c' \<Longrightarrow> cap_balanced c calls c'"
  by (elim cap_step.cases) (auto intro: capturer_initialize_balanced capturer_start_balanced capturer_interrupt_balanced
      capturer_stop_balanced [THEN conjunct1] capturer_dequeue_balanced capturer_requeue_balanced)

interpretation camera: ledger cap_acquired cap_released cap_held "\<lambda>_. True" cap_step Capturer_init
  by unfold_locales (simp_all add: cap_held_def Capturer_init_def cap_step_balanced)

text \<open>C34: At any time the descriptor, the mappings and the surfaces the capturer has acquired and not released are the
  ones its members name, whatever failed half-way; \<open>stop\<close> releases all of them, mappings with the length they had.\<close>

theorem camera_resources_conserved:
  assumes "cap_run c t"
  shows "total cap_acquired t = total cap_released t + cap_held c
    \<and> (\<forall>calls c'. capturer_stop c = (calls, c') \<longrightarrow> total cap_acquired (t @ calls) = total cap_released (t @ calls))"
  using camera.conserved [OF assms] camera.all_given_back [OF assms cs_stop] capturer_stop_balanced by blast

section \<open>What the driver has\<close>

text \<open>\<open>VIDIOC_STREAMOFF\<close>, \<open>VIDIOC_REQBUFS\<close> and the end of the descriptor take every buffer from the driver.\<close>

fun driver_step :: "capture_call \<Rightarrow> u32 set \<Rightarrow> u32 set" where
  "driver_step (QueuedBuffer i) q = insert i q"
| "driver_step (DequeuedBuffer i) q = q - {i}"
| "driver_step StreamOff q = {}"
| "driver_step (RequestedBuffers n mode) q = {}"
| "driver_step (ClosedDevice fd) q = {}"
| "driver_step _ q = q"

definition at_driver :: "capture_call list \<Rightarrow> u32 set" where
  "at_driver calls = fold driver_step calls {}"

lemma at_driver_append: "at_driver (t @ calls) = fold driver_step calls (at_driver t)"
  by (simp add: at_driver_def)

text \<open>Frames of the camera one after the other, all with data the driver says are there.\<close>

definition poll_ready :: poll_answer where
  "poll_ready = \<lparr>pa_rc = 1, pa_in = True, pa_pri = False, pa_err = False, pa_interrupted = False\<rparr>"

fun dequeue_all :: "V4l2Buffer list \<Rightarrow> Capturer \<Rightarrow> CaptureFrame option list \<times> capture_call list \<times> Capturer" where
  "dequeue_all [] c = ([], [], c)"
| "dequeue_all (vb # vbs) c =
     (let (f, calls1, c1) = capturer_dequeue poll_ready (Some vb) c;
          (fs, calls2, c2) = dequeue_all vbs c1
      in (f # fs, calls1 @ calls2, c2))"

lemma dequeue_ready:
  assumes "vc_running c" "0 \<le> cam_fd c"
  shows "\<exists>f. capturer_dequeue poll_ready (Some vb) c = (f, [DequeuedBuffer (vb_index vb)], c)
    \<and> (memory_mode (vc_config c) = kMmap \<longrightarrow> vb_bytesused vb = 0 \<longrightarrow> f = None)"
  using assms by (auto simp: capturer_dequeue_def pollForFrame_def poll_ready_def filled_frame_def Let_def)

lemma dequeue_all_ready:
  assumes "vc_running c" "0 \<le> cam_fd c"
  shows "\<exists>fs. dequeue_all vbs c = (fs, map (DequeuedBuffer \<circ> vb_index) vbs, c)
    \<and> (memory_mode (vc_config c) = kMmap \<longrightarrow> (\<forall>vb\<in>set vbs. vb_bytesused vb = 0) \<longrightarrow> set fs \<subseteq> {None})"
proof (induction vbs)
  case Nil
  then show ?case by simp
next
  case (Cons vb vbs)
  obtain f where f: "capturer_dequeue poll_ready (Some vb) c = (f, [DequeuedBuffer (vb_index vb)], c)"
      "memory_mode (vc_config c) = kMmap \<longrightarrow> vb_bytesused vb = 0 \<longrightarrow> f = None"
    using dequeue_ready [OF assms] by blast
  from Cons.IH f show ?case by (auto simp: Let_def)
qed

lemma driver_after_dequeues: "fold driver_step (map (DequeuedBuffer \<circ> vb_index) vbs) q = q - vb_index ` set vbs"
  by (induction vbs arbitrary: q) auto

text \<open>C35: A buffer that comes back from the camera without data is taken from the driver and handed to nobody: \<open>dequeue\<close>
  answers false, so its caller has nothing to requeue. When that has happened once for every buffer the driver had,
  it has none left, and no frame can come any more, although the capturer runs.\<close>

theorem empty_frames_starve_camera:
  assumes "cap_run c t" "vc_running c" "0 \<le> cam_fd c" "memory_mode (vc_config c) = kMmap"
    and "\<forall>vb\<in>set vbs. vb_bytesused vb = 0" "at_driver t \<subseteq> vb_index ` set vbs"
    and "dequeue_all vbs c = (fs, calls, c')"
  shows "cap_run c' (t @ calls) \<and> set fs \<subseteq> {None} \<and> at_driver (t @ calls) = {} \<and> vc_running c'"
proof -
  have all: "c' = c" "calls = map (DequeuedBuffer \<circ> vb_index) vbs" "set fs \<subseteq> {None}"
    using dequeue_all_ready [OF assms(2,3), of vbs] assms(4,5,7) by auto
  have "cap_run c (t @ map (DequeuedBuffer \<circ> vb_index) vs)" for vs :: "V4l2Buffer list"
  proof (induction vs rule: rev_induct)
    case Nil
    then show ?case using assms(1) by simp
  next
    case (snoc vb vs)
    obtain f where "capturer_dequeue poll_ready (Some vb) c = (f, [DequeuedBuffer (vb_index vb)], c)"
      using dequeue_ready [OF assms(2,3)] by blast
    from run_step [where step = cap_step, OF snoc cs_dequeue [OF this]] show ?case by simp
  qed
  then show ?thesis using all assms(2,6) by (auto simp: at_driver_append driver_after_dequeues)
qed

text \<open>A frame that is handed out lies in one of the buffers, and can be given back.\<close>

lemma dequeued_frame_in_buffer:
  assumes "capturer_dequeue p dq c = (Some f, calls, c')"
  shows "unat (vb_index (cf_v4l2_buf f)) < length (cam_buffers c') \<and> cf_size f \<noteq> 0
    \<and> (let b = cam_buffers c' ! unat (vb_index (cf_v4l2_buf f))
       in (memory_mode (vc_config c') = kMmap \<longrightarrow> cf_data f = cb_start b \<and> cf_data f \<noteq> None)
        \<and> (memory_mode (vc_config c') = kDmaBuf \<longrightarrow> cf_dmabuf_fd f = cb_dmabuf_fd b \<and> 0 \<le> cf_dmabuf_fd f))"
  using assms by (auto simp: capturer_dequeue_def filled_frame_def Let_def split: if_splits option.splits prod.splits)

lemma pollForFrame_running: "pollForFrame p c \<Longrightarrow> vc_running c"
  by (simp add: pollForFrame_def split: if_splits)

lemma dequeued_frame_requeues:
  assumes "capturer_dequeue p dq c = (Some f, calls, c')"
  shows "capturer_requeue True (cf_v4l2_buf f) c' = (True, [QueuedBuffer (vb_index (cf_v4l2_buf f))])"
proof -
  have "0 \<le> cam_fd c'" using assms by (auto simp: capturer_dequeue_def capturer_interrupt_def Let_def split: if_splits option.splits prod.splits)
  then show ?thesis using dequeued_frame_in_buffer [OF assms] by (cases "memory_mode (vc_config c')") (auto simp: capturer_requeue_def Let_def)
qed

text \<open>Started again without \<open>stop\<close>, the capturer keeps its buffers but does not queue them: the driver has none.\<close>

lemma restart_without_stop_has_no_buffer:
  assumes "capturer_interrupt c = (calls1, c1)" "vc_running c" "0 \<le> cam_fd c" "cam_buffers c \<noteq> []"
    and "capturer_start rb a True c1 = (ok, calls2, c2)"
  shows "ok \<and> vc_running c2 \<and> at_driver (t @ calls1 @ calls2) = {}"
  using assms by (auto simp: capturer_interrupt_def capturer_start_def streamOff_def streamOn_def requestBuffers_def
      at_driver_append Let_def split: if_splits)

section \<open>A camera with two buffers\<close>

definition device0 :: device_answer where
  "device0 = \<lparr>querycap = Some 0x04000001, s_fmt = True, g_fmt = Some (640, 480, MJPEG), s_parm = True\<rparr>"

definition buffer_answer0 :: "nat \<Rightarrow> buffer_answer" where
  "buffer_answer0 i = \<lparr>querybuf = Some 100, mmap_addr = Some (1000 * (i + 1)), surface_create = None, qbuf = True\<rparr>"

definition camera_calls0 :: "capture_call list" where
  "camera_calls0 = [OpenedDevice 7, SetFormat 3840 1520 MJPEG, SetFrameInterval 30, RequestedBuffers 8 kMmap,
     Mapped 1000 100, QueuedBuffer 0, Mapped 2000 100, QueuedBuffer 1, StreamOn]"

definition camera0 :: Capturer where
  "camera0 = \<lparr>vc_config = CaptureConfig_default, actual_width = 640, actual_height = 480, actual_pixel_format = MJPEG, cam_fd = 7,
     cam_buffers = [CamBuffer_init\<lparr>cb_length := 100, cb_start := Some 1000\<rparr>, CamBuffer_init\<lparr>cb_length := 100, cb_start := Some 2000\<rparr>],
     vc_running = True\<rparr>"

lemma init0: "capturer_initialize 7 device0 CaptureConfig_default Capturer_init =
    (True, [OpenedDevice 7, SetFormat 3840 1520 MJPEG, SetFrameInterval 30],
     camera0\<lparr>cam_buffers := [], vc_running := False\<rparr>)"
  by (simp add: capturer_initialize_def openDevice_def configureDevice_def device0_def Capturer_init_def CaptureConfig_default_def
      V4L2_CAP_VIDEO_CAPTURE_def V4L2_CAP_STREAMING_def camera0_def)

lemma camera_calls0_take: "take 3 camera_calls0 = [OpenedDevice 7, SetFormat 3840 1520 MJPEG, SetFrameInterval 30]"
  by (simp add: camera_calls0_def)

lemma upt_0_2: "[0..<2] = [0, Suc 0]" "replicate 2 x = [x, x]"
  by (simp_all add: upt_rec numeral_2_eq_2)

lemma start0: "capturer_start (Some 2) buffer_answer0 True (camera0\<lparr>cam_buffers := [], vc_running := False\<rparr>) =
    (True, drop 3 camera_calls0, camera0)"
  by (simp add: capturer_start_def requestBuffers_def requestMmapBuffers_def camera0_def CaptureConfig_default_def
      resize_buffers_def upt_0_2 buffer_answer0_def streamOn_def camera_calls0_def Let_def)

lemma camera0_run: "cap_run camera0 camera_calls0"
proof -
  have "cap_run (camera0\<lparr>cam_buffers := [], vc_running := False\<rparr>) ([] @ take 3 camera_calls0)"
    by (rule run_step [where step = cap_step, OF run_init cs_initialize [OF init0 [folded camera_calls0_take]]])
  from run_step [where step = cap_step, OF this cs_start [OF start0]] show ?thesis by (simp only: append_Nil append_take_drop_id)
qed

theorem camera_resources_conserved_witness:
  "total cap_acquired camera_calls0 = total cap_released camera_calls0 + cap_held camera0 \<and> size (cap_held camera0) = 3"
  using camera_resources_conserved [OF camera0_run] by (simp add: cap_held_def camera0_def held_by_def CamBuffer_init_def)

definition empty_buffer :: "u32 \<Rightarrow> V4l2Buffer" where
  "empty_buffer i = \<lparr>vb_index = i, vb_memory = kMmap, vb_bytesused = 0, vb_tv_sec = 0, vb_tv_usec = 0, vb_fd = 0, vb_length = 100\<rparr>"

theorem empty_frames_starve_camera_witness:
  "at_driver camera_calls0 = {0, 1} \<and>
   (case dequeue_all [empty_buffer 0, empty_buffer 1] camera0 of (fs, calls, c) \<Rightarrow>
      set fs \<subseteq> {None} \<and> at_driver (camera_calls0 @ calls) = {} \<and> vc_running c)"
proof -
  have d: "at_driver camera_calls0 = {0, 1}" by (auto simp: at_driver_def camera_calls0_def)
  obtain fs calls c where q: "dequeue_all [empty_buffer 0, empty_buffer 1] camera0 = (fs, calls, c)" by (metis prod_cases3)
  have "cap_run c (camera_calls0 @ calls) \<and> set fs \<subseteq> {None} \<and> at_driver (camera_calls0 @ calls) = {} \<and> vc_running c"
    by (rule empty_frames_starve_camera [OF camera0_run _ _ _ _ _ q])
      (simp_all add: camera0_def CaptureConfig_default_def empty_buffer_def d)
  then show ?thesis using d q by simp
qed

end
