(* ===== verification/GpuKernels.thy ===== *)
theory GpuKernels
  imports Prelude "HOL-Library.Multiset"
begin

text \<open>
  The pixel kernels of \<open>src/src/video/cuda_yuv422_converter.cu\<close> and the way a GPU runs them. The memory of a plane is a
  function from offsets to bytes. A kernel is a function from the coordinates of a thread to the bytes it writes;
  the threads of a grid run in an order nobody knows, so a launch is any order of all their writes (\<open>executes\<close>).
\<close>

type_synonym plane = "int \<Rightarrow> u8"
type_synonym pixel = "int \<times> int"
type_synonym kernel = "pixel \<Rightarrow> (int \<times> u8) list"

section \<open>Launching a kernel\<close>

text \<open>\<open>blockIdx * blockDim + threadIdx\<close>, for all blocks of the grid and all threads of a block.\<close>

definition axis :: "nat \<Rightarrow> nat \<Rightarrow> int list" where
  "axis blocks block_size = concat (map (\<lambda>b. map (\<lambda>t. int (b * block_size + t)) [0..<block_size]) [0..<blocks])"

definition grid_threads :: "nat \<times> nat \<Rightarrow> nat \<times> nat \<Rightarrow> pixel list" where
  "grid_threads grid block = List.product (axis (fst grid) (fst block)) (axis (snd grid) (snd block))"

text \<open>As many blocks as cover a picture.\<close>

definition grid_for :: "int \<Rightarrow> int \<Rightarrow> nat \<times> nat \<Rightarrow> nat \<times> nat" where
  "grid_for width height block =
     (nat ((width + int (fst block) - 1) div int (fst block)), nat ((height + int (snd block) - 1) div int (snd block)))"

definition write_all :: "(int \<times> u8) list \<Rightarrow> plane \<Rightarrow> plane" where
  "write_all ws mem = fold (\<lambda>(a, v) m. m(a := v)) ws mem"

definition all_writes :: "kernel \<Rightarrow> pixel list \<Rightarrow> (int \<times> u8) list" where
  "all_writes k ts = concat (map k ts)"

definition executes :: "kernel \<Rightarrow> pixel list \<Rightarrow> plane \<Rightarrow> plane \<Rightarrow> bool" where
  "executes k ts mem mem' \<longleftrightarrow> (\<exists>ws. mset ws = mset (all_writes k ts) \<and> mem' = write_all ws mem)"

text \<open>The order of the grid.\<close>

definition launch :: "kernel \<Rightarrow> pixel list \<Rightarrow> plane \<Rightarrow> plane" where
  "launch k ts mem = write_all (all_writes k ts) mem"

lemma write_all_simps [simp]:
  "write_all [] mem = mem" "write_all (w # ws) mem = write_all ws (mem(fst w := snd w))"
  "write_all (us @ ws) mem = write_all ws (write_all us mem)"
  by (simp_all add: write_all_def split_def)

lemma write_all_other: "a \<notin> fst ` set ws \<Longrightarrow> write_all ws mem a = mem a"
  by (induction ws arbitrary: mem) auto

lemma write_all_at: "distinct (map fst ws) \<Longrightarrow> (a, v) \<in> set ws \<Longrightarrow> write_all ws mem a = v"
proof (induction ws arbitrary: mem)
  case (Cons w ws)
  show ?case
  proof (cases "(a, v) = w")
    case True
    then have "a \<notin> fst ` set ws" using Cons.prems(1) by (metis distinct.simps(2) fst_conv list.set_map list.simps(9))
    then show ?thesis using True by (simp add: write_all_other flip: True)
  next
    case False
    then show ?thesis using Cons by simp
  qed
qed simp

text \<open>Writes to different places can be made in any order.\<close>

lemma write_all_permuted:
  assumes "distinct (map fst ws)" "mset us = mset ws"
  shows "write_all us mem = write_all ws mem"
proof
  fix a
  have s: "set us = set ws" using assms(2) by (metis set_mset_mset)
  have "mset (map fst us) = mset (map fst ws)" using assms(2) by simp
  then have d: "distinct (map fst us)" using assms(1) by (metis mset_eq_imp_distinct_iff)
  show "write_all us mem a = write_all ws mem a"
  proof (cases "a \<in> fst ` set ws")
    case True
    then obtain v where "(a, v) \<in> set ws" by force
    then show ?thesis using write_all_at [OF assms(1)] write_all_at [OF d] s by simp
  next
    case False
    then show ?thesis using s by (simp add: write_all_other)
  qed
qed

lemma executes_iff_launch: "distinct (map fst (all_writes k ts)) \<Longrightarrow> executes k ts mem mem' \<longleftrightarrow> mem' = launch k ts mem"
  unfolding executes_def launch_def using write_all_permuted by blast

section \<open>Every pixel has one thread\<close>

lemma set_axis: "0 < bs \<Longrightarrow> set (axis n bs) = {0..<int (n * bs)}"
proof
  show "set (axis n bs) \<subseteq> {0..<int (n * bs)}"
  proof
    fix x assume "x \<in> set (axis n bs)"
    then obtain b t where x: "x = int (b * bs + t)" "b < n" "t < bs" by (auto simp: axis_def)
    have "b * bs + t < Suc b * bs" using x(3) by simp
    also have "\<dots> \<le> n * bs" using x(2) by (intro mult_le_mono1) simp
    finally show "x \<in> {0..<int (n * bs)}" unfolding x(1) by (simp only: atLeastLessThan_iff of_nat_less_iff of_nat_0_le_iff simp_thms)
  qed
  show "{0..<int (n * bs)} \<subseteq> set (axis n bs)" if "0 < bs"
  proof
    fix x assume "x \<in> {0..<int (n * bs)}"
    then have x: "nat x < n * bs" "0 \<le> x" by (auto simp: nat_less_iff)
    have in_axis: "int (b * bs + t) \<in> set (axis n bs)" if "b < n" "t < bs" for b t
      using that by (auto simp: axis_def intro!: bexI [of _ b])
    have "int (nat x div bs * bs + nat x mod bs) \<in> set (axis n bs)"
      by (rule in_axis) (use x(1) that in \<open>simp_all add: less_mult_imp_div_less\<close>)
    then show "x \<in> set (axis n bs)" using x(2) by simp
  qed
qed

lemma length_axis: "length (axis n bs) = n * bs"
  by (simp add: axis_def length_concat comp_def sum_list_triv)

lemma distinct_axis: "0 < bs \<Longrightarrow> distinct (axis n bs)"
  by (rule card_distinct) (simp add: set_axis length_axis nat_mult_distrib)

lemma distinct_grid: "0 < fst block \<Longrightarrow> 0 < snd block \<Longrightarrow> distinct (grid_threads grid block)"
  unfolding grid_threads_def by (intro distinct_product distinct_axis)

lemma div_cover: "0 < (b :: int) \<Longrightarrow> w \<le> (w + b - 1) div b * b"
  using pos_mod_bound [of b "w + b - 1"] div_mult_mod_eq [of "w + b - 1" b] by linarith

lemma grid_covers:
  assumes "0 < fst block" "0 < snd block" "0 \<le> x" "x < w" "0 \<le> y" "y < h"
  shows "(x, y) \<in> set (grid_threads (grid_for w h block) block)"
proof -
  have c: "v < int (nat ((u + int b - 1) div int b) * b)" if "0 < b" "0 \<le> v" "v < u" for u v :: int and b :: nat
  proof -
    have "u \<le> (u + int b - 1) div int b * int b" using div_cover [of "int b" u] that(1) by simp
    moreover have "0 \<le> (u + int b - 1) div int b" using that by (intro pos_imp_zdiv_nonneg_iff [THEN iffD2]) auto
    ultimately show ?thesis using that(3) by simp
  qed
  show ?thesis
    using assms c [OF assms(1,3,4)] c [OF assms(2,5,6)] by (simp add: grid_threads_def grid_for_def set_axis)
qed

lemma grid_nonnegative: "(x, y) \<in> set (grid_threads grid block) \<Longrightarrow> 0 < fst block \<Longrightarrow> 0 < snd block \<Longrightarrow> 0 \<le> x \<and> 0 \<le> y"
  by (auto simp: grid_threads_def set_axis)

text \<open>\<open>writes_row k w h pitch n f\<close>: the kernel writes \<open>n\<close> bytes side by side for each pixel of a picture, and nothing else.\<close>

definition writes_row :: "kernel \<Rightarrow> int \<Rightarrow> int \<Rightarrow> int \<Rightarrow> int \<Rightarrow> (int \<Rightarrow> pixel \<Rightarrow> u8) \<Rightarrow> bool" where
  "writes_row k w h pitch n f \<longleftrightarrow>
     (\<forall>x y. 0 \<le> x \<longrightarrow> 0 \<le> y \<longrightarrow>
       k (x, y) = (if w \<le> x \<or> h \<le> y then [] else map (\<lambda>i. (y * pitch + x * n + i, f i (x, y))) [0..n - 1]))"

lemma row_address_inj:
  fixes pitch :: int
  assumes "y * pitch + x = y' * pitch + x'" "0 \<le> x" "x < pitch" "0 \<le> x'" "x' < pitch"
  shows "y = y' \<and> x = x'"
proof -
  have "y = (y * pitch + x) div pitch" "y' = (y' * pitch + x') div pitch" using assms(2-5) by simp_all
  then have "y = y'" using assms(1) by simp
  then show ?thesis using assms(1) by simp
qed

lemma pixel_address_inj:
  fixes pitch :: int
  assumes "y * pitch + x * n + i = y' * pitch + x' * n + i'"
    and "0 \<le> x" "x < w" "0 \<le> x'" "x' < w" "0 \<le> i" "i < n" "0 \<le> i'" "i' < n" "w * n \<le> pitch"
  shows "y = y' \<and> x = x' \<and> i = i'"
proof -
  have b: "0 \<le> u * n + j \<and> u * n + j < pitch" if "0 \<le> u" "u < w" "0 \<le> j" "j < n" for u j
  proof -
    have "u * n + j < (u + 1) * n" using that(4) by (simp add: distrib_right)
    also have "\<dots> \<le> w * n" using that by (intro mult_right_mono) auto
    finally show ?thesis using that assms(10) by simp
  qed
  have "y = y' \<and> x * n + i = x' * n + i'"
    using row_address_inj [of y pitch "x * n + i" y' "x' * n + i'"] assms(1) b [of x i] b [of x' i'] assms(2-9) by (simp add: add.assoc)
  moreover from this have "x = x' \<and> i = i'" using row_address_inj [of x n i x' i'] assms(6-9) by simp
  ultimately show ?thesis by simp
qed

lemma writes_row_member:
  assumes "writes_row k w h pitch n f" "0 < fst block" "0 < snd block"
  shows "(a, v) \<in> set (all_writes k (grid_threads (grid_for w h block) block)) \<longleftrightarrow>
    (\<exists>x y i. 0 \<le> x \<and> x < w \<and> 0 \<le> y \<and> y < h \<and> 0 \<le> i \<and> i < n \<and> a = y * pitch + x * n + i \<and> v = f i (x, y))"
  (is "?l \<longleftrightarrow> ?r")
proof
  assume ?l
  then obtain x y where t: "(x, y) \<in> set (grid_threads (grid_for w h block) block)" "(a, v) \<in> set (k (x, y))"
    by (auto simp: all_writes_def)
  then have "k (x, y) = (if w \<le> x \<or> h \<le> y then [] else map (\<lambda>i. (y * pitch + x * n + i, f i (x, y))) [0..n - 1])"
    using assms grid_nonnegative [OF t(1)] by (auto simp: writes_row_def)
  then show ?r using t grid_nonnegative [OF t(1) assms(2,3)] by (fastforce split: if_splits)
next
  assume ?r
  then obtain x y i where r: "0 \<le> x" "x < w" "0 \<le> y" "y < h" "0 \<le> i" "i < n" "a = y * pitch + x * n + i" "v = f i (x, y)" by blast
  have "k (x, y) = map (\<lambda>i. (y * pitch + x * n + i, f i (x, y))) [0..n - 1]" using assms(1) r by (simp add: writes_row_def)
  then have "(a, v) \<in> set (k (x, y))" using r by auto
  then show ?l using grid_covers [OF assms(2,3) r(1-4)] by (auto simp: all_writes_def)
qed

text \<open>No two threads write to the same place when the rows of the picture do not overlap.\<close>

lemma writes_row_distinct:
  assumes "writes_row k w h pitch n f" "0 < fst block" "0 < snd block" "w * n \<le> pitch"
  shows "distinct (map fst (all_writes k (grid_threads (grid_for w h block) block)))"
proof -
  have "distinct (map fst (concat (map k ts)))" if "distinct ts" "\<forall>t\<in>set ts. 0 \<le> fst t \<and> 0 \<le> snd t" for ts
    using that
  proof (induction ts)
    case (Cons t ts)
    obtain x y where t: "t = (x, y)" "0 \<le> x" "0 \<le> y" using Cons.prems(2) by (cases t) auto
    have k: "k (u, v) = (if w \<le> u \<or> h \<le> v then [] else map (\<lambda>i. (v * pitch + u * n + i, f i (u, v))) [0..n - 1])"
      if "0 \<le> u" "0 \<le> v" for u v using assms(1) that by (simp add: writes_row_def)
    have "distinct (map fst (k t))" using t by (simp add: k comp_def distinct_map inj_on_def)
    moreover have "fst ` set (k t) \<inter> fst ` set (concat (map k ts)) = {}"
    proof (rule ccontr)
      assume "\<not> ?thesis"
      then obtain u v a where u: "(u, v) \<in> set ts" "a \<in> fst ` set (k t)" "a \<in> fst ` set (k (u, v))" by force
      then have nn: "0 \<le> u" "0 \<le> v" using Cons.prems(2) by auto
      obtain i where i: "0 \<le> i" "i < n" "a = y * pitch + x * n + i" "x < w" using u(2) t by (auto simp: k split: if_splits)
      obtain j where j: "0 \<le> j" "j < n" "a = v * pitch + u * n + j" "u < w" using u(3) nn by (auto simp: k split: if_splits)
      have "y = v \<and> x = u"
        using pixel_address_inj [of y pitch x n i v u j w] i j t nn assms(4) by auto
      then show False using u(1) t(1) Cons.prems(1) by simp
    qed
    ultimately show ?case using Cons by simp
  qed simp
  then show ?thesis unfolding all_writes_def
    using distinct_grid [OF assms(2,3)] grid_nonnegative assms(2,3) by (metis prod.collapse)
qed

text \<open>What a launch leaves in memory.\<close>

lemma writes_row_launch:
  assumes "writes_row k w h pitch n f" "0 < fst block" "0 < snd block" "w * n \<le> pitch"
    and "executes k (grid_threads (grid_for w h block) block) mem mem'"
  shows "(\<forall>x y i. 0 \<le> x \<longrightarrow> x < w \<longrightarrow> 0 \<le> y \<longrightarrow> y < h \<longrightarrow> 0 \<le> i \<longrightarrow> i < n \<longrightarrow> mem' (y * pitch + x * n + i) = f i (x, y))
    \<and> (\<forall>a. (\<forall>x y i. 0 \<le> x \<longrightarrow> x < w \<longrightarrow> 0 \<le> y \<longrightarrow> y < h \<longrightarrow> 0 \<le> i \<longrightarrow> i < n \<longrightarrow> a \<noteq> y * pitch + x * n + i) \<longrightarrow> mem' a = mem a)"
proof -
  let ?ws = "all_writes k (grid_threads (grid_for w h block) block)"
  have d: "distinct (map fst ?ws)" by (rule writes_row_distinct [OF assms(1-4)])
  then have m: "mem' = write_all ?ws mem" using assms(5) by (simp add: executes_iff_launch launch_def)
  have "mem' (y * pitch + x * n + i) = f i (x, y)" if "0 \<le> x" "x < w" "0 \<le> y" "y < h" "0 \<le> i" "i < n" for x y i
    unfolding m using that by (intro write_all_at [OF d]) (auto simp: writes_row_member [OF assms(1-3)])
  moreover have "mem' a = mem a"
    if "\<forall>x y i. 0 \<le> x \<longrightarrow> x < w \<longrightarrow> 0 \<le> y \<longrightarrow> y < h \<longrightarrow> 0 \<le> i \<longrightarrow> i < n \<longrightarrow> a \<noteq> y * pitch + x * n + i" for a
  proof -
    have "a \<notin> fst ` set ?ws"
    proof
      assume "a \<in> fst ` set ?ws"
      then obtain v where "(a, v) \<in> set ?ws" by force
      then show False using that unfolding writes_row_member [OF assms(1-3)] by blast
    qed
    then show ?thesis unfolding m by (rule write_all_other)
  qed
  ultimately show ?thesis by blast
qed

section \<open>The kernels of the converter\<close>

definition copyYKernel :: "plane \<Rightarrow> int \<Rightarrow> int \<Rightarrow> int \<Rightarrow> int \<Rightarrow> kernel" where
  "copyYKernel src_y width height src_pitch dst_pitch = (\<lambda>(x, y).
     if width \<le> x \<or> height \<le> y then [] else [(y * dst_pitch + x, src_y (y * src_pitch + x))])"

text \<open>\<open>(a + b + 1) >> 1\<close>, in unsigned arithmetic.\<close>

definition average :: "u8 \<Rightarrow> u8 \<Rightarrow> u8" where
  "average a b = ucast (drop_bit 1 (ucast a + ucast b + 1 :: u32))"

definition yuv422PlanarToNv12UvKernel :: "plane \<Rightarrow> plane \<Rightarrow> int \<Rightarrow> int \<Rightarrow> int \<Rightarrow> int \<Rightarrow> int \<Rightarrow> kernel" where
  "yuv422PlanarToNv12UvKernel src_u src_v chroma_width chroma_height src_u_pitch src_v_pitch dst_uv_pitch = (\<lambda>(x, y).
     if chroma_width \<le> x \<or> chroma_height \<le> y then []
     else (let src_y0 = y * 2; src_y1 = src_y0 + 1;
               u0 = src_u (src_y0 * src_u_pitch + x); u1 = src_u (src_y1 * src_u_pitch + x);
               v0 = src_v (src_y0 * src_v_pitch + x); v1 = src_v (src_y1 * src_v_pitch + x);
               uv = y * dst_uv_pitch + x * 2
           in [(uv + 0, average u0 u1), (uv + 1, average v0 v1)]))"

definition yuyvToNv12YKernel :: "plane \<Rightarrow> int \<Rightarrow> int \<Rightarrow> int \<Rightarrow> int \<Rightarrow> kernel" where
  "yuyvToNv12YKernel src_yuyv width height src_pitch dst_pitch = (\<lambda>(x, y).
     if width \<le> x \<or> height \<le> y then []
     else (let pair = y * src_pitch + drop_bit 1 x * 4
           in [(y * dst_pitch + x, if x AND 1 \<noteq> 0 then src_yuyv (pair + 2) else src_yuyv (pair + 0))]))"

definition yuyvToNv12UvKernel :: "plane \<Rightarrow> int \<Rightarrow> int \<Rightarrow> int \<Rightarrow> int \<Rightarrow> kernel" where
  "yuyvToNv12UvKernel src_yuyv chroma_width chroma_height src_pitch dst_uv_pitch = (\<lambda>(x, y).
     if chroma_width \<le> x \<or> chroma_height \<le> y then []
     else (let src_y0 = y * 2; src_y1 = src_y0 + 1;
               pair0 = src_y0 * src_pitch + x * 4; pair1 = src_y1 * src_pitch + x * 4;
               uv = y * dst_uv_pitch + x * 2
           in [(uv + 0, average (src_yuyv (pair0 + 1)) (src_yuyv (pair1 + 1))),
               (uv + 1, average (src_yuyv (pair0 + 3)) (src_yuyv (pair1 + 3)))]))"

text \<open>The average is the mean, rounded up.\<close>

lemma average_eq: "uint (average a b) = (uint a + uint b + 1) div 2"
proof -
  have ab: "0 \<le> uint a" "uint a < 256" "0 \<le> uint b" "uint b < 256" using uint_lt2p [of a] uint_lt2p [of b] by simp_all
  have "uint (ucast a + ucast b + 1 :: u32) = uint a + uint b + 1"
    using ab by (simp add: uint_word_ariths unsigned_ucast_eq take_bit_eq_mod)
  then have "uint (drop_bit 1 (ucast a + ucast b + 1 :: u32)) = (uint a + uint b + 1) div 2"
    by (simp add: uint_div drop_bit_eq_div)
  moreover have "(uint a + uint b + 1) div 2 < 256" using ab by linarith
  moreover have "0 \<le> (uint a + uint b + 1) div 2" using ab by simp
  ultimately show ?thesis unfolding average_def by (simp add: unsigned_ucast_eq take_bit_eq_mod)
qed

lemma average_same [simp]: "average a a = a"
  by (rule word_uint_eq_iff [THEN iffD2]) (simp add: average_eq)

text \<open>What each kernel writes.\<close>

lemma upto_0_1: "[0..0 :: int] = [0]" "[0..1 :: int] = [0, 1]"
  by (simp_all add: upto.simps)

lemma copyYKernel_row:
  "writes_row (copyYKernel src w h sp dp) w h dp 1 (\<lambda>i (x, y). src (y * sp + x))"
  by (simp add: writes_row_def copyYKernel_def upto_0_1)

lemma yuyvToNv12YKernel_row:
  "writes_row (yuyvToNv12YKernel src w h sp dp) w h dp 1 (\<lambda>i (x, y). src (y * sp + x div 2 * 4 + (if odd x then 2 else 0)))"
  by (simp add: writes_row_def yuyvToNv12YKernel_def upto_0_1 and_one_eq odd_iff_mod_2_eq_one drop_bit_eq_div Let_def)

lemma yuv422PlanarToNv12UvKernel_row:
  "writes_row (yuv422PlanarToNv12UvKernel su sv cw ch pu pv dp) cw ch dp 2
     (\<lambda>i (x, y). if i = 0 then average (su (y * 2 * pu + x)) (su ((y * 2 + 1) * pu + x))
                 else average (sv (y * 2 * pv + x)) (sv ((y * 2 + 1) * pv + x)))"
  by (simp add: writes_row_def yuv422PlanarToNv12UvKernel_def upto_0_1 Let_def)

lemma yuyvToNv12UvKernel_row:
  "writes_row (yuyvToNv12UvKernel src cw ch sp dp) cw ch dp 2
     (\<lambda>i (x, y). if i = 0 then average (src (y * 2 * sp + x * 4 + 1)) (src ((y * 2 + 1) * sp + x * 4 + 1))
                 else average (src (y * 2 * sp + x * 4 + 3)) (src ((y * 2 + 1) * sp + x * 4 + 3)))"
  by (simp add: writes_row_def yuyvToNv12UvKernel_def upto_0_1 Let_def)

lemmas converter_rows = copyYKernel_row yuyvToNv12YKernel_row yuv422PlanarToNv12UvKernel_row yuyvToNv12UvKernel_row

text \<open>The threads of a launch over a picture, in blocks of 32 by 8.\<close>

definition picture_threads :: "int \<Rightarrow> int \<Rightarrow> pixel list" where
  "picture_threads w h = grid_threads (grid_for w h (32, 8)) (32, 8)"

lemma picture_launch:
  assumes "writes_row k w h pitch n f" "w * n \<le> pitch" "executes k (picture_threads w h) mem mem'"
  shows "0 \<le> x \<Longrightarrow> x < w \<Longrightarrow> 0 \<le> y \<Longrightarrow> y < h \<Longrightarrow> 0 \<le> i \<Longrightarrow> i < n \<Longrightarrow> mem' (y * pitch + x * n + i) = f i (x, y)"
    and "(\<And>x y i. 0 \<le> x \<Longrightarrow> x < w \<Longrightarrow> 0 \<le> y \<Longrightarrow> y < h \<Longrightarrow> 0 \<le> i \<Longrightarrow> i < n \<Longrightarrow> a \<noteq> y * pitch + x * n + i) \<Longrightarrow> mem' a = mem a"
  using writes_row_launch [OF assms(1) _ _ assms(2), of "(32, 8)" mem mem'] assms(3) by (auto simp: picture_threads_def)

lemma picture_agrees:
  assumes "writes_row k w h pitch n f" "writes_row k' w h pitch n f'" "w * n \<le> pitch"
    and "executes k (picture_threads w h) mem m" "executes k' (picture_threads w h) mem m'"
    and "\<And>i x y. 0 \<le> x \<Longrightarrow> x < w \<Longrightarrow> 0 \<le> y \<Longrightarrow> y < h \<Longrightarrow> 0 \<le> i \<Longrightarrow> i < n \<Longrightarrow> f i (x, y) = f' i (x, y)"
  shows "m = m'"
proof
  fix a
  show "m a = m' a"
  proof (cases "\<exists>x y i. 0 \<le> x \<and> x < w \<and> 0 \<le> y \<and> y < h \<and> 0 \<le> i \<and> i < n \<and> a = y * pitch + x * n + i")
    case True
    then obtain x y i where r: "0 \<le> x" "x < w" "0 \<le> y" "y < h" "0 \<le> i" "i < n" "a = y * pitch + x * n + i" by blast
    show ?thesis
      using picture_launch(1) [OF assms(1,3,4) r(1-6)] picture_launch(1) [OF assms(2,3,5) r(1-6)] assms(6) [OF r(1-6)] r(7) by simp
  next
    case False
    then show ?thesis
      using picture_launch(2) [OF assms(1,3,4)] picture_launch(2) [OF assms(2,3,5)] by (metis (no_types, lifting))
  qed
qed

text \<open>However the GPU orders the threads of the two launches, a packed frame becomes the same NV12 picture: every pixel
  of the Y plane is its luma, every pair of the UV plane the mean, rounded up, of the chroma of its two rows, and no
  byte outside the picture is written.\<close>

theorem packed_conversion_any_order:
  assumes "executes (yuyvToNv12YKernel src w h sp dyp) (picture_threads w h) my my'"
    and "executes (yuyvToNv12UvKernel src (w div 2) (h div 2) sp duvp) (picture_threads (w div 2) (h div 2)) muv muv'"
    and "w \<le> dyp" "w div 2 * 2 \<le> duvp"
  shows "(\<forall>x y. 0 \<le> x \<and> x < w \<and> 0 \<le> y \<and> y < h
      \<longrightarrow> my' (y * dyp + x) = src (y * sp + x div 2 * 4 + (if odd x then 2 else 0)))
    \<and> (\<forall>x y. 0 \<le> x \<and> x < w div 2 \<and> 0 \<le> y \<and> y < h div 2
      \<longrightarrow> uint (muv' (y * duvp + x * 2)) = (uint (src (2 * y * sp + x * 4 + 1)) + uint (src ((2 * y + 1) * sp + x * 4 + 1)) + 1) div 2
        \<and> uint (muv' (y * duvp + x * 2 + 1)) = (uint (src (2 * y * sp + x * 4 + 3)) + uint (src ((2 * y + 1) * sp + x * 4 + 3)) + 1) div 2)
    \<and> (\<forall>a. (\<forall>x y. 0 \<le> x \<and> x < w \<and> 0 \<le> y \<and> y < h \<longrightarrow> a \<noteq> y * dyp + x) \<longrightarrow> my' a = my a)
    \<and> (\<forall>a. (\<forall>x y. 0 \<le> x \<and> x < w div 2 * 2 \<and> 0 \<le> y \<and> y < h div 2 \<longrightarrow> a \<noteq> y * duvp + x) \<longrightarrow> muv' a = muv a)"
proof (intro conjI)
  note Y = picture_launch [OF yuyvToNv12YKernel_row _ assms(1), simplified] and UV = picture_launch [OF yuyvToNv12UvKernel_row assms(4,2)]
  show "\<forall>x y. 0 \<le> x \<and> x < w \<and> 0 \<le> y \<and> y < h
      \<longrightarrow> my' (y * dyp + x) = src (y * sp + x div 2 * 4 + (if odd x then 2 else 0))"
    using Y(1) [OF assms(3), of _ _ 0] by simp
  show "\<forall>x y. 0 \<le> x \<and> x < w div 2 \<and> 0 \<le> y \<and> y < h div 2
      \<longrightarrow> uint (muv' (y * duvp + x * 2)) = (uint (src (2 * y * sp + x * 4 + 1)) + uint (src ((2 * y + 1) * sp + x * 4 + 1)) + 1) div 2
        \<and> uint (muv' (y * duvp + x * 2 + 1)) = (uint (src (2 * y * sp + x * 4 + 3)) + uint (src ((2 * y + 1) * sp + x * 4 + 3)) + 1) div 2"
    using UV(1) [of _ _ 0] UV(1) [of _ _ 1] by (simp add: average_eq mult.commute)
  show "\<forall>a. (\<forall>x y. 0 \<le> x \<and> x < w \<and> 0 \<le> y \<and> y < h \<longrightarrow> a \<noteq> y * dyp + x) \<longrightarrow> my' a = my a"
    using Y(2) [OF assms(3)] by (smt (verit))
  show "\<forall>a. (\<forall>x y. 0 \<le> x \<and> x < w div 2 * 2 \<and> 0 \<le> y \<and> y < h div 2 \<longrightarrow> a \<noteq> y * duvp + x) \<longrightarrow> muv' a = muv a"
  proof (intro allI impI)
    fix a assume a: "\<forall>x y. 0 \<le> x \<and> x < w div 2 * 2 \<and> 0 \<le> y \<and> y < h div 2 \<longrightarrow> a \<noteq> y * duvp + x"
    show "muv' a = muv a"
    proof (rule UV(2))
      fix x y i :: int assume "0 \<le> x" "x < w div 2" "0 \<le> y" "y < h div 2" "0 \<le> i" "i < 2"
      then show "a \<noteq> y * duvp + x * 2 + i" using a [rule_format, of "x * 2 + i" y] by simp
    qed
  qed
qed

text \<open>A planar frame that shows the same picture as a packed one is converted to the same NV12 planes, whatever the
  order of the threads in the four launches.\<close>

theorem packed_and_planar_agree:
  assumes "executes (yuyvToNv12YKernel src w h sp dyp) (picture_threads w h) my my1"
    and "executes (yuyvToNv12UvKernel src (w div 2) (h div 2) sp duvp) (picture_threads (w div 2) (h div 2)) muv muv1"
    and "executes (copyYKernel src_y w h yp dyp) (picture_threads w h) my my2"
    and "executes (yuv422PlanarToNv12UvKernel src_u src_v (w div 2) (h div 2) up vp duvp) (picture_threads (w div 2) (h div 2)) muv muv2"
    and "w \<le> dyp" "w div 2 * 2 \<le> duvp"
    and same: "\<And>x y. 0 \<le> x \<Longrightarrow> x < w \<Longrightarrow> 0 \<le> y \<Longrightarrow> y < h
        \<Longrightarrow> src_y (y * yp + x) = src (y * sp + x div 2 * 4 + (if odd x then 2 else 0))"
      "\<And>x y. 0 \<le> x \<Longrightarrow> x < w div 2 \<Longrightarrow> 0 \<le> y \<Longrightarrow> y < h
        \<Longrightarrow> src_u (y * up + x) = src (y * sp + x * 4 + 1) \<and> src_v (y * vp + x) = src (y * sp + x * 4 + 3)"
  shows "my1 = my2 \<and> muv1 = muv2"
proof
  show "my1 = my2"
    by (rule picture_agrees [OF yuyvToNv12YKernel_row copyYKernel_row _ assms(1,3)]) (use assms(5) same(1) in auto)
  show "muv1 = muv2"
    by (rule picture_agrees [OF yuyvToNv12UvKernel_row yuv422PlanarToNv12UvKernel_row assms(6,2,4)]) (use same(2) in auto)
qed

section \<open>A frame of two by two pixels\<close>

definition packed0 :: plane where
  "packed0 a = (if 0 \<le> a \<and> a < 8 then [10, 100, 20, 200, 30, 103, 40, 201] ! nat a else 0)"

lemma executes_launch: "executes k ts mem (launch k ts mem)"
  unfolding executes_def launch_def by blast

theorem packed_conversion_any_order_witness:
  "launch (yuyvToNv12YKernel packed0 2 2 4 2) (picture_threads 2 2) (\<lambda>_. 0) 3 = 40
   \<and> uint (launch (yuyvToNv12UvKernel packed0 (2 div 2) (2 div 2) 4 2) (picture_threads (2 div 2) (2 div 2)) (\<lambda>_. 0) 0) = 102
   \<and> launch (yuyvToNv12YKernel packed0 2 2 4 2) (picture_threads 2 2) (\<lambda>_. 0) 4 = 0"
proof -
  note C = packed_conversion_any_order [where src = packed0 and w = 2 and h = 2 and sp = 4 and dyp = 2 and duvp = 2,
      OF executes_launch executes_launch, of "\<lambda>_. 0" "\<lambda>_. 0"]
  show ?thesis
    using C [THEN conjunct1, rule_format, of 1 1] C [THEN conjunct2, THEN conjunct1, rule_format, of 0 0]
      C [THEN conjunct2, THEN conjunct2, THEN conjunct1, rule_format, of 4]
    by (simp add: packed0_def)
qed

theorem packed_and_planar_agree_witness:
  "launch (yuyvToNv12UvKernel packed0 (2 div 2) (2 div 2) 4 2) (picture_threads (2 div 2) (2 div 2)) (\<lambda>_. 0)
   = launch (yuv422PlanarToNv12UvKernel (\<lambda>a. packed0 (a * 4 + 1)) (\<lambda>a. packed0 (a * 4 + 3)) (2 div 2) (2 div 2) 1 1 2)
       (picture_threads (2 div 2) (2 div 2)) (\<lambda>_. 0)"
  by (rule packed_and_planar_agree [where src = packed0 and w = 2 and h = 2 and sp = 4 and dyp = 2 and duvp = 2 and up = 1 and vp = 1
        and yp = 2 and src_y = "\<lambda>a. packed0 (a div 2 * 4 + (if odd a then 2 else 0))"
        and src_u = "\<lambda>a. packed0 (a * 4 + 1)" and src_v = "\<lambda>a. packed0 (a * 4 + 3)" and my = "\<lambda>_. 0" and muv = "\<lambda>_. 0",
        OF executes_launch executes_launch executes_launch executes_launch, THEN conjunct2])
    auto

end
