(* ===== verification/GpuSurfaces.thy ===== *)
theory GpuSurfaces
  imports GpuKernels Ledgers
begin

text \<open>
  What the three CUDA sources have in common (\<open>src/src/video/cuda_yuv422_converter.cu\<close>, \<open>cuda_nv12_undistorter.cu\<close> and
  \<open>cuda_eye_image_processor.cu\<close> each declare it): surfaces, the report of a call, the mapping of a surface into CUDA, and
  the list of output surfaces that stay mapped. What EGL and CUDA answer are arguments; a pointer is a number. The
  calls that take or give back something of the driver are listed by every operation.
\<close>

section \<open>Surfaces and reports\<close>

datatype ColorFormat = ColorInvalid | ColorNV12 | ColorYUV422 | ColorYUYV | ColorOther u32

record PlaneParams =
  num_planes :: u32
  plane_width :: "nat \<Rightarrow> u32"
  plane_height :: "nat \<Rightarrow> u32"
  plane_pitch :: "nat \<Rightarrow> u32"

text \<open>\<open>NvBufSurface\<close> with its first entry; \<open>surf_ptr\<close> is its address.\<close>

record NvBufSurface =
  surf_ptr :: nat
  numFilled :: u32
  bufferDesc :: int
  pitch_layout :: bool
  colorFormat :: ColorFormat
  planeParams :: PlaneParams

text \<open>The report a caller may ask for; the last three fields are those of the undistorter and the eye images. A caller that
  does not ask passes a null pointer, and the report is dropped.\<close>

record CudaResult =
  res_ok :: bool
  error_code :: int
  error_stage :: string
  src_frame_type :: u32
  dst_frame_type :: u32
  src_color_format :: ColorFormat
  dst_color_format :: ColorFormat
  src_plane_count :: u32
  dst_plane_count :: u32
  map_us :: int
  kernel_us :: int
  sync_us :: int

definition CudaResult_init :: CudaResult where
  "CudaResult_init = \<lparr>res_ok = False, error_code = 0, error_stage = [], src_frame_type = 0, dst_frame_type = 0,
     src_color_format = ColorInvalid, dst_color_format = ColorInvalid, src_plane_count = 0, dst_plane_count = 0,
     map_us = 0, kernel_us = 0, sync_us = 0\<rparr>"

definition setFailure :: "string \<Rightarrow> int \<Rightarrow> CudaResult \<Rightarrow> CudaResult" where
  "setFailure stage code r = r\<lparr>res_ok := False, error_stage := stage, error_code := code\<rparr>"

definition fillSurfaceInfo :: "NvBufSurface option \<Rightarrow> NvBufSurface option \<Rightarrow> CudaResult \<Rightarrow> CudaResult" where
  "fillSurfaceInfo src dst r =
     (let r1 = (case src of
                  Some s \<Rightarrow> if 0 < numFilled s then r\<lparr>src_color_format := colorFormat s, src_plane_count := num_planes (planeParams s)\<rparr> else r
                | None \<Rightarrow> r)
      in (case dst of
            Some d \<Rightarrow> if 0 < numFilled d then r1\<lparr>dst_color_format := colorFormat d, dst_plane_count := num_planes (planeParams d)\<rparr> else r1
          | None \<Rightarrow> r1))"

section \<open>Mapping a surface\<close>

definition CU_EGL_FRAME_TYPE_PITCH :: u32 where "CU_EGL_FRAME_TYPE_PITCH = 1"

record EglFrame =
  frameType :: u32
  planeCount :: u32
  pPitch :: "nat \<Rightarrow> nat option"

record MappedEglFrame =
  mf_surface :: "nat option"
  mf_fd :: int
  mf_resource :: "nat option"
  mf_frame :: EglFrame
  mf_valid :: bool

definition MappedEglFrame_init :: MappedEglFrame where
  "MappedEglFrame_init = \<lparr>mf_surface = None, mf_fd = - 1, mf_resource = None,
     mf_frame = \<lparr>frameType = 0, planeCount = 0, pPitch = (\<lambda>_. None)\<rparr>, mf_valid = False\<rparr>"

datatype gpu_call =
    MappedImage nat | UnmappedImage nat
  | Registered nat | Unregistered nat
  | StreamCreated nat | StreamDestroyed nat
  | EventCreated nat | EventDestroyed nat
  | DeviceAllocated nat | DeviceFreed nat
  | HostAllocated nat | HostFreed nat

text \<open>The answers while a surface is mapped: an error code on the left, what was asked for on the right.\<close>

record egl_answer =
  ea_map :: bool
  ea_image :: bool
  ea_register :: "int + nat"
  ea_frame :: "int + EglFrame"

definition resetMappedFrame :: "MappedEglFrame \<Rightarrow> gpu_call list \<times> MappedEglFrame" where
  "resetMappedFrame m =
     ((case mf_resource m of None \<Rightarrow> [] | Some r \<Rightarrow> [Unregistered r]) @
      (case mf_surface m of None \<Rightarrow> [] | Some s \<Rightarrow> [UnmappedImage s]), MappedEglFrame_init)"

definition mapEglFrame ::
  "egl_answer \<Rightarrow> string \<Rightarrow> NvBufSurface option \<Rightarrow> MappedEglFrame \<Rightarrow> CudaResult
    \<Rightarrow> bool \<times> gpu_call list \<times> MappedEglFrame \<times> CudaResult" where
  "mapEglFrame a stage surface m r =
     (case surface of
        None \<Rightarrow> (False, [], m, setFailure stage (- 1) r)
      | Some s \<Rightarrow>
          if numFilled s = 0 then (False, [], m, setFailure stage (- 1) r)
          else (let fd = bufferDesc s
                in if mf_valid m \<and> mf_surface m = Some (surf_ptr s) \<and> mf_fd m = fd then (True, [], m, r)
                   else (let (calls, m0) = resetMappedFrame m; calls1 = calls @ [MappedImage (surf_ptr s)]
                         in if \<not> ea_map a then (False, calls, m0, setFailure stage (- 2) r)
                            else if \<not> ea_image a then (False, calls1 @ [UnmappedImage (surf_ptr s)], m0, setFailure stage (- 3) r)
                            else (case ea_register a of
                                    Inl err \<Rightarrow> (False, calls1 @ [UnmappedImage (surf_ptr s)], m0, setFailure stage err r)
                                  | Inr resource \<Rightarrow>
                                      (case ea_frame a of
                                         Inl err \<Rightarrow> (False, calls1 @ [Registered resource, Unregistered resource, UnmappedImage (surf_ptr s)],
                                                     m0, setFailure stage err r)
                                       | Inr frame \<Rightarrow> (True, calls1 @ [Registered resource],
                                           \<lparr>mf_surface = Some (surf_ptr s), mf_fd = fd, mf_resource = Some resource, mf_frame = frame,
                                            mf_valid = True\<rparr>, r))))))"

text \<open>\<open>cudaFree(nullptr)\<close> makes the context; \<open>ret\<close> is its answer, 0 for success.\<close>

definition ensureCudaContext :: "int \<Rightarrow> bool \<Rightarrow> CudaResult \<Rightarrow> bool \<times> bool \<times> CudaResult" where
  "ensureCudaContext ret initialized r =
     (if initialized then (True, True, r)
      else if ret \<noteq> 0 then (False, initialized, setFailure ''init-cuda'' ret r)
      else (True, True, r))"

definition validateOutputSurface :: "NvBufSurface option \<Rightarrow> CudaResult \<Rightarrow> bool \<times> CudaResult" where
  "validateOutputSurface dst r =
     (case dst of
        None \<Rightarrow> (False, setFailure ''validate-output'' (- 1) r)
      | Some d \<Rightarrow>
          if numFilled d = 0 then (False, setFailure ''validate-output'' (- 1) r)
          else (let r1 = fillSurfaceInfo None dst r
                in if \<not> pitch_layout d \<or> colorFormat d \<noteq> ColorNV12 \<or> num_planes (planeParams d) < 2
                   then (False, setFailure ''validate-output'' (- 2) r1) else (True, r1)))"

section \<open>The list of outputs\<close>

definition findOutput :: "MappedEglFrame list \<Rightarrow> NvBufSurface option \<Rightarrow> MappedEglFrame option" where
  "findOutput outputs surface =
     (case surface of
        None \<Rightarrow> None
      | Some s \<Rightarrow> if numFilled s = 0 then None
                  else find (\<lambda>m. mf_valid m \<and> mf_surface m = Some (surf_ptr s) \<and> mf_fd m = bufferDesc s) outputs)"

definition nv12_frame :: "EglFrame \<Rightarrow> bool" where
  "nv12_frame f \<longleftrightarrow> frameType f = CU_EGL_FRAME_TYPE_PITCH \<and> 2 \<le> planeCount f \<and> pPitch f 0 \<noteq> None \<and> pPitch f 1 \<noteq> None"

text \<open>The end of \<open>prepareOutput\<close>: a surface that is not in the list is mapped and, when its planes can be used, kept.\<close>

definition add_output ::
  "egl_answer \<Rightarrow> NvBufSurface option \<Rightarrow> MappedEglFrame list \<Rightarrow> CudaResult
    \<Rightarrow> bool \<times> gpu_call list \<times> MappedEglFrame list \<times> CudaResult" where
  "add_output a dst outputs r =
     (if findOutput outputs dst \<noteq> None then (True, [], outputs, r)
      else (let (mapped_ok, calls, mapped, r1) = mapEglFrame a ''map-dst-egl'' dst MappedEglFrame_init r
            in if \<not> mapped_ok then (False, calls, outputs, r1)
               else if \<not> nv12_frame (mf_frame mapped)
               then (False, calls @ fst (resetMappedFrame mapped), outputs,
                     setFailure ''validate-dst-egl-frame'' (- 4) (r1\<lparr>dst_frame_type := frameType (mf_frame mapped)\<rparr>))
               else (True, calls, outputs @ [mapped], r1)))"

section \<open>What is taken and given back\<close>

datatype gpu_resource = EglImage nat | Registration nat | Stream nat | Event nat | DeviceMemory nat | HostMemory nat

fun gpu_acquired :: "gpu_call \<Rightarrow> gpu_resource multiset" where
  "gpu_acquired (MappedImage s) = {#EglImage s#}"
| "gpu_acquired (Registered r) = {#Registration r#}"
| "gpu_acquired (StreamCreated s) = {#Stream s#}"
| "gpu_acquired (EventCreated e) = {#Event e#}"
| "gpu_acquired (DeviceAllocated p) = {#DeviceMemory p#}"
| "gpu_acquired (HostAllocated p) = {#HostMemory p#}"
| "gpu_acquired _ = {#}"

fun gpu_released :: "gpu_call \<Rightarrow> gpu_resource multiset" where
  "gpu_released (UnmappedImage s) = {#EglImage s#}"
| "gpu_released (Unregistered r) = {#Registration r#}"
| "gpu_released (StreamDestroyed s) = {#Stream s#}"
| "gpu_released (EventDestroyed e) = {#Event e#}"
| "gpu_released (DeviceFreed p) = {#DeviceMemory p#}"
| "gpu_released (HostFreed p) = {#HostMemory p#}"
| "gpu_released _ = {#}"

definition opt_mset :: "('a \<Rightarrow> 'r) \<Rightarrow> 'a option \<Rightarrow> 'r multiset" where
  "opt_mset f v = (case v of None \<Rightarrow> {#} | Some x \<Rightarrow> {#f x#})"

lemma opt_mset_simps [simp]: "opt_mset f None = {#}" "opt_mset f (Some x) = {#f x#}"
  by (simp_all add: opt_mset_def)

definition frame_held :: "MappedEglFrame \<Rightarrow> gpu_resource multiset" where
  "frame_held m = opt_mset EglImage (mf_surface m) + opt_mset Registration (mf_resource m)"

definition outputs_held :: "MappedEglFrame list \<Rightarrow> gpu_resource multiset" where
  "outputs_held outputs = sum_list (map frame_held outputs)"

lemma outputs_held_simps [simp]:
  "outputs_held [] = {#}" "outputs_held (m # ms) = frame_held m + outputs_held ms" "outputs_held (ms @ ns) = outputs_held ms + outputs_held ns"
  by (simp_all add: outputs_held_def)

abbreviation gpu_balanced :: "('s \<Rightarrow> gpu_resource multiset) \<Rightarrow> 's \<Rightarrow> gpu_call list \<Rightarrow> 's \<Rightarrow> bool" where
  "gpu_balanced \<equiv> balanced gpu_acquired gpu_released"

lemma frame_held_init [simp]: "frame_held MappedEglFrame_init = {#}"
  by (simp add: frame_held_def MappedEglFrame_init_def)

lemma resetMappedFrame_balanced:
  assumes "resetMappedFrame m = (calls, m')"
  shows "gpu_balanced frame_held m calls m' \<and> m' = MappedEglFrame_init"
  using assms by (auto simp: resetMappedFrame_def balanced_def frame_held_def MappedEglFrame_init_def opt_mset_def split: option.split)

lemma mapEglFrame_balanced:
  assumes "mapEglFrame a stage surface m r = (ok, calls, m', r')"
  shows "gpu_balanced frame_held m calls m'"
proof -
  obtain t m0 where 0: "resetMappedFrame m = (t, m0)" by fastforce
  have b: "frame_held m + total gpu_acquired t = total gpu_released t" "m0 = MappedEglFrame_init"
    using resetMappedFrame_balanced [OF 0] by (simp_all add: balanced_def)
  show ?thesis
    using assms 0 b by (auto simp: mapEglFrame_def Let_def balanced_def frame_held_def MappedEglFrame_init_def
        split: option.splits if_splits sum.splits)
qed

lemma mapEglFrame_failed:
  "mapEglFrame a stage surface MappedEglFrame_init r = (False, calls, m', r') \<Longrightarrow> m' = MappedEglFrame_init"
  by (auto simp: mapEglFrame_def resetMappedFrame_def Let_def split: option.splits if_splits sum.splits)

lemma add_output_balanced:
  assumes "add_output a dst outputs r = (ok, calls, outputs', r')"
  shows "gpu_balanced outputs_held outputs calls outputs'"
proof -
  obtain mo t1 m1 r1 where 1: "mapEglFrame a ''map-dst-egl'' dst MappedEglFrame_init r = (mo, t1, m1, r1)" by (metis prod_cases4)
  obtain t2 m2 where 2: "resetMappedFrame m1 = (t2, m2)" by fastforce
  have b1: "gpu_balanced frame_held MappedEglFrame_init t1 m1" by (rule mapEglFrame_balanced [OF 1])
  have b2: "gpu_balanced frame_held MappedEglFrame_init (t1 @ t2) MappedEglFrame_init"
    using balanced_trans [OF b1] resetMappedFrame_balanced [OF 2] by blast
  have f: "\<not> mo \<Longrightarrow> m1 = MappedEglFrame_init" using mapEglFrame_failed [of a "''map-dst-egl''" dst r t1 m1 r1] 1 by simp
  show ?thesis using assms 1 2 b1 b2 f
    by (auto simp: add_output_def balanced_def split: if_splits)
qed

text \<open>Outputs that are mapped are valid, one for each surface.\<close>

definition outputs_ok :: "MappedEglFrame list \<Rightarrow> bool" where
  "outputs_ok outputs \<longleftrightarrow> (\<forall>m\<in>set outputs. mf_valid m \<and> mf_surface m \<noteq> None \<and> mf_resource m \<noteq> None \<and> nv12_frame (mf_frame m))
     \<and> distinct (map (\<lambda>m. (mf_surface m, mf_fd m)) outputs)"

lemma mapEglFrame_mapped:
  assumes "mapEglFrame a stage surface MappedEglFrame_init r = (True, calls, m, r')"
  obtains s resource frame where "surface = Some s" "numFilled s \<noteq> 0" "ea_frame a = Inr frame"
    "m = \<lparr>mf_surface = Some (surf_ptr s), mf_fd = bufferDesc s, mf_resource = Some resource, mf_frame = frame, mf_valid = True\<rparr>" "r' = r"
  using assms by (auto simp: mapEglFrame_def resetMappedFrame_def MappedEglFrame_init_def Let_def split: option.splits if_splits sum.splits)

lemma findOutput_None:
  assumes "findOutput outputs (Some s) = None" "numFilled s \<noteq> 0" "outputs_ok outputs"
  shows "(Some (surf_ptr s), bufferDesc s) \<notin> (\<lambda>m. (mf_surface m, mf_fd m)) ` set outputs"
  using assms by (auto simp: findOutput_def find_None_iff outputs_ok_def)

lemma add_output_ok:
  assumes "add_output a dst outputs r = (ok, calls, outputs', r')" "outputs_ok outputs"
  shows "outputs_ok outputs'"
proof -
  obtain mo t1 m1 r1 where 1: "mapEglFrame a ''map-dst-egl'' dst MappedEglFrame_init r = (mo, t1, m1, r1)" by (metis prod_cases4)
  show ?thesis
  proof (cases "findOutput outputs dst = None \<and> mo \<and> nv12_frame (mf_frame m1)")
    case False
    then show ?thesis using assms 1 by (auto simp: add_output_def split: if_splits)
  next
    case True
    then have o: "outputs' = outputs @ [m1]" using assms 1 by (simp add: add_output_def)
    obtain s resource frame where m: "dst = Some s" "numFilled s \<noteq> 0"
        "m1 = \<lparr>mf_surface = Some (surf_ptr s), mf_fd = bufferDesc s, mf_resource = Some resource, mf_frame = frame, mf_valid = True\<rparr>"
      using mapEglFrame_mapped [of a "''map-dst-egl''" dst r t1 m1 r1] 1 True by metis
    have "(Some (surf_ptr s), bufferDesc s) \<notin> (\<lambda>m. (mf_surface m, mf_fd m)) ` set outputs"
      using findOutput_None [OF _ m(2) assms(2)] True m(1) by simp
    then show ?thesis using assms(2) True unfolding o by (simp add: outputs_ok_def m(3))
  qed
qed

end
