(* ===== verification/GpuConverter.thy ===== *)
theory GpuConverter
  imports GpuSurfaces
begin

text \<open>
  \<open>CudaYuv422Converter\<close> of \<open>src/src/video/cuda_yuv422_converter.cu\<close>: which surfaces are accepted, the session with CUDA, and
  the launch of the kernels of \<open>GpuKernels\<close>. The memory of the device is a plane for every pointer. The GPU is an
  argument: it turns a kernel, its threads and the plane it writes into the plane afterwards (\<open>gpu_ok\<close>: in some order).
\<close>

section \<open>What is accepted\<close>

datatype SourceFormat = kPlanarYuv422 | kPackedYuyv

definition validateSurfacePair ::
  "NvBufSurface option \<Rightarrow> NvBufSurface option \<Rightarrow> SourceFormat \<Rightarrow> CudaResult \<Rightarrow> bool \<times> SourceFormat \<times> CudaResult" where
  "validateSurfacePair src dst source_format r =
     (case (src, dst) of
        (Some s, Some d) \<Rightarrow>
          if numFilled s = 0 \<or> numFilled d = 0 then (False, source_format, setFailure ''validate-surface'' (- 1) r)
          else (let r1 = fillSurfaceInfo src dst r; src_pp = planeParams s; dst_pp = planeParams d;
                    planar_yuv422 = (colorFormat s = ColorYUV422 \<and> 3 \<le> num_planes src_pp);
                    packed_yuyv = (colorFormat s = ColorYUYV \<and> 1 \<le> num_planes src_pp)
                in if \<not> pitch_layout s \<or> \<not> pitch_layout d \<or> \<not> planar_yuv422 \<and> \<not> packed_yuyv \<or> colorFormat d \<noteq> ColorNV12
                      \<or> num_planes dst_pp < 2 \<or> plane_width src_pp 0 \<noteq> plane_width dst_pp 0 \<or> plane_height src_pp 0 \<noteq> plane_height dst_pp 0
                      \<or> plane_width src_pp 0 AND 1 \<noteq> 0 \<or> plane_height src_pp 0 < 2 \<or> plane_height src_pp 0 AND 1 \<noteq> 0
                   then (False, source_format, setFailure ''validate-format'' (- 2) r1)
                   else (True, if packed_yuyv then kPackedYuyv else kPlanarYuv422, r1))
      | _ \<Rightarrow> (False, source_format, setFailure ''validate-surface'' (- 1) r))"

definition validateMappedFrames ::
  "MappedEglFrame \<Rightarrow> MappedEglFrame \<Rightarrow> SourceFormat \<Rightarrow> CudaResult \<Rightarrow> bool \<times> CudaResult" where
  "validateMappedFrames src dst source_format r =
     (let r1 = r\<lparr>src_frame_type := frameType (mf_frame src), dst_frame_type := frameType (mf_frame dst)\<rparr>;
          expected_src_planes = (if source_format = kPackedYuyv then 1 else 3)
      in if frameType (mf_frame src) \<noteq> CU_EGL_FRAME_TYPE_PITCH \<or> frameType (mf_frame dst) \<noteq> CU_EGL_FRAME_TYPE_PITCH
            \<or> planeCount (mf_frame src) < expected_src_planes \<or> planeCount (mf_frame dst) < 2
            \<or> pPitch (mf_frame src) 0 = None
            \<or> source_format = kPlanarYuv422 \<and> (pPitch (mf_frame src) 1 = None \<or> pPitch (mf_frame src) 2 = None)
            \<or> pPitch (mf_frame dst) 0 = None \<or> pPitch (mf_frame dst) 1 = None
         then (False, setFailure ''validate-egl-frame'' (- 4) r1) else (True, r1))"

section \<open>The launch\<close>

type_synonym gpu = "kernel \<Rightarrow> pixel list \<Rightarrow> plane \<Rightarrow> plane"
type_synonym gpu_memory = "nat \<Rightarrow> plane"

definition gpu_ok :: "gpu \<Rightarrow> bool" where
  "gpu_ok gpu \<longleftrightarrow> (\<forall>k ts m. executes k ts m (gpu k ts m))"

text \<open>A kernel that writes to the plane at a pointer.\<close>

definition gpu_launch :: "gpu \<Rightarrow> kernel \<Rightarrow> pixel list \<Rightarrow> nat \<Rightarrow> gpu_memory \<Rightarrow> gpu_memory" where
  "gpu_launch gpu k ts p mem = mem(p := gpu k ts (mem p))"

text \<open>The answers of \<open>cudaGetLastError\<close>, \<open>cudaEventRecord\<close> and \<open>cudaEventSynchronize\<close>, 0 for success.\<close>

record launch_answer =
  la_error :: int
  la_record :: int
  la_sync :: int

definition launchConversion ::
  "gpu \<Rightarrow> launch_answer \<Rightarrow> NvBufSurface \<Rightarrow> NvBufSurface \<Rightarrow> MappedEglFrame \<Rightarrow> MappedEglFrame \<Rightarrow> SourceFormat
    \<Rightarrow> gpu_memory \<Rightarrow> CudaResult \<Rightarrow> bool \<times> gpu_memory \<times> CudaResult" where
  "launchConversion gpu a src dst src_frame dst_frame source_format mem r =
     (let src_pp = planeParams src; dst_pp = planeParams dst;
          width = sint (plane_width src_pp 0); height = sint (plane_height src_pp 0);
          chroma_width = (if source_format = kPackedYuyv then width div 2 else sint (plane_width src_pp 1));
          chroma_height = height div 2;
          sp = (\<lambda>i. the (pPitch (mf_frame src_frame) i)); dp = (\<lambda>i. the (pPitch (mf_frame dst_frame) i));
          y_kernel = (if source_format = kPackedYuyv
                      then yuyvToNv12YKernel (mem (sp 0)) width height (sint (plane_pitch src_pp 0)) (sint (plane_pitch dst_pp 0))
                      else copyYKernel (mem (sp 0)) width height (sint (plane_pitch src_pp 0)) (sint (plane_pitch dst_pp 0)));
          mem1 = gpu_launch gpu y_kernel (picture_threads width height) (dp 0) mem;
          uv_kernel = (if source_format = kPackedYuyv
                       then yuyvToNv12UvKernel (mem1 (sp 0)) chroma_width chroma_height (sint (plane_pitch src_pp 0)) (sint (plane_pitch dst_pp 1))
                       else yuv422PlanarToNv12UvKernel (mem1 (sp 1)) (mem1 (sp 2)) chroma_width chroma_height
                              (sint (plane_pitch src_pp 1)) (sint (plane_pitch src_pp 2)) (sint (plane_pitch dst_pp 1)));
          mem2 = gpu_launch gpu uv_kernel (picture_threads chroma_width chroma_height) (dp 1) mem1
      in if la_error a \<noteq> 0 then (False, mem2, setFailure ''launch-kernel'' (la_error a) r)
         else (let cuda_ret = (if la_record a = 0 then la_sync a else la_record a)
               in if cuda_ret \<noteq> 0 then (False, mem2, setFailure ''sync-kernel'' cuda_ret r)
                  else (True, mem2, r\<lparr>res_ok := True\<rparr>)))"

section \<open>The session\<close>

record CudaConverter =
  cc_initialized :: bool
  cc_stream :: "nat option"
  cc_event :: "nat option"
  cc_outputs :: "MappedEglFrame list"

definition CudaConverter_init :: CudaConverter where
  "CudaConverter_init = \<lparr>cc_initialized = False, cc_stream = None, cc_event = None, cc_outputs = []\<rparr>"

text \<open>The answers of the driver while an output is prepared.\<close>

record prepare_answer =
  pr_context :: int
  pr_stream :: "int + nat"
  pr_event :: "int + nat"
  pr_egl :: egl_answer

definition ensureStream :: "prepare_answer \<Rightarrow> CudaConverter \<Rightarrow> CudaResult \<Rightarrow> bool \<times> gpu_call list \<times> CudaConverter \<times> CudaResult" where
  "ensureStream a c r =
     (if cc_stream c \<noteq> None \<and> cc_event c \<noteq> None then (True, [], c, r)
      else (case pr_stream a of
              Inl err \<Rightarrow> (False, [], c\<lparr>cc_stream := None\<rparr>, setFailure ''create-stream'' err r)
            | Inr stream \<Rightarrow>
                (case pr_event a of
                   Inl err \<Rightarrow> (False, [StreamCreated stream, StreamDestroyed stream], c\<lparr>cc_stream := None, cc_event := None\<rparr>,
                              setFailure ''create-event'' err r)
                 | Inr event \<Rightarrow> (True, [StreamCreated stream, EventCreated event],
                              c\<lparr>cc_stream := Some stream, cc_event := Some event\<rparr>, r))))"

definition converter_prepareOutput ::
  "prepare_answer \<Rightarrow> NvBufSurface option \<Rightarrow> CudaConverter \<Rightarrow> CudaResult \<Rightarrow> bool \<times> gpu_call list \<times> CudaConverter \<times> CudaResult" where
  "converter_prepareOutput a dst c r =
     (let (valid, r1) = validateOutputSurface dst r
      in if \<not> valid then (False, [], c, r1)
         else (let (context_ok, initialized, r2) = ensureCudaContext (pr_context a) (cc_initialized c) r1;
                   c1 = c\<lparr>cc_initialized := initialized\<rparr>
               in if \<not> context_ok then (False, [], c1, r2)
                  else (let (stream_ok, calls1, c2, r3) = ensureStream a c1 r2
                        in if \<not> stream_ok then (False, calls1, c2, r3)
                           else (let (ok, calls2, outputs, r4) = add_output (pr_egl a) dst (cc_outputs c2) r3
                                 in (ok, calls1 @ calls2, c2\<lparr>cc_outputs := outputs\<rparr>, r4)))))"

definition converter_convert ::
  "gpu \<Rightarrow> prepare_answer \<Rightarrow> egl_answer \<Rightarrow> launch_answer \<Rightarrow> NvBufSurface option \<Rightarrow> NvBufSurface option \<Rightarrow> gpu_memory \<Rightarrow> CudaConverter
    \<Rightarrow> bool \<times> gpu_call list \<times> gpu_memory \<times> CudaConverter \<times> CudaResult" where
  "converter_convert gpu pa sa la src dst mem c =
     (let (valid, source_format, r1) = validateSurfacePair src dst kPlanarYuv422 CudaResult_init
      in if \<not> valid then (False, [], mem, c, r1)
         else (let (prepared, calls1, c1, r2) = converter_prepareOutput pa dst c r1
               in if \<not> prepared then (False, calls1, mem, c1, r2)
                  else (case findOutput (cc_outputs c1) dst of
                          None \<Rightarrow> (False, calls1, mem, c1, setFailure ''find-dst-egl'' (- 5) r2)
                        | Some dst_frame \<Rightarrow>
                            (let (mapped_ok, calls2, src_frame, r3) = mapEglFrame sa ''map-src-egl'' src MappedEglFrame_init r2
                             in if \<not> mapped_ok then (False, calls1 @ calls2, mem, c1, r3)
                                else (let (frames_ok, r4) = validateMappedFrames src_frame dst_frame source_format r3;
                                          (ok, mem1, r5) = (if frames_ok
                                             then launchConversion gpu la (the src) (the dst) src_frame dst_frame source_format mem r4
                                             else (False, mem, r4));
                                          (calls3, _) = resetMappedFrame src_frame
                                      in (ok, calls1 @ calls2 @ calls3, mem1, c1, r5))))))"

definition reset_outputs :: "MappedEglFrame list \<Rightarrow> gpu_call list" where
  "reset_outputs outputs = concat (map (fst \<circ> resetMappedFrame) outputs)"

definition converter_reset :: "CudaConverter \<Rightarrow> gpu_call list \<times> CudaConverter" where
  "converter_reset c =
     (reset_outputs (cc_outputs c) @ (case cc_event c of None \<Rightarrow> [] | Some e \<Rightarrow> [EventDestroyed e]) @
        (case cc_stream c of None \<Rightarrow> [] | Some s \<Rightarrow> [StreamDestroyed s]),
      CudaConverter_init)"

text \<open>The function without a session: the destructor resets it.\<close>

definition cudaYuv422PlanarToNv12 ::
  "gpu \<Rightarrow> prepare_answer \<Rightarrow> prepare_answer \<Rightarrow> egl_answer \<Rightarrow> launch_answer \<Rightarrow> NvBufSurface option \<Rightarrow> NvBufSurface option \<Rightarrow> gpu_memory
    \<Rightarrow> CudaResult \<Rightarrow> bool \<times> gpu_call list \<times> gpu_memory \<times> CudaResult" where
  "cudaYuv422PlanarToNv12 gpu pa1 pa2 sa la src dst mem r =
     (let (prepared, calls1, c1, r1) = converter_prepareOutput pa1 dst CudaConverter_init r
      in if \<not> prepared then (False, calls1 @ fst (converter_reset c1), mem, r1)
         else (let (ok, calls2, mem1, c2, r2) = converter_convert gpu pa2 sa la src dst mem c1
               in (ok, calls1 @ calls2 @ fst (converter_reset c2), mem1, r2)))"

section \<open>Nothing is left mapped\<close>

definition converter_held :: "CudaConverter \<Rightarrow> gpu_resource multiset" where
  "converter_held c = outputs_held (cc_outputs c) + opt_mset Stream (cc_stream c) + opt_mset Event (cc_event c)"

text \<open>The stream and its event are made together.\<close>

definition converter_ok :: "CudaConverter \<Rightarrow> bool" where
  "converter_ok c \<longleftrightarrow> (cc_stream c = None \<longleftrightarrow> cc_event c = None) \<and> outputs_ok (cc_outputs c)"

inductive converter_step :: "CudaConverter \<Rightarrow> gpu_call list \<Rightarrow> CudaConverter \<Rightarrow> bool" where
  cc_prepare: "converter_prepareOutput a dst c r = (ok, calls, c', r') \<Longrightarrow> converter_step c calls c'"
| cc_convert: "converter_convert gpu pa sa la src dst mem c = (ok, calls, mem', c', r') \<Longrightarrow> converter_step c calls c'"
| cc_reset: "converter_reset c = (calls, c') \<Longrightarrow> converter_step c calls c'"

lemma reset_outputs_ledger: "total gpu_released (reset_outputs ms) = outputs_held ms" "total gpu_acquired (reset_outputs ms) = {#}"
  by (induction ms) (auto simp: reset_outputs_def resetMappedFrame_def frame_held_def opt_mset_def split: option.split)

lemma converter_reset_balanced:
  assumes "converter_reset c = (calls, c')"
  shows "gpu_balanced converter_held c calls c' \<and> converter_held c' = {#} \<and> converter_ok c'"
  using assms by (auto simp: converter_reset_def balanced_def converter_held_def CudaConverter_init_def converter_ok_def outputs_ok_def
      reset_outputs_ledger opt_mset_def split: option.splits)

lemma ensureStream_balanced:
  assumes "ensureStream a c r = (ok, calls, c', r')" "converter_ok c"
  shows "gpu_balanced converter_held c calls c' \<and> converter_ok c' \<and> cc_outputs c' = cc_outputs c \<and> (ok \<longrightarrow> cc_stream c' \<noteq> None)"
  using assms by (auto simp: ensureStream_def balanced_def converter_held_def converter_ok_def split: if_splits sum.splits)

lemma converter_prepareOutput_balanced:
  assumes "converter_prepareOutput a dst c r = (ok, calls, c', r')" "converter_ok c"
  shows "gpu_balanced converter_held c calls c' \<and> converter_ok c'"
proof -
  obtain v r1 where 1: "validateOutputSurface dst r = (v, r1)" by fastforce
  obtain co i r2 where 2: "ensureCudaContext (pr_context a) (cc_initialized c) r1 = (co, i, r2)" by (metis prod_cases3)
  define c1 where "c1 = c\<lparr>cc_initialized := i\<rparr>"
  obtain so t1 c2 r3 where 3: "ensureStream a c1 r2 = (so, t1, c2, r3)" by (metis prod_cases4)
  obtain ao t2 outs r4 where 4: "add_output (pr_egl a) dst (cc_outputs c2) r3 = (ao, t2, outs, r4)" by (metis prod_cases4)
  have c1: "converter_ok c1" "converter_held c1 = converter_held c" using assms(2) by (simp_all add: c1_def converter_ok_def converter_held_def)
  have s: "gpu_balanced converter_held c t1 c2" "converter_ok c2"
    using ensureStream_balanced [OF 3 c1(1)] c1(2) by (simp_all add: balanced_def)
  have o: "gpu_balanced converter_held c2 t2 (c2\<lparr>cc_outputs := outs\<rparr>)" "converter_ok (c2\<lparr>cc_outputs := outs\<rparr>)"
    using add_output_balanced [OF 4] add_output_ok [OF 4] s(2) by (simp_all add: balanced_def converter_held_def converter_ok_def ac_simps)
  have n: "gpu_balanced converter_held c [] c1" using c1(2) by (simp add: balanced_def)
  show ?thesis using assms 1 2 3 4 s o n c1 balanced_trans [OF s(1) o(1)]
    by (auto simp: converter_prepareOutput_def c1_def [symmetric] split: if_splits)
qed

lemma mapped_source_balanced:
  assumes "mapEglFrame a stage src MappedEglFrame_init r = (mo, t, m, r')"
  shows "mo \<Longrightarrow> total gpu_acquired (t @ fst (resetMappedFrame m)) = total gpu_released (t @ fst (resetMappedFrame m))"
    and "\<not> mo \<Longrightarrow> total gpu_acquired t = total gpu_released t"
proof -
  obtain t2 m2 where 2: "resetMappedFrame m = (t2, m2)" by fastforce
  have b: "gpu_balanced frame_held MappedEglFrame_init t m" by (rule mapEglFrame_balanced [OF assms])
  show "total gpu_acquired (t @ fst (resetMappedFrame m)) = total gpu_released (t @ fst (resetMappedFrame m))"
    using balanced_trans [OF b] resetMappedFrame_balanced [OF 2] unfolding 2 fst_conv balanced_def by fastforce
  show "total gpu_acquired t = total gpu_released t" if "\<not> mo"
    using b mapEglFrame_failed [of a stage src r t m r'] assms that by (simp add: balanced_def)
qed

lemma converter_convert_balanced:
  assumes "converter_convert gpu pa sa la src dst mem c = (ok, calls, mem', c', r')" "converter_ok c"
  shows "gpu_balanced converter_held c calls c' \<and> converter_ok c'"
proof -
  obtain v f r1 where 1: "validateSurfacePair src dst kPlanarYuv422 CudaResult_init = (v, f, r1)" by (metis prod_cases3)
  obtain po t1 c1 r2 where 2: "converter_prepareOutput pa dst c r1 = (po, t1, c1, r2)" by (metis prod_cases4)
  obtain mo t2 m r3 where 3: "mapEglFrame sa ''map-src-egl'' src MappedEglFrame_init r2 = (mo, t2, m, r3)" by (metis prod_cases4)
  have p: "gpu_balanced converter_held c t1 c1" "converter_ok c1" using converter_prepareOutput_balanced [OF 2 assms(2)] by simp_all
  note s = mapped_source_balanced [OF 3]
  have f1: "\<not> mo \<Longrightarrow> gpu_balanced converter_held c (t1 @ t2) c1"
    using balanced_trans [OF p(1), of t2 c1] s(2) by (simp add: balanced_def)
  have f2: "mo \<Longrightarrow> gpu_balanced converter_held c (t1 @ t2 @ fst (resetMappedFrame m)) c1"
    using balanced_trans [OF p(1), of "t2 @ fst (resetMappedFrame m)" c1] s(1) by (simp add: balanced_def)
  show ?thesis using assms 1 2 3 p f1 f2
    by (auto simp: converter_convert_def Let_def split_def split: if_splits option.splits)
qed

lemma converter_step_balanced: "converter_ok c \<Longrightarrow> converter_step c calls c' \<Longrightarrow> converter_ok c' \<and> gpu_balanced converter_held c calls c'"
  by (erule converter_step.cases) (auto dest: converter_prepareOutput_balanced converter_convert_balanced converter_reset_balanced)

lemma converter_init_ok: "converter_ok CudaConverter_init \<and> converter_held CudaConverter_init = {#}"
  by (simp add: converter_held_def CudaConverter_init_def converter_ok_def outputs_ok_def)

interpretation conversion: ledger gpu_acquired gpu_released converter_held converter_ok converter_step CudaConverter_init
  by unfold_locales (rule converter_init_ok, erule (1) converter_step_balanced)

text \<open>Whatever calls to a converter succeed or fail half-way, the mapped images, registrations, streams and events the driver
  counts for it are those its members name: a source frame never stays mapped, and \<open>reset\<close> gives back the rest.\<close>

theorem converter_leaves_nothing_mapped:
  assumes "run_of converter_step CudaConverter_init c t"
  shows "total gpu_acquired t = total gpu_released t + converter_held c
    \<and> total gpu_acquired (t @ fst (converter_reset c)) = total gpu_released (t @ fst (converter_reset c))"
proof -
  have "converter_step c (fst (converter_reset c)) (snd (converter_reset c))" by (rule cc_reset [OF prod.collapse [symmetric]])
  then show ?thesis
    using conversion.conserved [OF assms] conversion.all_given_back [OF assms] converter_reset_balanced [OF prod.collapse [symmetric]] by blast
qed

section \<open>The picture\<close>

text \<open>The luma and the two chroma channels of a source; \<open>planes i\<close> is the memory of its \<open>i\<close>-th plane.\<close>

definition source_luma :: "SourceFormat \<Rightarrow> (nat \<Rightarrow> plane) \<Rightarrow> PlaneParams \<Rightarrow> int \<Rightarrow> int \<Rightarrow> u8" where
  "source_luma f planes pp x y =
     (if f = kPackedYuyv then planes 0 (y * sint (plane_pitch pp 0) + x div 2 * 4 + (if odd x then 2 else 0))
      else planes 0 (y * sint (plane_pitch pp 0) + x))"

definition source_chroma :: "SourceFormat \<Rightarrow> (nat \<Rightarrow> plane) \<Rightarrow> PlaneParams \<Rightarrow> nat \<Rightarrow> int \<Rightarrow> int \<Rightarrow> u8" where
  "source_chroma f planes pp ch x y =
     (if f = kPackedYuyv then planes 0 (y * sint (plane_pitch pp 0) + x * 4 + (if ch = 0 then 1 else 3))
      else planes (ch + 1) (y * sint (plane_pitch pp (ch + 1)) + x))"

text \<open>\<open>shows_nv12\<close>: the two planes of an NV12 surface show the picture, with the chroma of two rows averaged.\<close>

definition shows_nv12 :: "(int \<Rightarrow> int \<Rightarrow> u8) \<Rightarrow> (nat \<Rightarrow> int \<Rightarrow> int \<Rightarrow> u8) \<Rightarrow> int \<Rightarrow> int \<Rightarrow> plane \<Rightarrow> int \<Rightarrow> plane \<Rightarrow> int \<Rightarrow> bool" where
  "shows_nv12 luma chroma w h y_plane y_pitch uv_plane uv_pitch \<longleftrightarrow>
     (\<forall>x y. 0 \<le> x \<and> x < w \<and> 0 \<le> y \<and> y < h \<longrightarrow> y_plane (y * y_pitch + x) = luma x y)
   \<and> (\<forall>x y. 0 \<le> x \<and> x < w div 2 \<and> 0 \<le> y \<and> y < h div 2 \<longrightarrow>
        uv_plane (y * uv_pitch + x * 2) = average (chroma 0 x (y * 2)) (chroma 0 x (y * 2 + 1))
      \<and> uv_plane (y * uv_pitch + x * 2 + 1) = average (chroma 1 x (y * 2)) (chroma 1 x (y * 2 + 1)))"

lemma launchConversion_shows:
  assumes gpu: "gpu_ok gpu" and launch: "launchConversion gpu a s d sf df f mem r = (True, mem', r')"
    and ptrs: "pPitch (mf_frame df) 0 = Some dy" "pPitch (mf_frame df) 1 = Some duv" "dy \<noteq> duv"
      "\<forall>i. the (pPitch (mf_frame sf) i) \<noteq> dy"
    and w: "w = sint (plane_width (planeParams s) 0)" and h: "h = sint (plane_height (planeParams s) 0)"
    and fits: "w \<le> sint (plane_pitch (planeParams d) 0)" "w \<le> sint (plane_pitch (planeParams d) 1)"
    and planar: "f = kPlanarYuv422 \<Longrightarrow> sint (plane_width (planeParams s) 1) = w div 2"
  defines "planes \<equiv> \<lambda>i. mem (the (pPitch (mf_frame sf) i))"
  shows "shows_nv12 (source_luma f planes (planeParams s)) (source_chroma f planes (planeParams s)) w h
      (mem' dy) (sint (plane_pitch (planeParams d) 0)) (mem' duv) (sint (plane_pitch (planeParams d) 1))
    \<and> (\<forall>p. p \<noteq> dy \<longrightarrow> p \<noteq> duv \<longrightarrow> mem' p = mem p)"
proof -
  let ?sp = "\<lambda>i. sint (plane_pitch (planeParams s) i)" and ?dp = "\<lambda>i. sint (plane_pitch (planeParams d) i)"
  have ex: "executes k ts m (gpu k ts m)" for k ts m using gpu by (simp add: gpu_ok_def)
  have w2: "w div 2 * 2 \<le> ?dp 1" using fits(2) by linarith
  have w1: "w * 1 \<le> ?dp 0" using fits(1) by simp
  show ?thesis
  proof (cases f)
    case kPackedYuyv
    define yk where "yk = yuyvToNv12YKernel (planes 0) w h (?sp 0) (?dp 0)"
    define uvk where "uvk = yuyvToNv12UvKernel (planes 0) (w div 2) (h div 2) (?sp 0) (?dp 1)"
    have m: "mem' = mem(dy := gpu yk (picture_threads w h) (mem dy), duv := gpu uvk (picture_threads (w div 2) (h div 2)) (mem duv))"
      using launch ptrs kPackedYuyv
      by (auto simp: launchConversion_def Let_def gpu_launch_def yk_def uvk_def planes_def w [symmetric] h [symmetric] split: if_splits)
    have Y: "gpu yk (picture_threads w h) (mem dy) (y * ?dp 0 + x) = source_luma f planes (planeParams s) x y"
      if "0 \<le> x" "x < w" "0 \<le> y" "y < h" for x y
      using picture_launch(1) [OF yuyvToNv12YKernel_row w1 ex that, of 0] by (simp add: yk_def source_luma_def kPackedYuyv)
    have UV: "gpu uvk (picture_threads (w div 2) (h div 2)) (mem duv) (y * ?dp 1 + x * 2 + i)
        = average (source_chroma f planes (planeParams s) (nat i) x (y * 2)) (source_chroma f planes (planeParams s) (nat i) x (y * 2 + 1))"
      if "0 \<le> x" "x < w div 2" "0 \<le> y" "y < h div 2" "i = 0 \<or> i = 1" for x y i
      using picture_launch(1) [OF yuyvToNv12UvKernel_row w2 ex that(1-4), of i] that(5) by (auto simp: uvk_def source_chroma_def kPackedYuyv)
    show ?thesis using ptrs(3) Y UV [of _ _ 0] UV [of _ _ 1] by (simp add: m shows_nv12_def)
  next
    case kPlanarYuv422
    have cw: "sint (plane_width (planeParams s) 1) = w div 2" by (rule planar [OF kPlanarYuv422])
    define yk where "yk = copyYKernel (planes 0) w h (?sp 0) (?dp 0)"
    define uvk where "uvk = yuv422PlanarToNv12UvKernel (planes 1) (planes 2) (w div 2) (h div 2) (?sp 1) (?sp 2) (?dp 1)"
    have m: "mem' = mem(dy := gpu yk (picture_threads w h) (mem dy), duv := gpu uvk (picture_threads (w div 2) (h div 2)) (mem duv))"
      using launch ptrs kPlanarYuv422 cw
      by (auto simp: launchConversion_def Let_def gpu_launch_def yk_def uvk_def planes_def w [symmetric] h [symmetric] split: if_splits)
    have Y: "gpu yk (picture_threads w h) (mem dy) (y * ?dp 0 + x) = source_luma f planes (planeParams s) x y"
      if "0 \<le> x" "x < w" "0 \<le> y" "y < h" for x y
      using picture_launch(1) [OF copyYKernel_row w1 ex that, of 0] by (simp add: yk_def source_luma_def kPlanarYuv422)
    have UV: "gpu uvk (picture_threads (w div 2) (h div 2)) (mem duv) (y * ?dp 1 + x * 2 + i)
        = average (source_chroma f planes (planeParams s) (nat i) x (y * 2)) (source_chroma f planes (planeParams s) (nat i) x (y * 2 + 1))"
      if "0 \<le> x" "x < w div 2" "0 \<le> y" "y < h div 2" "i = 0 \<or> i = 1" for x y i
      using picture_launch(1) [OF yuv422PlanarToNv12UvKernel_row w2 ex that(1-4), of i] that(5) by (auto simp: uvk_def source_chroma_def kPlanarYuv422 simp flip: numeral_2_eq_2)
    show ?thesis using ptrs(3) Y UV [of _ _ 0] UV [of _ _ 1] by (simp add: m shows_nv12_def)
  qed
qed

text \<open>What a conversion that succeeds went through.\<close>

lemma converter_convert_success:
  assumes "converter_convert gpu pa sa la src dst mem c = (True, calls, mem', c', r)"
  obtains s d f df frame sf r1 r2 where "src = Some s" "dst = Some d"
    "validateSurfacePair src dst kPlanarYuv422 CudaResult_init = (True, f, r1)"
    "findOutput (cc_outputs c') dst = Some df" "ea_frame sa = Inr frame" "mf_frame sf = frame"
    "launchConversion gpu la s d sf df f mem r2 = (True, mem', r)"
proof -
  obtain v f r1 where 1: "validateSurfacePair src dst kPlanarYuv422 CudaResult_init = (v, f, r1)" by (metis prod_cases3)
  obtain po t1 c1 r2 where 2: "converter_prepareOutput pa dst c r1 = (po, t1, c1, r2)" by (metis prod_cases4)
  obtain mo t2 sf r3 where 3: "mapEglFrame sa ''map-src-egl'' src MappedEglFrame_init r2 = (mo, t2, sf, r3)" by (metis prod_cases4)
  have v: "v" and po: "po" using assms 1 2 by (auto simp: converter_convert_def Let_def split: if_splits)
  obtain df where df: "findOutput (cc_outputs c1) dst = Some df" using assms 1 2 v po by (cases "findOutput (cc_outputs c1) dst") (auto simp: converter_convert_def Let_def)
  have mo: "mo" using assms 1 2 3 v po df by (auto simp: converter_convert_def Let_def split: if_splits)
  obtain fo r4 where 4: "validateMappedFrames sf df f r3 = (fo, r4)" by fastforce
  obtain lo m5 r5 where 5: "launchConversion gpu la (the src) (the dst) sf df f mem r4 = (lo, m5, r5)" by (metis prod_cases3)
  have e: "fo \<and> lo \<and> m5 = mem' \<and> c1 = c' \<and> r5 = r"
    using assms 1 2 3 4 5 v po df mo by (auto simp: converter_convert_def Let_def split_def split: if_splits)
  obtain s d where sd: "src = Some s" "dst = Some d" using 1 v by (auto simp: validateSurfacePair_def split: option.splits)
  obtain s' resource frame where "ea_frame sa = Inr frame" "mf_frame sf = frame"
    using mapEglFrame_mapped [of sa "''map-src-egl''" src r2 t2 sf r3] 3 mo by (metis MappedEglFrame.select_convs(4))
  then show ?thesis using that [of s d f r1 df frame sf r4] 1 v sd df e 5 by simp
qed

lemma validateSurfacePair_format:
  assumes "validateSurfacePair (Some s) (Some d) f0 r = (True, f, r1)"
  shows "f = (if colorFormat s = ColorYUYV then kPackedYuyv else kPlanarYuv422)
    \<and> plane_width (planeParams s) 0 = plane_width (planeParams d) 0 \<and> plane_height (planeParams s) 0 = plane_height (planeParams d) 0"
  using assms by (auto simp: validateSurfacePair_def Let_def split: if_splits)

lemma launchConversion_ok: "launchConversion gpu a s d sf df f mem r = (True, mem', r') \<Longrightarrow> res_ok r'"
  by (auto simp: launchConversion_def Let_def split: if_splits)

text \<open>C14: When the conversion of a frame succeeds, the planes of the output show the picture of the source, packed or planar,
  whatever the order in which the GPU ran the threads; no other memory of the device is changed, and the report says
  so. The planes have to be different, the rows of the output long enough, and the chroma planes half as wide as the
  luma, none of which the code checks.\<close>

theorem conversion_shows_the_picture:
  assumes gpu: "gpu_ok gpu" and convert: "converter_convert gpu pa sa la (Some s) (Some d) mem c = (True, calls, mem', c', r)"
    and src: "ea_frame sa = Inr frame"
    and dst: "findOutput (cc_outputs c') (Some d) = Some df" "pPitch (mf_frame df) 0 = Some dy" "pPitch (mf_frame df) 1 = Some duv"
    and apart: "dy \<noteq> duv" "\<forall>i. the (pPitch frame i) \<noteq> dy"
    and w: "w = sint (plane_width (planeParams s) 0)" and h: "h = sint (plane_height (planeParams s) 0)"
    and fits: "w \<le> sint (plane_pitch (planeParams d) 0)" "w \<le> sint (plane_pitch (planeParams d) 1)"
    and planar: "colorFormat s \<noteq> ColorYUYV \<Longrightarrow> sint (plane_width (planeParams s) 1) = w div 2"
    and f: "f = (if colorFormat s = ColorYUYV then kPackedYuyv else kPlanarYuv422)"
  shows "shows_nv12 (source_luma f (\<lambda>i. mem (the (pPitch frame i))) (planeParams s)) (source_chroma f (\<lambda>i. mem (the (pPitch frame i))) (planeParams s))
      w h (mem' dy) (sint (plane_pitch (planeParams d) 0)) (mem' duv) (sint (plane_pitch (planeParams d) 1))
    \<and> (\<forall>p. p \<noteq> dy \<longrightarrow> p \<noteq> duv \<longrightarrow> mem' p = mem p) \<and> res_ok r"
proof (rule converter_convert_success [OF convert])
  fix s' d' f' df' frame' sf r1 r2
  assume a: "Some s = Some s'" "Some d = Some d'" "validateSurfacePair (Some s) (Some d) kPlanarYuv422 CudaResult_init = (True, f', r1)"
    "findOutput (cc_outputs c') (Some d) = Some df'" "ea_frame sa = Inr frame'" "mf_frame sf = frame'"
    "launchConversion gpu la s' d' sf df' f' mem r2 = (True, mem', r)"
  have e: "s' = s" "d' = d" "df' = df" "frame' = frame" "f' = f"
    using a(1,2,4,5) dst(1) src validateSurfacePair_format [OF a(3)] f by simp_all
  have l: "launchConversion gpu la s d sf df f mem r2 = (True, mem', r)" using a(7) by (simp add: e)
  have p: "f = kPlanarYuv422 \<Longrightarrow> sint (plane_width (planeParams s) 1) = w div 2" using planar f by (simp split: if_splits)
  show ?thesis
    using launchConversion_shows [OF gpu l dst(2,3) apart(1) _ w h fits p] launchConversion_ok [OF l] apart(2) a(6) by (simp add: e)
qed

section \<open>A frame of two by two pixels\<close>

definition surface0 :: "nat \<Rightarrow> ColorFormat \<Rightarrow> u32 \<Rightarrow> NvBufSurface" where
  "surface0 p fmt pitch = \<lparr>surf_ptr = p, numFilled = 1, bufferDesc = int p, pitch_layout = True, colorFormat = fmt,
     planeParams = \<lparr>num_planes = 2, plane_width = (\<lambda>_. 2), plane_height = (\<lambda>_. 2), plane_pitch = (\<lambda>_. pitch)\<rparr>\<rparr>"

definition egl0 :: "nat \<Rightarrow> egl_answer" where
  "egl0 p = \<lparr>ea_map = True, ea_image = True, ea_register = Inr p,
     ea_frame = Inr \<lparr>frameType = 1, planeCount = 2, pPitch = (\<lambda>i. Some (p + (if i = 0 then 0 else 1)))\<rparr>\<rparr>"

definition prepare0 :: prepare_answer where
  "prepare0 = \<lparr>pr_context = 0, pr_stream = Inr 1, pr_event = Inr 2, pr_egl = egl0 20\<rparr>"

definition memory0 :: gpu_memory where
  "memory0 p = (if p = 10 then packed0 else (\<lambda>_. 0))"

definition converted0 :: "bool \<times> gpu_call list \<times> gpu_memory \<times> CudaConverter \<times> CudaResult" where
  "converted0 = converter_convert launch prepare0 (egl0 10) \<lparr>la_error = 0, la_record = 0, la_sync = 0\<rparr>
     (Some (surface0 10 ColorYUYV 4)) (Some (surface0 20 ColorNV12 2)) memory0 CudaConverter_init"

definition output0 :: MappedEglFrame where
  "output0 = \<lparr>mf_surface = Some 20, mf_fd = 20, mf_resource = Some 20,
     mf_frame = \<lparr>frameType = 1, planeCount = 2, pPitch = (\<lambda>i. Some (20 + (if i = 0 then 0 else 1)))\<rparr>, mf_valid = True\<rparr>"

definition session0 :: CudaConverter where
  "session0 = \<lparr>cc_initialized = True, cc_stream = Some 1, cc_event = Some 2, cc_outputs = [output0]\<rparr>"

definition calls0 :: "gpu_call list" where
  "calls0 = [StreamCreated 1, EventCreated 2, MappedImage 20, Registered 20, MappedImage 10, Registered 10, Unregistered 10, UnmappedImage 10]"

lemma converted0_eq: "\<exists>mem r. converted0 = (True, calls0, mem, session0, r)"
proof -
  obtain r1 where v: "validateSurfacePair (Some (surface0 10 ColorYUYV 4)) (Some (surface0 20 ColorNV12 2)) kPlanarYuv422 CudaResult_init
      = (True, kPackedYuyv, r1)" by (simp add: validateSurfacePair_def surface0_def)
  obtain r2 where p: "converter_prepareOutput prepare0 (Some (surface0 20 ColorNV12 2)) CudaConverter_init r1
      = (True, [StreamCreated 1, EventCreated 2, MappedImage 20, Registered 20], session0, r2)"
    by (simp add: converter_prepareOutput_def validateOutputSurface_def surface0_def prepare0_def ensureCudaContext_def CudaConverter_init_def
        ensureStream_def add_output_def findOutput_def mapEglFrame_def egl0_def nv12_frame_def CU_EGL_FRAME_TYPE_PITCH_def session0_def
        output0_def resetMappedFrame_def MappedEglFrame_init_def Let_def)
  define sf where "sf = \<lparr>mf_surface = Some 10, mf_fd = 10, mf_resource = Some 10,
     mf_frame = \<lparr>frameType = 1, planeCount = 2, pPitch = (\<lambda>i. Some (10 + (if i = 0 then 0 else 1)))\<rparr>, mf_valid = True\<rparr>"
  have m: "mapEglFrame (egl0 10) ''map-src-egl'' (Some (surface0 10 ColorYUYV 4)) MappedEglFrame_init r2
      = (True, [MappedImage 10, Registered 10], sf, r2)"
    by (simp add: mapEglFrame_def surface0_def egl0_def resetMappedFrame_def MappedEglFrame_init_def sf_def)
  have f: "findOutput (cc_outputs session0) (Some (surface0 20 ColorNV12 2)) = Some output0"
    by (simp add: findOutput_def session0_def output0_def surface0_def)
  obtain r4 where fr: "validateMappedFrames sf output0 kPackedYuyv r2 = (True, r4)"
    by (simp add: validateMappedFrames_def sf_def output0_def CU_EGL_FRAME_TYPE_PITCH_def)
  obtain mem r5 where l: "launchConversion launch \<lparr>la_error = 0, la_record = 0, la_sync = 0\<rparr> (surface0 10 ColorYUYV 4) (surface0 20 ColorNV12 2)
      sf output0 kPackedYuyv memory0 r4 = (True, mem, r5)" by (simp add: launchConversion_def Let_def)
  have "fst (resetMappedFrame sf) = [Unregistered 10, UnmappedImage 10]" by (simp add: resetMappedFrame_def sf_def)
  then show ?thesis unfolding converted0_def converter_convert_def v p m f fr l by (simp add: v p m f fr l calls0_def split_def)
qed

theorem converter_leaves_nothing_mapped_witness:
  "total gpu_acquired calls0 = total gpu_released calls0 + converter_held session0 \<and> size (converter_held session0) = 4"
proof -
  obtain mem r where e: "converted0 = (True, calls0, mem, session0, r)" using converted0_eq by blast
  have "run_of converter_step CudaConverter_init session0 ([] @ calls0)"
    by (rule run_step [where step = converter_step, OF run_init cc_convert [OF e [unfolded converted0_def]]])
  from converter_leaves_nothing_mapped [OF this, THEN conjunct1] show ?thesis
    by (simp add: converter_held_def session0_def output0_def frame_held_def)
qed

theorem conversion_shows_the_picture_witness:
  "\<exists>mem. fst (snd (snd converted0)) = mem \<and> mem 20 3 = 40 \<and> uint (mem 21 0) = 102 \<and> mem 10 = packed0"
proof -
  obtain mem r where e: "converted0 = (True, calls0, mem, session0, r)" using converted0_eq by blast
  have gpu: "gpu_ok launch" by (simp add: gpu_ok_def executes_launch)
  have f: "findOutput (cc_outputs session0) (Some (surface0 20 ColorNV12 2)) = Some output0"
    by (simp add: findOutput_def session0_def output0_def surface0_def)
  define frame where "frame = \<lparr>frameType = 1 :: u32, planeCount = 2, pPitch = (\<lambda>i. Some (10 + (if i = 0 then 0 else 1)))\<rparr>"
  let ?pp = "planeParams (surface0 10 ColorYUYV 4)" and ?dp = "planeParams (surface0 20 ColorNV12 2)"
  define luma where "luma = source_luma kPackedYuyv (\<lambda>i. memory0 (the (pPitch frame i))) ?pp"
  define chroma where "chroma = source_chroma kPackedYuyv (\<lambda>i. memory0 (the (pPitch frame i))) ?pp"
  have "shows_nv12 luma chroma 2 2 (mem 20) (sint (plane_pitch ?dp 0)) (mem 21) (sint (plane_pitch ?dp 1))
      \<and> (\<forall>p. p \<noteq> 20 \<longrightarrow> p \<noteq> 21 \<longrightarrow> mem p = memory0 p) \<and> res_ok r"
    unfolding luma_def chroma_def
    by (rule conversion_shows_the_picture [OF gpu e [unfolded converted0_def] _ f])
      (simp_all add: egl0_def output0_def surface0_def frame_def)
  then have s: "shows_nv12 luma chroma 2 2 (mem 20) 2 (mem 21) 2 \<and> (\<forall>p. p \<noteq> 20 \<longrightarrow> p \<noteq> 21 \<longrightarrow> mem p = memory0 p) \<and> res_ok r"
    by (simp add: surface0_def)
  have y: "mem 20 (1 * 2 + 1) = luma 1 1" and uv: "mem 21 (0 * 2 + 0 * 2) = average (chroma 0 0 (0 * 2)) (chroma 0 0 (0 * 2 + 1))"
    using s [THEN conjunct1, unfolded shows_nv12_def, THEN conjunct1, rule_format, of 1 1]
      s [THEN conjunct1, unfolded shows_nv12_def, THEN conjunct2, rule_format, of 0 0] by simp_all
  have "luma 1 1 = 40" "chroma 0 0 0 = 100" "chroma 0 0 1 = 103"
    by (simp_all add: luma_def chroma_def source_luma_def source_chroma_def surface0_def memory0_def packed0_def frame_def)
  then have "mem 20 3 = 40" "uint (mem 21 0) = 102" using y uv by (simp_all add: average_eq)
  moreover have "mem 10 = packed0" using s by (simp add: memory0_def)
  ultimately show ?thesis unfolding e by simp
qed

end
