(* ===== verification/GpuRemap.thy ===== *)
theory GpuRemap
  imports GpuKernels VideoUndistorter
begin

text \<open>
  The pixel kernels of \<open>src/src/video/cuda_nv12_undistorter.cu\<close>: every pixel of the output is looked up in the map and
  sampled between four pixels of the source. A float is a rational or, as \<open>None\<close>, not a number. \<open>rnd\<close> is the rounding
  of an operation; the compiler may fuse a product and a sum, so \<open>mad\<close> is either of the two (\<open>float_ok\<close>).
\<close>

section \<open>Floats\<close>

record float_unit =
  rnd :: "rat \<Rightarrow> rat"
  mad :: "rat \<Rightarrow> rat \<Rightarrow> rat \<Rightarrow> rat"

text \<open>Rounding is monotone and exact where 24 bits suffice: on multiples of \<open>1/256\<close> up to \<open>2^16\<close>, of \<open>1/2\<close> up to \<open>2^23\<close>.\<close>

definition float_ok :: "float_unit \<Rightarrow> bool" where
  "float_ok F \<longleftrightarrow> mono (rnd F) \<and> (\<forall>(k :: int) (j :: nat). \<bar>k\<bar> \<le> 2 ^ 24 \<longrightarrow> j \<le> 8 \<longrightarrow> rnd F (of_int k / 2 ^ j) = of_int k / 2 ^ j)
     \<and> (\<forall>a b c. mad F a b c = rnd F (a * b + c) \<or> mad F a b c = rnd F (rnd F (a * b) + c))"

text \<open>\<open>fminf\<close> and \<open>fmaxf\<close> answer the other argument when one is not a number.\<close>

definition clampFloat :: "fval \<Rightarrow> rat \<Rightarrow> rat \<Rightarrow> rat" where
  "clampFloat v lo hi = min (case v of None \<Rightarrow> lo | Some x \<Rightarrow> max x lo) hi"

definition to_byte :: "rat \<Rightarrow> u8" where
  "to_byte v = of_int \<lfloor>v\<rfloor>"

section \<open>Samples\<close>

text \<open>The part the four samplers have in common: \<open>pix x y\<close> is the source byte at a position.\<close>

definition bilinear :: "float_unit \<Rightarrow> (int \<Rightarrow> int \<Rightarrow> u8) \<Rightarrow> int \<Rightarrow> int \<Rightarrow> fval \<Rightarrow> fval \<Rightarrow> u8" where
  "bilinear F pix width height sx0 sy0 =
     (let sx = clampFloat sx0 0 (rnd F (of_int (width - 1))); sy = clampFloat sy0 0 (rnd F (of_int (height - 1)));
          x0 = \<lfloor>sx\<rfloor>; y0 = \<lfloor>sy\<rfloor>; x1 = min (x0 + 1) (width - 1); y1 = min (y0 + 1) (height - 1);
          fx = rnd F (sx - rnd F (of_int x0)); fy = rnd F (sy - rnd F (of_int y0));
          p00 = of_int (uint (pix x0 y0)); p10 = of_int (uint (pix x1 y0));
          p01 = of_int (uint (pix x0 y1)); p11 = of_int (uint (pix x1 y1));
          top = mad F (rnd F (p10 - p00)) fx p00; bot = mad F (rnd F (p11 - p01)) fx p01;
          val = mad F (rnd F (bot - top)) fy top
      in to_byte (clampFloat (Some (rnd F (val + 1 / 2))) 0 255))"

definition bilinearU8 :: "float_unit \<Rightarrow> plane \<Rightarrow> int \<Rightarrow> int \<Rightarrow> int \<Rightarrow> fval \<Rightarrow> fval \<Rightarrow> u8" where
  "bilinearU8 F plane pitch width height sx sy = bilinear F (\<lambda>x y. plane (y * pitch + x)) width height sx sy"

definition bilinearNv12Chroma :: "float_unit \<Rightarrow> plane \<Rightarrow> int \<Rightarrow> int \<Rightarrow> int \<Rightarrow> fval \<Rightarrow> fval \<Rightarrow> int \<Rightarrow> u8" where
  "bilinearNv12Chroma F uv_plane pitch chroma_width chroma_height sx sy channel =
     bilinear F (\<lambda>x y. uv_plane (y * pitch + x * 2 + channel)) chroma_width chroma_height sx sy"

definition yuyvLumaAt :: "plane \<Rightarrow> int \<Rightarrow> int \<Rightarrow> int \<Rightarrow> u8" where
  "yuyvLumaAt plane pitch x y =
     (let pair = y * pitch + drop_bit 1 x * 4 in if x AND 1 \<noteq> 0 then plane (pair + 2) else plane (pair + 0))"

definition yuyvChromaAt :: "plane \<Rightarrow> int \<Rightarrow> int \<Rightarrow> int \<Rightarrow> int \<Rightarrow> u8" where
  "yuyvChromaAt plane pitch chroma_x y channel =
     (let pair = y * pitch + chroma_x * 4 in if channel = 0 then plane (pair + 1) else plane (pair + 3))"

definition bilinearYuyvLuma :: "float_unit \<Rightarrow> plane \<Rightarrow> int \<Rightarrow> int \<Rightarrow> int \<Rightarrow> fval \<Rightarrow> fval \<Rightarrow> u8" where
  "bilinearYuyvLuma F plane pitch width height sx sy = bilinear F (yuyvLumaAt plane pitch) width height sx sy"

definition bilinearYuyvChroma :: "float_unit \<Rightarrow> plane \<Rightarrow> int \<Rightarrow> int \<Rightarrow> int \<Rightarrow> fval \<Rightarrow> fval \<Rightarrow> int \<Rightarrow> u8" where
  "bilinearYuyvChroma F plane pitch chroma_width height sx sy channel =
     bilinear F (\<lambda>x y. yuyvChromaAt plane pitch x y channel) chroma_width height sx sy"

section \<open>Kernels\<close>

text \<open>The map of the frame in the memory of the device: a pair of coordinates for every pixel.\<close>

type_synonym remap = "int \<Rightarrow> fval \<times> fval"

definition halved :: "float_unit \<Rightarrow> fval \<Rightarrow> fval" where
  "halved F v = map_option (\<lambda>s. rnd F (s * (1 / 2))) v"

definition remapNv12YKernel :: "float_unit \<Rightarrow> plane \<Rightarrow> remap \<Rightarrow> int \<Rightarrow> int \<Rightarrow> int \<Rightarrow> int \<Rightarrow> kernel" where
  "remapNv12YKernel F src_y map_xy width height src_pitch dst_pitch = (\<lambda>(x, y).
     if width \<le> x \<or> height \<le> y then []
     else (let src = map_xy (y * width + x)
           in [(y * dst_pitch + x, bilinearU8 F src_y src_pitch width height (fst src) (snd src))]))"

definition remapNv12UvKernel :: "float_unit \<Rightarrow> plane \<Rightarrow> remap \<Rightarrow> int \<Rightarrow> int \<Rightarrow> int \<Rightarrow> int \<Rightarrow> kernel" where
  "remapNv12UvKernel F src_uv map_xy width height src_pitch dst_pitch = (\<lambda>(x, y).
     (let chroma_width = width div 2; chroma_height = height div 2
      in if chroma_width \<le> x \<or> chroma_height \<le> y then []
         else (let luma_x = min (x * 2) (width - 1); luma_y = min (y * 2) (height - 1);
                   src = map_xy (luma_y * width + luma_x);
                   chroma_sx = halved F (fst src); chroma_sy = halved F (snd src); dst = y * dst_pitch + x * 2
               in [(dst + 0, bilinearNv12Chroma F src_uv src_pitch chroma_width chroma_height chroma_sx chroma_sy 0),
                   (dst + 1, bilinearNv12Chroma F src_uv src_pitch chroma_width chroma_height chroma_sx chroma_sy 1)])))"

definition remapYuv422ToNv12YKernel :: "float_unit \<Rightarrow> plane \<Rightarrow> remap \<Rightarrow> int \<Rightarrow> int \<Rightarrow> int \<Rightarrow> int \<Rightarrow> kernel" where
  "remapYuv422ToNv12YKernel F src_y map_xy width height src_pitch dst_pitch = (\<lambda>(x, y).
     if width \<le> x \<or> height \<le> y then []
     else (let src = map_xy (y * width + x)
           in [(y * dst_pitch + x, bilinearU8 F src_y src_pitch width height (fst src) (snd src))]))"

text \<open>The second row of chroma.\<close>

definition next_row :: "float_unit \<Rightarrow> fval \<Rightarrow> int \<Rightarrow> fval" where
  "next_row F sy height = Some (clampFloat (map_option (\<lambda>s. rnd F (s + 1)) sy) 0 (rnd F (of_int (height - 1))))"

definition remapYuv422ToNv12UvKernel ::
  "float_unit \<Rightarrow> plane \<Rightarrow> plane \<Rightarrow> remap \<Rightarrow> int \<Rightarrow> int \<Rightarrow> int \<Rightarrow> int \<Rightarrow> int \<Rightarrow> kernel" where
  "remapYuv422ToNv12UvKernel F src_u src_v map_xy width height src_u_pitch src_v_pitch dst_pitch = (\<lambda>(x, y).
     (let dst_chroma_width = width div 2; dst_chroma_height = height div 2; src_chroma_width = width div 2
      in if dst_chroma_width \<le> x \<or> dst_chroma_height \<le> y then []
         else (let luma_x = min (x * 2) (width - 1); luma_y = min (y * 2) (height - 1);
                   src = map_xy (luma_y * width + luma_x);
                   chroma_sx = halved F (fst src); chroma_sy0 = snd src; chroma_sy1 = next_row F (snd src) height;
                   u0 = bilinearU8 F src_u src_u_pitch src_chroma_width height chroma_sx chroma_sy0;
                   u1 = bilinearU8 F src_u src_u_pitch src_chroma_width height chroma_sx chroma_sy1;
                   v0 = bilinearU8 F src_v src_v_pitch src_chroma_width height chroma_sx chroma_sy0;
                   v1 = bilinearU8 F src_v src_v_pitch src_chroma_width height chroma_sx chroma_sy1;
                   dst = y * dst_pitch + x * 2
               in [(dst + 0, average u0 u1), (dst + 1, average v0 v1)])))"

definition remapYuyvToNv12YKernel :: "float_unit \<Rightarrow> plane \<Rightarrow> remap \<Rightarrow> int \<Rightarrow> int \<Rightarrow> int \<Rightarrow> int \<Rightarrow> kernel" where
  "remapYuyvToNv12YKernel F src_yuyv map_xy width height src_pitch dst_pitch = (\<lambda>(x, y).
     if width \<le> x \<or> height \<le> y then []
     else (let src = map_xy (y * width + x)
           in [(y * dst_pitch + x, bilinearYuyvLuma F src_yuyv src_pitch width height (fst src) (snd src))]))"

definition remapYuyvToNv12UvKernel :: "float_unit \<Rightarrow> plane \<Rightarrow> remap \<Rightarrow> int \<Rightarrow> int \<Rightarrow> int \<Rightarrow> int \<Rightarrow> kernel" where
  "remapYuyvToNv12UvKernel F src_yuyv map_xy width height src_pitch dst_pitch = (\<lambda>(x, y).
     (let dst_chroma_width = width div 2; dst_chroma_height = height div 2; src_chroma_width = width div 2
      in if dst_chroma_width \<le> x \<or> dst_chroma_height \<le> y then []
         else (let luma_x = min (x * 2) (width - 1); luma_y = min (y * 2) (height - 1);
                   src = map_xy (luma_y * width + luma_x);
                   chroma_sx = halved F (fst src); chroma_sy0 = snd src; chroma_sy1 = next_row F (snd src) height;
                   u0 = bilinearYuyvChroma F src_yuyv src_pitch src_chroma_width height chroma_sx chroma_sy0 0;
                   u1 = bilinearYuyvChroma F src_yuyv src_pitch src_chroma_width height chroma_sx chroma_sy1 0;
                   v0 = bilinearYuyvChroma F src_yuyv src_pitch src_chroma_width height chroma_sx chroma_sy0 1;
                   v1 = bilinearYuyvChroma F src_yuyv src_pitch src_chroma_width height chroma_sx chroma_sy1 1;
                   dst = y * dst_pitch + x * 2
               in [(dst + 0, average u0 u1), (dst + 1, average v0 v1)])))"

section \<open>Rounding\<close>

lemma float_exact: "float_ok F \<Longrightarrow> \<bar>k\<bar> \<le> 2 ^ 24 \<Longrightarrow> j \<le> 8 \<Longrightarrow> rnd F (of_int k / 2 ^ j) = of_int k / 2 ^ j"
  by (simp add: float_ok_def)

lemma float_int: "float_ok F \<Longrightarrow> \<bar>k\<bar> \<le> 2 ^ 24 \<Longrightarrow> rnd F (of_int k) = of_int k"
  using float_exact [of F k 0] by simp

lemma float_mono: "float_ok F \<Longrightarrow> a \<le> b \<Longrightarrow> rnd F a \<le> rnd F b"
  by (simp add: float_ok_def mono_def)

lemma float_mad_cases:
  assumes "float_ok F"
  obtains "mad F a b c = rnd F (a * b + c)" | "mad F a b c = rnd F (rnd F (a * b) + c)"
  using assms unfolding float_ok_def by blast

lemma float_between: "float_ok F \<Longrightarrow> \<bar>k\<bar> \<le> 2 ^ 24 \<Longrightarrow> \<bar>l\<bar> \<le> 2 ^ 24 \<Longrightarrow> of_int k \<le> v \<Longrightarrow> v \<le> of_int l
    \<Longrightarrow> of_int k \<le> rnd F v \<and> rnd F v \<le> of_int l"
  by (metis float_int float_mono)

text \<open>The error of one operation.\<close>

lemma float_error:
  assumes F: "float_ok F" and v: "\<bar>v\<bar> \<le> 65535"
  shows "\<bar>rnd F v - v\<bar> \<le> 1 / 256"
proof -
  define k where "k = \<lfloor>v * 256\<rfloor>"
  have k: "of_int k \<le> v * 256" "v * 256 < of_int k + 1" unfolding k_def by linarith+
  then have b: "of_int k / 2 ^ 8 \<le> v" "v \<le> of_int (k + 1) / 2 ^ 8" by simp_all
  have "- (16776960 :: rat) \<le> v * 256" "v * 256 \<le> (16776960 :: rat)" using v by linarith+
  then have "- 16776961 < (of_int k :: rat)" "(of_int k :: rat) \<le> 16776960" using k by linarith+
  then have kb: "- 16776961 < k" "k \<le> 16776960" by linarith+
  then have "\<bar>k\<bar> \<le> 2 ^ 24" "\<bar>k + 1\<bar> \<le> 2 ^ 24" by simp_all
  then have "of_int k / 2 ^ 8 \<le> rnd F v" "rnd F v \<le> of_int (k + 1) / 2 ^ 8"
    using float_mono [OF F b(1)] float_mono [OF F b(2)] float_exact [OF F, of k 8] float_exact [OF F, of "k + 1" 8] by simp_all
  then have "of_int k \<le> rnd F v * 256" "rnd F v * 256 \<le> of_int k + 1" by simp_all
  then show ?thesis using k unfolding abs_le_iff by linarith
qed

section \<open>A sample lies between its neighbours\<close>

definition near :: "rat \<Rightarrow> rat \<Rightarrow> rat \<Rightarrow> rat \<Rightarrow> bool" where
  "near e lo hi v \<longleftrightarrow> lo - e \<le> v \<and> v \<le> hi + e"

lemma mix_between:
  fixes a b t lo hi :: rat
  assumes "0 \<le> t" "t \<le> 1" "lo \<le> a" "a \<le> hi" "lo \<le> b" "b \<le> hi"
  shows "lo \<le> a + (b - a) * t \<and> a + (b - a) * t \<le> hi"
proof -
  have eq: "a + (b - a) * t = (1 - t) * a + t * b" by (simp add: algebra_simps)
  have "(1 - t) * lo + t * lo \<le> (1 - t) * a + t * b" using assms by (intro add_mono mult_left_mono) auto
  moreover have "(1 - t) * a + t * b \<le> (1 - t) * hi + t * hi" using assms by (intro add_mono mult_left_mono) auto
  ultimately show ?thesis by (simp add: eq algebra_simps)
qed

text \<open>One interpolation adds at most three roundings.\<close>

lemma interpolation_near:
  assumes F: "float_ok F" and t: "0 \<le> t" "t \<le> 1" and ab: "near e lo hi a" "near e lo hi b"
    and e: "0 \<le> e" "e \<le> 1" "0 \<le> lo" "hi \<le> 255"
  shows "near (e + 3 / 256) lo hi (mad F (rnd F (b - a)) t a)"
proof -
  have ab': "lo - e \<le> a" "a \<le> hi + e" "lo - e \<le> b" "b \<le> hi + e" using ab by (simp_all add: near_def)
  have d: "\<bar>rnd F (b - a) - (b - a)\<bar> \<le> 1 / 256" using ab' e by (intro float_error [OF F]) auto
  define p where "p = rnd F (b - a) * t"
  have "\<bar>(rnd F (b - a) - (b - a)) * t\<bar> \<le> 1 / 256 * 1"
    unfolding abs_mult using d t by (intro mult_mono) auto
  then have p: "\<bar>p - (b - a) * t\<bar> \<le> 1 / 256" by (simp add: p_def algebra_simps)
  have m: "lo - e \<le> a + (b - a) * t" "a + (b - a) * t \<le> hi + e" using mix_between [OF t ab'(1,2,3,4)] by simp_all
  have ps: "\<bar>p + a\<bar> \<le> 65535" "\<bar>p\<bar> \<le> 65534" using m p ab' e unfolding abs_le_iff by linarith+
  have r1: "\<bar>rnd F (p + a) - (p + a)\<bar> \<le> 1 / 256" by (rule float_error [OF F ps(1)])
  have r2: "\<bar>rnd F p - p\<bar> \<le> 1 / 256" using ps(2) by (intro float_error [OF F]) simp
  have "\<bar>rnd F p + a\<bar> \<le> 65535" using r2 m p ab' e unfolding abs_le_iff by linarith
  then have r3: "\<bar>rnd F (rnd F p + a) - (rnd F p + a)\<bar> \<le> 1 / 256" by (rule float_error [OF F])
  show ?thesis
  proof (rule float_mad_cases [OF F, of "rnd F (b - a)" t a])
    assume "mad F (rnd F (b - a)) t a = rnd F (rnd F (b - a) * t + a)"
    then show ?thesis using r1 p m unfolding near_def p_def [symmetric] abs_le_iff by linarith
  next
    assume "mad F (rnd F (b - a)) t a = rnd F (rnd F (rnd F (b - a) * t) + a)"
    then show ?thesis using r2 r3 p m unfolding near_def p_def [symmetric] abs_le_iff by linarith
  qed
qed

lemma to_byte_near:
  assumes F: "float_ok F" and v: "near (6 / 256) (of_int lo) (of_int hi) v" and b: "0 \<le> lo" "lo \<le> hi" "hi \<le> 255"
  shows "lo \<le> uint (to_byte (clampFloat (Some (rnd F (v + 1 / 2))) 0 255)) \<and> uint (to_byte (clampFloat (Some (rnd F (v + 1 / 2))) 0 255)) \<le> hi"
proof -
  let ?c = "clampFloat (Some (rnd F (v + 1 / 2))) 0 255"
  have bq: "0 \<le> (of_int lo :: rat)" "(of_int hi :: rat) \<le> 255" "(of_int lo :: rat) \<le> of_int hi" using b by simp_all
  have v': "of_int lo - 6 / 256 \<le> v" "v \<le> of_int hi + 6 / 256" using v by (simp_all add: near_def)
  have "\<bar>v + 1 / 2\<bar> \<le> 65535" using v' bq unfolding abs_le_iff by linarith
  then have r: "\<bar>rnd F (v + 1 / 2) - (v + 1 / 2)\<bar> \<le> 1 / 256" by (rule float_error [OF F])
  define u where "u = rnd F (v + 1 / 2)"
  have u: "of_int lo \<le> u" "u < of_int hi + 1" using r v' unfolding u_def [symmetric] abs_le_iff by linarith+
  have c: "?c = min (max u 0) 255" by (simp add: clampFloat_def u_def)
  have lo: "of_int lo \<le> ?c" unfolding c using u bq by simp
  have hi: "?c < of_int hi + 1" unfolding c using u bq by (simp add: min_def max_def)
  have f: "lo \<le> \<lfloor>?c\<rfloor>" "\<lfloor>?c\<rfloor> \<le> hi" using lo hi by (simp_all add: le_floor_iff floor_le_iff)
  then have "0 \<le> \<lfloor>?c\<rfloor>" "\<lfloor>?c\<rfloor> < 256" using b by linarith+
  then have "uint (to_byte ?c) = \<lfloor>?c\<rfloor>" by (simp add: to_byte_def unsigned_of_int take_bit_eq_mod)
  then show ?thesis using f by simp
qed

lemma clampFloat_bounds: "lo \<le> hi \<Longrightarrow> lo \<le> clampFloat v lo hi \<and> clampFloat v lo hi \<le> hi"
  by (auto simp: clampFloat_def split: option.split)

text \<open>The column (or row) of a picture of \<open>n\<close> columns that an entry of the map points into: the one at or left of it, the
  edge for an entry outside, and the first one for an entry that is no number.\<close>

definition map_cell :: "int \<Rightarrow> fval \<Rightarrow> int" where
  "map_cell n s = (case s of None \<Rightarrow> 0 | Some v \<Rightarrow> if v < 0 then 0 else if of_int (n - 1) < v then n - 1 else \<lfloor>v\<rfloor>)"

lemma map_cell_bounds: "1 \<le> n \<Longrightarrow> 0 \<le> map_cell n s \<and> map_cell n s < n"
  by (auto simp: map_cell_def floor_less_iff simp del: of_int_diff split: option.split)

lemma map_cell_clamp: "1 \<le> n \<Longrightarrow> \<lfloor>clampFloat s 0 (of_int (n - 1))\<rfloor> = map_cell n s"
  by (auto simp: map_cell_def clampFloat_def min_def max_def simp del: of_int_diff split: option.split)

lemma bilinear_between:
  assumes F: "float_ok F" and w: "1 \<le> w" "w \<le> 2 ^ 23" and h: "1 \<le> h" "h \<le> 2 ^ 23"
    and "\<forall>x\<in>{map_cell w sx, min (map_cell w sx + 1) (w - 1)}. \<forall>y\<in>{map_cell h sy, min (map_cell h sy + 1) (h - 1)}.
      lo \<le> uint (pix x y) \<and> uint (pix x y) \<le> hi"
  shows "lo \<le> uint (bilinear F pix w h sx sy) \<and> uint (bilinear F pix w h sx sy) \<le> hi"
proof -
  define cx where "cx = clampFloat sx 0 (rnd F (of_int (w - 1)))"
  define cy where "cy = clampFloat sy 0 (rnd F (of_int (h - 1)))"
  define x0 y0 where "x0 = \<lfloor>cx\<rfloor>" and "y0 = \<lfloor>cy\<rfloor>"
  define x1 y1 where "x1 = min (x0 + 1) (w - 1)" and "y1 = min (y0 + 1) (h - 1)"
  have wr: "rnd F (of_int (w - 1)) = of_int (w - 1)" "rnd F (of_int (h - 1)) = of_int (h - 1)"
    using w h by (intro float_int [OF F]; simp)+
  have c: "0 \<le> cx" "cx \<le> of_int (w - 1)" "0 \<le> cy" "cy \<le> of_int (h - 1)"
    unfolding cx_def cy_def wr
    by (rule clampFloat_bounds [THEN conjunct1] clampFloat_bounds [THEN conjunct2], use w h in \<open>simp del: of_int_diff\<close>)+
  have x0: "0 \<le> x0" "x0 \<le> w - 1" "0 \<le> y0" "y0 \<le> h - 1"
    using c by (simp_all add: x0_def y0_def floor_le_iff) linarith+
  have xr: "rnd F (of_int x0) = of_int x0" "rnd F (of_int y0) = of_int y0"
    using x0 w h by (intro float_int [OF F]; simp)+
  have frac: "0 \<le> cx - of_int x0" "cx - of_int x0 \<le> 1" "0 \<le> cy - of_int y0" "cy - of_int y0 \<le> 1"
    unfolding x0_def y0_def by linarith+
  define fx fy where "fx = rnd F (cx - of_int x0)" and "fy = rnd F (cy - of_int y0)"
  have t: "0 \<le> fx" "fx \<le> 1" "0 \<le> fy" "fy \<le> 1"
    using float_between [OF F, of 0 1 "cx - of_int x0"] float_between [OF F, of 0 1 "cy - of_int y0"] frac by (simp_all add: fx_def fy_def)
  let ?p = "\<lambda>x y. of_int (uint (pix x y)) :: rat"
  define top bot where "top = mad F (rnd F (?p x1 y0 - ?p x0 y0)) fx (?p x0 y0)" and "bot = mad F (rnd F (?p x1 y1 - ?p x0 y1)) fx (?p x0 y1)"
  have b: "bilinear F pix w h sx sy = to_byte (clampFloat (Some (rnd F (mad F (rnd F (bot - top)) fy top + 1 / 2))) 0 255)"
    unfolding bilinear_def Let_def cx_def [symmetric] cy_def [symmetric] x0_def [symmetric] y0_def [symmetric]
      x1_def [symmetric] y1_def [symmetric] xr fx_def [symmetric] fy_def [symmetric] top_def [symmetric] bot_def [symmetric] by (rule refl)
  have "lo \<le> uint (bilinear F pix w h sx sy) \<and> uint (bilinear F pix w h sx sy) \<le> hi"
    if n: "\<forall>x\<in>{x0, x1}. \<forall>y\<in>{y0, y1}. lo \<le> uint (pix x y) \<and> uint (pix x y) \<le> hi" for lo hi
  proof -
    define lo' hi' where "lo' = max lo 0" and "hi' = min hi 255"
    have byte: "0 \<le> uint (pix x y) \<and> uint (pix x y) \<le> 255" for x y using uint_lt2p [of "pix x y"] by simp
    have n': "lo' \<le> uint (pix x y) \<and> uint (pix x y) \<le> hi'" if "x \<in> {x0, x1}" "y \<in> {y0, y1}" for x y
      using n that byte [of x y] by (auto simp: lo'_def hi'_def)
    have m: "lo \<le> uint (pix x0 y0)" "uint (pix x0 y0) \<le> hi" using n by simp_all
    have "0 \<le> hi" by (rule order_trans [OF byte [of x0 y0, THEN conjunct1] m(2)])
    moreover have "lo \<le> hi" "lo \<le> 255" by (rule order_trans [OF m(1) m(2)], rule order_trans [OF m(1) byte [THEN conjunct2]])
    ultimately have lh: "0 \<le> lo'" "lo' \<le> hi'" "hi' \<le> 255" by (simp_all add: lo'_def hi'_def)
    then have q: "0 \<le> (of_int lo' :: rat)" "(of_int hi' :: rat) \<le> 255" by simp_all
    have p: "near 0 (of_int lo') (of_int hi') (?p x y)" if "x \<in> {x0, x1}" "y \<in> {y0, y1}" for x y
      using n' [OF that] unfolding near_def diff_zero add_0_right of_int_le_iff .
    have "near (0 + 3 / 256) (of_int lo') (of_int hi') top" unfolding top_def
      by (rule interpolation_near [OF F t(1,2) p p]) (use q in simp_all)
    moreover have "near (0 + 3 / 256) (of_int lo') (of_int hi') bot" unfolding bot_def
      by (rule interpolation_near [OF F t(1,2) p p]) (use q in simp_all)
    ultimately have "near (0 + 3 / 256 + 3 / 256) (of_int lo') (of_int hi') (mad F (rnd F (bot - top)) fy top)"
      by (intro interpolation_near [OF F t(3,4)]) (use q in simp_all)
    then have v: "near (6 / 256) (of_int lo') (of_int hi') (mad F (rnd F (bot - top)) fy top)" by (simp add: near_def)
    from to_byte_near [OF F v lh] show ?thesis unfolding b by (auto simp: lo'_def hi'_def)
  qed
  moreover have "x0 = map_cell w sx" "y0 = map_cell h sy"
    using map_cell_clamp [OF w(1)] map_cell_clamp [OF h(1)] by (simp_all only: x0_def y0_def cx_def cy_def wr)
  ultimately show ?thesis using assms(6) by (simp only: x1_def y1_def)
qed

text \<open>On a pixel, the sample is the pixel.\<close>

lemma bilinear_exact:
  assumes "float_ok F" "0 \<le> x" "x < w" "w \<le> 2 ^ 23" "0 \<le> y" "y < h" "h \<le> 2 ^ 23"
  shows "bilinear F pix w h (Some (of_int x)) (Some (of_int y)) = pix x y"
proof -
  have r: "rnd F (of_int k) = of_int k" if "0 \<le> k" "k < 2 ^ 23" for k using that by (intro float_int [OF assms(1)]) simp
  have "rnd F (of_int 0) = of_int 0" by (rule r) simp_all
  then have r0: "rnd F 0 = 0" by simp
  have m: "mad F d 0 (of_int k) = of_int k" if "0 \<le> k" "k < 2 ^ 23" for d k
    by (rule float_mad_cases [OF assms(1), of d 0 "of_int k"]) (simp_all add: r0 r [OF that])
  have c: "clampFloat (Some (of_int u)) 0 (of_int (n - 1)) = of_int u" if "0 \<le> u" "u < n" for u n :: int
  proof -
    have "(of_int u :: rat) \<le> of_int (n - 1)" "(0 :: rat) \<le> of_int u" using that by (simp_all del: of_int_diff)
    then show ?thesis by (simp add: clampFloat_def)
  qed
  define p where "p = uint (pix x y)"
  have p: "0 \<le> p" "p \<le> 255" using uint_lt2p [of "pix x y"] by (simp_all add: p_def)
  have rh: "rnd F (of_int p + 1 / 2) = of_int p + 1 / 2"
    using float_exact [OF assms(1), of "2 * p + 1" 1] p by (simp add: add_divide_distrib)
  have wh: "rnd F (of_int (w - 1)) = of_int (w - 1)" "rnd F (of_int (h - 1)) = of_int (h - 1)" using assms by (intro r; simp)+
  have b: "uint (pix u v) < 2 ^ 23" "0 \<le> uint (pix u v)" for u v using uint_lt2p [of "pix u v"] by simp_all
  have top: "mad F d 0 (of_int (uint (pix u v))) = of_int (uint (pix u v))" for d u v by (rule m) (rule b)+
  then have top0: "mad F d 0 (of_int p) = of_int p" for d unfolding p_def .
  have rx: "rnd F (of_int x) = of_int x" "rnd F (of_int y) = of_int y" using assms by (intro r; simp)+
  have "bilinear F pix w h (Some (of_int x)) (Some (of_int y)) = to_byte (clampFloat (Some (of_int p + 1 / 2)) 0 255)"
    unfolding bilinear_def wh Let_def c [OF assms(2,3)] c [OF assms(5,6)] floor_of_int rx diff_self r0 top p_def [symmetric] top0 rh
    by (rule refl)
  also have "\<dots> = of_int p"
  proof -
    have f: "\<lfloor>(of_int p :: rat) + 1 / 2\<rfloor> = p" by linarith
    consider "p = 255" | "p \<le> 254" using p by linarith
    then show ?thesis
    proof cases
      case 1
      then show ?thesis by (simp add: to_byte_def clampFloat_def)
    next
      case 2
      then have "(of_int p :: rat) \<le> of_int 254" by (simp only: of_int_le_iff)
      then have "(of_int p :: rat) + 1 / 2 \<le> 255" by simp
      moreover have "0 \<le> (of_int p :: rat)" using p by simp
      ultimately have "clampFloat (Some (of_int p + 1 / 2)) 0 255 = of_int p + 1 / 2" by (simp add: clampFloat_def)
      then show ?thesis using f by (simp add: to_byte_def)
    qed
  qed
  also have "\<dots> = pix x y" by (simp add: p_def)
  finally show ?thesis .
qed

section \<open>The map that changes nothing\<close>

definition identity_map :: "int \<Rightarrow> remap" where
  "identity_map w a = (Some (of_int (a mod w)), Some (of_int (a div w)))"

lemma identity_map_at: "0 \<le> x \<Longrightarrow> x < w \<Longrightarrow> identity_map w (y * w + x) = (Some (of_int x), Some (of_int y))"
  by (simp add: identity_map_def)

lemma halved_exact: "float_ok F \<Longrightarrow> 0 \<le> x \<Longrightarrow> x < 2 ^ 23 \<Longrightarrow> halved F (Some (of_int (x * 2))) = Some (of_int x)"
  using float_int [of F x] by (simp add: halved_def)

lemma next_row_exact:
  assumes "float_ok F" "0 \<le> y" "y + 1 < h" "h \<le> 2 ^ 23"
  shows "next_row F (Some (of_int y)) h = Some (of_int (y + 1))"
proof -
  have "rnd F (of_int (h - 1)) = of_int (h - 1)" "rnd F (of_int (y + 1)) = of_int (y + 1)"
    using assms by (intro float_int [OF assms(1)]; simp)+
  moreover have "(of_int (y + 1) :: rat) \<le> of_int (h - 1)" "(0 :: rat) \<le> of_int (y + 1)" using assms by (simp_all del: of_int_add of_int_diff)
  ultimately show ?thesis by (simp add: next_row_def clampFloat_def)
qed

lemmas sampler_defs = bilinearU8_def bilinearNv12Chroma_def bilinearYuyvLuma_def bilinearYuyvChroma_def

text \<open>The position of a chroma sample in the map of the luma.\<close>

lemma chroma_source:
  assumes "float_ok F" "0 \<le> x" "x < w div 2" "0 \<le> y" "y < h div 2" "even w" "even h" "w \<le> 2 ^ 23" "h \<le> 2 ^ 23"
  shows "identity_map w (y * 2 * w + x * 2) = (Some (of_int (x * 2)), Some (of_int (y * 2)))"
    and "halved F (Some (of_int (x * 2))) = Some (of_int x)" "halved F (Some (of_int (y * 2))) = Some (of_int y)"
    and "next_row F (Some (of_int (y * 2))) h = Some (of_int (y * 2 + 1))" "y * 2 + 1 < h" "y * 2 < h"
    and "min (y * 2) (h - 1) = y * 2" "min (x * 2) (w - 1) = x * 2"
proof -
  have b: "x * 2 + 1 < w" "y * 2 + 1 < h" using assms by auto
  then show "min (y * 2) (h - 1) = y * 2" "min (x * 2) (w - 1) = x * 2" by auto
  show "identity_map w (y * 2 * w + x * 2) = (Some (of_int (x * 2)), Some (of_int (y * 2)))"
    using identity_map_at [of "x * 2" w "y * 2"] assms b by simp
  show "halved F (Some (of_int (x * 2))) = Some (of_int x)" "halved F (Some (of_int (y * 2))) = Some (of_int y)"
    using assms b by (intro halved_exact; simp)+
  show "next_row F (Some (of_int (y * 2))) h = Some (of_int (y * 2 + 1))" using assms b by (intro next_row_exact) auto
  show "y * 2 + 1 < h" "y * 2 < h" using b by auto
qed

lemma identity_y_kernels:
  assumes "float_ok F" "w \<le> 2 ^ 23" "h \<le> 2 ^ 23" "0 \<le> x" "0 \<le> y"
  shows "remapNv12YKernel F src (identity_map w) w h sp dp (x, y) = copyYKernel src w h sp dp (x, y)"
    and "remapYuv422ToNv12YKernel F src (identity_map w) w h sp dp (x, y) = copyYKernel src w h sp dp (x, y)"
    and "remapYuyvToNv12YKernel F src (identity_map w) w h sp dp (x, y) = yuyvToNv12YKernel src w h sp dp (x, y)"
  using assms bilinear_exact [OF assms(1,4) _ assms(2,5) _ assms(3)]
  by (simp_all add: remapNv12YKernel_def remapYuv422ToNv12YKernel_def remapYuyvToNv12YKernel_def copyYKernel_def
      yuyvToNv12YKernel_def yuyvLumaAt_def identity_map_at sampler_defs Let_def not_le)

lemma identity_uv_kernels:
  assumes "float_ok F" "w \<le> 2 ^ 23" "h \<le> 2 ^ 23" "even w" "even h" "0 \<le> x" "0 \<le> y"
  shows "remapYuv422ToNv12UvKernel F su sv (identity_map w) w h pu pv dp (x, y)
      = yuv422PlanarToNv12UvKernel su sv (w div 2) (h div 2) pu pv dp (x, y)"
    and "remapYuyvToNv12UvKernel F src (identity_map w) w h sp dp (x, y) = yuyvToNv12UvKernel src (w div 2) (h div 2) sp dp (x, y)"
    and "remapNv12UvKernel F src (identity_map w) w h sp dp (x, y) =
      (if w div 2 \<le> x \<or> h div 2 \<le> y then []
       else [(y * dp + x * 2, src (y * sp + x * 2)), (y * dp + x * 2 + 1, src (y * sp + x * 2 + 1))])"
proof -
  have "remapYuv422ToNv12UvKernel F su sv (identity_map w) w h pu pv dp (x, y)
        = yuv422PlanarToNv12UvKernel su sv (w div 2) (h div 2) pu pv dp (x, y)
      \<and> remapYuyvToNv12UvKernel F src (identity_map w) w h sp dp (x, y) = yuyvToNv12UvKernel src (w div 2) (h div 2) sp dp (x, y)
      \<and> remapNv12UvKernel F src (identity_map w) w h sp dp (x, y) =
        [(y * dp + x * 2, src (y * sp + x * 2)), (y * dp + x * 2 + 1, src (y * sp + x * 2 + 1))]"
    if b: "x < w div 2" "y < h div 2"
  proof -
    note c = chroma_source [OF assms(1,6) b(1) assms(7) b(2) assms(4,5,2,3)]
    have w2: "w div 2 \<le> 2 ^ 23" "h div 2 \<le> 2 ^ 23" using assms(2,3) by auto
    have y0: "0 \<le> y * 2" "0 \<le> y * 2 + 1" using assms(7) by simp_all
    note e0 = bilinear_exact [OF assms(1,6) b(1) w2(1) y0(1) c(6) assms(3)]
      and e1 = bilinear_exact [OF assms(1,6) b(1) w2(1) y0(2) c(5) assms(3)]
      and e = bilinear_exact [OF assms(1,6) b(1) w2(1) assms(7) b(2) w2(2)]
    show ?thesis using b
      by (simp add: remapYuv422ToNv12UvKernel_def remapYuyvToNv12UvKernel_def remapNv12UvKernel_def yuv422PlanarToNv12UvKernel_def
          yuyvToNv12UvKernel_def yuyvChromaAt_def sampler_defs Let_def c(1-4,7,8) e0 e1 e del: of_int_mult of_int_add)
  qed
  note inside = this
  show "remapYuv422ToNv12UvKernel F su sv (identity_map w) w h pu pv dp (x, y)
      = yuv422PlanarToNv12UvKernel su sv (w div 2) (h div 2) pu pv dp (x, y)"
    using inside by (cases "x < w div 2 \<and> y < h div 2") (auto simp: remapYuv422ToNv12UvKernel_def yuv422PlanarToNv12UvKernel_def Let_def)
  show "remapYuyvToNv12UvKernel F src (identity_map w) w h sp dp (x, y) = yuyvToNv12UvKernel src (w div 2) (h div 2) sp dp (x, y)"
    using inside by (cases "x < w div 2 \<and> y < h div 2") (auto simp: remapYuyvToNv12UvKernel_def yuyvToNv12UvKernel_def Let_def)
  show "remapNv12UvKernel F src (identity_map w) w h sp dp (x, y) =
      (if w div 2 \<le> x \<or> h div 2 \<le> y then []
       else [(y * dp + x * 2, src (y * sp + x * 2)), (y * dp + x * 2 + 1, src (y * sp + x * 2 + 1))])"
    using inside by (cases "x < w div 2 \<and> y < h div 2") (auto simp: remapNv12UvKernel_def Let_def)
qed

lemma picture_threads_cong:
  assumes "\<And>x y. 0 \<le> x \<Longrightarrow> 0 \<le> y \<Longrightarrow> k (x, y) = k' (x, y)"
  shows "executes k (picture_threads w h) mem mem' \<longleftrightarrow> executes k' (picture_threads w h) mem mem'"
proof -
  have "k t = k' t" if "t \<in> set (picture_threads w h)" for t
  proof -
    obtain x y where t: "t = (x, y)" by fastforce
    have "0 \<le> x \<and> 0 \<le> y" using that unfolding t picture_threads_def by (rule grid_nonnegative) simp_all
    then show ?thesis using assms t by simp
  qed
  then have "all_writes k (picture_threads w h) = all_writes k' (picture_threads w h)"
    unfolding all_writes_def by (metis map_cong)
  then show ?thesis by (simp add: executes_def)
qed

text \<open>C36: With the map that sends every pixel to itself, undistorting a packed frame writes exactly what converting it
  writes, in both planes and whatever the order of the threads; so does undistorting a planar frame.\<close>

theorem identity_undistortion_is_conversion:
  assumes "float_ok F" "w \<le> 2 ^ 23" "h \<le> 2 ^ 23" "even w" "even h"
  shows "(executes (remapYuyvToNv12YKernel F src (identity_map w) w h sp dp) (picture_threads w h) m m'
        \<longleftrightarrow> executes (yuyvToNv12YKernel src w h sp dp) (picture_threads w h) m m')
    \<and> (executes (remapYuyvToNv12UvKernel F src (identity_map w) w h sp dp) (picture_threads (w div 2) (h div 2)) m m'
        \<longleftrightarrow> executes (yuyvToNv12UvKernel src (w div 2) (h div 2) sp dp) (picture_threads (w div 2) (h div 2)) m m')
    \<and> (executes (remapYuv422ToNv12YKernel F src (identity_map w) w h sp dp) (picture_threads w h) m m'
        \<longleftrightarrow> executes (copyYKernel src w h sp dp) (picture_threads w h) m m')
    \<and> (executes (remapYuv422ToNv12UvKernel F su sv (identity_map w) w h pu pv dp) (picture_threads (w div 2) (h div 2)) m m'
        \<longleftrightarrow> executes (yuv422PlanarToNv12UvKernel su sv (w div 2) (h div 2) pu pv dp) (picture_threads (w div 2) (h div 2)) m m')"
  by (intro conjI picture_threads_cong identity_y_kernels identity_uv_kernels assms)

section \<open>Whatever the map\<close>

text \<open>C37: Whatever the map says, what the undistorter writes for a pixel lies between the smallest and the largest of the
  up to four bytes around the pixel's entry of the map: the cell the entry points into, clamped to the picture, and its
  right, lower and diagonal neighbours, all inside the picture; rounding makes it neither overshoot nor wrap around. An
  entry that is exactly a position of the picture yields exactly the byte there.\<close>

theorem remapped_luma_between_neighbours:
  assumes "float_ok F" "w \<le> 2 ^ 23" "h \<le> 2 ^ 23" "0 \<le> x" "x < w" "0 \<le> y" "y < h"
    and "x0 = map_cell w (fst (map_xy (y * w + x)))" "y0 = map_cell h (snd (map_xy (y * w + x)))"
  shows "\<exists>v. remapNv12YKernel F src map_xy w h sp dp (x, y) = [(y * dp + x, v)] \<and> 0 \<le> x0 \<and> x0 < w \<and> 0 \<le> y0 \<and> y0 < h
    \<and> (\<forall>lo hi. (\<forall>a\<in>{x0, min (x0 + 1) (w - 1)}. \<forall>b\<in>{y0, min (y0 + 1) (h - 1)}. lo \<le> uint (src (b * sp + a)) \<and> uint (src (b * sp + a)) \<le> hi)
      \<longrightarrow> lo \<le> uint v \<and> uint v \<le> hi)
    \<and> (map_xy (y * w + x) = (Some (of_int x0), Some (of_int y0)) \<longrightarrow> v = src (y0 * sp + x0))"
proof -
  have p: "1 \<le> w" "1 \<le> h" using assms(4-7) by simp_all
  have b: "0 \<le> x0" "x0 < w" "0 \<le> y0" "y0 < h" using map_cell_bounds p by (simp_all add: assms(8,9))
  note between = bilinear_between [OF assms(1) p(1) assms(2) p(2) assms(3), of "fst (map_xy (y * w + x))"
      "snd (map_xy (y * w + x))" _ "\<lambda>a b. src (b * sp + a)", folded assms(8,9)]
  note exact = bilinear_exact [OF assms(1) b(1,2) assms(2) b(3,4) assms(3), of "\<lambda>a b. src (b * sp + a)"]
  have "remapNv12YKernel F src map_xy w h sp dp (x, y) = [(y * dp + x,
      bilinear F (\<lambda>a b. src (b * sp + a)) w h (fst (map_xy (y * w + x))) (snd (map_xy (y * w + x))))]"
    using assms(5,7) by (simp add: remapNv12YKernel_def bilinearU8_def Let_def)
  moreover define v where "v = bilinear F (\<lambda>a b. src (b * sp + a)) w h (fst (map_xy (y * w + x))) (snd (map_xy (y * w + x)))"
  have "\<forall>lo hi. (\<forall>a\<in>{x0, min (x0 + 1) (w - 1)}. \<forall>b\<in>{y0, min (y0 + 1) (h - 1)}. lo \<le> uint (src (b * sp + a)) \<and> uint (src (b * sp + a)) \<le> hi)
      \<longrightarrow> lo \<le> uint v \<and> uint v \<le> hi"
    unfolding v_def by (intro allI impI) (rule between)
  moreover have "map_xy (y * w + x) = (Some (of_int x0), Some (of_int y0)) \<longrightarrow> v = src (y0 * sp + x0)"
    using exact by (simp add: v_def)
  ultimately show ?thesis using b unfolding v_def by blast
qed

section \<open>A frame with its middle undefined\<close>

text \<open>The unit of floats that does not round at all.\<close>

definition exact_unit :: float_unit where
  "exact_unit = \<lparr>rnd = (\<lambda>v. v), mad = (\<lambda>a b c. a * b + c)\<rparr>"

lemma exact_unit_ok: "float_ok exact_unit"
  by (simp add: float_ok_def exact_unit_def mono_def)

theorem identity_undistortion_is_conversion_witness:
  "executes (remapYuyvToNv12YKernel exact_unit packed0 (identity_map 2) 2 2 4 2) (picture_threads 2 2) (\<lambda>_. 0)
     (launch (yuyvToNv12YKernel packed0 2 2 4 2) (picture_threads 2 2) (\<lambda>_. 0))"
  using identity_undistortion_is_conversion [OF exact_unit_ok, of 2 2, THEN conjunct1] executes_launch by simp

definition bright0 :: plane where
  "bright0 a = (if a = 0 then 100 else 200)"

text \<open>An entry that is half undefined and an entry that is a position.\<close>

theorem remapped_luma_between_neighbours_witness:
  "(\<exists>v. remapNv12YKernel exact_unit bright0 (\<lambda>_. (None, Some (1 / 3))) 2 2 2 2 (1, 1) = [(3, v)] \<and> 100 \<le> uint v \<and> uint v \<le> 200)
   \<and> remapNv12YKernel exact_unit bright0 (\<lambda>_. (Some 1, Some 1)) 2 2 2 2 (0, 0) = [(0, 200)]"
proof
  have c: "map_cell 2 None = 0" "map_cell 2 (Some (1 / 3)) = 0" "map_cell 2 (Some 1) = 1" by (simp_all add: map_cell_def floor_eq_iff)
  obtain v where v: "remapNv12YKernel exact_unit bright0 (\<lambda>_. (None, Some (1 / 3))) 2 2 2 2 (1, 1) = [(1 * 2 + 1, v)]"
      and n: "\<forall>lo hi. (\<forall>a\<in>{0, min (0 + 1) (2 - 1)}. \<forall>b\<in>{0, min (0 + 1) (2 - 1)}. lo \<le> uint (bright0 (b * 2 + a)) \<and> uint (bright0 (b * 2 + a)) \<le> hi)
        \<longrightarrow> lo \<le> uint v \<and> uint v \<le> hi"
    using remapped_luma_between_neighbours [OF exact_unit_ok, of 2 2 1 1 0 "\<lambda>_. (None, Some (1 / 3))" 0 bright0 2 2] c by auto
  have "100 \<le> uint v \<and> uint v \<le> 200" by (rule n [rule_format]) (auto simp: bright0_def)
  then show "\<exists>v. remapNv12YKernel exact_unit bright0 (\<lambda>_. (None, Some (1 / 3))) 2 2 2 2 (1, 1) = [(3, v)] \<and> 100 \<le> uint v \<and> uint v \<le> 200"
    using v by simp
  show "remapNv12YKernel exact_unit bright0 (\<lambda>_. (Some 1, Some 1)) 2 2 2 2 (0, 0) = [(0, 200)]"
    using remapped_luma_between_neighbours [OF exact_unit_ok, of 2 2 0 0 1 "\<lambda>_. (Some 1, Some 1)" 1 bright0 2 2] c
    by (auto simp: bright0_def)
qed

end
