(* ===== verification/GpuUndistorter.thy ===== *)
theory GpuUndistorter
  imports GpuConverter GpuRemap
begin

text \<open>
  \<open>CudaNv12Undistorter\<close> of \<open>src/src/video/cuda_nv12_undistorter.cu\<close>: the map in the memory of the device, the surfaces that
  are accepted, and the launch of the kernels of \<open>GpuRemap\<close>. Mapping and the GPU are as in \<open>GpuSurfaces\<close> and
  \<open>GpuConverter\<close>; the names of this class begin with \<open>cu_\<close>.
\<close>

section \<open>What is accepted\<close>

datatype RemapFormat = kNv12 | kPlanar | kPacked

definition validateNv12Pair :: "NvBufSurface option \<Rightarrow> NvBufSurface option \<Rightarrow> CudaResult \<Rightarrow> bool \<times> CudaResult" where
  "validateNv12Pair src dst r =
     (case (src, dst) of
        (Some s, Some d) \<Rightarrow>
          if numFilled s = 0 \<or> numFilled d = 0 then (False, setFailure ''validate-surface'' (- 1) r)
          else (let r1 = fillSurfaceInfo src dst r; src_pp = planeParams s; dst_pp = planeParams d
                in if \<not> pitch_layout s \<or> \<not> pitch_layout d \<or> colorFormat s \<noteq> ColorNV12 \<or> colorFormat d \<noteq> ColorNV12
                      \<or> num_planes src_pp < 2 \<or> num_planes dst_pp < 2
                      \<or> plane_width src_pp 0 \<noteq> plane_width dst_pp 0 \<or> plane_height src_pp 0 \<noteq> plane_height dst_pp 0
                   then (False, setFailure ''validate-nv12-format'' (- 2) r1) else (True, r1))
      | _ \<Rightarrow> (False, setFailure ''validate-surface'' (- 1) r))"

definition validateYuv422ToNv12Pair ::
  "NvBufSurface option \<Rightarrow> NvBufSurface option \<Rightarrow> RemapFormat \<Rightarrow> CudaResult \<Rightarrow> bool \<times> RemapFormat \<times> CudaResult" where
  "validateYuv422ToNv12Pair src dst source_format r =
     (case (src, dst) of
        (Some s, Some d) \<Rightarrow>
          if numFilled s = 0 \<or> numFilled d = 0 then (False, source_format, setFailure ''validate-surface'' (- 1) r)
          else (let r1 = fillSurfaceInfo src dst r; src_pp = planeParams s; dst_pp = planeParams d;
                    planar_yuv422 = (colorFormat s = ColorYUV422 \<and> 3 \<le> num_planes src_pp);
                    packed_yuyv = (colorFormat s = ColorYUYV \<and> 1 \<le> num_planes src_pp)
                in if \<not> pitch_layout s \<or> \<not> pitch_layout d \<or> \<not> planar_yuv422 \<and> \<not> packed_yuyv \<or> colorFormat d \<noteq> ColorNV12
                      \<or> num_planes dst_pp < 2 \<or> plane_width src_pp 0 \<noteq> plane_width dst_pp 0 \<or> plane_height src_pp 0 \<noteq> plane_height dst_pp 0
                      \<or> plane_width src_pp 0 AND 1 \<noteq> 0 \<or> plane_height src_pp 0 AND 1 \<noteq> 0
                   then (False, source_format, setFailure ''validate-yuv422-format'' (- 2) r1)
                   else (True, if packed_yuyv then kPacked else kPlanar, r1))
      | _ \<Rightarrow> (False, source_format, setFailure ''validate-surface'' (- 1) r))"

definition cu_validateMappedFrames :: "MappedEglFrame \<Rightarrow> MappedEglFrame \<Rightarrow> int \<Rightarrow> CudaResult \<Rightarrow> bool \<times> CudaResult" where
  "cu_validateMappedFrames src dst src_planes r =
     (let r1 = r\<lparr>src_frame_type := frameType (mf_frame src), dst_frame_type := frameType (mf_frame dst)\<rparr>;
          expected_src_planes = of_int (max src_planes 0)
      in if frameType (mf_frame src) \<noteq> CU_EGL_FRAME_TYPE_PITCH \<or> frameType (mf_frame dst) \<noteq> CU_EGL_FRAME_TYPE_PITCH
            \<or> planeCount (mf_frame src) < expected_src_planes \<or> planeCount (mf_frame dst) < 2
            \<or> pPitch (mf_frame src) 0 = None
            \<or> 2 \<le> src_planes \<and> pPitch (mf_frame src) 1 = None \<or> 3 \<le> src_planes \<and> pPitch (mf_frame src) 2 = None
            \<or> pPitch (mf_frame dst) 0 = None \<or> pPitch (mf_frame dst) 1 = None
         then (False, setFailure ''validate-egl-frame'' (- 4) r1) else (True, r1))"

section \<open>The session\<close>

text \<open>\<open>cu_map\<close>: the pointer to the map in the device and the map.\<close>

record CudaUndistorter =
  cu_initialized :: bool
  cu_width :: u32
  cu_height :: u32
  cu_map :: "(nat \<times> remap) option"
  cu_stream :: "nat option"
  cu_event :: "nat option"
  cu_outputs :: "MappedEglFrame list"

definition CudaUndistorter_init :: CudaUndistorter where
  "CudaUndistorter_init = \<lparr>cu_initialized = False, cu_width = 0, cu_height = 0, cu_map = None, cu_stream = None, cu_event = None,
     cu_outputs = []\<rparr>"

definition cu_reset :: "CudaUndistorter \<Rightarrow> gpu_call list \<times> CudaUndistorter" where
  "cu_reset c =
     (reset_outputs (cu_outputs c) @ (case cu_map c of None \<Rightarrow> [] | Some m \<Rightarrow> [DeviceFreed (fst m)]) @
        (case cu_event c of None \<Rightarrow> [] | Some e \<Rightarrow> [EventDestroyed e]) @ (case cu_stream c of None \<Rightarrow> [] | Some s \<Rightarrow> [StreamDestroyed s]),
      CudaUndistorter_init)"

text \<open>The pairs of a list of floats.\<close>

definition remap_of :: "fval list \<Rightarrow> remap" where
  "remap_of map_xy a = (map_xy ! nat (2 * a), map_xy ! nat (2 * a + 1))"

record initialize_answer =
  in_context :: int
  in_stream :: "int + nat"
  in_event :: "int + nat"
  in_malloc :: "int + nat"
  in_memcpy :: int

definition cu_initialize :: "initialize_answer \<Rightarrow> u32 \<Rightarrow> u32 \<Rightarrow> fval list \<Rightarrow> CudaUndistorter \<Rightarrow> bool \<times> gpu_call list \<times> CudaUndistorter" where
  "cu_initialize a width height map_xy c =
     (let (calls0, c0) = cu_reset c; c1 = c0\<lparr>cu_width := width, cu_height := height\<rparr>
      in if width = 0 \<or> height = 0 \<or> length map_xy \<noteq> unat width * unat height * 2 then (False, calls0, c1)
         else (let (context_ok, initialized, _) = ensureCudaContext (in_context a) (cu_initialized c1) CudaResult_init;
                   c2 = c1\<lparr>cu_initialized := initialized\<rparr>
               in if \<not> context_ok then (False, calls0, c2)
                  else (case in_stream a of
                          Inl _ \<Rightarrow> (False, calls0, c2\<lparr>cu_stream := None\<rparr>)
                        | Inr stream \<Rightarrow>
                            (case in_event a of
                               Inl _ \<Rightarrow> (False, calls0 @ [StreamCreated stream, StreamDestroyed stream], c2\<lparr>cu_stream := None, cu_event := None\<rparr>)
                             | Inr event \<Rightarrow>
                                 (let calls1 = calls0 @ [StreamCreated stream, EventCreated event];
                                      c3 = c2\<lparr>cu_stream := Some stream, cu_event := Some event\<rparr>
                                  in (case in_malloc a of
                                        Inl _ \<Rightarrow> (let (calls2, c4) = cu_reset (c3\<lparr>cu_map := None\<rparr>) in (False, calls1 @ calls2, c4))
                                      | Inr p \<Rightarrow>
                                          (let c4 = c3\<lparr>cu_map := Some (p, remap_of map_xy)\<rparr>
                                           in if in_memcpy a \<noteq> 0
                                              then (let (calls2, c5) = cu_reset c4 in (False, calls1 @ [DeviceAllocated p] @ calls2, c5))
                                              else (True, calls1 @ [DeviceAllocated p], c4))))))))"

definition cu_prepareOutput ::
  "int \<Rightarrow> egl_answer \<Rightarrow> NvBufSurface option \<Rightarrow> CudaUndistorter \<Rightarrow> CudaResult \<Rightarrow> bool \<times> gpu_call list \<times> CudaUndistorter \<times> CudaResult" where
  "cu_prepareOutput context a dst c r =
     (let (valid, r1) = validateOutputSurface dst r
      in if \<not> valid then (False, [], c, r1)
         else (let (context_ok, initialized, r2) = ensureCudaContext context (cu_initialized c) r1;
                   c1 = c\<lparr>cu_initialized := initialized\<rparr>
               in if \<not> context_ok then (False, [], c1, r2)
                  else (let (ok, calls, outputs, r3) = add_output a dst (cu_outputs c1) r2
                        in (ok, calls, c1\<lparr>cu_outputs := outputs\<rparr>, r3))))"

section \<open>The launches\<close>

text \<open>\<open>sync_us\<close>: how long the wait took.\<close>

definition syncKernel :: "launch_answer \<Rightarrow> int \<Rightarrow> CudaResult \<Rightarrow> bool \<times> CudaResult" where
  "syncKernel a us r =
     (if la_error a \<noteq> 0 then (False, setFailure ''launch-kernel'' (la_error a) r)
      else (let ret = (if la_record a = 0 then la_sync a else la_record a); r1 = r\<lparr>sync_us := us\<rparr>
            in if ret \<noteq> 0 then (False, setFailure ''sync-kernel'' ret r1) else (True, r1\<lparr>res_ok := True\<rparr>)))"

definition launchNv12 ::
  "float_unit \<Rightarrow> gpu \<Rightarrow> launch_answer \<Rightarrow> int \<Rightarrow> NvBufSurface \<Rightarrow> NvBufSurface \<Rightarrow> MappedEglFrame \<Rightarrow> MappedEglFrame \<Rightarrow> CudaUndistorter
    \<Rightarrow> gpu_memory \<Rightarrow> CudaResult \<Rightarrow> bool \<times> gpu_memory \<times> CudaResult" where
  "launchNv12 F gpu a us src dst src_frame dst_frame c mem r =
     (let src_pp = planeParams src; dst_pp = planeParams dst;
          width = sint (plane_width src_pp 0); height = sint (plane_height src_pp 0)
      in if width \<noteq> sint (cu_width c) \<or> height \<noteq> sint (cu_height c) then (False, mem, setFailure ''validate-map-size'' (- 6) r)
         else (let map_xy = snd (the (cu_map c));
                   sp = (\<lambda>i. the (pPitch (mf_frame src_frame) i)); dp = (\<lambda>i. the (pPitch (mf_frame dst_frame) i));
                   mem1 = gpu_launch gpu (remapNv12YKernel F (mem (sp 0)) map_xy width height (sint (plane_pitch src_pp 0)) (sint (plane_pitch dst_pp 0)))
                            (picture_threads width height) (dp 0) mem;
                   mem2 = gpu_launch gpu (remapNv12UvKernel F (mem1 (sp 1)) map_xy width height (sint (plane_pitch src_pp 1)) (sint (plane_pitch dst_pp 1)))
                            (picture_threads (width div 2) (height div 2)) (dp 1) mem1;
                   (ok, r1) = syncKernel a us r
               in (ok, mem2, r1)))"

definition launchYuv422 ::
  "float_unit \<Rightarrow> gpu \<Rightarrow> launch_answer \<Rightarrow> int \<Rightarrow> NvBufSurface \<Rightarrow> NvBufSurface \<Rightarrow> MappedEglFrame \<Rightarrow> MappedEglFrame \<Rightarrow> RemapFormat
    \<Rightarrow> CudaUndistorter \<Rightarrow> gpu_memory \<Rightarrow> CudaResult \<Rightarrow> bool \<times> gpu_memory \<times> CudaResult" where
  "launchYuv422 F gpu a us src dst src_frame dst_frame source_format c mem r =
     (let src_pp = planeParams src; dst_pp = planeParams dst;
          width = sint (plane_width src_pp 0); height = sint (plane_height src_pp 0)
      in if width \<noteq> sint (cu_width c) \<or> height \<noteq> sint (cu_height c) then (False, mem, setFailure ''validate-map-size'' (- 6) r)
         else (let map_xy = snd (the (cu_map c));
                   sp = (\<lambda>i. the (pPitch (mf_frame src_frame) i)); dp = (\<lambda>i. the (pPitch (mf_frame dst_frame) i));
                   y_kernel = (if source_format = kPacked
                      then remapYuyvToNv12YKernel F (mem (sp 0)) map_xy width height (sint (plane_pitch src_pp 0)) (sint (plane_pitch dst_pp 0))
                      else remapYuv422ToNv12YKernel F (mem (sp 0)) map_xy width height (sint (plane_pitch src_pp 0)) (sint (plane_pitch dst_pp 0)));
                   mem1 = gpu_launch gpu y_kernel (picture_threads width height) (dp 0) mem;
                   uv_kernel = (if source_format = kPacked
                      then remapYuyvToNv12UvKernel F (mem1 (sp 0)) map_xy width height (sint (plane_pitch src_pp 0)) (sint (plane_pitch dst_pp 1))
                      else remapYuv422ToNv12UvKernel F (mem1 (sp 1)) (mem1 (sp 2)) map_xy width height
                             (sint (plane_pitch src_pp 1)) (sint (plane_pitch src_pp 2)) (sint (plane_pitch dst_pp 1)));
                   mem2 = gpu_launch gpu uv_kernel (picture_threads (width div 2) (height div 2)) (dp 1) mem1;
                   (ok, r1) = syncKernel a us r
               in (ok, mem2, r1)))"

text \<open>The times that \<open>remapCommon\<close> and \<open>syncKernel\<close> measure.\<close>

record remap_times =
  rt_map_us :: int
  rt_kernel_us :: int
  rt_sync_us :: int

definition remapCommon ::
  "float_unit \<Rightarrow> gpu \<Rightarrow> egl_answer \<Rightarrow> launch_answer \<Rightarrow> remap_times \<Rightarrow> NvBufSurface option \<Rightarrow> NvBufSurface option \<Rightarrow> int \<Rightarrow> RemapFormat
    \<Rightarrow> CudaUndistorter \<Rightarrow> gpu_memory \<Rightarrow> CudaResult \<Rightarrow> bool \<times> gpu_call list \<times> gpu_memory \<times> CudaResult" where
  "remapCommon F gpu sa la t src dst src_planes source_format c mem r =
     (case findOutput (cu_outputs c) dst of
        None \<Rightarrow> (False, [], mem, setFailure ''find-dst-egl'' (- 5) r)
      | Some dst_frame \<Rightarrow>
          (let (mapped, calls1, src_frame, r1) = mapEglFrame sa ''map-src-egl'' src MappedEglFrame_init r
           in if \<not> mapped then (False, calls1, mem, r1)
              else (let (mapped_ok, r2) = cu_validateMappedFrames src_frame dst_frame src_planes r1;
                        (kernel_ok, mem1, r3) =
                          (if mapped_ok
                           then (let (ok, m, r') = (if source_format = kNv12
                                    then launchNv12 F gpu la (rt_sync_us t) (the src) (the dst) src_frame dst_frame c mem r2
                                    else launchYuv422 F gpu la (rt_sync_us t) (the src) (the dst) src_frame dst_frame source_format c mem r2)
                                 in (ok, m, r'\<lparr>kernel_us := rt_kernel_us t\<rparr>))
                           else (False, mem, r2));
                        (calls2, _) = resetMappedFrame src_frame
                    in (mapped_ok \<and> kernel_ok, calls1 @ calls2, mem1, r3\<lparr>map_us := rt_map_us t\<rparr>))))"

definition remapNv12 ::
  "float_unit \<Rightarrow> gpu \<Rightarrow> int \<Rightarrow> egl_answer \<Rightarrow> egl_answer \<Rightarrow> launch_answer \<Rightarrow> remap_times \<Rightarrow> NvBufSurface option \<Rightarrow> NvBufSurface option
    \<Rightarrow> gpu_memory \<Rightarrow> CudaUndistorter \<Rightarrow> bool \<times> gpu_call list \<times> gpu_memory \<times> CudaUndistorter \<times> CudaResult" where
  "remapNv12 F gpu context pa sa la t src dst mem c =
     (if cu_map c = None then (False, [], mem, c, CudaResult_init)
      else (let (valid, r1) = validateNv12Pair src dst CudaResult_init
            in if \<not> valid then (False, [], mem, c, r1)
               else (let (prepared, calls1, c1, r2) = cu_prepareOutput context pa dst c r1
                     in if \<not> prepared then (False, calls1, mem, c1, r2)
                        else (let (ok, calls2, mem1, r3) = remapCommon F gpu sa la t src dst 2 kNv12 c1 mem r2
                              in (ok, calls1 @ calls2, mem1, c1, r3)))))"

definition remapYuv422ToNv12 ::
  "float_unit \<Rightarrow> gpu \<Rightarrow> int \<Rightarrow> egl_answer \<Rightarrow> egl_answer \<Rightarrow> launch_answer \<Rightarrow> remap_times \<Rightarrow> NvBufSurface option \<Rightarrow> NvBufSurface option
    \<Rightarrow> gpu_memory \<Rightarrow> CudaUndistorter \<Rightarrow> bool \<times> gpu_call list \<times> gpu_memory \<times> CudaUndistorter \<times> CudaResult" where
  "remapYuv422ToNv12 F gpu context pa sa la t src dst mem c =
     (if cu_map c = None then (False, [], mem, c, CudaResult_init)
      else (let (valid, source_format, r1) = validateYuv422ToNv12Pair src dst kPlanar CudaResult_init
            in if \<not> valid then (False, [], mem, c, r1)
               else (let (prepared, calls1, c1, r2) = cu_prepareOutput context pa dst c r1
                     in if \<not> prepared then (False, calls1, mem, c1, r2)
                        else (let src_planes = (if source_format = kPacked then 1 else 3);
                                  (ok, calls2, mem1, r3) = remapCommon F gpu sa la t src dst src_planes source_format c1 mem r2
                              in (ok, calls1 @ calls2, mem1, c1, r3)))))"

section \<open>Nothing is left mapped\<close>

definition cu_held :: "CudaUndistorter \<Rightarrow> gpu_resource multiset" where
  "cu_held c = outputs_held (cu_outputs c) + opt_mset (DeviceMemory \<circ> fst) (cu_map c) + opt_mset Stream (cu_stream c) + opt_mset Event (cu_event c)"

definition cu_ok :: "CudaUndistorter \<Rightarrow> bool" where
  "cu_ok c \<longleftrightarrow> outputs_ok (cu_outputs c) \<and> (cu_map c \<noteq> None \<longrightarrow> cu_stream c \<noteq> None \<and> cu_event c \<noteq> None \<and> cu_width c \<noteq> 0 \<and> cu_height c \<noteq> 0)"

inductive cu_step :: "CudaUndistorter \<Rightarrow> gpu_call list \<Rightarrow> CudaUndistorter \<Rightarrow> bool" where
  cu_s_initialize: "cu_initialize a w h m c = (ok, calls, c') \<Longrightarrow> cu_step c calls c'"
| cu_s_prepare: "cu_prepareOutput context a dst c r = (ok, calls, c', r') \<Longrightarrow> cu_step c calls c'"
| cu_s_nv12: "remapNv12 F gpu context pa sa la t src dst mem c = (ok, calls, mem', c', r') \<Longrightarrow> cu_step c calls c'"
| cu_s_yuv422: "remapYuv422ToNv12 F gpu context pa sa la t src dst mem c = (ok, calls, mem', c', r') \<Longrightarrow> cu_step c calls c'"
| cu_s_reset: "cu_reset c = (calls, c') \<Longrightarrow> cu_step c calls c'"

lemma cu_init_ok: "cu_ok CudaUndistorter_init \<and> cu_held CudaUndistorter_init = {#}"
  by (simp add: cu_held_def CudaUndistorter_init_def cu_ok_def outputs_ok_def)

lemma cu_reset_balanced:
  assumes "cu_reset c = (calls, c')"
  shows "gpu_balanced cu_held c calls c' \<and> c' = CudaUndistorter_init"
  using assms by (auto simp: cu_reset_def balanced_def cu_held_def CudaUndistorter_init_def reset_outputs_ledger opt_mset_def split: option.splits)

lemma cu_initialize_balanced:
  assumes "cu_initialize a w h m c = (ok, calls, c')"
  shows "gpu_balanced cu_held c calls c' \<and> cu_ok c' \<and> (ok \<longleftrightarrow> cu_map c' \<noteq> None)"
proof -
  obtain t0 c0 where 0: "cu_reset c = (t0, c0)" by fastforce
  have b: "cu_held c + total gpu_acquired t0 = total gpu_released t0" "c0 = CudaUndistorter_init"
    using cu_reset_balanced [OF 0] cu_init_ok by (simp_all add: balanced_def)
  show ?thesis using assms 0 b
    by (auto simp: cu_initialize_def cu_reset_def ensureCudaContext_def balanced_def cu_held_def CudaUndistorter_init_def cu_ok_def
        outputs_ok_def reset_outputs_def Let_def split: if_splits sum.splits)
qed

lemma cu_prepareOutput_balanced:
  assumes "cu_prepareOutput context a dst c r = (ok, calls, c', r')" "cu_ok c"
  shows "gpu_balanced cu_held c calls c' \<and> cu_ok c'"
proof -
  obtain v r1 where 1: "validateOutputSurface dst r = (v, r1)" by fastforce
  obtain co i r2 where 2: "ensureCudaContext context (cu_initialized c) r1 = (co, i, r2)" by (metis prod_cases3)
  obtain ao t outs r3 where 3: "add_output a dst (cu_outputs c) r2 = (ao, t, outs, r3)" by (metis prod_cases4)
  have o: "outputs_held (cu_outputs c) + total gpu_acquired t = outputs_held outs + total gpu_released t" "outputs_ok outs"
    using add_output_balanced [OF 3] add_output_ok [OF 3] assms(2) by (simp_all add: balanced_def cu_ok_def)
  show ?thesis using assms 1 2 3 o
    by (auto simp: cu_prepareOutput_def balanced_def cu_held_def cu_ok_def Let_def ac_simps split: if_splits)
qed

lemma remapCommon_balanced:
  assumes "remapCommon F gpu sa la t src dst n f c mem r = (ok, calls, mem', r')"
  shows "total gpu_acquired calls = total gpu_released calls"
proof -
  obtain mo t2 m r3 where 3: "mapEglFrame sa ''map-src-egl'' src MappedEglFrame_init r = (mo, t2, m, r3)" by (metis prod_cases4)
  show ?thesis using assms 3 mapped_source_balanced [OF 3]
    by (auto simp: remapCommon_def Let_def split_def split: if_splits option.splits)
qed

lemma balanced_append_neutral:
  "balanced acq rel hold s t1 s1 \<Longrightarrow> total acq t2 = total rel t2 \<Longrightarrow> balanced acq rel hold s (t1 @ t2) s1"
  by (rule balanced_trans) (simp_all add: balanced_def)

lemma remapNv12_balanced:
  assumes "remapNv12 F gpu context pa sa la t src dst mem c = (ok, calls, mem', c', r')" "cu_ok c"
  shows "gpu_balanced cu_held c calls c' \<and> cu_ok c'"
proof -
  obtain v r1 where 1: "validateNv12Pair src dst CudaResult_init = (v, r1)" by fastforce
  obtain po t1 c1 r2 where 2: "cu_prepareOutput context pa dst c r1 = (po, t1, c1, r2)" by (metis prod_cases4)
  obtain ro t2 m3 r3 where 3: "remapCommon F gpu sa la t src dst 2 kNv12 c1 mem r2 = (ro, t2, m3, r3)" by (metis prod_cases4)
  note p = cu_prepareOutput_balanced [OF 2 assms(2)]
  show ?thesis using assms 1 2 3 p balanced_append_neutral [OF p [THEN conjunct1] remapCommon_balanced [OF 3]]
    by (auto simp: remapNv12_def split: if_splits)
qed

lemma remapYuv422ToNv12_balanced:
  assumes "remapYuv422ToNv12 F gpu context pa sa la t src dst mem c = (ok, calls, mem', c', r')" "cu_ok c"
  shows "gpu_balanced cu_held c calls c' \<and> cu_ok c'"
proof -
  obtain v f r1 where 1: "validateYuv422ToNv12Pair src dst kPlanar CudaResult_init = (v, f, r1)" by (metis prod_cases3)
  obtain po t1 c1 r2 where 2: "cu_prepareOutput context pa dst c r1 = (po, t1, c1, r2)" by (metis prod_cases4)
  obtain ro t2 m3 r3 where 3: "remapCommon F gpu sa la t src dst (if f = kPacked then 1 else 3) f c1 mem r2 = (ro, t2, m3, r3)"
    by (metis prod_cases4)
  note p = cu_prepareOutput_balanced [OF 2 assms(2)]
  show ?thesis using assms 1 2 3 p balanced_append_neutral [OF p [THEN conjunct1] remapCommon_balanced [OF 3]]
    by (auto simp: remapYuv422ToNv12_def Let_def split: if_splits)
qed

lemma cu_step_balanced: "cu_ok c \<Longrightarrow> cu_step c calls c' \<Longrightarrow> cu_ok c' \<and> gpu_balanced cu_held c calls c'"
  by (erule cu_step.cases) (use cu_init_ok in \<open>auto dest: cu_initialize_balanced cu_prepareOutput_balanced remapNv12_balanced
      remapYuv422ToNv12_balanced cu_reset_balanced\<close>)

interpretation undistortion: ledger gpu_acquired gpu_released cu_held cu_ok cu_step CudaUndistorter_init
  by unfold_locales (rule cu_init_ok, erule (1) cu_step_balanced)

text \<open>The undistorter gives everything back too, its map included.\<close>

lemma undistorter_leaves_nothing_mapped:
  assumes "run_of cu_step CudaUndistorter_init c t"
  shows "total gpu_acquired (t @ fst (cu_reset c)) = total gpu_released (t @ fst (cu_reset c))"
proof -
  have "cu_step c (fst (cu_reset c)) (snd (cu_reset c))" by (rule cu_s_reset [OF prod.collapse [symmetric]])
  then show ?thesis
    using undistortion.all_given_back [OF assms] cu_reset_balanced [OF prod.collapse [symmetric]] cu_init_ok by metis
qed

end
