(* ===== verification/GpuEyes.thy ===== *)
theory GpuEyes
  imports GpuUndistorter
begin

text \<open>
  \<open>src/src/video/cuda_eye_image_processor.cu\<close>: one half of the stereo frame is scaled and turned into RGB by a kernel, and
  copied to the host. Floats, mapping and the GPU are as in \<open>GpuRemap\<close>, \<open>GpuSurfaces\<close> and \<open>GpuConverter\<close>; the names of
  the session begin with \<open>ce_\<close>.
\<close>

section \<open>The kernel\<close>

definition sampleU8 :: "float_unit \<Rightarrow> plane \<Rightarrow> int \<Rightarrow> int \<Rightarrow> int \<Rightarrow> fval \<Rightarrow> fval \<Rightarrow> u8" where
  "sampleU8 F plane pitch width height sx sy = bilinear F (\<lambda>x y. plane (y * pitch + x)) width height sx sy"

text \<open>\<open>>>\<close> of a negative int rounds down.\<close>

definition nv12ToRgb :: "u8 \<Rightarrow> u8 \<Rightarrow> u8 \<Rightarrow> u8 \<times> u8 \<times> u8" where
  "nv12ToRgb y u v =
     (let yy = uint y; uu = uint u - 128; vv = uint v - 128;
          rr = yy + drop_bit 8 (359 * vv); gg = yy - drop_bit 8 (88 * uu + 183 * vv); bb = yy + drop_bit 8 (454 * uu)
      in (of_int (clampI rr 0 255), of_int (clampI gg 0 255), of_int (clampI bb 0 255)))"

text \<open>\<open>(i + 0.5) * size / out\<close>.\<close>

definition scaled :: "float_unit \<Rightarrow> int \<Rightarrow> int \<Rightarrow> int \<Rightarrow> rat" where
  "scaled F i from_size to_size =
     rnd F (rnd F (rnd F (rnd F (of_int i) + 1 / 2) * rnd F (of_int from_size)) / rnd F (of_int to_size))"

definition eye_sx :: "float_unit \<Rightarrow> int \<Rightarrow> int \<Rightarrow> int \<Rightarrow> int \<Rightarrow> rat" where
  "eye_sx F src_width out_width eye_offset_x x =
     rnd F (rnd F (rnd F (of_int eye_offset_x) + scaled F x (src_width div 2) out_width) - 1 / 2)"

definition eye_sy :: "float_unit \<Rightarrow> int \<Rightarrow> int \<Rightarrow> int \<Rightarrow> rat" where
  "eye_sy F src_height out_height y = rnd F (scaled F y src_height out_height - 1 / 2)"

definition eye_pixel :: "float_unit \<Rightarrow> plane \<Rightarrow> plane \<Rightarrow> int \<Rightarrow> int \<Rightarrow> int \<Rightarrow> int \<Rightarrow> int \<Rightarrow> int \<Rightarrow> int \<Rightarrow> pixel \<Rightarrow> u8 \<times> u8 \<times> u8" where
  "eye_pixel F src_y src_uv src_width src_height src_y_pitch src_uv_pitch out_width out_height eye_offset_x = (\<lambda>(x, y).
     (let sx = eye_sx F src_width out_width eye_offset_x x; sy = eye_sy F src_height out_height y;
          yv = sampleU8 F src_y src_y_pitch src_width src_height (Some sx) (Some sy);
          uv_x = rnd F (sx * (1 / 2)); uv_y = rnd F (sy * (1 / 2)); uv_width = src_width div 2; uv_height = src_height div 2;
          u = bilinear F (\<lambda>x y. src_uv (y * src_uv_pitch + x * 2)) uv_width uv_height (Some uv_x) (Some uv_y);
          v = bilinear F (\<lambda>x y. src_uv (y * src_uv_pitch + x * 2 + 1)) uv_width uv_height (Some uv_x) (Some uv_y)
      in nv12ToRgb yv u v))"

definition eyeRgbKernel :: "float_unit \<Rightarrow> plane \<Rightarrow> plane \<Rightarrow> int \<Rightarrow> int \<Rightarrow> int \<Rightarrow> int \<Rightarrow> int \<Rightarrow> int \<Rightarrow> int \<Rightarrow> kernel" where
  "eyeRgbKernel F src_y src_uv src_width src_height src_y_pitch src_uv_pitch out_width out_height eye_offset_x = (\<lambda>(x, y).
     if out_width \<le> x \<or> out_height \<le> y then []
     else (let (r, g, b) = eye_pixel F src_y src_uv src_width src_height src_y_pitch src_uv_pitch out_width out_height eye_offset_x (x, y);
               idx = (y * out_width + x) * 3
           in [(idx + 0, r), (idx + 1, g), (idx + 2, b)]))"

definition eye_threads :: "int \<Rightarrow> int \<Rightarrow> pixel list" where
  "eye_threads w h = grid_threads (grid_for w h (16, 16)) (16, 16)"

section \<open>The session\<close>

record CudaEyes =
  ce_initialized :: bool
  ce_src_width :: u32
  ce_src_height :: u32
  ce_out_width :: u32
  ce_out_height :: u32
  ce_rgb :: "nat option"
  ce_rgb_bytes :: nat
  ce_stream :: "nat option"
  ce_event :: "nat option"

definition CudaEyes_init :: CudaEyes where
  "CudaEyes_init = \<lparr>ce_initialized = False, ce_src_width = 0, ce_src_height = 0, ce_out_width = 0, ce_out_height = 0, ce_rgb = None,
     ce_rgb_bytes = 0, ce_stream = None, ce_event = None\<rparr>"

definition ce_reset :: "CudaEyes \<Rightarrow> gpu_call list \<times> CudaEyes" where
  "ce_reset c =
     ((case ce_rgb c of None \<Rightarrow> [] | Some p \<Rightarrow> [DeviceFreed p]) @ (case ce_event c of None \<Rightarrow> [] | Some e \<Rightarrow> [EventDestroyed e]) @
        (case ce_stream c of None \<Rightarrow> [] | Some s \<Rightarrow> [StreamDestroyed s]), CudaEyes_init)"

definition ce_initialize :: "initialize_answer \<Rightarrow> u32 \<Rightarrow> u32 \<Rightarrow> u32 \<Rightarrow> u32 \<Rightarrow> CudaEyes \<Rightarrow> bool \<times> gpu_call list \<times> CudaEyes" where
  "ce_initialize a src_width src_height out_width out_height c =
     (let (calls0, c0) = ce_reset c;
          c1 = c0\<lparr>ce_src_width := src_width, ce_src_height := src_height, ce_out_width := out_width, ce_out_height := out_height\<rparr>
      in if src_width = 0 \<or> src_height = 0 \<or> src_width AND 1 \<noteq> 0 \<or> out_width = 0 \<or> out_height = 0 then (False, calls0, c1)
         else (let (context_ok, initialized, _) = ensureCudaContext (in_context a) (ce_initialized c1) CudaResult_init;
                   c2 = c1\<lparr>ce_initialized := initialized\<rparr>
               in if \<not> context_ok then (False, calls0, c2)
                  else (case in_stream a of
                          Inl _ \<Rightarrow> (False, calls0, c2\<lparr>ce_stream := None\<rparr>)
                        | Inr stream \<Rightarrow>
                            (case in_event a of
                               Inl _ \<Rightarrow> (False, calls0 @ [StreamCreated stream, StreamDestroyed stream], c2\<lparr>ce_stream := None, ce_event := None\<rparr>)
                             | Inr event \<Rightarrow>
                                 (let calls1 = calls0 @ [StreamCreated stream, EventCreated event];
                                      c3 = c2\<lparr>ce_stream := Some stream, ce_event := Some event, ce_rgb_bytes := unat out_width * unat out_height * 3\<rparr>
                                  in (case in_malloc a of
                                        Inl _ \<Rightarrow> (let (calls2, c4) = ce_reset c3 in (False, calls1 @ calls2, c4))
                                      | Inr p \<Rightarrow> (True, calls1 @ [DeviceAllocated p], c3\<lparr>ce_rgb := Some p\<rparr>)))))))"

text \<open>\<open>pe_copy\<close>: the answer of the copy to the host.\<close>

record process_answer =
  pe_context :: int
  pe_egl :: egl_answer
  pe_launch :: launch_answer
  pe_copy :: int
  pe_times :: remap_times

text \<open>\<open>rgb_size\<close>: the size of the buffer of the caller, unless it is null. The bytes are those the buffer holds when the
  call succeeds.\<close>

definition processEye ::
  "float_unit \<Rightarrow> gpu \<Rightarrow> process_answer \<Rightarrow> NvBufSurface option \<Rightarrow> bool \<Rightarrow> nat option \<Rightarrow> gpu_memory \<Rightarrow> CudaEyes
    \<Rightarrow> bytes option \<times> gpu_call list \<times> gpu_memory \<times> CudaEyes \<times> CudaResult" where
  "processEye F gpu a src is_right_eye rgb_size mem c =
     (case (src, rgb_size, ce_stream c, ce_rgb c) of
        (Some s, Some n, Some _, Some p) \<Rightarrow>
          if n < ce_rgb_bytes c then (None, [], mem, c, setFailure ''invalid-input'' (- 1) CudaResult_init)
          else (let (context_ok, initialized, r0) = ensureCudaContext (pe_context a) (ce_initialized c) CudaResult_init;
                    c1 = c\<lparr>ce_initialized := initialized\<rparr>
                in if \<not> context_ok then (None, [], mem, c1, r0)
                   else (let (mapped_ok, calls1, src_frame, r1) = mapEglFrame (pe_egl a) ''map-src-egl'' src MappedEglFrame_init r0
                         in if \<not> mapped_ok then (None, calls1, mem, c1, r1)
                            else (let (calls2, _) = resetMappedFrame src_frame; calls = calls1 @ calls2
                                  in if \<not> nv12_frame (mf_frame src_frame)
                                     then (None, calls, mem, c1, setFailure ''validate-egl-frame'' (- 2) r1)
                                     else (let pp = planeParams s; sp = (\<lambda>i. the (pPitch (mf_frame src_frame) i));
                                               eye_offset_x = (if is_right_eye then sint (ce_src_width c1 div 2) else 0);
                                               k = eyeRgbKernel F (mem (sp 0)) (mem (sp 1)) (sint (ce_src_width c1)) (sint (ce_src_height c1))
                                                     (sint (plane_pitch pp 0)) (sint (plane_pitch pp 1)) (sint (ce_out_width c1)) (sint (ce_out_height c1))
                                                     eye_offset_x;
                                               mem1 = gpu_launch gpu k (eye_threads (sint (ce_out_width c1)) (sint (ce_out_height c1))) p mem;
                                               la = pe_launch a
                                           in if la_error la \<noteq> 0 then (None, calls, mem1, c1, setFailure ''launch-kernel'' (la_error la) r1)
                                              else if pe_copy a \<noteq> 0 then (None, calls, mem1, c1, setFailure ''copy-rgb'' (pe_copy a) r1)
                                              else (let ret = (if la_record la = 0 then la_sync la else la_record la);
                                                        r2 = r1\<lparr>map_us := rt_map_us (pe_times a), kernel_us := rt_kernel_us (pe_times a),
                                                                sync_us := rt_sync_us (pe_times a)\<rparr>
                                                    in if ret \<noteq> 0 then (None, calls, mem1, c1, setFailure ''sync-kernel'' ret r2)
                                                       else (Some (map (\<lambda>i. mem1 p (int i)) [0..<ce_rgb_bytes c1]), calls, mem1, c1,
                                                             r2\<lparr>res_ok := True\<rparr>))))))
      | _ \<Rightarrow> (None, [], mem, c, setFailure ''invalid-input'' (- 1) CudaResult_init))"

definition ce_held :: "CudaEyes \<Rightarrow> gpu_resource multiset" where
  "ce_held c = opt_mset DeviceMemory (ce_rgb c) + opt_mset Stream (ce_stream c) + opt_mset Event (ce_event c)"

lemma ce_reset_balanced:
  assumes "ce_reset c = (calls, c')"
  shows "gpu_balanced ce_held c calls c' \<and> c' = CudaEyes_init"
  using assms by (auto simp: ce_reset_def balanced_def ce_held_def CudaEyes_init_def opt_mset_def split: option.splits)

lemma ce_initialize_balanced:
  assumes "ce_initialize a sw sh ow oh c = (ok, calls, c')"
  shows "gpu_balanced ce_held c calls c' \<and> (ok \<longrightarrow> ce_rgb_bytes c' = unat ow * unat oh * 3)"
proof -
  obtain t0 c0 where 0: "ce_reset c = (t0, c0)" by fastforce
  have b: "ce_held c + total gpu_acquired t0 = total gpu_released t0" "c0 = CudaEyes_init"
    using ce_reset_balanced [OF 0] by (simp_all add: balanced_def ce_held_def CudaEyes_init_def)
  show ?thesis using assms 0 b
    by (auto simp: ce_initialize_def ce_reset_def ensureCudaContext_def balanced_def ce_held_def CudaEyes_init_def Let_def
        split: if_splits sum.splits)
qed

lemma processEye_balanced:
  assumes "processEye F gpu a src right n mem c = (rgb, calls, mem', c', r)"
  shows "gpu_balanced ce_held c calls c' \<and> ce_rgb_bytes c' = ce_rgb_bytes c \<and> (case rgb of None \<Rightarrow> True | Some d \<Rightarrow> length d = ce_rgb_bytes c)"
proof -
  define r0 where "r0 = snd (snd (ensureCudaContext (pe_context a) (ce_initialized c) CudaResult_init))"
  obtain mo t m r1 where 1: "mapEglFrame (pe_egl a) ''map-src-egl'' src MappedEglFrame_init r0 = (mo, t, m, r1)" by (metis prod_cases4)
  note s = mapped_source_balanced [OF 1]
  show ?thesis
    using assms s 1
    by (auto simp: processEye_def ensureCudaContext_def r0_def Let_def split_def balanced_def ce_held_def split: option.splits if_splits)
qed

section \<open>Colours\<close>

lemma nv12ToRgb_gray: "nv12ToRgb y 128 128 = (y, y, y)"
proof -
  have "0 \<le> uint y" "uint y < 256" using uint_lt2p [of y] by simp_all
  then show ?thesis by (simp add: nv12ToRgb_def clampI_def)
qed

section \<open>Each image shows one eye\<close>

text \<open>A sample does not depend on columns that are neither left nor right of its position.\<close>

lemma bilinear_depends:
  assumes F: "float_ok F" and w: "1 \<le> w" "w \<le> 2 ^ 23" and h: "1 \<le> h" "h \<le> 2 ^ 23"
    and lo: "of_int lo \<le> clampFloat sx 0 (of_int (w - 1))" and hi: "clampFloat sx 0 (of_int (w - 1)) \<le> of_int hi"
    and same: "\<And>x y. lo \<le> x \<Longrightarrow> x \<le> hi \<Longrightarrow> 0 \<le> y \<Longrightarrow> y < h \<Longrightarrow> pix x y = pix' x y"
  shows "bilinear F pix w h sx sy = bilinear F pix' w h sx sy"
proof -
  define cx where "cx = clampFloat sx 0 (rnd F (of_int (w - 1)))"
  define cy where "cy = clampFloat sy 0 (rnd F (of_int (h - 1)))"
  define x0 y0 where "x0 = \<lfloor>cx\<rfloor>" and "y0 = \<lfloor>cy\<rfloor>"
  define x1 y1 where "x1 = min (x0 + 1) (w - 1)" and "y1 = min (y0 + 1) (h - 1)"
  have wr: "rnd F (of_int (w - 1)) = of_int (w - 1)" "rnd F (of_int (h - 1)) = of_int (h - 1)"
    using w h by (intro float_int [OF F]; simp)+
  have c: "of_int lo \<le> cx" "cx \<le> of_int hi" "0 \<le> cx" "0 \<le> cy" "cy \<le> of_int (h - 1)"
    using lo hi clampFloat_bounds [of 0 "of_int (w - 1)" sx] clampFloat_bounds [of 0 "of_int (h - 1)" sy] w h
    unfolding cx_def cy_def wr by (simp_all del: of_int_diff)
  have x0: "lo \<le> x0" "x0 \<le> hi" "0 \<le> x0" using c by (simp_all add: x0_def le_floor_iff floor_le_iff)
  have y: "0 \<le> y0" "y0 < h" "0 \<le> y1" "y1 < h" using c h by (auto simp: y0_def y1_def floor_le_iff floor_less_iff)
  have p0: "pix x0 y0 = pix' x0 y0" "pix x0 y1 = pix' x0 y1" using same x0 y by auto
  have r0: "rnd F 0 = 0" using float_int [OF F, of 0] by simp
  define fx where "fx = rnd F (cx - rnd F (of_int x0))"
  have m: "mad F (rnd F (of_int (uint (pix x1 b)) - of_int (uint (pix' x0 b)))) fx (of_int (uint (pix' x0 b)))
      = mad F (rnd F (of_int (uint (pix' x1 b)) - of_int (uint (pix' x0 b)))) fx (of_int (uint (pix' x0 b)))"
    if b: "b = y0 \<or> b = y1" for b
  proof (cases "x1 \<le> hi")
    case True
    have "lo \<le> x1" using x0 c(1) hi lo w unfolding x1_def
      by (smt (verit) cx_def clampFloat_bounds floor_of_int floor_mono of_int_le_iff wr(1) of_int_0_le_iff)
    then have "pix x1 b = pix' x1 b" using same [of x1 b] True y b by auto
    then show ?thesis by simp
  next
    case False
    then have "x0 = hi" using x0 by (simp add: x1_def)
    then have "cx = of_int x0" using c(2) by (simp add: x0_def) linarith
    moreover have "\<bar>x0\<bar> \<le> 2 ^ 24"
    proof -
      have "cx \<le> of_int (w - 1)" using clampFloat_bounds [of 0 "of_int (w - 1)" sx] w unfolding cx_def wr by (simp del: of_int_diff)
      then have "x0 \<le> w - 1" by (simp add: x0_def floor_le_iff) linarith
      then show ?thesis using x0 w by simp
    qed
    ultimately have "fx = 0" using float_int [OF F, of x0] r0 by (simp add: fx_def)
    moreover have "mad F d 0 a = rnd F a" for d a by (rule float_mad_cases [OF F, of d 0 a]) (simp_all add: r0)
    ultimately show ?thesis by simp
  qed
  note m = m [OF disjI1 [OF refl]] m [OF disjI2 [OF refl]]
  show ?thesis
    unfolding bilinear_def Let_def cx_def [symmetric] cy_def [symmetric] x0_def [symmetric] y0_def [symmetric]
      x1_def [symmetric] y1_def [symmetric] fx_def [symmetric] p0 m by (rule refl)
qed

lemma rnd_half:
  assumes "float_ok F" "\<bar>k\<bar> \<le> 2 ^ 24"
  shows "rnd F (of_int k / 2) = of_int k / 2"
  using float_exact [OF assms(1,2), of 1] by simp

text \<open>Where the columns of the output look, when the output is at most a third of the eye: away from the seam.\<close>

lemma scaled_bounds:
  assumes F: "float_ok F" and i: "0 \<le> i" "i < n" and n: "3 * n \<le> half" and exact: "2 * n * half \<le> 2 ^ 24" and half: "half \<le> 2 ^ 22"
  shows "3 / 2 \<le> scaled F i half n \<and> scaled F i half n \<le> of_int half - 3 / 2"
proof -
  have pos: "1 \<le> n" "3 \<le> half" using i n by simp_all
  have nb: "n \<le> 2 ^ 23" using n half pos by simp
  have r: "rnd F (of_int i) = of_int i" "rnd F (of_int half) = of_int half" "rnd F (of_int n) = of_int n"
    using i n half nb pos by (intro float_int [OF F]; simp)+
  have a: "rnd F (of_int i + 1 / 2) = of_int (2 * i + 1) / 2"
    using rnd_half [OF F, of "2 * i + 1"] i nb by (simp add: add_divide_distrib)
  have m1: "(2 * i + 1) * half \<le> 2 ^ 24"
  proof -
    have "(2 * i + 1) * half \<le> (2 * n) * half" using i pos by (intro mult_right_mono) auto
    from order_trans [OF this exact] show ?thesis .
  qed
  have m: "rnd F (of_int (2 * i + 1) / 2 * of_int half) = of_int ((2 * i + 1) * half) / 2"
    using rnd_half [OF F, of "(2 * i + 1) * half"] m1 i pos by simp
  have e: "scaled F i half n = rnd F (of_int ((2 * i + 1) * half) / 2 / of_int n)"
    by (simp only: scaled_def r a m)
  have nq: "(0 :: rat) < of_int n" using pos by simp
  have lo: "(3 :: rat) / 2 \<le> of_int ((2 * i + 1) * half) / 2 / of_int n"
  proof -
    have "3 * n \<le> (2 * i + 1) * half"
    proof -
      have "1 * half \<le> (2 * i + 1) * half" using i pos by (intro mult_right_mono) auto
      then show ?thesis using n by simp
    qed
    then have "(of_int (3 * n) :: rat) \<le> of_int ((2 * i + 1) * half)" by (simp only: of_int_le_iff)
    then show ?thesis using nq by (simp add: field_simps)
  qed
  have hi: "of_int ((2 * i + 1) * half) / 2 / of_int n \<le> of_int half - (3 :: rat) / 2"
  proof -
    have "(2 * i + 1) * half \<le> (2 * n - 1) * half" using i pos by (intro mult_right_mono) auto
    then have "(2 * i + 1) * half \<le> (2 * half - 3) * n" using n by (simp add: algebra_simps)
    then have "(of_int ((2 * i + 1) * half) :: rat) \<le> of_int ((2 * half - 3) * n)" by (simp only: of_int_le_iff)
    then show ?thesis using nq by (simp add: field_simps)
  qed
  have "rnd F (3 / 2) = 3 / 2" using rnd_half [OF F, of 3] by simp
  moreover have "rnd F (of_int half - 3 / 2) = of_int half - 3 / 2"
    using rnd_half [OF F, of "2 * half - 3"] half pos by (simp add: diff_divide_distrib)
  ultimately show ?thesis using float_mono [OF F lo] float_mono [OF F hi] unfolding e by simp
qed

lemma eye_sx_bounds:
  assumes F: "float_ok F" and i: "0 \<le> i" "i < n" and n: "3 * n \<le> half" and exact: "2 * n * half \<le> 2 ^ 24" and half: "half \<le> 2 ^ 22" and off: "off = 0 \<or> off = half"
  shows "of_int off + 1 \<le> eye_sx F (2 * half) n off i \<and> eye_sx F (2 * half) n off i \<le> of_int (off + half) - 2"
proof -
  have pos: "1 \<le> n" "3 \<le> half" using i n by simp_all
  have s: "3 / 2 \<le> scaled F i half n" "scaled F i half n \<le> of_int half - 3 / 2" using scaled_bounds [OF F i n exact half] by simp_all
  have ro: "rnd F (of_int off) = of_int off" using off half pos by (intro float_int [OF F]) auto
  have h1: "rnd F (of_int off + 3 / 2) = of_int off + 3 / 2"
    using rnd_half [OF F, of "2 * off + 3"] off half pos by (auto simp: add_divide_distrib)
  have h2: "rnd F (of_int off + (of_int half - 3 / 2)) = of_int off + (of_int half - 3 / 2)"
    using rnd_half [OF F, of "2 * off + 2 * half - 3"] off half pos by (auto simp: add_divide_distrib diff_divide_distrib)
  define t where "t = rnd F (of_int off + scaled F i half n)"
  have t: "of_int off + 3 / 2 \<le> t" "t \<le> of_int off + (of_int half - 3 / 2)"
    using float_mono [OF F, of "of_int off + 3 / 2" "of_int off + scaled F i half n"]
      float_mono [OF F, of "of_int off + scaled F i half n" "of_int off + (of_int half - 3 / 2)"] s by (simp_all add: h1 h2 t_def)
  have e: "eye_sx F (2 * half) n off i = rnd F (t - 1 / 2)" by (simp add: eye_sx_def ro t_def)
  have g: "rnd F (of_int (off + 1)) = of_int (off + 1)" "rnd F (of_int (off + half - 2)) = of_int (off + half - 2)"
    using off half pos by (intro float_int [OF F]; auto)+
  have "(of_int (off + 1) :: rat) \<le> t - 1 / 2" "t - 1 / 2 \<le> (of_int (off + half - 2) :: rat)" using t by simp_all
  from float_mono [OF F this(1)] float_mono [OF F this(2)] show ?thesis by (simp add: e g [simplified])
qed

text \<open>The left eye is the left half of both planes, the right eye the right half.\<close>

definition same_eye :: "int \<Rightarrow> int \<Rightarrow> int \<Rightarrow> plane \<Rightarrow> plane \<Rightarrow> int \<Rightarrow> plane \<Rightarrow> plane \<Rightarrow> int \<Rightarrow> bool" where
  "same_eye off half height y_plane y_plane' y_pitch uv_plane uv_plane' uv_pitch \<longleftrightarrow>
     (\<forall>x y. off \<le> x \<and> x < off + half \<and> 0 \<le> y \<and> y < height \<longrightarrow> y_plane (y * y_pitch + x) = y_plane' (y * y_pitch + x))
   \<and> (\<forall>x y. off div 2 \<le> x \<and> x < (off + half) div 2 \<and> 0 \<le> y \<and> y < height div 2 \<longrightarrow>
        uv_plane (y * uv_pitch + x * 2) = uv_plane' (y * uv_pitch + x * 2)
      \<and> uv_plane (y * uv_pitch + x * 2 + 1) = uv_plane' (y * uv_pitch + x * 2 + 1))"

lemma eye_pixel_depends:
  assumes F: "float_ok F" and x: "0 \<le> x" "x < n" and n: "3 * n \<le> half" and exact: "2 * n * half \<le> 2 ^ 24" and half: "half \<le> 2 ^ 22"
    and off: "off = 0 \<or> off = half" and "even half" and h: "2 \<le> height" "height \<le> 2 ^ 23"
    and same: "same_eye off half height Y Y' yp UV UV' uvp"
  shows "eye_pixel F Y UV (2 * half) height yp uvp n oh off (x, y) = eye_pixel F Y' UV' (2 * half) height yp uvp n oh off (x, y)"
proof -
  have pos: "1 \<le> n" "3 \<le> half" using x n by simp_all
  obtain q where q: "half = 2 * q" using \<open>even half\<close> by (elim evenE)
  obtain o2 where o2: "off = 2 * o2" "o2 = 0 \<or> o2 = q" using off q by auto
  define sx where "sx = eye_sx F (2 * half) n off x"
  have sx: "of_int off + 1 \<le> sx" "sx \<le> of_int (off + half) - 2" using eye_sx_bounds [OF F x n exact half off] by (simp_all add: sx_def)
  have q3: "2 \<le> q" using q pos by simp
  have offb: "(0 :: rat) \<le> of_int off" "(of_int off :: rat) \<le> of_int half" using off pos by auto
  have cl: "clampFloat (Some sx) 0 (of_int (2 * half - 1)) = sx" using sx offb by (simp add: clampFloat_def)
  have Yeq: "bilinear F (\<lambda>x y. Y (y * yp + x)) (2 * half) height (Some sx) sy = bilinear F (\<lambda>x y. Y' (y * yp + x)) (2 * half) height (Some sx) sy" for sy
  proof (rule bilinear_depends [OF F, where lo = off and hi = "off + half - 1"])
    show "of_int off \<le> clampFloat (Some sx) 0 (of_int (2 * half - 1))" unfolding cl using sx by simp
    show "clampFloat (Some sx) 0 (of_int (2 * half - 1)) \<le> of_int (off + half - 1)" unfolding cl using sx by simp
    show "Y (b * yp + a) = Y' (b * yp + a)" if "off \<le> a" "a \<le> off + half - 1" "0 \<le> b" "b < height" for a b
      using same that unfolding same_eye_def by simp
  qed (use half h pos in auto)
  define ux where "ux = rnd F (sx * (1 / 2))"
  have "(of_int o2 :: rat) \<le> sx * (1 / 2)" "sx * (1 / 2) \<le> of_int (o2 + q - 1)" using sx by (simp_all add: o2 q)
  then have ux: "of_int o2 \<le> ux" "ux \<le> of_int (o2 + q - 1)"
    using float_between [OF F, of o2 "o2 + q - 1" "sx * (1 / 2)"] o2(2) q3 half by (auto simp: ux_def q)
  have "(0 :: rat) \<le> of_int o2" "(of_int o2 :: rat) \<le> of_int q" using o2(2) q3 by auto
  then have cu: "clampFloat (Some ux) 0 (of_int (half - 1)) = ux" using ux by (simp add: clampFloat_def q)
  have UVeq: "bilinear F (\<lambda>x y. UV (y * uvp + x * 2 + ch)) half (height div 2) (Some ux) sy
      = bilinear F (\<lambda>x y. UV' (y * uvp + x * 2 + ch)) half (height div 2) (Some ux) sy" if ch: "ch = 0 \<or> ch = 1" for sy ch
  proof (rule bilinear_depends [OF F, where lo = o2 and hi = "o2 + q - 1"])
    show "of_int o2 \<le> clampFloat (Some ux) 0 (of_int (half - 1))" "clampFloat (Some ux) 0 (of_int (half - 1)) \<le> of_int (o2 + q - 1)"
      unfolding cu using ux by simp_all
    show "UV (b * uvp + a * 2 + ch) = UV' (b * uvp + a * 2 + ch)" if "o2 \<le> a" "a \<le> o2 + q - 1" "0 \<le> b" "b < height div 2" for a b
      using same that ch unfolding same_eye_def by (auto simp: o2 q)
  qed (use half h pos in auto)
  show ?thesis
    unfolding eye_pixel_def Let_def sampleU8_def prod.case nonzero_mult_div_cancel_left [OF numeral_neq_zero]
      sx_def [symmetric] ux_def [symmetric]
    by (simp only: Yeq UVeq [of 0, simplified] UVeq [of 1, simplified])
qed

lemma eye_threads_cong:
  assumes "\<And>x y. 0 \<le> x \<Longrightarrow> 0 \<le> y \<Longrightarrow> k (x, y) = k' (x, y)"
  shows "executes k (eye_threads w h) mem mem' \<longleftrightarrow> executes k' (eye_threads w h) mem mem'"
proof -
  have "k t = k' t" if "t \<in> set (eye_threads w h)" for t
  proof -
    obtain x y where t: "t = (x, y)" by fastforce
    have "0 \<le> x \<and> 0 \<le> y" using that unfolding t eye_threads_def by (rule grid_nonnegative) simp_all
    then show ?thesis using assms t by simp
  qed
  then have "all_writes k (eye_threads w h) = all_writes k' (eye_threads w h)"
    unfolding all_writes_def by (metis map_cong)
  then show ?thesis by (simp add: executes_def)
qed

text \<open>C15: An image of an eye is made of that eye only: when the output is at most a third as wide as the eye, as with the
  default sizes, no byte of the other half of the source planes has any influence on it, rounding included. The eye has an
  even number of columns, and the sizes are such that the scaling is exact up to its division.\<close>

theorem eyes_not_mixed:
  assumes "float_ok F" "3 * n \<le> half" "2 * n * half \<le> 2 ^ 24" "half \<le> 2 ^ 22" "even half" "2 \<le> height" "height \<le> 2 ^ 23"
    and "off = 0 \<or> off = half" "same_eye off half height Y Y' yp UV UV' uvp"
  shows "executes (eyeRgbKernel F Y UV (2 * half) height yp uvp n oh off) (eye_threads n oh) mem mem'
    \<longleftrightarrow> executes (eyeRgbKernel F Y' UV' (2 * half) height yp uvp n oh off) (eye_threads n oh) mem mem'"
proof (rule eye_threads_cong)
  fix x y :: int assume "0 \<le> x" "0 \<le> y"
  then show "eyeRgbKernel F Y UV (2 * half) height yp uvp n oh off (x, y) = eyeRgbKernel F Y' UV' (2 * half) height yp uvp n oh off (x, y)"
    using eye_pixel_depends [OF assms(1) _ _ assms(2,3,4,8,5,6,7,9), of x oh y] by (simp add: eyeRgbKernel_def)
qed

text \<open>At the full size of the eye this is not so: with eyes of two columns and images of two columns, the last chroma
  of the left image lies half-way between the two eyes.\<close>

definition dark_uv :: plane where "dark_uv a = 0"
definition bright_right_uv :: plane where "bright_right_uv a = (if 2 \<le> a then 200 else 0)"

lemma full_size_eye_reads_other_eye:
  "same_eye 0 2 2 (\<lambda>_. 0) (\<lambda>_. 0) 4 dark_uv bright_right_uv 4
   \<and> eye_pixel exact_unit (\<lambda>_. 0) dark_uv 4 2 4 4 2 2 0 (1, 0) \<noteq> eye_pixel exact_unit (\<lambda>_. 0) bright_right_uv 4 2 4 4 2 2 0 (1, 0)"
proof
  show "same_eye 0 2 2 (\<lambda>_. 0) (\<lambda>_. 0) 4 dark_uv bright_right_uv 4"
    by (auto simp: same_eye_def dark_uv_def bright_right_uv_def)
  have s: "eye_sx exact_unit 4 2 0 1 = 1" "eye_sy exact_unit 2 2 0 = 0"
    by (simp_all add: eye_sx_def eye_sy_def scaled_def exact_unit_def)
  have r: "rnd exact_unit v = v" for v by (simp add: exact_unit_def)
  have f: "\<lfloor>1 / 2 :: rat\<rfloor> = 0" by (simp add: floor_eq_iff)
  have z: "bilinear exact_unit (\<lambda>x y. 0) w h sx sy = 0" for w h sx sy
    by (simp add: f bilinear_def exact_unit_def to_byte_def clampFloat_def)
  have g: "bilinear exact_unit pix 2 1 (Some (1 / 2)) (Some 0) = 100" if p: "pix 0 0 = 0" "pix 1 0 = 200" for pix
  proof -
    have c: "clampFloat (Some (1 / 2)) 0 1 = 1 / 2" "clampFloat (Some 0) 0 0 = 0" "clampFloat (Some (201 / 2)) 0 255 = 201 / 2"
      by (simp_all add: clampFloat_def)
    have "\<lfloor>201 / 2 :: rat\<rfloor> = 100" by (simp add: floor_eq_iff)
    then show ?thesis by (simp add: bilinear_def exact_unit_def c f p to_byte_def)
  qed
  have b: "bilinear exact_unit (\<lambda>x y. bright_right_uv (y * 4 + x * 2)) 2 1 (Some (1 / 2)) (Some 0) = 100"
      "bilinear exact_unit (\<lambda>x y. bright_right_uv (y * 4 + x * 2 + 1)) 2 1 (Some (1 / 2)) (Some 0) = 100"
    by (rule g; simp add: bright_right_uv_def)+
  have "eye_pixel exact_unit (\<lambda>_. 0) dark_uv 4 2 4 4 2 2 0 (1, 0) = nv12ToRgb 0 0 0"
    "eye_pixel exact_unit (\<lambda>_. 0) bright_right_uv 4 2 4 4 2 2 0 (1, 0) = nv12ToRgb 0 100 100"
    using z b by (simp_all add: eye_pixel_def sampleU8_def s dark_uv_def r Let_def)
  then show "eye_pixel exact_unit (\<lambda>_. 0) dark_uv 4 2 4 4 2 2 0 (1, 0) \<noteq> eye_pixel exact_unit (\<lambda>_. 0) bright_right_uv 4 2 4 4 2 2 0 (1, 0)"
    by (simp add: nv12ToRgb_def clampI_def)
qed

text \<open>With one column for eyes of four columns, the bright right half does not show in the left image.\<close>

definition bright_right_y :: plane where "bright_right_y a = (if 4 \<le> a mod 8 then 255 else 90)"

theorem eyes_not_mixed_witness:
  "\<forall>mem'. executes (eyeRgbKernel exact_unit bright_right_y dark_uv (2 * 4) 2 8 8 1 1 0) (eye_threads 1 1) (\<lambda>_. 0) mem'
    \<longleftrightarrow> executes (eyeRgbKernel exact_unit (\<lambda>_. 90) dark_uv (2 * 4) 2 8 8 1 1 0) (eye_threads 1 1) (\<lambda>_. 0) mem'"
  by (rule allI, rule eyes_not_mixed [OF exact_unit_ok]) (auto simp: same_eye_def bright_right_y_def mod_pos_pos_trivial)

end
