(* ===== verification/EyeImages.thy ===== *)
theory EyeImages
  imports GpuEyes
begin

text \<open>
  \<open>src/src/video/eye_image_publisher.cpp\<close>: the two images that go to ROS for every frame somebody subscribes to. The ROS
  publishers are the messages the functions return; how many subscribers there are, and what CUDA answers, are
  arguments.
\<close>

record EyePublisherConfig =
  ep_output_width :: u32
  ep_output_height :: u32
  ep_left_topic :: string
  ep_right_topic :: string
  ep_enabled :: bool
  ep_frame_id :: string

definition EyePublisherConfig_default :: EyePublisherConfig where
  "EyePublisherConfig_default = \<lparr>ep_output_width = 640, ep_output_height = 360, ep_left_topic = ''data/left_eye_image'',
     ep_right_topic = ''data/right_eye_image'', ep_enabled = True, ep_frame_id = ''camera''\<rparr>"

text \<open>\<open>ep_publishers\<close>: the two publishers exist; \<open>ep_rgb_buffers\<close>: pinned host memory, by pointer.\<close>

record EyePublisher =
  ep_config :: EyePublisherConfig
  ep_src_width :: u32
  ep_src_height :: u32
  ep_publishers :: bool
  ep_rgb_buffers :: "nat option list"
  ep_rgb_buffer_size :: nat
  ep_processor :: "CudaEyes option"
  ep_initialized :: bool
  ep_frame_count :: u64

definition EyePublisher_init :: EyePublisher where
  "EyePublisher_init = \<lparr>ep_config = EyePublisherConfig_default, ep_src_width = 0, ep_src_height = 0, ep_publishers = False,
     ep_rgb_buffers = [], ep_rgb_buffer_size = 0, ep_processor = None, ep_initialized = False, ep_frame_count = 0\<rparr>"

definition ep_stop :: "EyePublisher \<Rightarrow> EyePublisher" where
  "ep_stop e = (if \<not> ep_initialized e then e else e\<lparr>ep_initialized := False\<rparr>)"

definition free_host :: "nat option list \<Rightarrow> gpu_call list" where
  "free_host bufs = concat (map (\<lambda>b. case b of None \<Rightarrow> [] | Some p \<Rightarrow> [HostFreed p]) bufs)"

definition ep_destroyBuffers :: "EyePublisher \<Rightarrow> gpu_call list \<times> EyePublisher" where
  "ep_destroyBuffers e =
     (free_host (ep_rgb_buffers e) @ (case ep_processor e of None \<Rightarrow> [] | Some c \<Rightarrow> fst (ce_reset c)),
      e\<lparr>ep_rgb_buffers := [], ep_rgb_buffer_size := 0, ep_processor := None, ep_initialized := False\<rparr>)"

text \<open>The destructor.\<close>

definition ep_destroy :: "EyePublisher \<Rightarrow> gpu_call list \<times> EyePublisher" where
  "ep_destroy e = ep_destroyBuffers (ep_stop e)"

text \<open>\<open>cudaHostAlloc\<close> for each buffer, until one fails; the pointer there before is overwritten.\<close>

fun host_alloc_loop :: "(nat \<Rightarrow> nat option) \<Rightarrow> nat list \<Rightarrow> nat option list \<Rightarrow> bool \<times> gpu_call list \<times> nat option list" where
  "host_alloc_loop alloc [] bufs = (True, [], bufs)"
| "host_alloc_loop alloc (i # is) bufs =
     (case alloc i of
        None \<Rightarrow> (False, [], bufs)
      | Some p \<Rightarrow> (let (ok, calls, bufs1) = host_alloc_loop alloc is (bufs[i := Some p]) in (ok, HostAllocated p # calls, bufs1)))"

definition ep_initialize ::
  "(nat \<Rightarrow> nat option) \<Rightarrow> initialize_answer \<Rightarrow> u32 \<Rightarrow> u32 \<Rightarrow> EyePublisherConfig \<Rightarrow> EyePublisher \<Rightarrow> bool \<times> gpu_call list \<times> EyePublisher" where
  "ep_initialize alloc a src_width src_height cfg e =
     (if ep_initialized e then (True, [], e)
      else (let e1 = e\<lparr>ep_config := cfg, ep_src_width := src_width, ep_src_height := src_height\<rparr>
            in if \<not> ep_enabled cfg then (True, [], e1)
               else (let e2 = e1\<lparr>ep_publishers := True, ep_rgb_buffer_size := unat (ep_output_width cfg) * unat (ep_output_height cfg) * 3\<rparr>;
                         resized = take 2 (ep_rgb_buffers e2) @ replicate (2 - length (ep_rgb_buffers e2)) None;
                         (allocated, calls1, bufs) = host_alloc_loop alloc [0..<2] resized;
                         e3 = e2\<lparr>ep_rgb_buffers := bufs\<rparr>
                     in if \<not> allocated then (let (calls2, e4) = ep_destroyBuffers e3 in (False, calls1 @ calls2, e4))
                        else (let old = (case ep_processor e3 of None \<Rightarrow> [] | Some c \<Rightarrow> fst (ce_reset c));
                                  (ok, calls2, c) = ce_initialize a src_width src_height (ep_output_width cfg) (ep_output_height cfg) CudaEyes_init;
                                  e4 = e3\<lparr>ep_processor := Some c\<rparr>
                              in if \<not> ok then (let (calls3, e5) = ep_destroyBuffers e4 in (False, calls1 @ old @ calls2 @ calls3, e5))
                                 else (True, calls1 @ old @ calls2, e4\<lparr>ep_initialized := True\<rparr>)))))"

section \<open>Publishing\<close>

record RosImage =
  im_topic :: string
  im_stamp_ns :: "64 word"
  im_frame_id :: string
  im_height :: u32
  im_width :: u32
  im_encoding :: string
  im_is_bigendian :: bool
  im_step :: u32
  im_data :: bytes

text \<open>The stamp is signed and in nanoseconds; \<open>rgb_data\<close> is read from its begin.\<close>

definition publishImage :: "EyePublisherConfig \<Rightarrow> string \<Rightarrow> bytes \<Rightarrow> u64 \<Rightarrow> RosImage" where
  "publishImage cfg topic rgb_data timestamp_us =
     (let step = ep_output_width cfg * 3
      in \<lparr>im_topic = topic, im_stamp_ns = timestamp_us * 1000, im_frame_id = ep_frame_id cfg, im_height = ep_output_height cfg,
          im_width = ep_output_width cfg, im_encoding = ''rgb8'', im_is_bigendian = False, im_step = step,
          im_data = take (unat step * unat (ep_output_height cfg)) rgb_data\<rparr>)"

text \<open>The numbers of subscribers each time they are asked for: before the frame, and before each eye.\<close>

record subscriber_answer =
  subs_left :: nat
  subs_right :: nat
  subs_left_later :: nat
  subs_right_later :: nat

definition process_one_eye ::
  "float_unit \<Rightarrow> gpu \<Rightarrow> process_answer \<Rightarrow> NvBufSurface option \<Rightarrow> bool \<Rightarrow> u64 \<Rightarrow> gpu_memory \<Rightarrow> EyePublisher
    \<Rightarrow> RosImage list \<times> gpu_call list \<times> gpu_memory \<times> EyePublisher" where
  "process_one_eye F gpu a src is_right_eye timestamp_us mem e =
     (case ep_processor e of
        None \<Rightarrow> ([], [], mem, e)
      | Some c \<Rightarrow>
          (let cfg = ep_config e; buf = ep_rgb_buffers e ! (if is_right_eye then 1 else 0);
               (rgb, calls, mem1, c1, _) = processEye F gpu a src is_right_eye (map_option (\<lambda>_. ep_rgb_buffer_size e) buf) mem c
           in ((case rgb of
                  Some d \<Rightarrow> [publishImage cfg (if is_right_eye then ep_right_topic cfg else ep_left_topic cfg) d timestamp_us]
                | None \<Rightarrow> []), calls, mem1, e\<lparr>ep_processor := Some c1\<rparr>)))"

definition ep_processFrame ::
  "float_unit \<Rightarrow> gpu \<Rightarrow> subscriber_answer \<Rightarrow> process_answer \<Rightarrow> process_answer \<Rightarrow> NvBufSurface option \<Rightarrow> u64 \<Rightarrow> gpu_memory \<Rightarrow> EyePublisher
    \<Rightarrow> RosImage list \<times> gpu_call list \<times> gpu_memory \<times> EyePublisher" where
  "ep_processFrame F gpu subs al ar src timestamp_us mem e =
     (if \<not> ep_initialized e \<or> \<not> ep_enabled (ep_config e) \<or> src = None \<or> ep_processor e = None then ([], [], mem, e)
      else if subs_left subs = 0 \<and> subs_right subs = 0 then ([], [], mem, e)
      else (let e1 = e\<lparr>ep_frame_count := ep_frame_count e + 1\<rparr>;
                (left, calls1, mem1, e2) = (if 0 < subs_left_later subs then process_one_eye F gpu al src False timestamp_us mem e1 else ([], [], mem, e1));
                (right, calls2, mem2, e3) = (if 0 < subs_right_later subs then process_one_eye F gpu ar src True timestamp_us mem1 e2 else ([], [], mem1, e2))
            in (left @ right, calls1 @ calls2, mem2, e3)))"

section \<open>Nothing is lost\<close>

definition ep_held :: "EyePublisher \<Rightarrow> gpu_resource multiset" where
  "ep_held e = sum_list (map (opt_mset HostMemory) (ep_rgb_buffers e)) + (case ep_processor e of None \<Rightarrow> {#} | Some c \<Rightarrow> ce_held c)"

text \<open>\<open>ep_equipped\<close>: both buffers are there, of the size of an image, and the session copies as much. A publisher is equipped
  when it is initialised, and stays so when it is stopped; otherwise it is empty.\<close>

definition ep_equipped :: "EyePublisher \<Rightarrow> bool" where
  "ep_equipped e \<longleftrightarrow> length (ep_rgb_buffers e) = 2 \<and> None \<notin> set (ep_rgb_buffers e)
     \<and> ep_rgb_buffer_size e = unat (ep_output_width (ep_config e)) * unat (ep_output_height (ep_config e)) * 3
     \<and> (\<exists>c. ep_processor e = Some c \<and> ce_rgb_bytes c = ep_rgb_buffer_size e)"

definition ep_ok :: "EyePublisher \<Rightarrow> bool" where
  "ep_ok e \<longleftrightarrow> ep_equipped e \<or> \<not> ep_initialized e \<and> ep_rgb_buffers e = [] \<and> ep_processor e = None"

text \<open>What is done with a publisher, in any order: it is initialised, used, stopped and destroyed. Only that one which was
  stopped and still has its buffers is initialised again is left out: the pipeline makes a new publisher for every start.\<close>

inductive ep_step :: "EyePublisher \<Rightarrow> gpu_call list \<Rightarrow> EyePublisher \<Rightarrow> bool" where
  es_initialize: "ep_initialized e \<or> ep_rgb_buffers e = [] \<Longrightarrow> ep_initialize alloc a w h cfg e = (ok, calls, e') \<Longrightarrow> ep_step e calls e'"
| es_process: "ep_processFrame F gpu subs al ar src ts mem e = (images, calls, mem', e') \<Longrightarrow> ep_step e calls e'"
| es_stop: "ep_step e [] (ep_stop e)"
| es_destroy: "ep_destroy e = (calls, e') \<Longrightarrow> ep_step e calls e'"

lemma free_host_ledger: "total gpu_released (free_host bufs) = sum_list (map (opt_mset HostMemory) bufs)" "total gpu_acquired (free_host bufs) = {#}"
  by (induction bufs) (auto simp: free_host_def split: option.split)

lemma ep_destroyBuffers_balanced:
  assumes "ep_destroyBuffers e = (calls, e')"
  shows "gpu_balanced ep_held e calls e' \<and> ep_ok e' \<and> ep_held e' = {#}"
proof -
  have r: "ce_held c + total gpu_acquired (fst (ce_reset c)) = total gpu_released (fst (ce_reset c))" for c
    using ce_reset_balanced [OF prod.collapse [symmetric], of c] by (simp add: balanced_def ce_held_def CudaEyes_init_def)
  show ?thesis using assms r
    by (auto simp: ep_destroyBuffers_def balanced_def ep_held_def ep_ok_def free_host_ledger ac_simps split: option.splits)
qed

lemma ep_destroy_balanced: "ep_destroy e = (calls, e') \<Longrightarrow> gpu_balanced ep_held e calls e' \<and> ep_ok e' \<and> ep_held e' = {#}"
proof -
  have "ep_held (ep_stop e) = ep_held e" by (simp add: ep_held_def ep_stop_def)
  then show "ep_destroy e = (calls, e') \<Longrightarrow> gpu_balanced ep_held e calls e' \<and> ep_ok e' \<and> ep_held e' = {#}"
    using ep_destroyBuffers_balanced [of "ep_stop e" calls e'] by (simp add: ep_destroy_def balanced_def)
qed

lemma host_alloc_two:
  assumes "host_alloc_loop alloc [0..<2] (replicate 2 None) = (ok, calls, bufs)"
  shows "total gpu_acquired calls = sum_list (map (opt_mset HostMemory) bufs) \<and> total gpu_released calls = {#} \<and> length bufs = 2
    \<and> (ok \<longrightarrow> None \<notin> set bufs)"
proof -
  have u: "[0..<2] = [0, Suc 0]" by (simp add: upt_rec)
  have two: "replicate 2 None = [None, None :: nat option]" by (simp add: numeral_2_eq_2)
  show ?thesis using assms unfolding u two by (auto split: option.splits)
qed

lemma ep_initialize_balanced:
  assumes "ep_initialize alloc a w h cfg e = (ok, calls, e')" "ep_ok e" "ep_initialized e \<or> ep_rgb_buffers e = []"
  shows "gpu_balanced ep_held e calls e' \<and> ep_ok e'"
proof (cases "ep_initialized e \<or> \<not> ep_enabled cfg")
  case True
  then show ?thesis using assms by (auto simp: ep_initialize_def balanced_def ep_held_def ep_ok_def ep_equipped_def Let_def split: if_splits)
next
  case False
  then have e: "ep_rgb_buffers e = []" "ep_processor e = None" using assms(2,3) by (auto simp: ep_ok_def ep_equipped_def)
  define e2 where "e2 = e\<lparr>ep_config := cfg, ep_src_width := w, ep_src_height := h, ep_publishers := True,
      ep_rgb_buffer_size := unat (ep_output_width cfg) * unat (ep_output_height cfg) * 3\<rparr>"
  obtain al t1 bufs where 1: "host_alloc_loop alloc [0..<2] (replicate 2 None) = (al, t1, bufs)" by (metis prod_cases3)
  obtain po t2 c where 2: "ce_initialize a w h (ep_output_width cfg) (ep_output_height cfg) CudaEyes_init = (po, t2, c)" by (metis prod_cases3)
  define e3 where "e3 = e2\<lparr>ep_rgb_buffers := bufs\<rparr>"
  define e4 where "e4 = e3\<lparr>ep_processor := Some c\<rparr>"
  have h0: "ep_held e = {#}" by (simp add: ep_held_def e)
  have b1: "gpu_balanced ep_held e t1 e3" using host_alloc_two [OF 1] h0 by (simp add: balanced_def ep_held_def e3_def e2_def e)
  have "total gpu_acquired t2 = ce_held c + total gpu_released t2" and rb: "po \<longrightarrow> ce_rgb_bytes c = unat (ep_output_width cfg) * unat (ep_output_height cfg) * 3"
    using ce_initialize_balanced [OF 2] by (simp_all add: balanced_def ce_held_def CudaEyes_init_def)
  then have "gpu_balanced ep_held e3 t2 e4" by (simp add: balanced_def ep_held_def e4_def e3_def e2_def e ac_simps)
  note b2 = balanced_trans [OF b1 this]
  have d: "gpu_balanced ep_held e (t @ fst (ep_destroyBuffers x)) (snd (ep_destroyBuffers x)) \<and> ep_ok (snd (ep_destroyBuffers x))"
    if "gpu_balanced ep_held e t x" for t x
    using balanced_trans [OF that] ep_destroyBuffers_balanced [OF prod.collapse [symmetric], of x] by blast
  have i: "ep_initialize alloc a w h cfg e =
      (if \<not> al then (False, t1 @ fst (ep_destroyBuffers e3), snd (ep_destroyBuffers e3))
       else if \<not> po then (False, t1 @ t2 @ fst (ep_destroyBuffers e4), snd (ep_destroyBuffers e4))
       else (True, t1 @ t2, e4\<lparr>ep_initialized := True\<rparr>))"
    using False by (simp add: ep_initialize_def e 1 2 Let_def e2_def e3_def e4_def split: prod.split)
  have ready: "ep_ok (e4\<lparr>ep_initialized := True\<rparr>)" if "al" "po"
    using that host_alloc_two [OF 1] rb by (simp add: ep_ok_def ep_equipped_def e4_def e3_def e2_def)
  have bi: "gpu_balanced ep_held e (t1 @ t2) (e4\<lparr>ep_initialized := True\<rparr>)" using b2 by (simp add: balanced_def ep_held_def)
  show ?thesis using assms(1) d [OF b1] d [OF b2] ready bi unfolding i by (auto split: if_splits)
qed

lemma process_one_eye_balanced:
  assumes "process_one_eye F gpu a src right ts mem e = (images, calls, mem', e')" "ep_ok e" "ep_initialized e"
  shows "gpu_balanced ep_held e calls e' \<and> ep_ok e' \<and> ep_initialized e'
    \<and> (\<forall>im\<in>set images. im_data im = [] \<or> length (im_data im) \<le> ep_rgb_buffer_size e)"
proof -
  obtain c where c: "ep_processor e = Some c" "ce_rgb_bytes c = ep_rgb_buffer_size e" using assms(2,3) by (auto simp: ep_ok_def ep_equipped_def)
  define n where "n = map_option (\<lambda>_. ep_rgb_buffer_size e) (ep_rgb_buffers e ! (if right then 1 else 0))"
  obtain rgb t m1 c1 r where 1: "processEye F gpu a src right n mem c = (rgb, t, m1, c1, r)" by (metis prod_cases5)
  note p = processEye_balanced [OF 1]
  have out: "calls = t" "e' = e\<lparr>ep_processor := Some c1\<rparr>"
      "images = (case rgb of Some d \<Rightarrow> [publishImage (ep_config e) (if right then ep_right_topic (ep_config e) else ep_left_topic (ep_config e)) d ts] | None \<Rightarrow> [])"
    using assms(1) c 1 by (auto simp: process_one_eye_def n_def Let_def split: option.splits)
  show ?thesis using p assms(2,3) c
    by (auto simp: out balanced_def ep_held_def ep_ok_def ep_equipped_def publishImage_def Let_def ac_simps split: option.splits)
qed

lemma ep_processFrame_balanced:
  assumes "ep_processFrame F gpu subs al ar src ts mem e = (images, calls, mem', e')" "ep_ok e"
  shows "gpu_balanced ep_held e calls e' \<and> ep_ok e'"
proof (cases "\<not> ep_initialized e \<or> \<not> ep_enabled (ep_config e) \<or> src = None \<or> ep_processor e = None \<or> subs_left subs = 0 \<and> subs_right subs = 0")
  case True
  then show ?thesis using assms by (auto simp: ep_processFrame_def split: if_splits)
next
  case False
  define e1 where "e1 = e\<lparr>ep_frame_count := ep_frame_count e + 1\<rparr>"
  have "ep_ok e1 = ep_ok e" by (simp add: e1_def ep_ok_def ep_equipped_def)
  then have e1: "ep_ok e1" "ep_initialized e1" "ep_held e1 = ep_held e" using assms(2) False by (simp_all add: e1_def ep_held_def)
  obtain l t1 m1 e2 where 1: "(if 0 < subs_left_later subs then process_one_eye F gpu al src False ts mem e1 else ([], [], mem, e1)) = (l, t1, m1, e2)"
    by (metis prod_cases4)
  obtain r t2 m2 e3 where 2: "(if 0 < subs_right_later subs then process_one_eye F gpu ar src True ts m1 e2 else ([], [], m1, e2)) = (r, t2, m2, e3)"
    by (metis prod_cases4)
  have s: "gpu_balanced ep_held e1 t1 e2" "ep_ok e2" "ep_initialized e2"
    using 1 process_one_eye_balanced [OF _ e1(1,2)] e1 by (auto split: if_splits)
  have s2: "gpu_balanced ep_held e2 t2 e3" "ep_ok e3" using 2 process_one_eye_balanced [OF _ s(2,3)] s by (auto split: if_splits)
  have "calls = t1 @ t2" "e' = e3" using assms(1) False 1 2 by (auto simp: ep_processFrame_def Let_def simp flip: e1_def)
  then show ?thesis using balanced_trans [OF s(1) s2(1)] s2(2) e1(3) by (simp add: balanced_def)
qed

lemma ep_stop_balanced: "ep_ok e \<Longrightarrow> ep_ok (ep_stop e) \<and> gpu_balanced ep_held e [] (ep_stop e)"
  by (auto simp: ep_stop_def ep_ok_def ep_equipped_def balanced_def ep_held_def)

lemma ep_step_balanced: "ep_ok e \<Longrightarrow> ep_step e calls e' \<Longrightarrow> ep_ok e' \<and> gpu_balanced ep_held e calls e'"
proof (erule ep_step.cases)
  fix e1 alloc a w h cfg ok calls1 e1'
  assume "ep_ok e" "e = e1" "calls = calls1" "e' = e1'" "ep_initialized e1 \<or> ep_rgb_buffers e1 = []"
    "ep_initialize alloc a w h cfg e1 = (ok, calls1, e1')"
  then show ?thesis using ep_initialize_balanced [of alloc a w h cfg e ok calls e'] by simp
qed (auto dest: ep_processFrame_balanced ep_destroy_balanced ep_stop_balanced)

interpretation eye_images: ledger gpu_acquired gpu_released ep_held ep_ok ep_step EyePublisher_init
  by unfold_locales (simp add: EyePublisher_init_def ep_ok_def ep_held_def, erule (1) ep_step_balanced)

text \<open>C38: In every state of a publisher that is initialised, used, stopped and destroyed in any order, whatever fails, what it
  took of pinned memory and of CUDA is what it gave back and what it still holds; the destructor leaves nothing; and
  while it is ready its two buffers exist and have exactly the size of an image, which the CUDA session copies into
  them. (A stopped publisher is not initialised again before it is destroyed.)\<close>

theorem eye_publisher_buffers:
  assumes "run_of ep_step EyePublisher_init e t"
  shows "total gpu_acquired t = total gpu_released t + ep_held e
    \<and> total gpu_acquired (t @ fst (ep_destroy e)) = total gpu_released (t @ fst (ep_destroy e))
    \<and> (ep_initialized e \<longrightarrow> length (ep_rgb_buffers e) = 2 \<and> None \<notin> set (ep_rgb_buffers e)
        \<and> ep_rgb_buffer_size e = unat (ep_output_width (ep_config e)) * unat (ep_output_height (ep_config e)) * 3
        \<and> (\<exists>c. ep_processor e = Some c \<and> ce_rgb_bytes c = ep_rgb_buffer_size e))"
proof -
  have "ep_step e (fst (ep_destroy e)) (snd (ep_destroy e))" by (rule es_destroy [OF prod.collapse [symmetric]])
  from eye_images.all_given_back [OF assms this]
  have "total gpu_acquired (t @ fst (ep_destroy e)) = total gpu_released (t @ fst (ep_destroy e))"
    using ep_destroy_balanced [OF prod.collapse [symmetric], of e] by blast
  moreover have "ep_initialized e \<longrightarrow> ep_equipped e" using eye_images.inv_holds [OF assms] by (auto simp: ep_ok_def)
  ultimately show ?thesis using eye_images.conserved [OF assms] unfolding ep_equipped_def by blast
qed

text \<open>\<open>stop\<close> alone keeps the buffers, and a publisher initialised again after it loses them.\<close>

lemma reinitialize_after_stop_leaks:
  assumes "ep_initialized e" "ep_ok e" "ep_enabled cfg" "alloc 0 = Some p" "alloc 1 = Some q"
  shows "host_alloc_loop alloc [0..<2] (ep_rgb_buffers (ep_stop e)) = (True, [HostAllocated p, HostAllocated q], [Some p, Some q])"
proof -
  have u: "[0..<2] = [0, Suc 0]" by (simp add: upt_rec)
  obtain x y where "ep_rgb_buffers e = [x, y]" using assms(1,2) by (auto simp: ep_ok_def ep_equipped_def length_Suc_conv numeral_2_eq_2)
  then show ?thesis using assms by (simp add: u ep_stop_def)
qed

section \<open>A ready publisher\<close>

definition publisher0 :: EyePublisher where
  "publisher0 = EyePublisher_init\<lparr>ep_config := EyePublisherConfig_default, ep_src_width := 3840, ep_src_height := 1520, ep_publishers := True,
     ep_rgb_buffers := [Some 1, Some 2], ep_rgb_buffer_size := 640 * 360 * 3,
     ep_processor := Some \<lparr>ce_initialized = True, ce_src_width = 3840, ce_src_height = 1520, ce_out_width = 640, ce_out_height = 360,
       ce_rgb = Some 5, ce_rgb_bytes = 640 * 360 * 3, ce_stream = Some 3, ce_event = Some 4\<rparr>, ep_initialized := True\<rparr>"

definition initialize0 :: initialize_answer where
  "initialize0 = \<lparr>in_context = 0, in_stream = Inr 3, in_event = Inr 4, in_malloc = Inr 5, in_memcpy = 0\<rparr>"

lemma publisher0_initialized:
  "ep_initialize (\<lambda>i. Some (i + 1)) initialize0 3840 1520 EyePublisherConfig_default EyePublisher_init
    = (True, [HostAllocated 1, HostAllocated 2, StreamCreated 3, EventCreated 4, DeviceAllocated 5], publisher0)"
proof -
  have u: "[0..<2] = [0, Suc 0]" by (simp add: upt_rec)
  have c: "ce_initialize initialize0 3840 1520 640 360 CudaEyes_init = (True, [StreamCreated 3, EventCreated 4, DeviceAllocated 5],
      the (ep_processor publisher0))"
    by (simp add: ce_initialize_def ce_reset_def CudaEyes_init_def initialize0_def ensureCudaContext_def publisher0_def Let_def)
  have two: "replicate 2 None = [None, None :: nat option]" by (simp add: numeral_2_eq_2)
  show ?thesis
    by (simp add: ep_initialize_def EyePublisher_init_def EyePublisherConfig_default_def u two c Let_def) (simp add: publisher0_def EyePublisher_init_def EyePublisherConfig_default_def)
qed

text \<open>Stopped, it holds its buffers and the session until it is destroyed.\<close>

theorem eye_publisher_buffers_witness:
  "ep_rgb_buffer_size publisher0 = 691200 \<and> fst (ep_destroy (ep_stop publisher0)) = [HostFreed 1, HostFreed 2, DeviceFreed 5, EventDestroyed 4, StreamDestroyed 3]
   \<and> ep_held (ep_stop publisher0) = {#HostMemory 1, HostMemory 2, DeviceMemory 5, Stream 3, Event 4#}
   \<and> total gpu_acquired ([HostAllocated 1, HostAllocated 2, StreamCreated 3, EventCreated 4, DeviceAllocated 5] @ fst (ep_destroy (ep_stop publisher0)))
     = total gpu_released ([HostAllocated 1, HostAllocated 2, StreamCreated 3, EventCreated 4, DeviceAllocated 5] @ fst (ep_destroy (ep_stop publisher0)))"
proof -
  have "run_of ep_step EyePublisher_init publisher0 ([] @ [HostAllocated 1, HostAllocated 2, StreamCreated 3, EventCreated 4, DeviceAllocated 5])"
    by (rule run_step [where step = ep_step, OF run_init es_initialize [OF _ publisher0_initialized]]) (simp add: EyePublisher_init_def)
  from run_step [where step = ep_step, OF this es_stop]
  have r: "run_of ep_step EyePublisher_init (ep_stop publisher0) [HostAllocated 1, HostAllocated 2, StreamCreated 3, EventCreated 4, DeviceAllocated 5]"
    by simp
  have d: "fst (ep_destroy (ep_stop publisher0)) = [HostFreed 1, HostFreed 2, DeviceFreed 5, EventDestroyed 4, StreamDestroyed 3]"
    by (simp add: publisher0_def ep_destroy_def ep_stop_def ep_destroyBuffers_def free_host_def ce_reset_def)
  have h: "ep_held (ep_stop publisher0) = {#HostMemory 1, HostMemory 2, DeviceMemory 5, Stream 3, Event 4#}"
    by (simp add: publisher0_def ep_stop_def ep_held_def ce_held_def opt_mset_def)
  have "ep_rgb_buffer_size publisher0 = 691200" by (simp add: publisher0_def)
  with d h eye_publisher_buffers [OF r, THEN conjunct2, THEN conjunct1] show ?thesis by blast
qed

end
