(* ===== verification/UndistortedEyes.thy ===== *)
theory UndistortedEyes
  imports GpuEyes
begin

text \<open>
  The map of the undistorter (\<open>VideoUndistorter\<close>) in the kernels that use it (\<open>GpuRemap\<close>): which half of the stereo frame
  a pixel of the undistorted frame is made of.
\<close>

section \<open>Columns\<close>

text \<open>The columns of the luma that a pixel of column \<open>x\<close> may depend on, given its entry of the map: those of its eye; but
  an entry that is no number is looked up in the first column of the frame, whatever the eye.\<close>

definition luma_columns :: "int \<Rightarrow> int \<Rightarrow> fval \<Rightarrow> int \<times> int" where
  "luma_columns w x sx =
     (if sx = None then (0, 0) else if x < w div 2 then (0, w div 2 - 1) else (w div 2, w - 1))"

text \<open>The same for the chroma, in columns of the chroma plane: the left eye may take in the first column of the right.\<close>

definition chroma_columns :: "int \<Rightarrow> int \<Rightarrow> fval \<Rightarrow> int \<times> int" where
  "chroma_columns w x sx =
     (if sx = None then (0, 0) else if x < w div 2 then (0, w div 4) else (w div 4, w div 2 - 1))"

definition agree :: "int \<times> int \<Rightarrow> int \<Rightarrow> (int \<Rightarrow> int \<Rightarrow> u8) \<Rightarrow> (int \<Rightarrow> int \<Rightarrow> u8) \<Rightarrow> bool" where
  "agree columns h pix pix' \<longleftrightarrow> (\<forall>x y. fst columns \<le> x \<and> x \<le> snd columns \<and> 0 \<le> y \<and> y < h \<longrightarrow> pix x y = pix' x y)"

definition in_columns :: "int \<times> int \<Rightarrow> fval \<Rightarrow> bool" where
  "in_columns columns s \<longleftrightarrow> (\<forall>v. s = Some v \<longrightarrow> of_int (fst columns) \<le> v \<and> v \<le> of_int (snd columns))"

lemma sample_in_columns:
  assumes F: "float_ok F" and w: "1 \<le> w" "w \<le> 2 ^ 23" and h: "1 \<le> h" "h \<le> 2 ^ 23"
    and c: "0 \<le> fst columns" "fst columns \<le> snd columns" "snd columns \<le> w" "s = None \<Longrightarrow> fst columns = 0"
      "fst columns < w" "\<And>v. s = Some v \<Longrightarrow> of_int (fst columns) \<le> v \<and> (v \<le> of_int (snd columns) \<or> snd columns = w - 1)" and same: "agree columns h pix pix'"
  shows "bilinear F pix w h s t = bilinear F pix' w h s t"
proof (rule bilinear_depends [OF F w h, where lo = "fst columns" and hi = "snd columns"])
  have q: "(of_int (fst columns) :: rat) \<le> of_int (w - 1)" "(0 :: rat) \<le> of_int (fst columns)" "(0 :: rat) \<le> of_int (snd columns)"
    using c(1,2,5) by (simp_all del: of_int_diff)
  show "of_int (fst columns) \<le> clampFloat s 0 (of_int (w - 1))"
    using c(4,6) q by (cases s) (auto simp: clampFloat_def simp del: of_int_diff)
  show "clampFloat s 0 (of_int (w - 1)) \<le> of_int (snd columns)"
    using c(6) q by (cases s) (auto simp: clampFloat_def min_le_iff_disj simp del: of_int_diff)
  show "pix x y = pix' x y" if "fst columns \<le> x" "x \<le> snd columns" "0 \<le> y" "y < h" for x y
    using same that by (simp add: agree_def)
qed

section \<open>The entries\<close>

lemma entry_in_columns:
  assumes fl: "float_rounding fl" and init: "undistorter_initialize fl cv a c u = (True, u')"
    and w: "w = int (unat (uc_width c))" "w \<le> 2 ^ 23" and h: "h = int (unat (uc_height c))" "h \<le> 2 ^ 23"
    and p: "0 \<le> x" "x < w" "0 \<le> y" "y < h"
  shows "in_columns (luma_columns w x (fst (remap_of (full_map_xy (map_result u')) (y * w + x)))) (fst (remap_of (full_map_xy (map_result u')) (y * w + x)))"
    and "even w"
proof -
  define W H where "W = unat (uc_width c)" and "H = unat (uc_height c)"
  have wh: "w = int W" "h = int H" using w(1) h(1) by (simp_all only: W_def H_def)
  have "uc_width c AND 1 = 0" using init by (auto simp: undistorter_initialize_def Let_def split: if_splits)
  then have e: "even W" unfolding W_def by (rule even_width)
  then show "even w" by (simp only: wh even_of_nat)
  have b: "W \<le> 2 ^ 24" "H \<le> 2 ^ 24" "nat y < H" "nat x < W" using w(2) h(2) p unfolding wh by simp_all
  have i: "nat (2 * (y * w + x)) = (nat y * W + nat x) * 2"
    using p by (simp add: wh nat_mult_distrib nat_add_distrib)
  define sx where "sx = fst (remap_of (full_map_xy (map_result u')) (y * w + x))"
  define sy where "sy = full_map_xy (map_result u') ! ((nat y * W + nat x) * 2 + 1)"
  have "sx = full_map_xy (map_result u') ! ((nat y * W + nat x) * 2)" by (simp only: sx_def remap_of_def i fst_conv)
  with maps_stay_in_their_eye [OF fl init b [unfolded W_def H_def], folded W_def H_def] have n: "in_eye W H (nat x) sx sy" by (simp add: sy_def)
  have "in_columns (luma_columns w x sx) sx"
  proof (cases sx)
    case (Some v)
    obtain q where q: "W = 2 * q" using e by (elim evenE)
    have q0: "0 < q" using b(4) q by simp
    have d: "w div 2 = int q" "w = 2 * int q" by (simp_all add: wh q)
    show ?thesis
    proof (cases "x < w div 2")
      case True
      then have "nat x < q" using p d by simp
      then show ?thesis using n Some True q q0 d by (simp add: in_eye_def in_columns_def luma_columns_def of_nat_diff)
    next
      case False
      then have "\<not> nat x < q" using p d by simp
      then show ?thesis using n Some False q q0 d by (simp add: in_eye_def in_columns_def luma_columns_def of_nat_diff)
    qed
  qed (simp add: in_columns_def)
  then show "in_columns (luma_columns w x (fst (remap_of (full_map_xy (map_result u')) (y * w + x)))) (fst (remap_of (full_map_xy (map_result u')) (y * w + x)))"
    by (simp add: sx_def)
qed

lemma halved_in_columns:
  assumes F: "float_ok F" and s: "in_columns (luma_columns w x s) s" and w: "w \<le> 2 ^ 23" "4 dvd w" "0 \<le> x" "x < w"
    and v: "halved F s = Some v" and cols: "columns = chroma_columns w x s"
  shows "of_int (fst columns) \<le> v \<and> (v \<le> of_int (snd columns) \<or> snd columns = w div 2 - 1)"
proof -
  obtain u where u: "s = Some u" "v = rnd F (u * (1 / 2))" using v by (auto simp: halved_def)
  obtain q where q: "w = 4 * q" using w(2) by (elim dvdE)
  have q0: "0 < q" using w q by simp
  have r: "rnd F (of_int k) = of_int k" if "0 \<le> k" "k \<le> w" for k using that w by (intro float_int [OF F]) simp
  show ?thesis
  proof (cases "x < w div 2")
    case True
    then have b: "0 \<le> u" "u \<le> of_int (2 * q - 1)" using s u q by (simp_all add: in_columns_def luma_columns_def)
    have "rnd F (of_int 0) \<le> v" "v \<le> rnd F (of_int q)"
      unfolding u(2) using b by (intro float_mono [OF F]; simp)+
    then show ?thesis using u True q r [of 0] r [of q] q0 by (simp add: cols chroma_columns_def)
  next
    case False
    then have b: "of_int (2 * q) \<le> u" using s u q by (simp_all add: in_columns_def luma_columns_def)
    have "rnd F (of_int q) \<le> v" unfolding u(2) using b by (intro float_mono [OF F]) simp
    then show ?thesis using u False q r [of q] q0 by (simp add: cols chroma_columns_def)
  qed
qed

section \<open>Properties\<close>

text \<open>C33: Once the undistorter is initialised, with or without a calibration and whatever OpenCV's maps hold, the luma
  of a pixel is made of the half of its eye only, whether the source is NV12, planar or packed: its entry of the
  map lies in that half, and no byte outside has any influence, rounding included; so is the chroma of an NV12 source,
  but that the left eye may take in the first chroma column of the right one. The exception is an entry that is no
  number, which shows the first column of the frame even in the right eye.\<close>

theorem undistortion_keeps_eyes_apart:
  assumes "float_rounding fl" "undistorter_initialize fl cv a c u = (True, u')" "float_ok F"
    and "w = int (unat (uc_width c))" "w \<le> 2 ^ 23" "h = int (unat (uc_height c))" "h \<le> 2 ^ 23"
    and "0 \<le> x" "x < w" "0 \<le> y" "y < h"
    and "the_map = remap_of (full_map_xy (map_result u'))"
  shows "in_columns (luma_columns w x (fst (the_map (y * w + x)))) (fst (the_map (y * w + x)))
    \<and> (agree (luma_columns w x (fst (the_map (y * w + x)))) h (\<lambda>a b. Y (b * sp + a)) (\<lambda>a b. Y' (b * sp + a)) \<longrightarrow>
         remapNv12YKernel F Y the_map w h sp dp (x, y) = remapNv12YKernel F Y' the_map w h sp dp (x, y)
       \<and> remapYuv422ToNv12YKernel F Y the_map w h sp dp (x, y) = remapYuv422ToNv12YKernel F Y' the_map w h sp dp (x, y))
    \<and> (agree (luma_columns w x (fst (the_map (y * w + x)))) h (yuyvLumaAt Y sp) (yuyvLumaAt Y' sp) \<longrightarrow>
         remapYuyvToNv12YKernel F Y the_map w h sp dp (x, y) = remapYuyvToNv12YKernel F Y' the_map w h sp dp (x, y))
    \<and> (4 dvd w \<and> even x \<and> even y \<and> y + 1 < h
       \<and> agree (chroma_columns w x (fst (the_map (y * w + x)))) (h div 2) (\<lambda>a b. UV (b * sp + a * 2)) (\<lambda>a b. UV' (b * sp + a * 2))
       \<and> agree (chroma_columns w x (fst (the_map (y * w + x)))) (h div 2) (\<lambda>a b. UV (b * sp + a * 2 + 1)) (\<lambda>a b. UV' (b * sp + a * 2 + 1)) \<longrightarrow>
         remapNv12UvKernel F UV the_map w h sp dp (x div 2, y div 2) = remapNv12UvKernel F UV' the_map w h sp dp (x div 2, y div 2))"
proof -
  define s where "s = the_map (y * w + x)"
  have e: "in_columns (luma_columns w x (fst s)) (fst s)" "even w"
    unfolding s_def assms(12) by (rule entry_in_columns [OF assms(1,2,4-11)])+
  have w: "2 \<le> w" "1 \<le> w" "1 \<le> h" using assms(8-11) e(2) by auto
  have luma: "bilinear F pix w h (fst s) (snd s) = bilinear F pix' w h (fst s) (snd s)"
    if "agree (luma_columns w x (fst s)) h pix pix'" for pix pix'
    by (rule sample_in_columns [OF assms(3) w(2) assms(5) w(3) assms(7) _ _ _ _ _ _ that])
      (use w e(1) assms(8,9) in \<open>auto simp: luma_columns_def in_columns_def split: if_splits\<close>)
  have chroma: "bilinear F pix (w div 2) (h div 2) (halved F (fst s)) t = bilinear F pix' (w div 2) (h div 2) (halved F (fst s)) t"
    if d: "4 dvd w" "y + 1 < h" and g: "agree (chroma_columns w x (fst s)) (h div 2) pix pix'" for pix pix' t
  proof (rule sample_in_columns [OF assms(3) _ _ _ _ _ _ _ _ _ _ g])
    obtain q where q: "w = 4 * q" using d(1) by (elim dvdE)
    show "1 \<le> w div 2" "w div 2 \<le> 2 ^ 23" "h div 2 \<le> 2 ^ 23" using w(1) assms(5,7) by simp_all
    show "1 \<le> h div 2" using d(2) assms(10) by simp
    show "0 \<le> fst (chroma_columns w x (fst s))" "fst (chroma_columns w x (fst s)) \<le> snd (chroma_columns w x (fst s))"
      "snd (chroma_columns w x (fst s)) \<le> w div 2" "fst (chroma_columns w x (fst s)) < w div 2"
      using q w(1) by (simp_all add: chroma_columns_def)
    show "fst (chroma_columns w x (fst s)) = 0" if "halved F (fst s) = None" using that by (simp add: halved_def chroma_columns_def)
    show "of_int (fst (chroma_columns w x (fst s))) \<le> v \<and> (v \<le> of_int (snd (chroma_columns w x (fst s))) \<or> snd (chroma_columns w x (fst s)) = w div 2 - 1)"
      if "halved F (fst s) = Some v" for v
      by (rule halved_in_columns [OF assms(3) e(1) assms(5) d(1) assms(8,9) that refl])
  qed
  have "remapNv12UvKernel F UV the_map w h sp dp (x div 2, y div 2) = remapNv12UvKernel F UV' the_map w h sp dp (x div 2, y div 2)"
    if d: "4 dvd w" "y + 1 < h" and xy: "even x" "even y"
      and g: "agree (chroma_columns w x (fst s)) (h div 2) (\<lambda>a b. UV (b * sp + a * 2)) (\<lambda>a b. UV' (b * sp + a * 2))"
        "agree (chroma_columns w x (fst s)) (h div 2) (\<lambda>a b. UV (b * sp + a * 2 + 1)) (\<lambda>a b. UV' (b * sp + a * 2 + 1))"
  proof -
    have m: "min (x div 2 * 2) (w - 1) = x" "min (y div 2 * 2) (h - 1) = y" using xy assms(9,11) by auto
    show ?thesis
      using chroma [OF d g(1)] chroma [OF d g(2)]
      unfolding remapNv12UvKernel_def prod.case Let_def m s_def [symmetric] bilinearNv12Chroma_def by simp
  qed
  moreover note luma e(1)
  ultimately show ?thesis
    by (simp add: remapNv12YKernel_def remapYuv422ToNv12YKernel_def remapYuyvToNv12YKernel_def bilinearU8_def bilinearYuyvLuma_def Let_def
        flip: s_def)
qed

text \<open>The exception: an entry of the right eye that is no number shows the first column of the left eye.\<close>

lemma undefined_entry_shows_left_edge:
  assumes "float_ok F" "1 \<le> w" "w \<le> 2 ^ 23" "h \<le> 2 ^ 23" "x < w" "0 \<le> y" "y < h" "0 \<le> row" "row < h"
    and "map_xy (y * w + x) = (None, Some (of_int row))"
  shows "remapNv12YKernel F src map_xy w h sp dp (x, y) = [(y * dp + x, src (row * sp))]"
proof -
  have "remapNv12YKernel F src map_xy w h sp dp (x, y) =
      [(y * dp + x, bilinear F (\<lambda>a b. src (b * sp + a)) w h None (Some (of_int row)))]"
    using assms(5,7,10) by (simp add: remapNv12YKernel_def bilinearU8_def Let_def)
  also have "bilinear F (\<lambda>a b. src (b * sp + a)) w h None (Some (of_int row))
      = bilinear F (\<lambda>a b. src (b * sp + a)) w h (Some (of_int 0)) (Some (of_int row))"
  proof -
    have "clampFloat None 0 hi = clampFloat (Some (of_int 0)) 0 hi" for hi by (simp add: clampFloat_def)
    then show ?thesis unfolding bilinear_def by (simp only:)
  qed
  also have "\<dots> = src (row * sp + 0)" by (rule bilinear_exact [OF assms(1) _ _ assms(3,8,9,4)]) (use assms(2) in simp_all)
  finally show ?thesis by simp
qed

text \<open>And the last column of the left eye takes its chroma half-way between the eyes: in a frame of four columns whose
  right eye is bright, the chroma of a dark left pixel that is looked up there.\<close>

lemma left_chroma_reads_right_eye:
  "remapNv12UvKernel exact_unit bright_right_uv (\<lambda>_. (Some 1, Some 0)) 4 2 4 4 (0, 0) = [(0, 100), (1, 100)]"
proof -
  have f: "\<lfloor>1 / 2 :: rat\<rfloor> = 0" "\<lfloor>201 / 2 :: rat\<rfloor> = 100" by (simp_all add: floor_eq_iff)
  have c: "clampFloat (Some (1 / 2)) 0 1 = 1 / 2" "clampFloat (Some 0) 0 0 = 0" "clampFloat (Some (201 / 2)) 0 255 = 201 / 2"
    by (simp_all add: clampFloat_def)
  have g: "bilinear exact_unit pix 2 1 (Some (1 / 2)) (Some 0) = 100" if p: "pix 0 0 = 0" "pix 1 0 = 200" for pix
    using p by (simp add: bilinear_def exact_unit_def c f to_byte_def)
  have b: "bilinear exact_unit (\<lambda>x y. bright_right_uv (y * 4 + x * 2 + k)) 2 1 (Some (1 / 2)) (Some 0) = 100" if "k = 0 \<or> k = 1" for k
    by (rule g; use that in \<open>auto simp: bright_right_uv_def\<close>)
  have h: "halved exact_unit (Some 1) = Some (1 / 2)" "halved exact_unit (Some 0) = Some 0" by (simp_all add: halved_def exact_unit_def)
  show ?thesis using b [of 0] b [of 1] by (simp add: remapNv12UvKernel_def bilinearNv12Chroma_def h)
qed

text \<open>A frame of four by two pixels whose maps point far outside: a pixel of the right eye is the same for a bright left eye
  and a dark one.\<close>

definition bright_left_y :: plane where "bright_left_y a = (if a mod 4 < 2 then 255 else 0)"

definition the_map0 :: remap where
  "the_map0 = remap_of (full_map_xy (map_result (snd (undistorter_initialize (\<lambda>x. x) opencv0 und_answer0 undistorter_config0
     (VideoUndistorter_init undistorter_config0)))))"

lemma the_map0_last: "fst (the_map0 3) = Some 3"
  by (simp add: the_map0_def remap_of_def undistorter_initialize_def createOutputPool_def createCudaResources_def und_answer0_def Let_def
      undistorter_config0_def loadCalibrationMap_def selectCalibration_def calibration0_def eye0_def buildFullMap_def
      buildEyeMap_def loadMatrixFromYaml_def loadDistortion_def rows_of_def upt_rec_numeral upt_conv_Cons pixel_source_def clampF_def opencv0_def)

theorem undistortion_keeps_eyes_apart_witness:
  "fst (the_map0 3) = Some 3
   \<and> remapNv12YKernel exact_unit bright_left_y the_map0 4 2 4 4 (3, 0) = remapNv12YKernel exact_unit (\<lambda>_. 0) the_map0 4 2 4 4 (3, 0)"
proof -
  have fl: "float_rounding (\<lambda>x. x)" by (simp add: float_rounding_def mono_def)
  have s: "(4 :: int) = int (unat (uc_width undistorter_config0))" "(2 :: int) = int (unat (uc_height undistorter_config0))"
    by (simp_all add: undistorter_config0_def)
  have "agree (luma_columns 4 3 (fst (the_map0 (0 * 4 + 3)))) 2 (\<lambda>a b. bright_left_y (b * 4 + a)) (\<lambda>a b. 0)"
    by (auto simp: the_map0_last agree_def luma_columns_def bright_left_y_def)
  with undistortion_keeps_eyes_apart [OF fl undistorter0_initialized exact_unit_ok s(1) _ s(2) _ _ _ _ _ the_map0_def,
      of 3 0 bright_left_y 4 "\<lambda>_. 0" 4, THEN conjunct2, THEN conjunct1]
  show ?thesis by (simp only: the_map0_last) simp
qed

end
