(* ===== verification/UdpSocket.thy ===== *)
theory UdpSocket
  imports UdpModule Ledgers
begin

text \<open>
  \<open>src/src/udp/udp_socket.cpp\<close>: the descriptor, the address datagrams go to, and the options of the socket, with the part of
  \<open>UdpManager::start\<close> that sets them. What the kernel answers are arguments; what the code asks of it is the list of
  calls of every operation. \<open>pton\<close> is \<open>inet_pton\<close>: \<open>None\<close> for a string that is no IPv4 address.
\<close>

section \<open>The object\<close>

text \<open>\<open>sockaddr_in\<close>, the port in the byte order of the network; \<open>AF_INET\<close> is 2.\<close>

record Sockaddr =
  sin_family :: u16
  sin_port :: u16
  s_addr :: u32

definition htons :: "u16 \<Rightarrow> u16" where
  "htons v = push_bit 8 v OR drop_bit 8 v"

datatype socket_call =
    CreatedSocket int | ClosedSocket int | BoundTo Sockaddr
  | SetSendBuffer int | SetRecvTimeout int int
  | SentTo bool Sockaddr bytes | ReceivedUpTo nat

record UdpSocket =
  sk_dest_ip :: string
  sk_dest_port :: int
  sk_bind_ip :: string
  sk_bind_port :: int
  sockfd :: int
  sk_dest_addr :: Sockaddr
  sk_send_nonblocking :: bool
  sk_recv_timeout_ms :: int

definition UdpSocket_init :: "string \<Rightarrow> int \<Rightarrow> string \<Rightarrow> int \<Rightarrow> UdpSocket" where
  "UdpSocket_init ip port bip bport = \<lparr>sk_dest_ip = ip, sk_dest_port = port, sk_bind_ip = bip, sk_bind_port = bport, sockfd = - 1,
     sk_dest_addr = \<lparr>sin_family = 0, sin_port = 0, s_addr = 0\<rparr>, sk_send_nonblocking = False, sk_recv_timeout_ms = 100\<rparr>"

section \<open>Operations\<close>

definition socket_address :: "(string \<Rightarrow> u32 option) \<Rightarrow> string \<Rightarrow> int \<Rightarrow> u32 option \<times> u16" where
  "socket_address pton ip port = (if ip = [] then Some 0 else pton ip, htons (of_int port))"

definition resetRemote :: "(string \<Rightarrow> u32 option) \<Rightarrow> UdpSocket \<Rightarrow> UdpSocket" where
  "resetRemote pton s =
     (let (a, port) = socket_address pton (sk_dest_ip s) (sk_dest_port s)
      in s\<lparr>sk_dest_addr := \<lparr>sin_family = 2, sin_port = port, s_addr = (case a of Some x \<Rightarrow> x | None \<Rightarrow> 0)\<rparr>\<rparr>)"

definition setRemote :: "(string \<Rightarrow> u32 option) \<Rightarrow> string \<Rightarrow> int \<Rightarrow> UdpSocket \<Rightarrow> UdpSocket" where
  "setRemote pton ip port s = resetRemote pton (s\<lparr>sk_dest_ip := ip, sk_dest_port := port\<rparr>)"

definition timeval_of :: "int \<Rightarrow> int \<times> int" where
  "timeval_of ms = (if 0 < ms then ms div 1000 else 0, if 0 < ms then ms mod 1000 * 1000 else 0)"

definition setRecvTimeoutMs :: "int \<Rightarrow> UdpSocket \<Rightarrow> socket_call list \<times> UdpSocket" where
  "setRecvTimeoutMs ms s =
     (let s1 = s\<lparr>sk_recv_timeout_ms := ms\<rparr>
      in if sockfd s1 < 0 then ([], s1) else ([SetRecvTimeout (fst (timeval_of ms)) (snd (timeval_of ms))], s1))"

definition socket_close :: "UdpSocket \<Rightarrow> socket_call list \<times> UdpSocket" where
  "socket_close s = (if 0 \<le> sockfd s then ([ClosedSocket (sockfd s)], s\<lparr>sockfd := - 1\<rparr>) else ([], s))"

text \<open>\<open>fd\<close>, \<open>bind_ok\<close>: what \<open>socket\<close> and \<open>bind\<close> return.\<close>

definition socket_open :: "(string \<Rightarrow> u32 option) \<Rightarrow> int \<Rightarrow> bool \<Rightarrow> UdpSocket \<Rightarrow> bool \<times> socket_call list \<times> UdpSocket" where
  "socket_open pton fd bind_ok s =
     (if 0 \<le> sockfd s then (True, [], s)
      else (let s1 = s\<lparr>sockfd := fd\<rparr>
            in if fd < 0 then (False, [], s1)
               else (let fail = (let (calls, s2) = socket_close s1 in (False, CreatedSocket fd # calls, s2));
                         finish = (\<lambda>bound. let (calls, s2) = setRecvTimeoutMs (sk_recv_timeout_ms s1) (resetRemote pton s1)
                                           in (True, CreatedSocket fd # bound @ calls, s2))
                     in if sk_bind_ip s1 \<noteq> [] \<or> 0 < sk_bind_port s1
                        then (case socket_address pton (sk_bind_ip s1) (sk_bind_port s1) of
                                (None, _) \<Rightarrow> fail
                              | (Some a, port) \<Rightarrow> if bind_ok then finish [BoundTo \<lparr>sin_family = 2, sin_port = port, s_addr = a\<rparr>] else fail)
                        else finish [])))"

definition setSendNonBlocking :: "bool \<Rightarrow> UdpSocket \<Rightarrow> UdpSocket" where
  "setSendNonBlocking enabled s = s\<lparr>sk_send_nonblocking := enabled\<rparr>"

definition setSendBufferBytes :: "int \<Rightarrow> UdpSocket \<Rightarrow> socket_call list" where
  "setSendBufferBytes n s = (if sockfd s < 0 \<or> n \<le> 0 then [] else [SetSendBuffer n])"

text \<open>\<open>answer\<close>: what \<open>getsockopt\<close> says, \<open>None\<close> if it fails; \<open>revents\<close>: what \<open>poll\<close> returns and whether it found \<open>POLLOUT\<close>.\<close>

definition sendBufferBytes :: "int option \<Rightarrow> UdpSocket \<Rightarrow> int" where
  "sendBufferBytes answer s = (if sockfd s < 0 then - 1 else (case answer of None \<Rightarrow> - 1 | Some n \<Rightarrow> n))"

definition waitWritable :: "int \<times> bool \<Rightarrow> UdpSocket \<Rightarrow> bool" where
  "waitWritable revents s = (0 \<le> sockfd s \<and> 0 < fst revents \<and> snd revents)"

text \<open>\<open>answer\<close>: what \<open>sendto\<close> and \<open>recvfrom\<close> return.\<close>

definition socket_send :: "int \<Rightarrow> bytes \<Rightarrow> UdpSocket \<Rightarrow> int \<times> socket_call list" where
  "socket_send answer data s =
     (if sockfd s < 0 then (- 1, []) else (answer, [SentTo (sk_send_nonblocking s) (sk_dest_addr s) data]))"

definition socket_receive :: "int \<Rightarrow> nat \<Rightarrow> UdpSocket \<Rightarrow> int \<times> socket_call list" where
  "socket_receive answer n s = (if sockfd s < 0 then (- 1, []) else (answer, [ReceivedUpTo n]))"

definition receive_within :: "int \<Rightarrow> nat \<Rightarrow> int \<Rightarrow> UdpSocket \<Rightarrow> int \<times> socket_call list \<times> UdpSocket" where
  "receive_within answer n ms s =
     (let (calls, s1) = setRecvTimeoutMs ms s; (got, calls1) = socket_receive answer n s1 in (got, calls @ calls1, s1))"

text \<open>The socket of the UDP manager, from \<open>UdpManager::UdpManager\<close> and the beginning of \<open>UdpManager::start\<close>.\<close>

definition manager_socket :: "UdpConfig \<Rightarrow> UdpSocket" where
  "manager_socket c = UdpSocket_init (remote_ip c) (remote_port c) (bind_ip c) (bind_port c)"

definition start_socket ::
  "(string \<Rightarrow> u32 option) \<Rightarrow> (double \<Rightarrow> double) \<Rightarrow> int \<Rightarrow> bool \<Rightarrow> UdpConfig \<Rightarrow> UdpSocket
     \<Rightarrow> bool \<times> socket_call list \<times> UdpSocket" where
  "start_socket pton fl fd bind_ok c s =
     (case socket_open pton fd bind_ok s of
        (False, calls, s1) \<Rightarrow> (False, calls, s1)
      | (True, calls, s1) \<Rightarrow>
          (let s2 = setSendNonBlocking (send_nonblocking c) s1; (calls2, s3) = setRecvTimeoutMs (recv_timeout_ms c) s2;
               wanted = (if 0 < send_buffer_bytes c then send_buffer_bytes c else defaultSendBufferBytes fl c)
           in (True, calls @ calls2 @ setSendBufferBytes wanted s3, s3)))"

section \<open>Runs\<close>

inductive sock_step :: "(string \<Rightarrow> u32 option) \<Rightarrow> UdpSocket \<Rightarrow> socket_call list \<Rightarrow> UdpSocket \<Rightarrow> bool" for pton where
  ss_open: "socket_open pton fd bind_ok s = (ok, calls, s') \<Longrightarrow> sock_step pton s calls s'"
| ss_close: "socket_close s = (calls, s') \<Longrightarrow> sock_step pton s calls s'"
| ss_remote: "sock_step pton s [] (setRemote pton ip port s)"
| ss_timeout: "setRecvTimeoutMs ms s = (calls, s') \<Longrightarrow> sock_step pton s calls s'"
| ss_nonblocking: "sock_step pton s [] (setSendNonBlocking enabled s)"
| ss_buffer: "sock_step pton s (setSendBufferBytes n s) s"
| ss_send: "socket_send answer data s = (sent, calls) \<Longrightarrow> sock_step pton s calls s"
| ss_receive: "socket_receive answer n s = (got, calls) \<Longrightarrow> sock_step pton s calls s"
| ss_receive_within: "receive_within answer n ms s = (got, calls, s') \<Longrightarrow> sock_step pton s calls s'"

fun sock_acquired :: "socket_call \<Rightarrow> int multiset" where
  "sock_acquired (CreatedSocket fd) = {#fd#}"
| "sock_acquired _ = {#}"

fun sock_released :: "socket_call \<Rightarrow> int multiset" where
  "sock_released (ClosedSocket fd) = {#fd#}"
| "sock_released _ = {#}"

definition sock_held :: "UdpSocket \<Rightarrow> int multiset" where
  "sock_held s = (if 0 \<le> sockfd s then {#sockfd s#} else {#})"

text \<open>The receive timeout the kernel has for the socket, as read from the calls: none without a socket, and \<open>(0, 0)\<close>, which
  means that a receive waits for ever, until one is set. \<open>setsockopt\<close> does not fail on a valid time.\<close>

fun kernel_step :: "socket_call \<Rightarrow> (int \<times> int) option \<Rightarrow> (int \<times> int) option" where
  "kernel_step (CreatedSocket fd) k = Some (0, 0)"
| "kernel_step (ClosedSocket fd) k = None"
| "kernel_step (SetRecvTimeout sec usec) k = Some (sec, usec)"
| "kernel_step _ k = k"

definition kernel_timeout :: "socket_call list \<Rightarrow> (int \<times> int) option" where
  "kernel_timeout calls = fold kernel_step calls None"

definition sock_ok :: "(string \<Rightarrow> u32 option) \<Rightarrow> UdpSocket \<Rightarrow> bool" where
  "sock_ok pton s \<longleftrightarrow> (0 \<le> sockfd s \<longrightarrow> resetRemote pton s = s)"

lemma resetRemote_fields [simp]:
  "sockfd (resetRemote pton s) = sockfd s" "sk_recv_timeout_ms (resetRemote pton s) = sk_recv_timeout_ms s"
  "resetRemote pton (resetRemote pton s) = resetRemote pton s"
  "resetRemote pton (s\<lparr>sk_recv_timeout_ms := ms\<rparr>) = (resetRemote pton s)\<lparr>sk_recv_timeout_ms := ms\<rparr>"
  "resetRemote pton (s\<lparr>sk_send_nonblocking := b\<rparr>) = (resetRemote pton s)\<lparr>sk_send_nonblocking := b\<rparr>"
  by (simp_all add: resetRemote_def Let_def case_prod_beta)

lemmas sock_defs = socket_open_def socket_close_def setRemote_def setRecvTimeoutMs_def setSendNonBlocking_def setSendBufferBytes_def
  socket_send_def socket_receive_def receive_within_def

lemma sock_step_ok:
  assumes "sock_step pton s calls s'" "sock_ok pton s"
  shows "sock_ok pton s' \<and> balanced sock_acquired sock_released sock_held s calls s'"
  using assms
  by (induction rule: sock_step.induct)
    (auto simp: sock_defs sock_ok_def sock_held_def balanced_def Let_def split: if_splits option.splits prod.splits)

interpretation socket: ledger sock_acquired sock_released sock_held "sock_ok pton" "sock_step pton" "UdpSocket_init ip port bip bport"
  by unfold_locales (simp add: sock_ok_def sock_held_def UdpSocket_init_def, rule sock_step_ok)

text \<open>What the kernel has after a step depends on what it had before.\<close>

definition timeout_known :: "UdpSocket \<Rightarrow> (int \<times> int) option \<Rightarrow> bool" where
  "timeout_known s k \<longleftrightarrow> k = (if 0 \<le> sockfd s then Some (timeval_of (sk_recv_timeout_ms s)) else None)"

lemma sock_step_timeout:
  assumes "sock_step pton s calls s'" "timeout_known s k"
  shows "timeout_known s' (fold kernel_step calls k)"
  using assms
  by (induction rule: sock_step.induct)
    (auto simp: sock_defs timeout_known_def Let_def split: if_splits option.splits prod.splits)

lemma run_timeout:
  assumes "run_of (sock_step pton) (UdpSocket_init ip port bip bport) s t"
  shows "timeout_known s (kernel_timeout t)"
  using assms
proof (induction rule: run_of.induct)
  case run_init
  then show ?case by (simp add: timeout_known_def UdpSocket_init_def kernel_timeout_def)
next
  case (run_step s t calls s')
  then show ?case using sock_step_timeout by (simp add: kernel_timeout_def)
qed

text \<open>A time of zero or less is no timeout at all.\<close>

lemma timeval_exact: "fst (timeval_of ms) * 1000000 + snd (timeval_of ms) = max 0 ms * 1000" "0 \<le> snd (timeval_of ms)" "snd (timeval_of ms) < 1000000"
proof -
  have "ms div 1000 * 1000000 + ms mod 1000 * 1000 = ms * 1000" using div_mult_mod_eq [of ms 1000] by linarith
  then show "fst (timeval_of ms) * 1000000 + snd (timeval_of ms) = max 0 ms * 1000" by (simp add: timeval_of_def)
  show "0 \<le> snd (timeval_of ms)" "snd (timeval_of ms) < 1000000" by (simp_all add: timeval_of_def)
qed

lemma timeval_zero: "timeval_of ms = (0, 0) \<longleftrightarrow> ms \<le> 0"
proof
  assume "timeval_of ms = (0, 0)"
  then have "max 0 ms * 1000 = 0" using timeval_exact(1) [of ms] by simp
  then show "ms \<le> 0" by simp
qed (simp add: timeval_of_def)

section \<open>Properties\<close>

text \<open>C39: Whatever calls are made of a socket and whichever of them fail, it owns the one descriptor it has not closed; while it
  is open, datagrams go to the destination it was last told, and the kernel has exactly the timeout it was last told,
  as a valid number of seconds and microseconds, also when either was told before the socket was opened.\<close>

theorem socket_follows_settings:
  assumes "run_of (sock_step pton) (UdpSocket_init ip port bip bport) s t"
  shows "total sock_acquired t = total sock_released t + sock_held s
    \<and> (0 \<le> sockfd s \<longrightarrow>
        sk_dest_addr s = \<lparr>sin_family = 2, sin_port = htons (of_int (sk_dest_port s)),
          s_addr = (if sk_dest_ip s = [] then 0 else case pton (sk_dest_ip s) of Some a \<Rightarrow> a | None \<Rightarrow> 0)\<rparr>
      \<and> (\<exists>sec usec. kernel_timeout t = Some (sec, usec) \<and> 0 \<le> usec \<and> usec < 1000000
          \<and> sec * 1000000 + usec = max 0 (sk_recv_timeout_ms s) * 1000))"
proof (intro conjI impI)
  show "total sock_acquired t = total sock_released t + sock_held s" by (rule socket.conserved [OF assms])
  assume open_: "0 \<le> sockfd s"
  have "sk_dest_addr (resetRemote pton s) = sk_dest_addr s"
    using socket.inv_holds [OF assms] open_ by (simp add: sock_ok_def)
  then show "sk_dest_addr s = \<lparr>sin_family = 2, sin_port = htons (of_int (sk_dest_port s)),
      s_addr = (if sk_dest_ip s = [] then 0 else case pton (sk_dest_ip s) of Some a \<Rightarrow> a | None \<Rightarrow> 0)\<rparr>"
    by (simp add: resetRemote_def socket_address_def split: if_splits)
  have "kernel_timeout t = Some (timeval_of (sk_recv_timeout_ms s))"
    using run_timeout [OF assms] open_ by (simp add: timeout_known_def)
  then show "\<exists>sec usec. kernel_timeout t = Some (sec, usec) \<and> 0 \<le> usec \<and> usec < 1000000
      \<and> sec * 1000000 + usec = max 0 (sk_recv_timeout_ms s) * 1000"
    using timeval_exact [of "sk_recv_timeout_ms s"] by (cases "timeval_of (sk_recv_timeout_ms s)") simp
qed

text \<open>A destination that is no IPv4 address, a host name for example, is not reported: datagrams go to the address zero, which is
  this host.\<close>

lemma bad_remote_is_this_host:
  assumes "run_of (sock_step pton) (UdpSocket_init ip port bip bport) s t" "pton (sk_dest_ip s) = None" "0 \<le> sockfd s"
  shows "\<exists>a. socket_send answer data s = (answer, [SentTo (sk_send_nonblocking s) a data]) \<and> s_addr a = 0"
proof -
  have "s_addr (sk_dest_addr (resetRemote pton s)) = 0"
    using assms(2) by (simp add: resetRemote_def socket_address_def split: if_splits)
  then show ?thesis using socket.inv_holds [OF assms(1)] assms(3) by (simp add: socket_send_def sock_ok_def)
qed

text \<open>The start of the manager: a configured receive timeout of zero or less leaves the socket without any. \<open>UdpManager::stop\<close> closes
  the descriptor and joins the receive thread, which then may wait in \<open>recvfrom\<close> without an end.\<close>

lemma started_socket:
  assumes "start_socket pton fl fd bind_ok c (manager_socket c) = (True, calls, s)"
  shows "run_of (sock_step pton) (manager_socket c) s calls \<and> 0 \<le> sockfd s \<and> sk_send_nonblocking s = send_nonblocking c
    \<and> (kernel_timeout calls = Some (0, 0) \<longleftrightarrow> recv_timeout_ms c \<le> 0)"
proof -
  obtain calls1 s1 where o: "socket_open pton fd bind_ok (manager_socket c) = (True, calls1, s1)"
    using assms by (auto simp: start_socket_def split: bool.splits prod.splits)
  define s2 where "s2 = setSendNonBlocking (send_nonblocking c) s1"
  obtain calls2 s3 where tm: "setRecvTimeoutMs (recv_timeout_ms c) s2 = (calls2, s3)" by fastforce
  define n where "n = (if 0 < send_buffer_bytes c then send_buffer_bytes c else defaultSendBufferBytes fl c)"
  have n: "calls = calls1 @ calls2 @ setSendBufferBytes n s3" "s = s3"
    using assms unfolding start_socket_def o s2_def [symmetric] Let_def n_def [symmetric] by (auto simp: tm [unfolded s2_def])
  note run = run_step [where step = "sock_step pton", OF run_step [where step = "sock_step pton", OF run_step [where step = "sock_step pton",
    OF run_step [where step = "sock_step pton", OF run_init ss_open [OF o]] ss_nonblocking] ss_timeout] ss_buffer]
  have r: "run_of (sock_step pton) (manager_socket c) s calls" using run [OF tm [unfolded s2_def], of n] n by simp
  have "sockfd s1 = fd \<and> 0 \<le> fd" using o by (auto simp: sock_defs manager_socket_def UdpSocket_init_def Let_def split: if_splits option.splits prod.splits)
  then have s: "0 \<le> sockfd s" "sk_recv_timeout_ms s = recv_timeout_ms c" "sk_send_nonblocking s = send_nonblocking c"
    using tm n(2) by (auto simp: s2_def setRecvTimeoutMs_def setSendNonBlocking_def Let_def split: if_splits)
  then have "kernel_timeout calls = Some (timeval_of (recv_timeout_ms c))"
    using run_timeout [OF r [unfolded manager_socket_def]] by (simp add: timeout_known_def)
  then show ?thesis using r s timeval_zero by simp
qed

section \<open>A socket told its destination before it is opened\<close>

definition pton0 :: "string \<Rightarrow> u32 option" where
  "pton0 ip = (if ip = ''10.0.0.2'' then Some 0x0200000A else None)"

theorem socket_follows_settings_witness:
  "\<exists>s t. total sock_acquired t = total sock_released t + sock_held s \<and> 0 \<le> sockfd s \<and> s_addr (sk_dest_addr s) = 0x0200000A
     \<and> (\<exists>sec usec. kernel_timeout t = Some (sec, usec) \<and> sec * 1000000 + usec = 100000)"
proof -
  define s0 where "s0 = setRemote pton0 ''10.0.0.2'' 7778 (UdpSocket_init [] 0 [] 0)"
  obtain s t where o: "socket_open pton0 5 True s0 = (True, t, s)" "sockfd s = 5" "sk_dest_ip s = ''10.0.0.2''" "sk_recv_timeout_ms s = 100"
    by (simp add: s0_def sock_defs UdpSocket_init_def resetRemote_def socket_address_def Let_def pton0_def)
  have "run_of (sock_step pton0) (UdpSocket_init [] 0 [] 0) s ([] @ t)"
    using run_step [where step = "sock_step pton0", OF run_step [where step = "sock_step pton0", OF run_init ss_remote] ss_open [OF o(1) [unfolded s0_def]]]
    by simp
  from socket_follows_settings [OF this] o(2-4) show ?thesis by (intro exI [of _ s] exI [of _ t]) (auto simp: pton0_def)
qed

end
