(* ===== verification/SurfaceShim.thy ===== *)
theory SurfaceShim
  imports Prelude
begin

text \<open>
  \<open>src/src/video/nvbufsurface_shim.cpp\<close>: the calls on surfaces by their descriptor. The library of the surfaces answers through
  arguments: a surface is its address, \<open>None\<close> a failure or a null pointer. The calls that make or destroy a surface are
  listed.
\<close>

record NvCommonAllocateParams =
  na_width :: u32
  na_height :: u32
  na_layout :: int
  na_memType :: int
  na_colorFormat :: int
  na_memtag :: int
  na_chromaLocHoriz :: int
  na_chromaLocVert :: int

text \<open>What \<open>NvBufSurfaceAllocate\<close> is given; the other fields of it are zero.\<close>

datatype shim_call = AllocatedSurface NvCommonAllocateParams nat | DestroyedSurface nat | CopiedSurface nat nat

text \<open>\<open>from_fd\<close>: what \<open>NvBufSurfaceFromFd\<close> answers; \<open>rc\<close>: what the call itself returns.\<close>

definition NvDestroy :: "(int \<Rightarrow> nat option) \<Rightarrow> int \<Rightarrow> int \<Rightarrow> int \<times> shim_call list" where
  "NvDestroy from_fd rc fd =
     (if fd \<le> 0 then (- 1, [])
      else (case from_fd fd of None \<Rightarrow> (- 1, []) | Some s \<Rightarrow> (rc, [DestroyedSurface s])))"

text \<open>\<open>allocated i\<close>: the surface and the descriptor of the \<open>i\<close>-th allocation.\<close>

fun allocate_loop ::
  "(nat \<Rightarrow> (nat \<times> int) option) \<Rightarrow> NvCommonAllocateParams \<Rightarrow> nat list \<Rightarrow> int list \<Rightarrow> int \<times> shim_call list \<times> int list" where
  "allocate_loop allocated p [] fds = (0, [], fds)"
| "allocate_loop allocated p (i # is') fds =
     (case allocated i of
        None \<Rightarrow> (- 1, [], fds[i := - 1])
      | Some (s, fd) \<Rightarrow> (let (rc, calls, fds') = allocate_loop allocated p is' (fds[i := fd]) in (rc, AllocatedSurface p s # calls, fds')))"

definition NvAllocate ::
  "(nat \<Rightarrow> (nat \<times> int) option) \<Rightarrow> NvCommonAllocateParams option \<Rightarrow> u32 \<Rightarrow> int list option \<Rightarrow> int \<times> shim_call list \<times> int list option" where
  "NvAllocate allocated p n fds =
     (case (p, fds) of
        (Some a, Some xs) \<Rightarrow>
          if n < 1 then (- 1, [], fds)
          else (let (rc, calls, xs') = allocate_loop allocated a [0..<unat n] xs in (rc, calls, Some xs'))
      | _ \<Rightarrow> (- 1, [], fds))"

definition NvCopy :: "(int \<Rightarrow> nat option) \<Rightarrow> int \<Rightarrow> int \<Rightarrow> int \<Rightarrow> int \<times> shim_call list" where
  "NvCopy from_fd rc src_fd dst_fd =
     (case (from_fd src_fd, from_fd dst_fd) of (Some s, Some d) \<Rightarrow> (rc, [CopiedSurface s d]) | _ \<Rightarrow> (- 1, []))"

definition NvGetSurfaceFromFd :: "(int \<Rightarrow> nat option) \<Rightarrow> int \<Rightarrow> nat option" where
  "NvGetSurfaceFromFd from_fd fd = from_fd fd"

text \<open>An allocation that fails half-way leaves the surfaces made before it, with their descriptors written; only a caller that looks for
  the \<open>-1\<close> can give them back.\<close>

lemma allocate_loop_result:
  assumes "allocate_loop allocated p [k..<n] fds = (rc, calls, fds')" "k \<le> n" "n \<le> length fds"
  shows "\<exists>m. k \<le> m \<and> m \<le> n \<and> (\<forall>i. k \<le> i \<longrightarrow> i < m \<longrightarrow> (\<exists>s. allocated i = Some (s, fds' ! i))) \<and> length calls = m - k
    \<and> (m = n \<and> rc = 0 \<or> m < n \<and> rc = - 1 \<and> allocated m = None \<and> fds' ! m = - 1)
    \<and> length fds' = length fds \<and> (\<forall>i. i < k \<or> m < i \<longrightarrow> fds' ! i = fds ! i)"
  using assms
proof (induction "n - k" arbitrary: k fds calls)
  case 0
  then show ?case by (intro exI [of _ n]) simp
next
  case (Suc d)
  then have kn: "k < n" and d: "d = n - Suc k" by simp_all
  show ?case
  proof (cases "allocated k")
    case None
    then show ?thesis using Suc.prems kn by (intro exI [of _ k]) (auto simp: upt_conv_Cons nth_list_update)
  next
    case (Some a)
    obtain s fd where a: "a = (s, fd)" by (cases a)
    obtain calls1 where r: "allocate_loop allocated p [Suc k..<n] (fds[k := fd]) = (rc, calls1, fds')" "calls = AllocatedSurface p s # calls1"
      using Suc.prems(1) Some a kn by (auto simp: upt_conv_Cons split: prod.splits)
    obtain m where m: "Suc k \<le> m" "m \<le> n" "\<forall>i. Suc k \<le> i \<longrightarrow> i < m \<longrightarrow> (\<exists>s. allocated i = Some (s, fds' ! i))" "length calls1 = m - Suc k"
        "m = n \<and> rc = 0 \<or> m < n \<and> rc = - 1 \<and> allocated m = None \<and> fds' ! m = - 1"
        "length fds' = length fds" "\<forall>i. i < Suc k \<or> m < i \<longrightarrow> fds' ! i = fds[k := fd] ! i"
      using Suc.hyps(1) [OF d r(1)] kn Suc.prems(3) by auto
    have "fds' ! k = fd" using m(7) kn Suc.prems(3) by simp
    then have "\<exists>s. allocated i = Some (s, fds' ! i)" if "k \<le> i" "i < m" for i
      using that m(3) Some a by (cases "i = k") auto
    then show ?thesis using m r(2) by (intro exI [of _ m]) (auto simp: nth_list_update)
  qed
qed

end
