(* ===== verification/TeleopLogger.thy ===== *)
theory TeleopLogger
  imports UdpModule Ledgers
begin

text \<open>
  \<open>src/src/utils/teleop_logger.cpp\<close>: the log file of the program, the topics that go to it, and the lines. The clock, the file
  system and \<open>fopen\<close> answer through arguments; the calls on the file and the lines on the console are the output of
  every operation. Warnings about the file itself, which go to the console only, are left out.
\<close>

section \<open>Base 64\<close>

definition kB64 :: string where
  "kB64 = ''ABCDEFGHIJKLMNOPQRSTUVWXYZabcdefghijklmnopqrstuvwxyz0123456789+/''"

definition b64_symbol :: "u32 \<Rightarrow> char" where
  "b64_symbol v = kB64 ! unat (v AND 0x3F)"

fun base64Encode :: "bytes \<Rightarrow> string" where
  "base64Encode (a # b # c # rest) =
     (let v = push_bit 16 (ucast a) OR push_bit 8 (ucast b) OR ucast c
      in [b64_symbol (drop_bit 18 v), b64_symbol (drop_bit 12 v), b64_symbol (drop_bit 6 v), b64_symbol v] @ base64Encode rest)"
| "base64Encode [a, b] =
     (let v = push_bit 16 (ucast a) OR push_bit 8 (ucast b)
      in [b64_symbol (drop_bit 18 v), b64_symbol (drop_bit 12 v), b64_symbol (drop_bit 6 v), CHR ''=''])"
| "base64Encode [a] =
     (let v = push_bit 16 (ucast a)
      in [b64_symbol (drop_bit 18 v), b64_symbol (drop_bit 12 v), CHR ''='', CHR ''=''])"
| "base64Encode [] = []"

text \<open>The decoder of RFC 4648, the reference.\<close>

definition b64_index :: "char \<Rightarrow> u32" where
  "b64_index c = of_nat (length (takeWhile (\<lambda>x. x \<noteq> c) kB64))"

definition b64_group :: "char \<Rightarrow> char \<Rightarrow> u32 \<Rightarrow> u32 \<Rightarrow> u32" where
  "b64_group p q r s = push_bit 18 (b64_index p) OR push_bit 12 (b64_index q) OR push_bit 6 r OR s"

fun b64_decode :: "string \<Rightarrow> bytes" where
  "b64_decode (p # q # r # s # rest) =
     (if s \<noteq> CHR ''='' then (let v = b64_group p q (b64_index r) (b64_index s)
                           in [ucast (drop_bit 16 v), ucast (drop_bit 8 v), ucast v] @ b64_decode rest)
      else if r \<noteq> CHR ''='' then (let v = b64_group p q (b64_index r) 0 in [ucast (drop_bit 16 v), ucast (drop_bit 8 v)])
      else [ucast (drop_bit 16 (b64_group p q 0 0))])"
| "b64_decode _ = []"

lemma kB64_facts: "length kB64 = 64" "distinct kB64" "\<forall>c\<in>set kB64. c \<noteq> CHR ''='' \<and> c \<noteq> CHR '' '' \<and> 33 \<le> (of_char c :: nat)"
  by (simp_all add: kB64_def)

lemma and_63: "v AND 0x3F = take_bit 6 (v :: u32)"
  by (simp add: take_bit_eq_mask mask_eq_exp_minus_1)

lemma masked_index: "unat (v AND 0x3F :: u32) < 64"
  using take_bit_nat_less_exp [of 6 "unat v"] by (simp add: and_63 unsigned_take_bit_eq)

lemma index_of_nth: "distinct xs \<Longrightarrow> i < length xs \<Longrightarrow> length (takeWhile (\<lambda>x. x \<noteq> xs ! i) xs) = i"
proof (induction xs arbitrary: i)
  case Nil
  then show ?case by simp
next
  case (Cons x xs)
  then show ?case by (cases i) (auto simp: nth_Cons)
qed

lemma b64_index_symbol: "b64_index (b64_symbol v) = v AND 0x3F"
  using index_of_nth [OF kB64_facts(2), of "unat (v AND 0x3F)"] masked_index [of v] kB64_facts(1)
  by (simp add: b64_index_def b64_symbol_def)

lemma b64_symbol_in: "b64_symbol v \<in> set kB64"
  using masked_index [of v] kB64_facts(1) by (simp add: b64_symbol_def)

lemma b64_symbol_pad: "b64_symbol v \<noteq> CHR ''=''"
  using b64_symbol_in kB64_facts(3) by blast

lemma bit_u8: "bit (w :: u8) n \<Longrightarrow> n < 8"
  using bit_imp_le_length [of w n] by simp

lemma bit_u8_out: "\<not> bit (w :: u8) (8 + n)" "\<not> bit w (16 + n)"
  using bit_u8 [of w] by fastforce+

lemma decode_symbols:
  "b64_group (b64_symbol (drop_bit 18 v)) (b64_symbol (drop_bit 12 v)) (drop_bit 6 v AND 0x3F) (v AND 0x3F) = take_bit 24 v"
proof (rule bit_word_eqI)
  fix n assume "n < LENGTH(32)"
  then consider "n < 6" | "6 \<le> n" "n < 12" | "12 \<le> n" "n < 18" | "18 \<le> n" "n < 24" | "24 \<le> n" "n < 32" by force
  then show "bit (b64_group (b64_symbol (drop_bit 18 v)) (b64_symbol (drop_bit 12 v)) (drop_bit 6 v AND 0x3F) (v AND 0x3F)) n
      = bit (take_bit 24 v) n"
    by cases (auto simp: b64_group_def b64_index_symbol and_63 bit_simps)
qed

text \<open>The bytes of a group, and the sextets of a short one that are zero.\<close>

lemma group_bytes:
  assumes "v = push_bit 16 (ucast (a :: u8)) OR push_bit 8 (ucast (b :: u8)) OR (ucast (c :: u8) :: u32)"
  shows "ucast (drop_bit 16 (take_bit 24 v)) = a" "ucast (drop_bit 8 (take_bit 24 v)) = b" "ucast (take_bit 24 v) = c"
    "c = 0 \<Longrightarrow> v AND 0x3F = 0" "b = 0 \<Longrightarrow> c = 0 \<Longrightarrow> drop_bit 6 v AND 0x3F = 0"
  using assms by (auto intro!: bit_word_eqI simp: bit_simps and_63 bit_u8_out dest: bit_u8)

lemma b64_decode_encode: "b64_decode (base64Encode bs) = bs"
proof (induction bs rule: base64Encode.induct)
  case (1 a b c rest)
  define v :: u32 where "v = push_bit 16 (ucast a) OR push_bit 8 (ucast b) OR ucast c"
  show ?case
    unfolding base64Encode.simps Let_def v_def [symmetric]
    using 1 decode_symbols [of v] group_bytes [OF v_def] by (simp add: b64_symbol_pad b64_index_symbol Let_def)
next
  case (2 a b)
  define v :: u32 where "v = push_bit 16 (ucast a) OR push_bit 8 (ucast b)"
  have v: "v = push_bit 16 (ucast a) OR push_bit 8 (ucast b) OR ucast (0 :: u8)" by (simp add: v_def)
  show ?case
    unfolding base64Encode.simps Let_def v_def [symmetric]
    using decode_symbols [of v] group_bytes [OF v] by (simp add: b64_symbol_pad b64_index_symbol Let_def)
next
  case (3 a)
  define v :: u32 where "v = push_bit 16 (ucast a)"
  have v: "v = push_bit 16 (ucast a) OR push_bit 8 (ucast (0 :: u8)) OR ucast (0 :: u8)" by (simp add: v_def)
  show ?case
    unfolding base64Encode.simps Let_def v_def [symmetric]
    using decode_symbols [of v] group_bytes [OF v] by (simp add: b64_symbol_pad b64_index_symbol Let_def)
qed simp

lemma base64_chars: "set (base64Encode bs) \<subseteq> insert (CHR ''='') (set kB64)"
  by (induction bs rule: base64Encode.induct) (auto simp: b64_symbol_in Let_def)


section \<open>Topics\<close>

datatype FileTopic = UdpIFrame | UdpHeaderOnce | UdpHandshake | UdpFrameEnd | H264SpsPps | UdpScreamFeedback | UdpScreamRate

fun topic_value :: "FileTopic \<Rightarrow> u32" where
  "topic_value UdpIFrame = 1"
| "topic_value UdpHeaderOnce = 2"
| "topic_value UdpHandshake = 4"
| "topic_value UdpFrameEnd = 8"
| "topic_value H264SpsPps = 16"
| "topic_value UdpScreamFeedback = 32"
| "topic_value UdpScreamRate = 64"

fun topic_name :: "FileTopic \<Rightarrow> string" where
  "topic_name UdpIFrame = ''udp_iframe''"
| "topic_name UdpHeaderOnce = ''udp_header_once''"
| "topic_name UdpHandshake = ''udp_handshake''"
| "topic_name UdpFrameEnd = ''udp_frame_end''"
| "topic_name H264SpsPps = ''h264_sps_pps''"
| "topic_name UdpScreamFeedback = ''udp_scream_feedback''"
| "topic_name UdpScreamRate = ''udp_scream_rate''"

definition topicBit :: "string \<Rightarrow> u32" where
  "topicBit t =
     (if t = topic_name UdpIFrame then topic_value UdpIFrame
      else if t = topic_name UdpHeaderOnce then topic_value UdpHeaderOnce
      else if t = topic_name UdpHandshake then topic_value UdpHandshake
      else if t = topic_name UdpFrameEnd then topic_value UdpFrameEnd
      else if t = topic_name H264SpsPps then topic_value H264SpsPps
      else if t = topic_name UdpScreamFeedback then topic_value UdpScreamFeedback
      else if t = topic_name UdpScreamRate then topic_value UdpScreamRate
      else 0)"

definition fileTopicsFromStrings :: "string list \<Rightarrow> u32" where
  "fileTopicsFromStrings topics = fold (\<lambda>t m. if topicBit t = 0 then m else m OR topicBit t) topics 0"

section \<open>The file\<close>

text \<open>\<open>Console\<close>: a line for the console.\<close>

datatype log_call = OpenedLog nat string | ClosedLog nat | WroteLine nat string | Console string

record TeleopLogger =
  file_path :: string
  file_enabled :: bool
  file_topic_mask :: u32
  log_file :: "nat option"

definition TeleopLogger_init :: TeleopLogger where
  "TeleopLogger_init = \<lparr>file_path = [], file_enabled = False, file_topic_mask = 0, log_file = None\<rparr>"

text \<open>\<open>fopened\<close>: what \<open>fopen\<close> returns; that the directory cannot be made changes nothing else.\<close>

definition openAppendFile :: "nat option \<Rightarrow> string \<Rightarrow> log_call list \<times> nat option" where
  "openAppendFile fopened path =
     (if path = [] then ([], None)
      else (case fopened of None \<Rightarrow> ([], None) | Some f \<Rightarrow> ([OpenedLog f path], Some f)))"

text \<open>\<open>path::parent_path\<close> of POSIX, and \<open>operator/\<close> for a file name.\<close>

definition parent_path :: "string \<Rightarrow> string" where
  "parent_path p =
     (let d = dropWhile (\<lambda>c. c \<noteq> CHR ''/'') (rev p); e = dropWhile (\<lambda>c. c = CHR ''/'') d
      in if set p \<subseteq> {CHR ''/''} then p else if d \<noteq> [] \<and> e = [] then ''/'' else rev e)"

definition path_append :: "string \<Rightarrow> string \<Rightarrow> string" where
  "path_append dir name = (if dir = [] \<or> last dir = CHR ''/'' then dir @ name else dir @ CHR ''/'' # name)"

text \<open>The local time of a reading of the clock, with its microseconds, and decimals of a fixed width.\<close>

record local_time =
  tm_year :: nat
  tm_mon :: nat
  tm_mday :: nat
  tm_hour :: nat
  tm_min :: nat
  tm_sec :: nat
  us_part :: nat

definition padded :: "nat \<Rightarrow> nat \<Rightarrow> string" where
  "padded width n = replicate (width - length (nat_digits n)) (CHR ''0'') @ nat_digits n"

text \<open>\<open>is_directory\<close>, \<open>dir_ok\<close>: what the file system answers; an exception is \<open>dir_ok\<close> false.\<close>

record path_answer =
  is_directory :: bool
  dir_ok :: bool
  run_time :: local_time
  pid :: nat

definition run_log_name :: "local_time \<Rightarrow> nat \<Rightarrow> string" where
  "run_log_name tm process =
     ''trb_'' @ nat_digits (tm_year tm) @ padded 2 (tm_mon tm) @ padded 2 (tm_mday tm) @ ''_''
       @ padded 2 (tm_hour tm) @ padded 2 (tm_min tm) @ padded 2 (tm_sec tm)
       @ ''_'' @ padded 6 (us_part tm) @ ''_'' @ nat_digits process @ ''.log''"

definition makePerRunLogFilePath :: "path_answer \<Rightarrow> string \<Rightarrow> string" where
  "makePerRunLogFilePath a path_or_dir =
     (if path_or_dir = [] \<or> \<not> dir_ok a then []
      else path_append (if is_directory a then path_or_dir else if parent_path path_or_dir \<noteq> [] then parent_path path_or_dir else ''.'')
             (run_log_name (run_time a) (pid a)))"

definition closeFile :: "nat option \<Rightarrow> log_call list" where
  "closeFile f = (case f of None \<Rightarrow> [] | Some x \<Rightarrow> [ClosedLog x])"

definition configureFileLogging :: "path_answer \<Rightarrow> nat option \<Rightarrow> bool \<Rightarrow> string \<Rightarrow> u32 \<Rightarrow> TeleopLogger \<Rightarrow> log_call list \<times> TeleopLogger" where
  "configureFileLogging a fopened enabled path topic_mask l =
     (let l1 = l\<lparr>file_topic_mask := topic_mask, file_enabled := enabled, file_path := path\<rparr>; closing = closeFile (log_file l1);
          l2 = l1\<lparr>log_file := None\<rparr>
      in if \<not> enabled then (closing, l2)
         else (let run_path = makePerRunLogFilePath a (file_path l2)
               in if run_path = [] then (closing, l2\<lparr>file_enabled := False\<rparr>)
                  else (let (opening, f) = openAppendFile fopened run_path
                        in (closing @ opening, l2\<lparr>file_path := run_path, log_file := f\<rparr>))))"

text \<open>\<open>MainNode::configureLogging\<close>.\<close>

definition configureLogging ::
  "path_answer \<Rightarrow> nat option \<Rightarrow> params \<Rightarrow> (string \<Rightarrow> string list option) \<Rightarrow> TeleopLogger \<Rightarrow> log_call list \<times> TeleopLogger" where
  "configureLogging a fopened p par_strings l =
     configureFileLogging a fopened (declareOrGet (par_bool p) ''logging.file.enabled'' False)
       (declareOrGet (par_string p) ''logging.file.path'' ''/tmp/teleop_robot_bridge.log'')
       (fileTopicsFromStrings (declareOrGet par_strings ''logging.file.topics'' [])) l"

definition shouldWrite :: "FileTopic \<Rightarrow> TeleopLogger \<Rightarrow> bool" where
  "shouldWrite topic l = (file_enabled l \<and> file_topic_mask l AND topic_value topic \<noteq> 0)"

text \<open>\<open>fputs\<close> stops at the first zero byte of the line.\<close>

definition writeLineLocked :: "nat option \<Rightarrow> string \<Rightarrow> TeleopLogger \<Rightarrow> log_call list \<times> TeleopLogger" where
  "writeLineLocked fopened line l =
     (if \<not> file_enabled l then ([], l)
      else (let (opening, f) = (case log_file l of None \<Rightarrow> openAppendFile fopened (file_path l) | Some x \<Rightarrow> ([], Some x))
            in case f of None \<Rightarrow> (opening, l\<lparr>log_file := None\<rparr>)
               | Some x \<Rightarrow> (opening @ [WroteLine x (takeWhile (\<lambda>c. c \<noteq> CHR 0x00) line @ [CHR 0x0A])], l\<lparr>log_file := Some x\<rparr>)))"


section \<open>The lines\<close>

definition nowString :: "local_time \<Rightarrow> string" where
  "nowString tm = nat_digits (tm_year tm) @ ''-'' @ padded 2 (tm_mon tm) @ ''-'' @ padded 2 (tm_mday tm)
     @ '' '' @ padded 2 (tm_hour tm) @ '':'' @ padded 2 (tm_min tm) @ '':'' @ padded 2 (tm_sec tm)"

definition decimal :: "'a::len word \<Rightarrow> string" where
  "decimal w = nat_digits (unat w)"

text \<open>\<open>%02X\<close>, and \<open>%.2f\<close>, which rounds to even.\<close>

definition upper_hex :: "u8 \<Rightarrow> string" where
  "upper_hex b = map (\<lambda>d. if d < 10 then char_of (48 + d) else char_of (55 + d)) [unat b div 16, unat b mod 16]"

definition hundredths :: "double \<Rightarrow> nat" where
  "hundredths x =
     (let y = x * 100; f = \<lfloor>y\<rfloor>; r = y - of_int f
      in nat (if r < 1 / 2 \<or> r = 1 / 2 \<and> even f then f else f + 1))"

definition fixed2 :: "double \<Rightarrow> string" where
  "fixed2 x = (if x < 0 then ''-'' else []) @ nat_digits (hundredths \<bar>x\<bar> div 100) @ ''.'' @ padded 2 (hundredths \<bar>x\<bar> mod 100)"

definition topic_line :: "local_time \<Rightarrow> FileTopic \<Rightarrow> string \<Rightarrow> string" where
  "topic_line tm topic text = nowString tm @ '' ['' @ topic_name topic @ ''] '' @ text"

text \<open>A null pointer is an empty unit.\<close>

definition h264SpsPps ::
  "local_time \<Rightarrow> nat option \<Rightarrow> u64 \<Rightarrow> u32 \<Rightarrow> u8 \<Rightarrow> bytes \<Rightarrow> TeleopLogger \<Rightarrow> log_call list \<times> TeleopLogger" where
  "h264SpsPps tm fopened capture_ts_us frame nal_unit_type nal l =
     (if \<not> shouldWrite H264SpsPps l \<or> nal = [] then ([], l)
      else writeLineLocked fopened (topic_line tm H264SpsPps
        (''ts_us='' @ decimal capture_ts_us @ '' frame_id='' @ decimal frame @ '' nal_type='' @ decimal nal_unit_type
           @ '' kind='' @ (if nal_unit_type = 7 then ''SPS'' else if nal_unit_type = 8 then ''PPS'' else ''NAL'')
           @ '' bytes='' @ nat_digits (length nal) @ '' b64='' @ base64Encode nal)) l)"

record header_line =
  hl_idx :: u64
  hl_type :: u8
  hl_seq :: u16
  hl_ts :: u64
  hl_frame_id :: u32
  hl_frag_index :: u16
  hl_total_frags :: u16
  hl_payload_len :: u16
  hl_frame_len :: u32
  hl_fec_table_id :: u8
  hl_keyframe :: u8

definition udpHeaderOnce :: "local_time \<Rightarrow> nat option \<Rightarrow> header_line \<Rightarrow> TeleopLogger \<Rightarrow> log_call list \<times> TeleopLogger" where
  "udpHeaderOnce tm fopened h l =
     (let console = (if hl_idx h < 8
            then [Console (''UDP hdr['' @ decimal (hl_idx h) @ '']: type=0x'' @ upper_hex (hl_type h) @ '' seq='' @ decimal (hl_seq h)
                   @ '' ts='' @ decimal (hl_ts h) @ '' frame='' @ decimal (hl_frame_id h) @ '' frag='' @ decimal (hl_frag_index h)
                   @ ''/'' @ decimal (hl_total_frags h) @ '' paylen='' @ decimal (hl_payload_len h) @ '' frame_len='' @ decimal (hl_frame_len h)
                   @ '' fec(table='' @ decimal (hl_fec_table_id h) @ '') keyframe='' @ decimal (hl_keyframe h))]
            else [])
      in if \<not> shouldWrite UdpHeaderOnce l then (console, l)
         else (let (calls, l1) = writeLineLocked fopened (topic_line tm UdpHeaderOnce
                   (''idx='' @ decimal (hl_idx h) @ '' type=0x'' @ hex_byte (hl_type h) @ '' seq='' @ decimal (hl_seq h)
                      @ '' ts='' @ decimal (hl_ts h) @ '' frame='' @ decimal (hl_frame_id h) @ '' frag='' @ decimal (hl_frag_index h)
                      @ ''/'' @ decimal (hl_total_frags h) @ '' paylen='' @ decimal (hl_payload_len h) @ '' frame_len='' @ decimal (hl_frame_len h)
                      @ '' fec.table='' @ decimal (hl_fec_table_id h) @ '' keyframe='' @ decimal (hl_keyframe h))) l
               in (console @ calls, l1)))"

definition udpIFrame ::
  "local_time \<Rightarrow> nat option \<Rightarrow> u32 \<Rightarrow> nat \<Rightarrow> u32 \<Rightarrow> u32 \<Rightarrow> u32 \<Rightarrow> u8 \<Rightarrow> u8 \<Rightarrow> u8 \<Rightarrow> TeleopLogger \<Rightarrow> log_call list \<times> TeleopLogger" where
  "udpIFrame tm fopened frame enc_bytes data_pkts parity_pkts total_pkts table g r l =
     (let packets = ''frame_id='' @ decimal frame @ '' enc_bytes='' @ nat_digits enc_bytes @ '' data_pkts='' @ decimal data_pkts
            @ '' parity_pkts='' @ decimal parity_pkts @ '' total_pkts='' @ decimal total_pkts;
          console = [Console (''I-frame: '' @ packets @ '' fec(table='' @ decimal table @ '' groups='' @ decimal g @ '' r='' @ decimal r @ '')'')]
      in if \<not> shouldWrite UdpIFrame l then (console, l)
         else (let (calls, l1) = writeLineLocked fopened (topic_line tm UdpIFrame
                   (packets @ '' fec.table='' @ decimal table @ '' groups='' @ decimal g @ '' r='' @ decimal r)) l
               in (console @ calls, l1)))"

definition udpHandshake :: "local_time \<Rightarrow> nat option \<Rightarrow> string \<Rightarrow> TeleopLogger \<Rightarrow> log_call list \<times> TeleopLogger" where
  "udpHandshake tm fopened msg l =
     (let console = [Console (takeWhile (\<lambda>c. c \<noteq> CHR 0x00) msg)]
      in if \<not> shouldWrite UdpHandshake l then (console, l)
         else (let (calls, l1) = writeLineLocked fopened (topic_line tm UdpHandshake msg) l in (console @ calls, l1)))"

definition udpFrameEnd ::
  "local_time \<Rightarrow> nat option \<Rightarrow> u32 \<Rightarrow> u64 \<Rightarrow> nat \<Rightarrow> u32 \<Rightarrow> u32 \<Rightarrow> double \<Rightarrow> u64 \<Rightarrow> TeleopLogger \<Rightarrow> log_call list \<times> TeleopLogger" where
  "udpFrameEnd tm fopened frame capture_ts_us enc_bytes data_pkts parity_pkts overhead fec_us l =
     (let packets = ''frame_id='' @ decimal frame @ '' cap_us='' @ decimal capture_ts_us @ '' enc_bytes='' @ nat_digits enc_bytes
            @ '' data_pkts='' @ decimal data_pkts @ '' parity_pkts='' @ decimal parity_pkts;
          console = [Console (''FrameEnd: '' @ packets @ '' overhead='' @ fixed2 overhead @ ''% fec_us='' @ decimal fec_us)]
      in if \<not> shouldWrite UdpFrameEnd l then (console, l)
         else (let (calls, l1) = writeLineLocked fopened (topic_line tm UdpFrameEnd
                   (packets @ '' overhead_pct='' @ fixed2 overhead @ '' fec_us='' @ decimal fec_us)) l
               in (console @ calls, l1)))"

definition udpScreamFeedbackHeader :: "local_time \<Rightarrow> nat option \<Rightarrow> u16 \<Rightarrow> u16 \<Rightarrow> u64 \<Rightarrow> TeleopLogger \<Rightarrow> log_call list \<times> TeleopLogger" where
  "udpScreamFeedbackHeader tm fopened base_seq ack_vector_bits rx_timestamp_ntp l =
     (if \<not> shouldWrite UdpScreamFeedback l then ([], l)
      else writeLineLocked fopened (nowString tm @ '' '' @ ''udp_scream_feedback'' @ '' base_seq='' @ decimal base_seq
             @ '' ack_bits='' @ decimal ack_vector_bits @ '' rx_ntp='' @ decimal rx_timestamp_ntp) l)"

definition udpScreamRate :: "local_time \<Rightarrow> nat option \<Rightarrow> u64 \<Rightarrow> u64 \<Rightarrow> TeleopLogger \<Rightarrow> log_call list \<times> TeleopLogger" where
  "udpScreamRate tm fopened target pacing l =
     (if \<not> shouldWrite UdpScreamRate l then ([], l)
      else writeLineLocked fopened (nowString tm @ '' '' @ ''udp_scream_rate'' @ '' target_bps='' @ decimal target
             @ '' pacing_bps='' @ decimal pacing) l)"


section \<open>Topics are exact\<close>

lemma topic_value_inject: "topic_value topic AND topic_value topic' \<noteq> 0 \<longleftrightarrow> topic = topic'"
  by (cases topic; cases topic') simp_all

lemma topicBit_name: "topicBit (topic_name topic) = topic_value topic" "topicBit t = 0 \<or> (\<exists>topic. t = topic_name topic)"
  "topic_value topic \<noteq> 0"
proof -
  show "topicBit (topic_name topic) = topic_value topic" by (cases topic) (simp_all add: topicBit_def)
  show "topicBit t = 0 \<or> (\<exists>topic. t = topic_name topic)"
  proof (cases "\<exists>topic. t = topic_name topic")
    case False
    then have "t \<noteq> topic_name topic" for topic by blast
    then show ?thesis unfolding topicBit_def by (simp del: topic_name.simps)
  qed blast
  show "topic_value topic \<noteq> 0" by (cases topic) simp_all
qed

lemma topic_name_inject: "topic_name topic = topic_name topic' \<longleftrightarrow> topic = topic'"
  by (cases topic; cases topic') simp_all

lemma topicBit_topic: "topicBit t AND topic_value topic \<noteq> 0 \<longleftrightarrow> t = topic_name topic"
proof (cases "topicBit t = 0")
  case True
  then have "t \<noteq> topic_name topic" using topicBit_name(1,3) [of topic] by metis
  then show ?thesis using True by simp
next
  case False
  then obtain topic' where "t = topic_name topic'" using topicBit_name(2) [of t] by blast
  then show ?thesis by (simp only: topicBit_name(1) topic_value_inject topic_name_inject)
qed

lemma mask_of_topics:
  "fold (\<lambda>t m. if topicBit t = 0 then m else m OR topicBit t) topics m AND topic_value topic \<noteq> 0
   \<longleftrightarrow> m AND topic_value topic \<noteq> 0 \<or> topic_name topic \<in> set topics"
proof (induction topics arbitrary: m)
  case Nil
  then show ?case by simp
next
  case (Cons t topics)
  let ?m = "if topicBit t = 0 then m else m OR topicBit t"
  have "?m AND topic_value topic \<noteq> 0 \<longleftrightarrow> m AND topic_value topic \<noteq> 0 \<or> t = topic_name topic"
    using topicBit_topic [of t topic] by (cases "topicBit t = 0") (auto simp: bit.conj_disj_distrib2 or_eq_0_iff simp del: topic_name.simps topic_value.simps)
  then show ?case unfolding fold_simps comp_def Cons.IH by (simp only: list.set insert_iff) blast
qed

section \<open>What a line is made of\<close>

text \<open>No line but a handshake message of the caller can hold a character below the blank.\<close>

definition printable :: "string \<Rightarrow> bool" where
  "printable s \<longleftrightarrow> (\<forall>c\<in>set s. 32 \<le> (of_char c :: nat))"

lemma printable_append [simp]: "printable (a @ b) \<longleftrightarrow> printable a \<and> printable b"
  by (auto simp: printable_def)

lemma printable_Cons [simp]: "printable (c # s) \<longleftrightarrow> 32 \<le> (of_char c :: nat) \<and> printable s" "printable []"
  by (auto simp: printable_def)

lemma printable_digits [simp]: "printable (nat_digits n)"
proof (induction n rule: nat_digits.induct)
  case (1 n)
  then show ?case by (subst nat_digits.simps) simp
qed

lemma printable_decimal [simp]: "printable (decimal w)" "printable (padded k n)"
proof -
  show "printable (decimal w)" by (simp add: decimal_def)
  have "printable (replicate m (CHR ''0''))" for m by (simp add: printable_def)
  then show "printable (padded k n)" by (simp add: padded_def)
qed

lemma printable_base64 [simp]: "printable (base64Encode bs)"
proof -
  have "\<forall>c\<in>insert (CHR ''='') (set kB64). 32 \<le> (of_char c :: nat)" using kB64_facts(3) by fastforce
  then show ?thesis using base64_chars [of bs] unfolding printable_def by blast
qed

lemma printable_line: "printable text \<Longrightarrow> printable (topic_line tm topic text)"
  by (cases topic) (simp_all add: topic_line_def nowString_def)

lemma printable_uncut: "printable s \<Longrightarrow> takeWhile (\<lambda>c. c \<noteq> CHR 0x00) s = s \<and> CHR 0x0A \<notin> set s"
  unfolding printable_def by (fastforce intro!: takeWhile_eq_all_conv [THEN iffD2])


section \<open>Runs\<close>

datatype log_operation =
    Configure path_answer bool string u32
  | ParameterSet u64 u32 u8 bytes | HeaderOnce header_line | IFrame u32 nat u32 u32 u32 u8 u8 u8 | Handshake string
  | FrameEnd u32 u64 nat u32 u32 double u64 | ScreamFeedback u16 u16 u64 | ScreamRate u64 u64

fun log_operate :: "local_time \<Rightarrow> nat option \<Rightarrow> log_operation \<Rightarrow> TeleopLogger \<Rightarrow> log_call list \<times> TeleopLogger" where
  "log_operate tm f (Configure a enabled path topics) l = configureFileLogging a f enabled path topics l"
| "log_operate tm f (ParameterSet ts frame ty nal) l = h264SpsPps tm f ts frame ty nal l"
| "log_operate tm f (HeaderOnce h) l = udpHeaderOnce tm f h l"
| "log_operate tm f (IFrame frame n d p pkts table g r) l = udpIFrame tm f frame n d p pkts table g r l"
| "log_operate tm f (Handshake msg) l = udpHandshake tm f msg l"
| "log_operate tm f (FrameEnd frame ts n d p overhead us) l = udpFrameEnd tm f frame ts n d p overhead us l"
| "log_operate tm f (ScreamFeedback base bits ntp) l = udpScreamFeedbackHeader tm f base bits ntp l"
| "log_operate tm f (ScreamRate target pacing) l = udpScreamRate tm f target pacing l"

fun operation_topic :: "log_operation \<Rightarrow> FileTopic option" where
  "operation_topic (Configure a enabled path topics) = None"
| "operation_topic (ParameterSet ts frame ty nal) = Some H264SpsPps"
| "operation_topic (HeaderOnce h) = Some UdpHeaderOnce"
| "operation_topic (IFrame frame n d p pkts table g r) = Some UdpIFrame"
| "operation_topic (Handshake msg) = Some UdpHandshake"
| "operation_topic (FrameEnd frame ts n d p overhead us) = Some UdpFrameEnd"
| "operation_topic (ScreamFeedback base bits ntp) = Some UdpScreamFeedback"
| "operation_topic (ScreamRate target pacing) = Some UdpScreamRate"

inductive log_step :: "TeleopLogger \<Rightarrow> log_call list \<Rightarrow> TeleopLogger \<Rightarrow> bool" where
  "log_operate tm f w l = (calls, l') \<Longrightarrow> log_step l calls l'"

fun log_acquired :: "log_call \<Rightarrow> nat multiset" where
  "log_acquired (OpenedLog f path) = {#f#}"
| "log_acquired _ = {#}"

fun log_released :: "log_call \<Rightarrow> nat multiset" where
  "log_released (ClosedLog f) = {#f#}"
| "log_released _ = {#}"

definition log_held :: "TeleopLogger \<Rightarrow> nat multiset" where
  "log_held l = (case log_file l of None \<Rightarrow> {#} | Some f \<Rightarrow> {#f#})"

abbreviation log_balanced :: "TeleopLogger \<Rightarrow> log_call list \<Rightarrow> TeleopLogger \<Rightarrow> bool" where
  "log_balanced \<equiv> balanced log_acquired log_released log_held"

lemma writeLine_balanced: "writeLineLocked f line l = (calls, l') \<Longrightarrow> log_balanced l calls l'"
  by (auto simp: writeLineLocked_def openAppendFile_def balanced_def log_held_def Let_def split: if_splits option.splits)

lemma configure_balanced: "configureFileLogging a f enabled path topics l = (calls, l') \<Longrightarrow> log_balanced l calls l'"
  by (auto simp: configureFileLogging_def openAppendFile_def closeFile_def balanced_def log_held_def Let_def split: if_splits option.splits)

text \<open>A line goes to the console or, if its topic is chosen, also to the file; a unit without bytes gives no line.\<close>

fun empty_unit :: "log_operation \<Rightarrow> bool" where
  "empty_unit (ParameterSet ts frame ty nal) = (nal = [])"
| "empty_unit _ = False"

definition topic_output :: "bool \<Rightarrow> nat option \<Rightarrow> TeleopLogger \<Rightarrow> log_call list \<Rightarrow> TeleopLogger \<Rightarrow> bool" where
  "topic_output writes f l calls l' \<longleftrightarrow> (\<exists>console file. calls = map Console console @ file \<and>
     (if writes then \<exists>line. writeLineLocked f line l = (file, l') else file = [] \<and> l' = l))"

lemma topic_output_if:
  assumes "(if \<not> w then (cs, l) else (case writeLineLocked f line l of (file, l1) \<Rightarrow> (cs @ file, l1))) = (calls, l')"
    and "\<exists>console. cs = map Console console"
  shows "topic_output w f l calls l'"
  using assms unfolding topic_output_def by (auto split: if_splits prod.splits)

lemma topic_output_file:
  "(if \<not> w then ([], l) else writeLineLocked f line l) = (calls, l') \<Longrightarrow> topic_output w f l calls l'"
  unfolding topic_output_def by (rule exI [of _ "[]"]) (auto split: if_splits)

lemma console_lines:
  "\<exists>console. [Console x] = map Console console" "\<exists>console. (if b then [Console x] else []) = map Console console"
proof -
  show "\<exists>console. [Console x] = map Console console" by (rule exI [of _ "[x]"]) simp
  then show "\<exists>console. (if b then [Console x] else []) = map Console console" by (cases b) simp_all
qed

lemma operation_shape:
  assumes "log_operate tm f w l = (calls, l')" "operation_topic w = Some topic"
  shows "topic_output (shouldWrite topic l \<and> \<not> empty_unit w) f l calls l'"
proof (cases w)
  case (ParameterSet ts frame ty nal)
  then have "h264SpsPps tm f ts frame ty nal l = (calls, l')" "topic = H264SpsPps" using assms by simp_all
  from this(1) [unfolded h264SpsPps_def] this(2) ParameterSet show ?thesis
    by (intro topic_output_file) (simp only: empty_unit.simps de_Morgan_conj not_not)
next
  case (HeaderOnce h)
  then have "udpHeaderOnce tm f h l = (calls, l')" "topic = UdpHeaderOnce" using assms by simp_all
  from topic_output_if [OF this(1) [unfolded udpHeaderOnce_def Let_def] console_lines(2)] this(2) HeaderOnce show ?thesis by simp
next
  case (ScreamRate target pacing)
  then have "udpScreamRate tm f target pacing l = (calls, l')" "topic = UdpScreamRate" using assms by simp_all
  from topic_output_file [OF this(1) [unfolded udpScreamRate_def]] this(2) ScreamRate show ?thesis by simp
next
  case (ScreamFeedback base bits ntp)
  then have "udpScreamFeedbackHeader tm f base bits ntp l = (calls, l')" "topic = UdpScreamFeedback" using assms by simp_all
  from topic_output_file [OF this(1) [unfolded udpScreamFeedbackHeader_def]] this(2) ScreamFeedback show ?thesis by simp
next
  case (Handshake msg)
  then have "udpHandshake tm f msg l = (calls, l')" "topic = UdpHandshake" using assms by simp_all
  from topic_output_if [OF this(1) [unfolded udpHandshake_def Let_def] console_lines(1)] this(2) Handshake show ?thesis by simp
next
  case (IFrame frame n d p pkts table g r)
  then have "udpIFrame tm f frame n d p pkts table g r l = (calls, l')" "topic = UdpIFrame" using assms by simp_all
  from topic_output_if [OF this(1) [unfolded udpIFrame_def Let_def] console_lines(1)] this(2) IFrame show ?thesis by simp
next
  case (FrameEnd frame ts n d p overhead us)
  then have "udpFrameEnd tm f frame ts n d p overhead us l = (calls, l')" "topic = UdpFrameEnd" using assms by simp_all
  from topic_output_if [OF this(1) [unfolded udpFrameEnd_def Let_def] console_lines(1)] this(2) FrameEnd show ?thesis by simp
qed (use assms in simp)

lemma topic_output_balanced: "topic_output writes f l calls l' \<Longrightarrow> log_balanced l calls l'"
proof -
  have "log_acquired \<circ> Console = (\<lambda>_. {#})" "log_released \<circ> Console = (\<lambda>_. {#})" by (simp_all add: comp_def)
  then have c: "log_balanced l (map Console console) l" for console by (simp add: balanced_def total_def)
  assume "topic_output writes f l calls l'"
  then obtain console cs where o: "calls = map Console console @ cs"
      "if writes then \<exists>line. writeLineLocked f line l = (cs, l') else cs = [] \<and> l' = l"
    unfolding topic_output_def by blast
  have "log_balanced l cs l'" using o(2) writeLine_balanced by (auto split: if_splits)
  then show ?thesis using balanced_trans [OF c] o(1) by blast
qed

lemma log_step_balanced: "log_step l calls l' \<Longrightarrow> log_balanced l calls l'"
proof (induction rule: log_step.induct)
  case (1 tm f w l calls l')
  show ?case
  proof (cases "operation_topic w")
    case None
    then obtain a enabled path topics where "w = Configure a enabled path topics" by (cases w) simp_all
    then show ?thesis using 1 configure_balanced by simp
  next
    case (Some topic)
    show ?thesis by (rule topic_output_balanced, rule operation_shape [OF 1 Some])
  qed
qed

interpretation log_file: ledger log_acquired log_released log_held "\<lambda>_. True" log_step TeleopLogger_init
  by unfold_locales (simp_all add: log_held_def TeleopLogger_init_def log_step_balanced)

lemma log_files_conserved:
  assumes "run_of log_step TeleopLogger_init l t"
  shows "total log_acquired t = total log_released t + log_held l" "size (log_held l) \<le> 1"
proof -
  show "total log_acquired t = total log_released t + log_held l" by (rule log_file.conserved [OF assms])
  show "size (log_held l) \<le> 1" by (simp add: log_held_def split: option.split)
qed

section \<open>Properties\<close>

text \<open>When the topics of the file are the ones with the names in the parameter, a call writes one line to the open file if logging is
  enabled and its topic is among them, and else nothing; names the code does not know choose nothing.\<close>

theorem topics_exact:
  assumes "file_topic_mask l = fileTopicsFromStrings topics" "log_file l = Some g" "\<not> empty_unit w"
    and "log_operate tm f w l = (calls, l')" "operation_topic w = Some topic"
  shows "\<exists>line. [c \<leftarrow> calls. \<forall>x. c \<noteq> Console x] = (if file_enabled l \<and> topic_name topic \<in> set topics then [WroteLine g line] else [])
    \<and> l' = l"
proof -
  obtain console cs where o: "calls = map Console console @ cs"
      "if shouldWrite topic l then \<exists>line. writeLineLocked f line l = (cs, l') else cs = [] \<and> l' = l"
    using operation_shape [OF assms(4,5)] assms(3) unfolding topic_output_def by auto
  have chosen: "shouldWrite topic l \<longleftrightarrow> file_enabled l \<and> topic_name topic \<in> set topics"
    using mask_of_topics [of topics 0 topic] assms(1) by (simp add: shouldWrite_def fileTopicsFromStrings_def)
  have "[c \<leftarrow> calls. \<forall>x. c \<noteq> Console x] = [c \<leftarrow> cs. \<forall>x. c \<noteq> Console x]" using o(1) by (simp add: filter_empty_conv)
  then show ?thesis using o(2) chosen assms(2) by (auto simp: writeLineLocked_def shouldWrite_def split: if_splits)
qed

text \<open>The reader of a log file: the unit is the last word of the line, without its key.\<close>

definition unit_of_line :: "string \<Rightarrow> bytes" where
  "unit_of_line line = b64_decode (drop 4 (rev (takeWhile (\<lambda>c. c \<noteq> CHR '' '') (rev (butlast line)))))"

text \<open>C40: The parameter sets of the stream can be restored from the log: when their topic is written to the open file, every unit gives exactly
  one line, with a line feed only at its end, from which decoding the last word gives the bytes of the unit.\<close>

theorem parameter_sets_recoverable:
  assumes "shouldWrite H264SpsPps l" "log_file l = Some g" "nal \<noteq> []"
  shows "\<exists>line. h264SpsPps tm f ts frame ty nal l = ([WroteLine g (line @ [CHR 0x0A])], l) \<and> CHR 0x0A \<notin> set line
    \<and> unit_of_line (line @ [CHR 0x0A]) = nal"
proof -
  define key where "key = topic_line tm H264SpsPps (''ts_us='' @ decimal ts @ '' frame_id='' @ decimal frame @ '' nal_type='' @ decimal ty
      @ '' kind='' @ (if ty = 7 then ''SPS'' else if ty = 8 then ''PPS'' else ''NAL'') @ '' bytes='' @ nat_digits (length nal))"
  define line where "line = key @ '' '' @ ''b64='' @ base64Encode nal"
  have p: "printable line" unfolding line_def key_def by (simp add: printable_line)
  have "h264SpsPps tm f ts frame ty nal l = writeLineLocked f line l"
    using assms by (simp add: h264SpsPps_def line_def key_def topic_line_def)
  also have "\<dots> = ([WroteLine g (line @ [CHR 0x0A])], l)"
    using assms printable_uncut [OF p] by (simp add: writeLineLocked_def shouldWrite_def)
  finally have w: "h264SpsPps tm f ts frame ty nal l = ([WroteLine g (line @ [CHR 0x0A])], l)" .
  have "c \<noteq> CHR '' ''" if "c \<in> set (rev (''b64='' @ base64Encode nal))" for c
    using that base64_chars [of nal] kB64_facts(3) by auto
  then have "takeWhile (\<lambda>c. c \<noteq> CHR '' '') (rev line) = rev (''b64='' @ base64Encode nal)"
    unfolding line_def rev_append append_assoc by (subst takeWhile_append2) auto
  then have "unit_of_line (line @ [CHR 0x0A]) = nal" by (simp add: unit_of_line_def b64_decode_encode)
  then show ?thesis using w printable_uncut [OF p] by blast
qed

section \<open>An open log\<close>

definition noon :: local_time where
  "noon = \<lparr>tm_year = 2025, tm_mon = 1, tm_mday = 2, tm_hour = 12, tm_min = 0, tm_sec = 0, us_part = 7\<rparr>"

definition open_log :: "string list \<Rightarrow> TeleopLogger" where
  "open_log topics = \<lparr>file_path = ''log'', file_enabled = True, file_topic_mask = fileTopicsFromStrings topics, log_file = Some 3\<rparr>"

theorem topics_exact_witness:
  "(\<exists>line. fst (log_operate noon None (ScreamRate 8 9) (open_log [''udp_scream_rate'', ''no_topic''])) = [WroteLine 3 line])
   \<and> fst (log_operate noon None (ScreamFeedback 1 2 3) (open_log [''udp_scream_rate'', ''no_topic''])) = []"
proof
  let ?l = "open_log [''udp_scream_rate'', ''no_topic'']"
  have f: "file_topic_mask ?l = fileTopicsFromStrings [''udp_scream_rate'', ''no_topic'']" "log_file ?l = Some 3" "file_enabled ?l"
    by (simp_all add: open_log_def)
  have no_console: "[c \<leftarrow> fst (log_operate noon None w ?l). \<forall>x. c \<noteq> Console x] = fst (log_operate noon None w ?l)"
    if "w = ScreamRate 8 9 \<or> w = ScreamFeedback 1 2 3" for w
    using that by (auto simp: udpScreamRate_def udpScreamFeedbackHeader_def writeLineLocked_def open_log_def)
  show "\<exists>line. fst (log_operate noon None (ScreamRate 8 9) ?l) = [WroteLine 3 line]"
    using topics_exact [OF f(1,2), of "ScreamRate 8 9" noon None, OF _ prod.collapse [symmetric]] no_console [of "ScreamRate 8 9"] f(3) by auto
  show "fst (log_operate noon None (ScreamFeedback 1 2 3) ?l) = []"
    using topics_exact [OF f(1,2), of "ScreamFeedback 1 2 3" noon None, OF _ prod.collapse [symmetric]] no_console [of "ScreamFeedback 1 2 3"] by auto
qed

theorem parameter_sets_recoverable_witness:
  "\<exists>line. h264SpsPps noon None 5 1 7 [0x67, 0, 0x1F, 0xFF] (open_log [''h264_sps_pps''])
      = ([WroteLine 3 (line @ [CHR 0x0A])], open_log [''h264_sps_pps'']) \<and> unit_of_line (line @ [CHR 0x0A]) = [0x67, 0, 0x1F, 0xFF]"
proof -
  have "shouldWrite H264SpsPps (open_log [''h264_sps_pps''])" "log_file (open_log [''h264_sps_pps'']) = Some 3"
    by (simp_all add: shouldWrite_def open_log_def fileTopicsFromStrings_def topicBit_def)
  from parameter_sets_recoverable [OF this, of "[0x67, 0, 0x1F, 0xFF]" noon None 5 1 7] show ?thesis by fastforce
qed

end
