(* ===== verification/Spec2Isabelle.thy ===== *)
theory Spec2Isabelle
  imports AudioModule RobotTelemetry GrpcModule VideoModule NodeBehaviour StreamFacts StreamFaults VideoCapture EyeImages
    UndistortedEyes UdpSocket SurfaceShim TeleopLogger
begin

text \<open>
  A verification library for the robot side of a teleoperation bridge: a ROS 2 node that encodes the stereo camera
  and the microphone, sends them with robot telemetry over UDP to a headset, receives poses and audio from it, and
  is paired with it through a gRPC signaling service. The models are translated from the C++ files under \<open>src/\<close>.

  \<^bold>\<open>The parts and their theories.\<close>
  A class is a \<open>record\<close> of its members, a method a function from the object (and what it asks the outside world) to
  its result, its outputs in order, and the object after it. Names that several classes share carry a short prefix
  (\<open>vm_\<close>, \<open>gr_\<close>, \<open>am_\<close>, \<open>aud_\<close>, \<open>node_\<close>, \<open>enc_\<close>, \<open>dec_\<close>, \<open>und_\<close>, \<open>rec_\<close>, \<open>vs_\<close>, \<open>cp_\<close>,
  \<open>module_\<close>; \<open>cap_\<close> and \<open>vc_\<close> the camera, \<open>cc_\<close>, \<open>cu_\<close>, \<open>ce_\<close> the three CUDA sessions, \<open>ep_\<close> the eye images, \<open>sk_\<close> the socket).

  \<^item> \<open>Prelude\<close>: integer types of fixed width, containers of C++ as lists, little-endian fields.
  \<^item> \<open>Gf256\<close> (\<open>udp/gf256.cpp\<close>): the tables of GF(256); the field the multiplication implements.
  \<^item> \<open>Fec\<close> (\<open>udp/fec_v2.cpp\<close>): the parameter table and the Cauchy parity; the locale \<open>fec_encoder\<close>.
  \<^item> \<open>PacketCodec\<close> (\<open>udp/packet_codec.cpp\<close>, \<open>telemetry/robot_telemetry_types.hpp\<close>): the wire formats.
  \<^item> \<open>SendQueue\<close> (\<open>udp/send_queue.cpp\<close>): the bounded priority queue; the locale \<open>send_queue\<close>.
  \<^item> \<open>Pacer\<close> (\<open>udp/pacer.cpp\<close>), \<open>ControlPlane\<close> (\<open>udp/control_plane.cpp\<close>): the leaky bucket and the handshake.
  \<^item> \<open>UdpManager\<close> (\<open>udp/udp_manager.cpp\<close>): the producers, and one iteration of the FEC, receive and send threads.
  \<^item> \<open>PoseReceiver\<close> (\<open>udp/pose_udp_receiver.cpp\<close>), \<open>UdpModule\<close> (\<open>udp/udp_module.cpp\<close>).
  \<^item> \<open>AudioReceiver\<close>, \<open>AudioManager\<close>, \<open>AudioModule\<close> (\<open>audio/*.cpp\<close>): jitter buffer, pipelines, module.
  \<^item> \<open>RobotTelemetry\<close> (\<open>main_node.cpp\<close>): from ROS messages to telemetry packets.
  \<^item> \<open>GrpcManager\<close>, \<open>GrpcModule\<close> (\<open>grpc/*.cpp\<close>): the client, and its registration and heartbeat.
  \<^item> \<open>VideoModule\<close>, \<open>VideoEncoder\<close>, \<open>EncoderFacts\<close> (\<open>video/video_module.cpp\<close>, \<open>video/video_encoder.cpp\<close>).
  \<^item> \<open>SurfacePools\<close> (\<open>video/video_converter.cpp\<close>): a pool of surfaces and its tokens; the locale \<open>token_pool\<close>.
  \<^item> \<open>VideoUndistorter\<close>, \<open>VideoDecoder\<close>, \<open>VideoRecorder\<close> (\<open>video/video_undistorter.cpp\<close>, \<open>video/video_decoder.cpp\<close>,
    \<open>video/video_recorder.cpp\<close>): the other stages of the pipeline.
  \<^item> \<open>StreamConfig\<close>, \<open>VideoStream\<close> (\<open>video/video_stream_manager.cpp\<close>): the pipeline and its threads. \<open>SharedFrames\<close>
    and \<open>StreamInvariant\<close> hold its invariant, \<open>StreamFacts\<close> and \<open>StreamFaults\<close> its properties.
  \<^item> \<open>Ledgers\<close>: what an object takes from the system and gives back; the locale \<open>ledger\<close>.
  \<^item> \<open>VideoCapture\<close> (\<open>video/video_v4l2_capturer.cpp\<close>): the camera and its buffers.
  \<^item> \<open>GpuKernels\<close>, \<open>GpuSurfaces\<close>, \<open>GpuConverter\<close> (\<open>video/cuda_yuv422_converter.cu\<close>): threads and kernels, surfaces mapped
    into CUDA, the conversion to NV12. \<open>GpuRemap\<close>, \<open>GpuUndistorter\<close> (\<open>video/cuda_nv12_undistorter.cu\<close>): the interpolation in
    floats and the undistortion. \<open>GpuEyes\<close> (\<open>video/cuda_eye_image_processor.cu\<close>): the images of the eyes.
    \<open>UndistortedEyes\<close>: the map of the undistorter in its kernels.
  \<^item> \<open>EyeImages\<close> (\<open>video/eye_image_publisher.cpp\<close>): their publisher.
  \<^item> \<open>UdpSocket\<close> (\<open>udp/udp_socket.cpp\<close>), \<open>SurfaceShim\<close> (\<open>video/nvbufsurface_shim.cpp\<close>), \<open>TeleopLogger\<close>
    (\<open>utils/teleop_logger.cpp\<close>): the socket, the calls on surfaces by descriptor, the log file and its lines.
  \<^item> \<open>MainNode\<close>, \<open>NodeSession\<close>, \<open>NodeBehaviour\<close> (\<open>main_node.cpp\<close>): the node on top of the four modules.

  \<^bold>\<open>How they interact.\<close>
  The node owns the gRPC, audio, UDP and video modules and drives them through callbacks: a registration starts the
  UDP handshake, an event of the service pairs a peer, the negotiation timer publishes the configurations, and only
  then frames and audio packets pass from the encoder to the UDP module. There a frame is cut into fragments, parity
  is added per interleaving group, and the datagrams wait in the send queue for the pacer. Work of other threads
  reaches the node through its queue, so the handlers are functions of one state; what a thread does in one
  iteration is a function too, and the step relations (\<open>node_step\<close>, \<open>module_step\<close>, \<open>gr_step\<close>, \<open>cp_step\<close>,
  \<open>enc_step\<close> and, with the shutdown, \<open>enc_life\<close>, \<open>reachable\<close>, \<open>rx_reachable\<close>, \<open>aud_reachable\<close>, \<open>vs_reachable\<close>) interleave them. The objects that hold descriptors,
  mappings or memory of the GPU have a relation each (\<open>cap_step\<close>, \<open>sock_step\<close>, \<open>converter_step\<close>, \<open>cu_step\<close>, \<open>ep_step\<close>,
  \<open>log_step\<close>), and \<open>run_of\<close> collects the calls of a run.
  In the pipeline a frame is an index into the pools of the decoder and of the converter or undistorter; the
  reference count of a frame that the encoder and the eye images share is the number of places that hold it.

  \<^bold>\<open>What stands for the outside.\<close>
  Clocks, sockets, GStreamer, gRPC, the timers and parameters of ROS and the hardware codecs are not part of the
  repository: what they answer is an argument of the function that asks. A double is a rational, and \<open>fl\<close> is the
  rounding after each operation; theorems assume of it only that it is monotone and keeps the numbers named there, and the wait of the pacer also the
  error bound of doubles (\<open>double_rounding\<close>).
  A float of a kernel is a rational or not a number, with the rounding of \<open>float_ok\<close>, which leaves open whether a product and
  a sum are rounded once or twice. The threads of a kernel run in any order (\<open>executes\<close>, \<open>gpu_ok\<close>).
  Integers keep the width of the code and wrap; \<open>nat\<close> and \<open>int\<close> stand for sizes and indices that cannot overflow.

  \<^bold>\<open>What the lemmas show.\<close>
  The lemmas of a component keep its invariant (\<open>queue_ok\<close>, \<open>enc_wf\<close> and their like) through every operation; its
  properties follow by induction on its step relation. The laws of the four locales are discharged by the models of
  the code (\<open>token_pool\<close> by the converter, the undistorter and the decoder; \<open>ledger\<close> by the camera, the conversion, the
  undistortion, the publisher of eye images, the socket and the log), and clients of them are proved inside: what was
  taken and not given back is what the members of the object name, whatever failed half-way. The theorems on kernels
  hold for every order of the threads and every rounding: the conversion shows the picture of the source, the identity
  map undistorts nothing, an undistorted pixel is made of its eye and of the bytes around its entry of the map, and an eye
  image is made of its eye. \<open>Gf256\<close> and \<open>Fec\<close> show that the table arithmetic is a field and
  that the parity is a Cauchy code; this theory combines them with the fragmenting of \<open>UdpManager\<close>: the datagrams
  that arrive determine the frame. \<open>NodeSession\<close> is a refinement: every step of the node is a sequence of steps of
  a small session automaton, and the safety properties of the node are proved on the automaton.
  Loops are structural recursion or come with a termination proof; nothing runs on fuel.

  \<^bold>\<open>Not modelled.\<close>
  The log lines of the other components, and counters that only they use. The drivers behind the calls: what the kernel, the
  V4L2 device, EGL, CUDA, GStreamer, gRPC and the surfaces do is an argument, and that a device fills the buffer it was given
  is not said. Two threads inside one object at a time: locks are taken as they are written, so an operation is one step; in a
  pass of the send loop the calls of other threads on the queue come before each pop.
  The copies of the report, of the context and of the mapping that the other two CUDA files declare again are those of
  \<open>GpuSurfaces\<close>. The files of the build, the launch file and \<open>main\<close>, which starts the node.
\<close>

section \<open>What the receiver can recover\<close>

lemma group_count_iff:
  assumes "grp < g"
  shows "j < group_count grp g n \<longleftrightarrow> grp + j * g < n"
proof -
  have "group_count grp g n = (n - grp + g - 1) div g"
    using assms by (simp add: group_count_def source_indices_eq)
  moreover have "Suc j \<le> (n - grp + g - 1) div g \<longleftrightarrow> Suc j * g \<le> n - grp + g - 1"
    using assms by (intro less_eq_div_iff_mult_less_eq) simp
  moreover have "Suc j * g \<le> n - grp + g - 1 \<longleftrightarrow> grp + j * g < n"
    using assms by (cases "grp < n") auto
  ultimately show ?thesis by (simp only: Suc_le_eq)
qed

lemma pad_byte_chunk:
  assumes "take k (drop o1 d) = take k (drop o1 d')" "length d = length d'" "b < k"
  shows "pad_byte d (o1 + b) = pad_byte d' (o1 + b)"
proof (cases "o1 + b < length d")
  case True
  have "d ! (o1 + b) = take k (drop o1 d) ! b" using True assms(3) by simp
  also have "\<dots> = d' ! (o1 + b)" using True assms by (simp only: assms(1)) simp
  finally show ?thesis using True assms(2) by (simp add: pad_byte_def)
qed (use assms in \<open>simp add: pad_byte_def\<close>)

text \<open>The positions in the batch of a frame: sources first, then parity \<open>p\<close> of group \<open>grp\<close>.\<close>

abbreviation source_lost :: "nat set \<Rightarrow> nat \<Rightarrow> nat \<Rightarrow> nat \<Rightarrow> nat set" where
  "source_lost R n g grp \<equiv> {j. j < group_count grp g n \<and> grp + j * g \<notin> R}"

abbreviation parity_received :: "nat set \<Rightarrow> nat \<Rightarrow> nat \<Rightarrow> nat \<Rightarrow> nat \<Rightarrow> nat set" where
  "parity_received R n g r grp \<equiv> {p. p < r \<and> n + p * g + grp \<in> R}"

lemma batch_source:
  assumes "getParams tbl (fec_table_id (m_config m)) n = (True, g, r)"
    and "n = total_fragments_of (length (f_data frame)) (maxPayloadBytes (m_codec m))" "i < unat n"
  shows "fst (frame_batch (getParams tbl) buildParityInto now frame m) ! i = source_item m frame n True now i"
  using fec.batch_shape [OF assms(1,2), of now] assms(3) by (auto simp: nth_append)

lemma source_item_chunk:
  assumes "item_bytes (source_item m frame n fec now i) = item_bytes (source_item m frame' n fec now' i)"
  shows "take (maxPayloadBytes (m_codec m)) (drop (i * maxPayloadBytes (m_codec m)) (f_data frame))
    = take (maxPayloadBytes (m_codec m)) (drop (i * maxPayloadBytes (m_codec m)) (f_data frame'))"
  using source_item_parse [of m frame n fec now i] source_item_parse [of m frame' n fec now' i] assms by simp

text \<open>C1: End to end: take two frames of equal size that could be sent next, both granted FEC in groups of at
  most 128 fragments with at most 128 parity datagrams each. If the datagrams a receiver got, at the
  positions \<open>R\<close> of the batch, would be the same for both, and in every group at least as many parity
  datagrams arrived as source datagrams were lost, the frames are the same: what arrived determines
  the frame.\<close>

theorem received_datagrams_determine_frame:
  assumes params: "getParams tbl (fec_table_id (m_config m)) n = (True, g, r)"
    and n: "n = total_fragments_of (length (f_data frame)) (maxPayloadBytes (m_codec m))"
    and state: "cache_ok (m_fec m)" "0 < maxPayloadBytes (m_codec m)"
    and frames: "f_data frame \<noteq> []" "length (f_data frame') = length (f_data frame)"
      "length (f_data frame) \<le> 65535 * maxPayloadBytes (m_codec m)"
    and enough: "\<And>grp. grp < unat g \<Longrightarrow> group_count grp (unat g) (unat n) \<le> 128 \<and> unat r \<le> 128
        \<and> card (source_lost R (unat n) (unat g) grp) \<le> card (parity_received R (unat n) (unat g) (unat r) grp)"
    and same: "\<And>i. i \<in> R \<Longrightarrow> item_bytes (fst (frame_batch (getParams tbl) buildParityInto now frame m) ! i)
        = item_bytes (fst (frame_batch (getParams tbl) buildParityInto now' frame' m) ! i)"
  shows "f_data frame' = f_data frame"
proof -
  let ?mp = "maxPayloadBytes (m_codec m)"
  let ?d = "f_data frame" and ?d' = "f_data frame'"
  have n': "n = total_fragments_of (length ?d') ?mp" using n frames(2) by simp
  have ne': "?d' \<noteq> []" using frames(1,2) by auto
  have len: "length ?d = length ?d'" using frames(2) by simp
  have "0 < g" using getParams_valid [OF params] by blast
  then have g: "0 < unat g" by (simp add: word_less_nat_alt)
  have source: "pad_byte ?d (i * ?mp + b) = pad_byte ?d' (i * ?mp + b)" if "i \<in> R" "i < unat n" "b < ?mp" for i b
    using source_item_chunk [of m frame n True now i frame' now'] same [OF that(1)]
      batch_source [OF params n that(2), of now] batch_source [OF params n' that(2), of now'] len that(3)
    by (intro pad_byte_chunk) auto
  have parity: "parity_spec ?d (unat n) (unat g) ?mp p grp b = parity_spec ?d' (unat n) (unat g) ?mp p grp b"
    if "p \<in> parity_received R (unat n) (unat g) (unat r) grp" "grp < unat g" "b < ?mp" for p grp b
    using parity_on_wire [OF params state(1) n state(2) frames(1) refl _ that(2,3), of p now]
      parity_on_wire [OF params state(1) n' state(2) ne' refl _ that(2,3), of p now'] same that(1) by auto
  have "?d ! k = ?d' ! k" if k: "k < length ?d" for k
  proof -
    let ?s = "k div ?mp" and ?b = "k mod ?mp"
    let ?grp = "?s mod unat g" and ?j = "?s div unat g"
    have b: "?b < ?mp" using state(2) by simp
    have grp: "?grp < unat g" using g by simp
    have s: "?grp + ?j * unat g = ?s" by simp
    have "?s < unat n"
      using k fragment_count_bounds(1) [OF state(2), of "length ?d"] total_fragments_unat [OF state(2) frames(3)] n
      by (simp add: less_mult_imp_div_less)
    then have j: "?j < group_count ?grp (unat g) (unat n)" by (simp add: group_count_iff [OF grp] s)
    have "pad_byte ?d ((?grp + ?j * unat g) * ?mp + ?b) = pad_byte ?d' ((?grp + ?j * unat g) * ?mp + ?b)"
    proof (rule parity_spec_unique [where E = "source_lost R (unat n) (unat g) ?grp"
          and P = "parity_received R (unat n) (unat g) (unat r) ?grp" and r = "unat r"])
      show "pad_byte ?d ((?grp + i * unat g) * ?mp + ?b) = pad_byte ?d' ((?grp + i * unat g) * ?mp + ?b)"
        if "i < group_count ?grp (unat g) (unat n)" "i \<notin> source_lost R (unat n) (unat g) ?grp" for i
        using that source [of "?grp + i * unat g" ?b] b group_count_iff [OF grp, of i "unat n"] by auto
    qed (use j enough [OF grp] parity grp b in auto)
    then show ?thesis using k len by (simp only: s) (simp add: pad_byte_def)
  qed
  then show ?thesis using len by (simp add: list_eq_iff_nth_eq)
qed

text \<open>Of two frames that differ in their third byte, the first source datagrams agree, so the parity datagrams differ.\<close>

theorem received_datagrams_determine_frame_witness:
  "item_bytes (fst (frame_batch (getParams one_row_table) buildParityInto 0 (sample_frame [1, 2, 3]) (sample_manager 2)) ! 2)
   \<noteq> item_bytes (fst (frame_batch (getParams one_row_table) buildParityInto 0 (sample_frame [1, 2, 4]) (sample_manager 2)) ! 2)"
proof
  let ?b = "\<lambda>d. fst (frame_batch (getParams one_row_table) buildParityInto 0 (sample_frame d) (sample_manager 2))"
  assume eq: "item_bytes (?b [1, 2, 3] ! 2) = item_bytes (?b [1, 2, 4] ! 2)"
  have params: "getParams one_row_table (fec_table_id (m_config (sample_manager 2))) 2 = (True, 1, 1)"
    by (simp add: getParams_def one_row_table_def Let_def UdpConfig_default_def fec_table_empty_def)
  have n: "(2 :: u16) = total_fragments_of (length (f_data (sample_frame d))) (maxPayloadBytes (m_codec (sample_manager 2)))"
    if "length d = 3" for d using that by (simp add: total_fragments_of_def sample_frame_def)
  have first: "item_bytes (?b [1, 2, 3] ! 0) = item_bytes (?b [1, 2, 4] ! 0)"
    using batch_source [OF params n, of "[1, 2, 3]" 0 0] batch_source [OF params n, of "[1, 2, 4]" 0 0]
    by (simp add: source_item_def sample_frame_def Let_def)
  have gc: "j < group_count 0 1 2 \<longleftrightarrow> j < 2" for j using group_count_iff [of 0 1 j 2] by simp
  have cnt: "group_count 0 1 2 = 2" by (simp add: group_count_def source_indices_eq)
  have lost: "source_lost {0, 2} 2 1 0 = {1}" by (auto simp: gc simp del: One_nat_def)
  have got: "parity_received {0, 2} 2 1 1 0 = {0}" by auto
  have "f_data (sample_frame [1, 2, 4]) = f_data (sample_frame [1, 2, 3])"
  proof (rule received_datagrams_determine_frame [OF params n, where R = "{0, 2}" and now = 0 and now' = 0])
    show "cache_ok (m_fec (sample_manager 2))" by (simp add: cache_ok_def sample_manager_def UdpManager_init_def)
    show "group_count grp (unat (1 :: u8)) (unat (2 :: u16)) \<le> 128 \<and> unat (1 :: u8) \<le> 128
        \<and> card (source_lost {0, 2} (unat (2 :: u16)) (unat (1 :: u8)) grp)
          \<le> card (parity_received {0, 2} (unat (2 :: u16)) (unat (1 :: u8)) (unat (1 :: u8)) grp)"
      if "grp < unat (1 :: u8)" for grp
    proof -
      have "grp = 0" using that by simp
      with lost got cnt show ?thesis by (simp only: unat_1 unsigned_numeral) simp
    qed
    show "item_bytes (?b [1, 2, 3] ! i) = item_bytes (?b [1, 2, 4] ! i)" if "i \<in> {0, 2}" for i
      using that eq first by blast
  qed (simp_all add: sample_frame_def)
  then show False by (simp add: sample_frame_def)
qed

end
